(* ===== verification/Js_Base.thy ===== *)
theory Js_Base
  imports Complex_Main "HOL-Library.Char_ord" "HOL-Library.List_Lexorder"
begin

text \<open>
  The prelude of the development: the part of the language runtime the modelled sources rely on.

  \<^item> \<open>jsnum\<close> is the language's number type. A number is a finite value, one of the two infinities
    or NaN; every comparison with NaN is false, \<open>Math.max\<close> and \<open>Math.min\<close> propagate NaN, and an
    arithmetic result beyond the double range overflows to an infinity. Finite values are exact
    rationals: the rounding of a double's last bits and the sign of zero are not modelled.
  \<^item> Strings are byte sequences (\<open>string\<close>); \<open>trim\<close> and \<open>toLowerCase\<close> are modelled on ASCII.
    A template literal that interpolates numbers is a \<open>msg\<close>, the list of its parts.
  \<^item> \<open>jsval\<close> is a dynamically typed value (a payload, or an input of type \<open>unknown\<close>).
  \<^item> A plain object used as a table is an association list read and written at its own keys.
\<close>

named_theorems num_defs \<open>definitions of the normalising helpers on numbers\<close>


section \<open>Numbers\<close>

datatype jsnum = Fin rat | PInf | NInf | NaN

definition num_max :: rat where
  "num_max = 2 ^ 1024 - 2 ^ 970"

definition num_of_rat :: "rat \<Rightarrow> jsnum" where
  "num_of_rat q = (if num_max \<le> q then PInf else if q \<le> - num_max then NInf else Fin q)"

fun isFinite :: "jsnum \<Rightarrow> bool" where
  "isFinite (Fin _) = True"
| "isFinite _ = False"

fun num_lt :: "jsnum \<Rightarrow> jsnum \<Rightarrow> bool" where
  "num_lt (Fin a) (Fin b) = (a < b)"
| "num_lt NaN _ = False"
| "num_lt _ NaN = False"
| "num_lt PInf _ = False"
| "num_lt _ NInf = False"
| "num_lt _ _ = True"

fun num_le :: "jsnum \<Rightarrow> jsnum \<Rightarrow> bool" where
  "num_le (Fin a) (Fin b) = (a \<le> b)"
| "num_le NaN _ = False"
| "num_le _ NaN = False"
| "num_le _ PInf = True"
| "num_le NInf _ = True"
| "num_le _ _ = False"

abbreviation num_ge :: "jsnum \<Rightarrow> jsnum \<Rightarrow> bool" where
  "num_ge a b \<equiv> num_le b a"

fun num_add :: "jsnum \<Rightarrow> jsnum \<Rightarrow> jsnum" where
  "num_add (Fin a) (Fin b) = num_of_rat (a + b)"
| "num_add NaN _ = NaN"
| "num_add _ NaN = NaN"
| "num_add PInf NInf = NaN"
| "num_add NInf PInf = NaN"
| "num_add PInf _ = PInf"
| "num_add _ PInf = PInf"
| "num_add NInf _ = NInf"
| "num_add _ NInf = NInf"

fun num_neg :: "jsnum \<Rightarrow> jsnum" where
  "num_neg (Fin a) = Fin (- a)"
| "num_neg PInf = NInf"
| "num_neg NInf = PInf"
| "num_neg NaN = NaN"

definition num_sub :: "jsnum \<Rightarrow> jsnum \<Rightarrow> jsnum" where
  "num_sub a b = num_add a (num_neg b)"

text \<open>An infinity times a finite value: NaN at zero, otherwise signed.\<close>

definition inf_times :: "bool \<Rightarrow> rat \<Rightarrow> jsnum" where
  "inf_times pos q = (if q = 0 then NaN else if pos = (0 < q) then PInf else NInf)"

fun num_mul :: "jsnum \<Rightarrow> jsnum \<Rightarrow> jsnum" where
  "num_mul (Fin a) (Fin b) = num_of_rat (a * b)"
| "num_mul NaN _ = NaN"
| "num_mul _ NaN = NaN"
| "num_mul PInf (Fin b) = inf_times True b"
| "num_mul NInf (Fin b) = inf_times False b"
| "num_mul (Fin a) PInf = inf_times True a"
| "num_mul (Fin a) NInf = inf_times False a"
| "num_mul PInf PInf = PInf"
| "num_mul NInf NInf = PInf"
| "num_mul _ _ = NInf"

fun num_div :: "jsnum \<Rightarrow> jsnum \<Rightarrow> jsnum" where
  "num_div (Fin a) (Fin b) =
     (if b = 0 then (if a = 0 then NaN else if 0 < a then PInf else NInf)
      else num_of_rat (a / b))"
| "num_div NaN _ = NaN"
| "num_div _ NaN = NaN"
| "num_div (Fin _) _ = Fin 0"
| "num_div PInf (Fin b) = (if b < 0 then NInf else PInf)"
| "num_div NInf (Fin b) = (if b < 0 then PInf else NInf)"
| "num_div _ _ = NaN"

fun math_max :: "jsnum \<Rightarrow> jsnum \<Rightarrow> jsnum" where
  "math_max NaN _ = NaN"
| "math_max _ NaN = NaN"
| "math_max a b = (if num_le a b then b else a)"

fun math_min :: "jsnum \<Rightarrow> jsnum \<Rightarrow> jsnum" where
  "math_min NaN _ = NaN"
| "math_min _ NaN = NaN"
| "math_min a b = (if num_le a b then a else b)"

fun math_floor :: "jsnum \<Rightarrow> jsnum" where
  "math_floor (Fin q) = Fin (of_int \<lfloor>q\<rfloor>)"
| "math_floor x = x"

fun math_trunc :: "jsnum \<Rightarrow> jsnum" where
  "math_trunc (Fin q) = Fin (of_int (if q < 0 then \<lceil>q\<rceil> else \<lfloor>q\<rfloor>))"
| "math_trunc x = x"

fun math_round :: "jsnum \<Rightarrow> jsnum" where
  "math_round (Fin q) = Fin (of_int \<lfloor>q + 1 / 2\<rfloor>)"
| "math_round x = x"

text \<open>\<open>Number(value.toFixed(3))\<close>: nearest thousandth, ties away from zero; a value of
  magnitude \<open>10 ^ 21\<close> or more prints unchanged.\<close>

fun to_fixed3 :: "jsnum \<Rightarrow> jsnum" where
  "to_fixed3 (Fin q) =
     (if 10 ^ 21 \<le> \<bar>q\<bar> then Fin q
      else if q < 0 then Fin (- (of_int \<lfloor>- q * 1000 + 1 / 2\<rfloor> / 1000))
      else Fin (of_int \<lfloor>q * 1000 + 1 / 2\<rfloor> / 1000))"
| "to_fixed3 x = x"

abbreviation num_of_nat :: "nat \<Rightarrow> jsnum" where
  "num_of_nat n \<equiv> Fin (of_nat n)"

definition is_count :: "jsnum \<Rightarrow> bool" where
  "is_count x \<longleftrightarrow> isFinite x \<and> num_le (Fin 0) x \<and> math_floor x = x"

text \<open>A value a double can hold: its magnitude is below the overflow bound.\<close>

definition representable :: "jsnum \<Rightarrow> bool" where
  "representable x = (case x of Fin q \<Rightarrow> \<bar>q\<bar> < num_max | _ \<Rightarrow> True)"

definition is_nonneg :: "jsnum \<Rightarrow> bool" where
  "is_nonneg x \<longleftrightarrow> isFinite x \<and> num_le (Fin 0) x"


section \<open>Text and dynamically typed values\<close>

datatype part = Lit string | NumV jsnum

type_synonym msg = "part list"

abbreviation lit :: "string \<Rightarrow> msg" where
  "lit s \<equiv> [Lit s]"

text \<open>The UTF-8 bytes of the non-ASCII characters in the modelled messages.\<close>

definition ge_sign :: string where
  "ge_sign = [CHR 0xE2, CHR 0x89, CHR 0xA5]"

definition le_sign :: string where
  "le_sign = [CHR 0xE2, CHR 0x89, CHR 0xA4]"

definition em_dash :: string where
  "em_dash = [CHR 0xE2, CHR 0x80, CHR 0x94]"

fun text_join :: "string \<Rightarrow> msg list \<Rightarrow> msg" where
  "text_join sep [] = []"
| "text_join sep [t] = t"
| "text_join sep (t # u # us) = t @ lit sep @ text_join sep (u # us)"

fun str_join :: "string \<Rightarrow> string list \<Rightarrow> string" where
  "str_join sep [] = []"
| "str_join sep [s] = s"
| "str_join sep (s # t # ts) = s @ sep @ str_join sep (t # ts)"

text \<open>\<open>s.split(c)\<close> for a one-character separator.\<close>

fun split_on :: "char \<Rightarrow> string \<Rightarrow> string list" where
  "split_on c [] = [[]]"
| "split_on c (x # xs) =
     (if x = c then [] # split_on c xs
      else (case split_on c xs of [] \<Rightarrow> [[x]] | y # ys \<Rightarrow> (x # y) # ys))"

text \<open>The characters of a template literal once its numbers are printed by \<open>show_num\<close>.\<close>

fun render :: "(jsnum \<Rightarrow> string) \<Rightarrow> msg \<Rightarrow> string" where
  "render show_num [] = []"
| "render show_num (Lit s # m) = s @ render show_num m"
| "render show_num (NumV x # m) = show_num x @ render show_num m"

datatype jsval =
    JUndef | JNull | JBool bool | JNum jsnum | JStr string | JTxt msg
  | JArr "jsval list" | JObj "(string \<times> jsval) list"

definition is_ws :: "char \<Rightarrow> bool" where
  "is_ws c \<longleftrightarrow> c \<in> {CHR 0x09, CHR 0x0A, CHR 0x0B, CHR 0x0C, CHR 0x0D, CHR 0x20}"

definition trim :: "string \<Rightarrow> string" where
  "trim s = rev (dropWhile is_ws (rev (dropWhile is_ws s)))"

definition lower_char :: "char \<Rightarrow> char" where
  "lower_char c = (if CHR ''A'' \<le> c \<and> c \<le> CHR ''Z'' then char_of (of_char c + (32::nat)) else c)"

definition toLowerCase :: "string \<Rightarrow> string" where
  "toLowerCase s = map lower_char s"


text \<open>\<open>s.replace(/\s+/g, " ")\<close>; the flag says that the previous character was a blank.\<close>

fun collapse_ws :: "bool \<Rightarrow> string \<Rightarrow> string" where
  "collapse_ws prev [] = []"
| "collapse_ws prev (c # s) =
     (if is_ws c then (if prev then [] else [CHR 0x20]) @ collapse_ws True s else c # collapse_ws False s)"

text \<open>The decimal digits of a natural number.\<close>

fun show_nat :: "nat \<Rightarrow> string" where
  "show_nat n = (if n < 10 then [char_of (48 + n)] else show_nat (n div 10) @ [char_of (48 + n mod 10)])"

declare show_nat.simps [simp del]

text \<open>\<open>x ?? d\<close>.\<close>

definition or_default :: "'a option \<Rightarrow> 'a \<Rightarrow> 'a" where
  "or_default x d = (case x of None \<Rightarrow> d | Some v \<Rightarrow> v)"

lemma or_default_simps [simp]: "or_default None d = d" "or_default (Some v) d = v"
  by (simp_all add: or_default_def)


text \<open>Sequencing of fallible steps: the first thrown error ends the computation.\<close>

fun and_then :: "'e + 'a \<Rightarrow> ('a \<Rightarrow> 'e + 'b) \<Rightarrow> 'e + 'b" where
  "and_then (Inl e) f = Inl e"
| "and_then (Inr x) f = f x"

lemma and_then_Inr: "and_then r f = Inr y \<longleftrightarrow> (\<exists>x. r = Inr x \<and> f x = Inr y)"
  by (cases r) auto


section \<open>Objects as tables\<close>

text \<open>\<open>table_put\<close> is \<open>{ ...t, [k]: v }\<close>: an own key keeps its place, a new one goes last;
  \<open>table_del\<close> is \<open>delete t[k]\<close>.\<close>

type_synonym 'v jstable = "(string \<times> 'v) list"

fun table_put :: "string \<Rightarrow> 'v \<Rightarrow> 'v jstable \<Rightarrow> 'v jstable" where
  "table_put k v [] = [(k, v)]"
| "table_put k v ((a, w) # t) = (if a = k then (k, v) # t else (a, w) # table_put k v t)"

definition table_del :: "string \<Rightarrow> 'v jstable \<Rightarrow> 'v jstable" where
  "table_del k t = filter (\<lambda>p. fst p \<noteq> k) t"


section \<open>Generic lemmas\<close>

subsection \<open>Numbers\<close>

lemma num_max_large: "10 ^ 30 < num_max"
  unfolding num_max_def by simp

lemma num_max_pos [simp]: "0 < num_max"
  using num_max_large by (rule less_trans [rotated]) simp

lemma num_max_nonneg [simp]: "0 \<le> num_max" "- num_max \<le> 0" "- num_max < num_max" "\<not> num_max \<le> 0"
  using num_max_pos by linarith+

lemma num_of_rat_small: "\<bar>q\<bar> \<le> 10 ^ 30 \<Longrightarrow> num_of_rat q = Fin q"
  using num_max_large unfolding num_of_rat_def by auto

lemma num_of_rat_unit: "0 \<le> q \<Longrightarrow> q \<le> 1 \<Longrightarrow> num_of_rat q = Fin q"
  by (rule num_of_rat_small) simp

lemma num_of_rat_not_NaN [simp]: "num_of_rat q \<noteq> NaN"
  by (simp add: num_of_rat_def)

lemma num_of_rat_Fin_iff: "num_of_rat q = Fin r \<longleftrightarrow> q = r \<and> \<bar>q\<bar> < num_max"
  using num_max_pos by (auto simp: num_of_rat_def abs_less_iff)

lemma num_of_rat_within: "\<bar>q\<bar> < num_max \<Longrightarrow> num_of_rat q = Fin q"
  by (simp add: num_of_rat_Fin_iff)

lemma num_le_zero_of_rat [simp]: "num_le (Fin 0) (num_of_rat q) \<longleftrightarrow> 0 \<le> q"
proof -
  have "num_max \<le> q \<Longrightarrow> 0 \<le> q" and "q \<le> - num_max \<Longrightarrow> \<not> 0 \<le> q"
    using num_max_pos by linarith+
  then show ?thesis by (auto simp: num_of_rat_def)
qed

lemma num_le_of_rat: "\<bar>w\<bar> < num_max \<Longrightarrow> num_le (Fin w) (num_of_rat q) \<longleftrightarrow> w \<le> q"
  by (auto simp: num_of_rat_def abs_less_iff)

lemma num_sub_Fin [simp]: "num_sub (Fin a) (Fin b) = num_of_rat (a - b)"
  by (simp add: num_sub_def)

lemma num_sub_of_rat_ge:
  assumes "1 \<le> q" shows "num_le (Fin 0) (num_sub (num_of_rat q) (Fin 1))"
proof -
  have "\<not> q \<le> - num_max" using assms num_max_pos by linarith
  then show ?thesis using assms by (simp add: num_of_rat_def num_sub_def)
qed

lemma isFinite_iff: "isFinite x \<longleftrightarrow> (\<exists>q. x = Fin q)"
  by (cases x) auto

lemma num_lt_irrefl [simp]: "\<not> num_lt x x"
  by (cases x) auto

lemma num_lt_asym: "num_lt x y \<Longrightarrow> \<not> num_lt y x"
  by (cases x; cases y) auto

lemma num_lt_trans: "num_lt x y \<Longrightarrow> num_lt y z \<Longrightarrow> num_lt x z"
  by (cases x; cases y; cases z) auto

lemma num_le_lt_trans: "num_le x y \<Longrightarrow> num_lt y z \<Longrightarrow> num_lt x z"
  by (cases x; cases y; cases z) auto

lemma num_not_le: "x \<noteq> NaN \<Longrightarrow> y \<noteq> NaN \<Longrightarrow> \<not> num_le x y \<longleftrightarrow> num_lt y x"
  by (cases x; cases y) auto

lemma num_not_lt: "x \<noteq> NaN \<Longrightarrow> y \<noteq> NaN \<Longrightarrow> \<not> num_lt x y \<longleftrightarrow> num_le y x"
  by (cases x; cases y) auto

lemma num_add_not_NaN: "x \<noteq> NaN \<Longrightarrow> isFinite y \<Longrightarrow> num_add x y \<noteq> NaN"
  by (cases x; cases y) auto

lemma math_max_zero_Fin [simp]: "math_max (Fin 0) (Fin q) = Fin (max 0 q)"
  by (simp add: max_def)

lemma math_max_Fin [simp]: "math_max (Fin p) (Fin q) = Fin (max p q)"
  by (simp add: max_def)

lemma math_min_Fin [simp]: "math_min (Fin p) (Fin q) = Fin (min p q)"
  by (simp add: min_def)

declare math_max.simps(3-) [simp del] math_min.simps(3-) [simp del]

lemma is_countE:
  assumes "is_count x"
  obtains n where "x = num_of_nat n"
proof -
  from assms obtain q where x: "x = Fin q" and q: "0 \<le> q" "of_int \<lfloor>q\<rfloor> = q"
    by (auto simp: is_count_def isFinite_iff)
  then have "0 \<le> \<lfloor>q\<rfloor>" by simp
  then have "rat_of_nat (nat \<lfloor>q\<rfloor>) = of_int \<lfloor>q\<rfloor>" by (simp add: of_nat_nat)
  with x q(2) have "x = num_of_nat (nat \<lfloor>q\<rfloor>)" by metis
  then show thesis by (rule that)
qed

lemma is_count_num_of_nat [simp]: "is_count (num_of_nat n)"
  by (simp add: is_count_def)

lemma is_count_iff: "is_count x \<longleftrightarrow> (\<exists>n. x = num_of_nat n)"
  by (metis is_countE is_count_num_of_nat)

lemma is_count_nonneg: "is_count x \<Longrightarrow> is_nonneg x"
  by (simp add: is_count_def is_nonneg_def)

lemma is_nonneg_iff: "is_nonneg x \<longleftrightarrow> (\<exists>q\<ge>0. x = Fin q)"
  by (cases x) (auto simp: is_nonneg_def)


subsection \<open>Strings\<close>

lemma trim_Nil [simp]: "trim [] = []"
  by (simp add: trim_def)

lemma dropWhile_fix: "(xs = [] \<or> \<not> P (hd xs)) \<Longrightarrow> dropWhile P xs = xs"
  by (cases xs) auto

lemma dropWhile_rev_dropWhile:
  "dropWhile P (rev (dropWhile P (rev (dropWhile P xs)))) = rev (dropWhile P (rev (dropWhile P xs)))"
proof -
  let ?u = "dropWhile P xs"
  let ?v = "dropWhile P (rev ?u)"
  have split: "?u = rev ?v @ rev (takeWhile P (rev ?u))"
    by (metis rev_append rev_rev_ident takeWhile_dropWhile_id)
  have "\<not> P (hd (rev ?v))" if "rev ?v \<noteq> []"
  proof -
    from that split have "hd ?u = hd (rev ?v)" and "?u \<noteq> []" by (metis hd_append2, force)
    then show ?thesis by (metis hd_dropWhile)
  qed
  then show ?thesis by (intro dropWhile_fix) blast
qed

lemma trim_trim [simp]: "trim (trim s) = trim s"
proof -
  let ?t = "dropWhile is_ws (rev (dropWhile is_ws s))"
  have "dropWhile is_ws (rev ?t) = rev ?t"
    by (rule dropWhile_rev_dropWhile)
  then show ?thesis
    by (simp add: trim_def dropWhile_idem)
qed

lemma set_trim: "set (trim s) \<subseteq> set s"
  unfolding trim_def by (auto dest!: set_dropWhileD)

lemma lower_char_idem [simp]: "lower_char (lower_char c) = lower_char c"
proof (cases "CHR ''A'' \<le> c \<and> c \<le> CHR ''Z''")
  case True
  define n where "n = (of_char c :: nat)"
  have n: "65 \<le> n" "n \<le> 90" and c: "c = char_of n"
    using True unfolding n_def less_eq_char_def by simp_all
  have "lower_char c = char_of (n + 32)" using True by (simp add: lower_char_def n_def)
  moreover have "\<not> (char_of (n + 32) \<le> CHR ''Z'')"
    using n by (simp add: less_eq_char_def)
  ultimately show ?thesis by (simp add: lower_char_def)
next
  case False
  then have "lower_char c = c" unfolding lower_char_def by (rule if_not_P)
  then show ?thesis by simp
qed

lemma trim_fix: "\<forall>c \<in> set s. \<not> is_ws c \<Longrightarrow> trim s = s"
proof -
  assume a: "\<forall>c \<in> set s. \<not> is_ws c"
  have "dropWhile is_ws s = s" by (rule dropWhile_fix) (use a in auto)
  moreover have "dropWhile is_ws (rev s) = rev s"
    by (rule dropWhile_fix) (use a in \<open>auto simp: hd_rev\<close>)
  ultimately show ?thesis by (simp add: trim_def)
qed

lemma trim_eq_Nil: "trim s = [] \<longleftrightarrow> (\<forall>c \<in> set s. is_ws c)"
proof
  assume "trim s = []"
  then have "\<forall>c \<in> set (dropWhile is_ws s). is_ws c" by (simp add: trim_def dropWhile_eq_Nil_conv)
  moreover have "\<forall>c \<in> set (takeWhile is_ws s). is_ws c" by (auto dest: set_takeWhileD)
  ultimately show "\<forall>c \<in> set s. is_ws c"
    by (metis Un_iff set_append takeWhile_dropWhile_id)
next
  assume "\<forall>c \<in> set s. is_ws c"
  then have "dropWhile is_ws s = []" by (simp add: dropWhile_eq_Nil_conv)
  then show "trim s = []" unfolding trim_def by (metis dropWhile.simps(1) rev.simps(1))
qed

lemma toLowerCase_idem [simp]: "toLowerCase (toLowerCase s) = toLowerCase s"
  by (simp add: toLowerCase_def)

lemma toLowerCase_Nil [simp]: "toLowerCase [] = []"
  by (simp add: toLowerCase_def)

lemma toLowerCase_eq_Nil [simp]: "toLowerCase s = [] \<longleftrightarrow> s = []"
  by (simp add: toLowerCase_def)


lemma is_ws_lower_char [simp]: "is_ws (lower_char c) = is_ws c"
proof (cases "CHR ''A'' \<le> c \<and> c \<le> CHR ''Z''")
  case True
  define n where "n = (of_char c :: nat)"
  have n: "65 \<le> n" "n \<le> 90" and c: "c = char_of n"
    using True unfolding n_def less_eq_char_def by simp_all
  have ws: "is_ws d \<Longrightarrow> (of_char d :: nat) \<le> 32" for d by (auto simp: is_ws_def)
  have "lower_char c = char_of (n + 32)" using True by (simp add: lower_char_def n_def)
  with ws[of c] ws[of "lower_char c"] n c show ?thesis by auto
next
  case False
  then have "lower_char c = c" unfolding lower_char_def by (rule if_not_P)
  then show ?thesis by simp
qed

lemma trim_toLowerCase: "trim (toLowerCase s) = toLowerCase (trim s)"
proof -
  have "dropWhile is_ws (map lower_char xs) = map lower_char (dropWhile is_ws xs)" for xs
    by (simp add: dropWhile_map comp_def)
  then show ?thesis by (simp add: trim_def toLowerCase_def rev_map)
qed

lemma split_on_not_Nil [simp]: "split_on c s \<noteq> []"
  by (induction s) (auto split: list.splits)

lemma split_on_no_sep: "c \<notin> set s \<Longrightarrow> split_on c s = [s]"
  by (induction s) auto

lemma split_on_append_sep: "c \<notin> set s \<Longrightarrow> split_on c (s @ c # t) = s # split_on c t"
  by (induction s) auto

lemma append_sep_inj:
  "c \<notin> set a \<Longrightarrow> c \<notin> set b \<Longrightarrow> a @ c # x = b @ c # y \<longleftrightarrow> a = b \<and> x = y"
proof (induction a arbitrary: b)
  case Nil then show ?case by (cases b) auto
next
  case (Cons d a) then show ?case by (cases b) auto
qed


subsection \<open>Lists\<close>

lemma sum_list_less:
  fixes f g :: "'a \<Rightarrow> nat"
  shows "(\<And>x. x \<in> set xs \<Longrightarrow> f x \<le> g x) \<Longrightarrow> y \<in> set xs \<Longrightarrow> f y < g y \<Longrightarrow>
    (\<Sum>x\<leftarrow>xs. f x) < (\<Sum>x\<leftarrow>xs. g x)"
proof (induction xs)
  case (Cons a xs)
  have le: "(\<Sum>x\<leftarrow>xs. f x) \<le> (\<Sum>x\<leftarrow>xs. g x)" using Cons.prems(1) by (intro sum_list_mono) auto
  show ?case
  proof (cases "y = a")
    case True with le Cons.prems show ?thesis by auto
  next
    case False
    then have "(\<Sum>x\<leftarrow>xs. f x) < (\<Sum>x\<leftarrow>xs. g x)" using Cons by auto
    moreover have "f a \<le> g a" using Cons.prems by simp
    ultimately show ?thesis by simp
  qed
qed simp


subsection \<open>Tables\<close>

lemma map_of_table_put [simp]: "map_of (table_put k v t) = (map_of t)(k \<mapsto> v)"
  by (induction k v t rule: table_put.induct) (auto simp: fun_upd_def)

lemma map_of_table_del [simp]: "map_of (table_del k t) = (map_of t)(k := None)"
  by (induction t) (auto simp: table_del_def fun_upd_def)

lemma table_put_keys: "fst ` set (table_put k v t) = insert k (fst ` set t)"
  by (induction k v t rule: table_put.induct) auto


section \<open>Runs of a step function\<close>

fun mealy_outputs :: "('s \<Rightarrow> 'i \<Rightarrow> 's \<times> 'o) \<Rightarrow> 's \<Rightarrow> 'i list \<Rightarrow> 'o list" where
  "mealy_outputs step s [] = []"
| "mealy_outputs step s (i # is) = snd (step s i) # mealy_outputs step (fst (step s i)) is"

fun mealy_state :: "('s \<Rightarrow> 'i \<Rightarrow> 's \<times> 'o) \<Rightarrow> 's \<Rightarrow> 'i list \<Rightarrow> 's" where
  "mealy_state step s [] = s"
| "mealy_state step s (i # is) = mealy_state step (fst (step s i)) is"

lemma length_mealy_outputs [simp]: "length (mealy_outputs step s is) = length is"
  by (induction "is" arbitrary: s) auto

text \<open>A latch: once halted, a component stays halted and grants nothing.\<close>

locale latch =
  fixes step :: "'s \<Rightarrow> 'i \<Rightarrow> 's \<times> bool"
    and halted :: "'s \<Rightarrow> bool"
  assumes stays: "halted s \<Longrightarrow> halted (fst (step s i))"
    and blocks: "halted s \<Longrightarrow> \<not> snd (step s i)"
begin

lemma halted_grants_nothing:
  "halted s \<Longrightarrow> mealy_outputs step s is = replicate (length is) False"
  by (induction "is" arbitrary: s) (auto simp: blocks stays)

end

text \<open>A latch that every refusal sets.\<close>

locale halt_latch = latch +
  assumes refusal_halts: "\<not> snd (step s i) \<Longrightarrow> halted (fst (step s i))"
begin

lemma grants_are_a_prefix:
  "\<exists>n \<le> length is. mealy_outputs step s is = replicate n True @ replicate (length is - n) False"
proof (induction "is" arbitrary: s)
  case (Cons i "is")
  show ?case
  proof (cases "snd (step s i)")
    case True
    obtain n where "n \<le> length is" "mealy_outputs step (fst (step s i)) is
        = replicate n True @ replicate (length is - n) False"
      using Cons.IH by blast
    with True show ?thesis by (intro exI[of _ "Suc n"]) simp
  next
    case False
    then have "halted (fst (step s i))" by (rule refusal_halts)
    with False show ?thesis
      by (intro exI[of _ 0]) (simp add: halted_grants_nothing)
  qed
qed simp

end


section \<open>Sweeping stale leases\<close>

text \<open>Looking a row up by its key in an updated table.\<close>

lemma find_map_key:
  "(\<And>r. key (g r) = key r) \<Longrightarrow> find (\<lambda>r. key r = k) (map g rows) = map_option g (find (\<lambda>r. key r = k) rows)"
  by (induction rows) auto

lemma find_append: "find P (xs @ ys) = (case find P xs of None \<Rightarrow> find P ys | Some x \<Rightarrow> Some x)"
  by (induction xs) auto

text \<open>Several stores hand out rows and take back the stale ones: a row is addressed by its key, is live while it is handed
  out, and freeing it keeps its key. Freeing the stale rows one by one, each by its key, frees exactly them.\<close>

locale lease_sweep =
  fixes key :: "'r \<Rightarrow> 'k"
    and live :: "'r \<Rightarrow> bool"
    and free :: "'r \<Rightarrow> 'r"
  assumes free_key: "key (free r) = key r"
    and free_dead: "\<not> live (free r)"
begin

lemma free_keys: "map key (map (\<lambda>x. if P x then free x else x) rows) = map key rows"
  by (simp add: free_key)

lemma free_more:
  "map (\<lambda>x. if key x \<in> K \<and> live x then free x else x) (map (\<lambda>x. if key x = k \<and> live x then free x else x) rows) =
     map (\<lambda>x. if key x \<in> insert k K \<and> live x then free x else x) rows"
  by (auto simp: free_key free_dead)

lemma free_exactly:
  assumes "distinct (map key rows)" "\<And>r. stale r \<Longrightarrow> live r" "set rs = {r \<in> set rows. stale r}"
  shows "map (\<lambda>x. if key x \<in> key ` set rs \<and> live x then free x else x) rows =
    map (\<lambda>x. if stale x then free x else x) rows"
proof (rule map_cong[OF refl])
  fix x assume "x \<in> set rows"
  then have "key x \<in> key ` set rs \<and> live x \<longleftrightarrow> stale x"
    using assms by (auto simp: distinct_map dest: inj_onD)
  then show "(if key x \<in> key ` set rs \<and> live x then free x else x) = (if stale x then free x else x)" by simp
qed

lemma stale_gone:
  assumes "r \<in> set (map (\<lambda>x. if stale x then free x else x) rows)" "live r"
  shows "r \<in> set rows \<and> \<not> stale r"
  using assms free_dead by (auto split: if_splits)

end

end
