(* ===== verification/Governor_Ledger.thy ===== *)
theory Governor_Ledger
  imports Js_Base
begin

text \<open>
  The governor ledger's storage contract (\<open>packages/loopover-engine/src/governor-ledger.ts\<close> and
  \<open>repo-segment.ts\<close>): the event vocabulary every governor module reports in, and the fail-closed
  normaliser that validates a row before it is appended. A thrown \<open>Error(code)\<close> is \<open>Inl code\<close>.
  The stored \<open>payloadJson\<close> text is identified with the value it parses back to.
\<close>

datatype GovernorLedgerEventType = EvAllowed | EvDenied | EvThrottled | EvKillSwitch

definition GOVERNOR_LEDGER_EVENT_TYPES :: "(string \<times> GovernorLedgerEventType) list" where
  "GOVERNOR_LEDGER_EVENT_TYPES =
     [(''allowed'', EvAllowed), (''denied'', EvDenied), (''throttled'', EvThrottled),
      (''kill_switch'', EvKillSwitch)]"

record GovernorLedgerEvent =
  ge_eventType :: GovernorLedgerEventType
  ge_repoFullName :: "string option"
  ge_actionClass :: string
  ge_decision :: string
  ge_reason :: msg
  ge_payload :: jsval

record NormalizedGovernorLedgerEvent =
  ne_eventType :: GovernorLedgerEventType
  ne_repoFullName :: "string option"
  ne_actionClass :: string
  ne_decision :: string
  ne_reason :: string
  ne_payloadJson :: jsval

definition is_segment_char :: "char \<Rightarrow> bool" where
  "is_segment_char c \<longleftrightarrow>
     (CHR ''A'' \<le> c \<and> c \<le> CHR ''Z'') \<or> (CHR ''a'' \<le> c \<and> c \<le> CHR ''z'') \<or>
     (CHR ''0'' \<le> c \<and> c \<le> CHR ''9'') \<or> c \<in> {CHR ''.'', CHR ''_'', CHR ''-''}"

definition isValidRepoSegment :: "string \<Rightarrow> bool" where
  "isValidRepoSegment s \<longleftrightarrow>
     (s \<noteq> [] \<and> list_all is_segment_char s) \<and> s \<noteq> ''.'' \<and> s \<noteq> ''..''"

fun normalizeRequiredString :: "jsval \<Rightarrow> string \<Rightarrow> string + string" where
  "normalizeRequiredString (JStr s) code = (let t = trim s in if t = [] then Inl code else Inr t)"
| "normalizeRequiredString _ code = Inl code"

fun normalizeOptionalRepoFullName :: "jsval \<Rightarrow> string + string option" where
  "normalizeOptionalRepoFullName JUndef = Inr None"
| "normalizeOptionalRepoFullName JNull = Inr None"
| "normalizeOptionalRepoFullName (JStr s) =
     (case split_on (CHR ''/'') (trim s) of
        [owner, repo] \<Rightarrow>
          if owner = [] \<or> repo = [] then Inl ''invalid_repo_full_name''
          else if \<not> isValidRepoSegment owner \<or> \<not> isValidRepoSegment repo
            then Inl ''invalid_repo_full_name''
          else Inr (Some (owner @ ''/'' @ repo))
      | _ \<Rightarrow> Inl ''invalid_repo_full_name'')"
| "normalizeOptionalRepoFullName _ = Inl ''invalid_repo_full_name''"

text \<open>What \<open>JSON.parse(JSON.stringify(v))\<close> gives back: a non-finite number becomes null, an
  undefined array element becomes null, an undefined field disappears.\<close>

definition null_for_undef :: "jsval \<Rightarrow> jsval" where
  "null_for_undef v = (if v = JUndef then JNull else v)"

fun json_rt :: "jsval \<Rightarrow> jsval"
  and json_rt_list :: "jsval list \<Rightarrow> jsval list"
  and json_rt_fields :: "(string \<times> jsval) list \<Rightarrow> (string \<times> jsval) list" where
  "json_rt (JNum x) = (if isFinite x then JNum x else JNull)"
| "json_rt (JArr vs) = JArr (json_rt_list vs)"
| "json_rt (JObj fs) = JObj (json_rt_fields fs)"
| "json_rt v = v"
| "json_rt_list [] = []"
| "json_rt_list (v # vs) = null_for_undef (json_rt v) # json_rt_list vs"
| "json_rt_fields [] = []"
| "json_rt_fields ((k, v) # fs) =
     (if v = JUndef then json_rt_fields fs else (k, json_rt v) # json_rt_fields fs)"

fun jsonRoundTripEqual :: "jsval \<Rightarrow> jsval \<Rightarrow> bool"
  and jsonRoundTripEqual_list :: "jsval list \<Rightarrow> jsval list \<Rightarrow> bool"
  and jsonRoundTripEqual_fields :: "(string \<times> jsval) list \<Rightarrow> (string \<times> jsval) list \<Rightarrow> bool" where
  "jsonRoundTripEqual JUndef JUndef = True"
| "jsonRoundTripEqual JNull JNull = True"
| "jsonRoundTripEqual (JBool a) (JBool b) = (a = b)"
| "jsonRoundTripEqual (JNum a) (JNum b) = (a = b \<and> a \<noteq> NaN)"
| "jsonRoundTripEqual (JStr a) (JStr b) = (a = b)"
| "jsonRoundTripEqual (JTxt a) (JTxt b) = (a = b)"
| "jsonRoundTripEqual (JArr as) (JArr bs) =
     (length as = length bs \<and> jsonRoundTripEqual_list as bs)"
| "jsonRoundTripEqual (JObj as) (JObj bs) =
     (length as = length bs \<and> jsonRoundTripEqual_fields as bs)"
| "jsonRoundTripEqual _ _ = False"
| "jsonRoundTripEqual_list [] bs = True"
| "jsonRoundTripEqual_list (a # as) [] = False"
| "jsonRoundTripEqual_list (a # as) (b # bs) =
     (jsonRoundTripEqual a b \<and> jsonRoundTripEqual_list as bs)"
| "jsonRoundTripEqual_fields [] bs = True"
| "jsonRoundTripEqual_fields ((k, v) # as) bs =
     ((case map_of bs k of None \<Rightarrow> False | Some w \<Rightarrow> jsonRoundTripEqual v w)
      \<and> jsonRoundTripEqual_fields as bs)"

fun serializePayload :: "jsval \<Rightarrow> string + jsval" where
  "serializePayload JUndef = Inr (JObj [])"
| "serializePayload (JObj fs) =
     (if jsonRoundTripEqual (json_rt (JObj fs)) (JObj fs) then Inr (json_rt (JObj fs))
      else Inl ''invalid_payload'')"
| "serializePayload _ = Inl ''invalid_payload''"

text \<open>Reading a property of an object: absent is \<open>undefined\<close>.\<close>

definition field :: "(string \<times> jsval) list \<Rightarrow> string \<Rightarrow> jsval" where
  "field fs k = (case map_of fs k of None \<Rightarrow> JUndef | Some v \<Rightarrow> v)"

definition normalizeGovernorLedgerEvent ::
  "jsval \<Rightarrow> string + NormalizedGovernorLedgerEvent" where
  "normalizeGovernorLedgerEvent input =
     (case input of
        JObj fs \<Rightarrow>
          (case normalizeRequiredString (field fs ''eventType'') ''invalid_event_type'' of
             Inl e \<Rightarrow> Inl e
           | Inr t \<Rightarrow>
          (case map_of GOVERNOR_LEDGER_EVENT_TYPES t of
             None \<Rightarrow> Inl ''invalid_event_type''
           | Some ty \<Rightarrow>
          (case normalizeOptionalRepoFullName (field fs ''repoFullName'') of
             Inl e \<Rightarrow> Inl e
           | Inr repo \<Rightarrow>
          (case normalizeRequiredString (field fs ''actionClass'') ''invalid_action_class'' of
             Inl e \<Rightarrow> Inl e
           | Inr cls \<Rightarrow>
          (case normalizeRequiredString (field fs ''decision'') ''invalid_decision'' of
             Inl e \<Rightarrow> Inl e
           | Inr dec \<Rightarrow>
          (case normalizeRequiredString (field fs ''reason'') ''invalid_reason'' of
             Inl e \<Rightarrow> Inl e
           | Inr rsn \<Rightarrow>
          (case serializePayload (field fs ''payload'') of
             Inl e \<Rightarrow> Inl e
           | Inr json \<Rightarrow>
               Inr \<lparr>ne_eventType = ty, ne_repoFullName = repo, ne_actionClass = cls,
                    ne_decision = dec, ne_reason = rsn, ne_payloadJson = json\<rparr>)))))))
      | JArr vs \<Rightarrow> Inl ''invalid_event_type''
      | _ \<Rightarrow> Inl ''invalid_event'')"


section \<open>Payload round trips\<close>

text \<open>A payload is JSON-safe when it holds no undefined value and no non-finite number; object
  keys are distinct in every object (\<open>json_wf\<close>), as they are in the language.\<close>

fun json_safe :: "jsval \<Rightarrow> bool"
  and json_safe_list :: "jsval list \<Rightarrow> bool"
  and json_safe_fields :: "(string \<times> jsval) list \<Rightarrow> bool" where
  "json_safe JUndef = False"
| "json_safe (JNum x) = isFinite x"
| "json_safe (JArr vs) = json_safe_list vs"
| "json_safe (JObj fs) = json_safe_fields fs"
| "json_safe _ = True"
| "json_safe_list [] = True"
| "json_safe_list (v # vs) = (json_safe v \<and> json_safe_list vs)"
| "json_safe_fields [] = True"
| "json_safe_fields ((k, v) # fs) = (json_safe v \<and> json_safe_fields fs)"

fun json_wf :: "jsval \<Rightarrow> bool"
  and json_wf_list :: "jsval list \<Rightarrow> bool"
  and json_wf_fields :: "(string \<times> jsval) list \<Rightarrow> bool" where
  "json_wf (JArr vs) = json_wf_list vs"
| "json_wf (JObj fs) = (distinct (map fst fs) \<and> json_wf_fields fs)"
| "json_wf _ = True"
| "json_wf_list [] = True"
| "json_wf_list (v # vs) = (json_wf v \<and> json_wf_list vs)"
| "json_wf_fields [] = True"
| "json_wf_fields ((k, v) # fs) = (json_wf v \<and> json_wf_fields fs)"

lemma json_rt_safe:
  "json_safe v \<Longrightarrow> json_rt v = v"
  "json_safe_list vs \<Longrightarrow> json_rt_list vs = vs"
  "json_safe_fields fs \<Longrightarrow> json_rt_fields fs = fs"
  by (induction v and vs and fs rule: json_rt_json_rt_list_json_rt_fields.induct)
    (auto simp: null_for_undef_def)

lemma json_rt_eq_JUndef [simp]: "json_rt v = JUndef \<longleftrightarrow> v = JUndef"
  by (cases v) auto

lemma json_rt_fields_length: "length (json_rt_fields fs) \<le> length fs"
  by (induction fs) auto

lemma json_rt_fields_length_eq: "length (json_rt_fields fs) = length fs \<Longrightarrow> JUndef \<notin> snd ` set fs"
proof (induction fs)
  case (Cons f fs)
  then show ?case using json_rt_fields_length[of fs] by (cases f) (auto split: if_splits)
qed simp

lemma field_lookup_distinct:
  "distinct (map fst fs) \<Longrightarrow> (k, v) \<in> set fs \<Longrightarrow> map_of fs k = Some v"
  by (rule map_of_is_SomeI)

lemma roundtrip_refl:
  "json_safe v \<Longrightarrow> json_wf v \<Longrightarrow> jsonRoundTripEqual v v"
  "json_safe_list vs \<Longrightarrow> json_wf_list vs \<Longrightarrow> jsonRoundTripEqual_list vs vs"
  "json_safe_fields fs \<Longrightarrow> json_wf_fields fs \<Longrightarrow> distinct (map fst gs) \<Longrightarrow> set fs \<subseteq> set gs
     \<Longrightarrow> jsonRoundTripEqual_fields fs gs"
proof (induction v and vs and fs arbitrary: and and gs rule: json_safe_json_safe_list_json_safe_fields.induct)
qed (auto simp: field_lookup_distinct isFinite_iff)

lemma roundtrip_safe:
  "json_wf v \<Longrightarrow> jsonRoundTripEqual (json_rt v) v \<Longrightarrow> v \<noteq> JUndef \<Longrightarrow> json_safe v"
  "json_wf_list vs \<Longrightarrow> jsonRoundTripEqual_list (json_rt_list vs) vs \<Longrightarrow> json_safe_list vs"
  "json_wf_fields fs \<Longrightarrow> JUndef \<notin> snd ` set fs \<Longrightarrow> distinct (map fst gs) \<Longrightarrow> set fs \<subseteq> set gs
     \<Longrightarrow> jsonRoundTripEqual_fields (json_rt_fields fs) gs \<Longrightarrow> json_safe_fields fs"
proof (induction v and vs and fs arbitrary: and and gs rule: json_wf_json_wf_list_json_wf_fields.induct)
  case (2 fs)
  then have "JUndef \<notin> snd ` set fs" by (auto dest: json_rt_fields_length_eq)
  with 2 show ?case by auto
next
  case (5 v vs)
  then show ?case by (cases "v = JUndef") (auto simp: null_for_undef_def)
qed (auto simp: field_lookup_distinct split: if_splits)

lemma serializePayload_accepts_iff_safe_raw:
  assumes "json_wf (JObj fs)"
  shows "serializePayload (JObj fs) =
    (if json_safe (JObj fs) then Inr (JObj fs) else Inl ''invalid_payload'')"
proof (cases "json_safe (JObj fs)")
  case True
  from True assms have "jsonRoundTripEqual (JObj fs) (JObj fs)" by (rule roundtrip_refl(1))
  with True json_rt_safe(1)[OF True] show ?thesis by simp
next
  case False
  with assms have "\<not> jsonRoundTripEqual (json_rt (JObj fs)) (JObj fs)"
    using roundtrip_safe(1) by blast
  with False show ?thesis by simp
qed

text \<open>a payload object (keys distinct, as in the language) is stored exactly when it is
  JSON-safe, and then the stored document parses back to the payload itself; every other object
  is refused with \<open>invalid_payload\<close>.\<close>

theorem serializePayload_accepts_iff_safe:
  assumes "json_wf (JObj fs)"
  shows "serializePayload (JObj fs) =
    (if json_safe (JObj fs) then Inr (JObj fs) else Inl ''invalid_payload'')"
  using assms by (rule serializePayload_accepts_iff_safe_raw)

theorem serializePayload_accepts_iff_safe_witness:
  "serializePayload (JObj [(''a'', JNum (Fin 1)), (''b'', JArr [JNum PInf])]) =
     Inl ''invalid_payload'' \<and>
   serializePayload (JObj [(''a'', JNum (Fin 1))]) = Inr (JObj [(''a'', JNum (Fin 1))])"
  using serializePayload_accepts_iff_safe[of "[(''a'', JNum (Fin 1)), (''b'', JArr [JNum PInf])]"]
    serializePayload_accepts_iff_safe[of "[(''a'', JNum (Fin 1))]"] by simp


section \<open>What a normalised row guarantees\<close>

definition nonblank :: "string \<Rightarrow> bool" where
  "nonblank s \<longleftrightarrow> s \<noteq> [] \<and> trim s = s"

definition valid_repo_name :: "string \<Rightarrow> bool" where
  "valid_repo_name r \<longleftrightarrow>
     (\<exists>owner repo. r = owner @ ''/'' @ repo \<and> isValidRepoSegment owner \<and> isValidRepoSegment repo)"

definition ledger_row_wf :: "NormalizedGovernorLedgerEvent \<Rightarrow> bool" where
  "ledger_row_wf n \<longleftrightarrow>
     nonblank (ne_actionClass n) \<and> nonblank (ne_decision n) \<and> nonblank (ne_reason n) \<and>
     (\<forall>r. ne_repoFullName n = Some r \<longrightarrow> valid_repo_name r)"

definition eventType_name :: "GovernorLedgerEventType \<Rightarrow> string" where
  "eventType_name ty =
     (case ty of EvAllowed \<Rightarrow> ''allowed'' | EvDenied \<Rightarrow> ''denied''
      | EvThrottled \<Rightarrow> ''throttled'' | EvKillSwitch \<Rightarrow> ''kill_switch'')"

text \<open>The object a stored row reads back as.\<close>

definition row_object :: "NormalizedGovernorLedgerEvent \<Rightarrow> jsval" where
  "row_object n =
     JObj [(''eventType'', JStr (eventType_name (ne_eventType n))),
           (''repoFullName'', (case ne_repoFullName n of None \<Rightarrow> JNull | Some r \<Rightarrow> JStr r)),
           (''actionClass'', JStr (ne_actionClass n)),
           (''decision'', JStr (ne_decision n)),
           (''reason'', JStr (ne_reason n)),
           (''payload'', ne_payloadJson n)]"

lemma normalizeRequiredString_Inr:
  "normalizeRequiredString v code = Inr t \<longleftrightarrow> (\<exists>s. v = JStr s \<and> t = trim s \<and> t \<noteq> [])"
  by (cases v) (auto simp: Let_def)

lemma normalizeRequiredString_nonblank:
  "normalizeRequiredString v code = Inr t \<Longrightarrow> nonblank t"
  by (auto simp: normalizeRequiredString_Inr nonblank_def)

lemma normalizeRequiredString_fix: "nonblank t \<Longrightarrow> normalizeRequiredString (JStr t) code = Inr t"
  by (simp add: nonblank_def)

lemma segment_char_plain: "is_segment_char c \<Longrightarrow> \<not> is_ws c \<and> c \<noteq> CHR ''/''"
  by (auto simp: is_segment_char_def is_ws_def less_eq_char_def)

lemma segment_plain:
  assumes "isValidRepoSegment s" "c \<in> set s"
  shows "\<not> is_ws c" "c \<noteq> CHR ''/''"
  using assms segment_char_plain by (auto simp: isValidRepoSegment_def list_all_iff)

lemma normalizeOptionalRepoFullName_valid:
  assumes "normalizeOptionalRepoFullName v = Inr (Some r)"
  shows "valid_repo_name r"
proof (cases v)
  case (JStr s)
  with assms show ?thesis
    by (auto simp: valid_repo_name_def split: list.splits if_splits)
qed (use assms in auto)

lemma normalizeOptionalRepoFullName_all:
  "normalizeOptionalRepoFullName v = Inr repo \<Longrightarrow> \<forall>r. repo = Some r \<longrightarrow> valid_repo_name r"
  using normalizeOptionalRepoFullName_valid by blast

lemma normalizeOptionalRepoFullName_fix:
  assumes "valid_repo_name r"
  shows "normalizeOptionalRepoFullName (JStr r) = Inr (Some r)"
proof -
  obtain owner repo where r: "r = owner @ ''/'' @ repo"
    and seg: "isValidRepoSegment owner" "isValidRepoSegment repo"
    using assms by (auto simp: valid_repo_name_def)
  have "trim r = r"
    using segment_plain(1)[OF seg(1)] segment_plain(1)[OF seg(2)]
    by (intro trim_fix) (auto simp: r is_ws_def)
  moreover have "CHR ''/'' \<notin> set owner" "CHR ''/'' \<notin> set repo"
    using segment_plain(2)[OF seg(1)] segment_plain(2)[OF seg(2)] by blast+
  then have "split_on (CHR ''/'') r = [owner, repo]"
    by (simp add: r split_on_append_sep split_on_no_sep)
  ultimately show ?thesis using seg by (auto simp: r isValidRepoSegment_def)
qed

lemma eventType_name_lookup [simp]:
  "map_of GOVERNOR_LEDGER_EVENT_TYPES (eventType_name ty) = Some ty"
  by (cases ty) (simp_all add: GOVERNOR_LEDGER_EVENT_TYPES_def eventType_name_def)

lemma eventType_name_nonblank [simp]: "nonblank (eventType_name ty)"
  by (cases ty) (simp_all add: eventType_name_def nonblank_def trim_def is_ws_def)

lemma normalizeGovernorLedgerEvent_InrE:
  assumes "normalizeGovernorLedgerEvent v = Inr n"
  obtains fs where "v = JObj fs" "ledger_row_wf n"
    "serializePayload (field fs ''payload'') = Inr (ne_payloadJson n)"
  using assms unfolding normalizeGovernorLedgerEvent_def
  by (auto simp: ledger_row_wf_def normalizeRequiredString_nonblank
        dest!: normalizeOptionalRepoFullName_all split: jsval.splits sum.splits option.splits)

lemma json_wf_field: "json_wf_fields fs \<Longrightarrow> json_wf (field fs k)"
  by (induction fs) (auto simp: field_def)

lemma serializePayload_stored_safe:
  assumes "json_wf v" "serializePayload v = Inr doc"
  shows "serializePayload doc = Inr doc"
proof (cases v)
  case (JObj fs)
  with assms serializePayload_accepts_iff_safe_raw[of fs] have "doc = v"
    by (auto split: if_splits)
  then show ?thesis using assms by simp
qed (use assms in auto)

text \<open>a row the normaliser lets through has a trimmed, non-empty action class, decision and
  reason, a repository name (when present) of the form \<open>owner/repo\<close> with both segments safe (no
  path traversal), and normalising what was stored changes nothing.\<close>

theorem normalizeGovernorLedgerEvent_roundtrip:
  assumes "json_wf v" and "normalizeGovernorLedgerEvent v = Inr n"
  shows "ledger_row_wf n \<and> normalizeGovernorLedgerEvent (row_object n) = Inr n"
proof -
  from assms(2) obtain fs where v: "v = JObj fs" and wf: "ledger_row_wf n"
    and doc: "serializePayload (field fs ''payload'') = Inr (ne_payloadJson n)"
    by (rule normalizeGovernorLedgerEvent_InrE)
  have "json_wf (field fs ''payload'')"
    using assms(1) json_wf_field by (simp add: v)
  then have "serializePayload (ne_payloadJson n) = Inr (ne_payloadJson n)"
    using doc by (rule serializePayload_stored_safe)
  moreover have "normalizeOptionalRepoFullName
      (case ne_repoFullName n of None \<Rightarrow> JNull | Some r \<Rightarrow> JStr r) = Inr (ne_repoFullName n)"
    using wf normalizeOptionalRepoFullName_fix
    by (auto simp: ledger_row_wf_def simp del: normalizeOptionalRepoFullName.simps(3)
        split: option.split)
  ultimately show ?thesis
    using wf unfolding normalizeGovernorLedgerEvent_def row_object_def
    by (simp add: field_def ledger_row_wf_def normalizeRequiredString_fix
          del: normalizeRequiredString.simps)
qed

theorem normalizeGovernorLedgerEvent_roundtrip_witness:
  "\<exists>n. normalizeGovernorLedgerEvent
      (JObj [(''eventType'', JStr ''allowed''), (''repoFullName'', JStr '' o/r ''),
             (''actionClass'', JStr ''open_pr''), (''decision'', JStr ''allow''),
             (''reason'', JStr ''ok'')]) = Inr n \<and> ne_repoFullName n = Some ''o/r'' \<and>
    ledger_row_wf n \<and> normalizeGovernorLedgerEvent (row_object n) = Inr n"
proof -
  let ?v = "JObj [(''eventType'', JStr ''allowed''), (''repoFullName'', JStr '' o/r ''),
             (''actionClass'', JStr ''open_pr''), (''decision'', JStr ''allow''),
             (''reason'', JStr ''ok'')]"
  let ?n = "\<lparr>ne_eventType = EvAllowed, ne_repoFullName = Some ''o/r'', ne_actionClass = ''open_pr'',
    ne_decision = ''allow'', ne_reason = ''ok'', ne_payloadJson = JObj []\<rparr>"
  have "normalizeGovernorLedgerEvent ?v = Inr ?n" by code_simp
  moreover have "json_wf ?v" by simp
  ultimately show ?thesis using normalizeGovernorLedgerEvent_roundtrip[of ?v ?n] by auto
qed

end
