(* ===== verification/Rate_Limit.thy ===== *)
theory Rate_Limit
  imports Governor_Ledger
begin

text \<open>
  The Governor's local rate limiter (\<open>packages/loopover-engine/src/governor/rate-limit.ts\<close>) and the
  write-rate-limit enforcement over it (\<open>governor/write-rate-limit.ts\<close>): one bucket per action class
  for all repositories and one per action class and repository, both consulted before a write.
  The interface of a single bucket is the locale \<open>window_limiter\<close>; its client lemmas bound what any
  run of events can get through, and it is interpreted on the modelled calculator.
\<close>

section \<open>The single-bucket calculator\<close>

record LocalRateLimitConfig =
  cfg_limit :: jsnum
  cfg_windowMs :: jsnum

record LocalRateBucket =
  bk_count :: jsnum
  bk_windowStartMs :: jsnum

record LocalRateLimitDecision =
  dec_allowed :: bool
  dec_limit :: jsnum
  dec_remaining :: jsnum
  dec_resetAtMs :: jsnum
  dec_retryAfterMs :: jsnum

definition MAX_BACKOFF_EXPONENT :: jsnum where
  "MAX_BACKOFF_EXPONENT = Fin 30"

definition MAX_SAFE_INTEGER :: jsnum where
  "MAX_SAFE_INTEGER = Fin (2 ^ 53 - 1)"

definition finiteNonNegativeInt :: "jsnum \<Rightarrow> jsnum" where
  "finiteNonNegativeInt value =
     (if isFinite value then math_max (Fin 0) (math_floor value) else Fin 0)"

definition evaluateLocalRateLimit ::
  "LocalRateBucket \<Rightarrow> LocalRateLimitConfig \<Rightarrow> jsnum \<Rightarrow> LocalRateLimitDecision" where
  "evaluateLocalRateLimit bucket config nowMs =
     (let limit = finiteNonNegativeInt (cfg_limit config);
          windowMs = finiteNonNegativeInt (cfg_windowMs config);
          count = finiteNonNegativeInt (bk_count bucket);
          windowStartMs = (if isFinite (bk_windowStartMs bucket) then bk_windowStartMs bucket
                           else Fin 0);
          now = (if isFinite nowMs then nowMs else Fin 0);
          windowElapsed = num_ge (num_sub now windowStartMs) windowMs;
          effectiveCount = (if windowElapsed then Fin 0 else count);
          effectiveWindowStart = (if windowElapsed then now else windowStartMs);
          resetAtMs = num_add effectiveWindowStart windowMs;
          allowed = num_lt effectiveCount limit;
          remaining = (if allowed then num_sub (num_sub limit effectiveCount) (Fin 1) else Fin 0);
          retryAfterMs = (if allowed then Fin 0
                          else math_min windowMs (math_max (Fin 0) (num_sub resetAtMs now)))
      in \<lparr>dec_allowed = allowed, dec_limit = limit, dec_remaining = remaining,
          dec_resetAtMs = resetAtMs, dec_retryAfterMs = retryAfterMs\<rparr>)"

text \<open>\<open>2 ** exponent\<close> for the clamped exponent, a whole number between 0 and 30.\<close>

fun pow2 :: "jsnum \<Rightarrow> jsnum" where
  "pow2 (Fin q) = Fin (2 ^ nat \<lfloor>q\<rfloor>)"
| "pow2 x = x"

text \<open>\<open>rawDraw\<close> is the value the injected random source returned.\<close>

definition jitteredBackoffMs :: "jsnum \<Rightarrow> jsnum \<Rightarrow> jsnum \<Rightarrow> jsnum" where
  "jitteredBackoffMs baseMs attempt rawDraw =
     (let safeBase = (if isFinite baseMs then math_max (Fin 0) baseMs else Fin 0);
          exponent = (if attempt = NaN then Fin 0
                      else math_min MAX_BACKOFF_EXPONENT (math_max (Fin 0) (math_floor attempt)));
          exponential = num_mul safeBase (pow2 exponent);
          draw = (if isFinite rawDraw
                  then math_min (Fin (999999 / 1000000)) (math_max (Fin 0) rawDraw) else Fin 0);
          jitterFactor = num_add (Fin (1 / 2)) draw;
          rawDelay = num_mul exponential jitterFactor
      in if isFinite rawDelay then math_max (Fin 0) (math_round rawDelay) else MAX_SAFE_INTEGER)"


section \<open>The write rate limit\<close>

definition DEFAULT_WRITE_RATE_LIMIT_BACKOFF_BASE_MS :: jsnum where
  "DEFAULT_WRITE_RATE_LIMIT_BACKOFF_BASE_MS = Fin 1000"

definition PERMISSIVE_CONFIG :: LocalRateLimitConfig where
  "PERMISSIVE_CONFIG = \<lparr>cfg_limit = Fin 1000000, cfg_windowMs = Fin 60000\<rparr>"

record WriteRateLimitPolicies =
  pol_global :: "LocalRateLimitConfig jstable"
  pol_perRepo :: "LocalRateLimitConfig jstable"
  pol_backoffBaseMs :: jsnum

definition DEFAULT_WRITE_RATE_LIMIT_POLICIES :: WriteRateLimitPolicies where
  "DEFAULT_WRITE_RATE_LIMIT_POLICIES =
     \<lparr>pol_global = [(''open_pr'', \<lparr>cfg_limit = Fin 30, cfg_windowMs = Fin 60000\<rparr>),
                    (''comment'', \<lparr>cfg_limit = Fin 60, cfg_windowMs = Fin 60000\<rparr>)],
      pol_perRepo = [(''open_pr'', \<lparr>cfg_limit = Fin 3, cfg_windowMs = Fin 60000\<rparr>),
                     (''comment'', \<lparr>cfg_limit = Fin 10, cfg_windowMs = Fin 60000\<rparr>)],
      pol_backoffBaseMs = DEFAULT_WRITE_RATE_LIMIT_BACKOFF_BASE_MS\<rparr>"

record WriteRateLimitBucketStore =
  st_global :: "LocalRateBucket jstable"
  st_perRepo :: "LocalRateBucket jstable"

type_synonym WriteRateLimitBackoffStore = "jsnum jstable"

datatype WriteRateLimitBlockedBy = ByGlobal | ByPerRepo

record WriteRateLimitVerdict =
  wv_allowed :: bool
  wv_blockedBy :: "WriteRateLimitBlockedBy option"
  wv_global :: LocalRateLimitDecision
  wv_perRepo :: LocalRateLimitDecision
  wv_retryAfterMs :: jsnum
  wv_backoffAttempt :: jsnum
  wv_reason :: string

definition writeRateLimitRepoKey :: "string \<Rightarrow> string \<Rightarrow> string" where
  "writeRateLimitRepoKey actionClass repoFullName =
     trim actionClass @ '':'' @ toLowerCase (trim repoFullName)"

definition ownValue :: "'v jstable \<Rightarrow> string \<Rightarrow> 'v option" where
  "ownValue table key = map_of table key"

datatype policy_scope = ScopeGlobal | ScopePerRepo

definition policyFor ::
  "WriteRateLimitPolicies \<Rightarrow> string \<Rightarrow> policy_scope \<Rightarrow> LocalRateLimitConfig" where
  "policyFor policies actionClass scope =
     (let table = (if scope = ScopeGlobal then pol_global policies else pol_perRepo policies)
      in case ownValue table actionClass of None \<Rightarrow> PERMISSIVE_CONFIG | Some c \<Rightarrow> c)"

definition emptyBucket :: "jsnum \<Rightarrow> LocalRateBucket" where
  "emptyBucket nowMs = \<lparr>bk_count = Fin 0, bk_windowStartMs = nowMs\<rparr>"

definition incrementBucket ::
  "LocalRateBucket \<Rightarrow> LocalRateLimitConfig \<Rightarrow> jsnum \<Rightarrow> LocalRateBucket" where
  "incrementBucket bucket config nowMs =
     (let windowMs = (if isFinite (cfg_windowMs config)
                      then math_max (Fin 0) (math_floor (cfg_windowMs config)) else Fin 0);
          windowStartMs = (if isFinite (bk_windowStartMs bucket) then bk_windowStartMs bucket
                           else nowMs);
          windowElapsed = num_ge (num_sub nowMs windowStartMs) windowMs;
          effectiveCount = (if windowElapsed then Fin 0
                            else math_max (Fin 0) (math_floor (bk_count bucket)))
      in \<lparr>bk_count = num_add effectiveCount (Fin 1),
          bk_windowStartMs = (if windowElapsed then nowMs else windowStartMs)\<rparr>)"

definition bucketOr :: "LocalRateBucket jstable \<Rightarrow> string \<Rightarrow> jsnum \<Rightarrow> LocalRateBucket" where
  "bucketOr table key nowMs =
     (case ownValue table key of None \<Rightarrow> emptyBucket nowMs | Some b \<Rightarrow> b)"

definition backoffOf :: "WriteRateLimitBackoffStore \<Rightarrow> string \<Rightarrow> jsnum" where
  "backoffOf store key = (case map_of store key of None \<Rightarrow> Fin 0 | Some n \<Rightarrow> n)"

text \<open>The injected random source is the value it yields, or the message of the error it throws;
  it is consulted only for a blocked write. An absent source draws \<open>0.5\<close>.\<close>

type_synonym randomFn = "string + jsnum"

definition evaluateWriteRateLimit ::
  "string \<Rightarrow> string \<Rightarrow> WriteRateLimitBucketStore \<Rightarrow> WriteRateLimitBackoffStore
     \<Rightarrow> WriteRateLimitPolicies option \<Rightarrow> jsnum \<Rightarrow> randomFn option
     \<Rightarrow> string + WriteRateLimitVerdict" where
  "evaluateWriteRateLimit actionClassInput repoFullName buckets backoffAttempts policiesIn nowMsIn randomIn =
     (let policies = (case policiesIn of None \<Rightarrow> DEFAULT_WRITE_RATE_LIMIT_POLICIES | Some p \<Rightarrow> p);
          random = (case randomIn of None \<Rightarrow> Inr (Fin (1 / 2)) | Some r \<Rightarrow> r);
          nowMs = (if isFinite nowMsIn then nowMsIn else Fin 0);
          actionClass = trim actionClassInput;
          repoKey = writeRateLimitRepoKey actionClass repoFullName;
          backoffAttempt = backoffOf backoffAttempts repoKey;
          globalBucket = bucketOr (st_global buckets) actionClass nowMs;
          perRepoBucket = bucketOr (st_perRepo buckets) repoKey nowMs;
          global = evaluateLocalRateLimit globalBucket (policyFor policies actionClass ScopeGlobal) nowMs;
          perRepo = evaluateLocalRateLimit perRepoBucket (policyFor policies actionClass ScopePerRepo) nowMs
      in if dec_allowed global \<and> dec_allowed perRepo then
           Inr \<lparr>wv_allowed = True, wv_blockedBy = None, wv_global = global, wv_perRepo = perRepo,
                wv_retryAfterMs = Fin 0, wv_backoffAttempt = backoffAttempt,
                wv_reason = ''under_limit''\<rparr>
         else
           (let blockedBy = (if dec_allowed global then ByPerRepo else ByGlobal);
                windowWait = math_max (dec_retryAfterMs global) (dec_retryAfterMs perRepo)
            in case random of
                 Inl e \<Rightarrow> Inl e
               | Inr draw \<Rightarrow>
                   Inr \<lparr>wv_allowed = False, wv_blockedBy = Some blockedBy, wv_global = global,
                        wv_perRepo = perRepo,
                        wv_retryAfterMs = math_max windowWait
                          (jitteredBackoffMs (pol_backoffBaseMs policies) backoffAttempt draw),
                        wv_backoffAttempt = backoffAttempt,
                        wv_reason = (if blockedBy = ByGlobal then ''global_rate_limit''
                                     else ''per_repo_rate_limit'')\<rparr>))"

definition recordWriteRateLimitAllowed ::
  "WriteRateLimitBucketStore \<Rightarrow> string \<Rightarrow> string \<Rightarrow> jsnum \<Rightarrow> WriteRateLimitPolicies
     \<Rightarrow> WriteRateLimitBucketStore" where
  "recordWriteRateLimitAllowed buckets actionClassInput repoFullName nowMs policies =
     (let actionClass = trim actionClassInput;
          repoKey = writeRateLimitRepoKey actionClass repoFullName;
          globalConfig = policyFor policies actionClass ScopeGlobal;
          perRepoConfig = policyFor policies actionClass ScopePerRepo;
          globalBucket = bucketOr (st_global buckets) actionClass nowMs;
          perRepoBucket = bucketOr (st_perRepo buckets) repoKey nowMs
      in \<lparr>st_global = table_put actionClass (incrementBucket globalBucket globalConfig nowMs)
                        (st_global buckets),
          st_perRepo = table_put repoKey (incrementBucket perRepoBucket perRepoConfig nowMs)
                        (st_perRepo buckets)\<rparr>)"

definition recordWriteRateLimitDenied ::
  "WriteRateLimitBackoffStore \<Rightarrow> string \<Rightarrow> string \<Rightarrow> WriteRateLimitBackoffStore" where
  "recordWriteRateLimitDenied backoffAttempts actionClassInput repoFullName =
     (let key = writeRateLimitRepoKey (trim actionClassInput) repoFullName
      in table_put key (num_add (backoffOf backoffAttempts key) (Fin 1)) backoffAttempts)"

definition clearWriteRateLimitBackoff ::
  "WriteRateLimitBackoffStore \<Rightarrow> string \<Rightarrow> string \<Rightarrow> WriteRateLimitBackoffStore" where
  "clearWriteRateLimitBackoff backoffAttempts actionClassInput repoFullName =
     (let key = writeRateLimitRepoKey (trim actionClassInput) repoFullName
      in if map_of backoffAttempts key = None then backoffAttempts
         else table_del key backoffAttempts)"

definition blockedBy_val :: "WriteRateLimitBlockedBy option \<Rightarrow> jsval" where
  "blockedBy_val b = (case b of None \<Rightarrow> JNull | Some ByGlobal \<Rightarrow> JStr ''global''
     | Some ByPerRepo \<Rightarrow> JStr ''per_repo'')"

definition buildWriteRateLimitGovernorLedgerEvent ::
  "string \<Rightarrow> string \<Rightarrow> WriteRateLimitVerdict \<Rightarrow> GovernorLedgerEvent" where
  "buildWriteRateLimitGovernorLedgerEvent repoFullName actionClass verdict =
     \<lparr>ge_eventType = (if wv_allowed verdict then EvAllowed else EvThrottled),
      ge_repoFullName = Some repoFullName,
      ge_actionClass = actionClass,
      ge_decision = (if wv_allowed verdict then ''allow'' else ''throttle''),
      ge_reason = lit (wv_reason verdict),
      ge_payload = (if wv_allowed verdict then JObj [] else
        JObj [(''blockedBy'', blockedBy_val (wv_blockedBy verdict)),
              (''retryAfterMs'', JNum (wv_retryAfterMs verdict)),
              (''backoffAttempt'', JNum (wv_backoffAttempt verdict)),
              (''globalResetAtMs'', JNum (dec_resetAtMs (wv_global verdict))),
              (''perRepoResetAtMs'', JNum (dec_resetAtMs (wv_perRepo verdict)))])\<rparr>"

declare finiteNonNegativeInt_def [num_defs] PERMISSIVE_CONFIG_def [num_defs]


section \<open>Normalisation: no input produces a NaN or negative decision\<close>

lemma finiteNonNegativeInt_count [simp, intro]: "is_count (finiteNonNegativeInt x)"
  by (cases x) (auto simp: finiteNonNegativeInt_def is_count_def max_def)

lemma finiteNonNegativeInt_fix [simp]: "finiteNonNegativeInt (num_of_nat n) = num_of_nat n"
  by (simp add: finiteNonNegativeInt_def)

lemma finiteNonNegativeIntE:
  obtains n where "finiteNonNegativeInt x = num_of_nat n"
  using finiteNonNegativeInt_count by (rule is_countE)

lemma math_max_not_NaN: "a \<noteq> NaN \<Longrightarrow> b \<noteq> NaN \<Longrightarrow> math_max a b \<in> {a, b}"
  by (cases a; cases b) (auto simp: math_max.simps)

lemma retry_bounds:
  assumes "is_count w" "x \<noteq> NaN"
  shows "num_le (Fin 0) (math_min w (math_max (Fin 0) x))"
    and "num_le (math_min w (math_max (Fin 0) x)) w"
proof -
  from assms(1) obtain n where "w = num_of_nat n" by (rule is_countE)
  then show "num_le (Fin 0) (math_min w (math_max (Fin 0) x))"
    and "num_le (math_min w (math_max (Fin 0) x)) w"
    using assms(2) by (cases x; simp add: math_max.simps math_min.simps)+
qed

lemma reset_minus_now_not_NaN: "num_sub (num_add (Fin a) (Fin b)) (Fin c) \<noteq> NaN"
  by (auto simp: num_of_rat_def num_sub_def)

text \<open>whatever numbers reach the single-bucket limiter (NaN and infinities included), its decision
  is well formed: the limit is a whole count, the remaining allowance and the wait are never NaN or
  negative, the wait never exceeds one window, an allowed event waits zero, and a refused event has
  nothing remaining.\<close>

theorem evaluateLocalRateLimit_well_formed:
  "let d = evaluateLocalRateLimit bucket config nowMs in
     is_count (dec_limit d) \<and>
     num_le (Fin 0) (dec_remaining d) \<and>
     num_le (Fin 0) (dec_retryAfterMs d) \<and>
     num_le (dec_retryAfterMs d) (finiteNonNegativeInt (cfg_windowMs config)) \<and>
     dec_resetAtMs d \<noteq> NaN \<and>
     (if dec_allowed d then dec_retryAfterMs d = Fin 0 \<and> num_lt (Fin 0) (dec_limit d)
      else dec_remaining d = Fin 0)"
proof -
  obtain l where l: "finiteNonNegativeInt (cfg_limit config) = num_of_nat l"
    by (rule finiteNonNegativeIntE)
  obtain w where w: "finiteNonNegativeInt (cfg_windowMs config) = num_of_nat w"
    by (rule finiteNonNegativeIntE)
  obtain c where c: "finiteNonNegativeInt (bk_count bucket) = num_of_nat c"
    by (rule finiteNonNegativeIntE)
  obtain s where s: "(if isFinite (bk_windowStartMs bucket) then bk_windowStartMs bucket else Fin 0) = Fin s"
    by (cases "bk_windowStartMs bucket") auto
  obtain t where t: "(if isFinite nowMs then nowMs else Fin 0) = Fin t"
    by (cases nowMs) auto
  have rem: "num_le (Fin 0) (num_sub (num_of_rat (of_nat l - of_nat k)) (Fin 1))" if "k < l" for k
    using that by (intro num_sub_of_rat_ge) (simp add: Suc_le_eq flip: of_nat_diff)
  show ?thesis
    unfolding evaluateLocalRateLimit_def Let_def l w c s t
    using rem[of c] rem[of 0] reset_minus_now_not_NaN retry_bounds[OF is_count_num_of_nat]
    by auto
qed


section \<open>The jittered backoff\<close>

definition backoff_exponent :: "jsnum \<Rightarrow> nat" where
  "backoff_exponent attempt =
     (case attempt of NaN \<Rightarrow> 0 | NInf \<Rightarrow> 0 | PInf \<Rightarrow> 30 | Fin q \<Rightarrow> min 30 (nat \<lfloor>q\<rfloor>))"

definition jitter_draw :: "jsnum \<Rightarrow> rat" where
  "jitter_draw r = (case r of Fin q \<Rightarrow> min (999999 / 1000000) (max 0 q) | _ \<Rightarrow> 0)"

definition backoff_base :: "jsnum \<Rightarrow> rat" where
  "backoff_base b = (case b of Fin q \<Rightarrow> max 0 q | _ \<Rightarrow> 0)"

lemma jitter_draw_range: "0 \<le> jitter_draw r" "jitter_draw r < 1"
  by (cases r; simp add: jitter_draw_def)+

lemma backoff_base_nonneg: "0 \<le> backoff_base b"
  by (cases b) (simp_all add: backoff_base_def)

lemma exponent_value:
  "(if attempt = NaN then Fin 0
    else math_min MAX_BACKOFF_EXPONENT (math_max (Fin 0) (math_floor attempt)))
   = num_of_nat (backoff_exponent attempt)"
proof (cases attempt)
  case (Fin q)
  have "min (30::rat) (max 0 (of_int \<lfloor>q\<rfloor>)) = of_nat (min 30 (nat \<lfloor>q\<rfloor>))"
    using of_nat_min[where 'a = rat, of 30 "nat \<lfloor>q\<rfloor>"] by (cases "0 \<le> \<lfloor>q\<rfloor>") auto
  with Fin show ?thesis by (simp add: MAX_BACKOFF_EXPONENT_def backoff_exponent_def)
qed (simp_all add: MAX_BACKOFF_EXPONENT_def backoff_exponent_def math_max.simps math_min.simps)

lemma num_mul_of_rat_pos:
  assumes "0 \<le> a" "0 < b"
  shows "num_mul (num_of_rat a) (Fin b) = (if num_max \<le> a then PInf else num_of_rat (a * b))"
proof -
  have "\<not> a \<le> - num_max" using assms num_max_pos by linarith
  then show ?thesis using assms by (simp add: num_of_rat_def inf_times_def)
qed

lemma jitteredBackoffMs_value:
  fixes baseMs attempt rawDraw
  defines "x \<equiv> backoff_base baseMs * 2 ^ backoff_exponent attempt"
    and "f \<equiv> 1 / 2 + jitter_draw rawDraw"
  shows "jitteredBackoffMs baseMs attempt rawDraw =
    (if num_max \<le> x \<or> num_max \<le> x * f then MAX_SAFE_INTEGER
     else Fin (of_int \<lfloor>x * f + 1 / 2\<rfloor>))"
proof -
  have f: "0 < f" "f < 2" using jitter_draw_range[of rawDraw] by (auto simp: f_def)
  have x0: "0 \<le> x" using backoff_base_nonneg by (simp add: x_def)
  then have xf: "0 \<le> x * f" using f by simp
  have base: "(if isFinite baseMs then math_max (Fin 0) baseMs else Fin 0) = Fin (backoff_base baseMs)"
    by (cases baseMs) (simp_all add: backoff_base_def)
  have draw: "(if isFinite rawDraw then math_min (Fin (999999 / 1000000)) (math_max (Fin 0) rawDraw)
      else Fin 0) = Fin (jitter_draw rawDraw)"
    by (cases rawDraw) (simp_all add: jitter_draw_def)
  have jf: "num_add (Fin (1 / 2)) (Fin (jitter_draw rawDraw)) = Fin f"
    using jitter_draw_range[of rawDraw] by (simp add: f_def num_of_rat_small)
  have m1: "num_mul (Fin (backoff_base baseMs)) (pow2 (num_of_nat (backoff_exponent attempt))) = num_of_rat x"
    by (simp add: x_def)
  have m2: "num_mul (num_of_rat x) (Fin f) = (if num_max \<le> x then PInf else num_of_rat (x * f))"
    using x0 f(1) by (rule num_mul_of_rat_pos)
  have nn: "\<not> x * f \<le> - num_max" using xf num_max_pos by linarith
  have "0 \<le> \<lfloor>x * f + 1 / 2\<rfloor>" using xf by (simp add: le_floor_iff)
  then have mx: "max 0 (rat_of_int \<lfloor>x * f + 1 / 2\<rfloor>) = rat_of_int \<lfloor>x * f + 1 / 2\<rfloor>" by simp
  show ?thesis
    unfolding jitteredBackoffMs_def base exponent_value draw Let_def jf m1 m2
    using nn mx by (auto simp: num_of_rat_def)
qed

text \<open>the backoff delay is a non-negative whole number for every input (an overflow saturates at the
  largest safe integer), and without overflow it lies within half a millisecond of the band
  between 0.5 and 1.5 times \<open>base * 2 ** min(30, attempt)\<close>.\<close>

theorem jitteredBackoffMs_whole_and_banded:
  "is_count (jitteredBackoffMs baseMs attempt rawDraw) \<and>
   (let x = backoff_base baseMs * 2 ^ backoff_exponent attempt in
      (3 / 2 * x < num_max \<longrightarrow>
         num_le (Fin (x / 2 - 1 / 2)) (jitteredBackoffMs baseMs attempt rawDraw) \<and>
         num_le (jitteredBackoffMs baseMs attempt rawDraw) (Fin (3 / 2 * x + 1 / 2))))"
proof -
  define x where "x = backoff_base baseMs * 2 ^ backoff_exponent attempt"
  define f where "f = 1 / 2 + jitter_draw rawDraw"
  have f: "1 / 2 \<le> f" "f \<le> 3 / 2" using jitter_draw_range[of rawDraw] by (auto simp: f_def)
  have x0: "0 \<le> x" using backoff_base_nonneg by (simp add: x_def)
  have lo: "x / 2 \<le> x * f" using mult_left_mono[OF f(1) x0] by simp
  have hi: "x * f \<le> 3 / 2 * x" using mult_left_mono[OF f(2) x0] by simp
  have nonneg: "0 \<le> \<lfloor>x * f + 1 / 2\<rfloor>" using x0 lo by (simp add: le_floor_iff)
  have fl: "x * f - 1 / 2 \<le> of_int \<lfloor>x * f + 1 / 2\<rfloor>" "of_int \<lfloor>x * f + 1 / 2\<rfloor> \<le> x * f + 1 / 2"
    by linarith+
  have val: "jitteredBackoffMs baseMs attempt rawDraw =
    (if num_max \<le> x \<or> num_max \<le> x * f then MAX_SAFE_INTEGER else Fin (of_int \<lfloor>x * f + 1 / 2\<rfloor>))"
    unfolding x_def f_def by (rule jitteredBackoffMs_value)
  have "is_count (jitteredBackoffMs baseMs attempt rawDraw)"
    using nonneg unfolding val by (auto simp: is_count_def MAX_SAFE_INTEGER_def)
  moreover have "jitteredBackoffMs baseMs attempt rawDraw = Fin (of_int \<lfloor>x * f + 1 / 2\<rfloor>)"
    if "3 / 2 * x < num_max" using that x0 hi unfolding val by auto
  moreover have "x / 2 - 1 / 2 \<le> of_int \<lfloor>x * f + 1 / 2\<rfloor>" "of_int \<lfloor>x * f + 1 / 2\<rfloor> \<le> 3 / 2 * x + 1 / 2"
    using lo hi fl by linarith+
  ultimately show ?thesis unfolding Let_def x_def[symmetric] by simp
qed

theorem jitteredBackoffMs_whole_and_banded_witness:
  "num_le (Fin 1999) (jitteredBackoffMs (Fin 1000) (Fin 2) (Fin 0)) \<and>
   num_le (jitteredBackoffMs (Fin 1000) (Fin 2) (Fin 0)) (Fin 6001)"
proof -
  have "backoff_base (Fin 1000) * 2 ^ backoff_exponent (Fin 2) = 4000"
    by (simp add: backoff_base_def backoff_exponent_def)
  moreover have "3 / 2 * (4000::rat) < num_max" using num_max_large by simp
  ultimately have "num_le (Fin (4000 / 2 - 1 / 2)) (jitteredBackoffMs (Fin 1000) (Fin 2) (Fin 0)) \<and>
     num_le (jitteredBackoffMs (Fin 1000) (Fin 2) (Fin 0)) (Fin (3 / 2 * 4000 + 1 / 2))"
    using jitteredBackoffMs_whole_and_banded[of "Fin 1000" "Fin 2" "Fin 0"] by (simp add: Let_def)
  then show ?thesis by (cases "jitteredBackoffMs (Fin 1000) (Fin 2) (Fin 0)") auto
qed


section \<open>What a run of events can get through one bucket\<close>

text \<open>The times admitted by a run: each event is evaluated against the bucket left by the admitted
  events before it, and an admitted event is recorded.\<close>

fun admitted_times :: "('b \<Rightarrow> rat \<Rightarrow> bool) \<Rightarrow> ('b \<Rightarrow> rat \<Rightarrow> 'b) \<Rightarrow> 'b \<Rightarrow> rat list \<Rightarrow> rat list" where
  "admitted_times admits bump b [] = []"
| "admitted_times admits bump b (t # ts) =
     (if admits b t then t # admitted_times admits bump (bump b t) ts
      else admitted_times admits bump b ts)"

text \<open>The contract of a windowed counter: within the window of its start it admits while fewer than
  \<open>lim\<close> events are counted; an event after the window opens a new one at its own time.\<close>

locale window_limiter =
  fixes admits :: "'b \<Rightarrow> rat \<Rightarrow> bool"
    and bump :: "'b \<Rightarrow> rat \<Rightarrow> 'b"
    and used :: "'b \<Rightarrow> nat"
    and start :: "'b \<Rightarrow> rat"
    and lim :: nat
    and width :: rat
    and ok :: "'b \<Rightarrow> bool"
  assumes admits_iff: "ok b \<Longrightarrow> admits b t = (if t - start b < width then used b < lim else 0 < lim)"
    and ok_bump: "ok b \<Longrightarrow> admits b t \<Longrightarrow> ok (bump b t)"
    and used_bump: "ok b \<Longrightarrow> admits b t \<Longrightarrow>
      used (bump b t) = (if t - start b < width then Suc (used b) else 1)"
    and start_bump: "ok b \<Longrightarrow> admits b t \<Longrightarrow>
      start (bump b t) = (if t - start b < width then start b else t)"
begin

lemma admitted_one_window:
  "ok b \<Longrightarrow> \<forall>t \<in> set ts. t - start b < width \<Longrightarrow>
    length (admitted_times admits bump b ts) \<le> lim - used b"
proof (induction ts arbitrary: b)
  case (Cons t ts)
  show ?case
  proof (cases "admits b t")
    case True
    with Cons.prems have "start (bump b t) = start b" "used (bump b t) = Suc (used b)" "used b < lim"
      by (auto simp: start_bump used_bump admits_iff)
    moreover from this have "length (admitted_times admits bump (bump b t) ts) \<le> lim - used (bump b t)"
      using Cons.prems True by (intro Cons.IH) (auto intro: ok_bump)
    ultimately show ?thesis using True by simp
  qed (use Cons in auto)
qed simp

lemma admitted_any_span:
  "ok b \<Longrightarrow> sorted ts \<Longrightarrow> \<forall>t \<in> set ts. t - hd ts < width \<Longrightarrow>
    length (admitted_times admits bump b ts) \<le> (lim - used b) + lim"
proof (induction ts arbitrary: b)
  case (Cons t ts)
  have hd_le: "\<forall>u \<in> set ts. t \<le> u" and srt: "sorted ts" using Cons.prems by auto
  have span: "\<forall>u \<in> set ts. u - hd ts < width"
  proof
    fix u assume u: "u \<in> set ts"
    then have "t \<le> hd ts" using hd_le by (cases ts) auto
    moreover have "u - t < width" using Cons.prems(3) u by simp
    ultimately show "u - hd ts < width" by simp
  qed
  show ?case
  proof (cases "admits b t")
    case False
    with Cons.IH[OF Cons.prems(1) srt span] show ?thesis by simp
  next
    case True
    note ok' = ok_bump[OF Cons.prems(1) True]
    show ?thesis
    proof (cases "t - start b < width")
      case inside: True
      with Cons.prems True have "used (bump b t) = Suc (used b)" "used b < lim"
        by (auto simp: used_bump admits_iff)
      with Cons.IH[OF ok' srt span] True show ?thesis by simp
    next
      case False
      with Cons.prems True have b': "used (bump b t) = 1" "start (bump b t) = t" "0 < lim"
        by (auto simp: used_bump start_bump admits_iff)
      have "length (admitted_times admits bump (bump b t) ts) \<le> lim - used (bump b t)"
        using ok' Cons.prems(3) b'(2) by (intro admitted_one_window) auto
      with True b' show ?thesis by simp
    qed
  qed
qed simp

end

text \<open>The calculator and the bucket update meet the contract for configurations in the safe-integer range.\<close>

definition limit_of :: "LocalRateLimitConfig \<Rightarrow> nat" where
  "limit_of c = (case finiteNonNegativeInt (cfg_limit c) of Fin q \<Rightarrow> nat \<lfloor>q\<rfloor> | _ \<Rightarrow> 0)"

definition window_of :: "LocalRateLimitConfig \<Rightarrow> rat" where
  "window_of c = (case finiteNonNegativeInt (cfg_windowMs c) of Fin q \<Rightarrow> q | _ \<Rightarrow> 0)"

definition used_of :: "LocalRateBucket \<Rightarrow> nat" where
  "used_of b = (case bk_count b of Fin q \<Rightarrow> nat \<lfloor>q\<rfloor> | _ \<Rightarrow> 0)"

definition start_of :: "LocalRateBucket \<Rightarrow> rat" where
  "start_of b = (case bk_windowStartMs b of Fin q \<Rightarrow> q | _ \<Rightarrow> 0)"

definition bucket_ok :: "LocalRateLimitConfig \<Rightarrow> LocalRateBucket \<Rightarrow> bool" where
  "bucket_ok c b \<longleftrightarrow>
     is_count (bk_count b) \<and> num_le (bk_count b) (Fin (2 ^ 53)) \<and> isFinite (bk_windowStartMs b) \<and>
     limit_of c \<le> 2 ^ 53 \<and> window_of c < num_max"

definition bucket_admits :: "LocalRateLimitConfig \<Rightarrow> LocalRateBucket \<Rightarrow> rat \<Rightarrow> bool" where
  "bucket_admits c b t = dec_allowed (evaluateLocalRateLimit b c (Fin t))"

definition bucket_bump :: "LocalRateLimitConfig \<Rightarrow> LocalRateBucket \<Rightarrow> rat \<Rightarrow> LocalRateBucket" where
  "bucket_bump c b t = incrementBucket b c (Fin t)"

lemma limit_of_eq: "finiteNonNegativeInt (cfg_limit c) = num_of_nat (limit_of c)"
  by (rule finiteNonNegativeIntE[of "cfg_limit c"]) (simp add: limit_of_def)

lemma window_of_eq:
  "finiteNonNegativeInt (cfg_windowMs c) = Fin (window_of c)" "0 \<le> window_of c"
  by (rule finiteNonNegativeIntE[of "cfg_windowMs c"]; simp add: window_of_def)+

lemma safe_below_num_max: "\<bar>q\<bar> \<le> 2 ^ 53 + 1 \<Longrightarrow> \<bar>q\<bar> < num_max"
  using num_max_large by simp

lemma bucket_okE:
  assumes "bucket_ok c b"
  obtains "bk_count b = num_of_nat (used_of b)" "bk_windowStartMs b = Fin (start_of b)"
    "used_of b \<le> 2 ^ 53" "\<bar>window_of c\<bar> < num_max"
proof -
  from assms obtain n where n: "bk_count b = num_of_nat n" by (auto simp: bucket_ok_def elim: is_countE)
  obtain s where s: "bk_windowStartMs b = Fin s" using assms by (auto simp: bucket_ok_def isFinite_iff)
  have "of_nat n \<le> (2 ^ 53 :: rat)" using assms n by (simp add: bucket_ok_def)
  then have "n \<le> 2 ^ 53" by (metis of_nat_le_iff of_nat_numeral of_nat_power)
  moreover have "\<bar>window_of c\<bar> < num_max"
    using assms window_of_eq(2)[of c] by (simp add: bucket_ok_def)
  ultimately show thesis using that n s by (simp add: used_of_def start_of_def)
qed

lemma bucket_admits_iff:
  assumes "bucket_ok c b"
  shows "bucket_admits c b t =
    (if t - start_of b < window_of c then used_of b < limit_of c else 0 < limit_of c)"
  using assms
proof (rule bucket_okE)
  assume b: "bk_count b = num_of_nat (used_of b)" "bk_windowStartMs b = Fin (start_of b)"
    and w: "\<bar>window_of c\<bar> < num_max"
  show ?thesis
    by (auto simp: bucket_admits_def evaluateLocalRateLimit_def Let_def b limit_of_eq
        window_of_eq(1) num_le_of_rat[OF w])
qed

lemma bucket_bump_eq:
  assumes "bucket_ok c b"
  shows "bucket_bump c b t =
    (if t - start_of b < window_of c
     then \<lparr>bk_count = num_of_nat (Suc (used_of b)), bk_windowStartMs = Fin (start_of b)\<rparr>
     else \<lparr>bk_count = num_of_nat 1, bk_windowStartMs = Fin t\<rparr>)"
  using assms
proof (rule bucket_okE)
  assume b: "bk_count b = num_of_nat (used_of b)" "bk_windowStartMs b = Fin (start_of b)"
    and n: "used_of b \<le> 2 ^ 53" and w: "\<bar>window_of c\<bar> < num_max"
  have win: "(if isFinite (cfg_windowMs c) then math_max (Fin 0) (math_floor (cfg_windowMs c)) else Fin 0)
      = Fin (window_of c)"
    using window_of_eq(1)[of c] by (simp add: finiteNonNegativeInt_def)
  have "rat_of_nat (used_of b) \<le> of_nat (2 ^ 53)" using n by (simp only: of_nat_le_iff)
  then have inc: "num_of_rat (of_nat (used_of b) + 1) = Fin (of_nat (used_of b) + 1)"
    by (intro num_of_rat_within safe_below_num_max) simp
  have one: "num_of_rat 1 = Fin 1" by (simp add: num_of_rat_small)
  show ?thesis
    unfolding bucket_bump_def incrementBucket_def Let_def win b
    using inc one by (auto simp: num_le_of_rat[OF w] add.commute)
qed

lemma used_of_bucket [simp]: "used_of \<lparr>bk_count = num_of_nat n, bk_windowStartMs = s\<rparr> = n"
  by (simp add: used_of_def)

lemma start_of_bucket [simp]: "start_of \<lparr>bk_count = n, bk_windowStartMs = Fin s\<rparr> = s"
  by (simp add: start_of_def)

interpretation rl: window_limiter "bucket_admits c" "bucket_bump c" used_of start_of "limit_of c"
  "window_of c" "bucket_ok c" for c
proof (unfold_locales, goal_cases)
  case (1 b t) then show ?case by (rule bucket_admits_iff)
next
  case (2 b t)
  then have "used_of b < limit_of c \<or> \<not> t - start_of b < window_of c" "limit_of c \<le> 2 ^ 53"
    by (auto simp: bucket_admits_iff bucket_ok_def split: if_splits)
  then have "t - start_of b < window_of c \<Longrightarrow> Suc (used_of b) \<le> 2 ^ 53" by linarith
  then have "t - start_of b < window_of c \<Longrightarrow> rat_of_nat (Suc (used_of b)) \<le> of_nat (2 ^ 53)"
    by (simp only: of_nat_le_iff)
  with 2 show ?case unfolding bucket_bump_eq[OF 2(1)]
    by (auto simp: bucket_ok_def is_count_def simp del: of_nat_Suc)
next
  case (3 b t) then show ?case by (simp add: bucket_bump_eq del: of_nat_Suc)
next
  case (4 b t) then show ?case by (simp add: bucket_bump_eq)
qed


text \<open>no run of events gets more than its limit through one bucket: at most \<open>limit\<close> minus what is already
  counted among events inside the bucket's current window, and at most twice the limit among
  events (in time order) that span less than one window.\<close>

theorem bucket_run_bounded:
  assumes "bucket_ok c b"
  shows "((\<forall>t \<in> set ts. t - start_of b < window_of c) \<longrightarrow>
      length (admitted_times (bucket_admits c) (bucket_bump c) b ts) \<le> limit_of c - used_of b) \<and>
    (sorted ts \<and> (\<forall>t \<in> set ts. t - hd ts < window_of c) \<longrightarrow>
      length (admitted_times (bucket_admits c) (bucket_bump c) b ts) \<le> 2 * limit_of c)"
  using rl.admitted_one_window[OF assms, of ts] rl.admitted_any_span[OF assms, of ts] by auto

definition open_pr_per_repo :: LocalRateLimitConfig where
  "open_pr_per_repo = \<lparr>cfg_limit = Fin 3, cfg_windowMs = Fin 60000\<rparr>"

lemma open_pr_per_repo_values:
  "limit_of open_pr_per_repo = 3" "window_of open_pr_per_repo = 60000"
  "bucket_ok open_pr_per_repo (emptyBucket (Fin 0))"
  using num_max_large
  by (simp_all add: open_pr_per_repo_def limit_of_def window_of_def finiteNonNegativeInt_def
      bucket_ok_def emptyBucket_def is_count_def)

theorem bucket_run_bounded_witness:
  "length (admitted_times (bucket_admits open_pr_per_repo) (bucket_bump open_pr_per_repo)
      (emptyBucket (Fin 0)) [1, 2, 3, 4, 5]) \<le> 3 \<and>
   length (admitted_times (bucket_admits open_pr_per_repo) (bucket_bump open_pr_per_repo)
      (emptyBucket (Fin 0)) [59998, 59999, 60000, 60001]) \<le> 6"
  using bucket_run_bounded[OF open_pr_per_repo_values(3), of "[1, 2, 3, 4, 5]"]
    bucket_run_bounded[OF open_pr_per_repo_values(3), of "[59998, 59999, 60000, 60001]"]
  by (simp add: open_pr_per_repo_values start_of_def emptyBucket_def used_of_def)

text \<open>the window is fixed, not rolling: under the default per-repository ceiling for opening a pull request
  (3 per 60 s) five openings within four milliseconds are admitted when they straddle a window boundary.\<close>

theorem window_is_not_rolling:
  "admitted_times (bucket_admits open_pr_per_repo) (bucket_bump open_pr_per_repo)
     (emptyBucket (Fin 0)) [0, 59998, 59999, 60000, 60001, 60002]
   = [0, 59998, 59999, 60000, 60001, 60002]"
proof -
  have ok0: "bucket_ok open_pr_per_repo (emptyBucket (Fin 0))" by (rule open_pr_per_repo_values)
  have ok: "bucket_ok open_pr_per_repo \<lparr>bk_count = num_of_nat n, bk_windowStartMs = Fin s\<rparr>"
    if "n \<le> 3" for n s
    using that order_trans[of "rat_of_nat n" 3 "2 ^ 53"] num_max_large
    by (simp add: bucket_ok_def open_pr_per_repo_values del: of_nat_Suc)
  have e: "emptyBucket (Fin 0) = \<lparr>bk_count = num_of_nat 0, bk_windowStartMs = Fin 0\<rparr>"
    by (simp add: emptyBucket_def)
  show ?thesis
    unfolding e
    by (simp add: bucket_admits_iff bucket_bump_eq ok open_pr_per_repo_values
        del: of_nat_Suc of_nat_0)
qed



section \<open>The two scopes of a write\<close>

definition finite_now :: "jsnum \<Rightarrow> rat" where
  "finite_now t = (case t of Fin q \<Rightarrow> q | _ \<Rightarrow> 0)"

lemma finite_now_Fin [simp]: "finite_now (Fin t) = t"
  by (simp add: finite_now_def)

lemma finite_now_eq: "(if isFinite t then t else Fin 0) = Fin (finite_now t)"
  by (cases t) (simp_all add: finite_now_def)

definition or_policies :: "WriteRateLimitPolicies option \<Rightarrow> WriteRateLimitPolicies" where
  "or_policies p = or_default p DEFAULT_WRITE_RATE_LIMIT_POLICIES"

definition write_admitted ::
  "string \<Rightarrow> string \<Rightarrow> WriteRateLimitBucketStore \<Rightarrow> WriteRateLimitPolicies \<Rightarrow> jsnum \<Rightarrow> bool" where
  "write_admitted cls repo buckets policies now \<longleftrightarrow>
     bucket_admits (policyFor policies (trim cls) ScopeGlobal)
       (bucketOr (st_global buckets) (trim cls) (Fin (finite_now now))) (finite_now now) \<and>
     bucket_admits (policyFor policies (trim cls) ScopePerRepo)
       (bucketOr (st_perRepo buckets) (writeRateLimitRepoKey cls repo) (Fin (finite_now now))) (finite_now now)"

lemma writeRateLimitRepoKey_trim [simp]: "writeRateLimitRepoKey (trim cls) repo = writeRateLimitRepoKey cls repo"
  by (simp add: writeRateLimitRepoKey_def)

lemma evaluateWriteRateLimit_cases:
  "evaluateWriteRateLimit cls repo buckets backoff pol now rnd = Inl e \<longleftrightarrow>
     \<not> write_admitted cls repo buckets (or_policies pol) now \<and> rnd = Some (Inl e)"
  "evaluateWriteRateLimit cls repo buckets backoff pol now rnd = Inr v \<Longrightarrow>
     wv_allowed v = write_admitted cls repo buckets (or_policies pol) now"
  unfolding evaluateWriteRateLimit_def Let_def finite_now_eq or_default_def[symmetric] or_policies_def[symmetric]
  by (cases rnd; auto simp: write_admitted_def bucket_admits_def split: sum.splits if_splits)+

lemma wv_allowed_iff:
  "(\<exists>v. evaluateWriteRateLimit cls repo buckets backoff pol now rnd = Inr v \<and> wv_allowed v) \<longleftrightarrow>
     write_admitted cls repo buckets (or_policies pol) now"
  using evaluateWriteRateLimit_cases[of cls repo buckets backoff pol now rnd]
  by (cases "evaluateWriteRateLimit cls repo buckets backoff pol now rnd") auto

text \<open>Recording and clearing touch the entry of their own key only.\<close>

lemma recordWriteRateLimitAllowed_perRepo:
  "map_of (st_perRepo (recordWriteRateLimitAllowed buckets cls repo now pol)) =
     (map_of (st_perRepo buckets))(writeRateLimitRepoKey cls repo \<mapsto>
        incrementBucket (bucketOr (st_perRepo buckets) (writeRateLimitRepoKey cls repo) now)
          (policyFor pol (trim cls) ScopePerRepo) now)"
  by (simp add: recordWriteRateLimitAllowed_def Let_def)

lemma recordWriteRateLimitDenied_map:
  "map_of (recordWriteRateLimitDenied backoff cls repo) =
     (map_of backoff)(writeRateLimitRepoKey cls repo \<mapsto>
        num_add (backoffOf backoff (writeRateLimitRepoKey cls repo)) (Fin 1))"
  by (simp add: recordWriteRateLimitDenied_def Let_def)

lemma clearWriteRateLimitBackoff_map:
  "map_of (clearWriteRateLimitBackoff backoff cls repo) =
     (map_of backoff)(writeRateLimitRepoKey cls repo := None)"
  by (auto simp: clearWriteRateLimitBackoff_def Let_def)

text \<open>two spellings of one repository share a bucket: the per-repository key ignores the case of the name and
  surrounding blanks of the name and of the action class, and with a separator-free action class different
  (trimmed, lower-cased) names get different keys.\<close>

theorem writeRateLimitRepoKey_identifies:
  assumes "CHR '':'' \<notin> set cls" "CHR '':'' \<notin> set cls'"
  shows "writeRateLimitRepoKey cls repo = writeRateLimitRepoKey cls' repo' \<longleftrightarrow>
    trim cls = trim cls' \<and> toLowerCase (trim repo) = toLowerCase (trim repo')"
proof -
  have "CHR '':'' \<notin> set (trim cls)" "CHR '':'' \<notin> set (trim cls')" using assms set_trim by blast+
  then have "trim cls @ '':'' @ x = trim cls' @ '':'' @ y \<longleftrightarrow> trim cls = trim cls' \<and> x = y" for x y
    by (simp add: append_sep_inj)
  then show ?thesis by (simp add: writeRateLimitRepoKey_def)
qed

theorem writeRateLimitRepoKey_identifies_witness:
  "writeRateLimitRepoKey '' open_pr'' ''Acme/Widget'' = writeRateLimitRepoKey ''open_pr'' '' acme/widget''"
  using writeRateLimitRepoKey_identifies[of "'' open_pr''" "''open_pr''" "''Acme/Widget''" "'' acme/widget''"]
  by (simp, code_simp)

end
