(* ===== verification/Governor_Signals.thy ===== *)
theory Governor_Signals
  imports Rate_Limit
begin

text \<open>
  The pure calculators the Governor composes, one group per source module under
  \<open>packages/loopover-engine/src/\<close>: the kill switch (\<open>governor/kill-switch.ts\<close>), the action mode
  (\<open>governor/action-mode.ts\<close>), the budget, turn and termination caps (\<open>governor/budget-cap.ts\<close>), the
  non-convergence detector (\<open>portfolio/non-convergence.ts\<close>), the run-loop halt
  (\<open>governor/run-halt.ts\<close> with its stateful gate \<open>packages/loopover-miner/lib/governor-run-halt.ts\<close>)
  and the self-reputation throttle (\<open>governor/reputation-throttle.ts\<close>).
  A value of type \<open>boolean | null | undefined\<close> is a \<open>bool option\<close>.
\<close>

section \<open>Kill switch\<close>

definition TRUTHY_ENV_VALUE :: "string \<Rightarrow> bool" where
  "TRUTHY_ENV_VALUE s \<longleftrightarrow> toLowerCase s \<in> {''1'', ''true'', ''yes'', ''on''}"

definition MINER_KILL_SWITCH_ENV_VAR :: string where
  "MINER_KILL_SWITCH_ENV_VAR = ''LOOPOVER_MINER_KILL_SWITCH''"

datatype MinerKillSwitchScope = KsGlobal | KsRepo | KsNone

fun scope_name :: "MinerKillSwitchScope \<Rightarrow> string" where
  "scope_name KsGlobal = ''global''"
| "scope_name KsRepo = ''repo''"
| "scope_name KsNone = ''none''"

definition env_get :: "string jstable \<Rightarrow> string \<Rightarrow> string" where
  "env_get env k = (case map_of env k of None \<Rightarrow> [] | Some v \<Rightarrow> v)"

definition isGlobalMinerKillSwitch :: "string jstable \<Rightarrow> bool" where
  "isGlobalMinerKillSwitch env = TRUTHY_ENV_VALUE (env_get env MINER_KILL_SWITCH_ENV_VAR)"

definition resolveMinerKillSwitch :: "bool \<Rightarrow> bool option \<Rightarrow> MinerKillSwitchScope" where
  "resolveMinerKillSwitch global repoPaused =
     (if global then KsGlobal else if repoPaused = Some True then KsRepo else KsNone)"

definition isMinerKillSwitchActive :: "MinerKillSwitchScope \<Rightarrow> bool" where
  "isMinerKillSwitchActive scope \<longleftrightarrow> scope \<noteq> KsNone"

definition buildMinerKillSwitchTransitionGovernorLedgerEvent ::
  "string option \<Rightarrow> string \<Rightarrow> MinerKillSwitchScope \<Rightarrow> MinerKillSwitchScope
     \<Rightarrow> GovernorLedgerEvent option" where
  "buildMinerKillSwitchTransitionGovernorLedgerEvent repoFullName actionClass previousScope scope =
     (if previousScope = scope then None
      else let tripped = isMinerKillSwitchActive scope in
        Some \<lparr>ge_eventType = EvKillSwitch,
              ge_repoFullName = repoFullName,
              ge_actionClass = actionClass,
              ge_decision = (if tripped then ''tripped'' else ''resumed''),
              ge_reason = lit (if tripped then scope_name scope @ ''_kill_switch_engaged''
                               else scope_name previousScope @ ''_kill_switch_cleared''),
              ge_payload = JObj [(''previousScope'', JStr (scope_name previousScope)),
                                 (''scope'', JStr (scope_name scope))]\<rparr>)"

datatype MinerKillSwitchPagerDutySeverity = SevCritical | SevError | SevWarning | SevInfo

record MinerKillSwitchPagerDutyAlert =
  pd_repoFullName :: "string option"
  pd_scope :: MinerKillSwitchScope
  pd_actionClass :: string
  pd_summary :: string
  pd_severity :: MinerKillSwitchPagerDutySeverity
  pd_dedupKey :: string
  pd_customDetails :: jsval

definition null_or_str :: "string option \<Rightarrow> jsval" where
  "null_or_str s = (case s of None \<Rightarrow> JNull | Some x \<Rightarrow> JStr x)"

definition buildMinerKillSwitchPagerDutyAlert ::
  "string option \<Rightarrow> string \<Rightarrow> MinerKillSwitchScope \<Rightarrow> MinerKillSwitchScope
     \<Rightarrow> MinerKillSwitchPagerDutyAlert option" where
  "buildMinerKillSwitchPagerDutyAlert repoFullName actionClass previousScope scope =
     (if previousScope = scope then None
      else if \<not> isMinerKillSwitchActive scope then None
      else let target = (case repoFullName of None \<Rightarrow> ''global'' | Some r \<Rightarrow> r) in
        Some \<lparr>pd_repoFullName = repoFullName,
              pd_scope = scope,
              pd_actionClass = actionClass,
              pd_summary = ''AMS miner kill-switch tripped ('' @ scope_name scope @ '') '' @ em_dash
                @ '' '' @ actionClass @ '' halted for '' @ target,
              pd_severity = SevCritical,
              pd_dedupKey = ''miner_kill_switch_tripped:'' @ scope_name scope @ '':'' @ target,
              pd_customDetails = JObj [(''scope'', JStr (scope_name scope)),
                (''previousScope'', JStr (scope_name previousScope)),
                (''repoFullName'', null_or_str repoFullName),
                (''actionClass'', JStr actionClass)]\<rparr>)"


section \<open>Action mode\<close>

datatype MinerActionMode = ModePaused | ModeDryRun | ModeLive

definition MINER_LIVE_MODE_OPT_IN :: string where
  "MINER_LIVE_MODE_OPT_IN = ''live''"

definition MINER_LIVE_MODE_ENV_VAR :: string where
  "MINER_LIVE_MODE_ENV_VAR = ''LOOPOVER_MINER_LIVE_MODE''"

definition isExplicitMinerLiveModeOptIn :: "jsval \<Rightarrow> bool" where
  "isExplicitMinerLiveModeOptIn value \<longleftrightarrow> value = JStr MINER_LIVE_MODE_OPT_IN"

definition isGlobalMinerLiveModeOptIn :: "string jstable \<Rightarrow> bool" where
  "isGlobalMinerLiveModeOptIn env \<longleftrightarrow> map_of env MINER_LIVE_MODE_ENV_VAR = Some MINER_LIVE_MODE_OPT_IN"

definition resolveMinerActionMode :: "MinerKillSwitchScope \<Rightarrow> jsval \<Rightarrow> bool \<Rightarrow> MinerActionMode" where
  "resolveMinerActionMode killSwitchScope repoLiveModeOptIn globalLiveModeOptIn =
     (if isMinerKillSwitchActive killSwitchScope then ModePaused
      else if globalLiveModeOptIn \<and> isExplicitMinerLiveModeOptIn repoLiveModeOptIn then ModeLive
      else ModeDryRun)"

definition minerActionModeExecutes :: "MinerActionMode \<Rightarrow> bool" where
  "minerActionModeExecutes mode \<longleftrightarrow> mode = ModeLive"

definition buildMinerDryRunGovernorLedgerEvent ::
  "string option \<Rightarrow> string \<Rightarrow> jsval \<Rightarrow> GovernorLedgerEvent" where
  "buildMinerDryRunGovernorLedgerEvent repoFullName actionClass wouldBeAction =
     \<lparr>ge_eventType = EvAllowed, ge_repoFullName = repoFullName, ge_actionClass = actionClass,
      ge_decision = ''dry_run'', ge_reason = lit ''dry_run_mode_active'',
      ge_payload = JObj [(''wouldBeAction'', wouldBeAction)]\<rparr>"


section \<open>Budget, turn and termination caps\<close>

record GovernorCapLimits =
  lim_budget :: jsnum
  lim_turns :: jsnum
  lim_elapsedMs :: jsnum

record GovernorCapUsage =
  use_budgetSpent :: jsnum
  use_turnsTaken :: jsnum
  use_elapsedMs :: jsnum

record GovernorCapDimension =
  dim_limit :: jsnum
  dim_used :: jsnum
  dim_remaining :: jsnum
  dim_exceeded :: bool

record GovernorCapReport =
  rep_verdict :: GovernorLedgerEventType
  rep_budget :: GovernorCapDimension
  rep_turns :: GovernorCapDimension
  rep_termination :: GovernorCapDimension

definition finiteNonNegative :: "jsnum \<Rightarrow> jsnum" where
  "finiteNonNegative value = (if isFinite value then math_max (Fin 0) value else Fin 0)"

definition evaluateDimension :: "jsnum \<Rightarrow> jsnum \<Rightarrow> GovernorCapDimension" where
  "evaluateDimension used limit =
     \<lparr>dim_limit = limit, dim_used = used, dim_remaining = math_max (Fin 0) (num_sub limit used),
      dim_exceeded = num_ge used limit\<rparr>"

definition evaluateGovernorCaps :: "GovernorCapUsage \<Rightarrow> GovernorCapLimits \<Rightarrow> GovernorCapReport" where
  "evaluateGovernorCaps usage limits =
     (let budget = evaluateDimension (finiteNonNegative (use_budgetSpent usage))
                     (finiteNonNegative (lim_budget limits));
          turns = evaluateDimension (finiteNonNegativeInt (use_turnsTaken usage))
                     (finiteNonNegativeInt (lim_turns limits));
          termination = evaluateDimension (finiteNonNegative (use_elapsedMs usage))
                     (finiteNonNegative (lim_elapsedMs limits));
          verdict = (if dim_exceeded termination then EvKillSwitch
                     else if dim_exceeded budget \<or> dim_exceeded turns then EvDenied
                     else EvAllowed)
      in \<lparr>rep_verdict = verdict, rep_budget = budget, rep_turns = turns,
          rep_termination = termination\<rparr>)"


section \<open>Non-convergence\<close>

datatype PortfolioConvergenceStatus = Converging | Stalled | NonConvergent

record PortfolioConvergenceInput =
  ci_attempts :: jsnum
  ci_consecutiveFailures :: jsnum
  ci_reenqueues :: jsnum
  ci_reachedDone :: bool

record PortfolioConvergenceThresholds =
  th_maxConsecutiveFailures :: jsnum
  th_maxReenqueues :: jsnum

definition DEFAULT_PORTFOLIO_CONVERGENCE_THRESHOLDS :: PortfolioConvergenceThresholds where
  "DEFAULT_PORTFOLIO_CONVERGENCE_THRESHOLDS =
     \<lparr>th_maxConsecutiveFailures = Fin 3, th_maxReenqueues = Fin 3\<rparr>"

record PortfolioConvergenceVerdict =
  cv_status :: PortfolioConvergenceStatus
  cv_reasons :: "msg list"

definition classifyPortfolioConvergence ::
  "PortfolioConvergenceInput \<Rightarrow> PortfolioConvergenceThresholds \<Rightarrow> PortfolioConvergenceVerdict" where
  "classifyPortfolioConvergence input thresholds =
     (let attempts = finiteNonNegativeInt (ci_attempts input);
          consecutiveFailures = finiteNonNegativeInt (ci_consecutiveFailures input);
          reenqueues = finiteNonNegativeInt (ci_reenqueues input);
          maxConsecutiveFailures = finiteNonNegativeInt (th_maxConsecutiveFailures thresholds);
          maxReenqueues = finiteNonNegativeInt (th_maxReenqueues thresholds);
          reasons =
            (if num_ge consecutiveFailures maxConsecutiveFailures
             then [[NumV consecutiveFailures, Lit '' consecutive failures ('', Lit ge_sign, Lit '' '',
                    NumV maxConsecutiveFailures, Lit '').'']] else []) @
            (if num_ge reenqueues maxReenqueues
             then [[Lit ''re-enqueued '', NumV reenqueues,
                    Lit '' times without reaching done ('', Lit ge_sign, Lit '' '',
                    NumV maxReenqueues, Lit '').'']] else [])
      in if num_le attempts (Fin 0) then
           \<lparr>cv_status = Converging, cv_reasons =
              [lit ''No attempts yet; a first attempt is not evidence of a stuck loop.'']\<rparr>
         else if ci_reachedDone input then
           \<lparr>cv_status = Converging, cv_reasons = [lit ''Item reached done.'']\<rparr>
         else if reasons \<noteq> [] then \<lparr>cv_status = NonConvergent, cv_reasons = reasons\<rparr>
         else if num_lt (Fin 0) consecutiveFailures \<or> num_lt (Fin 0) reenqueues then
           \<lparr>cv_status = Stalled, cv_reasons =
              [[NumV consecutiveFailures, Lit '' consecutive failure(s), '', NumV reenqueues,
                Lit '' re-enqueue(s) '', Lit em_dash, Lit '' below the non-convergence threshold.'']]\<rparr>
         else \<lparr>cv_status = Converging,
                cv_reasons = [lit ''Attempts in progress with no failure streak.'']\<rparr>)"


section \<open>Run-loop halt\<close>

record NonConvergenceSignal =
  nc_tripped :: bool
  nc_status :: PortfolioConvergenceStatus
  nc_reasons :: "msg list"

definition detectNonConvergence ::
  "PortfolioConvergenceInput \<Rightarrow> PortfolioConvergenceThresholds option \<Rightarrow> NonConvergenceSignal" where
  "detectNonConvergence input thresholds =
     (let verdict = classifyPortfolioConvergence input
            (case thresholds of None \<Rightarrow> DEFAULT_PORTFOLIO_CONVERGENCE_THRESHOLDS | Some t \<Rightarrow> t)
      in \<lparr>nc_tripped = (cv_status verdict = NonConvergent), nc_status = cv_status verdict,
          nc_reasons = cv_reasons verdict\<rparr>)"

datatype RunLoopHaltReason =
  HaltCleared | PriorHalt | HaltNonConvergence | BudgetExceeded | TurnCapExceeded
| TerminationCapExceeded

record RunLoopHaltVerdict =
  hv_shouldHalt :: bool
  hv_canClaimNext :: bool
  hv_reason :: RunLoopHaltReason
  hv_convergence :: NonConvergenceSignal
  hv_caps :: GovernorCapReport
  hv_ledgerEventType :: GovernorLedgerEventType
  hv_ledgerReason :: string

definition haltVerdict ::
  "RunLoopHaltReason \<Rightarrow> NonConvergenceSignal \<Rightarrow> GovernorCapReport \<Rightarrow> GovernorLedgerEventType
     \<Rightarrow> string \<Rightarrow> RunLoopHaltVerdict" where
  "haltVerdict reason convergence caps ledgerEventType ledgerReason =
     \<lparr>hv_shouldHalt = True, hv_canClaimNext = False, hv_reason = reason,
      hv_convergence = convergence, hv_caps = caps, hv_ledgerEventType = ledgerEventType,
      hv_ledgerReason = ledgerReason\<rparr>"

definition evaluateRunLoopHalt ::
  "bool \<Rightarrow> GovernorCapUsage \<Rightarrow> GovernorCapLimits \<Rightarrow> PortfolioConvergenceInput
     \<Rightarrow> PortfolioConvergenceThresholds option \<Rightarrow> RunLoopHaltVerdict" where
  "evaluateRunLoopHalt runHalted usage limits convergenceIn convergenceThresholds =
     (let convergence = detectNonConvergence convergenceIn convergenceThresholds;
          caps = evaluateGovernorCaps usage limits
      in if runHalted then haltVerdict PriorHalt convergence caps EvDenied ''run_already_halted''
         else if rep_verdict caps = EvKillSwitch then
           haltVerdict TerminationCapExceeded convergence caps EvKillSwitch ''termination_cap_exceeded''
         else if dim_exceeded (rep_budget caps) then
           haltVerdict BudgetExceeded convergence caps EvDenied ''budget_cap_exceeded''
         else if dim_exceeded (rep_turns caps) then
           haltVerdict TurnCapExceeded convergence caps EvDenied ''turn_cap_exceeded''
         else if nc_tripped convergence then
           haltVerdict HaltNonConvergence convergence caps EvDenied ''non_convergence_detected''
         else \<lparr>hv_shouldHalt = False, hv_canClaimNext = True, hv_reason = HaltCleared,
               hv_convergence = convergence, hv_caps = caps, hv_ledgerEventType = EvAllowed,
               hv_ledgerReason = ''under_limit''\<rparr>)"

text \<open>The cleared latch.\<close>

definition clearRunLoopHalt :: bool where
  "clearRunLoopHalt = False"

fun haltReason_name :: "RunLoopHaltReason \<Rightarrow> string" where
  "haltReason_name HaltCleared = ''cleared''"
| "haltReason_name PriorHalt = ''prior_halt''"
| "haltReason_name HaltNonConvergence = ''non_convergence''"
| "haltReason_name BudgetExceeded = ''budget_exceeded''"
| "haltReason_name TurnCapExceeded = ''turn_cap_exceeded''"
| "haltReason_name TerminationCapExceeded = ''termination_cap_exceeded''"

fun status_name :: "PortfolioConvergenceStatus \<Rightarrow> string" where
  "status_name Converging = ''converging''"
| "status_name Stalled = ''stalled''"
| "status_name NonConvergent = ''non_convergent''"

definition buildRunLoopHaltGovernorLedgerEvent ::
  "string option \<Rightarrow> string option \<Rightarrow> RunLoopHaltVerdict \<Rightarrow> GovernorLedgerEvent" where
  "buildRunLoopHaltGovernorLedgerEvent repoFullName inFlightIdentifier verdict =
     \<lparr>ge_eventType = hv_ledgerEventType verdict,
      ge_repoFullName = repoFullName,
      ge_actionClass = ''run_loop'',
      ge_decision = (if hv_shouldHalt verdict then ''halt'' else ''continue''),
      ge_reason = lit (hv_ledgerReason verdict),
      ge_payload = JObj
        [(''haltReason'', JStr (haltReason_name (hv_reason verdict))),
         (''convergenceStatus'', JStr (status_name (nc_status (hv_convergence verdict)))),
         (''convergenceReasons'', JArr (map JTxt (nc_reasons (hv_convergence verdict)))),
         (''budgetExceeded'', JBool (dim_exceeded (rep_budget (hv_caps verdict)))),
         (''turnsExceeded'', JBool (dim_exceeded (rep_turns (hv_caps verdict)))),
         (''terminationExceeded'', JBool (dim_exceeded (rep_termination (hv_caps verdict)))),
         (''inFlightIdentifier'', null_or_str inFlightIdentifier)]\<rparr>"

text \<open>The stateful boundary gate. \<open>markFailed\<close> is the injected queue operation (absent: \<open>None\<close>) and \<open>append\<close> the injected
  write to the governor ledger; either may throw, and what is thrown is thrown by the gate. The calls made, in their
  order, are the first component of the result.\<close>

datatype boundary_call = CallMarkFailed string string | CallAppend GovernorLedgerEvent

record ('entry, 'row) RunLoopBoundaryResult =
  br_verdict :: RunLoopHaltVerdict
  br_recorded :: "'row option"
  br_runHalted :: bool
  br_canClaimNext :: bool
  br_releasedItem :: "'entry option"

record ('entry, 'row) RunLoopBoundaryInput =
  bi_runHalted :: "bool option"
  bi_usage :: GovernorCapUsage
  bi_limits :: GovernorCapLimits
  bi_convergence :: PortfolioConvergenceInput
  bi_convergenceThresholds :: "PortfolioConvergenceThresholds option"
  bi_inFlightItem :: "(string \<times> string) option"
  bi_markFailed :: "(string \<Rightarrow> string \<Rightarrow> string + 'entry option) option"
  bi_append :: "GovernorLedgerEvent \<Rightarrow> string + 'row"

definition evaluateRunLoopBoundaryGate ::
  "('entry, 'row) RunLoopBoundaryInput \<Rightarrow> boundary_call list \<times> (string + ('entry, 'row) RunLoopBoundaryResult)" where
  "evaluateRunLoopBoundaryGate input =
     (let wasHalted = (bi_runHalted input = Some True);
          verdict = evaluateRunLoopHalt wasHalted (bi_usage input) (bi_limits input) (bi_convergence input)
            (bi_convergenceThresholds input);
          newlyHalted = (\<not> wasHalted \<and> hv_shouldHalt verdict);
          release = (if newlyHalted
             then (case (bi_inFlightItem input, bi_markFailed input) of
                     (Some (repo, ident), Some mark) \<Rightarrow> ([CallMarkFailed repo ident], mark repo ident)
                   | _ \<Rightarrow> ([], Inr None))
             else ([], Inr None));
          event = buildRunLoopHaltGovernorLedgerEvent (map_option fst (bi_inFlightItem input))
                    (map_option snd (bi_inFlightItem input)) verdict
      in case release of
           (calls, Inl e) \<Rightarrow> (calls, Inl e)
         | (calls, Inr releasedItem) \<Rightarrow>
             (case (if wasHalted \<noteq> hv_shouldHalt verdict
                    then (calls @ [CallAppend event], and_then (bi_append input event) (\<lambda>row. Inr (Some row)))
                    else (calls, Inr None)) of
                (calls, Inl e) \<Rightarrow> (calls, Inl e)
              | (calls, Inr recorded) \<Rightarrow>
                  (calls, Inr \<lparr>br_verdict = verdict, br_recorded = recorded, br_runHalted = hv_shouldHalt verdict,
                     br_canClaimNext = hv_canClaimNext verdict, br_releasedItem = releasedItem\<rparr>)))"


section \<open>Self-reputation throttle\<close>

record SelfReputationThresholds =
  sr_minSampleSize :: jsnum
  sr_throttleAtRatio :: jsnum
  sr_floorAtRatio :: jsnum
  sr_minCadenceFactor :: jsnum

definition DEFAULT_SELF_REPUTATION_THRESHOLDS :: SelfReputationThresholds where
  "DEFAULT_SELF_REPUTATION_THRESHOLDS =
     \<lparr>sr_minSampleSize = Fin 5, sr_throttleAtRatio = Fin (1 / 2), sr_floorAtRatio = Fin (9 / 10),
      sr_minCadenceFactor = Fin (1 / 10)\<rparr>"

record RepoOutcomeHistory =
  oh_decided :: jsnum
  oh_unfavorable :: jsnum

datatype SelfReputationThrottleReason = InsufficientHistory | Clean | Throttled | Floored

record SelfReputationThrottleDecision =
  rt_cadenceFactor :: jsnum
  rt_throttled :: bool
  rt_unfavorableRatio :: "jsnum option"
  rt_reason :: SelfReputationThrottleReason

definition clampFraction :: "jsnum \<Rightarrow> jsnum \<Rightarrow> jsnum" where
  "clampFraction value fallback =
     (if isFinite value then math_min (Fin 1) (math_max (Fin 0) value) else fallback)"

record PartialThresholds =
  ov_minSampleSize :: "jsnum option"
  ov_throttleAtRatio :: "jsnum option"
  ov_floorAtRatio :: "jsnum option"
  ov_minCadenceFactor :: "jsnum option"

definition resolveSelfReputationThresholds :: "PartialThresholds \<Rightarrow> SelfReputationThresholds" where
  "resolveSelfReputationThresholds overrides =
     (let d = DEFAULT_SELF_REPUTATION_THRESHOLDS;
          minSampleSize = math_max (Fin 1) (finiteNonNegativeInt
             (or_default (ov_minSampleSize overrides) (sr_minSampleSize d)));
          throttleAtRatio = clampFraction
             (or_default (ov_throttleAtRatio overrides) (sr_throttleAtRatio d)) (sr_throttleAtRatio d);
          floorAtRatio = math_max throttleAtRatio (clampFraction
             (or_default (ov_floorAtRatio overrides) (sr_floorAtRatio d)) (sr_floorAtRatio d));
          minCadenceFactor = clampFraction
             (or_default (ov_minCadenceFactor overrides) (sr_minCadenceFactor d)) (sr_minCadenceFactor d)
      in \<lparr>sr_minSampleSize = minSampleSize, sr_throttleAtRatio = throttleAtRatio,
          sr_floorAtRatio = floorAtRatio, sr_minCadenceFactor = minCadenceFactor\<rparr>)"

definition selfReputationThrottle ::
  "RepoOutcomeHistory \<Rightarrow> SelfReputationThresholds \<Rightarrow> SelfReputationThrottleDecision" where
  "selfReputationThrottle history thresholds =
     (let decided = finiteNonNegativeInt (oh_decided history);
          unfavorable = math_min decided (finiteNonNegativeInt (oh_unfavorable history))
      in if num_lt decided (sr_minSampleSize thresholds) then
           \<lparr>rt_cadenceFactor = Fin 1, rt_throttled = False, rt_unfavorableRatio = None,
            rt_reason = InsufficientHistory\<rparr>
         else let ratio = num_div unfavorable decided in
           if num_lt ratio (sr_throttleAtRatio thresholds) then
             \<lparr>rt_cadenceFactor = Fin 1, rt_throttled = False,
              rt_unfavorableRatio = Some (to_fixed3 ratio), rt_reason = Clean\<rparr>
           else if num_ge ratio (sr_floorAtRatio thresholds) then
             \<lparr>rt_cadenceFactor = sr_minCadenceFactor thresholds, rt_throttled = True,
              rt_unfavorableRatio = Some (to_fixed3 ratio), rt_reason = Floored\<rparr>
           else
             let t = num_div (num_sub ratio (sr_throttleAtRatio thresholds))
                       (num_sub (sr_floorAtRatio thresholds) (sr_throttleAtRatio thresholds));
                 cadenceFactor = to_fixed3 (num_sub (Fin 1)
                   (num_mul t (num_sub (Fin 1) (sr_minCadenceFactor thresholds))))
             in \<lparr>rt_cadenceFactor = cadenceFactor, rt_throttled = True,
                 rt_unfavorableRatio = Some (to_fixed3 ratio), rt_reason = Throttled\<rparr>)"

fun reputationReason_name :: "SelfReputationThrottleReason \<Rightarrow> string" where
  "reputationReason_name InsufficientHistory = ''insufficient_history''"
| "reputationReason_name Clean = ''clean''"
| "reputationReason_name Throttled = ''throttled''"
| "reputationReason_name Floored = ''floored''"

definition num_or_null :: "jsnum option \<Rightarrow> jsval" where
  "num_or_null x = (case x of None \<Rightarrow> JNull | Some n \<Rightarrow> JNum n)"

definition selfReputationThrottleLedgerEvent ::
  "string \<Rightarrow> string \<Rightarrow> SelfReputationThrottleDecision \<Rightarrow> GovernorLedgerEvent" where
  "selfReputationThrottleLedgerEvent repoFullName actionClass decision =
     \<lparr>ge_eventType = (if rt_throttled decision then EvThrottled else EvAllowed),
      ge_repoFullName = Some repoFullName,
      ge_actionClass = actionClass,
      ge_decision = (if rt_throttled decision then ''throttle'' else ''allow''),
      ge_reason = lit (reputationReason_name (rt_reason decision)),
      ge_payload = JObj [(''cadenceFactor'', JNum (rt_cadenceFactor decision)),
                         (''unfavorableRatio'', num_or_null (rt_unfavorableRatio decision))]\<rparr>"


section \<open>Lemmas: kill switch and action mode\<close>

lemma resolveMinerActionMode_live_iff:
  "resolveMinerActionMode scope optIn global = ModeLive \<longleftrightarrow>
     scope = KsNone \<and> global \<and> optIn = JStr ''live''"
  by (auto simp: resolveMinerActionMode_def isMinerKillSwitchActive_def
      isExplicitMinerLiveModeOptIn_def MINER_LIVE_MODE_OPT_IN_def)

lemma resolveMinerActionMode_paused_iff:
  "resolveMinerActionMode scope optIn global = ModePaused \<longleftrightarrow> isMinerKillSwitchActive scope"
  by (auto simp: resolveMinerActionMode_def)

text \<open>the two reports of a kill-switch change agree: a page is sent exactly for a change into an active scope,
  a ledger row is written exactly for a change, and the row says \<open>tripped\<close> exactly when a page is sent.\<close>

theorem kill_switch_reports_agree:
  "(buildMinerKillSwitchPagerDutyAlert repo cls prev scope \<noteq> None) =
     (\<exists>e. buildMinerKillSwitchTransitionGovernorLedgerEvent repo cls prev scope = Some e \<and>
          ge_decision e = ''tripped'') \<and>
   (buildMinerKillSwitchTransitionGovernorLedgerEvent repo cls prev scope = None) = (prev = scope)"
  by (auto simp: buildMinerKillSwitchPagerDutyAlert_def
      buildMinerKillSwitchTransitionGovernorLedgerEvent_def Let_def)

text \<open>The contract every gate of the miner keeps with the kill switch: an active scope stops it.\<close>

locale kill_gate =
  fixes go :: "'i \<Rightarrow> bool"
    and scope :: "'i \<Rightarrow> MinerKillSwitchScope"
  assumes stops: "isMinerKillSwitchActive (scope i) \<Longrightarrow> \<not> go i"
begin

lemma only_when_clear: "filter go is = filter go (filter (\<lambda>i. scope i = KsNone) is)"
proof -
  have "go i \<longleftrightarrow> scope i = KsNone \<and> go i" for i
    using stops[of i] by (auto simp: isMinerKillSwitchActive_def)
  then show ?thesis unfolding filter_filter by (intro filter_cong) auto
qed

lemma nothing_while_killed: "list_all (\<lambda>i. scope i \<noteq> KsNone) is \<Longrightarrow> filter go is = []"
  using stops by (auto simp: list_all_iff filter_empty_conv isMinerKillSwitchActive_def)

end


section \<open>Lemmas: caps\<close>

lemma finiteNonNegative_nonneg [simp, intro]: "is_nonneg (finiteNonNegative x)"
  by (cases x) (auto simp: finiteNonNegative_def is_nonneg_def)

lemma finiteNonNegativeE:
  obtains q where "finiteNonNegative x = Fin q" "0 \<le> q"
  using finiteNonNegative_nonneg[of x] unfolding is_nonneg_iff by blast

lemma finiteNonNegative_mono:
  "isFinite x \<Longrightarrow> isFinite y \<Longrightarrow> num_le x y \<Longrightarrow> num_le (finiteNonNegative x) (finiteNonNegative y)"
  by (cases x; cases y) (auto simp: finiteNonNegative_def)

lemma finiteNonNegativeInt_mono:
  "isFinite x \<Longrightarrow> isFinite y \<Longrightarrow> num_le x y \<Longrightarrow> num_le (finiteNonNegativeInt x) (finiteNonNegativeInt y)"
  by (cases x; cases y) (auto simp: finiteNonNegativeInt_def max_def intro: floor_mono order_trans)

lemma evaluateDimension_remaining_nonneg:
  "isFinite used \<Longrightarrow> isFinite limit \<Longrightarrow> num_le (Fin 0) (dim_remaining (evaluateDimension used limit))"
  by (cases used; cases limit)
    (auto simp: evaluateDimension_def math_max.simps num_of_rat_def)

lemma evaluateDimension_exceeded_mono:
  "num_le u u' \<Longrightarrow> dim_exceeded (evaluateDimension u l) \<Longrightarrow> dim_exceeded (evaluateDimension u' l)"
  by (cases u; cases u'; cases l) (auto simp: evaluateDimension_def)

lemma finiteNonNegative_isFinite [simp]:
  "isFinite (finiteNonNegative x)" "isFinite (finiteNonNegativeInt x)"
  using finiteNonNegative_nonneg[of x] finiteNonNegativeInt_count[of x]
  by (auto simp: is_nonneg_def is_count_def simp del: finiteNonNegativeInt_count)

lemmas evaluateGovernorCaps_simps = evaluateGovernorCaps_def Let_def

lemma rep_verdict_iff:
  "rep_verdict (evaluateGovernorCaps u l) = EvKillSwitch \<longleftrightarrow>
     dim_exceeded (rep_termination (evaluateGovernorCaps u l))"
  "rep_verdict (evaluateGovernorCaps u l) = EvAllowed \<longleftrightarrow>
     \<not> dim_exceeded (rep_termination (evaluateGovernorCaps u l)) \<and>
     \<not> dim_exceeded (rep_budget (evaluateGovernorCaps u l)) \<and>
     \<not> dim_exceeded (rep_turns (evaluateGovernorCaps u l))"
  "rep_verdict (evaluateGovernorCaps u l) \<noteq> EvThrottled"
  by (auto simp: evaluateGovernorCaps_simps)

definition cap_severity :: "GovernorLedgerEventType \<Rightarrow> nat" where
  "cap_severity v = (case v of EvAllowed \<Rightarrow> 0 | EvThrottled \<Rightarrow> 1 | EvDenied \<Rightarrow> 1 | EvKillSwitch \<Rightarrow> 2)"

definition usage_le :: "GovernorCapUsage \<Rightarrow> GovernorCapUsage \<Rightarrow> bool" where
  "usage_le u u' \<longleftrightarrow>
     num_le (use_budgetSpent u) (use_budgetSpent u') \<and> num_le (use_turnsTaken u) (use_turnsTaken u') \<and>
     num_le (use_elapsedMs u) (use_elapsedMs u')"

definition usage_finite :: "GovernorCapUsage \<Rightarrow> bool" where
  "usage_finite u \<longleftrightarrow> isFinite (use_budgetSpent u) \<and> isFinite (use_turnsTaken u) \<and> isFinite (use_elapsedMs u)"

text \<open>the run caps are well formed and monotone: for every input the three remaining allowances are
  non-negative (never NaN), and a run whose finite usage grows never gets a milder verdict
  (allowed, then denied, then kill switch).\<close>

theorem evaluateGovernorCaps_monotone:
  assumes "usage_finite u" "usage_finite u'" "usage_le u u'"
  shows "cap_severity (rep_verdict (evaluateGovernorCaps u l))
      \<le> cap_severity (rep_verdict (evaluateGovernorCaps u' l)) \<and>
    num_le (Fin 0) (dim_remaining (rep_budget (evaluateGovernorCaps v l))) \<and>
    num_le (Fin 0) (dim_remaining (rep_turns (evaluateGovernorCaps v l))) \<and>
    num_le (Fin 0) (dim_remaining (rep_termination (evaluateGovernorCaps v l)))"
proof -
  let ?d = "\<lambda>f x y. dim_exceeded (evaluateDimension (f x) (f y))"
  have "?d finiteNonNegative (use_budgetSpent u) (lim_budget l) \<Longrightarrow>
      ?d finiteNonNegative (use_budgetSpent u') (lim_budget l)"
    "?d finiteNonNegativeInt (use_turnsTaken u) (lim_turns l) \<Longrightarrow>
      ?d finiteNonNegativeInt (use_turnsTaken u') (lim_turns l)"
    "?d finiteNonNegative (use_elapsedMs u) (lim_elapsedMs l) \<Longrightarrow>
      ?d finiteNonNegative (use_elapsedMs u') (lim_elapsedMs l)"
    using assms evaluateDimension_exceeded_mono finiteNonNegative_mono finiteNonNegativeInt_mono
    unfolding usage_le_def usage_finite_def by meson+
  then have "cap_severity (rep_verdict (evaluateGovernorCaps u l))
      \<le> cap_severity (rep_verdict (evaluateGovernorCaps u' l))"
    by (auto simp: evaluateGovernorCaps_simps cap_severity_def)
  moreover have "num_le (Fin 0) (dim_remaining (rep_budget (evaluateGovernorCaps v l)))"
    "num_le (Fin 0) (dim_remaining (rep_turns (evaluateGovernorCaps v l)))"
    "num_le (Fin 0) (dim_remaining (rep_termination (evaluateGovernorCaps v l)))"
    by (simp_all add: evaluateGovernorCaps_simps evaluateDimension_remaining_nonneg)
  ultimately show ?thesis by blast
qed

theorem evaluateGovernorCaps_monotone_witness:
  "cap_severity (rep_verdict (evaluateGovernorCaps
      \<lparr>use_budgetSpent = Fin 1, use_turnsTaken = Fin 2, use_elapsedMs = Fin 3\<rparr>
      \<lparr>lim_budget = Fin 5, lim_turns = Fin 4, lim_elapsedMs = Fin 100\<rparr>))
   \<le> cap_severity (rep_verdict (evaluateGovernorCaps
      \<lparr>use_budgetSpent = Fin 1, use_turnsTaken = Fin 4, use_elapsedMs = Fin 3\<rparr>
      \<lparr>lim_budget = Fin 5, lim_turns = Fin 4, lim_elapsedMs = Fin 100\<rparr>))"
  by (rule conjunct1[OF evaluateGovernorCaps_monotone]) (simp_all add: usage_finite_def usage_le_def)

text \<open>a non-finite usage reading (NaN or infinite) counts as no usage at all, so with positive ceilings
  such a run is still allowed.\<close>

theorem non_finite_usage_counts_as_zero:
  assumes "\<not> isFinite (use_budgetSpent u)" "\<not> isFinite (use_turnsTaken u)" "\<not> isFinite (use_elapsedMs u)"
    and "lim_budget l = Fin b" "0 < b" "lim_turns l = Fin t" "1 \<le> t" "lim_elapsedMs l = Fin e" "0 < e"
  shows "rep_verdict (evaluateGovernorCaps u l) = EvAllowed"
  using assms by (simp add: evaluateGovernorCaps_simps evaluateDimension_def finiteNonNegative_def
      finiteNonNegativeInt_def)

theorem non_finite_usage_counts_as_zero_witness:
  "rep_verdict (evaluateGovernorCaps
      \<lparr>use_budgetSpent = PInf, use_turnsTaken = NaN, use_elapsedMs = NaN\<rparr>
      \<lparr>lim_budget = Fin 5, lim_turns = Fin 4, lim_elapsedMs = Fin 100\<rparr>) = EvAllowed"
  by (rule non_finite_usage_counts_as_zero[where b = 5 and t = 4 and e = 100]) simp_all


section \<open>Lemmas: convergence and the run-loop halt\<close>

lemma classify_NonConvergent_iff:
  "cv_status (classifyPortfolioConvergence i t) = NonConvergent \<longleftrightarrow>
     num_lt (Fin 0) (finiteNonNegativeInt (ci_attempts i)) \<and> \<not> ci_reachedDone i \<and>
     (num_ge (finiteNonNegativeInt (ci_consecutiveFailures i))
        (finiteNonNegativeInt (th_maxConsecutiveFailures t)) \<or>
      num_ge (finiteNonNegativeInt (ci_reenqueues i)) (finiteNonNegativeInt (th_maxReenqueues t)))"
proof -
  obtain n where "finiteNonNegativeInt (ci_attempts i) = num_of_nat n" by (rule finiteNonNegativeIntE)
  then show ?thesis by (auto simp: classifyPortfolioConvergence_def Let_def)
qed

lemma evaluateRunLoopHalt_canClaim_iff:
  "hv_canClaimNext (evaluateRunLoopHalt h u l i t) \<longleftrightarrow>
     \<not> h \<and> rep_verdict (evaluateGovernorCaps u l) = EvAllowed \<and>
     cv_status (classifyPortfolioConvergence i
        (case t of None \<Rightarrow> DEFAULT_PORTFOLIO_CONVERGENCE_THRESHOLDS | Some x \<Rightarrow> x)) \<noteq> NonConvergent"
  using rep_verdict_iff[of u l]
  by (auto simp: evaluateRunLoopHalt_def haltVerdict_def detectNonConvergence_def Let_def)

lemma evaluateRunLoopHalt_shouldHalt:
  "hv_shouldHalt (evaluateRunLoopHalt h u l i t) = (\<not> hv_canClaimNext (evaluateRunLoopHalt h u l i t))"
  by (simp add: evaluateRunLoopHalt_def haltVerdict_def Let_def)

text \<open>When a boundary lets the run go on, and the calls of a fresh halt: the item in flight is marked failed if there is one
  and a way to mark it, and the halt is appended to the ledger unless the marking threw.\<close>

definition boundary_clear :: "('entry, 'row) RunLoopBoundaryInput \<Rightarrow> bool" where
  "boundary_clear i \<longleftrightarrow> rep_verdict (evaluateGovernorCaps (bi_usage i) (bi_limits i)) = EvAllowed \<and>
     cv_status (classifyPortfolioConvergence (bi_convergence i)
        (or_default (bi_convergenceThresholds i) DEFAULT_PORTFOLIO_CONVERGENCE_THRESHOLDS)) \<noteq> NonConvergent"

definition halt_calls :: "('entry, 'row) RunLoopBoundaryInput \<Rightarrow> boundary_call list" where
  "halt_calls i =
     (let event = buildRunLoopHaltGovernorLedgerEvent (map_option fst (bi_inFlightItem i)) (map_option snd (bi_inFlightItem i))
            (evaluateRunLoopHalt False (bi_usage i) (bi_limits i) (bi_convergence i) (bi_convergenceThresholds i))
      in case (bi_inFlightItem i, bi_markFailed i) of
           (Some (repo, ident), Some mark) \<Rightarrow>
             CallMarkFailed repo ident # (case mark repo ident of Inl e \<Rightarrow> [] | Inr _ \<Rightarrow> [CallAppend event])
         | _ \<Rightarrow> [CallAppend event])"

text \<open>A run carries \<open>runHalted\<close> from one boundary to the next, and a boundary that throws ends it.\<close>

definition boundary_gate :: "bool \<Rightarrow> ('entry, 'row) RunLoopBoundaryInput
     \<Rightarrow> boundary_call list \<times> (string + ('entry, 'row) RunLoopBoundaryResult)" where
  "boundary_gate halted i = evaluateRunLoopBoundaryGate (i\<lparr>bi_runHalted := Some halted\<rparr>)"

definition boundary_step :: "bool \<Rightarrow> ('entry, 'row) RunLoopBoundaryInput \<Rightarrow> bool \<times> bool" where
  "boundary_step halted i =
     (case snd (boundary_gate halted i) of Inl e \<Rightarrow> (True, False) | Inr r \<Rightarrow> (br_runHalted r, br_canClaimNext r))"

definition boundary_calls :: "bool \<Rightarrow> ('entry, 'row) RunLoopBoundaryInput \<Rightarrow> bool \<times> boundary_call list" where
  "boundary_calls halted i = (fst (boundary_step halted i), fst (boundary_gate halted i))"

lemma boundary_step_eq: "boundary_step h i = (h \<or> \<not> boundary_clear i, \<not> h \<and> boundary_clear i)"
  using evaluateRunLoopHalt_canClaim_iff[of h "bi_usage i" "bi_limits i" "bi_convergence i" "bi_convergenceThresholds i"]
  by (cases h) (auto simp: boundary_step_def boundary_gate_def evaluateRunLoopBoundaryGate_def Let_def boundary_clear_def
      evaluateRunLoopHalt_shouldHalt or_default_def split: sum.splits option.splits prod.splits if_splits)

lemma boundary_gate_calls: "fst (boundary_gate h i) = (if h \<or> boundary_clear i then [] else halt_calls i)"
  using evaluateRunLoopHalt_canClaim_iff[of h "bi_usage i" "bi_limits i" "bi_convergence i" "bi_convergenceThresholds i"]
  by (cases h) (auto simp: boundary_gate_def evaluateRunLoopBoundaryGate_def Let_def boundary_clear_def halt_calls_def
      evaluateRunLoopHalt_shouldHalt or_default_def split: sum.splits option.splits prod.splits)

interpretation run_loop: halt_latch "boundary_step :: bool \<Rightarrow> ('e, 'r) RunLoopBoundaryInput \<Rightarrow> bool \<times> bool" "\<lambda>h. h"
  by unfold_locales (simp_all add: boundary_step_eq)

lemma boundary_calls_eq: "boundary_calls h i = (h \<or> \<not> boundary_clear i, if h \<or> boundary_clear i then [] else halt_calls i)"
  by (simp add: boundary_calls_def boundary_step_eq boundary_gate_calls)

lemma boundary_calls_halted: "concat (mealy_outputs boundary_calls True is) = []"
  by (induction "is") (simp_all add: boundary_calls_eq del: concat_eq_Nil_conv)

lemma boundary_calls_of_run:
  "concat (mealy_outputs boundary_calls False is) =
     (case find (\<lambda>i. \<not> boundary_clear i) is of None \<Rightarrow> [] | Some i \<Rightarrow> halt_calls i)"
proof (induction "is")
  case (Cons i "is")
  then show ?case using boundary_calls_halted[of "is"] by (simp add: boundary_calls_eq[of False i] del: concat_eq_Nil_conv)
qed simp

text \<open>C21: the first halt sticks. Take any boundaries of one run, with any item in flight at each and any way to mark it failed
  and to append to the ledger (both may throw, and a throw ends the run), where \<open>runHalted\<close> is carried from one boundary to
  the next. Items may be claimed at a prefix of the boundaries only: a boundary permits it exactly when the run is not
  halted, no cap is reached and the item is not non-convergent. The first boundary that does not permit it marks the item
  in flight failed and then appends the halt to the ledger (unless the marking threw); no other boundary calls either.\<close>

theorem run_loop_halt_sticks:
  "(\<exists>n \<le> length is. mealy_outputs boundary_step h is = replicate n True @ replicate (length is - n) False) \<and>
   snd (boundary_step h i) = (\<not> h \<and> rep_verdict (evaluateGovernorCaps (bi_usage i) (bi_limits i)) = EvAllowed \<and>
      cv_status (classifyPortfolioConvergence (bi_convergence i)
        (or_default (bi_convergenceThresholds i) DEFAULT_PORTFOLIO_CONVERGENCE_THRESHOLDS)) \<noteq> NonConvergent) \<and>
   concat (mealy_outputs boundary_calls h is) =
     (case find (\<lambda>i. \<not> snd (boundary_step h i)) is of None \<Rightarrow> [] | Some i \<Rightarrow> if h then [] else halt_calls i)"
proof (intro conjI)
  show "\<exists>n \<le> length is. mealy_outputs boundary_step h is = replicate n True @ replicate (length is - n) False"
    by (rule run_loop.grants_are_a_prefix)
  show "concat (mealy_outputs boundary_calls h is) =
     (case find (\<lambda>i. \<not> snd (boundary_step h i)) is of None \<Rightarrow> [] | Some i \<Rightarrow> if h then [] else halt_calls i)"
  proof (cases h)
    case True
    then show ?thesis using boundary_calls_halted[of "is"] by (simp split: option.splits del: concat_eq_Nil_conv)
  next
    case False
    then show ?thesis using boundary_calls_of_run[of "is"] by (simp add: boundary_step_eq split: option.splits)
  qed
qed (simp add: boundary_step_eq boundary_clear_def)

text \<open>What a fresh halt releases is what the injected queue operation returns.\<close>

lemma boundary_release:
  assumes "boundary_gate False i = (calls, Inr r)" "\<not> boundary_clear i" "bi_inFlightItem i = Some (repo, ident)"
    "bi_markFailed i = Some mark"
  shows "mark repo ident = Inr (br_releasedItem r)"
  using assms evaluateRunLoopHalt_canClaim_iff[of False "bi_usage i" "bi_limits i" "bi_convergence i" "bi_convergenceThresholds i"]
  by (auto simp: boundary_gate_def evaluateRunLoopBoundaryGate_def Let_def boundary_clear_def and_then_Inr
      evaluateRunLoopHalt_shouldHalt or_default_def split: sum.splits option.splits prod.splits if_splits)


section \<open>Lemmas: the self-reputation throttle\<close>

definition round3 :: "rat \<Rightarrow> rat" where
  "round3 q = of_int \<lfloor>q * 1000 + 1 / 2\<rfloor> / 1000"

lemma to_fixed3_unit: "0 \<le> q \<Longrightarrow> q \<le> 1 \<Longrightarrow> to_fixed3 (Fin q) = Fin (round3 q)"
  by (simp add: round3_def)

lemma round3_mono: "p \<le> q \<Longrightarrow> round3 p \<le> round3 q"
  unfolding round3_def by (simp add: floor_mono divide_right_mono)

lemma round3_one [simp]: "round3 1 = 1"
proof -
  have "\<lfloor>2001 / 2 :: rat\<rfloor> = 1000" by (rule floor_unique) simp_all
  then show ?thesis by (simp add: round3_def)
qed

lemma round3_unit: "0 \<le> q \<Longrightarrow> q \<le> 1 \<Longrightarrow> round3 q \<le> 1"
  using round3_mono[of q 1] by simp

text \<open>What \<open>resolveSelfReputationThresholds\<close> guarantees of the thresholds.\<close>

definition thresholds_ok :: "SelfReputationThresholds \<Rightarrow> bool" where
  "thresholds_ok th \<longleftrightarrow>
     (\<exists>n a f m. th = \<lparr>sr_minSampleSize = num_of_nat n, sr_throttleAtRatio = Fin a,
        sr_floorAtRatio = Fin f, sr_minCadenceFactor = Fin m\<rparr> \<and>
        1 \<le> n \<and> 0 \<le> a \<and> a \<le> f \<and> f \<le> 1 \<and> 0 \<le> m \<and> m \<le> 1)"

lemma clampFraction_unit:
  assumes "0 \<le> d" "d \<le> 1"
  obtains q where "clampFraction x (Fin d) = Fin q" "0 \<le> q" "q \<le> 1"
  using assms that by (cases x) (auto simp: clampFraction_def)

lemma resolveSelfReputationThresholds_ok: "thresholds_ok (resolveSelfReputationThresholds ov)"
proof -
  obtain n where n: "finiteNonNegativeInt (or_default (ov_minSampleSize ov) (Fin 5)) = num_of_nat n"
    by (rule finiteNonNegativeIntE)
  obtain a where a: "clampFraction (or_default (ov_throttleAtRatio ov) (Fin (1/2))) (Fin (1/2)) = Fin a"
      "0 \<le> a" "a \<le> 1" by (rule clampFraction_unit[of "1/2"]) auto
  obtain f where f: "clampFraction (or_default (ov_floorAtRatio ov) (Fin (9/10))) (Fin (9/10)) = Fin f"
      "0 \<le> f" "f \<le> 1" by (rule clampFraction_unit[of "9/10"]) auto
  obtain m where m: "clampFraction (or_default (ov_minCadenceFactor ov) (Fin (1/10))) (Fin (1/10)) = Fin m"
      "0 \<le> m" "m \<le> 1" by (rule clampFraction_unit[of "1/10"]) auto
  have "max 1 (rat_of_nat n) = rat_of_nat (max 1 n)" by (simp add: of_nat_max)
  with a f m n show ?thesis
    unfolding thresholds_ok_def resolveSelfReputationThresholds_def
    by (intro exI[of _ "max 1 n"] exI[of _ a] exI[of _ "max a f"] exI[of _ m])
      (simp add: DEFAULT_SELF_REPUTATION_THRESHOLDS_def)
qed

lemma default_thresholds_ok: "thresholds_ok DEFAULT_SELF_REPUTATION_THRESHOLDS"
  unfolding thresholds_ok_def DEFAULT_SELF_REPUTATION_THRESHOLDS_def
  by (rule exI[of _ 5], rule exI[of _ "1/2"], rule exI[of _ "9/10"], rule exI[of _ "1/10"]) simp

text \<open>The interpolated factor before rounding.\<close>

definition cadence_line :: "rat \<Rightarrow> rat \<Rightarrow> rat \<Rightarrow> rat \<Rightarrow> rat" where
  "cadence_line a f m r = 1 - (r - a) / (f - a) * (1 - m)"

lemma cadence_line_range:
  assumes "a \<le> r" "r < f" "0 \<le> m" "m \<le> 1"
  shows "m \<le> cadence_line a f m r" "cadence_line a f m r \<le> 1"
    "0 \<le> (r - a) / (f - a)" "(r - a) / (f - a) \<le> 1"
proof -
  show t: "0 \<le> (r - a) / (f - a)" "(r - a) / (f - a) \<le> 1" using assms by simp_all
  have "(r - a) / (f - a) * (1 - m) \<le> 1 * (1 - m)" using t assms by (intro mult_right_mono) auto
  then show "m \<le> cadence_line a f m r" by (simp add: cadence_line_def)
  have "0 \<le> (r - a) / (f - a) * (1 - m)" using t assms by (intro mult_nonneg_nonneg) auto
  then show "cadence_line a f m r \<le> 1" by (simp add: cadence_line_def)
qed

lemma cadence_line_antimono:
  assumes "a \<le> r" "r \<le> r'" "r' < f" "m \<le> 1"
  shows "cadence_line a f m r' \<le> cadence_line a f m r"
proof -
  have "(r - a) / (f - a) \<le> (r' - a) / (f - a)" using assms by (intro divide_right_mono) auto
  then have "(r - a) / (f - a) * (1 - m) \<le> (r' - a) / (f - a) * (1 - m)"
    using assms by (intro mult_right_mono) auto
  then show ?thesis by (simp add: cadence_line_def)
qed

definition ratio_of :: "nat \<Rightarrow> nat \<Rightarrow> rat" where
  "ratio_of u n = of_nat (min n u) / of_nat n"

lemma ratio_of_unit: "0 \<le> ratio_of u n" "ratio_of u n \<le> 1"
  by (simp_all add: ratio_of_def divide_le_eq)

lemma ratio_of_mono: "u \<le> v \<Longrightarrow> ratio_of u n \<le> ratio_of v n"
  unfolding ratio_of_def by (intro divide_right_mono) auto

lemma selfReputationThrottle_value:
  fixes n d u :: nat and a f m :: rat
  assumes "1 \<le> n" "0 \<le> a" "a \<le> f" "f \<le> 1" "0 \<le> m" "m \<le> 1"
  defines "th \<equiv> \<lparr>sr_minSampleSize = num_of_nat n, sr_throttleAtRatio = Fin a,
      sr_floorAtRatio = Fin f, sr_minCadenceFactor = Fin m\<rparr>"
    and "h \<equiv> \<lparr>oh_decided = num_of_nat d, oh_unfavorable = num_of_nat u\<rparr>"
  shows "rt_cadenceFactor (selfReputationThrottle h th) =
      Fin (if d < n \<or> ratio_of u d < a then 1 else if f \<le> ratio_of u d then m
           else round3 (cadence_line a f m (ratio_of u d)))"
    and "rt_throttled (selfReputationThrottle h th) = (n \<le> d \<and> a \<le> ratio_of u d)"
proof -
  let ?r = "ratio_of u d"
  have mn: "min (rat_of_nat d) (rat_of_nat u) = rat_of_nat (min d u)" by (simp add: of_nat_min)
  have div: "num_div (num_of_nat (min d u)) (num_of_nat d) = Fin ?r" if "n \<le> d"
  proof -
    have "num_of_rat ?r = Fin ?r" using ratio_of_unit[of u d] by (rule num_of_rat_unit)
    with that assms(1) show ?thesis by (simp add: ratio_of_def del: of_nat_min)
  qed
  have line: "to_fixed3 (num_sub (Fin 1) (num_mul (num_div (num_sub (Fin ?r) (Fin a))
        (num_sub (Fin f) (Fin a))) (num_sub (Fin 1) (Fin m)))) = Fin (round3 (cadence_line a f m ?r))"
    if r: "a \<le> ?r" "?r < f"
  proof -
    note rng = cadence_line_range[OF r assms(5,6)]
    have t: "num_div (num_sub (Fin ?r) (Fin a)) (num_sub (Fin f) (Fin a)) = Fin ((?r - a) / (f - a))"
      using assms(2,4) r ratio_of_unit[of u d] num_of_rat_unit[OF rng(3,4)] by (simp add: num_of_rat_unit)
    have p: "0 \<le> (?r - a) / (f - a) * (1 - m)" "(?r - a) / (f - a) * (1 - m) \<le> 1"
      using rng(1,2) assms(5) unfolding cadence_line_def by linarith+
    have "num_mul (Fin ((?r - a) / (f - a))) (num_sub (Fin 1) (Fin m)) = Fin ((?r - a) / (f - a) * (1 - m))"
      using assms(5,6) num_of_rat_unit[OF p] by (simp add: num_of_rat_unit)
    moreover have "num_sub (Fin 1) (Fin ((?r - a) / (f - a) * (1 - m))) = Fin (cadence_line a f m ?r)"
      using p by (simp only: num_sub_Fin cadence_line_def) (rule num_of_rat_unit, simp_all)
    moreover have "0 \<le> cadence_line a f m ?r" using rng(1) assms(5) by linarith
    ultimately show ?thesis unfolding t using to_fixed3_unit rng(2) by metis
  qed
  show "rt_cadenceFactor (selfReputationThrottle h th) =
      Fin (if d < n \<or> ?r < a then 1 else if f \<le> ?r then m else round3 (cadence_line a f m ?r))"
    using div line unfolding selfReputationThrottle_def Let_def th_def h_def
    by (simp add: mn not_less not_le)
  show "rt_throttled (selfReputationThrottle h th) = (n \<le> d \<and> a \<le> ?r)"
    using div unfolding selfReputationThrottle_def Let_def th_def h_def
    by (simp add: mn not_less not_le)
qed

lemma selfReputationThrottle_bounds:
  assumes "thresholds_ok th" "sr_minCadenceFactor th = Fin m"
  shows "\<exists>q. rt_cadenceFactor (selfReputationThrottle h th) = Fin q \<and> min m (round3 m) \<le> q \<and> q \<le> 1 \<and>
    (rt_throttled (selfReputationThrottle h th) \<or> q = 1) \<and>
    \<not> (num_lt (finiteNonNegativeInt (oh_decided h)) (sr_minSampleSize th) \<and>
       rt_throttled (selfReputationThrottle h th))"
proof -
  obtain n a f where th: "th = \<lparr>sr_minSampleSize = num_of_nat n, sr_throttleAtRatio = Fin a,
       sr_floorAtRatio = Fin f, sr_minCadenceFactor = Fin m\<rparr>"
    and ok: "1 \<le> n" "0 \<le> a" "a \<le> f" "f \<le> 1" "0 \<le> m" "m \<le> 1"
    using assms unfolding thresholds_ok_def by auto
  obtain d where d: "finiteNonNegativeInt (oh_decided h) = num_of_nat d" by (rule finiteNonNegativeIntE)
  obtain u where u: "finiteNonNegativeInt (oh_unfavorable h) = num_of_nat u" by (rule finiteNonNegativeIntE)
  have eq: "selfReputationThrottle h th =
      selfReputationThrottle \<lparr>oh_decided = num_of_nat d, oh_unfavorable = num_of_nat u\<rparr> th" for th
    unfolding selfReputationThrottle_def by (simp add: d u)
  note v = selfReputationThrottle_value[OF ok, of d u]
  have line: "round3 m \<le> round3 (cadence_line a f m (ratio_of u d)) \<and>
      round3 (cadence_line a f m (ratio_of u d)) \<le> 1"
    if "a \<le> ratio_of u d" "ratio_of u d < f"
    using cadence_line_range[OF that ok(5,6)] round3_mono[of _ 1] by (simp add: round3_mono)
  show ?thesis
    unfolding th eq v d using ok line by (auto simp: min_def not_less not_le)
qed

lemma round3_tenth: "round3 (1 / 10) = 1 / 10"
proof -
  have "\<lfloor>201 / 2 :: rat\<rfloor> = 100" by (rule floor_unique) simp_all
  then show ?thesis by (simp add: round3_def)
qed

lemma default_cadence_bounds:
  obtains q where "rt_cadenceFactor (selfReputationThrottle h DEFAULT_SELF_REPUTATION_THRESHOLDS) = Fin q"
    "1 / 10 \<le> q" "q \<le> 1"
  using selfReputationThrottle_bounds[OF default_thresholds_ok, of "1 / 10" h] round3_tenth
  by (auto simp: DEFAULT_SELF_REPUTATION_THRESHOLDS_def)

text \<open>with any thresholds the resolver can produce, the cadence factor of any history is a number between the
  rounded configured minimum (or the minimum itself) and 1, and it is 1 whenever the submission is not throttled; a history
  with fewer decided outcomes than the minimum sample is never throttled.\<close>

theorem selfReputationThrottle_range:
  "\<exists>m q. sr_minCadenceFactor (resolveSelfReputationThresholds ov) = Fin m \<and> 0 \<le> m \<and>
     rt_cadenceFactor (selfReputationThrottle h (resolveSelfReputationThresholds ov)) = Fin q \<and>
     min m (round3 m) \<le> q \<and> q \<le> 1 \<and>
     (rt_throttled (selfReputationThrottle h (resolveSelfReputationThresholds ov)) \<or> q = 1) \<and>
     \<not> (num_lt (finiteNonNegativeInt (oh_decided h)) (sr_minSampleSize (resolveSelfReputationThresholds ov)) \<and>
        rt_throttled (selfReputationThrottle h (resolveSelfReputationThresholds ov)))"
proof -
  obtain m where "sr_minCadenceFactor (resolveSelfReputationThresholds ov) = Fin m" "0 \<le> m"
    using resolveSelfReputationThresholds_ok[of ov] unfolding thresholds_ok_def by auto
  with selfReputationThrottle_bounds[OF resolveSelfReputationThresholds_ok this(1), of h]
  show ?thesis by blast
qed

text \<open>a worsening record never raises the cadence: with the same number of decided outcomes, more unfavorable ones
  give a cadence factor that is at most the previous one (for a minimum factor given to three decimals).\<close>

theorem selfReputationThrottle_antimono:
  assumes "thresholds_ok th" "sr_minCadenceFactor th = Fin m" "round3 m = m" "u \<le> v"
  shows "num_le (rt_cadenceFactor (selfReputationThrottle
            \<lparr>oh_decided = num_of_nat d, oh_unfavorable = num_of_nat v\<rparr> th))
          (rt_cadenceFactor (selfReputationThrottle
            \<lparr>oh_decided = num_of_nat d, oh_unfavorable = num_of_nat u\<rparr> th))"
proof -
  obtain n a f where th: "th = \<lparr>sr_minSampleSize = num_of_nat n, sr_throttleAtRatio = Fin a,
       sr_floorAtRatio = Fin f, sr_minCadenceFactor = Fin m\<rparr>"
    and ok: "1 \<le> n" "0 \<le> a" "a \<le> f" "f \<le> 1" "0 \<le> m" "m \<le> 1"
    using assms(1,2) unfolding thresholds_ok_def by auto
  have r: "ratio_of u d \<le> ratio_of v d" using assms(4) by (rule ratio_of_mono)
  have line: "m \<le> round3 (cadence_line a f m x) \<and> round3 (cadence_line a f m x) \<le> 1"
    if "a \<le> x" "x < f" for x
    using cadence_line_range[OF that ok(5,6)] round3_mono[of m] round3_mono[of _ 1] assms(3) by simp
  have anti: "round3 (cadence_line a f m (ratio_of v d)) \<le> round3 (cadence_line a f m (ratio_of u d))"
    if "a \<le> ratio_of u d" "ratio_of v d < f"
    using cadence_line_antimono[OF that(1) r that(2) ok(6)] by (rule round3_mono)
  show ?thesis
    unfolding th selfReputationThrottle_value[OF ok]
    using r line anti ok by (auto simp: not_less not_le)
qed

theorem selfReputationThrottle_antimono_witness:
  "num_le (rt_cadenceFactor (selfReputationThrottle
      \<lparr>oh_decided = num_of_nat 10, oh_unfavorable = num_of_nat 8\<rparr> DEFAULT_SELF_REPUTATION_THRESHOLDS))
    (rt_cadenceFactor (selfReputationThrottle
      \<lparr>oh_decided = num_of_nat 10, oh_unfavorable = num_of_nat 6\<rparr> DEFAULT_SELF_REPUTATION_THRESHOLDS))"
proof (rule selfReputationThrottle_antimono[OF default_thresholds_ok])
  show "round3 (1 / 10) = 1 / 10" by (rule round3_tenth)
qed (simp_all add: DEFAULT_SELF_REPUTATION_THRESHOLDS_def)

end
