(* ===== verification/Self_Plagiarism.thy ===== *)
theory Self_Plagiarism
  imports Governor_Ledger
begin

text \<open>
  The self-plagiarism classifier (\<open>packages/loopover-engine/src/governor/self-plagiarism.ts\<close>): a prospective
  submission's fingerprint is compared with the miner's own recent ones, and among near-duplicates only
  the earliest claimant may proceed. \<open>Date.parse\<close> is the parameter \<open>parse_date\<close>. The interface of the
  election (a strict order on claims) is the locale \<open>election\<close>, interpreted on the modelled order.
\<close>

section \<open>Fingerprints\<close>

definition DEFAULT_SELF_PLAGIARISM_SIMILARITY_THRESHOLD :: jsnum where
  "DEFAULT_SELF_PLAGIARISM_SIMILARITY_THRESHOLD = Fin (85 / 100)"

record SelfPlagiarismConfig =
  pc_similarityThreshold :: jsnum

definition DEFAULT_SELF_PLAGIARISM_CONFIG :: SelfPlagiarismConfig where
  "DEFAULT_SELF_PLAGIARISM_CONFIG =
     \<lparr>pc_similarityThreshold = DEFAULT_SELF_PLAGIARISM_SIMILARITY_THRESHOLD\<rparr>"

text \<open>A fingerprint that is not a string, and an absent or null field, are \<open>None\<close>.\<close>

record OwnSubmissionRecord =
  os_repoFullName :: string
  os_fingerprint :: "string option"
  os_submittedAt :: "string option"
  os_pullRequestNumber :: "jsnum option"
  os_issueNumber :: "jsnum option"

record SelfPlagiarismVerdict =
  sv_allowed :: bool
  sv_eventType :: GovernorLedgerEventType
  sv_reason :: string
  sv_matchedSubmission :: "OwnSubmissionRecord option"
  sv_similarity :: "jsnum option"

definition normalizeThreshold :: "jsnum \<Rightarrow> jsnum" where
  "normalizeThreshold value =
     (if \<not> isFinite value then DEFAULT_SELF_PLAGIARISM_SIMILARITY_THRESHOLD
      else math_min (Fin 1) (math_max (Fin 0) value))"

definition normalizeFingerprint :: "string option \<Rightarrow> string option" where
  "normalizeFingerprint value =
     (case value of None \<Rightarrow> None
      | Some s \<Rightarrow> let trimmed = toLowerCase (trim s) in if trimmed \<noteq> [] then Some trimmed else None)"

definition is_token_sep :: "char \<Rightarrow> bool" where
  "is_token_sep c \<longleftrightarrow> is_ws c \<or> c = CHR '':'' \<or> c = CHR '',''"

text \<open>The pieces between separators. A run of separators yields empty pieces, which \<open>tokenSet\<close> drops
  together with the empty pieces at the ends.\<close>

fun split_seps :: "string \<Rightarrow> string list" where
  "split_seps [] = [[]]"
| "split_seps (x # xs) =
     (if is_token_sep x then [] # split_seps xs
      else (case split_seps xs of [] \<Rightarrow> [[x]] | y # ys \<Rightarrow> (x # y) # ys))"

text \<open>A set is the list of its elements without repetition.\<close>

definition tokenSet :: "string \<Rightarrow> string list" where
  "tokenSet fingerprint = remdups (filter (\<lambda>t. t \<noteq> []) (map trim (split_seps fingerprint)))"

definition or_empty :: "string option \<Rightarrow> string" where
  "or_empty s = (case s of None \<Rightarrow> [] | Some x \<Rightarrow> x)"

definition fingerprintSimilarity :: "string \<Rightarrow> string \<Rightarrow> jsnum" where
  "fingerprintSimilarity left right =
     (let setLeft = tokenSet (or_empty (normalizeFingerprint (Some left)));
          setRight = tokenSet (or_empty (normalizeFingerprint (Some right)))
      in if length setLeft = 0 \<and> length setRight = 0 then Fin 1
         else if length setLeft = 0 \<or> length setRight = 0 then Fin 0
         else
           (let intersection = length (filter (\<lambda>token. token \<in> set setRight) setLeft);
                union = length setLeft + length setRight - intersection
            in num_div (num_of_nat intersection) (num_of_nat union)))"

definition fingerprintFromChangedFiles :: "string list \<Rightarrow> string" where
  "fingerprintFromChangedFiles paths =
     (let unique = remdups (filter (\<lambda>path. path \<noteq> []) (map trim paths))
      in str_join '','' (sort unique))"


section \<open>The election\<close>

definition submissionTimeMs :: "(string \<Rightarrow> jsnum) \<Rightarrow> string option \<Rightarrow> jsnum option" where
  "submissionTimeMs parse_date value =
     (case value of
        None \<Rightarrow> None
      | Some s \<Rightarrow> if s = [] then None
                  else let parsed = parse_date s in if isFinite parsed then Some parsed else None)"

definition finite_or_none :: "jsnum option \<Rightarrow> jsnum option" where
  "finite_or_none x = (case x of Some n \<Rightarrow> if isFinite n then Some n else None | None \<Rightarrow> None)"

definition submissionNumber :: "OwnSubmissionRecord \<Rightarrow> jsnum" where
  "submissionNumber r =
     (case finite_or_none (os_pullRequestNumber r) of
        Some n \<Rightarrow> n
      | None \<Rightarrow> (case finite_or_none (os_issueNumber r) of Some n \<Rightarrow> n | None \<Rightarrow> Fin 0))"

definition repoTieBreaker :: "OwnSubmissionRecord \<Rightarrow> string" where
  "repoTieBreaker r = toLowerCase (trim (os_repoFullName r))"

text \<open>A null time compares as zero (the callers check that none is null).\<close>

definition time_value :: "jsnum option \<Rightarrow> jsnum" where
  "time_value t = (case t of None \<Rightarrow> Fin 0 | Some x \<Rightarrow> x)"

definition submissionPrecedesSibling ::
  "(string \<Rightarrow> jsnum) \<Rightarrow> OwnSubmissionRecord \<Rightarrow> OwnSubmissionRecord \<Rightarrow> bool" where
  "submissionPrecedesSibling parse_date candidate sibling =
     (let candidateTime = time_value (submissionTimeMs parse_date (os_submittedAt candidate));
          siblingTime = time_value (submissionTimeMs parse_date (os_submittedAt sibling))
      in if num_lt siblingTime candidateTime then False
         else if num_lt candidateTime siblingTime then True
         else
           (let candidateNumber = submissionNumber candidate;
                siblingNumber = submissionNumber sibling
            in if num_lt siblingNumber candidateNumber then False
               else if num_lt candidateNumber siblingNumber then True
               else
                 (let candidateRepo = repoTieBreaker candidate;
                      siblingRepo = repoTieBreaker sibling
                  in if siblingRepo = [] \<or> candidateRepo = [] then False
                     else candidateRepo < siblingRepo)))"

definition isSelfPlagiarismClusterWinner ::
  "(string \<Rightarrow> jsnum) \<Rightarrow> OwnSubmissionRecord \<Rightarrow> OwnSubmissionRecord list \<Rightarrow> bool" where
  "isSelfPlagiarismClusterWinner parse_date candidate nearDuplicates =
     list_all (submissionPrecedesSibling parse_date candidate) nearDuplicates"

text \<open>The records of \<open>nearDuplicates\<close> are distinct objects: the ones other than the \<open>i\<close>-th are the list without
  its \<open>i\<close>-th element. \<open>seen\<close> holds the elements already passed.\<close>

fun resolveWinner_loop ::
  "(string \<Rightarrow> jsnum) \<Rightarrow> OwnSubmissionRecord \<Rightarrow> OwnSubmissionRecord list \<Rightarrow> OwnSubmissionRecord list
     \<Rightarrow> OwnSubmissionRecord option" where
  "resolveWinner_loop parse_date candidate seen [] = None"
| "resolveWinner_loop parse_date candidate seen (sibling # todo) =
     (if isSelfPlagiarismClusterWinner parse_date sibling (candidate # seen @ todo) then Some sibling
      else resolveWinner_loop parse_date candidate (seen @ [sibling]) todo)"

definition resolveSelfPlagiarismWinner ::
  "(string \<Rightarrow> jsnum) \<Rightarrow> OwnSubmissionRecord \<Rightarrow> OwnSubmissionRecord list \<Rightarrow> OwnSubmissionRecord option" where
  "resolveSelfPlagiarismWinner parse_date candidate nearDuplicates =
     resolveWinner_loop parse_date candidate [] nearDuplicates"

definition buildVerdict ::
  "bool \<Rightarrow> GovernorLedgerEventType \<Rightarrow> string \<Rightarrow> OwnSubmissionRecord option \<Rightarrow> jsnum option
     \<Rightarrow> SelfPlagiarismVerdict" where
  "buildVerdict allowed eventType reason matchedSubmission similarity =
     \<lparr>sv_allowed = allowed, sv_eventType = eventType, sv_reason = reason,
      sv_matchedSubmission = matchedSubmission, sv_similarity = similarity\<rparr>"

text \<open>The scan of the prior submissions: the best similarity so far and the near-duplicates in order.\<close>

fun scan_priors ::
  "jsnum \<Rightarrow> string \<Rightarrow> jsnum \<Rightarrow> OwnSubmissionRecord list \<Rightarrow> jsnum \<times> OwnSubmissionRecord list" where
  "scan_priors threshold candidatePrint bestSimilarity [] = (bestSimilarity, [])"
| "scan_priors threshold candidatePrint bestSimilarity (prior # rest) =
     (case normalizeFingerprint (os_fingerprint prior) of
        None \<Rightarrow> scan_priors threshold candidatePrint bestSimilarity rest
      | Some priorPrint \<Rightarrow>
          let similarity = fingerprintSimilarity candidatePrint priorPrint in
          if num_ge similarity threshold then
            let best = (if num_lt bestSimilarity similarity then similarity else bestSimilarity);
                (b, ns) = scan_priors threshold candidatePrint best rest
            in (b, prior # ns)
          else scan_priors threshold candidatePrint bestSimilarity rest)"

definition selfPlagiarismCheck ::
  "(string \<Rightarrow> jsnum) \<Rightarrow> OwnSubmissionRecord \<Rightarrow> OwnSubmissionRecord list \<Rightarrow> SelfPlagiarismConfig
     \<Rightarrow> SelfPlagiarismVerdict" where
  "selfPlagiarismCheck parse_date candidate recentOwnSubmissions config =
     (let threshold = normalizeThreshold (pc_similarityThreshold config)
      in case normalizeFingerprint (os_fingerprint candidate) of
           None \<Rightarrow> buildVerdict False EvDenied ''missing_candidate_fingerprint'' None None
         | Some candidatePrint \<Rightarrow>
             if submissionTimeMs parse_date (os_submittedAt candidate) = None then
               buildVerdict False EvDenied ''missing_candidate_submitted_at'' None None
             else
               let (bestSimilarity, nearDuplicates) =
                     scan_priors threshold candidatePrint (Fin 0) recentOwnSubmissions
               in if nearDuplicates = [] then
                    buildVerdict True EvAllowed ''distinct_from_recent_own_submissions'' None None
                  else if list_ex (\<lambda>prior. submissionTimeMs parse_date (os_submittedAt prior) = None)
                            nearDuplicates then
                    buildVerdict False EvDenied ''missing_prior_submitted_at'' None None
                  else if isSelfPlagiarismClusterWinner parse_date candidate nearDuplicates then
                    buildVerdict True EvAllowed ''earliest_near_duplicate_claimant'' None None
                  else
                    (case resolveSelfPlagiarismWinner parse_date candidate nearDuplicates of
                       None \<Rightarrow> buildVerdict False EvDenied ''ambiguous_election_tie'' None None
                     | Some winner \<Rightarrow>
                         let matchedPrint = or_empty (normalizeFingerprint (os_fingerprint winner)) in
                         buildVerdict False EvThrottled ''near_duplicate_self_plagiarism'' (Some winner)
                           (Some (if num_lt (Fin 0) bestSimilarity then bestSimilarity
                                  else fingerprintSimilarity candidatePrint matchedPrint))))"

definition opt_num :: "jsnum option \<Rightarrow> jsval" where
  "opt_num x = (case x of None \<Rightarrow> JNull | Some n \<Rightarrow> JNum n)"

definition opt_str :: "string option \<Rightarrow> jsval" where
  "opt_str x = (case x of None \<Rightarrow> JNull | Some s \<Rightarrow> JStr s)"

definition buildSelfPlagiarismGovernorLedgerEvent ::
  "string \<Rightarrow> SelfPlagiarismVerdict \<Rightarrow> GovernorLedgerEvent" where
  "buildSelfPlagiarismGovernorLedgerEvent repoFullName verdict =
     \<lparr>ge_eventType = sv_eventType verdict,
      ge_repoFullName = Some repoFullName,
      ge_actionClass = ''open_pr'',
      ge_decision = (if sv_allowed verdict then ''allow''
                     else if sv_eventType verdict = EvThrottled then ''throttle'' else ''deny''),
      ge_reason = lit (sv_reason verdict),
      ge_payload = (case sv_matchedSubmission verdict of
          None \<Rightarrow> JObj []
        | Some matched \<Rightarrow> JObj
            [(''matchedRepoFullName'', JStr (os_repoFullName matched)),
             (''matchedPullRequestNumber'', opt_num (os_pullRequestNumber matched)),
             (''matchedIssueNumber'', opt_num (os_issueNumber matched)),
             (''matchedSubmittedAt'', opt_str (os_submittedAt matched)),
             (''similarity'', opt_num (sv_similarity verdict))])\<rparr>"

definition resolveSelfPlagiarismConfig :: "jsval \<Rightarrow> SelfPlagiarismConfig" where
  "resolveSelfPlagiarismConfig raw =
     (case raw of
        JNum n \<Rightarrow> \<lparr>pc_similarityThreshold = normalizeThreshold n\<rparr>
      | JObj fs \<Rightarrow>
          \<lparr>pc_similarityThreshold = normalizeThreshold
             (case field fs ''similarityThreshold'' of JNum n \<Rightarrow> n
              | _ \<Rightarrow> DEFAULT_SELF_PLAGIARISM_SIMILARITY_THRESHOLD)\<rparr>
      | _ \<Rightarrow> DEFAULT_SELF_PLAGIARISM_CONFIG)"


section \<open>Similarity\<close>

lemma inter_filter: "set (filter (\<lambda>t. t \<in> set ys) xs) = set xs \<inter> set ys"
  by auto

lemma distinct_tokenSet [simp]: "distinct (tokenSet s)"
  by (simp add: tokenSet_def)

text \<open>The token set of a text as the comparison sees it.\<close>

definition tokens_of :: "string \<Rightarrow> string set" where
  "tokens_of s = set (tokenSet (or_empty (normalizeFingerprint (Some s))))"

definition jaccard :: "'a set \<Rightarrow> 'a set \<Rightarrow> rat" where
  "jaccard A B = (if A \<union> B = {} then 1 else of_nat (card (A \<inter> B)) / of_nat (card (A \<union> B)))"

lemma jaccard_range: "finite A \<Longrightarrow> finite B \<Longrightarrow> 0 \<le> jaccard A B \<and> jaccard A B \<le> 1"
  using card_mono[of "A \<union> B" "A \<inter> B"] by (auto simp: jaccard_def divide_le_eq card_gt_0_iff)

lemma jaccard_commute: "jaccard A B = jaccard B A"
  by (simp add: jaccard_def Un_commute Int_commute)

lemma jaccard_eq_1:
  assumes "finite A" "finite B"
  shows "jaccard A B = 1 \<longleftrightarrow> A = B"
proof
  assume a: "jaccard A B = 1"
  show "A = B"
  proof (cases "A \<union> B = {}")
    case False
    then have "card (A \<union> B) \<noteq> 0" using assms by simp
    with a False have "rat_of_nat (card (A \<inter> B)) = rat_of_nat (card (A \<union> B))"
      unfolding jaccard_def if_not_P[OF False] by simp
    then have "card (A \<inter> B) = card (A \<union> B)" by (simp only: of_nat_eq_iff)
    then have "A \<inter> B = A \<union> B" using assms by (intro card_subset_eq) auto
    then show ?thesis by blast
  qed auto
qed (use assms in \<open>auto simp: jaccard_def\<close>)

lemma fingerprintSimilarity_jaccard:
  "fingerprintSimilarity l r = Fin (jaccard (tokens_of l) (tokens_of r))"
proof -
  define xs where "xs = tokenSet (or_empty (normalizeFingerprint (Some l)))"
  define ys where "ys = tokenSet (or_empty (normalizeFingerprint (Some r)))"
  have d: "distinct xs" "distinct ys" by (simp_all add: xs_def ys_def)
  let ?i = "length (filter (\<lambda>t. t \<in> set ys) xs)"
  have i: "?i = card (set xs \<inter> set ys)"
    using d by (metis distinct_card distinct_filter inter_filter)
  have u: "length xs + length ys - ?i = card (set xs \<union> set ys)"
    unfolding i using d card_Un_Int[of "set xs" "set ys"] by (simp add: distinct_card)
  have val: "fingerprintSimilarity l r =
     (if xs = [] \<and> ys = [] then Fin 1 else if xs = [] \<or> ys = [] then Fin 0
      else num_div (num_of_nat ?i) (num_of_nat (length xs + length ys - ?i)))"
    unfolding fingerprintSimilarity_def xs_def[symmetric] ys_def[symmetric] Let_def by simp
  have range: "0 \<le> jaccard (set xs) (set ys)" "jaccard (set xs) (set ys) \<le> 1"
    using jaccard_range[of "set xs" "set ys"] by simp_all
  have "num_div (num_of_nat (card (set xs \<inter> set ys))) (num_of_nat (card (set xs \<union> set ys)))
      = Fin (jaccard (set xs) (set ys))" if "xs \<noteq> []" "ys \<noteq> []"
    using that num_of_rat_unit[OF range] by (simp add: jaccard_def card_eq_0_iff)
  then have "fingerprintSimilarity l r = Fin (jaccard (set xs) (set ys))"
    unfolding val unfolding u unfolding i by (auto simp: jaccard_def)
  then show ?thesis by (simp add: tokens_of_def xs_def ys_def)
qed

lemma finite_tokens_of [simp]: "finite (tokens_of s)"
  by (simp add: tokens_of_def)

text \<open>the similarity of two fingerprints is the Jaccard index of their token sets: symmetric, between 0 and 1,
  and 1 exactly when the token sets agree.\<close>

theorem fingerprintSimilarity_is_jaccard:
  "fingerprintSimilarity l r = Fin (jaccard (tokens_of l) (tokens_of r)) \<and>
   fingerprintSimilarity l r = fingerprintSimilarity r l \<and>
   num_le (Fin 0) (fingerprintSimilarity l r) \<and> num_le (fingerprintSimilarity l r) (Fin 1) \<and>
   (fingerprintSimilarity l r = Fin 1) = (tokens_of l = tokens_of r)"
  using jaccard_range[of "tokens_of l" "tokens_of r"]
  by (simp add: fingerprintSimilarity_jaccard jaccard_eq_1 jaccard_commute)

text \<open>The fingerprint of a change set does not depend on the order in which its paths are reported.\<close>

lemma fingerprintFromChangedFiles_order:
  assumes "set ps = set qs"
  shows "fingerprintFromChangedFiles ps = fingerprintFromChangedFiles qs"
proof -
  have "sort (remdups xs) = sorted_list_of_set (set xs)" for xs :: "string list"
    by (simp add: sorted_list_of_set_sort_remdups)
  moreover have "set (filter (\<lambda>p. p \<noteq> []) (map trim ps)) = set (filter (\<lambda>p. p \<noteq> []) (map trim qs))"
    using assms by simp
  ultimately show ?thesis unfolding fingerprintFromChangedFiles_def Let_def by metis
qed


section \<open>The election order\<close>

text \<open>What an election needs of its claim order; a claimant wins a cluster when it precedes every rival.\<close>

locale election =
  fixes precedes :: "'c \<Rightarrow> 'c \<Rightarrow> bool"
  assumes asym: "precedes a b \<Longrightarrow> \<not> precedes b a"
    and trans: "precedes a b \<Longrightarrow> precedes b c \<Longrightarrow> precedes a c"
begin

lemma irrefl: "\<not> precedes a a"
  using asym by blast

lemma at_most_one_winner:
  "list_all (precedes a) rs \<Longrightarrow> list_all (precedes b) ss \<Longrightarrow> b \<in> set rs \<Longrightarrow> a \<in> set ss \<Longrightarrow> False"
  using asym by (auto simp: list_all_iff)

lemma loser_not_first:
  assumes "list_all (precedes w) (c # rs)" "b \<in> set rs"
  shows "\<not> precedes b w \<and> \<not> precedes c w"
  using assms asym by (auto simp: list_all_iff)

end

text \<open>The sort key behind the order: time, then number, then a non-empty repository name.\<close>

lemma submissionNumber_finite: "isFinite (submissionNumber r)"
  by (auto simp: submissionNumber_def finite_or_none_def split: option.splits)

lemma time_value_finite: "isFinite (time_value (submissionTimeMs pd v))"
  by (auto simp: time_value_def submissionTimeMs_def Let_def split: option.splits)

definition claim_key :: "(string \<Rightarrow> jsnum) \<Rightarrow> OwnSubmissionRecord \<Rightarrow> rat \<times> rat \<times> string" where
  "claim_key pd r =
     (case (time_value (submissionTimeMs pd (os_submittedAt r)), submissionNumber r) of
        (Fin t, Fin n) \<Rightarrow> (t, n, repoTieBreaker r) | _ \<Rightarrow> (0, 0, []))"

definition key_less :: "rat \<times> rat \<times> string \<Rightarrow> rat \<times> rat \<times> string \<Rightarrow> bool" where
  "key_less k l = (case (k, l) of ((t, n, r), (u, m, s)) \<Rightarrow>
     t < u \<or> t = u \<and> (n < m \<or> n = m \<and> r \<noteq> [] \<and> s \<noteq> [] \<and> r < s))"

lemma submissionPrecedesSibling_key:
  "submissionPrecedesSibling pd a b = key_less (claim_key pd a) (claim_key pd b)"
proof -
  obtain t u where t: "time_value (submissionTimeMs pd (os_submittedAt a)) = Fin t"
    and u: "time_value (submissionTimeMs pd (os_submittedAt b)) = Fin u"
    using time_value_finite unfolding isFinite_iff by meson
  obtain n m where n: "submissionNumber a = Fin n" and m: "submissionNumber b = Fin m"
    using submissionNumber_finite unfolding isFinite_iff by meson
  show ?thesis
    unfolding submissionPrecedesSibling_def claim_key_def key_less_def t u n m
    by (auto simp: Let_def)
qed

lemma key_less_asym: "key_less k l \<Longrightarrow> \<not> key_less l k"
  by (auto simp: key_less_def split: prod.splits)

lemma key_less_trans: "key_less k l \<Longrightarrow> key_less l j \<Longrightarrow> key_less k j"
  by (auto simp: key_less_def split: prod.splits)

interpretation sp: election "submissionPrecedesSibling pd" for pd
  by unfold_locales (auto simp: submissionPrecedesSibling_key intro: key_less_trans dest: key_less_asym)


section \<open>The verdict\<close>

definition near_duplicate :: "jsnum \<Rightarrow> string \<Rightarrow> OwnSubmissionRecord \<Rightarrow> bool" where
  "near_duplicate threshold print prior =
     (case normalizeFingerprint (os_fingerprint prior) of None \<Rightarrow> False
      | Some p \<Rightarrow> num_ge (fingerprintSimilarity print p) threshold)"

lemma scan_priors_snd: "snd (scan_priors th p b xs) = filter (near_duplicate th p) xs"
proof (induction xs arbitrary: b)
  case (Cons x xs)
  then show ?case
    by (cases "normalizeFingerprint (os_fingerprint x)")
      (simp_all add: near_duplicate_def Let_def case_prod_unfold)
qed simp

definition timed :: "(string \<Rightarrow> jsnum) \<Rightarrow> OwnSubmissionRecord \<Rightarrow> bool" where
  "timed pd r \<longleftrightarrow> submissionTimeMs pd (os_submittedAt r) \<noteq> None"

lemma selfPlagiarismCheck_allowed_iff:
  "sv_allowed (selfPlagiarismCheck pd c ps cfg) \<longleftrightarrow>
     (\<exists>p. normalizeFingerprint (os_fingerprint c) = Some p \<and> timed pd c \<and>
        (\<forall>q \<in> set ps. near_duplicate (normalizeThreshold (pc_similarityThreshold cfg)) p q \<longrightarrow>
           timed pd q \<and> submissionPrecedesSibling pd c q))"
proof (cases "normalizeFingerprint (os_fingerprint c)")
  case (Some p)
  let ?th = "normalizeThreshold (pc_similarityThreshold cfg)"
  obtain b where scan: "scan_priors ?th p (Fin 0) ps = (b, filter (near_duplicate ?th p) ps)"
    by (metis scan_priors_snd prod.collapse)
  have "sv_allowed (selfPlagiarismCheck pd c ps cfg) \<longleftrightarrow> timed pd c \<and>
      (\<forall>q \<in> set (filter (near_duplicate ?th p) ps). timed pd q \<and> submissionPrecedesSibling pd c q)"
    unfolding selfPlagiarismCheck_def Let_def Some scan option.case prod.case timed_def
    by (cases "filter (near_duplicate ?th p) ps = []")
      (auto simp: buildVerdict_def isSelfPlagiarismClusterWinner_def list_all_iff list_ex_iff
        split: option.splits)
  then show ?thesis by (auto simp: Some)
qed (simp add: selfPlagiarismCheck_def buildVerdict_def)

lemma resolveWinner_loop_Some:
  "resolveWinner_loop pd c seen todo = Some w \<Longrightarrow>
     w \<in> set todo \<and> submissionPrecedesSibling pd w c \<and>
     (\<forall>x \<in> set seen \<union> set todo. x = w \<or> submissionPrecedesSibling pd w x)"
  by (induction pd c seen todo rule: resolveWinner_loop.induct)
    (auto simp: isSelfPlagiarismClusterWinner_def list_all_iff split: if_splits)

text \<open>a cluster of near-duplicates has at most one survivor: when two submissions are near-duplicates of each other
  and each is checked against a history that holds the other, they are not both allowed.\<close>

theorem near_duplicates_one_survivor:
  assumes "b \<in> set hist_a" "a \<in> set hist_b"
    and "normalizeFingerprint (os_fingerprint a) = Some pa" "normalizeFingerprint (os_fingerprint b) = Some pb"
    and "num_ge (fingerprintSimilarity pa pb) (normalizeThreshold (pc_similarityThreshold cfg))"
  shows "\<not> (sv_allowed (selfPlagiarismCheck pd a hist_a cfg) \<and> sv_allowed (selfPlagiarismCheck pd b hist_b cfg))"
proof
  assume "sv_allowed (selfPlagiarismCheck pd a hist_a cfg) \<and> sv_allowed (selfPlagiarismCheck pd b hist_b cfg)"
  moreover have "fingerprintSimilarity pb pa = fingerprintSimilarity pa pb"
    by (simp add: fingerprintSimilarity_jaccard jaccard_commute)
  ultimately have "submissionPrecedesSibling pd a b" "submissionPrecedesSibling pd b a"
    using assms by (auto simp: selfPlagiarismCheck_allowed_iff near_duplicate_def)
  then show False by (blast dest: sp.asym)
qed

definition sample_submission :: "string \<Rightarrow> OwnSubmissionRecord" where
  "sample_submission day = \<lparr>os_repoFullName = ''o/r'', os_fingerprint = Some ''src/a.ts,src/b.ts'',
     os_submittedAt = Some day, os_pullRequestNumber = None, os_issueNumber = None\<rparr>"

lemma sample_print:
  "normalizeFingerprint (os_fingerprint (sample_submission t)) = Some ''src/a.ts,src/b.ts''"
  by (simp add: normalizeFingerprint_def sample_submission_def toLowerCase_def lower_char_def trim_fix is_ws_def)

theorem near_duplicates_one_survivor_witness:
  "\<not> (sv_allowed (selfPlagiarismCheck (\<lambda>s. num_of_nat (length s)) (sample_submission ''1'')
         [sample_submission ''22''] DEFAULT_SELF_PLAGIARISM_CONFIG) \<and>
      sv_allowed (selfPlagiarismCheck (\<lambda>s. num_of_nat (length s)) (sample_submission ''22'')
         [sample_submission ''1''] DEFAULT_SELF_PLAGIARISM_CONFIG))"
proof (rule near_duplicates_one_survivor[OF _ _ sample_print sample_print])
  have "fingerprintSimilarity ''src/a.ts,src/b.ts'' ''src/a.ts,src/b.ts'' = Fin 1"
    by (simp add: fingerprintSimilarity_jaccard jaccard_eq_1)
  then show "num_ge (fingerprintSimilarity ''src/a.ts,src/b.ts'' ''src/a.ts,src/b.ts'')
      (normalizeThreshold (pc_similarityThreshold DEFAULT_SELF_PLAGIARISM_CONFIG))"
    by (simp add: normalizeThreshold_def DEFAULT_SELF_PLAGIARISM_CONFIG_def
        DEFAULT_SELF_PLAGIARISM_SIMILARITY_THRESHOLD_def)
qed simp_all

text \<open>a throttled submission is told which earlier one it repeats: the matched submission comes from the
  history, is a near-duplicate, precedes the candidate, and no other near-duplicate precedes it.\<close>

theorem throttled_names_the_winner:
  assumes "sv_eventType (selfPlagiarismCheck pd c ps cfg) = EvThrottled"
  shows "\<exists>w p. sv_matchedSubmission (selfPlagiarismCheck pd c ps cfg) = Some w \<and> w \<in> set ps \<and>
    normalizeFingerprint (os_fingerprint c) = Some p \<and>
    near_duplicate (normalizeThreshold (pc_similarityThreshold cfg)) p w \<and>
    submissionPrecedesSibling pd w c \<and>
    (\<forall>q \<in> set ps. near_duplicate (normalizeThreshold (pc_similarityThreshold cfg)) p q \<longrightarrow>
       \<not> submissionPrecedesSibling pd q w)"
proof (cases "normalizeFingerprint (os_fingerprint c)")
  case None
  with assms show ?thesis by (simp add: selfPlagiarismCheck_def buildVerdict_def)
next
  case (Some p)
  let ?th = "normalizeThreshold (pc_similarityThreshold cfg)"
  let ?near = "filter (near_duplicate ?th p) ps"
  obtain b where scan: "scan_priors ?th p (Fin 0) ps = (b, ?near)"
    by (metis scan_priors_snd prod.collapse)
  obtain w where w: "resolveSelfPlagiarismWinner pd c ?near = Some w"
    "sv_matchedSubmission (selfPlagiarismCheck pd c ps cfg) = Some w"
    using assms unfolding selfPlagiarismCheck_def Let_def Some scan option.case prod.case
    by (cases "resolveSelfPlagiarismWinner pd c ?near") (auto simp: buildVerdict_def split: if_splits)
  from resolveWinner_loop_Some[OF w(1)[unfolded resolveSelfPlagiarismWinner_def]]
  have "w \<in> set ?near" "submissionPrecedesSibling pd w c"
    "\<forall>q \<in> set ?near. \<not> submissionPrecedesSibling pd q w"
    by (auto dest: sp.asym simp: sp.irrefl)
  with w(2) Some show ?thesis by auto
qed

theorem throttled_names_the_winner_witness:
  "\<exists>w. sv_matchedSubmission (selfPlagiarismCheck (\<lambda>s. num_of_nat (length s)) (sample_submission ''22'')
         [sample_submission ''1''] DEFAULT_SELF_PLAGIARISM_CONFIG) = Some w \<and> w = sample_submission ''1''"
proof -
  let ?pd = "\<lambda>s::string. num_of_nat (length s)"
  have j: "fingerprintSimilarity ''src/a.ts,src/b.ts'' ''src/a.ts,src/b.ts'' = Fin 1"
    by (simp add: fingerprintSimilarity_jaccard jaccard_eq_1)
  have th: "normalizeThreshold (pc_similarityThreshold DEFAULT_SELF_PLAGIARISM_CONFIG) = Fin (85 / 100)"
    by (simp add: normalizeThreshold_def DEFAULT_SELF_PLAGIARISM_CONFIG_def
        DEFAULT_SELF_PLAGIARISM_SIMILARITY_THRESHOLD_def)
  have t: "submissionTimeMs ?pd (os_submittedAt (sample_submission ''1'')) = Some (Fin 1)"
    "submissionTimeMs ?pd (os_submittedAt (sample_submission ''22'')) = Some (Fin 2)"
    by (simp_all add: submissionTimeMs_def sample_submission_def)
  have "sv_eventType (selfPlagiarismCheck ?pd (sample_submission ''22'') [sample_submission ''1'']
      DEFAULT_SELF_PLAGIARISM_CONFIG) = EvThrottled"
    by (simp add: selfPlagiarismCheck_def sample_print th j Let_def t isSelfPlagiarismClusterWinner_def
        resolveSelfPlagiarismWinner_def submissionPrecedesSibling_def time_value_def buildVerdict_def)
  from throttled_names_the_winner[OF this] show ?thesis by auto
qed

end
