(* ===== verification/Governor_Chokepoint.thy ===== *)
theory Governor_Chokepoint
  imports Governor_Signals Self_Plagiarism
begin

text \<open>
  The Governor chokepoint (\<open>packages/loopover-engine/src/governor/chokepoint.ts\<close>), the one decision every
  write of the miner passes through, and its stateful gate
  (\<open>packages/loopover-miner/lib/governor-chokepoint.ts\<close>). The ladder is split at its stages, each one
  ending in the next. A caller's value that escapes the typed boundary (an undefined usage record, a null history) is
  an option; reading a field of it throws, and the stage's handler denies.
\<close>

section \<open>Decisions\<close>

datatype GovernorDecisionStage =
  StKillSwitch | StDryRun | StRateLimit | StBudgetCap | StNonConvergence | StReputationThrottle
| StSelfPlagiarism | StAllow | StInternalError

fun stage_name :: "GovernorDecisionStage \<Rightarrow> string" where
  "stage_name StKillSwitch = ''kill_switch''"
| "stage_name StDryRun = ''dry_run''"
| "stage_name StRateLimit = ''rate_limit''"
| "stage_name StBudgetCap = ''budget_cap''"
| "stage_name StNonConvergence = ''non_convergence''"
| "stage_name StReputationThrottle = ''reputation_throttle''"
| "stage_name StSelfPlagiarism = ''self_plagiarism''"
| "stage_name StAllow = ''allow''"
| "stage_name StInternalError = ''internal_error''"

definition SELF_SUBMISSION_ACTION_CLASSES :: "string list" where
  "SELF_SUBMISSION_ACTION_CLASSES = [''open_pr'']"

text \<open>\<open>capUsage\<close>, \<open>capLimits\<close> and \<open>convergenceInput\<close>: \<open>None\<close> is an undefined value. \<open>reputationHistory\<close> and
  \<open>selfPlagiarismCandidate\<close>: \<open>None\<close> is undefined (the stage is skipped), \<open>Some None\<close> is null.\<close>

record GovernorChokepointInput =
  in_actionClass :: string
  in_repoFullName :: string
  in_nowMs :: jsnum
  in_wouldBeAction :: jsval
  in_killSwitchGlobal :: bool
  in_killSwitchRepoPaused :: "bool option"
  in_liveModeGlobalOptIn :: bool
  in_liveModeRepoOptIn :: jsval
  in_rateLimitBuckets :: WriteRateLimitBucketStore
  in_rateLimitBackoffAttempts :: WriteRateLimitBackoffStore
  in_rateLimitPolicies :: "WriteRateLimitPolicies option"
  in_rateLimitRandomFn :: "randomFn option"
  in_capUsage :: "GovernorCapUsage option"
  in_capLimits :: "GovernorCapLimits option"
  in_convergenceInput :: "PortfolioConvergenceInput option"
  in_convergenceThresholds :: "PortfolioConvergenceThresholds option"
  in_reputationHistory :: "RepoOutcomeHistory option option"
  in_reputationThresholds :: "SelfReputationThresholds option"
  in_selfPlagiarismCandidate :: "OwnSubmissionRecord option option"
  in_selfPlagiarismRecentSubmissions :: "OwnSubmissionRecord list option"
  in_selfPlagiarismConfig :: "SelfPlagiarismConfig option"

record GovernorDecisionDetail =
  dd_killSwitchScope :: MinerKillSwitchScope
  dd_mode :: MinerActionMode
  dd_rateLimit :: "WriteRateLimitVerdict option"
  dd_budgetCap :: "GovernorCapReport option"
  dd_convergence :: "PortfolioConvergenceVerdict option"
  dd_reputation :: "SelfReputationThrottleDecision option"
  dd_selfPlagiarism :: "SelfPlagiarismVerdict option"
  dd_effectiveRateLimitPolicies :: "WriteRateLimitPolicies option"

record GovernorDecision =
  gd_allowed :: bool
  gd_mode :: MinerActionMode
  gd_stage :: GovernorDecisionStage
  gd_reason :: msg
  gd_detail :: GovernorDecisionDetail
  gd_ledgerEvent :: GovernorLedgerEvent

definition event_name :: "GovernorLedgerEventType \<Rightarrow> string" where
  "event_name e = (case e of EvAllowed \<Rightarrow> ''allowed'' | EvDenied \<Rightarrow> ''denied''
     | EvThrottled \<Rightarrow> ''throttled'' | EvKillSwitch \<Rightarrow> ''kill_switch'')"

definition scaleRateLimitPerRepoWindow ::
  "WriteRateLimitPolicies \<Rightarrow> string \<Rightarrow> jsnum \<Rightarrow> WriteRateLimitPolicies" where
  "scaleRateLimitPerRepoWindow policies actionClass cadenceFactor =
     (case map_of (pol_perRepo policies) actionClass of
        None \<Rightarrow> policies
      | Some perRepoConfig \<Rightarrow>
          let safeFactor = (if num_lt (Fin 0) cadenceFactor then cadenceFactor else Fin (1 / 1000)) in
          policies\<lparr>pol_perRepo := table_put actionClass
            (perRepoConfig\<lparr>cfg_windowMs := math_round (num_div (cfg_windowMs perRepoConfig) safeFactor)\<rparr>)
            (pol_perRepo policies)\<rparr>)"

definition denyResult ::
  "GovernorDecisionStage \<Rightarrow> msg \<Rightarrow> MinerActionMode \<Rightarrow> GovernorDecisionDetail \<Rightarrow> GovernorLedgerEventType
     \<Rightarrow> string \<Rightarrow> string \<Rightarrow> (string \<times> jsval) list \<Rightarrow> GovernorDecision" where
  "denyResult stage reason mode detail eventType actionClass repoFullName extraPayload =
     \<lparr>gd_allowed = False, gd_mode = mode, gd_stage = stage, gd_reason = reason, gd_detail = detail,
      gd_ledgerEvent =
        \<lparr>ge_eventType = eventType, ge_repoFullName = Some repoFullName, ge_actionClass = actionClass,
         ge_decision = (if eventType = EvKillSwitch then ''paused''
                        else if eventType = EvThrottled then ''throttle'' else ''deny''),
         ge_reason = reason,
         ge_payload = JObj ((''stage'', JStr (stage_name stage)) # extraPayload)\<rparr>\<rparr>"


section \<open>Calculator calls that may throw\<close>

definition type_error :: "string \<Rightarrow> string \<Rightarrow> string" where
  "type_error value fld =
     ''Cannot read properties of '' @ value @ '' (reading '' @ [CHR 0x27] @ fld @ [CHR 0x27] @ '')''"

definition call_reputation ::
  "RepoOutcomeHistory option \<Rightarrow> SelfReputationThresholds \<Rightarrow> string + SelfReputationThrottleDecision" where
  "call_reputation history thresholds =
     (case history of None \<Rightarrow> Inl (type_error ''null'' ''decided'')
      | Some h \<Rightarrow> Inr (selfReputationThrottle h thresholds))"

definition call_caps ::
  "GovernorCapUsage option \<Rightarrow> GovernorCapLimits option \<Rightarrow> string + GovernorCapReport" where
  "call_caps usage limits =
     (case usage of None \<Rightarrow> Inl (type_error ''undefined'' ''budgetSpent'')
      | Some u \<Rightarrow> (case limits of None \<Rightarrow> Inl (type_error ''undefined'' ''budget'')
                   | Some l \<Rightarrow> Inr (evaluateGovernorCaps u l)))"

definition call_convergence ::
  "PortfolioConvergenceInput option \<Rightarrow> PortfolioConvergenceThresholds \<Rightarrow> string + PortfolioConvergenceVerdict" where
  "call_convergence input thresholds =
     (case input of None \<Rightarrow> Inl (type_error ''undefined'' ''attempts'')
      | Some i \<Rightarrow> Inr (classifyPortfolioConvergence i thresholds))"

definition call_selfPlagiarism ::
  "(string \<Rightarrow> jsnum) \<Rightarrow> OwnSubmissionRecord option \<Rightarrow> OwnSubmissionRecord list \<Rightarrow> SelfPlagiarismConfig
     \<Rightarrow> string + SelfPlagiarismVerdict" where
  "call_selfPlagiarism parse_date candidate recent config =
     (case candidate of None \<Rightarrow> Inl (type_error ''null'' ''fingerprint'')
      | Some c \<Rightarrow> Inr (selfPlagiarismCheck parse_date c recent config))"


section \<open>The ladder\<close>

definition isSelfSubmissionAction :: "GovernorChokepointInput \<Rightarrow> bool" where
  "isSelfSubmissionAction input \<longleftrightarrow> in_actionClass input \<in> set SELF_SUBMISSION_ACTION_CLASSES"

definition internalError ::
  "GovernorChokepointInput \<Rightarrow> MinerActionMode \<Rightarrow> GovernorDecisionDetail \<Rightarrow> string \<Rightarrow> string
     \<Rightarrow> GovernorDecision" where
  "internalError input mode detail calculator message =
     denyResult StInternalError (lit (calculator @ ''_calculator_error: '' @ message)) mode detail EvDenied
       (in_actionClass input) (in_repoFullName input) []"

text \<open>Self-plagiarism, then allow.\<close>

definition stage_selfPlagiarism ::
  "(string \<Rightarrow> jsnum) \<Rightarrow> GovernorChokepointInput \<Rightarrow> MinerActionMode \<Rightarrow> GovernorDecisionDetail
     \<Rightarrow> GovernorDecision" where
  "stage_selfPlagiarism parse_date input mode detailWithReputation =
     (let allow = (\<lambda>finalDetail.
            \<lparr>gd_allowed = True, gd_mode = mode, gd_stage = StAllow,
             gd_reason = lit ''all_governor_checks_passed'', gd_detail = finalDetail,
             gd_ledgerEvent =
               \<lparr>ge_eventType = EvAllowed, ge_repoFullName = Some (in_repoFullName input),
                ge_actionClass = in_actionClass input, ge_decision = ''allow'',
                ge_reason = lit ''all_governor_checks_passed'', ge_payload = JObj []\<rparr>\<rparr>)
      in case in_selfPlagiarismCandidate input of
           None \<Rightarrow> allow detailWithReputation
         | Some candidate \<Rightarrow>
             if \<not> isSelfSubmissionAction input then allow detailWithReputation
             else
               (case call_selfPlagiarism parse_date candidate
                       (or_default (in_selfPlagiarismRecentSubmissions input) [])
                       (or_default (in_selfPlagiarismConfig input) DEFAULT_SELF_PLAGIARISM_CONFIG) of
                  Inl e \<Rightarrow> internalError input mode detailWithReputation ''self_plagiarism'' e
                | Inr selfPlagiarism \<Rightarrow>
                    let finalDetail = detailWithReputation\<lparr>dd_selfPlagiarism := Some selfPlagiarism\<rparr> in
                    if \<not> sv_allowed selfPlagiarism then
                      denyResult StSelfPlagiarism (lit (sv_reason selfPlagiarism)) mode finalDetail
                        (sv_eventType selfPlagiarism) (in_actionClass input) (in_repoFullName input)
                        [(''similarity'', opt_num (sv_similarity selfPlagiarism))]
                    else allow finalDetail))"

text \<open>The hard deny of a floored reputation.\<close>

definition stage_reputation ::
  "(string \<Rightarrow> jsnum) \<Rightarrow> GovernorChokepointInput \<Rightarrow> MinerActionMode
     \<Rightarrow> SelfReputationThrottleDecision option \<Rightarrow> GovernorDecisionDetail \<Rightarrow> GovernorDecision" where
  "stage_reputation parse_date input mode reputation detailWithConvergence =
     (case reputation of
        None \<Rightarrow> stage_selfPlagiarism parse_date input mode detailWithConvergence
      | Some rep \<Rightarrow>
          let detailWithReputation = detailWithConvergence\<lparr>dd_reputation := Some rep\<rparr> in
          if rt_reason rep = Floored then
            denyResult StReputationThrottle (lit (reputationReason_name (rt_reason rep))) mode
              detailWithReputation EvThrottled (in_actionClass input) (in_repoFullName input)
              [(''cadenceFactor'', JNum (rt_cadenceFactor rep)),
               (''unfavorableRatio'', num_or_null (rt_unfavorableRatio rep))]
          else stage_selfPlagiarism parse_date input mode detailWithReputation)"

definition stage_convergence ::
  "(string \<Rightarrow> jsnum) \<Rightarrow> GovernorChokepointInput \<Rightarrow> MinerActionMode
     \<Rightarrow> SelfReputationThrottleDecision option \<Rightarrow> GovernorDecisionDetail \<Rightarrow> GovernorDecision" where
  "stage_convergence parse_date input mode reputation detailWithBudget =
     (case call_convergence (in_convergenceInput input)
             (or_default (in_convergenceThresholds input) DEFAULT_PORTFOLIO_CONVERGENCE_THRESHOLDS) of
        Inl e \<Rightarrow> internalError input mode detailWithBudget ''non_convergence'' e
      | Inr convergence \<Rightarrow>
          let detailWithConvergence = detailWithBudget\<lparr>dd_convergence := Some convergence\<rparr> in
          if cv_status convergence = NonConvergent then
            denyResult StNonConvergence (text_join '' '' (cv_reasons convergence)) mode
              detailWithConvergence EvDenied (in_actionClass input) (in_repoFullName input) []
          else stage_reputation parse_date input mode reputation detailWithConvergence)"

definition dimension_val :: "GovernorCapDimension \<Rightarrow> jsval" where
  "dimension_val d = JObj [(''limit'', JNum (dim_limit d)), (''used'', JNum (dim_used d)),
     (''remaining'', JNum (dim_remaining d)), (''exceeded'', JBool (dim_exceeded d))]"

definition stage_caps ::
  "(string \<Rightarrow> jsnum) \<Rightarrow> GovernorChokepointInput \<Rightarrow> MinerActionMode
     \<Rightarrow> SelfReputationThrottleDecision option \<Rightarrow> GovernorDecisionDetail \<Rightarrow> GovernorDecision" where
  "stage_caps parse_date input mode reputation detailWithRateLimit =
     (case call_caps (in_capUsage input) (in_capLimits input) of
        Inl e \<Rightarrow> internalError input mode detailWithRateLimit ''budget_cap'' e
      | Inr budgetCap \<Rightarrow>
          let detailWithBudget = detailWithRateLimit\<lparr>dd_budgetCap := Some budgetCap\<rparr> in
          if rep_verdict budgetCap \<noteq> EvAllowed then
            denyResult StBudgetCap (lit (''budget_cap_'' @ event_name (rep_verdict budgetCap))) mode
              detailWithBudget (rep_verdict budgetCap) (in_actionClass input) (in_repoFullName input)
              [(''budget'', dimension_val (rep_budget budgetCap)),
               (''turns'', dimension_val (rep_turns budgetCap)),
               (''termination'', dimension_val (rep_termination budgetCap))]
          else stage_convergence parse_date input mode reputation detailWithBudget)"

text \<open>The policies the rate limit is evaluated against: the per-repository window is stretched by a
  reputation below full cadence.\<close>

definition rateLimitPolicies ::
  "GovernorChokepointInput \<Rightarrow> SelfReputationThrottleDecision option \<Rightarrow> WriteRateLimitPolicies option" where
  "rateLimitPolicies input reputation =
     (case reputation of
        Some rep \<Rightarrow>
          if num_lt (rt_cadenceFactor rep) (Fin 1)
          then Some (scaleRateLimitPerRepoWindow
                 (or_default (in_rateLimitPolicies input) DEFAULT_WRITE_RATE_LIMIT_POLICIES)
                 (in_actionClass input) (rt_cadenceFactor rep))
          else in_rateLimitPolicies input
      | None \<Rightarrow> in_rateLimitPolicies input)"

definition stage_rateLimit ::
  "(string \<Rightarrow> jsnum) \<Rightarrow> GovernorChokepointInput \<Rightarrow> MinerActionMode
     \<Rightarrow> SelfReputationThrottleDecision option \<Rightarrow> GovernorDecisionDetail \<Rightarrow> GovernorDecision" where
  "stage_rateLimit parse_date input mode reputation baseDetail =
     (let policies = rateLimitPolicies input reputation in
      case evaluateWriteRateLimit (in_actionClass input) (in_repoFullName input)
             (in_rateLimitBuckets input) (in_rateLimitBackoffAttempts input) policies (in_nowMs input)
             (in_rateLimitRandomFn input) of
        Inl e \<Rightarrow> internalError input mode baseDetail ''rate_limit'' e
      | Inr rateLimit \<Rightarrow>
          let detailWithRateLimit = baseDetail\<lparr>dd_rateLimit := Some rateLimit,
                dd_effectiveRateLimitPolicies :=
                  Some (or_default policies DEFAULT_WRITE_RATE_LIMIT_POLICIES)\<rparr> in
          if \<not> wv_allowed rateLimit then
            denyResult StRateLimit (lit (wv_reason rateLimit)) mode detailWithRateLimit EvThrottled
              (in_actionClass input) (in_repoFullName input)
              ([(''retryAfterMs'', JNum (wv_retryAfterMs rateLimit)),
                (''blockedBy'', blockedBy_val (wv_blockedBy rateLimit))] @
               (case reputation of
                  Some rep \<Rightarrow> if num_lt (rt_cadenceFactor rep) (Fin 1)
                              then [(''reputationCadenceFactor'', JNum (rt_cadenceFactor rep))] else []
                | None \<Rightarrow> []))
          else stage_caps parse_date input mode reputation detailWithRateLimit)"

definition evaluateGovernorChokepoint ::
  "(string \<Rightarrow> jsnum) \<Rightarrow> GovernorChokepointInput \<Rightarrow> GovernorDecision" where
  "evaluateGovernorChokepoint parse_date input =
     (let killSwitchScope = resolveMinerKillSwitch (in_killSwitchGlobal input) (in_killSwitchRepoPaused input);
          mode = resolveMinerActionMode killSwitchScope (in_liveModeRepoOptIn input)
                   (in_liveModeGlobalOptIn input);
          baseDetail = \<lparr>dd_killSwitchScope = killSwitchScope, dd_mode = mode, dd_rateLimit = None,
                        dd_budgetCap = None, dd_convergence = None, dd_reputation = None,
                        dd_selfPlagiarism = None, dd_effectiveRateLimitPolicies = None\<rparr>
      in if isMinerKillSwitchActive killSwitchScope then
           denyResult StKillSwitch (lit (scope_name killSwitchScope @ ''_kill_switch_active'')) mode baseDetail
             EvKillSwitch (in_actionClass input) (in_repoFullName input) []
         else if \<not> minerActionModeExecutes mode then
           \<lparr>gd_allowed = False, gd_mode = mode, gd_stage = StDryRun,
            gd_reason = lit ''dry_run_mode_active'', gd_detail = baseDetail,
            gd_ledgerEvent =
              \<lparr>ge_eventType = EvAllowed, ge_repoFullName = Some (in_repoFullName input),
               ge_actionClass = in_actionClass input, ge_decision = ''dry_run'',
               ge_reason = lit ''dry_run_mode_active'',
               ge_payload = JObj [(''wouldBeAction'', in_wouldBeAction input)]\<rparr>\<rparr>
         else
           (case in_reputationHistory input of
              None \<Rightarrow> stage_rateLimit parse_date input mode None baseDetail
            | Some history \<Rightarrow>
                if \<not> isSelfSubmissionAction input then stage_rateLimit parse_date input mode None baseDetail
                else
                  (case call_reputation history
                          (or_default (in_reputationThresholds input) DEFAULT_SELF_REPUTATION_THRESHOLDS) of
                     Inl e \<Rightarrow> internalError input mode baseDetail ''reputation_throttle'' e
                   | Inr reputation \<Rightarrow> stage_rateLimit parse_date input mode (Some reputation) baseDetail)))"


section \<open>The stateful gate\<close>

text \<open>\<open>appendEvent\<close> writes a row to the ledger: the stored entry, or the error it throws (the gate then throws
  before any bucket is advanced).\<close>

record 'entry GovernorChokepointGateResult =
  gr_decision :: GovernorDecision
  gr_recorded :: 'entry
  gr_rateLimitBuckets :: WriteRateLimitBucketStore
  gr_rateLimitBackoffAttempts :: WriteRateLimitBackoffStore

definition evaluateGovernorChokepointGate ::
  "(string \<Rightarrow> jsnum) \<Rightarrow> (GovernorLedgerEvent \<Rightarrow> string + 'entry) \<Rightarrow> GovernorChokepointInput
     \<Rightarrow> string + 'entry GovernorChokepointGateResult" where
  "evaluateGovernorChokepointGate parse_date appendEvent input =
     (let decision = evaluateGovernorChokepoint parse_date input in
      case appendEvent (gd_ledgerEvent decision) of
        Inl e \<Rightarrow> Inl e
      | Inr recorded \<Rightarrow>
          let buckets0 = in_rateLimitBuckets input;
              backoff0 = in_rateLimitBackoffAttempts input;
              (buckets, backoff) =
                (if gd_stage decision = StAllow then
                   (recordWriteRateLimitAllowed buckets0 (in_actionClass input) (in_repoFullName input)
                      (in_nowMs input)
                      (case dd_effectiveRateLimitPolicies (gd_detail decision) of
                         Some p \<Rightarrow> p
                       | None \<Rightarrow> or_default (in_rateLimitPolicies input) DEFAULT_WRITE_RATE_LIMIT_POLICIES),
                    clearWriteRateLimitBackoff backoff0 (in_actionClass input) (in_repoFullName input))
                 else if gd_stage decision = StRateLimit then
                   (buckets0,
                    recordWriteRateLimitDenied backoff0 (in_actionClass input) (in_repoFullName input))
                 else (buckets0, backoff0))
          in Inr \<lparr>gr_decision = decision, gr_recorded = recorded, gr_rateLimitBuckets = buckets,
                  gr_rateLimitBackoffAttempts = backoff\<rparr>)"


section \<open>The ladder as a list of checks\<close>

text \<open>The abstract ladder: the stages in their order of precedence, each with the condition under which it lets
  the write pass; the decision is the first stage that refuses, or allow.\<close>

fun first_refusal :: "(GovernorDecisionStage \<times> bool) list \<Rightarrow> GovernorDecisionStage" where
  "first_refusal [] = StAllow"
| "first_refusal ((s, passes) # rest) = (if passes then first_refusal rest else s)"

definition reputation_of :: "GovernorChokepointInput \<Rightarrow> SelfReputationThrottleDecision option" where
  "reputation_of i =
     (if isSelfSubmissionAction i
      then (case in_reputationHistory i of
              Some (Some h) \<Rightarrow> Some (selfReputationThrottle h
                 (or_default (in_reputationThresholds i) DEFAULT_SELF_REPUTATION_THRESHOLDS))
            | _ \<Rightarrow> None)
      else None)"

definition effective_policies :: "GovernorChokepointInput \<Rightarrow> WriteRateLimitPolicies" where
  "effective_policies i = or_policies (rateLimitPolicies i (reputation_of i))"

definition within_rate :: "GovernorChokepointInput \<Rightarrow> bool" where
  "within_rate i = write_admitted (in_actionClass i) (in_repoFullName i) (in_rateLimitBuckets i)
     (effective_policies i) (in_nowMs i)"

definition within_caps :: "GovernorChokepointInput \<Rightarrow> bool" where
  "within_caps i = (case (in_capUsage i, in_capLimits i) of
       (Some u, Some l) \<Rightarrow> rep_verdict (evaluateGovernorCaps u l) = EvAllowed | _ \<Rightarrow> True)"

definition convergent :: "GovernorChokepointInput \<Rightarrow> bool" where
  "convergent i = (case in_convergenceInput i of
       Some c \<Rightarrow> cv_status (classifyPortfolioConvergence c
          (or_default (in_convergenceThresholds i) DEFAULT_PORTFOLIO_CONVERGENCE_THRESHOLDS)) \<noteq> NonConvergent
     | None \<Rightarrow> True)"

definition original :: "(string \<Rightarrow> jsnum) \<Rightarrow> GovernorChokepointInput \<Rightarrow> bool" where
  "original pd i = (case in_selfPlagiarismCandidate i of
       Some (Some c) \<Rightarrow> isSelfSubmissionAction i \<longrightarrow> sv_allowed (selfPlagiarismCheck pd c
          (or_default (in_selfPlagiarismRecentSubmissions i) [])
          (or_default (in_selfPlagiarismConfig i) DEFAULT_SELF_PLAGIARISM_CONFIG))
     | _ \<Rightarrow> True)"

definition checks_plagiarism where
  "checks_plagiarism pd i =
     [(StInternalError, \<not> (isSelfSubmissionAction i \<and> in_selfPlagiarismCandidate i = Some None)),
      (StSelfPlagiarism, original pd i)]"

definition checks_reputation where
  "checks_reputation pd i =
     (StReputationThrottle, map_option rt_reason (reputation_of i) \<noteq> Some Floored) # checks_plagiarism pd i"

definition checks_convergence where
  "checks_convergence pd i =
     [(StInternalError, in_convergenceInput i \<noteq> None), (StNonConvergence, convergent i)]
     @ checks_reputation pd i"

definition checks_caps where
  "checks_caps pd i =
     [(StInternalError, in_capUsage i \<noteq> None \<and> in_capLimits i \<noteq> None), (StBudgetCap, within_caps i)]
     @ checks_convergence pd i"

definition checks_rate where
  "checks_rate pd i =
     [(StInternalError, within_rate i \<or> (\<forall>e. in_rateLimitRandomFn i \<noteq> Some (Inl e))),
      (StRateLimit, within_rate i)] @ checks_caps pd i"

definition ladder :: "(string \<Rightarrow> jsnum) \<Rightarrow> GovernorChokepointInput \<Rightarrow> (GovernorDecisionStage \<times> bool) list" where
  "ladder pd i =
     [(StKillSwitch, \<not> in_killSwitchGlobal i \<and> in_killSwitchRepoPaused i \<noteq> Some True),
      (StDryRun, in_liveModeGlobalOptIn i \<and> in_liveModeRepoOptIn i = JStr ''live''),
      (StInternalError, \<not> (isSelfSubmissionAction i \<and> in_reputationHistory i = Some None))]
     @ checks_rate pd i"

text \<open>A decision agrees with a list of checks.\<close>

definition agrees :: "GovernorDecision \<Rightarrow> MinerActionMode \<Rightarrow> (GovernorDecisionStage \<times> bool) list \<Rightarrow> bool" where
  "agrees d m cs \<longleftrightarrow> gd_stage d = first_refusal cs \<and> gd_allowed d = (gd_stage d = StAllow) \<and> gd_mode d = m"

lemma agrees_deny [simp]:
  "agrees (denyResult s r m d e a n x) m' cs \<longleftrightarrow> s = first_refusal cs \<and> s \<noteq> StAllow \<and> m = m'"
  by (auto simp: agrees_def denyResult_def)

lemma agrees_internal [simp]:
  "agrees (internalError i m d c e) m' cs \<longleftrightarrow> StInternalError = first_refusal cs \<and> m = m'"
  by (simp add: internalError_def)

lemma stage_selfPlagiarism_agrees: "agrees (stage_selfPlagiarism pd i m d) m (checks_plagiarism pd i)"
  unfolding stage_selfPlagiarism_def checks_plagiarism_def original_def call_selfPlagiarism_def
  by (auto simp: Let_def split: option.splits) (simp_all add: agrees_def)

lemma stage_reputation_agrees: "agrees (stage_reputation pd i m (reputation_of i) d) m (checks_reputation pd i)"
  using stage_selfPlagiarism_agrees
  by (auto simp: stage_reputation_def checks_reputation_def agrees_def[of "stage_selfPlagiarism _ _ _ _"]
      Let_def split: option.splits)

lemma stage_convergence_agrees: "agrees (stage_convergence pd i m (reputation_of i) d) m (checks_convergence pd i)"
  using stage_reputation_agrees
  by (auto simp: stage_convergence_def checks_convergence_def call_convergence_def convergent_def
      agrees_def[of "stage_reputation _ _ _ _ _"] Let_def split: option.splits)

lemma stage_caps_agrees: "agrees (stage_caps pd i m (reputation_of i) d) m (checks_caps pd i)"
  using stage_convergence_agrees
  by (auto simp: stage_caps_def checks_caps_def call_caps_def within_caps_def
      agrees_def[of "stage_convergence _ _ _ _ _"] Let_def split: option.splits)

lemma stage_rateLimit_agrees: "agrees (stage_rateLimit pd i m (reputation_of i) d) m (checks_rate pd i)"
proof -
  let ?e = "evaluateWriteRateLimit (in_actionClass i) (in_repoFullName i) (in_rateLimitBuckets i)
      (in_rateLimitBackoffAttempts i) (rateLimitPolicies i (reputation_of i)) (in_nowMs i) (in_rateLimitRandomFn i)"
  note c = evaluateWriteRateLimit_cases[of "in_actionClass i" "in_repoFullName i" "in_rateLimitBuckets i"
      "in_rateLimitBackoffAttempts i" "rateLimitPolicies i (reputation_of i)" "in_nowMs i" "in_rateLimitRandomFn i",
      folded effective_policies_def, folded within_rate_def]
  show ?thesis
  proof (cases ?e)
    case (Inl e)
    with c(1)[of e] show ?thesis by (simp add: stage_rateLimit_def checks_rate_def)
  next
    case (Inr v)
    have "within_rate i \<or> (\<forall>e. in_rateLimitRandomFn i \<noteq> Some (Inl e))" using c(1) Inr by auto
    with c(2)[OF Inr] Inr stage_caps_agrees show ?thesis
      by (auto simp: stage_rateLimit_def checks_rate_def agrees_def[of "stage_caps _ _ _ _ _"] Let_def)
  qed
qed


lemma agrees_skip: "agrees d m cs \<Longrightarrow> agrees d m ((s, True) # cs)"
  by (simp add: agrees_def)

definition mode_of :: "GovernorChokepointInput \<Rightarrow> MinerActionMode" where
  "mode_of i = resolveMinerActionMode (resolveMinerKillSwitch (in_killSwitchGlobal i) (in_killSwitchRepoPaused i))
     (in_liveModeRepoOptIn i) (in_liveModeGlobalOptIn i)"

lemma mode_of_live:
  "mode_of i = ModeLive \<longleftrightarrow>
     \<not> in_killSwitchGlobal i \<and> in_killSwitchRepoPaused i \<noteq> Some True \<and>
     in_liveModeGlobalOptIn i \<and> in_liveModeRepoOptIn i = JStr ''live''"
  by (auto simp: mode_of_def resolveMinerActionMode_live_iff resolveMinerKillSwitch_def)

lemma kill_scope_active:
  "isMinerKillSwitchActive (resolveMinerKillSwitch g r) \<longleftrightarrow> g \<or> r = Some True"
  by (simp add: resolveMinerKillSwitch_def isMinerKillSwitchActive_def)

lemma stage_rateLimit_agrees_live:
  assumes "reputation_of i = r" "\<not> (isSelfSubmissionAction i \<and> in_reputationHistory i = Some None)"
  shows "agrees (stage_rateLimit pd i m r d) m
    ((StInternalError, \<not> (isSelfSubmissionAction i \<and> in_reputationHistory i = Some None)) # checks_rate pd i)"
  using stage_rateLimit_agrees[of pd i m d] assms by (auto simp: agrees_def)

definition base_detail :: "GovernorChokepointInput \<Rightarrow> GovernorDecisionDetail" where
  "base_detail i = \<lparr>dd_killSwitchScope = resolveMinerKillSwitch (in_killSwitchGlobal i) (in_killSwitchRepoPaused i),
     dd_mode = mode_of i, dd_rateLimit = None, dd_budgetCap = None, dd_convergence = None,
     dd_reputation = None, dd_selfPlagiarism = None, dd_effectiveRateLimitPolicies = None\<rparr>"

lemma evaluateGovernorChokepoint_live:
  assumes "mode_of i = ModeLive"
  shows "evaluateGovernorChokepoint pd i =
    (if isSelfSubmissionAction i \<and> in_reputationHistory i = Some None
     then internalError i ModeLive (base_detail i) ''reputation_throttle'' (type_error ''null'' ''decided'')
     else stage_rateLimit pd i ModeLive (reputation_of i) (base_detail i))"
proof -
  have "\<not> (in_killSwitchGlobal i \<or> in_killSwitchRepoPaused i = Some True)"
    using assms by (simp add: mode_of_live)
  then show ?thesis
    unfolding evaluateGovernorChokepoint_def Let_def kill_scope_active mode_of_def[symmetric]
      base_detail_def[symmetric]
    using assms
    by (auto simp: minerActionModeExecutes_def reputation_of_def call_reputation_def split: option.splits)
qed

lemma evaluateGovernorChokepoint_agrees: "agrees (evaluateGovernorChokepoint pd i) (mode_of i) (ladder pd i)"
proof (cases "mode_of i = ModeLive")
  case live: True
  let ?bad = "isSelfSubmissionAction i \<and> in_reputationHistory i = Some None"
  have "agrees (evaluateGovernorChokepoint pd i) ModeLive ((StInternalError, \<not> ?bad) # checks_rate pd i)"
    unfolding evaluateGovernorChokepoint_live[OF live]
    using stage_rateLimit_agrees_live[OF refl, of i pd] by simp
  moreover have "ladder pd i = (StKillSwitch, True) # (StDryRun, True) # (StInternalError, \<not> ?bad) # checks_rate pd i"
    using live by (simp add: ladder_def mode_of_live)
  ultimately show ?thesis using live by (simp add: agrees_skip)
next
  case False
  show ?thesis
  proof (cases "in_killSwitchGlobal i \<or> in_killSwitchRepoPaused i = Some True")
    case True
    then show ?thesis
      by (auto simp: evaluateGovernorChokepoint_def Let_def kill_scope_active ladder_def mode_of_def)
  next
    case off: False
    with False have "\<not> (in_liveModeGlobalOptIn i \<and> in_liveModeRepoOptIn i = JStr ''live'')"
      by (simp add: mode_of_live)
    with off False show ?thesis
      by (auto simp: evaluateGovernorChokepoint_def Let_def kill_scope_active ladder_def
          minerActionModeExecutes_def agrees_def mode_of_def)
  qed
qed

lemma first_refusal_allow:
  assumes "\<forall>c \<in> set cs. fst c \<noteq> StAllow"
  shows "first_refusal cs = StAllow \<longleftrightarrow> (\<forall>c \<in> set cs. snd c)"
  using assms by (induction cs rule: first_refusal.induct) auto

lemmas ladder_stages = ladder_def checks_rate_def checks_caps_def checks_convergence_def
  checks_reputation_def checks_plagiarism_def

lemma evaluateGovernorChokepoint_allowed_iff:
  "gd_allowed (evaluateGovernorChokepoint pd i) \<longleftrightarrow> (\<forall>c \<in> set (ladder pd i). snd c)"
proof -
  have "\<forall>c \<in> set (ladder pd i). fst c \<noteq> StAllow" by (simp add: ladder_stages)
  then show ?thesis
    using evaluateGovernorChokepoint_agrees[of pd i] first_refusal_allow unfolding agrees_def by metis
qed

text \<open>C1: the chokepoint decides exactly by its documented ladder: the reported stage is the first check that refuses
  (kill switch, dry run, rate limit, caps, non-convergence, reputation floor, self-plagiarism, with a
  calculator error denying at its own place), a write is allowed exactly when every check passes,
  and the mode is live exactly when neither the kill switch nor dry run refuses.\<close>

theorem evaluateGovernorChokepoint_ladder:
  "gd_stage (evaluateGovernorChokepoint pd i) = first_refusal (ladder pd i) \<and>
   gd_allowed (evaluateGovernorChokepoint pd i) = list_all snd (ladder pd i) \<and>
   (gd_mode (evaluateGovernorChokepoint pd i) = ModeLive) = list_all snd (take 2 (ladder pd i))"
proof (intro conjI)
  show "gd_stage (evaluateGovernorChokepoint pd i) = first_refusal (ladder pd i)"
    using evaluateGovernorChokepoint_agrees by (simp add: agrees_def)
  show "gd_allowed (evaluateGovernorChokepoint pd i) = list_all snd (ladder pd i)"
    by (simp add: evaluateGovernorChokepoint_allowed_iff list_all_iff)
  have "gd_mode (evaluateGovernorChokepoint pd i) = mode_of i"
    using evaluateGovernorChokepoint_agrees by (simp add: agrees_def)
  then show "(gd_mode (evaluateGovernorChokepoint pd i) = ModeLive) = list_all snd (take 2 (ladder pd i))"
    by (simp add: mode_of_live ladder_def numeral_2_eq_2 conj_assoc)
qed


section \<open>The gate\<close>

lemma gate_cases:
  "evaluateGovernorChokepointGate pd ap i = Inr r \<Longrightarrow>
     gr_decision r = evaluateGovernorChokepoint pd i \<and>
     ap (gd_ledgerEvent (evaluateGovernorChokepoint pd i)) = Inr (gr_recorded r)"
  by (auto simp: evaluateGovernorChokepointGate_def Let_def split: sum.splits prod.splits if_splits)

lemma stage_detail_policies:
  assumes "gd_stage (evaluateGovernorChokepoint pd i) = StAllow"
  shows "dd_effectiveRateLimitPolicies (gd_detail (evaluateGovernorChokepoint pd i)) = Some (effective_policies i)"
proof -
  have plag: "dd_effectiveRateLimitPolicies (gd_detail (stage_selfPlagiarism pd i m d)) =
      dd_effectiveRateLimitPolicies d" for m d
    by (auto simp: stage_selfPlagiarism_def internalError_def denyResult_def Let_def split: option.splits sum.splits)
  have rep: "dd_effectiveRateLimitPolicies (gd_detail (stage_reputation pd i m r d)) =
      dd_effectiveRateLimitPolicies d" for m r d
    by (auto simp: stage_reputation_def denyResult_def Let_def plag split: option.splits)
  have conv: "dd_effectiveRateLimitPolicies (gd_detail (stage_convergence pd i m r d)) =
      dd_effectiveRateLimitPolicies d" for m r d
    by (auto simp: stage_convergence_def internalError_def denyResult_def Let_def rep split: sum.splits)
  have caps: "dd_effectiveRateLimitPolicies (gd_detail (stage_caps pd i m r d)) =
      dd_effectiveRateLimitPolicies d" for m r d
    by (auto simp: stage_caps_def internalError_def denyResult_def Let_def conv split: sum.splits)
  have rate: "dd_effectiveRateLimitPolicies (gd_detail (stage_rateLimit pd i m (reputation_of i) d)) =
      Some (effective_policies i)" if "gd_stage (stage_rateLimit pd i m (reputation_of i) d) = StAllow" for m d
    using that by (auto simp: stage_rateLimit_def internalError_def denyResult_def Let_def caps
        effective_policies_def or_policies_def split: sum.splits if_splits)
  have stage: "first_refusal (ladder pd i) = StAllow"
    using assms evaluateGovernorChokepoint_agrees[of pd i] by (simp add: agrees_def)
  then have live: "mode_of i = ModeLive" by (auto simp: ladder_def mode_of_live split: if_splits)
  have "\<not> (isSelfSubmissionAction i \<and> in_reputationHistory i = Some None)"
    using stage by (auto simp: ladder_def split: if_splits)
  with assms rate show ?thesis unfolding evaluateGovernorChokepoint_live[OF live] by auto
qed


text \<open>Stretching a window by a cadence factor keeps the limit and never narrows the window.\<close>

lemma stretched_window:
  assumes "1 / 1000 \<le> q" "q < 1" "window_of c \<le> 2 ^ 53"
  defines "c' \<equiv> c\<lparr>cfg_windowMs := math_round (num_div (cfg_windowMs c) (Fin q))\<rparr>"
  shows "limit_of c' = limit_of c \<and> window_of c \<le> window_of c' \<and> window_of c' < num_max"
proof (cases "cfg_windowMs c")
  case (Fin w)
  have q: "0 < q" using assms(1) by simp
  have lim: "limit_of c' = limit_of c" by (simp add: c'_def limit_of_def)
  show ?thesis
  proof (cases "0 \<le> w")
    case True
    then have w0: "0 \<le> \<lfloor>w\<rfloor>" by simp
    then have wc: "window_of c = of_int \<lfloor>w\<rfloor>" using Fin by (simp add: window_of_def finiteNonNegativeInt_def)
    then have w53: "w < 2 ^ 53 + 1" using assms(3) by linarith
    have "w * 1 \<le> w * (q * 1000)" using True assms(1) by (intro mult_left_mono) auto
    then have up: "w / q \<le> 1000 * w" using q by (simp add: field_simps)
    have "w * q \<le> w * 1" using True assms(2) by (intro mult_left_mono) auto
    then have lo: "w \<le> w / q" using q by (simp add: field_simps)
    have small: "\<bar>w / q\<bar> \<le> 10 ^ 30" using True lo up w53 by simp
    have fl: "\<lfloor>w\<rfloor> \<le> \<lfloor>w / q + 1 / 2\<rfloor>" using lo by (intro floor_mono) simp
    have "0 \<le> \<lfloor>w / q + 1 / 2\<rfloor>" using w0 fl by (rule order_trans)
    moreover have "num_div (Fin w) (Fin q) = Fin (w / q)" using q small by (simp add: num_of_rat_small)
    ultimately have wc': "window_of c' = of_int \<lfloor>w / q + 1 / 2\<rfloor>"
      using Fin by (simp add: c'_def window_of_def finiteNonNegativeInt_def)
    have "of_int \<lfloor>w / q + 1 / 2\<rfloor> \<le> w / q + 1 / 2" by simp
    moreover have "w / q + 1 / 2 \<le> 10 ^ 30" using up w53 by simp
    ultimately have "window_of c' < num_max" using num_max_large wc' by linarith
    with wc wc' fl lim show ?thesis by simp
  next
    case False
    then have "w / q < 0" using q by (simp add: divide_neg_pos)
    then have "\<lfloor>w / q + 1 / 2\<rfloor> \<le> 0" by (simp add: floor_le_iff)
    then have "rat_of_int \<lfloor>w / q + 1 / 2\<rfloor> \<le> 0" by (simp only: of_int_le_0_iff)
    then have "max 0 (rat_of_int \<lfloor>w / q + 1 / 2\<rfloor>) = 0" by (rule max_absorb1)
    then have wc': "window_of c' = 0"
      using Fin q by (simp add: c'_def window_of_def finiteNonNegativeInt_def num_of_rat_def)
    have "\<lfloor>w\<rfloor> < 0" using False by simp
    then have "window_of c = 0" using Fin by (simp add: window_of_def finiteNonNegativeInt_def max_def)
    with wc' lim show ?thesis by simp
  qed
qed (use assms in \<open>simp_all add: window_of_def limit_of_def finiteNonNegativeInt_def\<close>)

lemma effective_per_repo:
  fixes i
  defines "c \<equiv> policyFor (or_policies (in_rateLimitPolicies i)) (trim (in_actionClass i)) ScopePerRepo"
    and "c' \<equiv> policyFor (effective_policies i) (trim (in_actionClass i)) ScopePerRepo"
  assumes "in_reputationThresholds i = None" "window_of c \<le> 2 ^ 53"
  shows "limit_of c' = limit_of c \<and> window_of c \<le> window_of c' \<and> window_of c' < num_max"
proof -
  have small: "window_of c < num_max" using assms(4) num_max_large by simp
  show ?thesis
  proof (cases "\<exists>rep. reputation_of i = Some rep \<and> num_lt (rt_cadenceFactor rep) (Fin 1)")
    case False
    then have "effective_policies i = or_policies (in_rateLimitPolicies i)"
      by (auto simp: effective_policies_def rateLimitPolicies_def split: option.splits)
    with small show ?thesis by (simp add: c_def c'_def)
  next
    case True
    then obtain h where op: "in_actionClass i = ''open_pr''"
      and r: "reputation_of i = Some (selfReputationThrottle h DEFAULT_SELF_REPUTATION_THRESHOLDS)"
      and lt: "num_lt (rt_cadenceFactor (selfReputationThrottle h DEFAULT_SELF_REPUTATION_THRESHOLDS)) (Fin 1)"
      using assms(3) by (auto simp: reputation_of_def isSelfSubmissionAction_def
          SELF_SUBMISSION_ACTION_CLASSES_def split: if_splits option.splits)
    obtain q where q: "rt_cadenceFactor (selfReputationThrottle h DEFAULT_SELF_REPUTATION_THRESHOLDS) = Fin q"
      "1 / 10 \<le> q" "q \<le> 1" by (rule default_cadence_bounds)
    have tr: "trim ''open_pr'' = ''open_pr''" by (rule trim_fix) (simp add: is_ws_def)
    show ?thesis
    proof (cases "map_of (pol_perRepo (or_policies (in_rateLimitPolicies i))) ''open_pr''")
      case None
      then have "effective_policies i = or_policies (in_rateLimitPolicies i)"
        using r lt by (simp add: effective_policies_def rateLimitPolicies_def scaleRateLimitPerRepoWindow_def
            op or_policies_def)
      with small show ?thesis by (simp add: c_def c'_def)
    next
      case (Some k)
      then have "c = k" by (simp add: c_def policyFor_def ownValue_def op tr)
      moreover have "c' = k\<lparr>cfg_windowMs := math_round (num_div (cfg_windowMs k) (Fin q))\<rparr>"
        using r lt q Some by (simp add: c'_def policyFor_def ownValue_def op tr effective_policies_def
            rateLimitPolicies_def scaleRateLimitPerRepoWindow_def or_policies_def)
      ultimately show ?thesis using stretched_window[of q k] lt q assms(4) by simp
    qed
  qed
qed


text \<open>A sequence of gate calls: each call sees the buckets and backoff counts the previous one left. A call whose
  ledger append throws lets nothing through and leaves the state as it was.\<close>

definition gate_input ::
  "WriteRateLimitBucketStore \<times> WriteRateLimitBackoffStore \<Rightarrow> GovernorChokepointInput \<Rightarrow> GovernorChokepointInput" where
  "gate_input s i = i\<lparr>in_rateLimitBuckets := fst s, in_rateLimitBackoffAttempts := snd s\<rparr>"

definition gate_next ::
  "(string \<Rightarrow> jsnum) \<Rightarrow> (GovernorLedgerEvent \<Rightarrow> string + 'entry)
     \<Rightarrow> WriteRateLimitBucketStore \<times> WriteRateLimitBackoffStore \<Rightarrow> GovernorChokepointInput
     \<Rightarrow> (WriteRateLimitBucketStore \<times> WriteRateLimitBackoffStore) \<times> bool" where
  "gate_next pd ap s i =
     (case evaluateGovernorChokepointGate pd ap (gate_input s i) of
        Inl e \<Rightarrow> (s, False)
      | Inr r \<Rightarrow> ((gr_rateLimitBuckets r, gr_rateLimitBackoffAttempts r), gd_allowed (gr_decision r)))"

definition write_key :: "GovernorChokepointInput \<Rightarrow> string" where
  "write_key i = writeRateLimitRepoKey (in_actionClass i) (in_repoFullName i)"

lemma gate_input_simps [simp]:
  "in_actionClass (gate_input s i) = in_actionClass i" "in_repoFullName (gate_input s i) = in_repoFullName i"
  "in_nowMs (gate_input s i) = in_nowMs i" "in_rateLimitBuckets (gate_input s i) = fst s"
  "in_rateLimitBackoffAttempts (gate_input s i) = snd s"
  "in_rateLimitPolicies (gate_input s i) = in_rateLimitPolicies i"
  "effective_policies (gate_input s i) = effective_policies i"
  by (simp_all add: gate_input_def effective_policies_def rateLimitPolicies_def reputation_of_def
      isSelfSubmissionAction_def cong: option.case_cong if_cong)

lemma allowed_stage:
  "gd_allowed (evaluateGovernorChokepoint pd i) \<longleftrightarrow> gd_stage (evaluateGovernorChokepoint pd i) = StAllow"
  using evaluateGovernorChokepoint_agrees[of pd i] by (simp add: agrees_def)

lemma allowed_within_rate: "gd_allowed (evaluateGovernorChokepoint pd i) \<Longrightarrow> within_rate i"
  by (simp add: evaluateGovernorChokepoint_allowed_iff ladder_stages)

lemma gate_next_buckets:
  "map_of (st_perRepo (fst (fst (gate_next pd ap s i)))) =
     (if snd (gate_next pd ap s i)
      then (map_of (st_perRepo (fst s)))(write_key i \<mapsto>
         incrementBucket (bucketOr (st_perRepo (fst s)) (write_key i) (in_nowMs i))
           (policyFor (effective_policies i) (trim (in_actionClass i)) ScopePerRepo) (in_nowMs i))
      else map_of (st_perRepo (fst s)))"
  "snd (gate_next pd ap s i) \<Longrightarrow> within_rate (gate_input s i)"
proof -
  let ?d = "evaluateGovernorChokepoint pd (gate_input s i)"
  have pol: "dd_effectiveRateLimitPolicies (gd_detail ?d) = Some (effective_policies i)" if "gd_stage ?d = StAllow"
    using stage_detail_policies[OF that] by simp
  show "snd (gate_next pd ap s i) \<Longrightarrow> within_rate (gate_input s i)"
    unfolding gate_next_def using allowed_within_rate gate_cases by (fastforce split: sum.splits)
  show "map_of (st_perRepo (fst (fst (gate_next pd ap s i)))) =
     (if snd (gate_next pd ap s i)
      then (map_of (st_perRepo (fst s)))(write_key i \<mapsto>
         incrementBucket (bucketOr (st_perRepo (fst s)) (write_key i) (in_nowMs i))
           (policyFor (effective_policies i) (trim (in_actionClass i)) ScopePerRepo) (in_nowMs i))
      else map_of (st_perRepo (fst s)))"
    using pol unfolding gate_next_def evaluateGovernorChokepointGate_def Let_def
    by (auto simp: allowed_stage recordWriteRateLimitAllowed_perRepo write_key_def split: sum.splits prod.splits)
qed

text \<open>What the bound needs of the calls on one key: the default reputation thresholds, one configured
  ceiling \<open>c\<close>, and a clock inside the window that began at \<open>start\<close>.\<close>

definition call_ok :: "LocalRateLimitConfig \<Rightarrow> rat \<Rightarrow> GovernorChokepointInput \<Rightarrow> bool" where
  "call_ok c start i \<longleftrightarrow>
     in_reputationThresholds i = None \<and>
     policyFor (or_policies (in_rateLimitPolicies i)) (trim (in_actionClass i)) ScopePerRepo = c \<and>
     (case in_nowMs i of Fin t \<Rightarrow> t - start < window_of c | _ \<Rightarrow> False)"

lemma gate_next_counts:
  assumes "map_of (st_perRepo (fst s)) (write_key i) = Some b" "bucket_ok c b" "window_of c \<le> 2 ^ 53"
    and "call_ok c (start_of b) i" "snd (gate_next pd ap s i)"
  shows "used_of b < limit_of c \<and>
    (\<exists>b'. map_of (st_perRepo (fst (fst (gate_next pd ap s i)))) (write_key i) = Some b' \<and>
       bucket_ok c b' \<and> start_of b' = start_of b \<and> used_of b' = Suc (used_of b))"
proof -
  let ?c = "policyFor (effective_policies i) (trim (in_actionClass i)) ScopePerRepo"
  obtain t where t: "in_nowMs i = Fin t" "t - start_of b < window_of c"
    using assms(4) by (cases "in_nowMs i") (auto simp: call_ok_def)
  have eff: "limit_of ?c = limit_of c" "window_of c \<le> window_of ?c" "window_of ?c < num_max"
    using effective_per_repo[of i] assms(3,4) by (auto simp: call_ok_def)
  have ok': "bucket_ok ?c b" using assms(2) eff by (simp add: bucket_ok_def)
  have inside: "t - start_of b < window_of ?c" using t(2) eff(2) by simp
  have "within_rate (gate_input s i)" using gate_next_buckets(2)[OF assms(5)] .
  then have adm: "bucket_admits ?c b t"
    using assms(1) t(1) by (simp add: within_rate_def write_admitted_def bucketOr_def ownValue_def write_key_def)
  then have used: "used_of b < limit_of c" using rl.admits_iff[OF ok'] inside eff(1) by simp
  have new: "map_of (st_perRepo (fst (fst (gate_next pd ap s i)))) (write_key i) = Some (bucket_bump ?c b t)"
    unfolding gate_next_buckets(1) using assms(1,5) t(1)
    by (simp add: bucketOr_def ownValue_def bucket_bump_def)
  have "bucket_ok c (bucket_bump ?c b t)"
    using rl.ok_bump[OF ok' adm] eff assms(2) by (simp add: bucket_ok_def)
  with new used show ?thesis using rl.used_bump[OF ok' adm] rl.start_bump[OF ok' adm] inside by simp
qed

lemma gate_run_counts:
  assumes "map_of (st_perRepo (fst s)) key = Some b" "bucket_ok c b" "window_of c \<le> 2 ^ 53"
    and "\<forall>i \<in> set is. write_key i = key \<longrightarrow> call_ok c (start_of b) i"
  shows "length (filter (\<lambda>(i, ok). write_key i = key \<and> ok) (zip is (mealy_outputs (gate_next pd ap) s is)))
    \<le> limit_of c - used_of b"
  using assms
proof (induction "is" arbitrary: s b)
  case (Cons i "is")
  let ?n = "gate_next pd ap s i"
  show ?case
  proof (cases "write_key i = key \<and> snd ?n")
    case True
    then obtain b' where used: "used_of b < limit_of c"
      and b': "map_of (st_perRepo (fst (fst ?n))) key = Some b'" "bucket_ok c b'" "start_of b' = start_of b"
        "used_of b' = Suc (used_of b)"
      using gate_next_counts[of s i b c pd ap] Cons.prems by auto
    have "length (filter (\<lambda>(i, ok). write_key i = key \<and> ok) (zip is (mealy_outputs (gate_next pd ap) (fst ?n) is)))
        \<le> limit_of c - used_of b'"
      using b' Cons.prems by (intro Cons.IH) auto
    with True used b'(4) show ?thesis by simp
  next
    case False
    then have "map_of (st_perRepo (fst (fst ?n))) key = Some b"
      using Cons.prems(1) by (auto simp: gate_next_buckets(1))
    then have "length (filter (\<lambda>(i, ok). write_key i = key \<and> ok) (zip is (mealy_outputs (gate_next pd ap) (fst ?n) is)))
        \<le> limit_of c - used_of b"
      using Cons.prems by (intro Cons.IH) auto
    with False show ?thesis by auto
  qed
qed simp

text \<open>C4: however the writes of all repositories and action classes interleave, the gate lets at most the
  configured number of writes through per repository and action class within one window: of any
  sequence of gate calls, those on one key inside the window of its bucket are allowed at most
  \<open>limit - used\<close> times, whatever reputation does to the window and even when ledger appends fail.\<close>

theorem gate_run_bounded:
  assumes "map_of (st_perRepo buckets) key = Some b" "bucket_ok c b" "window_of c \<le> 2 ^ 53"
    and "\<forall>i \<in> set is. write_key i = key \<longrightarrow> call_ok c (start_of b) i"
  shows "length (filter (\<lambda>(i, ok). write_key i = key \<and> ok)
      (zip is (mealy_outputs (gate_next pd ap) (buckets, backoff) is))) \<le> limit_of c - used_of b"
  by (rule gate_run_counts) (use assms in simp_all)

definition sample_write :: "rat \<Rightarrow> GovernorChokepointInput" where
  "sample_write t = \<lparr>in_actionClass = ''open_pr'', in_repoFullName = ''o/r'', in_nowMs = Fin t,
     in_wouldBeAction = JObj [], in_killSwitchGlobal = False, in_killSwitchRepoPaused = None,
     in_liveModeGlobalOptIn = True, in_liveModeRepoOptIn = JStr ''live'',
     in_rateLimitBuckets = \<lparr>st_global = [], st_perRepo = []\<rparr>, in_rateLimitBackoffAttempts = [],
     in_rateLimitPolicies = None, in_rateLimitRandomFn = None,
     in_capUsage = Some \<lparr>use_budgetSpent = Fin 0, use_turnsTaken = Fin 0, use_elapsedMs = Fin 0\<rparr>,
     in_capLimits = Some \<lparr>lim_budget = Fin 5, lim_turns = Fin 5, lim_elapsedMs = Fin 1000\<rparr>,
     in_convergenceInput = Some \<lparr>ci_attempts = Fin 0, ci_consecutiveFailures = Fin 0, ci_reenqueues = Fin 0,
       ci_reachedDone = False\<rparr>,
     in_convergenceThresholds = None, in_reputationHistory = None, in_reputationThresholds = None,
     in_selfPlagiarismCandidate = None, in_selfPlagiarismRecentSubmissions = None,
     in_selfPlagiarismConfig = None\<rparr>"

lemma sample_write_ok:
  "call_ok open_pr_per_repo 0 (sample_write t) \<longleftrightarrow> t < 60000"
proof -
  have "trim ''open_pr'' = ''open_pr''" by (rule trim_fix) (simp add: is_ws_def)
  then have "policyFor (or_policies None) (trim ''open_pr'') ScopePerRepo = open_pr_per_repo"
    by (simp add: policyFor_def or_policies_def DEFAULT_WRITE_RATE_LIMIT_POLICIES_def ownValue_def
        open_pr_per_repo_def)
  then show ?thesis by (simp add: call_ok_def sample_write_def open_pr_per_repo_values)
qed

theorem gate_run_bounded_witness:
  "length (filter (\<lambda>(i, ok). write_key i = write_key (sample_write 0) \<and> ok)
      (zip (map sample_write [1, 2, 3, 4, 5]) (mealy_outputs (gate_next (\<lambda>_. NaN) Inr)
        (\<lparr>st_global = [], st_perRepo = [(write_key (sample_write 0), emptyBucket (Fin 0))]\<rparr>, [])
        (map sample_write [1, 2, 3, 4, 5])))) \<le> 3"
proof -
  let ?w = "map sample_write [1, 2, 3, 4, 5]"
  let ?s = "\<lparr>st_global = [], st_perRepo = [(write_key (sample_write 0), emptyBucket (Fin 0))]\<rparr>"
  have e: "start_of (emptyBucket (Fin 0)) = 0" "limit_of open_pr_per_repo - used_of (emptyBucket (Fin 0)) = 3"
    by (simp_all add: emptyBucket_def start_of_def used_of_def open_pr_per_repo_values)
  have calls: "\<forall>i \<in> set ?w. write_key i = write_key (sample_write 0) \<longrightarrow>
      call_ok open_pr_per_repo (start_of (emptyBucket (Fin 0))) i"
    by (simp add: e sample_write_ok)
  have bucket: "map_of (st_perRepo ?s) (write_key (sample_write 0)) = Some (emptyBucket (Fin 0))" by simp
  have window: "window_of open_pr_per_repo \<le> 2 ^ 53" by (simp add: open_pr_per_repo_values)
  show ?thesis
    using gate_run_bounded[OF bucket open_pr_per_repo_values(3) window calls] unfolding e(2) .
qed

text \<open>The chokepoint keeps the kill-switch contract.\<close>

interpretation cp: kill_gate "\<lambda>i. gd_allowed (evaluateGovernorChokepoint pd i)"
  "\<lambda>i. resolveMinerKillSwitch (in_killSwitchGlobal i) (in_killSwitchRepoPaused i)" for pd
  by unfold_locales (auto simp: evaluateGovernorChokepoint_allowed_iff ladder_def kill_scope_active)

end
