(* ===== verification/Plan_Dag.thy ===== *)
theory Plan_Dag
  imports Js_Base "HOL-Library.Multiset"
begin

text \<open>
  The multi-step plan of the miner: the step state machine (\<open>packages/loopover-engine/src/plan-dag.ts\<close>), the
  readiness and status queries (\<open>plan-step-readiness.ts\<close>, \<open>plan-overall-status.ts\<close>, \<open>plan-blocked.ts\<close> and the
  one-function modules beside them), the dependency-ordered Markdown rendering (\<open>plan-export.ts\<close>) and the
  lifecycle templates (\<open>plan-templates.ts\<close>). The depth-first search for cycles carries a fuel bounded by the
  number of steps; the lemmas show it is never used up.
\<close>

section \<open>Plans and their states\<close>

datatype PlanStepStatus = SPending | SRunning | SCompleted | SFailed | SSkipped

record PlanStep =
  ps_id :: string
  ps_title :: string
  ps_actionClass :: "string option"
  ps_dependsOn :: "string list"
  ps_status :: PlanStepStatus
  ps_attempts :: jsnum
  ps_maxAttempts :: jsnum
  ps_lastError :: "string option"

record PlanDag =
  pd_steps :: "PlanStep list"

datatype PlanOverallStatus = OPending | ORunning | OCompleted | OFailed | OBlocked

record PlanProgress =
  pp_total :: nat
  pp_completed :: nat
  pp_failed :: nat
  pp_running :: nat
  pp_pending :: nat
  pp_skipped :: nat
  pp_status :: PlanOverallStatus

text \<open>The raw step shape; \<open>codingAgentMode\<close> is kept as its text.\<close>

record RawPlanStep =
  rs_id :: string
  rs_title :: string
  rs_actionClass :: "string option"
  rs_dependsOn :: "string list option"
  rs_maxAttempts :: "jsnum option"
  rs_codingAgentMode :: "string option"

definition DEFAULT_MAX_ATTEMPTS :: jsnum where
  "DEFAULT_MAX_ATTEMPTS = Fin 1"

text \<open>\<open>[...new Set(xs)]\<close>: the first occurrence of each element, in order.\<close>

definition set_order :: "'a list \<Rightarrow> 'a list" where
  "set_order xs = rev (remdups (rev xs))"

definition buildStep :: "RawPlanStep \<Rightarrow> PlanStep" where
  "buildStep step =
     \<lparr>ps_id = rs_id step, ps_title = rs_title step, ps_actionClass = rs_actionClass step,
      ps_dependsOn = set_order (filter (\<lambda>dep. dep \<noteq> rs_id step) (or_default (rs_dependsOn step) [])),
      ps_status = SPending, ps_attempts = Fin 0,
      ps_maxAttempts = math_min (Fin 10) (math_max (Fin 1)
        (math_trunc (or_default (rs_maxAttempts step) DEFAULT_MAX_ATTEMPTS))),
      ps_lastError = None\<rparr>"

definition buildPlanDag :: "RawPlanStep list \<Rightarrow> PlanDag" where
  "buildPlanDag steps = \<lparr>pd_steps = map buildStep steps\<rparr>"


section \<open>Validation\<close>

type_synonym step_index = "string \<Rightarrow> PlanStep option"

text \<open>\<open>new Map(steps.map(step => [step.id, step]))\<close>: the last step of an id wins.\<close>

definition byId :: "PlanDag \<Rightarrow> step_index" where
  "byId plan = map_of (rev (map (\<lambda>s. (ps_id s, s)) (pd_steps plan)))"

definition deps_of :: "step_index \<Rightarrow> string \<Rightarrow> string list" where
  "deps_of idx i = (case idx i of None \<Rightarrow> [] | Some s \<Rightarrow> ps_dependsOn s)"

text \<open>Colours: 0 unvisited, 1 on the current path, 2 finished.\<close>

function hasCycle :: "step_index \<Rightarrow> nat \<Rightarrow> (string \<Rightarrow> nat) \<Rightarrow> string \<Rightarrow> (string \<Rightarrow> nat) \<times> bool"
  and depLoop :: "step_index \<Rightarrow> nat \<Rightarrow> (string \<Rightarrow> nat) \<Rightarrow> string list \<Rightarrow> (string \<Rightarrow> nat) \<times> bool" where
  "hasCycle idx 0 color i = (color, False)"
| "hasCycle idx (Suc fuel) color i =
     (case depLoop idx fuel (color(i := 1)) (deps_of idx i) of
        (c, found) \<Rightarrow> if found then (c, True) else (c(i := 2), False))"
| "depLoop idx fuel color [] = (color, False)"
| "depLoop idx fuel color (dep # deps) =
     (if color dep = 1 then (color, True)
      else if color dep = 0 \<and> idx dep \<noteq> None then
        (case hasCycle idx fuel color dep of
           (c, found) \<Rightarrow> if found then (c, True) else depLoop idx fuel c deps)
      else depLoop idx fuel color deps)"
  by pat_completeness auto
termination
  by (relation "measures [\<lambda>x. case x of Inl (idx, f, c, i) \<Rightarrow> f | Inr (idx, f, c, ds) \<Rightarrow> f,
        \<lambda>x. case x of Inl y \<Rightarrow> 0 | Inr (idx, f, c, ds) \<Rightarrow> Suc (length ds)]") auto

fun cycleScan :: "step_index \<Rightarrow> nat \<Rightarrow> (string \<Rightarrow> nat) \<Rightarrow> PlanStep list \<Rightarrow> bool" where
  "cycleScan idx fuel color [] = False"
| "cycleScan idx fuel color (step # steps) =
     (if color (ps_id step) = 0 then
        (case hasCycle idx fuel color (ps_id step) of
           (c, found) \<Rightarrow> if found then True else cycleScan idx fuel c steps)
      else cycleScan idx fuel color steps)"

definition validatePlanDag :: "PlanDag \<Rightarrow> bool \<times> string list" where
  "validatePlanDag plan =
     (let ids = map ps_id (pd_steps plan);
          errors =
            (if length (remdups ids) \<noteq> length ids then [''duplicate step ids''] else []) @
            concat (map (\<lambda>step.
              map (\<lambda>dep. ''step '' @ ps_id step @ '' depends on unknown step '' @ dep)
                (filter (\<lambda>dep. dep \<notin> set ids) (ps_dependsOn step))) (pd_steps plan)) @
            (if cycleScan (byId plan) (length (pd_steps plan)) (\<lambda>_. 0) (pd_steps plan)
             then [''plan has a dependency cycle''] else [])
      in (errors = [], errors))"


section \<open>Advancing a plan\<close>

definition isDone :: "PlanStepStatus \<Rightarrow> bool" where
  "isDone status \<longleftrightarrow> status = SCompleted \<or> status = SSkipped"

definition statusById :: "PlanDag \<Rightarrow> string \<Rightarrow> PlanStepStatus" where
  "statusById plan i = (case byId plan i of None \<Rightarrow> SPending | Some s \<Rightarrow> ps_status s)"

definition nextReadySteps :: "PlanDag \<Rightarrow> PlanStep list" where
  "nextReadySteps plan =
     filter (\<lambda>step. ps_status step = SPending \<and>
       list_all (\<lambda>dep. isDone (statusById plan dep)) (ps_dependsOn step)) (pd_steps plan)"

definition mapStep :: "PlanDag \<Rightarrow> string \<Rightarrow> (PlanStep \<Rightarrow> PlanStep) \<Rightarrow> PlanDag" where
  "mapStep plan stepId update =
     \<lparr>pd_steps = map (\<lambda>step. if ps_id step = stepId then update step else step) (pd_steps plan)\<rparr>"

definition markStepRunning :: "PlanDag \<Rightarrow> string \<Rightarrow> PlanDag" where
  "markStepRunning plan stepId =
     mapStep plan stepId (\<lambda>step. if ps_status step = SPending then step\<lparr>ps_status := SRunning\<rparr> else step)"

datatype StepOutcome = OutCompleted | OutFailed | OutSkipped

definition advance :: "StepOutcome \<Rightarrow> string option \<Rightarrow> PlanStep \<Rightarrow> PlanStep" where
  "advance outcome error step =
     (if isDone (ps_status step) \<or> ps_status step = SFailed then step
      else if outcome = OutCompleted then step\<lparr>ps_status := SCompleted, ps_lastError := None\<rparr>
      else if outcome = OutSkipped then step\<lparr>ps_status := SSkipped, ps_lastError := None\<rparr>
      else
        let attempts = num_add (ps_attempts step) (Fin 1);
            exhausted = num_ge attempts (ps_maxAttempts step)
        in step\<lparr>ps_attempts := attempts, ps_status := (if exhausted then SFailed else SPending),
                ps_lastError := Some (or_default error ''step failed'')\<rparr>)"

definition applyStepResult :: "PlanDag \<Rightarrow> string \<Rightarrow> StepOutcome \<Rightarrow> string option \<Rightarrow> PlanDag" where
  "applyStepResult plan stepId outcome error = mapStep plan stepId (advance outcome error)"

definition countStatus :: "PlanDag \<Rightarrow> PlanStepStatus \<Rightarrow> nat" where
  "countStatus plan status = length (filter (\<lambda>step. ps_status step = status) (pd_steps plan))"

definition planProgress :: "PlanDag \<Rightarrow> PlanProgress" where
  "planProgress plan =
     (let completed = countStatus plan SCompleted; skipped = countStatus plan SSkipped;
          failed = countStatus plan SFailed; running = countStatus plan SRunning;
          pending = countStatus plan SPending; total = length (pd_steps plan);
          status = (if total > 0 \<and> completed + skipped = total then OCompleted
                    else if failed > 0 then OFailed
                    else if running > 0 then ORunning
                    else if pending > 0 \<and> length (nextReadySteps plan) = 0 then OBlocked
                    else OPending)
      in \<lparr>pp_total = total, pp_completed = completed, pp_failed = failed, pp_running = running,
          pp_pending = pending, pp_skipped = skipped, pp_status = status\<rparr>)"


section \<open>Status queries\<close>

definition resolvePlanOverallStatus :: "PlanDag \<Rightarrow> PlanOverallStatus" where
  "resolvePlanOverallStatus plan =
     (let steps = pd_steps plan;
          total = length steps;
          completed = length (filter (\<lambda>step. ps_status step = SCompleted) steps);
          skipped = length (filter (\<lambda>step. ps_status step = SSkipped) steps);
          failed = length (filter (\<lambda>step. ps_status step = SFailed) steps);
          running = length (filter (\<lambda>step. ps_status step = SRunning) steps);
          pending = length (filter (\<lambda>step. ps_status step = SPending) steps)
      in if total > 0 \<and> completed + skipped = total then OCompleted
         else if failed > 0 then OFailed
         else if running > 0 then ORunning
         else if pending > 0 \<and> length (nextReadySteps plan) = 0 then OBlocked
         else OPending)"

definition isPlanBlocked :: "PlanDag \<Rightarrow> bool" where
  "isPlanBlocked plan =
     (let steps = pd_steps plan; total = length steps;
          completed = length (filter (\<lambda>step. ps_status step = SCompleted) steps);
          skipped = length (filter (\<lambda>step. ps_status step = SSkipped) steps)
      in if total = 0 then False
         else if completed + skipped = total then False
         else if list_ex (\<lambda>step. ps_status step = SFailed) steps then False
         else if list_ex (\<lambda>step. ps_status step = SRunning) steps then False
         else list_ex (\<lambda>step. ps_status step = SPending) steps \<and> length (nextReadySteps plan) = 0)"

definition hasPlanCompletedSteps :: "PlanDag \<Rightarrow> bool" where
  "hasPlanCompletedSteps plan = list_ex (\<lambda>step. ps_status step = SCompleted) (pd_steps plan)"

definition isPlanFullyCompleted :: "PlanDag \<Rightarrow> bool" where
  "isPlanFullyCompleted plan \<longleftrightarrow>
     length (pd_steps plan) > 0 \<and> list_all (\<lambda>step. ps_status step = SCompleted) (pd_steps plan)"

definition isPlanEmpty :: "PlanDag \<Rightarrow> bool" where
  "isPlanEmpty plan \<longleftrightarrow> length (pd_steps plan) = 0"

definition hasPlanFailedSteps :: "PlanDag \<Rightarrow> bool" where
  "hasPlanFailedSteps plan = list_ex (\<lambda>step. ps_status step = SFailed) (pd_steps plan)"

definition hasPlanPendingSteps :: "PlanDag \<Rightarrow> bool" where
  "hasPlanPendingSteps plan = list_ex (\<lambda>step. ps_status step = SPending) (pd_steps plan)"

definition isPlanProgressComplete :: "PlanDag \<Rightarrow> bool" where
  "isPlanProgressComplete plan =
     (if length (pd_steps plan) = 0 then False
      else list_all (\<lambda>step. ps_status step = SCompleted \<or> ps_status step = SSkipped) (pd_steps plan))"

definition hasPlanReadySteps :: "PlanDag \<Rightarrow> bool" where
  "hasPlanReadySteps plan \<longleftrightarrow> length (nextReadySteps plan) > 0"

definition hasPlanRunningSteps :: "PlanDag \<Rightarrow> bool" where
  "hasPlanRunningSteps plan = list_ex (\<lambda>step. ps_status step = SRunning) (pd_steps plan)"

definition hasPlanSkippedSteps :: "PlanDag \<Rightarrow> bool" where
  "hasPlanSkippedSteps plan = list_ex (\<lambda>step. ps_status step = SSkipped) (pd_steps plan)"

definition countPlanSteps :: "PlanDag \<Rightarrow> nat" where
  "countPlanSteps plan = length (pd_steps plan)"

definition countPlanStepsByStatus :: "PlanDag \<Rightarrow> PlanStepStatus \<Rightarrow> nat" where
  "countPlanStepsByStatus plan status = length (filter (\<lambda>step. ps_status step = status) (pd_steps plan))"

definition isPlanTerminated :: "PlanDag \<Rightarrow> bool" where
  "isPlanTerminated plan \<longleftrightarrow> hasPlanFailedSteps plan \<or> isPlanProgressComplete plan"


section \<open>Rendering\<close>

text \<open>One pass over the remaining steps: the steps emitted in it, in order, and the steps left.\<close>

fun orderPass :: "string list \<Rightarrow> PlanStep list \<Rightarrow> PlanStep list \<times> PlanStep list" where
  "orderPass emitted [] = ([], [])"
| "orderPass emitted (step # rest) =
     (if list_all (\<lambda>dep. dep \<in> set emitted) (ps_dependsOn step) then
        (case orderPass (ps_id step # emitted) rest of (done, left) \<Rightarrow> (step # done, left))
      else
        (case orderPass emitted rest of (done, left) \<Rightarrow> (done, step # left)))"

lemma orderPass_length: "orderPass e xs = (out, left) \<Longrightarrow> length out + length left = length xs"
  by (induction e xs arbitrary: out left rule: orderPass.induct) (auto split: if_splits prod.splits)

text \<open>Passes repeat while they emit something; what is left then goes last.\<close>

function orderLoop :: "string list \<Rightarrow> PlanStep list \<Rightarrow> PlanStep list" where
  "orderLoop emitted remaining =
     (case orderPass emitted remaining of
        (out, left) \<Rightarrow>
          if out = [] then left
          else out @ orderLoop (rev (map ps_id out) @ emitted) left)"
  by pat_completeness auto
termination
  by (relation "measure (\<lambda>(e, xs). length xs)") (auto dest!: orderPass_length[OF sym] simp: neq_Nil_conv)

declare orderLoop.simps [simp del]

definition orderByDependency :: "PlanStep list \<Rightarrow> PlanStep list" where
  "orderByDependency steps = orderLoop [] steps"

text \<open>A run of line breaks becomes one blank; then every Markdown control character gets a backslash.\<close>

definition is_crlf :: "char \<Rightarrow> bool" where
  "is_crlf c \<longleftrightarrow> c = CHR 0x0D \<or> c = CHR 0x0A"

fun collapse :: "(char \<Rightarrow> bool) \<Rightarrow> string \<Rightarrow> string" where
  "collapse P [] = []"
| "collapse P [c] = (if P c then '' '' else [c])"
| "collapse P (c # d # cs) =
     (if P c then (if P d then collapse P (d # cs) else CHR '' '' # collapse P (d # cs))
      else c # collapse P (d # cs))"

definition is_markdown :: "char \<Rightarrow> bool" where
  "is_markdown c \<longleftrightarrow> c \<in> {CHR 0x5C, CHR 0x60, CHR ''*'', CHR ''_'', CHR ''['', CHR '']'', CHR ''<'',
     CHR ''>'', CHR ''|'', CHR ''~''}"

definition displaySafe :: "string \<Rightarrow> string" where
  "displaySafe text =
     concat (map (\<lambda>c. if is_markdown c then [CHR 0x5C, c] else [c]) (collapse is_crlf text))"

fun stepStatus_name :: "PlanStepStatus \<Rightarrow> string" where
  "stepStatus_name SPending = ''pending''"
| "stepStatus_name SRunning = ''running''"
| "stepStatus_name SCompleted = ''completed''"
| "stepStatus_name SFailed = ''failed''"
| "stepStatus_name SSkipped = ''skipped''"

definition markdownLine :: "PlanStep \<Rightarrow> msg" where
  "markdownLine step =
     (let box = (if ps_status step = SCompleted then ''[x]'' else ''[ ]'') in
      lit (''- '' @ box @ '' '' @ displaySafe (ps_title step) @ '' '' @ em_dash @ '' ''
           @ stepStatus_name (ps_status step)) @
      (if num_lt (Fin 0) (ps_attempts step)
       then [Lit '' (attempt '', NumV (ps_attempts step), Lit ''/'', NumV (ps_maxAttempts step), Lit '')'']
       else []) @
      (case ps_lastError step of None \<Rightarrow> []
       | Some e \<Rightarrow> if e = [] then [] else lit ('': '' @ displaySafe e)))"

definition renderPlanAsMarkdown :: "PlanDag \<Rightarrow> msg" where
  "renderPlanAsMarkdown plan =
     (let ordered = orderByDependency (pd_steps plan) in
      if length ordered = 0 then lit ''_No steps in this plan._''
      else text_join [CHR 0x0A] (map markdownLine ordered))"


section \<open>Templates\<close>

datatype PlanTemplateStage = Discover | Analyze | Create | Manage | Plan | Prepare

record PlanTemplateContext =
  tc_subject :: "string option"
  tc_codingAgentMode :: "string option"

definition MAX_TITLE_CHARS :: nat where
  "MAX_TITLE_CHARS = 300"

definition MAX_SUBJECT_CHARS :: nat where
  "MAX_SUBJECT_CHARS = 200"

definition normalizeSubject :: "string option \<Rightarrow> string" where
  "normalizeSubject subject = take MAX_SUBJECT_CHARS (trim (collapse is_ws (or_default subject [])))"

definition titleFor :: "string \<Rightarrow> string \<Rightarrow> string" where
  "titleFor prefix subject =
     (let full = (if subject \<noteq> [] then prefix @ '': '' @ subject else prefix) in take MAX_TITLE_CHARS full)"

definition rawStep :: "string \<Rightarrow> string \<Rightarrow> string \<Rightarrow> string list \<Rightarrow> rat \<Rightarrow> RawPlanStep" where
  "rawStep i title actionClass dependsOn maxAttempts =
     \<lparr>rs_id = i, rs_title = title, rs_actionClass = Some actionClass, rs_dependsOn = Some dependsOn,
      rs_maxAttempts = Some (Fin maxAttempts), rs_codingAgentMode = None\<rparr>"

definition discoverPlanTemplate :: "PlanTemplateContext \<Rightarrow> RawPlanStep list" where
  "discoverPlanTemplate context =
     (let subject = normalizeSubject (tc_subject context) in
      [rawStep ''opportunity-rank'' (titleFor ''Rank candidate opportunities'' subject) ''discover'' [] 2,
       rawStep ''lane-fit-check'' (titleFor ''Validate miner goal lane fit'' subject) ''analyze'' [''opportunity-rank''] 1,
       rawStep ''pre-start-check'' (titleFor ''Run pre-start check'' subject) ''analyze'' [''lane-fit-check''] 2])"

definition analyzePlanTemplate :: "PlanTemplateContext \<Rightarrow> RawPlanStep list" where
  "analyzePlanTemplate context =
     (let subject = normalizeSubject (tc_subject context) in
      [rawStep ''feasibility-check'' (titleFor ''Assess feasibility'' subject) ''analyze'' [] 1,
       rawStep ''rag-retrieval'' (titleFor ''Retrieve repository context'' subject) ''retrieve'' [] 3,
       rawStep ''prompt-packet'' (titleFor ''Build prompt packet'' subject) ''compose''
         [''feasibility-check'', ''rag-retrieval''] 2])"

definition planPlanTemplate :: "PlanTemplateContext \<Rightarrow> RawPlanStep list" where
  "planPlanTemplate context =
     (let subject = normalizeSubject (tc_subject context) in
      [rawStep ''packet-validate'' (titleFor ''Validate prompt packet'' subject) ''analyze'' [] 1,
       rawStep ''plan-dag-build'' (titleFor ''Build execution plan DAG'' subject) ''compose'' [''packet-validate''] 2,
       rawStep ''readiness-check'' (titleFor ''Run plan readiness check'' subject) ''analyze'' [''plan-dag-build''] 1])"

definition preparePlanTemplate :: "PlanTemplateContext \<Rightarrow> RawPlanStep list" where
  "preparePlanTemplate context =
     (let subject = normalizeSubject (tc_subject context);
          codingAgentStep = (rawStep ''coding-agent'' (titleFor ''Invoke coding agent'' subject) ''codegen''
            [''branch-create''] 1)\<lparr>rs_codingAgentMode := tc_codingAgentMode context\<rparr>
      in [rawStep ''branch-create'' (titleFor ''Create working branch'' subject) ''vcs'' [] 3,
          codingAgentStep,
          rawStep ''local-test'' (titleFor ''Run local tests'' subject) ''test'' [''coding-agent''] 2])"

definition createPlanTemplate :: "PlanTemplateContext \<Rightarrow> RawPlanStep list" where
  "createPlanTemplate context =
     (let subject = normalizeSubject (tc_subject context) in
      [rawStep ''commit-changes'' (titleFor ''Commit working tree changes'' subject) ''vcs'' [] 2,
       rawStep ''push-branch'' (titleFor ''Push feature branch'' subject) ''vcs'' [''commit-changes''] 3,
       rawStep ''open-pull-request'' (titleFor ''Open pull request'' subject) ''github'' [''push-branch''] 2])"

definition managePlanTemplate :: "PlanTemplateContext \<Rightarrow> RawPlanStep list" where
  "managePlanTemplate context =
     (let subject = normalizeSubject (tc_subject context) in
      [rawStep ''wait-ci'' (titleFor ''Wait for CI completion'' subject) ''test'' [] 5,
       rawStep ''read-gate-result'' (titleFor ''Read gate verdict'' subject) ''analyze'' [''wait-ci''] 2,
       rawStep ''sync-fork'' (titleFor ''Sync fork default branch'' subject) ''vcs'' [''read-gate-result''] 3])"

fun buildPlanTemplate :: "PlanTemplateStage \<Rightarrow> PlanTemplateContext \<Rightarrow> RawPlanStep list" where
  "buildPlanTemplate Discover context = discoverPlanTemplate context"
| "buildPlanTemplate Analyze context = analyzePlanTemplate context"
| "buildPlanTemplate Create context = createPlanTemplate context"
| "buildPlanTemplate Manage context = managePlanTemplate context"
| "buildPlanTemplate Plan context = planPlanTemplate context"
| "buildPlanTemplate Prepare context = preparePlanTemplate context"


section \<open>Cycle detection\<close>

definition edges :: "step_index \<Rightarrow> (string \<times> string) set" where
  "edges idx = {(n, d). d \<in> set (deps_of idx n) \<and> idx n \<noteq> None \<and> idx d \<noteq> None}"

text \<open>What holds of the finished (colour 2) nodes: their dependencies are finished, and none is on a cycle.\<close>

definition finished_ok :: "step_index \<Rightarrow> (string \<Rightarrow> nat) \<Rightarrow> bool" where
  "finished_ok idx c \<longleftrightarrow>
     (\<forall>n d. c n = 2 \<and> (n, d) \<in> edges idx \<longrightarrow> c d = 2) \<and> (\<forall>n. c n = 2 \<longrightarrow> (n, n) \<notin> (edges idx)\<^sup>+)"

definition white :: "step_index \<Rightarrow> (string \<Rightarrow> nat) \<Rightarrow> string set" where
  "white idx c = {n. idx n \<noteq> None \<and> c n = 0}"

text \<open>The search keeps the path: finished nodes stay finished, and the nodes on the path are the same afterwards.\<close>

definition searched :: "step_index \<Rightarrow> (string \<Rightarrow> nat) \<Rightarrow> (string \<Rightarrow> nat) \<Rightarrow> bool" where
  "searched idx c c' \<longleftrightarrow> finished_ok idx c' \<and> (\<forall>n. c n = 2 \<longrightarrow> c' n = 2) \<and> (\<forall>n. c' n = 1 \<longleftrightarrow> c n = 1) \<and>
     (\<forall>n. c' n \<le> 2) \<and> (\<forall>n. c n \<noteq> 0 \<longrightarrow> c' n \<noteq> 0)"

lemma colour_two: "c \<le> 2 \<Longrightarrow> c \<noteq> 0 \<Longrightarrow> c \<noteq> 1 \<Longrightarrow> c = (2::nat)"
  by linarith

lemma searched_refl: "finished_ok idx c \<Longrightarrow> (\<forall>n. c n \<le> 2) \<Longrightarrow> searched idx c c"
  by (simp add: searched_def)

lemma searched_trans: "searched idx c c' \<Longrightarrow> searched idx c' c'' \<Longrightarrow> searched idx c c''"
  by (auto simp: searched_def)

lemma searched_white: "searched idx c c' \<Longrightarrow> white idx c' \<subseteq> white idx c"
  unfolding searched_def white_def by auto

lemma finished_closed:
  assumes "finished_ok idx c" "c n = 2" "(n, d) \<in> (edges idx)\<^sup>+"
  shows "c d = 2"
  using assms(3,2) by (induction rule: trancl_induct) (use assms(1) in \<open>auto simp: finished_ok_def\<close>)

text \<open>What the calls may assume.\<close>

definition on_path :: "step_index \<Rightarrow> (string \<Rightarrow> nat) \<Rightarrow> string \<Rightarrow> bool" where
  "on_path idx c i \<longleftrightarrow> (\<forall>g. c g = 1 \<longrightarrow> idx g \<noteq> None \<and> (g, i) \<in> (edges idx)\<^sup>*)"

lemma finish_node:
  assumes c: "finished_ok idx c" "\<forall>n. c n \<le> 2" "c i = 0"
    and s: "searched idx (c(i := 1)) c'" and d: "\<forall>d \<in> set (deps_of idx i). idx d \<noteq> None \<longrightarrow> c' d = 2"
  shows "searched idx c (c'(i := 2))"
proof -
  have c': "finished_ok idx c'" "c' i = 1" using s by (auto simp: searched_def)
  have closed: "(c'(i := 2)) m = 2" if "(c'(i := 2)) n = 2" "(n, m) \<in> edges idx" for n m
    using that c'(1) d by (auto simp: finished_ok_def edges_def split: if_splits)
  have "(i, i) \<notin> (edges idx)\<^sup>+"
  proof
    assume "(i, i) \<in> (edges idx)\<^sup>+"
    then obtain m where m: "(i, m) \<in> edges idx" "m = i \<or> (m, i) \<in> (edges idx)\<^sup>+"
      by (metis tranclD rtranclD)
    then have "c' m = 2" using d by (auto simp: edges_def)
    with m(2) c' show False using finished_closed[OF c'(1)] by fastforce
  qed
  with c'(1) have acyc: "(n, n) \<notin> (edges idx)\<^sup>+" if "(c'(i := 2)) n = 2" for n
    using that by (auto simp: finished_ok_def split: if_splits)
  have "finished_ok idx (c'(i := 2))" unfolding finished_ok_def using closed acyc by blast
  then show ?thesis using s c by (auto simp: searched_def)
qed

lemma search_correct:
  "finite (dom idx) \<Longrightarrow> finished_ok idx c \<Longrightarrow> (\<forall>n. c n \<le> 2) \<Longrightarrow> idx i \<noteq> None \<Longrightarrow> c i = 0 \<Longrightarrow>
     on_path idx (c(i := 1)) i \<Longrightarrow> card (white idx c) \<le> fuel \<Longrightarrow> hasCycle idx fuel c i = (c', found) \<Longrightarrow>
     (if found then \<exists>n. (n, n) \<in> (edges idx)\<^sup>+ else searched idx c c' \<and> c' i = 2)"
  "finite (dom idx) \<Longrightarrow> finished_ok idx c \<Longrightarrow> (\<forall>n. c n \<le> 2) \<Longrightarrow> idx j \<noteq> None \<Longrightarrow> c j = 1 \<Longrightarrow>
     on_path idx c j \<Longrightarrow> card (white idx c) \<le> fuel \<Longrightarrow> set ds \<subseteq> set (deps_of idx j) \<Longrightarrow>
     depLoop idx fuel c ds = (c', found) \<Longrightarrow>
     (if found then \<exists>n. (n, n) \<in> (edges idx)\<^sup>+
      else searched idx c c' \<and> (\<forall>d \<in> set ds. idx d \<noteq> None \<longrightarrow> c' d = 2))"
proof (induction idx fuel c i and idx fuel c ds arbitrary: c' found and j c' found rule: hasCycle_depLoop.induct)
  case (1 idx c i)
  have "finite (white idx c)" using 1(1) by (rule finite_subset[rotated]) (auto simp: white_def)
  moreover have "i \<in> white idx c" using 1 by (simp add: white_def)
  ultimately show ?case using 1 by (auto simp: card_eq_0_iff)
next
  case (2 idx fuel c i)
  obtain c1 f1 where r: "depLoop idx fuel (c(i := 1)) (deps_of idx i) = (c1, f1)" by fastforce
  have fin: "finite (white idx c)" using 2(2) by (rule finite_subset[rotated]) (auto simp: white_def)
  have wh: "white idx (c(i := 1)) = white idx c - {i}" by (auto simp: white_def)
  have "i \<in> white idx c" using 2 by (simp add: white_def)
  then have w: "card (white idx (c(i := 1))) \<le> fuel" unfolding wh using 2(8) fin by simp
  have ok: "finished_ok idx (c(i := 1))" using 2(3,6) by (auto simp: finished_ok_def)
  have le: "\<forall>n. (c(i := 1)) n \<le> 2" using 2(4) by simp
  have IH: "if f1 then \<exists>n. (n, n) \<in> (edges idx)\<^sup>+
      else searched idx (c(i := 1)) c1 \<and> (\<forall>d \<in> set (deps_of idx i). idx d \<noteq> None \<longrightarrow> c1 d = 2)"
    by (rule 2(1)[OF 2(2) ok le 2(5) fun_upd_same 2(7) w subset_refl r])
  show ?case
  proof (cases f1)
    case True
    then show ?thesis using IH 2(9) r by auto
  next
    case False
    then have "searched idx c (c1(i := 2))" using IH finish_node[OF 2(3,4,6)] by simp
    then show ?thesis using False 2(9) r by auto
  qed
next
  case (3 idx fuel c)
  then show ?case by (auto intro: searched_refl)
next
  case (4 idx fuel c dep deps)
  have edge: "(j, dep) \<in> edges idx" if "idx dep \<noteq> None"
    using that 4(7,11) by (auto simp: edges_def)
  show ?case
  proof (cases "c dep = 1")
    case True
    then have "idx dep \<noteq> None" "(dep, j) \<in> (edges idx)\<^sup>*" using 4(9) by (auto simp: on_path_def)
    then have "(j, j) \<in> (edges idx)\<^sup>+" using edge by (meson rtrancl_into_trancl2)
    then show ?thesis using True 4(12) by auto
  next
    case ng: False
    show ?thesis
    proof (cases "c dep = 0 \<and> idx dep \<noteq> None")
      case True
      obtain c1 f1 where r: "hasCycle idx fuel c dep = (c1, f1)" by fastforce
      have path: "on_path idx (c(dep := 1)) dep"
        using 4(9) edge True by (auto simp: on_path_def intro: rtrancl_into_rtrancl)
      have IH: "if f1 then \<exists>n. (n, n) \<in> (edges idx)\<^sup>+ else searched idx c c1 \<and> c1 dep = 2"
        by (rule 4(1)[OF ng True 4(4,5,6) conjunct2[OF True] conjunct1[OF True] path 4(10) r])
      show ?thesis
      proof (cases f1)
        case f: True
        then show ?thesis using IH True ng r 4(12) by auto
      next
        case f: False
        then have s: "searched idx c c1" "c1 dep = 2" using IH by auto
        have w: "card (white idx c1) \<le> fuel"
          using 4(10) card_mono[OF _ searched_white[OF s(1)]] finite_subset[OF _ 4(4), of "white idx c"]
          by (fastforce simp: white_def)
        have rest: "depLoop idx fuel c1 deps = (c', found)" using 4(12) True ng r f by simp
        have p: "on_path idx c1 j" "c1 j = 1" "finished_ok idx c1" "\<forall>n. c1 n \<le> 2"
          using s(1) 4(8,9) by (auto simp: on_path_def searched_def)
        have "if found then \<exists>n. (n, n) \<in> (edges idx)\<^sup>+
          else searched idx c1 c' \<and> (\<forall>d \<in> set deps. idx d \<noteq> None \<longrightarrow> c' d = 2)"
          using 4(2)[OF ng True r[symmetric] _ 4(4) p(3,4) 4(7) p(2,1) w _ rest] f 4(11) by simp
        then show ?thesis using s searched_trans by (auto simp: searched_def split: if_splits)
      qed
    next
      case False
      have rest: "depLoop idx fuel c deps = (c', found)" using 4(12) False ng by auto
      have "if found then \<exists>n. (n, n) \<in> (edges idx)\<^sup>+
          else searched idx c c' \<and> (\<forall>d \<in> set deps. idx d \<noteq> None \<longrightarrow> c' d = 2)"
        using 4(3)[OF ng False 4(4-10) _ rest] 4(11) by simp
      moreover have "c dep = 2" if "idx dep \<noteq> None"
        using that False ng 4(6) by (intro colour_two) auto
      ultimately show ?thesis by (auto simp: searched_def split: if_splits)
    qed
  qed
qed

lemma cycleScan_correct:
  assumes "finite (dom idx)" "finished_ok idx c" "\<forall>n. c n \<le> 2" "\<forall>n. c n \<noteq> 1" "ps_id ` set steps \<subseteq> dom idx"
    and "card (white idx c) \<le> fuel"
  shows "if cycleScan idx fuel c steps then \<exists>n. (n, n) \<in> (edges idx)\<^sup>+
    else \<exists>c'. searched idx c c' \<and> (\<forall>s \<in> set steps. c' (ps_id s) = 2)"
  using assms
proof (induction steps arbitrary: c)
  case Nil
  then show ?case by (auto intro: searched_refl)
next
  case (Cons s steps)
  show ?case
  proof (cases "c (ps_id s) = 0")
    case True
    obtain c1 f where r: "hasCycle idx fuel c (ps_id s) = (c1, f)" by fastforce
    have i: "idx (ps_id s) \<noteq> None" using Cons.prems(5) by auto
    have path: "on_path idx (c(ps_id s := 1)) (ps_id s)" using Cons.prems(4) i by (auto simp: on_path_def)
    have res: "if f then \<exists>n. (n, n) \<in> (edges idx)\<^sup>+ else searched idx c c1 \<and> c1 (ps_id s) = 2"
      by (rule search_correct(1)[OF Cons.prems(1,2,3) i True path Cons.prems(6) r])
    show ?thesis
    proof (cases f)
      case False
      then have s1: "searched idx c c1" "c1 (ps_id s) = 2" using res by auto
      have w: "card (white idx c1) \<le> fuel"
        using Cons.prems(6) card_mono[OF _ searched_white[OF s1(1)]]
          finite_subset[OF _ Cons.prems(1), of "white idx c"] by (fastforce simp: white_def)
      have "if cycleScan idx fuel c1 steps then \<exists>n. (n, n) \<in> (edges idx)\<^sup>+
          else \<exists>c'. searched idx c1 c' \<and> (\<forall>s \<in> set steps. c' (ps_id s) = 2)"
        using s1(1) Cons.prems w by (intro Cons.IH) (auto simp: searched_def)
      then show ?thesis using True False r s1 searched_trans[OF s1(1)]
        by (auto simp: searched_def split: if_splits)
    qed (use True r res in simp)
  next
    case False
    then have two: "c (ps_id s) = 2" using Cons.prems(3,4) by (intro colour_two) auto
    have "if cycleScan idx fuel c steps then \<exists>n. (n, n) \<in> (edges idx)\<^sup>+
          else \<exists>c'. searched idx c c' \<and> (\<forall>s \<in> set steps. c' (ps_id s) = 2)"
      using Cons.prems by (intro Cons.IH) auto
    then show ?thesis using False two by (auto simp: searched_def split: if_splits)
  qed
qed

lemma dom_byId: "dom (byId p) = ps_id ` set (pd_steps p)"
  by (auto simp: byId_def dom_map_of_conv_image_fst image_image)

lemma byId_mem: "byId p i = Some s \<Longrightarrow> s \<in> set (pd_steps p) \<and> ps_id s = i"
  by (auto simp: byId_def dest!: map_of_SomeD)

lemma byId_unique:
  "distinct (map ps_id (pd_steps p)) \<Longrightarrow> s \<in> set (pd_steps p) \<Longrightarrow> byId p (ps_id s) = Some s"
  unfolding byId_def by (rule map_of_is_SomeI) (auto simp: comp_def simp flip: rev_map)

definition plan_edges :: "PlanDag \<Rightarrow> (string \<times> string) set" where
  "plan_edges p = edges (byId p)"

lemma cycleScan_iff:
  "cycleScan (byId p) (length (pd_steps p)) (\<lambda>_. 0) (pd_steps p) \<longleftrightarrow> \<not> acyclic (plan_edges p)"
proof -
  let ?idx = "byId p"
  have fin: "finite (dom ?idx)" by (simp add: dom_byId)
  have "card (white ?idx (\<lambda>_. 0)) \<le> length (pd_steps p)"
  proof -
    have "white ?idx (\<lambda>_. 0) = set (map ps_id (pd_steps p))"
      using dom_byId[of p] by (auto simp: white_def)
    then show ?thesis by (metis card_length length_map)
  qed
  then have r: "if cycleScan ?idx (length (pd_steps p)) (\<lambda>_. 0) (pd_steps p) then \<exists>n. (n, n) \<in> (edges ?idx)\<^sup>+
      else \<exists>c'. searched ?idx (\<lambda>_. 0) c' \<and> (\<forall>s \<in> set (pd_steps p). c' (ps_id s) = 2)"
    using fin by (intro cycleScan_correct) (auto simp: finished_ok_def dom_byId)
  have "acyclic (edges ?idx)" if c': "searched ?idx (\<lambda>_. 0) c'" "\<forall>s \<in> set (pd_steps p). c' (ps_id s) = 2" for c'
    unfolding acyclic_def
  proof (intro allI notI)
    fix n assume n: "(n, n) \<in> (edges ?idx)\<^sup>+"
    then have "n \<in> dom ?idx" by (metis (mono_tags, lifting) case_prodD domIff edges_def mem_Collect_eq tranclD)
    then have "c' n = 2" using c'(2) by (auto simp: dom_byId)
    with c'(1) n show False by (simp add: searched_def finished_ok_def)
  qed
  with r show ?thesis by (auto simp: plan_edges_def acyclic_def split: if_splits)
qed

lemma validatePlanDag_valid:
  "fst (validatePlanDag p) \<longleftrightarrow> distinct (map ps_id (pd_steps p)) \<and>
     (\<forall>s \<in> set (pd_steps p). set (ps_dependsOn s) \<subseteq> ps_id ` set (pd_steps p)) \<and> acyclic (plan_edges p)"
proof -
  have "length (remdups xs) = length xs \<longleftrightarrow> distinct xs" for xs :: "string list"
    by (simp add: length_remdups_card_conv) (metis card_distinct distinct_card)
  then show ?thesis
    unfolding validatePlanDag_def Let_def cycleScan_iff
    by (auto simp: filter_empty_conv simp del: length_map)
qed

text \<open>C12: the validator accepts a plan exactly when its step ids are unique, every dependency names a step of the plan, and
  the dependency graph is acyclic; it then reports no error.\<close>

theorem validatePlanDag_iff:
  "fst (validatePlanDag p) =
     (distinct (map ps_id (pd_steps p)) \<and>
      list_all (\<lambda>s. list_all (\<lambda>d. d \<in> set (map ps_id (pd_steps p))) (ps_dependsOn s)) (pd_steps p) \<and>
      acyclic {(ps_id s, d) | s d. byId p (ps_id s) = Some s \<and> d \<in> set (ps_dependsOn s) \<and> byId p d \<noteq> None}) \<and>
   fst (validatePlanDag p) = (snd (validatePlanDag p) = [])"
proof -
  have "plan_edges p =
      {(ps_id s, d) | s d. byId p (ps_id s) = Some s \<and> d \<in> set (ps_dependsOn s) \<and> byId p d \<noteq> None}"
  proof (intro set_eqI iffI)
    fix e assume "e \<in> plan_edges p"
    then obtain n d s where "e = (n, d)" "byId p n = Some s" "d \<in> set (ps_dependsOn s)" "byId p d \<noteq> None"
      by (auto simp: plan_edges_def edges_def deps_of_def split: option.splits)
    moreover from this have "ps_id s = n" using byId_mem by blast
    ultimately show "e \<in> {(ps_id s, d) | s d. byId p (ps_id s) = Some s \<and> d \<in> set (ps_dependsOn s) \<and> byId p d \<noteq> None}"
      by blast
  qed (auto simp: plan_edges_def edges_def deps_of_def)
  moreover have "fst (validatePlanDag p) = (snd (validatePlanDag p) = [])"
    by (simp add: validatePlanDag_def Let_def)
  ultimately show ?thesis unfolding validatePlanDag_valid by (auto simp: list_all_iff)
qed



section \<open>Status queries agree\<close>

lemma count_zero: "length (filter P xs) > 0 \<longleftrightarrow> list_ex P xs"
  by (auto simp: list_ex_iff filter_empty_conv)

lemma all_done:
  "length (filter (\<lambda>s. ps_status s = SCompleted) xs) + length (filter (\<lambda>s. ps_status s = SSkipped) xs) = length xs
    \<longleftrightarrow> list_all (\<lambda>s. isDone (ps_status s)) xs"
proof -
  have "length (filter (\<lambda>s. ps_status s = SCompleted) xs) + length (filter (\<lambda>s. ps_status s = SSkipped) xs) =
      length (filter (\<lambda>s. isDone (ps_status s)) xs)"
    by (induction xs) (auto simp: isDone_def)
  then show ?thesis by (metis list_all_iff filter_id_conv length_filter_less linorder_neq_iff filter_True)
qed

lemma resolvePlanOverallStatus_eq:
  "resolvePlanOverallStatus p =
     (if pd_steps p \<noteq> [] \<and> list_all (\<lambda>s. isDone (ps_status s)) (pd_steps p) then OCompleted
      else if list_ex (\<lambda>s. ps_status s = SFailed) (pd_steps p) then OFailed
      else if list_ex (\<lambda>s. ps_status s = SRunning) (pd_steps p) then ORunning
      else if list_ex (\<lambda>s. ps_status s = SPending) (pd_steps p) \<and> nextReadySteps p = [] then OBlocked
      else OPending)"
  unfolding resolvePlanOverallStatus_def Let_def all_done count_zero by simp

text \<open>the independently written status queries agree: the progress report's status is the resolved overall status,
  a plan is blocked exactly when that status is blocked, terminated exactly when it is completed or failed, and
  complete exactly when it is completed.\<close>

theorem plan_status_queries_agree:
  "pp_status (planProgress p) = resolvePlanOverallStatus p \<and>
   isPlanBlocked p = (resolvePlanOverallStatus p = OBlocked) \<and>
   isPlanTerminated p = (resolvePlanOverallStatus p \<in> {OCompleted, OFailed}) \<and>
   isPlanProgressComplete p = (resolvePlanOverallStatus p = OCompleted)"
proof -
  have prog: "isPlanProgressComplete p \<longleftrightarrow> pd_steps p \<noteq> [] \<and> list_all (\<lambda>s. isDone (ps_status s)) (pd_steps p)"
    by (simp add: isPlanProgressComplete_def isDone_def)
  have "pp_status (planProgress p) = resolvePlanOverallStatus p"
    by (simp add: planProgress_def resolvePlanOverallStatus_def countStatus_def Let_def)
  moreover have "isPlanBlocked p = (resolvePlanOverallStatus p = OBlocked)"
    unfolding resolvePlanOverallStatus_eq isPlanBlocked_def Let_def all_done by simp
  moreover have "isPlanTerminated p = (resolvePlanOverallStatus p \<in> {OCompleted, OFailed})"
    unfolding resolvePlanOverallStatus_eq isPlanTerminated_def hasPlanFailedSteps_def prog by simp
  moreover have "isPlanProgressComplete p = (resolvePlanOverallStatus p = OCompleted)"
    unfolding resolvePlanOverallStatus_eq prog by simp
  ultimately show ?thesis by blast
qed


section \<open>A valid plan does not deadlock\<close>

lemma plan_edges_minimal:
  assumes "acyclic (plan_edges p)" "A \<noteq> {}"
  obtains a where "a \<in> A" "\<forall>d. (a, d) \<in> plan_edges p \<longrightarrow> d \<notin> A"
proof -
  have "plan_edges p \<subseteq> dom (byId p) \<times> dom (byId p)" by (auto simp: plan_edges_def edges_def)
  then have "finite (plan_edges p)" by (rule finite_subset) (simp add: dom_byId)
  then have "wf ((plan_edges p)\<inverse>)" using assms(1) by (rule finite_acyclic_wf_converse)
  with assms(2) that show thesis unfolding wf_eq_minimal by (metis converse_iff ex_in_conv)
qed

lemma statusById_unique:
  "distinct (map ps_id (pd_steps p)) \<Longrightarrow> s \<in> set (pd_steps p) \<Longrightarrow> statusById p (ps_id s) = ps_status s"
  by (simp add: statusById_def byId_unique)

lemma valid_plan_ready:
  assumes "fst (validatePlanDag p)" "list_ex (\<lambda>s. ps_status s = SPending) (pd_steps p)"
    and "\<not> list_ex (\<lambda>s. ps_status s = SFailed) (pd_steps p)" "\<not> list_ex (\<lambda>s. ps_status s = SRunning) (pd_steps p)"
  shows "nextReadySteps p \<noteq> []"
proof -
  have d: "distinct (map ps_id (pd_steps p))" and ac: "acyclic (plan_edges p)"
    and known: "\<And>s. s \<in> set (pd_steps p) \<Longrightarrow> set (ps_dependsOn s) \<subseteq> ps_id ` set (pd_steps p)"
    using assms(1) by (auto simp: validatePlanDag_valid)
  let ?A = "ps_id ` {s \<in> set (pd_steps p). ps_status s = SPending}"
  have "?A \<noteq> {}" using assms(2) by (auto simp: list_ex_iff)
  with ac obtain a where a: "a \<in> ?A" "\<forall>d. (a, d) \<in> plan_edges p \<longrightarrow> d \<notin> ?A" by (rule plan_edges_minimal)
  from a(1) obtain s where s: "s \<in> set (pd_steps p)" "ps_status s = SPending" "a = ps_id s" by auto
  have "isDone (statusById p dep)" if dep: "dep \<in> set (ps_dependsOn s)" for dep
  proof -
    from known[OF s(1)] dep obtain t where t: "t \<in> set (pd_steps p)" "dep = ps_id t" by auto
    have "(a, dep) \<in> plan_edges p"
      using s t dep byId_unique[OF d s(1)] byId_unique[OF d t(1)] by (simp add: plan_edges_def edges_def deps_of_def)
    then have "ps_status t \<noteq> SPending" using a(2) t by auto
    moreover have "ps_status t \<noteq> SFailed" "ps_status t \<noteq> SRunning" using assms(3,4) t(1) by (auto simp: list_ex_iff)
    ultimately show ?thesis using statusById_unique[OF d t(1)] t(2) by (cases "ps_status t") (auto simp: isDone_def)
  qed
  with s have "s \<in> set (nextReadySteps p)" by (simp add: nextReadySteps_def list_all_iff)
  then show ?thesis by auto
qed

text \<open>a plan the validator accepts never deadlocks: whatever its steps have been through, it is not blocked, so while
  nothing failed or runs and something is pending some step is ready.\<close>

theorem valid_plan_never_blocked:
  assumes "fst (validatePlanDag p)"
  shows "\<not> isPlanBlocked p \<and> resolvePlanOverallStatus p \<noteq> OBlocked"
  using valid_plan_ready[OF assms] unfolding resolvePlanOverallStatus_eq isPlanBlocked_def Let_def by auto

definition sample_plan :: PlanDag where
  "sample_plan = buildPlanDag [rawStep ''a'' ''A'' ''x'' [] 2, rawStep ''b'' ''B'' ''x'' [''a''] 1]"

theorem valid_plan_never_blocked_witness: "\<not> isPlanBlocked sample_plan"
proof -
  have "fst (validatePlanDag sample_plan)" by code_simp
  then show ?thesis using valid_plan_never_blocked by blast
qed



section \<open>The life of a plan\<close>

text \<open>The attempt ceiling a finite \<open>maxAttempts\<close> is clamped to.\<close>

definition attempts_of :: "rat \<Rightarrow> nat" where
  "attempts_of q = min 10 (max 1 (nat \<lfloor>q\<rfloor>))"

lemma clamp_attempts: "math_min (Fin 10) (math_max (Fin 1) (math_trunc (Fin q))) = num_of_nat (attempts_of q)"
proof (cases "q < 0")
  case True
  then have "\<lceil>q\<rceil> \<le> 0" by (simp add: ceiling_le_iff)
  then have "rat_of_int \<lceil>q\<rceil> \<le> 0" by (simp only: of_int_le_0_iff)
  then have "max 1 (rat_of_int \<lceil>q\<rceil>) = 1" by (intro max_absorb1) simp
  moreover have "nat \<lfloor>q\<rfloor> = 0" using True by simp
  ultimately show ?thesis using True by (simp add: attempts_of_def)
next
  case False
  then have "rat_of_nat (nat \<lfloor>q\<rfloor>) = of_int \<lfloor>q\<rfloor>" by (simp add: of_nat_nat)
  moreover have "rat_of_nat (attempts_of q) = min 10 (max 1 (rat_of_nat (nat \<lfloor>q\<rfloor>)))"
    by (simp add: attempts_of_def of_nat_min of_nat_max)
  ultimately show ?thesis using False by simp
qed

lemma attempts_of_range: "1 \<le> attempts_of q" "attempts_of q \<le> 10"
  by (simp_all add: attempts_of_def)

lemma num_add_nat_one: "a \<le> 10 \<Longrightarrow> num_add (num_of_nat a) (Fin 1) = num_of_nat (Suc a)"
proof -
  assume "a \<le> 10"
  then have "rat_of_nat a \<le> 10" by (metis of_nat_le_iff of_nat_numeral)
  then have "\<bar>rat_of_nat a + 1\<bar> \<le> 10 ^ 30" by simp
  from num_of_rat_small[OF this] show ?thesis by (simp add: add.commute)
qed

text \<open>A step whose counters are in order: open with attempts left, or closed with at most the allowed attempts.\<close>

definition step_ok :: "nat \<Rightarrow> nat \<Rightarrow> PlanStep \<Rightarrow> bool" where
  "step_ok a m s \<longleftrightarrow> ps_attempts s = num_of_nat a \<and> ps_maxAttempts s = num_of_nat m \<and> m \<le> 10 \<and>
     (if ps_status s \<in> {SPending, SRunning} then a < m else if ps_status s = SFailed then a = m else a \<le> m)"

lemma advance_step_ok:
  assumes "step_ok a m s"
  shows "step_ok (if ps_status s \<in> {SPending, SRunning} \<and> out = OutFailed then Suc a else a) m (advance out e s)"
proof -
  have a: "a \<le> 10" using assms by (auto simp: step_ok_def split: if_splits)
  show ?thesis
    using assms num_add_nat_one[OF a]
    by (cases "ps_status s"; cases out)
      (auto simp: step_ok_def advance_def isDone_def Let_def simp del: of_nat_Suc num_add.simps)
qed

text \<open>retries are bounded exactly: a step built with a finite \<open>maxAttempts\<close> of \<open>q\<close> allows \<open>attempts_of q\<close> attempts (between 1
  and 10); after \<open>n\<close> failure reports it is still pending while \<open>n\<close> is below that number and failed from then on,
  and its attempt counter is the smaller of the two.\<close>

theorem retries_exhaust:
  "let m = attempts_of q;
       s = (advance OutFailed e ^^ n) (buildStep (r\<lparr>rs_maxAttempts := Some (Fin q)\<rparr>))
   in 1 \<le> m \<and> m \<le> 10 \<and> ps_status s = (if n < m then SPending else SFailed) \<and>
      ps_attempts s = num_of_nat (min n m) \<and> ps_maxAttempts s = num_of_nat m"
proof -
  let ?m = "attempts_of q"
  let ?s0 = "buildStep (r\<lparr>rs_maxAttempts := Some (Fin q)\<rparr>)"
  have "ps_status ((advance OutFailed e ^^ n) ?s0) = (if n < ?m then SPending else SFailed) \<and>
      ps_attempts ((advance OutFailed e ^^ n) ?s0) = num_of_nat (min n ?m) \<and>
      ps_maxAttempts ((advance OutFailed e ^^ n) ?s0) = num_of_nat ?m"
  proof (induction n)
    case 0
    then show ?case using attempts_of_range[of q] by (simp add: buildStep_def clamp_attempts del: math_trunc.simps)
  next
    case (Suc n)
    have "n < ?m \<Longrightarrow> n \<le> 10" using attempts_of_range[of q] by simp
    then show ?case using Suc num_add_nat_one[of n]
      by (auto simp: advance_def isDone_def Let_def min_def simp del: of_nat_Suc num_add.simps)
  qed
  then show ?thesis using attempts_of_range[of q] by (simp add: Let_def)
qed

text \<open>a NaN \<open>maxAttempts\<close> is not clamped: the built step carries NaN, and however many failures are reported it goes
  back to pending and never fails.\<close>

theorem nan_maxAttempts_never_exhausts:
  "let s = (advance OutFailed e ^^ n) (buildStep (r\<lparr>rs_maxAttempts := Some NaN\<rparr>))
   in ps_maxAttempts s = NaN \<and> ps_status s = SPending"
proof -
  have "ps_maxAttempts ((advance OutFailed e ^^ n) (buildStep (r\<lparr>rs_maxAttempts := Some NaN\<rparr>))) = NaN \<and>
      ps_status ((advance OutFailed e ^^ n) (buildStep (r\<lparr>rs_maxAttempts := Some NaN\<rparr>))) = SPending"
  proof (induction n)
    case (Suc n)
    moreover have "\<not> num_le NaN x" for x by (cases x) auto
    ultimately show ?case by (auto simp: advance_def isDone_def Let_def)
  qed (simp add: buildStep_def)
  then show ?thesis by (simp add: Let_def)
qed

text \<open>One turn of the harness: a ready step is started and its result reported.\<close>

inductive plan_turn :: "PlanDag \<Rightarrow> PlanDag \<Rightarrow> bool" where
  turn: "s \<in> set (nextReadySteps p) \<Longrightarrow>
    plan_turn p (applyStepResult (markStepRunning p (ps_id s)) (ps_id s) out e)"

inductive_cases plan_turnE: "plan_turn p p'"

definition plan_ok :: "PlanDag \<Rightarrow> bool" where
  "plan_ok p \<longleftrightarrow> fst (validatePlanDag p) \<and> (\<forall>s \<in> set (pd_steps p). \<exists>a m. step_ok a m s) \<and>
     \<not> list_ex (\<lambda>s. ps_status s = SRunning) (pd_steps p)"

text \<open>The attempts a plan has left.\<close>

definition step_left :: "PlanStep \<Rightarrow> nat" where
  "step_left s = (if ps_status s \<in> {SPending, SRunning}
     then (case (ps_attempts s, ps_maxAttempts s) of (Fin a, Fin m) \<Rightarrow> nat \<lfloor>m - a\<rfloor> | _ \<Rightarrow> 0) else 0)"

definition plan_left :: "PlanDag \<Rightarrow> nat" where
  "plan_left p = (\<Sum>s\<leftarrow>pd_steps p. step_left s)"

lemma step_left_ok: "step_ok a m s \<Longrightarrow> step_left s = (if ps_status s \<in> {SPending, SRunning} then m - a else 0)"
proof -
  have "nat \<lfloor>rat_of_nat m - rat_of_nat a\<rfloor> = m - a" if "a < m"
    using that by (simp flip: of_nat_diff)
  then show "step_ok a m s \<Longrightarrow> step_left s = (if ps_status s \<in> {SPending, SRunning} then m - a else 0)"
    by (auto simp: step_left_def step_ok_def split: if_splits)
qed

definition run_step :: "StepOutcome \<Rightarrow> string option \<Rightarrow> PlanStep \<Rightarrow> PlanStep" where
  "run_step out e s = advance out e (if ps_status s = SPending then s\<lparr>ps_status := SRunning\<rparr> else s)"

lemma turn_mapStep:
  "applyStepResult (markStepRunning p i) i out e = mapStep p i (run_step out e)"
  by (simp add: applyStepResult_def markStepRunning_def mapStep_def run_step_def comp_def if_distrib cong: if_cong)

lemma run_step_keeps [simp]:
  "ps_id (run_step out e s) = ps_id s" "ps_dependsOn (run_step out e s) = ps_dependsOn s"
  by (simp_all add: run_step_def advance_def Let_def)

lemma run_step_ok:
  assumes "step_ok a m s"
  obtains a' where "step_ok a' m (run_step out e s)" "ps_status (run_step out e s) \<noteq> SRunning"
    "ps_status s = SPending \<Longrightarrow> step_left (run_step out e s) < step_left s"
    "step_left (run_step out e s) \<le> step_left s"
proof -
  let ?t = "if ps_status s = SPending then s\<lparr>ps_status := SRunning\<rparr> else s"
  have t: "step_ok a m ?t" using assms by (auto simp: step_ok_def)
  define a' where "a' = (if ps_status ?t \<in> {SPending, SRunning} \<and> out = OutFailed then Suc a else a)"
  have ok: "step_ok a' m (run_step out e s)"
    unfolding run_step_def a'_def using advance_step_ok[OF t] .
  have st: "ps_status (run_step out e s) \<noteq> SRunning"
    by (cases "ps_status s"; cases out) (auto simp: run_step_def advance_def isDone_def Let_def)
  have le: "a < m" if "ps_status s \<in> {SPending, SRunning}" using that assms by (auto simp: step_ok_def)
  have open': "ps_status (run_step out e s) \<in> {SPending, SRunning} \<Longrightarrow> out = OutFailed \<and> ps_status s \<in> {SPending, SRunning}"
    by (cases "ps_status s"; cases out) (auto simp: run_step_def advance_def isDone_def Let_def)
  have "step_left (run_step out e s) < step_left s" if "ps_status s \<in> {SPending, SRunning}"
    using le[OF that] open' that unfolding step_left_ok[OF ok] step_left_ok[OF assms] by (auto simp: a'_def)
  moreover have "step_left (run_step out e s) = 0" if "ps_status s \<notin> {SPending, SRunning}"
    using that open' unfolding step_left_ok[OF ok] by auto
  ultimately show thesis using that[OF ok st] by (metis insertI1 le0 less_imp_le)
qed

lemma byId_mapStep:
  assumes "\<And>s. ps_id (f s) = ps_id s"
  shows "byId (mapStep p i f) j = map_option (\<lambda>s. if ps_id s = i then f s else s) (byId p j)"
proof -
  let ?g = "\<lambda>s. if ps_id s = i then f s else s"
  have "rev (map (\<lambda>s. (ps_id s, s)) (pd_steps (mapStep p i f))) =
      map (\<lambda>(k, s). (k, ?g s)) (rev (map (\<lambda>s. (ps_id s, s)) (pd_steps p)))"
    using assms by (simp add: mapStep_def rev_map comp_def)
  then show ?thesis unfolding byId_def by (simp only: map_of_map) (simp add: comp_def)
qed

lemma validate_mapStep:
  assumes "\<And>s. ps_id (f s) = ps_id s" "\<And>s. ps_dependsOn (f s) = ps_dependsOn s"
  shows "fst (validatePlanDag (mapStep p i f)) = fst (validatePlanDag p)"
proof -
  have ids: "map ps_id (pd_steps (mapStep p i f)) = map ps_id (pd_steps p)"
    using assms(1) by (simp add: mapStep_def comp_def)
  have "deps_of (byId (mapStep p i f)) n = deps_of (byId p) n" for n
    using assms(2) by (simp add: deps_of_def byId_mapStep[OF assms(1)] split: option.split)
  then have "plan_edges (mapStep p i f) = plan_edges p"
    by (simp add: plan_edges_def edges_def byId_mapStep[OF assms(1)])
  moreover have "map ps_dependsOn (pd_steps (mapStep p i f)) = map ps_dependsOn (pd_steps p)"
    using assms(2) by (simp add: mapStep_def comp_def)
  then have "ps_dependsOn ` set (pd_steps (mapStep p i f)) = ps_dependsOn ` set (pd_steps p)"
    by (metis image_set)
  then have "(\<forall>s \<in> set (pd_steps (mapStep p i f)). set (ps_dependsOn s) \<subseteq> B) \<longleftrightarrow>
      (\<forall>s \<in> set (pd_steps p). set (ps_dependsOn s) \<subseteq> B)" for B
    by (metis (no_types, lifting) imageE image_eqI)
  ultimately show ?thesis unfolding validatePlanDag_valid ids using ids by (metis image_set)
qed

lemma plan_turn_ok:
  assumes "plan_turn p p'" "plan_ok p"
  shows "plan_ok p'" "plan_left p' < plan_left p" "length (pd_steps p') = length (pd_steps p)"
proof -
  from assms(1) obtain s out e where s: "s \<in> set (nextReadySteps p)"
    and p': "p' = mapStep p (ps_id s) (run_step out e)"
    by (elim plan_turnE) (simp add: turn_mapStep)
  have mem: "s \<in> set (pd_steps p)" "ps_status s = SPending" using s by (auto simp: nextReadySteps_def)
  have steps: "pd_steps p' = map (\<lambda>t. if ps_id t = ps_id s then run_step out e t else t) (pd_steps p)"
    by (simp add: p' mapStep_def)
  have ok: "\<exists>a m. step_ok a m t" if "t \<in> set (pd_steps p)" for t using assms(2) that by (simp add: plan_ok_def)
  have run: "\<exists>a m. step_ok a m (run_step out e t)" "ps_status (run_step out e t) \<noteq> SRunning"
    "step_left (run_step out e t) \<le> step_left t"
    "ps_status t = SPending \<Longrightarrow> step_left (run_step out e t) < step_left t" if "t \<in> set (pd_steps p)" for t
    using ok[OF that] run_step_ok by (metis, metis, metis, metis)
  show "length (pd_steps p') = length (pd_steps p)" by (simp add: steps)
  show "plan_ok p'"
    using assms(2) run(1,2) ok unfolding plan_ok_def steps
    by (auto simp: p' validate_mapStep list_ex_iff)
  show "plan_left p' < plan_left p"
    unfolding plan_left_def steps map_map comp_def
    by (rule sum_list_less[of _ _ _ s]) (use mem run(3,4) in auto)
qed

lemma plan_turns_ok:
  "(plan_turn ^^ n) p p' \<Longrightarrow> plan_ok p \<Longrightarrow> plan_ok p' \<and> n + plan_left p' \<le> plan_left p \<and>
     length (pd_steps p') = length (pd_steps p)"
proof (induction n arbitrary: p')
  case (Suc n)
  then obtain p1 where "(plan_turn ^^ n) p p1" "plan_turn p1 p'" by auto
  with Suc plan_turn_ok[of p1 p'] show ?case by fastforce
qed auto

lemma plan_ok_turn:
  assumes "plan_ok p" "\<not> isPlanTerminated p" "pd_steps p \<noteq> []"
  shows "\<exists>p'. plan_turn p p'"
proof -
  have nf: "\<not> list_ex (\<lambda>s. ps_status s = SFailed) (pd_steps p)"
    and nd: "\<not> list_all (\<lambda>s. isDone (ps_status s)) (pd_steps p)"
    and nr: "\<not> list_ex (\<lambda>s. ps_status s = SRunning) (pd_steps p)"
    using assms by (auto simp: isPlanTerminated_def hasPlanFailedSteps_def isPlanProgressComplete_def isDone_def plan_ok_def)
  then obtain s where "s \<in> set (pd_steps p)" "\<not> isDone (ps_status s)" by (auto simp: list_all_iff)
  moreover from this nf nr have "ps_status s = SPending"
    by (cases "ps_status s") (auto simp: list_ex_iff isDone_def)
  ultimately have "nextReadySteps p \<noteq> []"
    using assms(1) nf nr by (intro valid_plan_ready) (auto simp: plan_ok_def list_ex_iff)
  then obtain t where "t \<in> set (nextReadySteps p)" by (cases "nextReadySteps p") auto
  from turn[OF this] show ?thesis by blast
qed

lemma buildPlanDag_ok:
  assumes "fst (validatePlanDag (buildPlanDag raw))" "\<forall>r \<in> set raw. rs_maxAttempts r \<noteq> Some NaN"
  shows "plan_ok (buildPlanDag raw)"
    "\<exists>ms. map ps_maxAttempts (pd_steps (buildPlanDag raw)) = map num_of_nat ms \<and> set ms \<subseteq> {1..10} \<and>
       plan_left (buildPlanDag raw) = sum_list ms"
proof -
  have ok: "\<exists>m. m \<in> {1..10} \<and> step_ok 0 m (buildStep r)" if "r \<in> set raw" for r
  proof -
    have "\<exists>m \<ge> 1. m \<le> 10 \<and> ps_maxAttempts (buildStep r) = num_of_nat m"
    proof (cases "or_default (rs_maxAttempts r) DEFAULT_MAX_ATTEMPTS")
      case (Fin q)
      then show ?thesis using attempts_of_range[of q]
        by (intro exI[of _ "attempts_of q"]) (simp add: buildStep_def clamp_attempts del: math_trunc.simps)
    next
      case PInf
      then show ?thesis by (intro exI[of _ 10]) (simp add: buildStep_def math_max.simps math_min.simps)
    next
      case NInf
      then show ?thesis by (intro exI[of _ 1]) (simp add: buildStep_def math_max.simps math_min.simps)
    next
      case NaN
      then show ?thesis using assms(2) that by (cases "rs_maxAttempts r") (auto simp: DEFAULT_MAX_ATTEMPTS_def)
    qed
    then obtain m where "1 \<le> m" "m \<le> 10" "ps_maxAttempts (buildStep r) = num_of_nat m" by blast
    then show ?thesis by (intro exI[of _ m]) (simp add: step_ok_def buildStep_def)
  qed
  then show "plan_ok (buildPlanDag raw)"
    using assms(1) by (fastforce simp: plan_ok_def buildPlanDag_def list_ex_iff buildStep_def)
  obtain m where m: "\<And>r. r \<in> set raw \<Longrightarrow> m r \<in> {1..10} \<and> step_ok 0 (m r) (buildStep r)" using ok by metis
  have "ps_maxAttempts (buildStep r) = num_of_nat (m r)" "step_left (buildStep r) = m r" if "r \<in> set raw" for r
    using m[OF that] by (simp_all add: step_ok_def step_left_ok[of 0 "m r"]) (simp add: buildStep_def)
  then show "\<exists>ms. map ps_maxAttempts (pd_steps (buildPlanDag raw)) = map num_of_nat ms \<and> set ms \<subseteq> {1..10} \<and>
       plan_left (buildPlanDag raw) = sum_list ms"
    using m by (intro exI[of _ "map m raw"])
      (auto simp: plan_left_def buildPlanDag_def comp_def intro!: arg_cong[where f = sum_list])
qed

text \<open>C22: every run of a valid plan ends. Take a built plan with at least one step that validates and none of whose steps was
  given NaN as \<open>maxAttempts\<close>, and a harness that runs one ready step per turn to its result. Each step then has between one
  and ten attempts, and, whatever the results are, the run takes at most as many turns as the steps have attempts together;
  while the plan is not terminated another turn is possible, and no turn leaves the plan blocked or running.\<close>

theorem plan_runs_to_the_end:
  assumes "fst (validatePlanDag (buildPlanDag raw))" "\<forall>r \<in> set raw. rs_maxAttempts r \<noteq> Some NaN"
    and "(plan_turn ^^ n) (buildPlanDag raw) p" "raw \<noteq> []"
  shows "(\<exists>ms. map ps_maxAttempts (pd_steps (buildPlanDag raw)) = map num_of_nat ms \<and> set ms \<subseteq> {1..10} \<and> n \<le> sum_list ms) \<and>
    (isPlanTerminated p \<or> (\<exists>p'. plan_turn p p')) \<and> resolvePlanOverallStatus p \<in> {OPending, OCompleted, OFailed}"
proof -
  note b = buildPlanDag_ok[OF assms(1,2)]
  have p: "plan_ok p" "n + plan_left p \<le> plan_left (buildPlanDag raw)" "length (pd_steps p) = length raw"
    using plan_turns_ok[OF assms(3) b(1)] by (simp_all add: buildPlanDag_def)
  have "isPlanTerminated p \<or> (\<exists>p'. plan_turn p p')" using plan_ok_turn[OF p(1)] p(3) assms(4) by (metis length_0_conv)
  moreover have "resolvePlanOverallStatus p \<in> {OPending, OCompleted, OFailed}"
    using p(1) valid_plan_ready[of p] by (auto simp: resolvePlanOverallStatus_eq plan_ok_def)
  moreover have "\<exists>ms. map ps_maxAttempts (pd_steps (buildPlanDag raw)) = map num_of_nat ms \<and> set ms \<subseteq> {1..10} \<and> n \<le> sum_list ms"
    using b(2) p(2) by (metis add_leE)
  ultimately show ?thesis by blast
qed

theorem plan_runs_to_the_end_witness:
  "\<exists>p. plan_turn sample_plan p \<and> (isPlanTerminated p \<or> (\<exists>p'. plan_turn p p'))"
proof -
  let ?raw = "[rawStep ''a'' ''A'' ''x'' [] 2, rawStep ''b'' ''B'' ''x'' [''a''] 1]"
  have v: "fst (validatePlanDag (buildPlanDag ?raw))" by code_simp
  have nn: "\<forall>r \<in> set ?raw. rs_maxAttempts r \<noteq> Some NaN" by (simp add: rawStep_def)
  have "\<not> isPlanTerminated sample_plan" by code_simp
  moreover have "plan_ok sample_plan" "pd_steps sample_plan \<noteq> []"
    using buildPlanDag_ok(1)[OF v nn] by (simp_all add: sample_plan_def buildPlanDag_def)
  ultimately obtain p where p: "plan_turn sample_plan p" using plan_ok_turn by blast
  then have "(plan_turn ^^ 1) (buildPlanDag ?raw) p" by (simp add: sample_plan_def eq_OO)
  from plan_runs_to_the_end[OF v nn this] p show ?thesis by auto
qed


section \<open>Rendering order\<close>

lemma orderPass_mset: "orderPass e xs = (out, left) \<Longrightarrow> mset out + mset left = mset xs"
  by (induction e xs arbitrary: out left rule: orderPass.induct) (auto split: if_splits prod.splits)

lemma orderLoop_mset: "mset (orderLoop e xs) = mset xs"
proof (induction e xs rule: orderLoop.induct)
  case (1 e xs)
  obtain out left where o: "orderPass e xs = (out, left)" by fastforce
  note m = orderPass_mset[OF o]
  show ?case
  proof (cases "out = []")
    case True
    then show ?thesis using o m by (subst orderLoop.simps) simp
  next
    case False
    then show ?thesis using 1[OF o[symmetric] False] o m by (subst orderLoop.simps) simp
  qed
qed

text \<open>A list of steps in which every step comes after the steps it depends on.\<close>

fun topological :: "string set \<Rightarrow> PlanStep list \<Rightarrow> bool" where
  "topological seen [] = True"
| "topological seen (s # ss) = (set (ps_dependsOn s) \<subseteq> seen \<and> topological (insert (ps_id s) seen) ss)"

lemma topological_append:
  "topological seen (xs @ ys) \<longleftrightarrow> topological seen xs \<and> topological (ps_id ` set xs \<union> seen) ys"
  by (induction xs arbitrary: seen) auto

lemma orderPass_topological: "orderPass e xs = (out, left) \<Longrightarrow> topological (set e) out"
  by (induction e xs arbitrary: out left rule: orderPass.induct)
    (auto simp: list_all_iff split: if_splits prod.splits)

lemma orderPass_stuck: "orderPass e xs = ([], left) \<Longrightarrow> left = xs \<and> (\<forall>s \<in> set xs. \<not> set (ps_dependsOn s) \<subseteq> set e)"
  by (induction e xs arbitrary: left rule: orderPass.induct)
    (auto simp: list_all_iff split: if_splits prod.splits)

lemma orderLoop_topological:
  assumes "fst (validatePlanDag p)" "set xs \<subseteq> set (pd_steps p)" "ps_id ` set (pd_steps p) \<subseteq> set e \<union> ps_id ` set xs"
  shows "topological (set e) (orderLoop e xs)"
  using assms(2,3)
proof (induction e xs rule: orderLoop.induct)
  case (1 e xs)
  obtain out left where o: "orderPass e xs = (out, left)" by fastforce
  have sets: "set out \<union> set left = set xs" using orderPass_mset[OF o] by (metis set_mset_mset set_mset_union)
  show ?case
  proof (cases "out = []")
    case True
    then have stuck: "left = xs" "\<forall>s \<in> set xs. \<not> set (ps_dependsOn s) \<subseteq> set e" using orderPass_stuck o by blast+
    have "xs = []"
    proof (rule ccontr)
      assume "xs \<noteq> []"
      have d: "distinct (map ps_id (pd_steps p))" and ac: "acyclic (plan_edges p)"
        and known: "\<And>s. s \<in> set (pd_steps p) \<Longrightarrow> set (ps_dependsOn s) \<subseteq> ps_id ` set (pd_steps p)"
        using assms(1) by (auto simp: validatePlanDag_valid)
      from ac obtain a where a: "a \<in> ps_id ` set xs" "\<forall>d. (a, d) \<in> plan_edges p \<longrightarrow> d \<notin> ps_id ` set xs"
        by (rule plan_edges_minimal[where A = "ps_id ` set xs"]) (use \<open>xs \<noteq> []\<close> in auto)
      then obtain s where s: "s \<in> set xs" "a = ps_id s" by auto
      have sp: "s \<in> set (pd_steps p)" using s(1) 1(2) by blast
      have "dep \<in> set e" if dep: "dep \<in> set (ps_dependsOn s)" for dep
      proof -
        from known[OF sp] dep obtain t where t: "t \<in> set (pd_steps p)" "dep = ps_id t" by auto
        have "(a, dep) \<in> plan_edges p"
          using s t dep byId_unique[OF d sp] byId_unique[OF d t(1)]
          by (simp add: plan_edges_def edges_def deps_of_def)
        then show ?thesis using a(2) t 1(3) by blast
      qed
      with stuck(2) s(1) show False by blast
    qed
    then show ?thesis using o True stuck(1) by (subst orderLoop.simps) simp
  next
    case False
    have e': "set (rev (map ps_id out) @ e) = ps_id ` set out \<union> set e" by simp
    have ids: "ps_id ` set xs = ps_id ` set out \<union> ps_id ` set left" using sets by (metis image_Un)
    have "set left \<subseteq> set (pd_steps p)" using 1(2) sets by blast
    moreover have "ps_id ` set (pd_steps p) \<subseteq> set (rev (map ps_id out) @ e) \<union> ps_id ` set left"
      using 1(3) unfolding ids e' by blast
    ultimately have "topological (set (rev (map ps_id out) @ e)) (orderLoop (rev (map ps_id out) @ e) left)"
      by (rule 1(1)[OF o[symmetric] False])
    then show ?thesis
      using orderPass_topological[OF o] o False unfolding e' by (subst orderLoop.simps) (simp add: topological_append)
  qed
qed

text \<open>the rendering order keeps every step exactly once for any plan, and for a plan that validates no step is
  listed before a step it depends on.\<close>

theorem orderByDependency_topological:
  "mset (orderByDependency (pd_steps p)) = mset (pd_steps p) \<and>
   (fst (validatePlanDag p) \<longrightarrow> topological {} (orderByDependency (pd_steps p)))"
  using orderLoop_topological[of p "pd_steps p" "[]"] by (simp add: orderByDependency_def orderLoop_mset)

theorem orderByDependency_topological_witness: "topological {} (orderByDependency (pd_steps sample_plan))"
proof -
  have "fst (validatePlanDag sample_plan)" by code_simp
  then show ?thesis using orderByDependency_topological by blast
qed

lemma collapse_no_sep: "c \<in> set (collapse P s) \<Longrightarrow> P c \<Longrightarrow> c = CHR '' ''"
  by (induction P s rule: collapse.induct) (auto split: if_splits)

lemma displaySafe_one_line: "c \<in> set (displaySafe s) \<Longrightarrow> \<not> is_crlf c"
proof -
  assume "c \<in> set (displaySafe s)"
  then obtain d where d: "d \<in> set (collapse is_crlf s)" and c: "c = d \<or> c = CHR 0x5C"
    by (auto simp: displaySafe_def split: if_splits)
  from d have "\<not> is_crlf d" using collapse_no_sep[of d is_crlf s] by (auto simp: is_crlf_def)
  with c show ?thesis by (auto simp: is_crlf_def)
qed

lemma render_append: "render f (m @ n) = render f m @ render f n"
  by (induction f m rule: render.induct) auto

lemma line_no_break:
  assumes "\<forall>x. CHR 0x0A \<notin> set (show_num x)"
  shows "CHR 0x0A \<notin> set (render show_num (markdownLine s))"
proof -
  have safe: "CHR 0x0A \<notin> set (displaySafe t)" for t using displaySafe_one_line[of "CHR 0x0A" t] by (auto simp: is_crlf_def)
  have name: "CHR 0x0A \<notin> set (stepStatus_name st)" for st by (cases st) simp_all
  show ?thesis using assms safe name
    by (simp add: markdownLine_def Let_def render_append em_dash_def split: option.splits)
qed

lemma split_join:
  assumes "\<forall>m \<in> set ms. CHR 0x0A \<notin> set (render f m)" "ms \<noteq> []"
  shows "split_on (CHR 0x0A) (render f (text_join [CHR 0x0A] ms)) = map (render f) ms"
  using assms
proof (induction ms rule: induct_list012)
  case (3 m n ms)
  then show ?case by (simp add: render_append split_on_append_sep)
qed (simp_all add: split_on_no_sep)

text \<open>the Markdown rendering has one line per step: whatever the titles and error texts hold (line breaks included), the
  rendered plan split at line breaks is the list of the steps' own lines, in dependency order.\<close>

theorem renderPlanAsMarkdown_lines:
  assumes "\<forall>x. CHR 0x0A \<notin> set (show_num x)" "pd_steps p \<noteq> []"
  shows "split_on (CHR 0x0A) (render show_num (renderPlanAsMarkdown p)) =
    map (\<lambda>s. render show_num (markdownLine s)) (orderByDependency (pd_steps p))"
proof -
  have "orderByDependency (pd_steps p) \<noteq> []"
    using orderLoop_mset[of "[]" "pd_steps p"] assms(2) by (auto simp: orderByDependency_def)
  then show ?thesis
    unfolding renderPlanAsMarkdown_def Let_def using line_no_break[OF assms(1)]
    by (subst if_not_P) (simp_all add: split_join comp_def)
qed

theorem renderPlanAsMarkdown_lines_witness:
  "length (split_on (CHR 0x0A) (render (\<lambda>_. ''0'') (renderPlanAsMarkdown sample_plan))) = 2"
proof -
  have "split_on (CHR 0x0A) (render (\<lambda>_. ''0'') (renderPlanAsMarkdown sample_plan)) =
      map (\<lambda>s. render (\<lambda>_. ''0'') (markdownLine s)) (orderByDependency (pd_steps sample_plan))"
    by (rule renderPlanAsMarkdown_lines) (simp_all add: sample_plan_def buildPlanDag_def)
  moreover have "size (mset (orderByDependency (pd_steps sample_plan))) = size (mset (pd_steps sample_plan))"
    by (simp add: orderByDependency_def orderLoop_mset)
  ultimately show ?thesis by (simp add: sample_plan_def buildPlanDag_def)
qed


section \<open>Templates\<close>

lemma listed_in_order_valid:
  assumes "distinct (map ps_id (pd_steps p))" "topological {} (pd_steps p)"
  shows "fst (validatePlanDag p)"
proof -
  define pos where "pos i = length (takeWhile (\<lambda>s. ps_id s \<noteq> i) (pd_steps p))" for i
  have earlier: "d \<in> ps_id ` set (pd_steps p) \<and> pos d < pos (ps_id s)"
    if s: "s \<in> set (pd_steps p)" and d: "d \<in> set (ps_dependsOn s)" for s d
  proof -
    obtain us vs where split: "pd_steps p = us @ s # vs" using s by (meson split_list)
    then have du: "d \<in> ps_id ` set us" using assms(2) d by (auto simp: topological_append)
    then obtain u where u: "u \<in> set us" "ps_id u = d" by auto
    have "pos d = length (takeWhile (\<lambda>s. ps_id s \<noteq> d) us)"
      using u by (simp add: pos_def split takeWhile_append1[of u])
    also have "\<dots> < length us" using u by (induction us) auto
    also have "length us = pos (ps_id s)"
    proof -
      have "\<forall>u \<in> set us. ps_id u \<noteq> ps_id s" using assms(1) by (auto simp: split image_iff)
      then show ?thesis by (simp add: pos_def split takeWhile_append2)
    qed
    finally show ?thesis using du split by auto
  qed
  have "plan_edges p \<subseteq> (measure pos)\<inverse>"
  proof
    fix e assume "e \<in> plan_edges p"
    then obtain n d s where "e = (n, d)" "byId p n = Some s" "d \<in> set (ps_dependsOn s)"
      by (auto simp: plan_edges_def edges_def deps_of_def split: option.splits)
    with earlier byId_mem[of p n s] show "e \<in> (measure pos)\<inverse>" by auto
  qed
  then have "acyclic ((plan_edges p)\<inverse>)"
    by (intro wf_acyclic wf_subset[OF wf_measure[of pos]]) auto
  then have "acyclic (plan_edges p)" by (simp add: acyclic_converse)
  with assms(1) earlier show ?thesis unfolding validatePlanDag_valid by blast
qed

lemma title_bound: "length (titleFor prefix subject) \<le> 300"
  by (simp add: titleFor_def Let_def MAX_TITLE_CHARS_def)

lemmas template_defs = discoverPlanTemplate_def analyzePlanTemplate_def planPlanTemplate_def
  preparePlanTemplate_def createPlanTemplate_def managePlanTemplate_def rawStep_def Let_def

text \<open>every lifecycle template builds a valid plan of three steps for any context, with every title within the 300
  characters the step schema allows.\<close>

theorem templates_valid:
  "fst (validatePlanDag (buildPlanDag (buildPlanTemplate stage ctx))) \<and>
   list_all (\<lambda>r. length (rs_title r) \<le> 300) (buildPlanTemplate stage ctx) \<and>
   length (buildPlanTemplate stage ctx) = 3"
proof (intro conjI)
  show "fst (validatePlanDag (buildPlanDag (buildPlanTemplate stage ctx)))"
    by (rule listed_in_order_valid; cases stage)
      (simp_all add: template_defs buildPlanDag_def buildStep_def set_order_def)
  show "list_all (\<lambda>r. length (rs_title r) \<le> 300) (buildPlanTemplate stage ctx)"
    by (cases stage) (simp_all add: template_defs title_bound)
  show "length (buildPlanTemplate stage ctx) = 3"
    by (cases stage) (simp_all add: template_defs)
qed

end
