(* ===== verification/Coding_Agent.thy ===== *)
theory Coding_Agent
  imports Governor_Signals
begin

text \<open>
  The coding-agent driver boundary, from \<open>packages/loopover-engine/src/miner/\<close>: the execution mode
  (\<open>coding-agent-mode.ts\<close>), the driver contract with its stub (\<open>coding-agent-driver.ts\<close>), the
  mode-gated invocation (\<open>coding-agent-invoke.ts\<close>), the structured attempt log's normaliser and
  in-memory buffer (\<open>attempt-log.ts\<close>), and the usage meter (\<open>attempt-metering.ts\<close>).

  A driver is a parameter: what its n-th \<open>run\<close> returns or throws for a task. A log sink is a
  parameter too: whether its \<open>append\<close> throws on an event. What a run does to the world is explicit:
  \<open>aw_tasks\<close> lists the tasks handed to \<open>driver.run\<close>, \<open>aw_log\<close> the events handed to the sink.
\<close>

section \<open>Definitions: execution mode\<close>

datatype CodingAgentExecutionMode = CmPaused | CmDryRun | CmLive

fun mode_name :: "CodingAgentExecutionMode \<Rightarrow> string" where
  "mode_name CmPaused = ''paused''"
| "mode_name CmDryRun = ''dry_run''"
| "mode_name CmLive = ''live''"

definition isGlobalMinerCodingAgentPause :: "string jstable \<Rightarrow> bool" where
  "isGlobalMinerCodingAgentPause env \<longleftrightarrow>
     toLowerCase (or_default (map_of env ''MINER_CODING_AGENT_PAUSED'') [])
       \<in> {''1'', ''true'', ''yes'', ''on''}"

definition resolveCodingAgentExecutionMode ::
  "bool \<Rightarrow> bool option \<Rightarrow> bool option \<Rightarrow> CodingAgentExecutionMode" where
  "resolveCodingAgentExecutionMode globalPaused agentPaused agentDryRun =
     (if globalPaused \<or> agentPaused = Some True then CmPaused
      else if agentDryRun = Some True then CmDryRun
      else CmLive)"

definition resolveCodingAgentModeFromConfig ::
  "string jstable option \<Rightarrow> bool option \<Rightarrow> bool option \<Rightarrow> CodingAgentExecutionMode" where
  "resolveCodingAgentModeFromConfig env agentPaused agentDryRun =
     resolveCodingAgentExecutionMode (isGlobalMinerCodingAgentPause (or_default env []))
       agentPaused agentDryRun"

definition codingAgentModeExecutes :: "CodingAgentExecutionMode \<Rightarrow> bool" where
  "codingAgentModeExecutes mode \<longleftrightarrow> mode = CmLive"


section \<open>Definitions: driver contract\<close>

text \<open>What a \<open>throw\<close> carries: an \<open>Error\<close> with its message, or another value with its
  \<open>String(value)\<close>.\<close>

datatype thrown = ThrownError string | ThrownOther string

fun thrown_message :: "thrown \<Rightarrow> string" where
  "thrown_message (ThrownError m) = m"
| "thrown_message (ThrownOther s) = s"

record CodingAgentDriverTask =
  tk_attemptId :: string
  tk_workingDirectory :: string
  tk_acceptanceCriteriaPath :: string
  tk_instructions :: string
  tk_maxTurns :: jsnum

record CodingAgentDriverResult =
  dr_ok :: bool
  dr_changedFiles :: "string list"
  dr_summary :: msg
  dr_transcript :: "string option"
  dr_turnsUsed :: "jsnum option"
  dr_costUsd :: "jsnum option"
  dr_tokensUsed :: "jsnum option"
  dr_inputTokens :: "jsnum option"
  dr_outputTokens :: "jsnum option"
  dr_error :: "string option"

type_synonym CodingAgentDriver = "nat \<Rightarrow> CodingAgentDriverTask \<Rightarrow> thrown + CodingAgentDriverResult"

text \<open>A result with only the mandatory fields.\<close>

definition bare_result :: "bool \<Rightarrow> msg \<Rightarrow> CodingAgentDriverResult" where
  "bare_result ok summary =
     \<lparr>dr_ok = ok, dr_changedFiles = [], dr_summary = summary, dr_transcript = None,
      dr_turnsUsed = None, dr_costUsd = None, dr_tokensUsed = None, dr_inputTokens = None,
      dr_outputTokens = None, dr_error = None\<rparr>"

definition createNoopCodingAgentDriver :: CodingAgentDriver where
  "createNoopCodingAgentDriver n task =
     Inr (bare_result True (lit (''noop driver acknowledged '' @ tk_attemptId task))
       \<lparr>dr_turnsUsed := Some (Fin 0)\<rparr>)"


section \<open>Definitions: attempt log\<close>

datatype AttemptLogEventType =
    AttemptStarted | AttemptToolEdit | AttemptShadow | AttemptSucceeded | AttemptFailed
  | AttemptAborted | AttemptOutcomeSummary

definition ATTEMPT_LOG_EVENT_TYPES :: "(string \<times> AttemptLogEventType) list" where
  "ATTEMPT_LOG_EVENT_TYPES =
     [(''attempt_started'', AttemptStarted), (''attempt_tool_edit'', AttemptToolEdit),
      (''attempt_shadow'', AttemptShadow), (''attempt_succeeded'', AttemptSucceeded),
      (''attempt_failed'', AttemptFailed), (''attempt_aborted'', AttemptAborted),
      (''attempt_outcome_summary'', AttemptOutcomeSummary)]"

record AttemptLogEvent =
  ale_eventType :: AttemptLogEventType
  ale_attemptId :: string
  ale_actionClass :: string
  ale_mode :: CodingAgentExecutionMode
  ale_reason :: msg
  ale_payload :: "(string \<times> jsval) list option"
  ale_provider :: "string option"
  ale_costUsd :: "jsnum option"
  ale_tokensUsed :: "jsnum option"

record NormalizedAttemptLogEvent =
  na_eventType :: AttemptLogEventType
  na_attemptId :: string
  na_actionClass :: string
  na_mode :: CodingAgentExecutionMode
  na_reason :: string
  na_payloadJson :: jsval
  na_provider :: "string option"
  na_costUsd :: "jsnum option"
  na_tokensUsed :: "jsnum option"

definition codingAgentModes :: "(string \<times> CodingAgentExecutionMode) list" where
  "codingAgentModes = [(''paused'', CmPaused), (''dry_run'', CmDryRun), (''live'', CmLive)]"

definition normalizeMode :: "jsval \<Rightarrow> string + CodingAgentExecutionMode" where
  "normalizeMode value =
     and_then (normalizeRequiredString value ''invalid_mode'') (\<lambda>mode.
       case map_of codingAgentModes mode of
         None \<Rightarrow> Inl ''invalid_mode''
       | Some m \<Rightarrow> Inr m)"

definition normalizeOptionalString :: "jsval \<Rightarrow> string \<Rightarrow> string + string option" where
  "normalizeOptionalString value code =
     (if value = JUndef then Inr None
      else and_then (normalizeRequiredString value code) (\<lambda>s. Inr (Some s)))"

definition normalizeOptionalNonNegativeNumber :: "jsval \<Rightarrow> string \<Rightarrow> string + jsnum option" where
  "normalizeOptionalNonNegativeNumber value code =
     (case value of
        JUndef \<Rightarrow> Inr None
      | JNum x \<Rightarrow> if \<not> isFinite x \<or> num_lt x (Fin 0) then Inl code else Inr (Some x)
      | _ \<Rightarrow> Inl code)"

definition normalizeAttemptFields ::
  "(string \<times> jsval) list \<Rightarrow> string + NormalizedAttemptLogEvent" where
  "normalizeAttemptFields fs =
     and_then (normalizeRequiredString (field fs ''eventType'') ''invalid_event_type'') (\<lambda>t.
     case map_of ATTEMPT_LOG_EVENT_TYPES t of
       None \<Rightarrow> Inl ''invalid_event_type''
     | Some ty \<Rightarrow>
     and_then (normalizeRequiredString (field fs ''attemptId'') ''invalid_attempt_id'') (\<lambda>aid.
     and_then (normalizeRequiredString (field fs ''actionClass'') ''invalid_action_class'') (\<lambda>cls.
     and_then (normalizeMode (field fs ''mode'')) (\<lambda>mode.
     and_then (normalizeRequiredString (field fs ''reason'') ''invalid_reason'') (\<lambda>rsn.
     and_then (serializePayload (field fs ''payload'')) (\<lambda>json.
     and_then (normalizeOptionalString (field fs ''provider'') ''invalid_provider'') (\<lambda>prov.
     and_then (normalizeOptionalNonNegativeNumber (field fs ''costUsd'') ''invalid_cost_usd'') (\<lambda>cost.
     and_then (normalizeOptionalNonNegativeNumber (field fs ''tokensUsed'') ''invalid_tokens_used'')
       (\<lambda>tok.
     Inr \<lparr>na_eventType = ty, na_attemptId = aid, na_actionClass = cls, na_mode = mode,
          na_reason = rsn, na_payloadJson = json, na_provider = prov, na_costUsd = cost,
          na_tokensUsed = tok\<rparr>)))))))))"

definition normalizeAttemptLogEvent :: "jsval \<Rightarrow> string + NormalizedAttemptLogEvent" where
  "normalizeAttemptLogEvent input =
     (case input of
        JObj fs \<Rightarrow> normalizeAttemptFields fs
      | JArr vs \<Rightarrow> normalizeAttemptFields []
      | _ \<Rightarrow> Inl ''invalid_event'')"

fun attemptEventType_name :: "AttemptLogEventType \<Rightarrow> string" where
  "attemptEventType_name AttemptStarted = ''attempt_started''"
| "attemptEventType_name AttemptToolEdit = ''attempt_tool_edit''"
| "attemptEventType_name AttemptShadow = ''attempt_shadow''"
| "attemptEventType_name AttemptSucceeded = ''attempt_succeeded''"
| "attemptEventType_name AttemptFailed = ''attempt_failed''"
| "attemptEventType_name AttemptAborted = ''attempt_aborted''"
| "attemptEventType_name AttemptOutcomeSummary = ''attempt_outcome_summary''"

text \<open>The object an event is at run time, with the numbers in its reason printed by \<open>show_num\<close>.\<close>

definition event_object :: "(jsnum \<Rightarrow> string) \<Rightarrow> AttemptLogEvent \<Rightarrow> jsval" where
  "event_object show_num ev =
     JObj [(''eventType'', JStr (attemptEventType_name (ale_eventType ev))),
           (''attemptId'', JStr (ale_attemptId ev)),
           (''actionClass'', JStr (ale_actionClass ev)),
           (''mode'', JStr (mode_name (ale_mode ev))),
           (''reason'', JStr (render show_num (ale_reason ev))),
           (''payload'', (case ale_payload ev of None \<Rightarrow> JUndef | Some fs \<Rightarrow> JObj fs)),
           (''provider'', (case ale_provider ev of None \<Rightarrow> JUndef | Some s \<Rightarrow> JStr s)),
           (''costUsd'', (case ale_costUsd ev of None \<Rightarrow> JUndef | Some x \<Rightarrow> JNum x)),
           (''tokensUsed'', (case ale_tokensUsed ev of None \<Rightarrow> JUndef | Some x \<Rightarrow> JNum x))]"

text \<open>The in-memory buffer's \<open>append\<close> on its rows, and the same append as a log sink.\<close>

definition buffer_append ::
  "(jsnum \<Rightarrow> string) \<Rightarrow> NormalizedAttemptLogEvent list \<Rightarrow> AttemptLogEvent
     \<Rightarrow> string + NormalizedAttemptLogEvent list" where
  "buffer_append show_num rows ev =
     and_then (normalizeAttemptLogEvent (event_object show_num ev)) (\<lambda>n. Inr (rows @ [n]))"

type_synonym AttemptLogSink = "AttemptLogEvent \<Rightarrow> thrown option"

definition buffer_sink :: "(jsnum \<Rightarrow> string) \<Rightarrow> AttemptLogSink" where
  "buffer_sink show_num ev =
     (case buffer_append show_num [] ev of Inl e \<Rightarrow> Some (ThrownError e) | Inr _ \<Rightarrow> None)"


section \<open>Definitions: mode-gated invocation\<close>

record agent_world =
  aw_tasks :: "CodingAgentDriverTask list"
  aw_log :: "AttemptLogEvent list"

text \<open>\<open>log?.append(event)\<close> and \<open>driver.run(task)\<close> on the world.\<close>

definition log_append ::
  "AttemptLogSink option \<Rightarrow> AttemptLogEvent \<Rightarrow> agent_world \<Rightarrow> thrown option \<times> agent_world" where
  "log_append sink ev w =
     (case sink of
        None \<Rightarrow> (None, w)
      | Some throws \<Rightarrow> (throws ev, w\<lparr>aw_log := aw_log w @ [ev]\<rparr>))"

definition driver_run ::
  "CodingAgentDriver \<Rightarrow> CodingAgentDriverTask \<Rightarrow> agent_world
     \<Rightarrow> (thrown + CodingAgentDriverResult) \<times> agent_world" where
  "driver_run driver task w =
     (driver (length (aw_tasks w)) task, w\<lparr>aw_tasks := aw_tasks w @ [task]\<rparr>)"

definition shadowSummary :: "CodingAgentDriverTask \<Rightarrow> msg" where
  "shadowSummary task =
     [Lit (''dry-run: would invoke coding agent in '' @ tk_workingDirectory task @ '' ('' @ le_sign),
      NumV (tk_maxTurns task),
      Lit ('' turns, criteria '' @ tk_acceptanceCriteriaPath task @ '')'')]"

definition codegen_event ::
  "CodingAgentDriverTask \<Rightarrow> CodingAgentExecutionMode \<Rightarrow> AttemptLogEventType \<Rightarrow> msg
     \<Rightarrow> (string \<times> jsval) list \<Rightarrow> AttemptLogEvent" where
  "codegen_event task mode ty reason payload =
     \<lparr>ale_eventType = ty, ale_attemptId = tk_attemptId task, ale_actionClass = ''codegen'',
      ale_mode = mode, ale_reason = reason, ale_payload = Some payload, ale_provider = None,
      ale_costUsd = None, ale_tokensUsed = None\<rparr>"

definition error_reason :: "thrown \<Rightarrow> string" where
  "error_reason e = (case e of ThrownError m \<Rightarrow> m | ThrownOther _ \<Rightarrow> ''unknown error'')"

text \<open>The \<open>catch\<close> block of a live invocation.\<close>

definition invoke_catch ::
  "CodingAgentDriverTask \<Rightarrow> CodingAgentExecutionMode \<Rightarrow> AttemptLogSink option \<Rightarrow> thrown
     \<Rightarrow> agent_world \<Rightarrow> (thrown + CodingAgentDriverResult) \<times> agent_world" where
  "invoke_catch task mode sink e w =
     (case log_append sink (codegen_event task mode AttemptFailed (lit (error_reason e))
             [(''thrown'', JBool True)]) w of
        (Some e', w') \<Rightarrow> (Inl e', w')
      | (None, w') \<Rightarrow>
          (Inr (bare_result False (lit ''coding agent invocation failed'')
             \<lparr>dr_error := Some (error_reason e)\<rparr>), w'))"

definition result_event ::
  "CodingAgentDriverTask \<Rightarrow> CodingAgentExecutionMode \<Rightarrow> CodingAgentDriverResult \<Rightarrow> AttemptLogEvent" where
  "result_event task mode result =
     codegen_event task mode (if dr_ok result then AttemptSucceeded else AttemptFailed)
       (dr_summary result)
       [(''changedFiles'', JArr (map JStr (dr_changedFiles result))),
        (''turnsUsed'', (case dr_turnsUsed result of None \<Rightarrow> JNull | Some x \<Rightarrow> JNum x)),
        (''error'', (case dr_error result of None \<Rightarrow> JNull | Some s \<Rightarrow> JStr s))]"

definition invoke_live ::
  "CodingAgentDriver \<Rightarrow> CodingAgentDriverTask \<Rightarrow> AttemptLogSink option \<Rightarrow> agent_world
     \<Rightarrow> (thrown + CodingAgentDriverResult) \<times> agent_world" where
  "invoke_live driver task sink w =
     (case driver_run driver task w of
        (Inl e, w1) \<Rightarrow> invoke_catch task CmLive sink e w1
      | (Inr result, w1) \<Rightarrow>
          (case log_append sink (result_event task CmLive result) w1 of
             (Some e, w2) \<Rightarrow> invoke_catch task CmLive sink e w2
           | (None, w2) \<Rightarrow> (Inr result, w2)))"

definition invokeCodingAgentDriver ::
  "CodingAgentDriver \<Rightarrow> CodingAgentExecutionMode \<Rightarrow> CodingAgentDriverTask \<Rightarrow> AttemptLogSink option
     \<Rightarrow> agent_world \<Rightarrow> (thrown + CodingAgentDriverResult) \<times> agent_world" where
  "invokeCodingAgentDriver driver mode task sink w =
     (if mode = CmPaused then
        (case log_append sink (codegen_event task mode AttemptAborted (lit ''coding_agent_paused'')
                [(''workingDirectory'', JStr (tk_workingDirectory task))]) w of
           (Some e, w') \<Rightarrow> (Inl e, w')
         | (None, w') \<Rightarrow>
             (Inr (bare_result False (lit ''coding agent paused'')
                \<lparr>dr_error := Some ''coding_agent_paused''\<rparr>), w'))
      else if \<not> codingAgentModeExecutes mode then
        (case log_append sink (codegen_event task mode AttemptShadow
                (lit ''dry-run: would invoke coding agent without spawning underlying session'')
                [(''workingDirectory'', JStr (tk_workingDirectory task)),
                 (''acceptanceCriteriaPath'', JStr (tk_acceptanceCriteriaPath task)),
                 (''maxTurns'', JNum (tk_maxTurns task))]) w of
           (Some e, w') \<Rightarrow> (Inl e, w')
         | (None, w') \<Rightarrow>
             (Inr (bare_result True (shadowSummary task)\<lparr>dr_turnsUsed := Some (Fin 0)\<rparr>), w'))
      else
        (case log_append sink (codegen_event task mode AttemptStarted
                (lit ''live coding-agent invocation'')
                [(''workingDirectory'', JStr (tk_workingDirectory task)),
                 (''maxTurns'', JNum (tk_maxTurns task))]) w of
           (Some e, w') \<Rightarrow> (Inl e, w')
         | (None, w') \<Rightarrow> invoke_live driver task sink w'))"


section \<open>Definitions: usage meter\<close>

record AttemptUsage =
  au_tokens :: jsnum
  au_turns :: jsnum
  au_wallClockMs :: jsnum
  au_costUsd :: jsnum

type_synonym AttemptMeterTotals = AttemptUsage

record AttemptBudget =
  ab_maxTokens :: "jsnum option"
  ab_maxTurns :: "jsnum option"
  ab_maxWallClockMs :: "jsnum option"
  ab_maxCostUsd :: "jsnum option"

datatype AttemptBudgetAxis = AxTokens | AxTurns | AxWallClockMs | AxCostUsd

record AttemptMeterVerdict =
  mv_totals :: AttemptMeterTotals
  mv_withinBudget :: bool
  mv_breaches :: "AttemptBudgetAxis list"

definition ZERO_USAGE :: AttemptUsage where
  "ZERO_USAGE = \<lparr>au_tokens = Fin 0, au_turns = Fin 0, au_wallClockMs = Fin 0, au_costUsd = Fin 0\<rparr>"

definition assertNonNegativeFiniteNumber :: "string \<Rightarrow> jsnum \<Rightarrow> string + unit" where
  "assertNonNegativeFiniteNumber name value =
     (if \<not> isFinite value \<or> num_lt value (Fin 0)
      then Inl (name @ '' must be a finite, non-negative number'') else Inr ())"

definition assertAttemptUsage :: "string \<Rightarrow> AttemptUsage \<Rightarrow> string + unit" where
  "assertAttemptUsage name usage =
     and_then (assertNonNegativeFiniteNumber (name @ ''.tokens'') (au_tokens usage)) (\<lambda>_.
     and_then (assertNonNegativeFiniteNumber (name @ ''.turns'') (au_turns usage)) (\<lambda>_.
     and_then (assertNonNegativeFiniteNumber (name @ ''.wallClockMs'') (au_wallClockMs usage)) (\<lambda>_.
     assertNonNegativeFiniteNumber (name @ ''.costUsd'') (au_costUsd usage))))"

definition assertOptional :: "string \<Rightarrow> jsnum option \<Rightarrow> string + unit" where
  "assertOptional name value =
     (case value of None \<Rightarrow> Inr () | Some v \<Rightarrow> assertNonNegativeFiniteNumber name v)"

definition assertAttemptBudget :: "AttemptBudget \<Rightarrow> string + unit" where
  "assertAttemptBudget budget =
     and_then (assertOptional ''budget.maxTokens'' (ab_maxTokens budget)) (\<lambda>_.
     and_then (assertOptional ''budget.maxTurns'' (ab_maxTurns budget)) (\<lambda>_.
     and_then (assertOptional ''budget.maxWallClockMs'' (ab_maxWallClockMs budget)) (\<lambda>_.
     assertOptional ''budget.maxCostUsd'' (ab_maxCostUsd budget))))"

definition accumulateAttemptUsage ::
  "AttemptMeterTotals \<Rightarrow> AttemptUsage \<Rightarrow> string + AttemptMeterTotals" where
  "accumulateAttemptUsage totals nxt =
     and_then (assertAttemptUsage ''total'' totals) (\<lambda>_.
     and_then (assertAttemptUsage ''next'' nxt) (\<lambda>_.
     Inr \<lparr>au_tokens = num_add (au_tokens totals) (au_tokens nxt),
          au_turns = num_add (au_turns totals) (au_turns nxt),
          au_wallClockMs = num_add (au_wallClockMs totals) (au_wallClockMs nxt),
          au_costUsd = num_add (au_costUsd totals) (au_costUsd nxt)\<rparr>))"

definition meterAttemptUsage :: "AttemptUsage list \<Rightarrow> string + AttemptMeterTotals" where
  "meterAttemptUsage increments =
     foldl (\<lambda>acc u. and_then acc (\<lambda>t. accumulateAttemptUsage t u)) (Inr ZERO_USAGE) increments"

definition at_ceiling :: "jsnum \<Rightarrow> jsnum option \<Rightarrow> bool" where
  "at_ceiling v bound =
     (case bound of None \<Rightarrow> False | Some c \<Rightarrow> num_ge v c)"

definition budget_breaches :: "AttemptMeterTotals \<Rightarrow> AttemptBudget \<Rightarrow> AttemptBudgetAxis list" where
  "budget_breaches totals budget =
     (if at_ceiling (au_tokens totals) (ab_maxTokens budget) then [AxTokens] else []) @
     (if at_ceiling (au_turns totals) (ab_maxTurns budget) then [AxTurns] else []) @
     (if at_ceiling (au_wallClockMs totals) (ab_maxWallClockMs budget) then [AxWallClockMs] else []) @
     (if at_ceiling (au_costUsd totals) (ab_maxCostUsd budget) then [AxCostUsd] else [])"

definition evaluateAttemptBudget ::
  "AttemptMeterTotals \<Rightarrow> AttemptBudget \<Rightarrow> string + AttemptMeterVerdict" where
  "evaluateAttemptBudget totals budget =
     and_then (assertAttemptUsage ''totals'' totals) (\<lambda>_.
     and_then (assertAttemptBudget budget) (\<lambda>_.
     let breaches = budget_breaches totals budget in
     Inr \<lparr>mv_totals = totals, mv_withinBudget = (breaches = []), mv_breaches = breaches\<rparr>))"


section \<open>Lemmas: driver invocation\<close>

lemma log_append_tasks: "log_append sink ev w = (r, w') \<Longrightarrow> aw_tasks w' = aw_tasks w"
  by (auto simp: log_append_def split: option.splits)

text \<open>A sink that never throws.\<close>

definition quiet :: "AttemptLogSink option \<Rightarrow> bool" where
  "quiet sink \<longleftrightarrow> (\<forall>f ev. sink = Some f \<longrightarrow> f ev = None)"

lemma log_append_quiet:
  "quiet sink \<Longrightarrow>
     log_append sink ev w = (None, if sink = None then w else w\<lparr>aw_log := aw_log w @ [ev]\<rparr>)"
  by (cases sink) (simp_all add: log_append_def quiet_def)

lemma invoke_catch_tasks [simp]: "aw_tasks (snd (invoke_catch task mode sink e w)) = aw_tasks w"
  by (auto simp: invoke_catch_def dest: log_append_tasks split: prod.splits option.splits)

lemma invoke_live_tasks [simp]:
  "aw_tasks (snd (invoke_live driver task sink w)) = aw_tasks w @ [task]"
  by (auto simp: invoke_live_def driver_run_def dest: log_append_tasks
      split: sum.splits prod.splits option.splits)

text \<open>The event that announces a live invocation.\<close>

abbreviation start_event :: "CodingAgentDriverTask \<Rightarrow> AttemptLogEvent" where
  "start_event task \<equiv> codegen_event task CmLive AttemptStarted
     (lit ''live coding-agent invocation'')
     [(''workingDirectory'', JStr (tk_workingDirectory task)), (''maxTurns'', JNum (tk_maxTurns task))]"

lemma invoke_tasks:
  "aw_tasks (snd (invokeCodingAgentDriver driver mode task sink w)) =
     aw_tasks w @ (if mode = CmLive \<and> fst (log_append sink (start_event task) w) = None
                   then [task] else [])"
  by (cases mode)
    (auto simp: invokeCodingAgentDriver_def codingAgentModeExecutes_def dest: log_append_tasks
      split: prod.splits option.splits)

lemma invoke_live_quiet:
  "quiet sink \<Longrightarrow> fst (invoke_live driver task sink w) =
    (case driver (length (aw_tasks w)) task of
       Inl e \<Rightarrow> Inr (bare_result False (lit ''coding agent invocation failed'')
                 \<lparr>dr_error := Some (error_reason e)\<rparr>)
     | Inr r \<Rightarrow> Inr r)"
  by (simp add: invoke_live_def invoke_catch_def driver_run_def log_append_quiet split: sum.split)

lemma invoke_quiet:
  assumes "quiet sink"
  shows "fst (invokeCodingAgentDriver driver mode task sink w) =
    (case mode of
       CmPaused \<Rightarrow> Inr (bare_result False (lit ''coding agent paused'')
                     \<lparr>dr_error := Some ''coding_agent_paused''\<rparr>)
     | CmDryRun \<Rightarrow> Inr (bare_result True (shadowSummary task)\<lparr>dr_turnsUsed := Some (Fin 0)\<rparr>)
     | CmLive \<Rightarrow>
         (case driver (length (aw_tasks w)) task of
            Inl e \<Rightarrow> Inr (bare_result False (lit ''coding agent invocation failed'')
                      \<lparr>dr_error := Some (error_reason e)\<rparr>)
          | Inr r \<Rightarrow> Inr r))"
  using assms
  by (cases mode)
    (simp_all add: invokeCodingAgentDriver_def codingAgentModeExecutes_def log_append_quiet
      invoke_live_quiet)

text \<open>C24: the underlying agent is spawned only in live mode, and at most once: with the mode resolved from the
  environment and the per-run switches, \<open>driver.run\<close> is called exactly when no pause and no dry run is set and the log
  accepted the start event. With a log that never throws the invocation always returns, it reports success only for a
  successful live run or a dry run, and a driver that throws is reported as a failed run.\<close>

theorem driver_called_only_when_live:
  "aw_tasks (snd (invokeCodingAgentDriver driver
       (resolveCodingAgentModeFromConfig env agentPaused agentDryRun) task sink w)) =
     aw_tasks w @
       (if \<not> isGlobalMinerCodingAgentPause (or_default env []) \<and> agentPaused \<noteq> Some True \<and>
           agentDryRun \<noteq> Some True \<and> fst (log_append sink (start_event task) w) = None
        then [task] else [])
   \<and> (quiet sink \<longrightarrow>
       (\<exists>r. fst (invokeCodingAgentDriver driver mode task sink w) = Inr r \<and>
         (dr_ok r \<longrightarrow> mode = CmDryRun \<and> dr_changedFiles r = [] \<or>
            mode = CmLive \<and> driver (length (aw_tasks w)) task = Inr r)))"
  by (auto simp: invoke_tasks invoke_quiet bare_result_def resolveCodingAgentModeFromConfig_def
      resolveCodingAgentExecutionMode_def
      split: CodingAgentExecutionMode.split sum.split)

definition sample_task :: CodingAgentDriverTask where
  "sample_task = \<lparr>tk_attemptId = ''a1'', tk_workingDirectory = ''/w'',
     tk_acceptanceCriteriaPath = ''/w/c.md'', tk_instructions = ''fix'', tk_maxTurns = Fin 5\<rparr>"

theorem driver_called_only_when_live_witness:
  "\<exists>r. fst (invokeCodingAgentDriver createNoopCodingAgentDriver CmLive sample_task
       (Some (\<lambda>_. None)) \<lparr>aw_tasks = [], aw_log = []\<rparr>) = Inr r \<and>
     (dr_ok r \<longrightarrow> CmLive = CmDryRun \<and> dr_changedFiles r = [] \<or>
        CmLive = CmLive \<and> createNoopCodingAgentDriver 0 sample_task = Inr r)"
proof -
  have "quiet (Some (\<lambda>_. None))" by (simp add: quiet_def)
  then show ?thesis
    using driver_called_only_when_live[of createNoopCodingAgentDriver None None None sample_task
        "Some (\<lambda>_. None)" "\<lparr>aw_tasks = [], aw_log = []\<rparr>" CmLive]
    by simp
qed


section \<open>Lemmas: attempt log\<close>

lemma attempt_type_lookup [simp]:
  "map_of ATTEMPT_LOG_EVENT_TYPES (attemptEventType_name ty) = Some ty"
  by (cases ty) (simp_all add: ATTEMPT_LOG_EVENT_TYPES_def)

lemma mode_lookup [simp]: "map_of codingAgentModes (mode_name m) = Some m"
  by (cases m) (simp_all add: codingAgentModes_def)

lemma names_nonblank [simp]: "nonblank (attemptEventType_name ty)" "nonblank (mode_name m)"
  by (cases ty; simp add: nonblank_def trim_def is_ws_def)
    (cases m; simp add: nonblank_def trim_def is_ws_def)

lemma type_name_trim [simp]:
  "trim (attemptEventType_name ty) = attemptEventType_name ty" "attemptEventType_name ty \<noteq> []"
  using names_nonblank(1)[of ty] by (simp_all add: nonblank_def)

text \<open>What the log accepts of a typed event.\<close>

definition event_acceptable :: "(jsnum \<Rightarrow> string) \<Rightarrow> AttemptLogEvent \<Rightarrow> bool" where
  "event_acceptable show_num ev \<longleftrightarrow>
     trim (ale_attemptId ev) \<noteq> [] \<and> trim (ale_actionClass ev) \<noteq> [] \<and>
     trim (render show_num (ale_reason ev)) \<noteq> [] \<and>
     (\<forall>fs. ale_payload ev = Some fs \<longrightarrow> json_safe (JObj fs)) \<and>
     (\<forall>s. ale_provider ev = Some s \<longrightarrow> trim s \<noteq> []) \<and>
     (\<forall>x. ale_costUsd ev = Some x \<longrightarrow> is_nonneg x) \<and>
     (\<forall>x. ale_tokensUsed ev = Some x \<longrightarrow> is_nonneg x)"

lemma normalizeOptionalNonNegativeNumber_event:
  "normalizeOptionalNonNegativeNumber (case v of None \<Rightarrow> JUndef | Some x \<Rightarrow> JNum x) code = Inr r \<longleftrightarrow>
     (\<forall>x. v = Some x \<longrightarrow> is_nonneg x) \<and> r = v"
  by (cases v; cases "the v")
    (auto simp: normalizeOptionalNonNegativeNumber_def is_nonneg_def)

lemma normalizeOptionalString_event:
  "normalizeOptionalString (case v of None \<Rightarrow> JUndef | Some x \<Rightarrow> JStr x) code = Inr r \<longleftrightarrow>
     (\<forall>x. v = Some x \<longrightarrow> trim x \<noteq> []) \<and> r = map_option trim v"
  by (cases v) (auto simp: normalizeOptionalString_def Let_def)

lemma serializePayload_event:
  assumes "\<And>fs. v = Some fs \<Longrightarrow> json_wf (JObj fs)"
  shows "serializePayload (case v of None \<Rightarrow> JUndef | Some fs \<Rightarrow> JObj fs) = Inr r \<longleftrightarrow>
     (\<forall>fs. v = Some fs \<longrightarrow> json_safe (JObj fs)) \<and> r = JObj (or_default v [])"
proof (cases v)
  case (Some fs)
  then show ?thesis
    using serializePayload_accepts_iff_safe_raw[of fs] assms
    by (auto simp del: serializePayload.simps json_safe.simps)
qed auto

lemma normalizeRequiredString_text:
  "normalizeRequiredString (JStr s) code = Inr r \<longleftrightarrow> trim s \<noteq> [] \<and> r = trim s"
  by (auto simp: Let_def)

lemma normalizeMode_name [simp]: "normalizeMode (JStr (mode_name m)) = Inr m"
  by (simp add: normalizeMode_def normalizeRequiredString_fix del: normalizeRequiredString.simps)

definition typed_row :: "(jsnum \<Rightarrow> string) \<Rightarrow> AttemptLogEvent \<Rightarrow> NormalizedAttemptLogEvent" where
  "typed_row show_num ev =
     \<lparr>na_eventType = ale_eventType ev, na_attemptId = trim (ale_attemptId ev),
      na_actionClass = trim (ale_actionClass ev), na_mode = ale_mode ev,
      na_reason = trim (render show_num (ale_reason ev)),
      na_payloadJson = JObj (or_default (ale_payload ev) []),
      na_provider = map_option trim (ale_provider ev), na_costUsd = ale_costUsd ev,
      na_tokensUsed = ale_tokensUsed ev\<rparr>"

lemma attempt_event_accepted:
  assumes "\<And>fs. ale_payload ev = Some fs \<Longrightarrow> json_wf (JObj fs)"
  shows "normalizeAttemptLogEvent (event_object show_num ev) = Inr n \<longleftrightarrow>
    event_acceptable show_num ev \<and> n = typed_row show_num ev"
proof -
  note simps = normalizeAttemptLogEvent_def event_object_def normalizeAttemptFields_def field_def
    and_then_Inr normalizeOptionalNonNegativeNumber_event normalizeOptionalString_event
    serializePayload_event[of "ale_payload ev", OF assms] normalizeRequiredString_text
  show ?thesis unfolding event_acceptable_def typed_row_def
    by (auto simp: simps simp del: normalizeRequiredString.simps serializePayload.simps json_safe.simps)
qed


lemma buffer_append_accepted:
  assumes "\<And>fs. ale_payload ev = Some fs \<Longrightarrow> json_wf (JObj fs)"
  shows "buffer_append show_num rows ev = Inr rows' \<longleftrightarrow>
    event_acceptable show_num ev \<and> rows' = rows @ [typed_row show_num ev]"
  by (auto simp: buffer_append_def and_then_Inr attempt_event_accepted[of ev, OF assms])

text \<open>the attempt log's append stores an event (payload keys distinct, as in the language) exactly when its ids and
  reason are non-blank, its payload is JSON-safe, its provider (when given) is non-blank and its cost and token counts
  (when given) are finite and non-negative; the stored row then carries the event's own values, trimmed, and every other
  event is refused with the rows unchanged.\<close>

theorem attempt_log_accepts_iff:
  assumes "\<forall>fs. ale_payload ev = Some fs \<longrightarrow> json_wf (JObj fs)"
  shows "if event_acceptable show_num ev
         then buffer_append show_num rows ev = Inr (rows @ [typed_row show_num ev])
         else \<exists>code. buffer_append show_num rows ev = Inl code"
proof (cases "event_acceptable show_num ev")
  case True
  then show ?thesis using buffer_append_accepted[of ev] assms by simp
next
  case False
  then have "buffer_append show_num rows ev \<noteq> Inr r" for r
    using buffer_append_accepted[of ev] assms by simp
  with False show ?thesis by (cases "buffer_append show_num rows ev") auto
qed

theorem attempt_log_accepts_iff_witness:
  "\<exists>code. buffer_append (\<lambda>_. ''n'') [] (codegen_event sample_task CmLive AttemptStarted (lit ''go'')
      [(''maxTurns'', JNum NaN)]) = Inl code"
proof -
  let ?ev = "codegen_event sample_task CmLive AttemptStarted (lit ''go'') [(''maxTurns'', JNum NaN)]"
  have "\<forall>fs. ale_payload ?ev = Some fs \<longrightarrow> json_wf (JObj fs)" by (simp add: codegen_event_def)
  moreover have "\<not> event_acceptable (\<lambda>_. ''n'') ?ev"
    by (simp add: event_acceptable_def codegen_event_def)
  ultimately show ?thesis
    using attempt_log_accepts_iff[of ?ev "\<lambda>_. ''n''" "[]"] by simp
qed

lemma buffer_sink_None:
  "(\<And>fs. ale_payload ev = Some fs \<Longrightarrow> json_wf (JObj fs)) \<Longrightarrow> event_acceptable show_num ev \<Longrightarrow>
     buffer_sink show_num ev = None"
  using buffer_append_accepted[of ev show_num "[]" "[typed_row show_num ev]"]
  by (simp add: buffer_sink_def)

lemma buffer_sink_blank_reason:
  assumes "trim (ale_attemptId ev) \<noteq> []" "trim (ale_actionClass ev) \<noteq> []"
    and "trim (render show_num (ale_reason ev)) = []"
  shows "buffer_sink show_num ev = Some (ThrownError ''invalid_reason'')"
  using assms
  by (simp add: buffer_sink_def buffer_append_def normalizeAttemptLogEvent_def event_object_def
      normalizeAttemptFields_def field_def Let_def)

text \<open>C25: a live run that succeeds but reports a blank summary is turned into a failure by its own logging: with the
  normalising attempt log as sink, the success event is refused for its blank reason inside the \<open>try\<close>, so the caller gets
  \<open>ok: false\<close> with error \<open>invalid_reason\<close> and the rows kept are the start and a failure, although the agent ran and may
  have changed files.\<close>

theorem blank_summary_fails_the_run:
  assumes "driver (length (aw_tasks w)) task = Inr r" "dr_ok r"
    and "trim (render show_num (dr_summary r)) = []"
    and "trim (tk_attemptId task) \<noteq> []" "isFinite (tk_maxTurns task)"
  shows "\<exists>r' w'. invokeCodingAgentDriver driver CmLive task (Some (buffer_sink show_num)) w = (Inr r', w')
    \<and> \<not> dr_ok r' \<and> dr_error r' = Some ''invalid_reason'' \<and> dr_changedFiles r' = []
    \<and> aw_tasks w' = aw_tasks w @ [task]
    \<and> (\<exists>new. aw_log w' = aw_log w @ new \<and>
         map ale_eventType (filter (\<lambda>ev. buffer_sink show_num ev = None) new) = [AttemptStarted, AttemptFailed])"
proof -
  let ?fail = "codegen_event task CmLive AttemptFailed (lit ''invalid_reason'') [(''thrown'', JBool True)]"
  have cls: "trim ''codegen'' = ''codegen''" by (rule trim_fix) (simp add: is_ws_def)
  have start: "buffer_sink show_num (start_event task) = None"
    using assms(4,5) cls
    by (intro buffer_sink_None) (auto simp: event_acceptable_def codegen_event_def trim_eq_Nil is_ws_def)
  have result: "buffer_sink show_num (result_event task CmLive r) = Some (ThrownError ''invalid_reason'')"
    using assms(3,4) cls by (intro buffer_sink_blank_reason) (simp_all add: result_event_def codegen_event_def)
  have fail: "buffer_sink show_num ?fail = None"
    using assms(4) cls
    by (intro buffer_sink_None) (auto simp: event_acceptable_def codegen_event_def trim_eq_Nil is_ws_def)
  show ?thesis
    using assms(1) start result fail
    by (simp add: invokeCodingAgentDriver_def codingAgentModeExecutes_def log_append_def
        invoke_live_def driver_run_def invoke_catch_def error_reason_def bare_result_def)
      (simp add: codegen_event_def)
qed

theorem blank_summary_fails_the_run_witness:
  "\<exists>r' w'. invokeCodingAgentDriver
      (\<lambda>_ _. Inr (bare_result True (lit '' '')\<lparr>dr_changedFiles := [''a.ts'']\<rparr>)) CmLive sample_task
      (Some (buffer_sink (\<lambda>_. ''0''))) \<lparr>aw_tasks = [], aw_log = []\<rparr> = (Inr r', w')
    \<and> \<not> dr_ok r' \<and> dr_error r' = Some ''invalid_reason'' \<and> dr_changedFiles r' = []
    \<and> aw_tasks w' = [sample_task] \<and> map ale_eventType
         (filter (\<lambda>ev. buffer_sink (\<lambda>_. ''0'') ev = None) (aw_log w')) = [AttemptStarted, AttemptFailed]"
  using blank_summary_fails_the_run[of
      "\<lambda>_ _. Inr (bare_result True (lit '' '')\<lparr>dr_changedFiles := [''a.ts'']\<rparr>)"
      "\<lparr>aw_tasks = [], aw_log = []\<rparr>" sample_task _ "\<lambda>_. ''0''"]
  by (simp add: bare_result_def sample_task_def trim_def is_ws_def)


section \<open>Lemmas: usage meter\<close>

definition usage_ok :: "AttemptUsage \<Rightarrow> bool" where
  "usage_ok u \<longleftrightarrow> is_nonneg (au_tokens u) \<and> is_nonneg (au_turns u) \<and> is_nonneg (au_wallClockMs u)
     \<and> is_nonneg (au_costUsd u)"

definition budget_ok :: "AttemptBudget \<Rightarrow> bool" where
  "budget_ok b \<longleftrightarrow> (\<forall>c \<in> set_option (ab_maxTokens b). is_nonneg c) \<and>
     (\<forall>c \<in> set_option (ab_maxTurns b). is_nonneg c) \<and>
     (\<forall>c \<in> set_option (ab_maxWallClockMs b). is_nonneg c) \<and>
     (\<forall>c \<in> set_option (ab_maxCostUsd b). is_nonneg c)"

lemma assertNonNegativeFiniteNumber_Inr [simp]:
  "assertNonNegativeFiniteNumber name v = Inr u \<longleftrightarrow> is_nonneg v"
  by (cases v) (auto simp: assertNonNegativeFiniteNumber_def is_nonneg_def)

lemma assertAttemptUsage_Inr [simp]: "assertAttemptUsage name u = Inr z \<longleftrightarrow> usage_ok u"
  by (auto simp: assertAttemptUsage_def and_then_Inr usage_ok_def)

lemma assertOptional_Inr [simp]:
  "assertOptional name v = Inr u \<longleftrightarrow> (\<forall>c \<in> set_option v. is_nonneg c)"
  by (cases v) (auto simp: assertOptional_def)

lemma assertAttemptBudget_Inr [simp]: "assertAttemptBudget b = Inr z \<longleftrightarrow> budget_ok b"
  by (auto simp: assertAttemptBudget_def and_then_Inr budget_ok_def)

definition usage_add :: "AttemptUsage \<Rightarrow> AttemptUsage \<Rightarrow> AttemptUsage" where
  "usage_add t u = \<lparr>au_tokens = num_add (au_tokens t) (au_tokens u),
     au_turns = num_add (au_turns t) (au_turns u),
     au_wallClockMs = num_add (au_wallClockMs t) (au_wallClockMs u),
     au_costUsd = num_add (au_costUsd t) (au_costUsd u)\<rparr>"

lemma accumulateAttemptUsage_Inr:
  "accumulateAttemptUsage t u = Inr t' \<longleftrightarrow> usage_ok t \<and> usage_ok u \<and> t' = usage_add t u"
  by (auto simp: accumulateAttemptUsage_def and_then_Inr usage_add_def)

lemma evaluateAttemptBudget_Inr:
  "evaluateAttemptBudget t b = Inr v \<longleftrightarrow> usage_ok t \<and> budget_ok b \<and>
     v = \<lparr>mv_totals = t, mv_withinBudget = (budget_breaches t b = []), mv_breaches = budget_breaches t b\<rparr>"
  by (auto simp: evaluateAttemptBudget_def and_then_Inr Let_def)

fun axis_of :: "AttemptBudgetAxis \<Rightarrow> AttemptUsage \<Rightarrow> jsnum" where
  "axis_of AxTokens u = au_tokens u"
| "axis_of AxTurns u = au_turns u"
| "axis_of AxWallClockMs u = au_wallClockMs u"
| "axis_of AxCostUsd u = au_costUsd u"

fun ceiling_of :: "AttemptBudgetAxis \<Rightarrow> AttemptBudget \<Rightarrow> jsnum option" where
  "ceiling_of AxTokens b = ab_maxTokens b"
| "ceiling_of AxTurns b = ab_maxTurns b"
| "ceiling_of AxWallClockMs b = ab_maxWallClockMs b"
| "ceiling_of AxCostUsd b = ab_maxCostUsd b"

fun fin_val :: "jsnum \<Rightarrow> rat" where
  "fin_val (Fin q) = q"
| "fin_val _ = 0"

definition axis_sum :: "AttemptBudgetAxis \<Rightarrow> AttemptUsage list \<Rightarrow> rat" where
  "axis_sum ax us = (\<Sum>u\<leftarrow>us. fin_val (axis_of ax u))"

lemma set_budget_breaches:
  "ax \<in> set (budget_breaches t b) \<longleftrightarrow> at_ceiling (axis_of ax t) (ceiling_of ax b)"
  by (cases ax) (auto simp: budget_breaches_def)

lemma usage_ok_axis: "usage_ok u \<longleftrightarrow> (\<forall>ax. is_nonneg (axis_of ax u))"
  unfolding usage_ok_def by (metis (full_types) axis_of.simps AttemptBudgetAxis.exhaust)

lemma usage_eqI: "(\<And>ax. axis_of ax t = axis_of ax u) \<Longrightarrow> t = u"
  using axis_of.simps by (metis (full_types) AttemptUsage.equality old.unit.exhaust)

lemma axis_of_usage_add [simp]: "axis_of ax (usage_add t u) = num_add (axis_of ax t) (axis_of ax u)"
  by (cases ax) (simp_all add: usage_add_def)

lemma axis_of_ZERO [simp]: "axis_of ax ZERO_USAGE = Fin 0"
  by (cases ax) (simp_all add: ZERO_USAGE_def)

lemma axis_sum_nonneg: "list_all usage_ok us \<Longrightarrow> 0 \<le> axis_sum ax us"
proof (induction us)
  case (Cons u us)
  then obtain q where "axis_of ax u = Fin q" "0 \<le> q" by (auto simp: usage_ok_axis is_nonneg_iff)
  with Cons show ?case by (simp add: axis_sum_def)
qed (simp add: axis_sum_def)

lemma meterAttemptUsage_snoc:
  "meterAttemptUsage (us @ [u]) = and_then (meterAttemptUsage us) (\<lambda>t. accumulateAttemptUsage t u)"
  by (simp add: meterAttemptUsage_def)

lemma meterAttemptUsage_exact:
  assumes "list_all usage_ok us" and "\<And>ax. axis_sum ax us < num_max"
  shows "\<exists>t. meterAttemptUsage us = Inr t \<and> (\<forall>ax. axis_of ax t = Fin (axis_sum ax us))"
  using assms
proof (induction us rule: rev_induct)
  case Nil
  then show ?case by (simp add: meterAttemptUsage_def axis_sum_def)
next
  case (snoc u us)
  have ok: "usage_ok u" "list_all usage_ok us" using snoc.prems(1) by simp_all
  have u: "axis_of ax u = Fin (fin_val (axis_of ax u))" "0 \<le> fin_val (axis_of ax u)" for ax
    using ok(1) by (auto simp: usage_ok_axis is_nonneg_iff dest!: spec[of _ ax])
  have sum: "axis_sum ax (us @ [u]) = axis_sum ax us + fin_val (axis_of ax u)" for ax
    by (simp add: axis_sum_def)
  have "axis_sum ax us < num_max" for ax
    using snoc.prems(2)[of ax] u(2)[of ax] sum[of ax] by linarith
  then obtain t where t: "meterAttemptUsage us = Inr t" "\<And>ax. axis_of ax t = Fin (axis_sum ax us)"
    using snoc.IH ok(2) by blast
  have "usage_ok t" using t(2) axis_sum_nonneg[OF ok(2)] by (simp add: usage_ok_axis is_nonneg_iff)
  then have "accumulateAttemptUsage t u = Inr (usage_add t u)"
    using ok(1) by (simp add: accumulateAttemptUsage_Inr)
  moreover have "axis_of ax (usage_add t u) = Fin (axis_sum ax (us @ [u]))" for ax
  proof -
    have nn: "0 \<le> axis_sum ax us + fin_val (axis_of ax u)"
      using axis_sum_nonneg[OF ok(2)] u(2) by (simp add: add_nonneg_nonneg)
    have "num_of_rat (axis_sum ax us + fin_val (axis_of ax u)) = Fin (axis_sum ax us + fin_val (axis_of ax u))"
      using nn snoc.prems(2)[of ax] sum[of ax] by (intro num_of_rat_within) simp
    then show ?thesis
      using u(1)[of ax] by (metis axis_of_usage_add num_add.simps(1) sum t(2))
  qed
  ultimately show ?case using t(1) by (auto simp: meterAttemptUsage_snoc)
qed

text \<open>metering is exact and the budget is judged on the exact totals: for finite non-negative increments whose sums
  stay in the number range and a well-formed budget, the verdict reports a breach on precisely the axes whose sum has
  reached the configured ceiling (a total equal to its ceiling counts), and is within budget iff there is none.\<close>

theorem metered_budget_exact:
  assumes "list_all usage_ok us" and "\<forall>ax. axis_sum ax us < num_max" and "budget_ok b"
  shows "\<exists>t v. meterAttemptUsage us = Inr t \<and> evaluateAttemptBudget t b = Inr v
    \<and> set (mv_breaches v) = {ax. \<exists>c. ceiling_of ax b = Some (Fin c) \<and> c \<le> axis_sum ax us}
    \<and> (mv_withinBudget v \<longleftrightarrow> mv_breaches v = [])"
proof -
  obtain t where t: "meterAttemptUsage us = Inr t" "\<And>ax. axis_of ax t = Fin (axis_sum ax us)"
    using meterAttemptUsage_exact assms(1,2) by blast
  have ok: "usage_ok t" using t(2) axis_sum_nonneg[OF assms(1)] by (simp add: usage_ok_axis is_nonneg_iff)
  have "at_ceiling (axis_of ax t) (ceiling_of ax b) \<longleftrightarrow>
      (\<exists>c. ceiling_of ax b = Some (Fin c) \<and> c \<le> axis_sum ax us)" for ax
    using assms(3) by (cases ax) (auto simp: at_ceiling_def t(2) [of AxTokens, simplified]
        t(2) [of AxTurns, simplified] t(2) [of AxWallClockMs, simplified]
        t(2) [of AxCostUsd, simplified] budget_ok_def is_nonneg_iff split: option.splits)
  then have "set (budget_breaches t b) =
      {ax. \<exists>c. ceiling_of ax b = Some (Fin c) \<and> c \<le> axis_sum ax us}"
    unfolding set_eq_iff set_budget_breaches by blast
  then show ?thesis
    using t(1) ok assms(3) by (simp add: evaluateAttemptBudget_Inr)
qed

theorem metered_budget_exact_witness:
  "\<exists>t v. meterAttemptUsage [\<lparr>au_tokens = Fin 4, au_turns = Fin 2, au_wallClockMs = Fin 9, au_costUsd = Fin 0\<rparr>,
       \<lparr>au_tokens = Fin 6, au_turns = Fin 1, au_wallClockMs = Fin 9, au_costUsd = Fin 0\<rparr>] = Inr t
     \<and> evaluateAttemptBudget t \<lparr>ab_maxTokens = Some (Fin 10), ab_maxTurns = Some (Fin 4),
          ab_maxWallClockMs = None, ab_maxCostUsd = None\<rparr> = Inr v
     \<and> AxTokens \<in> set (mv_breaches v) \<and> AxTurns \<notin> set (mv_breaches v)"
proof -
  let ?us = "[\<lparr>au_tokens = Fin 4, au_turns = Fin 2, au_wallClockMs = Fin 9, au_costUsd = Fin 0\<rparr>,
       \<lparr>au_tokens = Fin 6, au_turns = Fin 1, au_wallClockMs = Fin 9, au_costUsd = Fin 0\<rparr>]"
  let ?b = "\<lparr>ab_maxTokens = Some (Fin 10), ab_maxTurns = Some (Fin 4),
          ab_maxWallClockMs = None, ab_maxCostUsd = None\<rparr>"
  have "list_all usage_ok ?us" by (simp add: usage_ok_def is_nonneg_def)
  moreover have "axis_sum ax ?us < num_max" for ax
    using num_max_large by (cases ax) (simp_all add: axis_sum_def)
  moreover have "budget_ok ?b" by (simp add: budget_ok_def is_nonneg_def)
  ultimately obtain t v where "meterAttemptUsage ?us = Inr t" "evaluateAttemptBudget t ?b = Inr v"
    and "set (mv_breaches v) = {ax. \<exists>c. ceiling_of ax ?b = Some (Fin c) \<and> c \<le> axis_sum ax ?us}"
    using metered_budget_exact[of ?us ?b] by blast
  then show ?thesis by (auto simp: axis_sum_def)
qed

end
