(* ===== verification/Self_Review.thy ===== *)
theory Self_Review
  imports Coding_Agent
begin

text \<open>
  The self-review adapter and the stop, abandon and hand-off policy of the iterate loop
  (\<open>packages/loopover-engine/src/miner/self-review-adapter.ts\<close> and \<open>iterate-policy.ts\<close>).

  The two calculators the adapter calls, \<open>buildPredictedGateVerdict\<close> and the injected slop
  assessment, are parameters: functions of their whole argument that return a verdict or throw.
  The repository records of the review context (manifest, repository, issues, pull requests,
  bounties, issue quality) are only passed through to them and stay dynamically typed values.
\<close>

section \<open>Definitions: self-review\<close>

datatype GateCheckConclusion =
    ConclSuccess | ConclFailure | ConclActionRequired | ConclNeutral | ConclSkipped

record gate_finding =
  gf_code :: string
  gf_title :: string
  gf_detail :: string
  gf_action :: "string option"

record PredictedGateVerdict =
  pv_pack :: string
  pv_conclusion :: GateCheckConclusion
  pv_title :: string
  pv_summary :: string
  pv_readinessScore :: "jsnum option"
  pv_confirmedContributor :: "bool option"
  pv_blockers :: "gate_finding list"
  pv_warnings :: "gate_finding list"
  pv_funnel :: "(string \<times> string) option"
  pv_note :: string

record SelfReviewChangedFile =
  cf_path :: string
  cf_additions :: "jsnum option"
  cf_deletions :: "jsnum option"

datatype SelfReviewSlopBand = Clean | Low | Elevated | High

record SelfReviewSlopInput =
  si_changedFiles :: "SelfReviewChangedFile list option"
  si_tests :: "string list option"
  si_testFiles :: "string list option"
  si_description :: "string option"
  si_commitMessages :: "string list option"
  si_inDuplicateCluster :: "bool option"
  si_hasLinkedIssue :: "bool option"
  si_issueDiscoveryLane :: "bool option"

record SelfReviewSlopAssessment =
  sa_slopRisk :: jsnum
  sa_band :: SelfReviewSlopBand
  sa_findings :: "jsval list"

record AttemptDiffState =
  ds_repoFullName :: string
  ds_contributorLogin :: string
  ds_title :: string
  ds_body :: "string option"
  ds_labels :: "string list option"
  ds_linkedIssues :: "jsnum list option"
  ds_authorAssociation :: "string option"
  ds_changedFiles :: "SelfReviewChangedFile list"
  ds_testFiles :: "string list option"
  ds_commitMessages :: "string list option"
  ds_issueDiscoveryLane :: "bool option"

record SelfReviewContext =
  rc_manifest :: jsval
  rc_repo :: jsval
  rc_issues :: "jsval list"
  rc_pullRequests :: "jsval list"
  rc_bounties :: "jsval list option"
  rc_issueQuality :: "jsval option"
  rc_confirmedContributor :: "bool option"
  rc_inDuplicateCluster :: "bool option"

record PredictedGateInput =
  pi_repoFullName :: string
  pi_contributorLogin :: string
  pi_title :: string
  pi_body :: "string option"
  pi_labels :: "string list option"
  pi_linkedIssues :: "jsnum list option"
  pi_authorAssociation :: "string option"

text \<open>The argument object of \<open>buildPredictedGateVerdict\<close>.\<close>

record predicted_gate_args =
  pg_input :: PredictedGateInput
  pg_manifest :: jsval
  pg_repo :: jsval
  pg_issues :: "jsval list"
  pg_pullRequests :: "jsval list"
  pg_bounties :: "jsval list option"
  pg_issueQuality :: "jsval option"
  pg_confirmedContributor :: "bool option"
  pg_changedPaths :: "string list"

type_synonym predicted_gate = "predicted_gate_args \<Rightarrow> thrown + PredictedGateVerdict"

type_synonym slop_assessor = "SelfReviewSlopInput \<Rightarrow> thrown + SelfReviewSlopAssessment"

record SelfReviewVerdict =
  rv_predictedGateVerdict :: PredictedGateVerdict
  rv_slopAssessment :: SelfReviewSlopAssessment
  rv_changedPaths :: "string list"
  rv_passesPredictedGate :: bool

definition SELF_REVIEW_PASSING_CONCLUSION :: GateCheckConclusion where
  "SELF_REVIEW_PASSING_CONCLUSION = ConclSuccess"

definition isClearPass :: "GateCheckConclusion \<Rightarrow> bool" where
  "isClearPass conclusion \<longleftrightarrow> conclusion = SELF_REVIEW_PASSING_CONCLUSION"

definition buildSelfReviewPredictedGateInput :: "AttemptDiffState \<Rightarrow> PredictedGateInput" where
  "buildSelfReviewPredictedGateInput ds =
     \<lparr>pi_repoFullName = ds_repoFullName ds, pi_contributorLogin = ds_contributorLogin ds,
      pi_title = ds_title ds, pi_body = ds_body ds, pi_labels = ds_labels ds,
      pi_linkedIssues = ds_linkedIssues ds, pi_authorAssociation = ds_authorAssociation ds\<rparr>"

definition buildSelfReviewChangedPaths :: "AttemptDiffState \<Rightarrow> string list" where
  "buildSelfReviewChangedPaths ds = map cf_path (ds_changedFiles ds)"

definition buildSelfReviewSlopInput ::
  "AttemptDiffState \<Rightarrow> SelfReviewContext \<Rightarrow> SelfReviewSlopInput" where
  "buildSelfReviewSlopInput ds ctx =
     \<lparr>si_changedFiles = Some (ds_changedFiles ds), si_tests = None, si_testFiles = ds_testFiles ds,
      si_description = ds_body ds, si_commitMessages = ds_commitMessages ds,
      si_inDuplicateCluster = rc_inDuplicateCluster ctx,
      si_hasLinkedIssue = Some (0 < length (or_default (ds_linkedIssues ds) [])),
      si_issueDiscoveryLane = ds_issueDiscoveryLane ds\<rparr>"

definition runSelfReview ::
  "predicted_gate \<Rightarrow> slop_assessor \<Rightarrow> AttemptDiffState \<Rightarrow> SelfReviewContext
     \<Rightarrow> thrown + SelfReviewVerdict" where
  "runSelfReview buildPredictedGateVerdict runSlopAssessment ds ctx =
     (let changedPaths = buildSelfReviewChangedPaths ds in
      and_then (buildPredictedGateVerdict
        \<lparr>pg_input = buildSelfReviewPredictedGateInput ds, pg_manifest = rc_manifest ctx,
         pg_repo = rc_repo ctx, pg_issues = rc_issues ctx, pg_pullRequests = rc_pullRequests ctx,
         pg_bounties = rc_bounties ctx, pg_issueQuality = rc_issueQuality ctx,
         pg_confirmedContributor = rc_confirmedContributor ctx, pg_changedPaths = changedPaths\<rparr>)
      (\<lambda>predictedGateVerdict.
      and_then (runSlopAssessment (buildSelfReviewSlopInput ds ctx)) (\<lambda>slopAssessment.
      Inr \<lparr>rv_predictedGateVerdict = predictedGateVerdict, rv_slopAssessment = slopAssessment,
           rv_changedPaths = changedPaths,
           rv_passesPredictedGate = isClearPass (pv_conclusion predictedGateVerdict)\<rparr>)))"


section \<open>Definitions: policy\<close>

datatype AutonomyLevel = Observe | AutoWithApproval | Auto

datatype IterateLoopAction = ActContinue | ActHandoff | ActAbandon

datatype AbandonReason =
    RejectionSignaled | SelfReviewAmbiguous | MaxIterationsReached | CostCeilingReached | NoProgress
  | KillSwitchEngaged | AutonomyObserveOnly

datatype SelfReviewOutcome = SrPass | SrFail "string list" | SrAmbiguous "string option"

definition deriveSelfReviewOutcome :: "SelfReviewVerdict \<Rightarrow> SelfReviewOutcome" where
  "deriveSelfReviewOutcome verdict =
     (if rv_passesPredictedGate verdict then SrPass
      else SrFail (map gf_code (pv_blockers (rv_predictedGateVerdict verdict))))"

record IterationState =
  is_iterationNumber :: jsnum
  is_maxIterations :: jsnum
  is_costCeilingReached :: "bool option"
  is_selfReview :: SelfReviewOutcome
  is_previousBlockerCodes :: "string list option"
  is_rejectionSignaled :: bool
  is_autonomyLevel :: "AutonomyLevel option"

record HandoffPacket =
  hp_worktreePath :: string
  hp_branchRef :: "string option"
  hp_diffSummary :: msg
  hp_selfReviewVerdict :: SelfReviewVerdict
  hp_attemptLogReference :: string
  hp_changedFiles :: "string list option"

record IterateLoopDecision =
  ld_action :: IterateLoopAction
  ld_reason :: msg
  ld_abandonReason :: "AbandonReason option"
  ld_requiresApproval :: bool

text \<open>\<open>new Set(xs)\<close> keeps the first occurrence of each element.\<close>

definition js_set :: "string list \<Rightarrow> string list" where
  "js_set xs = rev (remdups (rev xs))"

definition blockerSetsEqual :: "string list \<Rightarrow> string list \<Rightarrow> bool" where
  "blockerSetsEqual current previous =
     (if length current \<noteq> length previous then False
      else let currentSet = js_set current; previousSet = js_set previous in
        if length currentSet \<noteq> length previousSet then False
        else list_all (\<lambda>code. code \<in> set previousSet) currentSet)"

definition abandonDecision :: "AbandonReason \<Rightarrow> msg \<Rightarrow> IterateLoopDecision" where
  "abandonDecision why reason =
     \<lparr>ld_action = ActAbandon, ld_reason = reason, ld_abandonReason = Some why,
      ld_requiresApproval = False\<rparr>"

definition handoffDecision :: "bool \<Rightarrow> IterateLoopDecision" where
  "handoffDecision approval =
     \<lparr>ld_action = ActHandoff, ld_reason = lit ''Self-review reached a clean predicted-gate pass.'',
      ld_abandonReason = None, ld_requiresApproval = approval\<rparr>"

definition continueDecision :: IterateLoopDecision where
  "continueDecision =
     \<lparr>ld_action = ActContinue,
      ld_reason = lit ''Self-review still failing but the blocker set changed since the prior iteration; continuing.'',
      ld_abandonReason = None, ld_requiresApproval = False\<rparr>"

text \<open>Steps 4 to 7 of the ladder, for a failing self-review.\<close>

definition decideOnFailure :: "IterationState \<Rightarrow> string list \<Rightarrow> IterateLoopDecision" where
  "decideOnFailure state codes =
     (if num_ge (is_iterationNumber state) (is_maxIterations state) then
        abandonDecision MaxIterationsReached
          [Lit ''Reached the iteration ceiling ('', NumV (is_maxIterations state),
           Lit '') without a clean predicted-gate pass.'']
      else if is_costCeilingReached state = Some True then
        abandonDecision CostCeilingReached
          (lit ''Reached the attempt's cost ceiling (cumulative driver spend across every iteration so far) without a clean predicted-gate pass.'')
      else (case is_previousBlockerCodes state of
        Some previous \<Rightarrow>
          if blockerSetsEqual codes previous then
            abandonDecision NoProgress
              (lit (''Blocker set unchanged from the prior iteration ('' @
                 (let joined = str_join '', '' codes in if joined = [] then ''no blockers listed'' else joined) @
                 ''); stopping rather than repeating an attempt that is not converging.''))
          else continueDecision
      | None \<Rightarrow> continueDecision))"

definition decideNextActionWithReason :: "IterationState \<Rightarrow> IterateLoopDecision" where
  "decideNextActionWithReason state =
     (if is_rejectionSignaled state then
        abandonDecision RejectionSignaled
          (lit ''Repo or contributor has signaled it does not want automated contributions; disengaging silently rather than retry-hammering.'')
      else case is_selfReview state of
        SrAmbiguous reason \<Rightarrow>
          abandonDecision SelfReviewAmbiguous
            (lit (''Self-review could not conclusively determine pass/fail'' @
               (if or_default reason [] \<noteq> [] then '': '' @ or_default reason [] else ''.'') @
               '' Downgrading to abandon rather than optimistically handing off.''))
      | SrPass \<Rightarrow>
          (let autonomyLevel = or_default (is_autonomyLevel state) Auto in
           if autonomyLevel = Observe then
             abandonDecision AutonomyObserveOnly
               (lit ''Self-review reached a clean predicted-gate pass, but the configured self-loop autonomy level is observe-only; stopping without handing off.'')
           else handoffDecision (autonomyLevel = AutoWithApproval))
      | SrFail codes \<Rightarrow> decideOnFailure state codes)"

definition decideNextAction :: "IterationState \<Rightarrow> IterateLoopAction" where
  "decideNextAction state = ld_action (decideNextActionWithReason state)"


section \<open>Lemmas: policy\<close>

lemma set_js_set [simp]: "set (js_set xs) = set xs"
  by (simp add: js_set_def)

lemma length_js_set: "length (js_set xs) = card (set xs)"
  by (simp add: js_set_def length_remdups_card_conv)

lemma blockerSetsEqual_iff:
  "blockerSetsEqual current previous \<longleftrightarrow> length current = length previous \<and> set current = set previous"
proof -
  have "set current = set previous" if "card (set current) = card (set previous)" "set current \<subseteq> set previous"
    using that by (metis List.finite_set card_subset_eq)
  then show ?thesis
    by (auto simp: blockerSetsEqual_def Let_def length_js_set list_all_iff)
qed

lemma decision_actions [simp]:
  "ld_action (abandonDecision why reason) = ActAbandon"
  "ld_action (handoffDecision approval) = ActHandoff"
  "ld_action continueDecision = ActContinue"
  by (simp_all add: abandonDecision_def handoffDecision_def continueDecision_def)

lemma decideOnFailure_action:
  "ld_action (decideOnFailure state codes) =
     (if num_ge (is_iterationNumber state) (is_maxIterations state) \<or>
         is_costCeilingReached state = Some True \<or>
         (\<exists>p. is_previousBlockerCodes state = Some p \<and> blockerSetsEqual codes p)
      then ActAbandon else ActContinue)"
  by (auto simp: decideOnFailure_def split: option.splits)

lemma decide_handoff:
  "decideNextAction state = ActHandoff \<longleftrightarrow>
     \<not> is_rejectionSignaled state \<and> is_selfReview state = SrPass \<and> is_autonomyLevel state \<noteq> Some Observe"
  by (cases "is_autonomyLevel state")
    (auto simp: decideNextAction_def decideNextActionWithReason_def decideOnFailure_action Let_def
      split: SelfReviewOutcome.splits)

lemma decide_continue:
  "decideNextAction state = ActContinue \<longleftrightarrow>
     \<not> is_rejectionSignaled state \<and>
     (\<exists>codes. is_selfReview state = SrFail codes \<and>
        \<not> num_ge (is_iterationNumber state) (is_maxIterations state) \<and>
        is_costCeilingReached state \<noteq> Some True \<and>
        (\<forall>p. is_previousBlockerCodes state = Some p \<longrightarrow> \<not> (length codes = length p \<and> set codes = set p)))"
  by (cases "is_autonomyLevel state")
    (auto simp: decideNextAction_def decideNextActionWithReason_def decideOnFailure_action Let_def
      blockerSetsEqual_iff split: SelfReviewOutcome.splits)

text \<open>the policy's three outcomes, for every state. It hands off iff no rejection was signaled, the self-review passed
  and the autonomy level is not observe-only; it asks for approval exactly on a hand-off under \<open>auto_with_approval\<close>. It
  continues iff no rejection was signaled, the self-review failed, both ceilings are still ahead and the blockers changed
  (in number or as a set) since the previous iteration. Everything else abandons, and an abandonment always names its
  reason while no other decision does.\<close>

theorem decideNextAction_iff:
  "(decideNextAction state = ActHandoff \<longleftrightarrow>
      \<not> is_rejectionSignaled state \<and> is_selfReview state = SrPass \<and> is_autonomyLevel state \<noteq> Some Observe)
   \<and> (decideNextAction state = ActContinue \<longleftrightarrow>
      \<not> is_rejectionSignaled state \<and>
      (\<exists>codes. is_selfReview state = SrFail codes \<and>
         \<not> num_ge (is_iterationNumber state) (is_maxIterations state) \<and>
         is_costCeilingReached state \<noteq> Some True \<and>
         (\<nexists>p. is_previousBlockerCodes state = Some p \<and> length codes = length p \<and> set codes = set p)))
   \<and> (ld_requiresApproval (decideNextActionWithReason state) \<longleftrightarrow>
      decideNextAction state = ActHandoff \<and> is_autonomyLevel state = Some AutoWithApproval)
   \<and> (decideNextAction state = ActAbandon \<longleftrightarrow> ld_abandonReason (decideNextActionWithReason state) \<noteq> None)"
proof (intro conjI)
  show "decideNextAction state = ActHandoff \<longleftrightarrow>
      \<not> is_rejectionSignaled state \<and> is_selfReview state = SrPass \<and> is_autonomyLevel state \<noteq> Some Observe"
    by (rule decide_handoff)
  show "decideNextAction state = ActContinue \<longleftrightarrow>
      \<not> is_rejectionSignaled state \<and>
      (\<exists>codes. is_selfReview state = SrFail codes \<and>
         \<not> num_ge (is_iterationNumber state) (is_maxIterations state) \<and>
         is_costCeilingReached state \<noteq> Some True \<and>
         (\<nexists>p. is_previousBlockerCodes state = Some p \<and> length codes = length p \<and> set codes = set p))"
    unfolding decide_continue by auto
  show "ld_requiresApproval (decideNextActionWithReason state) \<longleftrightarrow>
      decideNextAction state = ActHandoff \<and> is_autonomyLevel state = Some AutoWithApproval"
    unfolding decide_handoff by (cases "is_autonomyLevel state")
      (auto simp: decideNextActionWithReason_def decideOnFailure_def abandonDecision_def handoffDecision_def
        continueDecision_def Let_def split: SelfReviewOutcome.splits option.splits)
  show "decideNextAction state = ActAbandon \<longleftrightarrow> ld_abandonReason (decideNextActionWithReason state) \<noteq> None"
    by (auto simp: decideNextAction_def decideNextActionWithReason_def decideOnFailure_def abandonDecision_def
        handoffDecision_def continueDecision_def Let_def split: SelfReviewOutcome.splits option.splits)
qed

lemma runSelfReview_Inr:
  "runSelfReview gate slop ds ctx = Inr v \<Longrightarrow>
     (rv_passesPredictedGate v \<longleftrightarrow> pv_conclusion (rv_predictedGateVerdict v) = ConclSuccess) \<and>
     rv_changedPaths v = map cf_path (ds_changedFiles ds)"
  by (auto simp: runSelfReview_def and_then_Inr Let_def isClearPass_def SELF_REVIEW_PASSING_CONCLUSION_def
      buildSelfReviewChangedPaths_def)

end
