(* ===== verification/Iterate_Loop.thy ===== *)
theory Iterate_Loop
  imports Self_Review
begin

text \<open>
  The create, score, self-review and decide loop of one attempt
  (\<open>packages/loopover-engine/src/miner/iterate-loop.ts\<close>).

  The injected dependencies are parameters: the driver, the two self-review calculators, the k-th
  reading of the clock and the k-th answer of the abort probe. \<open>loop_world\<close> counts what the loop has
  asked of them: the tasks handed to the driver and the events handed to the attempt log
  (\<open>lw_agent\<close>), the clock readings and the probes. \<open>safeAppendAttemptLogEvent\<close> swallows every error of
  the log, so the loop only ever hands events over. A rejected promise is \<open>Inl\<close>. The mutable locals
  of the loop body and its meter tracker are the fields of \<open>loop_state\<close>.
\<close>

section \<open>Definitions\<close>

record IterateLoopInput =
  li_attemptId :: string
  li_workingDirectory :: string
  li_acceptanceCriteriaPath :: string
  li_instructions :: string
  li_mode :: CodingAgentExecutionMode
  li_maxIterations :: jsnum
  li_maxTurnsPerIteration :: jsnum
  li_budget :: "AttemptBudget option"
  li_repoFullName :: string
  li_contributorLogin :: string
  li_title :: string
  li_body :: "string option"
  li_labels :: "string list option"
  li_linkedIssues :: "jsnum list option"
  li_authorAssociation :: "string option"
  li_branchRef :: "string option"
  li_reviewContext :: SelfReviewContext
  li_rejectionSignaled :: bool
  li_autonomyLevel :: "AutonomyLevel option"

datatype IterateLoopShouldAbort = AbortFlag bool | AbortObject bool "string option"

record IterateLoopDeps =
  dp_driver :: CodingAgentDriver
  dp_buildPredictedGateVerdict :: predicted_gate
  dp_runSlopAssessment :: slop_assessor
  dp_nowMs :: "nat \<Rightarrow> jsnum"
  dp_shouldAbort :: "(nat \<Rightarrow> thrown + IterateLoopShouldAbort) option"

datatype IterateLoopOutcome = OutHandoff | OutAbandon

record IterateLoopIterationRecord =
  ir_iterationNumber :: nat
  ir_driverResult :: CodingAgentDriverResult
  ir_decision :: IterateLoopDecision

record IterateLoopCoreResult =
  lr_outcome :: IterateLoopOutcome
  lr_finalDecision :: IterateLoopDecision
  lr_iterationsUsed :: nat
  lr_totalTurnsUsed :: jsnum
  lr_totalCostUsd :: jsnum
  lr_iterations :: "IterateLoopIterationRecord list"
  lr_handoffPacket :: "HandoffPacket option"

record IterateLoopResult =
  lo_core :: IterateLoopCoreResult
  lo_finalMeterTotals :: AttemptMeterTotals
  lo_budgetBreaches :: "AttemptBudgetAxis list"

record loop_world =
  lw_agent :: agent_world
  lw_clock :: nat
  lw_probes :: nat

record loop_state =
  ls_previousBlockerCodes :: "string list option"
  ls_totalTurnsUsed :: jsnum
  ls_totalCostUsd :: jsnum
  ls_iterations :: "IterateLoopIterationRecord list"
  ls_totals :: AttemptMeterTotals
  ls_breaches :: "AttemptBudgetAxis list"
  ls_world :: loop_world

definition buildAttemptDiffState :: "IterateLoopInput \<Rightarrow> CodingAgentDriverResult \<Rightarrow> AttemptDiffState" where
  "buildAttemptDiffState input dr =
     \<lparr>ds_repoFullName = li_repoFullName input, ds_contributorLogin = li_contributorLogin input,
      ds_title = li_title input, ds_body = li_body input, ds_labels = li_labels input,
      ds_linkedIssues = li_linkedIssues input, ds_authorAssociation = li_authorAssociation input,
      ds_changedFiles = map (\<lambda>path. \<lparr>cf_path = path, cf_additions = None, cf_deletions = None\<rparr>)
        (dr_changedFiles dr),
      ds_testFiles = None, ds_commitMessages = None, ds_issueDiscoveryLane = None\<rparr>"

definition evaluateSelfReviewOutcome ::
  "IterateLoopInput \<Rightarrow> CodingAgentDriverResult \<Rightarrow> IterateLoopDeps
     \<Rightarrow> SelfReviewOutcome \<times> SelfReviewVerdict option" where
  "evaluateSelfReviewOutcome input dr deps =
     (if \<not> dr_ok dr then
        (SrAmbiguous (Some (''driver run did not complete successfully'' @
           (if or_default (dr_error dr) [] \<noteq> [] then '': '' @ or_default (dr_error dr) [] else ''.''))), None)
      else case runSelfReview (dp_buildPredictedGateVerdict deps) (dp_runSlopAssessment deps)
                  (buildAttemptDiffState input dr) (li_reviewContext input) of
        Inr verdict \<Rightarrow> (deriveSelfReviewOutcome verdict, Some verdict)
      | Inl e \<Rightarrow> (SrAmbiguous (Some (''self_review_error: '' @ thrown_message e)), None))"

definition runDriverSafely ::
  "IterateLoopInput \<Rightarrow> IterateLoopDeps \<Rightarrow> CodingAgentDriverTask \<Rightarrow> agent_world
     \<Rightarrow> (thrown + CodingAgentDriverResult) \<times> agent_world" where
  "runDriverSafely input deps task w =
     (if \<not> codingAgentModeExecutes (li_mode input) then
        invokeCodingAgentDriver (dp_driver deps) (li_mode input) task (Some (\<lambda>_. None)) w
      else case driver_run (dp_driver deps) task w of
        (Inr dr, w') \<Rightarrow> (Inr dr, w')
      | (Inl e, w') \<Rightarrow>
          (Inr (bare_result False []\<lparr>dr_error := Some (''driver_threw: '' @ thrown_message e)\<rparr>), w'))"

definition attemptLogEventTypeForDecision :: "IterateLoopDecision \<Rightarrow> AttemptLogEventType" where
  "attemptLogEventTypeForDecision decision =
     (if ld_action decision = ActContinue then AttemptToolEdit
      else if ld_action decision = ActHandoff then AttemptSucceeded
      else if ld_abandonReason decision \<in>
          {Some RejectionSignaled, Some SelfReviewAmbiguous, Some KillSwitchEngaged} then AttemptAborted
      else AttemptFailed)"

definition DEFAULT_ABORT_REASON :: string where
  "DEFAULT_ABORT_REASON =
     ''Kill-switch engaged mid-attempt; abandoning without starting another driver iteration.''"

fun abort_answer :: "IterateLoopShouldAbort \<Rightarrow> bool \<times> string" where
  "abort_answer (AbortFlag raw) = (raw, if raw then DEFAULT_ABORT_REASON else [])"
| "abort_answer (AbortObject ab reason) =
     (if ab then
        (True, (case reason of
           Some r \<Rightarrow> if trim r \<noteq> [] then trim r else DEFAULT_ABORT_REASON
         | None \<Rightarrow> DEFAULT_ABORT_REASON))
      else (False, []))"

definition resolveShouldAbort ::
  "IterateLoopDeps \<Rightarrow> loop_world \<Rightarrow> (thrown + bool \<times> string) \<times> loop_world" where
  "resolveShouldAbort deps w =
     (case dp_shouldAbort deps of
        None \<Rightarrow> (Inr (False, []), w)
      | Some probe \<Rightarrow>
          (and_then (probe (lw_probes w)) (\<lambda>raw. Inr (abort_answer raw)),
           w\<lparr>lw_probes := lw_probes w + 1\<rparr>))"

definition safeAppendAttemptLogEvent :: "AttemptLogEvent \<Rightarrow> loop_world \<Rightarrow> loop_world" where
  "safeAppendAttemptLogEvent ev w = w\<lparr>lw_agent := snd (log_append (Some (\<lambda>_. None)) ev (lw_agent w))\<rparr>"

definition loop_event ::
  "IterateLoopInput \<Rightarrow> AttemptLogEventType \<Rightarrow> msg \<Rightarrow> (string \<times> jsval) list \<Rightarrow> AttemptLogEvent" where
  "loop_event input ty reason payload =
     \<lparr>ale_eventType = ty, ale_attemptId = li_attemptId input, ale_actionClass = ''iterate_loop'',
      ale_mode = li_mode input, ale_reason = reason, ale_payload = Some payload, ale_provider = None,
      ale_costUsd = None, ale_tokensUsed = None\<rparr>"

fun action_name :: "IterateLoopAction \<Rightarrow> string" where
  "action_name ActContinue = ''continue''"
| "action_name ActHandoff = ''handoff''"
| "action_name ActAbandon = ''abandon''"

fun abandonReason_name :: "AbandonReason \<Rightarrow> string" where
  "abandonReason_name RejectionSignaled = ''rejection_signaled''"
| "abandonReason_name SelfReviewAmbiguous = ''self_review_ambiguous''"
| "abandonReason_name MaxIterationsReached = ''max_iterations_reached''"
| "abandonReason_name CostCeilingReached = ''cost_ceiling_reached''"
| "abandonReason_name NoProgress = ''no_progress''"
| "abandonReason_name KillSwitchEngaged = ''kill_switch_engaged''"
| "abandonReason_name AutonomyObserveOnly = ''autonomy_observe_only''"

fun axis_name :: "AttemptBudgetAxis \<Rightarrow> string" where
  "axis_name AxTokens = ''tokens''"
| "axis_name AxTurns = ''turns''"
| "axis_name AxWallClockMs = ''wallClockMs''"
| "axis_name AxCostUsd = ''costUsd''"

definition decision_payload ::
  "nat \<Rightarrow> IterateLoopDecision \<Rightarrow> AttemptBudgetAxis list \<Rightarrow> (string \<times> jsval) list" where
  "decision_payload iterationNumber decision budgetBreaches =
     [(''iterationNumber'', JNum (num_of_nat iterationNumber)),
      (''action'', JStr (action_name (ld_action decision)))] @
     (case ld_abandonReason decision of
        None \<Rightarrow> [] | Some why \<Rightarrow> [(''abandonReason'', JStr (abandonReason_name why))]) @
     (if 0 < length budgetBreaches
      then [(''budgetBreaches'', JArr (map (\<lambda>ax. JStr (axis_name ax)) budgetBreaches))] else [])"

definition logDecision ::
  "IterateLoopInput \<Rightarrow> nat \<Rightarrow> IterateLoopDecision \<Rightarrow> AttemptBudgetAxis list \<Rightarrow> loop_world \<Rightarrow> loop_world" where
  "logDecision input iterationNumber decision budgetBreaches w =
     safeAppendAttemptLogEvent
       (loop_event input (attemptLogEventTypeForDecision decision) (ld_reason decision)
          (decision_payload iterationNumber decision budgetBreaches)) w"

definition finiteNonNegativeUsage :: "jsnum option \<Rightarrow> jsnum" where
  "finiteNonNegativeUsage value =
     (case value of
        Some x \<Rightarrow> if isFinite x \<and> num_ge x (Fin 0) then x else Fin 0
      | None \<Rightarrow> Fin 0)"

definition blockerCodesFromContinuingOutcome :: "SelfReviewOutcome \<Rightarrow> string list" where
  "blockerCodesFromContinuingOutcome outcome = (case outcome of SrFail codes \<Rightarrow> codes | _ \<Rightarrow> [])"

definition buildHandoffPacket ::
  "IterateLoopInput \<Rightarrow> SelfReviewVerdict \<Rightarrow> CodingAgentDriverResult \<Rightarrow> HandoffPacket" where
  "buildHandoffPacket input verdict dr =
     \<lparr>hp_worktreePath = li_workingDirectory input, hp_branchRef = li_branchRef input,
      hp_diffSummary = dr_summary dr, hp_selfReviewVerdict = verdict,
      hp_attemptLogReference = li_attemptId input, hp_changedFiles = Some (dr_changedFiles dr)\<rparr>"

definition ZERO_METER_TOTALS :: AttemptMeterTotals where
  "ZERO_METER_TOTALS =
     \<lparr>au_tokens = Fin 0, au_turns = Fin 0, au_wallClockMs = Fin 0, au_costUsd = Fin 0\<rparr>"

definition immediateAbandonNoIterationsPermitted ::
  "IterateLoopInput \<Rightarrow> loop_world \<Rightarrow> IterateLoopCoreResult \<times> loop_world" where
  "immediateAbandonNoIterationsPermitted input w =
     (let decision = abandonDecision MaxIterationsReached
            [Lit ''maxIterations ('', NumV (li_maxIterations input),
             Lit '') permits no iterations; abandoning without invoking the driver.'']
      in (\<lparr>lr_outcome = OutAbandon, lr_finalDecision = decision, lr_iterationsUsed = 0,
           lr_totalTurnsUsed = Fin 0, lr_totalCostUsd = Fin 0, lr_iterations = [],
           lr_handoffPacket = None\<rparr>,
          safeAppendAttemptLogEvent
            (loop_event input AttemptAborted (ld_reason decision) (decision_payload 0 decision [])) w))"

text \<open>The record each return statement of the loop body builds from the running totals.\<close>

definition core_result ::
  "IterateLoopOutcome \<Rightarrow> IterateLoopDecision \<Rightarrow> nat \<Rightarrow> HandoffPacket option \<Rightarrow> loop_state
     \<Rightarrow> IterateLoopCoreResult" where
  "core_result outcome decision used packet st =
     \<lparr>lr_outcome = outcome, lr_finalDecision = decision, lr_iterationsUsed = used,
      lr_totalTurnsUsed = ls_totalTurnsUsed st, lr_totalCostUsd = ls_totalCostUsd st,
      lr_iterations = ls_iterations st, lr_handoffPacket = packet\<rparr>"

text \<open>The abandonment when the abort probe fires before iteration \<open>i\<close>.\<close>

definition abortIteration ::
  "IterateLoopInput \<Rightarrow> nat \<Rightarrow> string \<Rightarrow> loop_state \<Rightarrow> IterateLoopCoreResult \<times> loop_state" where
  "abortIteration input i reason st =
     (let decision = abandonDecision KillSwitchEngaged (lit reason)
      in (core_result OutAbandon decision (i - 1) None st,
          st\<lparr>ls_world := safeAppendAttemptLogEvent
               (loop_event input (attemptLogEventTypeForDecision decision) (ld_reason decision)
                  (decision_payload (i - 1) decision [])) (ls_world st)\<rparr>))"

definition iteration_task :: "IterateLoopInput \<Rightarrow> CodingAgentDriverTask" where
  "iteration_task input =
     \<lparr>tk_attemptId = li_attemptId input, tk_workingDirectory = li_workingDirectory input,
      tk_acceptanceCriteriaPath = li_acceptanceCriteriaPath input,
      tk_instructions = li_instructions input, tk_maxTurns = li_maxTurnsPerIteration input\<rparr>"

definition iteration_usage :: "CodingAgentDriverResult \<Rightarrow> jsnum \<Rightarrow> AttemptUsage" where
  "iteration_usage dr iterationElapsedMs =
     \<lparr>au_tokens = finiteNonNegativeUsage (dr_tokensUsed dr),
      au_turns = finiteNonNegativeUsage (dr_turnsUsed dr),
      au_wallClockMs = iterationElapsedMs,
      au_costUsd = finiteNonNegativeUsage (dr_costUsd dr)\<rparr>"

text \<open>The timed driver call, then the meter: the running totals and, when a budget is configured, the
  breached axes. A \<open>RangeError\<close> of the meter rejects the run.\<close>

definition runTimedDriver ::
  "IterateLoopInput \<Rightarrow> IterateLoopDeps \<Rightarrow> loop_world
     \<Rightarrow> (thrown + CodingAgentDriverResult \<times> jsnum) \<times> loop_world" where
  "runTimedDriver input deps w =
     (let iterationStartMs = dp_nowMs deps (lw_clock w) in
      case runDriverSafely input deps (iteration_task input) (lw_agent w) of
        (Inl e, aw) \<Rightarrow> (Inl e, w\<lparr>lw_agent := aw, lw_clock := lw_clock w + 1\<rparr>)
      | (Inr dr, aw) \<Rightarrow>
          (let iterationElapsedMs =
                 math_max (Fin 0) (num_sub (dp_nowMs deps (lw_clock w + 1)) iterationStartMs)
           in (Inr (dr, iterationElapsedMs), w\<lparr>lw_agent := aw, lw_clock := lw_clock w + 2\<rparr>)))"

definition meterIteration ::
  "IterateLoopInput \<Rightarrow> CodingAgentDriverResult \<Rightarrow> jsnum \<Rightarrow> loop_state \<Rightarrow> string + loop_state" where
  "meterIteration input dr iterationElapsedMs st =
     and_then (accumulateAttemptUsage (ls_totals st) (iteration_usage dr iterationElapsedMs)) (\<lambda>totals.
     and_then (case li_budget input of
         None \<Rightarrow> Inr []
       | Some budget \<Rightarrow> and_then (evaluateAttemptBudget totals budget) (\<lambda>v. Inr (mv_breaches v)))
       (\<lambda>breaches.
     Inr (st\<lparr>ls_totalTurnsUsed := num_add (ls_totalTurnsUsed st) (finiteNonNegativeUsage (dr_turnsUsed dr)),
             ls_totalCostUsd := num_add (ls_totalCostUsd st) (finiteNonNegativeUsage (dr_costUsd dr)),
             ls_totals := totals, ls_breaches := breaches\<rparr>)))"

definition push_iteration ::
  "nat \<Rightarrow> CodingAgentDriverResult \<Rightarrow> IterateLoopDecision \<Rightarrow> loop_state \<Rightarrow> loop_state" where
  "push_iteration i dr decision st =
     st\<lparr>ls_iterations := ls_iterations st @
        [\<lparr>ir_iterationNumber = i, ir_driverResult = dr, ir_decision = decision\<rparr>]\<rparr>"

definition budgetStop ::
  "IterateLoopInput \<Rightarrow> nat \<Rightarrow> CodingAgentDriverResult \<Rightarrow> loop_state \<Rightarrow> IterateLoopCoreResult \<times> loop_state" where
  "budgetStop input i dr st =
     (let decision = abandonDecision CostCeilingReached
            [Lit (''Reached the attempt's budget ceiling ('' @
                  str_join '', '' (map axis_name (ls_breaches st)) @ '') on iteration ''),
             NumV (num_of_nat i),
             Lit ''; abandoning regardless of this iteration's own result.''];
          st' = push_iteration i dr decision
            (st\<lparr>ls_world := logDecision input i decision (ls_breaches st) (ls_world st)\<rparr>)
      in (core_result OutAbandon decision i None st', st'))"

definition iteration_state ::
  "IterateLoopInput \<Rightarrow> nat \<Rightarrow> nat \<Rightarrow> SelfReviewOutcome \<Rightarrow> loop_state \<Rightarrow> IterationState" where
  "iteration_state input maxIterations i selfReview st =
     \<lparr>is_iterationNumber = num_of_nat i, is_maxIterations = num_of_nat maxIterations,
      is_costCeilingReached = None, is_selfReview = selfReview,
      is_previousBlockerCodes = ls_previousBlockerCodes st,
      is_rejectionSignaled = li_rejectionSignaled input,
      is_autonomyLevel = li_autonomyLevel input\<rparr>"

text \<open>Self-review and decision of an iteration within budget: a result ends the loop, \<open>None\<close> continues.\<close>

definition decideIteration ::
  "IterateLoopInput \<Rightarrow> IterateLoopDeps \<Rightarrow> nat \<Rightarrow> nat \<Rightarrow> CodingAgentDriverResult \<Rightarrow> loop_state
     \<Rightarrow> IterateLoopCoreResult option \<times> loop_state" where
  "decideIteration input deps maxIterations i dr st =
     (case evaluateSelfReviewOutcome input dr deps of (selfReview, verdict) \<Rightarrow>
      let decision = decideNextActionWithReason (iteration_state input maxIterations i selfReview st);
          st' = push_iteration i dr decision
            (st\<lparr>ls_world := logDecision input i decision [] (ls_world st)\<rparr>)
      in case ld_action decision of
           ActHandoff \<Rightarrow>
             (Some (core_result OutHandoff decision i
                (map_option (\<lambda>v. buildHandoffPacket input v dr) verdict) st'), st')
         | ActAbandon \<Rightarrow> (Some (core_result OutAbandon decision i None st'), st')
         | ActContinue \<Rightarrow>
             (None, st'\<lparr>ls_previousBlockerCodes := Some (blockerCodesFromContinuingOutcome selfReview)\<rparr>))"

definition runIteration ::
  "IterateLoopInput \<Rightarrow> IterateLoopDeps \<Rightarrow> nat \<Rightarrow> nat \<Rightarrow> loop_state
     \<Rightarrow> (thrown + IterateLoopCoreResult option) \<times> loop_state" where
  "runIteration input deps maxIterations i st =
     (case resolveShouldAbort deps (ls_world st) of
        (Inl e, w) \<Rightarrow> (Inl e, st\<lparr>ls_world := w\<rparr>)
      | (Inr (True, reason), w) \<Rightarrow>
          (case abortIteration input i reason (st\<lparr>ls_world := w\<rparr>) of (r, st') \<Rightarrow> (Inr (Some r), st'))
      | (Inr (False, _), w) \<Rightarrow>
          (case runTimedDriver input deps w of
             (Inl e, w') \<Rightarrow> (Inl e, st\<lparr>ls_world := w'\<rparr>)
           | (Inr (dr, elapsed), w') \<Rightarrow>
               (case meterIteration input dr elapsed (st\<lparr>ls_world := w'\<rparr>) of
                  Inl e \<Rightarrow> (Inl (ThrownError e), st\<lparr>ls_world := w'\<rparr>)
                | Inr st1 \<Rightarrow>
                    if ls_breaches st1 \<noteq> [] then
                      (case budgetStop input i dr st1 of (r, st') \<Rightarrow> (Inr (Some r), st'))
                    else
                      (case decideIteration input deps maxIterations i dr st1 of
                         (r, st') \<Rightarrow> (Inr r, st')))))"

definition fallback_result :: "nat \<Rightarrow> loop_state \<Rightarrow> IterateLoopCoreResult" where
  "fallback_result maxIterations st =
     core_result OutAbandon
       (abandonDecision MaxIterationsReached (lit ''Iterate loop exhausted its iteration budget.''))
       maxIterations None st"

text \<open>The \<open>for\<close> loop from iteration \<open>i\<close>.\<close>

function iterateFrom ::
  "IterateLoopInput \<Rightarrow> IterateLoopDeps \<Rightarrow> nat \<Rightarrow> nat \<Rightarrow> loop_state
     \<Rightarrow> (thrown + IterateLoopCoreResult) \<times> loop_state" where
  "iterateFrom input deps maxIterations i st =
     (if i \<le> maxIterations then
        (case runIteration input deps maxIterations i st of
           (Inl e, st') \<Rightarrow> (Inl e, st')
         | (Inr (Some r), st') \<Rightarrow> (Inr r, st')
         | (Inr None, st') \<Rightarrow> iterateFrom input deps maxIterations (i + 1) st')
      else (Inr (fallback_result maxIterations st), st))"
  by pat_completeness auto

termination
  by (relation "measure (\<lambda>(input, deps, n, i, st). Suc n - i)") auto

definition initial_state :: "loop_world \<Rightarrow> loop_state" where
  "initial_state w =
     \<lparr>ls_previousBlockerCodes = None, ls_totalTurnsUsed = Fin 0, ls_totalCostUsd = Fin 0,
      ls_iterations = [], ls_totals = ZERO_METER_TOTALS, ls_breaches = [], ls_world = w\<rparr>"

definition permitted_iterations :: "IterateLoopInput \<Rightarrow> nat" where
  "permitted_iterations input =
     (case math_max (Fin 0) (math_trunc (li_maxIterations input)) of
        Fin q \<Rightarrow> if num_le (Fin q) (Fin 0) then 0 else nat \<lfloor>q\<rfloor>
      | _ \<Rightarrow> 0)"

definition logStart :: "IterateLoopInput \<Rightarrow> nat \<Rightarrow> loop_state \<Rightarrow> loop_state" where
  "logStart input maxIterations st =
     st\<lparr>ls_world := safeAppendAttemptLogEvent
          (loop_event input AttemptStarted (lit ''iterate_loop_started'')
             [(''maxIterations'', JNum (num_of_nat maxIterations)),
              (''maxTurnsPerIteration'', JNum (li_maxTurnsPerIteration input))]) (ls_world st)\<rparr>"

definition runIterateLoopCore ::
  "IterateLoopInput \<Rightarrow> IterateLoopDeps \<Rightarrow> loop_state
     \<Rightarrow> (thrown + IterateLoopCoreResult) \<times> loop_state" where
  "runIterateLoopCore input deps st =
     (let maxIterations = permitted_iterations input in
      if maxIterations = 0 then
        (case immediateAbandonNoIterationsPermitted input (ls_world st) of
           (r, w) \<Rightarrow> (Inr r, st\<lparr>ls_world := w\<rparr>))
      else
        iterateFrom input deps maxIterations 1 (logStart input maxIterations st))"

definition runIterateLoop ::
  "IterateLoopInput \<Rightarrow> IterateLoopDeps \<Rightarrow> loop_world
     \<Rightarrow> (thrown + IterateLoopResult) \<times> loop_world" where
  "runIterateLoop input deps w =
     (case runIterateLoopCore input deps (initial_state w) of
        (Inl e, st) \<Rightarrow> (Inl e, ls_world st)
      | (Inr core, st) \<Rightarrow>
          (Inr \<lparr>lo_core = core, lo_finalMeterTotals = ls_totals st, lo_budgetBreaches = ls_breaches st\<rparr>,
           ls_world st))"

declare iterateFrom.simps [simp del]



section \<open>Rules for reasoning about a run\<close>

text \<open>The loop rule: an invariant indexed by the iteration number, and a postcondition every way out of
  the loop establishes.\<close>

lemma iterateFrom_rule:
  assumes "I i st"
    and step: "\<And>i st out st'. I i st \<Longrightarrow> i \<le> n \<Longrightarrow> runIteration input deps n i st = (out, st') \<Longrightarrow>
      (case out of Inl e \<Rightarrow> Q (Inl e) st' | Inr None \<Rightarrow> I (Suc i) st' | Inr (Some r) \<Rightarrow> Q (Inr r) st')"
    and fallback: "\<And>i st. I i st \<Longrightarrow> n < i \<Longrightarrow> Q (Inr (fallback_result n st)) st"
  shows "case iterateFrom input deps n i st of (out, st') \<Rightarrow> Q out st'"
  using assms(1)
proof (induction "Suc n - i" arbitrary: i st)
  case 0
  then show ?case using fallback by (simp add: iterateFrom.simps[of _ _ n i])
next
  case (Suc k)
  obtain out st' where run: "runIteration input deps n i st = (out, st')" by force
  have i: "i \<le> n" using Suc.hyps(2) by simp
  note st = step[OF Suc.prems i run]
  show ?case
  proof (cases out)
    case (Inl e) with st i run show ?thesis by (simp add: iterateFrom.simps[of _ _ n i])
  next
    case (Inr res)
    show ?thesis
    proof (cases res)
      case (Some r) with Inr st i run show ?thesis by (simp add: iterateFrom.simps[of _ _ n i])
    next
      case None
      with Inr st have "I (Suc i) st'" by simp
      moreover have "k = Suc n - Suc i" using Suc.hyps(2) by simp
      ultimately have "case iterateFrom input deps n (Suc i) st' of (out, st') \<Rightarrow> Q out st'"
        by (intro Suc.hyps(1))
      with None Inr i run show ?thesis by (simp add: iterateFrom.simps[of _ _ n i])
    qed
  qed
qed

text \<open>The ways one iteration can go.\<close>

inductive iteration_goes ::
  "IterateLoopInput \<Rightarrow> IterateLoopDeps \<Rightarrow> nat \<Rightarrow> nat \<Rightarrow> loop_state
     \<Rightarrow> (thrown + IterateLoopCoreResult option) \<Rightarrow> loop_state \<Rightarrow> bool" for input deps n i st where
  probe_throws: "resolveShouldAbort deps (ls_world st) = (Inl e, w) \<Longrightarrow>
     iteration_goes input deps n i st (Inl e) (st\<lparr>ls_world := w\<rparr>)"
| aborted: "resolveShouldAbort deps (ls_world st) = (Inr (True, reason), w) \<Longrightarrow>
     abortIteration input i reason (st\<lparr>ls_world := w\<rparr>) = (r, st') \<Longrightarrow>
     iteration_goes input deps n i st (Inr (Some r)) st'"
| meter_throws: "resolveShouldAbort deps (ls_world st) = (Inr (False, z), w) \<Longrightarrow>
     runTimedDriver input deps w = (Inr (dr, elapsed), w') \<Longrightarrow>
     meterIteration input dr elapsed (st\<lparr>ls_world := w'\<rparr>) = Inl e \<Longrightarrow>
     iteration_goes input deps n i st (Inl (ThrownError e)) (st\<lparr>ls_world := w'\<rparr>)"
| over_budget: "resolveShouldAbort deps (ls_world st) = (Inr (False, z), w) \<Longrightarrow>
     runTimedDriver input deps w = (Inr (dr, elapsed), w') \<Longrightarrow>
     meterIteration input dr elapsed (st\<lparr>ls_world := w'\<rparr>) = Inr st1 \<Longrightarrow> ls_breaches st1 \<noteq> [] \<Longrightarrow>
     budgetStop input i dr st1 = (r, st') \<Longrightarrow>
     iteration_goes input deps n i st (Inr (Some r)) st'"
| decided: "resolveShouldAbort deps (ls_world st) = (Inr (False, z), w) \<Longrightarrow>
     runTimedDriver input deps w = (Inr (dr, elapsed), w') \<Longrightarrow>
     meterIteration input dr elapsed (st\<lparr>ls_world := w'\<rparr>) = Inr st1 \<Longrightarrow> ls_breaches st1 = [] \<Longrightarrow>
     decideIteration input deps n i dr st1 = (res, st') \<Longrightarrow>
     iteration_goes input deps n i st (Inr res) st'"

lemma runDriverSafely_cases:
  "runDriverSafely input deps task w = (out, w') \<Longrightarrow>
     \<exists>dr. out = Inr dr \<and>
       aw_tasks w' = aw_tasks w @ (if li_mode input = CmLive then [task] else []) \<and>
       (dr_ok dr \<longrightarrow> (case li_mode input of
          CmPaused \<Rightarrow> False
        | CmDryRun \<Rightarrow> dr = bare_result True (shadowSummary task)\<lparr>dr_turnsUsed := Some (Fin 0)\<rparr>
        | CmLive \<Rightarrow> dp_driver deps (length (aw_tasks w)) task = Inr dr))"
proof (cases "li_mode input")
  case CmLive
  assume run: "runDriverSafely input deps task w = (out, w')"
  show ?thesis
  proof (cases "dp_driver deps (length (aw_tasks w)) task")
    case (Inl e)
    with run CmLive show ?thesis
      by (auto simp: runDriverSafely_def codingAgentModeExecutes_def driver_run_def bare_result_def)
  next
    case (Inr dr)
    with run CmLive show ?thesis
      by (intro exI[of _ dr]) (auto simp: runDriverSafely_def codingAgentModeExecutes_def driver_run_def)
  qed
qed (auto simp: runDriverSafely_def codingAgentModeExecutes_def invokeCodingAgentDriver_def
      log_append_def bare_result_def)

lemma runTimedDriver_Inr:
  assumes "runTimedDriver input deps w = (out, w')"
  obtains dr elapsed aw where "out = Inr (dr, elapsed)"
    "runDriverSafely input deps (iteration_task input) (lw_agent w) = (Inr dr, aw)"
    "elapsed = math_max (Fin 0) (num_sub (dp_nowMs deps (lw_clock w + 1)) (dp_nowMs deps (lw_clock w)))"
    "w' = w\<lparr>lw_agent := aw, lw_clock := lw_clock w + 2\<rparr>"
proof -
  obtain dr aw where "runDriverSafely input deps (iteration_task input) (lw_agent w) = (Inr dr, aw)"
    by (metis runDriverSafely_cases surj_pair)
  with assms that show thesis by (auto simp: runTimedDriver_def Let_def)
qed

lemma runIteration_goes:
  assumes "runIteration input deps n i st = (out, st')"
  shows "iteration_goes input deps n i st out st'"
proof -
  obtain ans w where probe: "resolveShouldAbort deps (ls_world st) = (ans, w)" by force
  obtain o1 w' where timed: "runTimedDriver input deps w = (o1, w')" by force
  obtain dr elapsed where o1: "o1 = Inr (dr, elapsed)" using timed by (rule runTimedDriver_Inr)
  show ?thesis
  proof (cases ans)
    case (Inl e)
    with assms probe show ?thesis by (auto simp: runIteration_def intro: probe_throws)
  next
    case (Inr a)
    obtain b z where a: "a = (b, z)" by force
    show ?thesis
    proof (cases b)
      case True
      with assms probe Inr a show ?thesis
        by (auto simp: runIteration_def intro: aborted split: prod.splits)
    next
      case False
      with assms probe Inr a timed o1 show ?thesis
        by (auto simp: runIteration_def intro: meter_throws over_budget decided
            split: sum.splits prod.splits if_splits)
    qed
  qed
qed

text \<open>The projections of a step that the invariants below are about.\<close>

abbreviation ls_tasks :: "loop_state \<Rightarrow> CodingAgentDriverTask list" where
  "ls_tasks st \<equiv> aw_tasks (lw_agent (ls_world st))"

abbreviation ls_log :: "loop_state \<Rightarrow> AttemptLogEvent list" where
  "ls_log st \<equiv> aw_log (lw_agent (ls_world st))"

lemma safeAppend_simps [simp]:
  "aw_tasks (lw_agent (safeAppendAttemptLogEvent ev w)) = aw_tasks (lw_agent w)"
  "aw_log (lw_agent (safeAppendAttemptLogEvent ev w)) = aw_log (lw_agent w) @ [ev]"
  "lw_clock (safeAppendAttemptLogEvent ev w) = lw_clock w"
  "lw_probes (safeAppendAttemptLogEvent ev w) = lw_probes w"
  by (simp_all add: safeAppendAttemptLogEvent_def log_append_def)

lemma resolveShouldAbort_world:
  "resolveShouldAbort deps w = (ans, w') \<Longrightarrow> lw_agent w' = lw_agent w \<and> lw_clock w' = lw_clock w \<and>
     lw_probes w' = lw_probes w + (if dp_shouldAbort deps = None then 0 else 1)"
  by (auto simp: resolveShouldAbort_def split: option.splits)

lemma meterIteration_Inr:
  "meterIteration input dr elapsed st = Inr st1 \<longleftrightarrow>
     (let t = usage_add (ls_totals st) (iteration_usage dr elapsed) in
      usage_ok (ls_totals st) \<and> usage_ok (iteration_usage dr elapsed) \<and>
      (\<forall>b. li_budget input = Some b \<longrightarrow> usage_ok t \<and> budget_ok b) \<and>
      st1 = st\<lparr>ls_totalTurnsUsed := num_add (ls_totalTurnsUsed st) (finiteNonNegativeUsage (dr_turnsUsed dr)),
               ls_totalCostUsd := num_add (ls_totalCostUsd st) (finiteNonNegativeUsage (dr_costUsd dr)),
               ls_totals := t,
               ls_breaches := (case li_budget input of None \<Rightarrow> [] | Some b \<Rightarrow> budget_breaches t b)\<rparr>)"
  by (auto simp: meterIteration_def and_then_Inr accumulateAttemptUsage_Inr evaluateAttemptBudget_Inr
      Let_def split: option.splits)

lemma logDecision_simps [simp]:
  "aw_tasks (lw_agent (logDecision input i d bs w)) = aw_tasks (lw_agent w)"
  "aw_log (lw_agent (logDecision input i d bs w)) = aw_log (lw_agent w) @
     [loop_event input (attemptLogEventTypeForDecision d) (ld_reason d) (decision_payload i d bs)]"
  "lw_clock (logDecision input i d bs w) = lw_clock w"
  "lw_probes (logDecision input i d bs w) = lw_probes w"
  by (simp_all add: logDecision_def)



section \<open>How often the driver runs\<close>

text \<open>The tasks handed to the driver in the first \<open>k\<close> iterations.\<close>

definition driver_tasks :: "IterateLoopInput \<Rightarrow> nat \<Rightarrow> CodingAgentDriverTask list" where
  "driver_tasks input k = (if li_mode input = CmLive then replicate k (iteration_task input) else [])"

lemma driver_tasks_Suc:
  "driver_tasks input (Suc k) = driver_tasks input k @
     (if li_mode input = CmLive then [iteration_task input] else [])"
  by (simp add: driver_tasks_def replicate_append_same)

lemma runTimedDriver_tasks:
  "runTimedDriver input deps w = (out, w') \<Longrightarrow>
     aw_tasks (lw_agent w') = aw_tasks (lw_agent w) @
       (if li_mode input = CmLive then [iteration_task input] else [])"
  by (erule runTimedDriver_Inr) (auto dest: runDriverSafely_cases)

lemma meterIteration_world: "meterIteration input dr elapsed st = Inr st1 \<Longrightarrow> ls_world st1 = ls_world st"
  by (auto simp: meterIteration_Inr Let_def)

lemma budgetStop_simps:
  "budgetStop input i dr st = (r, st') \<Longrightarrow>
     ls_tasks st' = ls_tasks st \<and> lr_iterationsUsed r = i \<and> lr_outcome r = OutAbandon \<and>
     ls_totals st' = ls_totals st \<and> ls_breaches st' = ls_breaches st \<and>
     lw_clock (ls_world st') = lw_clock (ls_world st) \<and> lw_probes (ls_world st') = lw_probes (ls_world st)"
  by (auto simp: budgetStop_def Let_def push_iteration_def core_result_def)

lemma decideIteration_simps:
  "decideIteration input deps n i dr st = (res, st') \<Longrightarrow>
     ls_tasks st' = ls_tasks st \<and> ls_totals st' = ls_totals st \<and> ls_breaches st' = ls_breaches st \<and>
     lw_clock (ls_world st') = lw_clock (ls_world st) \<and> lw_probes (ls_world st') = lw_probes (ls_world st) \<and>
     (\<forall>r. res = Some r \<longrightarrow> lr_iterationsUsed r = i)"
  by (auto simp: decideIteration_def Let_def push_iteration_def core_result_def
      split: prod.splits IterateLoopAction.splits)

lemma abortIteration_simps:
  "abortIteration input i reason st = (r, st') \<Longrightarrow>
     ls_tasks st' = ls_tasks st \<and> lr_iterationsUsed r = i - 1 \<and> lr_outcome r = OutAbandon \<and>
     lr_finalDecision r = abandonDecision KillSwitchEngaged (lit reason) \<and>
     ls_totals st' = ls_totals st \<and> ls_breaches st' = ls_breaches st"
  by (auto simp: abortIteration_def Let_def core_result_def)

lemma iteration_tasks:
  assumes "iteration_goes input deps n i st out st'" and "1 \<le> i"
    and "ls_tasks st = T @ driver_tasks input (i - 1)"
  shows "case out of
      Inl e \<Rightarrow> \<exists>k \<le> i. ls_tasks st' = T @ driver_tasks input k
    | Inr None \<Rightarrow> ls_tasks st' = T @ driver_tasks input i
    | Inr (Some r) \<Rightarrow> ls_tasks st' = T @ driver_tasks input (lr_iterationsUsed r) \<and> lr_iterationsUsed r \<le> i"
proof -
  obtain j where i: "i = Suc j" using assms(2) by (cases i) auto
  show ?thesis using assms(1)
  proof cases
    case (probe_throws e w)
    then show ?thesis using assms(3) i
      by (auto dest!: resolveShouldAbort_world intro!: exI[of _ j])
  next
    case (aborted reason w r)
    then show ?thesis using assms(3) i
      by (auto dest!: resolveShouldAbort_world abortIteration_simps)
  next
    case (meter_throws z w dr elapsed w' e)
    then show ?thesis using assms(3) i
      by (auto dest!: resolveShouldAbort_world runTimedDriver_tasks
          simp: driver_tasks_Suc intro!: exI[of _ "Suc j"])
  next
    case (over_budget z w dr elapsed w' st1 r)
    then show ?thesis using assms(3) i
      by (auto dest!: resolveShouldAbort_world runTimedDriver_tasks meterIteration_world budgetStop_simps
          simp: driver_tasks_Suc)
  next
    case (decided z w dr elapsed w' st1 res)
    then show ?thesis using assms(3) i
      by (auto dest!: resolveShouldAbort_world runTimedDriver_tasks meterIteration_world decideIteration_simps
          simp: driver_tasks_Suc split: option.splits)
  qed
qed

lemma iterateFrom_tasks:
  "case iterateFrom input deps n 1 st of (out, st') \<Rightarrow>
     (case out of
        Inl e \<Rightarrow> \<exists>k \<le> n. ls_tasks st' = ls_tasks st @ driver_tasks input k
      | Inr r \<Rightarrow> ls_tasks st' = ls_tasks st @ driver_tasks input (lr_iterationsUsed r) \<and>
          lr_iterationsUsed r \<le> n)"
proof (rule iterateFrom_rule[where I = "\<lambda>i st'. 1 \<le> i \<and> i \<le> Suc n \<and>
    ls_tasks st' = ls_tasks st @ driver_tasks input (i - 1)"])
  show "1 \<le> (1::nat) \<and> 1 \<le> Suc n \<and> ls_tasks st = ls_tasks st @ driver_tasks input (1 - 1)"
    by (simp add: driver_tasks_def)
next
  fix i st0 out st'
  assume inv: "1 \<le> i \<and> i \<le> Suc n \<and> ls_tasks st0 = ls_tasks st @ driver_tasks input (i - 1)"
    and i: "i \<le> n" and run: "runIteration input deps n i st0 = (out, st')"
  from run have "iteration_goes input deps n i st0 out st'" by (rule runIteration_goes)
  from iteration_tasks[OF this, of "ls_tasks st"] inv i
  show "case out of
        Inl e \<Rightarrow> (case Inl e of Inl e \<Rightarrow> \<exists>k \<le> n. ls_tasks st' = ls_tasks st @ driver_tasks input k
          | Inr r \<Rightarrow> ls_tasks st' = ls_tasks st @ driver_tasks input (lr_iterationsUsed r) \<and> lr_iterationsUsed r \<le> n)
      | Inr None \<Rightarrow> 1 \<le> Suc i \<and> Suc i \<le> Suc n \<and> ls_tasks st' = ls_tasks st @ driver_tasks input (Suc i - 1)
      | Inr (Some r) \<Rightarrow> (case Inr r of Inl e \<Rightarrow> \<exists>k \<le> n. ls_tasks st' = ls_tasks st @ driver_tasks input k
          | Inr r \<Rightarrow> ls_tasks st' = ls_tasks st @ driver_tasks input (lr_iterationsUsed r) \<and> lr_iterationsUsed r \<le> n)"
    by (auto split: sum.splits option.splits) (metis le_trans)
next
  fix i st0
  assume "1 \<le> i \<and> i \<le> Suc n \<and> ls_tasks st0 = ls_tasks st @ driver_tasks input (i - 1)" "n < i"
  then show "case Inr (fallback_result n st0) of
        Inl e \<Rightarrow> \<exists>k \<le> n. ls_tasks st0 = ls_tasks st @ driver_tasks input k
      | Inr r \<Rightarrow> ls_tasks st0 = ls_tasks st @ driver_tasks input (lr_iterationsUsed r) \<and> lr_iterationsUsed r \<le> n"
    by (auto simp: fallback_result_def core_result_def le_Suc_eq)
qed


lemma logStart_simps [simp]:
  "ls_tasks (logStart input n st) = ls_tasks st"
  "lw_probes (ls_world (logStart input n st)) = lw_probes (ls_world st)"
  "lw_clock (ls_world (logStart input n st)) = lw_clock (ls_world st)"
  "ls_totals (logStart input n st) = ls_totals st"
  "ls_totalTurnsUsed (logStart input n st) = ls_totalTurnsUsed st"
  "ls_totalCostUsd (logStart input n st) = ls_totalCostUsd st"
  "ls_iterations (logStart input n st) = ls_iterations st"
  "ls_breaches (logStart input n st) = ls_breaches st"
  by (simp_all add: logStart_def)

lemma permitted_iterations_le:
  "isFinite (li_maxIterations input) \<Longrightarrow>
     rat_of_nat (permitted_iterations input) \<le> max 0 (fin_val (li_maxIterations input))"
  by (cases "li_maxIterations input") (auto simp: permitted_iterations_def max_def of_nat_nat)

lemma runIterateLoopCore_tasks:
  "case runIterateLoopCore input deps st of (out, st') \<Rightarrow>
     (case out of
        Inl e \<Rightarrow> \<exists>k \<le> permitted_iterations input. ls_tasks st' = ls_tasks st @ driver_tasks input k
      | Inr r \<Rightarrow> ls_tasks st' = ls_tasks st @ driver_tasks input (lr_iterationsUsed r) \<and>
          lr_iterationsUsed r \<le> permitted_iterations input)"
proof (cases "permitted_iterations input = 0")
  case True
  then show ?thesis
    by (simp add: runIterateLoopCore_def immediateAbandonNoIterationsPermitted_def Let_def driver_tasks_def)
next
  case False
  have "ls_tasks (logStart input (permitted_iterations input) st) = ls_tasks st" by simp
  from iterateFrom_tasks[where input = input and deps = deps and n = "permitted_iterations input"
      and st = "logStart input (permitted_iterations input) st", unfolded this] False
  show ?thesis by (simp add: runIterateLoopCore_def Let_def)
qed

text \<open>every run of the loop ends (the model is a total function) having called the driver a bounded number of times:
  in live mode once per iteration used, always with the input's own task, and never more often than \<open>maxIterations\<close>
  (truncated, at least 0) permits; in paused and dry-run mode, never. A run whose promise is rejected obeys the same
  bound.\<close>

theorem runIterateLoop_driver_calls:
  "case runIterateLoop input deps w of (out, w') \<Rightarrow>
     (case out of
        Inl e \<Rightarrow> \<exists>k \<le> permitted_iterations input.
          aw_tasks (lw_agent w') = aw_tasks (lw_agent w) @
            (if li_mode input = CmLive then replicate k (iteration_task input) else [])
      | Inr r \<Rightarrow> aw_tasks (lw_agent w') = aw_tasks (lw_agent w) @
            (if li_mode input = CmLive
             then replicate (lr_iterationsUsed (lo_core r)) (iteration_task input) else []) \<and>
          lr_iterationsUsed (lo_core r) \<le> permitted_iterations input)"
  using runIterateLoopCore_tasks[where input = input and deps = deps and st = "initial_state w"]
  unfolding driver_tasks_def
  by (auto simp: runIterateLoop_def initial_state_def split: prod.splits sum.splits)


section \<open>The abort probe\<close>

lemma iteration_probe:
  assumes "iteration_goes input deps n i st out st'" and "dp_shouldAbort deps = Some probe"
    and "probe (lw_probes (ls_world st)) = Inr raw"
  shows "if fst (abort_answer raw)
         then \<exists>r. out = Inr (Some r) \<and> lr_iterationsUsed r = i - 1 \<and> lr_outcome r = OutAbandon \<and>
           ld_abandonReason (lr_finalDecision r) = Some KillSwitchEngaged
         else (out = Inr None \<longrightarrow> lw_probes (ls_world st') = lw_probes (ls_world st) + 1)"
  using assms(1)
proof cases
  case (probe_throws e w)
  with assms(2,3) show ?thesis by (simp add: resolveShouldAbort_def)
next
  case (aborted reason w r)
  with assms(2,3) show ?thesis
    by (auto dest!: abortIteration_simps simp: resolveShouldAbort_def abandonDecision_def)
next
  case (meter_throws z w dr elapsed w' e)
  with assms(2,3) show ?thesis by (auto simp: resolveShouldAbort_def)
next
  case (over_budget z w dr elapsed w' st1 r)
  with assms(2,3) show ?thesis by (auto simp: resolveShouldAbort_def)
next
  case (decided z w dr elapsed w' st1 res)
  have "lw_probes w' = lw_probes w" using decided(3) by (auto elim: runTimedDriver_Inr)
  with decided assms(2,3) show ?thesis
    by (auto dest!: resolveShouldAbort_world meterIteration_world decideIteration_simps
        simp: resolveShouldAbort_def)
qed

text \<open>The probes answered so far did not fire, and iteration \<open>i\<close> is at most the one before which probe \<open>k\<close> fires.\<close>

lemma iterateFrom_probe:
  assumes "dp_shouldAbort deps = Some probe" and "probe (P + k) = Inr raw" "fst (abort_answer raw)"
    and "1 \<le> i" "i - 1 \<le> k" "lw_probes (ls_world st) = P + (i - 1)"
    and "ls_tasks st = T @ driver_tasks input (i - 1)"
  shows "case iterateFrom input deps n i st of (out, st') \<Rightarrow>
     (\<exists>j \<le> k. ls_tasks st' = T @ driver_tasks input j) \<and>
     (\<forall>r. out = Inr r \<longrightarrow> lr_iterationsUsed r \<le> k)"
proof (rule iterateFrom_rule[where I = "\<lambda>i st'. 1 \<le> i \<and> i - 1 \<le> k \<and>
    lw_probes (ls_world st') = P + (i - 1) \<and> ls_tasks st' = T @ driver_tasks input (i - 1)"])
  show "1 \<le> i \<and> i - 1 \<le> k \<and> lw_probes (ls_world st) = P + (i - 1) \<and>
      ls_tasks st = T @ driver_tasks input (i - 1)" using assms by auto
next
  fix i st0 out st'
  assume inv: "1 \<le> i \<and> i - 1 \<le> k \<and> lw_probes (ls_world st0) = P + (i - 1) \<and>
      ls_tasks st0 = T @ driver_tasks input (i - 1)"
    and "runIteration input deps n i st0 = (out, st')"
  then have goes: "iteration_goes input deps n i st0 out st'" by (intro runIteration_goes)
  have tasks: "case out of Inl e \<Rightarrow> \<exists>k \<le> i. ls_tasks st' = T @ driver_tasks input k
    | Inr None \<Rightarrow> ls_tasks st' = T @ driver_tasks input i
    | Inr (Some r) \<Rightarrow> ls_tasks st' = T @ driver_tasks input (lr_iterationsUsed r) \<and> lr_iterationsUsed r \<le> i"
    using inv by (intro iteration_tasks[OF goes]) auto
  show "case out of
      Inl e \<Rightarrow> (\<exists>j \<le> k. ls_tasks st' = T @ driver_tasks input j) \<and>
        (\<forall>r. Inl e = Inr r \<longrightarrow> lr_iterationsUsed r \<le> k)
    | Inr None \<Rightarrow> 1 \<le> Suc i \<and> Suc i - 1 \<le> k \<and>
        lw_probes (ls_world st') = P + (Suc i - 1) \<and> ls_tasks st' = T @ driver_tasks input (Suc i - 1)
    | Inr (Some r) \<Rightarrow> (\<exists>j \<le> k. ls_tasks st' = T @ driver_tasks input j) \<and>
        (\<forall>r'. Inr r = Inr r' \<longrightarrow> lr_iterationsUsed r' \<le> k)"
  proof (cases "i - 1 = k")
    case True
    then have "probe (lw_probes (ls_world st0)) = Inr raw" using inv assms(2) by simp
    then obtain r where "out = Inr (Some r)" "lr_iterationsUsed r = i - 1"
      using iteration_probe[OF goes assms(1)] assms(3) by auto
    with tasks True show ?thesis by auto
  next
    case False
    then have ik: "i \<le> k" using inv by linarith
    have "lw_probes (ls_world st') = P + i" if "out = Inr None"
    proof -
      from goes[unfolded that] obtain ans w where "resolveShouldAbort deps (ls_world st0) = (Inr ans, w)"
        by cases auto
      then obtain raw' where "probe (lw_probes (ls_world st0)) = Inr raw'"
        using assms(1) by (auto simp: resolveShouldAbort_def and_then_Inr)
      with iteration_probe[OF goes assms(1) this] that inv show ?thesis by (auto split: if_splits)
    qed
    with tasks ik show ?thesis by (auto split: sum.splits option.splits intro: le_trans)
  qed
next
  fix i st0
  assume "1 \<le> i \<and> i - 1 \<le> k \<and> lw_probes (ls_world st0) = P + (i - 1) \<and>
      ls_tasks st0 = T @ driver_tasks input (i - 1)" "n < i"
  then show "(\<exists>j \<le> k. ls_tasks st0 = T @ driver_tasks input j) \<and>
      (\<forall>r. Inr (fallback_result n st0) = Inr r \<longrightarrow> lr_iterationsUsed r \<le> k)"
    by (auto simp: fallback_result_def core_result_def)
qed


lemma initial_state_simps [simp]:
  "ls_world (initial_state w) = w" "ls_totals (initial_state w) = ZERO_METER_TOTALS"
  "ls_totalTurnsUsed (initial_state w) = Fin 0" "ls_totalCostUsd (initial_state w) = Fin 0"
  "ls_iterations (initial_state w) = []" "ls_breaches (initial_state w) = []"
  by (simp_all add: initial_state_def)

lemma driver_tasks_0 [simp]: "driver_tasks input 0 = []"
  by (simp add: driver_tasks_def)

text \<open>the mid-attempt kill switch is prompt. If the \<open>k\<close>-th probe of a run (counting from 0) answers with an abort, the
  driver has been called at most \<open>k\<close> times when the run ends, whatever else happens, and a result that is returned
  reports at most \<open>k\<close> iterations.\<close>

theorem kill_switch_stops_the_loop:
  assumes "dp_shouldAbort deps = Some probe"
    and "probe (lw_probes w + k) = Inr raw" and "fst (abort_answer raw)"
  shows "case runIterateLoop input deps w of (out, w') \<Rightarrow>
    (\<exists>j \<le> k. aw_tasks (lw_agent w') = aw_tasks (lw_agent w) @
        (if li_mode input = CmLive then replicate j (iteration_task input) else [])) \<and>
    (\<forall>r. out = Inr r \<longrightarrow> lr_iterationsUsed (lo_core r) \<le> k)"
proof (cases "permitted_iterations input = 0")
  case True
  then show ?thesis
    by (auto simp: runIterateLoop_def runIterateLoopCore_def immediateAbandonNoIterationsPermitted_def Let_def)
next
  case False
  let ?st = "logStart input (permitted_iterations input) (initial_state w)"
  have "case iterateFrom input deps (permitted_iterations input) 1 ?st of (out, st') \<Rightarrow>
     (\<exists>j \<le> k. ls_tasks st' = aw_tasks (lw_agent w) @ driver_tasks input j) \<and>
     (\<forall>r. out = Inr r \<longrightarrow> lr_iterationsUsed r \<le> k)"
    using assms by (intro iterateFrom_probe[where P = "lw_probes w" and probe = probe and raw = raw]) simp_all
  with False show ?thesis
    unfolding driver_tasks_def
    by (auto simp: runIterateLoop_def runIterateLoopCore_def Let_def split: prod.splits sum.splits)
qed


section \<open>What a hand-off guarantees\<close>

lemma evaluateSelfReviewOutcome_pass:
  assumes "evaluateSelfReviewOutcome input dr deps = (SrPass, verdict)"
  obtains v where "dr_ok dr" "verdict = Some v"
    "runSelfReview (dp_buildPredictedGateVerdict deps) (dp_runSlopAssessment deps)
       (buildAttemptDiffState input dr) (li_reviewContext input) = Inr v"
    "pv_conclusion (rv_predictedGateVerdict v) = ConclSuccess"
  using assms that
  by (auto simp: evaluateSelfReviewOutcome_def deriveSelfReviewOutcome_def dest: runSelfReview_Inr
      split: if_splits sum.splits)

text \<open>A hand-off is justified by the last driver run: it succeeded, its diff passed the self-review, and neither a
  rejection signal, the observe-only level nor a pause stood in the way.\<close>

definition handoff_justified :: "IterateLoopInput \<Rightarrow> IterateLoopDeps \<Rightarrow> IterateLoopCoreResult \<Rightarrow> bool" where
  "handoff_justified input deps r \<longleftrightarrow>
     \<not> li_rejectionSignaled input \<and> li_autonomyLevel input \<noteq> Some Observe \<and> li_mode input \<noteq> CmPaused \<and>
     (ld_requiresApproval (lr_finalDecision r) \<longleftrightarrow> li_autonomyLevel input = Some AutoWithApproval) \<and>
     (\<exists>dr v.
        lr_handoffPacket r = Some (buildHandoffPacket input v dr) \<and>
        lr_iterations r \<noteq> [] \<and> ir_driverResult (last (lr_iterations r)) = dr \<and> dr_ok dr \<and>
        (li_mode input = CmLive \<longrightarrow> (\<exists>k. dp_driver deps k (iteration_task input) = Inr dr)) \<and>
        runSelfReview (dp_buildPredictedGateVerdict deps) (dp_runSlopAssessment deps)
          (buildAttemptDiffState input dr) (li_reviewContext input) = Inr v \<and>
        pv_conclusion (rv_predictedGateVerdict v) = ConclSuccess)"

lemma handoff_decision:
  "ld_action (decideNextActionWithReason state) = ActHandoff \<Longrightarrow>
     \<not> is_rejectionSignaled state \<and> is_selfReview state = SrPass \<and> is_autonomyLevel state \<noteq> Some Observe \<and>
     (ld_requiresApproval (decideNextActionWithReason state) \<longleftrightarrow>
        is_autonomyLevel state = Some AutoWithApproval)"
  using decide_handoff[of state]
  by (cases "is_autonomyLevel state")
    (auto simp: decideNextAction_def decideNextActionWithReason_def handoffDecision_def Let_def)

lemma decideIteration_handoff:
  assumes run: "decideIteration input deps n i dr st = (Some r, st')" and out: "lr_outcome r = OutHandoff"
    and timed: "runTimedDriver input deps w = (Inr (dr, elapsed), w')"
  shows "handoff_justified input deps r"
proof -
  obtain sr verdict where ev: "evaluateSelfReviewOutcome input dr deps = (sr, verdict)" by force
  let ?state = "iteration_state input n i sr st"
  let ?d = "decideNextActionWithReason ?state"
  from run out ev have act: "ld_action ?d = ActHandoff"
    and r: "r = core_result OutHandoff ?d i (map_option (\<lambda>v. buildHandoffPacket input v dr) verdict)
      (push_iteration i dr ?d (st\<lparr>ls_world := logDecision input i ?d [] (ls_world st)\<rparr>))"
    by (auto simp: decideIteration_def Let_def core_result_def split: IterateLoopAction.splits)
  note h = handoff_decision[OF act, unfolded iteration_state_def, simplified]
  have "evaluateSelfReviewOutcome input dr deps = (SrPass, verdict)" using ev h by simp
  then obtain v where v: "dr_ok dr" "verdict = Some v"
    "runSelfReview (dp_buildPredictedGateVerdict deps) (dp_runSlopAssessment deps)
       (buildAttemptDiffState input dr) (li_reviewContext input) = Inr v"
    "pv_conclusion (rv_predictedGateVerdict v) = ConclSuccess"
    by (rule evaluateSelfReviewOutcome_pass)
  from timed obtain aw where
    "runDriverSafely input deps (iteration_task input) (lw_agent w) = (Inr dr, aw)"
    by (auto elim: runTimedDriver_Inr)
  then have mode: "case li_mode input of CmPaused \<Rightarrow> False | CmDryRun \<Rightarrow> True
      | CmLive \<Rightarrow> (\<exists>k. dp_driver deps k (iteration_task input) = Inr dr)"
    using v(1) by (auto dest!: runDriverSafely_cases split: CodingAgentExecutionMode.splits)
  show ?thesis
    unfolding handoff_justified_def
    using h v mode
    by (auto simp: r core_result_def push_iteration_def iteration_state_def
        split: CodingAgentExecutionMode.splits)
qed

lemma within_budget_below:
  assumes "budget_breaches t b = []" "usage_ok t" "budget_ok b" "ceiling_of ax b = Some c"
  shows "num_lt (axis_of ax t) c"
proof -
  have "\<not> at_ceiling (axis_of ax t) (ceiling_of ax b)"
    using assms(1) set_budget_breaches[of ax t b] by simp
  moreover have "is_nonneg (axis_of ax t)" using assms(2) by (simp add: usage_ok_axis)
  moreover have "is_nonneg c" using assms(3,4) by (cases ax) (auto simp: budget_ok_def)
  ultimately show ?thesis using assms(4) by (auto simp: at_ceiling_def is_nonneg_iff)
qed

text \<open>Totals strictly below every configured ceiling.\<close>

definition below_budget :: "IterateLoopInput \<Rightarrow> AttemptMeterTotals \<Rightarrow> bool" where
  "below_budget input t \<longleftrightarrow>
     (\<forall>b ax c. li_budget input = Some b \<longrightarrow> ceiling_of ax b = Some c \<longrightarrow> num_lt (axis_of ax t) c)"

lemma meterIteration_below:
  assumes "meterIteration input dr elapsed st = Inr st1" "ls_breaches st1 = []"
  shows "below_budget input (ls_totals st1)"
  unfolding below_budget_def
proof (intro allI impI)
  fix b ax c
  assume b: "li_budget input = Some b" and c: "ceiling_of ax b = Some c"
  from assms b have "budget_breaches (ls_totals st1) b = []" "usage_ok (ls_totals st1)" "budget_ok b"
    by (auto simp: meterIteration_Inr Let_def)
  then show "num_lt (axis_of ax (ls_totals st1)) c" using c by (rule within_budget_below)
qed

lemma iteration_handoff:
  assumes "iteration_goes input deps n i st (Inr (Some r)) st'" and "lr_outcome r = OutHandoff"
  shows "handoff_justified input deps r \<and> below_budget input (ls_totals st') \<and> ls_breaches st' = []"
  using assms(1)
proof cases
  case (aborted reason w)
  with assms(2) show ?thesis by (auto dest: abortIteration_simps)
next
  case (over_budget z w dr elapsed w' st1)
  with assms(2) show ?thesis by (auto dest: budgetStop_simps)
next
  case (decided z w dr elapsed w' st1)
  then show ?thesis
    using assms(2) decideIteration_handoff[of input deps n i dr st1 r st' w elapsed w']
      meterIteration_below[of input dr elapsed _ st1] decideIteration_simps[of input deps n i dr st1 "Some r" st']
    by simp
qed

lemma runIterateLoopCore_handoff:
  assumes "runIterateLoopCore input deps st = (Inr r, st')" and "lr_outcome r = OutHandoff"
  shows "handoff_justified input deps r \<and> below_budget input (ls_totals st') \<and> ls_breaches st' = []"
proof (cases "permitted_iterations input = 0")
  case True
  with assms show ?thesis
    by (auto simp: runIterateLoopCore_def immediateAbandonNoIterationsPermitted_def Let_def)
next
  case False
  let ?n = "permitted_iterations input"
  let ?Q = "\<lambda>out st'. \<forall>r. out = Inr r \<longrightarrow> lr_outcome r = OutHandoff \<longrightarrow>
    handoff_justified input deps r \<and> below_budget input (ls_totals st') \<and> ls_breaches st' = []"
  have "case iterateFrom input deps ?n 1 (logStart input ?n st) of (out, st') \<Rightarrow> ?Q out st'"
    by (rule iterateFrom_rule[where I = "\<lambda>i st. True"])
      (auto dest!: runIteration_goes dest: iteration_handoff simp: fallback_result_def core_result_def
        split: sum.splits option.splits)
  with assms False show ?thesis by (auto simp: runIterateLoopCore_def Let_def)
qed

text \<open>C6: a hand-off is never optimistic. When a run returns a hand-off, no rejection was signaled, the mode is not paused,
  the autonomy level is not observe-only (and approval is demanded exactly under \<open>auto_with_approval\<close>), the last driver run
  succeeded (in live mode: it is what the driver returned), its own diff went through a self-review that did not throw and
  whose predicted-gate conclusion is a success, the packet carries that verdict and diff, and the accumulated usage is
  strictly below every configured budget ceiling.\<close>

theorem handoff_is_justified:
  assumes "runIterateLoop input deps w = (Inr r, w')" and "lr_outcome (lo_core r) = OutHandoff"
  shows "handoff_justified input deps (lo_core r) \<and> below_budget input (lo_finalMeterTotals r) \<and>
    lo_budgetBreaches r = []"
proof -
  from assms(1) obtain core st where "runIterateLoopCore input deps (initial_state w) = (Inr core, st)"
    and "r = \<lparr>lo_core = core, lo_finalMeterTotals = ls_totals st, lo_budgetBreaches = ls_breaches st\<rparr>"
    by (auto simp: runIterateLoop_def split: prod.splits sum.splits)
  then show ?thesis using runIterateLoopCore_handoff assms(2) by auto
qed


text \<open>A concrete attempt: the stub driver, a gate with a fixed conclusion, and an abort at the second probe.\<close>

definition sample_context :: SelfReviewContext where
  "sample_context =
     \<lparr>rc_manifest = JObj [], rc_repo = JNull, rc_issues = [], rc_pullRequests = [], rc_bounties = None,
      rc_issueQuality = None, rc_confirmedContributor = None, rc_inDuplicateCluster = None\<rparr>"

definition sample_input :: IterateLoopInput where
  "sample_input =
     \<lparr>li_attemptId = ''a1'', li_workingDirectory = ''/w'', li_acceptanceCriteriaPath = ''/w/c.md'',
      li_instructions = ''fix'', li_mode = CmLive, li_maxIterations = Fin 2, li_maxTurnsPerIteration = Fin 5,
      li_budget = Some \<lparr>ab_maxTokens = None, ab_maxTurns = Some (Fin 9), ab_maxWallClockMs = None,
        ab_maxCostUsd = None\<rparr>,
      li_repoFullName = ''o/r'', li_contributorLogin = ''me'', li_title = ''t'', li_body = None,
      li_labels = None, li_linkedIssues = None, li_authorAssociation = None, li_branchRef = None,
      li_reviewContext = sample_context, li_rejectionSignaled = False, li_autonomyLevel = None\<rparr>"

definition sample_verdict :: "GateCheckConclusion \<Rightarrow> PredictedGateVerdict" where
  "sample_verdict c =
     \<lparr>pv_pack = ''gittensor'', pv_conclusion = c, pv_title = ''t'', pv_summary = ''s'',
      pv_readinessScore = None, pv_confirmedContributor = None,
      pv_blockers = [\<lparr>gf_code = ''b'', gf_title = ''t'', gf_detail = ''d'', gf_action = None\<rparr>],
      pv_warnings = [], pv_funnel = None, pv_note = ''n''\<rparr>"

definition sample_deps :: "GateCheckConclusion \<Rightarrow> IterateLoopDeps" where
  "sample_deps c =
     \<lparr>dp_driver = createNoopCodingAgentDriver, dp_buildPredictedGateVerdict = (\<lambda>_. Inr (sample_verdict c)),
      dp_runSlopAssessment = (\<lambda>_. Inr \<lparr>sa_slopRisk = Fin 0, sa_band = Clean, sa_findings = []\<rparr>),
      dp_nowMs = num_of_nat, dp_shouldAbort = Some (\<lambda>k. Inr (AbortFlag (k = 1)))\<rparr>"

definition fresh_world :: loop_world where
  "fresh_world = \<lparr>lw_agent = \<lparr>aw_tasks = [], aw_log = []\<rparr>, lw_clock = 0, lw_probes = 0\<rparr>"

lemmas loop_run_defs = logStart_def runIteration_def resolveShouldAbort_def runTimedDriver_def runDriverSafely_def
  codingAgentModeExecutes_def driver_run_def createNoopCodingAgentDriver_def bare_result_def meterIteration_def
  accumulateAttemptUsage_def assertAttemptUsage_def assertNonNegativeFiniteNumber_def iteration_usage_def
  finiteNonNegativeUsage_def evaluateAttemptBudget_def assertAttemptBudget_def assertOptional_def
  budget_breaches_def at_ceiling_def decideIteration_def evaluateSelfReviewOutcome_def runSelfReview_def
  deriveSelfReviewOutcome_def isClearPass_def SELF_REVIEW_PASSING_CONCLUSION_def iteration_state_def
  decideNextActionWithReason_def handoffDecision_def core_result_def ZERO_METER_TOTALS_def Let_def

lemma sample_handoff:
  "\<exists>r w'. runIterateLoop sample_input (sample_deps ConclSuccess) fresh_world = (Inr r, w') \<and>
     lr_outcome (lo_core r) = OutHandoff"
  unfolding runIterateLoop_def runIterateLoopCore_def permitted_iterations_def
  by (simp add: iterateFrom.simps sample_input_def sample_deps_def sample_verdict_def fresh_world_def initial_state_def
      loop_run_defs num_of_rat_small)

theorem handoff_is_justified_witness:
  "\<exists>r w'. runIterateLoop sample_input (sample_deps ConclSuccess) fresh_world = (Inr r, w') \<and>
     lr_outcome (lo_core r) = OutHandoff \<and> handoff_justified sample_input (sample_deps ConclSuccess) (lo_core r) \<and>
     below_budget sample_input (lo_finalMeterTotals r) \<and> lo_budgetBreaches r = []"
  using sample_handoff handoff_is_justified by blast

theorem kill_switch_stops_the_loop_witness:
  "case runIterateLoop sample_input (sample_deps ConclFailure) fresh_world of (out, w') \<Rightarrow>
    (\<exists>j \<le> 1. aw_tasks (lw_agent w') = replicate j (iteration_task sample_input)) \<and>
    (\<forall>r. out = Inr r \<longrightarrow> lr_iterationsUsed (lo_core r) \<le> 1)"
  using kill_switch_stops_the_loop[of "sample_deps ConclFailure" "\<lambda>k. Inr (AbortFlag (k = 1))" fresh_world 1
      "AbortFlag True" sample_input]
  by (simp add: sample_deps_def fresh_world_def sample_input_def split: prod.splits)



section \<open>The decision trail\<close>

text \<open>A message that shows at least one character of its literal text.\<close>

definition visible :: "msg \<Rightarrow> bool" where
  "visible m \<longleftrightarrow> (\<exists>s. Lit s \<in> set m \<and> (\<exists>c \<in> set s. \<not> is_ws c))"

lemma visible_render: "visible m \<Longrightarrow> trim (render show_num m) \<noteq> []"
proof -
  assume "visible m"
  then obtain c where "c \<in> set (render show_num m)" "\<not> is_ws c"
    unfolding visible_def by (induction m rule: render.induct[of _ show_num]) auto
  then show ?thesis unfolding trim_eq_Nil by blast
qed

lemma visible_hd [simp]: "\<not> is_ws c \<Longrightarrow> visible (Lit (c # s) # m)"
  by (auto simp: visible_def)

lemma trim_hd [simp]: "\<not> is_ws c \<Longrightarrow> trim (c # s) \<noteq> []"
  by (simp add: trim_eq_Nil)

lemma letters_visible [simp]:
  "\<not> is_ws (CHR ''i'')" "\<not> is_ws (CHR ''c'')" "\<not> is_ws (CHR ''d'')" "\<not> is_ws (CHR ''R'')"
  "\<not> is_ws (CHR ''S'')" "\<not> is_ws (CHR ''B'')" "\<not> is_ws (CHR ''K'')" "\<not> is_ws (CHR ''I'')" "\<not> is_ws (CHR ''m'')"
  by (simp_all add: is_ws_def)

definition loggable :: "AttemptLogEvent \<Rightarrow> bool" where
  "loggable ev \<longleftrightarrow> (\<forall>show_num. event_acceptable show_num ev) \<and>
     (\<forall>fs. ale_payload ev = Some fs \<longrightarrow> json_wf (JObj fs))"

lemma loggable_append:
  "loggable ev \<Longrightarrow> buffer_append show_num rows ev = Inr (rows @ [typed_row show_num ev])"
  using buffer_append_accepted[of ev show_num rows] by (simp add: loggable_def)

lemma loggable_event:
  "trim (li_attemptId input) \<noteq> [] \<Longrightarrow> visible reason \<Longrightarrow> json_safe (JObj payload) \<Longrightarrow>
     json_wf (JObj payload) \<Longrightarrow> loggable (loop_event input ty reason payload)"
  by (auto simp: loggable_def event_acceptable_def loop_event_def visible_render)

lemma loggable_codegen:
  "trim (tk_attemptId task) \<noteq> [] \<Longrightarrow> visible reason \<Longrightarrow> json_safe (JObj payload) \<Longrightarrow>
     json_wf (JObj payload) \<Longrightarrow> loggable (codegen_event task mode ty reason payload)"
  by (auto simp: loggable_def event_acceptable_def codegen_event_def visible_render)

lemma json_list_strings: "json_safe_list (map (\<lambda>x. JStr (f x)) xs)" "json_wf_list (map (\<lambda>x. JStr (f x)) xs)"
  by (induction xs) simp_all

lemma decision_payload_ok:
  "json_safe (JObj (decision_payload i d bs))" "json_wf (JObj (decision_payload i d bs))"
  by (simp_all add: decision_payload_def json_list_strings split: option.split)

lemma visible_lit: "visible (lit s) \<longleftrightarrow> (\<exists>c \<in> set s. \<not> is_ws c)"
  by (auto simp: visible_def)

lemma visible_decision: "visible (ld_reason (decideNextActionWithReason state))"
  by (auto simp: decideNextActionWithReason_def decideOnFailure_def abandonDecision_def handoffDecision_def
      continueDecision_def Let_def split: SelfReviewOutcome.split option.split)

lemma abort_answer_visible: "abort_answer raw = (True, reason) \<Longrightarrow> visible (lit reason)"
proof -
  assume "abort_answer raw = (True, reason)"
  then consider "reason = DEFAULT_ABORT_REASON" | r where "reason = trim r" "trim r \<noteq> []"
    by (cases raw) (auto split: if_splits option.splits)
  then show ?thesis
  proof cases
    case 1 then show ?thesis by (simp add: DEFAULT_ABORT_REASON_def)
  next
    case 2
    then have "trim reason \<noteq> []" by simp
    then show ?thesis unfolding trim_eq_Nil visible_lit by blast
  qed
qed

text \<open>What a stretch of the run has appended to the log: acceptable events only.\<close>

definition log_grows :: "loop_state \<Rightarrow> loop_state \<Rightarrow> bool" where
  "log_grows st st' \<longleftrightarrow> (\<exists>new. ls_log st' = ls_log st @ new \<and> list_all loggable new)"

lemma log_grows_refl: "ls_log st' = ls_log st \<Longrightarrow> log_grows st st'"
  by (simp add: log_grows_def)

lemma log_grows_trans: "log_grows st st1 \<Longrightarrow> log_grows st1 st2 \<Longrightarrow> log_grows st st2"
  by (auto simp: log_grows_def)

lemma log_grows_one: "ls_log st' = ls_log st @ [ev] \<Longrightarrow> loggable ev \<Longrightarrow> log_grows st st'"
  by (simp add: log_grows_def)

lemma runDriverSafely_log:
  assumes "trim (tk_attemptId task) \<noteq> []" "isFinite (tk_maxTurns task)"
    and "runDriverSafely input deps task w = (out, w')"
  shows "\<exists>new. aw_log w' = aw_log w @ new \<and> list_all loggable new"
proof (cases "li_mode input")
  case CmLive
  with assms(3) show ?thesis
    by (auto simp: runDriverSafely_def codingAgentModeExecutes_def driver_run_def split: sum.splits)
next
  case CmPaused
  have "loggable (codegen_event task CmPaused AttemptAborted (lit ''coding_agent_paused'')
      [(''workingDirectory'', JStr (tk_workingDirectory task))])"
    using assms(1) by (intro loggable_codegen) simp_all
  with CmPaused assms(3) show ?thesis
    by (auto simp: runDriverSafely_def codingAgentModeExecutes_def invokeCodingAgentDriver_def log_append_def)
next
  case CmDryRun
  have "loggable (codegen_event task CmDryRun AttemptShadow
      (lit ''dry-run: would invoke coding agent without spawning underlying session'')
      [(''workingDirectory'', JStr (tk_workingDirectory task)),
       (''acceptanceCriteriaPath'', JStr (tk_acceptanceCriteriaPath task)),
       (''maxTurns'', JNum (tk_maxTurns task))])"
    using assms(1,2) by (intro loggable_codegen) simp_all
  with CmDryRun assms(3) show ?thesis
    by (auto simp: runDriverSafely_def codingAgentModeExecutes_def invokeCodingAgentDriver_def log_append_def)
qed

text \<open>The attempt is identified, and its turn budget can be written down as JSON.\<close>

definition attempt_named :: "IterateLoopInput \<Rightarrow> bool" where
  "attempt_named input \<longleftrightarrow> trim (li_attemptId input) \<noteq> [] \<and> isFinite (li_maxTurnsPerIteration input)"

lemma runTimedDriver_log:
  assumes "attempt_named input" and "runTimedDriver input deps (ls_world st) = (out, w')"
  shows "log_grows st (st\<lparr>ls_world := w'\<rparr>)"
  using assms runDriverSafely_log[of "iteration_task input" input deps "lw_agent (ls_world st)"]
  by (auto simp: attempt_named_def iteration_task_def log_grows_def elim!: runTimedDriver_Inr)

text \<open>An event of the attempt log that reports a final decision: whose attempt it is, the reason, the action and, for an
  abandoned attempt, why; its type tells a hand-off, a deliberate stop and a failure to converge apart.\<close>

definition reports_decision :: "IterateLoopInput \<Rightarrow> AttemptLogEvent \<Rightarrow> IterateLoopDecision \<Rightarrow> bool" where
  "reports_decision input ev d \<longleftrightarrow>
     ale_attemptId ev = li_attemptId input \<and> ale_mode ev = li_mode input \<and> ale_reason ev = ld_reason d \<and>
     ale_eventType ev =
       (if ld_action d = ActHandoff then AttemptSucceeded
        else if ld_abandonReason d \<in> {Some RejectionSignaled, Some SelfReviewAmbiguous, Some KillSwitchEngaged} \<or>
          permitted_iterations input = 0 then AttemptAborted
        else AttemptFailed) \<and>
     (\<exists>payload. ale_payload ev = Some payload \<and>
        map_of payload ''action'' = Some (JStr (if ld_action d = ActHandoff then ''handoff'' else ''abandon'')) \<and>
        map_of payload ''abandonReason'' = map_option (\<lambda>why. JStr (abandonReason_name why)) (ld_abandonReason d))"

lemma decision_payload_lookup:
  "map_of (decision_payload i d bs) ''action'' = Some (JStr (action_name (ld_action d)))"
  "map_of (decision_payload i d bs) ''abandonReason'' = map_option (\<lambda>why. JStr (abandonReason_name why)) (ld_abandonReason d)"
  by (simp_all add: decision_payload_def split: option.split)

lemma reports_loop_event:
  assumes "ld_action d \<noteq> ActContinue" "permitted_iterations input \<noteq> 0"
  shows "reports_decision input (loop_event input (attemptLogEventTypeForDecision d) (ld_reason d) (decision_payload i d bs)) d"
  using assms by (cases "ld_action d")
    (simp_all add: reports_decision_def loop_event_def attemptLogEventTypeForDecision_def decision_payload_lookup)

lemma decideIteration_log:
  assumes "attempt_named input" and "decideIteration input deps n i dr st = (res, st')" and "permitted_iterations input \<noteq> 0"
  shows "log_grows st st'"
    and "res = Some r \<Longrightarrow> reports_decision input (last (ls_log st')) (lr_finalDecision r)"
    and "res = None \<Longrightarrow> i < n"
proof -
  obtain sr v where ev: "evaluateSelfReviewOutcome input dr deps = (sr, v)" by force
  let ?d = "decideNextActionWithReason (iteration_state input n i sr st)"
  have lg: "ls_log st' = ls_log st @ [loop_event input (attemptLogEventTypeForDecision ?d) (ld_reason ?d)
      (decision_payload i ?d [])]"
    using assms(2) ev by (auto simp: decideIteration_def Let_def push_iteration_def
        split: IterateLoopAction.splits)
  moreover have "loggable (loop_event input (attemptLogEventTypeForDecision ?d) (ld_reason ?d)
      (decision_payload i ?d []))"
    using assms(1) visible_decision decision_payload_ok by (intro loggable_event) (auto simp: attempt_named_def)
  ultimately show "log_grows st st'" by (rule log_grows_one)
  have "res = Some r \<Longrightarrow> lr_finalDecision r = ?d \<and> ld_action ?d \<noteq> ActContinue"
    using assms(2) ev by (auto simp: decideIteration_def Let_def core_result_def split: IterateLoopAction.splits)
  then show "res = Some r \<Longrightarrow> reports_decision input (last (ls_log st')) (lr_finalDecision r)"
    using reports_loop_event[OF _ assms(3), of ?d i "[]"] unfolding lg by simp
  assume "res = None"
  then have "decideNextAction (iteration_state input n i sr st) = ActContinue"
    using assms(2) ev by (auto simp: decideIteration_def Let_def decideNextAction_def
        split: IterateLoopAction.splits)
  then show "i < n" by (auto simp: decide_continue iteration_state_def)
qed

lemma budgetStop_log:
  assumes "attempt_named input" and "budgetStop input i dr st = (r, st')" and "permitted_iterations input \<noteq> 0"
  shows "log_grows st st' \<and> reports_decision input (last (ls_log st')) (lr_finalDecision r)"
proof -
  let ?d = "lr_finalDecision r"
  have lg: "ls_log st' = ls_log st @ [loop_event input (attemptLogEventTypeForDecision ?d) (ld_reason ?d)
      (decision_payload i ?d (ls_breaches st))]" and vis: "visible (ld_reason ?d)" and act: "ld_action ?d \<noteq> ActContinue"
    using assms(2) by (auto simp: budgetStop_def Let_def push_iteration_def core_result_def abandonDecision_def)
  have "loggable (loop_event input (attemptLogEventTypeForDecision ?d) (ld_reason ?d)
      (decision_payload i ?d (ls_breaches st)))"
    using assms(1) vis decision_payload_ok by (intro loggable_event) (auto simp: attempt_named_def)
  from log_grows_one[OF lg this] show ?thesis unfolding lg by (simp add: reports_loop_event[OF act assms(3)])
qed

lemma abortIteration_log:
  assumes "attempt_named input" "visible (lit reason)" and "abortIteration input i reason st = (r, st')"
    and "permitted_iterations input \<noteq> 0"
  shows "log_grows st st' \<and> reports_decision input (last (ls_log st')) (lr_finalDecision r)"
proof -
  let ?d = "lr_finalDecision r"
  have lg: "ls_log st' = ls_log st @ [loop_event input (attemptLogEventTypeForDecision ?d) (ld_reason ?d)
      (decision_payload (i - 1) ?d [])]" and vis: "visible (ld_reason ?d)" and act: "ld_action ?d \<noteq> ActContinue"
    using assms(2,3) by (auto simp: abortIteration_def Let_def core_result_def abandonDecision_def)
  have "loggable (loop_event input (attemptLogEventTypeForDecision ?d) (ld_reason ?d)
      (decision_payload (i - 1) ?d []))"
    using assms(1) vis decision_payload_ok by (intro loggable_event) (auto simp: attempt_named_def)
  from log_grows_one[OF lg this] show ?thesis unfolding lg by (simp add: reports_loop_event[OF act assms(4)])
qed

lemma resolveShouldAbort_answer:
  "resolveShouldAbort deps w = (Inr (True, reason), w') \<Longrightarrow> visible (lit reason)"
  using abort_answer_visible
  by (fastforce simp: resolveShouldAbort_def and_then_Inr split: option.splits)


lemma iteration_log:
  assumes named: "attempt_named input" and "iteration_goes input deps n i st out st'"
    and some: "permitted_iterations input \<noteq> 0"
  shows "log_grows st st' \<and>
    (case out of Inl e \<Rightarrow> True | Inr None \<Rightarrow> i < n
     | Inr (Some r) \<Rightarrow> ls_log st' \<noteq> ls_log st \<and> reports_decision input (last (ls_log st')) (lr_finalDecision r))"
  using assms(2)
proof cases
  case (probe_throws e w)
  then show ?thesis by (auto dest!: resolveShouldAbort_world intro: log_grows_refl)
next
  case (aborted reason w r)
  have "log_grows st (st\<lparr>ls_world := w\<rparr>)"
    using aborted(2) by (auto dest!: resolveShouldAbort_world intro: log_grows_refl)
  moreover note abortIteration_log[OF named resolveShouldAbort_answer[OF aborted(2)] aborted(3) some]
  moreover have "ls_log st' \<noteq> ls_log st"
    using aborted(2,3) by (auto dest!: resolveShouldAbort_world simp: abortIteration_def Let_def)
  ultimately show ?thesis using aborted(1) by (auto intro: log_grows_trans)
next
  case (meter_throws z w dr elapsed w' e)
  have "log_grows st (st\<lparr>ls_world := w\<rparr>)"
    using meter_throws(3) by (auto dest!: resolveShouldAbort_world intro: log_grows_refl)
  moreover have "log_grows (st\<lparr>ls_world := w\<rparr>) (st\<lparr>ls_world := w'\<rparr>)"
    using runTimedDriver_log[OF named, of deps "st\<lparr>ls_world := w\<rparr>"] meter_throws(4) by simp
  ultimately show ?thesis using meter_throws(1,2) by (auto intro: log_grows_trans)
next
  case (over_budget z w dr elapsed w' st1 r)
  have "log_grows st (st\<lparr>ls_world := w\<rparr>)"
    using over_budget(2) by (auto dest!: resolveShouldAbort_world intro: log_grows_refl)
  moreover have "log_grows (st\<lparr>ls_world := w\<rparr>) (st\<lparr>ls_world := w'\<rparr>)"
    using runTimedDriver_log[OF named, of deps "st\<lparr>ls_world := w\<rparr>"] over_budget(3) by simp
  moreover have "log_grows (st\<lparr>ls_world := w'\<rparr>) st1"
    using over_budget(4) by (auto dest!: meterIteration_world intro: log_grows_refl)
  ultimately have g: "log_grows st st1" by (blast intro: log_grows_trans)
  moreover have "length (ls_log st') = Suc (length (ls_log st1))"
    using over_budget(6) by (auto simp: budgetStop_def Let_def push_iteration_def)
  then have "ls_log st' \<noteq> ls_log st" using g by (auto simp: log_grows_def)
  ultimately show ?thesis
    using over_budget(1) budgetStop_log[OF named over_budget(6) some] by (auto intro: log_grows_trans)
next
  case (decided z w dr elapsed w' st1 res)
  have "log_grows st (st\<lparr>ls_world := w\<rparr>)"
    using decided(2) by (auto dest!: resolveShouldAbort_world intro: log_grows_refl)
  moreover have "log_grows (st\<lparr>ls_world := w\<rparr>) (st\<lparr>ls_world := w'\<rparr>)"
    using runTimedDriver_log[OF named, of deps "st\<lparr>ls_world := w\<rparr>"] decided(3) by simp
  moreover have "log_grows (st\<lparr>ls_world := w'\<rparr>) st1"
    using decided(4) by (auto dest!: meterIteration_world intro: log_grows_refl)
  ultimately have g: "log_grows st st1" by (blast intro: log_grows_trans)
  moreover have "length (ls_log st') = Suc (length (ls_log st1))"
    using decided(6) by (auto simp: decideIteration_def Let_def push_iteration_def
        split: prod.splits IterateLoopAction.splits)
  then have "ls_log st' \<noteq> ls_log st" using g by (auto simp: log_grows_def)
  ultimately show ?thesis
    using decided(1) decideIteration_log[OF named decided(6) some]
    by (auto intro: log_grows_trans split: option.splits)
qed

lemma runIterateLoopCore_log:
  assumes named: "attempt_named input"
  shows "case runIterateLoopCore input deps st of (out, st') \<Rightarrow> log_grows st st' \<and>
    (\<forall>r. out = Inr r \<longrightarrow> ls_log st' \<noteq> ls_log st \<and> reports_decision input (last (ls_log st')) (lr_finalDecision r))"
proof (cases "permitted_iterations input = 0")
  case True
  let ?d = "abandonDecision MaxIterationsReached [Lit ''maxIterations ('', NumV (li_maxIterations input),
     Lit '') permits no iterations; abandoning without invoking the driver.'']"
  have "loggable (loop_event input AttemptAborted (ld_reason ?d) (decision_payload 0 ?d []))"
    using named decision_payload_ok by (intro loggable_event) (auto simp: attempt_named_def abandonDecision_def)
  with True show ?thesis
    by (simp add: runIterateLoopCore_def immediateAbandonNoIterationsPermitted_def Let_def log_grows_def
        reports_decision_def loop_event_def decision_payload_lookup abandonDecision_def)
next
  case False
  let ?n = "permitted_iterations input"
  let ?Q = "\<lambda>out st'. log_grows st st' \<and> (\<forall>r. out = Inr r \<longrightarrow>
    ls_log st' \<noteq> ls_log st \<and> reports_decision input (last (ls_log st')) (lr_finalDecision r))"
  have start: "log_grows st (logStart input ?n st)"
    using named by (intro log_grows_one[OF _ loggable_event]) (auto simp: logStart_def attempt_named_def)
  have "case iterateFrom input deps ?n 1 (logStart input ?n st) of (out, st') \<Rightarrow> ?Q out st'"
  proof (rule iterateFrom_rule[where I = "\<lambda>i st'. i \<le> ?n \<and> log_grows st st'"])
    show "1 \<le> ?n \<and> log_grows st (logStart input ?n st)" using start False by simp
  next
    fix i st0 out st'
    assume inv: "i \<le> ?n \<and> log_grows st st0" and "runIteration input deps ?n i st0 = (out, st')"
    then have "iteration_goes input deps ?n i st0 out st'" by (intro runIteration_goes)
    note it = iteration_log[OF named this False]
    then have "log_grows st st'" using inv log_grows_trans by blast
    moreover have "ls_log st' \<noteq> ls_log st" if "ls_log st' \<noteq> ls_log st0"
      using that it inv by (auto simp: log_grows_def)
    ultimately show "case out of Inl e \<Rightarrow> ?Q (Inl e) st'
        | Inr None \<Rightarrow> Suc i \<le> ?n \<and> log_grows st st' | Inr (Some r) \<Rightarrow> ?Q (Inr r) st'"
      using it by (auto split: sum.splits option.splits)
  qed auto
  with False show ?thesis by (simp add: runIterateLoopCore_def Let_def)
qed

text \<open>C23: the decision trail is complete and storable. For an attempt with a non-blank id and a finite turn budget, every event
  a run hands to the attempt log is one the log's fail-closed normaliser stores (however its numbers print), whether the
  run returns or is rejected; and when it returns, the last event reports the final decision: the attempt, the reason, the
  action, the reason for abandoning if there is one, and the event type that goes with them (a run that permits no
  iteration reports an aborted attempt). In particular the loop's fall-through after the \<open>for\<close> statement, which logs
  nothing, is never reached.\<close>

theorem decision_trail_complete:
  assumes "attempt_named input"
  shows "case runIterateLoop input deps w of (out, w') \<Rightarrow>
    \<exists>new. aw_log (lw_agent w') = aw_log (lw_agent w) @ new \<and>
      (\<forall>ev \<in> set new. buffer_append show_num rows ev = Inr (rows @ [typed_row show_num ev])) \<and>
      (\<forall>r. out = Inr r \<longrightarrow> new \<noteq> [] \<and> reports_decision input (last new) (lr_finalDecision (lo_core r)))"
proof -
  obtain out st' where run: "runIterateLoopCore input deps (initial_state w) = (out, st')" by force
  note core = runIterateLoopCore_log[OF assms, where deps = deps and st = "initial_state w", unfolded run]
  then obtain new where new: "ls_log st' = aw_log (lw_agent w) @ new" "list_all loggable new"
    by (auto simp: log_grows_def)
  have "new \<noteq> [] \<and> reports_decision input (last new) (lr_finalDecision r)" if "out = Inr r" for r
    using core that new(1) by (cases "new = []") auto
  with run new show ?thesis
    by (auto simp: runIterateLoop_def list_all_iff loggable_append split: sum.splits)
qed

theorem decision_trail_complete_witness:
  "attempt_named sample_input \<and> (case runIterateLoop sample_input (sample_deps ConclFailure) fresh_world of (out, w') \<Rightarrow>
    \<exists>new. aw_log (lw_agent w') = [] @ new \<and>
      (\<forall>ev \<in> set new. buffer_append (\<lambda>_. ''1'') [] ev = Inr ([] @ [typed_row (\<lambda>_. ''1'') ev])) \<and>
      (\<forall>r. out = Inr r \<longrightarrow> new \<noteq> [] \<and> reports_decision sample_input (last new) (lr_finalDecision (lo_core r))))"
proof -
  have named: "attempt_named sample_input"
    by (simp add: attempt_named_def sample_input_def trim_eq_Nil is_ws_def)
  show ?thesis
    using named decision_trail_complete[OF named, where deps = "sample_deps ConclFailure" and w = fresh_world
        and show_num = "\<lambda>_. ''1''" and rows = "[]"]
    by (simp add: fresh_world_def)
qed



section \<open>Returning\<close>

text \<open>Conditions under which the meter cannot overflow: every clock reading and every finite usage figure the driver
  reports lies between 0 and \<open>K\<close>, and \<open>K\<close> times the permitted iterations is in the number range.\<close>

definition usage_within :: "rat \<Rightarrow> CodingAgentDriverResult \<Rightarrow> bool" where
  "usage_within K r \<longleftrightarrow> fin_val (finiteNonNegativeUsage (dr_tokensUsed r)) \<le> K \<and>
     fin_val (finiteNonNegativeUsage (dr_turnsUsed r)) \<le> K \<and> fin_val (finiteNonNegativeUsage (dr_costUsd r)) \<le> K"

definition metering_safe :: "rat \<Rightarrow> IterateLoopInput \<Rightarrow> IterateLoopDeps \<Rightarrow> bool" where
  "metering_safe K input deps \<longleftrightarrow>
     0 \<le> K \<and> K < num_max \<and> of_nat (permitted_iterations input) * K < num_max \<and>
     (\<forall>k. \<exists>q. dp_nowMs deps k = Fin q \<and> 0 \<le> q \<and> q \<le> K) \<and>
     (\<forall>k r. dp_driver deps k (iteration_task input) = Inr r \<longrightarrow> usage_within K r) \<and>
     (\<forall>b. li_budget input = Some b \<longrightarrow> budget_ok b) \<and>
     (\<forall>probe k. dp_shouldAbort deps = Some probe \<longrightarrow> (\<exists>raw. probe k = Inr raw))"

definition totals_within :: "rat \<Rightarrow> AttemptUsage \<Rightarrow> bool" where
  "totals_within B t \<longleftrightarrow> (\<forall>ax. \<exists>q. axis_of ax t = Fin q \<and> 0 \<le> q \<and> q \<le> B)"

lemma totals_within_ok: "totals_within B t \<Longrightarrow> usage_ok t"
  by (auto simp: totals_within_def usage_ok_axis is_nonneg_iff)

lemma totals_within_add:
  assumes "totals_within A t" "totals_within B u" "A + B < num_max"
  shows "totals_within (A + B) (usage_add t u)"
  unfolding totals_within_def
proof
  fix ax
  obtain p q where pq: "axis_of ax t = Fin p" "axis_of ax u = Fin q" "0 \<le> p" "p \<le> A" "0 \<le> q" "q \<le> B"
    using assms(1,2) by (auto simp: totals_within_def) metis
  then have "num_of_rat (p + q) = Fin (p + q)" using assms(3) by (intro num_of_rat_within) simp
  with pq show "\<exists>q. axis_of ax (usage_add t u) = Fin q \<and> 0 \<le> q \<and> q \<le> A + B" by simp
qed

lemma finiteNonNegativeUsage_Fin: "\<exists>q. finiteNonNegativeUsage v = Fin q \<and> 0 \<le> q"
  by (auto simp: finiteNonNegativeUsage_def isFinite_iff split: option.split)

lemma iteration_usage_within:
  assumes "usage_within K dr" "0 \<le> e" "e \<le> K"
  shows "totals_within K (iteration_usage dr (Fin e))"
  unfolding totals_within_def
proof
  fix ax
  show "\<exists>q. axis_of ax (iteration_usage dr (Fin e)) = Fin q \<and> 0 \<le> q \<and> q \<le> K"
    using assms finiteNonNegativeUsage_Fin[of "dr_tokensUsed dr"] finiteNonNegativeUsage_Fin[of "dr_turnsUsed dr"]
      finiteNonNegativeUsage_Fin[of "dr_costUsd dr"]
    by (cases ax) (auto simp: iteration_usage_def usage_within_def)
qed

lemma quiet_result_usage: "0 \<le> K \<Longrightarrow> usage_within K (bare_result ok s\<lparr>dr_error := e\<rparr>)"
    "0 \<le> K \<Longrightarrow> usage_within K (bare_result ok s\<lparr>dr_turnsUsed := Some (Fin 0)\<rparr>)"
  by (simp_all add: usage_within_def bare_result_def finiteNonNegativeUsage_def)

lemma runDriverSafely_within:
  assumes "metering_safe K input deps" and "runDriverSafely input deps (iteration_task input) w = (Inr dr, w')"
  shows "usage_within K dr"
proof -
  have K: "0 \<le> K" using assms(1) by (simp add: metering_safe_def)
  show ?thesis
  proof (cases "li_mode input")
    case CmLive
    with assms K show ?thesis
      by (auto simp: runDriverSafely_def codingAgentModeExecutes_def driver_run_def metering_safe_def
          quiet_result_usage split: sum.splits)
  qed (use assms(2) K in \<open>auto simp: runDriverSafely_def codingAgentModeExecutes_def
      invokeCodingAgentDriver_def log_append_def quiet_result_usage\<close>)
qed

lemma runTimedDriver_within:
  assumes safe: "metering_safe K input deps" and "runTimedDriver input deps w = (Inr (dr, elapsed), w')"
  shows "totals_within K (iteration_usage dr elapsed)"
proof -
  from assms(2) obtain aw where
    d: "runDriverSafely input deps (iteration_task input) (lw_agent w) = (Inr dr, aw)" and
    e: "elapsed = math_max (Fin 0) (num_sub (dp_nowMs deps (lw_clock w + 1)) (dp_nowMs deps (lw_clock w)))"
    by (auto elim: runTimedDriver_Inr)
  obtain p where p: "dp_nowMs deps (lw_clock w) = Fin p" "0 \<le> p" "p \<le> K"
    using safe unfolding metering_safe_def by blast
  obtain q where q: "dp_nowMs deps (lw_clock w + 1) = Fin q" "0 \<le> q" "q \<le> K"
    using safe unfolding metering_safe_def by blast
  have "K < num_max" using safe by (simp add: metering_safe_def)
  then have "num_of_rat (q - p) = Fin (q - p)" using p q by (intro num_of_rat_within) (simp add: abs_less_iff)
  then have "elapsed = Fin (max 0 (q - p))" using e p q by simp
  moreover have "usage_within K dr" using safe d by (rule runDriverSafely_within)
  ultimately show ?thesis using p q by (auto intro!: iteration_usage_within)
qed

text \<open>After \<open>k\<close> iterations: totals at most \<open>k * K\<close>, and the two public counters are two of the meter's axes.\<close>

definition meter_inv :: "rat \<Rightarrow> nat \<Rightarrow> loop_state \<Rightarrow> bool" where
  "meter_inv K k st \<longleftrightarrow> totals_within (of_nat k * K) (ls_totals st) \<and>
     ls_totalTurnsUsed st = au_turns (ls_totals st) \<and> ls_totalCostUsd st = au_costUsd (ls_totals st)"

lemma meterIteration_safe:
  assumes safe: "metering_safe K input deps" and k: "k < permitted_iterations input"
    and inv: "meter_inv K k st" and u: "totals_within K (iteration_usage dr elapsed)"
  shows "\<exists>st1. meterIteration input dr elapsed st = Inr st1 \<and> meter_inv K (Suc k) st1"
proof -
  have "of_nat k * K + K = of_nat (Suc k) * K" by (simp add: algebra_simps)
  also have "\<dots> \<le> of_nat (permitted_iterations input) * K"
    using k safe unfolding metering_safe_def by (intro mult_right_mono) (simp_all del: of_nat_Suc)
  finally have lt: "of_nat k * K + K < num_max" using safe unfolding metering_safe_def by linarith
  let ?t = "usage_add (ls_totals st) (iteration_usage dr elapsed)"
  have t: "totals_within (of_nat k * K + K) ?t"
    using inv u lt unfolding meter_inv_def by (intro totals_within_add) auto
  then have "usage_ok ?t" by (rule totals_within_ok)
  moreover have "usage_ok (ls_totals st)" "usage_ok (iteration_usage dr elapsed)"
    using inv u totals_within_ok by (auto simp: meter_inv_def)
  moreover have "\<forall>b. li_budget input = Some b \<longrightarrow> budget_ok b" using safe by (simp add: metering_safe_def)
  ultimately show ?thesis
    using t inv by (simp add: meterIteration_Inr Let_def meter_inv_def usage_add_def iteration_usage_def
        algebra_simps)
qed

text \<open>The counters of a result agree with the meter.\<close>

definition counters_agree :: "IterateLoopCoreResult \<Rightarrow> AttemptMeterTotals \<Rightarrow> bool" where
  "counters_agree r t \<longleftrightarrow> lr_totalTurnsUsed r = au_turns t \<and> lr_totalCostUsd r = au_costUsd t"

lemma step_counters:
  "abortIteration input i reason st = (r, st') \<Longrightarrow> meter_inv K k st \<Longrightarrow> counters_agree r (ls_totals st')"
  "budgetStop input i dr st = (r, st') \<Longrightarrow> meter_inv K k st \<Longrightarrow> counters_agree r (ls_totals st')"
  "decideIteration input deps n i dr st = (res, st') \<Longrightarrow> meter_inv K k st \<Longrightarrow>
     (case res of None \<Rightarrow> meter_inv K k st' | Some r \<Rightarrow> counters_agree r (ls_totals st'))"
  by (auto simp: abortIteration_def budgetStop_def decideIteration_def core_result_def push_iteration_def
      meter_inv_def counters_agree_def Let_def split: prod.splits IterateLoopAction.splits)

lemma meter_inv_world [simp]: "meter_inv K k (st\<lparr>ls_world := w\<rparr>) = meter_inv K k st"
  by (simp add: meter_inv_def)

lemma iteration_returns:
  assumes safe: "metering_safe K input deps" and "iteration_goes input deps n (Suc k) st out st'"
    and k: "k < permitted_iterations input" and inv: "meter_inv K k st"
  shows "case out of Inl e \<Rightarrow> False | Inr None \<Rightarrow> meter_inv K (Suc k) st'
    | Inr (Some r) \<Rightarrow> counters_agree r (ls_totals st')"
  using assms(2)
proof cases
  case (probe_throws e w)
  then obtain probe where "dp_shouldAbort deps = Some probe" "probe (lw_probes (ls_world st)) = Inl e"
    by (cases "dp_shouldAbort deps"; cases "(the (dp_shouldAbort deps)) (lw_probes (ls_world st))")
      (auto simp: resolveShouldAbort_def)
  then have False using safe unfolding metering_safe_def by (metis Inl_Inr_False)
  then show ?thesis ..
next
  case (aborted reason w r)
  then show ?thesis using inv step_counters(1) by fastforce
next
  case (meter_throws z w dr elapsed w' e)
  then show ?thesis
    using meterIteration_safe[OF safe k, of "st\<lparr>ls_world := w'\<rparr>" dr elapsed] inv
      runTimedDriver_within[OF safe meter_throws(4)] by auto
next
  case (over_budget z w dr elapsed w' st1 r)
  then have "meter_inv K (Suc k) st1"
    using meterIteration_safe[OF safe k, of "st\<lparr>ls_world := w'\<rparr>" dr elapsed] inv
      runTimedDriver_within[OF safe over_budget(3)] by auto
  then show ?thesis using over_budget step_counters(2) by fastforce
next
  case (decided z w dr elapsed w' st1 res)
  then have "meter_inv K (Suc k) st1"
    using meterIteration_safe[OF safe k, of "st\<lparr>ls_world := w'\<rparr>" dr elapsed] inv
      runTimedDriver_within[OF safe decided(3)] by auto
  then show ?thesis using decided(1) step_counters(3)[OF decided(6)] by (auto split: option.splits)
qed

lemma meter_inv_start: "0 \<le> K \<Longrightarrow> meter_inv K 0 (logStart input n (initial_state w))"
proof -
  have "axis_of ax ZERO_METER_TOTALS = Fin 0" for ax by (cases ax) (simp_all add: ZERO_METER_TOTALS_def)
  then show ?thesis by (simp add: meter_inv_def totals_within_def) (simp add: ZERO_METER_TOTALS_def)
qed

text \<open>C13: the loop returns. When the clock and the driver's finite usage figures stay within a bound \<open>K\<close> that cannot overflow
  over the permitted iterations, the configured ceilings are finite and non-negative and the abort probe does not throw,
  the run's promise is fulfilled, whatever the driver and the self-review calculators return or throw; and the turn and
  cost counters of the result are the turn and cost totals of its meter.\<close>

theorem runIterateLoop_returns:
  assumes safe: "metering_safe K input deps"
  shows "\<exists>r w'. runIterateLoop input deps w = (Inr r, w') \<and>
    lr_totalTurnsUsed (lo_core r) = au_turns (lo_finalMeterTotals r) \<and>
    lr_totalCostUsd (lo_core r) = au_costUsd (lo_finalMeterTotals r)"
proof (cases "permitted_iterations input = 0")
  case True
  then show ?thesis
    by (simp add: runIterateLoop_def runIterateLoopCore_def immediateAbandonNoIterationsPermitted_def Let_def
        ZERO_METER_TOTALS_def)
next
  case False
  let ?n = "permitted_iterations input"
  let ?Q = "\<lambda>out st'. \<exists>r. out = Inr r \<and> counters_agree r (ls_totals st')"
  have "case iterateFrom input deps ?n 1 (logStart input ?n (initial_state w)) of (out, st') \<Rightarrow> ?Q out st'"
  proof (rule iterateFrom_rule[where I = "\<lambda>i st. 1 \<le> i \<and> meter_inv K (i - 1) st"])
    show "1 \<le> (1::nat) \<and> meter_inv K (1 - 1) (logStart input ?n (initial_state w))"
      using meter_inv_start safe by (simp add: metering_safe_def)
  next
    fix i st out st'
    assume inv: "1 \<le> i \<and> meter_inv K (i - 1) st" and i: "i \<le> ?n"
      and run: "runIteration input deps ?n i st = (out, st')"
    then obtain k where k: "i = Suc k" by (cases i) auto
    have "iteration_goes input deps ?n (Suc k) st out st'" using run k by (intro runIteration_goes) simp
    from iteration_returns[OF safe this] inv i k
    show "case out of Inl e \<Rightarrow> ?Q (Inl e) st' | Inr None \<Rightarrow> 1 \<le> Suc i \<and> meter_inv K (Suc i - 1) st'
        | Inr (Some r) \<Rightarrow> ?Q (Inr r) st'" by (auto split: sum.splits option.splits)
  next
    fix i st
    assume "1 \<le> i \<and> meter_inv K (i - 1) st" "?n < i"
    then show "?Q (Inr (fallback_result ?n st)) st"
      by (simp add: fallback_result_def core_result_def meter_inv_def counters_agree_def)
  qed
  with False show ?thesis
    by (auto simp: runIterateLoop_def runIterateLoopCore_def Let_def counters_agree_def)
qed


lemma permitted_sample [simp]: "permitted_iterations sample_input = 2"
  by (simp add: permitted_iterations_def sample_input_def)

theorem runIterateLoop_returns_witness:
  "metering_safe 100 sample_input (sample_deps ConclFailure\<lparr>dp_nowMs := \<lambda>_. Fin 7\<rparr>) \<and>
   (\<exists>r w'. runIterateLoop sample_input (sample_deps ConclFailure\<lparr>dp_nowMs := \<lambda>_. Fin 7\<rparr>) fresh_world = (Inr r, w') \<and>
     lr_totalTurnsUsed (lo_core r) = au_turns (lo_finalMeterTotals r) \<and>
     lr_totalCostUsd (lo_core r) = au_costUsd (lo_finalMeterTotals r))"
proof -
  have "(200::rat) < num_max" by (rule less_trans[OF _ num_max_large]) simp
  moreover have "(100::rat) < num_max" by (rule less_trans[OF _ num_max_large]) simp
  ultimately have "metering_safe 100 sample_input (sample_deps ConclFailure\<lparr>dp_nowMs := \<lambda>_. Fin 7\<rparr>)"
    by (auto simp: metering_safe_def sample_deps_def usage_within_def createNoopCodingAgentDriver_def
        bare_result_def finiteNonNegativeUsage_def)
      (auto simp: sample_input_def budget_ok_def is_nonneg_def)
  then show ?thesis using runIterateLoop_returns by blast
qed

text \<open>A paused attempt reports one iteration used although its driver was not invoked.\<close>

lemma paused_attempt_reports_an_iteration:
  "\<exists>r w'. runIterateLoop (sample_input\<lparr>li_mode := CmPaused\<rparr>) (sample_deps ConclSuccess) fresh_world = (Inr r, w') \<and>
     lr_iterationsUsed (lo_core r) = 1 \<and> aw_tasks (lw_agent w') = [] \<and> lr_outcome (lo_core r) = OutAbandon"
  unfolding runIterateLoop_def runIterateLoopCore_def permitted_iterations_def
  by (simp add: iterateFrom.simps sample_input_def sample_deps_def fresh_world_def initial_state_def
      loop_run_defs num_of_rat_small invokeCodingAgentDriver_def log_append_def abandonDecision_def
      logDecision_def safeAppendAttemptLogEvent_def push_iteration_def)

end
