(* ===== verification/Event_Ledger.thy ===== *)
theory Event_Ledger
  imports Governor_Ledger
begin

text \<open>
  The miner's local append-only event ledger (\<open>packages/loopover-miner/lib/event-ledger.ts\<close>) with the
  two maintenance operations that may delete rows (\<open>store-maintenance.ts\<close>), and the PR-outcome record kept
  on top of it (\<open>pr-outcome.ts\<close>).

  The SQLite table is its list of rows in insertion order together with the \<open>AUTOINCREMENT\<close> counter; a
  transaction is one state change, and a failed one leaves the table as it was. The wall clock's
  \<open>new Date().toISOString()\<close> is an argument of \<open>appendEvent\<close>; \<open>new Date(ms).toISOString()\<close> in the retention
  pass is a parameter that may throw. \<open>JSON.parse(JSON.stringify(p))\<close> keeps the key order of \<open>p\<close>, so the
  deep comparison of a payload with its round trip is equality.
\<close>

section \<open>Definitions: the ledger\<close>

record LedgerEntry =
  le_id :: nat
  le_seq :: nat
  le_type :: string
  le_repoFullName :: "string option"
  le_payload :: jsval
  le_createdAt :: string

record AppendEventInput =
  ai_type :: jsval
  ai_repoFullName :: jsval
  ai_payload :: jsval

record ReadEventsFilter =
  rf_repoFullName :: jsval
  rf_since :: jsval

record event_table =
  et_rows :: "LedgerEntry list"
  et_lastId :: nat

definition normalizeEventType :: "jsval \<Rightarrow> string + string" where
  "normalizeEventType t = normalizeRequiredString t ''invalid_event_type''"

definition normalizeOptionalSince :: "jsval \<Rightarrow> string + nat option" where
  "normalizeOptionalSince since =
     (case since of
        JUndef \<Rightarrow> Inr None
      | JNull \<Rightarrow> Inr None
      | JNum (Fin q) \<Rightarrow> if q \<noteq> of_int \<lfloor>q\<rfloor> \<or> q < 0 then Inl ''invalid_since'' else Inr (Some (nat \<lfloor>q\<rfloor>))
      | _ \<Rightarrow> Inl ''invalid_since'')"

definition serializeEventPayload :: "jsval \<Rightarrow> string + jsval" where
  "serializeEventPayload payload =
     (case payload of
        JObj fs \<Rightarrow> if json_rt payload \<noteq> payload then Inl ''invalid_payload'' else Inr (json_rt payload)
      | _ \<Rightarrow> Inl ''invalid_payload'')"

text \<open>\<open>COALESCE(MAX(seq), 0)\<close>.\<close>

definition latestSeq :: "event_table \<Rightarrow> nat" where
  "latestSeq tb = fold max (map le_seq (et_rows tb)) 0"

definition appendEvent ::
  "string \<Rightarrow> AppendEventInput \<Rightarrow> event_table \<Rightarrow> string + LedgerEntry \<times> event_table" where
  "appendEvent createdAt ev tb =
     and_then (normalizeEventType (ai_type ev)) (\<lambda>ty.
     and_then (normalizeOptionalRepoFullName (ai_repoFullName ev)) (\<lambda>repo.
     and_then (serializeEventPayload (ai_payload ev)) (\<lambda>json.
     let nextSeq = latestSeq tb + 1;
         entry = \<lparr>le_id = et_lastId tb + 1, le_seq = nextSeq, le_type = ty, le_repoFullName = repo,
                  le_payload = json, le_createdAt = createdAt\<rparr>
     in Inr (entry, \<lparr>et_rows = et_rows tb @ [entry], et_lastId = et_lastId tb + 1\<rparr>))))"

text \<open>A read filter that is absent or null does not restrict; \<open>since\<close> is exclusive.\<close>

definition readEvents :: "ReadEventsFilter \<Rightarrow> event_table \<Rightarrow> string + LedgerEntry list" where
  "readEvents f tb =
     and_then (normalizeOptionalRepoFullName (rf_repoFullName f)) (\<lambda>repo.
     and_then (normalizeOptionalSince (rf_since f)) (\<lambda>since.
     Inr (sort_key le_seq (filter (\<lambda>e.
       (case repo of None \<Rightarrow> True | Some r \<Rightarrow> le_repoFullName e = Some r) \<and>
       (case since of None \<Rightarrow> True | Some n \<Rightarrow> n < le_seq e)) (et_rows tb)))))"

definition no_filter :: ReadEventsFilter where
  "no_filter = \<lparr>rf_repoFullName = JUndef, rf_since = JUndef\<rparr>"

definition purgeByRepo :: "jsval \<Rightarrow> event_table \<Rightarrow> string + nat \<times> event_table" where
  "purgeByRepo repoFullName tb =
     and_then (normalizeOptionalRepoFullName repoFullName) (\<lambda>normalized.
     case normalized of
       None \<Rightarrow> Inl ''invalid_repo_full_name''
     | Some r \<Rightarrow>
         let kept = filter (\<lambda>e. le_repoFullName e \<noteq> Some r) (et_rows tb)
         in Inr (length (et_rows tb) - length kept, tb\<lparr>et_rows := kept\<rparr>))"

record LedgerRetentionPolicy =
  lp_maxAgeMs :: "jsnum option"
  lp_maxRows :: "nat option"

text \<open>The newest \<open>n\<close> ids: \<open>ORDER BY id DESC LIMIT n\<close>.\<close>

definition newest_ids :: "nat \<Rightarrow> LedgerEntry list \<Rightarrow> nat list" where
  "newest_ids n rows = take n (rev (sort (map le_id rows)))"

definition prune_by_age ::
  "(jsnum \<Rightarrow> string + string) \<Rightarrow> jsnum option \<Rightarrow> jsnum \<Rightarrow> LedgerEntry list \<Rightarrow> string + LedgerEntry list" where
  "prune_by_age toISOString maxAgeMs nowMs rows =
     (case maxAgeMs of
        Some age \<Rightarrow>
          if num_lt (Fin 0) age then
            and_then (toISOString (num_sub nowMs age)) (\<lambda>cutoff.
              Inr (filter (\<lambda>e. \<not> le_createdAt e < cutoff) rows))
          else Inr rows
      | None \<Rightarrow> Inr rows)"

definition prune_by_count :: "nat option \<Rightarrow> LedgerEntry list \<Rightarrow> LedgerEntry list" where
  "prune_by_count maxRows rows =
     (case maxRows of
        Some n \<Rightarrow> if 1 \<le> n then filter (\<lambda>e. le_id e \<in> set (newest_ids n rows)) rows else rows
      | None \<Rightarrow> rows)"

definition pruneLedgerByRetention ::
  "(jsnum \<Rightarrow> string + string) \<Rightarrow> LedgerRetentionPolicy option \<Rightarrow> jsnum \<Rightarrow> event_table
     \<Rightarrow> string + nat \<times> event_table" where
  "pruneLedgerByRetention toISOString policy nowMs tb =
     (case policy of
        None \<Rightarrow> Inr (0, tb)
      | Some p \<Rightarrow>
          and_then (prune_by_age toISOString (lp_maxAgeMs p) nowMs (et_rows tb)) (\<lambda>rows1.
          let rows2 = prune_by_count (lp_maxRows p) rows1
          in Inr (length (et_rows tb) - length rows2, tb\<lparr>et_rows := rows2\<rparr>)))"


section \<open>Lemmas: the table invariant\<close>

text \<open>Rows in increasing order of both keys, ids below the counter, sequence numbers positive.\<close>

definition table_wf :: "event_table \<Rightarrow> bool" where
  "table_wf tb \<longleftrightarrow> sorted_wrt (\<lambda>a b. le_id a < le_id b \<and> le_seq a < le_seq b) (et_rows tb) \<and>
     (\<forall>e \<in> set (et_rows tb). le_id e \<le> et_lastId tb \<and> 0 < le_seq e)"

definition empty_table :: event_table where
  "empty_table = \<lparr>et_rows = [], et_lastId = 0\<rparr>"

lemma fold_max_le: "fold max ns a \<le> b \<longleftrightarrow> a \<le> b \<and> (\<forall>n \<in> set ns. n \<le> (b::nat))"
  by (induction ns arbitrary: a) auto

lemma latestSeq_upper: "e \<in> set (et_rows tb) \<Longrightarrow> le_seq e \<le> latestSeq tb"
  using fold_max_le[of "map le_seq (et_rows tb)" 0 "latestSeq tb"] by (simp add: latestSeq_def)

lemma latestSeq_empty [simp]: "et_rows tb = [] \<Longrightarrow> latestSeq tb = 0"
  by (simp add: latestSeq_def)

lemma appendEvent_Inr:
  assumes "appendEvent createdAt ev tb = Inr (e, tb')"
  shows "tb' = \<lparr>et_rows = et_rows tb @ [e], et_lastId = et_lastId tb + 1\<rparr>"
    and "le_id e = et_lastId tb + 1" "le_seq e = latestSeq tb + 1" "le_createdAt e = createdAt"
    and "le_payload e = ai_payload ev"
    and "normalizeRequiredString (ai_type ev) ''invalid_event_type'' = Inr (le_type e)"
    and "normalizeOptionalRepoFullName (ai_repoFullName ev) = Inr (le_repoFullName e)"
  using assms
  by (auto simp: appendEvent_def and_then_Inr Let_def normalizeEventType_def serializeEventPayload_def
      split: jsval.splits if_splits)

lemma appendEvent_wf:
  assumes "table_wf tb" and "appendEvent createdAt ev tb = Inr (e, tb')"
  shows "table_wf tb'"
proof -
  have e: "le_id e = et_lastId tb + 1" "le_seq e = latestSeq tb + 1"
    and tb': "tb' = \<lparr>et_rows = et_rows tb @ [e], et_lastId = et_lastId tb + 1\<rparr>"
    using appendEvent_Inr(1-3)[OF assms(2)] by simp_all
  have "le_id a < le_id e \<and> le_seq a < le_seq e" if "a \<in> set (et_rows tb)" for a
    using that assms(1) latestSeq_upper[OF that] e by (auto simp: table_wf_def less_Suc_eq_le)
  then show ?thesis using assms(1) e unfolding tb' by (auto simp: table_wf_def sorted_wrt_append)
qed

lemma sorted_wrt_filter_rows: "table_wf tb \<Longrightarrow> table_wf (tb\<lparr>et_rows := filter P (et_rows tb)\<rparr>)"
  by (auto simp: table_wf_def sorted_wrt_filter)

lemma purgeByRepo_wf: "table_wf tb \<Longrightarrow> purgeByRepo r tb = Inr (n, tb') \<Longrightarrow> table_wf tb'"
  by (auto simp: purgeByRepo_def and_then_Inr Let_def sorted_wrt_filter_rows split: option.splits)

lemma prune_rows_filter:
  "pruneLedgerByRetention toIso policy nowMs tb = Inr (n, tb') \<Longrightarrow> \<exists>P. tb' = tb\<lparr>et_rows := filter P (et_rows tb)\<rparr>"
proof -
  assume a: "pruneLedgerByRetention toIso policy nowMs tb = Inr (n, tb')"
  have "\<exists>P. prune_by_count k rows = filter P rows" for k rows
    by (auto simp: prune_by_count_def intro: exI[of _ "\<lambda>_. True"] split: option.splits)
  moreover have "\<exists>P. rows' = filter P rows" if "prune_by_age toIso ag nowMs rows = Inr rows'" for ag rows rows'
    using that by (auto simp: prune_by_age_def and_then_Inr intro: exI[of _ "\<lambda>_. True"]
        split: option.splits if_splits)
  moreover obtain rows1 k where "tb' = tb\<lparr>et_rows := prune_by_count k rows1\<rparr>"
    and "rows1 = et_rows tb \<or> (\<exists>ag. prune_by_age toIso ag nowMs (et_rows tb) = Inr rows1)"
  proof (cases policy)
    case None
    then have "tb' = tb\<lparr>et_rows := prune_by_count None (et_rows tb)\<rparr>"
      using a by (simp add: pruneLedgerByRetention_def prune_by_count_def)
    then show ?thesis using that by blast
  next
    case (Some p)
    then show ?thesis using a that by (auto simp: pruneLedgerByRetention_def and_then_Inr Let_def)
  qed
  ultimately show ?thesis by (metis filter_filter)
qed

lemma sorted_key_rows: "table_wf tb \<Longrightarrow> sorted (map le_seq (filter P (et_rows tb)))"
proof -
  assume "table_wf tb"
  then have "sorted_wrt (\<lambda>a b. le_seq a < le_seq b) (et_rows tb)"
    unfolding table_wf_def by (auto elim: sorted_wrt_mono_rel[rotated])
  then have "sorted_wrt (\<lambda>a b. le_seq a < le_seq b) (filter P (et_rows tb))" by (rule sorted_wrt_filter)
  then have "sorted_wrt (\<lambda>a b. le_seq a \<le> le_seq b) (filter P (et_rows tb))"
    by (rule sorted_wrt_mono_rel[rotated]) simp
  then show ?thesis by (simp add: sorted_wrt_map)
qed

lemma readEvents_rows:
  "table_wf tb \<Longrightarrow> readEvents no_filter tb = Inr (et_rows tb)"
  using sorted_key_rows[of tb "\<lambda>_. True"]
  by (simp add: readEvents_def no_filter_def normalizeOptionalSince_def sort_key_id_if_sorted)


text \<open>What happens to a ledger over its life: appends and the two kinds of deletion. An operation that throws leaves
  the table as it was.\<close>

inductive ledger_step :: "event_table \<Rightarrow> event_table \<Rightarrow> bool" where
  step_append: "appendEvent createdAt ev tb = Inr (e, tb') \<Longrightarrow> ledger_step tb tb'"
| step_purge: "purgeByRepo r tb = Inr (n, tb') \<Longrightarrow> ledger_step tb tb'"
| step_prune: "pruneLedgerByRetention toIso policy nowMs tb = Inr (n, tb') \<Longrightarrow> ledger_step tb tb'"

lemma ledger_step_wf: "ledger_step tb tb' \<Longrightarrow> table_wf tb \<Longrightarrow> table_wf tb'"
proof (induction rule: ledger_step.induct)
  case (step_append createdAt ev tb e tb') then show ?case by (blast intro: appendEvent_wf)
next
  case (step_purge r tb n tb') then show ?case by (blast intro: purgeByRepo_wf)
next
  case (step_prune toIso policy nowMs tb n tb')
  then obtain P where "tb' = tb\<lparr>et_rows := filter P (et_rows tb)\<rparr>" using prune_rows_filter by blast
  with step_prune show ?case by (simp add: sorted_wrt_filter_rows)
qed

lemma ledger_steps_wf: "ledger_step\<^sup>*\<^sup>* tb tb' \<Longrightarrow> table_wf tb \<Longrightarrow> table_wf tb'"
  by (induction rule: rtranclp_induct) (auto intro: ledger_step_wf)

lemma empty_table_wf: "table_wf empty_table"
  by (simp add: table_wf_def empty_table_def)

text \<open>however a ledger has been appended to, purged and pruned since it was created, reading it without a filter
  gives exactly the rows it holds in the order they were appended, with strictly increasing ids and sequence numbers.\<close>

theorem readEvents_in_append_order:
  assumes "ledger_step\<^sup>*\<^sup>* empty_table tb"
  shows "readEvents no_filter tb = Inr (et_rows tb) \<and>
    sorted_wrt (\<lambda>a b. le_id a < le_id b \<and> le_seq a < le_seq b) (et_rows tb)"
  using ledger_steps_wf[OF assms empty_table_wf] readEvents_rows by (auto simp: table_wf_def)

definition sample_event :: "string \<Rightarrow> AppendEventInput" where
  "sample_event r = \<lparr>ai_type = JStr ''t'', ai_repoFullName = JStr r, ai_payload = JObj []\<rparr>"

definition append_ok :: "AppendEventInput \<Rightarrow> event_table \<Rightarrow> event_table" where
  "append_ok ev tb = (case appendEvent ''2026-01-01T00:00:00.000Z'' ev tb of Inr (_, tb') \<Rightarrow> tb' | Inl _ \<Rightarrow> tb)"

lemma append_sample:
  assumes "normalizeOptionalRepoFullName (JStr r) = Inr (Some r)"
  shows "\<exists>e. appendEvent ''2026-01-01T00:00:00.000Z'' (sample_event r) tb = Inr (e, append_ok (sample_event r) tb)"
  using assms
  by (auto simp: append_ok_def appendEvent_def sample_event_def normalizeEventType_def
      serializeEventPayload_def Let_def trim_def is_ws_def split: if_splits)

theorem readEvents_in_append_order_witness:
  "readEvents no_filter (append_ok (sample_event ''o/r'') empty_table) =
     Inr (et_rows (append_ok (sample_event ''o/r'') empty_table)) \<and>
   length (et_rows (append_ok (sample_event ''o/r'') empty_table)) = 1"
proof -
  have repo: "normalizeOptionalRepoFullName (JStr ''o/r'') = Inr (Some ''o/r'')" by code_simp
  obtain e where e: "appendEvent ''2026-01-01T00:00:00.000Z'' (sample_event ''o/r'') empty_table =
      Inr (e, append_ok (sample_event ''o/r'') empty_table)"
    using append_sample[OF repo] by blast
  then have "ledger_step\<^sup>*\<^sup>* empty_table (append_ok (sample_event ''o/r'') empty_table)"
    by (blast intro: step_append)
  with readEvents_in_append_order[OF this] show ?thesis
    using appendEvent_Inr(1)[OF e] by (simp add: empty_table_def)
qed


section \<open>Lemmas: polling\<close>

text \<open>The entries a run of appends adds to a table, in order.\<close>

inductive appends :: "event_table \<Rightarrow> LedgerEntry list \<Rightarrow> event_table \<Rightarrow> bool" where
  no_append: "appends tb [] tb"
| one_more: "appends tb es tb1 \<Longrightarrow> appendEvent createdAt ev tb1 = Inr (e, tb2) \<Longrightarrow> appends tb (es @ [e]) tb2"

lemma appends_rows:
  "appends tb es tb' \<Longrightarrow> et_rows tb' = et_rows tb @ es \<and> (table_wf tb \<longrightarrow> table_wf tb') \<and>
     (\<forall>e \<in> set es. latestSeq tb < le_seq e)"
proof (induction rule: appends.induct)
  case (one_more tb es tb1 createdAt ev e tb2)
  have "latestSeq tb \<le> latestSeq tb1"
    using latestSeq_upper[of _ tb1] one_more.IH by (subst latestSeq_def) (simp add: fold_max_le)
  moreover have "et_rows tb2 = et_rows tb1 @ [e]" "le_seq e = latestSeq tb1 + 1"
    using appendEvent_Inr(1,3)[OF one_more.hyps(2)] by simp_all
  moreover have "table_wf tb1 \<Longrightarrow> table_wf tb2" using one_more.hyps(2) by (rule appendEvent_wf[rotated])
  ultimately show ?case using one_more.IH by auto
qed simp

lemma read_since:
  assumes "table_wf tb'"
  shows "readEvents \<lparr>rf_repoFullName = JUndef, rf_since = JNum (num_of_nat n)\<rparr> tb' =
    Inr (filter (\<lambda>e. n < le_seq e) (et_rows tb'))"
  using sorted_key_rows[OF assms]
  by (simp add: readEvents_def normalizeOptionalSince_def sort_key_id_if_sorted)

text \<open>polling loses and repeats nothing. A reader that remembers \<open>latestSeq\<close> and later asks for everything after it
  gets exactly the entries appended in between, in order, as long as only appends happened in between.\<close>

theorem polling_is_complete:
  assumes "ledger_step\<^sup>*\<^sup>* empty_table tb" and "appends tb es tb'"
  shows "readEvents \<lparr>rf_repoFullName = JUndef, rf_since = JNum (num_of_nat (latestSeq tb))\<rparr> tb' = Inr es"
proof -
  have wf: "table_wf tb" using assms(1) empty_table_wf by (rule ledger_steps_wf)
  note rows = appends_rows[OF assms(2)]
  have "filter (\<lambda>e. latestSeq tb < le_seq e) (et_rows tb) = []"
    using latestSeq_upper by (auto simp: filter_empty_conv not_less)
  moreover have "filter (\<lambda>e. latestSeq tb < le_seq e) es = es" using rows by (simp add: filter_id_conv)
  ultimately show ?thesis using rows wf by (simp add: read_since)
qed


lemma repo_or [simp]: "normalizeOptionalRepoFullName (JStr ''o/r'') = Inr (Some ''o/r'')"
  by code_simp

lemma repo_pq [simp]: "normalizeOptionalRepoFullName (JStr ''p/q'') = Inr (Some ''p/q'')"
  by code_simp

theorem polling_is_complete_witness:
  "\<exists>e. readEvents \<lparr>rf_repoFullName = JUndef, rf_since = JNum (num_of_nat (latestSeq empty_table))\<rparr>
      (append_ok (sample_event ''o/r'') empty_table) = Inr [e]"
proof -
  obtain e where "appendEvent ''2026-01-01T00:00:00.000Z'' (sample_event ''o/r'') empty_table =
      Inr (e, append_ok (sample_event ''o/r'') empty_table)"
    using append_sample[OF repo_or] by blast
  then have "appends empty_table ([] @ [e]) (append_ok (sample_event ''o/r'') empty_table)"
    by (rule one_more[OF no_append])
  then show ?thesis using polling_is_complete[of empty_table "[e]"] by auto
qed

text \<open>a purge breaks the polling guarantee: the next sequence number is computed from the rows still there, so it is
  used again after the newest row was purged, and a reader whose cursor already stood there never sees the new entry.\<close>

theorem purge_reuses_sequence_numbers:
  "\<exists>tb1 tb2 tb3 e1 e3.
     appendEvent ''2026-01-01T00:00:00.000Z'' (sample_event ''o/r'') empty_table = Inr (e1, tb1) \<and>
     purgeByRepo (JStr ''o/r'') tb1 = Inr (1, tb2) \<and>
     appendEvent ''2026-01-01T00:00:00.000Z'' (sample_event ''p/q'') tb2 = Inr (e3, tb3) \<and>
     le_seq e3 = le_seq e1 \<and>
     readEvents \<lparr>rf_repoFullName = JUndef, rf_since = JNum (num_of_nat (latestSeq tb1))\<rparr> tb3 = Inr []"
  by (simp add: appendEvent_def sample_event_def normalizeEventType_def serializeEventPayload_def Let_def
      trim_def is_ws_def empty_table_def latestSeq_def purgeByRepo_def readEvents_def normalizeOptionalSince_def
      del: normalizeOptionalRepoFullName.simps(3))


section \<open>Definitions: PR outcomes\<close>

datatype MinerPrOutcomeDecision = PrMerged | PrClosed

definition MINER_PR_OUTCOME_EVENT :: string where
  "MINER_PR_OUTCOME_EVENT = ''pr_outcome''"

definition MINER_PR_OUTCOME_DECISIONS :: "(string \<times> MinerPrOutcomeDecision) list" where
  "MINER_PR_OUTCOME_DECISIONS = [(''merged'', PrMerged), (''closed'', PrClosed)]"

definition REJECTION_REASONS :: "string list" where
  "REJECTION_REASONS = [''gate_close'', ''maintainer_close_no_reason'', ''superseded_by_duplicate'']"

record NormalizedPrOutcomePayload =
  po_prNumber :: nat
  po_decision :: MinerPrOutcomeDecision
  po_closedAt :: "string option"
  po_reason :: "string option"
  po_issueNumber :: "nat option"

record PrOutcomeInput =
  pin_repoFullName :: jsval
  pin_prNumber :: jsval
  pin_decision :: jsval
  pin_closedAt :: jsval
  pin_reason :: jsval
  pin_issueNumber :: jsval

fun optionalString :: "jsval \<Rightarrow> string option" where
  "optionalString (JStr s) = (let t = trim s in if t = [] then None else Some t)"
| "optionalString _ = None"

text \<open>A positive integer, or none.\<close>

definition positive_int :: "jsval \<Rightarrow> nat option" where
  "positive_int v =
     (case v of
        JNum (Fin q) \<Rightarrow> if q = of_int \<lfloor>q\<rfloor> \<and> 0 < q then Some (nat \<lfloor>q\<rfloor>) else None
      | _ \<Rightarrow> None)"

definition normalizePrOutcomePayload :: "jsval \<Rightarrow> NormalizedPrOutcomePayload option" where
  "normalizePrOutcomePayload payload =
     (case payload of
        JObj fs \<Rightarrow>
          (case positive_int (field fs ''prNumber'') of
             None \<Rightarrow> None
           | Some prNumber \<Rightarrow>
          (case optionalString (field fs ''decision'') of
             None \<Rightarrow> None
           | Some d \<Rightarrow>
          (case map_of MINER_PR_OUTCOME_DECISIONS d of
             None \<Rightarrow> None
           | Some decision \<Rightarrow>
               Some \<lparr>po_prNumber = prNumber, po_decision = decision,
                     po_closedAt = optionalString (field fs ''closedAt''),
                     po_reason =
                       (case optionalString (field fs ''reason'') of
                          Some r \<Rightarrow> if decision = PrClosed \<and> r \<in> set REJECTION_REASONS then Some r else None
                        | None \<Rightarrow> None),
                     po_issueNumber = positive_int (field fs ''issueNumber'')\<rparr>)))
      | _ \<Rightarrow> None)"

fun decision_name :: "MinerPrOutcomeDecision \<Rightarrow> string" where
  "decision_name PrMerged = ''merged''"
| "decision_name PrClosed = ''closed''"

definition opt_str :: "string option \<Rightarrow> jsval" where
  "opt_str v = (case v of None \<Rightarrow> JNull | Some s \<Rightarrow> JStr s)"

definition opt_nat :: "nat option \<Rightarrow> jsval" where
  "opt_nat v = (case v of None \<Rightarrow> JNull | Some n \<Rightarrow> JNum (num_of_nat n))"

text \<open>The payload object a normalised outcome is.\<close>

definition outcome_object :: "NormalizedPrOutcomePayload \<Rightarrow> jsval" where
  "outcome_object p =
     JObj [(''prNumber'', JNum (num_of_nat (po_prNumber p))),
           (''decision'', JStr (decision_name (po_decision p))),
           (''closedAt'', opt_str (po_closedAt p)), (''reason'', opt_str (po_reason p)),
           (''issueNumber'', opt_nat (po_issueNumber p))]"

definition input_object :: "PrOutcomeInput \<Rightarrow> jsval" where
  "input_object i =
     JObj [(''prNumber'', pin_prNumber i), (''decision'', pin_decision i), (''closedAt'', pin_closedAt i),
           (''reason'', pin_reason i), (''issueNumber'', pin_issueNumber i)]"

text \<open>The fire-and-forget notification that may follow the append is not modelled.\<close>

definition recordPrOutcomeSnapshot ::
  "string \<Rightarrow> PrOutcomeInput \<Rightarrow> event_table \<Rightarrow> string + LedgerEntry option \<times> event_table" where
  "recordPrOutcomeSnapshot createdAt input tb =
     (let repoFullName = (case pin_repoFullName input of JStr s \<Rightarrow> trim s | _ \<Rightarrow> []) in
      if repoFullName = [] then Inr (None, tb)
      else case normalizePrOutcomePayload (input_object input) of
        None \<Rightarrow> Inr (None, tb)
      | Some payload \<Rightarrow>
          and_then (appendEvent createdAt
             \<lparr>ai_type = JStr MINER_PR_OUTCOME_EVENT, ai_repoFullName = JStr repoFullName,
              ai_payload = outcome_object payload\<rparr> tb)
            (\<lambda>(e, tb'). Inr (Some e, tb')))"

text \<open>\<open>latest.delete(key); latest.set(key, value)\<close> on a \<open>Map\<close> kept in iteration order. The key
  \<open>repo:number\<close> is the pair of its parts.\<close>

type_synonym outcome_map = "((string \<times> nat) \<times> NormalizedPrOutcomePayload) list"

definition put_last :: "string \<times> nat \<Rightarrow> NormalizedPrOutcomePayload \<Rightarrow> outcome_map \<Rightarrow> outcome_map" where
  "put_last k v m = filter (\<lambda>p. fst p \<noteq> k) m @ [(k, v)]"

fun outcome_row :: "LedgerEntry \<Rightarrow> outcome_map \<Rightarrow> outcome_map" where
  "outcome_row e m =
     (if le_type e \<noteq> MINER_PR_OUTCOME_EVENT then m
      else case le_repoFullName e of
        None \<Rightarrow> m
      | Some repo \<Rightarrow>
          if trim repo = [] then m
          else case normalizePrOutcomePayload (le_payload e) of
            None \<Rightarrow> m
          | Some normalized \<Rightarrow> put_last (repo, po_prNumber normalized) normalized m)"

definition readPrOutcomes :: "ReadEventsFilter \<Rightarrow> event_table \<Rightarrow> string + outcome_map" where
  "readPrOutcomes f tb = and_then (readEvents f tb) (\<lambda>events. Inr (fold outcome_row events []))"



section \<open>Lemmas: PR outcomes\<close>

definition outcome_wf :: "NormalizedPrOutcomePayload \<Rightarrow> bool" where
  "outcome_wf p \<longleftrightarrow> 0 < po_prNumber p \<and>
     (\<forall>s. po_closedAt p = Some s \<longrightarrow> nonblank s) \<and>
     (\<forall>r. po_reason p = Some r \<longrightarrow> po_decision p = PrClosed \<and> r \<in> set REJECTION_REASONS) \<and>
     (\<forall>n. po_issueNumber p = Some n \<longrightarrow> 0 < n)"

lemma optionalString_nonblank: "optionalString v = Some s \<Longrightarrow> nonblank s"
  by (cases v) (auto simp: Let_def nonblank_def split: if_splits)

lemma optionalString_fix: "nonblank s \<Longrightarrow> optionalString (JStr s) = Some s"
  by (simp add: nonblank_def)

lemma positive_int_pos: "positive_int v = Some n \<Longrightarrow> 0 < n"
  by (auto simp: positive_int_def split: jsval.splits jsnum.splits if_splits)

lemma positive_int_nat [simp]: "positive_int (JNum (num_of_nat n)) = (if 0 < n then Some n else None)"
  by (simp add: positive_int_def)

lemma normalizePrOutcomePayload_wf: "normalizePrOutcomePayload v = Some p \<Longrightarrow> outcome_wf p"
  by (auto simp: normalizePrOutcomePayload_def outcome_wf_def positive_int_pos optionalString_nonblank
      split: jsval.splits option.splits if_splits)

lemma reasons_nonblank: "r \<in> set REJECTION_REASONS \<Longrightarrow> nonblank r"
  by (auto simp: REJECTION_REASONS_def nonblank_def trim_def is_ws_def)

lemma decision_lookup [simp]:
  "map_of MINER_PR_OUTCOME_DECISIONS (decision_name d) = Some d" "optionalString (JStr (decision_name d)) = Some (decision_name d)"
  by (cases d; simp add: MINER_PR_OUTCOME_DECISIONS_def)
    (cases d; simp add: trim_def is_ws_def)

lemma optionalString_opt_str: "(\<And>s. v = Some s \<Longrightarrow> nonblank s) \<Longrightarrow> optionalString (opt_str v) = v"
  by (cases v) (simp_all add: opt_str_def nonblank_def)

lemma positive_int_opt_nat: "(\<And>n. v = Some n \<Longrightarrow> 0 < n) \<Longrightarrow> positive_int (opt_nat v) = v"
  by (cases v) (simp_all add: opt_nat_def, simp add: positive_int_def)

lemma outcome_roundtrip:
  assumes "outcome_wf p" shows "normalizePrOutcomePayload (outcome_object p) = Some p"
proof -
  have "optionalString (opt_str (po_closedAt p)) = po_closedAt p"
    using assms by (intro optionalString_opt_str) (simp add: outcome_wf_def)
  moreover have "optionalString (opt_str (po_reason p)) = po_reason p"
    using assms reasons_nonblank by (intro optionalString_opt_str) (simp add: outcome_wf_def)
  moreover have "positive_int (opt_nat (po_issueNumber p)) = po_issueNumber p"
    using assms by (intro positive_int_opt_nat) (simp add: outcome_wf_def)
  ultimately show ?thesis
    using assms
    by (auto simp: normalizePrOutcomePayload_def outcome_object_def field_def outcome_wf_def
        simp del: optionalString.simps split: option.split)
qed

lemma readPrOutcomes_rows:
  "table_wf tb \<Longrightarrow> readPrOutcomes no_filter tb = Inr (fold outcome_row (et_rows tb) [])"
  by (simp add: readPrOutcomes_def readEvents_rows)

lemma outcome_row_distinct: "distinct (map fst m) \<Longrightarrow> distinct (map fst (outcome_row e m))"
  by (auto simp: put_last_def distinct_map_filter split: option.splits)

lemma fold_outcome_row_distinct: "distinct (map fst m) \<Longrightarrow> distinct (map fst (fold outcome_row es m))"
  by (induction es arbitrary: m) (simp_all add: outcome_row_distinct del: outcome_row.simps)

lemma recordPrOutcomeSnapshot_row:
  assumes "recordPrOutcomeSnapshot createdAt input tb = Inr (Some e, tb')"
  obtains p repo where "normalizePrOutcomePayload (input_object input) = Some p"
    and "et_rows tb' = et_rows tb @ [e]" "le_repoFullName e = Some repo" "valid_repo_name repo"
    and "outcome_row e m = put_last (repo, po_prNumber p) p m" "table_wf tb \<Longrightarrow> table_wf tb'"
proof -
  let ?repo = "case pin_repoFullName input of JStr s \<Rightarrow> trim s | _ \<Rightarrow> []"
  from assms obtain p where p: "normalizePrOutcomePayload (input_object input) = Some p"
    and ap: "appendEvent createdAt \<lparr>ai_type = JStr MINER_PR_OUTCOME_EVENT, ai_repoFullName = JStr ?repo,
      ai_payload = outcome_object p\<rparr> tb = Inr (e, tb')"
    by (auto simp: recordPrOutcomeSnapshot_def Let_def and_then_Inr split: if_splits option.splits)
  note a = appendEvent_Inr[OF ap]
  have ty: "le_type e = MINER_PR_OUTCOME_EVENT"
    using a(6) by (simp add: MINER_PR_OUTCOME_EVENT_def trim_def is_ws_def)
  have "le_repoFullName e \<noteq> None"
    using a(7) by (auto dest: sym split: list.splits if_splits)
  then obtain r where r: "le_repoFullName e = Some r" by auto
  have valid: "valid_repo_name r" using a(7)[unfolded r] by (rule normalizeOptionalRepoFullName_valid)
  then have "CHR ''/'' \<in> set r" by (auto simp: valid_repo_name_def)
  moreover have "\<not> is_ws (CHR ''/'')" by (simp add: is_ws_def)
  ultimately have "trim r \<noteq> []" unfolding trim_eq_Nil by blast
  then have "outcome_row e m = put_last (r, po_prNumber p) p m"
    using ty r a(5) outcome_roundtrip[OF normalizePrOutcomePayload_wf[OF p]] by simp
  then show thesis
    using that p a(1) r valid appendEvent_wf[OF _ ap] by simp
qed

text \<open>recording an outcome and reading the record back. When a snapshot is stored, the map read back has one entry per
  repository and pull request, its last (most recent) entry is the normalised snapshot itself, and the entries of all
  other pull requests are as before.\<close>

theorem pr_outcome_read_back:
  assumes "ledger_step\<^sup>*\<^sup>* empty_table tb" and "recordPrOutcomeSnapshot createdAt input tb = Inr (Some e, tb')"
  shows "\<exists>p repo m m'. normalizePrOutcomePayload (input_object input) = Some p \<and> le_repoFullName e = Some repo \<and>
    readPrOutcomes no_filter tb = Inr m \<and> readPrOutcomes no_filter tb' = Inr m' \<and>
    m' = filter (\<lambda>q. fst q \<noteq> (repo, po_prNumber p)) m @ [((repo, po_prNumber p), p)] \<and> distinct (map fst m')"
proof -
  have wf: "table_wf tb" using assms(1) empty_table_wf by (rule ledger_steps_wf)
  let ?m = "fold outcome_row (et_rows tb) []"
  from assms(2) obtain p repo where "normalizePrOutcomePayload (input_object input) = Some p"
    and rows: "et_rows tb' = et_rows tb @ [e]" and "le_repoFullName e = Some repo"
    and row: "outcome_row e ?m = put_last (repo, po_prNumber p) p ?m" and "table_wf tb'"
    using wf by (elim recordPrOutcomeSnapshot_row[where m = ?m]) blast
  moreover have "distinct (map fst (outcome_row e ?m))"
    by (intro outcome_row_distinct fold_outcome_row_distinct) simp
  ultimately show ?thesis
    using wf by (auto simp: readPrOutcomes_rows put_last_def simp del: outcome_row.simps)
qed

definition sample_outcome :: PrOutcomeInput where
  "sample_outcome =
     \<lparr>pin_repoFullName = JStr ''o/r'', pin_prNumber = JNum (Fin 7), pin_decision = JStr ''closed'',
      pin_closedAt = JNull, pin_reason = JStr ''gate_close'', pin_issueNumber = JUndef\<rparr>"

theorem pr_outcome_read_back_witness:
  "\<exists>e tb'. recordPrOutcomeSnapshot ''2026-01-01T00:00:00.000Z'' sample_outcome empty_table = Inr (Some e, tb') \<and>
     (\<exists>p repo m m'. normalizePrOutcomePayload (input_object sample_outcome) = Some p \<and> le_repoFullName e = Some repo \<and>
       readPrOutcomes no_filter empty_table = Inr m \<and> readPrOutcomes no_filter tb' = Inr m' \<and>
       m' = filter (\<lambda>q. fst q \<noteq> (repo, po_prNumber p)) m @ [((repo, po_prNumber p), p)] \<and> distinct (map fst m'))"
proof -
  have "\<exists>e tb'. recordPrOutcomeSnapshot ''2026-01-01T00:00:00.000Z'' sample_outcome empty_table = Inr (Some e, tb')"
    by (simp add: recordPrOutcomeSnapshot_def sample_outcome_def input_object_def normalizePrOutcomePayload_def
        field_def positive_int_def MINER_PR_OUTCOME_DECISIONS_def MINER_PR_OUTCOME_EVENT_def REJECTION_REASONS_def
        outcome_object_def opt_str_def opt_nat_def appendEvent_def normalizeEventType_def serializeEventPayload_def
        Let_def trim_def is_ws_def del: normalizeOptionalRepoFullName.simps(3))
  then obtain e tb' where run:
    "recordPrOutcomeSnapshot ''2026-01-01T00:00:00.000Z'' sample_outcome empty_table = Inr (Some e, tb')" by blast
  show ?thesis using run pr_outcome_read_back[OF rtranclp.rtrancl_refl run] by blast
qed

end
