(* ===== verification/Submission.thy ===== *)
theory Submission
  imports Iterate_Loop Event_Ledger
begin

text \<open>
  What happens after a hand-off: the gated submission decision (\<open>packages/loopover-engine/src/miner/
  submission-gate.ts\<close>), and the session circuit breaker around it (\<open>harness-submission-trigger.ts\<close>, with
  its stateful half \<open>packages/loopover-miner/lib/harness-submission-trigger.ts\<close>).

  The stateful half runs on the event ledger of \<open>Event_Ledger\<close>. \<open>Date.parse\<close> is the parameter
  \<open>parse_date\<close>, the clock stamp of an append an argument. The guards against values outside the declared types are not reachable on typed inputs.
\<close>

section \<open>Definitions: submission gate\<close>

definition SUBMISSION_GATE_PASSING_CONCLUSION :: GateCheckConclusion where
  "SUBMISSION_GATE_PASSING_CONCLUSION = ConclSuccess"

fun SLOP_BAND_SEVERITY :: "SelfReviewSlopBand \<Rightarrow> nat" where
  "SLOP_BAND_SEVERITY Clean = 0"
| "SLOP_BAND_SEVERITY Low = 1"
| "SLOP_BAND_SEVERITY Elevated = 2"
| "SLOP_BAND_SEVERITY High = 3"

definition isSlopBandWithinThreshold :: "SelfReviewSlopBand \<Rightarrow> SelfReviewSlopBand \<Rightarrow> bool" where
  "isSlopBandWithinThreshold band threshold \<longleftrightarrow> SLOP_BAND_SEVERITY band \<le> SLOP_BAND_SEVERITY threshold"

datatype SubmissionGateMode = GateObserve | GateEnforce

record SubmissionGateCandidate =
  sc_killSwitchScope :: MinerKillSwitchScope
  sc_predictedGateVerdict :: "PredictedGateVerdict option"
  sc_slopAssessment :: "SelfReviewSlopAssessment option"
  sc_slopThreshold :: SelfReviewSlopBand
  sc_mode :: SubmissionGateMode

record SubmissionGateDecision =
  sd_allow :: bool
  sd_reasons :: "msg list"

fun conclusion_name :: "GateCheckConclusion \<Rightarrow> string" where
  "conclusion_name ConclSuccess = ''success''"
| "conclusion_name ConclFailure = ''failure''"
| "conclusion_name ConclActionRequired = ''action_required''"
| "conclusion_name ConclNeutral = ''neutral''"
| "conclusion_name ConclSkipped = ''skipped''"

fun band_name :: "SelfReviewSlopBand \<Rightarrow> string" where
  "band_name Clean = ''clean''"
| "band_name Low = ''low''"
| "band_name Elevated = ''elevated''"
| "band_name High = ''high''"

definition gate_reasons :: "PredictedGateVerdict option \<Rightarrow> msg list" where
  "gate_reasons verdict =
     (case verdict of
        None \<Rightarrow> [lit ''predicted_gate_unavailable'']
      | Some v \<Rightarrow>
          if pv_conclusion v \<noteq> SUBMISSION_GATE_PASSING_CONCLUSION then
            (let blockerCodes = str_join '','' (map gf_code (pv_blockers v))
             in [lit (''predicted_gate_not_passing:'' @ conclusion_name (pv_conclusion v) @
                   (if blockerCodes \<noteq> [] then '':'' @ blockerCodes else []))])
          else [])"

definition slop_reasons :: "SelfReviewSlopAssessment option \<Rightarrow> SelfReviewSlopBand \<Rightarrow> msg list" where
  "slop_reasons assessment threshold =
     (case assessment of
        None \<Rightarrow> [lit ''slop_assessment_unavailable'']
      | Some a \<Rightarrow>
          if \<not> isSlopBandWithinThreshold (sa_band a) threshold then
            [lit (''slop_band_exceeds_threshold:'' @ band_name (sa_band a) @ ''>'' @ band_name threshold)]
          else [])"

definition evaluateSubmissionSignals :: "SubmissionGateCandidate \<Rightarrow> msg list" where
  "evaluateSubmissionSignals c =
     gate_reasons (sc_predictedGateVerdict c) @ slop_reasons (sc_slopAssessment c) (sc_slopThreshold c)"

definition shouldSubmit :: "SubmissionGateCandidate \<Rightarrow> SubmissionGateDecision" where
  "shouldSubmit c =
     (if isMinerKillSwitchActive (sc_killSwitchScope c) then
        \<lparr>sd_allow = False, sd_reasons = [lit (scope_name (sc_killSwitchScope c) @ ''_kill_switch_active'')]\<rparr>
      else
        let reasons = evaluateSubmissionSignals c; signalsPass = (length reasons = 0) in
        if sc_mode c = GateObserve then
          \<lparr>sd_allow = False,
           sd_reasons = (if signalsPass then [lit ''observe_mode_active:would_have_allowed'']
             else lit ''observe_mode_active:would_have_blocked'' # reasons)\<rparr>
        else \<lparr>sd_allow = signalsPass, sd_reasons = reasons\<rparr>)"


section \<open>Definitions: harness trigger\<close>

definition DEFAULT_MAX_CONSECUTIVE_GATE_BLOCKS :: jsnum where
  "DEFAULT_MAX_CONSECUTIVE_GATE_BLOCKS = Fin 3"

record HarnessSubmissionTriggerCandidate =
  ht_killSwitchScope :: MinerKillSwitchScope
  ht_handoffPacket :: HandoffPacket
  ht_slopThreshold :: SelfReviewSlopBand
  ht_mode :: SubmissionGateMode
  ht_consecutiveGateBlocks :: jsnum
  ht_maxConsecutiveGateBlocks :: "jsnum option"

record HarnessSubmissionTriggerDecision =
  hd_allow :: bool
  hd_reasons :: "msg list"
  hd_circuitBreakerTripped :: bool

definition evaluateHarnessSubmissionTrigger ::
  "HarnessSubmissionTriggerCandidate \<Rightarrow> HarnessSubmissionTriggerDecision" where
  "evaluateHarnessSubmissionTrigger c =
     (let maxBlocks = or_default (ht_maxConsecutiveGateBlocks c) DEFAULT_MAX_CONSECUTIVE_GATE_BLOCKS in
      if num_ge (ht_consecutiveGateBlocks c) maxBlocks then
        \<lparr>hd_allow = False,
         hd_reasons = [[Lit ''circuit_breaker_tripped_after_consecutive_blocks:'',
           NumV (ht_consecutiveGateBlocks c), Lit ''>='', NumV maxBlocks]],
         hd_circuitBreakerTripped = True\<rparr>
      else
        let verdict = hp_selfReviewVerdict (ht_handoffPacket c);
            gateDecision = shouldSubmit
              \<lparr>sc_killSwitchScope = ht_killSwitchScope c,
               sc_predictedGateVerdict = Some (rv_predictedGateVerdict verdict),
               sc_slopAssessment = Some (rv_slopAssessment verdict),
               sc_slopThreshold = ht_slopThreshold c, sc_mode = ht_mode c\<rparr>
        in \<lparr>hd_allow = sd_allow gateDecision, hd_reasons = sd_reasons gateDecision,
            hd_circuitBreakerTripped = False\<rparr>)"

definition HARNESS_SUBMISSION_TRIGGER_DECISION_EVENT :: string where
  "HARNESS_SUBMISSION_TRIGGER_DECISION_EVENT = ''harness_submission_trigger_decision''"

record HarnessSubmissionCandidateInput =
  hc_killSwitchScope :: MinerKillSwitchScope
  hc_repoFullName :: string
  hc_handoffPacket :: HandoffPacket
  hc_slopThreshold :: SelfReviewSlopBand
  hc_mode :: SubmissionGateMode
  hc_maxConsecutiveGateBlocks :: "jsnum option"

text \<open>\<open>payload?.k === true\<close>.\<close>

definition payload_true :: "string \<Rightarrow> LedgerEntry \<Rightarrow> bool" where
  "payload_true k e = (case le_payload e of JObj fs \<Rightarrow> field fs k = JBool True | _ \<Rightarrow> False)"

definition recorded_since :: "(string \<Rightarrow> jsnum) \<Rightarrow> string \<Rightarrow> jsnum \<Rightarrow> LedgerEntry \<Rightarrow> bool" where
  "recorded_since parse_date ty sinceMs e \<longleftrightarrow> le_type e = ty \<and> num_ge (parse_date (le_createdAt e)) sinceMs"

definition countConsecutiveGateBlocks ::
  "(string \<Rightarrow> jsnum) \<Rightarrow> event_table \<Rightarrow> jsnum \<Rightarrow> string + nat" where
  "countConsecutiveGateBlocks parse_date tb sinceMs =
     and_then (readEvents no_filter tb) (\<lambda>events.
       let decisions = filter (recorded_since parse_date HARNESS_SUBMISSION_TRIGGER_DECISION_EVENT sinceMs) events
       in Inr (length (takeWhile (\<lambda>e. \<not> payload_true ''allow'' e) (rev decisions))))"

definition harness_payload ::
  "HarnessSubmissionCandidateInput \<Rightarrow> HarnessSubmissionTriggerDecision \<Rightarrow> nat \<Rightarrow> jsval" where
  "harness_payload c decision blocks =
     JObj [(''killSwitchScope'', JStr (scope_name (hc_killSwitchScope c))),
           (''allow'', JBool (hd_allow decision)),
           (''reasons'', JArr (map JTxt (hd_reasons decision))),
           (''circuitBreakerTripped'', JBool (hd_circuitBreakerTripped decision)),
           (''consecutiveGateBlocks'', JNum (num_of_nat blocks)),
           (''attemptLogReference'', JStr (hp_attemptLogReference (hc_handoffPacket c)))]"

definition evaluateAndRecordHarnessSubmissionTrigger ::
  "(string \<Rightarrow> jsnum) \<Rightarrow> jsnum option \<Rightarrow> string \<Rightarrow> HarnessSubmissionCandidateInput \<Rightarrow> event_table
     \<Rightarrow> string + (HarnessSubmissionTriggerDecision \<times> LedgerEntry) \<times> event_table" where
  "evaluateAndRecordHarnessSubmissionTrigger parse_date sessionStartMs createdAt c tb =
     (let repoFullName = trim (hc_repoFullName c) in
      if repoFullName = [] then Inl ''invalid_repo_full_name''
      else
        and_then (countConsecutiveGateBlocks parse_date tb (or_default sessionStartMs (Fin 0))) (\<lambda>blocks.
        let decision = evaluateHarnessSubmissionTrigger
              \<lparr>ht_killSwitchScope = hc_killSwitchScope c, ht_handoffPacket = hc_handoffPacket c,
               ht_slopThreshold = hc_slopThreshold c, ht_mode = hc_mode c,
               ht_consecutiveGateBlocks = num_of_nat blocks,
               ht_maxConsecutiveGateBlocks = hc_maxConsecutiveGateBlocks c\<rparr>
        in and_then (appendEvent createdAt
             \<lparr>ai_type = JStr HARNESS_SUBMISSION_TRIGGER_DECISION_EVENT, ai_repoFullName = JStr repoFullName,
              ai_payload = harness_payload c decision blocks\<rparr> tb)
           (\<lambda>(event, tb'). Inr ((decision, event), tb'))))"

record OpenPrInput =
  op_repoFullName :: string
  op_base :: string
  op_head :: string
  op_title :: string
  op_body :: string
  op_draft :: bool

record PrepareOpenPrSubmissionCandidate =
  pc_candidate :: HarnessSubmissionCandidateInput
  pc_base :: string
  pc_title :: string
  pc_body :: "string option"
  pc_draft :: "bool option"

record PrepareOpenPrSubmissionResult =
  pr_decision :: HarnessSubmissionTriggerDecision
  pr_event :: LedgerEntry
  pr_openPrInput :: "OpenPrInput option"

text \<open>The table is returned on every path: an error after the decision was recorded keeps the record.\<close>

definition prepareOpenPrSubmission ::
  "(string \<Rightarrow> jsnum) \<Rightarrow> jsnum option \<Rightarrow> string \<Rightarrow> PrepareOpenPrSubmissionCandidate \<Rightarrow> event_table
     \<Rightarrow> (string + PrepareOpenPrSubmissionResult) \<times> event_table" where
  "prepareOpenPrSubmission parse_date sessionStartMs createdAt pc tb =
     (let base = trim (pc_base pc); title = trim (pc_title pc); c = pc_candidate pc in
      if base = [] then (Inl ''invalid_pr_base'', tb)
      else if title = [] then (Inl ''invalid_pr_title'', tb)
      else case evaluateAndRecordHarnessSubmissionTrigger parse_date sessionStartMs createdAt c tb of
        Inl e \<Rightarrow> (Inl e, tb)
      | Inr ((decision, event), tb') \<Rightarrow>
          if \<not> hd_allow decision then
            (Inr \<lparr>pr_decision = decision, pr_event = event, pr_openPrInput = None\<rparr>, tb')
          else
            let head = (case hp_branchRef (hc_handoffPacket c) of Some b \<Rightarrow> trim b | None \<Rightarrow> []) in
            if head = [] then (Inl ''invalid_pr_head_branch'', tb')
            else
              (Inr \<lparr>pr_decision = decision, pr_event = event,
                 pr_openPrInput = Some
                   \<lparr>op_repoFullName = trim (hc_repoFullName c), op_base = base, op_head = head, op_title = title,
                    op_body = or_default (pc_body pc) [], op_draft = (pc_draft pc = Some True)\<rparr>\<rparr>, tb'))"


section \<open>Lemmas: the gate\<close>

text \<open>The bands in order of severity.\<close>

instantiation SelfReviewSlopBand :: linorder
begin

definition less_eq_SelfReviewSlopBand :: "SelfReviewSlopBand \<Rightarrow> SelfReviewSlopBand \<Rightarrow> bool" where
  "less_eq_SelfReviewSlopBand a b = (SLOP_BAND_SEVERITY a \<le> SLOP_BAND_SEVERITY b)"

definition less_SelfReviewSlopBand :: "SelfReviewSlopBand \<Rightarrow> SelfReviewSlopBand \<Rightarrow> bool" where
  "less_SelfReviewSlopBand a b = (SLOP_BAND_SEVERITY a < SLOP_BAND_SEVERITY b)"

instance
proof
  fix x y :: SelfReviewSlopBand
  show "x \<le> y \<Longrightarrow> y \<le> x \<Longrightarrow> x = y"
    by (cases x; cases y) (simp_all add: less_eq_SelfReviewSlopBand_def)
qed (auto simp: less_eq_SelfReviewSlopBand_def less_SelfReviewSlopBand_def)

end

lemma gate_reasons_Nil: "gate_reasons v = [] \<longleftrightarrow> (\<exists>g. v = Some g \<and> pv_conclusion g = ConclSuccess)"
  by (cases v) (simp_all add: gate_reasons_def SUBMISSION_GATE_PASSING_CONCLUSION_def Let_def)

lemma slop_reasons_Nil: "slop_reasons a t = [] \<longleftrightarrow> (\<exists>s. a = Some s \<and> sa_band s \<le> t)"
  by (cases a) (simp_all add: slop_reasons_def isSlopBandWithinThreshold_def less_eq_SelfReviewSlopBand_def)

lemma shouldSubmit_allow:
  "sd_allow (shouldSubmit c) \<longleftrightarrow>
     sc_killSwitchScope c = KsNone \<and> sc_mode c = GateEnforce \<and>
     (\<exists>g. sc_predictedGateVerdict c = Some g \<and> pv_conclusion g = ConclSuccess) \<and>
     (\<exists>s. sc_slopAssessment c = Some s \<and> sa_band s \<le> sc_slopThreshold c)"
  using SubmissionGateMode.exhaust[of "sc_mode c"]
  by (auto simp: shouldSubmit_def Let_def evaluateSubmissionSignals_def gate_reasons_Nil slop_reasons_Nil
      isMinerKillSwitchActive_def)

text \<open>the submission gate never defaults to allow. It allows iff the kill switch is off, the gate is enforcing, the
  predicted-gate verdict is there and is a success, and the slop assessment is there with a band at most the threshold
  (in the order clean, low, elevated, high); and it reports a reason exactly when it refuses.\<close>

theorem shouldSubmit_iff:
  "(sd_allow (shouldSubmit c) \<longleftrightarrow>
     sc_killSwitchScope c = KsNone \<and> sc_mode c = GateEnforce \<and>
     (\<exists>g. sc_predictedGateVerdict c = Some g \<and> pv_conclusion g = ConclSuccess) \<and>
     (\<exists>s. sc_slopAssessment c = Some s \<and> sa_band s \<le> sc_slopThreshold c))
   \<and> (sd_reasons (shouldSubmit c) \<noteq> [] \<longleftrightarrow> \<not> sd_allow (shouldSubmit c))
   \<and> Clean < Low \<and> Low < Elevated \<and> Elevated < High"
proof (intro conjI)
  show "sd_reasons (shouldSubmit c) \<noteq> [] \<longleftrightarrow> \<not> sd_allow (shouldSubmit c)"
    by (simp add: shouldSubmit_def Let_def)
qed (simp_all add: shouldSubmit_allow less_SelfReviewSlopBand_def)

interpretation sub: kill_gate "\<lambda>c. sd_allow (shouldSubmit c)" sc_killSwitchScope
  by unfold_locales (simp add: shouldSubmit_def)

lemma trigger_allow:
  "hd_allow (evaluateHarnessSubmissionTrigger c) \<longleftrightarrow>
     \<not> num_ge (ht_consecutiveGateBlocks c)
         (or_default (ht_maxConsecutiveGateBlocks c) DEFAULT_MAX_CONSECUTIVE_GATE_BLOCKS) \<and>
     ht_killSwitchScope c = KsNone \<and> ht_mode c = GateEnforce \<and>
     pv_conclusion (rv_predictedGateVerdict (hp_selfReviewVerdict (ht_handoffPacket c))) = ConclSuccess \<and>
     sa_band (rv_slopAssessment (hp_selfReviewVerdict (ht_handoffPacket c))) \<le> ht_slopThreshold c"
  by (simp add: evaluateHarnessSubmissionTrigger_def Let_def shouldSubmit_allow)


section \<open>Lemmas: the session circuit breaker\<close>

definition streak :: "(string \<Rightarrow> jsnum) \<Rightarrow> jsnum \<Rightarrow> LedgerEntry list \<Rightarrow> nat" where
  "streak parse_date since es = length (takeWhile (\<lambda>e. \<not> payload_true ''allow'' e)
     (rev (filter (recorded_since parse_date HARNESS_SUBMISSION_TRIGGER_DECISION_EVENT since) es)))"

lemma countConsecutiveGateBlocks_streak:
  "table_wf tb \<Longrightarrow> countConsecutiveGateBlocks parse_date tb since = Inr (streak parse_date since (et_rows tb))"
  by (simp add: countConsecutiveGateBlocks_def readEvents_rows streak_def Let_def)

lemma streak_snoc:
  "streak parse_date since (es @ [e]) =
     (if recorded_since parse_date HARNESS_SUBMISSION_TRIGGER_DECISION_EVENT since e
      then (if payload_true ''allow'' e then 0 else Suc (streak parse_date since es))
      else streak parse_date since es)"
  by (simp add: streak_def)

text \<open>One call as a step on the ledger, with the ceiling fixed for the session; a call that throws changes nothing and
  grants nothing.\<close>

definition harness_step ::
  "(string \<Rightarrow> jsnum) \<Rightarrow> jsnum option \<Rightarrow> jsnum option \<Rightarrow> event_table \<Rightarrow> HarnessSubmissionCandidateInput \<times> string
     \<Rightarrow> event_table \<times> bool" where
  "harness_step parse_date session maxBlocks tb i =
     (case evaluateAndRecordHarnessSubmissionTrigger parse_date session (snd i)
             (fst i\<lparr>hc_maxConsecutiveGateBlocks := maxBlocks\<rparr>) tb of
        Inl e \<Rightarrow> (tb, False)
      | Inr ((decision, event), tb') \<Rightarrow> (tb', hd_allow decision))"

definition breaker_open :: "(string \<Rightarrow> jsnum) \<Rightarrow> jsnum option \<Rightarrow> jsnum option \<Rightarrow> event_table \<Rightarrow> bool" where
  "breaker_open parse_date session maxBlocks tb \<longleftrightarrow> table_wf tb \<and>
     num_ge (num_of_nat (streak parse_date (or_default session (Fin 0)) (et_rows tb)))
       (or_default maxBlocks DEFAULT_MAX_CONSECUTIVE_GATE_BLOCKS)"

lemma harness_type_trim: "trim HARNESS_SUBMISSION_TRIGGER_DECISION_EVENT = HARNESS_SUBMISSION_TRIGGER_DECISION_EVENT"
  by (simp add: HARNESS_SUBMISSION_TRIGGER_DECISION_EVENT_def trim_def is_ws_def)

lemma evaluateAndRecord_Inr:
  assumes wf: "table_wf tb"
    and run: "evaluateAndRecordHarnessSubmissionTrigger parse_date session createdAt c tb = Inr ((d, e), tb')"
  shows "table_wf tb'" "et_rows tb' = et_rows tb @ [e]" "le_createdAt e = createdAt"
    and "le_type e = HARNESS_SUBMISSION_TRIGGER_DECISION_EVENT" "payload_true ''allow'' e = hd_allow d"
    and "d = evaluateHarnessSubmissionTrigger
      \<lparr>ht_killSwitchScope = hc_killSwitchScope c, ht_handoffPacket = hc_handoffPacket c,
       ht_slopThreshold = hc_slopThreshold c, ht_mode = hc_mode c,
       ht_consecutiveGateBlocks = num_of_nat (streak parse_date (or_default session (Fin 0)) (et_rows tb)),
       ht_maxConsecutiveGateBlocks = hc_maxConsecutiveGateBlocks c\<rparr>"
proof -
  let ?n = "streak parse_date (or_default session (Fin 0)) (et_rows tb)"
  from run wf have ap: "appendEvent createdAt
      \<lparr>ai_type = JStr HARNESS_SUBMISSION_TRIGGER_DECISION_EVENT, ai_repoFullName = JStr (trim (hc_repoFullName c)),
       ai_payload = harness_payload c d ?n\<rparr> tb = Inr (e, tb')"
    and d: "d = evaluateHarnessSubmissionTrigger
      \<lparr>ht_killSwitchScope = hc_killSwitchScope c, ht_handoffPacket = hc_handoffPacket c,
       ht_slopThreshold = hc_slopThreshold c, ht_mode = hc_mode c, ht_consecutiveGateBlocks = num_of_nat ?n,
       ht_maxConsecutiveGateBlocks = hc_maxConsecutiveGateBlocks c\<rparr>"
    by (auto simp: evaluateAndRecordHarnessSubmissionTrigger_def countConsecutiveGateBlocks_streak Let_def
        and_then_Inr split: if_splits)
  note a = appendEvent_Inr[OF ap]
  show "table_wf tb'" using wf ap by (rule appendEvent_wf)
  show "et_rows tb' = et_rows tb @ [e]" "le_createdAt e = createdAt" using a by simp_all
  show "le_type e = HARNESS_SUBMISSION_TRIGGER_DECISION_EVENT"
    using a(6) harness_type_trim by (simp add: Let_def split: if_splits)
  show "payload_true ''allow'' e = hd_allow d"
    using a(5) by (simp add: payload_true_def harness_payload_def field_def)
  show "d = evaluateHarnessSubmissionTrigger
      \<lparr>ht_killSwitchScope = hc_killSwitchScope c, ht_handoffPacket = hc_handoffPacket c,
       ht_slopThreshold = hc_slopThreshold c, ht_mode = hc_mode c, ht_consecutiveGateBlocks = num_of_nat ?n,
       ht_maxConsecutiveGateBlocks = hc_maxConsecutiveGateBlocks c\<rparr>" by (rule d)
qed

lemma num_ge_Suc: "num_ge (num_of_nat n) x \<Longrightarrow> num_ge (num_of_nat (Suc n)) x"
  by (cases x) auto

lemma harness_step_cases:
  assumes "table_wf tb"
  obtains (thrown) "harness_step parse_date session m tb i = (tb, False)"
  | (recorded) d e tb' where "evaluateAndRecordHarnessSubmissionTrigger parse_date session (snd i)
        (fst i\<lparr>hc_maxConsecutiveGateBlocks := m\<rparr>) tb = Inr ((d, e), tb')"
      "harness_step parse_date session m tb i = (tb', hd_allow d)"
  unfolding harness_step_def
  by (cases "evaluateAndRecordHarnessSubmissionTrigger parse_date session (snd i)
        (fst i\<lparr>hc_maxConsecutiveGateBlocks := m\<rparr>) tb") auto

lemma harness_step_wf: "table_wf tb \<Longrightarrow> table_wf (fst (harness_step parse_date session m tb i))"
  by (rule harness_step_cases[of tb parse_date session m i]) (auto dest: evaluateAndRecord_Inr(1))

lemma harness_step_breaker:
  assumes "breaker_open parse_date session m tb"
  shows "breaker_open parse_date session m (fst (harness_step parse_date session m tb i)) \<and>
    \<not> snd (harness_step parse_date session m tb i)"
proof -
  have wf: "table_wf tb" using assms by (simp add: breaker_open_def)
  from wf show ?thesis
  proof (cases rule: harness_step_cases[where parse_date = parse_date and session = session and m = m and i = i])
    case thrown then show ?thesis using assms by simp
  next
    case (recorded d e tb')
    note r = evaluateAndRecord_Inr[OF wf recorded(1)]
    have "\<not> hd_allow d" using assms by (simp add: r(6) trigger_allow breaker_open_def)
    with r(1-5) recorded(2) assms num_ge_Suc show ?thesis
      by (auto simp: breaker_open_def streak_snoc)
  qed
qed

interpretation harness: latch "harness_step parse_date session m" "breaker_open parse_date session m"
  for parse_date session m
  by unfold_locales (use harness_step_breaker in blast)+

text \<open>A call the session can record: a proper repository name, a JSON-safe packet reference, and a stamp not before the
  session start.\<close>

definition recordable :: "(string \<Rightarrow> jsnum) \<Rightarrow> jsnum option \<Rightarrow> HarnessSubmissionCandidateInput \<times> string \<Rightarrow> bool" where
  "recordable parse_date session i \<longleftrightarrow> valid_repo_name (hc_repoFullName (fst i)) \<and>
     num_ge (parse_date (snd i)) (or_default session (Fin 0))"


lemma json_rt_texts [simp]: "json_rt_list (map JTxt ms) = map JTxt ms"
  by (induction ms) (simp_all add: null_for_undef_def)

lemma json_rt_harness: "json_rt (harness_payload c d n) = harness_payload c d n"
  by (simp add: harness_payload_def)

lemma valid_repo_trim: "valid_repo_name r \<Longrightarrow> trim r = r \<and> r \<noteq> []"
proof -
  assume "valid_repo_name r"
  then obtain a b where "r = a @ ''/'' @ b" "isValidRepoSegment a" "isValidRepoSegment b"
    by (auto simp: valid_repo_name_def)
  moreover have "\<not> is_ws (CHR ''/'')" by (simp add: is_ws_def)
  ultimately have "\<forall>c\<in>set r. \<not> is_ws c" "r \<noteq> []" using segment_plain(1) by auto
  then show ?thesis by (simp add: trim_fix)
qed

lemma evaluateAndRecord_recordable:
  assumes "table_wf tb" "valid_repo_name (hc_repoFullName c)"
  shows "\<exists>d e tb'. evaluateAndRecordHarnessSubmissionTrigger parse_date session createdAt c tb = Inr ((d, e), tb')"
  using assms valid_repo_trim[OF assms(2)] normalizeOptionalRepoFullName_fix[OF assms(2)]
  by (simp add: evaluateAndRecordHarnessSubmissionTrigger_def countConsecutiveGateBlocks_streak Let_def
      appendEvent_def normalizeEventType_def serializeEventPayload_def json_rt_harness
      harness_type_trim del: normalizeOptionalRepoFullName.simps(3) split: jsval.split)
    (simp add: harness_payload_def HARNESS_SUBMISSION_TRIGGER_DECISION_EVENT_def)

text \<open>A recordable call moves the streak of blocks: reset by an allow, one longer after a refusal.\<close>

lemma harness_step_streak:
  assumes "table_wf tb" "recordable parse_date session i"
  shows "streak parse_date (or_default session (Fin 0)) (et_rows (fst (harness_step parse_date session m tb i))) =
    (if snd (harness_step parse_date session m tb i) then 0
     else Suc (streak parse_date (or_default session (Fin 0)) (et_rows tb)))"
proof -
  let ?c = "fst i\<lparr>hc_maxConsecutiveGateBlocks := m\<rparr>"
  have "valid_repo_name (hc_repoFullName ?c)" using assms(2) by (simp add: recordable_def)
  then obtain d e tb' where run:
    "evaluateAndRecordHarnessSubmissionTrigger parse_date session (snd i) ?c tb = Inr ((d, e), tb')"
    using evaluateAndRecord_recordable[OF assms(1)] by blast
  note r = evaluateAndRecord_Inr[OF assms(1) run]
  have "recorded_since parse_date HARNESS_SUBMISSION_TRIGGER_DECISION_EVENT (or_default session (Fin 0)) e"
    using r assms(2) by (simp add: recorded_since_def recordable_def)
  then show ?thesis using run r(2,5) by (simp add: harness_step_def streak_snoc)
qed

lemma harness_run_wf: "table_wf tb \<Longrightarrow> table_wf (mealy_state (harness_step parse_date session m) tb is)"
  by (induction "is" arbitrary: tb) (auto simp: harness_step_wf)

lemma harness_refusals_streak:
  assumes "table_wf tb" "list_all (recordable parse_date session) is"
    and "mealy_outputs (harness_step parse_date session m) tb is = replicate (length is) False"
  shows "length is \<le> streak parse_date (or_default session (Fin 0))
    (et_rows (mealy_state (harness_step parse_date session m) tb is))"
proof -
  have "streak parse_date (or_default session (Fin 0)) (et_rows tb) + length is \<le>
      streak parse_date (or_default session (Fin 0)) (et_rows (mealy_state (harness_step parse_date session m) tb is))"
    using assms
  proof (induction "is" arbitrary: tb)
    case (Cons i "is")
    let ?tb = "fst (harness_step parse_date session m tb i)"
    have "streak parse_date (or_default session (Fin 0)) (et_rows ?tb) + length is \<le> streak parse_date
        (or_default session (Fin 0)) (et_rows (mealy_state (harness_step parse_date session m) ?tb is))"
      using Cons.prems by (intro Cons.IH) (simp_all add: harness_step_wf)
    moreover have "streak parse_date (or_default session (Fin 0)) (et_rows ?tb) =
        Suc (streak parse_date (or_default session (Fin 0)) (et_rows tb))"
      using Cons.prems harness_step_streak[of tb parse_date session i m] by simp
    ultimately show ?case by simp
  qed simp
  then show ?thesis by simp
qed

text \<open>C26: the session circuit breaker latches. Take any ledger, any calls that bring it to some state, then calls that the
  session records and that are all refused, at least as many as the configured ceiling (3 unless set): every later call
  of the session is refused, whatever its candidate looks like, so a session never loops until a candidate gets through.\<close>

theorem circuit_breaker_latches:
  assumes "ledger_step\<^sup>*\<^sup>* empty_table tb"
    and "s = mealy_state (harness_step parse_date session m) tb is1"
    and "list_all (recordable parse_date session) is2"
    and "mealy_outputs (harness_step parse_date session m) s is2 = replicate (length is2) False"
    and "num_ge (num_of_nat (length is2)) (or_default m DEFAULT_MAX_CONSECUTIVE_GATE_BLOCKS)"
  shows "mealy_outputs (harness_step parse_date session m)
      (mealy_state (harness_step parse_date session m) s is2) is3 = replicate (length is3) False"
proof (rule harness.halted_grants_nothing)
  let ?t = "mealy_state (harness_step parse_date session m) s is2"
  have wf: "table_wf s" using assms(1,2) ledger_steps_wf empty_table_wf harness_run_wf by blast
  have "length is2 \<le> streak parse_date (or_default session (Fin 0)) (et_rows ?t)"
    using wf assms(3,4) by (rule harness_refusals_streak)
  then have "num_ge (num_of_nat (streak parse_date (or_default session (Fin 0)) (et_rows ?t)))
      (or_default m DEFAULT_MAX_CONSECUTIVE_GATE_BLOCKS)"
    using assms(5) by (cases "or_default m DEFAULT_MAX_CONSECUTIVE_GATE_BLOCKS") auto
  then show "breaker_open parse_date session m ?t" using harness_run_wf[OF wf] by (simp add: breaker_open_def)
qed


definition sample_packet :: HandoffPacket where
  "sample_packet =
     \<lparr>hp_worktreePath = ''/w'', hp_branchRef = Some ''fix'', hp_diffSummary = lit ''done'',
      hp_selfReviewVerdict =
        \<lparr>rv_predictedGateVerdict = sample_verdict ConclSuccess,
         rv_slopAssessment = \<lparr>sa_slopRisk = Fin 0, sa_band = Low, sa_findings = []\<rparr>,
         rv_changedPaths = [''a.ts''], rv_passesPredictedGate = True\<rparr>,
      hp_attemptLogReference = ''log'', hp_changedFiles = None\<rparr>"

definition sample_candidate :: "MinerKillSwitchScope \<Rightarrow> HarnessSubmissionCandidateInput" where
  "sample_candidate scope =
     \<lparr>hc_killSwitchScope = scope, hc_repoFullName = ''o/r'', hc_handoffPacket = sample_packet,
      hc_slopThreshold = Low, hc_mode = GateEnforce, hc_maxConsecutiveGateBlocks = None\<rparr>"

lemma valid_or: "valid_repo_name ''o/r''"
  using normalizeOptionalRepoFullName_valid[OF repo_or] .

theorem circuit_breaker_latches_witness:
  "mealy_outputs (harness_step (\<lambda>_. Fin 5) None (Some (Fin 1)))
     (mealy_state (harness_step (\<lambda>_. Fin 5) None (Some (Fin 1))) empty_table [(sample_candidate KsGlobal, ''t'')])
     [(sample_candidate KsNone, ''t''), (sample_candidate KsNone, ''u'')] = [False, False]"
proof -
  let ?step = "harness_step (\<lambda>_. Fin 5) None (Some (Fin 1))" and ?i = "(sample_candidate KsGlobal, ''t'')"
  have "recordable (\<lambda>_. Fin 5) None ?i" by (simp add: recordable_def sample_candidate_def valid_or)
  moreover have "\<not> snd (?step empty_table ?i)"
    by (rule harness_step_cases[OF empty_table_wf, of "\<lambda>_. Fin 5" None "Some (Fin 1)" ?i])
      (auto dest!: evaluateAndRecord_Inr(6)[OF empty_table_wf] simp: trigger_allow sample_candidate_def)
  ultimately show ?thesis
    using circuit_breaker_latches[where tb = empty_table and ?is1.0 = "[]" and ?is2.0 = "[?i]" and s = empty_table
        and parse_date = "\<lambda>_. Fin 5" and session = None and m = "Some (Fin 1)"
        and ?is3.0 = "[(sample_candidate KsNone, ''t''), (sample_candidate KsNone, ''u'')]"]
    by simp
qed


section \<open>Lemmas: the payload of a pull request\<close>

text \<open>What the packet and the session say about a candidate that may be submitted.\<close>

definition submittable :: "(string \<Rightarrow> jsnum) \<Rightarrow> jsnum option \<Rightarrow> event_table \<Rightarrow> HarnessSubmissionCandidateInput \<Rightarrow> bool" where
  "submittable parse_date session tb c \<longleftrightarrow> hc_killSwitchScope c = KsNone \<and> hc_mode c = GateEnforce \<and>
     pv_conclusion (rv_predictedGateVerdict (hp_selfReviewVerdict (hc_handoffPacket c))) = ConclSuccess \<and>
     sa_band (rv_slopAssessment (hp_selfReviewVerdict (hc_handoffPacket c))) \<le> hc_slopThreshold c \<and>
     \<not> breaker_open parse_date session (hc_maxConsecutiveGateBlocks c) tb"

lemma evaluateAndRecord_submittable:
  assumes "table_wf tb"
    and "evaluateAndRecordHarnessSubmissionTrigger parse_date session createdAt c tb = Inr ((d, e), tb')"
  shows "hd_allow d = submittable parse_date session tb c"
  using assms(1) unfolding evaluateAndRecord_Inr(6)[OF assms] submittable_def breaker_open_def
  by (auto simp: trigger_allow)

lemma prepareOpenPr_outcome:
  assumes "ledger_step\<^sup>*\<^sup>* empty_table tb"
  shows "case prepareOpenPrSubmission parse_date session createdAt pc tb of
      (Inl err, tb') \<Rightarrow> tb' = tb \<or>
        (err = ''invalid_pr_head_branch'' \<and> submittable parse_date session tb (pc_candidate pc) \<and>
         (\<exists>e. et_rows tb' = et_rows tb @ [e] \<and> payload_true ''allow'' e))
    | (Inr res, tb') \<Rightarrow>
        et_rows tb' = et_rows tb @ [pr_event res] \<and>
        le_type (pr_event res) = HARNESS_SUBMISSION_TRIGGER_DECISION_EVENT \<and>
        payload_true ''allow'' (pr_event res) = hd_allow (pr_decision res) \<and>
        hd_allow (pr_decision res) = submittable parse_date session tb (pc_candidate pc) \<and>
        (pr_openPrInput res \<noteq> None \<longleftrightarrow> submittable parse_date session tb (pc_candidate pc)) \<and>
        (\<forall>p. pr_openPrInput res = Some p \<longrightarrow>
           op_repoFullName p = trim (hc_repoFullName (pc_candidate pc)) \<and> op_base p = trim (pc_base pc) \<and>
           op_title p = trim (pc_title pc) \<and> hp_branchRef (hc_handoffPacket (pc_candidate pc)) \<noteq> None \<and>
           op_head p = trim (the (hp_branchRef (hc_handoffPacket (pc_candidate pc)))) \<and>
           [] \<notin> {op_repoFullName p, op_base p, op_title p, op_head p})"
proof -
  have wf: "table_wf tb" using assms empty_table_wf by (rule ledger_steps_wf)
  let ?c = "pc_candidate pc"
  show ?thesis
  proof (cases "evaluateAndRecordHarnessSubmissionTrigger parse_date session createdAt ?c tb")
    case (Inl err)
    then show ?thesis by (simp add: prepareOpenPrSubmission_def Let_def)
  next
    case (Inr res)
    obtain d e tb' where run: "evaluateAndRecordHarnessSubmissionTrigger parse_date session createdAt ?c tb =
        Inr ((d, e), tb')" using Inr by (cases res) auto
    note r = evaluateAndRecord_Inr[OF wf run] and sub = evaluateAndRecord_submittable[OF wf run]
    have repo: "trim (hc_repoFullName ?c) \<noteq> []"
      using run by (auto simp: evaluateAndRecordHarnessSubmissionTrigger_def Let_def)
    show ?thesis
    proof (cases "trim (pc_base pc) = [] \<or> trim (pc_title pc) = []")
      case True
      then show ?thesis by (auto simp: prepareOpenPrSubmission_def Let_def)
    next
      case False
      then show ?thesis
        using run r(2,4,5) sub repo
        by (cases "hp_branchRef (hc_handoffPacket ?c)")
          (auto simp: prepareOpenPrSubmission_def Let_def)
    qed
  qed
qed

text \<open>a pull-request payload is prepared only for a candidate that may be submitted, and never unrecorded. A call that
  returns has appended exactly one event carrying its decision; it holds a payload iff the candidate is submittable, and
  then the payload's names are the trimmed inputs, none of them blank. A call that throws has appended nothing, except
  when a submittable candidate has no branch: that leaves its allowing event behind.\<close>

theorem prepared_only_when_submittable:
  assumes "ledger_step\<^sup>*\<^sup>* empty_table tb"
  shows "case prepareOpenPrSubmission parse_date session createdAt pc tb of
      (Inl err, tb') \<Rightarrow> tb' = tb \<or>
        (err = ''invalid_pr_head_branch'' \<and> submittable parse_date session tb (pc_candidate pc) \<and>
         (\<exists>e. et_rows tb' = et_rows tb @ [e] \<and> payload_true ''allow'' e))
    | (Inr res, tb') \<Rightarrow>
        et_rows tb' = et_rows tb @ [pr_event res] \<and>
        le_type (pr_event res) = HARNESS_SUBMISSION_TRIGGER_DECISION_EVENT \<and>
        payload_true ''allow'' (pr_event res) = hd_allow (pr_decision res) \<and>
        hd_allow (pr_decision res) = submittable parse_date session tb (pc_candidate pc) \<and>
        (pr_openPrInput res \<noteq> None \<longleftrightarrow> submittable parse_date session tb (pc_candidate pc)) \<and>
        (\<forall>p. pr_openPrInput res = Some p \<longrightarrow>
           op_repoFullName p = trim (hc_repoFullName (pc_candidate pc)) \<and> op_base p = trim (pc_base pc) \<and>
           op_title p = trim (pc_title pc) \<and> hp_branchRef (hc_handoffPacket (pc_candidate pc)) \<noteq> None \<and>
           op_head p = trim (the (hp_branchRef (hc_handoffPacket (pc_candidate pc)))) \<and>
           [] \<notin> {op_repoFullName p, op_base p, op_title p, op_head p})"
  using assms by (rule prepareOpenPr_outcome)

lemma sample_prepared:
  "\<exists>res tb' p. prepareOpenPrSubmission (\<lambda>_. Fin 5) None ''t''
     \<lparr>pc_candidate = sample_candidate KsNone, pc_base = ''main'', pc_title = ''Fix'', pc_body = None, pc_draft = None\<rparr>
     empty_table = (Inr res, tb') \<and> pr_openPrInput res = Some p"
proof -
  have sub: "submittable (\<lambda>_. Fin 5) None empty_table (sample_candidate KsNone)"
    by (simp add: submittable_def sample_candidate_def sample_packet_def sample_verdict_def breaker_open_def
        empty_table_def streak_def DEFAULT_MAX_CONSECUTIVE_GATE_BLOCKS_def)
  have tr: "trim ''main'' = ''main''" "trim ''Fix'' = ''Fix''" "trim ''fix'' = ''fix''"
    by (simp_all add: trim_fix is_ws_def)
  obtain d e tb' where run: "evaluateAndRecordHarnessSubmissionTrigger (\<lambda>_. Fin 5) None ''t'' (sample_candidate KsNone)
      empty_table = Inr ((d, e), tb')"
  proof -
    have "valid_repo_name (hc_repoFullName (sample_candidate KsNone))" by (simp add: sample_candidate_def valid_or)
    from evaluateAndRecord_recordable[OF empty_table_wf this, of "\<lambda>_. Fin 5" None "''t''"] that show thesis by blast
  qed
  have "hd_allow d" using evaluateAndRecord_submittable[OF empty_table_wf run] sub by simp
  then have "\<exists>res p. prepareOpenPrSubmission (\<lambda>_. Fin 5) None ''t'' \<lparr>pc_candidate = sample_candidate KsNone, pc_base = ''main'', pc_title = ''Fix'', pc_body = None, pc_draft = None\<rparr> empty_table = (Inr res, tb') \<and>
      pr_openPrInput res = Some p"
    using run tr by (simp add: prepareOpenPrSubmission_def Let_def sample_candidate_def sample_packet_def)
  then show ?thesis by blast
qed

theorem prepared_only_when_submittable_witness:
  "\<exists>res tb' p. prepareOpenPrSubmission (\<lambda>_. Fin 5) None ''t''
     \<lparr>pc_candidate = sample_candidate KsNone, pc_base = ''main'', pc_title = ''Fix'', pc_body = None, pc_draft = None\<rparr>
     empty_table = (Inr res, tb') \<and> pr_openPrInput res = Some p \<and> op_head p = ''fix'' \<and>
     et_rows tb' = [pr_event res]"
proof -
  let ?pc = "\<lparr>pc_candidate = sample_candidate KsNone, pc_base = ''main'', pc_title = ''Fix'', pc_body = None,
    pc_draft = None\<rparr>"
  have "trim ''fix'' = ''fix''" by (simp add: trim_fix is_ws_def)
  then show ?thesis
    using prepared_only_when_submittable[where tb = empty_table and parse_date = "\<lambda>_. Fin 5" and session = None
        and createdAt = "''t''" and pc = ?pc] sample_prepared
    by (auto simp: empty_table_def sample_candidate_def sample_packet_def)
qed

end
