(* ===== verification/Loop_Reentry.thy ===== *)
theory Loop_Reentry
  imports Submission
begin

text \<open>
  Closed-loop re-entry after a resolved pull request: the pure policy (\<open>packages/loopover-engine/src/miner/
  loop-reentry-policy.ts\<close>) and the orchestrator that counts from the event ledger, dequeues the next candidate and
  records its decision (\<open>packages/loopover-miner/lib/loop-reentry.ts\<close>).

  The portfolio queue's \<open>dequeueNext\<close> is a parameter on its own state, \<open>Date.parse\<close> is \<open>parse_date\<close>, and the
  clock stamp of the appended event is an argument. The lemmas bound how often the loop re-enters, in any hour and in a
  session, and say when a call leaves its one audit event.
\<close>

section \<open>Definitions: re-entry\<close>

datatype LoopReentryOutcome = ReMerged | ReDisengaged | ReOther

fun reentry_outcome_name :: "LoopReentryOutcome \<Rightarrow> string" where
  "reentry_outcome_name ReMerged = ''merged''"
| "reentry_outcome_name ReDisengaged = ''disengaged''"
| "reentry_outcome_name ReOther = ''other''"

definition DEFAULT_MAX_CONSECUTIVE_DISENGAGEMENTS :: jsnum where
  "DEFAULT_MAX_CONSECUTIVE_DISENGAGEMENTS = Fin 3"

definition DEFAULT_MAX_REENTRIES_PER_HOUR :: jsnum where
  "DEFAULT_MAX_REENTRIES_PER_HOUR = Fin 4"

definition DEFAULT_MAX_REENTRIES_PER_SESSION :: jsnum where
  "DEFAULT_MAX_REENTRIES_PER_SESSION = Fin 20"

record LoopReentryCandidate =
  lc_killSwitchScope :: MinerKillSwitchScope
  lc_repoFullName :: string
  lc_outcome :: LoopReentryOutcome
  lc_consecutiveDisengagements :: jsnum
  lc_maxConsecutiveDisengagements :: "jsnum option"
  lc_reentriesThisHour :: jsnum
  lc_maxReentriesPerHour :: "jsnum option"
  lc_reentriesThisSession :: jsnum
  lc_maxReentriesPerSession :: "jsnum option"

record LoopReentryDecision =
  rd_reenter :: bool
  rd_reasons :: "msg list"

text \<open>One ceiling: its reason when the counter has reached it.\<close>

definition ceiling_reason :: "bool \<Rightarrow> string \<Rightarrow> jsnum \<Rightarrow> jsnum \<Rightarrow> msg list" where
  "ceiling_reason applies name count limit =
     (if applies \<and> num_ge count limit then [[Lit (name @ '':''), NumV count, Lit ''>='', NumV limit]] else [])"

definition shouldReenter :: "LoopReentryCandidate \<Rightarrow> LoopReentryDecision" where
  "shouldReenter c =
     (if isMinerKillSwitchActive (lc_killSwitchScope c) then
        \<lparr>rd_reenter = False, rd_reasons = [lit (scope_name (lc_killSwitchScope c) @ ''_kill_switch_active'')]\<rparr>
      else
        let reasons =
          ceiling_reason (lc_outcome c = ReDisengaged) ''repo_paused_after_consecutive_disengagements''
            (lc_consecutiveDisengagements c)
            (or_default (lc_maxConsecutiveDisengagements c) DEFAULT_MAX_CONSECUTIVE_DISENGAGEMENTS) @
          ceiling_reason True ''hourly_reentry_cap_reached'' (lc_reentriesThisHour c)
            (or_default (lc_maxReentriesPerHour c) DEFAULT_MAX_REENTRIES_PER_HOUR) @
          ceiling_reason True ''session_reentry_cap_reached'' (lc_reentriesThisSession c)
            (or_default (lc_maxReentriesPerSession c) DEFAULT_MAX_REENTRIES_PER_SESSION)
        in \<lparr>rd_reenter = (length reasons = 0), rd_reasons = reasons\<rparr>)"

definition LOOP_REENTRY_DECISION_EVENT :: string where
  "LOOP_REENTRY_DECISION_EVENT = ''loop_reentry_decision''"

definition HOUR_MS :: jsnum where
  "HOUR_MS = Fin 3600000"

record LoopReentryCandidateInput =
  ri_killSwitchScope :: MinerKillSwitchScope
  ri_repoFullName :: string
  ri_outcome :: LoopReentryOutcome
  ri_maxConsecutiveDisengagements :: "jsnum option"
  ri_maxReentriesPerHour :: "jsnum option"
  ri_maxReentriesPerSession :: "jsnum option"

record dequeued_item =
  dq_repoFullName :: string
  dq_identifier :: string
  dq_priority :: jsnum
  dq_status :: string
  dq_enqueuedAt :: string

record 'q reentry_world =
  rw_ledger :: event_table
  rw_queue :: 'q
  rw_runStates :: "(string \<times> string) list"

record LoopReentryResult =
  rr_decision :: LoopReentryDecision
  rr_dequeued :: "dequeued_item option"
  rr_event :: LedgerEntry

definition isDisengagedOutcome :: "NormalizedPrOutcomePayload \<Rightarrow> bool" where
  "isDisengagedOutcome outcome \<longleftrightarrow> po_decision outcome = PrClosed"

definition countConsecutiveDisengagements :: "event_table \<Rightarrow> string \<Rightarrow> string + nat" where
  "countConsecutiveDisengagements tb repoFullName =
     and_then (readPrOutcomes \<lparr>rf_repoFullName = JStr repoFullName, rf_since = JUndef\<rparr> tb) (\<lambda>m.
       Inr (length (takeWhile isDisengagedOutcome (rev (map snd m)))))"

definition countReentriesSince :: "(string \<Rightarrow> jsnum) \<Rightarrow> event_table \<Rightarrow> jsnum \<Rightarrow> string + nat" where
  "countReentriesSince parse_date tb sinceMs =
     and_then (readEvents no_filter tb) (\<lambda>events.
       Inr (length (filter (\<lambda>e. recorded_since parse_date LOOP_REENTRY_DECISION_EVENT sinceMs e \<and>
         payload_true ''reentered'' e) events)))"

definition reentry_payload ::
  "LoopReentryCandidateInput \<Rightarrow> LoopReentryDecision \<Rightarrow> nat \<Rightarrow> nat \<Rightarrow> nat \<Rightarrow> dequeued_item option \<Rightarrow> jsval
     \<Rightarrow> jsval" where
  "reentry_payload c decision dis hour session dequeued loopSummary =
     JObj [(''killSwitchScope'', JStr (scope_name (ri_killSwitchScope c))),
           (''outcome'', JStr (reentry_outcome_name (ri_outcome c))),
           (''reentered'', JBool (rd_reenter decision)),
           (''reasons'', JArr (map JTxt (rd_reasons decision))),
           (''consecutiveDisengagements'', JNum (num_of_nat dis)),
           (''reentriesThisHour'', JNum (num_of_nat hour)),
           (''reentriesThisSession'', JNum (num_of_nat session)),
           (''dequeuedIdentifier'', (case dequeued of None \<Rightarrow> JNull | Some d \<Rightarrow> JStr (dq_identifier d))),
           (''loopSummary'', null_for_undef loopSummary)]"

definition reentry_decision ::
  "LoopReentryCandidateInput \<Rightarrow> string \<Rightarrow> nat \<Rightarrow> nat \<Rightarrow> nat \<Rightarrow> LoopReentryDecision" where
  "reentry_decision c repoFullName dis hour session =
     shouldReenter
       \<lparr>lc_killSwitchScope = ri_killSwitchScope c, lc_repoFullName = repoFullName, lc_outcome = ri_outcome c,
        lc_consecutiveDisengagements = num_of_nat dis,
        lc_maxConsecutiveDisengagements = ri_maxConsecutiveDisengagements c,
        lc_reentriesThisHour = num_of_nat hour, lc_maxReentriesPerHour = ri_maxReentriesPerHour c,
        lc_reentriesThisSession = num_of_nat session,
        lc_maxReentriesPerSession = ri_maxReentriesPerSession c\<rparr>"

text \<open>Dequeue the next candidate and move its repository to \<open>discovering\<close>, only when the decision allows.\<close>

definition enter_next ::
  "('q \<Rightarrow> dequeued_item option \<times> 'q) \<Rightarrow> bool \<Rightarrow> bool \<Rightarrow> 'q reentry_world
     \<Rightarrow> dequeued_item option \<times> 'q reentry_world" where
  "enter_next dequeueNext hasRunState reenter w =
     (if reenter then
        (case dequeueNext (rw_queue w) of
           (None, q) \<Rightarrow> (None, w\<lparr>rw_queue := q\<rparr>)
         | (Some d, q) \<Rightarrow>
             (Some d, w\<lparr>rw_queue := q,
                rw_runStates := (if hasRunState then rw_runStates w @ [(dq_repoFullName d, ''discovering'')]
                                 else rw_runStates w)\<rparr>))
      else (None, w))"

definition attemptLoopReentry ::
  "(string \<Rightarrow> jsnum) \<Rightarrow> ('q \<Rightarrow> dequeued_item option \<times> 'q) \<Rightarrow> bool \<Rightarrow> jsnum \<Rightarrow> jsnum option \<Rightarrow> jsval \<Rightarrow> string
     \<Rightarrow> LoopReentryCandidateInput \<Rightarrow> 'q reentry_world \<Rightarrow> (string + LoopReentryResult) \<times> 'q reentry_world" where
  "attemptLoopReentry parse_date dequeueNext hasRunState nowMs sessionStartMs loopSummary createdAt c w =
     (let repoFullName = trim (ri_repoFullName c); tb = rw_ledger w in
      if repoFullName = [] then (Inl ''invalid_repo_full_name'', w)
      else
        case and_then (countConsecutiveDisengagements tb repoFullName) (\<lambda>dis.
             and_then (countReentriesSince parse_date tb (num_sub nowMs HOUR_MS)) (\<lambda>hour.
             and_then (countReentriesSince parse_date tb (or_default sessionStartMs (Fin 0))) (\<lambda>session.
             Inr (dis, hour, session)))) of
          Inl e \<Rightarrow> (Inl e, w)
        | Inr (dis, hour, session) \<Rightarrow>
            let decision = reentry_decision c repoFullName dis hour session in
            case enter_next dequeueNext hasRunState (rd_reenter decision) w of (dequeued, w1) \<Rightarrow>
            case appendEvent createdAt
                \<lparr>ai_type = JStr LOOP_REENTRY_DECISION_EVENT, ai_repoFullName = JStr repoFullName,
                 ai_payload = reentry_payload c decision dis hour session dequeued loopSummary\<rparr> (rw_ledger w1) of
              Inl e \<Rightarrow> (Inl e, w1)
            | Inr (event, tb') \<Rightarrow>
                (Inr \<lparr>rr_decision = decision, rr_dequeued = dequeued, rr_event = event\<rparr>,
                 w1\<lparr>rw_ledger := tb'\<rparr>))"


section \<open>Lemmas: the re-entry decision\<close>

interpretation ree: kill_gate "\<lambda>c. rd_reenter (shouldReenter c)" lc_killSwitchScope
  by unfold_locales (simp add: shouldReenter_def)


definition reentry_event :: "LedgerEntry \<Rightarrow> bool" where
  "reentry_event e \<longleftrightarrow> le_type e = LOOP_REENTRY_DECISION_EVENT \<and> payload_true ''reentered'' e"

definition reentries_since :: "(string \<Rightarrow> jsnum) \<Rightarrow> jsnum \<Rightarrow> LedgerEntry list \<Rightarrow> nat" where
  "reentries_since parse_date since es =
     length (filter (\<lambda>e. reentry_event e \<and> num_ge (parse_date (le_createdAt e)) since) es)"

lemma countReentriesSince_rows:
  "table_wf tb \<Longrightarrow> countReentriesSince parse_date tb since = Inr (reentries_since parse_date since (et_rows tb))"
  by (simp add: countReentriesSince_def readEvents_rows reentries_since_def reentry_event_def recorded_since_def
      conj_ac cong: conj_cong)

lemma shouldReenter_allow:
  "rd_reenter (shouldReenter c) \<longleftrightarrow>
     lc_killSwitchScope c = KsNone \<and>
     \<not> (lc_outcome c = ReDisengaged \<and> num_ge (lc_consecutiveDisengagements c)
         (or_default (lc_maxConsecutiveDisengagements c) DEFAULT_MAX_CONSECUTIVE_DISENGAGEMENTS)) \<and>
     \<not> num_ge (lc_reentriesThisHour c) (or_default (lc_maxReentriesPerHour c) DEFAULT_MAX_REENTRIES_PER_HOUR) \<and>
     \<not> num_ge (lc_reentriesThisSession c)
         (or_default (lc_maxReentriesPerSession c) DEFAULT_MAX_REENTRIES_PER_SESSION)"
  by (auto simp: shouldReenter_def Let_def ceiling_reason_def isMinerKillSwitchActive_def)

lemma reentry_type_trim: "trim LOOP_REENTRY_DECISION_EVENT = LOOP_REENTRY_DECISION_EVENT"
  by (simp add: LOOP_REENTRY_DECISION_EVENT_def trim_def is_ws_def)

lemma enter_next_ledger: "enter_next dq rs b w = (d, w1) \<Longrightarrow> rw_ledger w1 = rw_ledger w"
  by (auto simp: enter_next_def split: if_splits prod.splits option.splits)

lemma enter_next_False [simp]: "enter_next dq rs False w = (None, w)"
  by (simp add: enter_next_def)

lemma enter_next_True:
  "enter_next dq True True w = (q, w1) \<Longrightarrow> dq (rw_queue w) = (q, rw_queue w1) \<and>
     rw_runStates w1 = rw_runStates w @ (case q of None \<Rightarrow> [] | Some d \<Rightarrow> [(dq_repoFullName d, ''discovering'')])"
  by (cases "dq (rw_queue w)") (auto simp: enter_next_def split: option.splits)

text \<open>What a completed call has done.\<close>

lemma attemptLoopReentry_Inr:
  assumes wf: "table_wf (rw_ledger w)"
    and run: "attemptLoopReentry parse_date dq rs nowMs session ls createdAt c w = (Inr r, w')"
  shows "table_wf (rw_ledger w')" "et_rows (rw_ledger w') = et_rows (rw_ledger w) @ [rr_event r]"
    and "le_createdAt (rr_event r) = createdAt" "reentry_event (rr_event r) = rd_reenter (rr_decision r)"
    and "le_type (rr_event r) = LOOP_REENTRY_DECISION_EVENT"
    and "\<exists>dis. rr_decision r = reentry_decision c (trim (ri_repoFullName c)) dis
      (reentries_since parse_date (num_sub nowMs HOUR_MS) (et_rows (rw_ledger w)))
      (reentries_since parse_date (or_default session (Fin 0)) (et_rows (rw_ledger w)))"
    and "\<exists>w1. enter_next dq rs (rd_reenter (rr_decision r)) w = (rr_dequeued r, w1) \<and>
      rw_queue w' = rw_queue w1 \<and> rw_runStates w' = rw_runStates w1"
proof -
  let ?h = "reentries_since parse_date (num_sub nowMs HOUR_MS) (et_rows (rw_ledger w))"
  let ?s = "reentries_since parse_date (or_default session (Fin 0)) (et_rows (rw_ledger w))"
  from run wf obtain dis w1 where
    dec: "rr_decision r = reentry_decision c (trim (ri_repoFullName c)) dis ?h ?s"
    and en: "enter_next dq rs (rd_reenter (rr_decision r)) w = (rr_dequeued r, w1)"
    and ap: "appendEvent createdAt \<lparr>ai_type = JStr LOOP_REENTRY_DECISION_EVENT,
        ai_repoFullName = JStr (trim (ri_repoFullName c)),
        ai_payload = reentry_payload c (rr_decision r) dis ?h ?s (rr_dequeued r) ls\<rparr> (rw_ledger w1) =
        Inr (rr_event r, rw_ledger w')"
    and w': "w' = w1\<lparr>rw_ledger := rw_ledger w'\<rparr>"
    by (auto simp: attemptLoopReentry_def Let_def countReentriesSince_rows and_then_Inr
        split: if_splits sum.splits prod.splits)
  note l = enter_next_ledger[OF en] and a = appendEvent_Inr[OF ap]
  show "table_wf (rw_ledger w')" using wf appendEvent_wf[OF _ ap] l by simp
  show "et_rows (rw_ledger w') = et_rows (rw_ledger w) @ [rr_event r]" "le_createdAt (rr_event r) = createdAt"
    using a l by simp_all
  show ty: "le_type (rr_event r) = LOOP_REENTRY_DECISION_EVENT"
    using a(6) reentry_type_trim by (simp add: Let_def split: if_splits)
  show "reentry_event (rr_event r) = rd_reenter (rr_decision r)"
    using a(5) ty by (simp add: reentry_event_def payload_true_def reentry_payload_def field_def)
  show "\<exists>dis. rr_decision r = reentry_decision c (trim (ri_repoFullName c)) dis ?h ?s" using dec by blast
  show "\<exists>w1. enter_next dq rs (rd_reenter (rr_decision r)) w = (rr_dequeued r, w1) \<and>
      rw_queue w' = rw_queue w1 \<and> rw_runStates w' = rw_runStates w1"
    using en by (subst w', subst w') auto
qed

text \<open>The payload round-trips unless the caller's summary does not.\<close>

lemma json_rt_reentry:
  "json_rt (reentry_payload c d dis h s q ls) = reentry_payload c d dis h s q ls \<longleftrightarrow>
     json_rt (null_for_undef ls) = null_for_undef ls"
  by (auto simp: reentry_payload_def null_for_undef_def split: option.split)

lemma reentry_payload_JObj: "\<exists>fs. reentry_payload c d dis h s q ls = JObj fs"
  by (simp add: reentry_payload_def)

lemma append_reentry:
  assumes "normalizeOptionalRepoFullName (JStr r) = Inr x"
  obtains (stored) e tb' where "json_rt (null_for_undef ls) = null_for_undef ls"
      "appendEvent createdAt \<lparr>ai_type = JStr LOOP_REENTRY_DECISION_EVENT, ai_repoFullName = JStr r,
        ai_payload = reentry_payload c d dis h s q ls\<rparr> tb = Inr (e, tb')"
  | (refused) "json_rt (null_for_undef ls) \<noteq> null_for_undef ls"
      "appendEvent createdAt \<lparr>ai_type = JStr LOOP_REENTRY_DECISION_EVENT, ai_repoFullName = JStr r,
        ai_payload = reentry_payload c d dis h s q ls\<rparr> tb = Inl ''invalid_payload''"
  using assms reentry_payload_JObj[of c d dis h s q ls] json_rt_reentry[of c d dis h s q ls] reentry_type_trim
  by (auto simp: appendEvent_def normalizeEventType_def serializeEventPayload_def Let_def
      LOOP_REENTRY_DECISION_EVENT_def simp del: normalizeOptionalRepoFullName.simps(3) split: if_splits)

lemma disengagements_repo:
  "countConsecutiveDisengagements tb r = Inr n \<Longrightarrow> \<exists>x. normalizeOptionalRepoFullName (JStr r) = Inr x"
  by (auto simp: countConsecutiveDisengagements_def readPrOutcomes_def readEvents_def and_then_Inr
      simp del: normalizeOptionalRepoFullName.simps(3))

text \<open>The three ways a call ends: rejected before anything happened, thrown out at the append because of the summary, or
  completed.\<close>

lemma attemptLoopReentry_cases:
  assumes "table_wf (rw_ledger w)"
  obtains (rejected) e where "attemptLoopReentry parse_date dq rs nowMs session ls createdAt c w = (Inl e, w)"
      "countConsecutiveDisengagements (rw_ledger w) (trim (ri_repoFullName c)) = Inl e \<or> trim (ri_repoFullName c) = []"
  | (unaudited) dis d w' where "json_rt (null_for_undef ls) \<noteq> null_for_undef ls"
      "countConsecutiveDisengagements (rw_ledger w) (trim (ri_repoFullName c)) = Inr dis"
      "enter_next dq rs (rd_reenter (reentry_decision c (trim (ri_repoFullName c)) dis
        (reentries_since parse_date (num_sub nowMs HOUR_MS) (et_rows (rw_ledger w)))
        (reentries_since parse_date (or_default session (Fin 0)) (et_rows (rw_ledger w))))) w = (d, w')"
      "attemptLoopReentry parse_date dq rs nowMs session ls createdAt c w = (Inl ''invalid_payload'', w')"
  | (audited) r w' where "json_rt (null_for_undef ls) = null_for_undef ls"
      "attemptLoopReentry parse_date dq rs nowMs session ls createdAt c w = (Inr r, w')"
proof (cases "trim (ri_repoFullName c) = []")
  case True
  then show thesis using rejected by (simp add: attemptLoopReentry_def)
next
  case False
  let ?r = "trim (ri_repoFullName c)"
  show thesis
  proof (cases "countConsecutiveDisengagements (rw_ledger w) ?r")
    case (Inl e)
    then show thesis using rejected False by (simp add: attemptLoopReentry_def)
  next
    case (Inr dis)
    let ?h = "reentries_since parse_date (num_sub nowMs HOUR_MS) (et_rows (rw_ledger w))"
    let ?s = "reentries_since parse_date (or_default session (Fin 0)) (et_rows (rw_ledger w))"
    let ?d = "reentry_decision c ?r dis ?h ?s"
    obtain q w1 where en: "enter_next dq rs (rd_reenter ?d) w = (q, w1)" by fastforce
    have run: "attemptLoopReentry parse_date dq rs nowMs session ls createdAt c w =
        (case appendEvent createdAt \<lparr>ai_type = JStr LOOP_REENTRY_DECISION_EVENT, ai_repoFullName = JStr ?r,
                 ai_payload = reentry_payload c ?d dis ?h ?s q ls\<rparr> (rw_ledger w1) of
              Inl e \<Rightarrow> (Inl e, w1)
            | Inr (event, tb') \<Rightarrow>
                (Inr \<lparr>rr_decision = ?d, rr_dequeued = q, rr_event = event\<rparr>, w1\<lparr>rw_ledger := tb'\<rparr>))"
      using False Inr en assms by (simp add: attemptLoopReentry_def Let_def countReentriesSince_rows)
    from disengagements_repo[OF Inr] obtain x where x: "normalizeOptionalRepoFullName (JStr ?r) = Inr x" by blast
    show thesis
      by (rule append_reentry[OF x, of ls createdAt c ?d dis ?h ?s q "rw_ledger w1"])
        (use run en Inr unaudited audited in simp_all)
  qed
qed

lemma reentry_outcome:
  assumes "ledger_step\<^sup>*\<^sup>* empty_table (rw_ledger w)" and "json_rt (null_for_undef ls) = null_for_undef ls"
  shows "case attemptLoopReentry parse_date dq True nowMs session ls createdAt c w of
      (Inl e, w') \<Rightarrow> w' = w
    | (Inr r, w') \<Rightarrow>
        et_rows (rw_ledger w') = et_rows (rw_ledger w) @ [rr_event r] \<and>
        le_type (rr_event r) = LOOP_REENTRY_DECISION_EVENT \<and>
        payload_true ''reentered'' (rr_event r) = rd_reenter (rr_decision r) \<and>
        (if rd_reenter (rr_decision r)
         then dq (rw_queue w) = (rr_dequeued r, rw_queue w') \<and>
           rw_runStates w' = rw_runStates w @
             (case rr_dequeued r of None \<Rightarrow> [] | Some d \<Rightarrow> [(dq_repoFullName d, ''discovering'')])
         else rr_dequeued r = None \<and> rw_queue w' = rw_queue w \<and> rw_runStates w' = rw_runStates w)"
proof -
  have wf: "table_wf (rw_ledger w)" using assms(1) empty_table_wf by (rule ledger_steps_wf)
  show ?thesis
    using wf
  proof (cases rule: attemptLoopReentry_cases[where parse_date = parse_date and dq = dq and rs = True and nowMs = nowMs
        and session = session and ls = ls and createdAt = createdAt and c = c])
    case (audited r w')
    note a = attemptLoopReentry_Inr[OF wf audited(2)]
    from a(7) obtain w1 where w1: "enter_next dq True (rd_reenter (rr_decision r)) w = (rr_dequeued r, w1)"
      "rw_queue w' = rw_queue w1" "rw_runStates w' = rw_runStates w1" by blast
    show ?thesis
    proof (cases "rd_reenter (rr_decision r)")
      case True
      with w1 enter_next_True[of dq w "rr_dequeued r" w1] a(2,4,5) audited(2) show ?thesis
        by (simp add: reentry_event_def)
    next
      case False
      with w1 a(2,4,5) audited(2) show ?thesis by (simp add: reentry_event_def)
    qed
  qed (use assms(2) in simp_all)
qed

text \<open>every re-entry attempt is audited. With a ledger in any state it can reach and a summary that JSON can carry, a
  call either throws and has changed nothing, or it has appended exactly one \<open>loop_reentry_decision\<close> event that says
  whether it re-entered; the queue and the run states are touched only by an allowed re-entry, which takes the next
  item off the queue and moves that item's repository to \<open>discovering\<close>.\<close>

theorem reentry_audited:
  assumes "ledger_step\<^sup>*\<^sup>* empty_table (rw_ledger w)" and "json_rt (null_for_undef ls) = null_for_undef ls"
  shows "case attemptLoopReentry parse_date dq True nowMs session ls createdAt c w of
      (Inl e, w') \<Rightarrow> w' = w
    | (Inr r, w') \<Rightarrow>
        et_rows (rw_ledger w') = et_rows (rw_ledger w) @ [rr_event r] \<and>
        le_type (rr_event r) = LOOP_REENTRY_DECISION_EVENT \<and>
        payload_true ''reentered'' (rr_event r) = rd_reenter (rr_decision r) \<and>
        (if rd_reenter (rr_decision r)
         then dq (rw_queue w) = (rr_dequeued r, rw_queue w') \<and>
           rw_runStates w' = rw_runStates w @
             (case rr_dequeued r of None \<Rightarrow> [] | Some d \<Rightarrow> [(dq_repoFullName d, ''discovering'')])
         else rr_dequeued r = None \<and> rw_queue w' = rw_queue w \<and> rw_runStates w' = rw_runStates w)"
  using assms by (rule reentry_outcome)

text \<open>a summary that JSON cannot carry defeats the audit: the call throws, but only after the next candidate was taken
  off the queue and its repository moved to \<open>discovering\<close>, and no event records it.\<close>

theorem unserialisable_summary_loses_the_audit:
  assumes "ledger_step\<^sup>*\<^sup>* empty_table (rw_ledger w)" "json_rt (null_for_undef ls) \<noteq> null_for_undef ls"
    and "valid_repo_name (ri_repoFullName c)"
  shows "\<exists>w' dis d. attemptLoopReentry parse_date dq rs nowMs session ls createdAt c w = (Inl ''invalid_payload'', w') \<and>
    rw_ledger w' = rw_ledger w \<and>
    countConsecutiveDisengagements (rw_ledger w) (ri_repoFullName c) = Inr dis \<and>
    enter_next dq rs (rd_reenter (reentry_decision c (ri_repoFullName c) dis
      (reentries_since parse_date (num_sub nowMs HOUR_MS) (et_rows (rw_ledger w)))
      (reentries_since parse_date (or_default session (Fin 0)) (et_rows (rw_ledger w))))) w = (d, w')"
proof -
  have wf: "table_wf (rw_ledger w)" using assms(1) empty_table_wf by (rule ledger_steps_wf)
  have r: "trim (ri_repoFullName c) = ri_repoFullName c" "ri_repoFullName c \<noteq> []"
    using valid_repo_trim[OF assms(3)] by simp_all
  have count: "\<exists>n. countConsecutiveDisengagements (rw_ledger w) (ri_repoFullName c) = Inr n"
    using normalizeOptionalRepoFullName_fix[OF assms(3)]
    by (simp add: countConsecutiveDisengagements_def readPrOutcomes_def readEvents_def normalizeOptionalSince_def
        del: normalizeOptionalRepoFullName.simps(3))
  show ?thesis
    using wf
  proof (cases rule: attemptLoopReentry_cases[where parse_date = parse_date and dq = dq and rs = rs and nowMs = nowMs
        and session = session and ls = ls and createdAt = createdAt and c = c])
    case (unaudited dis d w')
    then show ?thesis using r enter_next_ledger[OF unaudited(3)] by auto
  qed (use assms(2) r count in auto)
qed

section \<open>Lemmas: how often the loop re-enters\<close>

text \<open>The re-entries of the hour that ends at \<open>t\<close>.\<close>

definition reentries_in_hour :: "(string \<Rightarrow> jsnum) \<Rightarrow> rat \<Rightarrow> LedgerEntry list \<Rightarrow> nat" where
  "reentries_in_hour parse_date t es = length (filter (\<lambda>e. reentry_event e \<and>
     num_ge (parse_date (le_createdAt e)) (num_sub (Fin t) HOUR_MS) \<and> num_le (parse_date (le_createdAt e)) (Fin t)) es)"

record reentry_call =
  rc_nowMs :: rat
  rc_createdAt :: string
  rc_summary :: jsval
  rc_candidate :: LoopReentryCandidateInput

definition reentry_step ::
  "(string \<Rightarrow> jsnum) \<Rightarrow> ('q \<Rightarrow> dequeued_item option \<times> 'q) \<Rightarrow> bool \<Rightarrow> jsnum option \<Rightarrow> reentry_call \<Rightarrow> 'q reentry_world
     \<Rightarrow> 'q reentry_world" where
  "reentry_step parse_date dq rs session call w = snd (attemptLoopReentry parse_date dq rs (Fin (rc_nowMs call)) session
     (rc_summary call) (rc_createdAt call) (rc_candidate call) w)"

text \<open>Both ceilings over the rows of a ledger.\<close>

definition within_caps :: "(string \<Rightarrow> jsnum) \<Rightarrow> jsnum option \<Rightarrow> nat \<Rightarrow> nat \<Rightarrow> LedgerEntry list \<Rightarrow> bool" where
  "within_caps parse_date session h n es \<longleftrightarrow> (\<forall>t. reentries_in_hour parse_date t es \<le> h) \<and>
     reentries_since parse_date (or_default session (Fin 0)) es \<le> n"

text \<open>A call under fixed ceilings. It reads its clock before the ledger stamps the event, so the stamp is not earlier than the
  reading the counts are taken at.\<close>

definition capped_call :: "(string \<Rightarrow> jsnum) \<Rightarrow> nat \<Rightarrow> nat \<Rightarrow> reentry_call \<Rightarrow> bool" where
  "capped_call parse_date h n call \<longleftrightarrow> (\<exists>s. parse_date (rc_createdAt call) = Fin s \<and> rc_nowMs call \<le> s) \<and>
     or_default (ri_maxReentriesPerHour (rc_candidate call)) DEFAULT_MAX_REENTRIES_PER_HOUR = num_of_nat h \<and>
     or_default (ri_maxReentriesPerSession (rc_candidate call)) DEFAULT_MAX_REENTRIES_PER_SESSION = num_of_nat n"

lemma filter_length_mono: "(\<And>x. x \<in> set xs \<Longrightarrow> P x \<Longrightarrow> Q x) \<Longrightarrow> length (filter P xs) \<le> length (filter Q xs)"
  by (induction xs) (auto simp: le_SucI)

text \<open>An hour that ends no earlier than \<open>s\<close> holds at most the re-entries counted from one hour before \<open>s\<close>.\<close>

lemma hour_le_since:
  "s \<le> t \<Longrightarrow> reentries_in_hour parse_date t es \<le> reentries_since parse_date (num_sub (Fin s) HOUR_MS) es"
  unfolding reentries_in_hour_def reentries_since_def
proof (rule filter_length_mono)
  fix e assume "s \<le> t" "reentry_event e \<and> num_ge (parse_date (le_createdAt e)) (num_sub (Fin t) HOUR_MS) \<and>
    num_le (parse_date (le_createdAt e)) (Fin t)"
  then show "reentry_event e \<and> num_ge (parse_date (le_createdAt e)) (num_sub (Fin s) HOUR_MS)"
    by (cases "parse_date (le_createdAt e)") (auto simp: HOUR_MS_def num_of_rat_def split: if_splits)
qed

lemma within_caps_snoc:
  assumes "within_caps parse_date session h n es" and "parse_date (le_createdAt e) = Fin s" and "now \<le> s"
    and "reentry_event e \<Longrightarrow> reentries_since parse_date (num_sub (Fin now) HOUR_MS) es < h \<and>
      reentries_since parse_date (or_default session (Fin 0)) es < n"
  shows "within_caps parse_date session h n (es @ [e])"
proof -
  have "reentries_in_hour parse_date t (es @ [e]) \<le> h" for t
  proof (cases "reentry_event e \<and> s \<le> t")
    case True
    then have "reentries_in_hour parse_date t es < h"
      using hour_le_since[of now t parse_date es] assms(3,4) by linarith
    then show ?thesis by (simp add: reentries_in_hour_def)
  next
    case False
    then show ?thesis using assms(1,2) by (auto simp: reentries_in_hour_def within_caps_def)
  qed
  then show ?thesis using assms by (auto simp: within_caps_def reentries_since_def)
qed

lemma num_ge_nat [simp]: "num_ge (num_of_nat a) (num_of_nat b) \<longleftrightarrow> b \<le> a"
  by simp

lemma reentry_step_caps:
  assumes "table_wf (rw_ledger w)" "within_caps parse_date session h n (et_rows (rw_ledger w))"
    and call: "capped_call parse_date h n call"
  shows "table_wf (rw_ledger (reentry_step parse_date dq rs session call w)) \<and>
    within_caps parse_date session h n (et_rows (rw_ledger (reentry_step parse_date dq rs session call w)))"
  using assms(1)
proof (cases rule: attemptLoopReentry_cases[where parse_date = parse_date and dq = dq and rs = rs
      and nowMs = "Fin (rc_nowMs call)" and session = session and ls = "rc_summary call"
      and createdAt = "rc_createdAt call" and c = "rc_candidate call"])
  case (audited r w')
  note a = attemptLoopReentry_Inr[OF assms(1) audited(2)]
  obtain s where s: "parse_date (rc_createdAt call) = Fin s" "rc_nowMs call \<le> s" using call by (auto simp: capped_call_def)
  have "within_caps parse_date session h n (et_rows (rw_ledger w) @ [rr_event r])"
  proof (rule within_caps_snoc[OF assms(2) _ s(2)])
    show "parse_date (le_createdAt (rr_event r)) = Fin s" using s(1) a(3) by simp
    show "reentries_since parse_date (num_sub (Fin (rc_nowMs call)) HOUR_MS) (et_rows (rw_ledger w)) < h \<and>
        reentries_since parse_date (or_default session (Fin 0)) (et_rows (rw_ledger w)) < n" if "reentry_event (rr_event r)"
      using that a(4,6) call by (auto simp: reentry_decision_def shouldReenter_allow capped_call_def)
  qed
  then show ?thesis using audited(2) a(1,2) by (simp add: reentry_step_def)
next
  case (unaudited dis d w')
  then show ?thesis using assms enter_next_ledger[OF unaudited(3)] by (simp add: reentry_step_def)
qed (use assms in \<open>simp add: reentry_step_def\<close>)

text \<open>C28: the re-entry rate is bounded. Start from a ledger in any reachable state that respects both caps, and make any
  sequence of attempts of one session with the same two caps, whatever their repositories, outcomes and clocks, where the
  clock reading an attempt counts from is not later than the stamp its event gets (the reading is taken first): no hour,
  wherever it ends, holds more recorded re-entries than the hourly cap, and the session never records more than the
  session cap.\<close>

theorem reentry_rate_bounded:
  assumes "ledger_step\<^sup>*\<^sup>* empty_table (rw_ledger w)"
    and "within_caps parse_date session h n (et_rows (rw_ledger w))"
    and "list_all (capped_call parse_date h n) calls"
  shows "within_caps parse_date session h n
    (et_rows (rw_ledger (fold (reentry_step parse_date dq rs session) calls w)))"
proof -
  have "table_wf (rw_ledger w)" using assms(1) empty_table_wf by (rule ledger_steps_wf)
  then show ?thesis using assms(2,3)
    by (induction calls arbitrary: w) (simp_all add: reentry_step_caps)
qed

definition sample_reentry :: reentry_call where
  "sample_reentry =
     \<lparr>rc_nowMs = 5, rc_createdAt = ''t'', rc_summary = JUndef,
      rc_candidate = \<lparr>ri_killSwitchScope = KsNone, ri_repoFullName = ''o/r'', ri_outcome = ReMerged,
        ri_maxConsecutiveDisengagements = None, ri_maxReentriesPerHour = Some (Fin 1),
        ri_maxReentriesPerSession = None\<rparr>\<rparr>"

definition sample_world :: "nat reentry_world" where
  "sample_world = \<lparr>rw_ledger = empty_table, rw_queue = 9, rw_runStates = []\<rparr>"

definition sample_dequeue :: "nat \<Rightarrow> dequeued_item option \<times> nat" where
  "sample_dequeue q = (Some \<lparr>dq_repoFullName = ''p/q'', dq_identifier = ''issue'', dq_priority = Fin 1,
     dq_status = ''in_progress'', dq_enqueuedAt = ''t''\<rparr>, q - 1)"

theorem reentry_rate_bounded_witness:
  "within_caps (\<lambda>_. Fin 5) None 1 20
     (et_rows (rw_ledger (fold (reentry_step (\<lambda>_. Fin 5) sample_dequeue True None)
       [sample_reentry, sample_reentry, sample_reentry] sample_world)))"
  by (rule reentry_rate_bounded)
    (simp_all add: sample_world_def within_caps_def reentries_in_hour_def reentries_since_def empty_table_def
      capped_call_def sample_reentry_def DEFAULT_MAX_REENTRIES_PER_SESSION_def)

theorem reentry_audited_witness:
  "case attemptLoopReentry (\<lambda>_. Fin 5) sample_dequeue True (Fin 5) None JUndef ''t'' (rc_candidate sample_reentry)
      sample_world of
      (Inl e, w') \<Rightarrow> w' = sample_world
    | (Inr r, w') \<Rightarrow> et_rows (rw_ledger w') = [rr_event r] \<and>
        payload_true ''reentered'' (rr_event r) = rd_reenter (rr_decision r)"
  using reentry_audited[where w = sample_world and ls = JUndef and parse_date = "\<lambda>_. Fin 5" and dq = sample_dequeue
      and nowMs = "Fin 5" and session = None and createdAt = "''t''" and c = "rc_candidate sample_reentry"]
  by (auto simp: sample_world_def empty_table_def null_for_undef_def split: prod.splits sum.splits)

theorem unserialisable_summary_loses_the_audit_witness:
  "\<exists>w'. attemptLoopReentry (\<lambda>_. Fin 5) sample_dequeue True (Fin 5) None (JNum NaN) ''t'' (rc_candidate sample_reentry)
      sample_world = (Inl ''invalid_payload'', w') \<and> rw_ledger w' = empty_table \<and> rw_queue w' = 8 \<and>
      rw_runStates w' = [(''p/q'', ''discovering'')]"
proof -
  have dis: "countConsecutiveDisengagements empty_table ''o/r'' = Inr 0"
    by (simp add: countConsecutiveDisengagements_def readPrOutcomes_def readEvents_def normalizeOptionalSince_def
        empty_table_def del: normalizeOptionalRepoFullName.simps(3))
  have "rd_reenter (reentry_decision (rc_candidate sample_reentry) ''o/r'' 0 0 0)"
    by (simp add: reentry_decision_def shouldReenter_allow sample_reentry_def DEFAULT_MAX_REENTRIES_PER_SESSION_def)
  then show ?thesis
    using unserialisable_summary_loses_the_audit[where w = sample_world and ls = "JNum NaN"
        and c = "rc_candidate sample_reentry" and parse_date = "\<lambda>_. Fin 5" and dq = sample_dequeue and rs = True
        and nowMs = "Fin 5" and session = None and createdAt = "''t''"] valid_or dis
    by (simp add: sample_world_def null_for_undef_def sample_reentry_def reentries_since_def empty_table_def
        enter_next_def sample_dequeue_def)
qed

end
