(* ===== verification/Queue_Store.thy ===== *)
theory Queue_Store
  imports Event_Ledger
begin

text \<open>
  The miner's persisted work queue (\<open>packages/loopover-miner/lib/portfolio-queue.ts\<close>) and the sweep that returns
  stuck items to it (\<open>portfolio-queue-expiry.ts\<close>).

  The SQLite table is the list of its rows in \<open>rowid\<close> order; an \<open>UPDATE ... WHERE ... RETURNING *\<close> is
  \<open>update_where\<close>, and \<open>ORDER BY priority DESC, enqueued_at ASC, rowid ASC\<close> is two stable sorts of that list.
  Wall-clock stamps are arguments and \<open>Date.parse\<close> is the parameter \<open>parse_date\<close>. A priority is a finite number once
  it is stored, so a row holds it as a rational. Opening the file and the schema migrations are not modelled.

  The lemmas give the invariant every operation keeps, the order in which the queue drains, what the attempt counters
  count, and what a sweep leaves behind.
\<close>

section \<open>Definitions: rows\<close>

datatype QueueStatus = QsQueued | QsInProgress | QsDone

record PortfolioQueueDbRow =
  qr_rowid :: nat
  qr_apiBaseUrl :: string
  qr_repoFullName :: string
  qr_identifier :: string
  qr_priority :: rat
  qr_status :: QueueStatus
  qr_enqueuedAt :: string
  qr_leasedAt :: "string option"
  qr_attempts :: nat
  qr_failures :: nat
  qr_reenqueues :: nat

record QueueEntry =
  qe_apiBaseUrl :: string
  qe_repoFullName :: string
  qe_identifier :: string
  qe_priority :: rat
  qe_status :: QueueStatus
  qe_enqueuedAt :: string

record EnqueueItem =
  en_repoFullName :: jsval
  en_identifier :: jsval
  en_priority :: jsval
  en_apiBaseUrl :: jsval

record QueueLeaseEntry =
  ql_apiBaseUrl :: string
  ql_repoFullName :: string
  ql_identifier :: string
  ql_status :: QueueStatus
  ql_leasedAt :: "string option"

record QueueAttemptHistory =
  qh_attempts :: nat
  qh_consecutiveFailures :: nat
  qh_reenqueues :: nat
  qh_reachedDone :: bool

definition normalizeQueueRepo :: "jsval \<Rightarrow> string + string" where
  "normalizeQueueRepo v =
     (case v of
        JStr s \<Rightarrow>
          (case split_on (CHR ''/'') (trim s) of
             [owner, repo] \<Rightarrow>
               if owner = [] \<or> repo = [] then Inl ''invalid_repo_full_name''
               else if \<not> isValidRepoSegment owner \<or> \<not> isValidRepoSegment repo then Inl ''invalid_repo_full_name''
               else Inr (owner @ ''/'' @ repo)
           | _ \<Rightarrow> Inl ''invalid_repo_full_name'')
      | _ \<Rightarrow> Inl ''invalid_repo_full_name'')"

text \<open>\<open>s.includes("::")\<close>.\<close>

fun has_sep :: "string \<Rightarrow> bool" where
  "has_sep (a # b # s) = (a = CHR '':'' \<and> b = CHR '':'' \<or> has_sep (b # s))"
| "has_sep _ = False"

definition normalizeIdentifier :: "jsval \<Rightarrow> string + string" where
  "normalizeIdentifier v =
     (case v of
        JStr s \<Rightarrow>
          (let trimmed = trim s in
           if trimmed = [] then Inl ''invalid_identifier''
           else if has_sep trimmed then Inl ''invalid_identifier''
           else Inr trimmed)
      | _ \<Rightarrow> Inl ''invalid_identifier'')"

definition normalizePriority :: "jsval \<Rightarrow> string + rat" where
  "normalizePriority v =
     (case v of
        JUndef \<Rightarrow> Inr 0
      | JNull \<Rightarrow> Inr 0
      | JNum (Fin q) \<Rightarrow> if q < 0 then Inl ''invalid_priority'' else Inr q
      | _ \<Rightarrow> Inl ''invalid_priority'')"

definition DEFAULT_API_BASE_URL :: string where
  "DEFAULT_API_BASE_URL = ''https://api.github.com''"

definition normalizeApiBaseUrl :: "jsval \<Rightarrow> string + string" where
  "normalizeApiBaseUrl v =
     (case v of
        JUndef \<Rightarrow> Inr DEFAULT_API_BASE_URL
      | JNull \<Rightarrow> Inr DEFAULT_API_BASE_URL
      | JStr s \<Rightarrow> if trim s = [] then Inl ''invalid_api_base_url'' else Inr (trim s)
      | _ \<Rightarrow> Inl ''invalid_api_base_url'')"

definition queueRowToEntry :: "PortfolioQueueDbRow \<Rightarrow> QueueEntry" where
  "queueRowToEntry r =
     \<lparr>qe_apiBaseUrl = qr_apiBaseUrl r, qe_repoFullName = qr_repoFullName r, qe_identifier = qr_identifier r,
      qe_priority = qr_priority r, qe_status = qr_status r, qe_enqueuedAt = qr_enqueuedAt r\<rparr>"

definition rowToLeaseEntry :: "PortfolioQueueDbRow \<Rightarrow> QueueLeaseEntry" where
  "rowToLeaseEntry r =
     \<lparr>ql_apiBaseUrl = qr_apiBaseUrl r, ql_repoFullName = qr_repoFullName r, ql_identifier = qr_identifier r,
      ql_status = qr_status r, ql_leasedAt = qr_leasedAt r\<rparr>"

text \<open>The primary key, and a statement addressed by it.\<close>

type_synonym queue_key = "string \<times> string \<times> string"

definition row_key :: "PortfolioQueueDbRow \<Rightarrow> queue_key" where
  "row_key r = (qr_apiBaseUrl r, qr_repoFullName r, qr_identifier r)"

definition update_where ::
  "(PortfolioQueueDbRow \<Rightarrow> bool) \<Rightarrow> (PortfolioQueueDbRow \<Rightarrow> PortfolioQueueDbRow) \<Rightarrow> PortfolioQueueDbRow list
     \<Rightarrow> QueueEntry option \<times> PortfolioQueueDbRow list" where
  "update_where P f rows =
     (map_option (queueRowToEntry \<circ> f) (find P rows), map (\<lambda>r. if P r then f r else r) rows)"

definition queue_order :: "PortfolioQueueDbRow list \<Rightarrow> PortfolioQueueDbRow list" where
  "queue_order rows = sort_key (\<lambda>r. - qr_priority r) (sort_key qr_enqueuedAt rows)"

text \<open>The next \<open>rowid\<close> of a table without \<open>AUTOINCREMENT\<close>.\<close>

definition next_rowid :: "PortfolioQueueDbRow list \<Rightarrow> nat" where
  "next_rowid rows = fold max (map qr_rowid rows) 0 + 1"

definition normalize_key :: "jsval \<Rightarrow> jsval \<Rightarrow> jsval \<Rightarrow> string + queue_key" where
  "normalize_key apiBaseUrl repoFullName identifier =
     and_then (normalizeApiBaseUrl apiBaseUrl) (\<lambda>a.
     and_then (normalizeQueueRepo repoFullName) (\<lambda>r.
     and_then (normalizeIdentifier identifier) (\<lambda>i. Inr (a, r, i))))"


section \<open>Definitions: operations\<close>

definition enqueue_row :: "string \<Rightarrow> queue_key \<Rightarrow> rat \<Rightarrow> PortfolioQueueDbRow list \<Rightarrow> PortfolioQueueDbRow list" where
  "enqueue_row enqueuedAt k priority rows =
     (if k \<in> row_key ` set rows then
        map (\<lambda>r. if row_key r = k \<and> qr_status r \<noteq> QsInProgress
                 then r\<lparr>qr_priority := priority, qr_status := QsQueued\<rparr> else r) rows
      else rows @ [\<lparr>qr_rowid = next_rowid rows, qr_apiBaseUrl = fst k, qr_repoFullName = fst (snd k),
          qr_identifier = snd (snd k), qr_priority = priority, qr_status = QsQueued, qr_enqueuedAt = enqueuedAt,
          qr_leasedAt = None, qr_attempts = 0, qr_failures = 0, qr_reenqueues = 0\<rparr>])"

definition enqueue ::
  "string \<Rightarrow> EnqueueItem \<Rightarrow> PortfolioQueueDbRow list \<Rightarrow> string + QueueEntry option \<times> PortfolioQueueDbRow list" where
  "enqueue enqueuedAt item rows =
     and_then (normalize_key (en_apiBaseUrl item) (en_repoFullName item) (en_identifier item)) (\<lambda>k.
     and_then (normalizePriority (en_priority item)) (\<lambda>priority.
     let rows' = enqueue_row enqueuedAt k priority rows
     in Inr (map_option queueRowToEntry (find (\<lambda>r. row_key r = k) rows'), rows')))"

definition claim_row :: "string \<Rightarrow> PortfolioQueueDbRow \<Rightarrow> PortfolioQueueDbRow" where
  "claim_row leasedAt r =
     r\<lparr>qr_status := QsInProgress, qr_leasedAt := Some leasedAt, qr_attempts := qr_attempts r + 1\<rparr>"

definition dequeueNext ::
  "string \<Rightarrow> PortfolioQueueDbRow list \<Rightarrow> QueueEntry option \<times> PortfolioQueueDbRow list" where
  "dequeueNext now rows =
     (case filter (\<lambda>r. qr_status r = QsQueued) (queue_order rows) of
        [] \<Rightarrow> (None, rows)
      | r # _ \<Rightarrow> update_where (\<lambda>x. qr_rowid x = qr_rowid r) (claim_row now) rows)"

definition listInProgress :: "PortfolioQueueDbRow list \<Rightarrow> QueueLeaseEntry list" where
  "listInProgress rows = map rowToLeaseEntry (queue_order (filter (\<lambda>r. qr_status r = QsInProgress) rows))"

definition release_row :: "PortfolioQueueDbRow \<Rightarrow> PortfolioQueueDbRow" where
  "release_row r = r\<lparr>qr_status := QsQueued, qr_leasedAt := None, qr_failures := qr_failures r + 1,
     qr_reenqueues := qr_reenqueues r + 1\<rparr>"

definition reclaimStuckItem ::
  "jsval \<Rightarrow> jsval \<Rightarrow> jsval \<Rightarrow> PortfolioQueueDbRow list \<Rightarrow> string + QueueEntry option \<times> PortfolioQueueDbRow list" where
  "reclaimStuckItem repoFullName identifier apiBaseUrl rows =
     and_then (normalize_key apiBaseUrl repoFullName identifier) (\<lambda>k.
     Inr (update_where (\<lambda>r. row_key r = k \<and> qr_status r = QsInProgress) release_row rows))"

definition requeueItem ::
  "jsval \<Rightarrow> jsval \<Rightarrow> jsval \<Rightarrow> PortfolioQueueDbRow list \<Rightarrow> string + QueueEntry option \<times> PortfolioQueueDbRow list" where
  "requeueItem repoFullName identifier apiBaseUrl rows =
     and_then (normalize_key apiBaseUrl repoFullName identifier) (\<lambda>k.
     Inr (update_where (\<lambda>r. row_key r = k \<and> qr_status r = QsDone)
       (\<lambda>r. r\<lparr>qr_status := QsQueued, qr_leasedAt := None\<rparr>) rows))"

definition listQueue :: "jsval \<Rightarrow> PortfolioQueueDbRow list \<Rightarrow> string + QueueEntry list" where
  "listQueue repoFullName rows =
     (if repoFullName = JUndef \<or> repoFullName = JNull then Inr (map queueRowToEntry (queue_order rows))
      else and_then (normalizeQueueRepo repoFullName) (\<lambda>r.
        Inr (map queueRowToEntry (queue_order (filter (\<lambda>x. qr_repoFullName x = r) rows)))))"

definition markDone ::
  "jsval \<Rightarrow> jsval \<Rightarrow> jsval \<Rightarrow> PortfolioQueueDbRow list \<Rightarrow> string + QueueEntry option \<times> PortfolioQueueDbRow list" where
  "markDone repoFullName identifier apiBaseUrl rows =
     and_then (normalize_key apiBaseUrl repoFullName identifier) (\<lambda>k.
     Inr (update_where (\<lambda>r. row_key r = k \<and> qr_status r \<noteq> QsDone)
       (\<lambda>r. r\<lparr>qr_status := QsDone, qr_leasedAt := None, qr_failures := 0\<rparr>) rows))"

definition markFailed ::
  "jsval \<Rightarrow> jsval \<Rightarrow> jsval \<Rightarrow> PortfolioQueueDbRow list \<Rightarrow> string + QueueEntry option \<times> PortfolioQueueDbRow list" where
  "markFailed repoFullName identifier apiBaseUrl rows =
     and_then (normalize_key apiBaseUrl repoFullName identifier) (\<lambda>k.
     Inr (update_where (\<lambda>r. row_key r = k \<and> qr_status r = QsInProgress) release_row rows))"

text \<open>A target of a batch claim, and the claims of one batch. A target that does not normalise throws, and the
  transaction is rolled back.\<close>

record PortfolioQueueClaimTarget =
  ct_apiBaseUrl :: jsval
  ct_repoFullName :: jsval
  ct_identifier :: jsval

fun claim_targets ::
  "string \<Rightarrow> PortfolioQueueClaimTarget list \<Rightarrow> PortfolioQueueDbRow list
     \<Rightarrow> string + QueueEntry list \<times> PortfolioQueueDbRow list" where
  "claim_targets leasedAt [] rows = Inr ([], rows)"
| "claim_targets leasedAt (t # ts) rows =
     and_then (normalize_key (ct_apiBaseUrl t) (ct_repoFullName t) (ct_identifier t)) (\<lambda>k.
     case update_where (\<lambda>r. row_key r = k \<and> qr_status r = QsQueued) (claim_row leasedAt) rows of (row, rows1) \<Rightarrow>
     and_then (claim_targets leasedAt ts rows1) (\<lambda>(claimed, rows2).
     Inr ((case row of None \<Rightarrow> claimed | Some e \<Rightarrow> e # claimed), rows2)))"

definition batchClaim ::
  "string \<Rightarrow> (QueueEntry list \<Rightarrow> string + PortfolioQueueClaimTarget list) \<Rightarrow> PortfolioQueueDbRow list
     \<Rightarrow> (string + QueueEntry list) \<times> PortfolioQueueDbRow list" where
  "batchClaim leasedAt selectFn rows =
     (let entries = map queueRowToEntry (queue_order (filter (\<lambda>r. qr_status r \<in> {QsQueued, QsInProgress}) rows)) in
      case and_then (selectFn entries) (\<lambda>targets. claim_targets leasedAt targets rows) of
        Inl e \<Rightarrow> (Inl e, rows)
      | Inr (claimed, rows') \<Rightarrow> (Inr claimed, rows'))"

definition getAttemptHistory ::
  "jsval \<Rightarrow> jsval \<Rightarrow> jsval \<Rightarrow> PortfolioQueueDbRow list \<Rightarrow> string + QueueAttemptHistory" where
  "getAttemptHistory repoFullName identifier apiBaseUrl rows =
     and_then (normalize_key apiBaseUrl repoFullName identifier) (\<lambda>k.
     Inr (case find (\<lambda>r. row_key r = k) rows of
            None \<Rightarrow> \<lparr>qh_attempts = 0, qh_consecutiveFailures = 0, qh_reenqueues = 0, qh_reachedDone = False\<rparr>
          | Some r \<Rightarrow> \<lparr>qh_attempts = qr_attempts r, qh_consecutiveFailures = qr_failures r,
              qh_reenqueues = qr_reenqueues r, qh_reachedDone = (qr_status r = QsDone)\<rparr>))"

definition purgeQueueByRepo ::
  "jsval \<Rightarrow> PortfolioQueueDbRow list \<Rightarrow> string + nat \<times> PortfolioQueueDbRow list" where
  "purgeQueueByRepo repoFullName rows =
     and_then (normalizeQueueRepo repoFullName) (\<lambda>r.
     let kept = filter (\<lambda>x. qr_repoFullName x \<noteq> r) rows
     in Inr (length rows - length kept, kept))"


section \<open>Definitions: the sweep\<close>

definition DEFAULT_MAX_LEASE_MS :: jsnum where
  "DEFAULT_MAX_LEASE_MS = Fin 1800000"

text \<open>\<open>Date.parse(null)\<close> is NaN.\<close>

definition leaseAgeMs :: "(string \<Rightarrow> jsnum) \<Rightarrow> QueueLeaseEntry \<Rightarrow> jsnum \<Rightarrow> jsnum option" where
  "leaseAgeMs parse_date item nowMs =
     (let leasedAtMs = (case ql_leasedAt item of None \<Rightarrow> NaN | Some s \<Rightarrow> parse_date s) in
      if \<not> isFinite leasedAtMs then None else Some (num_sub nowMs leasedAtMs))"

definition is_stuck :: "(string \<Rightarrow> jsnum) \<Rightarrow> jsnum \<Rightarrow> jsnum \<Rightarrow> QueueLeaseEntry \<Rightarrow> bool" where
  "is_stuck parse_date nowMs maxLeaseMs item \<longleftrightarrow> ql_status item = QsInProgress \<and>
     (case leaseAgeMs parse_date item nowMs of None \<Rightarrow> True | Some ageMs \<Rightarrow> num_lt maxLeaseMs ageMs)"

definition findStuckItems ::
  "(string \<Rightarrow> jsnum) \<Rightarrow> QueueLeaseEntry list \<Rightarrow> jsnum \<Rightarrow> jsnum \<Rightarrow> string + QueueLeaseEntry list" where
  "findStuckItems parse_date items nowMs maxLeaseMs =
     (if \<not> isFinite nowMs \<or> num_lt nowMs (Fin 0) then Inl ''invalid_now_ms''
      else if \<not> isFinite maxLeaseMs \<or> num_lt maxLeaseMs (Fin 0) then Inl ''invalid_max_lease_ms''
      else Inr (filter (is_stuck parse_date nowMs maxLeaseMs) items))"

text \<open>Each reclaim is a statement of its own: an error in the middle keeps the ones before it.\<close>

fun reclaim_all ::
  "QueueLeaseEntry list \<Rightarrow> PortfolioQueueDbRow list \<Rightarrow> (string + QueueEntry list) \<times> PortfolioQueueDbRow list" where
  "reclaim_all [] rows = (Inr [], rows)"
| "reclaim_all (item # items) rows =
     (case reclaimStuckItem (JStr (ql_repoFullName item)) (JStr (ql_identifier item)) (JStr (ql_apiBaseUrl item)) rows of
        Inl e \<Rightarrow> (Inl e, rows)
      | Inr (updated, rows1) \<Rightarrow>
          (case reclaim_all items rows1 of
             (Inl e, rows2) \<Rightarrow> (Inl e, rows2)
           | (Inr es, rows2) \<Rightarrow> (Inr (case updated of None \<Rightarrow> es | Some e \<Rightarrow> e # es), rows2)))"

definition sweepStuckItems ::
  "(string \<Rightarrow> jsnum) \<Rightarrow> jsnum \<Rightarrow> jsnum \<Rightarrow> PortfolioQueueDbRow list
     \<Rightarrow> (string + QueueEntry list) \<times> PortfolioQueueDbRow list" where
  "sweepStuckItems parse_date nowMs maxLeaseMs rows =
     (case findStuckItems parse_date (listInProgress rows) nowMs maxLeaseMs of
        Inl e \<Rightarrow> (Inl e, rows)
      | Inr stuck \<Rightarrow> reclaim_all stuck rows)"


section \<open>Lemmas: the store invariant\<close>

named_theorems queue_op_defs \<open>definitions of the store's operations\<close>

declare enqueue_def [queue_op_defs] dequeueNext_def [queue_op_defs] reclaimStuckItem_def [queue_op_defs]
  requeueItem_def [queue_op_defs] markDone_def [queue_op_defs] markFailed_def [queue_op_defs]
  purgeQueueByRepo_def [queue_op_defs]

text \<open>A stored row: its key is normalised, it has a lease exactly while it is in progress, and its counters fit together:
  every release was preceded by a claim, and a failure streak is part of the releases.\<close>

definition key_wf :: "queue_key \<Rightarrow> bool" where
  "key_wf k \<longleftrightarrow> nonblank (fst k) \<and> valid_repo_name (fst (snd k)) \<and> nonblank (snd (snd k)) \<and> \<not> has_sep (snd (snd k))"

definition queue_row_wf :: "PortfolioQueueDbRow \<Rightarrow> bool" where
  "queue_row_wf r \<longleftrightarrow> key_wf (row_key r) \<and> 0 \<le> qr_priority r \<and>
     (qr_leasedAt r \<noteq> None \<longleftrightarrow> qr_status r = QsInProgress) \<and> qr_failures r \<le> qr_reenqueues r \<and>
     qr_reenqueues r + (if qr_status r = QsInProgress then 1 else 0) \<le> qr_attempts r"

definition store_wf :: "PortfolioQueueDbRow list \<Rightarrow> bool" where
  "store_wf rows \<longleftrightarrow> sorted_wrt (<) (map qr_rowid rows) \<and> distinct (map row_key rows) \<and> list_all queue_row_wf rows"

lemma normalizeQueueRepo_optional:
  "normalizeQueueRepo v = Inr r \<longleftrightarrow> normalizeOptionalRepoFullName v = Inr (Some r)"
  by (cases v) (auto simp: normalizeQueueRepo_def split: list.splits)

lemma default_url_nonblank: "nonblank DEFAULT_API_BASE_URL"
proof -
  have "trim DEFAULT_API_BASE_URL = DEFAULT_API_BASE_URL"
    by (rule trim_fix) (simp add: DEFAULT_API_BASE_URL_def is_ws_def)
  then show ?thesis by (simp add: nonblank_def DEFAULT_API_BASE_URL_def)
qed

lemma normalize_key_wf: "normalize_key a r i = Inr k \<Longrightarrow> key_wf k"
proof -
  have "nonblank x" if "normalizeApiBaseUrl a = Inr x" for x
    using that default_url_nonblank
    by (auto simp: normalizeApiBaseUrl_def nonblank_def split: jsval.splits if_splits)
  moreover have "nonblank x \<and> \<not> has_sep x" if "normalizeIdentifier i = Inr x" for x
    using that by (auto simp: normalizeIdentifier_def nonblank_def Let_def split: jsval.splits if_splits)
  ultimately show "normalize_key a r i = Inr k \<Longrightarrow> key_wf k"
    using normalizeOptionalRepoFullName_valid
    by (auto simp: normalize_key_def and_then_Inr key_wf_def normalizeQueueRepo_optional)
qed

lemma normalize_key_fix: "key_wf (a, r, i) \<Longrightarrow> normalize_key (JStr a) (JStr r) (JStr i) = Inr (a, r, i)"
  using normalizeOptionalRepoFullName_fix[of r]
  by (auto simp: key_wf_def normalize_key_def normalizeApiBaseUrl_def normalizeIdentifier_def nonblank_def Let_def
      and_then_Inr normalizeQueueRepo_optional simp del: normalizeOptionalRepoFullName.simps)

text \<open>An update that leaves keys and row ids alone and keeps each row it touches well formed.\<close>

lemma store_wf_map:
  assumes "store_wf rows" "\<And>r. row_key (g r) = row_key r" "\<And>r. qr_rowid (g r) = qr_rowid r"
    and "\<And>r. r \<in> set rows \<Longrightarrow> queue_row_wf r \<Longrightarrow> queue_row_wf (g r)"
  shows "store_wf (map g rows)"
  using assms by (auto simp: store_wf_def list_all_iff comp_def)

lemma update_where_wf:
  assumes "store_wf rows" "update_where P f rows = (e, rows')"
    and "\<And>r. row_key (f r) = row_key r" "\<And>r. qr_rowid (f r) = qr_rowid r"
    and "\<And>r. P r \<Longrightarrow> queue_row_wf r \<Longrightarrow> queue_row_wf (f r)"
  shows "store_wf rows'"
proof -
  have "rows' = map (\<lambda>r. if P r then f r else r) rows" using assms(2) by (simp add: update_where_def)
  then show ?thesis using assms by (auto intro!: store_wf_map)
qed

lemma row_key_update [simp]:
  "row_key (qr_status_update f r) = row_key r" "row_key (qr_leasedAt_update g r) = row_key r"
  "row_key (qr_failures_update h r) = row_key r" "row_key (qr_reenqueues_update h r) = row_key r"
  "row_key (qr_attempts_update h r) = row_key r" "row_key (qr_priority_update p r) = row_key r"
  by (simp_all add: row_key_def)

lemma row_simps [simp]:
  "row_key (claim_row n r) = row_key r" "qr_rowid (claim_row n r) = qr_rowid r"
  "row_key (release_row r) = row_key r" "qr_rowid (release_row r) = qr_rowid r"
  by (simp_all add: claim_row_def release_row_def)

lemma release_row_wf: "qr_status r = QsInProgress \<Longrightarrow> queue_row_wf r \<Longrightarrow> queue_row_wf (release_row r)"
  by (simp add: queue_row_wf_def) (simp add: release_row_def)

lemma claim_row_wf: "qr_status r = QsQueued \<Longrightarrow> queue_row_wf r \<Longrightarrow> queue_row_wf (claim_row t r)"
  by (simp add: queue_row_wf_def) (simp add: claim_row_def)

lemma next_rowid_above: "r \<in> set rows \<Longrightarrow> qr_rowid r < next_rowid rows"
  using fold_max_le[of "map qr_rowid rows" 0 "fold max (map qr_rowid rows) 0"]
  by (auto simp: next_rowid_def less_Suc_eq_le)

lemma enqueue_row_wf:
  assumes "store_wf rows" "key_wf k" "0 \<le> p" shows "store_wf (enqueue_row t k p rows)"
proof (cases "k \<in> row_key ` set rows")
  case True
  have "store_wf (map (\<lambda>r. if row_key r = k \<and> qr_status r \<noteq> QsInProgress
      then r\<lparr>qr_priority := p, qr_status := QsQueued\<rparr> else r) rows)"
    using assms by (intro store_wf_map) (auto simp: queue_row_wf_def split: if_splits)
  then show ?thesis using True by (simp add: enqueue_row_def)
next
  case False
  then show ?thesis using assms next_rowid_above[of _ rows]
    by (auto simp: enqueue_row_def store_wf_def sorted_wrt_append queue_row_wf_def row_key_def list_all_iff)
qed

lemma claim_targets_wf:
  "store_wf rows \<Longrightarrow> claim_targets t ts rows = Inr (es, rows') \<Longrightarrow> store_wf rows'"
proof (induction ts arbitrary: rows es)
  case (Cons a ts)
  obtain k where k: "normalize_key (ct_apiBaseUrl a) (ct_repoFullName a) (ct_identifier a) = Inr k"
    using Cons.prems(2) by (auto simp: and_then_Inr)
  obtain e rows1 where
    upd: "update_where (\<lambda>r. row_key r = k \<and> qr_status r = QsQueued) (claim_row t) rows = (e, rows1)"
    by fastforce
  obtain es1 where rest: "claim_targets t ts rows1 = Inr (es1, rows')"
    using Cons.prems(2) k upd by (auto simp: and_then_Inr)
  have "store_wf rows1"
    by (rule update_where_wf[OF Cons.prems(1) upd]) (auto intro: claim_row_wf)
  then show ?case using Cons.IH rest by blast
qed simp

text \<open>The life of a store: its operations in any order. A call that throws changes nothing.\<close>

inductive queue_step :: "PortfolioQueueDbRow list \<Rightarrow> PortfolioQueueDbRow list \<Rightarrow> bool" where
  q_enqueue: "enqueue t item rows = Inr (e, rows') \<Longrightarrow> queue_step rows rows'"
| q_dequeue: "dequeueNext t rows = (e, rows') \<Longrightarrow> queue_step rows rows'"
| q_done: "markDone r i a rows = Inr (e, rows') \<Longrightarrow> queue_step rows rows'"
| q_failed: "markFailed r i a rows = Inr (e, rows') \<Longrightarrow> queue_step rows rows'"
| q_reclaim: "reclaimStuckItem r i a rows = Inr (e, rows') \<Longrightarrow> queue_step rows rows'"
| q_requeue: "requeueItem r i a rows = Inr (e, rows') \<Longrightarrow> queue_step rows rows'"
| q_batch: "batchClaim t sel rows = (out, rows') \<Longrightarrow> queue_step rows rows'"
| q_purge: "purgeQueueByRepo r rows = Inr (n, rows') \<Longrightarrow> queue_step rows rows'"


lemma dequeueNext_update:
  "dequeueNext t rows = (e, rows') \<Longrightarrow> rows' = rows \<and> e = None \<or>
     (\<exists>r. r \<in> set rows \<and> qr_status r = QsQueued \<and>
        update_where (\<lambda>x. qr_rowid x = qr_rowid r) (claim_row t) rows = (e, rows'))"
proof -
  assume a: "dequeueNext t rows = (e, rows')"
  show ?thesis
  proof (cases "filter (\<lambda>r. qr_status r = QsQueued) (queue_order rows)")
    case (Cons r rs)
    then have "r \<in> set (filter (\<lambda>r. qr_status r = QsQueued) (queue_order rows))" by simp
    then have "r \<in> set rows" "qr_status r = QsQueued" by (auto simp: queue_order_def)
    with a Cons show ?thesis by (auto simp: dequeueNext_def)
  qed (use a in \<open>simp add: dequeueNext_def\<close>)
qed

lemma rowid_unique:
  "store_wf rows \<Longrightarrow> a \<in> set rows \<Longrightarrow> b \<in> set rows \<Longrightarrow> qr_rowid a = qr_rowid b \<Longrightarrow> a = b"
  using strict_sorted_iff[of "map qr_rowid rows"] by (auto simp: store_wf_def distinct_map dest: inj_onD)

lemma dequeueNext_wf:
  assumes "store_wf rows" "dequeueNext t rows = (e, rows')" shows "store_wf rows'"
  using dequeueNext_update[OF assms(2)]
proof (elim disjE exE conjE)
  fix r assume r: "r \<in> set rows" "qr_status r = QsQueued"
    and upd: "update_where (\<lambda>x. qr_rowid x = qr_rowid r) (claim_row t) rows = (e, rows')"
  have "rows' = map (\<lambda>x. if qr_rowid x = qr_rowid r then claim_row t x else x) rows"
    using upd by (simp add: update_where_def)
  moreover have "store_wf \<dots>"
    using assms(1)
  proof (rule store_wf_map)
    fix x assume "x \<in> set rows" "queue_row_wf x"
    then show "queue_row_wf (if qr_rowid x = qr_rowid r then claim_row t x else x)"
      using rowid_unique[OF assms(1) _ r(1)] r(2) by (auto intro: claim_row_wf)
  qed auto
  ultimately show ?thesis by simp
qed (use assms(1) in simp)

lemma batchClaim_wf: "store_wf rows \<Longrightarrow> batchClaim t sel rows = (out, rows') \<Longrightarrow> store_wf rows'"
  by (auto simp: batchClaim_def Let_def and_then_Inr dest: claim_targets_wf split: sum.splits)

lemma queue_step_wf: "queue_step rows rows' \<Longrightarrow> store_wf rows \<Longrightarrow> store_wf rows'"
proof (induction rule: queue_step.induct)
  case (q_enqueue t item rows e rows')
  then obtain k p where "normalize_key (en_apiBaseUrl item) (en_repoFullName item) (en_identifier item) = Inr k"
    "normalizePriority (en_priority item) = Inr p" "rows' = enqueue_row t k p rows"
    by (auto simp: enqueue_def and_then_Inr Let_def)
  moreover from this(2) have "0 \<le> p"
    by (auto simp: normalizePriority_def split: jsval.splits jsnum.splits if_splits)
  ultimately show ?case using q_enqueue.prems normalize_key_wf enqueue_row_wf by blast
next
  case (q_purge r rows n rows')
  then show ?case
    by (auto simp: purgeQueueByRepo_def and_then_Inr Let_def store_wf_def sorted_wrt_map sorted_wrt_filter
        distinct_map_filter list_all_iff)
next
  case q_dequeue then show ?case by (blast intro: dequeueNext_wf)
next
  case q_batch then show ?case by (blast intro: batchClaim_wf)
next
  case q_failed
  then show ?case by (auto simp: markFailed_def and_then_Inr intro: release_row_wf elim: update_where_wf[rotated])
next
  case q_reclaim
  then show ?case by (auto simp: reclaimStuckItem_def and_then_Inr intro: release_row_wf elim: update_where_wf[rotated])
qed (auto simp: markDone_def requeueItem_def and_then_Inr queue_row_wf_def elim: update_where_wf[rotated])

lemma queue_steps_wf: "queue_step\<^sup>*\<^sup>* rows rows' \<Longrightarrow> store_wf rows \<Longrightarrow> store_wf rows'"
  by (induction rule: rtranclp_induct) (auto intro: queue_step_wf)


section \<open>Lemmas: the order of the queue\<close>

text \<open>Stable sorting refines the order a list already has.\<close>

lemma insort_key_lex:
  assumes "sorted_wrt (\<lambda>a b. f a < f b \<or> f a = f b \<and> R a b) ys" "\<forall>y \<in> set ys. R x y"
  shows "sorted_wrt (\<lambda>a b. f a < f b \<or> f a = f b \<and> R a b) (insort_key f x ys)"
  using assms by (induction ys) (auto simp: set_insort_key)

lemma sort_key_lex:
  "sorted_wrt R ys \<Longrightarrow> sorted_wrt (\<lambda>a b. f a < f b \<or> f a = f b \<and> R a b) (sort_key f ys)"
  by (induction ys) (simp_all add: insort_key_lex)

lemma insort_key_map: "insort_key f (g x) (map g ys) = map g (insort_key (\<lambda>x. f (g x)) x ys)"
  by (induction ys) simp_all

lemma sort_key_map: "sort_key f (map g ys) = map g (sort_key (\<lambda>x. f (g x)) ys)"
  by (induction ys) (simp_all add: insort_key_map)

definition before :: "PortfolioQueueDbRow \<Rightarrow> PortfolioQueueDbRow \<Rightarrow> bool" where
  "before a b \<longleftrightarrow> qr_priority a > qr_priority b \<or> qr_priority a = qr_priority b \<and>
     (qr_enqueuedAt a < qr_enqueuedAt b \<or> qr_enqueuedAt a = qr_enqueuedAt b \<and> qr_rowid a < qr_rowid b)"

lemma queue_order_sorted: "store_wf rows \<Longrightarrow> sorted_wrt before (queue_order rows)"
proof -
  assume "store_wf rows"
  then have "sorted_wrt (\<lambda>a b. qr_rowid a < qr_rowid b) rows" by (simp add: store_wf_def sorted_wrt_map)
  from sort_key_lex[OF sort_key_lex[OF this, of qr_enqueuedAt], of "\<lambda>r. - qr_priority r"]
  show ?thesis by (simp add: queue_order_def before_def[abs_def])
qed

lemma set_queue_order [simp]: "set (queue_order rows) = set rows"
  by (simp add: queue_order_def)

lemma queue_order_map:
  assumes "\<And>r. qr_priority (g r) = qr_priority r" "\<And>r. qr_enqueuedAt (g r) = qr_enqueuedAt r"
  shows "queue_order (map g rows) = map g (queue_order rows)"
  using assms by (simp add: queue_order_def sort_key_map)

definition waiting :: "PortfolioQueueDbRow list \<Rightarrow> PortfolioQueueDbRow list" where
  "waiting rows = filter (\<lambda>r. qr_status r = QsQueued) (queue_order rows)"

lemma waiting_rowids: "store_wf rows \<Longrightarrow> distinct (map qr_rowid (waiting rows))"
proof -
  assume wf: "store_wf rows"
  have "distinct (map qr_rowid (queue_order rows))"
    using wf strict_sorted_iff[of "map qr_rowid rows"]
    by (simp add: queue_order_def store_wf_def distinct_map)
  then show ?thesis by (simp add: waiting_def distinct_map_filter)
qed

text \<open>One dequeue takes the head of the waiting rows.\<close>

lemma dequeueNext_waiting:
  assumes wf: "store_wf rows" and w: "waiting rows = r # rs"
  shows "fst (dequeueNext t rows) = Some (queueRowToEntry (claim_row t r))"
    and "waiting (snd (dequeueNext t rows)) = rs"
proof -
  let ?g = "\<lambda>x. if qr_rowid x = qr_rowid r then claim_row t x else x"
  have r: "r \<in> set rows" "qr_status r = QsQueued"
    using arg_cong[OF w, of set] by (auto simp: waiting_def)
  have eq: "dequeueNext t rows = update_where (\<lambda>x. qr_rowid x = qr_rowid r) (claim_row t) rows"
    using w by (simp add: dequeueNext_def waiting_def)
  have "find (\<lambda>x. qr_rowid x = qr_rowid r) rows = Some r"
    using r(1) rowid_unique[OF wf _ r(1)] by (induction rows) (auto simp: store_wf_def split: if_splits) 
  then show "fst (dequeueNext t rows) = Some (queueRowToEntry (claim_row t r))" by (simp add: eq update_where_def)
  have "waiting (map ?g rows) = filter (\<lambda>x. qr_status x = QsQueued \<and> qr_rowid x \<noteq> qr_rowid r) (queue_order rows)"
  proof -
    have "waiting (map ?g rows) = filter (\<lambda>x. qr_status x = QsQueued) (map ?g (queue_order rows))"
      unfolding waiting_def by (subst queue_order_map) (simp_all add: claim_row_def)
    also have "\<dots> = map ?g (filter (\<lambda>x. qr_status x = QsQueued \<and> qr_rowid x \<noteq> qr_rowid r) (queue_order rows))"
      unfolding filter_map comp_def
      by (intro arg_cong[where f = "map ?g"] filter_cong) (auto simp: claim_row_def)
    also have "\<dots> = filter (\<lambda>x. qr_status x = QsQueued \<and> qr_rowid x \<noteq> qr_rowid r) (queue_order rows)"
      by (rule map_idI) auto
    finally show ?thesis .
  qed
  also have "\<dots> = filter (\<lambda>x. qr_rowid x \<noteq> qr_rowid r) (waiting rows)"
    by (simp add: waiting_def conj_commute)
  also have "\<dots> = rs"
  proof -
    have "\<forall>x \<in> set rs. qr_rowid x \<noteq> qr_rowid r" using waiting_rowids[OF wf] unfolding w by (simp add: image_iff) metis
    then show ?thesis by (simp add: w filter_id_conv)
  qed
  finally show "waiting (snd (dequeueNext t rows)) = rs" by (simp add: eq update_where_def)
qed

fun dequeue_run :: "string list \<Rightarrow> PortfolioQueueDbRow list \<Rightarrow> QueueEntry option list" where
  "dequeue_run [] rows = []"
| "dequeue_run (t # ts) rows = (case dequeueNext t rows of (e, rows') \<Rightarrow> e # dequeue_run ts rows')"

text \<open>the queue drains in order. However the store was used before, consecutive dequeues hand out the waiting items one
  by one, each exactly once, highest priority first, then earliest enqueued, then first inserted, each marked in
  progress; and once none waits they return nothing.\<close>

theorem queue_drains_in_order:
  assumes "queue_step\<^sup>*\<^sup>* [] rows"
  shows "dequeue_run ts rows =
      map (\<lambda>(t, r). Some (queueRowToEntry (claim_row t r))) (zip ts (waiting rows)) @
      replicate (length ts - length (waiting rows)) None \<and>
    sorted_wrt before (waiting rows) \<and> distinct (map qr_rowid (waiting rows)) \<and>
    set (waiting rows) = {r \<in> set rows. qr_status r = QsQueued}"
proof -
  have wf: "store_wf rows" using queue_steps_wf[OF assms] by (simp add: store_wf_def)
  then have "dequeue_run ts rows = map (\<lambda>(t, r). Some (queueRowToEntry (claim_row t r))) (zip ts (waiting rows)) @
      replicate (length ts - length (waiting rows)) None"
  proof (induction ts arbitrary: rows)
    case (Cons t ts)
    obtain e rows' where d: "dequeueNext t rows = (e, rows')" by fastforce
    note IH = Cons.IH[OF dequeueNext_wf[OF Cons.prems d]]
    show ?case
    proof (cases "waiting rows")
      case Nil
      then have "dequeueNext t rows = (None, rows)" by (simp add: dequeueNext_def waiting_def)
      then show ?thesis using IH d Nil by simp
    next
      case w: (Cons r rs)
      show ?thesis using IH d dequeueNext_waiting[OF Cons.prems w, of t] by (simp add: w)
    qed
  qed simp
  then show ?thesis
    using queue_order_sorted[OF wf] waiting_rowids[OF wf]
    by (auto simp: waiting_def sorted_wrt_filter)
qed


definition sample_item :: "string \<Rightarrow> rat \<Rightarrow> EnqueueItem" where
  "sample_item i p = \<lparr>en_repoFullName = JStr ''o/r'', en_identifier = JStr i, en_priority = JNum (Fin p),
     en_apiBaseUrl = JUndef\<rparr>"

definition sample_row :: "nat \<Rightarrow> string \<Rightarrow> rat \<Rightarrow> PortfolioQueueDbRow" where
  "sample_row n i p =
     \<lparr>qr_rowid = n, qr_apiBaseUrl = DEFAULT_API_BASE_URL, qr_repoFullName = ''o/r'', qr_identifier = i,
      qr_priority = p, qr_status = QsQueued, qr_enqueuedAt = ''t'', qr_leasedAt = None, qr_attempts = 0,
      qr_failures = 0, qr_reenqueues = 0\<rparr>"

lemma sample_key:
  "normalize_key JUndef (JStr ''o/r'') (JStr ''a'') = Inr (DEFAULT_API_BASE_URL, ''o/r'', ''a'')"
  "normalize_key JUndef (JStr ''o/r'') (JStr ''b'') = Inr (DEFAULT_API_BASE_URL, ''o/r'', ''b'')"
  by code_simp+

lemma sample_rows: "queue_step\<^sup>*\<^sup>* [] [sample_row 1 ''a'' 1, sample_row 2 ''b'' 2]"
proof -
  have "\<exists>e. enqueue ''t'' (sample_item ''a'' 1) [] = Inr (e, [sample_row 1 ''a'' 1])"
    by (simp add: enqueue_def sample_item_def sample_key normalizePriority_def enqueue_row_def next_rowid_def
        sample_row_def Let_def)
  moreover have "\<exists>e. enqueue ''t'' (sample_item ''b'' 2) [sample_row 1 ''a'' 1] =
      Inr (e, [sample_row 1 ''a'' 1, sample_row 2 ''b'' 2])"
    by (simp add: enqueue_def sample_item_def sample_key normalizePriority_def enqueue_row_def next_rowid_def
        sample_row_def row_key_def Let_def)
  ultimately show ?thesis by (blast intro: q_enqueue rtranclp.rtrancl_into_rtrancl rtranclp.rtrancl_refl)
qed

theorem queue_drains_in_order_witness:
  "dequeue_run [''u'', ''v'', ''w''] [sample_row 1 ''a'' 1, sample_row 2 ''b'' 2] =
     [Some (queueRowToEntry (claim_row ''u'' (sample_row 2 ''b'' 2))),
      Some (queueRowToEntry (claim_row ''v'' (sample_row 1 ''a'' 1))), None]"
proof -
  have "waiting [sample_row 1 ''a'' 1, sample_row 2 ''b'' 2] = [sample_row 2 ''b'' 2, sample_row 1 ''a'' 1]"
    by (simp add: waiting_def queue_order_def sample_row_def)
  then show ?thesis using queue_drains_in_order[OF sample_rows, of "[''u'', ''v'', ''w'']"] by simp
qed


section \<open>Lemmas: the life of one item\<close>

text \<open>What the store promises about one item, without the table: everything a row keeps besides its key.\<close>

record item_life =
  il_priority :: rat
  il_status :: QueueStatus
  il_enqueuedAt :: string
  il_leasedAt :: "string option"
  il_attempts :: nat
  il_failures :: nat
  il_reenqueues :: nat

datatype life_event = Enqueued string rat | Claimed string | Finished | Released | Reopened | Purged

fun life :: "life_event \<Rightarrow> item_life option \<Rightarrow> item_life option" where
  "life (Enqueued t p) None = Some \<lparr>il_priority = p, il_status = QsQueued, il_enqueuedAt = t, il_leasedAt = None,
      il_attempts = 0, il_failures = 0, il_reenqueues = 0\<rparr>"
| "life (Enqueued t p) (Some l) = Some (if il_status l = QsInProgress then l else l\<lparr>il_priority := p, il_status := QsQueued\<rparr>)"
| "life (Claimed t) l = map_option (\<lambda>l. if il_status l = QsQueued
      then l\<lparr>il_status := QsInProgress, il_leasedAt := Some t, il_attempts := il_attempts l + 1\<rparr> else l) l"
| "life Finished l = map_option (\<lambda>l. if il_status l = QsDone then l
      else l\<lparr>il_status := QsDone, il_leasedAt := None, il_failures := 0\<rparr>) l"
| "life Released l = map_option (\<lambda>l. if il_status l = QsInProgress
      then l\<lparr>il_status := QsQueued, il_leasedAt := None, il_failures := il_failures l + 1, il_reenqueues := il_reenqueues l + 1\<rparr>
      else l) l"
| "life Reopened l = map_option (\<lambda>l. if il_status l = QsDone then l\<lparr>il_status := QsQueued, il_leasedAt := None\<rparr> else l) l"
| "life Purged l = None"

definition life_of_row :: "PortfolioQueueDbRow \<Rightarrow> item_life" where
  "life_of_row r = \<lparr>il_priority = qr_priority r, il_status = qr_status r, il_enqueuedAt = qr_enqueuedAt r,
     il_leasedAt = qr_leasedAt r, il_attempts = qr_attempts r, il_failures = qr_failures r, il_reenqueues = qr_reenqueues r\<rparr>"

definition abs_store :: "PortfolioQueueDbRow list \<Rightarrow> queue_key \<Rightarrow> item_life option" where
  "abs_store rows k = map_option life_of_row (find (\<lambda>r. row_key r = k) rows)"

definition entry_key :: "QueueEntry \<Rightarrow> queue_key" where
  "entry_key e = (qe_apiBaseUrl e, qe_repoFullName e, qe_identifier e)"

definition target_keys :: "PortfolioQueueClaimTarget list \<Rightarrow> queue_key set" where
  "target_keys ts = {k. \<exists>x \<in> set ts. normalize_key (ct_apiBaseUrl x) (ct_repoFullName x) (ct_identifier x) = Inr k}"

text \<open>What an event does to the items of a set of keys; all other items stay.\<close>

definition lives :: "life_event \<Rightarrow> queue_key set \<Rightarrow> (queue_key \<Rightarrow> item_life option) \<Rightarrow> queue_key \<Rightarrow> item_life option" where
  "lives ev K m = (\<lambda>k. if k \<in> K then life ev (m k) else m k)"

definition is_waiting :: "item_life option \<Rightarrow> bool" where
  "is_waiting l \<longleftrightarrow> map_option il_status l = Some QsQueued"

lemma find_key: "find (\<lambda>r. row_key r = k) rows = Some r \<Longrightarrow> row_key r = k \<and> r \<in> set rows"
  by (auto simp: find_Some_iff)

lemma find_key_None: "find (\<lambda>r. row_key r = k) rows = None \<longleftrightarrow> k \<notin> row_key ` set rows"
  by (auto simp: find_None_iff)

text \<open>An update addressed by a key acts on that item alone.\<close>

lemma abs_update:
  assumes "update_where (\<lambda>r. row_key r = k \<and> S r) f rows = (e, rows')" "\<And>r. row_key (f r) = row_key r"
    and "\<And>r. map_option life_of_row (Some (if S r then f r else r)) = life ev (Some (life_of_row r))" "life ev None = None"
  shows "abs_store rows' = (abs_store rows)(k := life ev (abs_store rows k))"
proof
  fix k'
  have rows': "rows' = map (\<lambda>r. if row_key r = k \<and> S r then f r else r) rows"
    using assms(1) by (simp add: update_where_def)
  have "find (\<lambda>r. row_key r = k') rows' =
      map_option (\<lambda>r. if row_key r = k \<and> S r then f r else r) (find (\<lambda>r. row_key r = k') rows)"
    unfolding rows' using assms(2) by (intro find_map_key) simp
  then show "abs_store rows' k' = ((abs_store rows)(k := life ev (abs_store rows k))) k'"
    using assms(3,4) find_key[of k' rows]
    by (cases "find (\<lambda>r. row_key r = k') rows") (auto simp: abs_store_def split: if_splits)
qed

lemma abs_enqueue_row:
  "abs_store (enqueue_row t k p rows) = (abs_store rows)(k := life (Enqueued t p) (abs_store rows k))"
proof
  fix k'
  show "abs_store (enqueue_row t k p rows) k' = ((abs_store rows)(k := life (Enqueued t p) (abs_store rows k))) k'"
  proof (cases "k \<in> row_key ` set rows")
    case True
    have "find (\<lambda>r. row_key r = k') (enqueue_row t k p rows) = map_option (\<lambda>r. if row_key r = k \<and> qr_status r \<noteq> QsInProgress
        then r\<lparr>qr_priority := p, qr_status := QsQueued\<rparr> else r) (find (\<lambda>r. row_key r = k') rows)"
      using True by (simp add: enqueue_row_def find_map_key)
    then show ?thesis using True find_key[of k' rows] find_key_None[of k rows]
      by (cases "find (\<lambda>r. row_key r = k') rows") (auto simp: abs_store_def life_of_row_def)
  next
    case False
    then have "find (\<lambda>r. row_key r = k) rows = None" by (simp add: find_key_None)
    then show ?thesis using False
      by (cases "find (\<lambda>r. row_key r = k') rows")
        (auto simp: enqueue_row_def abs_store_def find_append row_key_def life_of_row_def)
  qed
qed

lemma abs_purge:
  assumes "distinct (map row_key rows)"
  shows "abs_store (filter (\<lambda>x. qr_repoFullName x \<noteq> repo) rows) = lives Purged {k. fst (snd k) = repo} (abs_store rows)"
proof
  fix k
  have "find (\<lambda>r. row_key r = k) (filter (\<lambda>x. qr_repoFullName x \<noteq> repo) rows) =
      (if fst (snd k) = repo then None else find (\<lambda>r. row_key r = k) rows)"
    by (induction rows) (auto simp: row_key_def)
  then show "abs_store (filter (\<lambda>x. qr_repoFullName x \<noteq> repo) rows) k = lives Purged {k. fst (snd k) = repo} (abs_store rows) k"
    by (simp add: abs_store_def lives_def)
qed

lemma abs_claim:
  assumes "update_where (\<lambda>r. row_key r = k \<and> qr_status r = QsQueued) (claim_row t) rows = (e, rows')"
  shows "abs_store rows' = (abs_store rows)(k := life (Claimed t) (abs_store rows k))"
  using assms by (rule abs_update) (auto simp: life_of_row_def claim_row_def row_key_def)

lemma claim_returns:
  assumes "distinct (map row_key rows)"
    and "update_where (\<lambda>r. row_key r = k \<and> qr_status r = QsQueued) (claim_row t) rows = (e, rows')"
  shows "(e \<noteq> None) = is_waiting (abs_store rows k)" "e = Some x \<Longrightarrow> entry_key x = k"
proof -
  have e: "e = map_option (queueRowToEntry \<circ> claim_row t) (find (\<lambda>r. row_key r = k \<and> qr_status r = QsQueued) rows)"
    using assms(2) by (simp add: update_where_def)
  have "(find (\<lambda>r. row_key r = k \<and> qr_status r = QsQueued) rows \<noteq> None) = is_waiting (abs_store rows k)"
  proof (cases "find (\<lambda>r. row_key r = k) rows")
    case (Some r)
    then have "\<forall>x \<in> set rows. row_key x = k \<longleftrightarrow> x = r"
      using find_key[OF Some] assms(1) by (auto simp: distinct_map dest: inj_onD)
    then show ?thesis using Some find_key[OF Some]
      by (auto simp: abs_store_def is_waiting_def life_of_row_def find_None_iff)
  next
    case None
    then show ?thesis by (simp add: abs_store_def is_waiting_def) (auto simp: find_None_iff)
  qed
  then show "(e \<noteq> None) = is_waiting (abs_store rows k)" by (simp add: e)
  show "e = Some x \<Longrightarrow> entry_key x = k"
    by (auto simp: e find_Some_iff entry_key_def queueRowToEntry_def claim_row_def row_key_def)
qed

lemma claim_row_key [simp]: "row_key (claim_row t r) = row_key r"
  by (simp add: claim_row_def row_key_def)

lemma keys_claim: "update_where P (claim_row t) rows = (e, rows') \<Longrightarrow> map row_key rows' = map row_key rows"
  by (auto simp: update_where_def)

lemma abs_claim_targets:
  assumes "distinct (map row_key rows)" "claim_targets t ts rows = Inr (claimed, rows')"
  shows "abs_store rows' = lives (Claimed t) (target_keys ts) (abs_store rows)"
    "entry_key ` set claimed = {k \<in> target_keys ts. is_waiting (abs_store rows k)}"
  using assms
proof (induction ts arbitrary: rows claimed)
  case Nil
  {
    case 1 then show ?case by (simp add: lives_def target_keys_def)
  next
    case 2 then show ?case by (simp add: target_keys_def)
  }
next
  case (Cons x ts)
  have step: "\<exists>k e rows1 rest. normalize_key (ct_apiBaseUrl x) (ct_repoFullName x) (ct_identifier x) = Inr k \<and>
      update_where (\<lambda>r. row_key r = k \<and> qr_status r = QsQueued) (claim_row t) rows = (e, rows1) \<and>
      claim_targets t ts rows1 = Inr (rest, rows') \<and> claimed = (case e of None \<Rightarrow> rest | Some y \<Rightarrow> y # rest)"
    if c: "claim_targets t (x # ts) rows = Inr (claimed, rows')" for rows claimed
  proof -
    from c obtain k where k: "normalize_key (ct_apiBaseUrl x) (ct_repoFullName x) (ct_identifier x) = Inr k"
      by (auto simp: and_then_Inr)
    obtain e rows1 where u: "update_where (\<lambda>r. row_key r = k \<and> qr_status r = QsQueued) (claim_row t) rows = (e, rows1)"
      by fastforce
    from c k u show ?thesis by (auto simp: and_then_Inr)
  qed
  {
    case 1
    from step[OF 1(2)] obtain k e rows1 rest where k: "normalize_key (ct_apiBaseUrl x) (ct_repoFullName x) (ct_identifier x) = Inr k"
      and u: "update_where (\<lambda>r. row_key r = k \<and> qr_status r = QsQueued) (claim_row t) rows = (e, rows1)"
      and r: "claim_targets t ts rows1 = Inr (rest, rows')" by blast
    have d: "distinct (map row_key rows1)" using keys_claim[OF u] 1(1) by simp
    have K: "target_keys (x # ts) = insert k (target_keys ts)" using k by (auto simp: target_keys_def)
    show ?case unfolding Cons.IH(1)[OF d r] abs_claim[OF u] K
      by (auto simp: lives_def fun_eq_iff option.map_comp comp_def intro!: option.map_cong0)
  next
    case 2
    from step[OF 2(2)] obtain k e rows1 rest where k: "normalize_key (ct_apiBaseUrl x) (ct_repoFullName x) (ct_identifier x) = Inr k"
      and u: "update_where (\<lambda>r. row_key r = k \<and> qr_status r = QsQueued) (claim_row t) rows = (e, rows1)"
      and r: "claim_targets t ts rows1 = Inr (rest, rows')" and c: "claimed = (case e of None \<Rightarrow> rest | Some y \<Rightarrow> y # rest)" by blast
    have d: "distinct (map row_key rows1)" using keys_claim[OF u] 2(1) by simp
    have K: "target_keys (x # ts) = insert k (target_keys ts)" using k by (auto simp: target_keys_def)
    have w: "is_waiting (abs_store rows1 k') \<longleftrightarrow> k' \<noteq> k \<and> is_waiting (abs_store rows k')" for k'
      unfolding abs_claim[OF u] by (cases "abs_store rows k") (auto simp: is_waiting_def)
    have "entry_key ` set claimed = {k' \<in> {k}. is_waiting (abs_store rows k')} \<union> entry_key ` set rest"
      using claim_returns[OF 2(1) u] unfolding c by (cases e) auto
    then show ?case unfolding Cons.IH(2)[OF d r] K w by blast
  }
qed

lemma abs_dequeue:
  assumes wf: "store_wf rows" and d: "dequeueNext t rows = (Some e, rows')"
  shows "abs_store rows' = (abs_store rows)(entry_key e := life (Claimed t) (abs_store rows (entry_key e)))"
    and "is_waiting (abs_store rows (entry_key e))"
proof -
  from dequeueNext_update[OF d] obtain r where r: "r \<in> set rows" "qr_status r = QsQueued"
    and u: "update_where (\<lambda>x. qr_rowid x = qr_rowid r) (claim_row t) rows = (Some e, rows')" by blast
  have same: "qr_rowid x = qr_rowid r \<longleftrightarrow> row_key x = row_key r \<and> qr_status x = QsQueued" if "x \<in> set rows" for x
    using that r wf rowid_unique[OF wf that r(1)] by (auto simp: store_wf_def distinct_map dest: inj_onD)
  have "find (\<lambda>x. qr_rowid x = qr_rowid r) rows = find (\<lambda>x. row_key x = row_key r \<and> qr_status x = QsQueued) rows"
    using same by (intro find_cong) auto
  moreover have "map (\<lambda>x. if qr_rowid x = qr_rowid r then claim_row t x else x) rows =
      map (\<lambda>x. if row_key x = row_key r \<and> qr_status x = QsQueued then claim_row t x else x) rows"
    using same by (intro map_cong) auto
  ultimately have u': "update_where (\<lambda>x. row_key x = row_key r \<and> qr_status x = QsQueued) (claim_row t) rows = (Some e, rows')"
    unfolding u[symmetric] update_where_def by simp
  have "distinct (map row_key rows)" using wf by (simp add: store_wf_def)
  from claim_returns[OF this u'] have e: "entry_key e = row_key r" and w: "is_waiting (abs_store rows (row_key r))" by simp_all
  show "abs_store rows' = (abs_store rows)(entry_key e := life (Claimed t) (abs_store rows (entry_key e)))"
    unfolding e by (rule abs_claim[OF u'])
  show "is_waiting (abs_store rows (entry_key e))" unfolding e by (rule w)
qed

lemma batchClaim_cases:
  assumes "batchClaim t sel rows = (out, rows')"
  obtains (error) e where "out = Inl e" "rows' = rows"
  | (claimed) ts es where
      "sel (map queueRowToEntry (queue_order (filter (\<lambda>r. qr_status r \<in> {QsQueued, QsInProgress}) rows))) = Inr ts"
      "claim_targets t ts rows = Inr (es, rows')" "out = Inr es"
proof (cases "sel (map queueRowToEntry (queue_order (filter (\<lambda>r. qr_status r \<in> {QsQueued, QsInProgress}) rows)))")
  case (Inl e) then show thesis using assms error[of e] by (simp add: batchClaim_def)
next
  case (Inr ts)
  then show thesis using assms error claimed[OF Inr]
    by (cases "claim_targets t ts rows") (auto simp: batchClaim_def)
qed

text \<open>C29: the store implements the life of an item. On every reachable store each operation leaves every row it does not
  name as it was and does to the named one, on all its columns, what the specification says: enqueueing creates it, or
  refreshes its priority and activates it unless it is in progress; finishing ends its lease and its failure streak;
  releasing (by a failure or as stuck) ends the lease and counts one failure and one requeue; reopening touches only a
  finished item and keeps the counters. A dequeue claims the waiting item it returns, stamps its lease and counts one
  attempt, and a batch claim does so for exactly the waiting items among its targets, or changes nothing when it fails. A
  purge removes the items of its repository. The history reported for a key is that item's.\<close>

theorem store_refines_item_life:
  assumes "queue_step\<^sup>*\<^sup>* [] rows" and "normalize_key a r i = Inr k"
  shows "(\<forall>q. normalizePriority p = Inr q \<longrightarrow>
      (\<exists>e rows2. enqueue t \<lparr>en_repoFullName = r, en_identifier = i, en_priority = p, en_apiBaseUrl = a\<rparr> rows = Inr (e, rows2) \<and>
        abs_store rows2 = lives (Enqueued t q) {k} (abs_store rows)))
    \<and> (\<exists>e rows2. markDone r i a rows = Inr (e, rows2) \<and> abs_store rows2 = lives Finished {k} (abs_store rows))
    \<and> (\<exists>e rows2. markFailed r i a rows = Inr (e, rows2) \<and> reclaimStuckItem r i a rows = Inr (e, rows2) \<and>
      abs_store rows2 = lives Released {k} (abs_store rows))
    \<and> (\<exists>e rows2. requeueItem r i a rows = Inr (e, rows2) \<and> abs_store rows2 = lives Reopened {k} (abs_store rows))
    \<and> (\<exists>n rows2. purgeQueueByRepo r rows = Inr (n, rows2) \<and>
      abs_store rows2 = lives Purged {k'. fst (snd k') = fst (snd k)} (abs_store rows))
    \<and> (dequeueNext t rows = (None, rows3) \<longrightarrow> rows3 = rows)
    \<and> (dequeueNext t rows = (Some e2, rows3) \<longrightarrow> is_waiting (abs_store rows (entry_key e2)) \<and>
      abs_store rows3 = lives (Claimed t) {entry_key e2} (abs_store rows))
    \<and> (batchClaim t sel rows = (Inl err, rows4) \<longrightarrow> rows4 = rows)
    \<and> (batchClaim t sel rows = (Inr claimed, rows4) \<longrightarrow>
      (\<exists>ts. sel (map queueRowToEntry (queue_order (filter (\<lambda>r. qr_status r \<in> {QsQueued, QsInProgress}) rows))) = Inr ts \<and>
        abs_store rows4 = lives (Claimed t) (target_keys ts) (abs_store rows) \<and>
        entry_key ` set claimed = {k' \<in> target_keys ts. is_waiting (abs_store rows k')}))
    \<and> getAttemptHistory r i a rows = Inr (case abs_store rows k of
        None \<Rightarrow> \<lparr>qh_attempts = 0, qh_consecutiveFailures = 0, qh_reenqueues = 0, qh_reachedDone = False\<rparr>
      | Some l \<Rightarrow> \<lparr>qh_attempts = il_attempts l, qh_consecutiveFailures = il_failures l,
          qh_reenqueues = il_reenqueues l, qh_reachedDone = (il_status l = QsDone)\<rparr>)"
  (is "?enq \<and> ?done \<and> ?fail \<and> ?req \<and> ?purge \<and> ?none \<and> ?deq \<and> ?keep \<and> ?batch \<and> ?hist")
proof (intro conjI)
  have wf: "store_wf rows" using queue_steps_wf[OF assms(1)] by (simp add: store_wf_def)
  then have keys: "distinct (map row_key rows)" by (simp add: store_wf_def)
  have one: "(m(k := life ev (m k))) = lives ev {k} m" for m ev k by (auto simp: lives_def)
  show ?enq using assms(2) by (auto simp: enqueue_def Let_def abs_enqueue_row one)
  show ?none using dequeueNext_waiting(1)[OF wf, of _ _ t]
    by (cases "waiting rows") (auto simp: dequeueNext_def waiting_def)
  show ?deq using abs_dequeue[OF wf] by (metis one)
  show ?keep by (auto elim: batchClaim_cases)
  show ?batch by (auto elim!: batchClaim_cases simp: abs_claim_targets[OF keys])
  show ?hist using assms(2)
    by (cases "find (\<lambda>r. row_key r = k) rows") (simp_all add: getAttemptHistory_def abs_store_def life_of_row_def)
  have "normalizeQueueRepo r = Inr (fst (snd k))" using assms(2) by (auto simp: normalize_key_def and_then_Inr)
  then show ?purge using abs_purge[OF keys] by (simp add: purgeQueueByRepo_def Let_def)
  obtain e rows2 where u: "update_where (\<lambda>r. row_key r = k \<and> qr_status r \<noteq> QsDone)
       (\<lambda>r. r\<lparr>qr_status := QsDone, qr_leasedAt := None, qr_failures := 0\<rparr>) rows = (e, rows2)" by fastforce
  then have "abs_store rows2 = (abs_store rows)(k := life Finished (abs_store rows k))"
    by (rule abs_update) (auto simp: life_of_row_def row_key_def)
  then show ?done unfolding one using u assms(2) by (simp add: markDone_def)
  obtain e rows2 where u: "update_where (\<lambda>r. row_key r = k \<and> qr_status r = QsInProgress) release_row rows = (e, rows2)"
    by fastforce
  then have "abs_store rows2 = (abs_store rows)(k := life Released (abs_store rows k))"
    by (rule abs_update) (auto simp: life_of_row_def release_row_def row_key_def)
  then show ?fail unfolding one using u assms(2) by (simp add: markFailed_def reclaimStuckItem_def)
  obtain e rows2 where u: "update_where (\<lambda>r. row_key r = k \<and> qr_status r = QsDone)
       (\<lambda>r. r\<lparr>qr_status := QsQueued, qr_leasedAt := None\<rparr>) rows = (e, rows2)" by fastforce
  then have "abs_store rows2 = (abs_store rows)(k := life Reopened (abs_store rows k))"
    by (rule abs_update) (auto simp: life_of_row_def row_key_def)
  then show ?req unfolding one using u assms(2) by (simp add: requeueItem_def)
qed


theorem store_refines_item_life_witness:
  "\<exists>e rows2. markDone (JStr ''o/r'') (JStr ''a'') JUndef [sample_row 1 ''a'' 1, sample_row 2 ''b'' 2] = Inr (e, rows2) \<and>
     map_option il_status (abs_store rows2 (DEFAULT_API_BASE_URL, ''o/r'', ''a'')) = Some QsDone"
proof -
  have "abs_store [sample_row 1 ''a'' 1, sample_row 2 ''b'' 2] (DEFAULT_API_BASE_URL, ''o/r'', ''a'') =
      Some (life_of_row (sample_row 1 ''a'' 1))" "qr_status (sample_row 1 ''a'' 1) = QsQueued"
    by (simp_all add: abs_store_def sample_row_def row_key_def)
  moreover obtain e rows2 where
    "markDone (JStr ''o/r'') (JStr ''a'') JUndef [sample_row 1 ''a'' 1, sample_row 2 ''b'' 2] = Inr (e, rows2)"
    "abs_store rows2 = lives Finished {(DEFAULT_API_BASE_URL, ''o/r'', ''a'')} (abs_store [sample_row 1 ''a'' 1, sample_row 2 ''b'' 2])"
    using store_refines_item_life[OF sample_rows sample_key(1)] by meson
  ultimately show ?thesis by (intro exI[of _ e] exI[of _ rows2]) (simp add: lives_def life_of_row_def)
qed


section \<open>Lemmas: the sweep\<close>

lemma reclaim_known:
  assumes "store_wf rows" "r \<in> set rows"
  shows "reclaimStuckItem (JStr (ql_repoFullName (rowToLeaseEntry r))) (JStr (ql_identifier (rowToLeaseEntry r)))
      (JStr (ql_apiBaseUrl (rowToLeaseEntry r))) rows =
    Inr (update_where (\<lambda>x. row_key x = row_key r \<and> qr_status x = QsInProgress) release_row rows)"
proof -
  have "key_wf (row_key r)" using assms by (auto simp: store_wf_def list_all_iff queue_row_wf_def)
  then have "normalize_key (JStr (qr_apiBaseUrl r)) (JStr (qr_repoFullName r)) (JStr (qr_identifier r)) = Inr (row_key r)"
    using normalize_key_fix by (simp add: row_key_def)
  then show ?thesis by (simp add: reclaimStuckItem_def rowToLeaseEntry_def)
qed


interpretation queue_lease: lease_sweep row_key "\<lambda>r. qr_status r = QsInProgress" release_row
  by unfold_locales (simp_all add: release_row_def)

lemma reclaim_all_rows:
  assumes "store_wf rows" "set (map row_key rs) \<subseteq> set (map row_key rows)"
  shows "\<exists>es. reclaim_all (map rowToLeaseEntry rs) rows =
    (Inr es, map (\<lambda>r. if row_key r \<in> row_key ` set rs \<and> qr_status r = QsInProgress then release_row r else r) rows)"
  using assms
proof (induction rs arbitrary: rows)
  case (Cons r rs)
  let ?g = "\<lambda>x. if row_key x = row_key r \<and> qr_status x = QsInProgress then release_row x else x"
  obtain r' where r': "r' \<in> set rows" "row_key r' = row_key r" using Cons.prems(2) by auto
  have step: "reclaimStuckItem (JStr (ql_repoFullName (rowToLeaseEntry r))) (JStr (ql_identifier (rowToLeaseEntry r)))
      (JStr (ql_apiBaseUrl (rowToLeaseEntry r))) rows =
      Inr (update_where (\<lambda>x. row_key x = row_key r \<and> qr_status x = QsInProgress) release_row rows)"
    using reclaim_known[OF Cons.prems(1) r'(1)] r'(2) by (simp add: rowToLeaseEntry_def row_key_def)
  obtain e where u: "update_where (\<lambda>x. row_key x = row_key r \<and> qr_status x = QsInProgress) release_row rows =
      (e, map ?g rows)" by (simp add: update_where_def)
  have wf: "store_wf (map ?g rows)" by (rule update_where_wf[OF Cons.prems(1) u]) (auto intro: release_row_wf)
  have "set (map row_key (map ?g rows)) = set (map row_key rows)"
    by (simp only: queue_lease.free_keys)
  then obtain es where "reclaim_all (map rowToLeaseEntry rs) (map ?g rows) =
      (Inr es, map (\<lambda>x. if row_key x \<in> row_key ` set (r # rs) \<and> qr_status x = QsInProgress then release_row x else x) rows)"
    using Cons.IH[OF wf] Cons.prems(2) unfolding queue_lease.free_more by fastforce
  then show ?case using step u by simp
qed simp

lemma sweep_rows:
  assumes wf: "store_wf rows" and "isFinite nowMs" "\<not> num_lt nowMs (Fin 0)" "isFinite maxMs" "\<not> num_lt maxMs (Fin 0)"
  shows "\<exists>es. sweepStuckItems parse_date nowMs maxMs rows =
    (Inr es, map (\<lambda>r. if is_stuck parse_date nowMs maxMs (rowToLeaseEntry r) then release_row r else r) rows)"
proof -
  let ?S = "\<lambda>r. is_stuck parse_date nowMs maxMs (rowToLeaseEntry r)"
  let ?rs = "filter ?S (queue_order (filter (\<lambda>r. qr_status r = QsInProgress) rows))"
  have st: "?S r \<Longrightarrow> qr_status r = QsInProgress" for r by (simp add: is_stuck_def rowToLeaseEntry_def)
  have set: "set ?rs = {r \<in> set rows. ?S r}" using st by auto
  have "filter (is_stuck parse_date nowMs maxMs) (listInProgress rows) = map rowToLeaseEntry ?rs"
    by (simp add: listInProgress_def filter_map comp_def)
  then have "sweepStuckItems parse_date nowMs maxMs rows = reclaim_all (map rowToLeaseEntry ?rs) rows"
    using assms(2-) by (simp add: sweepStuckItems_def findStuckItems_def)
  moreover have "set (map row_key ?rs) \<subseteq> set (map row_key rows)" by auto
  ultimately obtain es where "sweepStuckItems parse_date nowMs maxMs rows =
      (Inr es, map (\<lambda>r. if row_key r \<in> row_key ` set ?rs \<and> qr_status r = QsInProgress then release_row r else r) rows)"
    using reclaim_all_rows[OF wf, of ?rs] by auto
  moreover have "distinct (map row_key rows)" using wf by (simp add: store_wf_def)
  from queue_lease.free_exactly[OF this st set] have
    "map (\<lambda>r. if row_key r \<in> row_key ` set ?rs \<and> qr_status r = QsInProgress then release_row r else r) rows =
      map (\<lambda>r. if ?S r then release_row r else r) rows" .
  ultimately show ?thesis by auto
qed

text \<open>a sweep never leaves an item stuck and never touches another. With a finite, non-negative clock reading and
  bound it always returns; every item whose lease is older than the bound (or cannot be read) goes back to the queue
  with one failure and one requeue counted, every other row is left as it was, and afterwards each item in progress
  holds a lease within the bound.\<close>

theorem sweep_frees_exactly_the_stuck:
  assumes "queue_step\<^sup>*\<^sup>* [] rows"
    and "isFinite nowMs" "\<not> num_lt nowMs (Fin 0)" "isFinite maxMs" "\<not> num_lt maxMs (Fin 0)"
  shows "\<exists>es rows'. sweepStuckItems parse_date nowMs maxMs rows = (Inr es, rows') \<and>
    rows' = map (\<lambda>r. if is_stuck parse_date nowMs maxMs (rowToLeaseEntry r) then release_row r else r) rows \<and>
    (\<forall>r \<in> set rows'. qr_status r = QsInProgress \<longrightarrow>
      (\<exists>t q. qr_leasedAt r = Some t \<and> parse_date t = Fin q \<and> num_le (num_sub nowMs (Fin q)) maxMs))"
proof -
  let ?g = "\<lambda>r. if is_stuck parse_date nowMs maxMs (rowToLeaseEntry r) then release_row r else r"
  have wf: "store_wf rows" using queue_steps_wf[OF assms(1)] by (simp add: store_wf_def)
  have "\<exists>t q. qr_leasedAt r = Some t \<and> parse_date t = Fin q \<and> num_le (num_sub nowMs (Fin q)) maxMs"
    if r: "r \<in> set (map ?g rows)" and ip: "qr_status r = QsInProgress" for r
  proof -
    from r ip have "r \<in> set rows" and ns: "\<not> is_stuck parse_date nowMs maxMs (rowToLeaseEntry r)"
      by (auto simp: release_row_def split: if_splits)
    then obtain t where t: "qr_leasedAt r = Some t"
      using wf ip by (auto simp: store_wf_def list_all_iff queue_row_wf_def)
    with ns ip obtain q where q: "parse_date t = Fin q" "\<not> num_lt maxMs (num_sub nowMs (Fin q))"
      by (auto simp: is_stuck_def leaseAgeMs_def rowToLeaseEntry_def Let_def isFinite_iff split: if_splits)
    obtain n m where "nowMs = Fin n" "maxMs = Fin m" using assms(2,4) by (auto simp: isFinite_iff)
    then have "num_le (num_sub nowMs (Fin q)) maxMs" using q(2) num_not_lt by (simp add: num_of_rat_def)
    with t q(1) show ?thesis by blast
  qed
  then show ?thesis using sweep_rows[OF wf assms(2-), of parse_date] by blast
qed

theorem sweep_frees_exactly_the_stuck_witness:
  "\<exists>es rows'. sweepStuckItems (\<lambda>_. Fin 0) (Fin 5) (Fin 3)
      (snd (dequeueNext ''t'' [sample_row 1 ''a'' 1, sample_row 2 ''b'' 2])) = (Inr es, rows') \<and>
    (\<forall>r \<in> set rows'. qr_status r \<noteq> QsInProgress)"
proof -
  let ?rows = "[sample_row 1 ''a'' 1, sample_row 2 ''b'' 2]"
  have "queue_step\<^sup>*\<^sup>* [] (snd (dequeueNext ''t'' ?rows))"
    using sample_rows q_dequeue[of "''t''" ?rows] by (metis prod.collapse rtranclp.rtrancl_into_rtrancl)
  from sweep_frees_exactly_the_stuck[OF this, of "Fin 5" "Fin 3" "\<lambda>_. Fin 0"] show ?thesis
    by (auto simp: num_of_rat_small)
qed

end
