(* ===== verification/Portfolio_Queue.thy ===== *)
theory Portfolio_Queue
  imports Js_Base "HOL-Library.Multiset"
begin

text \<open>
  The portfolio queue (\<open>packages/loopover-engine/src/portfolio/queue.ts\<close>): the miner's cross-repository work queue
  with global and per-repository limits on work in progress, and the deterministic selection of the next
  batch. Buckets of the selection are identified by their repository name, which is the key of the
  map that holds them; the selection loop is a terminating function on them.
\<close>

section \<open>The queue\<close>

datatype PortfolioQueueItemState = Queued | InProgress

record PortfolioQueueItem =
  qi_id :: string
  qi_repoFullName :: string
  qi_state :: PortfolioQueueItemState

record PortfolioQueueBucket =
  qb_repoFullName :: string
  qb_items :: "PortfolioQueueItem list"

record PortfolioQueue =
  pq_buckets :: "PortfolioQueueBucket list"

record PortfolioCaps =
  pc_globalWipCap :: jsnum
  pc_perRepoWipCap :: jsnum

record QueueSelectionBucket =
  sb_repoFullName :: string
  sb_activeCount :: nat
  sb_queuedItems :: "PortfolioQueueItem list"
  sb_selectedCount :: nat

definition cleanId :: "string \<Rightarrow> string" where
  "cleanId value = trim value"

definition cleanRepoFullName :: "string \<Rightarrow> string" where
  "cleanRepoFullName value = toLowerCase (trim value)"

definition normalizeState :: "PortfolioQueueItemState \<Rightarrow> PortfolioQueueItemState" where
  "normalizeState value = (if value = InProgress then InProgress else Queued)"

definition normalizeItem :: "PortfolioQueueItem \<Rightarrow> PortfolioQueueItem" where
  "normalizeItem item =
     \<lparr>qi_id = cleanId (qi_id item), qi_repoFullName = cleanRepoFullName (qi_repoFullName item),
      qi_state = normalizeState (qi_state item)\<rparr>"

text \<open>The module's own \<open>finiteNonNegativeInt\<close>: positive infinity means uncapped and is kept.\<close>

definition wipCapInt :: "jsnum \<Rightarrow> jsnum" where
  "wipCapInt value =
     (if value = PInf then PInf
      else if \<not> isFinite value then Fin 0
      else math_max (Fin 0) (math_trunc value))"

definition normalizeCaps :: "PortfolioCaps \<Rightarrow> PortfolioCaps" where
  "normalizeCaps caps = \<lparr>pc_globalWipCap = wipCapInt (pc_globalWipCap caps),
     pc_perRepoWipCap = wipCapInt (pc_perRepoWipCap caps)\<rparr>"

definition isActiveItem :: "PortfolioQueueItem \<Rightarrow> bool" where
  "isActiveItem item \<longleftrightarrow> qi_state item = InProgress"

definition isQueuedItem :: "PortfolioQueueItem \<Rightarrow> bool" where
  "isQueuedItem item \<longleftrightarrow> qi_state item = Queued"

definition projectedLoad :: "QueueSelectionBucket \<Rightarrow> nat" where
  "projectedLoad bucket = sb_activeCount bucket + sb_selectedCount bucket"

definition lighter :: "QueueSelectionBucket \<Rightarrow> QueueSelectionBucket \<Rightarrow> QueueSelectionBucket" where
  "lighter winner candidate = (if projectedLoad candidate < projectedLoad winner then candidate else winner)"

definition eligibleBuckets :: "QueueSelectionBucket list \<Rightarrow> QueueSelectionBucket list" where
  "eligibleBuckets buckets = filter (\<lambda>b. sb_selectedCount b < length (sb_queuedItems b)) buckets"

definition candidateBuckets ::
  "QueueSelectionBucket list \<Rightarrow> string option \<Rightarrow> QueueSelectionBucket list" where
  "candidateBuckets eligible lastRepoFullName =
     (let alternates = (case lastRepoFullName of None \<Rightarrow> eligible
            | Some r \<Rightarrow> filter (\<lambda>b. sb_repoFullName b \<noteq> r) eligible)
      in if alternates \<noteq> [] then alternates else eligible)"

definition pickNextBucket ::
  "QueueSelectionBucket list \<Rightarrow> string option \<Rightarrow> QueueSelectionBucket option" where
  "pickNextBucket buckets lastRepoFullName =
     (let eligible = eligibleBuckets buckets in
      if eligible = [] then None
      else let candidates = candidateBuckets eligible lastRepoFullName
           in Some (foldl lighter (hd candidates) (tl candidates)))"

definition queueHasItem :: "PortfolioQueue \<Rightarrow> string \<Rightarrow> bool" where
  "queueHasItem queue itemId =
     list_ex (\<lambda>bucket. list_ex (\<lambda>item. cleanId (qi_id item) = itemId) (qb_items bucket)) (pq_buckets queue)"

text \<open>The first bucket of the item's repository gets it appended; without one a bucket is added at the end.\<close>

fun append_to_bucket :: "PortfolioQueueItem \<Rightarrow> PortfolioQueueBucket list \<Rightarrow> PortfolioQueueBucket list" where
  "append_to_bucket item [] = [\<lparr>qb_repoFullName = qi_repoFullName item, qb_items = [item]\<rparr>]"
| "append_to_bucket item (b # bs) =
     (if cleanRepoFullName (qb_repoFullName b) = qi_repoFullName item
      then \<lparr>qb_repoFullName = qi_repoFullName item, qb_items = map normalizeItem (qb_items b) @ [item]\<rparr> # bs
      else b # append_to_bucket item bs)"

definition enqueueItem :: "PortfolioQueue \<Rightarrow> PortfolioQueueItem \<Rightarrow> PortfolioQueue" where
  "enqueueItem queue item =
     (let normalizedItem = normalizeItem item in
      if qi_id normalizedItem = [] \<or> qi_repoFullName normalizedItem = []
         \<or> queueHasItem queue (qi_id normalizedItem)
      then queue
      else \<lparr>pq_buckets = append_to_bucket normalizedItem (pq_buckets queue)\<rparr>)"

definition dequeueItem :: "PortfolioQueue \<Rightarrow> string \<Rightarrow> PortfolioQueue" where
  "dequeueItem queue itemId =
     (let targetId = cleanId itemId in
      if targetId = [] then queue
      else
        let removed = queueHasItem queue targetId;
            buckets = concat (map (\<lambda>bucket.
              let items = filter (\<lambda>item. cleanId (qi_id item) \<noteq> targetId) (qb_items bucket) in
              if items \<noteq> [] then [bucket\<lparr>qb_items := items\<rparr>] else []) (pq_buckets queue))
        in if removed then \<lparr>pq_buckets = buckets\<rparr> else queue)"

text \<open>One item added to the selection map: an existing entry is updated in place, a new one goes last.\<close>

fun add_to_selection :: "PortfolioQueueItem \<Rightarrow> QueueSelectionBucket list \<Rightarrow> QueueSelectionBucket list" where
  "add_to_selection item [] =
     [\<lparr>sb_repoFullName = qi_repoFullName item,
       sb_activeCount = (if isActiveItem item then 1 else 0),
       sb_queuedItems = (if isQueuedItem item then [item] else []),
       sb_selectedCount = 0\<rparr>]"
| "add_to_selection item (b # bs) =
     (if sb_repoFullName b = qi_repoFullName item
      then (if isActiveItem item then b\<lparr>sb_activeCount := sb_activeCount b + 1\<rparr>
            else b\<lparr>sb_queuedItems := sb_queuedItems b @ [item]\<rparr>) # bs
      else b # add_to_selection item bs)"

definition selectionBucketsByRepo :: "PortfolioQueue \<Rightarrow> QueueSelectionBucket list" where
  "selectionBucketsByRepo queue =
     foldl (\<lambda>bs item. add_to_selection item bs) []
       (concat (map (\<lambda>bucket. map normalizeItem (qb_items bucket)) (pq_buckets queue)))"

text \<open>\<open>items.slice(0, n)\<close> for a positive \<open>n\<close>.\<close>

fun slice_to :: "jsnum \<Rightarrow> 'a list \<Rightarrow> 'a list" where
  "slice_to (Fin q) xs = take (nat \<lfloor>q\<rfloor>) xs"
| "slice_to PInf xs = xs"
| "slice_to _ xs = []"

definition capSelection :: "jsnum \<Rightarrow> QueueSelectionBucket \<Rightarrow> QueueSelectionBucket" where
  "capSelection perRepoWipCap bucket =
     (let remaining = num_sub perRepoWipCap (num_of_nat (sb_activeCount bucket)) in
      bucket\<lparr>sb_queuedItems :=
        (if num_lt (Fin 0) remaining then slice_to remaining (sb_queuedItems bucket) else [])\<rparr>)"

definition take_from :: "string \<Rightarrow> QueueSelectionBucket list \<Rightarrow> QueueSelectionBucket list" where
  "take_from repo bs =
     map (\<lambda>b. if sb_repoFullName b = repo then b\<lparr>sb_selectedCount := sb_selectedCount b + 1\<rparr> else b) bs"

definition room :: "QueueSelectionBucket list \<Rightarrow> nat" where
  "room bs = (\<Sum>b\<leftarrow>bs. length (sb_queuedItems b) - sb_selectedCount b)"

lemma foldl_lighter_mem: "foldl lighter b bs \<in> set (b # bs)"
  by (induction bs arbitrary: b) (auto simp: lighter_def)

lemma candidateBuckets_ne: "eligible \<noteq> [] \<Longrightarrow> candidateBuckets eligible prev \<noteq> []"
  by (simp add: candidateBuckets_def Let_def)

lemma candidateBuckets_sub: "set (candidateBuckets eligible prev) \<subseteq> set eligible"
  by (auto simp: candidateBuckets_def Let_def split: option.splits)

lemma pickNextBucket_candidate:
  assumes "pickNextBucket bs prev = Some b"
  shows "b \<in> set (candidateBuckets (eligibleBuckets bs) prev)"
proof -
  have "eligibleBuckets bs \<noteq> []" using assms by (auto simp: pickNextBucket_def Let_def)
  then have "candidateBuckets (eligibleBuckets bs) prev \<noteq> []" by (rule candidateBuckets_ne)
  with assms show ?thesis
    using foldl_lighter_mem[of "hd (candidateBuckets (eligibleBuckets bs) prev)"
        "tl (candidateBuckets (eligibleBuckets bs) prev)"]
    by (auto simp: pickNextBucket_def Let_def split: if_splits)
qed

lemma pickNextBucket_eligible:
  assumes "pickNextBucket bs prev = Some b"
  shows "b \<in> set bs" "sb_selectedCount b < length (sb_queuedItems b)"
  using subsetD[OF candidateBuckets_sub pickNextBucket_candidate[OF assms]]
  by (auto simp: eligibleBuckets_def)

lemma pickNextBucket_None: "pickNextBucket bs prev = None \<longleftrightarrow> eligibleBuckets bs = []"
  by (simp add: pickNextBucket_def Let_def)

lemma pickNextBucket_repeat:
  assumes "pickNextBucket bs (Some (sb_repoFullName b)) = Some b" "c \<in> set (eligibleBuckets bs)"
  shows "sb_repoFullName c = sb_repoFullName b"
proof (rule ccontr)
  let ?alt = "filter (\<lambda>c. sb_repoFullName c \<noteq> sb_repoFullName b) (eligibleBuckets bs)"
  assume "sb_repoFullName c \<noteq> sb_repoFullName b"
  with assms(2) have "?alt \<noteq> []" by (auto simp: filter_empty_conv)
  then have "candidateBuckets (eligibleBuckets bs) (Some (sb_repoFullName b)) = ?alt"
    unfolding candidateBuckets_def by simp
  with pickNextBucket_candidate[OF assms(1)] show False by simp
qed

lemma room_take_from_less:
  assumes "b \<in> set bs" "sb_selectedCount b < length (sb_queuedItems b)"
  shows "room (take_from (sb_repoFullName b) bs) < room bs"
  unfolding room_def take_from_def map_map comp_def
  by (rule sum_list_less[of _ _ _ b]) (use assms in auto)

function select_loop ::
  "jsnum \<Rightarrow> nat \<Rightarrow> string option \<Rightarrow> QueueSelectionBucket list \<Rightarrow> PortfolioQueueItem list" where
  "select_loop slots selected lastRepo buckets =
     (if \<not> num_lt (num_of_nat selected) slots then []
      else (case pickNextBucket buckets lastRepo of
              None \<Rightarrow> []
            | Some b \<Rightarrow> (sb_queuedItems b ! sb_selectedCount b) #
                select_loop slots (selected + 1) (Some (sb_repoFullName b))
                  (take_from (sb_repoFullName b) buckets)))"
  by pat_completeness auto
termination
  by (relation "measure (\<lambda>(slots, selected, lastRepo, buckets). room buckets)")
    (auto intro: room_take_from_less dest: pickNextBucket_eligible)

declare select_loop.simps [simp del]

definition nextEligibleItems :: "PortfolioQueue \<Rightarrow> PortfolioCaps \<Rightarrow> PortfolioQueueItem list" where
  "nextEligibleItems queue caps =
     (let normalizedCaps = normalizeCaps caps in
      if pc_globalWipCap normalizedCaps = Fin 0 \<or> pc_perRepoWipCap normalizedCaps = Fin 0 then []
      else
        let selectionBuckets = map (capSelection (pc_perRepoWipCap normalizedCaps))
              (selectionBucketsByRepo queue);
            totalActiveCount = (\<Sum>b\<leftarrow>selectionBuckets. sb_activeCount b);
            remainingGlobalSlots = num_sub (pc_globalWipCap normalizedCaps) (num_of_nat totalActiveCount)
        in if num_le remainingGlobalSlots (Fin 0) then []
           else select_loop remainingGlobalSlots 0 None selectionBuckets)"


section \<open>What the selection map holds\<close>

definition all_items :: "PortfolioQueue \<Rightarrow> PortfolioQueueItem list" where
  "all_items q = concat (map (\<lambda>b. map normalizeItem (qb_items b)) (pq_buckets q))"

definition queued_of :: "string \<Rightarrow> PortfolioQueueItem list \<Rightarrow> PortfolioQueueItem list" where
  "queued_of r items = filter (\<lambda>i. qi_repoFullName i = r \<and> isQueuedItem i) items"

definition active_of :: "string \<Rightarrow> PortfolioQueueItem list \<Rightarrow> nat" where
  "active_of r items = length (filter (\<lambda>i. qi_repoFullName i = r \<and> isActiveItem i) items)"

lemma queued_not_active: "isQueuedItem i \<longleftrightarrow> \<not> isActiveItem i"
  by (cases "qi_state i") (simp_all add: isQueuedItem_def isActiveItem_def)

definition add_item :: "PortfolioQueueItem \<Rightarrow> QueueSelectionBucket \<Rightarrow> QueueSelectionBucket" where
  "add_item x b = (if isActiveItem x then b\<lparr>sb_activeCount := sb_activeCount b + 1\<rparr>
     else b\<lparr>sb_queuedItems := sb_queuedItems b @ [x]\<rparr>)"

lemma add_to_selection_repos:
  "sb_repoFullName ` set (add_to_selection x bs) = insert (qi_repoFullName x) (sb_repoFullName ` set bs)"
  by (induction x bs rule: add_to_selection.induct) auto

lemma add_to_selection_distinct:
  "distinct (map sb_repoFullName bs) \<Longrightarrow> distinct (map sb_repoFullName (add_to_selection x bs))"
proof (induction x bs rule: add_to_selection.induct)
  case (2 x b bs)
  then show ?case using add_to_selection_repos[of x bs] by (auto simp: image_iff)
qed simp

lemma add_to_selection_mem:
  assumes "distinct (map sb_repoFullName bs)" "b' \<in> set (add_to_selection x bs)"
  shows "b' \<in> set bs \<and> sb_repoFullName b' \<noteq> qi_repoFullName x \<or>
    (\<exists>b \<in> set bs. sb_repoFullName b = qi_repoFullName x \<and> b' = add_item x b) \<or>
    qi_repoFullName x \<notin> sb_repoFullName ` set bs \<and> b' = hd (add_to_selection x [])"
  using assms
proof (induction x bs rule: add_to_selection.induct)
  case (2 x b bs)
  show ?case
  proof (cases "sb_repoFullName b = qi_repoFullName x")
    case True
    with 2 show ?thesis by (auto simp: add_item_def image_iff split: if_splits)
  next
    case False
    with 2 show ?thesis by auto
  qed
qed simp

definition selection_of :: "PortfolioQueueItem list \<Rightarrow> QueueSelectionBucket list \<Rightarrow> bool" where
  "selection_of items bs \<longleftrightarrow>
     distinct (map sb_repoFullName bs) \<and> sb_repoFullName ` set bs = qi_repoFullName ` set items \<and>
     (\<forall>b \<in> set bs. sb_selectedCount b = 0 \<and> sb_activeCount b = active_of (sb_repoFullName b) items \<and>
        sb_queuedItems b = queued_of (sb_repoFullName b) items)"

lemma selection_of_step:
  assumes "selection_of items bs"
  shows "selection_of (items @ [x]) (add_to_selection x bs)"
proof -
  let ?r = "qi_repoFullName x"
  have d: "distinct (map sb_repoFullName bs)" using assms by (simp add: selection_of_def)
  have mem: "sb_selectedCount b' = 0 \<and> sb_activeCount b' = active_of (sb_repoFullName b') (items @ [x]) \<and>
      sb_queuedItems b' = queued_of (sb_repoFullName b') (items @ [x])"
    if b': "b' \<in> set (add_to_selection x bs)" for b'
    using add_to_selection_mem[OF d b']
  proof (elim disjE conjE bexE)
    assume "b' \<in> set bs" "sb_repoFullName b' \<noteq> ?r"
    with assms show ?thesis by (simp add: selection_of_def active_of_def queued_of_def)
  next
    fix b assume "b \<in> set bs" "sb_repoFullName b = ?r" "b' = add_item x b"
    with assms show ?thesis
      by (auto simp: selection_of_def active_of_def queued_of_def add_item_def queued_not_active)
  next
    assume "?r \<notin> sb_repoFullName ` set bs" and b: "b' = hd (add_to_selection x [])"
    then have "?r \<notin> qi_repoFullName ` set items" using assms by (simp add: selection_of_def)
    then have "active_of ?r items = 0" "queued_of ?r items = []"
      by (auto simp: active_of_def queued_of_def filter_empty_conv image_iff)
    with b show ?thesis by (simp add: active_of_def queued_of_def queued_not_active)
  qed
  then show ?thesis
    using assms add_to_selection_distinct[OF d] add_to_selection_repos[of x bs]
    by (auto simp: selection_of_def)
qed

lemma selectionBuckets_ok: "selection_of (all_items q) (selectionBucketsByRepo q)"
proof -
  have "selection_of items (foldl (\<lambda>bs i. add_to_selection i bs) [] items)" for items
  proof (induction items rule: rev_induct)
    case (snoc x xs)
    then show ?case using selection_of_step by simp
  qed (simp add: selection_of_def)
  then show ?thesis by (simp add: selectionBucketsByRepo_def all_items_def)
qed



section \<open>The selection loop\<close>

definition bucket_fine :: "QueueSelectionBucket \<Rightarrow> bool" where
  "bucket_fine b \<longleftrightarrow> sb_selectedCount b \<le> length (sb_queuedItems b) \<and>
     (\<forall>i \<in> set (sb_queuedItems b). qi_repoFullName i = sb_repoFullName b)"

definition buckets_fine :: "QueueSelectionBucket list \<Rightarrow> bool" where
  "buckets_fine bs \<longleftrightarrow> distinct (map sb_repoFullName bs) \<and> (\<forall>b \<in> set bs. bucket_fine b)"

lemma bucket_unique:
  "distinct (map sb_repoFullName bs) \<Longrightarrow> b \<in> set bs \<Longrightarrow> c \<in> set bs \<Longrightarrow>
     sb_repoFullName b = sb_repoFullName c \<Longrightarrow> b = c"
  by (auto simp: distinct_map dest: inj_onD)

lemma take_from_repos [simp]: "map sb_repoFullName (take_from r bs) = map sb_repoFullName bs"
  by (simp add: take_from_def)

lemma take_from_other: "sb_repoFullName c \<noteq> r \<Longrightarrow> c \<in> set bs \<Longrightarrow> c \<in> set (take_from r bs)"
  by (force simp: take_from_def)

lemma take_from_picked:
  "b \<in> set bs \<Longrightarrow> b\<lparr>sb_selectedCount := sb_selectedCount b + 1\<rparr> \<in> set (take_from (sb_repoFullName b) bs)"
  by (force simp: take_from_def)

lemma buckets_fine_take_from:
  assumes "buckets_fine bs" "b \<in> set bs" "sb_selectedCount b < length (sb_queuedItems b)"
  shows "buckets_fine (take_from (sb_repoFullName b) bs)"
proof -
  have "bucket_fine c" if c: "c \<in> set (take_from (sb_repoFullName b) bs)" for c
  proof -
    from c obtain c0 where c0: "c0 \<in> set bs" "c = (if sb_repoFullName c0 = sb_repoFullName b
        then c0\<lparr>sb_selectedCount := sb_selectedCount c0 + 1\<rparr> else c0)"
      by (auto simp: take_from_def)
    moreover have "c0 = b" if "sb_repoFullName c0 = sb_repoFullName b"
      using assms(1,2) c0(1) that by (intro bucket_unique[of bs]) (auto simp: buckets_fine_def)
    ultimately show ?thesis using assms by (auto simp: buckets_fine_def bucket_fine_def)
  qed
  then show ?thesis using assms(1) by (simp add: buckets_fine_def)
qed

lemma select_loop_step:
  assumes "buckets_fine bs" "pickNextBucket bs prev = Some b"
  shows "buckets_fine (take_from (sb_repoFullName b) bs)"
    and "qi_repoFullName (sb_queuedItems b ! sb_selectedCount b) = sb_repoFullName b"
proof -
  note el = pickNextBucket_eligible[OF assms(2)]
  show "buckets_fine (take_from (sb_repoFullName b) bs)"
    using assms(1) el by (rule buckets_fine_take_from)
  show "qi_repoFullName (sb_queuedItems b ! sb_selectedCount b) = sb_repoFullName b"
    using assms(1) el by (simp add: buckets_fine_def bucket_fine_def)
qed

lemma select_loop_Nil:
  "\<not> num_lt (num_of_nat n) slots \<or> pickNextBucket bs prev = None \<Longrightarrow> select_loop slots n prev bs = []"
  by (subst select_loop.simps) auto

lemma select_loop_Cons:
  "num_lt (num_of_nat n) slots \<Longrightarrow> pickNextBucket bs prev = Some b \<Longrightarrow>
    select_loop slots n prev bs = (sb_queuedItems b ! sb_selectedCount b) #
      select_loop slots (n + 1) (Some (sb_repoFullName b)) (take_from (sb_repoFullName b) bs)"
  by (subst select_loop.simps) simp

text \<open>Each repository's share of the selection is the next stretch of its queued items, in order.\<close>

lemma select_loop_fifo:
  "buckets_fine bs \<Longrightarrow> c \<in> set bs \<Longrightarrow>
    \<exists>k. filter (\<lambda>i. qi_repoFullName i = sb_repoFullName c) (select_loop slots n prev bs) =
      take k (drop (sb_selectedCount c) (sb_queuedItems c))"
proof (induction slots n prev bs arbitrary: c rule: select_loop.induct)
  case (1 slots n prev bs)
  show ?case
  proof (cases "num_lt (num_of_nat n) slots \<and> pickNextBucket bs prev \<noteq> None")
    case False
    then have "select_loop slots n prev bs = []" by (intro select_loop_Nil) auto
    then show ?thesis by (intro exI[of _ 0]) simp
  next
    case True
    then obtain b where b: "pickNextBucket bs prev = Some b" and lt: "num_lt (num_of_nat n) slots" by auto
    let ?bs = "take_from (sb_repoFullName b) bs"
    let ?R = "select_loop slots (n + 1) (Some (sb_repoFullName b)) ?bs"
    have R: "select_loop slots n prev bs = sb_queuedItems b ! sb_selectedCount b # ?R"
      using lt b by (rule select_loop_Cons)
    note el = pickNextBucket_eligible[OF b]
    note step = select_loop_step[OF 1(2) b]
    show ?thesis
    proof (cases "sb_repoFullName c = sb_repoFullName b")
      case True
      then have cb: "c = b" using 1(2,3) el(1) by (intro bucket_unique[of bs]) (auto simp: buckets_fine_def)
      obtain k where "filter (\<lambda>i. qi_repoFullName i = sb_repoFullName b) ?R =
          take k (drop (sb_selectedCount b + 1) (sb_queuedItems b))"
        using 1(1)[OF _ b step(1) take_from_picked[OF el(1)]] lt by auto
      then show ?thesis using el(2) step(2) R cb
        by (intro exI[of _ "Suc k"]) (simp add: Cons_nth_drop_Suc[symmetric])
    next
      case False
      then obtain k where "filter (\<lambda>i. qi_repoFullName i = sb_repoFullName c) ?R =
          take k (drop (sb_selectedCount c) (sb_queuedItems c))"
        using 1(1)[OF _ b step(1) take_from_other] 1(3) lt by blast
      then show ?thesis using step(2) R False by (intro exI[of _ k]) simp
    qed
  qed
qed

lemma select_loop_repos:
  "buckets_fine bs \<Longrightarrow> i \<in> set (select_loop slots n prev bs) \<Longrightarrow>
     qi_repoFullName i \<in> sb_repoFullName ` set (eligibleBuckets bs)"
proof (induction slots n prev bs rule: select_loop.induct)
  case (1 slots n prev bs)
  from 1(3) obtain b where b: "pickNextBucket bs prev = Some b" and lt: "num_lt (num_of_nat n) slots"
    and i: "i = sb_queuedItems b ! sb_selectedCount b \<or>
      i \<in> set (select_loop slots (n + 1) (Some (sb_repoFullName b)) (take_from (sb_repoFullName b) bs))"
    using select_loop_Nil[of n slots bs prev] select_loop_Cons[of n slots bs prev]
    by (cases "num_lt (num_of_nat n) slots"; cases "pickNextBucket bs prev") auto
  note el = pickNextBucket_eligible[OF b]
  have eb: "b \<in> set (eligibleBuckets bs)" using el by (simp add: eligibleBuckets_def)
  have sub: "sb_repoFullName ` set (eligibleBuckets (take_from r bs)) \<subseteq> sb_repoFullName ` set (eligibleBuckets bs)" for r
    by (auto simp: eligibleBuckets_def take_from_def split: if_splits)
  from i show ?case
  proof
    assume "i = sb_queuedItems b ! sb_selectedCount b"
    then show ?thesis using select_loop_step(2)[OF 1(2) b] eb by simp
  next
    assume i': "i \<in> set (select_loop slots (n + 1) (Some (sb_repoFullName b)) (take_from (sb_repoFullName b) bs))"
    show ?thesis by (rule subsetD[OF sub 1(1)[OF _ b select_loop_step(1)[OF 1(2) b] i']]) (use lt in simp)
  qed
qed

text \<open>The loop takes as many items as there are slots and room.\<close>

lemma room_take_from:
  assumes "distinct (map sb_repoFullName bs)" "b \<in> set bs" "sb_selectedCount b < length (sb_queuedItems b)"
  shows "room bs = Suc (room (take_from (sb_repoFullName b) bs))"
  using assms
proof (induction bs)
  case (Cons c bs)
  have same: "take_from (sb_repoFullName b) bs = bs" if "sb_repoFullName b \<notin> sb_repoFullName ` set bs"
    unfolding take_from_def by (rule map_idI) (use that in \<open>auto simp: image_iff\<close>)
  show ?case
  proof (cases "b = c")
    case True
    with Cons.prems have "take_from (sb_repoFullName b) bs = bs" by (intro same) auto
    with True Cons.prems show ?thesis by (simp add: room_def take_from_def)
  next
    case False
    with Cons have ne: "sb_repoFullName c \<noteq> sb_repoFullName b" by auto
    with False Cons have "room bs = Suc (room (take_from (sb_repoFullName b) bs))" by auto
    with ne show ?thesis by (simp add: room_def take_from_def)
  qed
qed simp

lemma room_zero: "eligibleBuckets bs = [] \<longleftrightarrow> room bs = 0"
  by (auto simp: eligibleBuckets_def room_def filter_empty_conv not_less)

lemma select_loop_length:
  assumes "distinct (map sb_repoFullName bs)"
  shows "length (select_loop slots n prev bs) =
    (case slots of Fin q \<Rightarrow> min (nat (\<lceil>q\<rceil> - int n)) (room bs) | PInf \<Rightarrow> room bs | _ \<Rightarrow> 0)"
  using assms
proof (induction slots n prev bs rule: select_loop.induct)
  case (1 slots n prev bs)
  show ?case
  proof (cases "num_lt (num_of_nat n) slots")
    case False
    then have "select_loop slots n prev bs = []" by (intro select_loop_Nil) simp
    with False show ?thesis by (cases slots) (auto simp: not_less ceiling_le_iff)
  next
    case lt: True
    show ?thesis
    proof (cases "pickNextBucket bs prev")
      case None
      then have "select_loop slots n prev bs = []" "room bs = 0"
        by (simp add: select_loop_Nil) (use None in \<open>simp add: pickNextBucket_None room_zero\<close>)
      then show ?thesis by (cases slots) auto
    next
      case (Some b)
      let ?R = "select_loop slots (n + 1) (Some (sb_repoFullName b)) (take_from (sb_repoFullName b) bs)"
      have R: "length (select_loop slots n prev bs) = Suc (length ?R)"
        using select_loop_Cons[OF lt Some] by simp
      have rm: "room bs = Suc (room (take_from (sb_repoFullName b) bs))"
        using 1(2) pickNextBucket_eligible[OF Some] by (rule room_take_from)
      have IH: "length ?R = (case slots of Fin q \<Rightarrow> min (nat (\<lceil>q\<rceil> - int (n + 1))) (room (take_from (sb_repoFullName b) bs))
          | PInf \<Rightarrow> room (take_from (sb_repoFullName b) bs) | _ \<Rightarrow> 0)"
        using 1(1)[OF _ Some] lt 1(2) by simp
      show ?thesis
      proof (cases slots)
        case (Fin q)
        with lt have "int n < \<lceil>q\<rceil>" by (simp add: less_ceiling_iff)
        then have "nat (\<lceil>q\<rceil> - int n) = Suc (nat (\<lceil>q\<rceil> - int (n + 1)))" by linarith
        with R IH rm Fin show ?thesis by simp
      qed (use R IH rm lt in auto)
    qed
  qed
qed



section \<open>The selected batch\<close>

lemma wipCapInt_cases:
  assumes "representable c"
  obtains "wipCapInt c = PInf" | k where "wipCapInt c = num_of_nat k" "of_nat k < num_max"
proof (cases c)
  case (Fin q)
  show thesis
  proof (cases "q < 0")
    case True
    then have "\<lceil>q\<rceil> \<le> 0" by (simp add: ceiling_le_iff)
    then have "rat_of_int \<lceil>q\<rceil> \<le> 0" by (simp only: of_int_le_0_iff)
    then have "wipCapInt c = num_of_nat 0" using Fin True by (simp add: wipCapInt_def max_absorb1)
    then show ?thesis by (rule that(2)) simp
  next
    case False
    then have q: "0 \<le> \<lfloor>q\<rfloor>" by simp
    then have e: "rat_of_nat (nat \<lfloor>q\<rfloor>) = of_int \<lfloor>q\<rfloor>" by (simp add: of_nat_nat)
    have "q < num_max" using assms Fin by (simp add: representable_def abs_less_iff)
    then have "rat_of_nat (nat \<lfloor>q\<rfloor>) < num_max"
      unfolding e by (rule order_le_less_trans[OF of_int_floor_le])
    moreover have "wipCapInt c = num_of_nat (nat \<lfloor>q\<rfloor>)"
      unfolding e using Fin False q by (simp add: wipCapInt_def)
    ultimately show ?thesis by (rule that(2)[rotated])
  qed
qed (use that(2)[of 0] that(1) in \<open>simp_all add: wipCapInt_def\<close>)

lemma cap_minus:
  assumes "of_nat k < num_max"
  shows "num_lt (Fin 0) (num_sub (num_of_nat k) (num_of_nat a)) \<longleftrightarrow> a < k"
    and "num_le (num_sub (num_of_nat k) (num_of_nat a)) (Fin 0) \<longleftrightarrow> k \<le> a"
    and "a < k \<Longrightarrow> num_sub (num_of_nat k) (num_of_nat a) = num_of_nat (k - a)"
proof -
  have hi: "\<not> num_max \<le> rat_of_nat k - rat_of_nat a" using assms of_nat_0_le_iff[of a, where 'a = rat] by linarith
  have lo: "a < k \<Longrightarrow> \<not> rat_of_nat k - rat_of_nat a \<le> - num_max"
    using num_max_pos by (metis diff_gt_0_iff_gt not_less num_max_nonneg(2) of_nat_less_iff order_trans)
  show "num_lt (Fin 0) (num_sub (num_of_nat k) (num_of_nat a)) \<longleftrightarrow> a < k"
    and "num_le (num_sub (num_of_nat k) (num_of_nat a)) (Fin 0) \<longleftrightarrow> k \<le> a"
    and "a < k \<Longrightarrow> num_sub (num_of_nat k) (num_of_nat a) = num_of_nat (k - a)"
    using hi lo by (auto simp: num_of_rat_def of_nat_diff)
qed

definition capped :: "jsnum \<Rightarrow> nat \<Rightarrow> 'a list \<Rightarrow> 'a list" where
  "capped cap active xs = (case cap of Fin q \<Rightarrow> take (nat \<lfloor>q\<rfloor> - active) xs | _ \<Rightarrow> xs)"

lemma capSelection_eq:
  assumes "representable c"
  shows "capSelection (wipCapInt c) b =
    b\<lparr>sb_queuedItems := capped (wipCapInt c) (sb_activeCount b) (sb_queuedItems b)\<rparr>"
  using assms
proof (rule wipCapInt_cases)
  fix k assume "wipCapInt c = num_of_nat k" "rat_of_nat k < num_max"
  then show ?thesis using cap_minus[of k "sb_activeCount b"]
    by (cases "sb_activeCount b < k") (simp_all add: capSelection_def capped_def Let_def del: num_sub_Fin of_nat_diff)
qed (simp add: capSelection_def capped_def num_sub_def)

definition capped_selection :: "PortfolioQueue \<Rightarrow> PortfolioCaps \<Rightarrow> QueueSelectionBucket list" where
  "capped_selection q caps = map (capSelection (wipCapInt (pc_perRepoWipCap caps))) (selectionBucketsByRepo q)"

lemma capped_selection_facts:
  assumes "representable (pc_perRepoWipCap caps)"
  shows "buckets_fine (capped_selection q caps)"
    and "sb_repoFullName ` set (capped_selection q caps) = qi_repoFullName ` set (all_items q)"
    and "b \<in> set (capped_selection q caps) \<Longrightarrow> sb_selectedCount b = 0 \<and>
      sb_activeCount b = active_of (sb_repoFullName b) (all_items q) \<and>
      sb_queuedItems b = capped (wipCapInt (pc_perRepoWipCap caps)) (active_of (sb_repoFullName b) (all_items q))
        (queued_of (sb_repoFullName b) (all_items q))"
proof -
  note sel = selectionBuckets_ok[of q, unfolded selection_of_def]
  have in_capped: "set (capped c a xs) \<subseteq> set xs" for c a and xs :: "PortfolioQueueItem list"
    by (auto simp: capped_def dest: in_set_takeD split: jsnum.splits)
  show mem: "sb_selectedCount b = 0 \<and> sb_activeCount b = active_of (sb_repoFullName b) (all_items q) \<and>
      sb_queuedItems b = capped (wipCapInt (pc_perRepoWipCap caps)) (active_of (sb_repoFullName b) (all_items q))
        (queued_of (sb_repoFullName b) (all_items q))"
    if "b \<in> set (capped_selection q caps)" for b
  proof -
    from that obtain b0 where "b0 \<in> set (selectionBucketsByRepo q)"
      and b: "b = b0\<lparr>sb_queuedItems := capped (wipCapInt (pc_perRepoWipCap caps)) (sb_activeCount b0) (sb_queuedItems b0)\<rparr>"
      unfolding capped_selection_def capSelection_eq[OF assms] by auto
    with sel have "sb_selectedCount b0 = 0" "sb_activeCount b0 = active_of (sb_repoFullName b0) (all_items q)"
      "sb_queuedItems b0 = queued_of (sb_repoFullName b0) (all_items q)" by simp_all
    then show ?thesis unfolding b by simp
  qed
  have repos: "map sb_repoFullName (capped_selection q caps) = map sb_repoFullName (selectionBucketsByRepo q)"
    by (simp add: capped_selection_def capSelection_eq[OF assms])
  then show "sb_repoFullName ` set (capped_selection q caps) = qi_repoFullName ` set (all_items q)"
    using sel by (metis image_set)
  have "bucket_fine b" if "b \<in> set (capped_selection q caps)" for b
  proof -
    have "set (sb_queuedItems b) \<subseteq> set (queued_of (sb_repoFullName b) (all_items q))"
      using mem[OF that] in_capped by metis
    then show ?thesis using mem[OF that] unfolding bucket_fine_def queued_of_def by auto
  qed
  then show "buckets_fine (capped_selection q caps)" using sel repos by (simp add: buckets_fine_def)
qed

definition total_active :: "PortfolioQueueItem list \<Rightarrow> nat" where
  "total_active items = length (filter isActiveItem items)"

lemma sum_active_of:
  assumes "distinct rs" "set rs = qi_repoFullName ` set items"
  shows "(\<Sum>r\<leftarrow>rs. active_of r items) = total_active items"
proof -
  have "(\<Sum>r\<leftarrow>rs. active_of r items) = (\<Sum>r\<in>set rs. active_of r items)"
    using assms(1) by (rule sum_list_distinct_conv_sum_set)
  also have "\<dots> = total_active items"
    unfolding assms(2) active_of_def total_active_def
  proof (induction items)
    case (Cons x xs)
    let ?f = "\<lambda>ys r. length (filter (\<lambda>i. qi_repoFullName i = r \<and> isActiveItem i) ys)"
    have z: "?f xs r = 0" if "r \<notin> qi_repoFullName ` set xs" for r
      using that by (auto simp: filter_empty_conv)
    have "(\<Sum>r\<in>qi_repoFullName ` set (x # xs). ?f (x # xs) r) =
        (\<Sum>r\<in>qi_repoFullName ` set (x # xs). ?f xs r + (if r = qi_repoFullName x \<and> isActiveItem x then 1 else 0))"
      by (intro sum.cong) auto
    also have "\<dots> = (\<Sum>r\<in>qi_repoFullName ` set (x # xs). ?f xs r) + (if isActiveItem x then 1 else 0)"
      by (simp add: sum.distrib sum.delta)
    also have "(\<Sum>r\<in>qi_repoFullName ` set (x # xs). ?f xs r) = (\<Sum>r\<in>qi_repoFullName ` set xs. ?f xs r)"
      using z by (intro sum.mono_neutral_right) auto
    finally show ?case using Cons.IH by simp
  qed simp
  finally show ?thesis .
qed

lemma total_active_selection:
  assumes "representable (pc_perRepoWipCap caps)"
  shows "(\<Sum>b\<leftarrow>capped_selection q caps. sb_activeCount b) = total_active (all_items q)"
proof -
  note f = capped_selection_facts[OF assms]
  have "(\<Sum>b\<leftarrow>capped_selection q caps. sb_activeCount b) =
      (\<Sum>r\<leftarrow>map sb_repoFullName (capped_selection q caps). active_of r (all_items q))"
    unfolding map_map comp_def using f(3) by (intro arg_cong[where f = sum_list] map_cong) auto
  also have "\<dots> = total_active (all_items q)"
    using f(1,2) by (intro sum_active_of) (simp_all add: buckets_fine_def)
  finally show ?thesis .
qed

lemma nextEligibleItems_eq:
  assumes "representable (pc_globalWipCap caps)" "representable (pc_perRepoWipCap caps)"
  obtains "nextEligibleItems q caps = []"
      "wipCapInt (pc_perRepoWipCap caps) = Fin 0 \<or>
       num_le (wipCapInt (pc_globalWipCap caps)) (num_of_nat (total_active (all_items q)))"
  | slots where "nextEligibleItems q caps = select_loop slots 0 None (capped_selection q caps)"
      "wipCapInt (pc_globalWipCap caps) = PInf \<and> slots = PInf \<or>
       (\<exists>k. wipCapInt (pc_globalWipCap caps) = num_of_nat (total_active (all_items q) + k) \<and> slots = num_of_nat k)"
proof -
  let ?g = "wipCapInt (pc_globalWipCap caps)"
  let ?a = "total_active (all_items q)"
  have eq: "nextEligibleItems q caps =
     (if ?g = Fin 0 \<or> wipCapInt (pc_perRepoWipCap caps) = Fin 0 \<or> num_le (num_sub ?g (num_of_nat ?a)) (Fin 0) then []
      else select_loop (num_sub ?g (num_of_nat ?a)) 0 None (capped_selection q caps))"
    unfolding nextEligibleItems_def normalizeCaps_def Let_def
    using total_active_selection[OF assms(2), of q] by (simp add: capped_selection_def del: num_sub_Fin)
  from assms(1) show thesis
  proof (rule wipCapInt_cases)
    assume g: "?g = PInf"
    then have "num_sub ?g (num_of_nat ?a) = PInf" by (simp add: num_sub_def)
    with g eq that show thesis by (cases "wipCapInt (pc_perRepoWipCap caps) = Fin 0") auto
  next
    fix k assume g: "?g = num_of_nat k" "rat_of_nat k < num_max"
    show thesis
    proof (cases "wipCapInt (pc_perRepoWipCap caps) = Fin 0 \<or> k \<le> ?a")
      case True
      then show thesis using eq g cap_minus(2)[OF g(2), of ?a] by (intro that(1)) auto
    next
      case False
      then have "?a < k" by simp
      then show thesis using False eq g cap_minus[OF g(2), of ?a]
        by (intro that(2)[of "num_of_nat (k - ?a)"]) (auto simp del: num_sub_Fin of_nat_diff)
    qed
  qed
qed

lemma select_loop_share:
  assumes "representable (pc_perRepoWipCap caps)"
  shows "\<exists>k. filter (\<lambda>i. qi_repoFullName i = r) (select_loop slots 0 None (capped_selection q caps)) =
    take k (capped (wipCapInt (pc_perRepoWipCap caps)) (active_of r (all_items q)) (queued_of r (all_items q)))"
proof (cases "r \<in> sb_repoFullName ` set (capped_selection q caps)")
  case True
  then obtain b where b: "b \<in> set (capped_selection q caps)" "r = sb_repoFullName b" by auto
  from select_loop_fifo[OF capped_selection_facts(1)[OF assms] b(1)] capped_selection_facts(3)[OF assms b(1)]
  show ?thesis unfolding b(2) by (metis drop0)
next
  case False
  then have "r \<notin> sb_repoFullName ` set (eligibleBuckets (capped_selection q caps))"
    by (auto simp: eligibleBuckets_def)
  then have "filter (\<lambda>i. qi_repoFullName i = r) (select_loop slots 0 None (capped_selection q caps)) = []"
    using select_loop_repos[OF capped_selection_facts(1)[OF assms]] by (auto simp: filter_empty_conv)
  then show ?thesis by (intro exI[of _ 0]) simp
qed

lemma share_prefix:
  assumes "representable (pc_globalWipCap caps)" "representable (pc_perRepoWipCap caps)"
  obtains k where "filter (\<lambda>i. qi_repoFullName i = r) (nextEligibleItems q caps) =
    take k (capped (wipCapInt (pc_perRepoWipCap caps)) (active_of r (all_items q)) (queued_of r (all_items q)))"
  using assms
proof (rule nextEligibleItems_eq[of caps q])
  assume "nextEligibleItems q caps = []" then show thesis using that[of 0] by simp
next
  fix slots assume "nextEligibleItems q caps = select_loop slots 0 None (capped_selection q caps)"
  then show thesis using select_loop_share[OF assms(2), of r slots q] that by auto
qed

lemma capped_length:
  "wipCapInt c = PInf \<or> (\<exists>k. wipCapInt c = num_of_nat k) \<Longrightarrow> capped (wipCapInt c) a xs \<noteq> [] \<Longrightarrow>
     num_le (num_of_nat (a + length (capped (wipCapInt c) a xs))) (wipCapInt c)"
  by (auto simp: capped_def simp flip: of_nat_add)

lemma selection_within_caps:
  assumes "representable (pc_globalWipCap caps)" "representable (pc_perRepoWipCap caps)"
  shows "(filter (\<lambda>i. qi_repoFullName i = r) (nextEligibleItems q caps) = [] \<or>
      num_le (num_of_nat (active_of r (all_items q) +
          length (filter (\<lambda>i. qi_repoFullName i = r) (nextEligibleItems q caps))))
        (wipCapInt (pc_perRepoWipCap caps))) \<and>
    (nextEligibleItems q caps = [] \<or>
      num_le (num_of_nat (total_active (all_items q) + length (nextEligibleItems q caps)))
        (wipCapInt (pc_globalWipCap caps)))"
proof (intro conjI)
  let ?p = "wipCapInt (pc_perRepoWipCap caps)"
  obtain k where share: "filter (\<lambda>i. qi_repoFullName i = r) (nextEligibleItems q caps) =
    take k (capped ?p (active_of r (all_items q)) (queued_of r (all_items q)))" (is "?sel = take k ?c")
    using assms by (rule share_prefix)
  show "?sel = [] \<or> num_le (num_of_nat (active_of r (all_items q) + length ?sel)) ?p"
  proof (cases "?sel = []")
    case False
    then have "?c \<noteq> []" using share by auto
    moreover have "?p = PInf \<or> (\<exists>k. ?p = num_of_nat k)" using assms(2) by (rule wipCapInt_cases) auto
    ultimately have "num_le (num_of_nat (active_of r (all_items q) + length ?c)) ?p" by (intro capped_length)
    moreover have "length ?sel \<le> length ?c" unfolding share by simp
    ultimately show ?thesis by (cases ?p) (auto simp flip: of_nat_add intro: order_trans)
  qed simp
  show "nextEligibleItems q caps = [] \<or>
      num_le (num_of_nat (total_active (all_items q) + length (nextEligibleItems q caps))) (wipCapInt (pc_globalWipCap caps))"
    using assms
  proof (rule nextEligibleItems_eq[of caps q])
    fix slots assume e: "nextEligibleItems q caps = select_loop slots 0 None (capped_selection q caps)"
      and s: "wipCapInt (pc_globalWipCap caps) = PInf \<and> slots = PInf \<or>
       (\<exists>k. wipCapInt (pc_globalWipCap caps) = num_of_nat (total_active (all_items q) + k) \<and> slots = num_of_nat k)"
    have "distinct (map sb_repoFullName (capped_selection q caps))"
      using capped_selection_facts(1)[OF assms(2)] by (simp add: buckets_fine_def)
    from select_loop_length[OF this, of slots 0 None] s show ?thesis
      unfolding e by (auto simp flip: of_nat_add)
  qed simp
qed

lemma selection_fifo:
  assumes "representable (pc_globalWipCap caps)" "representable (pc_perRepoWipCap caps)"
  shows "(\<exists>k. filter (\<lambda>i. qi_repoFullName i = r) (nextEligibleItems q caps) = take k (queued_of r (all_items q))) \<and>
    set (nextEligibleItems q caps) \<subseteq> set (filter isQueuedItem (all_items q))"
proof -
  have share: "\<exists>k. filter (\<lambda>i. qi_repoFullName i = r) (nextEligibleItems q caps) = take k (queued_of r (all_items q))" for r
  proof -
    obtain k where "filter (\<lambda>i. qi_repoFullName i = r) (nextEligibleItems q caps) =
      take k (capped (wipCapInt (pc_perRepoWipCap caps)) (active_of r (all_items q)) (queued_of r (all_items q)))"
      using assms by (rule share_prefix)
    then show ?thesis by (auto simp: capped_def split: jsnum.splits)
  qed
  moreover have "i \<in> set (filter isQueuedItem (all_items q))" if i: "i \<in> set (nextEligibleItems q caps)" for i
  proof -
    obtain k where "filter (\<lambda>j. qi_repoFullName j = qi_repoFullName i) (nextEligibleItems q caps) =
        take k (queued_of (qi_repoFullName i) (all_items q))" using share by blast
    moreover have "i \<in> set (filter (\<lambda>j. qi_repoFullName j = qi_repoFullName i) (nextEligibleItems q caps))"
      using i by simp
    ultimately have "i \<in> set (queued_of (qi_repoFullName i) (all_items q))" by (metis in_set_takeD)
    then show ?thesis by (simp add: queued_of_def)
  qed
  ultimately show ?thesis by blast
qed

text \<open>C11: the selected batch respects the limits on work in progress: it takes only items of the queue that are queued, and with
  the work already active no repository that gets an item exceeds the per-repository cap and no non-empty batch exceeds
  the global cap (an infinite cap is no cap). The caps are numbers whose magnitude is within the range of doubles, or
  infinite.\<close>

theorem nextEligibleItems_within_caps:
  assumes "representable (pc_globalWipCap caps)" "representable (pc_perRepoWipCap caps)"
  shows "set (nextEligibleItems q caps) \<subseteq> set (filter isQueuedItem (all_items q)) \<and>
    (filter (\<lambda>i. qi_repoFullName i = r) (nextEligibleItems q caps) = [] \<or>
      num_le (num_of_nat (active_of r (all_items q) +
          length (filter (\<lambda>i. qi_repoFullName i = r) (nextEligibleItems q caps))))
        (wipCapInt (pc_perRepoWipCap caps))) \<and>
    (nextEligibleItems q caps = [] \<or>
      num_le (num_of_nat (total_active (all_items q) + length (nextEligibleItems q caps)))
        (wipCapInt (pc_globalWipCap caps)))"
  using selection_fifo[OF assms] selection_within_caps[OF assms] by blast

definition sample_queue :: PortfolioQueue where
  "sample_queue = \<lparr>pq_buckets = [
     \<lparr>qb_repoFullName = ''o/a'', qb_items = [
        \<lparr>qi_id = ''1'', qi_repoFullName = ''o/a'', qi_state = InProgress\<rparr>,
        \<lparr>qi_id = ''2'', qi_repoFullName = ''o/a'', qi_state = Queued\<rparr>]\<rparr>,
     \<lparr>qb_repoFullName = ''o/b'', qb_items = [\<lparr>qi_id = ''3'', qi_repoFullName = ''o/b'', qi_state = Queued\<rparr>]\<rparr>]\<rparr>"

definition sample_caps :: PortfolioCaps where
  "sample_caps = \<lparr>pc_globalWipCap = Fin 2, pc_perRepoWipCap = PInf\<rparr>"

lemma sample_caps_ok: "representable (pc_globalWipCap sample_caps)" "representable (pc_perRepoWipCap sample_caps)"
  using num_max_large by (simp_all add: sample_caps_def representable_def)

theorem nextEligibleItems_within_caps_witness:
  "nextEligibleItems sample_queue sample_caps = [] \<or>
   num_le (num_of_nat (total_active (all_items sample_queue) + length (nextEligibleItems sample_queue sample_caps)))
     (wipCapInt (pc_globalWipCap sample_caps))"
  using nextEligibleItems_within_caps[OF sample_caps_ok] by blast

text \<open>the batch takes each repository's queued items from the front of its queue, in order and without repetition,
  and takes only items that are queued.\<close>

theorem nextEligibleItems_fifo:
  assumes "representable (pc_globalWipCap caps)" "representable (pc_perRepoWipCap caps)"
  shows "(\<exists>k. filter (\<lambda>i. qi_repoFullName i = r) (nextEligibleItems q caps) = take k (queued_of r (all_items q))) \<and>
    set (nextEligibleItems q caps) \<subseteq> set (filter isQueuedItem (all_items q))"
  using assms by (rule selection_fifo)

theorem nextEligibleItems_fifo_witness:
  "set (nextEligibleItems sample_queue sample_caps) \<subseteq> set (filter isQueuedItem (all_items sample_queue))"
  using nextEligibleItems_fifo[OF sample_caps_ok] by blast

text \<open>The number of items a repository may still take.\<close>

lemma room_all_taken:
  assumes "distinct (map sb_repoFullName bs)" "\<And>b. b \<in> set bs \<Longrightarrow> sb_selectedCount b = 0"
    and "set (map qi_repoFullName R) \<subseteq> set (map sb_repoFullName bs)"
    and "\<And>b. b \<in> set bs \<Longrightarrow> length (filter (\<lambda>i. qi_repoFullName i = sb_repoFullName b) R) \<le> length (sb_queuedItems b)"
    and "room bs \<le> length R" "b \<in> set bs"
  shows "length (filter (\<lambda>i. qi_repoFullName i = sb_repoFullName b) R) = length (sb_queuedItems b)"
proof (rule ccontr)
  let ?n = "\<lambda>b. length (filter (\<lambda>i. qi_repoFullName i = sb_repoFullName b) R)"
  assume "?n b \<noteq> length (sb_queuedItems b)"
  then have "?n b < length (sb_queuedItems b)" using assms(4,6) by (simp add: le_neq_implies_less)
  then have "(\<Sum>b\<leftarrow>bs. ?n b) < (\<Sum>b\<leftarrow>bs. length (sb_queuedItems b))"
    using assms(4,6) by (intro sum_list_less[of bs ?n _ b]) auto
  also have "\<dots> = room bs" unfolding room_def using assms(2) by (intro arg_cong[where f = sum_list] map_cong) auto
  also have "\<dots> \<le> length R" by (rule assms(5))
  also have "length R = (\<Sum>b\<leftarrow>bs. ?n b)"
    using assms(1,3)
  proof (induction R)
    case (Cons i R)
    let ?m = "\<lambda>b. length (filter (\<lambda>j. qi_repoFullName j = sb_repoFullName b) R)"
    have one: "(\<Sum>b\<leftarrow>cs. if qi_repoFullName i = sb_repoFullName b then 1 else (0::nat)) =
        (if qi_repoFullName i \<in> set (map sb_repoFullName cs) then 1 else 0)"
      if "distinct (map sb_repoFullName cs)" for cs using that by (induction cs) auto
    have "(\<Sum>b\<leftarrow>bs. length (filter (\<lambda>j. qi_repoFullName j = sb_repoFullName b) (i # R))) =
        (\<Sum>b\<leftarrow>bs. ?m b + (if qi_repoFullName i = sb_repoFullName b then 1 else 0))"
      by (intro arg_cong[where f = sum_list] map_cong) auto
    also have "\<dots> = length R + 1" using Cons one[OF Cons.prems(1)] by (simp add: sum_list_addf)
    finally show ?case by simp
  qed simp
  finally show False by simp
qed

lemma selection_maximal:
  assumes "representable (pc_globalWipCap caps)" "representable (pc_perRepoWipCap caps)"
    and "num_lt (num_of_nat (total_active (all_items q) + length (nextEligibleItems q caps)))
      (wipCapInt (pc_globalWipCap caps))"
  shows "filter (\<lambda>i. qi_repoFullName i = r) (nextEligibleItems q caps) = queued_of r (all_items q) \<or>
    num_ge (num_of_nat (active_of r (all_items q) +
        length (filter (\<lambda>i. qi_repoFullName i = r) (nextEligibleItems q caps)))) (wipCapInt (pc_perRepoWipCap caps))"
  using assms(1,2)
proof (rule nextEligibleItems_eq[of caps q])
  assume "nextEligibleItems q caps = []"
    "wipCapInt (pc_perRepoWipCap caps) = Fin 0 \<or>
     num_le (wipCapInt (pc_globalWipCap caps)) (num_of_nat (total_active (all_items q)))"
  with assms(3) show ?thesis by (cases "wipCapInt (pc_globalWipCap caps)") auto
next
  let ?p = "wipCapInt (pc_perRepoWipCap caps)"
  let ?bs = "capped_selection q caps"
  fix slots assume e: "nextEligibleItems q caps = select_loop slots 0 None ?bs"
    and s: "wipCapInt (pc_globalWipCap caps) = PInf \<and> slots = PInf \<or>
       (\<exists>k. wipCapInt (pc_globalWipCap caps) = num_of_nat (total_active (all_items q) + k) \<and> slots = num_of_nat k)"
  note f = capped_selection_facts[OF assms(2)]
  have d: "distinct (map sb_repoFullName ?bs)" using f(1) by (simp add: buckets_fine_def)
  have room: "room ?bs \<le> length (nextEligibleItems q caps)"
    using select_loop_length[OF d, of slots 0 None] s assms(3) unfolding e[symmetric] by (auto simp: min_def split: if_splits)
  have repos: "set (map qi_repoFullName (nextEligibleItems q caps)) \<subseteq> set (map sb_repoFullName ?bs)"
    using select_loop_repos[OF f(1)] unfolding e by (fastforce simp: eligibleBuckets_def)
  show ?thesis
  proof (cases "r \<in> sb_repoFullName ` set ?bs")
    case True
    then obtain b where b: "b \<in> set ?bs" "r = sb_repoFullName b" by auto
    have "length (filter (\<lambda>i. qi_repoFullName i = sb_repoFullName b) (nextEligibleItems q caps)) = length (sb_queuedItems b)"
    proof (rule room_all_taken[OF d _ repos _ room b(1)])
      fix c assume c: "c \<in> set ?bs"
      show "sb_selectedCount c = 0" using f(3)[OF c] by simp
      show "length (filter (\<lambda>i. qi_repoFullName i = sb_repoFullName c) (nextEligibleItems q caps)) \<le> length (sb_queuedItems c)"
        using select_loop_fifo[OF f(1) c, of slots 0 None] unfolding e by auto
    qed
    moreover obtain k where "filter (\<lambda>i. qi_repoFullName i = r) (nextEligibleItems q caps) =
        take k (capped ?p (active_of r (all_items q)) (queued_of r (all_items q)))"
      using assms(1,2) by (rule share_prefix)
    ultimately have all: "filter (\<lambda>i. qi_repoFullName i = r) (nextEligibleItems q caps) =
        capped ?p (active_of r (all_items q)) (queued_of r (all_items q))"
      using f(3)[OF b(1)] b(2) by simp
    have "?p = PInf \<or> (\<exists>k. ?p = num_of_nat k)" using assms(2) by (rule wipCapInt_cases) auto
    then show ?thesis unfolding all by (auto simp: capped_def min_def not_le simp flip: of_nat_add split: if_splits)
  next
    case False
    then have none: "r \<notin> qi_repoFullName ` set (all_items q)" using f(2) by simp
    then have "queued_of r (all_items q) = []" by (auto simp: queued_of_def filter_empty_conv)
    moreover have "filter (\<lambda>i. qi_repoFullName i = r) (nextEligibleItems q caps) = []"
      using repos False by (auto simp: filter_empty_conv)
    ultimately show ?thesis by simp
  qed
qed

text \<open>no slot is left idle: when the batch stops short of the global cap, every repository either has all its queued
  items selected or has reached the per-repository cap.\<close>

theorem nextEligibleItems_maximal:
  assumes "representable (pc_globalWipCap caps)" "representable (pc_perRepoWipCap caps)"
    and "num_lt (num_of_nat (total_active (all_items q) + length (nextEligibleItems q caps)))
      (wipCapInt (pc_globalWipCap caps))"
  shows "filter (\<lambda>i. qi_repoFullName i = r) (nextEligibleItems q caps) = queued_of r (all_items q) \<or>
    num_ge (num_of_nat (active_of r (all_items q) +
        length (filter (\<lambda>i. qi_repoFullName i = r) (nextEligibleItems q caps)))) (wipCapInt (pc_perRepoWipCap caps))"
  using assms by (rule selection_maximal)

theorem nextEligibleItems_maximal_witness:
  "filter (\<lambda>i. qi_repoFullName i = ''o/a'')
      (nextEligibleItems sample_queue \<lparr>pc_globalWipCap = PInf, pc_perRepoWipCap = PInf\<rparr>) =
     queued_of ''o/a'' (all_items sample_queue)"
  using nextEligibleItems_maximal[of "\<lparr>pc_globalWipCap = PInf, pc_perRepoWipCap = PInf\<rparr>" sample_queue "''o/a''"]
  by (simp add: representable_def wipCapInt_def)

text \<open>A sequence of repositories alternates: once two neighbours agree, everything after them is the same repository.\<close>

fun alternates :: "'a option \<Rightarrow> 'a list \<Rightarrow> bool" where
  "alternates prev [] = True"
| "alternates prev (r # rs) = (if prev = Some r then set rs \<subseteq> {r} else alternates (Some r) rs)"

lemma select_loop_alternates:
  "buckets_fine bs \<Longrightarrow> alternates prev (map qi_repoFullName (select_loop slots n prev bs))"
proof (induction slots n prev bs rule: select_loop.induct)
  case (1 slots n prev bs)
  show ?case
  proof (cases "num_lt (num_of_nat n) slots \<and> pickNextBucket bs prev \<noteq> None")
    case False
    then have "select_loop slots n prev bs = []" by (intro select_loop_Nil) auto
    then show ?thesis by simp
  next
    case True
    then obtain b where b: "pickNextBucket bs prev = Some b" and lt: "num_lt (num_of_nat n) slots" by auto
    let ?R = "select_loop slots (n + 1) (Some (sb_repoFullName b)) (take_from (sb_repoFullName b) bs)"
    note step = select_loop_step[OF 1(2) b]
    have "set (map qi_repoFullName ?R) \<subseteq> {sb_repoFullName b}" if "prev = Some (sb_repoFullName b)"
    proof -
      have "sb_repoFullName c = sb_repoFullName b"
        if "c \<in> set (eligibleBuckets (take_from (sb_repoFullName b) bs))" for c
        using pickNextBucket_repeat[OF b[unfolded \<open>prev = _\<close>]] that
        by (auto simp: eligibleBuckets_def take_from_def split: if_splits)
      then show ?thesis using select_loop_repos[OF step(1)] by fastforce
    qed
    moreover have "alternates (Some (sb_repoFullName b)) (map qi_repoFullName ?R)"
      using 1(1)[OF _ b step(1)] lt by simp
    ultimately show ?thesis using step(2) by (simp add: select_loop_Cons[OF lt b])
  qed
qed

text \<open>the batch alternates between repositories while more than one has an eligible item: two neighbouring items come
  from the same repository only when every later item of the batch does too.\<close>

theorem nextEligibleItems_alternates:
  assumes "representable (pc_globalWipCap caps)" "representable (pc_perRepoWipCap caps)"
  shows "alternates None (map qi_repoFullName (nextEligibleItems q caps))"
  using assms
proof (rule nextEligibleItems_eq[of caps q])
  fix slots assume "nextEligibleItems q caps = select_loop slots 0 None (capped_selection q caps)"
  then show ?thesis using select_loop_alternates capped_selection_facts(1)[OF assms(2)] by simp
qed simp

theorem nextEligibleItems_alternates_witness:
  "alternates None (map qi_repoFullName (nextEligibleItems sample_queue sample_caps))"
  by (rule nextEligibleItems_alternates[OF sample_caps_ok])


section \<open>Adding and removing items\<close>

definition item_wf :: "PortfolioQueueItem \<Rightarrow> bool" where
  "item_wf i \<longleftrightarrow> normalizeItem i = i \<and> qi_id i \<noteq> [] \<and> qi_repoFullName i \<noteq> []"

definition bucket_wf :: "PortfolioQueueBucket \<Rightarrow> bool" where
  "bucket_wf b \<longleftrightarrow> qb_items b \<noteq> [] \<and>
     (\<forall>i \<in> set (qb_items b). item_wf i \<and> qi_repoFullName i = qb_repoFullName b)"

definition queue_ids :: "PortfolioQueue \<Rightarrow> string list" where
  "queue_ids q = concat (map (\<lambda>b. map qi_id (qb_items b)) (pq_buckets q))"

definition queue_wf :: "PortfolioQueue \<Rightarrow> bool" where
  "queue_wf q \<longleftrightarrow> list_all bucket_wf (pq_buckets q) \<and> distinct (map qb_repoFullName (pq_buckets q)) \<and>
     distinct (queue_ids q)"

lemma normalizeItem_idem [simp]: "normalizeItem (normalizeItem i) = normalizeItem i"
  by (simp add: normalizeItem_def cleanId_def cleanRepoFullName_def normalizeState_def trim_toLowerCase)

lemma item_wf_id: "item_wf i \<Longrightarrow> cleanId (qi_id i) = qi_id i"
  unfolding item_wf_def normalizeItem_def by (metis PortfolioQueueItem.select_convs(1))

lemma bucket_wf_facts:
  assumes "bucket_wf b"
  shows "cleanRepoFullName (qb_repoFullName b) = qb_repoFullName b" "map normalizeItem (qb_items b) = qb_items b"
    "i \<in> set (qb_items b) \<Longrightarrow> cleanId (qi_id i) = qi_id i"
proof -
  obtain j where j: "j \<in> set (qb_items b)" using assms by (cases "qb_items b") (auto simp: bucket_wf_def)
  then have "normalizeItem j = j" "qi_repoFullName j = qb_repoFullName b"
    using assms by (auto simp: bucket_wf_def item_wf_def)
  then show "cleanRepoFullName (qb_repoFullName b) = qb_repoFullName b"
    unfolding normalizeItem_def by (metis PortfolioQueueItem.select_convs(2))
  show "map normalizeItem (qb_items b) = qb_items b"
    using assms by (intro map_idI) (auto simp: bucket_wf_def item_wf_def)
  show "i \<in> set (qb_items b) \<Longrightarrow> cleanId (qi_id i) = qi_id i"
    using assms by (intro item_wf_id) (auto simp: bucket_wf_def)
qed

lemma queueHasItem_ids:
  "list_all bucket_wf (pq_buckets q) \<Longrightarrow> queueHasItem q x \<longleftrightarrow> x \<in> set (queue_ids q)"
  using bucket_wf_facts(3) by (force simp: queueHasItem_def queue_ids_def list_ex_iff list_all_iff)

definition ids_of :: "PortfolioQueueBucket list \<Rightarrow> string list" where
  "ids_of bs = concat (map (\<lambda>b. map qi_id (qb_items b)) bs)"

lemma append_to_bucket_wf:
  assumes "list_all bucket_wf bs" "item_wf x"
  shows "list_all bucket_wf (append_to_bucket x bs)"
    and "mset (ids_of (append_to_bucket x bs)) = add_mset (qi_id x) (mset (ids_of bs))"
    and "qb_repoFullName ` set (append_to_bucket x bs) = insert (qi_repoFullName x) (qb_repoFullName ` set bs)"
proof -
  have new: "bucket_wf \<lparr>qb_repoFullName = qi_repoFullName y, qb_items = [y]\<rparr>" if "item_wf y" for y
    using that by (simp add: bucket_wf_def)
  have more: "bucket_wf \<lparr>qb_repoFullName = qi_repoFullName y, qb_items = qb_items b @ [y]\<rparr>"
    if "item_wf y" "bucket_wf b" "qb_repoFullName b = qi_repoFullName y" for y b
    using that by (auto simp: bucket_wf_def)
  show "list_all bucket_wf (append_to_bucket x bs)"
    "mset (ids_of (append_to_bucket x bs)) = add_mset (qi_id x) (mset (ids_of bs))"
    "qb_repoFullName ` set (append_to_bucket x bs) = insert (qi_repoFullName x) (qb_repoFullName ` set bs)"
    using assms
    by (induction x bs rule: append_to_bucket.induct) (auto simp: bucket_wf_facts ids_of_def new more)
qed

lemma append_to_bucket_distinct:
  "list_all bucket_wf bs \<Longrightarrow> item_wf x \<Longrightarrow> distinct (map qb_repoFullName bs) \<Longrightarrow>
     distinct (map qb_repoFullName (append_to_bucket x bs))"
proof (induction x bs rule: append_to_bucket.induct)
  case (2 x b bs)
  then show ?case using append_to_bucket_wf(3)[of bs x] bucket_wf_facts(1)[of b] by (auto simp: image_iff)
qed simp

definition drop_id :: "string \<Rightarrow> PortfolioQueueBucket list \<Rightarrow> PortfolioQueueBucket list" where
  "drop_id x bs = concat (map (\<lambda>b. let items = filter (\<lambda>i. cleanId (qi_id i) \<noteq> x) (qb_items b) in
     if items \<noteq> [] then [b\<lparr>qb_items := items\<rparr>] else []) bs)"

definition keep :: "string \<Rightarrow> PortfolioQueueBucket \<Rightarrow> PortfolioQueueItem list" where
  "keep x b = filter (\<lambda>i. cleanId (qi_id i) \<noteq> x) (qb_items b)"

lemma drop_id_simps:
  "drop_id x [] = []"
  "drop_id x (b # bs) = (if keep x b \<noteq> [] then [b\<lparr>qb_items := keep x b\<rparr>] else []) @ drop_id x bs"
  by (simp_all add: drop_id_def keep_def Let_def)

lemma keep_wf:
  assumes "bucket_wf b"
  shows "map qi_id (keep x b) = filter (\<lambda>y. y \<noteq> x) (map qi_id (qb_items b))"
    and "keep x b \<noteq> [] \<Longrightarrow> bucket_wf (b\<lparr>qb_items := keep x b\<rparr>)"
    and "x \<notin> qi_id ` set (qb_items b) \<Longrightarrow> keep x b = qb_items b"
proof -
  show "map qi_id (keep x b) = filter (\<lambda>y. y \<noteq> x) (map qi_id (qb_items b))"
    using bucket_wf_facts(3)[OF assms] by (simp add: keep_def filter_map comp_def cong: filter_cong)
  show "keep x b \<noteq> [] \<Longrightarrow> bucket_wf (b\<lparr>qb_items := keep x b\<rparr>)"
    using assms by (auto simp: bucket_wf_def keep_def)
  show "x \<notin> qi_id ` set (qb_items b) \<Longrightarrow> keep x b = qb_items b"
    unfolding keep_def using bucket_wf_facts(3)[OF assms] by (intro filter_True) auto
qed

lemma drop_id_buckets_wf: "list_all bucket_wf bs \<Longrightarrow> list_all bucket_wf (drop_id x bs)"
  by (induction bs) (auto simp: drop_id_simps keep_wf)

lemma drop_id_ids: "list_all bucket_wf bs \<Longrightarrow> ids_of (drop_id x bs) = filter (\<lambda>y. y \<noteq> x) (ids_of bs)"
proof (induction bs)
  case (Cons b bs)
  have "ids_of (drop_id x (b # bs)) = map qi_id (keep x b) @ ids_of (drop_id x bs)"
    by (auto simp: drop_id_simps ids_of_def)
  with Cons keep_wf(1)[of b x] show ?case by (simp add: ids_of_def)
qed (simp add: drop_id_simps ids_of_def)

lemma drop_id_repos: "qb_repoFullName ` set (drop_id x bs) \<subseteq> qb_repoFullName ` set bs"
  by (induction bs) (auto simp: drop_id_simps)

lemma drop_id_distinct: "distinct (map qb_repoFullName bs) \<Longrightarrow> distinct (map qb_repoFullName (drop_id x bs))"
proof (induction bs)
  case (Cons b bs)
  then show ?case using drop_id_repos[of x bs] by (auto simp: drop_id_simps)
qed (simp add: drop_id_simps)

lemma drop_id_absent: "list_all bucket_wf bs \<Longrightarrow> x \<notin> set (ids_of bs) \<Longrightarrow> drop_id x bs = bs"
proof (induction bs)
  case (Cons b bs)
  then have "keep x b = qb_items b" "qb_items b \<noteq> []"
    by (auto simp: ids_of_def bucket_wf_def intro!: keep_wf(3))
  with Cons show ?case by (simp add: drop_id_simps ids_of_def)
qed (simp add: drop_id_simps)

lemma dequeueItem_eq:
  assumes "list_all bucket_wf (pq_buckets q)"
  shows "dequeueItem q x = (if cleanId x \<noteq> [] \<and> cleanId x \<in> set (queue_ids q)
     then \<lparr>pq_buckets = drop_id (cleanId x) (pq_buckets q)\<rparr> else q)"
  by (auto simp: dequeueItem_def Let_def drop_id_def queueHasItem_ids[OF assms])

lemma queue_ids_ids_of: "queue_ids q = ids_of (pq_buckets q)"
  by (simp add: queue_ids_def ids_of_def)

lemma drop_append:
  "list_all bucket_wf bs \<Longrightarrow> item_wf x \<Longrightarrow> qi_id x \<notin> set (ids_of bs) \<Longrightarrow>
     drop_id (qi_id x) (append_to_bucket x bs) = bs"
proof (induction x bs rule: append_to_bucket.induct)
  case (1 x) then show ?case by (simp add: drop_id_simps keep_def item_wf_id)
next
  case (2 x b bs)
  have b: "bucket_wf b" "qb_items b \<noteq> []" using 2 by (simp_all add: bucket_wf_def)
  have k: "keep (qi_id x) b = qb_items b" using 2 by (intro keep_wf(3)[OF b(1)]) (auto simp: ids_of_def)
  show ?case
  proof (cases "cleanRepoFullName (qb_repoFullName b) = qi_repoFullName x")
    case True
    let ?b = "\<lparr>qb_repoFullName = qi_repoFullName x, qb_items = map normalizeItem (qb_items b) @ [x]\<rparr>"
    have "keep (qi_id x) ?b = qb_items b"
      using k bucket_wf_facts(2)[OF b(1)] 2 by (simp add: keep_def item_wf_id)
    moreover have "b = \<lparr>qb_repoFullName = qi_repoFullName x, qb_items = qb_items b\<rparr>"
      using True bucket_wf_facts(1)[OF b(1)] by (cases b) simp
    moreover have "drop_id (qi_id x) bs = bs" using 2 by (intro drop_id_absent) (auto simp: ids_of_def)
    ultimately show ?thesis using True b(2) by (simp add: drop_id_simps)
  next
    case False
    with 2 have "drop_id (qi_id x) (append_to_bucket x bs) = bs" by (simp add: ids_of_def)
    with False k b(2) show ?thesis by (simp add: drop_id_simps)
  qed
qed

lemma enqueue_valid_item:
  "qi_id (normalizeItem i) \<noteq> [] \<Longrightarrow> qi_repoFullName (normalizeItem i) \<noteq> [] \<Longrightarrow> item_wf (normalizeItem i)"
  by (simp add: item_wf_def)

text \<open>both updates keep the queue well formed (one non-empty bucket per repository, normalised items, no id twice);
  enqueueing adds exactly the normalised id unless it is blank or already there, dequeueing removes exactly the given id.\<close>

theorem queue_updates_wf:
  assumes "queue_wf q"
  shows "queue_wf (enqueueItem q i) \<and> queue_wf (dequeueItem q x) \<and>
    mset (queue_ids (enqueueItem q i)) =
      (if cleanId (qi_id i) = [] \<or> cleanRepoFullName (qi_repoFullName i) = [] \<or> cleanId (qi_id i) \<in> set (queue_ids q)
       then mset (queue_ids q) else add_mset (cleanId (qi_id i)) (mset (queue_ids q))) \<and>
    queue_ids (dequeueItem q x) = filter (\<lambda>y. y \<noteq> cleanId x) (queue_ids q)"
proof -
  let ?n = "normalizeItem i"
  have wf: "list_all bucket_wf (pq_buckets q)" using assms by (simp add: queue_wf_def)
  have n: "qi_id ?n = cleanId (qi_id i)" "qi_repoFullName ?n = cleanRepoFullName (qi_repoFullName i)"
    by (simp_all add: normalizeItem_def)
  have enq: "enqueueItem q i = (if qi_id ?n = [] \<or> qi_repoFullName ?n = [] \<or> qi_id ?n \<in> set (queue_ids q) then q
      else \<lparr>pq_buckets = append_to_bucket ?n (pq_buckets q)\<rparr>)"
    by (simp add: enqueueItem_def Let_def queueHasItem_ids[OF wf])
  have added: "queue_wf \<lparr>pq_buckets = append_to_bucket ?n (pq_buckets q)\<rparr> \<and>
      mset (queue_ids \<lparr>pq_buckets = append_to_bucket ?n (pq_buckets q)\<rparr>) = add_mset (qi_id ?n) (mset (queue_ids q))"
    if "item_wf ?n" "qi_id ?n \<notin> set (queue_ids q)"
  proof -
    note w = append_to_bucket_wf[OF wf that(1)]
    have "distinct (ids_of (append_to_bucket ?n (pq_buckets q)))"
      using mset_eq_imp_distinct_iff[of "ids_of (append_to_bucket ?n (pq_buckets q))" "qi_id ?n # queue_ids q"]
        w(2) that(2) assms by (simp add: queue_ids_ids_of queue_wf_def)
    then show ?thesis using w append_to_bucket_distinct[OF wf that(1)] assms
      by (simp add: queue_wf_def queue_ids_ids_of)
  qed
  have nonblank: "[] \<notin> set (queue_ids q)"
    using wf by (fastforce simp: queue_ids_def list_all_iff bucket_wf_def item_wf_def)
  have "queue_wf (enqueueItem q i)" using assms added enqueue_valid_item[of i] by (auto simp: enq)
  moreover have "queue_wf (dequeueItem q x)"
    using assms drop_id_buckets_wf[OF wf] drop_id_distinct drop_id_ids[OF wf]
    by (auto simp: dequeueItem_eq[OF wf] queue_wf_def queue_ids_ids_of)
  moreover have "queue_ids (dequeueItem q x) = filter (\<lambda>y. y \<noteq> cleanId x) (queue_ids q)"
  proof (cases "cleanId x \<noteq> [] \<and> cleanId x \<in> set (queue_ids q)")
    case True then show ?thesis using drop_id_ids[OF wf] by (simp add: dequeueItem_eq[OF wf] queue_ids_ids_of)
  next
    case False
    then have "cleanId x \<notin> set (queue_ids q)" using nonblank by auto
    then have "filter (\<lambda>y. y \<noteq> cleanId x) (queue_ids q) = queue_ids q" by (intro filter_True) auto
    with False show ?thesis by (auto simp: dequeueItem_eq[OF wf])
  qed
  ultimately show ?thesis using added enqueue_valid_item[of i] by (auto simp: enq n)
qed

theorem queue_updates_wf_witness:
  "queue_wf (enqueueItem \<lparr>pq_buckets = []\<rparr> \<lparr>qi_id = ''7'', qi_repoFullName = ''o/a'', qi_state = Queued\<rparr>)"
  using queue_updates_wf[of "\<lparr>pq_buckets = []\<rparr>"] by (simp add: queue_wf_def queue_ids_def)

text \<open>removing an item right after adding it gives back the queue (for a new, non-blank item of a non-blank
  repository).\<close>

theorem dequeue_after_enqueue:
  assumes "queue_wf q" "cleanId (qi_id i) \<noteq> []" "cleanRepoFullName (qi_repoFullName i) \<noteq> []"
    and "cleanId (qi_id i) \<notin> set (queue_ids q)"
  shows "dequeueItem (enqueueItem q i) (qi_id i) = q"
proof -
  let ?n = "normalizeItem i"
  have wf: "list_all bucket_wf (pq_buckets q)" using assms by (simp add: queue_wf_def)
  have n: "qi_id ?n = cleanId (qi_id i)" "qi_repoFullName ?n = cleanRepoFullName (qi_repoFullName i)"
    by (simp_all add: normalizeItem_def)
  have ok: "item_wf ?n" using assms n enqueue_valid_item by simp
  have e: "enqueueItem q i = \<lparr>pq_buckets = append_to_bucket ?n (pq_buckets q)\<rparr>"
    using assms n by (simp add: enqueueItem_def Let_def queueHasItem_ids[OF wf])
  note w = append_to_bucket_wf[OF wf ok]
  have "qi_id ?n \<in> set (ids_of (append_to_bucket ?n (pq_buckets q)))"
    using w(2) by (metis set_mset_mset union_single_eq_member)
  then show ?thesis
    using assms n w(1) drop_append[OF wf ok] by (simp add: e dequeueItem_eq queue_ids_ids_of)
qed

theorem dequeue_after_enqueue_witness:
  "dequeueItem (enqueueItem \<lparr>pq_buckets = []\<rparr> \<lparr>qi_id = ''7'', qi_repoFullName = ''o/a'', qi_state = Queued\<rparr>)
     ''7'' = \<lparr>pq_buckets = []\<rparr>"
proof -
  have "cleanId ''7'' = ''7''" "cleanRepoFullName ''o/a'' \<noteq> []"
    by (simp_all add: cleanId_def cleanRepoFullName_def trim_fix is_ws_def)
  then show ?thesis
    using dequeue_after_enqueue[of "\<lparr>pq_buckets = []\<rparr>" "\<lparr>qi_id = ''7'', qi_repoFullName = ''o/a'', qi_state = Queued\<rparr>"]
    by (simp add: queue_wf_def queue_ids_def)
qed


section \<open>The selector as an interface\<close>

lemma distinct_submset:
  assumes "mset xs \<subseteq># mset ys" "distinct ys" shows "distinct xs"
proof -
  obtain M where "mset ys = mset xs + M" using assms(1) by (auto simp: mset_subset_eq_exists_conv)
  moreover obtain zs where "mset zs = M" using ex_mset by blast
  ultimately have "mset ys = mset (xs @ zs)" by simp
  then have "distinct (xs @ zs)" using assms(2) mset_eq_imp_distinct_iff by blast
  then show ?thesis by simp
qed

text \<open>What a client of the selection relies on: the two limits, and that it takes queued items only, each at most as often
  as the queue holds it.\<close>

locale wip_selector =
  fixes select :: "PortfolioQueue \<Rightarrow> PortfolioCaps \<Rightarrow> PortfolioQueueItem list"
  assumes per_repo: "representable (pc_globalWipCap caps) \<Longrightarrow> representable (pc_perRepoWipCap caps) \<Longrightarrow>
      filter (\<lambda>i. qi_repoFullName i = r) (select q caps) = [] \<or>
      num_le (num_of_nat (active_of r (all_items q) + length (filter (\<lambda>i. qi_repoFullName i = r) (select q caps))))
        (wipCapInt (pc_perRepoWipCap caps))"
    and overall: "representable (pc_globalWipCap caps) \<Longrightarrow> representable (pc_perRepoWipCap caps) \<Longrightarrow>
      select q caps = [] \<or>
      num_le (num_of_nat (total_active (all_items q) + length (select q caps))) (wipCapInt (pc_globalWipCap caps))"
    and takes_queued: "representable (pc_globalWipCap caps) \<Longrightarrow> representable (pc_perRepoWipCap caps) \<Longrightarrow>
      mset (select q caps) \<subseteq># mset (filter isQueuedItem (all_items q))"
begin

lemma selected_queued:
  assumes "representable (pc_globalWipCap caps)" "representable (pc_perRepoWipCap caps)" "i \<in> set (select q caps)"
  shows "i \<in> set (all_items q)" "isQueuedItem i"
  using mset_subset_eqD[OF takes_queued[OF assms(1,2), of q], of i] assms(3) by auto

lemma selected_distinct:
  assumes "representable (pc_globalWipCap caps)" "representable (pc_perRepoWipCap caps)"
    and "distinct (map qi_id (all_items q))"
  shows "distinct (map qi_id (select q caps))"
proof -
  have "image_mset qi_id (mset (select q caps)) \<subseteq># image_mset qi_id (mset (filter isQueuedItem (all_items q)))"
    by (rule image_mset_subseteq_mono[OF takes_queued[OF assms(1,2)]])
  moreover have "distinct (map qi_id (filter isQueuedItem (all_items q)))"
    using assms(3) by (rule distinct_map_filter)
  ultimately show ?thesis using distinct_submset by (metis mset_map)
qed

end

lemma selection_takes_queued:
  assumes "representable (pc_globalWipCap caps)" "representable (pc_perRepoWipCap caps)"
  shows "mset (nextEligibleItems q caps) \<subseteq># mset (filter isQueuedItem (all_items q))"
proof (rule mset_subset_eqI)
  fix i :: PortfolioQueueItem
  let ?P = "\<lambda>j. qi_repoFullName j = qi_repoFullName i"
  obtain k where k: "filter ?P (nextEligibleItems q caps) = take k (queued_of (qi_repoFullName i) (all_items q))"
    using selection_fifo[OF assms] by blast
  have "count (mset (nextEligibleItems q caps)) i = count (mset (filter ?P (nextEligibleItems q caps))) i"
    by (simp add: count_filter_mset)
  also have "\<dots> \<le> count (mset (queued_of (qi_repoFullName i) (all_items q))) i"
    unfolding k by (metis append_take_drop_id count_union mset_append le_add1)
  also have "\<dots> \<le> count (mset (filter isQueuedItem (all_items q))) i"
    by (simp add: queued_of_def count_filter_mset)
  finally show "count (mset (nextEligibleItems q caps)) i \<le> count (mset (filter isQueuedItem (all_items q))) i" .
qed

text \<open>Without caps everything queued is selected.\<close>

lemma uncapped_selects_all:
  "set (filter isQueuedItem (all_items q)) \<subseteq> set (nextEligibleItems q \<lparr>pc_globalWipCap = PInf, pc_perRepoWipCap = PInf\<rparr>)"
proof
  let ?caps = "\<lparr>pc_globalWipCap = PInf, pc_perRepoWipCap = PInf\<rparr>"
  fix i assume i: "i \<in> set (filter isQueuedItem (all_items q))"
  have "filter (\<lambda>j. qi_repoFullName j = qi_repoFullName i) (nextEligibleItems q ?caps) = queued_of (qi_repoFullName i) (all_items q)"
    using selection_maximal[of ?caps q "qi_repoFullName i"] by (simp add: representable_def wipCapInt_def)
  moreover have "i \<in> set (queued_of (qi_repoFullName i) (all_items q))" using i by (simp add: queued_of_def)
  ultimately show "i \<in> set (nextEligibleItems q ?caps)" by (metis filter_is_subset subsetD)
qed

interpretation selector: wip_selector nextEligibleItems
  by unfold_locales (use selection_within_caps selection_takes_queued in blast)+

end
