(* ===== verification/Queue_Manager.thy ===== *)
theory Queue_Manager
  imports Queue_Store Portfolio_Queue
begin

text \<open>
  The caps-aware queue manager (\<open>packages/loopover-miner/lib/portfolio-queue-manager.ts\<close>): it projects the persisted
  rows into the in-memory queue of the engine, lets the engine select a batch, and claims that batch in the store. The
  engine sees each item only through an opaque id that encodes host, repository and identifier.

  The lemmas show that a claimed batch respects both limits on work in progress, that the id is read back as it was
  written, and what an identifier with a leading colon does to the batch.
\<close>

section \<open>Definitions\<close>

definition ITEM_ID_SEPARATOR :: string where
  "ITEM_ID_SEPARATOR = ''::''"

definition queueItemId :: "string \<Rightarrow> string \<Rightarrow> string \<Rightarrow> string" where
  "queueItemId apiBaseUrl repoFullName identifier =
     apiBaseUrl @ ITEM_ID_SEPARATOR @ repoFullName @ ITEM_ID_SEPARATOR @ identifier"

text \<open>\<open>s.lastIndexOf("::")\<close>, none for \<open>-1\<close>.\<close>

definition last_sep :: "string \<Rightarrow> nat option" where
  "last_sep s = find (\<lambda>n. take 2 (drop n s) = ITEM_ID_SEPARATOR) (rev [0..<length s])"

definition split_last :: "string \<Rightarrow> string + string \<times> string" where
  "split_last s =
     (case last_sep s of
        None \<Rightarrow> Inl ''invalid_queue_item_id''
      | Some n \<Rightarrow>
          if n = 0 then Inl ''invalid_queue_item_id''
          else let part = drop (n + length ITEM_ID_SEPARATOR) s in
            if part = [] then Inl ''invalid_queue_item_id'' else Inr (take n s, part))"

definition parseQueueItemId :: "string \<Rightarrow> string + PortfolioQueueClaimTarget" where
  "parseQueueItemId itemId =
     and_then (split_last itemId) (\<lambda>(beforeIdentifier, identifier).
     and_then (split_last beforeIdentifier) (\<lambda>(apiBaseUrl, repoFullName).
     Inr \<lparr>ct_apiBaseUrl = JStr apiBaseUrl, ct_repoFullName = JStr repoFullName, ct_identifier = JStr identifier\<rparr>))"

definition normalizePortfolioCaps :: "jsnum option \<Rightarrow> jsnum option \<Rightarrow> PortfolioCaps" where
  "normalizePortfolioCaps globalWipCap perRepoWipCap =
     (let normalize = (\<lambda>value. case value of
            None \<Rightarrow> Fin 0
          | Some v \<Rightarrow> if v = PInf then PInf else if isFinite v then math_max (Fin 0) (math_trunc v) else Fin 0)
      in \<lparr>pc_globalWipCap = normalize globalWipCap, pc_perRepoWipCap = normalize perRepoWipCap\<rparr>)"

fun put_item ::
  "string \<Rightarrow> string \<Rightarrow> PortfolioQueueItem \<Rightarrow> (string \<times> PortfolioQueueBucket) list \<Rightarrow> (string \<times> PortfolioQueueBucket) list" where
  "put_item repoKey repoLower item [] = [(repoKey, \<lparr>qb_repoFullName = repoLower, qb_items = [item]\<rparr>)]"
| "put_item repoKey repoLower item ((k, b) # bs) =
     (if k = repoKey then (k, b\<lparr>qb_items := qb_items b @ [item]\<rparr>) # bs
      else (k, b) # put_item repoKey repoLower item bs)"

definition add_queue_entry ::
  "QueueEntry \<Rightarrow> (string \<times> PortfolioQueueBucket) list \<Rightarrow> (string \<times> PortfolioQueueBucket) list" where
  "add_queue_entry entry buckets =
     (let repoFullName = trim (qe_repoFullName entry); identifier = trim (qe_identifier entry) in
      if repoFullName = [] \<or> identifier = [] then buckets
      else
        let apiBaseUrl = (if trim (qe_apiBaseUrl entry) \<noteq> [] then trim (qe_apiBaseUrl entry) else DEFAULT_API_BASE_URL);
            repoLower = toLowerCase repoFullName;
            repoKey = apiBaseUrl @ [CHR 0x0A] @ repoLower
        in put_item repoKey repoLower
             \<lparr>qi_id = queueItemId apiBaseUrl repoFullName identifier, qi_repoFullName = repoKey,
              qi_state = (if qe_status entry = QsInProgress then InProgress else Queued)\<rparr> buckets)"

definition entriesToPortfolioQueue :: "QueueEntry list \<Rightarrow> PortfolioQueue" where
  "entriesToPortfolioQueue entries =
     \<lparr>pq_buckets = map snd (fold add_queue_entry (filter (\<lambda>e. qe_status e \<noteq> QsDone) entries) [])\<rparr>"

fun parse_all :: "PortfolioQueueItem list \<Rightarrow> string + PortfolioQueueClaimTarget list" where
  "parse_all [] = Inr []"
| "parse_all (item # items) =
     and_then (parseQueueItemId (qi_id item)) (\<lambda>t. and_then (parse_all items) (\<lambda>ts. Inr (t # ts)))"

definition selectEligibleBatch :: "PortfolioCaps \<Rightarrow> QueueEntry list \<Rightarrow> string + PortfolioQueueClaimTarget list" where
  "selectEligibleBatch caps entries =
     (let normalizedCaps = normalizePortfolioCaps (Some (pc_globalWipCap caps)) (Some (pc_perRepoWipCap caps));
          queue = entriesToPortfolioQueue entries
      in parse_all (nextEligibleItems queue normalizedCaps))"

text \<open>The manager's configuration: its normalised caps and its stale-lease bound.\<close>

record PortfolioQueueManager =
  qm_caps :: PortfolioCaps
  qm_staleLeaseMs :: jsnum

definition initPortfolioQueueManager ::
  "(jsnum option \<times> jsnum option) option \<Rightarrow> jsnum option \<Rightarrow> PortfolioQueueManager" where
  "initPortfolioQueueManager caps staleLeaseMs =
     \<lparr>qm_caps = (case caps of None \<Rightarrow> normalizePortfolioCaps (Some (Fin 1)) (Some (Fin 1))
                | Some (g, p) \<Rightarrow> normalizePortfolioCaps g p),
      qm_staleLeaseMs = (case staleLeaseMs of Some ms \<Rightarrow> if isFinite ms then ms else DEFAULT_MAX_LEASE_MS
                         | None \<Rightarrow> DEFAULT_MAX_LEASE_MS)\<rparr>"

definition claimNextBatch ::
  "(string \<Rightarrow> jsnum) \<Rightarrow> jsnum \<Rightarrow> string \<Rightarrow> PortfolioQueueManager \<Rightarrow> PortfolioQueueDbRow list
     \<Rightarrow> (string + QueueEntry list) \<times> PortfolioQueueDbRow list" where
  "claimNextBatch parse_date nowMs now m rows =
     (case sweepStuckItems parse_date nowMs (qm_staleLeaseMs m) rows of
        (Inl e, rows1) \<Rightarrow> (Inl e, rows1)
      | (Inr _, rows1) \<Rightarrow> batchClaim now (selectEligibleBatch (qm_caps m)) rows1)"


section \<open>Lemmas: the item id\<close>

lemma take2_has_sep: "take 2 (drop n s) = ''::'' \<Longrightarrow> has_sep s"
proof (induction n arbitrary: s)
  case 0
  then show ?case by (cases s rule: has_sep.cases) auto
next
  case (Suc n)
  show ?case
  proof (cases s)
    case (Cons a t)
    then have "has_sep t" using Suc by simp
    then show ?thesis by (cases t) (auto simp: Cons)
  qed (use Suc in simp)
qed

lemma last_sep_append:
  assumes "\<not> has_sep (CHR '':'' # t)"
  shows "last_sep (p @ ''::'' @ t) = Some (length p)"
proof -
  let ?s = "p @ ''::'' @ t" and ?P = "\<lambda>n. take 2 (drop n (p @ ''::'' @ t)) = ''::''"
  have later: "\<not> ?P n" if "length p < n" for n
  proof
    assume "?P n"
    moreover have "drop n ?s = drop (n - length p - 1) (CHR '':'' # t)"
      using that by (cases "n - length p") auto
    ultimately have "take 2 (drop (n - length p - 1) (CHR '':'' # t)) = ''::''" by (simp only:)
    then show False using take2_has_sep assms by blast
  qed
  have "rev [0..<length ?s] = rev [Suc (length p)..<length ?s] @ length p # rev [0..<length p]"
  proof -
    have "[0..<length ?s] = [0..<length p] @ [length p..<length ?s]" 
      using upt_add_eq_append[of 0 "length p" "2 + length t"] by simp
    moreover have "[length p..<length ?s] = length p # [Suc (length p)..<length ?s]" by (rule upt_conv_Cons) simp
    ultimately show ?thesis by simp
  qed
  moreover have "find ?P (rev [Suc (length p)..<length ?s]) = None"
    unfolding find_None_iff using later by (auto simp del: upt_Suc)
  moreover have "?P (length p)" by simp
  ultimately show ?thesis unfolding last_sep_def ITEM_ID_SEPARATOR_def by (simp only: find_append find.simps if_True option.case simp_thms)
qed

lemma split_last_append:
  "\<not> has_sep (CHR '':'' # t) \<Longrightarrow> p \<noteq> [] \<Longrightarrow> t \<noteq> [] \<Longrightarrow> split_last (p @ ''::'' @ t) = Inr (p, t)"
  using last_sep_append[of t p] by (simp add: split_last_def ITEM_ID_SEPARATOR_def)

lemma has_sep_mem: "has_sep s \<Longrightarrow> CHR '':'' \<in> set (tl s)"
  by (induction s rule: has_sep.induct) (auto split: list.splits)

lemma repo_no_colon: "valid_repo_name r \<Longrightarrow> CHR '':'' \<notin> set r"
proof -
  have "\<not> is_segment_char (CHR '':'')" by (simp add: is_segment_char_def)
  then show "valid_repo_name r \<Longrightarrow> CHR '':'' \<notin> set r"
    by (auto simp: valid_repo_name_def isValidRepoSegment_def list_all_iff)
qed

lemma parse_item_id:
  assumes "key_wf (a, r, i)" "\<not> has_sep (CHR '':'' # i)"
  shows "parseQueueItemId (queueItemId a r i) =
    Inr \<lparr>ct_apiBaseUrl = JStr a, ct_repoFullName = JStr r, ct_identifier = JStr i\<rparr>"
proof -
  have r: "CHR '':'' \<notin> set r" "r \<noteq> []"
    using assms(1) repo_no_colon by (auto simp: key_wf_def valid_repo_name_def)
  then have "\<not> has_sep (CHR '':'' # r)" using has_sep_mem[of "CHR '':'' # r"] by auto
  then have "split_last (a @ ''::'' @ r) = Inr (a, r)"
    using assms(1) r by (intro split_last_append) (auto simp: key_wf_def nonblank_def)
  moreover have "split_last ((a @ ''::'' @ r) @ ''::'' @ i) = Inr (a @ ''::'' @ r, i)"
    using assms by (intro split_last_append) (auto simp: key_wf_def nonblank_def)
  ultimately show ?thesis by (simp add: parseQueueItemId_def queueItemId_def ITEM_ID_SEPARATOR_def)
qed


lemma trim_ends: "s \<noteq> [] \<Longrightarrow> trim s = s \<longleftrightarrow> \<not> is_ws (hd s) \<and> \<not> is_ws (last s)"
proof
  assume s: "s \<noteq> []" and t: "trim s = s"
  have l: "length (trim s) = length s" using t by simp
  have "length (dropWhile is_ws s) = length s"
    using l length_dropWhile_le[of is_ws s] length_dropWhile_le[of is_ws "rev (dropWhile is_ws s)"]
    by (simp add: trim_def)
  then have "dropWhile is_ws s = s"
    using length_dropWhile_le[of is_ws "tl s"] by (cases s) (auto split: if_splits)
  moreover from this t have "dropWhile is_ws (rev s) = rev s" by (metis trim_def rev_rev_ident)
  ultimately show "\<not> is_ws (hd s) \<and> \<not> is_ws (last s)"
    using s by (metis dropWhile_eq_Cons_conv dropWhile_eq_self_iff hd_rev rev_is_Nil_conv)
next
  assume "s \<noteq> []" "\<not> is_ws (hd s) \<and> \<not> is_ws (last s)"
  then have "dropWhile is_ws s = s" "dropWhile is_ws (rev s) = rev s"
    by (auto simp: dropWhile_eq_self_iff hd_rev)
  then show "trim s = s" by (simp add: trim_def)
qed

lemma nonblank_append: "nonblank a \<Longrightarrow> nonblank b \<Longrightarrow> nonblank (a @ m @ b)"
  using trim_ends[of a] trim_ends[of b] trim_ends[of "a @ m @ b"] by (auto simp: nonblank_def)

text \<open>A row as the engine sees it once its names are normalised.\<close>

definition group_key :: "PortfolioQueueDbRow \<Rightarrow> string" where
  "group_key r = toLowerCase (qr_apiBaseUrl r @ [CHR 0x0A] @ toLowerCase (qr_repoFullName r))"

definition engine_item :: "PortfolioQueueDbRow \<Rightarrow> PortfolioQueueItem" where
  "engine_item r =
     \<lparr>qi_id = queueItemId (qr_apiBaseUrl r) (qr_repoFullName r) (qr_identifier r), qi_repoFullName = group_key r,
      qi_state = (if qr_status r = QsInProgress then InProgress else Queued)\<rparr>"

definition bucket_items :: "(string \<times> PortfolioQueueBucket) list \<Rightarrow> PortfolioQueueItem list" where
  "bucket_items bs = concat (map (\<lambda>b. map normalizeItem (qb_items (snd b))) bs)"

lemma put_item_items: "mset (bucket_items (put_item k l item bs)) = add_mset (normalizeItem item) (mset (bucket_items bs))"
  by (induction k l item bs rule: put_item.induct) (auto simp: bucket_items_def)

lemma repo_nonblank: "valid_repo_name r \<Longrightarrow> nonblank r"
proof -
  assume "valid_repo_name r"
  then obtain a b where "r = a @ ''/'' @ b" "isValidRepoSegment a" "isValidRepoSegment b"
    by (auto simp: valid_repo_name_def)
  moreover have "\<not> is_ws (CHR ''/'')" by (simp add: is_ws_def)
  ultimately have "\<forall>c\<in>set r. \<not> is_ws c" "r \<noteq> []" using segment_plain(1) by auto
  then show ?thesis by (simp add: trim_fix nonblank_def)
qed

lemma add_entry_items:
  assumes "queue_row_wf r"
  shows "mset (bucket_items (add_queue_entry (queueRowToEntry r) bs)) = add_mset (engine_item r) (mset (bucket_items bs))"
proof -
  have k: "nonblank (qr_apiBaseUrl r)" "nonblank (qr_repoFullName r)" "nonblank (qr_identifier r)"
    using assms repo_nonblank by (auto simp: queue_row_wf_def key_wf_def row_key_def)
  then have "nonblank (toLowerCase (qr_repoFullName r))"
    by (simp add: nonblank_def trim_toLowerCase)
  then have "nonblank (qr_apiBaseUrl r @ [CHR 0x0A] @ toLowerCase (qr_repoFullName r))"
    and "nonblank (queueItemId (qr_apiBaseUrl r) (qr_repoFullName r) (qr_identifier r))"
    using nonblank_append[OF k(1), of "toLowerCase (qr_repoFullName r)" "[CHR 0x0A]"]
      nonblank_append[OF k(1,3), of "''::'' @ qr_repoFullName r @ ''::''"]
    by (simp_all add: queueItemId_def ITEM_ID_SEPARATOR_def)
  then show ?thesis using k
    by (simp add: add_queue_entry_def queueRowToEntry_def put_item_items normalizeItem_def engine_item_def cleanId_def
        cleanRepoFullName_def group_key_def normalizeState_def nonblank_def Let_def)
qed

lemma projected_items:
  assumes "list_all queue_row_wf rs" "\<forall>r \<in> set rs. qr_status r \<noteq> QsDone"
  shows "mset (all_items (entriesToPortfolioQueue (map queueRowToEntry rs))) = mset (map engine_item rs)"
proof -
  have "mset (bucket_items (fold add_queue_entry (map queueRowToEntry rs) bs)) =
      mset (map engine_item rs) + mset (bucket_items bs)" for bs
    using assms(1) by (induction rs arbitrary: bs) (auto simp: add_entry_items)
  moreover have "filter (\<lambda>e. qe_status e \<noteq> QsDone) (map queueRowToEntry rs) = map queueRowToEntry rs"
    using assms(2) by (auto simp: filter_id_conv queueRowToEntry_def)
  ultimately show ?thesis
    by (simp add: entriesToPortfolioQueue_def all_items_def bucket_items_def comp_def)
qed


section \<open>Lemmas: the claimed batch\<close>

definition target_of :: "PortfolioQueueDbRow \<Rightarrow> PortfolioQueueClaimTarget" where
  "target_of r = \<lparr>ct_apiBaseUrl = JStr (qr_apiBaseUrl r), ct_repoFullName = JStr (qr_repoFullName r),
     ct_identifier = JStr (qr_identifier r)\<rparr>"

text \<open>A row whose id the manager reads back: its identifier does not start with a colon.\<close>

definition addressable :: "PortfolioQueueDbRow \<Rightarrow> bool" where
  "addressable r \<longleftrightarrow> \<not> has_sep (CHR '':'' # qr_identifier r)"

lemma parse_engine_item:
  "queue_row_wf r \<Longrightarrow> addressable r \<Longrightarrow> parseQueueItemId (qi_id (engine_item r)) = Inr (target_of r)"
  by (simp add: engine_item_def target_of_def addressable_def parse_item_id queue_row_wf_def row_key_def)

lemma parse_all_items:
  "list_all (\<lambda>r. queue_row_wf r \<and> addressable r) rs \<Longrightarrow> parse_all (map engine_item rs) = Inr (map target_of rs)"
  by (induction rs) (simp_all add: parse_engine_item)

lemma engine_item_inj:
  assumes "store_wf rows" "\<forall>r \<in> set rows. addressable r"
  shows "inj_on (\<lambda>r. qi_id (engine_item r)) (set rows)"
proof (rule inj_onI)
  fix x y assume xy: "x \<in> set rows" "y \<in> set rows" "qi_id (engine_item x) = qi_id (engine_item y)"
  then have "Inr (target_of x) = (Inr (target_of y) :: string + PortfolioQueueClaimTarget)"
    using assms parse_engine_item by (metis list_all_iff store_wf_def)
  then have "row_key x = row_key y" by (simp add: target_of_def row_key_def)
  then show "x = y" using assms(1) xy by (auto simp: store_wf_def distinct_map dest: inj_onD)
qed

lemma claim_targets_rows:
  assumes "store_wf rows" "distinct (map row_key rs)" "\<forall>r \<in> set rs. \<exists>x \<in> set rows. row_key x = row_key r \<and> qr_status x = QsQueued"
  shows "\<exists>es. claim_targets t (map target_of rs) rows =
      Inr (es, map (\<lambda>x. if row_key x \<in> row_key ` set rs \<and> qr_status x = QsQueued then claim_row t x else x) rows) \<and>
    map (\<lambda>e. (qe_apiBaseUrl e, qe_repoFullName e, qe_identifier e)) es = map row_key rs"
  using assms
proof (induction rs arbitrary: rows)
  case (Cons r rs)
  let ?P = "\<lambda>x. row_key x = row_key r \<and> qr_status x = QsQueued"
  let ?g = "\<lambda>x. if ?P x then claim_row t x else x"
  let ?h = "\<lambda>x. if row_key x \<in> row_key ` set rs \<and> qr_status x = QsQueued then claim_row t x else x"
  obtain x where x: "x \<in> set rows" "?P x" using Cons.prems(3) by auto
  then have key: "normalize_key (ct_apiBaseUrl (target_of r)) (ct_repoFullName (target_of r)) (ct_identifier (target_of r)) =
      Inr (row_key r)"
    using Cons.prems(1) normalize_key_fix[of "qr_apiBaseUrl r" "qr_repoFullName r" "qr_identifier r"]
    by (auto simp: target_of_def store_wf_def list_all_iff queue_row_wf_def row_key_def)
  obtain y where y: "find ?P rows = Some y" using x by (cases "find ?P rows") (auto simp: find_None_iff)
  then have "row_key y = row_key r" by (auto simp: find_Some_iff)
  have u: "update_where ?P (claim_row t) rows = (Some (queueRowToEntry (claim_row t y)), map ?g rows)"
    using y by (simp add: update_where_def)
  have wf: "store_wf (map ?g rows)" by (rule update_where_wf[OF Cons.prems(1) u]) (auto intro: claim_row_wf)
  have nr: "row_key r \<notin> row_key ` set rs" using Cons.prems(2) by simp
  have "\<forall>q \<in> set rs. \<exists>x \<in> set (map ?g rows). row_key x = row_key q \<and> qr_status x = QsQueued"
  proof
    fix q assume q: "q \<in> set rs"
    then obtain z where z: "z \<in> set rows" "row_key z = row_key q" "qr_status z = QsQueued" using Cons.prems(3) by auto
    moreover have "row_key q \<noteq> row_key r" using nr q by (metis image_eqI)
    ultimately have "z \<in> set (map ?g rows)" by force
    with z show "\<exists>x \<in> set (map ?g rows). row_key x = row_key q \<and> qr_status x = QsQueued" by blast
  qed
  then obtain es where es: "claim_targets t (map target_of rs) (map ?g rows) = Inr (es, map ?h (map ?g rows))"
      "map (\<lambda>e. (qe_apiBaseUrl e, qe_repoFullName e, qe_identifier e)) es = map row_key rs"
    using Cons.IH[OF wf] Cons.prems(2) by auto
  moreover have "map ?h (map ?g rows) =
      map (\<lambda>x. if row_key x \<in> row_key ` set (r # rs) \<and> qr_status x = QsQueued then claim_row t x else x) rows"
    using nr by (auto simp: claim_row_def)
  moreover have "(qr_apiBaseUrl y, qr_repoFullName y, qr_identifier y) = row_key r"
    using \<open>row_key y = row_key r\<close> by (simp add: row_key_def)
  ultimately show ?case using key u by (simp add: queueRowToEntry_def claim_row_def)
qed simp


text \<open>Work in progress, in all and per host and repository.\<close>

definition in_progress :: "PortfolioQueueDbRow list \<Rightarrow> nat" where
  "in_progress rows = length (filter (\<lambda>r. qr_status r = QsInProgress) rows)"

definition in_progress_of :: "string \<Rightarrow> PortfolioQueueDbRow list \<Rightarrow> nat" where
  "in_progress_of k rows = length (filter (\<lambda>r. group_key r = k \<and> qr_status r = QsInProgress) rows)"

definition active_rows :: "PortfolioQueueDbRow list \<Rightarrow> PortfolioQueueDbRow list" where
  "active_rows rows = queue_order (filter (\<lambda>r. qr_status r \<in> {QsQueued, QsInProgress}) rows)"

lemma list_preimage: "\<forall>y \<in> set ys. \<exists>x. y = f x \<and> P x \<Longrightarrow> \<exists>xs. ys = map f xs \<and> (\<forall>x \<in> set xs. P x)"
proof (induction ys)
  case (Cons y ys)
  then obtain x xs where "y = f x" "P x" "ys = map f xs" "\<forall>x \<in> set xs. P x" by auto
  then show ?case by (intro exI[of _ "x # xs"]) simp
qed simp

lemma mset_active_rows: "mset (active_rows rows) = mset (filter (\<lambda>r. qr_status r \<in> {QsQueued, QsInProgress}) rows)"
  by (simp add: active_rows_def queue_order_def)

lemma active_items:
  assumes "store_wf rows"
  shows "mset (all_items (entriesToPortfolioQueue (map queueRowToEntry (active_rows rows)))) =
    mset (map engine_item (active_rows rows))"
proof (rule projected_items)
  show "list_all queue_row_wf (active_rows rows)"
    using assms by (auto simp: active_rows_def list_all_iff store_wf_def)
qed (auto simp: active_rows_def)

lemma length_filter_mset: "mset xs = mset ys \<Longrightarrow> length (filter P xs) = length (filter P ys)"
  by (metis mset_filter size_mset)

lemma active_counts:
  assumes "store_wf rows"
  shows "total_active (all_items (entriesToPortfolioQueue (map queueRowToEntry (active_rows rows)))) = in_progress rows"
    and "active_of k (all_items (entriesToPortfolioQueue (map queueRowToEntry (active_rows rows)))) = in_progress_of k rows"
proof -
  have cnt: "length (filter Q (all_items (entriesToPortfolioQueue (map queueRowToEntry (active_rows rows))))) =
      length (filter (\<lambda>r. qr_status r \<in> {QsQueued, QsInProgress} \<and> Q (engine_item r)) rows)" for Q
  proof -
    have "length (filter Q (all_items (entriesToPortfolioQueue (map queueRowToEntry (active_rows rows))))) =
        length (filter Q (map engine_item (active_rows rows)))"
      by (rule length_filter_mset[OF active_items[OF assms]])
    also have "\<dots> = length (filter (\<lambda>r. Q (engine_item r)) (active_rows rows))" by (simp add: filter_map comp_def)
    also have "\<dots> = length (filter (\<lambda>r. Q (engine_item r)) (filter (\<lambda>r. qr_status r \<in> {QsQueued, QsInProgress}) rows))"
      by (rule length_filter_mset[OF mset_active_rows])
    finally show ?thesis by (simp add: conj_commute)
  qed
  show "total_active (all_items (entriesToPortfolioQueue (map queueRowToEntry (active_rows rows)))) = in_progress rows"
    unfolding total_active_def cnt in_progress_def
    by (intro arg_cong[where f = length] filter_cong) (auto simp: isActiveItem_def engine_item_def)
  show "active_of k (all_items (entriesToPortfolioQueue (map queueRowToEntry (active_rows rows)))) = in_progress_of k rows"
    unfolding active_of_def cnt in_progress_of_def
    by (intro arg_cong[where f = length] filter_cong) (auto simp: isActiveItem_def engine_item_def)
qed

lemma distinct_ids:
  assumes "store_wf rows" "\<forall>r \<in> set rows. addressable r"
  shows "distinct (map qi_id (all_items (entriesToPortfolioQueue (map queueRowToEntry (active_rows rows)))))"
proof -
  have d: "distinct (active_rows rows)"
    using assms(1) mset_eq_imp_distinct_iff[OF mset_active_rows[of rows]] by (auto simp: store_wf_def distinct_map)
  have "inj_on (\<lambda>r. qi_id (engine_item r)) (set (active_rows rows))"
    by (rule inj_on_subset[OF engine_item_inj[OF assms]]) (auto simp: active_rows_def)
  with d have "distinct (map qi_id (map engine_item (active_rows rows)))" by (simp add: distinct_map comp_def)
  moreover have "mset (map qi_id (all_items (entriesToPortfolioQueue (map queueRowToEntry (active_rows rows))))) =
      mset (map qi_id (map engine_item (active_rows rows)))"
    using active_items[OF assms(1)] by (metis mset_map)
  ultimately show ?thesis using mset_eq_imp_distinct_iff by blast
qed

context wip_selector
begin

text \<open>Whatever selector with these laws is used: the batch is made of distinct queued rows and, added to the work in progress,
  stays within both caps.\<close>

lemma selected_rows:
  assumes wf: "store_wf rows" "\<forall>r \<in> set rows. addressable r"
    and caps: "representable (pc_globalWipCap caps)" "representable (pc_perRepoWipCap caps)"
  obtains rs where "select (entriesToPortfolioQueue (map queueRowToEntry (active_rows rows))) caps = map engine_item rs"
    and "distinct (map row_key rs)" "\<forall>r \<in> set rs. r \<in> set rows \<and> qr_status r = QsQueued"
    and "rs = [] \<or> num_le (num_of_nat (in_progress rows + length rs)) (wipCapInt (pc_globalWipCap caps))"
    and "\<forall>k. filter (\<lambda>r. group_key r = k) rs = [] \<or>
      num_le (num_of_nat (in_progress_of k rows + length (filter (\<lambda>r. group_key r = k) rs)))
        (wipCapInt (pc_perRepoWipCap caps))"
proof -
  let ?q = "entriesToPortfolioQueue (map queueRowToEntry (active_rows rows))"
  have "\<forall>i \<in> set (select ?q caps). \<exists>r. i = engine_item r \<and> (r \<in> set rows \<and> qr_status r = QsQueued)"
  proof
    fix i assume i: "i \<in> set (select ?q caps)"
    obtain r where r: "r \<in> set (active_rows rows)" "i = engine_item r"
      using selected_queued(1)[OF caps i] mset_eq_setD[OF active_items[OF wf(1)]] by auto
    moreover have "isQueuedItem i" using selected_queued(2)[OF caps i] .
    ultimately have "r \<in> set rows \<and> qr_status r = QsQueued"
      by (auto simp: active_rows_def isQueuedItem_def engine_item_def split: if_splits)
    then show "\<exists>r. i = engine_item r \<and> (r \<in> set rows \<and> qr_status r = QsQueued)" using r(2) by blast
  qed
  from list_preimage[OF this] obtain rs where sel: "select ?q caps = map engine_item rs"
    and rs: "\<forall>r \<in> set rs. r \<in> set rows \<and> qr_status r = QsQueued" by blast
  have "distinct (map qi_id (select ?q caps))" using selected_distinct[OF caps] distinct_ids[OF wf] by blast
  then have "distinct (map (\<lambda>(a, r, i). queueItemId a r i) (map row_key rs))"
    by (simp add: sel comp_def engine_item_def row_key_def)
  then have d: "distinct (map row_key rs)" by (simp only: distinct_map)
  have "filter (\<lambda>i. qi_repoFullName i = k) (select ?q caps) = map engine_item (filter (\<lambda>r. group_key r = k) rs)" for k
    by (simp add: sel filter_map comp_def engine_item_def)
  then have "\<forall>k. filter (\<lambda>r. group_key r = k) rs = [] \<or>
      num_le (num_of_nat (in_progress_of k rows + length (filter (\<lambda>r. group_key r = k) rs)))
        (wipCapInt (pc_perRepoWipCap caps))"
    using per_repo[OF caps, of _ ?q] active_counts(2)[OF wf(1)] by (metis length_map map_is_Nil_conv)
  moreover have "rs = [] \<or> num_le (num_of_nat (in_progress rows + length rs)) (wipCapInt (pc_globalWipCap caps))"
    using overall[OF caps, of ?q] active_counts(1)[OF wf(1)] by (simp add: sel)
  ultimately show thesis using that sel d rs by blast
qed

end


lemma group_key_claim [simp]: "group_key (claim_row t r) = group_key r"
  by (simp add: group_key_def claim_row_def)

lemma claimed_count:
  assumes wf: "store_wf rows" and d: "distinct (map row_key rs)" and rs: "\<forall>r \<in> set rs. r \<in> set rows \<and> qr_status r = QsQueued"
    and G: "\<And>r. G (claim_row t r) = G r"
  shows "length (filter (\<lambda>r. G r \<and> qr_status r = QsInProgress)
      (map (\<lambda>x. if row_key x \<in> row_key ` set rs \<and> qr_status x = QsQueued then claim_row t x else x) rows)) =
    length (filter (\<lambda>r. G r \<and> qr_status r = QsInProgress) rows) + length (filter G rs)"
proof -
  let ?C = "\<lambda>x. row_key x \<in> row_key ` set rs \<and> qr_status x = QsQueued"
  have "length (filter (\<lambda>r. G r \<and> qr_status r = QsInProgress) (map (\<lambda>x. if ?C x then claim_row t x else x) xs)) =
      length (filter (\<lambda>r. G r \<and> qr_status r = QsInProgress) xs) + length (filter (\<lambda>x. G x \<and> ?C x) xs)" for xs
    by (induction xs) (use G in \<open>auto simp: claim_row_def\<close>)
  moreover have "length (filter (\<lambda>x. G x \<and> ?C x) rows) = length (filter G rs)"
  proof -
    have inj: "inj_on row_key (set rows)" using wf by (simp add: store_wf_def distinct_map)
    have "set (filter (\<lambda>x. G x \<and> ?C x) rows) = set (filter G rs)"
      using rs inj by (auto dest: inj_onD)
    moreover have "distinct (filter (\<lambda>x. G x \<and> ?C x) rows)" "distinct (filter G rs)"
      using wf d by (auto simp: store_wf_def distinct_map)
    ultimately show ?thesis using distinct_card[of "filter (\<lambda>x. G x \<and> ?C x) rows"] distinct_card[of "filter G rs"] by simp
  qed
  ultimately show ?thesis by simp
qed

lemma wipCapInt_idem:
  assumes "representable c" shows "wipCapInt (wipCapInt c) = wipCapInt c" "representable (wipCapInt c)"
proof -
  have "wipCapInt (num_of_nat k) = num_of_nat k" for k by (simp add: wipCapInt_def of_nat_floor)
  moreover have "wipCapInt PInf = PInf" by (simp add: wipCapInt_def)
  ultimately have "wipCapInt (wipCapInt c) = wipCapInt c \<and> representable (wipCapInt c)"
    by (cases rule: wipCapInt_cases[OF assms]) (simp_all add: representable_def)
  then show "wipCapInt (wipCapInt c) = wipCapInt c" "representable (wipCapInt c)" by simp_all
qed

lemma normalizePortfolioCaps_wipCapInt:
  "normalizePortfolioCaps (Some g) (Some p) = \<lparr>pc_globalWipCap = wipCapInt g, pc_perRepoWipCap = wipCapInt p\<rparr>"
  by (simp add: normalizePortfolioCaps_def wipCapInt_def Let_def)

definition entry_key :: "QueueEntry \<Rightarrow> queue_key" where
  "entry_key e = (qe_apiBaseUrl e, qe_repoFullName e, qe_identifier e)"

lemma batchClaim_selected:
  assumes wf: "store_wf rows" "\<forall>r \<in> set rows. addressable r"
    and caps: "representable (pc_globalWipCap caps)" "representable (pc_perRepoWipCap caps)"
  obtains rs es rows' where "batchClaim t (selectEligibleBatch caps) rows = (Inr es, rows')"
    and "map entry_key es = map row_key rs" "\<forall>r \<in> set rs. r \<in> set rows \<and> qr_status r = QsQueued"
    and "rs = [] \<or> num_le (num_of_nat (in_progress rows')) (wipCapInt (pc_globalWipCap caps))"
    and "\<forall>k. filter (\<lambda>r. group_key r = k) rs = [] \<or>
      num_le (num_of_nat (in_progress_of k rows')) (wipCapInt (pc_perRepoWipCap caps))"
proof -
  let ?n = "\<lparr>pc_globalWipCap = wipCapInt (pc_globalWipCap caps), pc_perRepoWipCap = wipCapInt (pc_perRepoWipCap caps)\<rparr>"
  let ?claimed = "\<lambda>rs x. if row_key x \<in> row_key ` set rs \<and> qr_status x = QsQueued then claim_row t x else x"
  have ncaps: "representable (pc_globalWipCap ?n)" "representable (pc_perRepoWipCap ?n)"
    using caps by (simp_all add: wipCapInt_idem)
  obtain rs where sel: "nextEligibleItems (entriesToPortfolioQueue (map queueRowToEntry (active_rows rows))) ?n = map engine_item rs"
    and rs: "distinct (map row_key rs)" "\<forall>r \<in> set rs. r \<in> set rows \<and> qr_status r = QsQueued"
    and lim: "rs = [] \<or> num_le (num_of_nat (in_progress rows + length rs)) (wipCapInt (pc_globalWipCap ?n))"
    "\<forall>k. filter (\<lambda>r. group_key r = k) rs = [] \<or>
      num_le (num_of_nat (in_progress_of k rows + length (filter (\<lambda>r. group_key r = k) rs))) (wipCapInt (pc_perRepoWipCap ?n))"
    using selector.selected_rows[OF wf ncaps] by blast
  let ?rows' = "map (?claimed rs) rows"
  have "list_all (\<lambda>r. queue_row_wf r \<and> addressable r) rs"
    using rs(2) wf by (auto simp: list_all_iff store_wf_def)
  then have "selectEligibleBatch caps (map queueRowToEntry (active_rows rows)) = Inr (map target_of rs)"
    using sel by (simp add: selectEligibleBatch_def normalizePortfolioCaps_wipCapInt parse_all_items Let_def)
  moreover obtain es where es: "claim_targets t (map target_of rs) rows = Inr (es, ?rows')"
      "map entry_key es = map row_key rs"
    using claim_targets_rows[OF wf(1) rs(1), of t] rs(2) by (fastforce simp: entry_key_def[abs_def])
  ultimately have run: "batchClaim t (selectEligibleBatch caps) rows = (Inr es, ?rows')"
    unfolding batchClaim_def active_rows_def[symmetric] Let_def by simp
  have cnt: "in_progress ?rows' = in_progress rows + length rs"
    "in_progress_of k ?rows' = in_progress_of k rows + length (filter (\<lambda>r. group_key r = k) rs)" for k
    using claimed_count[OF wf(1) rs, of "\<lambda>_. True" t] claimed_count[OF wf(1) rs, of "\<lambda>r. group_key r = k" t]
    by (simp_all add: in_progress_def in_progress_of_def)
  show thesis
  proof (rule that[OF run es(2) rs(2)])
    show "rs = [] \<or> num_le (num_of_nat (in_progress ?rows')) (wipCapInt (pc_globalWipCap caps))"
      using lim(1) caps unfolding cnt by (simp add: wipCapInt_idem)
    show "\<forall>k. filter (\<lambda>r. group_key r = k) rs = [] \<or>
        num_le (num_of_nat (in_progress_of k ?rows')) (wipCapInt (pc_perRepoWipCap caps))"
      using lim(2) caps unfolding cnt by (simp add: wipCapInt_idem)
  qed
qed


text \<open>C30: the manager's batch never exceeds the limits. On a store in any reachable state whose identifiers do not start
  with a colon, a claim returns; the items it returns were waiting once stale leases were swept, and with them the work
  in progress is within the global cap, and that of each host and repository that got an item within its cap (an
  infinite cap is no cap).\<close>

theorem claimNextBatch_within_caps:
  assumes "queue_step\<^sup>*\<^sup>* [] rows" and "\<forall>r \<in> set rows. addressable r"
    and "m = initPortfolioQueueManager (Some (Some g, Some p)) stale" "representable g" "representable p"
    and "isFinite nowMs" "\<not> num_lt nowMs (Fin 0)" "\<not> num_lt (qm_staleLeaseMs m) (Fin 0)"
  shows "\<exists>es rows1 rows' rs. claimNextBatch parse_date nowMs now m rows = (Inr es, rows') \<and>
    snd (sweepStuckItems parse_date nowMs (qm_staleLeaseMs m) rows) = rows1 \<and>
    map entry_key es = map row_key rs \<and> (\<forall>r \<in> set rs. r \<in> set rows1 \<and> qr_status r = QsQueued) \<and>
    (es = [] \<or> num_le (num_of_nat (in_progress rows')) (wipCapInt g)) \<and>
    (\<forall>k. k \<notin> group_key ` set rs \<or> num_le (num_of_nat (in_progress_of k rows')) (wipCapInt p))"
proof -
  let ?rows1 = "map (\<lambda>r. if is_stuck parse_date nowMs (qm_staleLeaseMs m) (rowToLeaseEntry r) then release_row r else r) rows"
  have wf: "store_wf rows" using queue_steps_wf[OF assms(1)] by (simp add: store_wf_def)
  have stale: "isFinite (qm_staleLeaseMs m)"
    unfolding assms(3) by (simp add: initPortfolioQueueManager_def DEFAULT_MAX_LEASE_MS_def split: option.split)
  have caps: "qm_caps m = \<lparr>pc_globalWipCap = wipCapInt g, pc_perRepoWipCap = wipCapInt p\<rparr>"
    unfolding assms(3) by (simp add: initPortfolioQueueManager_def normalizePortfolioCaps_wipCapInt)
  obtain es0 where sweep: "sweepStuckItems parse_date nowMs (qm_staleLeaseMs m) rows = (Inr es0, ?rows1)"
    using sweep_rows[OF wf assms(6,7) stale assms(8), of parse_date] by blast
  have "store_wf ?rows1" using wf by (rule store_wf_map) (auto simp: is_stuck_def rowToLeaseEntry_def intro: release_row_wf)
  moreover have "\<forall>r \<in> set ?rows1. addressable r" using assms(2) by (auto simp: addressable_def release_row_def)
  ultimately obtain rs es rows' where r: "batchClaim now (selectEligibleBatch (qm_caps m)) ?rows1 = (Inr es, rows')"
    "map entry_key es = map row_key rs" "\<forall>r \<in> set rs. r \<in> set ?rows1 \<and> qr_status r = QsQueued"
    "rs = [] \<or> num_le (num_of_nat (in_progress rows')) (wipCapInt (pc_globalWipCap (qm_caps m)))"
    "\<forall>k. filter (\<lambda>r. group_key r = k) rs = [] \<or>
      num_le (num_of_nat (in_progress_of k rows')) (wipCapInt (pc_perRepoWipCap (qm_caps m)))"
    by (rule batchClaim_selected[where t = now and caps = "qm_caps m" and rows = ?rows1])
      (use assms(4,5) in \<open>simp_all add: caps wipCapInt_idem\<close>)
  have "claimNextBatch parse_date nowMs now m rows = (Inr es, rows')" using sweep r(1) by (simp add: claimNextBatch_def)
  moreover have "es = [] \<longleftrightarrow> rs = []" using r(2) by (metis map_is_Nil_conv)
  moreover have "k \<notin> group_key ` set rs \<longleftrightarrow> filter (\<lambda>r. group_key r = k) rs = []" for k
    by (auto simp: filter_empty_conv)
  ultimately show ?thesis using sweep r(2-5) assms(4,5)
    by (intro exI[of _ es] exI[of _ ?rows1] exI[of _ rows'] exI[of _ rs]) (simp add: caps wipCapInt_idem)
qed

text \<open>the item id is read back as it was written, for every host, every repository and every identifier the store
  accepts, unless the identifier starts with a colon.\<close>

theorem parse_queueItemId:
  assumes "normalize_key a r i = Inr (api, repo, ident)" "hd ident \<noteq> CHR '':''"
  shows "parseQueueItemId (queueItemId api repo ident) =
    Inr \<lparr>ct_apiBaseUrl = JStr api, ct_repoFullName = JStr repo, ct_identifier = JStr ident\<rparr>"
proof -
  have "key_wf (api, repo, ident)" using normalize_key_wf[OF assms(1)] .
  moreover have "\<not> has_sep (CHR '':'' # ident)"
    using calculation assms(2) by (cases ident) (auto simp: key_wf_def)
  ultimately show ?thesis by (rule parse_item_id)
qed

theorem parse_queueItemId_witness:
  "parseQueueItemId (queueItemId DEFAULT_API_BASE_URL ''o/r'' ''a'') =
    Inr \<lparr>ct_apiBaseUrl = JStr DEFAULT_API_BASE_URL, ct_repoFullName = JStr ''o/r'', ct_identifier = JStr ''a''\<rparr>"
  by (rule parse_queueItemId[OF sample_key(1)]) simp


lemma sample_addressable: "\<forall>r \<in> set [sample_row 1 ''a'' 1, sample_row 2 ''b'' 2]. addressable r"
  by (simp add: addressable_def sample_row_def)

theorem claimNextBatch_within_caps_witness:
  "\<exists>es rows'. claimNextBatch (\<lambda>_. Fin 0) (Fin 5) ''t'' (initPortfolioQueueManager (Some (Some (Fin 1), Some (Fin 1))) None)
      [sample_row 1 ''a'' 1, sample_row 2 ''b'' 2] = (Inr es, rows') \<and>
     (es = [] \<or> num_le (num_of_nat (in_progress rows')) (wipCapInt (Fin 1)))"
proof -
  have "representable (Fin 1)" using num_max_large by (simp add: representable_def)
  then show ?thesis
    using claimNextBatch_within_caps[OF sample_rows sample_addressable refl, where g = "Fin 1" and p = "Fin 1"
        and stale = None and nowMs = "Fin 5" and now = "''t''" and parse_date = "\<lambda>_. Fin 0"]
    by (auto simp: initPortfolioQueueManager_def DEFAULT_MAX_LEASE_MS_def)
qed


section \<open>Lemmas: identifiers with a leading colon\<close>

lemma split_on_join: "str_join [c] (split_on c s) = s \<and> split_on c s \<noteq> []"
proof (induction s)
  case (Cons x xs)
  then show ?case by (cases "split_on c xs" rule: str_join.cases[of "([c], _)", simplified]) auto
qed simp

lemma normalizeQueueRepo_trim:
  assumes "normalizeQueueRepo (JStr s) = Inr x" shows "x = trim s"
proof -
  obtain a b where ab: "split_on (CHR ''/'') (trim s) = [a, b]" "x = a @ ''/'' @ b"
    using assms by (auto simp: normalizeQueueRepo_def split: list.splits if_splits)
  then show ?thesis using split_on_join[of "CHR ''/''" "trim s"] by simp
qed

lemma set_trim_visible: "c \<in> set s \<Longrightarrow> \<not> is_ws c \<Longrightarrow> c \<in> set (trim s)"
proof -
  have "c \<in> set (dropWhile is_ws xs)" if "c \<in> set xs" "\<not> is_ws c" for xs
    using that by (induction xs) auto
  then show "c \<in> set s \<Longrightarrow> \<not> is_ws c \<Longrightarrow> c \<in> set (trim s)" by (simp add: trim_def)
qed

lemma repo_colon_rejected: "\<exists>e. normalize_key a (JStr (r @ '':'')) i = Inl e"
proof (rule ccontr)
  assume "\<not> ?thesis"
  then obtain k where "normalize_key a (JStr (r @ '':'')) i = Inr k" by (cases "normalize_key a (JStr (r @ '':'')) i") auto
  then obtain x where x: "normalizeQueueRepo (JStr (r @ '':'')) = Inr x" by (auto simp: normalize_key_def and_then_Inr)
  then have "valid_repo_name x" using normalizeOptionalRepoFullName_valid normalizeQueueRepo_optional by blast
  moreover have "CHR '':'' \<in> set x"
    unfolding normalizeQueueRepo_trim[OF x] by (rule set_trim_visible) (simp_all add: is_ws_def)
  ultimately show False using repo_no_colon by blast
qed

lemma has_sep_snoc: "CHR '':'' \<notin> set r \<Longrightarrow> r \<noteq> [] \<Longrightarrow> \<not> has_sep (CHR '':'' # r @ '':'')"
proof -
  have "\<not> has_sep (s @ '':'')" if "CHR '':'' \<notin> set s" for s
    using that by (induction s rule: has_sep.induct) (auto split: list.splits)
  from this[of r] show "CHR '':'' \<notin> set r \<Longrightarrow> r \<noteq> [] \<Longrightarrow> \<not> has_sep (CHR '':'' # r @ '':'')" by (cases r) auto
qed

lemma parse_leading_colon:
  assumes "key_wf (a, r, CHR '':'' # x)" "parseQueueItemId (queueItemId a r (CHR '':'' # x)) = Inr t"
  shows "ct_repoFullName t = JStr (r @ '':'')"
proof -
  have r: "CHR '':'' \<notin> set r" "r \<noteq> []"
    using assms(1) repo_no_colon by (auto simp: key_wf_def valid_repo_name_def)
  have x: "\<not> has_sep (CHR '':'' # x)" using assms(1) by (simp add: key_wf_def)
  have id: "queueItemId a r (CHR '':'' # x) = (a @ ''::'' @ r @ '':'') @ ''::'' @ x"
    by (simp add: queueItemId_def ITEM_ID_SEPARATOR_def)
  have "x \<noteq> []"
    using assms(2) last_sep_append[OF x, of "a @ ''::'' @ r @ '':''"]
    by (auto simp: parseQueueItemId_def id split_last_def ITEM_ID_SEPARATOR_def)
  then have "split_last (queueItemId a r (CHR '':'' # x)) = Inr (a @ ''::'' @ r @ '':'', x)"
    unfolding id using x by (intro split_last_append) simp_all
  moreover have "split_last (a @ ''::'' @ (r @ '':'')) = Inr (a, r @ '':'')"
    using assms(1) has_sep_snoc[OF r] by (intro split_last_append) (auto simp: key_wf_def nonblank_def)
  ultimately show ?thesis using assms(2) by (auto simp: parseQueueItemId_def)
qed

lemma parse_all_mem: "parse_all items = Inr ts \<Longrightarrow> i \<in> set items \<Longrightarrow> \<exists>t \<in> set ts. parseQueueItemId (qi_id i) = Inr t"
  by (induction items arbitrary: ts) (auto simp: and_then_Inr)

lemma claim_targets_bad:
  "t \<in> set ts \<Longrightarrow> \<exists>e. normalize_key (ct_apiBaseUrl t) (ct_repoFullName t) (ct_identifier t) = Inl e \<Longrightarrow>
     \<exists>e. claim_targets now ts rows = Inl e"
proof (induction ts arbitrary: rows)
  case (Cons u us)
  show ?case
  proof (cases "normalize_key (ct_apiBaseUrl u) (ct_repoFullName u) (ct_identifier u)")
    case (Inr k)
    then have t: "t \<in> set us" using Cons.prems by auto
    obtain row rows1 where u: "update_where (\<lambda>r. row_key r = k \<and> qr_status r = QsQueued) (claim_row now) rows = (row, rows1)"
      by fastforce
    obtain e where "claim_targets now us rows1 = Inl e" using Cons.IH[OF t Cons.prems(2)] by blast
    then show ?thesis using Inr u by simp
  qed simp
qed simp

text \<open>an identifier that starts with a colon poisons the batch. The store accepts it, but its id is not read back as it
  was written, so as long as such an item waits every batch of an uncapped manager throws and is rolled back: nothing is
  claimed, the other waiting items included.\<close>

theorem leading_colon_blocks_the_batch:
  assumes "queue_step\<^sup>*\<^sup>* [] rows" and "r \<in> set rows" "qr_status r = QsQueued" "qr_identifier r = CHR '':'' # x"
    and "m = initPortfolioQueueManager (Some (Some PInf, Some PInf)) None"
    and "isFinite nowMs" "\<not> num_lt nowMs (Fin 0)"
  shows "\<exists>e. claimNextBatch parse_date nowMs now m rows =
    (Inl e, snd (sweepStuckItems parse_date nowMs (qm_staleLeaseMs m) rows))"
proof -
  let ?rows1 = "map (\<lambda>r. if is_stuck parse_date nowMs (qm_staleLeaseMs m) (rowToLeaseEntry r) then release_row r else r) rows"
  let ?q = "entriesToPortfolioQueue (map queueRowToEntry (active_rows ?rows1))"
  have wf: "store_wf rows" using queue_steps_wf[OF assms(1)] by (simp add: store_wf_def)
  have m: "qm_staleLeaseMs m = Fin 1800000" "qm_caps m = \<lparr>pc_globalWipCap = PInf, pc_perRepoWipCap = PInf\<rparr>"
    unfolding assms(5) by (simp_all add: initPortfolioQueueManager_def normalizePortfolioCaps_def DEFAULT_MAX_LEASE_MS_def Let_def)
  obtain es0 where sweep: "sweepStuckItems parse_date nowMs (qm_staleLeaseMs m) rows = (Inr es0, ?rows1)"
    using sweep_rows[OF wf assms(6,7), of "qm_staleLeaseMs m" parse_date] m by auto
  have wf1: "store_wf ?rows1" using wf by (rule store_wf_map) (auto simp: is_stuck_def rowToLeaseEntry_def intro: release_row_wf)
  have "r \<in> set ?rows1" using assms(2,3) by (force simp: is_stuck_def rowToLeaseEntry_def)
  then have r1: "r \<in> set (active_rows ?rows1)" and rwf: "queue_row_wf r"
    using assms(3) wf1 by (auto simp: active_rows_def store_wf_def list_all_iff)
  have "engine_item r \<in> set (all_items ?q)" using r1 mset_eq_setD[OF active_items[OF wf1]] by auto
  then have sel: "engine_item r \<in> set (nextEligibleItems ?q \<lparr>pc_globalWipCap = PInf, pc_perRepoWipCap = PInf\<rparr>)"
    using uncapped_selects_all[of ?q] assms(3) by (auto simp: isQueuedItem_def engine_item_def)
  have "\<exists>e. and_then (selectEligibleBatch (qm_caps m) (map queueRowToEntry (active_rows ?rows1)))
      (\<lambda>targets. claim_targets now targets ?rows1) = Inl e"
  proof (cases "selectEligibleBatch (qm_caps m) (map queueRowToEntry (active_rows ?rows1))")
    case (Inr ts)
    then have "parse_all (nextEligibleItems ?q \<lparr>pc_globalWipCap = PInf, pc_perRepoWipCap = PInf\<rparr>) = Inr ts"
      by (simp add: selectEligibleBatch_def m(2) normalizePortfolioCaps_def Let_def)
    then obtain t where t: "t \<in> set ts" "parseQueueItemId (qi_id (engine_item r)) = Inr t"
      using parse_all_mem sel by blast
    then have "ct_repoFullName t = JStr (qr_repoFullName r @ '':'')"
      using rwf assms(4) by (intro parse_leading_colon[of "qr_apiBaseUrl r" _ x])
        (simp_all add: engine_item_def queue_row_wf_def row_key_def)
    then have "\<exists>e. normalize_key (ct_apiBaseUrl t) (ct_repoFullName t) (ct_identifier t) = Inl e"
      by (simp add: repo_colon_rejected)
    then show ?thesis using claim_targets_bad[OF t(1)] Inr by simp
  qed simp
  then show ?thesis using sweep
    unfolding claimNextBatch_def batchClaim_def active_rows_def[symmetric] Let_def by auto
qed

lemma colon_rows: "queue_step\<^sup>*\<^sup>* [] [sample_row 1 '':x'' 2, sample_row 2 ''b'' 1]"
proof -
  have key: "normalize_key JUndef (JStr ''o/r'') (JStr '':x'') = Inr (DEFAULT_API_BASE_URL, ''o/r'', '':x'')"
    by code_simp
  have "\<exists>e. enqueue ''t'' (sample_item '':x'' 2) [] = Inr (e, [sample_row 1 '':x'' 2])"
    by (simp add: enqueue_def sample_item_def key normalizePriority_def enqueue_row_def next_rowid_def
        sample_row_def Let_def)
  moreover have "\<exists>e. enqueue ''t'' (sample_item ''b'' 1) [sample_row 1 '':x'' 2] =
      Inr (e, [sample_row 1 '':x'' 2, sample_row 2 ''b'' 1])"
    by (simp add: enqueue_def sample_item_def sample_key normalizePriority_def enqueue_row_def next_rowid_def
        sample_row_def row_key_def Let_def)
  ultimately show ?thesis by (blast intro: q_enqueue rtranclp.rtrancl_into_rtrancl rtranclp.rtrancl_refl)
qed

theorem leading_colon_blocks_the_batch_witness:
  "\<exists>e rows'. claimNextBatch (\<lambda>_. Fin 0) (Fin 5) ''t'' (initPortfolioQueueManager (Some (Some PInf, Some PInf)) None)
     [sample_row 1 '':x'' 2, sample_row 2 ''b'' 1] = (Inl e, rows')"
  using leading_colon_blocks_the_batch[OF colon_rows _ _ _ refl, where r = "sample_row 1 '':x'' 2" and x = "''x''"
      and nowMs = "Fin 5" and now = "''t''" and parse_date = "\<lambda>_. Fin 0"]
  by (auto simp: sample_row_def)

end
