(* ===== verification/Local_Write.thy ===== *)
theory Local_Write
  imports Governor_Ledger
begin

text \<open>
  The local write actions (\<open>packages/loopover-engine/src/miner/local-write-tools.ts\<close>): builders of action specs whose
  \<open>command\<close> a harness runs with \<open>sh -c\<close>. LoopOver itself never performs the write.

  Strings are byte sequences; an issue or pull-request number is a natural number printed in decimal. The reference is a
  lexer for the part of the shell language the commands use: blanks separate words, single quotes keep everything
  literal, a backslash keeps the next character, \<open>&&\<close> joins commands, and any other special character outside quotes
  is an error. The lemmas show that each command is read back as exactly the intended argument vectors, whatever the
  inputs are, and what the composer of follow-up issues bounds and strips.
\<close>

section \<open>Definitions\<close>

definition LOCAL_WRITE_BOUNDARY :: string where
  "LOCAL_WRITE_BOUNDARY =
     ''Run this locally with your OWN GitHub credentials (e.g. an authenticated `gh`/`git`). LoopOver supplies the content but never performs the write '' @ em_dash @ '' your code and the action both stay on your machine.''"

record LocalWriteActionSpec =
  lw_action :: string
  lw_description :: string
  lw_inputs :: "(string \<times> jsval) list"
  lw_command :: string
  lw_boundary :: string

definition sq_char :: "char \<Rightarrow> string" where
  "sq_char c = (if c = CHR 0x27 then [CHR 0x27, CHR 0x5C, CHR 0x27, CHR 0x27] else [c])"

definition sq :: "string \<Rightarrow> string" where
  "sq v = [CHR 0x27] @ concat (map sq_char v) @ [CHR 0x27]"

definition action_spec :: "string \<Rightarrow> string \<Rightarrow> (string \<times> jsval) list \<Rightarrow> string \<Rightarrow> LocalWriteActionSpec" where
  "action_spec action description inputs command =
     \<lparr>lw_action = action, lw_description = description, lw_inputs = inputs, lw_command = command,
      lw_boundary = LOCAL_WRITE_BOUNDARY\<rparr>"

definition jnat :: "nat \<Rightarrow> jsval" where
  "jnat n = JNum (num_of_nat n)"

definition buildOpenPrSpec ::
  "string \<Rightarrow> string \<Rightarrow> string \<Rightarrow> string \<Rightarrow> string \<Rightarrow> bool option \<Rightarrow> LocalWriteActionSpec" where
  "buildOpenPrSpec repoFullName base head title body draftOpt =
     (let draft = (draftOpt = Some True);
          command = ''gh pr create --repo '' @ sq repoFullName @ '' --base '' @ sq base @ '' --head '' @ sq head @
            '' --title '' @ sq title @ '' --body '' @ sq body @ (if draft then '' --draft'' else [])
      in action_spec ''open_pr'' ''Open a pull request from your local branch.''
           [(''repoFullName'', JStr repoFullName), (''base'', JStr base), (''head'', JStr head), (''title'', JStr title),
            (''body'', JStr body), (''draft'', JBool draft)] command)"

definition buildClosePrSpec :: "string \<Rightarrow> nat \<Rightarrow> string option \<Rightarrow> LocalWriteActionSpec" where
  "buildClosePrSpec repoFullName number commentOpt =
     (let comment = or_default commentOpt [];
          closeCommand = ''gh pr close '' @ show_nat number @ '' --repo '' @ sq repoFullName;
          command = (if comment \<noteq> [] then closeCommand @ '' && gh pr comment '' @ show_nat number @ '' --repo '' @
              sq repoFullName @ '' --body '' @ sq comment else closeCommand)
      in action_spec ''close_pr'' ''Close a pull request you opened.''
           ([(''repoFullName'', JStr repoFullName), (''number'', jnat number)] @
            (if comment \<noteq> [] then [(''comment'', JStr comment)] else [])) command)"

definition label_args :: "string \<Rightarrow> string list \<Rightarrow> string" where
  "label_args flag labels = concat (map (\<lambda>label. [CHR 0x20] @ flag @ [CHR 0x20] @ sq label) labels)"

definition buildFileIssueSpec ::
  "string \<Rightarrow> string \<Rightarrow> string \<Rightarrow> string list option \<Rightarrow> LocalWriteActionSpec" where
  "buildFileIssueSpec repoFullName title body labelsOpt =
     (let labels = or_default labelsOpt [];
          command = ''gh issue create --repo '' @ sq repoFullName @ '' --title '' @ sq title @ '' --body '' @ sq body @
            label_args ''--label'' labels
      in action_spec ''file_issue'' ''File a new issue.''
           [(''repoFullName'', JStr repoFullName), (''title'', JStr title), (''body'', JStr body),
            (''labels'', JArr (map JStr labels))] command)"

definition buildApplyLabelsSpec :: "string \<Rightarrow> nat \<Rightarrow> string list \<Rightarrow> LocalWriteActionSpec" where
  "buildApplyLabelsSpec repoFullName number labels =
     action_spec ''apply_labels'' ''Add labels to an issue or pull request.''
       [(''repoFullName'', JStr repoFullName), (''number'', jnat number), (''labels'', JArr (map JStr labels))]
       (''gh issue edit '' @ show_nat number @ '' --repo '' @ sq repoFullName @ label_args ''--add-label'' labels)"

definition buildPostEligibilityCommentSpec :: "string \<Rightarrow> nat \<Rightarrow> string \<Rightarrow> LocalWriteActionSpec" where
  "buildPostEligibilityCommentSpec repoFullName number body =
     action_spec ''post_eligibility_comment'' ''Post an eligibility/context comment on an issue or pull request.''
       [(''repoFullName'', JStr repoFullName), (''number'', jnat number), (''body'', JStr body)]
       (''gh issue comment '' @ show_nat number @ '' --repo '' @ sq repoFullName @ '' --body '' @ sq body)"

definition buildCreateBranchSpec :: "string \<Rightarrow> string option \<Rightarrow> LocalWriteActionSpec" where
  "buildCreateBranchSpec branch baseOpt =
     (let base = or_default baseOpt [] in
      action_spec ''create_branch'' ''Create a local branch.''
        ([(''branch'', JStr branch)] @ (if base \<noteq> [] then [(''base'', JStr base)] else []))
        (''git switch -c '' @ sq branch @ (if base \<noteq> [] then [CHR 0x20] @ sq base else [])))"

definition buildDeleteBranchSpec :: "string \<Rightarrow> bool option \<Rightarrow> LocalWriteActionSpec" where
  "buildDeleteBranchSpec branch remote =
     action_spec ''delete_branch'' ''Delete a branch (locally, and optionally on origin).''
       [(''branch'', JStr branch), (''remote'', JBool (remote = Some True))]
       (''git branch -D '' @ sq branch @
        (if remote = Some True then '' && git push origin --delete '' @ sq branch else []))"

definition buildTestGenSpec ::
  "string \<Rightarrow> string list \<Rightarrow> string \<Rightarrow> string option \<Rightarrow> string list option \<Rightarrow> LocalWriteActionSpec" where
  "buildTestGenSpec repoFullName targetFiles framework testDir criteriaOpt =
     (let criteria = or_default criteriaOpt [];
          targetList = str_join '', '' targetFiles;
          criteriaList = (if criteria \<noteq> [] then '' Boundary-safe criteria: '' @ str_join ''; '' criteria @ ''.'' else []);
          location = (case testDir of
              Some d \<Rightarrow> if d \<noteq> [] then '' under '' @ d else '' co-located with the source it covers''
            | None \<Rightarrow> '' co-located with the source it covers'');
          description = ''Scaffold '' @ framework @ '' tests'' @ location @ '' for: '' @ targetList @ ''.'' @ criteriaList
      in action_spec ''generate_tests'' description
           [(''repoFullName'', JStr repoFullName), (''targetFiles'', JArr (map JStr targetFiles)),
            (''framework'', JStr framework), (''testDir'', (case testDir of None \<Rightarrow> JNull | Some d \<Rightarrow> JStr d)),
            (''criteria'', JArr (map JStr criteria))]
           (''echo '' @ sq description))"

definition FOLLOW_UP_ISSUE_TITLE_MAX :: nat where
  "FOLLOW_UP_ISSUE_TITLE_MAX = 200"

definition FOLLOW_UP_ISSUE_BODY_MAX :: nat where
  "FOLLOW_UP_ISSUE_BODY_MAX = 4000"

text \<open>The text after the first occurrence of \<open>close\<close>.\<close>

fun after :: "string \<Rightarrow> string \<Rightarrow> string option" where
  "after close [] = (if close = [] then Some [] else None)"
| "after close (c # s) =
     (if take (length close) (c # s) = close then Some (drop (length close) (c # s)) else after close s)"

lemma after_length: "after close s = Some t \<Longrightarrow> length t \<le> length s"
  by (induction close s rule: after.induct) (auto split: if_splits)

text \<open>\<open>text.replace(/open[\s\S]*?close/g, "")\<close> for two fixed, non-empty strings.\<close>

function strip_between :: "string \<Rightarrow> string \<Rightarrow> string \<Rightarrow> string" where
  "strip_between opn cls [] = []"
| "strip_between opn cls (c # s) =
     (if opn \<noteq> [] \<and> take (length opn) (c # s) = opn then
        (case after cls (drop (length opn) (c # s)) of
           Some rest \<Rightarrow> strip_between opn cls rest
         | None \<Rightarrow> c # strip_between opn cls s)
      else c # strip_between opn cls s)"
  by pat_completeness auto

termination
proof (relation "measure (\<lambda>(opn, cls, s). length s)")
  fix opn cls s rest :: string and c
  assume "opn \<noteq> [] \<and> take (length opn) (c # s) = opn" "after cls (drop (length opn) (c # s)) = Some rest"
  then show "((opn, cls, rest), opn, cls, c # s) \<in> measure (\<lambda>(opn, cls, s). length s)"
    using after_length[of cls "drop (length opn) (c # s)" rest] by (cases opn) auto
qed auto

definition stripMachineMarkers :: "string \<Rightarrow> string" where
  "stripMachineMarkers text =
     trim (collapse_ws False (strip_between ''```'' ''```'' (strip_between ''<!--'' ''-->'' text)))"

definition buildFollowUpIssueSpec ::
  "string \<Rightarrow> string \<Rightarrow> nat option \<Rightarrow> string \<Rightarrow> string option \<Rightarrow> LocalWriteActionSpec" where
  "buildFollowUpIssueSpec repoFullName path line finding label =
     (let safePath = stripMachineMarkers path;
          location = (case line of Some n \<Rightarrow> if 0 < n then safePath @ '':'' @ show_nat n else safePath | None \<Rightarrow> safePath);
          safeFinding = take FOLLOW_UP_ISSUE_BODY_MAX (stripMachineMarkers finding);
          title = take FOLLOW_UP_ISSUE_TITLE_MAX (''Follow up: '' @ location);
          body = take FOLLOW_UP_ISSUE_BODY_MAX
            (''Deferred review finding at `'' @ location @ ''`:'' @ [CHR 0x0A, CHR 0x0A] @ safeFinding);
          labels = (case label of Some l \<Rightarrow> if l \<noteq> [] then [l] else [] | None \<Rightarrow> [])
      in buildFileIssueSpec repoFullName title body (Some labels))"


section \<open>Reference: how the shell reads a command\<close>

datatype sh_token = ShWord string | ShAnd

datatype sh_mode = ShOut | ShIn string | ShQuote string

fun sh_flush :: "sh_mode \<Rightarrow> sh_token list" where
  "sh_flush (ShIn w) = [ShWord w]"
| "sh_flush _ = []"

fun sh_word :: "sh_mode \<Rightarrow> string" where
  "sh_word ShOut = []"
| "sh_word (ShIn w) = w"
| "sh_word (ShQuote w) = w"

definition sh_plain :: "char \<Rightarrow> bool" where
  "sh_plain c \<longleftrightarrow> (CHR ''a'' \<le> c \<and> c \<le> CHR ''z'') \<or> (CHR ''A'' \<le> c \<and> c \<le> CHR ''Z'') \<or>
     (CHR ''0'' \<le> c \<and> c \<le> CHR ''9'') \<or> c \<in> {CHR ''-'', CHR ''_'', CHR ''.'', CHR ''/''}"

text \<open>An unfinished quote, an escape at the end, a newline escape and every unquoted special character are errors.\<close>

fun sh_lex :: "sh_mode \<Rightarrow> string \<Rightarrow> sh_token list option" where
  "sh_lex (ShQuote w) [] = None"
| "sh_lex m [] = Some (sh_flush m)"
| "sh_lex (ShQuote w) (c # s) = (if c = CHR 0x27 then sh_lex (ShIn w) s else sh_lex (ShQuote (w @ [c])) s)"
| "sh_lex m (c # s) =
     (if c = CHR 0x27 then sh_lex (ShQuote (sh_word m)) s
      else if c = CHR 0x20 \<or> c = CHR 0x09 then map_option (\<lambda>ts. sh_flush m @ ts) (sh_lex ShOut s)
      else if c = CHR 0x5C then
        (case s of d # s' \<Rightarrow> if d = CHR 0x0A then None else sh_lex (ShIn (sh_word m @ [d])) s' | [] \<Rightarrow> None)
      else if c = CHR ''&'' then
        (case s of d # s' \<Rightarrow> if d = CHR ''&'' then map_option (\<lambda>ts. sh_flush m @ ShAnd # ts) (sh_lex ShOut s') else None
         | [] \<Rightarrow> None)
      else if sh_plain c then sh_lex (ShIn (sh_word m @ [c])) s
      else None)"

fun sh_split :: "sh_token list \<Rightarrow> string list list" where
  "sh_split [] = [[]]"
| "sh_split (ShWord w # ts) = (case sh_split ts of a # as \<Rightarrow> (w # a) # as | [] \<Rightarrow> [[w]])"
| "sh_split (ShAnd # ts) = [] # sh_split ts"

definition sh_commands :: "string \<Rightarrow> string list list option" where
  "sh_commands command = map_option sh_split (sh_lex ShOut command)"



section \<open>Lemmas: quoting\<close>

lemma lex_quoted: "sh_lex (ShQuote w) (concat (map sq_char v) @ CHR 0x27 # s) = sh_lex (ShIn (w @ v)) s"
  by (induction v arbitrary: w) (simp_all add: sq_char_def)

lemma lex_sq [simp]: "sh_lex ShOut (sq v @ s) = sh_lex (ShIn v) s" "sh_lex ShOut (sq v) = sh_lex (ShIn v) []"
  using lex_quoted[of "[]" v s] lex_quoted[of "[]" v "[]"] by (simp_all add: sq_def)

lemma show_nat_digits: "show_nat n \<noteq> [] \<and> list_all (\<lambda>c. CHR ''0'' \<le> c \<and> c \<le> CHR ''9'') (show_nat n)"
proof (induction n rule: show_nat.induct)
  case (1 n)
  have d: "CHR ''0'' \<le> char_of (48 + k) \<and> char_of (48 + k) \<le> CHR ''9''" if "k < 10" for k :: nat
    using that by (simp add: less_eq_char_def)
  show ?case
  proof (cases "n < 10")
    case True
    then show ?thesis using d[of n] by (simp add: show_nat.simps)
  next
    case False
    then show ?thesis using 1[OF False] d[of "n mod 10"] by (subst (1 2) show_nat.simps) simp
  qed
qed

lemma digit_plain:
  "CHR ''0'' \<le> c \<Longrightarrow> c \<le> CHR ''9'' \<Longrightarrow> sh_plain c \<and> c \<notin> {CHR 0x27, CHR 0x20, CHR 0x09, CHR 0x5C, CHR ''&''}"
  by (auto simp: sh_plain_def less_eq_char_def)

lemma lex_digits:
  "list_all (\<lambda>c. CHR ''0'' \<le> c \<and> c \<le> CHR ''9'') d \<Longrightarrow> sh_lex (ShIn w) (d @ s) = sh_lex (ShIn (w @ d)) s"
proof (induction d arbitrary: w)
  case (Cons c d)
  then show ?case using digit_plain[of c] by simp
qed simp

lemma lex_nat [simp]:
  "sh_lex ShOut (show_nat n @ s) = sh_lex (ShIn (show_nat n)) s"
proof -
  obtain c d where n: "show_nat n = c # d" "CHR ''0'' \<le> c" "c \<le> CHR ''9''"
      "list_all (\<lambda>c. CHR ''0'' \<le> c \<and> c \<le> CHR ''9'') d"
    using show_nat_digits[of n] by (cases "show_nat n") auto
  then show ?thesis using digit_plain[of c] lex_digits[of d "[c]" s] by simp
qed

lemma plain_chars [simp]:
  "sh_plain (CHR ''-'')" "\<And>c. CHR ''a'' \<le> c \<Longrightarrow> c \<le> CHR ''z'' \<Longrightarrow> sh_plain c"
  by (simp_all add: sh_plain_def)


lemma lex_label_args:
  assumes "\<And>s. sh_lex ShOut (flag @ CHR 0x20 # s) = map_option ((@) [ShWord flag]) (sh_lex ShOut s)"
  shows "sh_lex (ShIn w) (label_args flag labels) =
    Some (ShWord w # concat (map (\<lambda>l. [ShWord flag, ShWord l]) labels))"
proof (induction labels arbitrary: w)
  case (Cons l ls)
  then show ?case using assms by (simp add: label_args_def)
qed (simp add: label_args_def)

lemma lex_labels [simp]:
  "sh_lex (ShIn w) (label_args ''--label'' labels) =
     Some (ShWord w # concat (map (\<lambda>l. [ShWord ''--label'', ShWord l]) labels))"
  "sh_lex (ShIn w) (label_args ''--add-label'' labels) =
     Some (ShWord w # concat (map (\<lambda>l. [ShWord ''--add-label'', ShWord l]) labels))"
  by (rule lex_label_args, simp)+

lemma split_labels: "sh_split (concat (map (\<lambda>l. [ShWord flag, ShWord l]) labels)) = [concat (map (\<lambda>l. [flag, l]) labels)]"
  by (induction labels) simp_all

lemmas command_defs = sh_commands_def action_spec_def Let_def

text \<open>C33: every command runs as intended, whatever its inputs contain. Reading the command the way the shell does gives
  exactly the argument vectors below: each input is one argument, unchanged, and no input can add, split or end a
  command; a comment or a remote deletion is a second command run only after the first succeeded.\<close>

theorem commands_run_as_intended:
  "sh_commands (lw_command (buildOpenPrSpec repo base head title body draft)) =
      Some [[''gh'', ''pr'', ''create'', ''--repo'', repo, ''--base'', base, ''--head'', head, ''--title'', title,
        ''--body'', body] @ (if draft = Some True then [''--draft''] else [])]
   \<and> sh_commands (lw_command (buildClosePrSpec repo n comment)) =
      Some ([''gh'', ''pr'', ''close'', show_nat n, ''--repo'', repo] #
        (if or_default comment [] = [] then []
         else [[''gh'', ''pr'', ''comment'', show_nat n, ''--repo'', repo, ''--body'', or_default comment []]]))
   \<and> sh_commands (lw_command (buildFileIssueSpec repo title body labels)) =
      Some [[''gh'', ''issue'', ''create'', ''--repo'', repo, ''--title'', title, ''--body'', body] @
        concat (map (\<lambda>l. [''--label'', l]) (or_default labels []))]
   \<and> sh_commands (lw_command (buildApplyLabelsSpec repo n ls)) =
      Some [[''gh'', ''issue'', ''edit'', show_nat n, ''--repo'', repo] @ concat (map (\<lambda>l. [''--add-label'', l]) ls)]
   \<and> sh_commands (lw_command (buildPostEligibilityCommentSpec repo n body)) =
      Some [[''gh'', ''issue'', ''comment'', show_nat n, ''--repo'', repo, ''--body'', body]]
   \<and> sh_commands (lw_command (buildCreateBranchSpec branch baseOpt)) =
      Some [[''git'', ''switch'', ''-c'', branch] @ (if or_default baseOpt [] = [] then [] else [or_default baseOpt []])]
   \<and> sh_commands (lw_command (buildDeleteBranchSpec branch remote)) =
      Some ([''git'', ''branch'', ''-D'', branch] #
        (if remote = Some True then [[''git'', ''push'', ''origin'', ''--delete'', branch]] else []))
   \<and> sh_commands (lw_command (buildTestGenSpec repo files framework testDir criteria)) =
      Some [[''echo'', lw_description (buildTestGenSpec repo files framework testDir criteria)]]"
  (is "?open \<and> ?close \<and> ?file \<and> ?apply \<and> ?post \<and> ?create \<and> ?delete \<and> ?test")
proof (intro conjI)
  show ?open by (simp add: command_defs buildOpenPrSpec_def)
  show ?close by (simp add: command_defs buildClosePrSpec_def)
  show ?file by (simp add: command_defs buildFileIssueSpec_def split_labels)
  show ?apply by (simp add: command_defs buildApplyLabelsSpec_def split_labels)
  show ?post by (simp add: command_defs buildPostEligibilityCommentSpec_def)
  show ?create by (simp add: command_defs buildCreateBranchSpec_def)
  show ?delete by (simp add: command_defs buildDeleteBranchSpec_def sh_plain_def)
  show ?test by (simp add: command_defs buildTestGenSpec_def)
qed

lemma collapse_ws_line: "CHR 0x0A \<notin> set (collapse_ws b s)"
  by (induction b s rule: collapse_ws.induct) (auto simp: is_ws_def)

lemma strip_line: "CHR 0x0A \<notin> set (stripMachineMarkers s)"
  using collapse_ws_line set_trim by (fastforce simp: stripMachineMarkers_def)

text \<open>a follow-up issue is bounded: whatever the finding, its title has at most 200 characters and is a single line, its
  body has at most 4000, it carries at most the one label given, and it is filed by the same command as any other issue.\<close>

theorem follow_up_issue_bounded:
  "\<exists>title body labels. buildFollowUpIssueSpec repo path line finding label = buildFileIssueSpec repo title body (Some labels) \<and>
     length title \<le> 200 \<and> CHR 0x0A \<notin> set title \<and> length body \<le> 4000 \<and> (labels = [] \<or> label = Some (hd labels) \<and> length labels = 1)"
proof -
  have "CHR 0x0A \<notin> set (show_nat n)" for n
    using show_nat_digits[of n] by (auto simp: list_all_iff less_eq_char_def)
  then show ?thesis
    using strip_line[of path]
    by (auto simp: buildFollowUpIssueSpec_def Let_def FOLLOW_UP_ISSUE_TITLE_MAX_def FOLLOW_UP_ISSUE_BODY_MAX_def
        dest!: in_set_takeD split: option.splits intro!: exI)
qed

text \<open>one pass of the marker stripper can put a marker together: removing an inner comment joins the two halves of an
  outer one, which the text keeps.\<close>

theorem stripping_can_reassemble_a_marker:
  "stripMachineMarkers ''<!<!-- a -->-- fix-handoff -->'' = ''<!-- fix-handoff -->''"
  by code_simp

end
