(* ===== verification/Claim_Ledger.thy ===== *)
theory Claim_Ledger
  imports Queue_Store
begin

text \<open>
  The miner's soft-claim ledger (\<open>packages/loopover-miner/lib/claim-ledger.ts\<close>) and the sweep that expires claims whose
  owner died (\<open>claim-ledger-expiry.ts\<close>).

  The table is the list of its rows in \<open>id\<close> order. Its \<open>AUTOINCREMENT\<close> id is an argument of the operations that insert:
  SQLite promises an id above every id in the table. Wall-clock readings are arguments, \<open>Date.parse\<close> is the parameter
  \<open>parse_date\<close>. A transaction returns the table it started from when its body throws. Opening the file, the schema
  migrations and the read-only handle are not modelled.

  The lemmas give the invariant of the table, the life of one claim, what a sweep expires, and that the per-repository
  cap holds over every interleaving of capped claims with the other operations.
\<close>

section \<open>Definitions: rows\<close>

datatype ClaimStatus = ClActive | ClReleased | ClExpired

record ClaimRow =
  cl_id :: nat
  cl_apiBaseUrl :: string
  cl_repoFullName :: string
  cl_issueNumber :: nat
  cl_claimedAt :: string
  cl_status :: ClaimStatus
  cl_note :: "string option"

record ClaimEntry =
  ce_id :: nat
  ce_apiBaseUrl :: string
  ce_repoFullName :: string
  ce_issueNumber :: nat
  ce_claimedAt :: string
  ce_status :: ClaimStatus
  ce_note :: "string option"

record RecordClaimInput =
  rc_repoFullName :: jsval
  rc_issueNumber :: jsval
  rc_note :: jsval
  rc_apiBaseUrl :: jsval

record ListClaimsFilter =
  lf_repoFullName :: jsval
  lf_status :: jsval

definition CLAIM_STATUSES :: "(string \<times> ClaimStatus) list" where
  "CLAIM_STATUSES = [(''active'', ClActive), (''released'', ClReleased), (''expired'', ClExpired)]"

definition normalizeIssueNumber :: "jsval \<Rightarrow> string + nat" where
  "normalizeIssueNumber v = (case positive_int v of None \<Rightarrow> Inl ''invalid_issue_number'' | Some n \<Rightarrow> Inr n)"

definition normalizeMaxConcurrentClaims :: "jsval \<Rightarrow> string + nat" where
  "normalizeMaxConcurrentClaims v =
     (case positive_int v of None \<Rightarrow> Inl ''invalid_max_concurrent_claims'' | Some n \<Rightarrow> Inr n)"

definition normalizeNote :: "jsval \<Rightarrow> string + string option" where
  "normalizeNote v =
     (case v of JUndef \<Rightarrow> Inr None | JNull \<Rightarrow> Inr None | JStr s \<Rightarrow> Inr (Some s) | _ \<Rightarrow> Inl ''invalid_note'')"

definition rowToClaim :: "ClaimRow \<Rightarrow> ClaimEntry" where
  "rowToClaim r =
     \<lparr>ce_id = cl_id r, ce_apiBaseUrl = cl_apiBaseUrl r, ce_repoFullName = cl_repoFullName r,
      ce_issueNumber = cl_issueNumber r, ce_claimedAt = cl_claimedAt r, ce_status = cl_status r, ce_note = cl_note r\<rparr>"

text \<open>The unique key of a claim, normalised in the order of the source.\<close>

type_synonym claim_key = "string \<times> string \<times> nat"

definition claim_key :: "ClaimRow \<Rightarrow> claim_key" where
  "claim_key r = (cl_apiBaseUrl r, cl_repoFullName r, cl_issueNumber r)"

definition normalize_claim_key :: "jsval \<Rightarrow> jsval \<Rightarrow> jsval \<Rightarrow> string + claim_key" where
  "normalize_claim_key apiBaseUrl repoFullName issueNumber =
     and_then (normalizeApiBaseUrl apiBaseUrl) (\<lambda>a.
     and_then (normalizeQueueRepo repoFullName) (\<lambda>r.
     and_then (normalizeIssueNumber issueNumber) (\<lambda>n. Inr (a, r, n))))"

section \<open>Definitions: operations\<close>

text \<open>\<open>INSERT ... ON CONFLICT DO UPDATE ... WHERE status <> 'active'\<close>.\<close>

definition record_row :: "nat \<Rightarrow> string \<Rightarrow> claim_key \<Rightarrow> string option \<Rightarrow> ClaimRow list \<Rightarrow> ClaimRow list" where
  "record_row newId claimedAt k note rows =
     (if k \<in> claim_key ` set rows then
        map (\<lambda>r. if claim_key r = k \<and> cl_status r \<noteq> ClActive
                 then r\<lparr>cl_claimedAt := claimedAt, cl_note := note, cl_status := ClActive\<rparr> else r) rows
      else rows @ [\<lparr>cl_id = newId, cl_apiBaseUrl = fst k, cl_repoFullName = fst (snd k), cl_issueNumber = snd (snd k),
          cl_claimedAt = claimedAt, cl_status = ClActive, cl_note = note\<rparr>])"

definition recordClaim ::
  "nat \<Rightarrow> string \<Rightarrow> RecordClaimInput \<Rightarrow> ClaimRow list \<Rightarrow> string + ClaimEntry option \<times> ClaimRow list" where
  "recordClaim newId claimedAt claim rows =
     and_then (normalize_claim_key (rc_apiBaseUrl claim) (rc_repoFullName claim) (rc_issueNumber claim)) (\<lambda>k.
     and_then (normalizeNote (rc_note claim)) (\<lambda>note.
     let rows' = record_row newId claimedAt k note rows
     in Inr (map_option rowToClaim (find (\<lambda>r. claim_key r = k) rows'), rows')))"

text \<open>\<open>UPDATE ... SET status = s WHERE (key) AND status = 'active' RETURNING *\<close>.\<close>

definition end_claim :: "ClaimStatus \<Rightarrow> claim_key \<Rightarrow> ClaimRow list \<Rightarrow> ClaimEntry option \<times> ClaimRow list" where
  "end_claim s k rows =
     (map_option (\<lambda>r. rowToClaim (r\<lparr>cl_status := s\<rparr>)) (find (\<lambda>r. claim_key r = k \<and> cl_status r = ClActive) rows),
      map (\<lambda>r. if claim_key r = k \<and> cl_status r = ClActive then r\<lparr>cl_status := s\<rparr> else r) rows)"

definition releaseClaim ::
  "jsval \<Rightarrow> jsval \<Rightarrow> jsval \<Rightarrow> ClaimRow list \<Rightarrow> string + ClaimEntry option \<times> ClaimRow list" where
  "releaseClaim repoFullName issueNumber apiBaseUrl rows =
     and_then (normalize_claim_key apiBaseUrl repoFullName issueNumber) (\<lambda>k. Inr (end_claim ClReleased k rows))"

definition expireClaim ::
  "jsval \<Rightarrow> jsval \<Rightarrow> jsval \<Rightarrow> ClaimRow list \<Rightarrow> string + ClaimEntry option \<times> ClaimRow list" where
  "expireClaim repoFullName issueNumber apiBaseUrl rows =
     and_then (normalize_claim_key apiBaseUrl repoFullName issueNumber) (\<lambda>k. Inr (end_claim ClExpired k rows))"

definition normalizeListRepoFilter :: "jsval \<Rightarrow> string + string option" where
  "normalizeListRepoFilter v =
     (if v = JUndef \<or> v = JNull then Inr None else and_then (normalizeQueueRepo v) (\<lambda>r. Inr (Some r)))"

definition normalizeStatusFilter :: "jsval \<Rightarrow> string + ClaimStatus option" where
  "normalizeStatusFilter v =
     (if v = JUndef \<or> v = JNull then Inr None
      else case v of
             JStr s \<Rightarrow> (case map_of CLAIM_STATUSES s of None \<Rightarrow> Inl ''invalid_status'' | Some st \<Rightarrow> Inr (Some st))
           | _ \<Rightarrow> Inl ''invalid_status'')"

definition listClaims :: "ListClaimsFilter \<Rightarrow> ClaimRow list \<Rightarrow> string + ClaimEntry list" where
  "listClaims flt rows =
     and_then (normalizeListRepoFilter (lf_repoFullName flt)) (\<lambda>repo.
     and_then (normalizeStatusFilter (lf_status flt)) (\<lambda>status.
     Inr (map rowToClaim
       (case (repo, status) of
          (Some r, Some s) \<Rightarrow> filter (\<lambda>x. cl_repoFullName x = r \<and> cl_status x = s) rows
        | (Some r, None) \<Rightarrow> filter (\<lambda>x. cl_repoFullName x = r) rows
        | (None, Some s) \<Rightarrow> filter (\<lambda>x. cl_status x = s) rows
        | (None, None) \<Rightarrow> rows))))"

definition listActiveClaims :: "jsval \<Rightarrow> ClaimRow list \<Rightarrow> string + ClaimEntry list" where
  "listActiveClaims repoFullName rows =
     listClaims \<lparr>lf_repoFullName = repoFullName, lf_status = JStr ''active''\<rparr> rows"

definition purgeClaimsByRepo :: "jsval \<Rightarrow> ClaimRow list \<Rightarrow> string + nat \<times> ClaimRow list" where
  "purgeClaimsByRepo repoFullName rows =
     and_then (normalizeQueueRepo repoFullName) (\<lambda>r.
     let kept = filter (\<lambda>x. cl_repoFullName x \<noteq> r) rows
     in Inr (length rows - length kept, kept))"


section \<open>Definitions: the sweep\<close>

definition DEFAULT_MAX_CLAIM_AGE_MS :: jsnum where
  "DEFAULT_MAX_CLAIM_AGE_MS = Fin 1209600000"

definition claimAgeMs :: "(string \<Rightarrow> jsnum) \<Rightarrow> ClaimEntry \<Rightarrow> jsnum \<Rightarrow> jsnum option" where
  "claimAgeMs parse_date claim nowMs =
     (let claimedAtMs = parse_date (ce_claimedAt claim) in
      if \<not> isFinite claimedAtMs then None else Some (num_sub nowMs claimedAtMs))"

definition is_expired :: "(string \<Rightarrow> jsnum) \<Rightarrow> jsnum \<Rightarrow> jsnum \<Rightarrow> ClaimEntry \<Rightarrow> bool" where
  "is_expired parse_date nowMs maxAgeMs claim \<longleftrightarrow> ce_status claim = ClActive \<and>
     (case claimAgeMs parse_date claim nowMs of None \<Rightarrow> True | Some ageMs \<Rightarrow> num_lt maxAgeMs ageMs)"

definition findExpiredClaims ::
  "(string \<Rightarrow> jsnum) \<Rightarrow> ClaimEntry list \<Rightarrow> jsnum \<Rightarrow> jsnum \<Rightarrow> string + ClaimEntry list" where
  "findExpiredClaims parse_date claims nowMs maxAgeMs =
     (if \<not> isFinite nowMs \<or> num_lt nowMs (Fin 0) then Inl ''invalid_now_ms''
      else if \<not> isFinite maxAgeMs \<or> num_lt maxAgeMs (Fin 0) then Inl ''invalid_max_age_ms''
      else Inr (filter (is_expired parse_date nowMs maxAgeMs) claims))"

fun expire_all :: "ClaimEntry list \<Rightarrow> ClaimRow list \<Rightarrow> (string + ClaimEntry list) \<times> ClaimRow list" where
  "expire_all [] rows = (Inr [], rows)"
| "expire_all (claim # claims) rows =
     (case expireClaim (JStr (ce_repoFullName claim)) (JNum (num_of_nat (ce_issueNumber claim)))
             (JStr (ce_apiBaseUrl claim)) rows of
        Inl e \<Rightarrow> (Inl e, rows)
      | Inr (updated, rows1) \<Rightarrow>
          (case expire_all claims rows1 of
             (Inl e, rows2) \<Rightarrow> (Inl e, rows2)
           | (Inr es, rows2) \<Rightarrow> (Inr (case updated of None \<Rightarrow> es | Some e \<Rightarrow> e # es), rows2)))"

definition sweepExpiredClaims ::
  "(string \<Rightarrow> jsnum) \<Rightarrow> jsnum \<Rightarrow> jsnum \<Rightarrow> ClaimRow list \<Rightarrow> (string + ClaimEntry list) \<times> ClaimRow list" where
  "sweepExpiredClaims parse_date nowMs maxAgeMs rows =
     (case and_then (listClaims \<lparr>lf_repoFullName = JUndef, lf_status = JStr ''active''\<rparr> rows)
             (\<lambda>activeClaims. findExpiredClaims parse_date activeClaims nowMs maxAgeMs) of
        Inl e \<Rightarrow> (Inl e, rows)
      | Inr expired \<Rightarrow> expire_all expired rows)"

definition reclaimExpiredClaims ::
  "(string \<Rightarrow> jsnum) \<Rightarrow> jsnum \<Rightarrow> jsnum option \<Rightarrow> ClaimRow list \<Rightarrow> (string + ClaimEntry list) \<times> ClaimRow list" where
  "reclaimExpiredClaims parse_date nowMs maxAgeMs rows =
     sweepExpiredClaims parse_date nowMs (or_default maxAgeMs DEFAULT_MAX_CLAIM_AGE_MS) rows"

text \<open>Sweep, then record; a call that throws keeps what the sweep expired.\<close>

definition claimIssue ::
  "(string \<Rightarrow> jsnum) \<Rightarrow> jsnum \<Rightarrow> nat \<Rightarrow> string \<Rightarrow> RecordClaimInput \<Rightarrow> ClaimRow list
     \<Rightarrow> (string + ClaimEntry option) \<times> ClaimRow list" where
  "claimIssue parse_date nowMs newId claimedAt claim rows =
     (case sweepExpiredClaims parse_date nowMs DEFAULT_MAX_CLAIM_AGE_MS rows of
        (Inl e, rows1) \<Rightarrow> (Inl e, rows1)
      | (Inr _, rows1) \<Rightarrow>
          (case recordClaim newId claimedAt claim rows1 of
             Inl e \<Rightarrow> (Inl e, rows1)
           | Inr (entry, rows2) \<Rightarrow> (Inr entry, rows2)))"

definition countActiveRepo :: "string \<Rightarrow> ClaimRow list \<Rightarrow> nat" where
  "countActiveRepo repo rows = length (filter (\<lambda>r. cl_repoFullName r = repo \<and> cl_status r = ClActive) rows)"

record ClaimWithinCapResult =
  cw_claimed :: bool
  cw_claim :: "ClaimEntry option"
  cw_activeClaimCount :: nat
  cw_maxConcurrentClaims :: nat

text \<open>One \<open>BEGIN IMMEDIATE\<close> transaction: a throw inside restores the table, a refusal commits the sweep.\<close>

definition claimIssueWithinCap ::
  "(string \<Rightarrow> jsnum) \<Rightarrow> jsnum \<Rightarrow> nat \<Rightarrow> string \<Rightarrow> RecordClaimInput \<Rightarrow> jsval \<Rightarrow> ClaimRow list
     \<Rightarrow> (string + ClaimWithinCapResult) \<times> ClaimRow list" where
  "claimIssueWithinCap parse_date nowMs newId claimedAt claim maxConcurrentClaims rows =
     (case and_then (normalizeMaxConcurrentClaims maxConcurrentClaims) (\<lambda>cap.
           and_then (normalizeQueueRepo (rc_repoFullName claim)) (\<lambda>repo. Inr (cap, repo))) of
        Inl e \<Rightarrow> (Inl e, rows)
      | Inr (cap, repo) \<Rightarrow>
          (case sweepExpiredClaims parse_date nowMs DEFAULT_MAX_CLAIM_AGE_MS rows of
             (Inl e, rows1) \<Rightarrow> (Inl e, rows)
           | (Inr _, rows1) \<Rightarrow>
               (let activeClaimCount = countActiveRepo repo rows1 in
                if cap \<le> activeClaimCount then
                  (Inr \<lparr>cw_claimed = False, cw_claim = None, cw_activeClaimCount = activeClaimCount,
                     cw_maxConcurrentClaims = cap\<rparr>, rows1)
                else case recordClaim newId claimedAt claim rows1 of
                       Inl e \<Rightarrow> (Inl e, rows)
                     | Inr (entry, rows2) \<Rightarrow>
                         (Inr \<lparr>cw_claimed = True, cw_claim = entry, cw_activeClaimCount = activeClaimCount,
                            cw_maxConcurrentClaims = cap\<rparr>, rows2))))"


section \<open>Lemmas: the ledger invariant\<close>

definition claim_key_wf :: "claim_key \<Rightarrow> bool" where
  "claim_key_wf k \<longleftrightarrow> nonblank (fst k) \<and> valid_repo_name (fst (snd k)) \<and> 0 < snd (snd k)"

text \<open>One row per issue of a repository on a forge host, in the order of the ids.\<close>

definition ledger_wf :: "ClaimRow list \<Rightarrow> bool" where
  "ledger_wf rows \<longleftrightarrow> sorted_wrt (<) (map cl_id rows) \<and> distinct (map claim_key rows) \<and>
     (\<forall>r \<in> set rows. claim_key_wf (claim_key r))"

abbreviation expire_row :: "ClaimRow \<Rightarrow> ClaimRow" where
  "expire_row r \<equiv> r\<lparr>cl_status := ClExpired\<rparr>"

interpretation claim_lease: lease_sweep claim_key "\<lambda>r. cl_status r = ClActive" expire_row
  by unfold_locales (simp_all add: claim_key_def)

lemma claim_key_update [simp]:
  "claim_key (cl_status_update f r) = claim_key r" "claim_key (cl_claimedAt_update g r) = claim_key r"
  "claim_key (cl_note_update h r) = claim_key r"
  by (simp_all add: claim_key_def)

lemma normalizeApiBaseUrl_nonblank: "normalizeApiBaseUrl v = Inr a \<Longrightarrow> nonblank a"
  using default_url_nonblank by (auto simp: normalizeApiBaseUrl_def nonblank_def split: jsval.splits if_splits)

lemma normalize_claim_key_wf: "normalize_claim_key a r n = Inr k \<Longrightarrow> claim_key_wf k"
  using normalizeOptionalRepoFullName_valid positive_int_pos
  by (fastforce simp: normalize_claim_key_def and_then_Inr claim_key_wf_def normalizeQueueRepo_optional
      normalizeIssueNumber_def normalizeApiBaseUrl_nonblank split: option.splits)

lemma normalize_claim_key_fix:
  "claim_key_wf (a, r, n) \<Longrightarrow> normalize_claim_key (JStr a) (JStr r) (JNum (num_of_nat n)) = Inr (a, r, n)"
  using normalizeOptionalRepoFullName_fix[of r]
  by (auto simp: claim_key_wf_def normalize_claim_key_def normalizeApiBaseUrl_def normalizeIssueNumber_def nonblank_def
      and_then_Inr normalizeQueueRepo_optional simp del: normalizeOptionalRepoFullName.simps)

lemma normalize_claim_key_repo: "normalize_claim_key a r n = Inr k \<Longrightarrow> normalizeQueueRepo r = Inr (fst (snd k))"
  by (auto simp: normalize_claim_key_def and_then_Inr)

lemma ledger_wf_map:
  assumes "ledger_wf rows" "\<And>r. claim_key (g r) = claim_key r" "\<And>r. cl_id (g r) = cl_id r"
  shows "ledger_wf (map g rows)"
  using assms by (auto simp: ledger_wf_def comp_def)

lemma record_row_wf:
  assumes "ledger_wf rows" "claim_key_wf k" "\<forall>r \<in> set rows. cl_id r < newId"
  shows "ledger_wf (record_row newId t k note rows)"
proof (cases "k \<in> claim_key ` set rows")
  case True
  then show ?thesis using assms(1) by (simp add: record_row_def ledger_wf_map)
next
  case False
  then show ?thesis using assms by (auto simp: record_row_def ledger_wf_def sorted_wrt_append claim_key_def)
qed

lemma end_claim_wf: "ledger_wf rows \<Longrightarrow> ledger_wf (snd (end_claim s k rows))"
  by (simp add: end_claim_def ledger_wf_map)

lemma filter_wf: "ledger_wf rows \<Longrightarrow> ledger_wf (filter P rows)"
  by (auto simp: ledger_wf_def sorted_wrt_map sorted_wrt_filter distinct_map_filter)

section \<open>Lemmas: the sweep\<close>

lemma expire_known:
  assumes "ledger_wf rows" "claim_key r \<in> claim_key ` set rows"
  shows "expireClaim (JStr (ce_repoFullName (rowToClaim r))) (JNum (num_of_nat (ce_issueNumber (rowToClaim r))))
      (JStr (ce_apiBaseUrl (rowToClaim r))) rows = Inr (end_claim ClExpired (claim_key r) rows)"
proof -
  have "claim_key_wf (claim_key r)" using assms by (auto simp: ledger_wf_def)
  then show ?thesis by (simp add: claim_key_def normalize_claim_key_fix expireClaim_def rowToClaim_def)
qed

lemma expire_all_rows:
  assumes "ledger_wf rows" "claim_key ` set rs \<subseteq> claim_key ` set rows"
  shows "\<exists>es. expire_all (map rowToClaim rs) rows =
    (Inr es, map (\<lambda>r. if claim_key r \<in> claim_key ` set rs \<and> cl_status r = ClActive then expire_row r else r) rows)"
  using assms
proof (induction rs arbitrary: rows)
  case (Cons r rs)
  let ?g = "\<lambda>x. if claim_key x = claim_key r \<and> cl_status x = ClActive then expire_row x else x"
  have step: "expireClaim (JStr (ce_repoFullName (rowToClaim r))) (JNum (num_of_nat (ce_issueNumber (rowToClaim r))))
      (JStr (ce_apiBaseUrl (rowToClaim r))) rows = Inr (end_claim ClExpired (claim_key r) rows)"
    using Cons.prems by (intro expire_known) auto
  obtain e where u: "end_claim ClExpired (claim_key r) rows = (e, map ?g rows)" by (simp add: end_claim_def)
  have keys: "claim_key ` set (map ?g rows) = claim_key ` set rows"
    using arg_cong[OF claim_lease.free_keys, of set] by (simp only: list.set_map)
  have wf: "ledger_wf (map ?g rows)" by (rule ledger_wf_map[OF Cons.prems(1)]) auto
  have sub: "claim_key ` set rs \<subseteq> claim_key ` set (map ?g rows)" using Cons.prems(2) unfolding keys by simp
  from Cons.IH[OF wf sub] obtain es where "expire_all (map rowToClaim rs) (map ?g rows) = (Inr es,
      map (\<lambda>x. if claim_key x \<in> insert (claim_key r) (claim_key ` set rs) \<and> cl_status x = ClActive then expire_row x else x) rows)"
    unfolding claim_lease.free_more by (elim exE)
  then show ?case using step u by simp
qed simp

abbreviation stale :: "(string \<Rightarrow> jsnum) \<Rightarrow> jsnum \<Rightarrow> jsnum \<Rightarrow> ClaimRow \<Rightarrow> bool" where
  "stale parse_date nowMs maxAgeMs r \<equiv> is_expired parse_date nowMs maxAgeMs (rowToClaim r)"

abbreviation valid_ms :: "jsnum \<Rightarrow> bool" where
  "valid_ms x \<equiv> isFinite x \<and> \<not> num_lt x (Fin 0)"

lemma stale_active: "stale parse_date nowMs maxAgeMs r \<Longrightarrow> cl_status r = ClActive"
  by (simp add: is_expired_def rowToClaim_def)

lemma sweep_claims_rows:
  assumes wf: "ledger_wf rows" and "valid_ms nowMs" "valid_ms maxAgeMs"
  shows "\<exists>es. sweepExpiredClaims parse_date nowMs maxAgeMs rows =
    (Inr es, map (\<lambda>r. if stale parse_date nowMs maxAgeMs r then expire_row r else r) rows)"
proof -
  let ?S = "stale parse_date nowMs maxAgeMs"
  let ?rs = "filter ?S (filter (\<lambda>r. cl_status r = ClActive) rows)"
  have set: "set ?rs = {r \<in> set rows. ?S r}" using stale_active by auto
  have "sweepExpiredClaims parse_date nowMs maxAgeMs rows = expire_all (map rowToClaim ?rs) rows"
    using assms(2,3)
    by (simp add: sweepExpiredClaims_def findExpiredClaims_def listClaims_def normalizeListRepoFilter_def
        normalizeStatusFilter_def CLAIM_STATUSES_def filter_map comp_def)
  moreover obtain es where "expire_all (map rowToClaim ?rs) rows =
      (Inr es, map (\<lambda>r. if claim_key r \<in> claim_key ` set ?rs \<and> cl_status r = ClActive then expire_row r else r) rows)"
    using expire_all_rows[OF wf, of ?rs] by (fastforce simp: image_iff)
  moreover have "distinct (map claim_key rows)" using wf by (simp add: ledger_wf_def)
  note claim_lease.free_exactly[OF this, of ?S ?rs, OF stale_active set]
  ultimately show ?thesis by auto
qed

lemma sweep_claims_invalid:
  "\<not> valid_ms nowMs \<or> \<not> valid_ms maxAgeMs \<Longrightarrow>
     \<exists>e. sweepExpiredClaims parse_date nowMs maxAgeMs rows = (Inl e, rows)"
  by (auto simp: sweepExpiredClaims_def findExpiredClaims_def listClaims_def normalizeListRepoFilter_def
        normalizeStatusFilter_def CLAIM_STATUSES_def)

text \<open>Whatever the clock says, a sweep ends some active claims and does nothing else.\<close>

lemma sweep_claims_cases:
  assumes "ledger_wf rows" "sweepExpiredClaims parse_date nowMs maxAgeMs rows = (out, rows')"
  obtains S where "rows' = map (\<lambda>r. if S r then expire_row r else r) rows"
proof (cases "valid_ms nowMs \<and> valid_ms maxAgeMs")
  case True
  then have "rows' = map (\<lambda>r. if stale parse_date nowMs maxAgeMs r then expire_row r else r) rows"
    using sweep_claims_rows[OF assms(1), of nowMs maxAgeMs parse_date] assms(2) by auto
  then show thesis by (rule that)
next
  case False
  then have "rows' = rows"
    using sweep_claims_invalid[of nowMs maxAgeMs parse_date rows] assms(2) by (metis prod.inject)
  then show thesis using that[of "\<lambda>_. False"] by simp
qed


section \<open>Lemmas: runs of the ledger\<close>

text \<open>A call is labelled by the claim it may make: on a repository with a cap, on a repository without one, or none.
  Claims of several processes interleave call by call, since the capped claim is one transaction.\<close>

datatype claim_label = Uncapped string | Capped string nat | NoClaim

inductive claim_step :: "claim_label \<Rightarrow> ClaimRow list \<Rightarrow> ClaimRow list \<Rightarrow> bool" where
  c_record: "recordClaim newId t claim rows = Inr (e, rows') \<Longrightarrow> \<forall>r \<in> set rows. cl_id r < newId \<Longrightarrow>
    normalizeQueueRepo (rc_repoFullName claim) = Inr R \<Longrightarrow> claim_step (Uncapped R) rows rows'"
| c_claim: "claimIssue pd now newId t claim rows = (out, rows') \<Longrightarrow> \<forall>r \<in> set rows. cl_id r < newId \<Longrightarrow>
    normalizeQueueRepo (rc_repoFullName claim) = Inr R \<Longrightarrow> claim_step (Uncapped R) rows rows'"
| c_capped: "claimIssueWithinCap pd now newId t claim (JNum (num_of_nat n)) rows = (out, rows') \<Longrightarrow>
    \<forall>r \<in> set rows. cl_id r < newId \<Longrightarrow> normalizeQueueRepo (rc_repoFullName claim) = Inr R \<Longrightarrow>
    claim_step (Capped R n) rows rows'"
| c_release: "releaseClaim r i a rows = Inr (e, rows') \<Longrightarrow> claim_step NoClaim rows rows'"
| c_expire: "expireClaim r i a rows = Inr (e, rows') \<Longrightarrow> claim_step NoClaim rows rows'"
| c_reclaim: "reclaimExpiredClaims pd now m rows = (out, rows') \<Longrightarrow> claim_step NoClaim rows rows'"
| c_purge: "purgeClaimsByRepo r rows = Inr (n, rows') \<Longrightarrow> claim_step NoClaim rows rows'"

inductive claim_run :: "claim_label list \<Rightarrow> ClaimRow list \<Rightarrow> ClaimRow list \<Rightarrow> bool" where
  run_nil: "claim_run [] rows rows"
| run_step: "claim_run ls rows rows' \<Longrightarrow> claim_step l rows' rows'' \<Longrightarrow> claim_run (ls @ [l]) rows rows''"

lemma recordClaim_rows:
  assumes "recordClaim newId t claim rows = Inr (e, rows')"
  obtains k nt where
    "normalize_claim_key (rc_apiBaseUrl claim) (rc_repoFullName claim) (rc_issueNumber claim) = Inr k"
    "normalizeQueueRepo (rc_repoFullName claim) = Inr (fst (snd k))" "claim_key_wf k" "rows' = record_row newId t k nt rows"
    "e = map_option rowToClaim (find (\<lambda>r. claim_key r = k) rows')"
  using assms normalize_claim_key_repo normalize_claim_key_wf
  by (auto simp: recordClaim_def and_then_Inr Let_def)

lemma claimIssue_rows:
  assumes "claimIssue pd now newId t claim rows = (out, rows')"
  obtains out1 rows1 where "sweepExpiredClaims pd now DEFAULT_MAX_CLAIM_AGE_MS rows = (out1, rows1)"
    "rows' = rows1 \<or> (\<exists>e. recordClaim newId t claim rows1 = Inr (e, rows'))"
proof -
  obtain out1 rows1 where sw: "sweepExpiredClaims pd now DEFAULT_MAX_CLAIM_AGE_MS rows = (out1, rows1)" by fastforce
  show thesis using assms sw that[OF sw] by (auto simp: claimIssue_def split: sum.splits)
qed

lemma capped_rows:
  assumes "claimIssueWithinCap pd now newId t claim (JNum (num_of_nat n)) rows = (out, rows')"
    "normalizeQueueRepo (rc_repoFullName claim) = Inr R"
  obtains "rows' = rows"
  | out1 rows1 where "sweepExpiredClaims pd now DEFAULT_MAX_CLAIM_AGE_MS rows = (out1, rows1)"
    "rows' = rows1 \<or> countActiveRepo R rows1 < n \<and> (\<exists>e. recordClaim newId t claim rows1 = Inr (e, rows'))"
proof (cases "0 < n")
  case False
  then show thesis using assms that(1) by (simp add: claimIssueWithinCap_def normalizeMaxConcurrentClaims_def positive_int_def)
next
  case True
  obtain out1 rows1 where sw: "sweepExpiredClaims pd now DEFAULT_MAX_CLAIM_AGE_MS rows = (out1, rows1)" by fastforce
  then have "rows' = rows \<or> rows' = rows1 \<or>
      countActiveRepo R rows1 < n \<and> (\<exists>e. recordClaim newId t claim rows1 = Inr (e, rows'))"
    using True assms
    by (auto simp: claimIssueWithinCap_def normalizeMaxConcurrentClaims_def Let_def not_le
        split: sum.splits if_splits)
  then show thesis using that(1) that(2)[OF sw] by blast
qed

lemma sweep_keeps:
  assumes "ledger_wf rows" "sweepExpiredClaims pd now m rows = (out, rows')"
  shows "ledger_wf rows'" "cl_id ` set rows' = cl_id ` set rows"
proof -
  obtain S where r: "rows' = map (\<lambda>r. if S r then expire_row r else r) rows" using sweep_claims_cases[OF assms] .
  show "ledger_wf rows'" unfolding r by (rule ledger_wf_map[OF assms(1)]) auto
  have "map cl_id rows' = map cl_id rows" unfolding r by simp
  then show "cl_id ` set rows' = cl_id ` set rows" by (metis list.set_map)
qed

lemma recordClaim_wf:
  assumes "recordClaim newId t claim rows = Inr (e, rows')" "\<forall>r \<in> set rows. cl_id r < newId" "ledger_wf rows"
  shows "ledger_wf rows'"
  by (rule recordClaim_rows[OF assms(1)]) (use assms(2,3) in \<open>simp add: record_row_wf\<close>)

lemma sweep_record_wf:
  assumes "sweepExpiredClaims pd now m rows = (out, rows1)" "\<forall>r \<in> set rows. cl_id r < newId" "ledger_wf rows"
    "rows' = rows1 \<or> (\<exists>e. recordClaim newId t claim rows1 = Inr (e, rows'))"
  shows "ledger_wf rows'"
proof -
  have "ledger_wf rows1" "\<forall>r \<in> set rows1. cl_id r < newId"
    using sweep_keeps[OF assms(3,1)] assms(2) by (auto simp: image_iff set_eq_iff) (metis (no_types) image_eqI)
  then show ?thesis using assms(4) recordClaim_wf by blast
qed

lemma claim_step_wf: "claim_step l rows rows' \<Longrightarrow> ledger_wf rows \<Longrightarrow> ledger_wf rows'"
proof (induction rule: claim_step.induct)
  case c_record then show ?case by (blast intro: recordClaim_wf)
next
  case (c_claim pd now newId t claim rows out rows' R)
  then show ?case using claimIssue_rows sweep_record_wf by metis
next
  case (c_capped pd now newId t claim n rows out rows' R)
  then show ?case using capped_rows[OF c_capped(1,3)] sweep_record_wf by metis
next
  case c_release then show ?case using end_claim_wf by (auto simp: releaseClaim_def and_then_Inr) (metis snd_conv)
next
  case c_expire then show ?case using end_claim_wf by (auto simp: expireClaim_def and_then_Inr) (metis snd_conv)
next
  case c_reclaim then show ?case using sweep_keeps(1) by (simp add: reclaimExpiredClaims_def)
next
  case c_purge then show ?case using filter_wf by (auto simp: purgeClaimsByRepo_def and_then_Inr Let_def)
qed

lemma claim_run_wf: "claim_run ls rows rows' \<Longrightarrow> ledger_wf rows \<Longrightarrow> ledger_wf rows'"
  by (induction rule: claim_run.induct) (auto intro: claim_step_wf)

lemma claim_run_from_empty: "claim_run ls [] rows \<Longrightarrow> ledger_wf rows"
  using claim_run_wf by (force simp: ledger_wf_def)


section \<open>Lemmas: the cap\<close>

lemma count_mono:
  assumes "\<And>r. cl_repoFullName (g r) = cl_repoFullName r" "\<And>r. cl_status (g r) = ClActive \<Longrightarrow> cl_status r = ClActive"
  shows "countActiveRepo R (map g rows) \<le> countActiveRepo R rows"
  using assms by (induction rows) (auto simp: countActiveRepo_def)

lemma count_filter: "countActiveRepo R (filter P rows) \<le> countActiveRepo R rows"
  by (induction rows) (auto simp: countActiveRepo_def)

lemma count_reactivate:
  "distinct (map claim_key rows) \<Longrightarrow>
     countActiveRepo R (map (\<lambda>r. if claim_key r = k \<and> cl_status r \<noteq> ClActive
        then r\<lparr>cl_claimedAt := t, cl_note := nt, cl_status := ClActive\<rparr> else r) rows)
       \<le> countActiveRepo R rows + (if fst (snd k) = R then 1 else 0)"
proof (induction rows)
  case (Cons a rows)
  show ?case
  proof (cases "claim_key a = k")
    case True
    then have "map (\<lambda>r. if claim_key r = k \<and> cl_status r \<noteq> ClActive
        then r\<lparr>cl_claimedAt := t, cl_note := nt, cl_status := ClActive\<rparr> else r) rows = rows"
      using Cons.prems by (intro map_idI) (auto simp: image_iff)
    moreover have "fst (snd k) = cl_repoFullName a" using True by (auto simp: claim_key_def)
    ultimately show ?thesis using True by (auto simp: countActiveRepo_def)
  next
    case False
    then show ?thesis using Cons by (auto simp: countActiveRepo_def)
  qed
qed (simp add: countActiveRepo_def)

lemma count_record:
  "ledger_wf rows \<Longrightarrow> countActiveRepo R (record_row newId t k nt rows) \<le> countActiveRepo R rows + (if fst (snd k) = R then 1 else 0)"
  using count_reactivate[where rows = rows and k = k and t = t and nt = nt and R = R] by (auto simp: record_row_def ledger_wf_def) (auto simp: countActiveRepo_def)

lemma count_sweep:
  assumes "ledger_wf rows" "sweepExpiredClaims pd now m rows = (out, rows')"
  shows "countActiveRepo R rows' \<le> countActiveRepo R rows"
proof -
  obtain S where "rows' = map (\<lambda>r. if S r then expire_row r else r) rows" using sweep_claims_cases[OF assms] .
  then show ?thesis by (auto intro!: count_mono split: if_splits)
qed

lemma count_end: "s \<noteq> ClActive \<Longrightarrow> countActiveRepo R (snd (end_claim s k rows)) \<le> countActiveRepo R rows"
  by (auto simp: end_claim_def intro!: count_mono split: if_splits)

lemma count_recordClaim:
  assumes "recordClaim newId t claim rows = Inr (e, rows')" "ledger_wf rows"
    "normalizeQueueRepo (rc_repoFullName claim) = Inr R'"
  shows "countActiveRepo R rows' \<le> countActiveRepo R rows + (if R' = R then 1 else 0)"
  by (rule recordClaim_rows[OF assms(1)]) (use assms(2,3) count_record in auto)

text \<open>How far one call can raise the active claims of a repository: a capped claim to its cap, an uncapped one by one.\<close>

fun label_limit :: "string \<Rightarrow> claim_label \<Rightarrow> nat \<Rightarrow> nat" where
  "label_limit R (Uncapped R') n = (if R' = R then n + 1 else n)"
| "label_limit R (Capped R' m) n = (if R' = R then max n m else n)"
| "label_limit R NoClaim n = n"

lemma claim_step_limit:
  "claim_step l rows rows' \<Longrightarrow> ledger_wf rows \<Longrightarrow> countActiveRepo R rows' \<le> label_limit R l (countActiveRepo R rows)"
proof (induction rule: claim_step.induct)
  case (c_record newId t claim rows e rows' R')
  then show ?case using count_recordClaim[OF c_record(1,4,3), of R] by (auto split: if_splits)
next
  case (c_claim pd now newId t claim rows out rows' R')
  obtain out1 rows1 where sw: "sweepExpiredClaims pd now DEFAULT_MAX_CLAIM_AGE_MS rows = (out1, rows1)"
    and r: "rows' = rows1 \<or> (\<exists>e. recordClaim newId t claim rows1 = Inr (e, rows'))"
    using claimIssue_rows[OF c_claim(1)] .
  have "countActiveRepo R rows' \<le> countActiveRepo R rows1 + (if R' = R then 1 else 0)"
    using r count_recordClaim[OF _ sweep_keeps(1)[OF c_claim(4) sw] c_claim(3), where R = R] by force
  then show ?case using count_sweep[OF c_claim(4) sw, of R] by (auto split: if_splits)
next
  case (c_capped pd now newId t claim n rows out rows' R')
  from capped_rows[OF c_capped(1,3)] show ?case
  proof cases
    case (2 out1 rows1)
    show ?thesis
      using 2(2) count_sweep[OF c_capped(4) 2(1), of R]
        count_recordClaim[OF _ sweep_keeps(1)[OF c_capped(4) 2(1)] c_capped(3), where R = R]
      by (fastforce split: if_splits)
  qed simp
next
  case c_release
  then show ?case using count_end[of ClReleased R] by (auto simp: releaseClaim_def and_then_Inr) (metis snd_conv)
next
  case c_expire
  then show ?case using count_end[of ClExpired R] by (auto simp: expireClaim_def and_then_Inr) (metis snd_conv)
next
  case (c_reclaim pd now m rows out rows')
  then show ?case using count_sweep[OF c_reclaim(2), where R = R] by (simp add: reclaimExpiredClaims_def)
next
  case c_purge
  then show ?case using count_filter[of R] by (auto simp: purgeClaimsByRepo_def and_then_Inr Let_def)
qed

lemma claim_run_limit:
  "claim_run ls rows rows' \<Longrightarrow> ledger_wf rows \<Longrightarrow> countActiveRepo R rows' \<le> fold (label_limit R) ls (countActiveRepo R rows)"
proof (induction rule: claim_run.induct)
  case (run_step ls rows rows' l rows'')
  have "label_limit R l m \<le> label_limit R l n" if "m \<le> n" for m n using that by (cases l) auto
  then have "label_limit R l (countActiveRepo R rows') \<le> fold (label_limit R) (ls @ [l]) (countActiveRepo R rows)"
    using run_step.IH[OF run_step(4)] by simp
  then show ?case by (rule order_trans[OF claim_step_limit[OF run_step(2) claim_run_wf[OF run_step(1,4)]]])
qed simp

lemma fold_label_limit:
  assumes "\<forall>n. Capped R n \<in> set ls \<longrightarrow> n \<le> c"
  shows "fold (label_limit R) ls m \<le> max m c + count_list ls (Uncapped R)"
  using assms
proof (induction ls rule: rev_induct)
  case (snoc l ls) then show ?case by (cases l) auto
qed simp


text \<open>C7: the cap on concurrent claims holds over every interleaving. Any number of processes call the ledger in any
  order and with any clock: capped claims, claims without a cap, records, releases, expiries, sweeps and purges. If no
  capped claim on a repository uses a cap above \<open>c\<close>, the repository never has more active claims, counted or listed, than
  \<open>c\<close> plus the calls that claimed it without a cap; so at most \<open>c\<close> when all its claims are capped.\<close>

theorem claims_never_exceed_cap:
  assumes "claim_run ls [] rows" "\<forall>n. Capped R n \<in> set ls \<longrightarrow> n \<le> c" "valid_repo_name R"
  shows "countActiveRepo R rows \<le> c + count_list ls (Uncapped R) \<and>
    (\<exists>es. listActiveClaims (JStr R) rows = Inr es \<and> length es = countActiveRepo R rows)"
proof
  show "countActiveRepo R rows \<le> c + count_list ls (Uncapped R)"
    using claim_run_limit[OF assms(1), of R] fold_label_limit[OF assms(2), of 0]
    by (simp add: ledger_wf_def countActiveRepo_def)
  have "normalizeQueueRepo (JStr R) = Inr R"
    using normalizeOptionalRepoFullName_fix[OF assms(3)] by (simp add: normalizeQueueRepo_optional)
  then show "\<exists>es. listActiveClaims (JStr R) rows = Inr es \<and> length es = countActiveRepo R rows"
    by (simp add: listActiveClaims_def listClaims_def normalizeListRepoFilter_def normalizeStatusFilter_def
        CLAIM_STATUSES_def countActiveRepo_def)
qed

section \<open>Lemmas: the life of a claim\<close>

text \<open>What the ledger promises, without the table: at most one claim for each issue of a repository on a host.\<close>

definition claim_of :: "ClaimRow list \<Rightarrow> claim_key \<Rightarrow> ClaimRow option" where
  "claim_of rows k = find (\<lambda>r. claim_key r = k) rows"

definition taken :: "nat \<Rightarrow> string \<Rightarrow> claim_key \<Rightarrow> string option \<Rightarrow> ClaimRow option \<Rightarrow> ClaimRow" where
  "taken newId t k nt c = (case c of
      None \<Rightarrow> \<lparr>cl_id = newId, cl_apiBaseUrl = fst k, cl_repoFullName = fst (snd k), cl_issueNumber = snd (snd k),
          cl_claimedAt = t, cl_status = ClActive, cl_note = nt\<rparr>
    | Some r \<Rightarrow> if cl_status r = ClActive then r else r\<lparr>cl_claimedAt := t, cl_note := nt, cl_status := ClActive\<rparr>)"

definition ended :: "ClaimStatus \<Rightarrow> ClaimRow option \<Rightarrow> ClaimRow option" where
  "ended s c = map_option (\<lambda>r. if cl_status r = ClActive then r\<lparr>cl_status := s\<rparr> else r) c"

definition swept :: "(ClaimRow \<Rightarrow> bool) \<Rightarrow> ClaimRow option \<Rightarrow> ClaimRow option" where
  "swept S c = map_option (\<lambda>r. if S r then expire_row r else r) c"

lemma claim_of_map: "(\<And>r. claim_key (g r) = claim_key r) \<Longrightarrow> claim_of (map g rows) k = map_option g (claim_of rows k)"
  by (simp add: claim_of_def find_map_key)

lemma claim_of_key: "claim_of rows k = Some r \<Longrightarrow> claim_key r = k \<and> r \<in> set rows"
  by (auto simp: claim_of_def find_Some_iff)

lemma claim_of_None: "claim_of rows k = None \<longleftrightarrow> k \<notin> claim_key ` set rows"
  by (auto simp: claim_of_def find_None_iff)

lemma claim_of_record: "claim_of (record_row newId t k nt rows) = (claim_of rows)(k \<mapsto> taken newId t k nt (claim_of rows k))"
proof
  fix k'
  show "claim_of (record_row newId t k nt rows) k' = ((claim_of rows)(k \<mapsto> taken newId t k nt (claim_of rows k))) k'"
  proof (cases "k \<in> claim_key ` set rows")
    case True
    then obtain r where "claim_of rows k = Some r" using claim_of_None by blast
    moreover have "claim_of (record_row newId t k nt rows) k' = map_option (\<lambda>r. if claim_key r = k \<and> cl_status r \<noteq> ClActive
        then r\<lparr>cl_claimedAt := t, cl_note := nt, cl_status := ClActive\<rparr> else r) (claim_of rows k')"
      using True by (simp add: record_row_def claim_of_map)
    ultimately show ?thesis using claim_of_key[of rows]
      by (cases "claim_of rows k'") (auto simp: taken_def)
  next
    case False
    then have "claim_of rows k = None" by (simp add: claim_of_None)
    then show ?thesis using False
      by (auto simp: record_row_def claim_of_def find_append claim_key_def taken_def split: option.splits)
  qed
qed

lemma claim_of_end: "claim_of (snd (end_claim s k rows)) = (claim_of rows)(k := ended s (claim_of rows k))"
proof
  fix k'
  have "claim_of (snd (end_claim s k rows)) k' =
      map_option (\<lambda>r. if claim_key r = k \<and> cl_status r = ClActive then r\<lparr>cl_status := s\<rparr> else r) (claim_of rows k')"
    by (simp add: end_claim_def claim_of_map)
  then show "claim_of (snd (end_claim s k rows)) k' = ((claim_of rows)(k := ended s (claim_of rows k))) k'"
    using claim_of_key[of rows] by (cases "claim_of rows k'") (auto simp: ended_def)
qed

lemma claim_of_sweep:
  "claim_of (map (\<lambda>r. if S r then expire_row r else r) rows) = swept S \<circ> claim_of rows"
  by (auto simp: claim_of_map swept_def)

lemma end_claim_result:
  "distinct (map claim_key rows) \<Longrightarrow> fst (end_claim s k rows) =
     (case claim_of rows k of
        None \<Rightarrow> None
      | Some r \<Rightarrow> if cl_status r = ClActive then Some (rowToClaim (r\<lparr>cl_status := s\<rparr>)) else None)"
proof (induction rows)
  case (Cons a rows)
  then have "claim_key a = k \<Longrightarrow> claim_of rows k = None" by (simp add: claim_of_None)
  with Cons show ?case by (auto simp: end_claim_def claim_of_def split: option.splits)
qed (simp add: end_claim_def claim_of_def)

lemma end_claim_spec:
  assumes "distinct (map claim_key rows)"
  shows "\<exists>e rows'. end_claim s k rows = (e, rows') \<and> claim_of rows' = (claim_of rows)(k := ended s (claim_of rows k)) \<and>
    (e \<noteq> None \<longleftrightarrow> map_option cl_status (claim_of rows k) = Some ClActive)"
proof (intro exI conjI)
  show "end_claim s k rows = (fst (end_claim s k rows), snd (end_claim s k rows))" by simp
  show "claim_of (snd (end_claim s k rows)) = (claim_of rows)(k := ended s (claim_of rows k))" by (rule claim_of_end)
  show "fst (end_claim s k rows) \<noteq> None \<longleftrightarrow> map_option cl_status (claim_of rows k) = Some ClActive"
    unfolding end_claim_result[OF assms] by (auto split: option.splits)
qed

lemma recordClaim_spec:
  assumes "normalize_claim_key (rc_apiBaseUrl claim) (rc_repoFullName claim) (rc_issueNumber claim) = Inr k"
    and "normalizeNote (rc_note claim) = Inr nt"
  shows "\<exists>rows'. recordClaim newId t claim rows = Inr (Some (rowToClaim (taken newId t k nt (claim_of rows k))), rows') \<and>
    claim_of rows' = (claim_of rows)(k \<mapsto> taken newId t k nt (claim_of rows k)) \<and> rows' = record_row newId t k nt rows"
proof -
  have "claim_of (record_row newId t k nt rows) k = Some (taken newId t k nt (claim_of rows k))"
    by (simp add: claim_of_record)
  then show ?thesis
    using assms by (simp add: recordClaim_def Let_def claim_of_record flip: claim_of_def)
qed

lemma default_age_valid: "valid_ms DEFAULT_MAX_CLAIM_AGE_MS"
  by (simp add: DEFAULT_MAX_CLAIM_AGE_MS_def)

abbreviation old_claim :: "(string \<Rightarrow> jsnum) \<Rightarrow> jsnum \<Rightarrow> ClaimRow \<Rightarrow> bool" where
  "old_claim parse_date nowMs \<equiv> stale parse_date nowMs DEFAULT_MAX_CLAIM_AGE_MS"

text \<open>C34: the ledger is a map from issues to claims. Recording a claim takes the issue unless it is held, in which case the
  held claim is kept and returned; releasing and expiring end a held claim and report it, and report null otherwise;
  claiming an issue first expires every claim that is too old, so a claim left behind by a dead process is taken over
  with a fresh date instead of being returned.\<close>

theorem ledger_refines_claim_map:
  assumes "claim_run ls [] rows" "normalize_claim_key a r n = Inr k" "normalizeNote v = Inr nt" "valid_ms now"
  defines "claim \<equiv> \<lparr>rc_repoFullName = r, rc_issueNumber = n, rc_note = v, rc_apiBaseUrl = a\<rparr>"
  shows "(\<exists>rows'. recordClaim newId t claim rows = Inr (Some (rowToClaim (taken newId t k nt (claim_of rows k))), rows') \<and>
      claim_of rows' = (claim_of rows)(k \<mapsto> taken newId t k nt (claim_of rows k)))
    \<and> (\<exists>rows'. claimIssue pd now newId t claim rows =
        (Inr (Some (rowToClaim (taken newId t k nt (swept (old_claim pd now) (claim_of rows k))))), rows') \<and>
      claim_of rows' = (swept (old_claim pd now) \<circ> claim_of rows)
        (k \<mapsto> taken newId t k nt (swept (old_claim pd now) (claim_of rows k))))
    \<and> (\<exists>e rows'. releaseClaim r n a rows = Inr (e, rows') \<and>
      claim_of rows' = (claim_of rows)(k := ended ClReleased (claim_of rows k)) \<and>
      (e \<noteq> None \<longleftrightarrow> map_option cl_status (claim_of rows k) = Some ClActive))
    \<and> (\<exists>e rows'. expireClaim r n a rows = Inr (e, rows') \<and>
      claim_of rows' = (claim_of rows)(k := ended ClExpired (claim_of rows k)) \<and>
      (e \<noteq> None \<longleftrightarrow> map_option cl_status (claim_of rows k) = Some ClActive))"
  (is "?rec \<and> ?claim \<and> ?rel \<and> ?exp")
proof (intro conjI)
  have wf: "ledger_wf rows" using claim_run_from_empty[OF assms(1)] .
  then have dist: "distinct (map claim_key rows)" by (simp add: ledger_wf_def)
  have c: "normalize_claim_key (rc_apiBaseUrl claim) (rc_repoFullName claim) (rc_issueNumber claim) = Inr k"
    "normalizeNote (rc_note claim) = Inr nt" using assms(2,3) by (simp_all add: claim_def)
  show ?rec using recordClaim_spec[OF c] by blast
  let ?rows1 = "map (\<lambda>r. if old_claim pd now r then expire_row r else r) rows"
  obtain es where sw: "sweepExpiredClaims pd now DEFAULT_MAX_CLAIM_AGE_MS rows = (Inr es, ?rows1)"
    using sweep_claims_rows[OF wf assms(4) default_age_valid] by blast
  have one: "claim_of ?rows1 = swept (old_claim pd now) \<circ> claim_of rows" by (rule claim_of_sweep)
  obtain rows' where
    "recordClaim newId t claim ?rows1 = Inr (Some (rowToClaim (taken newId t k nt (claim_of ?rows1 k))), rows')"
    "claim_of rows' = (claim_of ?rows1)(k \<mapsto> taken newId t k nt (claim_of ?rows1 k))"
    using recordClaim_spec[OF c] by blast
  then show ?claim by (simp add: claimIssue_def sw one)
  show ?rel ?exp using end_claim_spec[OF dist] assms(2) by (simp_all add: releaseClaim_def expireClaim_def)
qed

lemma count_swept:
  "countActiveRepo R (map (\<lambda>r. if old_claim pd now r then expire_row r else r) rows) =
     length (filter (\<lambda>x. cl_repoFullName x = R \<and> cl_status x = ClActive \<and> \<not> old_claim pd now x) rows)"
  by (induction rows) (auto simp: countActiveRepo_def dest: stale_active)

lemma capped_error: "claimIssueWithinCap pd now newId t claim m rows = (Inl e, rows') \<Longrightarrow> rows' = rows"
  by (auto simp: claimIssueWithinCap_def Let_def split: sum.splits if_splits prod.splits)

text \<open>what a capped claim decides. With a valid claim and cap it counts the repository's active claims that are not too
  old, takes the issue exactly when there are fewer than the cap, and otherwise refuses, reporting count and cap; either
  way the claims that are too old are expired. A call that throws, for whatever input, leaves the ledger as it was.\<close>

theorem capped_claim_decides:
  fixes pd :: "string \<Rightarrow> jsnum" and newId :: nat and t :: string
  assumes "claim_run ls [] rows" "normalize_claim_key a r n = Inr k" "normalizeNote v = Inr nt" "valid_ms now" "0 < cap"
  defines "claim \<equiv> \<lparr>rc_repoFullName = r, rc_issueNumber = n, rc_note = v, rc_apiBaseUrl = a\<rparr>"
    and "live \<equiv> length (filter (\<lambda>x. cl_repoFullName x = fst (snd k) \<and> cl_status x = ClActive \<and> \<not> old_claim pd now x) rows)"
    and "entry \<equiv> taken newId t k nt (swept (old_claim pd now) (claim_of rows k))"
  shows "(\<exists>rows'. claimIssueWithinCap pd now newId t claim (JNum (num_of_nat cap)) rows =
        (Inr \<lparr>cw_claimed = (live < cap), cw_claim = (if live < cap then Some (rowToClaim entry) else None),
           cw_activeClaimCount = live, cw_maxConcurrentClaims = cap\<rparr>, rows') \<and>
      claim_of rows' = (if live < cap then (swept (old_claim pd now) \<circ> claim_of rows)(k \<mapsto> entry)
        else swept (old_claim pd now) \<circ> claim_of rows))
    \<and> (\<forall>claim' m e rows'. claimIssueWithinCap pd now newId t claim' m rows = (Inl e, rows') \<longrightarrow> rows' = rows)"
  (is "?ok \<and> ?err")
proof
  show ?err using capped_error by blast
  have c: "normalize_claim_key (rc_apiBaseUrl claim) (rc_repoFullName claim) (rc_issueNumber claim) = Inr k"
    "normalizeNote (rc_note claim) = Inr nt" using assms(2,3) by (simp_all add: claim_def)
  let ?rows1 = "map (\<lambda>r. if old_claim pd now r then expire_row r else r) rows"
  obtain es where sw: "sweepExpiredClaims pd now DEFAULT_MAX_CLAIM_AGE_MS rows = (Inr es, ?rows1)"
    using sweep_claims_rows[OF claim_run_from_empty[OF assms(1)] assms(4) default_age_valid] by blast
  have one: "claim_of ?rows1 = swept (old_claim pd now) \<circ> claim_of rows" by (rule claim_of_sweep)
  obtain rows' where "recordClaim newId t claim ?rows1 = Inr (Some (rowToClaim entry), rows')"
    "claim_of rows' = (claim_of ?rows1)(k \<mapsto> entry)"
    using recordClaim_spec[OF c, of newId t ?rows1] by (auto simp: one entry_def)
  then show ?ok
    using normalize_claim_key_repo[OF assms(2)] assms(5)
    by (auto simp: claimIssueWithinCap_def normalizeMaxConcurrentClaims_def sw count_swept one live_def claim_def not_less)
qed

section \<open>Witnesses\<close>

definition sample_claim :: "nat \<Rightarrow> RecordClaimInput" where
  "sample_claim n = \<lparr>rc_repoFullName = JStr ''o/r'', rc_issueNumber = JNum (num_of_nat n), rc_note = JUndef,
     rc_apiBaseUrl = JUndef\<rparr>"

definition sample_claim_row :: "nat \<Rightarrow> ClaimRow" where
  "sample_claim_row n = \<lparr>cl_id = n, cl_apiBaseUrl = DEFAULT_API_BASE_URL, cl_repoFullName = ''o/r'', cl_issueNumber = n,
     cl_claimedAt = ''t'', cl_status = ClActive, cl_note = None\<rparr>"

lemma sample_repo: "normalizeQueueRepo (JStr ''o/r'') = Inr ''o/r''"
  by code_simp

lemma sample_claim_key:
  "0 < n \<Longrightarrow> normalize_claim_key JUndef (JStr ''o/r'') (JNum (num_of_nat n)) = Inr (DEFAULT_API_BASE_URL, ''o/r'', n)"
  by (simp add: normalize_claim_key_def normalizeApiBaseUrl_def sample_repo normalizeIssueNumber_def)

lemma sample_fresh: "\<not> old_claim (\<lambda>_. Fin 0) (Fin 5) (sample_claim_row n)"
  by (simp add: is_expired_def claimAgeMs_def DEFAULT_MAX_CLAIM_AGE_MS_def num_of_rat_small)

lemma sample_sweep:
  "sweepExpiredClaims (\<lambda>_. Fin 0) (Fin 5) DEFAULT_MAX_CLAIM_AGE_MS (map sample_claim_row ns) =
     (Inr [], map sample_claim_row ns)"
proof -
  have "filter (is_expired (\<lambda>_. Fin 0) (Fin 5) DEFAULT_MAX_CLAIM_AGE_MS)
      (map rowToClaim (filter (\<lambda>x. cl_status x = ClActive) (map sample_claim_row ns))) = []"
    using sample_fresh by (auto simp: filter_empty_conv)
  then show ?thesis
    by (simp add: sweepExpiredClaims_def listClaims_def normalizeListRepoFilter_def normalizeStatusFilter_def
        CLAIM_STATUSES_def findExpiredClaims_def default_age_valid)
qed

lemma sample_claims:
  "snd (claimIssueWithinCap (\<lambda>_. Fin 0) (Fin 5) 1 ''t'' (sample_claim 1) (JNum (num_of_nat 1)) []) = [sample_claim_row 1]"
  "snd (claimIssueWithinCap (\<lambda>_. Fin 0) (Fin 5) 2 ''t'' (sample_claim 2) (JNum (num_of_nat 1)) [sample_claim_row 1]) =
     [sample_claim_row 1]"
  using sample_sweep[of "[]"] sample_sweep[of "[1]"] sample_claim_key[of 1]
  by (simp_all add: claimIssueWithinCap_def normalizeMaxConcurrentClaims_def positive_int_def sample_claim_def sample_repo
      countActiveRepo_def recordClaim_def normalizeNote_def record_row_def)
    (simp_all add: sample_claim_row_def)

lemma sample_claim_run: "claim_run [Capped ''o/r'' 1, Capped ''o/r'' 1] [] [sample_claim_row 1]"
proof -
  have 1: "claim_step (Capped ''o/r'' 1) [] [sample_claim_row 1]"
    using sample_claims(1) by (intro c_capped[where newId = 1]) (auto simp: sample_repo sample_claim_def prod_eq_iff)
  have 2: "claim_step (Capped ''o/r'' 1) [sample_claim_row 1] [sample_claim_row 1]"
    using sample_claims(2)
    by (intro c_capped[where newId = 2]) (auto simp: sample_repo sample_claim_def sample_claim_row_def prod_eq_iff)
  show ?thesis using run_step[OF run_step[OF run_nil 1] 2] by simp
qed

theorem claims_never_exceed_cap_witness: "countActiveRepo ''o/r'' [sample_claim_row 1] \<le> 1"
proof -
  have "valid_repo_name ''o/r''" using normalizeOptionalRepoFullName_valid sample_repo
    by (simp only: normalizeQueueRepo_optional)
  then show ?thesis using claims_never_exceed_cap[OF sample_claim_run, of "''o/r''" 1] by simp
qed

theorem ledger_refines_claim_map_witness:
  "\<exists>rows'. releaseClaim (JStr ''o/r'') (JNum (num_of_nat 1)) JUndef [sample_claim_row 1] =
      Inr (Some (rowToClaim ((sample_claim_row 1)\<lparr>cl_status := ClReleased\<rparr>)), rows') \<and>
     map_option cl_status (claim_of rows' (DEFAULT_API_BASE_URL, ''o/r'', 1)) = Some ClReleased"
proof -
  have row: "claim_of [sample_claim_row 1] (DEFAULT_API_BASE_URL, ''o/r'', 1) = Some (sample_claim_row 1)"
    "cl_status (sample_claim_row 1) = ClActive"
    by (simp_all add: claim_of_def sample_claim_row_def claim_key_def)
  have "normalizeNote JUndef = Inr None" "valid_ms (Fin 0)" by (simp_all add: normalizeNote_def)
  from ledger_refines_claim_map[OF sample_claim_run sample_claim_key[OF zero_less_one] this, where newId = 2 and t = "''t''" and pd = "\<lambda>_. Fin 0"]
  obtain e rows' where r: "releaseClaim (JStr ''o/r'') (JNum (num_of_nat 1)) JUndef [sample_claim_row 1] = Inr (e, rows')"
    "claim_of rows' = (claim_of [sample_claim_row 1])((DEFAULT_API_BASE_URL, ''o/r'', 1) :=
       ended ClReleased (claim_of [sample_claim_row 1] (DEFAULT_API_BASE_URL, ''o/r'', 1)))" by blast
  then have "e = Some (rowToClaim ((sample_claim_row 1)\<lparr>cl_status := ClReleased\<rparr>))"
    using row sample_claim_key[of 1] by (auto simp: releaseClaim_def end_claim_def claim_of_def split: if_splits)
  then show ?thesis using r row by (auto simp: ended_def)
qed

theorem capped_claim_decides_witness:
  "\<exists>res rows'. claimIssueWithinCap (\<lambda>_. Fin 0) (Fin 5) 2 ''t'' (sample_claim 1) (JNum (num_of_nat 1)) [sample_claim_row 1]
      = (Inr res, rows') \<and> \<not> cw_claimed res \<and> cw_activeClaimCount res = 1"
proof -
  have "normalizeNote JUndef = Inr None" "valid_ms (Fin 5)" "0 < (1 :: nat)" by (simp_all add: normalizeNote_def)
  from capped_claim_decides[OF sample_claim_run sample_claim_key[OF zero_less_one] this,
      where pd = "\<lambda>_. Fin 0" and newId = 2 and t = "''t''"]
  have "\<exists>rows'. claimIssueWithinCap (\<lambda>_. Fin 0) (Fin 5) 2 ''t'' (sample_claim 1) (JNum (num_of_nat 1)) [sample_claim_row 1] =
      (Inr \<lparr>cw_claimed = False, cw_claim = None, cw_activeClaimCount = 1, cw_maxConcurrentClaims = 1\<rparr>, rows')"
    using sample_fresh[of 1] unfolding sample_claim_def by (auto simp: sample_claim_row_def)
  then show ?thesis by (metis ClaimWithinCapResult.select_convs(1,3))
qed

end
