(* ===== verification/Worktree.thy ===== *)
theory Worktree
  imports Queue_Store
begin

text \<open>
  The worktree allocator (\<open>packages/loopover-miner/lib/worktree-allocator.ts\<close>): a fixed pool of worktree slots in one
  SQLite table that several miner processes, on several hosts, lease to their attempts.

  The table is the list of its rows in \<open>slot_index\<close> order. The path of a slot, the result of signalling a process and
  \<open>Date.parse\<close> are parameters, wall-clock readings are arguments. Outside its transaction \<open>acquire\<close> is a sequence of
  statements that other processes may interleave with, so its parts are definitions of their own: the probe, the
  compare-and-set that frees one probed slot, the first lookup, and the transaction. Opening the file, creating the
  directories and the column migration are not modelled.

  The lemmas show that over every interleaving of these parts an allocation that was returned stays in the table until it
  is released or its own lease is orphaned, that no two of them share a slot and that the pool is never oversubscribed, that a reclaim with outdated evidence does nothing, and what \<open>acquire\<close> returns.
\<close>

section \<open>Definitions: slots\<close>

datatype SlotStatus = SlotFree | SlotActive

record WorktreeSlotRow =
  ws_slotIndex :: nat
  ws_worktreePath :: string
  ws_attemptId :: "string option"
  ws_repoFullName :: "string option"
  ws_status :: SlotStatus
  ws_ownerPid :: "int option"
  ws_ownerHost :: "string option"
  ws_allocatedAt :: "string option"

record WorktreeAllocation =
  wa_slotIndex :: nat
  wa_worktreePath :: string
  wa_attemptId :: "string option"
  wa_repoFullName :: "string option"
  wa_status :: SlotStatus
  wa_ownerPid :: "int option"
  wa_ownerHost :: "string option"
  wa_allocatedAt :: "string option"

record OrphanProbeRow =
  op_slotIndex :: nat
  op_ownerPid :: "int option"
  op_ownerHost :: "string option"
  op_allocatedAt :: "string option"

definition defaultMaxConcurrency :: nat where
  "defaultMaxConcurrency = 2"

definition DEFAULT_WORKTREE_MAX_LEASE_MS :: jsnum where
  "DEFAULT_WORKTREE_MAX_LEASE_MS = Fin 21600000"

definition normalizeMaxConcurrency :: "jsval \<Rightarrow> string + nat" where
  "normalizeMaxConcurrency v =
     (if v = JUndef \<or> v = JNull then Inr defaultMaxConcurrency
      else case positive_int v of None \<Rightarrow> Inl ''invalid_max_concurrency'' | Some n \<Rightarrow> Inr n)"

definition normalizeMaxLeaseMs :: "jsval \<Rightarrow> string + jsnum" where
  "normalizeMaxLeaseMs v =
     (if v = JUndef \<or> v = JNull then Inr DEFAULT_WORKTREE_MAX_LEASE_MS
      else case v of
             JNum x \<Rightarrow> if \<not> isFinite x \<or> num_lt x (Fin 0) then Inl ''invalid_max_lease_ms'' else Inr x
           | _ \<Rightarrow> Inl ''invalid_max_lease_ms'')"

definition normalizeHostId :: "string \<Rightarrow> jsval \<Rightarrow> string + string" where
  "normalizeHostId hostname v =
     (if v = JUndef \<or> v = JNull then Inr hostname
      else case v of
             JStr s \<Rightarrow> if trim s = [] then Inl ''invalid_host_id'' else Inr (trim s)
           | _ \<Rightarrow> Inl ''invalid_host_id'')"

definition normalizeAttemptId :: "jsval \<Rightarrow> string + string" where
  "normalizeAttemptId v =
     (case v of
        JStr s \<Rightarrow> if trim s = [] then Inl ''invalid_attempt_id'' else Inr (trim s)
      | _ \<Rightarrow> Inl ''invalid_attempt_id'')"

text \<open>\<open>signal_ok pid\<close> is false exactly when \<open>process.kill(pid, 0)\<close> fails with \<open>ESRCH\<close>.\<close>

definition isProcessAlive :: "(int \<Rightarrow> bool) \<Rightarrow> int \<Rightarrow> bool" where
  "isProcessAlive signal_ok pid \<longleftrightarrow> 0 < pid \<and> signal_ok pid"

definition rowToAllocation :: "WorktreeSlotRow \<Rightarrow> WorktreeAllocation" where
  "rowToAllocation r =
     \<lparr>wa_slotIndex = ws_slotIndex r, wa_worktreePath = ws_worktreePath r, wa_attemptId = ws_attemptId r,
      wa_repoFullName = ws_repoFullName r, wa_status = ws_status r, wa_ownerPid = ws_ownerPid r,
      wa_ownerHost = ws_ownerHost r, wa_allocatedAt = ws_allocatedAt r\<rparr>"

text \<open>\<open>INSERT OR IGNORE\<close>: a slot whose index or path is taken is left as it is.\<close>

definition free_slot :: "nat \<Rightarrow> string \<Rightarrow> WorktreeSlotRow" where
  "free_slot i path =
     \<lparr>ws_slotIndex = i, ws_worktreePath = path, ws_attemptId = None, ws_repoFullName = None, ws_status = SlotFree,
      ws_ownerPid = None, ws_ownerHost = None, ws_allocatedAt = None\<rparr>"

definition ensure_slot :: "(nat \<Rightarrow> string) \<Rightarrow> nat \<Rightarrow> WorktreeSlotRow list \<Rightarrow> WorktreeSlotRow list" where
  "ensure_slot slot_path i rows =
     (if i \<in> ws_slotIndex ` set rows \<or> slot_path i \<in> ws_worktreePath ` set rows then rows
      else insort_key ws_slotIndex (free_slot i (slot_path i)) rows)"

definition ensureSlots :: "(nat \<Rightarrow> string) \<Rightarrow> nat \<Rightarrow> WorktreeSlotRow list \<Rightarrow> WorktreeSlotRow list" where
  "ensureSlots slot_path maxConcurrency rows = fold (ensure_slot slot_path) [0 ..< maxConcurrency] rows"


section \<open>Definitions: reclaiming\<close>

definition allocationAgeMs :: "(string \<Rightarrow> jsnum) \<Rightarrow> string option \<Rightarrow> jsnum \<Rightarrow> jsnum option" where
  "allocationAgeMs parse_date allocatedAt nowMs =
     (let allocatedMs = (case allocatedAt of None \<Rightarrow> NaN | Some s \<Rightarrow> parse_date s) in
      if \<not> isFinite allocatedMs then None else Some (num_sub nowMs allocatedMs))"

definition isSlotOrphaned ::
  "(string \<Rightarrow> jsnum) \<Rightarrow> (int \<Rightarrow> bool) \<Rightarrow> OrphanProbeRow \<Rightarrow> jsnum \<Rightarrow> jsnum \<Rightarrow> string \<Rightarrow> bool" where
  "isSlotOrphaned parse_date signal_ok row nowMs maxLeaseMs hostId =
     (if (case allocationAgeMs parse_date (op_allocatedAt row) nowMs of None \<Rightarrow> False | Some ageMs \<Rightarrow> num_lt maxLeaseMs ageMs)
      then True
      else if op_ownerHost row = Some hostId
      then (case op_ownerPid row of None \<Rightarrow> True | Some pid \<Rightarrow> \<not> isProcessAlive signal_ok pid)
      else False)"

definition probe_of :: "WorktreeSlotRow \<Rightarrow> OrphanProbeRow" where
  "probe_of r = \<lparr>op_slotIndex = ws_slotIndex r, op_ownerPid = ws_ownerPid r, op_ownerHost = ws_ownerHost r,
     op_allocatedAt = ws_allocatedAt r\<rparr>"

definition probe_active :: "WorktreeSlotRow list \<Rightarrow> OrphanProbeRow list" where
  "probe_active rows = map probe_of (filter (\<lambda>r. ws_status r = SlotActive) rows)"

definition clear_slot :: "WorktreeSlotRow \<Rightarrow> WorktreeSlotRow" where
  "clear_slot r = r\<lparr>ws_status := SlotFree, ws_attemptId := None, ws_repoFullName := None, ws_ownerPid := None,
     ws_ownerHost := None, ws_allocatedAt := None\<rparr>"

text \<open>The compare-and-set: the slot must still be active with exactly the probed lease.\<close>

definition reclaim_slot :: "OrphanProbeRow \<Rightarrow> WorktreeSlotRow list \<Rightarrow> WorktreeSlotRow list" where
  "reclaim_slot row rows =
     map (\<lambda>r. if ws_slotIndex r = op_slotIndex row \<and> ws_status r = SlotActive \<and> ws_allocatedAt r = op_allocatedAt row \<and>
                 ws_ownerPid r = op_ownerPid row \<and> ws_ownerHost r = op_ownerHost row
              then clear_slot r else r) rows"

definition reclaimOrphanedAllocations ::
  "(string \<Rightarrow> jsnum) \<Rightarrow> (int \<Rightarrow> bool) \<Rightarrow> jsnum \<Rightarrow> jsnum \<Rightarrow> string \<Rightarrow> OrphanProbeRow list option
     \<Rightarrow> WorktreeSlotRow list \<Rightarrow> WorktreeSlotRow list" where
  "reclaimOrphanedAllocations parse_date signal_ok nowMs maxLeaseMs hostId probedRows rows =
     (let orphans = or_default probedRows (probe_active rows) in
      fold (\<lambda>row rows. if isSlotOrphaned parse_date signal_ok row nowMs maxLeaseMs hostId
                       then reclaim_slot row rows else rows) orphans rows)"


section \<open>Definitions: operations\<close>

record WorktreeAllocator =
  al_maxConcurrency :: nat
  al_maxLeaseMs :: jsnum
  al_processPid :: int
  al_hostId :: string

definition openWorktreeAllocator ::
  "(string \<Rightarrow> jsnum) \<Rightarrow> (int \<Rightarrow> bool) \<Rightarrow> (nat \<Rightarrow> string) \<Rightarrow> string \<Rightarrow> int \<Rightarrow> jsnum \<Rightarrow> jsval \<Rightarrow> jsval \<Rightarrow> jsval
     \<Rightarrow> WorktreeSlotRow list \<Rightarrow> string + WorktreeAllocator \<times> WorktreeSlotRow list" where
  "openWorktreeAllocator parse_date signal_ok slot_path hostname processPid nowMs maxConcurrency maxLeaseMs hostId rows =
     and_then (normalizeMaxConcurrency maxConcurrency) (\<lambda>c.
     and_then (normalizeMaxLeaseMs maxLeaseMs) (\<lambda>l.
     and_then (normalizeHostId hostname hostId) (\<lambda>h.
     Inr (\<lparr>al_maxConcurrency = c, al_maxLeaseMs = l, al_processPid = processPid, al_hostId = h\<rparr>,
          reclaimOrphanedAllocations parse_date signal_ok nowMs l h None (ensureSlots slot_path c rows)))))"

definition getByAttempt :: "string \<Rightarrow> WorktreeSlotRow list \<Rightarrow> WorktreeSlotRow option" where
  "getByAttempt attemptId rows = find (\<lambda>r. ws_attemptId r = Some attemptId) rows"

text \<open>The lookup before the transaction.\<close>

definition acquire_existing :: "string \<Rightarrow> string \<Rightarrow> WorktreeSlotRow list \<Rightarrow> (string + WorktreeAllocation) option" where
  "acquire_existing attemptId repo rows =
     (case getByAttempt attemptId rows of
        Some existing \<Rightarrow>
          if ws_status existing = SlotActive then
            (if ws_repoFullName existing \<noteq> Some repo then
               Some (Inl (''attempt_id_repo_mismatch: attempt '' @ attemptId @ '' is already active for '' @
                 or_default (ws_repoFullName existing) ''null'' @ '', not '' @ repo))
             else Some (Inr (rowToAllocation existing)))
          else None
      | None \<Rightarrow> None)"

definition lease_slot :: "WorktreeAllocator \<Rightarrow> string \<Rightarrow> string \<Rightarrow> string \<Rightarrow> WorktreeSlotRow \<Rightarrow> WorktreeSlotRow" where
  "lease_slot al attemptId repo allocatedAt r =
     r\<lparr>ws_status := SlotActive, ws_attemptId := Some attemptId, ws_repoFullName := Some repo,
       ws_ownerPid := Some (al_processPid al), ws_ownerHost := Some (al_hostId al), ws_allocatedAt := Some allocatedAt\<rparr>"

text \<open>The transaction. The column \<open>attempt_id\<close> is unique, so an update that would repeat one fails.\<close>

definition acquire_txn ::
  "WorktreeAllocator \<Rightarrow> string \<Rightarrow> string \<Rightarrow> string \<Rightarrow> WorktreeSlotRow list
     \<Rightarrow> (string + WorktreeAllocation) \<times> WorktreeSlotRow list" where
  "acquire_txn al allocatedAt attemptId repo rows =
     (case find (\<lambda>r. ws_status r = SlotActive) (case getByAttempt attemptId rows of None \<Rightarrow> [] | Some raced \<Rightarrow> [raced]) of
        Some raced \<Rightarrow> (Inr (rowToAllocation raced), rows)
      | None \<Rightarrow>
          if al_maxConcurrency al \<le> length (filter (\<lambda>r. ws_status r = SlotActive) rows)
          then (Inl ''worktree_capacity_exceeded'', rows)
          else case find (\<lambda>r. ws_status r = SlotFree) rows of
                 None \<Rightarrow> (Inl ''worktree_capacity_exceeded'', rows)
               | Some slot \<Rightarrow>
                   if list_ex (\<lambda>r. ws_attemptId r = Some attemptId \<and> ws_slotIndex r \<noteq> ws_slotIndex slot) rows
                   then (Inl ''UNIQUE constraint failed: worktree_slots.attempt_id'', rows)
                   else (Inr (rowToAllocation (lease_slot al attemptId repo allocatedAt slot)),
                     map (\<lambda>r. if ws_slotIndex r = ws_slotIndex slot then lease_slot al attemptId repo allocatedAt r else r) rows))"

definition acquire ::
  "(string \<Rightarrow> jsnum) \<Rightarrow> (int \<Rightarrow> bool) \<Rightarrow> WorktreeAllocator \<Rightarrow> jsnum \<Rightarrow> string \<Rightarrow> jsval \<Rightarrow> jsval \<Rightarrow> WorktreeSlotRow list
     \<Rightarrow> (string + WorktreeAllocation) \<times> WorktreeSlotRow list" where
  "acquire parse_date signal_ok al nowMs allocatedAt attemptId repoFullName rows =
     (let rows1 = reclaimOrphanedAllocations parse_date signal_ok nowMs (al_maxLeaseMs al) (al_hostId al) None rows in
      case and_then (normalizeAttemptId attemptId) (\<lambda>a. and_then (normalizeQueueRepo repoFullName) (\<lambda>r. Inr (a, r))) of
        Inl e \<Rightarrow> (Inl e, rows1)
      | Inr (a, r) \<Rightarrow>
          (case acquire_existing a r rows1 of
             Some res \<Rightarrow> (res, rows1)
           | None \<Rightarrow> acquire_txn al allocatedAt a r rows1))"

definition release :: "jsval \<Rightarrow> WorktreeSlotRow list \<Rightarrow> string + WorktreeAllocation option \<times> WorktreeSlotRow list" where
  "release attemptId rows =
     and_then (normalizeAttemptId attemptId) (\<lambda>a.
     Inr (map_option (\<lambda>r. rowToAllocation (clear_slot r))
            (find (\<lambda>r. ws_attemptId r = Some a \<and> ws_status r = SlotActive) rows),
          map (\<lambda>r. if ws_attemptId r = Some a \<and> ws_status r = SlotActive then clear_slot r else r) rows))"

definition listSlots :: "WorktreeSlotRow list \<Rightarrow> WorktreeAllocation list" where
  "listSlots rows = map rowToAllocation rows"

definition purgeSlotsByRepo :: "jsval \<Rightarrow> WorktreeSlotRow list \<Rightarrow> string + nat \<times> WorktreeSlotRow list" where
  "purgeSlotsByRepo repoFullName rows =
     and_then (normalizeQueueRepo repoFullName) (\<lambda>repo.
     let P = (\<lambda>r. ws_status r = SlotFree \<and> ws_repoFullName r = Some repo) in
     Inr (length (filter P rows), map (\<lambda>r. if P r then clear_slot r else r) rows))"


section \<open>Lemmas: the pool invariant\<close>

text \<open>An active slot carries its whole lease, a free one nothing.\<close>

definition slot_wf :: "WorktreeSlotRow \<Rightarrow> bool" where
  "slot_wf r \<longleftrightarrow> (case ws_status r of
      SlotActive \<Rightarrow> ws_attemptId r \<noteq> None \<and> ws_repoFullName r \<noteq> None \<and> ws_ownerPid r \<noteq> None \<and>
        ws_ownerHost r \<noteq> None \<and> ws_allocatedAt r \<noteq> None
    | SlotFree \<Rightarrow> r = free_slot (ws_slotIndex r) (ws_worktreePath r))"

definition pool_wf :: "WorktreeSlotRow list \<Rightarrow> bool" where
  "pool_wf rows \<longleftrightarrow> sorted_wrt (<) (map ws_slotIndex rows) \<and> distinct (map ws_worktreePath rows) \<and>
     (\<forall>r \<in> set rows. slot_wf r) \<and>
     (\<forall>r \<in> set rows. \<forall>s \<in> set rows. ws_attemptId r \<noteq> None \<longrightarrow> ws_attemptId r = ws_attemptId s \<longrightarrow> r = s)"

abbreviation active :: "WorktreeSlotRow \<Rightarrow> bool" where
  "active r \<equiv> ws_status r = SlotActive"

definition active_slots :: "WorktreeSlotRow list \<Rightarrow> nat" where
  "active_slots rows = length (filter active rows)"

lemma not_active [simp]: "ws_status r \<noteq> SlotActive \<longleftrightarrow> ws_status r = SlotFree"
  by (cases "ws_status r") simp_all

lemma clear_slot_simps [simp]:
  "ws_slotIndex (clear_slot r) = ws_slotIndex r" "ws_worktreePath (clear_slot r) = ws_worktreePath r"
  "ws_attemptId (clear_slot r) = None" "ws_status (clear_slot r) = SlotFree" "slot_wf (clear_slot r)"
  by (simp_all add: clear_slot_def slot_wf_def free_slot_def)

lemma lease_slot_simps [simp]:
  "ws_slotIndex (lease_slot al a r t s) = ws_slotIndex s" "ws_worktreePath (lease_slot al a r t s) = ws_worktreePath s"
  "ws_attemptId (lease_slot al a r t s) = Some a" "ws_status (lease_slot al a r t s) = SlotActive"
  "ws_repoFullName (lease_slot al a r t s) = Some r" "slot_wf (lease_slot al a r t s)"
  by (simp_all add: lease_slot_def slot_wf_def)

lemma slot_index_unique:
  "pool_wf rows \<Longrightarrow> r \<in> set rows \<Longrightarrow> s \<in> set rows \<Longrightarrow> ws_slotIndex r = ws_slotIndex s \<Longrightarrow> r = s"
  using strict_sorted_iff[of "map ws_slotIndex rows"] by (auto simp: pool_wf_def distinct_map dest: inj_onD)

lemma free_slot_simps [simp]:
  "ws_slotIndex (free_slot i p) = i" "ws_worktreePath (free_slot i p) = p" "ws_attemptId (free_slot i p) = None"
  "ws_status (free_slot i p) = SlotFree" "slot_wf (free_slot i p)"
  by (simp_all add: free_slot_def slot_wf_def)

lemma free_slot_wf: "slot_wf r \<Longrightarrow> ws_status r = SlotFree \<Longrightarrow> ws_attemptId r = None"
  by (simp add: slot_wf_def) (metis free_slot_simps(3))

lemma free_has_no_attempt: "pool_wf rows \<Longrightarrow> r \<in> set rows \<Longrightarrow> ws_attemptId r = Some a \<Longrightarrow> active r"
  using free_slot_wf[of r] by (cases "ws_status r") (auto simp: pool_wf_def)

text \<open>Freeing slots keeps the pool well formed.\<close>

lemma pool_wf_clear: "pool_wf rows \<Longrightarrow> pool_wf (map (\<lambda>r. if P r then clear_slot r else r) rows)"
  unfolding pool_wf_def by (auto simp: comp_def if_distrib[of ws_slotIndex] if_distrib[of ws_worktreePath] cong: if_cong)

lemma active_clear: "active_slots (map (\<lambda>r. if P r then clear_slot r else r) rows) \<le> active_slots rows"
  by (induction rows) (auto simp: active_slots_def)

lemma clear_keeps:
  assumes "pool_wf rows" "active_slots rows \<le> c"
  shows "pool_wf (map (\<lambda>r. if P r then clear_slot r else r) rows) \<and>
    active_slots (map (\<lambda>r. if P r then clear_slot r else r) rows) \<le> c"
  using pool_wf_clear[OF assms(1)] order_trans[OF active_clear assms(2)] by blast

lemma reclaim_slot_eq: "reclaim_slot p rows = map (\<lambda>r. if active r \<and> probe_of r = p then clear_slot r else r) rows"
  unfolding reclaim_slot_def by (rule map_cong) (auto simp: probe_of_def)

lemma ensure_slot_wf:
  assumes "pool_wf rows" shows "pool_wf (ensure_slot slot_path i rows) \<and> active_slots (ensure_slot slot_path i rows) = active_slots rows"
proof (cases "i \<in> ws_slotIndex ` set rows \<or> slot_path i \<in> ws_worktreePath ` set rows")
  case False
  let ?n = "free_slot i (slot_path i)"
  have set: "set (insort_key ws_slotIndex ?n rows) = insert ?n (set rows)" by (simp add: set_insort_key)
  have "sorted (map ws_slotIndex rows)" "distinct (map ws_slotIndex rows)"
    using assms strict_sorted_iff[of "map ws_slotIndex rows"] by (auto simp: pool_wf_def)
  then have "sorted_wrt (<) (map ws_slotIndex (insort_key ws_slotIndex ?n rows))"
    using False by (auto simp: strict_sorted_iff sorted_insort_key distinct_map distinct_insort set image_iff)
  moreover have "distinct (map ws_worktreePath (insort_key ws_slotIndex ?n rows))"
    using assms False by (auto simp: pool_wf_def distinct_map distinct_insort set image_iff)
  moreover have "length (filter active (insort_key ws_slotIndex ?n rows)) = length (filter active rows)"
    by (induction rows) auto
  ultimately show ?thesis using assms False
    by (auto simp: ensure_slot_def pool_wf_def set active_slots_def)
qed (use assms in \<open>simp add: ensure_slot_def\<close>)

lemma ensureSlots_wf:
  "pool_wf rows \<Longrightarrow> pool_wf (ensureSlots p n rows) \<and> active_slots (ensureSlots p n rows) = active_slots rows"
proof -
  have "pool_wf rows \<Longrightarrow> pool_wf (fold (ensure_slot p) is rows) \<and> active_slots (fold (ensure_slot p) is rows) = active_slots rows"
    for "is" by (induction "is" arbitrary: rows) (use ensure_slot_wf in \<open>auto\<close>)
  then show "pool_wf rows \<Longrightarrow> ?thesis" by (simp add: ensureSlots_def)
qed


section \<open>Lemmas: interleavings\<close>

text \<open>
  What the processes know is kept beside the table: the rows that some probe has read (a probe may be arbitrarily old when
  its compare-and-set runs) and the allocations that \<open>acquire\<close> has returned and that are still good. An allocation stops
  being good in two ways only: its attempt is released, or its own lease (slot, owner and time) is found orphaned.
\<close>

record lease_config =
  lc_rows :: "WorktreeSlotRow list"
  lc_probes :: "OrphanProbeRow set"
  lc_held :: "WorktreeAllocation set"

definition no_slots :: lease_config where
  "no_slots = \<lparr>lc_rows = [], lc_probes = {}, lc_held = {}\<rparr>"

definition lease_of :: "WorktreeAllocation \<Rightarrow> OrphanProbeRow" where
  "lease_of g = \<lparr>op_slotIndex = wa_slotIndex g, op_ownerPid = wa_ownerPid g, op_ownerHost = wa_ownerHost g,
     op_allocatedAt = wa_allocatedAt g\<rparr>"

definition hand_out :: "(string + WorktreeAllocation) \<Rightarrow> WorktreeAllocation set \<Rightarrow> WorktreeAllocation set" where
  "hand_out out held = (case out of Inl e \<Rightarrow> held | Inr g \<Rightarrow> insert g held)"

text \<open>One atomic statement or transaction of some process: the insertion of one slot, the probe, the compare-and-set of one
  probed row that is orphaned by the clock, lease bound, host and process table of the reclaiming process, the lookup
  before the transaction, the transaction (which may find the lookup outdated), a release and a purge.\<close>

inductive lease_step :: "nat \<Rightarrow> lease_config \<Rightarrow> lease_config \<Rightarrow> bool" for c where
  l_ensure: "lease_step c s (s\<lparr>lc_rows := ensure_slot slot_path i (lc_rows s)\<rparr>)"
| l_probe: "lease_step c s (s\<lparr>lc_probes := lc_probes s \<union> set (probe_active (lc_rows s))\<rparr>)"
| l_reclaim: "p \<in> lc_probes s \<Longrightarrow> isSlotOrphaned pd ok p now m h \<Longrightarrow>
    lease_step c s (s\<lparr>lc_rows := reclaim_slot p (lc_rows s), lc_held := {g \<in> lc_held s. lease_of g \<noteq> p}\<rparr>)"
| l_lookup: "acquire_existing a repo (lc_rows s) = Some out \<Longrightarrow> lease_step c s (s\<lparr>lc_held := hand_out out (lc_held s)\<rparr>)"
| l_acquire: "acquire_txn al t a repo (lc_rows s) = (out, rows') \<Longrightarrow> al_maxConcurrency al \<le> c \<Longrightarrow>
    lease_step c s (s\<lparr>lc_rows := rows', lc_held := hand_out out (lc_held s)\<rparr>)"
| l_release: "release v (lc_rows s) = Inr (e, rows') \<Longrightarrow> normalizeAttemptId v = Inr a \<Longrightarrow>
    lease_step c s (s\<lparr>lc_rows := rows', lc_held := {g \<in> lc_held s. wa_attemptId g \<noteq> Some a}\<rparr>)"
| l_purge: "purgeSlotsByRepo repo (lc_rows s) = Inr (n, rows') \<Longrightarrow> lease_step c s (s\<lparr>lc_rows := rows'\<rparr>)"

lemma getByAttempt_active:
  assumes "pool_wf rows" "getByAttempt a rows = Some r"
  shows "r \<in> set rows" "active r" "ws_attemptId r = Some a"
  using assms free_has_no_attempt by (auto simp: getByAttempt_def find_Some_iff)

lemma getByAttempt_None: "getByAttempt a rows = None \<longleftrightarrow> (\<forall>r \<in> set rows. ws_attemptId r \<noteq> Some a)"
  by (auto simp: getByAttempt_def find_None_iff)

lemma getByAttempt_unique: "pool_wf rows \<Longrightarrow> r \<in> set rows \<Longrightarrow> ws_attemptId r = Some a \<Longrightarrow> getByAttempt a rows = Some r"
proof (cases "getByAttempt a rows")
  case (Some s)
  moreover assume "pool_wf rows" "r \<in> set rows" "ws_attemptId r = Some a"
  ultimately show ?thesis using getByAttempt_active[of rows a s] unfolding pool_wf_def by (metis option.distinct(1))
qed (simp add: getByAttempt_None)

text \<open>In a well-formed pool the transaction has three outcomes.\<close>

lemma acquire_txn_cases:
  assumes wf: "pool_wf rows" and txn: "acquire_txn al t a repo rows = (out, rows')"
  obtains
    (held) r where "getByAttempt a rows = Some r" "out = Inr (rowToAllocation r)" "rows' = rows"
  | (full) "getByAttempt a rows = None" "out = Inl ''worktree_capacity_exceeded''" "rows' = rows"
      "al_maxConcurrency al \<le> active_slots rows \<or> (\<forall>r \<in> set rows. active r)"
  | (leased) slot where "getByAttempt a rows = None" "slot \<in> set rows" "ws_status slot = SlotFree"
      "find (\<lambda>r. ws_status r = SlotFree) rows = Some slot"
      "active_slots rows < al_maxConcurrency al" "out = Inr (rowToAllocation (lease_slot al a repo t slot))"
      "rows' = map (\<lambda>r. if r = slot then lease_slot al a repo t r else r) rows"
proof (cases "getByAttempt a rows")
  case (Some r)
  then have "out = Inr (rowToAllocation r)" "rows' = rows"
    using txn getByAttempt_active(2)[OF wf Some] by (simp_all add: acquire_txn_def)
  then show thesis by (rule held[OF Some])
next
  case None
  show thesis
  proof (cases "al_maxConcurrency al \<le> active_slots rows \<or> (\<forall>r \<in> set rows. active r)")
    case True
    then have "find (\<lambda>r. ws_status r = SlotFree) rows = None \<or> al_maxConcurrency al \<le> active_slots rows"
      by (auto simp: find_None_iff)
    then have "out = Inl ''worktree_capacity_exceeded''" "rows' = rows"
      using txn None by (auto simp: acquire_txn_def active_slots_def split: if_splits)
    then show thesis using True by (rule full[OF None])
  next
    case False
    then obtain slot where f: "find (\<lambda>r. ws_status r = SlotFree) rows = Some slot"
      by (cases "find (\<lambda>r. ws_status r = SlotFree) rows") (auto simp: find_None_iff)
    then have s: "slot \<in> set rows" "ws_status slot = SlotFree" by (auto simp: find_Some_iff)
    have "ws_slotIndex r = ws_slotIndex slot \<longleftrightarrow> r = slot" if "r \<in> set rows" for r
      using slot_index_unique[OF wf that s(1)] by auto
    then have "map (\<lambda>r. if ws_slotIndex r = ws_slotIndex slot then lease_slot al a repo t r else r) rows =
        map (\<lambda>r. if r = slot then lease_slot al a repo t r else r) rows" by (intro map_cong) auto
    moreover have "\<not> list_ex (\<lambda>r. ws_attemptId r = Some a \<and> ws_slotIndex r \<noteq> ws_slotIndex slot) rows"
      using None by (auto simp: getByAttempt_None list_ex_iff)
    ultimately have "active_slots rows < al_maxConcurrency al" "out = Inr (rowToAllocation (lease_slot al a repo t slot))"
      "rows' = map (\<lambda>r. if r = slot then lease_slot al a repo t r else r) rows"
      using False f txn None by (auto simp: acquire_txn_def active_slots_def)
    then show thesis by (rule leased[OF None s f])
  qed
qed

lemma active_lease:
  assumes "distinct rows" "slot \<in> set rows" "ws_status slot = SlotFree"
  shows "active_slots (map (\<lambda>r. if r = slot then lease_slot al a repo t r else r) rows) = Suc (active_slots rows)"
  using assms
proof (induction rows)
  case (Cons x rows)
  show ?case
  proof (cases "x = slot")
    case True
    then have "map (\<lambda>r. if r = slot then lease_slot al a repo t r else r) rows = rows"
      using Cons.prems by (intro map_idI) auto
    then show ?thesis using True Cons.prems by (simp add: active_slots_def)
  qed (use Cons in \<open>auto simp: active_slots_def\<close>)
qed simp

lemma pool_distinct: "pool_wf rows \<Longrightarrow> distinct rows"
  by (auto simp: pool_wf_def distinct_map)

lemma acquire_txn_wf:
  assumes wf: "pool_wf rows" and txn: "acquire_txn al t a repo rows = (out, rows')"
  shows "pool_wf rows' \<and> active_slots rows' \<le> max (active_slots rows) (al_maxConcurrency al)"
  using wf txn
proof (cases rule: acquire_txn_cases)
  case (leased slot)
  let ?g = "\<lambda>r. if r = slot then lease_slot al a repo t r else r"
  have idx: "map ws_slotIndex (map ?g rows) = map ws_slotIndex rows" "map ws_worktreePath (map ?g rows) = map ws_worktreePath rows"
    by auto
  have uniq: "r = s" if "r \<in> set (map ?g rows)" "s \<in> set (map ?g rows)" "ws_attemptId r \<noteq> None" "ws_attemptId r = ws_attemptId s" for r s
    using that wf leased(1) by (auto simp: pool_wf_def getByAttempt_None split: if_splits)
  have slots: "\<forall>r \<in> set (map ?g rows). slot_wf r" using wf by (auto simp: pool_wf_def)
  have "pool_wf (map ?g rows)" unfolding pool_wf_def idx using wf[unfolded pool_wf_def] slots uniq by blast
  then show ?thesis using leased active_lease[OF pool_distinct[OF wf] leased(2,3)] by simp
qed (use wf in auto)

text \<open>The invariant: the good allocations are exactly the active rows.\<close>

definition lease_inv :: "nat \<Rightarrow> lease_config \<Rightarrow> bool" where
  "lease_inv c s \<longleftrightarrow> pool_wf (lc_rows s) \<and> active_slots (lc_rows s) \<le> c \<and>
     lc_held s = rowToAllocation ` {r \<in> set (lc_rows s). active r}"

lemma lease_of_row [simp]: "lease_of (rowToAllocation r) = probe_of r"
  by (simp add: lease_of_def rowToAllocation_def probe_of_def)

lemma rowToAllocation_simps [simp]:
  "wa_attemptId (rowToAllocation r) = ws_attemptId r" "wa_slotIndex (rowToAllocation r) = ws_slotIndex r"
  "wa_worktreePath (rowToAllocation r) = ws_worktreePath r" "wa_status (rowToAllocation r) = ws_status r"
  by (simp_all add: rowToAllocation_def)

lemma active_cleared:
  "{r \<in> set (map (\<lambda>r. if P r then clear_slot r else r) rows). active r} = {r \<in> set rows. active r \<and> \<not> P r}"
  by auto

lemma lease_inv_clear:
  assumes "lease_inv c s" "\<And>r. r \<in> set (lc_rows s) \<Longrightarrow> active r \<Longrightarrow> P r \<longleftrightarrow> Q (rowToAllocation r)"
  shows "lease_inv c (s\<lparr>lc_rows := map (\<lambda>r. if P r then clear_slot r else r) (lc_rows s),
    lc_held := {g \<in> lc_held s. \<not> Q g}\<rparr>)"
  using assms clear_keeps[of "lc_rows s" c P]
  unfolding lease_inv_def by (simp only: active_cleared lease_config.simps) auto

lemma active_ensure_slot: "{r \<in> set (ensure_slot slot_path i rows). active r} = {r \<in> set rows. active r}"
  by (auto simp: ensure_slot_def set_insort_key)

lemma lookup_held:
  assumes "lease_inv c s" "acquire_existing a repo (lc_rows s) = Some out"
  shows "hand_out out (lc_held s) = lc_held s"
  using assms getByAttempt_active(1)[of "lc_rows s" a]
  by (auto simp: acquire_existing_def lease_inv_def hand_out_def split: option.splits if_splits)

lemma txn_held:
  assumes inv: "lease_inv c s" and txn: "acquire_txn al t a repo (lc_rows s) = (out, rows')"
  shows "hand_out out (lc_held s) = rowToAllocation ` {r \<in> set rows'. active r}"
proof -
  have wf: "pool_wf (lc_rows s)" and held: "lc_held s = rowToAllocation ` {r \<in> set (lc_rows s). active r}"
    using inv by (simp_all add: lease_inv_def)
  from wf txn show ?thesis
  proof (cases rule: acquire_txn_cases)
    case (held r)
    then show ?thesis using getByAttempt_active(1,2)[OF wf] inv by (auto simp: hand_out_def lease_inv_def)
  next
    case full then show ?thesis using held by (simp add: hand_out_def)
  next
    case (leased slot)
    then have "{r \<in> set rows'. active r} = insert (lease_slot al a repo t slot) {r \<in> set (lc_rows s). active r}"
      by auto
    then show ?thesis using held leased(6) by (simp add: hand_out_def)
  qed
qed

lemma lease_step_inv: "lease_step c s s' \<Longrightarrow> lease_inv c s \<Longrightarrow> lease_inv c s'"
proof (induction rule: lease_step.induct)
  case (l_ensure s slot_path i)
  then show ?case using ensure_slot_wf[of "lc_rows s" slot_path i] active_ensure_slot[of slot_path i "lc_rows s"]
    by (simp add: lease_inv_def)
next
  case l_probe then show ?case by (simp add: lease_inv_def)
next
  case (l_reclaim p s)
  show ?case unfolding reclaim_slot_eq by (rule lease_inv_clear[OF l_reclaim(3)]) simp
next
  case (l_lookup a repo s out)
  then show ?case using lookup_held[OF l_lookup(2,1)] by simp
next
  case (l_acquire al t a repo s out rows')
  then have "pool_wf (lc_rows s)" "active_slots (lc_rows s) \<le> c" by (simp_all add: lease_inv_def)
  then have "pool_wf rows' \<and> active_slots rows' \<le> c"
    using acquire_txn_wf[OF _ l_acquire(1)] l_acquire(2) by (meson le_trans max.boundedI)
  then show ?case using txn_held[OF l_acquire(3,1)] by (simp add: lease_inv_def)
next
  case (l_release v s e rows' a)
  then have rows': "rows' = map (\<lambda>r. if ws_attemptId r = Some a \<and> active r then clear_slot r else r) (lc_rows s)"
    by (auto simp: release_def and_then_Inr)
  show ?case unfolding rows' by (rule lease_inv_clear[OF l_release(3)]) simp
next
  case (l_purge repo s n rows')
  then obtain w where
    rows': "rows' = map (\<lambda>r. if ws_status r = SlotFree \<and> ws_repoFullName r = Some w then clear_slot r else r) (lc_rows s)"
    by (auto simp: purgeSlotsByRepo_def and_then_Inr Let_def)
  show ?case using lease_inv_clear[OF l_purge(2), where P = "\<lambda>r. ws_status r = SlotFree \<and> ws_repoFullName r = Some w" and Q = "\<lambda>_. False"]
    by (simp add: rows')
qed

lemma lease_steps_inv: "(lease_step c)\<^sup>*\<^sup>* no_slots s \<Longrightarrow> lease_inv c s"
proof (induction rule: rtranclp_induct)
  case base show ?case by (simp add: lease_inv_def no_slots_def pool_wf_def active_slots_def)
qed (use lease_step_inv in blast)

lemma held_lease:
  assumes "lease_inv c s" "g \<in> lc_held s" "g' \<in> lc_held s"
    and "wa_slotIndex g = wa_slotIndex g' \<or> wa_worktreePath g = wa_worktreePath g' \<or> wa_attemptId g = wa_attemptId g'"
  shows "g = g'"
proof -
  obtain r r' where r: "g = rowToAllocation r" "r \<in> set (lc_rows s)" "active r"
    and r': "g' = rowToAllocation r'" "r' \<in> set (lc_rows s)" "active r'"
    using assms(1-3) by (auto simp: lease_inv_def)
  have wf: "pool_wf (lc_rows s)" using assms(1) by (simp add: lease_inv_def)
  have "slot_wf r" using wf r(2) by (simp add: pool_wf_def)
  then have "ws_attemptId r \<noteq> None" using r(3) by (simp add: slot_wf_def)
  moreover have "inj_on ws_worktreePath (set (lc_rows s))" using wf by (simp add: pool_wf_def distinct_map)
  ultimately have "r = r'" using assms(4) r r' wf slot_index_unique[OF wf r(2) r'(2)]
    by (auto simp: pool_wf_def dest: inj_onD)
  then show ?thesis using r r' by simp
qed


section \<open>Lemmas: reclaiming\<close>

lemma clear_clear:
  "map (\<lambda>r. if active r \<and> Q r then clear_slot r else r) (map (\<lambda>r. if active r \<and> P r then clear_slot r else r) rows) =
     map (\<lambda>r. if active r \<and> (P r \<or> Q r) then clear_slot r else r) rows"
  by auto

lemma reclaim_rows:
  "reclaimOrphanedAllocations pd ok now m h (Some ps) rows =
     map (\<lambda>r. if active r \<and> probe_of r \<in> set ps \<and> isSlotOrphaned pd ok (probe_of r) now m h then clear_slot r else r) rows"
proof (induction ps arbitrary: rows)
  case (Cons p ps)
  show ?case
  proof (cases "isSlotOrphaned pd ok p now m h")
    case True
    then have "reclaimOrphanedAllocations pd ok now m h (Some (p # ps)) rows =
        reclaimOrphanedAllocations pd ok now m h (Some ps) (reclaim_slot p rows)"
      by (simp add: reclaimOrphanedAllocations_def)
    also have "\<dots> = map (\<lambda>r. if active r \<and> (probe_of r = p \<or> probe_of r \<in> set ps \<and> isSlotOrphaned pd ok (probe_of r) now m h)
        then clear_slot r else r) rows"
      unfolding Cons.IH reclaim_slot_eq by (rule clear_clear)
    finally show ?thesis using True by (auto intro!: map_cong)
  next
    case False
    then have "reclaimOrphanedAllocations pd ok now m h (Some (p # ps)) rows =
        reclaimOrphanedAllocations pd ok now m h (Some ps) rows"
      by (simp add: reclaimOrphanedAllocations_def)
    then show ?thesis using False Cons.IH by (auto intro!: map_cong)
  qed
qed (simp add: reclaimOrphanedAllocations_def)

lemma reclaim_all_rows_now:
  "reclaimOrphanedAllocations pd ok now m h None rows =
     map (\<lambda>r. if active r \<and> isSlotOrphaned pd ok (probe_of r) now m h then clear_slot r else r) rows"
proof -
  have "reclaimOrphanedAllocations pd ok now m h None rows =
      reclaimOrphanedAllocations pd ok now m h (Some (probe_active rows)) rows"
    by (simp add: reclaimOrphanedAllocations_def)
  then show ?thesis by (auto simp: reclaim_rows probe_active_def intro!: map_cong)
qed

text \<open>A reclaim is its probe followed by its compare-and-sets, a call is a sequence of steps.\<close>

lemma reclaim_fold_steps:
  assumes "set qs \<subseteq> lc_probes s"
  shows "\<exists>s'. (lease_step c)\<^sup>*\<^sup>* s s' \<and>
    lc_rows s' = fold (\<lambda>row rows. if isSlotOrphaned pd ok row now m h then reclaim_slot row rows else rows) qs (lc_rows s)"
  using assms
proof (induction qs arbitrary: s)
  case (Cons q qs)
  let ?del = "\<lambda>row rows. if isSlotOrphaned pd ok row now m h then reclaim_slot row rows else rows"
  define s1 where "s1 = (if isSlotOrphaned pd ok q now m h
    then s\<lparr>lc_rows := reclaim_slot q (lc_rows s), lc_held := {g \<in> lc_held s. lease_of g \<noteq> q}\<rparr> else s)"
  have "(lease_step c)\<^sup>*\<^sup>* s s1" using Cons.prems l_reclaim[of q s pd ok now m h c] by (auto simp: s1_def)
  moreover have s1: "lc_rows s1 = ?del q (lc_rows s)" "set qs \<subseteq> lc_probes s1" using Cons.prems by (auto simp: s1_def)
  moreover obtain s' where "(lease_step c)\<^sup>*\<^sup>* s1 s'" "lc_rows s' = fold ?del qs (lc_rows s1)" using Cons.IH[OF s1(2)] by blast
  ultimately show ?case by (intro exI[of _ s']) (simp add: rtranclp_trans[of "lease_step c"])
qed auto

lemma reclaim_steps:
  "\<exists>s'. (lease_step c)\<^sup>*\<^sup>* s s' \<and> lc_rows s' = reclaimOrphanedAllocations pd ok now m h None (lc_rows s)"
proof -
  let ?s = "s\<lparr>lc_probes := lc_probes s \<union> set (probe_active (lc_rows s))\<rparr>"
  have "set (probe_active (lc_rows s)) \<subseteq> lc_probes ?s" by simp
  from reclaim_fold_steps[OF this, of c pd ok now m h] obtain s' where "(lease_step c)\<^sup>*\<^sup>* ?s s'"
    "lc_rows s' = reclaimOrphanedAllocations pd ok now m h None (lc_rows s)"
    by (auto simp: reclaimOrphanedAllocations_def)
  then show ?thesis using converse_rtranclp_into_rtranclp[of "lease_step c", OF l_probe] by blast
qed

lemma acquire_steps:
  assumes acq: "acquire pd ok al now t v w (lc_rows s) = (out, rows')" and c: "al_maxConcurrency al \<le> c"
  shows "\<exists>s'. (lease_step c)\<^sup>*\<^sup>* s s' \<and> lc_rows s' = rows' \<and> (\<forall>g. out = Inr g \<longrightarrow> g \<in> lc_held s')"
proof -
  obtain s1 where s1: "(lease_step c)\<^sup>*\<^sup>* s s1"
    "lc_rows s1 = reclaimOrphanedAllocations pd ok now (al_maxLeaseMs al) (al_hostId al) None (lc_rows s)"
    using reclaim_steps by blast
  have out: "(out, rows') = (case and_then (normalizeAttemptId v) (\<lambda>a. and_then (normalizeQueueRepo w) (\<lambda>r. Inr (a, r))) of
      Inl e \<Rightarrow> (Inl e, lc_rows s1)
    | Inr (a, r) \<Rightarrow> (case acquire_existing a r (lc_rows s1) of
        Some res \<Rightarrow> (res, lc_rows s1) | None \<Rightarrow> acquire_txn al t a r (lc_rows s1)))"
    using acq[unfolded acquire_def Let_def, folded s1(2), symmetric] .
  then consider (bad) e where "out = Inl e" "rows' = lc_rows s1"
    | (found) a repo where "acquire_existing a repo (lc_rows s1) = Some out" "rows' = lc_rows s1"
    | (txn) a repo where "acquire_txn al t a repo (lc_rows s1) = (out, rows')"
    by (auto split: sum.splits prod.splits option.splits)
  then show ?thesis
  proof cases
    case bad then show ?thesis using s1(1) by auto
  next
    case found
    then show ?thesis using rtranclp.rtrancl_into_rtrancl[OF s1(1) l_lookup[OF found(1)]]
      by (intro exI[of _ "s1\<lparr>lc_held := hand_out out (lc_held s1)\<rparr>"]) (auto simp: hand_out_def)
  next
    case txn
    then show ?thesis using rtranclp.rtrancl_into_rtrancl[OF s1(1) l_acquire[OF txn c]]
      by (intro exI[of _ "s1\<lparr>lc_rows := rows', lc_held := hand_out out (lc_held s1)\<rparr>"]) (auto simp: hand_out_def)
  qed
qed

lemma ensure_steps: "\<exists>s'. (lease_step c)\<^sup>*\<^sup>* s s' \<and> lc_rows s' = fold (ensure_slot sp) is (lc_rows s)"
proof (induction "is" arbitrary: s)
  case (Cons i "is")
  let ?s = "s\<lparr>lc_rows := ensure_slot sp i (lc_rows s)\<rparr>"
  obtain s' where "(lease_step c)\<^sup>*\<^sup>* ?s s'" "lc_rows s' = fold (ensure_slot sp) is (lc_rows ?s)" using Cons.IH by blast
  then show ?case using converse_rtranclp_into_rtranclp[of "lease_step c", OF l_ensure[of c s sp i]]
    by (intro exI[of _ s']) simp
qed auto

lemma open_steps:
  assumes "openWorktreeAllocator pd ok sp host pid now mc ml h (lc_rows s) = Inr (al, rows')"
  shows "\<exists>s'. (lease_step c)\<^sup>*\<^sup>* s s' \<and> lc_rows s' = rows'"
proof -
  obtain n l h' where rows': "rows' = reclaimOrphanedAllocations pd ok now l h' None (ensureSlots sp n (lc_rows s))"
    using assms by (auto simp: openWorktreeAllocator_def and_then_Inr)
  obtain s1 where s1: "(lease_step c)\<^sup>*\<^sup>* s s1" "lc_rows s1 = ensureSlots sp n (lc_rows s)"
    using ensure_steps unfolding ensureSlots_def by blast
  obtain s2 where "(lease_step c)\<^sup>*\<^sup>* s1 s2" "lc_rows s2 = rows'" using reclaim_steps unfolding rows' s1(2)[symmetric] by blast
  then show ?thesis using rtranclp_trans[OF s1(1)] by auto
qed

text \<open>C8: no worktree is booked twice. Any number of processes open the pool, acquire, release and purge, their statements
  interleaved in any order; a reclaim may run on a probe of any age, and frees a slot only if that probe is orphaned. If
  every allocator allows at most \<open>c\<close> concurrent attempts, then at every moment at most \<open>c\<close> slots are active; every
  allocation that \<open>acquire\<close> returned stands in the table unchanged until its attempt is released or its own lease (slot,
  owner and time) is found orphaned; and two such allocations of one slot, one path or one attempt are the same. Whole
  calls of \<open>acquire\<close> and of opening the pool are such sequences, and what \<open>acquire\<close> returns is one of these allocations.\<close>

theorem worktrees_are_exclusive:
  assumes "(lease_step c)\<^sup>*\<^sup>* no_slots s"
  shows "active_slots (lc_rows s) \<le> c
    \<and> (\<forall>g \<in> lc_held s. wa_status g = SlotActive \<and> g \<in> set (listSlots (lc_rows s)))
    \<and> (\<forall>g \<in> lc_held s. \<forall>g' \<in> lc_held s. wa_slotIndex g = wa_slotIndex g' \<or> wa_worktreePath g = wa_worktreePath g' \<or>
        wa_attemptId g = wa_attemptId g' \<longrightarrow> g = g')
    \<and> (acquire pd ok al now t v w (lc_rows s) = (out, rows') \<longrightarrow> al_maxConcurrency al \<le> c \<longrightarrow>
        (\<exists>s'. (lease_step c)\<^sup>*\<^sup>* s s' \<and> lc_rows s' = rows' \<and> (\<forall>g. out = Inr g \<longrightarrow> g \<in> lc_held s')))
    \<and> (openWorktreeAllocator pd ok sp host pid now mc ml h (lc_rows s) = Inr (al', rows2) \<longrightarrow>
        (\<exists>s'. (lease_step c)\<^sup>*\<^sup>* s s' \<and> lc_rows s' = rows2))"
proof (intro conjI)
  note inv = lease_steps_inv[OF assms]
  show "active_slots (lc_rows s) \<le> c" using inv by (simp add: lease_inv_def)
  show "\<forall>g \<in> lc_held s. wa_status g = SlotActive \<and> g \<in> set (listSlots (lc_rows s))"
    using inv by (auto simp: lease_inv_def listSlots_def)
  show "\<forall>g \<in> lc_held s. \<forall>g' \<in> lc_held s. wa_slotIndex g = wa_slotIndex g' \<or> wa_worktreePath g = wa_worktreePath g' \<or>
      wa_attemptId g = wa_attemptId g' \<longrightarrow> g = g'"
    using held_lease[OF inv] by blast
qed (intro impI acquire_steps open_steps, assumption+)+

text \<open>a reclaim frees exactly what its evidence proves orphaned. Given probed rows of any age, a slot is freed exactly
  when it is still active with one of the probed leases and that lease is orphaned; a slot leased again since the probe
  keeps its lease. With a fresh probe every orphaned slot is freed and no other.\<close>

theorem reclaim_is_exact:
  "reclaimOrphanedAllocations pd ok now m h (Some ps) rows =
      map (\<lambda>r. if active r \<and> probe_of r \<in> set ps \<and> isSlotOrphaned pd ok (probe_of r) now m h then clear_slot r else r) rows
    \<and> reclaimOrphanedAllocations pd ok now m h None rows =
      map (\<lambda>r. if active r \<and> isSlotOrphaned pd ok (probe_of r) now m h then clear_slot r else r) rows
    \<and> (\<forall>r \<in> set rows. ws_allocatedAt r \<notin> op_allocatedAt ` set ps \<longrightarrow>
        r \<in> set (reclaimOrphanedAllocations pd ok now m h (Some ps) rows))"
proof (intro conjI ballI impI)
  fix r assume "r \<in> set rows" "ws_allocatedAt r \<notin> op_allocatedAt ` set ps"
  moreover from this(2) have "probe_of r \<notin> set ps" by (force simp: probe_of_def)
  ultimately show "r \<in> set (reclaimOrphanedAllocations pd ok now m h (Some ps) rows)"
    by (force simp: reclaim_rows image_iff)
qed (rule reclaim_rows reclaim_all_rows_now)+

lemma clear_leased: "slot_wf s \<Longrightarrow> ws_status s = SlotFree \<Longrightarrow> clear_slot (lease_slot al a repo t s) = s"
proof -
  assume "slot_wf s" "ws_status s = SlotFree"
  then have s: "s = free_slot (ws_slotIndex s) (ws_worktreePath s)" by (simp add: slot_wf_def)
  have "clear_slot (lease_slot al a repo t (free_slot i p)) = free_slot i p" for i p
    by (simp add: clear_slot_def lease_slot_def free_slot_def)
  then show ?thesis by (subst (1 2) s) simp
qed

lemma acquire_fresh:
  assumes "normalizeAttemptId v = Inr a" "normalizeQueueRepo w = Inr repo"
    and "getByAttempt a (reclaimOrphanedAllocations pd ok now (al_maxLeaseMs al) (al_hostId al) None rows) = None"
  shows "acquire pd ok al now t v w rows =
    acquire_txn al t a repo (reclaimOrphanedAllocations pd ok now (al_maxLeaseMs al) (al_hostId al) None rows)"
  using assms by (simp add: acquire_def acquire_existing_def)

text \<open>a new attempt gets a worktree exactly when fewer slots than allowed are active after the reclaim and one is free;
  otherwise the call fails with a capacity error and leases nothing. What it gets is an active slot of the table in its
  name, a second call returns the same slot while the lease is good, and releasing it gives the table back.\<close>

theorem acquire_then_release:
  fixes pd :: "string \<Rightarrow> jsnum" and ok :: "int \<Rightarrow> bool" and now :: jsnum and al :: WorktreeAllocator
  assumes "pool_wf rows" "normalizeAttemptId v = Inr a" "normalizeQueueRepo w = Inr repo"
  defines "rows1 \<equiv> reclaimOrphanedAllocations pd ok now (al_maxLeaseMs al) (al_hostId al) None rows"
  assumes "getByAttempt a rows1 = None"
  shows "if active_slots rows1 < al_maxConcurrency al \<and> (\<exists>r \<in> set rows1. ws_status r = SlotFree)
    then \<exists>row rows'. acquire pd ok al now t v w rows = (Inr (rowToAllocation row), rows') \<and>
      row \<in> set rows' \<and> active row \<and> ws_attemptId row = Some a \<and> ws_repoFullName row = Some repo \<and>
      (\<not> isSlotOrphaned pd ok (probe_of row) now' (al_maxLeaseMs al) (al_hostId al) \<longrightarrow>
        fst (acquire pd ok al now' t' v w rows') = Inr (rowToAllocation row)) \<and>
      release v rows' = Inr (Some (rowToAllocation (clear_slot row)), rows1)
    else acquire pd ok al now t v w rows = (Inl ''worktree_capacity_exceeded'', rows1)"
proof -
  have wf: "pool_wf rows1" unfolding rows1_def reclaim_all_rows_now by (rule pool_wf_clear[OF assms(1)])
  obtain out rows' where txn: "acquire_txn al t a repo rows1 = (out, rows')" by fastforce
  have acq: "acquire pd ok al now t v w rows = (out, rows')"
    using acquire_fresh[OF assms(2,3,5)[unfolded rows1_def]] txn by (simp add: rows1_def)
  from wf txn show ?thesis
  proof (cases rule: acquire_txn_cases)
    case (held r) then show ?thesis using assms(5) by simp
  next
    case full
    then show ?thesis using acq by auto
  next
    case (leased slot)
    let ?row = "lease_slot al a repo t slot" and ?g = "\<lambda>r. if r = slot then lease_slot al a repo t r else r"
    have wf': "pool_wf rows'" using acquire_txn_wf[OF wf txn] by simp
    have row: "?row \<in> set rows'" using leased(2,7) by auto
    have none: "ws_attemptId r \<noteq> Some a" if "r \<in> set rows1" for r using that leased(1) by (simp add: getByAttempt_None)
    have "find (\<lambda>r. ws_attemptId r = Some a \<and> active r) rows' = find (\<lambda>r. ws_attemptId r = Some a) rows'"
      using free_has_no_attempt[OF wf'] by (intro find_cong) auto
    then have f: "find (\<lambda>r. ws_attemptId r = Some a \<and> active r) rows' = Some ?row"
      using getByAttempt_unique[OF wf' row] by (simp add: getByAttempt_def)
    have "slot_wf slot" using wf leased(2) by (simp add: pool_wf_def)
    then have "map (\<lambda>r. if ws_attemptId r = Some a \<and> active r then clear_slot r else r) rows' = rows1"
      unfolding leased(7) map_map using none leased(3) by (intro map_idI) (auto simp: clear_leased)
    then have rel: "release v rows' = Inr (Some (rowToAllocation (clear_slot ?row)), rows1)"
      using f assms(2) by (simp add: release_def)
    have again: "fst (acquire pd ok al now' t' v w rows') = Inr (rowToAllocation ?row)"
      if "\<not> isSlotOrphaned pd ok (probe_of ?row) now' (al_maxLeaseMs al) (al_hostId al)"
    proof -
      let ?rows2 = "reclaimOrphanedAllocations pd ok now' (al_maxLeaseMs al) (al_hostId al) None rows'"
      have "?row \<in> set ?rows2" using row that by (force simp: reclaim_all_rows_now image_iff)
      moreover have "pool_wf ?rows2" unfolding reclaim_all_rows_now by (rule pool_wf_clear[OF wf'])
      ultimately have "getByAttempt a ?rows2 = Some ?row" by (intro getByAttempt_unique) simp_all
      then show ?thesis using assms(2,3) by (simp add: acquire_def acquire_existing_def Let_def)
    qed
    have "active_slots rows1 < al_maxConcurrency al \<and> (\<exists>r \<in> set rows1. ws_status r = SlotFree)" using leased by blast
    then show ?thesis using acq leased(6) row rel again
      by (subst if_P) (assumption, intro exI[of _ ?row] exI[of _ rows'], simp)
  qed
qed


text \<open>C35: the repository check is lost in a race, on every well-formed table (as every reachable one is). \<open>acquire\<close> refuses an attempt that is active for another repository, but the
  same situation met inside the transaction (another process activated the attempt after the first lookup) returns the
  other repository's allocation as a success.\<close>

theorem race_returns_another_repository:
  assumes "pool_wf rows" "r \<in> set rows" "ws_attemptId r = Some a" "ws_repoFullName r = Some repo'" "repo' \<noteq> repo"
  shows "acquire_txn al t a repo rows = (Inr (rowToAllocation r), rows) \<and> wa_repoFullName (rowToAllocation r) \<noteq> Some repo \<and>
    (\<exists>e. acquire_existing a repo rows = Some (Inl e))"
proof -
  note wf = assms(1)
  then have "getByAttempt a rows = Some r" "active r"
    using getByAttempt_unique[OF wf assms(2,3)] free_has_no_attempt[OF wf assms(2,3)] by simp_all
  then show ?thesis using assms(4,5) by (simp add: acquire_txn_def acquire_existing_def rowToAllocation_def)
qed

text \<open>a lease whose date cannot be read is kept for ever by other hosts. Whatever the time, the lease bound and the
  state of the owner, a reclaim on another host leaves the slot active.\<close>

theorem unreadable_lease_is_never_reclaimed:
  assumes "r \<in> set rows" "ws_allocatedAt r = Some d" "\<not> isFinite (pd d)" "ws_ownerHost r \<noteq> Some h"
  shows "r \<in> set (reclaimOrphanedAllocations pd ok now m h None rows)"
proof -
  have "\<not> isSlotOrphaned pd ok (probe_of r) now m h"
    using assms(2-4) by (simp add: isSlotOrphaned_def allocationAgeMs_def probe_of_def)
  then show ?thesis using assms(1) by (force simp: reclaim_all_rows_now image_iff)
qed

section \<open>Witnesses\<close>

definition sample_allocator :: WorktreeAllocator where
  "sample_allocator = \<lparr>al_maxConcurrency = 1, al_maxLeaseMs = Fin 10, al_processPid = 7, al_hostId = ''h''\<rparr>"

definition sample_pool :: "WorktreeSlotRow list" where
  "sample_pool = [free_slot 0 ''w0'']"

definition sample_leased :: WorktreeSlotRow where
  "sample_leased = lease_slot sample_allocator ''a'' ''o/r'' ''t'' (free_slot 0 ''w0'')"

definition sample_open :: lease_config where
  "sample_open = no_slots\<lparr>lc_rows := sample_pool\<rparr>"

definition sample_acquired :: lease_config where
  "sample_acquired = no_slots\<lparr>lc_rows := [sample_leased], lc_held := {rowToAllocation sample_leased}\<rparr>"

lemma sample_opens: "(lease_step 1)\<^sup>*\<^sup>* no_slots sample_open"
  using r_into_rtranclp[of "lease_step 1", OF l_ensure[of 1 no_slots "\<lambda>_. ''w0''" 0]]
  by (simp add: ensure_slot_def sample_open_def sample_pool_def no_slots_def)

lemma sample_acquires: "(lease_step 1)\<^sup>*\<^sup>* no_slots sample_acquired"
proof -
  have "acquire_txn sample_allocator ''t'' ''a'' ''o/r'' (lc_rows sample_open) = (Inr (rowToAllocation sample_leased), [sample_leased])"
    by (simp add: acquire_txn_def getByAttempt_def sample_open_def sample_pool_def sample_leased_def sample_allocator_def)
  from l_acquire[OF this, of 1] have "lease_step 1 sample_open sample_acquired"
    by (simp add: sample_allocator_def sample_open_def sample_acquired_def hand_out_def no_slots_def)
  then show ?thesis by (rule rtranclp.rtrancl_into_rtrancl[OF sample_opens])
qed

lemma sample_wf: "pool_wf sample_pool" "pool_wf [sample_leased]"
  using lease_steps_inv[OF sample_opens] lease_steps_inv[OF sample_acquires]
  by (simp_all add: lease_inv_def sample_open_def sample_acquired_def)

theorem worktrees_are_exclusive_witness:
  "active_slots [sample_leased] \<le> 1 \<and> rowToAllocation sample_leased \<in> set (listSlots [sample_leased])"
  using worktrees_are_exclusive[OF sample_acquires] by (auto simp: sample_acquired_def)

theorem reclaim_is_exact_witness:
  "sample_leased \<in> set (reclaimOrphanedAllocations (\<lambda>_. Fin 0) (\<lambda>_. False) (Fin 100) (Fin 10) ''h''
     (Some [probe_of (sample_leased\<lparr>ws_allocatedAt := Some ''s''\<rparr>)]) [sample_leased])"
proof -
  have "ws_allocatedAt sample_leased \<notin> op_allocatedAt ` set [probe_of (sample_leased\<lparr>ws_allocatedAt := Some ''s''\<rparr>)]"
    by (simp add: probe_of_def sample_leased_def lease_slot_def)
  then show ?thesis
    using reclaim_is_exact[of "\<lambda>_. Fin 0" "\<lambda>_. False" "Fin 100" "Fin 10" "''h''" "[probe_of (sample_leased\<lparr>ws_allocatedAt := Some ''s''\<rparr>)]" "[sample_leased]"]
    by (meson list.set_intros(1))
qed

theorem acquire_then_release_witness:
  "\<exists>row rows'. acquire (\<lambda>_. Fin 0) (\<lambda>_. True) sample_allocator (Fin 5) ''t'' (JStr ''a'') (JStr ''o/r'') sample_pool =
      (Inr (rowToAllocation row), rows') \<and> active row \<and>
    release (JStr ''a'') rows' = Inr (Some (rowToAllocation (clear_slot row)), sample_pool)"
proof -
  have n: "normalizeAttemptId (JStr ''a'') = Inr ''a''" "normalizeQueueRepo (JStr ''o/r'') = Inr ''o/r''" by code_simp+
  have p: "reclaimOrphanedAllocations (\<lambda>_. Fin 0) (\<lambda>_. True) (Fin 5) (al_maxLeaseMs sample_allocator)
      (al_hostId sample_allocator) None sample_pool = sample_pool"
    by (simp add: reclaim_all_rows_now sample_pool_def)
  have g: "getByAttempt ''a'' sample_pool = None" by (simp add: getByAttempt_def sample_pool_def)
  have c: "active_slots sample_pool < al_maxConcurrency sample_allocator \<and> (\<exists>r \<in> set sample_pool. ws_status r = SlotFree)"
    by (simp add: active_slots_def sample_pool_def sample_allocator_def)
  show ?thesis
    using acquire_then_release[OF sample_wf(1) n, where pd = "\<lambda>_. Fin 0" and ok = "\<lambda>_. True" and now = "Fin 5"
        and al = sample_allocator and t = "''t''" and now' = "Fin 5" and t' = "''t''", unfolded p, OF g] c
    by (simp only: if_True conj_absorb simp_thms) blast
qed

theorem race_returns_another_repository_witness:
  "acquire_txn sample_allocator ''u'' ''a'' ''o/x'' [sample_leased] = (Inr (rowToAllocation sample_leased), [sample_leased])"
proof -
  have "sample_leased \<in> set [sample_leased]" "ws_attemptId sample_leased = Some ''a''"
    "ws_repoFullName sample_leased = Some ''o/r''" "''o/r'' \<noteq> ''o/x''" by (simp_all add: sample_leased_def)
  from race_returns_another_repository[OF sample_wf(2) this] show ?thesis by (rule conjunct1)
qed

theorem unreadable_lease_is_never_reclaimed_witness:
  "sample_leased \<in> set (reclaimOrphanedAllocations (\<lambda>_. NaN) (\<lambda>_. False) (Fin 100000000) (Fin 10) ''other'' None [sample_leased])"
  by (rule unreadable_lease_is_never_reclaimed[where d = "''t''"])
    (simp_all add: sample_leased_def lease_slot_def sample_allocator_def)

end
