(* ===== verification/Js_Regex.thy ===== *)
theory Js_Regex
  imports Js_Base
begin

text \<open>
  The part of the language's regular expressions the modelled sources use: a sequence of items, each a single
  character of a class, an optional one, or a greedy run. \<open>rx_rests\<close> is the backtracking matcher: the remainders
  of the input after each way of matching a prefix, in the order the engine tries them. \<open>rx_lang\<close> says
  declaratively which texts a sequence matches, and \<open>rx_cost\<close> counts the calls of the matcher, the measure of
  catastrophic backtracking. Strings are bytes, so the line terminators are the two ASCII ones.
\<close>

section \<open>Definitions\<close>

datatype rx = One "char \<Rightarrow> bool" | Maybe "char \<Rightarrow> bool" | Many "char \<Rightarrow> bool"

fun rx_rests :: "rx list \<Rightarrow> string \<Rightarrow> string list" where
  "rx_rests [] s = [s]"
| "rx_rests (One p # r) s = (case s of [] \<Rightarrow> [] | c # t \<Rightarrow> if p c then rx_rests r t else [])"
| "rx_rests (Maybe p # r) s =
     (case s of [] \<Rightarrow> [] | c # t \<Rightarrow> if p c then rx_rests r t else []) @ rx_rests r s"
| "rx_rests (Many p # r) [] = rx_rests r []"
| "rx_rests (Many p # r) (c # t) = (if p c then rx_rests (Many p # r) t else []) @ rx_rests r (c # t)"

text \<open>\<open>^r$\<close> tested on a whole string.\<close>

definition rx_full :: "rx list \<Rightarrow> string \<Rightarrow> bool" where
  "rx_full r s \<longleftrightarrow> [] \<in> set (rx_rests r s)"

definition dot :: "char \<Rightarrow> bool" where
  "dot c \<longleftrightarrow> c \<noteq> CHR 0x0A \<and> c \<noteq> CHR 0x0D"

definition word_char :: "char \<Rightarrow> bool" where
  "word_char c \<longleftrightarrow> (CHR ''a'' \<le> c \<and> c \<le> CHR ''z'') \<or> (CHR ''A'' \<le> c \<and> c \<le> CHR ''Z'') \<or>
     (CHR ''0'' \<le> c \<and> c \<le> CHR ''9'') \<or> c = CHR ''_''"

text \<open>A literal under the \<open>i\<close> flag, for a literal written in lower case.\<close>

definition word_i :: "string \<Rightarrow> rx list" where
  "word_i w = map (\<lambda>k. One (\<lambda>c. lower_char c = k)) w"

text \<open>\<open>\b\<close> between the character before a position, if any, and the text after it.\<close>

definition is_word :: "char option \<Rightarrow> bool" where
  "is_word c = (case c of None \<Rightarrow> False | Some x \<Rightarrow> word_char x)"

definition head_of :: "string \<Rightarrow> char option" where
  "head_of s = (case s of [] \<Rightarrow> None | c # t \<Rightarrow> Some c)"

definition boundary :: "char option \<Rightarrow> string \<Rightarrow> bool" where
  "boundary before s \<longleftrightarrow> is_word before \<noteq> is_word (head_of s)"


section \<open>What a sequence matches\<close>

inductive rx_lang :: "rx list \<Rightarrow> string \<Rightarrow> bool" where
  lang_Nil: "rx_lang [] []"
| lang_One: "p c \<Longrightarrow> rx_lang r u \<Longrightarrow> rx_lang (One p # r) (c # u)"
| lang_Skip: "rx_lang r u \<Longrightarrow> rx_lang (Maybe p # r) u"
| lang_Take: "p c \<Longrightarrow> rx_lang r u \<Longrightarrow> rx_lang (Maybe p # r) (c # u)"
| lang_Many: "list_all p v \<Longrightarrow> rx_lang r u \<Longrightarrow> rx_lang (Many p # r) (v @ u)"

inductive_cases rx_lang_NilE: "rx_lang [] u"
inductive_cases rx_lang_OneE: "rx_lang (One p # r) u"
inductive_cases rx_lang_ManyE: "rx_lang (Many p # r) u"
inductive_cases rx_lang_MaybeE: "rx_lang (Maybe p # r) u"

lemma rx_lang_Many_Cons: "p c \<Longrightarrow> rx_lang (Many p # r) u \<Longrightarrow> rx_lang (Many p # r) (c # u)"
  by (erule rx_lang_ManyE) (metis append_Cons lang_Many list.pred_inject(2))

lemma rx_rests_sound: "t \<in> set (rx_rests r s) \<Longrightarrow> \<exists>u. s = u @ t \<and> rx_lang r u"
proof (induction r s rule: rx_rests.induct)
  case (1 s)
  then show ?case by (auto intro: lang_Nil)
next
  case (2 p r s)
  then show ?case by (auto split: list.splits if_splits) (metis append_Cons lang_One)
next
  case (3 p r s)
  then show ?case by (auto split: list.splits if_splits) (metis append_Cons lang_Take lang_Skip)+
next
  case (4 p r)
  then show ?case using lang_Many[of p "[]"] by fastforce
next
  case (5 p r c s)
  then show ?case
    by (auto split: if_splits) (metis append_Cons rx_lang_Many_Cons, metis append_Nil lang_Many list.pred_inject(1))+
qed

lemma rx_rests_Many: "list_all p v \<Longrightarrow> set (rx_rests r s) \<subseteq> set (rx_rests (Many p # r) (v @ s))"
proof (induction v)
  case Nil
  then show ?case by (cases s) auto
next
  case (Cons c v)
  then show ?case by auto
qed

lemma rx_rests_complete: "rx_lang r u \<Longrightarrow> t \<in> set (rx_rests r (u @ t))"
proof (induction rule: rx_lang.induct)
  case (lang_Many p v r u)
  then show ?case using rx_rests_Many[of p v r "u @ t"] by auto
qed auto

lemma rx_full_lang: "rx_full r s \<longleftrightarrow> rx_lang r s"
  unfolding rx_full_def using rx_rests_sound rx_rests_complete by (metis append_Nil2)

lemma rx_lang_append: "rx_lang q u \<Longrightarrow> rx_lang r v \<Longrightarrow> rx_lang (q @ r) (u @ v)"
  by (induction rule: rx_lang.induct) (auto intro: rx_lang.intros)

lemma rx_lang_literal: "rx_lang (map (\<lambda>k. One (\<lambda>c. c = k)) w) u \<longleftrightarrow> u = w"
proof (induction w arbitrary: u)
  case Nil
  then show ?case by (auto elim: rx_lang_NilE intro: lang_Nil)
next
  case (Cons k w)
  then show ?case by (auto elim!: rx_lang_OneE intro: lang_One)
qed

lemma rx_lang_run: "rx_lang [Many p] u \<longleftrightarrow> list_all p u"
  using lang_Many[of p u "[]" "[]"] lang_Nil by (auto elim!: rx_lang_ManyE rx_lang_NilE)


section \<open>The cost of backtracking\<close>

fun rx_cost :: "rx list \<Rightarrow> string \<Rightarrow> nat" where
  "rx_cost [] s = 1"
| "rx_cost (One p # r) s = Suc (case s of [] \<Rightarrow> 0 | c # t \<Rightarrow> if p c then rx_cost r t else 0)"
| "rx_cost (Maybe p # r) s = Suc ((case s of [] \<Rightarrow> 0 | c # t \<Rightarrow> if p c then rx_cost r t else 0) + rx_cost r s)"
| "rx_cost (Many p # r) [] = Suc (rx_cost r [])"
| "rx_cost (Many p # r) (c # t) = Suc ((if p c then rx_cost (Many p # r) t else 0) + rx_cost r (c # t))"

fun rx_wildcards :: "rx list \<Rightarrow> nat" where
  "rx_wildcards [] = 0"
| "rx_wildcards (One p # r) = rx_wildcards r"
| "rx_wildcards (Maybe p # r) = Suc (rx_wildcards r)"
| "rx_wildcards (Many p # r) = Suc (rx_wildcards r)"

abbreviation cost_bound :: "rx list \<Rightarrow> string \<Rightarrow> nat" where
  "cost_bound r s \<equiv> Suc (length r) * Suc (length s) ^ rx_wildcards r"

lemma cost_bound_mono: "length t \<le> length s \<Longrightarrow> cost_bound r t \<le> cost_bound r s"
  by (intro mult_le_mono2 power_mono) auto

lemma one_le_cost_bound: "1 \<le> Suc (length s) ^ k"
  by simp

lemma rx_cost_Many:
  assumes "\<And>t. length t \<le> length s \<Longrightarrow> rx_cost r t \<le> B"
  shows "rx_cost (Many p # r) s \<le> Suc (length s) * Suc B"
  using assms
proof (induction s)
  case Nil
  then show ?case by simp
next
  case (Cons c s)
  have "rx_cost (Many p # r) s \<le> Suc (length s) * Suc B" by (rule Cons.IH) (simp add: Cons.prems)
  moreover have "rx_cost r (c # s) \<le> B" by (rule Cons.prems) simp
  ultimately show ?case by auto
qed

lemma no_maybe_cost: "list_all (\<lambda>i. \<forall>p. i \<noteq> Maybe p) r \<Longrightarrow> rx_cost r s \<le> cost_bound r s"
proof (induction r arbitrary: s)
  case Nil
  then show ?case by simp
next
  case (Cons i r)
  then have IH: "rx_cost r t \<le> cost_bound r s" if "length t \<le> length s" for s t
    using cost_bound_mono[OF that, of r] by (meson le_trans list.pred_inject(2))
  show ?case
  proof (cases i)
    case (One p)
    have "rx_cost (One p # r) s \<le> Suc (cost_bound r s)"
    proof (cases s)
      case (Cons c t)
      then show ?thesis using IH[of t s] by simp
    qed simp
    also have "\<dots> \<le> cost_bound (One p # r) s" using one_le_cost_bound[of s "rx_wildcards r"] by simp
    finally show ?thesis using One by simp
  next
    case (Many p)
    have "rx_cost (Many p # r) s \<le> Suc (length s) * Suc (cost_bound r s)"
      by (rule rx_cost_Many) (rule IH)
    also have "\<dots> \<le> Suc (length s) * (Suc (Suc (length r)) * Suc (length s) ^ rx_wildcards r)"
      using one_le_cost_bound[of s "rx_wildcards r"] by (intro mult_le_mono2) simp
    also have "\<dots> = cost_bound (Many p # r) s" by (simp add: algebra_simps)
    finally show ?thesis using Many by simp
  qed (use Cons.prems in simp)
qed

end
