(* ===== verification/Path_Glob.thy ===== *)
theory Path_Glob
  imports Js_Regex "HOL-Library.Sublist"
begin

text \<open>
  The path patterns of the maintainer gate. \<open>packages/loopover-engine/src/signals/change-guardrail.ts\<close> compiles the
  hard-guardrail globs to regular expressions (a \<open>RegExp\<close> is here the sequence of its items, \<open>None\<close> the one that
  never matches); \<open>packages/loopover-engine/src/focus-manifest/guidance.ts\<close> matches manifest paths with a linear
  scan. The reference semantics are \<open>star_glob\<close> (a star matches any run of characters) and \<open>manifest_glob\<close>
  (a double star followed by a slash also matches no segment at all).
\<close>

section \<open>The hard guardrail\<close>

definition strip_dot_slash :: "string \<Rightarrow> string" where
  "strip_dot_slash s = (if prefix ''./'' s then drop 2 s else s)"

definition canonicalize :: "string \<Rightarrow> string" where
  "canonicalize v =
     toLowerCase (dropWhile (\<lambda>c. c = CHR ''/'')
       (strip_dot_slash (map (\<lambda>c. if c = CHR 0x5C then CHR ''/'' else c) v)))"

definition MAX_GLOB_WILDCARD_GROUPS :: nat where
  "MAX_GLOB_WILDCARD_GROUPS = 2"

text \<open>The glob after the first star of a group: the second star is consumed, and a slash behind it.\<close>

definition after_star :: "string \<Rightarrow> string" where
  "after_star s = (if prefix ''*/'' s then drop 2 s else if prefix ''*'' s then drop 1 s else s)"

lemma after_star_length [termination_simp]: "length (after_star s) < Suc (length s)"
  by (auto simp: after_star_def)

fun countWildcardGroups :: "string \<Rightarrow> nat" where
  "countWildcardGroups [] = 0"
| "countWildcardGroups (c # s) =
     (if c \<noteq> CHR ''*'' then countWildcardGroups s else Suc (countWildcardGroups (after_star s)))"

definition hasUnsafeWildcardCount :: "string \<Rightarrow> bool" where
  "hasUnsafeWildcardCount glob \<longleftrightarrow> MAX_GLOB_WILDCARD_GROUPS < countWildcardGroups glob"

fun glob_items :: "string \<Rightarrow> rx list" where
  "glob_items [] = []"
| "glob_items (c # s) =
     (if c = CHR ''*''
      then (if prefix ''*'' s then Many dot # glob_items (after_star s)
            else Many (\<lambda>x. x \<noteq> CHR ''/'') # glob_items s)
      else One (\<lambda>x. x = c) # glob_items s)"

definition globToRegExp :: "string \<Rightarrow> rx list option" where
  "globToRegExp glob = (if hasUnsafeWildcardCount glob then None else Some (glob_items (canonicalize glob)))"

definition rx_test :: "rx list option \<Rightarrow> string \<Rightarrow> bool" where
  "rx_test r s = (case r of None \<Rightarrow> False | Some items \<Rightarrow> rx_full items s)"

definition matchesAny :: "string \<Rightarrow> string list \<Rightarrow> bool" where
  "matchesAny path globs =
     (let canonicalPath = canonicalize path
      in list_ex (\<lambda>g. hasUnsafeWildcardCount g \<or> rx_test (globToRegExp g) canonicalPath) globs)"

definition is_exclusion :: "string \<Rightarrow> bool" where
  "is_exclusion glob \<longleftrightarrow> prefix ''!'' glob \<and> 1 < length glob"

definition matchesAnyWithExclusions :: "string \<Rightarrow> string list \<Rightarrow> bool" where
  "matchesAnyWithExclusions path globs =
     (let includes = filter (\<lambda>g. \<not> is_exclusion g) globs;
          excludes = map (drop 1) (filter is_exclusion globs)
      in if includes = [] then False
         else if \<not> matchesAny path includes then False
         else if excludes = [] then True
         else (let canonicalPath = canonicalize path
               in \<not> list_ex (\<lambda>e. rx_test (globToRegExp e) canonicalPath) excludes))"

definition changedPathsHittingGuardrail :: "string list \<Rightarrow> string list \<Rightarrow> string list" where
  "changedPathsHittingGuardrail changedPaths hardGuardrailGlobs =
     (if hardGuardrailGlobs = [] then []
      else filter (\<lambda>path. path \<noteq> [] \<and> matchesAny path hardGuardrailGlobs) changedPaths)"

record GuardrailPathMatch =
  gm_path :: string
  gm_glob :: string

definition path_glob_matches :: "string list \<Rightarrow> string \<Rightarrow> GuardrailPathMatch list" where
  "path_glob_matches globs path =
     (if path = [] then []
      else (let canonicalPath = canonicalize path
            in map (\<lambda>g. \<lparr>gm_path = path, gm_glob = g\<rparr>)
                 (filter (\<lambda>g. hasUnsafeWildcardCount g \<or> rx_test (globToRegExp g) canonicalPath) globs)))"

definition guardrailPathMatches :: "string list \<Rightarrow> string list \<Rightarrow> GuardrailPathMatch list" where
  "guardrailPathMatches changedPaths hardGuardrailGlobs =
     (if hardGuardrailGlobs = [] \<or> changedPaths = [] then []
      else concat (map (path_glob_matches hardGuardrailGlobs) changedPaths))"

definition GUARDRAIL_UNVERIFIABLE_FILE_COUNT :: nat where
  "GUARDRAIL_UNVERIFIABLE_FILE_COUNT = 1000"

definition isGuardrailHit :: "string list \<Rightarrow> string list \<Rightarrow> bool" where
  "isGuardrailHit changedPaths hardGuardrailGlobs =
     (if hardGuardrailGlobs = [] then False
      else length changedPaths = 0 \<or> GUARDRAIL_UNVERIFIABLE_FILE_COUNT \<le> length changedPaths \<or>
           0 < length (changedPathsHittingGuardrail changedPaths hardGuardrailGlobs))"


section \<open>Manifest path patterns\<close>

definition MAX_GLOBSTAR_SLASH_ALTERNATIVES :: nat where
  "MAX_GLOBSTAR_SLASH_ALTERNATIVES = 128"

definition normalizePathForMatch :: "string \<Rightarrow> string" where
  "normalizePathForMatch path =
     toLowerCase (dropWhile (\<lambda>c. c = CHR ''/'')
       (strip_dot_slash (map (\<lambda>c. if c = CHR 0x5C then CHR ''/'' else c) path)))"

text \<open>\<open>pattern.split(/\*+/)\<close>.\<close>

lemma dropWhile_shorter [termination_simp]: "length (dropWhile P s) < Suc (length s)"
  by (simp add: le_imp_less_Suc length_dropWhile_le)

fun split_stars :: "string \<Rightarrow> string list" where
  "split_stars [] = [[]]"
| "split_stars (c # s) =
     (if c = CHR ''*'' then [] # split_stars (dropWhile (\<lambda>x. x = CHR ''*'') s)
      else (case split_stars s of [] \<Rightarrow> [[c]] | p # ps \<Rightarrow> (c # p) # ps))"

text \<open>\<open>s.indexOf(part)\<close>.\<close>

fun indexOf :: "string \<Rightarrow> string \<Rightarrow> nat option" where
  "indexOf part [] = (if part = [] then Some 0 else None)"
| "indexOf part (c # s) = (if prefix part (c # s) then Some 0 else map_option Suc (indexOf part s))"

fun scan_middles :: "string \<Rightarrow> nat \<Rightarrow> string list \<Rightarrow> nat option" where
  "scan_middles path idx [] = Some idx"
| "scan_middles path idx (part # middles) =
     (case indexOf part (drop idx path) of
        None \<Rightarrow> None
      | Some found \<Rightarrow> scan_middles path (idx + found + length part) middles)"

definition linearGlobMatcher :: "string \<Rightarrow> string \<Rightarrow> bool" where
  "linearGlobMatcher pattern path =
     (let parts = split_stars pattern;
          first = hd parts;
          final = last parts;
          middles = filter (\<lambda>part. part \<noteq> []) (butlast (tl parts))
      in if \<not> prefix first path \<or> \<not> suffix final path then False
         else (case scan_middles path (length first) middles of
                 None \<Rightarrow> False
               | Some idx \<Rightarrow> idx \<le> length path - length final))"

definition at_globstar :: "string \<Rightarrow> bool" where
  "at_globstar pattern \<longleftrightarrow> prefix ''**/'' pattern"

function expandGlobstarSlash_loop :: "string list \<Rightarrow> string \<Rightarrow> string list" where
  "expandGlobstarSlash_loop alternatives pattern =
     (if pattern = [] then alternatives
      else if at_globstar pattern
      then expandGlobstarSlash_loop
             (map (\<lambda>p. p @ ''*/'') alternatives @
              (if length alternatives * 2 \<le> MAX_GLOBSTAR_SLASH_ALTERNATIVES then rev alternatives else []))
             (drop 3 pattern)
      else expandGlobstarSlash_loop (map (\<lambda>p. p @ [hd pattern]) alternatives) (tl pattern))"
  by pat_completeness auto
termination
  by (relation "measure (\<lambda>(a, p). length p)") (auto simp: at_globstar_def prefix_def)

declare expandGlobstarSlash_loop.simps [simp del]

definition expandGlobstarSlash :: "string \<Rightarrow> string list" where
  "expandGlobstarSlash pattern = expandGlobstarSlash_loop [[]] pattern"

definition has_star :: "string \<Rightarrow> bool" where
  "has_star s \<longleftrightarrow> CHR ''*'' \<in> set s"

definition compileManifestPathMatcher :: "string \<Rightarrow> string \<Rightarrow> bool" where
  "compileManifestPathMatcher pattern normalizedPath =
     (let normalizedPattern = normalizePathForMatch pattern
      in if normalizedPattern = [] then False
         else if has_star normalizedPattern
         then list_ex (\<lambda>globbed. if has_star globbed then linearGlobMatcher globbed normalizedPath
                                  else normalizedPath = globbed)
                (expandGlobstarSlash normalizedPattern)
         else (let dirPattern = (if suffix ''/'' normalizedPattern then normalizedPattern
                                 else normalizedPattern @ ''/'')
               in normalizedPath = normalizedPattern \<or> prefix dirPattern normalizedPath))"

definition matchesManifestPath :: "string \<Rightarrow> string \<Rightarrow> bool" where
  "matchesManifestPath path pattern =
     (let normalizedPath = normalizePathForMatch path
      in if normalizedPath = [] then False else compileManifestPathMatcher pattern normalizedPath)"

definition matchedPatterns :: "string list \<Rightarrow> string list \<Rightarrow> string list" where
  "matchedPatterns paths patterns =
     (let normalizedPaths = filter (\<lambda>p. p \<noteq> []) (map normalizePathForMatch paths)
      in filter (\<lambda>pattern. list_ex (compileManifestPathMatcher pattern) normalizedPaths) patterns)"


section \<open>The linear scan is the star semantics\<close>

fun star_glob :: "string \<Rightarrow> string \<Rightarrow> bool" where
  "star_glob [] s = (s = [])"
| "star_glob (c # p) [] = (c = CHR ''*'' \<and> star_glob p [])"
| "star_glob (c # p) (d # s) =
     (if c = CHR ''*'' then star_glob p (d # s) \<or> star_glob (c # p) s else c = d \<and> star_glob p s)"

lemma star_glob_star: "star_glob (CHR ''*'' # p) s \<longleftrightarrow> (\<exists>u v. s = u @ v \<and> star_glob p v)"
proof (induction s)
  case Nil
  then show ?case by simp
next
  case (Cons d s)
  then show ?case by (auto simp: Cons_eq_append_conv)
qed

lemma star_glob_literal: "c \<noteq> CHR ''*'' \<Longrightarrow> star_glob (c # p) s \<longleftrightarrow> (\<exists>t. s = c # t \<and> star_glob p t)"
  by (cases s) auto

lemma star_glob_drop_stars:
  "star_glob (CHR ''*'' # p) s \<longleftrightarrow> star_glob (CHR ''*'' # dropWhile (\<lambda>x. x = CHR ''*'') p) s"
proof (induction p arbitrary: s)
  case (Cons c p)
  show ?case
  proof (cases "c = CHR ''*''")
    case True
    have "star_glob (CHR ''*'' # c # p) s \<longleftrightarrow> star_glob (c # p) s"
      using True star_glob_star[of "c # p"] star_glob_star[of p] by (metis append.assoc append_Nil)
    then show ?thesis using Cons.IH True by simp
  qed simp
qed simp

text \<open>What has to follow a star: the segments in order, anywhere, the final one at the end.\<close>

fun spread :: "string list \<Rightarrow> string \<Rightarrow> bool" where
  "spread [] s = False"
| "spread [final] s = suffix final s"
| "spread (m # n # ms) s = (\<exists>u v. s = u @ m @ v \<and> spread (n # ms) v)"

lemma split_stars_not_Nil [simp]: "split_stars s \<noteq> []"
  by (cases s) (auto split: list.split)

lemma star_glob_split:
  "star_glob p s \<longleftrightarrow>
     (\<exists>r. s = hd (split_stars p) @ r \<and> (if tl (split_stars p) = [] then r = [] else spread (tl (split_stars p)) r))"
proof (induction p arbitrary: s rule: split_stars.induct)
  case 1
  then show ?case by simp
next
  case (2 c p)
  show ?case
  proof (cases "c = CHR ''*''")
    case True
    let ?q = "dropWhile (\<lambda>x. x = CHR ''*'') p"
    obtain f ms where q: "split_stars ?q = f # ms" by (cases "split_stars ?q") auto
    have "star_glob (c # p) s \<longleftrightarrow> (\<exists>u v. s = u @ v \<and> star_glob ?q v)"
      using True star_glob_drop_stars[of p s] star_glob_star[of ?q s] by simp
    also have "\<dots> \<longleftrightarrow> (\<exists>u r. s = u @ f @ r \<and> (if ms = [] then r = [] else spread ms r))"
      using 2(1)[OF True] q by auto
    also have "\<dots> \<longleftrightarrow> spread (f # ms) s" by (cases ms) (auto simp: suffix_def)
    finally show ?thesis using True q by simp
  next
    case False
    obtain f ms where q: "split_stars p = f # ms" by (cases "split_stars p") auto
    show ?thesis using 2(2)[OF False] star_glob_literal[OF False, of p s] q False by auto
  qed
qed

lemma spread_Cons: "ms \<noteq> [] \<Longrightarrow> spread (m # ms) s \<longleftrightarrow> (\<exists>u v. s = u @ m @ v \<and> spread ms v)"
  by (cases ms) auto

lemma spread_mono: "spread ms v \<Longrightarrow> spread ms (u @ v)"
proof (cases ms)
  case (Cons m ms')
  assume "spread ms v"
  then show ?thesis using Cons by (cases ms') (auto simp: suffix_def, metis append.assoc)
qed simp

lemma spread_skip_empty: "spread (filter (\<lambda>m. m \<noteq> []) ms @ [f]) s \<longleftrightarrow> spread (ms @ [f]) s"
proof (induction ms arbitrary: s)
  case (Cons m ms)
  show ?case
  proof (cases "m = []")
    case True
    have "spread (m # ms @ [f]) s \<longleftrightarrow> spread (ms @ [f]) s"
      using True spread_mono[of "ms @ [f]"] by (auto simp: spread_Cons)
    then show ?thesis using Cons True by simp
  qed (simp add: Cons spread_Cons)
qed simp

lemma indexOf_Some:
  assumes "indexOf part s = Some k"
  shows "\<exists>u v. s = u @ part @ v \<and> length u = k \<and> (\<forall>x y. s = x @ part @ y \<longrightarrow> k \<le> length x)"
  using assms
proof (induction s arbitrary: k)
  case Nil
  then show ?case by (simp split: if_splits)
next
  case (Cons c s)
  show ?case
  proof (cases "prefix part (c # s)")
    case True
    then show ?thesis using Cons.prems by (auto simp: prefix_def)
  next
    case False
    then obtain j where j: "indexOf part s = Some j" "k = Suc j" using Cons.prems by auto
    then obtain u v where s: "s = u @ part @ v" "length u = j" "\<forall>x y. s = x @ part @ y \<longrightarrow> j \<le> length x"
      using Cons.IH by blast
    have "k \<le> length x" if "c # s = x @ part @ y" for x y
      using that False s(3) j(2) by (cases x) (auto simp: prefix_def)
    moreover have "c # s = (c # u) @ part @ v" using s(1) by simp
    ultimately show ?thesis using s(2) j(2) by (metis length_Cons)
  qed
qed

lemma indexOf_None: "indexOf part s = None \<Longrightarrow> s \<noteq> u @ part @ v"
proof (induction s arbitrary: u)
  case (Cons c s)
  then show ?case by (cases u) (auto split: if_splits)
qed (auto split: if_splits)

lemma suffix_drop_iff:
  assumes "i \<le> length s"
  shows "suffix f s \<and> i \<le> length s - length f \<longleftrightarrow> suffix f (drop i s)"
proof
  assume a: "suffix f s \<and> i \<le> length s - length f"
  then obtain x where x: "s = x @ f" by (auto simp: suffix_def)
  with a have "drop i s = drop i x @ f" by simp
  then show "suffix f (drop i s)" by (simp add: suffix_def)
next
  assume "suffix f (drop i s)"
  moreover from this have "length f \<le> length s - i" using suffix_length_le by fastforce
  ultimately show "suffix f s \<and> i \<le> length s - length f"
    using assms by (metis diff_le_mono2 diff_diff_cancel suffix_drop suffix_order.trans)
qed

lemma scan_middles_spread:
  "idx \<le> length path \<Longrightarrow>
     suffix f path \<and> (\<exists>i. scan_middles path idx ms = Some i \<and> i \<le> length path - length f) \<longleftrightarrow>
     spread (ms @ [f]) (drop idx path)"
proof (induction ms arbitrary: idx)
  case Nil
  then show ?case using suffix_drop_iff[OF Nil] by auto
next
  case (Cons m ms)
  let ?d = "drop idx path"
  show ?case
  proof (cases "indexOf m ?d")
    case None
    then have "\<nexists>u v. ?d = u @ m @ v" using indexOf_None by blast
    then show ?thesis using None by (simp add: spread_Cons)
  next
    case (Some k)
    then obtain u v where uv: "?d = u @ m @ v" "length u = k"
      and least: "\<And>x y. ?d = x @ m @ y \<Longrightarrow> k \<le> length x" using indexOf_Some by blast
    have "length path - idx = k + length m + length v" using arg_cong[OF uv(1), of length] uv(2) by simp
    then have len: "idx + k + length m \<le> length path" using Cons.prems by linarith
    have v: "v = drop (idx + k + length m) path"
      using arg_cong[OF uv(1), of "drop (k + length m)"] uv(2) by (simp add: add.commute add.left_commute)
    have "spread (ms @ [f]) v" if "?d = x @ m @ y" "spread (ms @ [f]) y" for x y
    proof -
      have "y = drop (length x + length m) ?d" using that(1) by simp
      moreover have "v = drop (k + length m) ?d" using uv by simp
      ultimately have "suffix y v" using least[OF that(1)]
        by (metis add_le_mono1 le_add_diff_inverse2 drop_drop suffix_drop)
      then show ?thesis using spread_mono that(2) by (metis suffix_def)
    qed
    then have "spread ((m # ms) @ [f]) ?d \<longleftrightarrow> spread (ms @ [f]) v"
      using uv(1) by (auto simp: spread_Cons)
    then show ?thesis using Cons.IH[OF len] Some v by simp
  qed
qed

lemma star_splits: "has_star p \<Longrightarrow> tl (split_stars p) \<noteq> []"
  by (induction p rule: split_stars.induct) (auto simp: has_star_def split: list.splits)

lemma linear_glob_star_glob:
  assumes "has_star p"
  shows "linearGlobMatcher p path \<longleftrightarrow> star_glob p path"
proof -
  let ?ps = "split_stars p"
  let ?f = "last ?ps"
  have ps: "tl ?ps = butlast (tl ?ps) @ [?f]" using star_splits[OF assms]
    by (metis append_butlast_last_id last_tl)
  have scan: "suffix ?f path \<and>
      (\<exists>i. scan_middles path (length (hd ?ps)) (filter (\<lambda>m. m \<noteq> []) (butlast (tl ?ps))) = Some i \<and>
           i \<le> length path - length ?f) \<longleftrightarrow> spread (tl ?ps) (drop (length (hd ?ps)) path)"
    if "prefix (hd ?ps) path"
    using scan_middles_spread[OF prefix_length_le[OF that]] spread_skip_empty ps by metis
  have "linearGlobMatcher p path \<longleftrightarrow> prefix (hd ?ps) path \<and> spread (tl ?ps) (drop (length (hd ?ps)) path)"
    using scan unfolding linearGlobMatcher_def Let_def by (auto split: option.splits)
  also have "\<dots> \<longleftrightarrow> star_glob p path"
    using star_splits[OF assms] unfolding star_glob_split[of p] by (auto simp: prefix_def)
  finally show ?thesis .
qed


section \<open>Manifest patterns\<close>

lemma star_glob_append: "star_glob (p @ q) s \<longleftrightarrow> (\<exists>u v. s = u @ v \<and> star_glob p u \<and> star_glob q v)"
proof (induction p arbitrary: s)
  case (Cons c p)
  show ?case
  proof (cases "c = CHR ''*''")
    case True
    have "star_glob ((c # p) @ q) s \<longleftrightarrow> (\<exists>x u v. s = x @ u @ v \<and> star_glob p u \<and> star_glob q v)"
      using True star_glob_star[of "p @ q" s] Cons.IH by auto
    also have "\<dots> \<longleftrightarrow> (\<exists>u v. s = u @ v \<and> star_glob (c # p) u \<and> star_glob q v)"
      using True star_glob_star[of p] by (metis append.assoc)
    finally show ?thesis .
  next
    case False
    have "star_glob ((c # p) @ q) s \<longleftrightarrow> (\<exists>u v. s = (c # u) @ v \<and> star_glob p u \<and> star_glob q v)"
      using False star_glob_literal[of c "p @ q" s] Cons.IH by auto
    also have "\<dots> \<longleftrightarrow> (\<exists>u v. s = u @ v \<and> star_glob (c # p) u \<and> star_glob q v)"
      using star_glob_literal[OF False, of p] by blast
    finally show ?thesis .
  qed
qed simp

lemma star_glob_single: "star_glob [c] u \<longleftrightarrow> c = CHR ''*'' \<or> u = [c]"
proof (cases "c = CHR ''*''")
  case True
  then show ?thesis using star_glob_star[of "[]" u] by simp
next
  case False
  then show ?thesis by (cases u) auto
qed

lemma star_glob_star_slash: "star_glob (a @ ''*/'') u \<longleftrightarrow> (\<exists>x y. u = x @ y @ ''/'' \<and> star_glob a x)"
  by (auto simp: star_glob_append[of a] star_glob_star star_glob_literal)

lemma star_glob_plain: "\<not> has_star p \<Longrightarrow> star_glob p s \<longleftrightarrow> s = p"
proof (induction p arbitrary: s)
  case (Cons c p)
  then show ?case by (cases s) (auto simp: has_star_def)
qed simp

text \<open>The reference: a double star and a slash match no segment or whole segments, any other star any run.\<close>

fun after_slashes :: "string \<Rightarrow> string list" where
  "after_slashes [] = []"
| "after_slashes (c # s) = (if c = CHR ''/'' then [s] else []) @ after_slashes s"

function manifest_glob :: "string \<Rightarrow> string \<Rightarrow> bool" where
  "manifest_glob p s =
     (if p = [] then s = []
      else if at_globstar p then manifest_glob (drop 3 p) s \<or> list_ex (manifest_glob (drop 3 p)) (after_slashes s)
      else if hd p = CHR ''*'' then manifest_glob (tl p) s \<or> (if s = [] then False else manifest_glob p (tl s))
      else if s = [] then False
      else hd s = hd p \<and> manifest_glob (tl p) (tl s))"
  by pat_completeness auto
termination
  by (relation "measures [\<lambda>(p, s). length p, \<lambda>(p, s). length s]") (auto simp: at_globstar_def prefix_def neq_Nil_conv)

declare manifest_glob.simps [simp del]

lemma set_after_slashes: "v \<in> set (after_slashes s) \<longleftrightarrow> (\<exists>u. s = u @ CHR ''/'' # v)"
  by (induction s) (auto simp: Cons_eq_append_conv)

lemma manifest_glob_Nil [simp]: "manifest_glob [] s \<longleftrightarrow> s = []"
  by (simp add: manifest_glob.simps)

lemma manifest_glob_segments:
  "at_globstar p \<Longrightarrow>
     manifest_glob p s \<longleftrightarrow>
       manifest_glob (drop 3 p) s \<or> (\<exists>u v. s = u @ CHR ''/'' # v \<and> manifest_glob (drop 3 p) v)"
proof -
  assume p: "at_globstar p"
  then have "p \<noteq> []" by (auto simp: at_globstar_def)
  with p have "manifest_glob p s \<longleftrightarrow>
      manifest_glob (drop 3 p) s \<or> (\<exists>v \<in> set (after_slashes s). manifest_glob (drop 3 p) v)"
    by (subst manifest_glob.simps) (simp add: list_ex_iff)
  then show ?thesis unfolding Bex_def set_after_slashes by blast
qed

lemma manifest_glob_char:
  assumes "\<not> at_globstar (c # p)"
  shows "manifest_glob (c # p) s \<longleftrightarrow> (\<exists>u v. s = u @ v \<and> star_glob [c] u \<and> manifest_glob p v)"
proof (cases "c = CHR ''*''")
  case True
  show ?thesis
  proof (induction s)
    case Nil
    then show ?case using assms True by (subst manifest_glob.simps) (simp add: star_glob_single)
  next
    case (Cons d s)
    have "manifest_glob (c # p) (d # s) \<longleftrightarrow> manifest_glob p (d # s) \<or> manifest_glob (c # p) s"
      using assms True by (subst manifest_glob.simps) simp
    then show ?case using Cons True by (auto simp: star_glob_single Cons_eq_append_conv)
  qed
next
  case False
  then show ?thesis using assms by (subst manifest_glob.simps) (cases s, auto simp: star_glob_single)
qed

fun globstars :: "string \<Rightarrow> nat" where
  "globstars [] = 0"
| "globstars (c # s) = (if at_globstar (c # s) then Suc (globstars (drop 2 s)) else globstars s)"

abbreviation from_alternatives :: "string list \<Rightarrow> string \<Rightarrow> string \<Rightarrow> bool" where
  "from_alternatives alts p s \<equiv> \<exists>a \<in> set alts. \<exists>u v. s = u @ v \<and> star_glob a u \<and> manifest_glob p v"

abbreviation expand_step :: "string list \<Rightarrow> string list" where
  "expand_step alts \<equiv> map (\<lambda>p. p @ ''*/'') alts @
     (if length alts * 2 \<le> MAX_GLOBSTAR_SLASH_ALTERNATIVES then rev alts else [])"

lemma expand_Nil [simp]: "expandGlobstarSlash_loop alts [] = alts"
  by (simp add: expandGlobstarSlash_loop.simps)

lemma expand_segments:
  "at_globstar p \<Longrightarrow> expandGlobstarSlash_loop alts p = expandGlobstarSlash_loop (expand_step alts) (drop 3 p)"
  by (subst expandGlobstarSlash_loop.simps) (auto simp: at_globstar_def)

lemma expand_char:
  "\<not> at_globstar (c # q) \<Longrightarrow>
     expandGlobstarSlash_loop alts (c # q) = expandGlobstarSlash_loop (map (\<lambda>a. a @ [c]) alts) q"
  by (subst expandGlobstarSlash_loop.simps) simp

lemma expand_induct [case_names empty segments char]:
  assumes "\<And>alts. Q alts []"
    and "\<And>alts p. at_globstar p \<Longrightarrow> Q (expand_step alts) (drop 3 p) \<Longrightarrow> Q alts p"
    and "\<And>alts c q. \<not> at_globstar (c # q) \<Longrightarrow> Q (map (\<lambda>a. a @ [c]) alts) q \<Longrightarrow> Q alts (c # q)"
  shows "Q alts p"
proof (induction alts p rule: expandGlobstarSlash_loop.induct)
  case (1 alts p)
  show ?case
  proof (cases p)
    case Nil
    then show ?thesis using assms(1) by simp
  next
    case (Cons c q)
    then show ?thesis using 1 assms(2,3) by (cases "at_globstar p") auto
  qed
qed

lemma expand_sound:
  "\<exists>a \<in> set (expandGlobstarSlash_loop alts p). star_glob a s \<Longrightarrow> from_alternatives alts p s"
proof (induction alts p arbitrary: s rule: expand_induct)
  case (empty alts)
  then show ?case by simp
next
  case (segments alts p)
  have "from_alternatives (expand_step alts) (drop 3 p) s"
    using segments.IH segments.prems expand_segments[OF segments.hyps] by simp
  then obtain b u v where b: "b \<in> set (expand_step alts)" "s = u @ v" "star_glob b u" "manifest_glob (drop 3 p) v"
    by blast
  from b(1) consider (slash) a where "a \<in> set alts" "b = a @ ''*/''" | (root) "b \<in> set alts"
    by (auto split: if_splits)
  then show ?case
  proof cases
    case slash
    then obtain x y where "u = x @ y @ ''/''" "star_glob a x" using b(3) star_glob_star_slash by blast
    then have "s = x @ (y @ CHR ''/'' # v)" "star_glob a x" "manifest_glob p (y @ CHR ''/'' # v)"
      using b(2,4) manifest_glob_segments[OF segments.hyps] by auto
    then show ?thesis using slash(1) by blast
  next
    case root
    then show ?thesis using b manifest_glob_segments[OF segments.hyps] by blast
  qed
next
  case (char alts c q)
  have "from_alternatives (map (\<lambda>a. a @ [c]) alts) q s"
    using char.IH char.prems expand_char[OF char.hyps] by simp
  then obtain a u v where a: "a \<in> set alts" "s = u @ v" "star_glob (a @ [c]) u" "manifest_glob q v" by auto
  then obtain x y where x: "u = x @ y" "star_glob a x" "star_glob [c] y" using star_glob_append by blast
  then have "manifest_glob (c # q) (y @ v)" using a(4) manifest_glob_char[OF char.hyps] by blast
  then show ?case using a(1,2) x by auto
qed

lemma globstars_segments: "at_globstar p \<Longrightarrow> globstars p = Suc (globstars (drop 3 p))"
  by (cases p) (auto simp: at_globstar_def numeral_3_eq_3 numeral_2_eq_2)

lemma expand_complete:
  "length alts * 2 ^ globstars p \<le> MAX_GLOBSTAR_SLASH_ALTERNATIVES \<Longrightarrow> from_alternatives alts p s \<Longrightarrow>
     \<exists>a \<in> set (expandGlobstarSlash_loop alts p). star_glob a s"
proof (induction alts p arbitrary: s rule: expand_induct)
  case (empty alts)
  then show ?case by simp
next
  case (segments alts p)
  have "length alts * 2 * 1 \<le> length alts * 2 * 2 ^ globstars (drop 3 p)" by (intro mult_le_mono2) simp
  then have room: "length alts * 2 \<le> MAX_GLOBSTAR_SLASH_ALTERNATIVES"
    using segments.prems(1) unfolding globstars_segments[OF segments.hyps] by (simp only: power_Suc mult.assoc mult_1_right le_trans)
  from segments.prems(2) obtain a u v where a: "a \<in> set alts" "s = u @ v" "star_glob a u" "manifest_glob p v"
    by blast
  from a(4) consider (root) "manifest_glob (drop 3 p) v"
    | (slash) x w where "v = x @ CHR ''/'' # w" "manifest_glob (drop 3 p) w"
    using manifest_glob_segments[OF segments.hyps] by blast
  then have "from_alternatives (expand_step alts) (drop 3 p) s"
  proof cases
    case root
    then show ?thesis using a room by auto
  next
    case slash
    then have "s = (u @ x @ ''/'') @ w" "star_glob (a @ ''*/'') (u @ x @ ''/'')"
      using a star_glob_star_slash by auto
    moreover have "a @ ''*/'' \<in> set (expand_step alts)" using a(1) by simp
    ultimately show ?thesis using slash(2) by blast
  qed
  moreover have "length (expand_step alts) * 2 ^ globstars (drop 3 p) \<le> MAX_GLOBSTAR_SLASH_ALTERNATIVES"
    using segments.prems(1) room unfolding globstars_segments[OF segments.hyps] by (simp add: algebra_simps)
  ultimately show ?case using segments.IH expand_segments[OF segments.hyps, of alts] by presburger
next
  case (char alts c q)
  from char.prems(2) obtain a u v where a: "a \<in> set alts" "s = u @ v" "star_glob a u" "manifest_glob (c # q) v"
    by blast
  then obtain x y where x: "v = x @ y" "star_glob [c] x" "manifest_glob q y"
    using manifest_glob_char[OF char.hyps] by blast
  then have "star_glob (a @ [c]) (u @ x)" using a(3) star_glob_append by blast
  moreover have "a @ [c] \<in> set (map (\<lambda>a. a @ [c]) alts)" "s = (u @ x) @ y" using a x by simp_all
  ultimately have "from_alternatives (map (\<lambda>a. a @ [c]) alts) q s" using x(3) by blast
  moreover have "globstars (c # q) = globstars q" using char.hyps by simp
  ultimately show ?case using char.IH char.prems(1) expand_char[OF char.hyps] by simp
qed

lemma expand_bounded:
  "length alts \<le> MAX_GLOBSTAR_SLASH_ALTERNATIVES \<Longrightarrow>
     length (expandGlobstarSlash_loop alts p) \<le> MAX_GLOBSTAR_SLASH_ALTERNATIVES"
proof (induction alts p rule: expand_induct)
  case (segments alts p)
  then show ?case using expand_segments[OF segments.hyps] by (simp split: if_splits)
next
  case (char alts c q)
  then show ?case using expand_char[OF char.hyps] by simp
qed simp

lemma alternative_matches:
  "(if has_star g then linearGlobMatcher g s else s = g) \<longleftrightarrow> star_glob g s"
  using linear_glob_star_glob star_glob_plain by simp

lemma manifest_wildcard:
  assumes "has_star (normalizePathForMatch pattern)"
  shows "matchesManifestPath path pattern \<longleftrightarrow>
    normalizePathForMatch path \<noteq> [] \<and>
    (\<exists>a \<in> set (expandGlobstarSlash (normalizePathForMatch pattern)). star_glob a (normalizePathForMatch path))"
  using assms unfolding matchesManifestPath_def compileManifestPathMatcher_def Let_def alternative_matches
  by (auto simp: has_star_def list_ex_iff)

text \<open>C17: Path patterns of the focus manifest. A pattern without a star matches the path itself and everything under
  it. A pattern with stars is matched by expanding each double-star segment into alternatives and running the linear
  prefix-middles-suffix scan on each; this is exactly the backtracking semantics of the pattern as long as it has at
  most seven double-star segments, is never more than it, and the number of alternatives never exceeds 128.\<close>

theorem matchesManifestPath_semantics:
  fixes path pattern :: string
  defines "s \<equiv> normalizePathForMatch path" and "p \<equiv> normalizePathForMatch pattern"
  shows "(\<not> has_star p \<longrightarrow> matchesManifestPath path pattern \<longleftrightarrow>
            s \<noteq> [] \<and> p \<noteq> [] \<and> (s = p \<or> prefix (if suffix ''/'' p then p else p @ ''/'') s)) \<and>
         (has_star p \<and> globstars p \<le> 7 \<longrightarrow> matchesManifestPath path pattern \<longleftrightarrow> s \<noteq> [] \<and> manifest_glob p s) \<and>
         (has_star p \<and> matchesManifestPath path pattern \<longrightarrow> manifest_glob p s) \<and>
         length (expandGlobstarSlash p) \<le> 128"
proof -
  have cap: "MAX_GLOBSTAR_SLASH_ALTERNATIVES = 128" by (simp add: MAX_GLOBSTAR_SLASH_ALTERNATIVES_def)
  have plain: "matchesManifestPath path pattern \<longleftrightarrow>
      s \<noteq> [] \<and> p \<noteq> [] \<and> (s = p \<or> prefix (if suffix ''/'' p then p else p @ ''/'') s)" if "\<not> has_star p"
    using that by (simp add: s_def p_def matchesManifestPath_def compileManifestPathMatcher_def Let_def)
  have root: "from_alternatives [[]] p s \<longleftrightarrow> manifest_glob p s" by simp
  have sound: "manifest_glob p s" if "\<exists>a \<in> set (expandGlobstarSlash p). star_glob a s"
    using expand_sound[of "[[]]" p s] that unfolding expandGlobstarSlash_def by simp
  have complete: "\<exists>a \<in> set (expandGlobstarSlash p). star_glob a s" if "globstars p \<le> 7" "manifest_glob p s"
  proof -
    have "(2::nat) ^ globstars p \<le> 2 ^ 7" by (rule power_increasing) (use that in auto)
    then have "length [[] :: string] * 2 ^ globstars p \<le> MAX_GLOBSTAR_SLASH_ALTERNATIVES" by (simp add: cap)
    then show ?thesis using expand_complete[of "[[]]" p s] that(2) unfolding expandGlobstarSlash_def by simp
  qed
  have "length (expandGlobstarSlash p) \<le> 128"
    using expand_bounded[of "[[]]" p] unfolding expandGlobstarSlash_def cap by simp
  then show ?thesis using plain sound complete manifest_wildcard[of pattern path, folded s_def p_def] by blast
qed

theorem matchesManifestPath_semantics_witness:
  "matchesManifestPath ''./SRC/lib/safe.ts'' ''src/**/safe.ts'' \<and> matchesManifestPath ''src/safe.ts'' ''src/**/safe.ts'' \<and>
   \<not> matchesManifestPath ''src/unsafe.ts'' ''src/**/safe.ts''"
proof -
  have p: "normalizePathForMatch ''src/**/safe.ts'' = ''src/**/safe.ts''" "globstars ''src/**/safe.ts'' \<le> 7"
    "has_star ''src/**/safe.ts''" by code_simp+
  have "normalizePathForMatch ''./SRC/lib/safe.ts'' = ''src/lib/safe.ts''"
    "normalizePathForMatch ''src/safe.ts'' = ''src/safe.ts''"
    "normalizePathForMatch ''src/unsafe.ts'' = ''src/unsafe.ts''" by code_simp+
  moreover have "manifest_glob ''src/**/safe.ts'' ''src/lib/safe.ts''" "manifest_glob ''src/**/safe.ts'' ''src/safe.ts''"
    "\<not> manifest_glob ''src/**/safe.ts'' ''src/unsafe.ts''" by code_simp+
  ultimately show ?thesis
    using matchesManifestPath_semantics[of "''src/**/safe.ts''" "''./SRC/lib/safe.ts''"]
      matchesManifestPath_semantics[of "''src/**/safe.ts''" "''src/safe.ts''"]
      matchesManifestPath_semantics[of "''src/**/safe.ts''" "''src/unsafe.ts''"]
    unfolding p(1) by (simp add: p)
qed



section \<open>The guardrail\<close>

lemma countWildcardGroups_other [simp]: "c \<noteq> CHR ''*'' \<Longrightarrow> countWildcardGroups (c # s) = countWildcardGroups s"
  by simp

declare countWildcardGroups.simps(2) [simp del]

lemma count_after_star: "countWildcardGroups (after_star s) = countWildcardGroups (if prefix ''*'' s then tl s else s)"
  by (cases s; cases "tl s") (auto simp: after_star_def drop_Suc)

lemma after_star_plain: "\<not> prefix ''*'' s \<Longrightarrow> after_star s = s"
  by (cases s) (auto simp: after_star_def)

abbreviation skip_star :: "string \<Rightarrow> string" where
  "skip_star s \<equiv> if prefix ''*'' s then tl s else s"

lemma count_map_after_star:
  assumes "f (CHR ''/'') \<noteq> CHR ''*''"
  shows "countWildcardGroups (map f (after_star s)) = countWildcardGroups (map f (skip_star s))"
  using assms by (cases s; cases "tl s") (auto simp: after_star_def drop_Suc)

lemma countWildcardGroups_map:
  assumes f: "\<And>c. f c = CHR ''*'' \<longleftrightarrow> c = CHR ''*''"
  shows "countWildcardGroups (map f s) = countWildcardGroups s"
proof (induction s rule: countWildcardGroups.induct)
  case (2 c s)
  show ?case
  proof (cases "c = CHR ''*''")
    case True
    then have fc: "f c = CHR ''*''" using f by simp
    have "skip_star (map f s) = map f (skip_star s)"
    proof (cases s)
      case (Cons d t)
      then show ?thesis using f[of d] by auto
    qed simp
    then have "countWildcardGroups (after_star (map f s)) = countWildcardGroups (map f (after_star s))"
      using count_after_star[of "map f s"] count_map_after_star[of f s] f[of "CHR ''/''"] by simp
    also have "\<dots> = countWildcardGroups (after_star s)" using 2(2) True by blast
    finally show ?thesis using True fc by (simp add: countWildcardGroups.simps(2))
  next
    case False
    then have "f c \<noteq> CHR ''*''" using f by simp
    then show ?thesis using False 2(1) by simp
  qed
qed simp

lemma countWildcardGroups_dropWhile: "countWildcardGroups (dropWhile (\<lambda>c. c = CHR ''/'') s) = countWildcardGroups s"
  by (induction s) auto

lemma countWildcardGroups_strip: "countWildcardGroups (strip_dot_slash s) = countWildcardGroups s"
  by (auto simp: strip_dot_slash_def prefix_def)

lemma lower_char_star: "lower_char c = CHR ''*'' \<longleftrightarrow> c = CHR ''*''"
proof (cases "CHR ''A'' \<le> c \<and> c \<le> CHR ''Z''")
  case True
  define n where "n = (of_char c :: nat)"
  have n: "65 \<le> n" "n \<le> 90" and c: "c = char_of n"
    using True unfolding n_def less_eq_char_def by simp_all
  have "lower_char c = char_of (n + 32)" using True by (simp add: lower_char_def n_def)
  then have "of_char (lower_char c) = n + 32" using n by simp
  then have "of_char (lower_char c) \<noteq> (42::nat)" "of_char c \<noteq> (42::nat)" using n n_def by simp_all
  moreover have "of_char (CHR ''*'') = (42::nat)" by simp
  ultimately show ?thesis by metis
next
  case False
  then show ?thesis unfolding lower_char_def by (simp add: if_not_P)
qed

lemma countWildcardGroups_canonicalize: "countWildcardGroups (canonicalize glob) = countWildcardGroups glob"
proof -
  have "countWildcardGroups (map (\<lambda>c. if c = CHR 0x5C then CHR ''/'' else c) glob) = countWildcardGroups glob"
    by (rule countWildcardGroups_map) auto
  moreover have "countWildcardGroups (toLowerCase s) = countWildcardGroups s" for s
    unfolding toLowerCase_def by (rule countWildcardGroups_map) (rule lower_char_star)
  ultimately show ?thesis
    by (simp add: canonicalize_def countWildcardGroups_dropWhile countWildcardGroups_strip)
qed

lemma rx_wildcards_glob: "rx_wildcards (glob_items g) = countWildcardGroups g"
proof (induction g rule: glob_items.induct)
  case (2 c s)
  then show ?case by (auto simp: countWildcardGroups.simps(2) after_star_plain)
qed simp

lemma glob_items_no_maybe: "list_all (\<lambda>i. \<forall>p. i \<noteq> Maybe p) (glob_items g)"
  by (induction g rule: glob_items.induct) auto

lemma glob_items_length: "length (glob_items g) \<le> length g"
proof (induction g rule: glob_items.induct)
  case (2 c s)
  then show ?case using after_star_length[of s] by auto
qed simp

lemma canonicalize_length: "length (canonicalize v) \<le> length v"
proof -
  have "length (strip_dot_slash s) \<le> length s" for s by (simp add: strip_dot_slash_def)
  then show ?thesis unfolding canonicalize_def toLowerCase_def
    by (metis (no_types, lifting) le_trans length_dropWhile_le length_map)
qed

text \<open>C37: A guardrail glob never compiles to an expression with catastrophic backtracking: whatever the glob and the
  path, the number of steps of the backtracking search is at most the length of the glob times the square of the
  length of the path (each plus one).\<close>

theorem guardrail_search_is_quadratic:
  "globToRegExp glob = Some r \<Longrightarrow> rx_cost r path \<le> Suc (length glob) * Suc (length path) ^ 2"
proof -
  assume r: "globToRegExp glob = Some r"
  then have few: "countWildcardGroups glob \<le> 2" and items: "r = glob_items (canonicalize glob)"
    by (auto simp: globToRegExp_def hasUnsafeWildcardCount_def MAX_GLOB_WILDCARD_GROUPS_def split: if_splits)
  have len: "length r \<le> length glob"
    unfolding items by (rule le_trans[OF glob_items_length canonicalize_length])
  have "rx_cost r path \<le> cost_bound r path"
    unfolding items by (rule no_maybe_cost) (rule glob_items_no_maybe)
  also have "\<dots> \<le> Suc (length glob) * Suc (length path) ^ 2"
    by (rule mult_le_mono)
      (use len few in \<open>auto intro!: power_increasing simp: items rx_wildcards_glob countWildcardGroups_canonicalize\<close>)
  finally show ?thesis .
qed

theorem guardrail_search_is_quadratic_witness:
  "\<exists>r. globToRegExp ''public/**/*.json'' = Some r \<and> 
     rx_cost r ''public/a/b.txt'' \<le> Suc (length ''public/**/*.json'') * Suc (length ''public/a/b.txt'') ^ 2"
proof -
  have "\<not> hasUnsafeWildcardCount ''public/**/*.json''" by code_simp
  then obtain r where r: "globToRegExp ''public/**/*.json'' = Some r" by (simp add: globToRegExp_def)
  then show ?thesis using guardrail_search_is_quadratic[OF r] by blast
qed

lemma glob_hits: "matchesAny path globs \<longleftrightarrow> (\<exists>g \<in> set globs. hasUnsafeWildcardCount g \<or> rx_test (globToRegExp g) (canonicalize path))"
  by (simp add: matchesAny_def list_ex_iff)

lemma rx_test_glob:
  "\<not> hasUnsafeWildcardCount g \<Longrightarrow> rx_test (globToRegExp g) s \<longleftrightarrow> rx_lang (glob_items (canonicalize g)) s"
  by (simp add: rx_test_def globToRegExp_def rx_full_lang)

lemma glob_items_plain:
  "\<not> has_star d \<Longrightarrow> glob_items (d @ g) = map (\<lambda>k. One (\<lambda>x. x = k)) d @ glob_items g"
  by (induction d) (auto simp: has_star_def)

lemma rx_lang_literal_append:
  "rx_lang (map (\<lambda>k. One (\<lambda>c. c = k)) w @ r) u \<longleftrightarrow> (\<exists>v. u = w @ v \<and> rx_lang r v)"
proof (induction w arbitrary: u)
  case (Cons k w)
  then show ?case by (auto elim!: rx_lang_OneE intro: lang_One)
qed simp

lemma directory_glob:
  assumes "canonicalize glob = dir @ ''/**''" "\<not> has_star dir"
  shows "\<not> hasUnsafeWildcardCount glob"
    and "rx_test (globToRegExp glob) (dir @ ''/'' @ rest) \<longleftrightarrow> list_all dot rest"
proof -
  have star: "\<not> has_star (dir @ ''/'')" using assms(2) by (simp add: has_star_def)
  have items: "glob_items (dir @ ''/**'') = map (\<lambda>k. One (\<lambda>x. x = k)) (dir @ ''/'') @ [Many dot]"
    using glob_items_plain[OF star, of "''**''"] by (simp add: after_star_def)
  have "rx_wildcards (map (\<lambda>k. One (\<lambda>x. x = k)) w @ [Many dot]) = 1" for w by (induction w) auto
  then have "countWildcardGroups glob = 1"
    using countWildcardGroups_canonicalize[of glob] rx_wildcards_glob[of "dir @ ''/**''"] unfolding assms(1) items
    by metis
  then show safe: "\<not> hasUnsafeWildcardCount glob"
    by (simp add: hasUnsafeWildcardCount_def MAX_GLOB_WILDCARD_GROUPS_def)
  show "rx_test (globToRegExp glob) (dir @ ''/'' @ rest) \<longleftrightarrow> list_all dot rest"
    unfolding rx_test_glob[OF safe] assms(1) items rx_lang_literal_append rx_lang_run by auto
qed

lemma canonicalize_nonempty: "canonicalize path \<noteq> [] \<Longrightarrow> path \<noteq> []"
  by (auto simp: canonicalize_def strip_dot_slash_def)

lemma guardrail_matches_mem:
  "m \<in> set (guardrailPathMatches paths globs) \<longleftrightarrow>
     gm_path m \<in> set paths \<and> gm_path m \<noteq> [] \<and> gm_glob m \<in> set globs \<and>
     (hasUnsafeWildcardCount (gm_glob m) \<or> rx_test (globToRegExp (gm_glob m)) (canonicalize (gm_path m)))"
proof -
  have "m \<in> set (path_glob_matches globs p) \<longleftrightarrow>
     gm_path m = p \<and> p \<noteq> [] \<and> gm_glob m \<in> set globs \<and>
     (hasUnsafeWildcardCount (gm_glob m) \<or> rx_test (globToRegExp (gm_glob m)) (canonicalize p))" for p
    by (cases m) (auto simp: path_glob_matches_def Let_def)
  then show ?thesis by (auto simp: guardrailPathMatches_def)
qed

lemma guardrail_paths: "gm_path ` set (guardrailPathMatches paths globs) = set (changedPathsHittingGuardrail paths globs)"
proof -
  have "p \<in> gm_path ` set (guardrailPathMatches paths globs)"
    if "p \<in> set paths" "p \<noteq> []" "g \<in> set globs" "hasUnsafeWildcardCount g \<or> rx_test (globToRegExp g) (canonicalize p)" for p g
  proof -
    have "\<lparr>gm_path = p, gm_glob = g\<rparr> \<in> set (guardrailPathMatches paths globs)"
      using that by (simp add: guardrail_matches_mem)
    then show ?thesis by (metis GuardrailPathMatch.select_convs(1) image_eqI)
  qed
  then show ?thesis
    by (auto simp: changedPathsHittingGuardrail_def glob_hits guardrail_matches_mem guardrailPathMatches_def [where hardGuardrailGlobs = "[]"])
qed

text \<open>The matcher with exclusions: an over-complex include glob still matches every path, an over-complex exclude glob
  excludes none.\<close>

lemma matchesAnyWithExclusions_iff:
  "matchesAnyWithExclusions path globs \<longleftrightarrow>
     (\<exists>g \<in> set globs. \<not> is_exclusion g \<and> (hasUnsafeWildcardCount g \<or> rx_test (globToRegExp g) (canonicalize path))) \<and>
     \<not> (\<exists>e \<in> set globs. is_exclusion e \<and> \<not> hasUnsafeWildcardCount (drop 1 e) \<and>
          rx_test (globToRegExp (drop 1 e)) (canonicalize path))"
proof -
  have never: "rx_test (globToRegExp e) s \<Longrightarrow> \<not> hasUnsafeWildcardCount e" for e s
    by (auto simp: rx_test_def globToRegExp_def)
  show ?thesis
    unfolding matchesAnyWithExclusions_def Let_def glob_hits
    by (auto simp: list_ex_iff filter_empty_conv dest: never)
qed

text \<open>A change under a guarded directory is held however its path is spelt: if a configured glob is a directory
  followed by a double star, then any changed path that is below the directory once case, separators and a leading
  dot are folded trips the guardrail and is reported with that glob, whatever else the pull request changes and
  whatever other globs are configured. The path must not contain a line break.\<close>

theorem guarded_directory_is_held:
  assumes "canonicalize glob = dir @ ''/**''" "\<not> has_star dir" "glob \<in> set globs"
    and "canonicalize path = dir @ ''/'' @ rest" "list_all dot rest" "path \<in> set paths"
  shows "isGuardrailHit paths globs \<and> \<lparr>gm_path = path, gm_glob = glob\<rparr> \<in> set (guardrailPathMatches paths globs)"
proof -
  have "path \<noteq> []" using assms(4) canonicalize_nonempty[of path] by simp
  then have m: "\<lparr>gm_path = path, gm_glob = glob\<rparr> \<in> set (guardrailPathMatches paths globs)"
    using assms directory_glob(2)[OF assms(1,2)] by (simp add: guardrail_matches_mem)
  then have "path \<in> set (changedPathsHittingGuardrail paths globs)"
    using guardrail_paths[of paths globs] by (metis GuardrailPathMatch.select_convs(1) image_eqI)
  then show ?thesis using m assms(3) by (auto simp: isGuardrailHit_def)
qed

theorem guarded_directory_is_held_witness:
  "isGuardrailHit [''README.md'', ''./.GitHub'' @ [CHR 0x5C] @ ''Workflows/ci.yml''] [''docs/*'', ''.github/**'']"
proof -
  have "canonicalize ''.github/**'' = ''.github'' @ ''/**''" "\<not> has_star ''.github''"
    "canonicalize (''./.GitHub'' @ [CHR 0x5C] @ ''Workflows/ci.yml'') = ''.github'' @ ''/'' @ ''workflows/ci.yml''"
    "list_all dot ''workflows/ci.yml''" by code_simp+
  then show ?thesis
    using guarded_directory_is_held[of "''.github/**''" "''.github''" "[''docs/*'', ''.github/**'']"
        "''./.GitHub'' @ [CHR 0x5C] @ ''Workflows/ci.yml''" "''workflows/ci.yml''"
        "[''README.md'', ''./.GitHub'' @ [CHR 0x5C] @ ''Workflows/ci.yml'']"] by simp
qed

text \<open>The two forms of the guardrail agree, and it cannot be padded away. For a verifiable change list the boolean
  form holds exactly when the structured form reports a match, and the paths it reports are exactly the changed
  paths that hit; adding changed paths to a non-empty list, or adding globs, never clears a hit; an over-complex
  glob guards every path.\<close>

theorem guardrail_forms_agree:
  "(globs \<noteq> [] \<and> paths \<noteq> [] \<and> length paths < 1000 \<longrightarrow>
      isGuardrailHit paths globs = (guardrailPathMatches paths globs \<noteq> [])) \<and>
   gm_path ` set (guardrailPathMatches paths globs) = set (changedPathsHittingGuardrail paths globs) \<and>
   (paths \<noteq> [] \<and> isGuardrailHit paths globs \<longrightarrow> isGuardrailHit (before @ paths @ after) (globs @ extra)) \<and>
   (g \<in> set globs \<and> hasUnsafeWildcardCount g \<and> p \<in> set paths \<and> p \<noteq> [] \<longrightarrow> isGuardrailHit paths globs)"
proof -
  have hit: "isGuardrailHit paths globs = (globs \<noteq> [] \<and> (paths = [] \<or> 1000 \<le> length paths \<or>
      changedPathsHittingGuardrail paths globs \<noteq> []))" for paths globs
    by (auto simp: isGuardrailHit_def GUARDRAIL_UNVERIFIABLE_FILE_COUNT_def)
  have same: "changedPathsHittingGuardrail paths globs = [] \<longleftrightarrow> guardrailPathMatches paths globs = []"
    using guardrail_paths[of paths globs] by (metis image_is_empty set_empty)
  have "changedPathsHittingGuardrail (before @ paths @ after) (globs @ extra) \<noteq> []"
    if "changedPathsHittingGuardrail paths globs \<noteq> []"
    using that by (auto simp: changedPathsHittingGuardrail_def filter_empty_conv glob_hits split: if_splits)
  moreover have "changedPathsHittingGuardrail paths globs \<noteq> []"
    if "g \<in> set globs" "hasUnsafeWildcardCount g" "p \<in> set paths" "p \<noteq> []"
    using that by (auto simp: changedPathsHittingGuardrail_def filter_empty_conv glob_hits)
  moreover have "globs \<noteq> []" if "g \<in> set globs" using that by auto
  ultimately show ?thesis using same guardrail_paths[of paths globs] unfolding hit by auto
qed

theorem guardrail_forms_agree_witness:
  "isGuardrailHit [''a.ts'', ''b.ts''] [''a/*/b/*/c/*'']"
proof -
  have "hasUnsafeWildcardCount ''a/*/b/*/c/*''" by code_simp
  moreover have "''a/*/b/*/c/*'' \<in> set [''a/*/b/*/c/*'']" "''a.ts'' \<in> set [''a.ts'', ''b.ts'']" "''a.ts'' \<noteq> []" by simp_all
  ultimately show ?thesis using guardrail_forms_agree by blast
qed

text \<open>C38: A line break in a file name evades a directory guardrail: the double star compiles to a dot that does not
  match line terminators, so a pull request whose only changed file lies under the guarded directory but has a line
  break in its name is not held, although the directory is guarded as a whole.\<close>

theorem line_break_evades_the_guardrail:
  assumes "canonicalize glob = dir @ ''/**''" "\<not> has_star dir"
    and "canonicalize path = dir @ ''/'' @ rest" "\<not> list_all dot rest"
  shows "\<not> isGuardrailHit [path] [glob] \<and> guardrailPathMatches [path] [glob] = []"
proof -
  have no: "\<not> (hasUnsafeWildcardCount glob \<or> rx_test (globToRegExp glob) (canonicalize path))"
    using directory_glob[OF assms(1,2)] assms(3,4) by simp
  then have "changedPathsHittingGuardrail [path] [glob] = []"
    by (simp add: changedPathsHittingGuardrail_def glob_hits)
  then show ?thesis
    using guardrail_paths[of "[path]" "[glob]"]
    by (simp add: isGuardrailHit_def GUARDRAIL_UNVERIFIABLE_FILE_COUNT_def)
qed

theorem line_break_evades_the_guardrail_witness:
  "\<not> isGuardrailHit [''.github/workflows/ci'' @ [CHR 0x0A] @ ''.yml''] [''.github/**'']"
proof -
  have "canonicalize ''.github/**'' = ''.github'' @ ''/**''" "\<not> has_star ''.github''"
    "canonicalize (''.github/workflows/ci'' @ [CHR 0x0A] @ ''.yml'') =
       ''.github'' @ ''/'' @ (''workflows/ci'' @ [CHR 0x0A] @ ''.yml'')"
    "\<not> list_all dot (''workflows/ci'' @ [CHR 0x0A] @ ''.yml'')" by code_simp+
  then show ?thesis
    using line_break_evades_the_guardrail[of "''.github/**''" "''.github''"
        "''.github/workflows/ci'' @ [CHR 0x0A] @ ''.yml''" "''workflows/ci'' @ [CHR 0x0A] @ ''.yml''"] by blast
qed

end
