(* ===== verification/Label_Match.thy ===== *)
theory Label_Match
  imports Path_Glob
begin

text \<open>
  Label patterns (\<open>packages/loopover-engine/src/scoring/label-match.ts\<close>): an fnmatch glob is compiled to an anchored,
  case-insensitive expression, behind a bounded cache. The cache is the association list of its entries in insertion
  order; a hit re-inserts its entry at the end. The locale \<open>memo\<close> is the interface a client of the cache relies on:
  whatever was looked up before, a lookup returns what compiling afresh would.
\<close>

section \<open>Definitions\<close>

definition LABEL_PATTERN_REGEXP_CACHE_MAX_ENTRIES :: nat where
  "LABEL_PATTERN_REGEXP_CACHE_MAX_ENTRIES = 256"

definition fnmatchWildcardGroups :: "string \<Rightarrow> nat" where
  "fnmatchWildcardGroups pattern = length (filter (\<lambda>c. c = CHR ''*'') pattern)"

definition upper_char :: "char \<Rightarrow> char" where
  "upper_char c = (if CHR ''a'' \<le> c \<and> c \<le> CHR ''z'' then char_of (of_char c - (32::nat)) else c)"

text \<open>Characters and ranges of a class body, read from the left.\<close>

fun class_has :: "string \<Rightarrow> char \<Rightarrow> bool" where
  "class_has [] x = False"
| "class_has [a] x = (x = a)"
| "class_has [a, b] x = (x = a \<or> x = b)"
| "class_has (a # b # c # s) x =
     (if b = CHR ''-'' then a \<le> x \<and> x \<le> c \<or> class_has s x else x = a \<or> class_has (b # c # s) x)"

definition class_has_i :: "string \<Rightarrow> char \<Rightarrow> bool" where
  "class_has_i body x \<longleftrightarrow> class_has body x \<or> class_has body (lower_char x) \<or> class_has body (upper_char x)"

fun descending_range :: "string \<Rightarrow> bool" where
  "descending_range (a # b # c # s) =
     (if b = CHR ''-'' then c < a \<or> descending_range s else descending_range (b # c # s))"
| "descending_range _ = False"

definition hasDescendingCharacterRange :: "string \<Rightarrow> bool" where
  "hasDescendingCharacterRange body = descending_range (if prefix ''!'' body then drop 1 body else body)"

definition literal_i :: "char \<Rightarrow> rx" where
  "literal_i k = One (\<lambda>c. lower_char c = lower_char k)"

definition class_items :: "string \<Rightarrow> rx list" where
  "class_items rawBody =
     (if rawBody = [] \<or> rawBody = ''!'' then map literal_i (''['' @ rawBody @ '']'')
      else if hasDescendingCharacterRange rawBody then [One (\<lambda>_. False)]
      else if prefix ''!'' rawBody then [One (\<lambda>x. \<not> class_has_i (drop 1 rawBody) x)]
      else [One (class_has_i rawBody)])"

lemma dropWhile_tail_shorter [termination_simp]: "length (dropWhile P s) - Suc 0 < Suc (length s)"
  using dropWhile_shorter[of P s] by linarith

fun fnmatch_items :: "string \<Rightarrow> rx list" where
  "fnmatch_items [] = []"
| "fnmatch_items (c # s) =
     (if c = CHR ''*'' then Many dot # fnmatch_items s
      else if c = CHR ''?'' then One dot # fnmatch_items s
      else if c = CHR ''['' then
        (if CHR '']'' \<in> set s
         then class_items (takeWhile (\<lambda>x. x \<noteq> CHR '']'') s) @ fnmatch_items (drop 1 (dropWhile (\<lambda>x. x \<noteq> CHR '']'') s))
         else literal_i c # fnmatch_items s)
      else literal_i c # fnmatch_items s)"

definition compile_label_pattern :: "string \<Rightarrow> rx list option" where
  "compile_label_pattern pattern =
     (if MAX_GLOB_WILDCARD_GROUPS < fnmatchWildcardGroups pattern then None else Some (fnmatch_items pattern))"

type_synonym label_cache = "(string \<times> rx list option) list"

definition setLabelPatternRegExpCacheEntry :: "label_cache \<Rightarrow> string \<Rightarrow> rx list option \<Rightarrow> label_cache" where
  "setLabelPatternRegExpCacheEntry cache pattern compiled =
     (if LABEL_PATTERN_REGEXP_CACHE_MAX_ENTRIES \<le> length cache then tl cache else cache) @ [(pattern, compiled)]"

definition labelPatternToRegExp :: "label_cache \<Rightarrow> string \<Rightarrow> label_cache \<times> rx list option" where
  "labelPatternToRegExp cache pattern =
     (case map_of cache pattern of
        Some cached \<Rightarrow> (table_del pattern cache @ [(pattern, cached)], cached)
      | None \<Rightarrow>
          let compiled = compile_label_pattern pattern
          in (setLabelPatternRegExpCacheEntry cache pattern compiled, compiled))"

definition labelMatchesPattern :: "label_cache \<Rightarrow> string \<Rightarrow> string \<Rightarrow> label_cache \<times> bool" where
  "labelMatchesPattern cache label pattern =
     (let (cache', r) = labelPatternToRegExp cache (toLowerCase pattern)
      in (cache', rx_test r (toLowerCase label)))"

text \<open>The answer without the cache.\<close>

definition label_matches :: "string \<Rightarrow> string \<Rightarrow> bool" where
  "label_matches label pattern = rx_test (compile_label_pattern (toLowerCase pattern)) (toLowerCase label)"


section \<open>The cache\<close>

text \<open>The interface of a memo: a good state stays good and answers with the reference function.\<close>

locale memo =
  fixes step :: "'s \<Rightarrow> 'k \<Rightarrow> 's \<times> 'v"
    and good :: "'s \<Rightarrow> bool"
    and ref :: "'k \<Rightarrow> 'v"
  assumes answers: "good s \<Longrightarrow> snd (step s k) = ref k"
    and keeps: "good s \<Longrightarrow> good (fst (step s k))"
begin

lemma transparent: "good s \<Longrightarrow> mealy_outputs step s ks = map ref ks \<and> good (mealy_state step s ks)"
proof (induction ks arbitrary: s)
  case (Cons k ks)
  then show ?case using answers[of s k] keeps[of s k] by (auto simp: case_prod_unfold)
qed simp

end

definition cache_good :: "label_cache \<Rightarrow> bool" where
  "cache_good cache \<longleftrightarrow> distinct (map fst cache) \<and> list_all (\<lambda>(p, r). r = compile_label_pattern p) cache \<and>
     length cache \<le> LABEL_PATTERN_REGEXP_CACHE_MAX_ENTRIES"

lemma cache_good_value: "cache_good c \<Longrightarrow> map_of c p = Some r \<Longrightarrow> r = compile_label_pattern p"
  by (auto simp: cache_good_def list_all_iff dest: map_of_SomeD)

lemma table_del_length: "map_of c p = Some r \<Longrightarrow> length (table_del p c) < length c"
  unfolding table_del_def by (rule length_filter_less) (auto dest: map_of_SomeD)

lemma cache_step_good: "cache_good c \<Longrightarrow> cache_good (fst (labelPatternToRegExp c p))"
proof (cases "map_of c p")
  case None
  assume c: "cache_good c"
  from None have "p \<notin> fst ` set c" by (simp add: map_of_eq_None_iff)
  then show ?thesis using None c
    by (cases c) (auto simp: labelPatternToRegExp_def setLabelPatternRegExpCacheEntry_def cache_good_def Let_def
        LABEL_PATTERN_REGEXP_CACHE_MAX_ENTRIES_def)
next
  case (Some r)
  assume c: "cache_good c"
  have "distinct (map fst (table_del p c))" "p \<notin> fst ` set (table_del p c)"
    using c by (auto simp: table_del_def cache_good_def distinct_map_filter)
  then show ?thesis using Some c table_del_length[OF Some] cache_good_value[OF c Some]
    by (auto simp: labelPatternToRegExp_def cache_good_def table_del_def list_all_iff)
qed

interpretation label_memo: memo labelPatternToRegExp cache_good compile_label_pattern
proof
  fix c p assume c: "cache_good c"
  show "snd (labelPatternToRegExp c p) = compile_label_pattern p"
    using cache_good_value[OF c] by (auto simp: labelPatternToRegExp_def Let_def split: option.split)
  show "cache_good (fst (labelPatternToRegExp c p))" using c by (rule cache_step_good)
qed

text \<open>The patterns a cache holds, oldest first.\<close>

definition cache_after :: "string list \<Rightarrow> label_cache" where
  "cache_after ps = mealy_state labelPatternToRegExp [] ps"

definition newest :: "nat \<Rightarrow> 'a list \<Rightarrow> 'a list" where
  "newest n xs = drop (length xs - n) xs"

lemma remdups_snoc: "remdups (xs @ [x]) = filter (\<lambda>y. y \<noteq> x) (remdups xs) @ [x]"
  by (induction xs) auto

lemma newest_snoc: "newest (Suc n) (xs @ [x]) = newest n xs @ [x]"
  by (simp add: newest_def)

lemma newest_append: "n \<le> length ys \<Longrightarrow> newest n (xs @ ys) = newest n ys"
  by (simp add: newest_def)

lemma newest_all: "length xs \<le> n \<Longrightarrow> newest n xs = xs"
  by (simp add: newest_def)

lemma cache_keys_step:
  "map fst (fst (labelPatternToRegExp c p)) =
     (if p \<in> fst ` set c then filter (\<lambda>q. q \<noteq> p) (map fst c)
      else if 256 \<le> length c then tl (map fst c) else map fst c) @ [p]"
proof (cases "map_of c p")
  case None
  then have "p \<notin> fst ` set c" by (simp add: map_of_eq_None_iff)
  then show ?thesis using None
    by (simp add: labelPatternToRegExp_def setLabelPatternRegExpCacheEntry_def LABEL_PATTERN_REGEXP_CACHE_MAX_ENTRIES_def
        Let_def map_tl)
next
  case (Some r)
  then have "p \<in> fst ` set c" by (metis fst_conv image_eqI map_of_SomeD)
  then show ?thesis using Some by (simp add: labelPatternToRegExp_def table_del_def filter_map comp_def)
qed

lemma newest_move:
  assumes "distinct xs" "p \<in> set (newest 256 xs)"
  shows "newest 255 (filter (\<lambda>q. q \<noteq> p) xs) = filter (\<lambda>q. q \<noteq> p) (newest 256 xs)"
proof -
  define ys zs where "ys = take (length xs - 256) xs" and "zs = newest 256 xs"
  have xs: "xs = ys @ zs" by (simp add: ys_def zs_def newest_def)
  have "p \<in> set zs" using assms(2) by (simp add: zs_def)
  moreover have "distinct (ys @ zs)" using assms(1) xs by metis
  ultimately have p: "p \<notin> set ys" "p \<in> set zs" "distinct zs" by auto
  have "filter (\<lambda>q. q \<noteq> p) zs = removeAll p zs" by (auto simp: removeAll_filter_not_eq intro!: filter_cong)
  then have len: "length (filter (\<lambda>q. q \<noteq> p) zs) = length zs - 1"
    using p(2,3) by (simp add: distinct_remove1_removeAll[symmetric] length_remove1)
  have "filter (\<lambda>q. q \<noteq> p) xs = ys @ filter (\<lambda>q. q \<noteq> p) zs" using p(1) by (auto simp: xs filter_id_conv)
  moreover have "length zs \<le> 256" "length zs < 256 \<Longrightarrow> ys = []" by (auto simp: zs_def ys_def newest_def)
  ultimately show ?thesis using len unfolding zs_def[symmetric]
    by (cases "length zs < 256") (simp_all add: newest_append newest_all)
qed

lemma newest_evict:
  assumes "p \<notin> set (newest 256 xs)"
  shows "newest 255 (filter (\<lambda>q. q \<noteq> p) xs) =
    (if 256 \<le> length (newest 256 xs) then tl (newest 256 xs) else newest 256 xs)"
proof -
  define ys zs where "ys = take (length xs - 256) xs" and "zs = newest 256 xs"
  have xs: "xs = ys @ zs" by (simp add: ys_def zs_def newest_def)
  have "p \<notin> set zs" using assms by (simp add: zs_def)
  then have f: "filter (\<lambda>q. q \<noteq> p) xs = filter (\<lambda>q. q \<noteq> p) ys @ zs"
    by (auto simp: xs filter_id_conv)
  have l: "length zs \<le> 256" "length zs < 256 \<Longrightarrow> ys = []" by (auto simp: zs_def ys_def newest_def)
  show ?thesis
  proof (cases "length zs < 256")
    case True
    then show ?thesis using l f by (simp add: zs_def[symmetric] newest_all)
  next
    case False
    then have "newest 255 zs = tl zs" using l by (simp add: newest_def drop_Suc)
    then show ?thesis using False f by (simp add: zs_def[symmetric] newest_append)
  qed
qed

lemma cache_after_snoc: "cache_after (ps @ [p]) = fst (labelPatternToRegExp (cache_after ps) p)"
proof -
  have "mealy_state step s (ps @ [p]) = fst (step (mealy_state step s ps) p)" for step :: "label_cache \<Rightarrow> string \<Rightarrow> label_cache \<times> rx list option" and s
    by (induction ps arbitrary: s) (auto simp: case_prod_unfold)
  then show ?thesis by (simp add: cache_after_def)
qed

lemma cache_keys: "map fst (cache_after ps) = newest 256 (remdups ps)"
proof (induction ps rule: rev_induct)
  case Nil
  then show ?case by (simp add: cache_after_def newest_def)
next
  case (snoc p ps)
  let ?c = "cache_after ps" and ?r = "remdups ps"
  have mem: "p \<in> fst ` set ?c \<longleftrightarrow> p \<in> set (newest 256 ?r)" and len: "length ?c = length (newest 256 ?r)"
    using snoc by (metis list.set_map, metis length_map)
  have "newest 256 (remdups (ps @ [p])) = newest 255 (filter (\<lambda>q. q \<noteq> p) ?r) @ [p]"
    using newest_snoc[of 255 "filter (\<lambda>q. q \<noteq> p) ?r" p] by (simp add: remdups_snoc)
  then show ?case
    using newest_move[of ?r p] newest_evict[of p ?r]
    by (simp add: cache_after_snoc cache_keys_step snoc mem len)
qed

text \<open>C19: The compiled-pattern cache is transparent, bounded and least-recently-used. Whatever sequence of patterns is
  looked up, every lookup returns what compiling the pattern afresh would; the cache then holds exactly the 256 most
  recently used distinct patterns, in order of their last use.\<close>

theorem label_cache_is_lru:
  "mealy_outputs labelPatternToRegExp [] ps = map compile_label_pattern ps \<and>
   map fst (mealy_state labelPatternToRegExp [] ps) = newest 256 (remdups ps) \<and>
   length (mealy_state labelPatternToRegExp [] ps) \<le> 256"
proof -
  have "cache_good []" by (simp add: cache_good_def)
  then show ?thesis using label_memo.transparent[of "[]" ps] cache_keys[of ps]
    by (auto simp: cache_after_def cache_good_def LABEL_PATTERN_REGEXP_CACHE_MAX_ENTRIES_def)
qed


section \<open>Matching\<close>

lemma fnmatch_wildcards: "rx_wildcards (fnmatch_items p) \<le> fnmatchWildcardGroups p \<and>
    list_all (\<lambda>i. \<forall>q. i \<noteq> Maybe q) (fnmatch_items p) \<and> length (fnmatch_items p) \<le> length p"
proof (induction p rule: fnmatch_items.induct)
  case (2 c s)
  have cls: "rx_wildcards (class_items b @ r) = rx_wildcards r" "list_all (\<lambda>i. \<forall>q. i \<noteq> Maybe q) (class_items b)"
    "length (class_items b) \<le> Suc (Suc (length b))" for b r
    by (auto simp: class_items_def literal_i_def)
  let ?t = "dropWhile (\<lambda>x. x \<noteq> CHR '']'') s"
  let ?b = "takeWhile (\<lambda>x. x \<noteq> CHR '']'') s"
  have s: "?b @ ?t = s" by simp
  then have "length s = length ?b + length ?t" by (metis length_append)
  moreover have "fnmatchWildcardGroups (drop 1 t) \<le> fnmatchWildcardGroups t" for t
    unfolding fnmatchWildcardGroups_def by (cases t) auto
  then have "fnmatchWildcardGroups (drop 1 ?t) \<le> fnmatchWildcardGroups ?t" .
  then have "fnmatchWildcardGroups (drop 1 ?t) \<le> fnmatchWildcardGroups (?b @ ?t)"
    unfolding fnmatchWildcardGroups_def filter_append length_append by (rule trans_le_add2)
  ultimately have split: "length s = length ?b + length ?t" "fnmatchWildcardGroups (drop 1 ?t) \<le> fnmatchWildcardGroups s"
    unfolding s by simp_all
  have pos: "CHR '']'' \<in> set s \<Longrightarrow> 0 < length ?t"
    unfolding length_greater_0_conv dropWhile_eq_Nil_conv by blast
  have closed: "CHR '']'' \<in> set s \<Longrightarrow> length (class_items ?b) + length (fnmatch_items (drop 1 ?t)) \<le> Suc (length s)"
    if "length (fnmatch_items (drop 1 ?t)) \<le> length (drop 1 ?t)"
    using split(1) that[unfolded length_drop] cls(3)[of ?b] pos by linarith
  have groups: "fnmatchWildcardGroups (c # s) = (if c = CHR ''*'' then Suc else id) (fnmatchWildcardGroups s)"
    by (simp add: fnmatchWildcardGroups_def)
  show ?case
  proof (cases "c = CHR ''['' \<and> CHR '']'' \<in> set s")
    case True
    then have "rx_wildcards (fnmatch_items (drop 1 ?t)) \<le> fnmatchWildcardGroups s \<and>
      list_all (\<lambda>i. \<forall>q. i \<noteq> Maybe q) (fnmatch_items (drop 1 ?t)) \<and> length (fnmatch_items (drop 1 ?t)) \<le> length (drop 1 ?t)"
      using 2(3) split(2) by fastforce
    then show ?thesis using True closed groups cls by simp
  next
    case False
    then show ?thesis using 2 groups by (auto simp: literal_i_def)
  qed
qed (simp add: fnmatchWildcardGroups_def)

lemma label_search_is_quadratic:
  assumes "compile_label_pattern pattern = Some r"
  shows "rx_cost r label \<le> Suc (length pattern) * Suc (length label) ^ 2"
proof -
  have r: "r = fnmatch_items pattern" "fnmatchWildcardGroups pattern \<le> 2"
    using assms by (auto simp: compile_label_pattern_def MAX_GLOB_WILDCARD_GROUPS_def split: if_splits)
  have "rx_cost r label \<le> cost_bound r label" unfolding r(1) by (rule no_maybe_cost) (use fnmatch_wildcards in blast)
  also have "\<dots> \<le> Suc (length pattern) * Suc (length label) ^ 2"
  proof (rule mult_le_mono)
    have "rx_wildcards r \<le> 2" using fnmatch_wildcards[of pattern] r by simp
    then show "Suc (length label) ^ rx_wildcards r \<le> Suc (length label) ^ 2" by (intro power_increasing) simp_all
  qed (use fnmatch_wildcards[of pattern] r in simp)
  finally show ?thesis .
qed

lemma literal_pattern:
  assumes "list_all (\<lambda>c. c \<notin> set ''*?['') p"
  shows "compile_label_pattern p = Some (map literal_i p)"
proof -
  have "fnmatchWildcardGroups p = 0" using assms
    unfolding fnmatchWildcardGroups_def by (auto simp: list_all_iff filter_empty_conv)
  moreover have "fnmatch_items p = map literal_i p" using assms by (induction p) auto
  ultimately show ?thesis by (simp add: compile_label_pattern_def MAX_GLOB_WILDCARD_GROUPS_def)
qed

lemma literal_matches: "rx_lang (map literal_i p) s \<longleftrightarrow> toLowerCase s = toLowerCase p"
proof (induction p arbitrary: s)
  case Nil
  then show ?case by (auto simp: toLowerCase_def elim: rx_lang_NilE intro: lang_Nil)
next
  case (Cons k p)
  then show ?case by (cases s) (auto simp: toLowerCase_def literal_i_def elim!: rx_lang_OneE intro: lang_One)
qed

lemma labelMatchesPattern_cached: "cache_good cache \<Longrightarrow> snd (labelMatchesPattern cache label pattern) = label_matches label pattern"
  using label_memo.answers[of cache "toLowerCase pattern"]
  by (simp add: labelMatchesPattern_def label_matches_def case_prod_unfold)

text \<open>A label matches a pattern without glob characters exactly when they are equal up to case, whatever the cache
  holds; the search for any admitted pattern is quadratic in the label.\<close>

lemma labelMatchesPattern_literal:
  assumes "cache_good cache" "list_all (\<lambda>c. c \<notin> set ''*?['') (toLowerCase pattern)"
  shows "snd (labelMatchesPattern cache label pattern) \<longleftrightarrow> toLowerCase label = toLowerCase pattern"
  using label_memo.answers[OF assms(1), of "toLowerCase pattern"] literal_pattern[OF assms(2)]
  by (simp add: labelMatchesPattern_def case_prod_unfold rx_test_def rx_full_lang literal_matches)

end
