(* ===== verification/Check_Text.thy ===== *)
theory Check_Text
  imports Js_Regex
begin

text \<open>
  The text of a public check run (\<open>sanitizeForCheckRun\<close>, identical in
  \<open>packages/loopover-engine/src/advisory/gate-advisory.ts\<close> and \<open>src/rules/advisory.ts\<close>): the private vocabulary is
  replaced, blanks are collapsed and the ends trimmed. The alternatives of the expression are the list
  \<open>CHECK_RUN_FORBIDDEN_TERMS\<close> in their order; a match starts and ends at a word boundary and the first alternative
  that matches wins.
\<close>

section \<open>Definitions\<close>

definition opt_s :: "rx list" where
  "opt_s = [Maybe (\<lambda>c. lower_char c = CHR ''s'')]"

definition blanks :: "rx list" where
  "blanks = [One is_ws, Many is_ws]"

definition joint :: "rx list" where
  "joint = [Maybe (\<lambda>c. c = CHR ''-'' \<or> c = CHR ''_'' \<or> is_ws c)]"

definition CHECK_RUN_FORBIDDEN_TERMS :: "rx list list" where
  "CHECK_RUN_FORBIDDEN_TERMS =
    [word_i ''reward'' @ opt_s,
     word_i ''payout'' @ opt_s,
     word_i ''farming'',
     word_i ''estimated'' @ blanks @ word_i ''score'' @ opt_s,
     word_i ''raw'' @ blanks @ word_i ''trust'' @ blanks @ word_i ''score'' @ opt_s,
     word_i ''raw'' @ blanks @ word_i ''trust'',
     word_i ''trust'' @ blanks @ word_i ''score'' @ opt_s,
     word_i ''score'' @ blanks @ word_i ''estimate'' @ opt_s,
     word_i ''reward'' @ blanks @ word_i ''estimate'' @ opt_s,
     word_i ''wallet'' @ opt_s,
     word_i ''hotkey'' @ opt_s,
     word_i ''coldkey'' @ opt_s,
     word_i ''mnemonic'' @ opt_s,
     word_i ''seed'' @ [Maybe is_ws] @ word_i ''phrase'' @ opt_s,
     word_i ''cohort'' @ opt_s,
     word_i ''miner'' @ joint @ word_i ''originated'',
     word_i ''human'' @ joint @ word_i ''originated'',
     word_i ''ranking'' @ opt_s,
     word_i ''reviewability'',
     word_i ''scoreability'',
     word_i ''private'' @ blanks @ word_i ''signal'' @ opt_s,
     word_i ''likely_duplicate'',
     word_i ''reviewability'' @ [Many is_ws, One (\<lambda>c. CHR ''0'' \<le> c \<and> c \<le> CHR ''9'')]]"

text \<open>A match at a position, given the character before it: the text after the match and the last matched character.
  No alternative matches the empty string.\<close>

definition term_ends :: "string \<Rightarrow> string list" where
  "term_ends s = filter (\<lambda>t. length t < length s) (concat (map (\<lambda>r. rx_rests r s) CHECK_RUN_FORBIDDEN_TERMS))"

definition last_matched :: "string \<Rightarrow> string \<Rightarrow> char" where
  "last_matched s t = s ! (length s - length t - 1)"

definition first_match :: "char option \<Rightarrow> string \<Rightarrow> string option" where
  "first_match before s =
     (if boundary before s then find (\<lambda>t. boundary (Some (last_matched s t)) t) (term_ends s) else None)"

lemma first_match_shorter: "first_match before s = Some t \<Longrightarrow> length t < length s"
  by (auto simp: first_match_def term_ends_def find_Some_iff split: if_splits)
     (metis (no_types, lifting) mem_Collect_eq nth_mem set_filter)

function replace_terms :: "char option \<Rightarrow> string \<Rightarrow> string" where
  "replace_terms before [] = []"
| "replace_terms before (c # s) =
     (case first_match before (c # s) of
        None \<Rightarrow> c # replace_terms (Some c) s
      | Some t \<Rightarrow> ''[context]'' @ replace_terms (Some (last_matched (c # s) t)) t)"
  by pat_completeness auto
termination
  by (relation "measure (\<lambda>(b, s). length s)") (auto dest: first_match_shorter)

definition sanitizeForCheckRun :: "string \<Rightarrow> string" where
  "sanitizeForCheckRun text = trim (collapse_ws False (replace_terms None text))"

text \<open>Some forbidden term occurs in a text.\<close>

fun has_term :: "char option \<Rightarrow> string \<Rightarrow> bool" where
  "has_term before [] = False"
| "has_term before (c # s) \<longleftrightarrow> first_match before (c # s) \<noteq> None \<or> has_term (Some c) s"


section \<open>The replacement\<close>

text \<open>The characters an expression can never consume.\<close>

fun item_accepts :: "rx \<Rightarrow> char \<Rightarrow> bool" where
  "item_accepts (One p) c = p c"
| "item_accepts (Maybe p) c = p c"
| "item_accepts (Many p) c = p c"

lemma rx_lang_accepts: "rx_lang r u \<Longrightarrow> c \<in> set u \<Longrightarrow> \<exists>i \<in> set r. item_accepts i c"
  by (induction rule: rx_lang.induct) (auto simp: list_all_iff)

lemma lower_char_letter: "CHR ''a'' \<le> lower_char c \<Longrightarrow> lower_char c \<le> CHR ''z'' \<Longrightarrow> word_char c"
  by (auto simp: lower_char_def word_char_def)

lemma word_i_Cons: "word_i (k # w) = One (\<lambda>c. lower_char c = k) # word_i w"
  by (simp add: word_i_def)

lemma forbidden_no_bracket: "r \<in> set CHECK_RUN_FORBIDDEN_TERMS \<Longrightarrow> rx_lang r u \<Longrightarrow> CHR ''['' \<notin> set u"
proof
  assume r: "r \<in> set CHECK_RUN_FORBIDDEN_TERMS" and u: "rx_lang r u" "CHR ''['' \<in> set u"
  have "list_all (\<lambda>r. list_all (\<lambda>i. \<not> item_accepts i (CHR ''['')) r) CHECK_RUN_FORBIDDEN_TERMS"
    by code_simp
  then show False using rx_lang_accepts[OF u] r by (auto simp: list_all_iff)
qed

lemma forbidden_first:
  "r \<in> set CHECK_RUN_FORBIDDEN_TERMS \<Longrightarrow> \<exists>k q. r = One (\<lambda>c. lower_char c = k) # q \<and> CHR ''a'' \<le> k \<and> k \<le> CHR ''z''"
  by (auto simp: CHECK_RUN_FORBIDDEN_TERMS_def word_i_Cons)

lemma forbidden_starts:
  assumes "r \<in> set CHECK_RUN_FORBIDDEN_TERMS" "rx_lang r v"
  shows "v \<noteq> [] \<and> word_char (hd v)"
proof -
  from forbidden_first[OF assms(1)] obtain k q where r: "r = One (\<lambda>c. lower_char c = k) # q" "CHR ''a'' \<le> k" "k \<le> CHR ''z''"
    by blast
  from assms(2)[unfolded r(1)] r(2,3) show ?thesis by (auto elim!: rx_lang_OneE intro: lower_char_letter)
qed

lemma rx_lang_split: "rx_lang (q @ r) v \<Longrightarrow> \<exists>a b. v = a @ b \<and> rx_lang q a \<and> rx_lang r b"
proof (induction q arbitrary: v)
  case Nil
  then show ?case using lang_Nil by auto
next
  case (Cons i q)
  show ?case
  proof (cases i)
    case (One p)
    then obtain c w where v: "v = c # w" "p c" "rx_lang (q @ r) w" using Cons.prems by (auto elim: rx_lang_OneE)
    then obtain a b where "w = a @ b" "rx_lang q a" "rx_lang r b" using Cons.IH by blast
    then have "v = (c # a) @ b" "rx_lang (i # q) (c # a)" "rx_lang r b" using v One by (auto intro: lang_One)
    then show ?thesis by blast
  next
    case (Maybe p)
    then consider "rx_lang (q @ r) v" | c w where "v = c # w" "p c" "rx_lang (q @ r) w"
      using Cons.prems by (auto elim: rx_lang_MaybeE)
    then show ?thesis
    proof cases
      case 1
      then show ?thesis using Cons.IH[of v] Maybe lang_Skip by blast
    next
      case 2
      then obtain a b where "w = a @ b" "rx_lang q a" "rx_lang r b" using Cons.IH by blast
      then have "v = (c # a) @ b" "rx_lang (i # q) (c # a)" "rx_lang r b" using 2 Maybe by (auto intro: lang_Take)
      then show ?thesis by blast
    qed
  next
    case (Many p)
    then obtain x w where v: "v = x @ w" "list_all p x" "rx_lang (q @ r) w" using Cons.prems by (auto elim: rx_lang_ManyE)
    then obtain a b where "w = a @ b" "rx_lang q a" "rx_lang r b" using Cons.IH by blast
    then have "v = (x @ a) @ b" "rx_lang (i # q) (x @ a)" "rx_lang r b" using v Many by (auto intro: lang_Many)
    then show ?thesis by blast
  qed
qed

text \<open>The classes the last matched character can come from, for a reversed sequence.\<close>

fun enders :: "rx list \<Rightarrow> (char \<Rightarrow> bool) list" where
  "enders [] = []"
| "enders (One p # r) = [p]"
| "enders (Maybe p # r) = p # enders r"
| "enders (Many p # r) = p # enders r"

lemma rx_lang_last: "rx_lang r v \<Longrightarrow> v \<noteq> [] \<Longrightarrow> \<exists>p \<in> set (enders (rev r)). p (last v)"
proof (induction r arbitrary: v rule: rev_induct)
  case Nil
  then show ?case by (auto elim: rx_lang_NilE)
next
  case (snoc i r)
  from rx_lang_split[OF snoc.prems(1)] obtain a b where ab: "v = a @ b" "rx_lang r a" "rx_lang [i] b" by blast
  show ?case
  proof (cases "b = []")
    case True
    then have "\<exists>p. i = Maybe p \<or> i = Many p" using ab(3) by (cases i) (auto elim: rx_lang_OneE)
    moreover have "\<exists>p \<in> set (enders (rev r)). p (last v)" using snoc.IH[OF ab(2)] True ab(1) snoc.prems(2) by simp
    ultimately show ?thesis by auto
  next
    case False
    have "\<exists>p. p (last b) \<and> p \<in> set (enders (i # rev r))"
    proof (cases i)
      case (Many p)
      then have "list_all p b" using ab(3) by (simp add: rx_lang_run)
      then show ?thesis using Many False by (auto simp: list_all_iff intro!: exI[of _ p])
    qed (use ab(3) False in \<open>auto elim!: rx_lang_OneE rx_lang_MaybeE rx_lang_NilE\<close>)
    then show ?thesis using False ab(1) by auto
  qed
qed

lemma forbidden_ends:
  assumes "r \<in> set CHECK_RUN_FORBIDDEN_TERMS" "rx_lang r v"
  shows "word_char (last v)"
proof -
  have letter: "lower_char c = k \<Longrightarrow> CHR ''a'' \<le> k \<Longrightarrow> k \<le> CHR ''z'' \<Longrightarrow> word_char c" for c k
    using lower_char_letter by blast
  have digit: "CHR ''0'' \<le> c \<Longrightarrow> c \<le> CHR ''9'' \<Longrightarrow> word_char c" for c by (simp add: word_char_def)
  have "p \<in> set (enders (rev r)) \<Longrightarrow> p c \<Longrightarrow> word_char c" for p c
    using assms(1) by (auto simp: CHECK_RUN_FORBIDDEN_TERMS_def word_i_def opt_s_def intro: digit) (erule letter; simp)+
  then show ?thesis using rx_lang_last[OF assms(2)] forbidden_starts[OF assms] by blast
qed

lemma term_ends_mem:
  "t \<in> set (term_ends s) \<longleftrightarrow> (\<exists>r \<in> set CHECK_RUN_FORBIDDEN_TERMS. \<exists>v. s = v @ t \<and> rx_lang r v)"
  using forbidden_starts rx_rests_sound rx_rests_complete by (fastforce simp: term_ends_def)

definition term_at :: "char option \<Rightarrow> string \<Rightarrow> string \<Rightarrow> string \<Rightarrow> bool" where
  "term_at before s v t \<longleftrightarrow> s = v @ t \<and> boundary before s \<and> boundary (Some (last v)) t \<and>
     (\<exists>r \<in> set CHECK_RUN_FORBIDDEN_TERMS. rx_lang r v)"

lemma term_at_word:
  "term_at before s v t \<Longrightarrow>
     v \<noteq> [] \<and> word_char (hd v) \<and> word_char (last v) \<and> CHR ''['' \<notin> set v \<and> \<not> is_word before \<and> \<not> is_word (head_of t)"
proof -
  assume a: "term_at before s v t"
  then obtain r where r: "r \<in> set CHECK_RUN_FORBIDDEN_TERMS" "rx_lang r v" by (auto simp: term_at_def)
  note v = forbidden_starts[OF r] forbidden_ends[OF r] forbidden_no_bracket[OF r]
  then have "head_of s = Some (hd v)" using a by (cases v) (auto simp: term_at_def head_of_def)
  then show ?thesis using a v by (auto simp: term_at_def boundary_def is_word_def)
qed

lemma last_matched_append: "v \<noteq> [] \<Longrightarrow> last_matched (v @ t) t = last v"
  by (simp add: last_matched_def nth_append last_conv_nth)

lemma first_match_Some:
  assumes "first_match before s = Some t"
  shows "\<exists>v. term_at before s v t \<and> last_matched s t = last v"
proof -
  from assms have b: "boundary before s" and t: "t \<in> set (term_ends s)" "boundary (Some (last_matched s t)) t"
    by (auto simp: first_match_def find_Some_iff split: if_splits)
  from t(1) obtain r v where v: "r \<in> set CHECK_RUN_FORBIDDEN_TERMS" "s = v @ t" "rx_lang r v"
    unfolding term_ends_mem by blast
  then have "last_matched s t = last v" using forbidden_starts last_matched_append by blast
  then show ?thesis using b t(2) v unfolding term_at_def by auto
qed

lemma first_match_None: "first_match before s = None \<longleftrightarrow> (\<nexists>v t. term_at before s v t)"
proof
  assume none: "first_match before s = None"
  show "\<nexists>v t. term_at before s v t"
  proof
    assume "\<exists>v t. term_at before s v t"
    then obtain v t where vt: "term_at before s v t" by blast
    then have "t \<in> set (term_ends s)" "last_matched s t = last v"
      using term_at_word[OF vt] last_matched_append unfolding term_at_def term_ends_mem by blast+
    then show False using none vt by (auto simp: first_match_def term_at_def find_None_iff split: if_splits)
  qed
next
  assume "\<nexists>v t. term_at before s v t"
  then show "first_match before s = None" using first_match_Some by (metis not_Some_eq)
qed

lemma no_match_at_blank: "\<not> is_word (head_of s) \<Longrightarrow> first_match before s = None"
proof (rule ccontr)
  assume no: "\<not> is_word (head_of s)" and "first_match before s \<noteq> None"
  then obtain v t where vt: "term_at before s v t" unfolding first_match_None by blast
  note term_at_word[OF vt]
  then show False using vt no by (cases v) (auto simp: term_at_def head_of_def is_word_def)
qed

lemma no_match_inside: "is_word before \<Longrightarrow> first_match before s = None"
  using term_at_word unfolding first_match_None by blast

text \<open>Where the output first differs from the input it continues with the marker, after a character that is not part of
  a word.\<close>

definition before_end :: "char option \<Rightarrow> string \<Rightarrow> char option" where
  "before_end before u = (if u = [] then before else Some (last u))"

lemma replace_shape:
  "replace_terms before s = s \<or>
   (\<exists>u x w. s = u @ x \<and> replace_terms before s = u @ CHR ''['' # w \<and> \<not> is_word (before_end before u))"
proof (induction before s rule: replace_terms.induct)
  case (2 before c s)
  show ?case
  proof (cases "first_match before (c # s)")
    case None
    from 2(1)[OF None] show ?thesis
    proof
      assume "\<exists>u x w. s = u @ x \<and> replace_terms (Some c) s = u @ CHR ''['' # w \<and> \<not> is_word (before_end (Some c) u)"
      then obtain u x w where u: "s = u @ x" "replace_terms (Some c) s = u @ CHR ''['' # w"
        "\<not> is_word (before_end (Some c) u)" by blast
      then have "c # s = (c # u) @ x \<and> replace_terms before (c # s) = (c # u) @ CHR ''['' # w \<and>
          \<not> is_word (before_end before (c # u))" using None by (simp add: before_end_def split: if_splits)
      then show ?thesis by blast
    qed (simp add: None)
  next
    case (Some t)
    from first_match_Some[OF this] obtain v where "term_at before (c # s) v t" by blast
    then have "\<not> is_word (before_end before [])" using term_at_word by (simp add: before_end_def)
    moreover have "\<exists>w. replace_terms before (c # s) = CHR ''['' # w" using Some by simp
    ultimately show ?thesis by (metis append_Nil)
  qed
qed simp

lemma no_new_match:
  assumes none: "first_match before (c # s) = None"
  shows "first_match before (c # replace_terms (Some c) s) = None"
proof -
  from replace_shape[of "Some c" s] show ?thesis
  proof
    assume "\<exists>u x w. s = u @ x \<and> replace_terms (Some c) s = u @ CHR ''['' # w \<and> \<not> is_word (before_end (Some c) u)"
    then obtain u x w where s: "s = u @ x" and out: "replace_terms (Some c) s = u @ CHR ''['' # w"
      and u: "\<not> is_word (before_end (Some c) u)" by blast
    have "False" if vt: "term_at before (c # u @ CHR ''['' # w) v t" for v t
    proof -
      note v = term_at_word[OF vt]
      have eq: "(c # u) @ CHR ''['' # w = v @ t" using vt by (simp add: term_at_def)
      have "\<exists>y. c # u = v @ y \<and> t = y @ CHR ''['' # w"
      proof -
        from eq obtain z where "c # u = v @ z \<and> z @ CHR ''['' # w = t \<or> (c # u) @ z = v \<and> CHR ''['' # w = z @ t"
          by (metis append_eq_append_conv2)
        then show ?thesis using v by (cases z) auto
      qed
      then obtain y where y: "c # u = v @ y" "t = y @ CHR ''['' # w" by blast
      show False
      proof (cases y)
        case Nil
        then have "before_end (Some c) u = Some (last v)" using y(1) by (metis append_Nil2 before_end_def last.simps)
        then show ?thesis using u v by (simp add: is_word_def)
      next
        case (Cons d z)
        then have "term_at before (c # s) v (y @ x)"
          using vt y s by (simp add: term_at_def boundary_def head_of_def)
        then show ?thesis using none unfolding first_match_None by blast
      qed
    qed
    then show ?thesis unfolding out first_match_None by blast
  qed (simp add: none)
qed

lemma has_term_blank: "\<not> is_word (head_of s) \<Longrightarrow> has_term before s = has_term before' s"
  by (cases s) (simp_all add: no_match_at_blank)

lemma head_replace: "\<not> is_word (head_of s) \<Longrightarrow> head_of (replace_terms before s) = head_of s"
  using no_match_at_blank[of s before] by (cases s) (simp_all add: head_of_def)

lemma word_i_step: "rx_rests (word_i (k # w) @ r) (c # s) = (if lower_char c = k then rx_rests (word_i w @ r) s else [])"
  by (simp add: word_i_Cons)

lemma no_term_in_marker: "term_ends (''context]'' @ s) = []"
proof -
  have l: "lower_char (CHR ''c'') = CHR ''c''" "lower_char (CHR ''o'') = CHR ''o''" "lower_char (CHR ''n'') = CHR ''n''"
    by (simp_all add: lower_char_def)
  show ?thesis
    by (simp add: term_ends_def CHECK_RUN_FORBIDDEN_TERMS_def word_i_Cons l)
qed

lemma has_term_marker:
  "\<not> is_word (head_of s) \<Longrightarrow> has_term before (''[context]'' @ s) = has_term before' s"
proof -
  assume s: "\<not> is_word (head_of s)"
  have w: "is_word (Some c) \<longleftrightarrow> word_char c" for c by (simp add: is_word_def)
  have "first_match (Some (CHR ''['')) (''context]'' @ s) = None"
    using no_term_in_marker[of s] by (simp add: first_match_def)
  moreover have "has_term (Some (CHR '']'')) s = has_term before' s" by (rule has_term_blank[OF s])
  ultimately show ?thesis
    by (simp add: no_match_at_blank no_match_inside head_of_def w word_char_def)
qed

lemma replace_terms_clean: "\<not> has_term before (replace_terms before s)"
proof (induction before s rule: replace_terms.induct)
  case (2 before c s)
  show ?case
  proof (cases "first_match before (c # s)")
    case None
    then show ?thesis using 2(1)[OF None] no_new_match[OF None] by simp
  next
    case (Some t)
    from first_match_Some[OF this] obtain v where "term_at before (c # s) v t" by blast
    then have "\<not> is_word (head_of t)" using term_at_word by blast
    then have "\<not> is_word (head_of (replace_terms (Some (last_matched (c # s) t)) t))" by (simp add: head_replace)
    then have "has_term before (''[context]'' @ replace_terms (Some (last_matched (c # s) t)) t) =
        has_term (Some (last_matched (c # s) t)) (replace_terms (Some (last_matched (c # s) t)) t)"
      by (rule has_term_marker)
    then show ?thesis using 2(2)[OF Some] Some by (simp only: replace_terms.simps option.case not_False_eq_True)
  qed
qed simp

text \<open>The replacement pass of a public check run removes the private vocabulary completely: whatever the text, no
  forbidden term is left in it, at any position and in any letter case, although replacing shortens and joins the
  text. A text with no forbidden term passes unchanged.\<close>

theorem replaced_text_is_clean:
  "\<not> has_term None (replace_terms None text) \<and> (\<not> has_term None text \<longrightarrow> replace_terms None text = text)"
proof -
  have "\<not> has_term before s \<Longrightarrow> replace_terms before s = s" for before s
    by (induction before s rule: replace_terms.induct) (auto split: option.splits)
  then show ?thesis using replace_terms_clean by blast
qed

theorem replaced_text_is_clean_witness:
  "replace_terms None ''Rewards: raw trust'' = ''[context]: [context]'' \<and> \<not> has_term None ''[context]: [context]''"
proof -
  have "replace_terms None ''Rewards: raw trust'' = ''[context]: [context]''" by code_simp
  then show ?thesis using replaced_text_is_clean[of "''Rewards: raw trust''"] by simp
qed

text \<open>Collapsing blanks after the replacement can reassemble a forbidden term: a text whose two words are separated
  by two blanks is not matched by the replacement, and the collapse then publishes the term.\<close>

theorem collapsing_reassembles_a_term:
  "sanitizeForCheckRun ''seed  phrase'' = ''seed phrase'' \<and> has_term None (sanitizeForCheckRun ''seed  phrase'')"
  by code_simp

end
