(* ===== verification/Gate_Findings.thy ===== *)
theory Gate_Findings
  imports Label_Match Check_Text Self_Plagiarism
begin

text \<open>
  The findings the maintainer gate judges: the records of \<open>packages/loopover-engine/src/types/predicted-gate-types.ts\<close>,
  the duplicate-winner election (\<open>duplicate-winner.ts\<close>), the author association
  (\<open>settings/author-association.ts\<close>), the contributor-license check (\<open>review/cla-check.ts\<close>), the maintainer's
  pre-merge checks (\<open>review/pre-merge-checks.ts\<close>) and the advisory builder of \<open>advisory/gate-advisory.ts\<close>.

  An absent and a null field are both \<open>None\<close>, except where the code tells them apart (\<open>bodyObservedAt\<close> and a check
  run's conclusion, where \<open>Some None\<close> is null). Issue and pull-request numbers are natural numbers.
  \<open>Date.parse\<close> is the parameter \<open>parse_date\<close>; the random identifier and the clock are arguments.
\<close>

section \<open>Data\<close>

datatype AdvisorySeverity = SeverityInfo | SeverityWarning | SeverityCritical

datatype AdvisoryConclusion = AcSuccess | AcNeutral | AcActionRequired

record AdvisoryFinding =
  af_code :: string
  af_title :: string
  af_severity :: AdvisorySeverity
  af_detail :: msg
  af_action :: "string option"
  af_publicText :: "string option"
  af_confidence :: "jsnum option"

definition finding :: "string \<Rightarrow> AdvisorySeverity \<Rightarrow> string \<Rightarrow> msg \<Rightarrow> string option \<Rightarrow> string option \<Rightarrow> AdvisoryFinding" where
  "finding code severity title detail action publicText =
     \<lparr>af_code = code, af_title = title, af_severity = severity, af_detail = detail, af_action = action,
      af_publicText = publicText, af_confidence = None\<rparr>"

datatype AdvisoryTarget = TargetRepository | TargetPullRequest | TargetIssue

record Advisory =
  ad_id :: string
  ad_targetType :: AdvisoryTarget
  ad_targetKey :: string
  ad_repoFullName :: string
  ad_pullNumber :: "nat option"
  ad_issueNumber :: "nat option"
  ad_headSha :: "string option"
  ad_conclusion :: AdvisoryConclusion
  ad_severity :: AdvisorySeverity
  ad_title :: string
  ad_summary :: string
  ad_findings :: "AdvisoryFinding list"
  ad_generatedAt :: string

record RegistryRepoConfig =
  rc_issueDiscoveryShare :: jsnum
  rc_labelMultipliers :: "jsnum jstable"
  rc_maintainerCut :: jsnum

record RepositoryRecord =
  rr_fullName :: string
  rr_isRegistered :: bool
  rr_registryConfig :: "RegistryRepoConfig option"

record PullRequestRecord =
  pr_repoFullName :: string
  pr_number :: nat
  pr_title :: string
  pr_state :: string
  pr_authorLogin :: "string option"
  pr_authorAssociation :: "string option"
  pr_headSha :: "string option"
  pr_mergedAt :: "string option"
  pr_body :: "string option"
  pr_linkedIssueClaimedAt :: "string option"
  pr_bodyObservedAt :: "string option option"
  pr_labels :: "string list"
  pr_linkedIssues :: "nat list"
  pr_changedFiles :: "string list option"


section \<open>The duplicate election\<close>

record DuplicateClaimMember =
  dm_number :: nat
  dm_linkedIssueClaimedAt :: "string option"

definition claimTimeMs :: "(string \<Rightarrow> jsnum) \<Rightarrow> string option \<Rightarrow> jsnum option" where
  "claimTimeMs parse_date value =
     (case value of
        None \<Rightarrow> None
      | Some s \<Rightarrow> if s = [] then None else let parsed = parse_date s in if isFinite parsed then Some parsed else None)"

definition prPrecedesSibling :: "(string \<Rightarrow> jsnum) \<Rightarrow> DuplicateClaimMember \<Rightarrow> DuplicateClaimMember \<Rightarrow> bool" where
  "prPrecedesSibling parse_date pr sibling =
     (case claimTimeMs parse_date (dm_linkedIssueClaimedAt pr) of
        None \<Rightarrow> False
      | Some prClaim \<Rightarrow>
          (case claimTimeMs parse_date (dm_linkedIssueClaimedAt sibling) of
             None \<Rightarrow> False
           | Some siblingClaim \<Rightarrow>
               if num_lt siblingClaim prClaim then False
               else if siblingClaim = prClaim \<and> dm_number sibling < dm_number pr then False
               else True))"

definition isDuplicateClusterWinnerByClaim ::
  "(string \<Rightarrow> jsnum) \<Rightarrow> DuplicateClaimMember \<Rightarrow> DuplicateClaimMember list \<Rightarrow> bool" where
  "isDuplicateClusterWinnerByClaim parse_date pr openSiblings = list_all (prPrecedesSibling parse_date pr) openSiblings"

definition resolveDuplicateClusterWinnerNumber ::
  "(string \<Rightarrow> jsnum) \<Rightarrow> DuplicateClaimMember \<Rightarrow> DuplicateClaimMember list \<Rightarrow> nat option" where
  "resolveDuplicateClusterWinnerNumber parse_date pr openSiblings =
     (if isDuplicateClusterWinnerByClaim parse_date pr openSiblings then Some (dm_number pr)
      else map_option dm_number
        (find (\<lambda>sibling. isDuplicateClusterWinnerByClaim parse_date sibling
                 (pr # filter (\<lambda>other. dm_number other \<noteq> dm_number sibling) openSiblings))
           openSiblings))"


section \<open>Author association\<close>

definition MAINTAINER_AUTHOR_ASSOCIATIONS :: "string list" where
  "MAINTAINER_AUTHOR_ASSOCIATIONS = [''OWNER'', ''MEMBER'', ''COLLABORATOR'']"

datatype AuthorClass = ClassMaintainer | ClassContributor | ClassUnknown

definition isMaintainerAuthorAssociation :: "string option \<Rightarrow> bool" where
  "isMaintainerAuthorAssociation association =
     (case association of
        None \<Rightarrow> False
      | Some a \<Rightarrow> map upper_char (trim a) \<in> set MAINTAINER_AUTHOR_ASSOCIATIONS)"

definition classifyAuthorAssociation :: "string option \<Rightarrow> AuthorClass" where
  "classifyAuthorAssociation association =
     (case association of
        None \<Rightarrow> ClassUnknown
      | Some a \<Rightarrow>
          if trim a = [] then ClassUnknown
          else if isMaintainerAuthorAssociation association then ClassMaintainer else ClassContributor)"


section \<open>The license check\<close>

definition CLA_CONSENT_MISSING_CODE :: string where
  "CLA_CONSENT_MISSING_CODE = ''cla_consent_missing''"

definition CLA_CHECK_UNRESOLVED_CODE :: string where
  "CLA_CHECK_UNRESOLVED_CODE = ''cla_check_unresolved''"

record ClaCheckConfig =
  cla_consentPhrase :: "string option"
  cla_checkRunName :: "string option"

text \<open>\<open>text.includes(part)\<close>.\<close>

definition str_includes :: "string \<Rightarrow> string \<Rightarrow> bool" where
  "str_includes text part \<longleftrightarrow> indexOf part text \<noteq> None"

definition evaluateClaCheck :: "ClaCheckConfig \<Rightarrow> string option \<Rightarrow> string option option \<Rightarrow> AdvisoryFinding list" where
  "evaluateClaCheck config body checkRunConclusion =
     (let consentPhrase = (case cla_consentPhrase config of None \<Rightarrow> None
                           | Some p \<Rightarrow> if trim p \<noteq> [] then Some p else None)
      in if consentPhrase = None \<and> cla_checkRunName config = None then []
         else
           (let phraseSatisfied = (case consentPhrase of None \<Rightarrow> False
                 | Some p \<Rightarrow> str_includes (toLowerCase (or_default body [])) (toLowerCase p));
                checkRunSatisfied = (cla_checkRunName config \<noteq> None \<and>
                  (checkRunConclusion = Some (Some ''success'') \<or> checkRunConclusion = Some (Some ''neutral'')))
            in if phraseSatisfied \<or> checkRunSatisfied then []
               else (case (cla_checkRunName config, checkRunConclusion) of
                  (Some name, None) \<Rightarrow>
                    [finding CLA_CHECK_UNRESOLVED_CODE SeverityWarning
                       (''CLA check held '' @ em_dash @ '' \"'' @ name @ ''\" not resolved'')
                       (lit (''LoopOver could not resolve the \"'' @ name @
                          ''\" check-run's conclusion for this PR; the gate is held and re-evaluates automatically.''))
                       (Some (''No action needed '' @ em_dash @
                          '' the gate re-evaluates once the check-run's conclusion is available.'')) None]
                | _ \<Rightarrow>
                    let missing =
                      (case consentPhrase of None \<Rightarrow> []
                       | Some p \<Rightarrow> [''the PR description must contain \"'' @ p @ ''\"'']) @
                      (case cla_checkRunName config of None \<Rightarrow> []
                       | Some name \<Rightarrow> [''the \"'' @ name @ ''\" check must pass''])
                    in [finding CLA_CONSENT_MISSING_CODE SeverityWarning ''CLA consent not confirmed''
                         (lit (''This PR does not confirm contributor license agreement consent: '' @
                            str_join '' or '' missing @ ''.''))
                         (Some ''Add the required CLA consent phrase to the PR description, or complete the CLA check, then re-run the gate.'')
                         None])))"


section \<open>Pre-merge checks\<close>

definition PRE_MERGE_CHECK_ADVISORY_CODE :: string where
  "PRE_MERGE_CHECK_ADVISORY_CODE = ''pre_merge_check_failed''"

definition PRE_MERGE_CHECK_BLOCKING_CODE :: string where
  "PRE_MERGE_CHECK_BLOCKING_CODE = ''pre_merge_check_required''"

definition PRE_MERGE_CHECK_UNRESOLVED_CODE :: string where
  "PRE_MERGE_CHECK_UNRESOLVED_CODE = ''pre_merge_check_unresolved''"

record PreMergeCheck =
  pm_name :: string
  pm_whenPaths :: "string list"
  pm_titleContains :: "string option"
  pm_descriptionContains :: "string option"
  pm_requireLabel :: "string option"
  pm_enforce :: bool

record PreMergeContext =
  px_title :: "string option"
  px_body :: "string option"
  px_labels :: "string list option"
  px_changedPaths :: "string list"
  px_filesResolved :: "bool option"

definition unmet_assertions :: "PreMergeCheck \<Rightarrow> PreMergeContext \<Rightarrow> string list" where
  "unmet_assertions check ctx =
     (let title = toLowerCase (or_default (px_title ctx) []);
          body = toLowerCase (or_default (px_body ctx) []);
          labels = map toLowerCase (or_default (px_labels ctx) [])
      in (case pm_titleContains check of None \<Rightarrow> []
          | Some t \<Rightarrow> if \<not> str_includes title (toLowerCase t) then [''the title must contain \"'' @ t @ ''\"''] else []) @
         (case pm_descriptionContains check of None \<Rightarrow> []
          | Some d \<Rightarrow> if \<not> str_includes body (toLowerCase d) then [''the description must contain \"'' @ d @ ''\"''] else []) @
         (case pm_requireLabel check of None \<Rightarrow> []
          | Some l \<Rightarrow> if toLowerCase l \<notin> set labels then [''the \"'' @ l @ ''\" label must be applied''] else []))"

definition evaluate_check :: "PreMergeContext \<Rightarrow> PreMergeCheck \<Rightarrow> AdvisoryFinding list" where
  "evaluate_check ctx check =
     (let judged =
        (let unmet = unmet_assertions check ctx
         in if unmet = [] then []
            else [finding (if pm_enforce check then PRE_MERGE_CHECK_BLOCKING_CODE else PRE_MERGE_CHECK_ADVISORY_CODE)
                    (if pm_enforce check then SeverityCritical else SeverityWarning)
                    (''Pre-merge check not satisfied: '' @ pm_name check)
                    (lit (''This PR does not satisfy the maintainer pre-merge check \"'' @ pm_name check @ ''\": '' @
                       str_join ''; '' unmet @ ''.''))
                    (Some ''Update the PR to satisfy the check, then re-run the gate.'') None])
      in if pm_whenPaths check \<noteq> []
         then (if \<not> or_default (px_filesResolved ctx) True
               then (if pm_enforce check
                     then [finding PRE_MERGE_CHECK_UNRESOLVED_CODE SeverityWarning
                             (''Pre-merge check held '' @ em_dash @ '' changed files not resolved: '' @ pm_name check)
                             (lit (''LoopOver could not resolve this PR's changed files to evaluate the path-gated check \"'' @
                                pm_name check @ ''\"; the gate is held and re-evaluates automatically.''))
                             (Some (''No action needed '' @ em_dash @
                                '' the gate re-evaluates once the PR's files are available.'')) None]
                     else [])
               else if list_ex (\<lambda>path. list_ex (matchesManifestPath path) (pm_whenPaths check)) (px_changedPaths ctx)
               then judged else [])
         else judged)"

definition evaluatePreMergeChecks :: "PreMergeCheck list \<Rightarrow> PreMergeContext \<Rightarrow> AdvisoryFinding list" where
  "evaluatePreMergeChecks checks ctx = concat (map (evaluate_check ctx) checks)"


section \<open>The pull-request advisory\<close>

record AdvisoryContext =
  cx_otherOpenPullRequests :: "PullRequestRecord list"
  cx_requireLinkedIssue :: bool
  cx_duplicateWinnerEnabled :: bool
  cx_linkedIssueAuthorLogins :: "string option list"
  cx_confirmedNoOpenLinkedIssue :: bool
  cx_supersededBy :: "(nat \<times> nat) option"

definition addRepoFindings :: "RepositoryRecord \<Rightarrow> AdvisoryFinding list" where
  "addRepoFindings repo =
     (if \<not> rr_isRegistered repo
      then [finding ''repo_unregistered'' SeverityWarning ''Repository is not registered in the latest snapshot''
              (lit ''This repository is installed in LoopOver, but the latest registry snapshot does not include it.'')
              (Some ''Verify repository registration before relying on Gittensor-specific signals.'') None]
      else (case rr_registryConfig repo of
          None \<Rightarrow> [finding ''repo_config_missing'' SeverityWarning ''Repository config was not parsed''
              (lit ''The repository appears in the registry, but its config was not available in normalized form.'') None None]
        | Some config \<Rightarrow>
            (if rc_issueDiscoveryShare config = Fin 0
             then [finding ''issue_discovery_disabled'' SeverityInfo ''Issue discovery is disabled for this repo''
                     (lit ''The current Gittensor registry config routes this repository away from issue-discovery work.'') None
                     (Some ''This repo is configured for direct contribution review rather than issue-discovery flow.'')]
             else if rc_issueDiscoveryShare config = Fin 1
             then [finding ''direct_pr_pool_disabled'' SeverityInfo ''Direct PR scoring is disabled for this repo''
                     (lit ''The current Gittensor registry config routes this repository fully toward issue-discovery work.'') None
                     (Some ''This repo is configured around issue-discovery flow. Maintainers should review PR expectations manually.'')]
             else []) @
            (if num_lt (Fin 0) (rc_maintainerCut config)
             then [finding ''maintainer_cut_enabled'' SeverityInfo ''Maintainer allocation is configured''
                     (lit ''This repo has a maintainer allocation configured in the registry.'') None None]
             else [])))"

definition hasDuplicateOverlapCorroboration :: "PullRequestRecord \<Rightarrow> PullRequestRecord \<Rightarrow> bool" where
  "hasDuplicateOverlapCorroboration pr otherPr =
     (let mineFiles = or_default (pr_changedFiles pr) []; theirsFiles = or_default (pr_changedFiles otherPr) []
      in if mineFiles \<noteq> [] \<and> theirsFiles \<noteq> [] \<and> list_ex (\<lambda>path. path \<in> set mineFiles) theirsFiles then True
         else theirsFiles \<noteq> [])"

definition claim_member :: "PullRequestRecord \<Rightarrow> DuplicateClaimMember" where
  "claim_member pr = \<lparr>dm_number = pr_number pr, dm_linkedIssueClaimedAt = pr_linkedIssueClaimedAt pr\<rparr>"

definition overlaps :: "PullRequestRecord \<Rightarrow> PullRequestRecord \<Rightarrow> bool" where
  "overlaps pr otherPr = list_ex (\<lambda>issueNumber. issueNumber \<in> set (pr_linkedIssues pr)) (pr_linkedIssues otherPr)"

definition pr_numbers :: "PullRequestRecord list \<Rightarrow> string" where
  "pr_numbers prs = str_join '', '' (map (\<lambda>p. ''#'' @ show_nat (pr_number p)) prs)"

definition noLinkedIssueCited :: "PullRequestRecord \<Rightarrow> bool" where
  "noLinkedIssueCited pr \<longleftrightarrow> pr_linkedIssues pr = [] \<and> pr_bodyObservedAt pr \<noteq> Some None"

definition linked_issue_findings :: "PullRequestRecord \<Rightarrow> AdvisoryContext \<Rightarrow> AdvisoryFinding list" where
  "linked_issue_findings pr signals =
     (case cx_supersededBy signals of
        Some (issueNumber, rival) \<Rightarrow>
          [finding ''linked_issue_superseded'' SeverityWarning ''Superseded by a merged pull request''
             (lit (''Issue #'' @ show_nat issueNumber @ '' was closed by #'' @ show_nat rival @
                '', which merged after this pull request opened. The work this pull request targets is already on the default branch.''))
             (Some (''Nothing is wrong with the issue link. If part of this pull request is still unaddressed by #'' @
                show_nat rival @ '', open a new issue describing what remains.'')) None]
      | None \<Rightarrow>
          [finding ''missing_linked_issue'' SeverityWarning ''No linked issue detected''
             (lit (if noLinkedIssueCited pr
                   then ''No closing reference or linked issue number was found in the PR metadata/body.''
                   else ''The PR cites an issue number, but it could not be verified as a currently open issue.''))
             (Some ''If this PR is intended to solve an issue, link it explicitly in the PR body.'') None])"

definition duplicate_findings ::
  "(string \<Rightarrow> jsnum) \<Rightarrow> PullRequestRecord \<Rightarrow> AdvisoryContext \<Rightarrow> AdvisoryFinding list" where
  "duplicate_findings parse_date pr signals =
     (let overlappingPrs = filter (overlaps pr) (cx_otherOpenPullRequests signals)
      in if overlappingPrs \<noteq> [] \<and>
            \<not> (cx_duplicateWinnerEnabled signals \<and>
               isDuplicateClusterWinnerByClaim parse_date (claim_member pr) (map claim_member overlappingPrs))
         then
           (let corroboratedPrs = filter (hasDuplicateOverlapCorroboration pr) overlappingPrs;
                uncorroboratedPrs = filter (\<lambda>otherPr. \<not> hasDuplicateOverlapCorroboration pr otherPr) overlappingPrs
            in (if corroboratedPrs \<noteq> []
                then [finding ''duplicate_pr_risk'' SeverityWarning
                        ''Linked issue overlaps another open PR with corroborating changes''
                        (lit (''Other open pull requests reference the same linked issue set AND show corroborating changed-file overlap or a non-trivial diff: '' @
                           pr_numbers corroboratedPrs @ ''.''))
                        (Some ''This looks like a genuine race for the same issue. Coordinate with the other contributor, or wait for a maintainer to triage before assuming priority.'')
                        None]
                else []) @
               (if uncorroboratedPrs \<noteq> []
                then [finding ''duplicate_pr_risk_unconfirmed'' SeverityInfo
                        ''Linked issue is also cited by another open PR''
                        (lit (''Other open pull requests cite the same linked issue number, with no corroborating changed-file evidence yet: '' @
                           pr_numbers uncorroboratedPrs @ ''.''))
                        (Some (''This may be coincidental, or an early race that hasn't produced comparable code yet '' @ em_dash @
                           '' verify manually before assuming it's a genuine duplicate.''))
                        None]
                else []))
         else [])"

definition self_authored :: "PullRequestRecord \<Rightarrow> string option list \<Rightarrow> bool" where
  "self_authored pr logins \<longleftrightarrow>
     pr_linkedIssues pr \<noteq> [] \<and> or_default (pr_authorLogin pr) [] \<noteq> [] \<and>
     list_ex (\<lambda>login. case login of None \<Rightarrow> False
                | Some l \<Rightarrow> toLowerCase l = toLowerCase (or_default (pr_authorLogin pr) [])) logins"

definition addPullRequestFindings ::
  "(string \<Rightarrow> jsnum) \<Rightarrow> RepositoryRecord option \<Rightarrow> PullRequestRecord \<Rightarrow> AdvisoryContext \<Rightarrow> AdvisoryFinding list" where
  "addPullRequestFindings parse_date repo pr signals =
     (if pr_state pr \<noteq> ''open''
      then [finding ''pr_not_open'' SeverityInfo ''Pull request is not open''
              (lit (''The pull request state is '' @ pr_state pr @ ''.'')) None None]
      else []) @
     (if (noLinkedIssueCited pr \<or> cx_confirmedNoOpenLinkedIssue signals) \<and> cx_requireLinkedIssue signals
      then linked_issue_findings pr signals else duplicate_findings parse_date pr signals) @
     (if self_authored pr (cx_linkedIssueAuthorLogins signals)
      then [finding ''self_authored_linked_issue'' SeverityWarning ''PR author also opened the linked issue''
              (lit ''The contributor who opened this PR also filed the linked issue. This pattern can indicate artificial issue-discovery work rather than solving an independently discovered problem.'')
              (Some ''Link an issue that was opened by a different contributor, or provide a rationale for why this self-authored issue represents genuine discovery work.'')
              None]
      else []) @
     (if 10 \<le> length (cx_otherOpenPullRequests signals)
      then [finding ''busy_pr_queue'' SeverityInfo ''Review queue is busy''
              (lit (''LoopOver has '' @ show_nat (length (cx_otherOpenPullRequests signals)) @
                 '' other open pull requests cached for this repository.'')) None
              (Some ''This repo has a busy review queue in the local LoopOver cache.'')]
      else []) @
     (let multiplierPatterns = (case repo of None \<Rightarrow> []
            | Some r \<Rightarrow> (case rr_registryConfig r of None \<Rightarrow> [] | Some c \<Rightarrow> map fst (rc_labelMultipliers c)));
          matchedLabels = filter (\<lambda>label. list_ex (label_matches label) multiplierPatterns) (pr_labels pr)
      in if matchedLabels \<noteq> []
         then [finding ''label_context_found'' SeverityInfo ''Configured label context found''
                 (lit (''Matched configured labels: '' @ str_join '', '' matchedLabels @ ''.'')) None None]
         else []) @
     (if isMaintainerAuthorAssociation (pr_authorAssociation pr)
      then [finding ''maintainer_authored_pr'' SeverityInfo ''PR author has maintainer association''
              (lit ''GitHub marks this PR author as owner, member, or collaborator for the repository.'') None
              (Some ''This PR appears to come from a maintainer-associated account.'')]
      else [])"

definition highestSeverity :: "AdvisoryFinding list \<Rightarrow> AdvisorySeverity" where
  "highestSeverity findings =
     (if list_ex (\<lambda>f. af_severity f = SeverityCritical) findings then SeverityCritical
      else if list_ex (\<lambda>f. af_severity f = SeverityWarning) findings then SeverityWarning
      else SeverityInfo)"

definition conclusionForSeverity :: "AdvisorySeverity \<Rightarrow> AdvisoryFinding list \<Rightarrow> AdvisoryConclusion" where
  "conclusionForSeverity severity findings =
     (if list_ex (\<lambda>f. af_code f = ''repo_unregistered'' \<or> af_code f = ''repo_not_seen'') findings then AcActionRequired
      else if severity = SeverityWarning then AcNeutral
      else if severity = SeverityCritical then AcActionRequired
      else AcSuccess)"

definition advisory ::
  "string \<Rightarrow> string \<Rightarrow> AdvisoryTarget \<Rightarrow> string \<Rightarrow> string \<Rightarrow> AdvisoryFinding list \<Rightarrow> string \<Rightarrow>
   nat option \<Rightarrow> nat option \<Rightarrow> string option \<Rightarrow> Advisory" where
  "advisory uuid now targetType targetKey repoFullName findings fallbackSummary pullNumber issueNumber headSha =
     (let severity = highestSeverity findings; conclusion = conclusionForSeverity severity findings
      in \<lparr>ad_id = uuid, ad_targetType = targetType, ad_targetKey = targetKey, ad_repoFullName = repoFullName,
          ad_pullNumber = pullNumber, ad_issueNumber = issueNumber, ad_headSha = headSha,
          ad_conclusion = conclusion, ad_severity = severity,
          ad_title = (if conclusion = AcSuccess then ''LoopOver advisory passed'' else ''LoopOver advisory available''),
          ad_summary = (if 0 < length findings
             then show_nat (length findings) @ '' advisory finding'' @ (if length findings = 1 then [] else ''s'') @ '' generated.''
             else fallbackSummary),
          ad_findings = findings, ad_generatedAt = now\<rparr>)"

definition buildPullRequestAdvisory ::
  "(string \<Rightarrow> jsnum) \<Rightarrow> string \<Rightarrow> string \<Rightarrow> RepositoryRecord option \<Rightarrow> PullRequestRecord option \<Rightarrow> AdvisoryContext \<Rightarrow> Advisory" where
  "buildPullRequestAdvisory parse_date uuid now repo pr context =
     (let repoFullName = (case pr of Some p \<Rightarrow> pr_repoFullName p
            | None \<Rightarrow> (case repo of Some r \<Rightarrow> rr_fullName r | None \<Rightarrow> ''unknown/unknown''));
          targetKey = repoFullName @ ''#'' @ (case pr of Some p \<Rightarrow> show_nat (pr_number p) | None \<Rightarrow> ''unknown'');
          repoFindings = (case repo of
              None \<Rightarrow> [finding ''repo_not_cached'' SeverityWarning ''Repository is not yet cached''
                (lit ''LoopOver has not synced this repository yet, so repo-specific rules cannot be evaluated.'')
                (Some ''Wait for the next repo sync, or re-deliver the installation webhook.'') None]
            | Some r \<Rightarrow> addRepoFindings r);
          prFindings = (case pr of
              None \<Rightarrow> [finding ''pr_not_cached'' SeverityWarning ''Pull request is not cached''
                (lit ''The GitHub webhook or manual fetch has not recorded this pull request yet.'')
                (Some ''Re-deliver the webhook or wait for the next sync.'') None]
            | Some p \<Rightarrow> addPullRequestFindings parse_date repo p context)
      in advisory uuid now TargetPullRequest targetKey repoFullName (repoFindings @ prFindings)
           ''Pull request advisory generated.'' (map_option pr_number pr) None
           (case pr of None \<Rightarrow> None | Some p \<Rightarrow> pr_headSha p))"


section \<open>One winner per duplicate cluster\<close>

abbreviation claimed :: "(string \<Rightarrow> jsnum) \<Rightarrow> DuplicateClaimMember \<Rightarrow> jsnum option" where
  "claimed parse_date m \<equiv> claimTimeMs parse_date (dm_linkedIssueClaimedAt m)"

lemma claimTimeMs_Fin: "claimTimeMs parse_date v = Some t \<Longrightarrow> \<exists>q. t = Fin q"
  unfolding isFinite_iff[symmetric] by (auto simp: claimTimeMs_def Let_def split: option.splits if_splits)

lemma prPrecedesSibling_iff:
  "prPrecedesSibling parse_date a b \<longleftrightarrow>
     (\<exists>p q. claimed parse_date a = Some (Fin p) \<and> claimed parse_date b = Some (Fin q) \<and>
            (p < q \<or> p = q \<and> dm_number a \<le> dm_number b))"
proof (cases "claimed parse_date a"; cases "claimed parse_date b")
  fix s t assume st: "claimed parse_date a = Some s" "claimed parse_date b = Some t"
  then obtain p q where "s = Fin p" "t = Fin q" using claimTimeMs_Fin by metis
  then show ?thesis using st by (auto simp: prPrecedesSibling_def)
qed (auto simp: prPrecedesSibling_def)

abbreviation claims_first :: "(string \<Rightarrow> jsnum) \<Rightarrow> DuplicateClaimMember \<Rightarrow> DuplicateClaimMember \<Rightarrow> bool" where
  "claims_first parse_date a b \<equiv> prPrecedesSibling parse_date a b \<and> \<not> prPrecedesSibling parse_date b a"

interpretation duplicate_election: election "claims_first parse_date" for parse_date
proof
  fix a b c
  show "claims_first parse_date a b \<Longrightarrow> \<not> claims_first parse_date b a" by blast
  show "claims_first parse_date a b \<Longrightarrow> claims_first parse_date b c \<Longrightarrow> claims_first parse_date a c"
    unfolding prPrecedesSibling_iff by auto
qed

lemma precedes_trans:
  "prPrecedesSibling pd a b \<Longrightarrow> prPrecedesSibling pd b c \<Longrightarrow> prPrecedesSibling pd a c"
  by (auto simp: prPrecedesSibling_iff)

lemma precedes_total:
  "claimed pd a \<noteq> None \<Longrightarrow> claimed pd b \<noteq> None \<Longrightarrow> prPrecedesSibling pd a b \<or> prPrecedesSibling pd b a"
proof -
  assume "claimed pd a \<noteq> None" "claimed pd b \<noteq> None"
  then obtain p q where "claimed pd a = Some (Fin p)" "claimed pd b = Some (Fin q)" using claimTimeMs_Fin by blast
  then show ?thesis by (cases p q rule: linorder_cases) (auto simp: prPrecedesSibling_iff)
qed

lemma precedes_strict: "prPrecedesSibling pd a b \<Longrightarrow> dm_number a \<noteq> dm_number b \<Longrightarrow> claims_first pd a b"
  by (auto simp: prPrecedesSibling_iff)

lemma first_claimant:
  "ms \<noteq> [] \<Longrightarrow> \<forall>m \<in> set ms. claimed pd m \<noteq> None \<Longrightarrow> \<exists>w \<in> set ms. \<forall>m \<in> set ms. prPrecedesSibling pd w m"
proof (induction ms)
  case (Cons a ms)
  show ?case
  proof (cases ms)
    case Nil
    then show ?thesis using Cons.prems precedes_total[of pd a a] by auto
  next
    case (Cons b bs)
    then obtain w where w: "w \<in> set ms" "\<forall>m \<in> set ms. prPrecedesSibling pd w m" using Cons.IH Cons.prems by auto
    have a: "claimed pd a \<noteq> None" "claimed pd w \<noteq> None" using Cons.prems w(1) by auto
    from precedes_total[OF a] show ?thesis
    proof
      assume "prPrecedesSibling pd a w"
      then have "prPrecedesSibling pd a m" if "m \<in> set ms" for m using w(2) that precedes_trans by blast
      moreover have "prPrecedesSibling pd a a" using precedes_total[OF a(1) a(1)] by blast
      ultimately show ?thesis by (intro bexI[of _ a]) auto
    next
      assume "prPrecedesSibling pd w a"
      then show ?thesis using w by (intro bexI[of _ w]) auto
    qed
  qed
qed simp

abbreviation siblings :: "DuplicateClaimMember list \<Rightarrow> DuplicateClaimMember \<Rightarrow> DuplicateClaimMember list" where
  "siblings ms m \<equiv> filter (\<lambda>o'. dm_number o' \<noteq> dm_number m) ms"

lemma winner_iff: "isDuplicateClusterWinnerByClaim pd m (siblings ms m) \<longleftrightarrow>
    (\<forall>b \<in> set ms. dm_number b \<noteq> dm_number m \<longrightarrow> prPrecedesSibling pd m b)"
  by (auto simp: isDuplicateClusterWinnerByClaim_def list_all_iff)

lemma at_most_one:
  assumes "isDuplicateClusterWinnerByClaim pd a (siblings ms a)" "isDuplicateClusterWinnerByClaim pd b (siblings ms b)"
    and "a \<in> set ms" "b \<in> set ms"
  shows "dm_number a = dm_number b"
proof (rule ccontr)
  assume ne: "dm_number a \<noteq> dm_number b"
  have "list_all (claims_first pd a) (siblings ms a)" "list_all (claims_first pd b) (siblings ms b)"
    using assms(1,2) precedes_strict unfolding isDuplicateClusterWinnerByClaim_def list_all_iff by force+
  then show False using duplicate_election.at_most_one_winner[of pd a "siblings ms a" b "siblings ms b"] assms ne by simp
qed

lemma winner_seen_from:
  assumes "distinct (map dm_number ms)" "m \<in> set ms"
  shows "resolveDuplicateClusterWinnerNumber pd m (siblings ms m) =
    map_option dm_number (find (\<lambda>w. isDuplicateClusterWinnerByClaim pd w (siblings ms w)) (m # siblings ms m))"
proof -
  have inj: "a \<in> set ms \<Longrightarrow> b \<in> set ms \<Longrightarrow> dm_number a = dm_number b \<Longrightarrow> a = b" for a b
    using assms(1) by (meson distinct_map inj_onD)
  have "isDuplicateClusterWinnerByClaim pd w (m # siblings (siblings ms m) w) \<longleftrightarrow>
      isDuplicateClusterWinnerByClaim pd w (siblings ms w)" if "w \<in> set (siblings ms m)" for w
    using that assms(2) inj unfolding isDuplicateClusterWinnerByClaim_def list_all_iff by (auto; metis)
  then have "find (\<lambda>w. isDuplicateClusterWinnerByClaim pd w (m # siblings (siblings ms m) w)) (siblings ms m) =
      find (\<lambda>w. isDuplicateClusterWinnerByClaim pd w (siblings ms w)) (siblings ms m)"
    by (intro find_cong) auto
  then show ?thesis by (simp add: resolveDuplicateClusterWinnerNumber_def)
qed

lemma find_only: "w \<in> set xs \<Longrightarrow> (\<And>x. x \<in> set xs \<Longrightarrow> P x \<longleftrightarrow> x = w) \<Longrightarrow> find P xs = Some w"
  by (induction xs) auto

lemma unknown_claim_no_winner:
  assumes "distinct (map dm_number ms)" "2 \<le> length ms" "m \<in> set ms" "u \<in> set ms" "claimed pd u = None"
  shows "\<not> isDuplicateClusterWinnerByClaim pd m (siblings ms m)"
proof -
  have inj: "a \<in> set ms \<Longrightarrow> b \<in> set ms \<Longrightarrow> dm_number a = dm_number b \<Longrightarrow> a = b" for a b
    using assms(1) by (meson distinct_map inj_onD)
  have "card (set ms) = length ms" using assms(1) by (simp add: distinct_card distinct_map)
  then have "set ms \<noteq> {m}" using assms(2) by auto
  then obtain b where "b \<in> set ms" "b \<noteq> m" using assms(3) by blast
  then have b: "b \<in> set ms" "dm_number b \<noteq> dm_number m" using inj assms(3) by blast+
  show ?thesis
  proof (cases "u = m")
    case True
    then show ?thesis using b assms(5) by (auto simp: winner_iff prPrecedesSibling_iff)
  next
    case False
    then have "dm_number u \<noteq> dm_number m" using inj assms(3,4) by blast
    then show ?thesis using assms(4,5) by (auto simp: winner_iff prPrecedesSibling_iff)
  qed
qed

text \<open>C18: The duplicate election names exactly one winner, and every member of the cluster agrees on it. In a cluster of
  open pull requests with distinct numbers whose claim times are all known, exactly one member wins against its
  siblings, and the winner computed from any member's point of view is that one; if the claim time of some member of
  a cluster of two or more is unknown, nobody wins and no winner is named.\<close>

theorem duplicate_cluster_has_one_winner:
  assumes "distinct (map dm_number ms)" "ms \<noteq> []"
  shows "if \<forall>m \<in> set ms. claimed pd m \<noteq> None
    then \<exists>w \<in> set ms. \<forall>m \<in> set ms.
           isDuplicateClusterWinnerByClaim pd m (siblings ms m) = (m = w) \<and>
           resolveDuplicateClusterWinnerNumber pd m (siblings ms m) = Some (dm_number w)
    else 2 \<le> length ms \<longrightarrow> (\<forall>m \<in> set ms.
           \<not> isDuplicateClusterWinnerByClaim pd m (siblings ms m) \<and>
           resolveDuplicateClusterWinnerNumber pd m (siblings ms m) = None)"
proof -
  let ?wins = "\<lambda>m. isDuplicateClusterWinnerByClaim pd m (siblings ms m)"
  have inj: "a \<in> set ms \<Longrightarrow> b \<in> set ms \<Longrightarrow> dm_number a = dm_number b \<Longrightarrow> a = b" for a b
    using assms(1) by (meson distinct_map inj_onD)
  have members: "set (m # siblings ms m) = set ms" if "m \<in> set ms" for m using that inj by auto
  show ?thesis
  proof (cases "\<forall>m \<in> set ms. claimed pd m \<noteq> None")
    case True
    from first_claimant[OF assms(2) True] obtain w where w: "w \<in> set ms" "\<forall>m \<in> set ms. prPrecedesSibling pd w m" by blast
    then have "?wins w" by (simp add: winner_iff)
    then have wins: "?wins m \<longleftrightarrow> m = w" if "m \<in> set ms" for m using at_most_one[of pd m ms w] inj that w(1) by blast
    have "find ?wins (m # siblings ms m) = Some w" if m: "m \<in> set ms" for m
      by (rule find_only) (use members[OF m] w(1) wins in blast)+
    then have "\<forall>m \<in> set ms. ?wins m = (m = w) \<and>
        resolveDuplicateClusterWinnerNumber pd m (siblings ms m) = Some (dm_number w)"
      using wins winner_seen_from[OF assms(1)] by simp
    then show ?thesis unfolding if_P[OF True] using w(1) by blast
  next
    case False
    then obtain u where u: "u \<in> set ms" "claimed pd u = None" by blast
    have no: "\<not> ?wins m" if "m \<in> set ms" "2 \<le> length ms" for m
      using unknown_claim_no_winner[OF assms(1) that(2,1) u] .
    have "find ?wins (m # siblings ms m) = None" if m: "m \<in> set ms" and two: "2 \<le> length ms" for m
      unfolding find_None_iff members[OF m] using no two by blast
    then show ?thesis unfolding if_not_P[OF False] using no winner_seen_from[OF assms(1)] by simp
  qed
qed

theorem duplicate_cluster_has_one_winner_witness:
  "\<exists>w \<in> {7, 9}. \<forall>m \<in> {7, 9}. resolveDuplicateClusterWinnerNumber (\<lambda>s. Fin 5)
     \<lparr>dm_number = m, dm_linkedIssueClaimedAt = Some ''t''\<rparr> [\<lparr>dm_number = 16 - m, dm_linkedIssueClaimedAt = Some ''t''\<rparr>] = Some w"
proof -
  let ?a = "\<lparr>dm_number = 7, dm_linkedIssueClaimedAt = Some ''t''\<rparr>" and ?b = "\<lparr>dm_number = 9, dm_linkedIssueClaimedAt = Some ''t''\<rparr>"
  have "\<forall>m \<in> set [?a, ?b]. claimed (\<lambda>s. Fin 5) m \<noteq> None" by (simp add: claimTimeMs_def)
  then have "\<exists>w \<in> set [?a, ?b]. \<forall>m \<in> set [?a, ?b].
      resolveDuplicateClusterWinnerNumber (\<lambda>s. Fin 5) m (siblings [?a, ?b] m) = Some (dm_number w)"
    using duplicate_cluster_has_one_winner[of "[?a, ?b]" "\<lambda>s. Fin 5"] by (simp split: if_splits) blast
  then show ?thesis by auto
qed

end
