(* ===== verification/Gate_Check.thy ===== *)
theory Gate_Check
  imports Gate_Findings Self_Review
begin

text \<open>
  The gate decision (\<open>packages/loopover-engine/src/advisory/gate-advisory.ts\<close>): from an advisory's findings and the
  repository's policy to the conclusion posted on the pull request.

  A gate mode is the string the policy carries, \<open>None\<close> where it is absent; a value that is none of the three modes is
  kept, because the code fails closed on it. The tests \<open>blockers.includes(finding)\<close> compare objects: a finding of the
  advisory is in the list of blockers exactly when the blocker filter selected it, and the warnings the gate builds
  itself never are, so the test is written with the filter's predicate.
\<close>

section \<open>Policy and evaluation\<close>

definition LOOPOVER_GATE_CHECK_NAME :: string where
  "LOOPOVER_GATE_CHECK_NAME = ''LoopOver Orb Review Agent''"

definition REVIEW_THREAD_BLOCKER_CODE :: string where
  "REVIEW_THREAD_BLOCKER_CODE = ''review_thread_unresolved''"

definition DEFAULT_AI_REVIEW_CLOSE_CONFIDENCE :: jsnum where
  "DEFAULT_AI_REVIEW_CLOSE_CONFIDENCE = Fin (93 / 100)"

definition CONFIDENCE_WHEN_UNSTATED :: jsnum where
  "CONFIDENCE_WHEN_UNSTATED = Fin (1 / 2)"

definition DEFAULT_SLOP_BLOCK_THRESHOLD :: jsnum where
  "DEFAULT_SLOP_BLOCK_THRESHOLD = Fin 60"

record GateCheckPolicy =
  gp_linkedIssueGateMode :: "string option"
  gp_duplicatePrGateMode :: "string option"
  gp_qualityGateMode :: "string option"
  gp_qualityGateMinScore :: "jsnum option"
  gp_aiReviewGateMode :: "string option"
  gp_aiReviewCloseConfidence :: "jsnum option"
  gp_aiReviewLowConfidenceDisposition :: "string option"
  gp_readinessScore :: "jsnum option"
  gp_slopGateMode :: "string option"
  gp_slopGateMinScore :: "jsnum option"
  gp_slopRisk :: "jsnum option"
  gp_mergeReadinessGateMode :: "string option"
  gp_manifestPolicyGateMode :: "string option"
  gp_selfAuthoredLinkedIssueGateMode :: "string option"
  gp_linkedIssueSatisfactionGateMode :: "string option"
  gp_contentLaneDeliverableGateMode :: "string option"
  gp_backtestRegressionGateMode :: "string option"
  gp_claGateMode :: "string option"
  gp_authorMergedPrCount :: "nat option"
  gp_authorClosedUnmergedPrCount :: "nat option"
  gp_confirmedContributor :: "bool option"
  gp_sizeGateMode :: "string option"
  gp_sizeGateMaxFiles :: "jsnum option"
  gp_sizeGateMaxLines :: "jsnum option"
  gp_lockfileIntegrityGateMode :: "string option"
  gp_changedFileCount :: "jsnum option"
  gp_changedLineCount :: "jsnum option"
  gp_guardrailHit :: "bool option"
  gp_guardrailMatches :: "GuardrailPathMatch list option"
  gp_dryRun :: "bool option"

record GateCheckEvaluation =
  gv_enabled :: bool
  gv_conclusion :: GateCheckConclusion
  gv_displayConclusion :: "GateCheckConclusion option"
  gv_title :: string
  gv_summary :: string
  gv_blockers :: "AdvisoryFinding list"
  gv_warnings :: "AdvisoryFinding list"

definition gateMode :: "string option \<Rightarrow> string" where
  "gateMode value =
     (if value = Some ''off'' \<or> value = Some ''block'' \<or> value = Some ''advisory'' then the value else ''block'')"

definition gatePolicyBlocks :: "string option \<Rightarrow> string \<Rightarrow> bool" where
  "gatePolicyBlocks mode defaultMode \<longleftrightarrow> gateMode (Some (or_default mode defaultMode)) = ''block''"

definition normalizeScore :: "jsnum option \<Rightarrow> jsnum option" where
  "normalizeScore value =
     (case value of
        None \<Rightarrow> None
      | Some v \<Rightarrow> if isFinite v then Some (math_max (Fin 0) (math_min (Fin 100) (math_round v))) else None)"

definition SIZE_HOLD_DEFAULT_MAX_FILES :: jsnum where
  "SIZE_HOLD_DEFAULT_MAX_FILES = Fin 10"

definition SIZE_HOLD_DEFAULT_MAX_LINES :: jsnum where
  "SIZE_HOLD_DEFAULT_MAX_LINES = Fin 1000"

definition buildSizeHoldFinding :: "GateCheckPolicy \<Rightarrow> AdvisoryFinding option" where
  "buildSizeHoldFinding policy =
     (if gp_sizeGateMode policy = None \<or> gp_sizeGateMode policy = Some [] \<or> gp_sizeGateMode policy = Some ''off'' then None
      else
        (let files = or_default (gp_changedFileCount policy) (Fin 0);
             lines = or_default (gp_changedLineCount policy) (Fin 0);
             maxFiles = or_default (gp_sizeGateMaxFiles policy) SIZE_HOLD_DEFAULT_MAX_FILES;
             maxLines = or_default (gp_sizeGateMaxLines policy) SIZE_HOLD_DEFAULT_MAX_LINES
         in if num_lt files maxFiles \<and> num_lt lines maxLines then None
            else Some (finding ''oversized_pr'' SeverityWarning (''Large change '' @ em_dash @ '' held for manual review'')
                   [Lit ''This PR changes '', NumV files, Lit '' file(s) / '', NumV lines, Lit '' line(s) (hold threshold: '',
                    NumV maxFiles, Lit '' files or '', NumV maxLines, Lit '' lines).'']
                   (Some ''Split this into smaller, focused PRs, or a maintainer reviews and merges it manually.'') None)))"

definition buildGuardrailHoldFinding :: "GuardrailPathMatch list \<Rightarrow> AdvisoryFinding" where
  "buildGuardrailHoldFinding matches =
     finding ''guardrail_hold'' SeverityWarning (''Touches a guarded path '' @ em_dash @ '' held for manual review'')
       (lit (if matches \<noteq> []
             then ''This PR changes guardrail-protected path(s): '' @
                  str_join '', '' (map (\<lambda>m. ''`'' @ gm_path m @ ''` (matched `'' @ gm_glob m @ ''`)'') (take 5 matches)) @
                  (if 5 < length matches then '', and '' @ show_nat (length matches - 5) @ '' more'' else []) @ ''.''
             else ''This PR changes a guardrail-protected path, or the changed-file list could not be verified while guardrails are configured.''))
       (Some ''A maintainer must review and merge this change.'') None"

definition promoteAdvisoryToBlock :: "GateCheckPolicy \<Rightarrow> GateCheckPolicy" where
  "promoteAdvisoryToBlock policy =
     policy\<lparr>gp_dryRun := Some False,
       gp_aiReviewGateMode := (if gp_aiReviewGateMode policy = Some ''advisory'' then Some ''block'' else gp_aiReviewGateMode policy)\<rparr>"

definition applyMergeReadinessGate :: "GateCheckPolicy \<Rightarrow> GateCheckPolicy" where
  "applyMergeReadinessGate policy =
     (let composite = gateMode (Some (or_default (gp_mergeReadinessGateMode policy) ''off''))
      in if composite = ''off'' then policy
         else policy\<lparr>gp_linkedIssueGateMode := Some composite, gp_duplicatePrGateMode := Some composite,
                gp_slopGateMode := Some composite\<rparr>)"

definition isEvaluationBlocker :: "string \<Rightarrow> GateCheckPolicy \<Rightarrow> bool" where
  "isEvaluationBlocker code policy =
     (if code = ''repo_not_cached'' \<or> code = ''repo_not_seen'' \<or> code = ''pr_not_cached'' \<or> code = ''pre_merge_check_unresolved''
      then True
      else if code = CLA_CHECK_UNRESOLVED_CODE then gp_claGateMode policy = Some ''block''
      else False)"

definition isConfiguredGateBlocker :: "AdvisoryFinding \<Rightarrow> GateCheckPolicy \<Rightarrow> bool" where
  "isConfiguredGateBlocker f policy =
     (let code = af_code f in
      if code = ''missing_linked_issue'' then gatePolicyBlocks (gp_linkedIssueGateMode policy) ''advisory''
      else if code = ''duplicate_pr_risk'' then gatePolicyBlocks (gp_duplicatePrGateMode policy) ''advisory''
      else if code = ''duplicate_pr_risk_unconfirmed'' then False
      else if code = ''ai_consensus_defect'' \<or> code = ''ai_review_split'' then
        (if \<not> gatePolicyBlocks (gp_aiReviewGateMode policy) ''advisory'' then False
         else if or_default (gp_aiReviewLowConfidenceDisposition policy) ''hold_for_review'' = ''advisory_only'' \<and>
                 num_lt (or_default (af_confidence f) CONFIDENCE_WHEN_UNSTATED)
                   (or_default (gp_aiReviewCloseConfidence policy) DEFAULT_AI_REVIEW_CLOSE_CONFIDENCE)
         then False
         else True)
      else if code = REVIEW_THREAD_BLOCKER_CODE then True
      else if code = ''secret_leak'' then True
      else if code = ''pre_merge_check_required'' then True
      else if code = ''manifest_missing_tests'' then gatePolicyBlocks (gp_manifestPolicyGateMode policy) ''off''
      else if code = ''manifest_linked_issue_required'' then
        gatePolicyBlocks (gp_manifestPolicyGateMode policy) ''off'' \<or> gatePolicyBlocks (gp_linkedIssueGateMode policy) ''advisory''
      else if code = ''self_authored_linked_issue'' then gatePolicyBlocks (gp_selfAuthoredLinkedIssueGateMode policy) ''advisory''
      else if code = ''linked_issue_scope_mismatch'' then gatePolicyBlocks (gp_linkedIssueSatisfactionGateMode policy) ''advisory''
      else if code = ''content_lane_deliverable_missing'' then gatePolicyBlocks (gp_contentLaneDeliverableGateMode policy) ''off''
      else if code = ''backtest_regression'' then gatePolicyBlocks (gp_backtestRegressionGateMode policy) ''advisory''
      else if code = ''lockfile_tamper_risk'' then gatePolicyBlocks (gp_lockfileIntegrityGateMode policy) ''off''
      else if code = CLA_CONSENT_MISSING_CODE then gatePolicyBlocks (gp_claGateMode policy) ''off''
      else False)"

definition buildQualityGateWarning :: "GateCheckPolicy \<Rightarrow> AdvisoryFinding option" where
  "buildQualityGateWarning policy =
     (if gateMode (gp_qualityGateMode policy) = ''off'' then None
      else (case (normalizeScore (gp_readinessScore policy), normalizeScore (gp_qualityGateMinScore policy)) of
          (Some score, Some minScore) \<Rightarrow>
            if num_ge score minScore then None
            else Some (finding ''readiness_score_below_threshold'' SeverityWarning ''Readiness score is below the configured threshold''
                   [Lit ''The public readiness score is '', NumV score, Lit ''/100, below the repository threshold of '',
                    NumV minScore, Lit ''/100.'']
                   (Some ''Use the readiness panel as advisory maintainer context; the score does not block this PR.'') None)
        | _ \<Rightarrow> None))"

definition buildSlopGateBlocker :: "GateCheckPolicy \<Rightarrow> AdvisoryFinding option" where
  "buildSlopGateBlocker policy =
     (if gateMode (Some (or_default (gp_slopGateMode policy) ''advisory'')) \<noteq> ''block'' then None
      else (case normalizeScore (gp_slopRisk policy) of
          None \<Rightarrow> None
        | Some risk \<Rightarrow>
            let minScore = or_default (normalizeScore (gp_slopGateMinScore policy)) DEFAULT_SLOP_BLOCK_THRESHOLD
            in if num_lt risk minScore then None
               else Some (finding ''slop_risk_above_threshold'' SeverityWarning ''Slop risk is above the configured threshold''
                      [Lit ''The deterministic slop risk is '', NumV risk, Lit ''/100, at or above the repository threshold of '',
                       NumV minScore, Lit ''/100.'']
                      (Some ''Reduce whitespace-only churn, add test evidence, or describe the change, then re-run the gate.'') None)))"

text \<open>The evaluation a branch of the gate returns.\<close>

definition evaluation ::
  "GateCheckConclusion \<Rightarrow> string \<Rightarrow> string \<Rightarrow> AdvisoryFinding list \<Rightarrow> AdvisoryFinding list \<Rightarrow> GateCheckEvaluation" where
  "evaluation conclusion title summary blockers warnings =
     \<lparr>gv_enabled = True, gv_conclusion = conclusion, gv_displayConclusion = None, gv_title = title, gv_summary = summary,
      gv_blockers = blockers, gv_warnings = warnings\<rparr>"

definition opt_list :: "'a option \<Rightarrow> 'a list" where
  "opt_list x = (case x of None \<Rightarrow> [] | Some a \<Rightarrow> [a])"

definition gate_title :: "string \<Rightarrow> string" where
  "gate_title rest = LOOPOVER_GATE_CHECK_NAME @ '' '' @ em_dash @ '' '' @ rest"

definition titles_of :: "AdvisoryFinding list \<Rightarrow> string" where
  "titles_of fs = str_join ''; '' (map (\<lambda>f. sanitizeForCheckRun (af_title f)) fs)"

definition evaluate_unblocked :: "Advisory \<Rightarrow> GateCheckPolicy \<Rightarrow> AdvisoryFinding list \<Rightarrow> GateCheckEvaluation" where
  "evaluate_unblocked advisoryResult effective gateWarnings =
     (if gatePolicyBlocks (gp_aiReviewGateMode effective) ''advisory'' \<and>
         list_ex (\<lambda>f. af_code f = ''ai_review_inconclusive'') (ad_findings advisoryResult)
      then evaluation ConclNeutral (gate_title ''held for human review'')
             ''The AI review could not be completed for this change, so the gate is held for a human reviewer rather than passed automatically. It re-evaluates on the next update.''
             [] gateWarnings
      else
        (let secretScanIncompleteFindings = filter (\<lambda>f. af_code f = ''secret_scan_incomplete'') (ad_findings advisoryResult)
         in if secretScanIncompleteFindings \<noteq> []
            then evaluation ConclNeutral (gate_title ''held for human review'') (titles_of secretScanIncompleteFindings) []
                   (gateWarnings @ secretScanIncompleteFindings)
            else
              (let holds = opt_list (buildSizeHoldFinding effective) @
                     (if gp_guardrailHit effective = Some True
                      then [buildGuardrailHoldFinding (or_default (gp_guardrailMatches effective) [])] else [])
               in if holds \<noteq> []
                  then evaluation ConclNeutral (gate_title ''held for manual review'') (titles_of holds) [] (gateWarnings @ holds)
                  else evaluation ConclSuccess (LOOPOVER_GATE_CHECK_NAME @ '' passed'')
                         ''No configured hard blocker was found. Advisory findings, if any, stay advisory.'' [] gateWarnings)))"

definition evaluate_blocked ::
  "Advisory \<Rightarrow> GateCheckPolicy \<Rightarrow> AdvisoryFinding list \<Rightarrow> AdvisoryFinding list \<Rightarrow> GateCheckEvaluation" where
  "evaluate_blocked advisoryResult effective blockers gateWarnings =
     (if list_all (\<lambda>b. af_code b = ''duplicate_pr_risk'') blockers
      then evaluation ConclNeutral (gate_title ''held for manual review'') (titles_of blockers) []
             (filter (\<lambda>f. \<not> isConfiguredGateBlocker f effective) gateWarnings @ blockers)
      else
        (let titleDetail = (if length blockers = 1 then sanitizeForCheckRun (af_title (hd blockers))
                            else show_nat (length blockers) @ '' blockers'')
         in evaluation ConclFailure (LOOPOVER_GATE_CHECK_NAME @ '': '' @ titleDetail)
              (str_join ''; '' (map (\<lambda>f. sanitizeForCheckRun (af_title f) @
                 (case af_action f of Some a \<Rightarrow> if a \<noteq> [] then '' '' @ em_dash @ '' '' @ sanitizeForCheckRun a else []
                  | None \<Rightarrow> [])) blockers))
              blockers
              (filter (\<lambda>f. af_severity f = SeverityWarning \<and> \<not> isConfiguredGateBlocker f effective) (ad_findings advisoryResult) @
               opt_list (buildQualityGateWarning effective))))"

definition evaluateGateCheckCore :: "Advisory \<Rightarrow> GateCheckPolicy \<Rightarrow> GateCheckEvaluation" where
  "evaluateGateCheckCore advisoryResult policy =
     (let warnings = filter (\<lambda>f. af_severity f = SeverityWarning) (ad_findings advisoryResult)
      in if list_ex (\<lambda>f. isEvaluationBlocker (af_code f) policy) (ad_findings advisoryResult)
         then evaluation ConclNeutral (gate_title ''not evaluated yet'')
                ''LoopOver has not finished syncing this repo/PR. The gate stays advisory and re-evaluates automatically; no action is needed.''
                [] warnings
         else
           (let effective = applyMergeReadinessGate policy;
                configuredBlockers = filter (\<lambda>f. isConfiguredGateBlocker f effective) (ad_findings advisoryResult);
                blockers = configuredBlockers @ opt_list (buildSlopGateBlocker effective);
                gateWarnings = warnings @ opt_list (buildQualityGateWarning effective)
            in if length blockers = 0 then evaluate_unblocked advisoryResult effective gateWarnings
               else evaluate_blocked advisoryResult effective blockers gateWarnings))"

definition evaluateGateCheck :: "Advisory \<Rightarrow> GateCheckPolicy \<Rightarrow> GateCheckEvaluation" where
  "evaluateGateCheck advisoryResult policy =
     (let result = evaluateGateCheckCore advisoryResult policy
      in if gp_dryRun policy \<noteq> Some True then result
         else (let wouldBe = evaluateGateCheckCore advisoryResult (promoteAdvisoryToBlock policy)
               in result\<lparr>gv_displayConclusion := Some (gv_conclusion wouldBe)\<rparr>))"


section \<open>The verdict\<close>

abbreviation ai_blocks :: "GateCheckPolicy \<Rightarrow> bool" where
  "ai_blocks policy \<equiv> gatePolicyBlocks (gp_aiReviewGateMode policy) ''advisory''"

text \<open>What a single finding does to the verdict: it defers the evaluation, it blocks, or it holds an otherwise passing
  gate.\<close>

definition holds_gate :: "AdvisoryFinding \<Rightarrow> GateCheckPolicy \<Rightarrow> bool" where
  "holds_gate f policy \<longleftrightarrow>
     isEvaluationBlocker (af_code f) policy \<or> isConfiguredGateBlocker f (applyMergeReadinessGate policy) \<or>
     af_code f = ''secret_scan_incomplete'' \<or> ai_blocks policy \<and> af_code f = ''ai_review_inconclusive''"

definition policy_holds :: "GateCheckPolicy \<Rightarrow> bool" where
  "policy_holds policy \<longleftrightarrow>
     buildSlopGateBlocker (applyMergeReadinessGate policy) \<noteq> None \<or> buildSizeHoldFinding policy \<noteq> None \<or>
     gp_guardrailHit policy = Some True"

definition gate_blockers :: "Advisory \<Rightarrow> GateCheckPolicy \<Rightarrow> AdvisoryFinding list" where
  "gate_blockers a policy =
     filter (\<lambda>f. isConfiguredGateBlocker f (applyMergeReadinessGate policy)) (ad_findings a) @
     opt_list (buildSlopGateBlocker (applyMergeReadinessGate policy))"

lemma applyMergeReadinessGate_keeps:
  "gp_aiReviewGateMode (applyMergeReadinessGate p) = gp_aiReviewGateMode p"
  "gp_guardrailHit (applyMergeReadinessGate p) = gp_guardrailHit p"
  "buildSizeHoldFinding (applyMergeReadinessGate p) = buildSizeHoldFinding p"
  by (simp_all add: applyMergeReadinessGate_def buildSizeHoldFinding_def Let_def)

lemma evaluation_simps [simp]:
  "gv_conclusion (evaluation c t s b w) = c" "gv_blockers (evaluation c t s b w) = b"
  "gv_warnings (evaluation c t s b w) = w" "gv_displayConclusion (evaluation c t s b w) = None"
  "gv_enabled (evaluation c t s b w)"
  by (simp_all add: evaluation_def)

lemma opt_list_simps [simp]: "opt_list x = [] \<longleftrightarrow> x = None" "y \<in> set (opt_list x) \<longleftrightarrow> x = Some y"
  by (auto simp: opt_list_def split: option.splits)

lemma evaluateGateCheck_posted:
  "gv_conclusion (evaluateGateCheck a p) = gv_conclusion (evaluateGateCheckCore a p)"
  "gv_blockers (evaluateGateCheck a p) = gv_blockers (evaluateGateCheckCore a p)"
  "gv_warnings (evaluateGateCheck a p) = gv_warnings (evaluateGateCheckCore a p)"
  "gv_enabled (evaluateGateCheck a p) = gv_enabled (evaluateGateCheckCore a p)"
  by (simp_all add: evaluateGateCheck_def Let_def)

abbreviation deferred :: "Advisory \<Rightarrow> GateCheckPolicy \<Rightarrow> bool" where
  "deferred a p \<equiv> \<exists>f \<in> set (ad_findings a). isEvaluationBlocker (af_code f) p"

lemma unblocked_conclusion:
  "gv_conclusion (evaluate_unblocked a e w) =
     (if ai_blocks e \<and> (\<exists>f \<in> set (ad_findings a). af_code f = ''ai_review_inconclusive'') \<or>
         (\<exists>f \<in> set (ad_findings a). af_code f = ''secret_scan_incomplete'') \<or>
         buildSizeHoldFinding e \<noteq> None \<or> gp_guardrailHit e = Some True then ConclNeutral else ConclSuccess)"
  "gv_blockers (evaluate_unblocked a e w) = []"
  by (auto simp: evaluate_unblocked_def Let_def list_ex_iff filter_empty_conv)

lemma blocked_conclusion:
  "gv_conclusion (evaluate_blocked a e b w) = (if \<forall>x \<in> set b. af_code x = ''duplicate_pr_risk'' then ConclNeutral else ConclFailure)"
  "gv_blockers (evaluate_blocked a e b w) = (if \<forall>x \<in> set b. af_code x = ''duplicate_pr_risk'' then [] else b)"
  by (auto simp: evaluate_blocked_def Let_def list_all_iff)

lemma core_cases:
  "evaluateGateCheckCore a p =
     (let w = filter (\<lambda>f. af_severity f = SeverityWarning) (ad_findings a); e = applyMergeReadinessGate p;
          gw = w @ opt_list (buildQualityGateWarning e)
      in if deferred a p then evaluation ConclNeutral (gate_title ''not evaluated yet'')
                ''LoopOver has not finished syncing this repo/PR. The gate stays advisory and re-evaluates automatically; no action is needed.''
                [] w
         else if gate_blockers a p = [] then evaluate_unblocked a e gw
         else evaluate_blocked a e (gate_blockers a p) gw)"
  by (simp add: evaluateGateCheckCore_def gate_blockers_def list_ex_iff Let_def)

lemma slop_not_duplicate: "buildSlopGateBlocker e = Some b \<Longrightarrow> af_code b = ''slop_risk_above_threshold''"
  by (auto simp: buildSlopGateBlocker_def finding_def Let_def split: if_splits option.splits)

lemma failure_iff:
  "gv_conclusion (evaluateGateCheck a p) = ConclFailure \<longleftrightarrow>
     \<not> deferred a p \<and> (\<exists>b \<in> set (gate_blockers a p). af_code b \<noteq> ''duplicate_pr_risk'')"
proof -
  have "gate_blockers a p = [] \<Longrightarrow> \<not> (\<exists>b \<in> set (gate_blockers a p). af_code b \<noteq> ''duplicate_pr_risk'')" by simp
  then show ?thesis
    unfolding evaluateGateCheck_posted core_cases Let_def by (auto simp: unblocked_conclusion blocked_conclusion)
qed

lemma success_iff:
  "gv_conclusion (evaluateGateCheck a p) = ConclSuccess \<longleftrightarrow>
     \<not> policy_holds p \<and> (\<forall>f \<in> set (ad_findings a). \<not> holds_gate f p)"
proof -
  have "gate_blockers a p = [] \<longleftrightarrow> (\<forall>f \<in> set (ad_findings a). \<not> isConfiguredGateBlocker f (applyMergeReadinessGate p)) \<and>
      buildSlopGateBlocker (applyMergeReadinessGate p) = None"
    by (auto simp: gate_blockers_def filter_empty_conv)
  then show ?thesis
    unfolding evaluateGateCheck_posted core_cases Let_def policy_holds_def holds_gate_def
    by (auto simp: unblocked_conclusion blocked_conclusion applyMergeReadinessGate_keeps)
qed

lemma conclusion_range: "gv_conclusion (evaluateGateCheck a p) \<in> {ConclSuccess, ConclFailure, ConclNeutral}"
  unfolding evaluateGateCheck_posted core_cases Let_def by (auto simp: unblocked_conclusion blocked_conclusion)

lemma blockers_posted:
  "gv_blockers (evaluateGateCheck a p) =
     (if gv_conclusion (evaluateGateCheck a p) = ConclFailure then gate_blockers a p else [])"
  unfolding evaluateGateCheck_posted core_cases Let_def by (auto simp: unblocked_conclusion blocked_conclusion)


section \<open>Properties\<close>

lemma warning_kept:
  assumes "f \<in> set (ad_findings a)" "af_severity f = SeverityWarning"
  shows "f \<in> set (gv_blockers (evaluateGateCheck a p)) \<union> set (gv_warnings (evaluateGateCheck a p))"
  using assms unfolding evaluateGateCheck_posted core_cases Let_def
  by (auto simp: evaluate_unblocked_def evaluate_blocked_def gate_blockers_def Let_def)

lemma dry_run_irrelevant:
  "isConfiguredGateBlocker f (e\<lparr>gp_dryRun := d\<rparr>) = isConfiguredGateBlocker f e"
  "isEvaluationBlocker c (e\<lparr>gp_dryRun := d\<rparr>) = isEvaluationBlocker c e"
  "buildQualityGateWarning (e\<lparr>gp_dryRun := d\<rparr>) = buildQualityGateWarning e"
  "buildSlopGateBlocker (e\<lparr>gp_dryRun := d\<rparr>) = buildSlopGateBlocker e"
  "buildSizeHoldFinding (e\<lparr>gp_dryRun := d\<rparr>) = buildSizeHoldFinding e"
  by (simp_all add: isConfiguredGateBlocker_def isEvaluationBlocker_def buildQualityGateWarning_def
      buildSlopGateBlocker_def buildSizeHoldFinding_def cong: if_cong option.case_cong split del: if_split)

lemma core_dry_run: "evaluateGateCheckCore a (p\<lparr>gp_dryRun := d\<rparr>) = evaluateGateCheckCore a p"
proof -
  have e: "applyMergeReadinessGate (p\<lparr>gp_dryRun := d\<rparr>) = (applyMergeReadinessGate p)\<lparr>gp_dryRun := d\<rparr>"
    by (simp add: applyMergeReadinessGate_def Let_def)
  have "evaluate_unblocked a (e\<lparr>gp_dryRun := d\<rparr>) w = evaluate_unblocked a e w" for e w
    unfolding evaluate_unblocked_def Let_def by (simp add: dry_run_irrelevant cong: if_cong)
  moreover have "evaluate_blocked a (e\<lparr>gp_dryRun := d\<rparr>) b w = evaluate_blocked a e b w" for e b w
    unfolding evaluate_blocked_def Let_def by (simp add: dry_run_irrelevant cong: if_cong)
  ultimately show ?thesis
    unfolding evaluateGateCheckCore_def Let_def e by (simp add: dry_run_irrelevant cong: if_cong)
qed

text \<open>C14: A gate evaluation is well formed. It concludes success, failure or neutral; it lists blockers exactly when it
  fails, each of them a finding of the advisory that the policy makes blocking or the slop blocker, and one of them not
  a duplicate finding; every warning of the advisory is listed as a blocker or as a warning; the display conclusion is
  present exactly in a dry run, and a dry run posts the same verdict as a real one.\<close>

theorem gate_evaluation_well_formed:
  fixes a p
  defines "v \<equiv> evaluateGateCheck a p"
  shows "gv_enabled v \<and> gv_conclusion v \<in> {ConclSuccess, ConclFailure, ConclNeutral} \<and>
    (gv_blockers v \<noteq> []) = (gv_conclusion v = ConclFailure) \<and>
    (\<forall>b \<in> set (gv_blockers v). b \<in> set (ad_findings a) \<and> isConfiguredGateBlocker b (applyMergeReadinessGate p) \<or>
       af_code b = ''slop_risk_above_threshold'') \<and>
    (gv_conclusion v = ConclFailure \<longrightarrow> (\<exists>b \<in> set (gv_blockers v). af_code b \<noteq> ''duplicate_pr_risk'')) \<and>
    (\<forall>f \<in> set (ad_findings a). af_severity f = SeverityWarning \<longrightarrow> f \<in> set (gv_blockers v) \<union> set (gv_warnings v)) \<and>
    (gv_displayConclusion v \<noteq> None) = (gp_dryRun p = Some True) \<and>
    v\<lparr>gv_displayConclusion := None\<rparr> = evaluateGateCheck a (p\<lparr>gp_dryRun := None\<rparr>)"
proof -
  have posted: "gv_blockers v \<noteq> [] \<longleftrightarrow> gv_conclusion v = ConclFailure"
    "gv_conclusion v = ConclFailure \<longrightarrow> (\<exists>b \<in> set (gv_blockers v). af_code b \<noteq> ''duplicate_pr_risk'')"
    unfolding v_def using failure_iff[of a p] blockers_posted[of a p] by auto
  have origin: "b \<in> set (ad_findings a) \<and> isConfiguredGateBlocker b (applyMergeReadinessGate p) \<or>
      af_code b = ''slop_risk_above_threshold''" if "b \<in> set (gv_blockers v)" for b
    using that slop_not_duplicate unfolding v_def blockers_posted by (auto simp: gate_blockers_def split: if_splits)
  have display: "gv_displayConclusion (evaluateGateCheckCore a p) = None"
    by (simp add: evaluateGateCheckCore_def evaluate_unblocked_def evaluate_blocked_def Let_def)
  have dry: "v\<lparr>gv_displayConclusion := None\<rparr> = evaluateGateCheck a (p\<lparr>gp_dryRun := None\<rparr>)"
    using core_dry_run[where a = a and p = p and d = None] display by (cases "evaluateGateCheckCore a p") (simp add: v_def evaluateGateCheck_def Let_def)
  have enabled: "gv_enabled v" unfolding v_def evaluateGateCheck_posted
    by (simp add: evaluateGateCheckCore_def evaluate_unblocked_def evaluate_blocked_def Let_def)
  have shown: "(gv_displayConclusion v \<noteq> None) = (gp_dryRun p = Some True)"
    using display by (simp add: v_def evaluateGateCheck_def Let_def)
  have range: "gv_conclusion v \<in> {ConclSuccess, ConclFailure, ConclNeutral}" unfolding v_def by (rule conclusion_range)
  show ?thesis using enabled range posted origin shown dry warning_kept[of _ a p, folded v_def] by blast
qed

text \<open>More evidence never makes the gate pass: if the gate passes a pull request with some findings, it passes it
  with any subset of them.\<close>

theorem evidence_never_helps:
  assumes "gv_conclusion (evaluateGateCheck a p) = ConclSuccess" "set (ad_findings b) \<subseteq> set (ad_findings a)"
  shows "gv_conclusion (evaluateGateCheck b p) = ConclSuccess"
  using assms unfolding success_iff by blast

text \<open>C15: A committed secret, an unresolved review thread or a failed enforced check can never pass, whatever the policy:
  the gate fails, unless it cannot evaluate the pull request yet, and then it does not pass either.\<close>

theorem hard_blockers_always_block:
  assumes "f \<in> set (ad_findings a)" "af_code f \<in> {''secret_leak'', ''review_thread_unresolved'', ''pre_merge_check_required''}"
  shows "gv_conclusion (evaluateGateCheck a p) = (if deferred a p then ConclNeutral else ConclFailure)"
proof -
  have b: "isConfiguredGateBlocker f e" for e
    using assms(2) by (elim insertE emptyE)
      (simp_all add: isConfiguredGateBlocker_def REVIEW_THREAD_BLOCKER_CODE_def cong: if_cong option.case_cong split del: if_split)
  have "f \<in> set (gate_blockers a p)" "af_code f \<noteq> ''duplicate_pr_risk''"
    using assms b by (auto simp: gate_blockers_def)
  then have "\<not> deferred a p \<Longrightarrow> gv_conclusion (evaluateGateCheck a p) = ConclFailure" unfolding failure_iff by blast
  moreover have "deferred a p \<Longrightarrow> gv_conclusion (evaluateGateCheck a p) = ConclNeutral"
    unfolding evaluateGateCheck_posted core_cases Let_def by simp
  ultimately show ?thesis by simp
qed

text \<open>Findings that other contributors' pull requests can cause.\<close>

definition rival_code :: "string \<Rightarrow> bool" where
  "rival_code c \<longleftrightarrow> c \<in> {''duplicate_pr_risk'', ''duplicate_pr_risk_unconfirmed'', ''busy_pr_queue''}"

lemma rival_not_evaluation: "rival_code c \<Longrightarrow> \<not> isEvaluationBlocker c p"
  by (auto simp: rival_code_def isEvaluationBlocker_def CLA_CHECK_UNRESOLVED_CODE_def)

lemma rival_not_blocking: "rival_code (af_code f) \<Longrightarrow> isConfiguredGateBlocker f e \<Longrightarrow> af_code f = ''duplicate_pr_risk''"
  by (auto simp: rival_code_def isConfiguredGateBlocker_def REVIEW_THREAD_BLOCKER_CODE_def CLA_CONSENT_MISSING_CODE_def)

abbreviation own_findings :: "AdvisoryFinding list \<Rightarrow> AdvisoryFinding list" where
  "own_findings fs \<equiv> filter (\<lambda>f. \<not> rival_code (af_code f)) fs"

lemma failure_own:
  assumes "own_findings (ad_findings a) = own_findings (ad_findings b)"
  shows "gv_conclusion (evaluateGateCheck a p) = ConclFailure \<longleftrightarrow> gv_conclusion (evaluateGateCheck b p) = ConclFailure"
proof -
  let ?e = "applyMergeReadinessGate p"
  have own: "f \<in> set (ad_findings a) \<longleftrightarrow> f \<in> set (ad_findings b)" if "\<not> rival_code (af_code f)" for f
    using arg_cong[OF assms, of set] that by auto
  have "deferred a p \<longleftrightarrow> deferred b p" using own rival_not_evaluation by blast
  moreover have "(\<exists>x \<in> set (gate_blockers a p). af_code x \<noteq> ''duplicate_pr_risk'') \<longleftrightarrow>
      (\<exists>x \<in> set (gate_blockers b p). af_code x \<noteq> ''duplicate_pr_risk'')"
    using own rival_not_blocking[of _ ?e] unfolding gate_blockers_def by auto
  ultimately show ?thesis unfolding failure_iff by simp
qed

lemma duplicate_findings_rival: "f \<in> set (duplicate_findings pd pr cx) \<Longrightarrow> rival_code (af_code f)"
  by (auto simp: duplicate_findings_def finding_def rival_code_def Let_def split: if_splits)

lemma own_findings_advisory:
  "own_findings (ad_findings (buildPullRequestAdvisory pd u n repo pr (cx\<lparr>cx_otherOpenPullRequests := others\<rparr>))) =
   own_findings (ad_findings (buildPullRequestAdvisory pd u n repo pr cx))"
proof -
  have "own_findings (duplicate_findings pd q c) = []" for q c
    using duplicate_findings_rival by (auto simp: filter_empty_conv)
  then have "own_findings (addPullRequestFindings pd repo q (cx\<lparr>cx_otherOpenPullRequests := others\<rparr>)) =
      own_findings (addPullRequestFindings pd repo q cx)" for q
    by (simp add: addPullRequestFindings_def linked_issue_findings_def finding_def rival_code_def[of "''busy_pr_queue''"])
  then show ?thesis by (simp add: buildPullRequestAdvisory_def advisory_def Let_def split: option.split)
qed

text \<open>C5: No contributor can make a rival's gate fail by opening pull requests: whatever other pull requests are open, on
  whatever issues and with whatever claims, and whatever the repository's policy, the gate of a pull request fails with
  them exactly when it fails without them.\<close>

theorem rivals_cannot_close:
  "gv_conclusion (evaluateGateCheck (buildPullRequestAdvisory pd u n repo pr (cx\<lparr>cx_otherOpenPullRequests := others\<rparr>)) p) = ConclFailure
   \<longleftrightarrow> gv_conclusion (evaluateGateCheck (buildPullRequestAdvisory pd u n repo pr cx) p) = ConclFailure"
  by (rule failure_own) (rule own_findings_advisory)

text \<open>A score the gate compares is a whole number from 0 to 100, whatever value the policy carries, and a value that
  is not a finite number is not compared at all; a readiness score never blocks.\<close>

theorem gate_scores_are_percentages:
  "(case normalizeScore x of Some s \<Rightarrow> \<exists>n \<le> 100. s = num_of_nat n | None \<Rightarrow> x = None \<or> (\<exists>v. x = Some v \<and> \<not> isFinite v)) \<and>
   gv_blockers (evaluateGateCheck a (p\<lparr>gp_readinessScore := r, gp_qualityGateMode := m, gp_qualityGateMinScore := k\<rparr>)) =
   gv_blockers (evaluateGateCheck a p)"
proof -
  have score: "\<exists>n \<le> 100. math_max (Fin 0) (math_min (Fin 100) (math_round (Fin q))) = num_of_nat n" for q
  proof -
    define z where "z = max 0 (min 100 \<lfloor>q + 1 / 2\<rfloor>)"
    have "math_max (Fin 0) (math_min (Fin 100) (math_round (Fin q))) = Fin (of_int z)"
      by (simp add: z_def of_int_max of_int_min)
    moreover have "0 \<le> z" "z \<le> 100" by (auto simp: z_def)
    ultimately show ?thesis by (intro exI[of _ "nat z"]) (simp add: of_nat_nat)
  qed
  have norm: "case normalizeScore x of Some s \<Rightarrow> \<exists>n \<le> 100. s = num_of_nat n | None \<Rightarrow> x = None \<or> (\<exists>v. x = Some v \<and> \<not> isFinite v)"
    using score by (cases x) (auto simp: normalizeScore_def isFinite_iff split: option.split)
  let ?q = "p\<lparr>gp_readinessScore := r, gp_qualityGateMode := m, gp_qualityGateMinScore := k\<rparr>"
  have e: "applyMergeReadinessGate ?q =
      (applyMergeReadinessGate p)\<lparr>gp_readinessScore := r, gp_qualityGateMode := m, gp_qualityGateMinScore := k\<rparr>"
    by (simp add: applyMergeReadinessGate_def Let_def)
  have "gate_blockers a ?q = gate_blockers a p"
    unfolding gate_blockers_def e by (simp add: isConfiguredGateBlocker_def buildSlopGateBlocker_def cong: if_cong option.case_cong split del: if_split)
  moreover have "deferred a ?q = deferred a p" by (simp add: isEvaluationBlocker_def)
  ultimately have "gv_blockers (evaluateGateCheck a ?q) = gv_blockers (evaluateGateCheck a p)"
    unfolding blockers_posted failure_iff by simp
  then show ?thesis using norm by blast
qed


section \<open>Samples\<close>

text \<open>The policy \<open>{}\<close>, and an advisory with given findings.\<close>

definition empty_policy :: GateCheckPolicy where
  "empty_policy =
     \<lparr>gp_linkedIssueGateMode = None, gp_duplicatePrGateMode = None, gp_qualityGateMode = None,
      gp_qualityGateMinScore = None, gp_aiReviewGateMode = None, gp_aiReviewCloseConfidence = None,
      gp_aiReviewLowConfidenceDisposition = None, gp_readinessScore = None, gp_slopGateMode = None,
      gp_slopGateMinScore = None, gp_slopRisk = None, gp_mergeReadinessGateMode = None,
      gp_manifestPolicyGateMode = None, gp_selfAuthoredLinkedIssueGateMode = None, gp_linkedIssueSatisfactionGateMode = None,
      gp_contentLaneDeliverableGateMode = None, gp_backtestRegressionGateMode = None, gp_claGateMode = None,
      gp_authorMergedPrCount = None, gp_authorClosedUnmergedPrCount = None, gp_confirmedContributor = None,
      gp_sizeGateMode = None, gp_sizeGateMaxFiles = None, gp_sizeGateMaxLines = None,
      gp_lockfileIntegrityGateMode = None, gp_changedFileCount = None, gp_changedLineCount = None,
      gp_guardrailHit = None, gp_guardrailMatches = None, gp_dryRun = None\<rparr>"

definition sample_advisory :: "AdvisoryFinding list \<Rightarrow> Advisory" where
  "sample_advisory fs = advisory ''id'' ''now'' TargetPullRequest ''a/b#1'' ''a/b'' fs ''Pull request advisory generated.'' (Some 1) None None"

definition sample_finding :: "string \<Rightarrow> AdvisoryFinding" where
  "sample_finding code = finding code SeverityWarning ''Sample'' (lit ''Sample.'') None None"

lemma sample_findings [simp]: "ad_findings (sample_advisory fs) = fs" "af_code (sample_finding c) = c" "af_severity (sample_finding c) = SeverityWarning"
  by (simp_all add: sample_advisory_def sample_finding_def advisory_def finding_def Let_def)

lemma empty_policy_effective: "applyMergeReadinessGate empty_policy = empty_policy"
  by (simp add: applyMergeReadinessGate_def empty_policy_def gateMode_def)

lemma empty_policy_holds: "\<not> policy_holds empty_policy"
  unfolding policy_holds_def empty_policy_effective
  by (simp add: empty_policy_def buildSlopGateBlocker_def buildSizeHoldFinding_def gateMode_def)

lemma label_finding_quiet: "\<not> holds_gate (sample_finding ''label_context_found'') empty_policy"
  unfolding holds_gate_def empty_policy_effective
  by (simp add: isEvaluationBlocker_def isConfiguredGateBlocker_def CLA_CHECK_UNRESOLVED_CODE_def CLA_CONSENT_MISSING_CODE_def
      REVIEW_THREAD_BLOCKER_CODE_def split del: if_split)

lemma secret_not_deferred: "\<not> isEvaluationBlocker ''secret_leak'' p"
  by (simp add: isEvaluationBlocker_def CLA_CHECK_UNRESOLVED_CODE_def)

lemma secret_blocks: "sample_finding ''secret_leak'' \<in> set (gate_blockers (sample_advisory [sample_finding ''secret_leak'']) p)"
  by (simp add: gate_blockers_def isConfiguredGateBlocker_def REVIEW_THREAD_BLOCKER_CODE_def split del: if_split)

theorem gate_evaluation_well_formed_witness:
  "gv_blockers (evaluateGateCheck (sample_advisory [sample_finding ''secret_leak'']) empty_policy) \<noteq> []"
proof -
  have "gv_conclusion (evaluateGateCheck (sample_advisory [sample_finding ''secret_leak'']) empty_policy) = ConclFailure"
    unfolding failure_iff using secret_blocks[of empty_policy] secret_not_deferred by (auto intro!: bexI[of _ "sample_finding ''secret_leak''"])
  then show ?thesis
    using gate_evaluation_well_formed[where a = "sample_advisory [sample_finding ''secret_leak'']" and p = empty_policy] by blast
qed

theorem evidence_never_helps_witness:
  "gv_conclusion (evaluateGateCheck (sample_advisory []) empty_policy) = ConclSuccess"
proof -
  have "gv_conclusion (evaluateGateCheck (sample_advisory [sample_finding ''label_context_found'']) empty_policy) = ConclSuccess"
    unfolding success_iff using empty_policy_holds label_finding_quiet by simp
  then show ?thesis
    using evidence_never_helps[of "sample_advisory [sample_finding ''label_context_found'']" empty_policy "sample_advisory []"] by simp
qed

theorem hard_blockers_always_block_witness:
  "gv_conclusion (evaluateGateCheck (sample_advisory [sample_finding ''secret_leak'']) empty_policy) = ConclFailure"
  using hard_blockers_always_block[of "sample_finding ''secret_leak''" "sample_advisory [sample_finding ''secret_leak'']" empty_policy]
    secret_not_deferred by simp

theorem gate_scores_are_percentages_witness:
  "\<exists>n \<le> 100. normalizeScore (Some (Fin 250)) = Some (num_of_nat n)"
proof -
  obtain s where s: "normalizeScore (Some (Fin 250)) = Some s" by (simp add: normalizeScore_def)
  then show ?thesis using gate_scores_are_percentages[where x = "Some (Fin 250)" and a = "sample_advisory []" and p = empty_policy
        and r = None and m = None and k = None] by auto
qed

end
