(* ===== verification/Gate_Host.thy ===== *)
theory Gate_Host
  imports Gate_Check
begin

text \<open>
  The gate of the maintainer service (\<open>src/rules/advisory.ts\<close>), the twin of the engine's gate that decides the real
  pull requests: the same decision over a policy with two more fields, its own resolution of a finding's mode, the
  holds that soften an AI-only failure, the calibration signals recorded for every decision, and the text posted on
  the check run. The lemmas relate it to the engine's copy.

  The signal store is a sequence of offered events; writing one is best effort and never affects the verdict, so the
  events are what the functions return. \<open>show_num\<close> prints the numbers of a detail text.
\<close>

section \<open>Policy and evaluation\<close>

record HostGateCheckPolicy = GateCheckPolicy +
  hp_aiReviewCloseConfidenceCalibrated :: "bool option"
  hp_aiReviewSalvageabilityMinScore :: "jsnum option"

record HostGateCheckEvaluation = GateCheckEvaluation +
  hv_replay :: "(AdvisoryFinding list \<times> HostGateCheckPolicy) option"

definition AI_JUDGMENT_BLOCKER_CODES :: "string list" where
  "AI_JUDGMENT_BLOCKER_CODES = [''ai_consensus_defect'', ''ai_review_split'']"

definition GATE_SCORE_SIGNAL_CODES :: "string list" where
  "GATE_SCORE_SIGNAL_CODES = [''slop_gate_score'', ''quality_gate_score'']"

definition CONFIGURED_GATE_BLOCKER_SIGNAL_CODES :: "string list" where
  "CONFIGURED_GATE_BLOCKER_SIGNAL_CODES =
     [''missing_linked_issue'', ''linked_issue_superseded'', ''duplicate_pr_risk''] @ AI_JUDGMENT_BLOCKER_CODES @
     [REVIEW_THREAD_BLOCKER_CODE, ''secret_leak'', ''pre_merge_check_required'', ''manifest_missing_tests'',
      ''manifest_linked_issue_required'', ''self_authored_linked_issue'', ''content_lane_deliverable_missing'',
      ''backtest_regression'', ''lockfile_tamper_risk'', CLA_CONSENT_MISSING_CODE, ''slop_risk_above_threshold'',
      ''surface_lane_reject''] @ GATE_SCORE_SIGNAL_CODES"

definition DUPLICATE_ONLY_BLOCKER_CODES :: "string list" where
  "DUPLICATE_ONLY_BLOCKER_CODES = [''duplicate_pr_risk'']"

definition host_gateMode :: "string option \<Rightarrow> string" where
  "host_gateMode value =
     (if value = Some ''off'' \<or> value = Some ''block'' \<or> value = Some ''advisory'' then the value else ''block'')"

abbreviation mode_or :: "string option \<Rightarrow> string \<Rightarrow> string" where
  "mode_or mode d \<equiv> host_gateMode (Some (or_default mode d))"

definition host_normalizeScore :: "jsnum option \<Rightarrow> jsnum option" where
  "host_normalizeScore value =
     (case value of
        None \<Rightarrow> None
      | Some v \<Rightarrow> if isFinite v then Some (math_max (Fin 0) (math_min (Fin 100) (math_round v))) else None)"

definition host_buildSizeHoldFinding :: "HostGateCheckPolicy \<Rightarrow> AdvisoryFinding option" where
  "host_buildSizeHoldFinding policy =
     (if gp_sizeGateMode policy = None \<or> gp_sizeGateMode policy = Some [] \<or> gp_sizeGateMode policy = Some ''off'' then None
      else
        (let files = or_default (gp_changedFileCount policy) (Fin 0);
             lines = or_default (gp_changedLineCount policy) (Fin 0);
             maxFiles = or_default (gp_sizeGateMaxFiles policy) SIZE_HOLD_DEFAULT_MAX_FILES;
             maxLines = or_default (gp_sizeGateMaxLines policy) SIZE_HOLD_DEFAULT_MAX_LINES
         in if num_lt files maxFiles \<and> num_lt lines maxLines then None
            else Some (finding ''oversized_pr'' SeverityWarning (''Large change '' @ em_dash @ '' held for manual review'')
                   [Lit ''This PR changes '', NumV files, Lit '' file(s) / '', NumV lines, Lit '' line(s) (hold threshold: '',
                    NumV maxFiles, Lit '' files or '', NumV maxLines, Lit '' lines).'']
                   (Some ''Split this into smaller, focused PRs, or a maintainer reviews and merges it manually.'') None)))"

definition host_buildGuardrailHoldFinding :: "GuardrailPathMatch list \<Rightarrow> AdvisoryFinding" where
  "host_buildGuardrailHoldFinding matches =
     finding ''guardrail_hold'' SeverityWarning (''Touches a guarded path '' @ em_dash @ '' held for manual review'')
       (lit (if matches \<noteq> []
             then ''This PR changes guardrail-protected path(s): '' @
                  str_join '', '' (map (\<lambda>m. ''`'' @ gm_path m @ ''` (matched `'' @ gm_glob m @ ''`)'') (take 5 matches)) @
                  (if 5 < length matches then '', and '' @ show_nat (length matches - 5) @ '' more'' else []) @ ''.''
             else ''This PR changes a guardrail-protected path, or the changed-file list could not be verified while guardrails are configured.''))
       (Some ''A maintainer must review and merge this change.'') None"

definition host_promoteAdvisoryToBlock :: "HostGateCheckPolicy \<Rightarrow> HostGateCheckPolicy" where
  "host_promoteAdvisoryToBlock policy =
     policy\<lparr>gp_dryRun := Some False,
       gp_aiReviewGateMode := (if gp_aiReviewGateMode policy = Some ''advisory'' then Some ''block'' else gp_aiReviewGateMode policy)\<rparr>"

definition host_applyMergeReadinessGate :: "HostGateCheckPolicy \<Rightarrow> HostGateCheckPolicy" where
  "host_applyMergeReadinessGate policy =
     (let composite = mode_or (gp_mergeReadinessGateMode policy) ''off''
      in if composite = ''off'' then policy
         else policy\<lparr>gp_linkedIssueGateMode := Some composite, gp_duplicatePrGateMode := Some composite,
                gp_slopGateMode := Some composite\<rparr>)"

definition host_isEvaluationBlocker :: "string \<Rightarrow> HostGateCheckPolicy \<Rightarrow> bool" where
  "host_isEvaluationBlocker code policy =
     (if code = ''repo_not_cached'' \<or> code = ''repo_not_seen'' \<or> code = ''pr_not_cached'' \<or> code = ''pre_merge_check_unresolved''
      then True
      else if code = CLA_CHECK_UNRESOLVED_CODE then gp_claGateMode policy = Some ''block''
      else False)"

definition resolveConfiguredGateMode :: "AdvisoryFinding \<Rightarrow> HostGateCheckPolicy \<Rightarrow> string" where
  "resolveConfiguredGateMode f policy =
     (let code = af_code f in
      if code = ''missing_linked_issue'' then mode_or (gp_linkedIssueGateMode policy) ''advisory''
      else if code = ''linked_issue_superseded'' then mode_or (gp_linkedIssueGateMode policy) ''advisory''
      else if code = ''duplicate_pr_risk'' then mode_or (gp_duplicatePrGateMode policy) ''advisory''
      else if code = ''duplicate_pr_risk_unconfirmed'' then ''off''
      else if code = ''ai_consensus_defect'' \<or> code = ''ai_review_split'' then
        (let mode = mode_or (gp_aiReviewGateMode policy) ''advisory''
         in if mode \<noteq> ''block'' then mode
            else if or_default (gp_aiReviewLowConfidenceDisposition policy) ''hold_for_review'' = ''advisory_only'' \<and>
                    num_lt (or_default (af_confidence f) CONFIDENCE_WHEN_UNSTATED)
                      (or_default (gp_aiReviewCloseConfidence policy) DEFAULT_AI_REVIEW_CLOSE_CONFIDENCE)
            then ''advisory''
            else ''block'')
      else if code = REVIEW_THREAD_BLOCKER_CODE then ''block''
      else if code = ''secret_leak'' then ''block''
      else if code = ''pre_merge_check_required'' then ''block''
      else if code = ''manifest_missing_tests'' then mode_or (gp_manifestPolicyGateMode policy) ''off''
      else if code = ''manifest_linked_issue_required'' then
        (let manifest = mode_or (gp_manifestPolicyGateMode policy) ''off'';
             linked = mode_or (gp_linkedIssueGateMode policy) ''advisory''
         in if manifest = ''block'' \<or> linked = ''block'' then ''block''
            else if manifest = ''advisory'' \<or> linked = ''advisory'' then ''advisory'' else ''off'')
      else if code = ''self_authored_linked_issue'' then mode_or (gp_selfAuthoredLinkedIssueGateMode policy) ''advisory''
      else if code = ''linked_issue_scope_mismatch'' then mode_or (gp_linkedIssueSatisfactionGateMode policy) ''advisory''
      else if code = ''content_lane_deliverable_missing'' then mode_or (gp_contentLaneDeliverableGateMode policy) ''off''
      else if code = ''backtest_regression'' then mode_or (gp_backtestRegressionGateMode policy) ''advisory''
      else if code = ''lockfile_tamper_risk'' then mode_or (gp_lockfileIntegrityGateMode policy) ''off''
      else if code = CLA_CONSENT_MISSING_CODE then mode_or (gp_claGateMode policy) ''off''
      else ''off'')"

definition host_isConfiguredGateBlocker :: "AdvisoryFinding \<Rightarrow> HostGateCheckPolicy \<Rightarrow> bool" where
  "host_isConfiguredGateBlocker f policy \<longleftrightarrow> resolveConfiguredGateMode f policy = ''block''"

definition host_buildQualityGateWarning :: "HostGateCheckPolicy \<Rightarrow> AdvisoryFinding option" where
  "host_buildQualityGateWarning policy =
     (if mode_or (gp_qualityGateMode policy) ''advisory'' = ''off'' then None
      else (case (host_normalizeScore (gp_readinessScore policy), host_normalizeScore (gp_qualityGateMinScore policy)) of
          (Some score, Some minScore) \<Rightarrow>
            if num_ge score minScore then None
            else Some (finding ''readiness_score_below_threshold'' SeverityWarning ''Readiness score is below the configured threshold''
                   [Lit ''The public readiness score is '', NumV score, Lit ''/100, below the repository threshold of '',
                    NumV minScore, Lit ''/100.'']
                   (Some ''Use the readiness panel as advisory maintainer context; the score does not block this PR.'') None)
        | _ \<Rightarrow> None))"

definition host_buildSlopGateBlocker :: "HostGateCheckPolicy \<Rightarrow> AdvisoryFinding option" where
  "host_buildSlopGateBlocker policy =
     (if mode_or (gp_slopGateMode policy) ''advisory'' \<noteq> ''block'' then None
      else (case host_normalizeScore (gp_slopRisk policy) of
          None \<Rightarrow> None
        | Some risk \<Rightarrow>
            let minScore = or_default (host_normalizeScore (gp_slopGateMinScore policy)) DEFAULT_SLOP_BLOCK_THRESHOLD
            in if num_lt risk minScore then None
               else Some (finding ''slop_risk_above_threshold'' SeverityWarning ''Slop risk is above the configured threshold''
                      [Lit ''The deterministic slop risk is '', NumV risk, Lit ''/100, at or above the repository threshold of '',
                       NumV minScore, Lit ''/100.'']
                      (Some ''Reduce whitespace-only churn, add test evidence, or describe the change, then re-run the gate.'') None)))"

definition host_evaluate_unblocked ::
  "Advisory \<Rightarrow> HostGateCheckPolicy \<Rightarrow> AdvisoryFinding list \<Rightarrow> GateCheckEvaluation" where
  "host_evaluate_unblocked advisoryResult effective gateWarnings =
     (if mode_or (gp_aiReviewGateMode effective) ''advisory'' = ''block'' \<and>
         list_ex (\<lambda>f. af_code f = ''ai_review_inconclusive'') (ad_findings advisoryResult)
      then evaluation ConclNeutral (gate_title ''held for human review'')
             ''The AI review could not be completed for this change, so the gate is held for a human reviewer rather than passed automatically. It re-evaluates on the next update.''
             [] gateWarnings
      else
        (let secretScanIncompleteFindings = filter (\<lambda>f. af_code f = ''secret_scan_incomplete'') (ad_findings advisoryResult)
         in if secretScanIncompleteFindings \<noteq> []
            then evaluation ConclNeutral (gate_title ''held for human review'') (titles_of secretScanIncompleteFindings) []
                   (gateWarnings @ secretScanIncompleteFindings)
            else
              (let holds = opt_list (host_buildSizeHoldFinding effective) @
                     (if gp_guardrailHit effective = Some True
                      then [host_buildGuardrailHoldFinding (or_default (gp_guardrailMatches effective) [])] else [])
               in if holds \<noteq> []
                  then evaluation ConclNeutral (gate_title ''held for manual review'') (titles_of holds) [] (gateWarnings @ holds)
                  else evaluation ConclSuccess (LOOPOVER_GATE_CHECK_NAME @ '' passed'')
                         ''No configured hard blocker was found. Advisory findings, if any, stay advisory.'' [] gateWarnings)))"

definition host_evaluate_blocked ::
  "Advisory \<Rightarrow> HostGateCheckPolicy \<Rightarrow> AdvisoryFinding list \<Rightarrow> AdvisoryFinding list \<Rightarrow> GateCheckEvaluation" where
  "host_evaluate_blocked advisoryResult effective blockers gateWarnings =
     (if list_all (\<lambda>b. af_code b \<in> set DUPLICATE_ONLY_BLOCKER_CODES) blockers
      then evaluation ConclNeutral (gate_title ''held for manual review'') (titles_of blockers) []
             (filter (\<lambda>f. \<not> host_isConfiguredGateBlocker f effective) gateWarnings @ blockers)
      else
        (let titleDetail = (if length blockers = 1 then sanitizeForCheckRun (af_title (hd blockers))
                            else show_nat (length blockers) @ '' blockers'')
         in evaluation ConclFailure (LOOPOVER_GATE_CHECK_NAME @ '': '' @ titleDetail)
              (str_join ''; '' (map (\<lambda>f. sanitizeForCheckRun (af_title f) @
                 (case af_action f of Some a \<Rightarrow> if a \<noteq> [] then '' '' @ em_dash @ '' '' @ sanitizeForCheckRun a else []
                  | None \<Rightarrow> [])) blockers))
              blockers
              (filter (\<lambda>f. af_severity f = SeverityWarning \<and> \<not> host_isConfiguredGateBlocker f effective) (ad_findings advisoryResult) @
               opt_list (host_buildQualityGateWarning effective))))"

definition host_evaluateGateCheckCore :: "Advisory \<Rightarrow> HostGateCheckPolicy \<Rightarrow> GateCheckEvaluation" where
  "host_evaluateGateCheckCore advisoryResult policy =
     (let warnings = filter (\<lambda>f. af_severity f = SeverityWarning) (ad_findings advisoryResult)
      in if list_ex (\<lambda>f. host_isEvaluationBlocker (af_code f) policy) (ad_findings advisoryResult)
         then evaluation ConclNeutral (gate_title ''not evaluated yet'')
                ''LoopOver has not finished syncing this repo/PR. The gate stays advisory and re-evaluates automatically; no action is needed.''
                [] warnings
         else
           (let effective = host_applyMergeReadinessGate policy;
                configuredBlockers = filter (\<lambda>f. host_isConfiguredGateBlocker f effective) (ad_findings advisoryResult);
                blockers = configuredBlockers @ opt_list (host_buildSlopGateBlocker effective);
                gateWarnings = warnings @ opt_list (host_buildQualityGateWarning effective)
            in if length blockers = 0 then host_evaluate_unblocked advisoryResult effective gateWarnings
               else host_evaluate_blocked advisoryResult effective blockers gateWarnings))"

definition host_evaluateGateCheck :: "Advisory \<Rightarrow> HostGateCheckPolicy \<Rightarrow> HostGateCheckEvaluation" where
  "host_evaluateGateCheck advisoryResult policy =
     (let replay = (ad_findings advisoryResult, policy);
          result = host_evaluateGateCheckCore advisoryResult policy
      in GateCheckEvaluation.extend
           (if gp_dryRun policy \<noteq> Some True then result
            else (let wouldBe = host_evaluateGateCheckCore advisoryResult (host_promoteAdvisoryToBlock policy)
                  in result\<lparr>gv_displayConclusion := Some (gv_conclusion wouldBe)\<rparr>))
           (HostGateCheckEvaluation.fields (Some replay)))"


section \<open>Holds\<close>

definition isAiJudgmentOnlyFailure :: "HostGateCheckEvaluation \<Rightarrow> bool" where
  "isAiJudgmentOnlyFailure v \<longleftrightarrow>
     gv_conclusion v = ConclFailure \<and> 0 < length (gv_blockers v) \<and>
     list_all (\<lambda>b. af_code b \<in> set AI_JUDGMENT_BLOCKER_CODES) (gv_blockers v)"

record gate_hold =
  gh_reason :: msg
  gh_comment :: string

definition below_floor :: "HostGateCheckEvaluation \<Rightarrow> jsnum \<Rightarrow> bool" where
  "below_floor v closeFloor = list_ex (\<lambda>b. num_lt (or_default (af_confidence b) CONFIDENCE_WHEN_UNSTATED) closeFloor) (gv_blockers v)"

definition resolveAiReviewLowConfidenceHold :: "HostGateCheckEvaluation \<Rightarrow> HostGateCheckPolicy \<Rightarrow> gate_hold option" where
  "resolveAiReviewLowConfidenceHold v policy =
     (if or_default (gp_aiReviewLowConfidenceDisposition policy) ''hold_for_review'' \<noteq> ''hold_for_review'' then None
      else if \<not> isAiJudgmentOnlyFailure v then None
      else
        (let closeFloor = or_default (gp_aiReviewCloseConfidence policy) DEFAULT_AI_REVIEW_CLOSE_CONFIDENCE
         in if \<not> below_floor v closeFloor then None
            else
              (let floorSource = (if hp_aiReviewCloseConfidenceCalibrated policy = Some True
                                  then ''calibrated risk-control threshold'' else ''configured close-confidence floor'')
               in Some \<lparr>gh_reason = [Lit (''an AI-reviewer defect finding's confidence is below the '' @ floorSource @ '' (''),
                          NumV closeFloor, Lit '')''],
                        gh_comment = ''An AI reviewer flagged a likely defect, but its confidence was below this repository's configured close-confidence floor, so this is held for a maintainer to confirm instead of closing automatically. Resolve the flagged defect (see the review notes), or ask a maintainer to override.''\<rparr>)))"

definition resolveAiReviewSalvageableHold ::
  "HostGateCheckEvaluation \<Rightarrow> HostGateCheckPolicy \<Rightarrow> (jsnum \<times> string list) option \<Rightarrow> gate_hold option" where
  "resolveAiReviewSalvageableHold v policy salvageability =
     (case (hp_aiReviewSalvageabilityMinScore policy, salvageability) of
        (Some minScore, Some (score, factors)) \<Rightarrow>
          if or_default (gp_aiReviewLowConfidenceDisposition policy) ''hold_for_review'' \<noteq> ''hold_for_review'' then None
          else if \<not> isAiJudgmentOnlyFailure v then None
          else if below_floor v (or_default (gp_aiReviewCloseConfidence policy) DEFAULT_AI_REVIEW_CLOSE_CONFIDENCE) then None
          else if num_lt score minScore then None
          else Some \<lparr>gh_reason = [Lit ''the flagged defect looks fixable and the author's record clears the salvageability floor ('',
                       NumV score, Lit ('' '' @ ge_sign @ '' ''), NumV minScore, Lit ('': '' @ str_join ''; '' factors @ '')'')],
                     gh_comment = ''An AI reviewer flagged a likely defect with high confidence, but this PR scored as salvageable (fixable defect class and/or a proven author track record), so it is HELD with guidance instead of closed: push a fix addressing the flagged defect and the next review cycle re-evaluates it. A maintainer can still close or merge manually at any time.''\<rparr>
      | _ \<Rightarrow> None)"

definition isDuplicateOnlyFailure :: "HostGateCheckEvaluation \<Rightarrow> bool" where
  "isDuplicateOnlyFailure v \<longleftrightarrow>
     gv_conclusion v = ConclFailure \<and> 0 < length (gv_blockers v) \<and>
     list_all (\<lambda>b. af_code b \<in> set DUPLICATE_ONLY_BLOCKER_CODES) (gv_blockers v)"


section \<open>Calibration signals\<close>

definition RAW_CONTEXT_EXCLUDED_CODES :: "string list" where
  "RAW_CONTEXT_EXCLUDED_CODES = [''secret_leak'']"

definition RAW_CONTEXT_MAX_DIFF_CHARS :: nat where
  "RAW_CONTEXT_MAX_DIFF_CHARS = 120000"

datatype signal_outcome = OutSeverity AdvisorySeverity | OutScore string

record RuleFiredEvent =
  re_ruleId :: string
  re_targetKey :: string
  re_outcome :: signal_outcome
  re_occurredAt :: string
  re_gateMode :: "string option"
  re_confidence :: "jsnum option"
  re_diff :: "string option"
  re_rawSignal :: "string option"

definition signal_target :: "string \<Rightarrow> nat \<Rightarrow> string" where
  "signal_target repoFullName prNumber = repoFullName @ ''#'' @ show_nat prNumber"

definition blocker_signal ::
  "(jsnum \<Rightarrow> string) \<Rightarrow> string \<Rightarrow> string \<Rightarrow> string option \<Rightarrow> AdvisoryFinding \<Rightarrow> string \<Rightarrow> RuleFiredEvent" where
  "blocker_signal show_num targetKey occurredAt aiReviewDiff f mode =
     (let detail = render show_num (af_detail f);
          raw = af_code f \<notin> set RAW_CONTEXT_EXCLUDED_CODES;
          ai = af_code f \<in> set AI_JUDGMENT_BLOCKER_CODES
      in \<lparr>re_ruleId = af_code f, re_targetKey = targetKey, re_outcome = OutSeverity (af_severity f), re_occurredAt = occurredAt,
          re_gateMode = Some mode, re_confidence = af_confidence f,
          re_diff = (if raw \<and> ai then map_option (take RAW_CONTEXT_MAX_DIFF_CHARS) aiReviewDiff else None),
          re_rawSignal = (if raw \<and> \<not> ai \<and> detail \<noteq> [] then Some (take RAW_CONTEXT_MAX_DIFF_CHARS detail) else None)\<rparr>)"

definition recordConfiguredGateBlockerSignals ::
  "(jsnum \<Rightarrow> string) \<Rightarrow> string \<Rightarrow> Advisory \<Rightarrow> HostGateCheckPolicy \<Rightarrow> string \<Rightarrow> nat \<Rightarrow> string option \<Rightarrow> RuleFiredEvent list" where
  "recordConfiguredGateBlockerSignals show_num now advisoryResult policy repoFullName prNumber aiReviewDiff =
     (let effective = host_applyMergeReadinessGate policy;
          recordable = filter (\<lambda>(f, mode). mode \<noteq> ''off'' \<and> af_code f \<noteq> ''linked_issue_scope_mismatch'')
            (map (\<lambda>f. (f, resolveConfiguredGateMode f effective)) (ad_findings advisoryResult))
      in map (\<lambda>(f, mode). blocker_signal show_num (signal_target repoFullName prNumber) now aiReviewDiff f mode) recordable)"

definition score_signal ::
  "(jsnum \<Rightarrow> string) \<Rightarrow> string \<Rightarrow> string \<Rightarrow> string \<Rightarrow> string \<Rightarrow> jsnum \<Rightarrow> msg \<Rightarrow> RuleFiredEvent" where
  "score_signal show_num targetKey occurredAt ruleId outcome score raw =
     \<lparr>re_ruleId = ruleId, re_targetKey = targetKey, re_outcome = OutScore outcome, re_occurredAt = occurredAt,
      re_gateMode = None, re_confidence = Some (num_div score (Fin 100)), re_diff = None,
      re_rawSignal = Some (render show_num raw)\<rparr>"

definition recordGateScoreSignals ::
  "(jsnum \<Rightarrow> string) \<Rightarrow> string \<Rightarrow> HostGateCheckPolicy \<Rightarrow> string \<Rightarrow> nat \<Rightarrow> RuleFiredEvent list" where
  "recordGateScoreSignals show_num now policy repoFullName prNumber =
     (let effective = host_applyMergeReadinessGate policy;
          targetKey = signal_target repoFullName prNumber;
          slopMode = mode_or (gp_slopGateMode effective) ''advisory'';
          qualityMode = mode_or (gp_qualityGateMode effective) ''advisory''
      in (case host_normalizeScore (gp_slopRisk effective) of
            None \<Rightarrow> []
          | Some slopRisk \<Rightarrow>
              if slopMode = ''block'' then
                (let slopMin = or_default (host_normalizeScore (gp_slopGateMinScore effective)) DEFAULT_SLOP_BLOCK_THRESHOLD
                 in [score_signal show_num targetKey now ''slop_gate_score''
                       (if num_ge slopRisk slopMin then ''above_threshold'' else ''below_threshold'') slopRisk
                       [Lit ''deterministic slop risk '', NumV slopRisk, Lit ''/100 vs threshold '', NumV slopMin,
                        Lit (''/100 (mode '' @ slopMode @ '')'')]])
              else []) @
         (case (host_normalizeScore (gp_readinessScore effective), host_normalizeScore (gp_qualityGateMinScore effective)) of
            (Some readinessScore, Some qualityMin) \<Rightarrow>
              if qualityMode \<noteq> ''off'' then
                [score_signal show_num targetKey now ''quality_gate_score''
                   (if num_lt readinessScore qualityMin then ''below_threshold'' else ''at_or_above_threshold'') readinessScore
                   [Lit ''public readiness score '', NumV readinessScore, Lit ''/100 vs threshold '', NumV qualityMin,
                    Lit (''/100 (mode '' @ qualityMode @ '')'')]]
              else []
          | _ \<Rightarrow> []))"


section \<open>The posted text\<close>

definition GATE_CHECK_BLOCKER_LIMIT :: nat where
  "GATE_CHECK_BLOCKER_LIMIT = 8"

record gate_output =
  go_title :: string
  go_summary :: string
  go_text :: string

definition ellipsis :: string where
  "ellipsis = [CHR 0xE2, CHR 0x80, CHR 0xA6]"

definition blocker_line :: "AdvisoryFinding \<Rightarrow> string" where
  "blocker_line f =
     ''- '' @ sanitizeForCheckRun (af_title f) @ ''.'' @
     (case af_action f of Some a \<Rightarrow> if a \<noteq> [] then '' Action: '' @ sanitizeForCheckRun a else [] | None \<Rightarrow> [])"

definition formatGateCheckOutput :: "HostGateCheckEvaluation \<Rightarrow> gate_output" where
  "formatGateCheckOutput gate =
     (if gv_conclusion gate = ConclSuccess
      then \<lparr>go_title = gv_title gate,
            go_summary = LOOPOVER_GATE_CHECK_NAME @ '' is advisory-first. This PR has no configured hard blocker.'',
            go_text = ''No configured hard blocker was found. Advisory signals remain visible in the PR panel when comments are enabled.''\<rparr>
      else if gv_conclusion gate = ConclNeutral \<or> gv_conclusion gate = ConclSkipped
      then \<lparr>go_title = take 255 (gv_title gate), go_summary = gv_summary gate,
            go_text = ''LoopOver did not create a contributor-facing failure for this event.''\<rparr>
      else
        (let blockerLines = map blocker_line (take GATE_CHECK_BLOCKER_LIMIT (gv_blockers gate));
             omittedCount = length (gv_blockers gate) - GATE_CHECK_BLOCKER_LIMIT;
             text = (if blockerLines \<noteq> [] then str_join [CHR 0x0A] blockerLines else ''A configured hard blocker was found.'')
         in \<lparr>go_title = take 255 (gv_title gate),
             go_summary = LOOPOVER_GATE_CHECK_NAME @ '' found a repo-configured hard blocker.'',
             go_text = (if 0 < omittedCount
                then text @ [CHR 0x0A, CHR 0x0A] @ ellipsis @ show_nat omittedCount @
                     '' more configured blocker(s) omitted from inline check output.''
                else text)\<rparr>))"


section \<open>The twins agree\<close>

abbreviation engine_policy :: "HostGateCheckPolicy \<Rightarrow> GateCheckPolicy" where
  "engine_policy \<equiv> GateCheckPolicy.truncate"

lemma truncate_modes [simp]:
  "gp_linkedIssueGateMode (engine_policy p) = gp_linkedIssueGateMode p"
  "gp_duplicatePrGateMode (engine_policy p) = gp_duplicatePrGateMode p"
  "gp_qualityGateMode (engine_policy p) = gp_qualityGateMode p"
  "gp_qualityGateMinScore (engine_policy p) = gp_qualityGateMinScore p"
  "gp_aiReviewGateMode (engine_policy p) = gp_aiReviewGateMode p"
  "gp_aiReviewCloseConfidence (engine_policy p) = gp_aiReviewCloseConfidence p"
  "gp_aiReviewLowConfidenceDisposition (engine_policy p) = gp_aiReviewLowConfidenceDisposition p"
  "gp_readinessScore (engine_policy p) = gp_readinessScore p"
  "gp_slopGateMode (engine_policy p) = gp_slopGateMode p"
  "gp_slopGateMinScore (engine_policy p) = gp_slopGateMinScore p"
  "gp_slopRisk (engine_policy p) = gp_slopRisk p"
  "gp_mergeReadinessGateMode (engine_policy p) = gp_mergeReadinessGateMode p"
  "gp_manifestPolicyGateMode (engine_policy p) = gp_manifestPolicyGateMode p"
  "gp_selfAuthoredLinkedIssueGateMode (engine_policy p) = gp_selfAuthoredLinkedIssueGateMode p"
  "gp_linkedIssueSatisfactionGateMode (engine_policy p) = gp_linkedIssueSatisfactionGateMode p"
  "gp_contentLaneDeliverableGateMode (engine_policy p) = gp_contentLaneDeliverableGateMode p"
  "gp_backtestRegressionGateMode (engine_policy p) = gp_backtestRegressionGateMode p"
  "gp_claGateMode (engine_policy p) = gp_claGateMode p"
  "gp_authorMergedPrCount (engine_policy p) = gp_authorMergedPrCount p"
  "gp_authorClosedUnmergedPrCount (engine_policy p) = gp_authorClosedUnmergedPrCount p"
  "gp_confirmedContributor (engine_policy p) = gp_confirmedContributor p"
  "gp_sizeGateMode (engine_policy p) = gp_sizeGateMode p"
  "gp_sizeGateMaxFiles (engine_policy p) = gp_sizeGateMaxFiles p"
  "gp_sizeGateMaxLines (engine_policy p) = gp_sizeGateMaxLines p"
  "gp_lockfileIntegrityGateMode (engine_policy p) = gp_lockfileIntegrityGateMode p"
  "gp_changedFileCount (engine_policy p) = gp_changedFileCount p"
  "gp_changedLineCount (engine_policy p) = gp_changedLineCount p"
  "gp_guardrailHit (engine_policy p) = gp_guardrailHit p"
  "gp_guardrailMatches (engine_policy p) = gp_guardrailMatches p"
  "gp_dryRun (engine_policy p) = gp_dryRun p"
  by (simp_all add: GateCheckPolicy.truncate_def)

lemma host_gateMode_eq: "host_gateMode = gateMode"
  by (simp add: fun_eq_iff host_gateMode_def gateMode_def)

lemma host_normalizeScore_eq: "host_normalizeScore = normalizeScore"
  by (simp add: fun_eq_iff host_normalizeScore_def normalizeScore_def)

lemma host_buildSizeHoldFinding_eq: "host_buildSizeHoldFinding p = buildSizeHoldFinding (engine_policy p)"
  by (simp add: host_buildSizeHoldFinding_def buildSizeHoldFinding_def cong: if_cong split del: if_split)

lemma host_buildGuardrailHoldFinding_eq: "host_buildGuardrailHoldFinding = buildGuardrailHoldFinding"
  by (simp add: fun_eq_iff host_buildGuardrailHoldFinding_def buildGuardrailHoldFinding_def)

lemma host_promote_eq: "engine_policy (host_promoteAdvisoryToBlock p) = promoteAdvisoryToBlock (engine_policy p)"
  by (simp add: host_promoteAdvisoryToBlock_def promoteAdvisoryToBlock_def GateCheckPolicy.truncate_def)

lemma host_apply_eq: "engine_policy (host_applyMergeReadinessGate p) = applyMergeReadinessGate (engine_policy p)"
  by (simp add: host_applyMergeReadinessGate_def applyMergeReadinessGate_def host_gateMode_eq GateCheckPolicy.truncate_def Let_def)

lemma host_isEvaluationBlocker_eq: "host_isEvaluationBlocker c p = isEvaluationBlocker c (engine_policy p)"
  by (simp add: host_isEvaluationBlocker_def isEvaluationBlocker_def)

lemma host_buildSlopGateBlocker_eq: "host_buildSlopGateBlocker p = buildSlopGateBlocker (engine_policy p)"
  by (simp add: host_buildSlopGateBlocker_def buildSlopGateBlocker_def host_gateMode_eq host_normalizeScore_eq
      cong: if_cong option.case_cong split del: if_split)

lemma host_buildQualityGateWarning_eq: "host_buildQualityGateWarning p = buildQualityGateWarning (engine_policy p)"
proof -
  have "mode_or m ''advisory'' = ''off'' \<longleftrightarrow> gateMode m = ''off''" for m
    by (cases m) (simp_all add: host_gateMode_eq gateMode_def)
  then show ?thesis
    by (simp add: host_buildQualityGateWarning_def buildQualityGateWarning_def host_normalizeScore_eq
        cong: if_cong option.case_cong split del: if_split)
qed

lemma if_block: "(if b then x else y) = z \<longleftrightarrow> (if b then x = z else y = z)"
  by simp

lemma host_isConfiguredGateBlocker_eq:
  assumes "af_code f \<noteq> ''linked_issue_superseded''"
  shows "host_isConfiguredGateBlocker f p = isConfiguredGateBlocker f (engine_policy p)"
proof -
  have linked: "(if P then True else if Q then False else False) \<longleftrightarrow> P" for P Q by simp
  have ai: "(if m \<noteq> z then m = z else X) \<longleftrightarrow> (if \<not> m = z then False else X)" for m z :: string and X by simp
  have other: "(''advisory'' = ''block'') = False" "(''off'' = ''block'') = False" by simp_all
  have blocks: "gatePolicyBlocks m d \<longleftrightarrow> mode_or m d = ''block''" for m d by (simp add: gatePolicyBlocks_def host_gateMode_eq)
  show ?thesis
    unfolding host_isConfiguredGateBlocker_def resolveConfiguredGateMode_def isConfiguredGateBlocker_def Let_def blocks truncate_modes
    by (simp only: if_block assms if_False linked ai other simp_thms cong del: if_weak_cong)
qed

lemma quality_not_blocking:
  assumes "buildQualityGateWarning d = Some q"
  shows "\<not> isConfiguredGateBlocker q e \<and> af_code q \<noteq> ''linked_issue_superseded''"
proof -
  from assms have "af_code q = ''readiness_score_below_threshold''"
    by (auto simp: buildQualityGateWarning_def finding_def split: if_splits option.splits)
  then show ?thesis
    by (simp add: isConfiguredGateBlocker_def REVIEW_THREAD_BLOCKER_CODE_def CLA_CONSENT_MISSING_CODE_def split del: if_split)
qed

lemma host_core_eq:
  assumes "\<forall>f \<in> set (ad_findings a). af_code f \<noteq> ''linked_issue_superseded''"
  shows "host_evaluateGateCheckCore a p = evaluateGateCheckCore a (engine_policy p)"
proof -
  let ?e = "host_applyMergeReadinessGate p" and ?w = "filter (\<lambda>f. af_severity f = SeverityWarning) (ad_findings a)"
  have same: "host_isConfiguredGateBlocker f ?e = isConfiguredGateBlocker f (engine_policy ?e)" if "f \<in> set (ad_findings a)" for f
    using assms that host_isConfiguredGateBlocker_eq by blast
  then have blockers: "filter (\<lambda>f. host_isConfiguredGateBlocker f ?e) (ad_findings a) =
      filter (\<lambda>f. isConfiguredGateBlocker f (engine_policy ?e)) (ad_findings a)" by (intro filter_cong) auto
  have shown: "filter (\<lambda>f. \<not> host_isConfiguredGateBlocker f ?e) (?w @ opt_list (buildQualityGateWarning (engine_policy ?e))) =
      filter (\<lambda>f. \<not> isConfiguredGateBlocker f (engine_policy ?e)) (?w @ opt_list (buildQualityGateWarning (engine_policy ?e)))"
    by (intro filter_cong refl) (use same quality_not_blocking host_isConfiguredGateBlocker_eq in \<open>auto; blast\<close>)
  have listed: "filter (\<lambda>f. af_severity f = SeverityWarning \<and> \<not> host_isConfiguredGateBlocker f ?e) (ad_findings a) =
      filter (\<lambda>f. af_severity f = SeverityWarning \<and> \<not> isConfiguredGateBlocker f (engine_policy ?e)) (ad_findings a)"
    by (intro filter_cong) (use same in auto)
  have unblocked: "host_evaluate_unblocked a e w = evaluate_unblocked a (engine_policy e) w" for e w
    by (simp add: host_evaluate_unblocked_def evaluate_unblocked_def host_buildSizeHoldFinding_eq gatePolicyBlocks_def
        host_buildGuardrailHoldFinding_eq host_gateMode_eq cong: if_cong split del: if_split)
  have blocked: "host_evaluate_blocked a ?e b (?w @ opt_list (buildQualityGateWarning (engine_policy ?e))) =
      evaluate_blocked a (engine_policy ?e) b (?w @ opt_list (buildQualityGateWarning (engine_policy ?e)))" for b
    unfolding host_evaluate_blocked_def evaluate_blocked_def Let_def shown listed
    by (simp add: DUPLICATE_ONLY_BLOCKER_CODES_def host_buildQualityGateWarning_eq)
  show ?thesis
    unfolding host_evaluateGateCheckCore_def evaluateGateCheckCore_def Let_def host_isEvaluationBlocker_eq
      host_apply_eq[symmetric] blockers blocked unblocked host_buildSlopGateBlocker_eq host_buildQualityGateWarning_eq ..
qed

text \<open>C9: The two copies of the gate agree. On every advisory without a superseded-issue finding and under every policy,
  the gate the service runs on a real pull request returns the evaluation the engine predicts: conclusion, dry-run
  conclusion, title, summary, blockers and warnings.\<close>

theorem host_and_engine_gate_agree:
  assumes "\<forall>f \<in> set (ad_findings a). af_code f \<noteq> ''linked_issue_superseded''"
  shows "GateCheckEvaluation.truncate (host_evaluateGateCheck a p) = evaluateGateCheck a (engine_policy p)"
proof -
  have [simp]: "GateCheckEvaluation.truncate (GateCheckEvaluation.extend v m) = v" for v m
    by (cases v) (simp add: GateCheckEvaluation.truncate_def GateCheckEvaluation.extend_def)
  show ?thesis
    unfolding host_evaluateGateCheck_def evaluateGateCheck_def Let_def host_core_eq[OF assms] host_promote_eq truncate_modes
    by simp
qed

lemma host_posted:
  "gv_conclusion (host_evaluateGateCheck a p) = gv_conclusion (host_evaluateGateCheckCore a p)"
  "gv_blockers (host_evaluateGateCheck a p) = gv_blockers (host_evaluateGateCheckCore a p)"
  "gv_title (host_evaluateGateCheck a p) = gv_title (host_evaluateGateCheckCore a p)"
  by (simp_all add: host_evaluateGateCheck_def GateCheckEvaluation.extend_def Let_def)

definition host_blockers :: "Advisory \<Rightarrow> HostGateCheckPolicy \<Rightarrow> AdvisoryFinding list" where
  "host_blockers a p =
     filter (\<lambda>f. host_isConfiguredGateBlocker f (host_applyMergeReadinessGate p)) (ad_findings a) @
     opt_list (host_buildSlopGateBlocker (host_applyMergeReadinessGate p))"

lemma host_unblocked_conclusion:
  "gv_conclusion (host_evaluate_unblocked a e w) \<noteq> ConclFailure" "gv_blockers (host_evaluate_unblocked a e w) = []"
  by (auto simp: host_evaluate_unblocked_def Let_def)

lemma host_failure:
  "gv_conclusion (host_evaluateGateCheck a p) = ConclFailure \<longleftrightarrow>
     \<not> (\<exists>f \<in> set (ad_findings a). host_isEvaluationBlocker (af_code f) p) \<and>
     (\<exists>b \<in> set (host_blockers a p). af_code b \<noteq> ''duplicate_pr_risk'')"
  "gv_blockers (host_evaluateGateCheck a p) =
     (if gv_conclusion (host_evaluateGateCheck a p) = ConclFailure then host_blockers a p else [])"
proof -
  have core: "host_evaluateGateCheckCore a p =
     (let w = filter (\<lambda>f. af_severity f = SeverityWarning) (ad_findings a); e = host_applyMergeReadinessGate p;
          gw = w @ opt_list (host_buildQualityGateWarning e)
      in if \<exists>f \<in> set (ad_findings a). host_isEvaluationBlocker (af_code f) p
         then evaluation ConclNeutral (gate_title ''not evaluated yet'')
                ''LoopOver has not finished syncing this repo/PR. The gate stays advisory and re-evaluates automatically; no action is needed.''
                [] w
         else if host_blockers a p = [] then host_evaluate_unblocked a e gw
         else host_evaluate_blocked a e (host_blockers a p) gw)"
    by (simp add: host_evaluateGateCheckCore_def host_blockers_def list_ex_iff Let_def)
  have blocked: "gv_conclusion (host_evaluate_blocked a e b w) = ConclFailure \<longleftrightarrow> (\<exists>x \<in> set b. af_code x \<noteq> ''duplicate_pr_risk'')"
    "gv_blockers (host_evaluate_blocked a e b w) = (if \<exists>x \<in> set b. af_code x \<noteq> ''duplicate_pr_risk'' then b else [])" for e b w
    by (auto simp: host_evaluate_blocked_def DUPLICATE_ONLY_BLOCKER_CODES_def Let_def list_all_iff)
  show "gv_conclusion (host_evaluateGateCheck a p) = ConclFailure \<longleftrightarrow>
     \<not> (\<exists>f \<in> set (ad_findings a). host_isEvaluationBlocker (af_code f) p) \<and>
     (\<exists>b \<in> set (host_blockers a p). af_code b \<noteq> ''duplicate_pr_risk'')"
    unfolding host_posted core Let_def by (auto simp: blocked host_unblocked_conclusion)
  show "gv_blockers (host_evaluateGateCheck a p) =
     (if gv_conclusion (host_evaluateGateCheck a p) = ConclFailure then host_blockers a p else [])"
    unfolding host_posted core Let_def by (auto simp: blocked host_unblocked_conclusion)
qed

text \<open>C39: The copies disagree about a superseded pull request: under a policy that blocks on a missing linked issue and
  holds on nothing else, a pull request whose only finding is that a merged rival closed its issue fails the service's
  gate, while the engine predicts that it passes, because the engine's blocker test has no case for that finding.\<close>

theorem superseded_verdicts_differ:
  assumes "ad_findings a = [f]" "af_code f = ''linked_issue_superseded''"
    and "gp_linkedIssueGateMode p = Some ''block''" "gp_mergeReadinessGateMode p = None" "\<not> policy_holds (engine_policy p)"
  shows "gv_conclusion (host_evaluateGateCheck a p) = ConclFailure \<and>
    gv_conclusion (evaluateGateCheck a (engine_policy p)) = ConclSuccess"
proof -
  have e: "host_applyMergeReadinessGate p = p" "applyMergeReadinessGate (engine_policy p) = engine_policy p"
    using assms(4) by (simp_all add: host_applyMergeReadinessGate_def applyMergeReadinessGate_def host_gateMode_def gateMode_def)
  have "host_isConfiguredGateBlocker f p"
    using assms(2,3) by (simp add: host_isConfiguredGateBlocker_def resolveConfiguredGateMode_def host_gateMode_def split del: if_split)
  moreover have "\<not> host_isEvaluationBlocker (af_code f) p" "\<not> isEvaluationBlocker (af_code f) (engine_policy p)"
    using assms(2) by (simp_all add: host_isEvaluationBlocker_def isEvaluationBlocker_def CLA_CHECK_UNRESOLVED_CODE_def)
  moreover have "\<not> isConfiguredGateBlocker f (engine_policy p)"
    using assms(2) by (simp add: isConfiguredGateBlocker_def REVIEW_THREAD_BLOCKER_CODE_def CLA_CONSENT_MISSING_CODE_def split del: if_split)
  ultimately show ?thesis using assms(1,2,5)
    unfolding host_failure success_iff by (auto simp: host_blockers_def holds_gate_def e)
qed

text \<open>The two holds that soften an AI-judgment failure exclude each other, and neither softens anything else. A gate
  held for low confidence is never also held as salvageable; either hold needs a failure all of whose blockers are AI
  judgments; a repository that made low-confidence findings advisory never fails on one; and no failure consists of
  duplicate findings only.\<close>

theorem ai_holds_are_exclusive:
  fixes a p s
  defines "v \<equiv> host_evaluateGateCheck a p"
  shows "(resolveAiReviewLowConfidenceHold v p \<noteq> None \<longrightarrow> resolveAiReviewSalvageableHold v p s = None) \<and>
    (resolveAiReviewLowConfidenceHold v p \<noteq> None \<or> resolveAiReviewSalvageableHold v p s \<noteq> None \<longrightarrow>
       gv_conclusion v = ConclFailure \<and> (\<forall>b \<in> set (gv_blockers v). af_code b \<in> set AI_JUDGMENT_BLOCKER_CODES)) \<and>
    (gp_aiReviewLowConfidenceDisposition p = Some ''advisory_only'' \<longrightarrow>
       (\<forall>b \<in> set (gv_blockers v). af_code b \<in> set AI_JUDGMENT_BLOCKER_CODES \<longrightarrow>
          \<not> num_lt (or_default (af_confidence b) CONFIDENCE_WHEN_UNSTATED)
              (or_default (gp_aiReviewCloseConfidence p) DEFAULT_AI_REVIEW_CLOSE_CONFIDENCE))) \<and>
    \<not> isDuplicateOnlyFailure v"
proof -
  let ?e = "host_applyMergeReadinessGate p"
  have e: "gp_aiReviewLowConfidenceDisposition ?e = gp_aiReviewLowConfidenceDisposition p"
    "gp_aiReviewCloseConfidence ?e = gp_aiReviewCloseConfidence p"
    by (simp_all add: host_applyMergeReadinessGate_def Let_def)
  have slop: "host_buildSlopGateBlocker ?e = Some b \<Longrightarrow> af_code b = ''slop_risk_above_threshold''" for b
    using slop_not_duplicate unfolding host_buildSlopGateBlocker_eq by blast
  have floor: "\<not> num_lt (or_default (af_confidence b) CONFIDENCE_WHEN_UNSTATED)
              (or_default (gp_aiReviewCloseConfidence p) DEFAULT_AI_REVIEW_CLOSE_CONFIDENCE)"
    if "b \<in> set (gv_blockers v)" "af_code b \<in> set AI_JUDGMENT_BLOCKER_CODES"
      "gp_aiReviewLowConfidenceDisposition p = Some ''advisory_only''" for b
  proof -
    have "host_isConfiguredGateBlocker b ?e"
      using that(1,2) slop unfolding v_def host_failure(2) by (auto simp: host_blockers_def AI_JUDGMENT_BLOCKER_CODES_def split: if_splits)
    then show ?thesis using that(2,3) e unfolding AI_JUDGMENT_BLOCKER_CODES_def set_simps
      by (elim insertE emptyE)
        (auto simp: host_isConfiguredGateBlocker_def resolveConfiguredGateMode_def Let_def split: if_splits)
  qed
  have "\<not> isDuplicateOnlyFailure v"
    using host_failure[of a p] by (auto simp: v_def isDuplicateOnlyFailure_def DUPLICATE_ONLY_BLOCKER_CODES_def list_all_iff)
  moreover have "resolveAiReviewLowConfidenceHold v p \<noteq> None \<Longrightarrow> resolveAiReviewSalvageableHold v p s = None"
    by (auto simp: resolveAiReviewLowConfidenceHold_def resolveAiReviewSalvageableHold_def Let_def split: if_splits option.splits)
  moreover have "resolveAiReviewLowConfidenceHold v p \<noteq> None \<or> resolveAiReviewSalvageableHold v p s \<noteq> None \<Longrightarrow> isAiJudgmentOnlyFailure v"
    by (auto simp: resolveAiReviewLowConfidenceHold_def resolveAiReviewSalvageableHold_def Let_def split: if_splits option.splits)
  ultimately show ?thesis using floor unfolding isAiJudgmentOnlyFailure_def list_all_iff by blast
qed


section \<open>Every decision is recorded\<close>

lemma recorded_codes:
  "resolveConfiguredGateMode f e \<noteq> ''off'' \<Longrightarrow> af_code f \<noteq> ''linked_issue_scope_mismatch'' \<Longrightarrow>
     af_code f \<in> set CONFIGURED_GATE_BLOCKER_SIGNAL_CODES"
proof (rule ccontr)
  assume mode: "resolveConfiguredGateMode f e \<noteq> ''off''" and scope: "af_code f \<noteq> ''linked_issue_scope_mismatch''"
    and "af_code f \<notin> set CONFIGURED_GATE_BLOCKER_SIGNAL_CODES"
  then have none: "af_code f \<noteq> ''missing_linked_issue''" "af_code f \<noteq> ''linked_issue_superseded''" "af_code f \<noteq> ''duplicate_pr_risk''"
    "af_code f \<noteq> ''ai_consensus_defect''" "af_code f \<noteq> ''ai_review_split''" "af_code f \<noteq> REVIEW_THREAD_BLOCKER_CODE"
    "af_code f \<noteq> ''secret_leak''" "af_code f \<noteq> ''pre_merge_check_required''" "af_code f \<noteq> ''manifest_missing_tests''"
    "af_code f \<noteq> ''manifest_linked_issue_required''" "af_code f \<noteq> ''self_authored_linked_issue''"
    "af_code f \<noteq> ''content_lane_deliverable_missing''" "af_code f \<noteq> ''backtest_regression''"
    "af_code f \<noteq> ''lockfile_tamper_risk''" "af_code f \<noteq> CLA_CONSENT_MISSING_CODE"
    by (auto simp: CONFIGURED_GATE_BLOCKER_SIGNAL_CODES_def AI_JUDGMENT_BLOCKER_CODES_def)
  then have "resolveConfiguredGateMode f e = ''off''"
    unfolding resolveConfiguredGateMode_def Let_def by (simp only: scope none if_False disj_not1 simp_thms if_cancel)
  then show False using mode by blast
qed

lemma configured_signal:
  "s \<in> set (recordConfiguredGateBlockerSignals show_num now a p repo n diff) \<longleftrightarrow>
     (\<exists>f \<in> set (ad_findings a). \<exists>mode. mode = resolveConfiguredGateMode f (host_applyMergeReadinessGate p) \<and> mode \<noteq> ''off'' \<and>
        af_code f \<noteq> ''linked_issue_scope_mismatch'' \<and> s = blocker_signal show_num (signal_target repo n) now diff f mode)"
  by (auto simp: recordConfiguredGateBlockerSignals_def Let_def)

lemma slop_score_signal:
  assumes "host_buildSlopGateBlocker (host_applyMergeReadinessGate p) = Some b"
  shows "\<exists>s \<in> set (recordGateScoreSignals show_num now p repo n). re_ruleId s = ''slop_gate_score'' \<and> re_outcome s = OutScore ''above_threshold''"
proof -
  have finite: "host_normalizeScore x = Some r \<Longrightarrow> r \<noteq> NaN" for x r
    by (auto simp: host_normalizeScore_def isFinite_iff split: option.splits if_splits)
  have threshold: "or_default (host_normalizeScore x) DEFAULT_SLOP_BLOCK_THRESHOLD \<noteq> NaN" for x
    using finite by (cases "host_normalizeScore x") (auto simp: DEFAULT_SLOP_BLOCK_THRESHOLD_def)
  let ?e = "host_applyMergeReadinessGate p"
  let ?min = "or_default (host_normalizeScore (gp_slopGateMinScore ?e)) DEFAULT_SLOP_BLOCK_THRESHOLD"
  from assms obtain risk where risk: "mode_or (gp_slopGateMode ?e) ''advisory'' = ''block''"
    "host_normalizeScore (gp_slopRisk ?e) = Some risk" "\<not> num_lt risk ?min"
    by (auto simp: host_buildSlopGateBlocker_def Let_def split: if_splits option.splits)
  then have "num_ge risk ?min" using num_not_lt[OF finite[OF risk(2)] threshold] by blast
  then have "score_signal show_num (signal_target repo n) now ''slop_gate_score'' ''above_threshold'' risk
      [Lit ''deterministic slop risk '', NumV risk, Lit ''/100 vs threshold '', NumV ?min, Lit (''/100 (mode '' @ ''block'' @ '')'')]
      \<in> set (recordGateScoreSignals show_num now p repo n)"
    using risk(1,2) by (simp add: recordGateScoreSignals_def Let_def)
  then show ?thesis by (rule bexI[rotated]) (simp add: score_signal_def)
qed

text \<open>Every decision leaves its calibration evidence. Each blocker of a failed gate is recorded under its own rule with
  the mode that made it block, except the linked-issue scope mismatch (recorded elsewhere) and the slop blocker, whose
  score is recorded above its threshold; every recorded rule is one of the declared signal codes; and a leaked secret
  is recorded without any of the text that contains it.\<close>

theorem decisions_are_recorded:
  fixes a p show_num now repo n diff
  defines "fired \<equiv> recordConfiguredGateBlockerSignals show_num now a p repo n diff"
  shows "(\<forall>b \<in> set (gv_blockers (host_evaluateGateCheck a p)).
      af_code b = ''linked_issue_scope_mismatch'' \<or>
      (\<exists>s \<in> set fired. re_ruleId s = af_code b \<and> re_gateMode s = Some ''block'') \<or>
      af_code b = ''slop_risk_above_threshold'' \<and>
        (\<exists>s \<in> set (recordGateScoreSignals show_num now p repo n). re_ruleId s = ''slop_gate_score'' \<and> re_outcome s = OutScore ''above_threshold'')) \<and>
    (\<forall>s \<in> set fired. re_ruleId s \<in> set CONFIGURED_GATE_BLOCKER_SIGNAL_CODES \<and> re_targetKey s = repo @ ''#'' @ show_nat n \<and>
       (re_ruleId s = ''secret_leak'' \<longrightarrow> re_diff s = None \<and> re_rawSignal s = None))"
proof -
  let ?e = "host_applyMergeReadinessGate p"
  have configured: "\<exists>s \<in> set fired. re_ruleId s = af_code b \<and> re_gateMode s = Some ''block''"
    if "b \<in> set (ad_findings a)" "host_isConfiguredGateBlocker b ?e" "af_code b \<noteq> ''linked_issue_scope_mismatch''" for b
  proof -
    have "resolveConfiguredGateMode b ?e = ''block''" using that(2) by (simp add: host_isConfiguredGateBlocker_def)
    then have "blocker_signal show_num (signal_target repo n) now diff b ''block'' \<in> set fired"
      using that(1,3) unfolding fired_def configured_signal by force
    then show ?thesis by (rule bexI[rotated]) (simp add: blocker_signal_def Let_def)
  qed
  have slop: "\<exists>s \<in> set (recordGateScoreSignals show_num now p repo n). re_ruleId s = ''slop_gate_score'' \<and> re_outcome s = OutScore ''above_threshold''"
    "af_code b = ''slop_risk_above_threshold''" if "host_buildSlopGateBlocker ?e = Some b" for b
    using slop_score_signal[OF that] that slop_not_duplicate unfolding host_buildSlopGateBlocker_eq by blast+
  have codes: "re_ruleId s \<in> set CONFIGURED_GATE_BLOCKER_SIGNAL_CODES \<and> re_targetKey s = repo @ ''#'' @ show_nat n \<and>
      (re_ruleId s = ''secret_leak'' \<longrightarrow> re_diff s = None \<and> re_rawSignal s = None)" if "s \<in> set fired" for s
    using that recorded_codes unfolding fired_def configured_signal
    by (auto simp: blocker_signal_def RAW_CONTEXT_EXCLUDED_CODES_def signal_target_def Let_def)
  have "b \<in> set (ad_findings a) \<and> host_isConfiguredGateBlocker b ?e \<or> host_buildSlopGateBlocker ?e = Some b"
    if "b \<in> set (gv_blockers (host_evaluateGateCheck a p))" for b
    using that unfolding host_failure(2) by (auto simp: host_blockers_def split: if_splits)
  then show ?thesis using configured slop codes by blast
qed

text \<open>The posted text is bounded and discloses what it leaves out. A check-run title has at most 255 characters; a
  failed gate lists its first eight blockers, one line each, followed by the number of those it left out if there are
  more.\<close>

theorem posted_text_is_bounded:
  fixes a p
  defines "v \<equiv> host_evaluateGateCheck a p"
  shows "length (go_title (formatGateCheckOutput v)) \<le> 255 \<and>
    (gv_conclusion v = ConclFailure \<longrightarrow>
       go_text (formatGateCheckOutput v) =
         str_join [CHR 0x0A] (map blocker_line (take 8 (gv_blockers v))) @
         (if 8 < length (gv_blockers v)
          then [CHR 0x0A, CHR 0x0A] @ ellipsis @ show_nat (length (gv_blockers v) - 8) @
               '' more configured blocker(s) omitted from inline check output.''
          else []))"
proof -
  have "gv_conclusion v = ConclSuccess \<Longrightarrow> gv_title v = LOOPOVER_GATE_CHECK_NAME @ '' passed''"
    unfolding v_def host_posted
    by (auto simp: host_evaluateGateCheckCore_def host_evaluate_unblocked_def host_evaluate_blocked_def evaluation_def Let_def
        split: if_splits)
  then have "length (go_title (formatGateCheckOutput v)) \<le> 255"
    by (auto simp: formatGateCheckOutput_def LOOPOVER_GATE_CHECK_NAME_def Let_def)
  moreover have "gv_conclusion v = ConclFailure \<Longrightarrow> gv_blockers v \<noteq> []"
    using host_failure[of a p] by (auto simp: v_def)
  ultimately show ?thesis by (auto simp: formatGateCheckOutput_def GATE_CHECK_BLOCKER_LIMIT_def Let_def)
qed


section \<open>Samples\<close>

definition empty_host_policy :: HostGateCheckPolicy where
  "empty_host_policy = GateCheckPolicy.extend empty_policy (HostGateCheckPolicy.fields None None)"

lemma empty_host_engine: "engine_policy empty_host_policy = empty_policy"
  by (simp add: empty_host_policy_def empty_policy_def GateCheckPolicy.truncate_def GateCheckPolicy.extend_def)

lemma secret_host_blocks:
  "gv_conclusion (host_evaluateGateCheck (sample_advisory [sample_finding ''secret_leak'']) p) = ConclFailure"
  "gv_blockers (host_evaluateGateCheck (sample_advisory [sample_finding ''secret_leak'']) p) \<noteq> []"
proof -
  have "host_isConfiguredGateBlocker (sample_finding ''secret_leak'') e" for e
    using host_isConfiguredGateBlocker_eq[of "sample_finding ''secret_leak''" e] secret_blocks[of "engine_policy e"]
    by (simp add: host_isConfiguredGateBlocker_def resolveConfiguredGateMode_def REVIEW_THREAD_BLOCKER_CODE_def split del: if_split)
  then show f: "gv_conclusion (host_evaluateGateCheck (sample_advisory [sample_finding ''secret_leak'']) p) = ConclFailure"
    unfolding host_failure host_isEvaluationBlocker_eq using secret_not_deferred by (simp add: host_blockers_def)
  show "gv_blockers (host_evaluateGateCheck (sample_advisory [sample_finding ''secret_leak'']) p) \<noteq> []"
    using f host_failure[of "sample_advisory [sample_finding ''secret_leak'']" p] by auto
qed

theorem host_and_engine_gate_agree_witness:
  "gv_conclusion (evaluateGateCheck (sample_advisory [sample_finding ''secret_leak'']) empty_policy) = ConclFailure"
proof -
  have "GateCheckEvaluation.truncate (host_evaluateGateCheck (sample_advisory [sample_finding ''secret_leak'']) empty_host_policy) =
      evaluateGateCheck (sample_advisory [sample_finding ''secret_leak'']) empty_policy"
    using host_and_engine_gate_agree[of "sample_advisory [sample_finding ''secret_leak'']" empty_host_policy] empty_host_engine by simp
  then show ?thesis using secret_host_blocks(1)[of empty_host_policy]
    by (metis GateCheckEvaluation.select_convs(2) GateCheckEvaluation.truncate_def)
qed

definition linked_host_policy :: HostGateCheckPolicy where
  "linked_host_policy = empty_host_policy\<lparr>gp_linkedIssueGateMode := Some ''block''\<rparr>"

theorem superseded_verdicts_differ_witness:
  "gv_conclusion (host_evaluateGateCheck (sample_advisory [sample_finding ''linked_issue_superseded'']) linked_host_policy) \<noteq>
    gv_conclusion (evaluateGateCheck (sample_advisory [sample_finding ''linked_issue_superseded'']) (engine_policy linked_host_policy))"
proof -
  let ?p = linked_host_policy
  note p_def = linked_host_policy_def
  have e: "engine_policy ?p = empty_policy\<lparr>gp_linkedIssueGateMode := Some ''block''\<rparr>"
    by (simp add: p_def empty_host_policy_def empty_policy_def GateCheckPolicy.truncate_def GateCheckPolicy.extend_def)
  have "\<not> policy_holds (engine_policy ?p)" unfolding e
    by (simp add: policy_holds_def applyMergeReadinessGate_def empty_policy_def buildSlopGateBlocker_def buildSizeHoldFinding_def gateMode_def)
  moreover have "gp_linkedIssueGateMode ?p = Some ''block''" "gp_mergeReadinessGateMode ?p = None"
    by (simp_all add: p_def empty_host_policy_def empty_policy_def GateCheckPolicy.extend_def)
  ultimately show ?thesis
    using superseded_verdicts_differ[of "sample_advisory [sample_finding ''linked_issue_superseded'']" "sample_finding ''linked_issue_superseded''" ?p]
    by simp
qed

theorem ai_holds_are_exclusive_witness:
  "\<not> isDuplicateOnlyFailure (host_evaluateGateCheck (sample_advisory [sample_finding ''secret_leak'']) empty_host_policy) \<and>
   resolveAiReviewLowConfidenceHold (host_evaluateGateCheck (sample_advisory [sample_finding ''secret_leak'']) empty_host_policy) empty_host_policy = None"
proof -
  have "sample_finding ''secret_leak'' \<in> set (gv_blockers (host_evaluateGateCheck (sample_advisory [sample_finding ''secret_leak'']) empty_host_policy))"
    using secret_host_blocks[of empty_host_policy] unfolding host_failure(2) host_blockers_def
    by (auto simp: host_isConfiguredGateBlocker_def resolveConfiguredGateMode_def REVIEW_THREAD_BLOCKER_CODE_def split del: if_split)
  then show ?thesis
    using ai_holds_are_exclusive[where a = "sample_advisory [sample_finding ''secret_leak'']" and p = empty_host_policy and s = None]
    by (auto simp: AI_JUDGMENT_BLOCKER_CODES_def)
qed

theorem decisions_are_recorded_witness:
  "\<forall>s \<in> set (recordConfiguredGateBlockerSignals (\<lambda>_. ''0'') ''now'' (sample_advisory [sample_finding ''secret_leak'']) empty_host_policy ''a/b'' 1 (Some ''key'')).
     re_rawSignal s = None \<and> re_diff s = None"
proof
  fix s assume s: "s \<in> set (recordConfiguredGateBlockerSignals (\<lambda>_. ''0'') ''now'' (sample_advisory [sample_finding ''secret_leak'']) empty_host_policy ''a/b'' 1 (Some ''key''))"
  then have "re_ruleId s = ''secret_leak''" unfolding configured_signal by (auto simp: blocker_signal_def Let_def)
  then show "re_rawSignal s = None \<and> re_diff s = None"
    using s decisions_are_recorded[where a = "sample_advisory [sample_finding ''secret_leak'']" and p = empty_host_policy and
        show_num = "\<lambda>_. ''0''" and now = "''now''" and repo = "''a/b''" and n = 1 and diff = "Some ''key''"] by blast
qed

theorem posted_text_is_bounded_witness:
  "length (go_title (formatGateCheckOutput (host_evaluateGateCheck (sample_advisory [sample_finding ''secret_leak'']) empty_host_policy))) \<le> 255"
  using posted_text_is_bounded[where a = "sample_advisory [sample_finding ''secret_leak'']" and p = empty_host_policy] by blast

end
