(* ===== verification/Predicted_Gate.thy ===== *)
theory Predicted_Gate
  imports Gate_Check Iterate_Loop
begin

text \<open>
  The prediction of the gate before a pull request exists (\<open>packages/loopover-engine/src/predicted-gate.ts\<close>): the
  guardrail floor (\<open>review/guardrail-config.ts\<close>), the contributor calibration
  (\<open>signals/contributor-calibration.ts\<close>), the guidance of the focus manifest (\<open>focus-manifest/guidance.ts\<close>) and the
  verdict composed of the advisory, the pre-merge checks, the license check and the gate.

  The record \<open>predictor\<close> holds what the verdict takes from code that is not modelled: the preflight and readiness
  calculators of \<open>signals/predicted-gate-engine.ts\<close>, the text and path classifiers, which are regular-expression
  tables, the comment sanitizer, number printing, \<open>Date.parse\<close>, the random id and the clock. Every property holds for
  all of them. Records carry the fields the prediction reads; null and absent are both \<open>None\<close>.
\<close>

section \<open>The guardrail floor\<close>

definition CONFIG_AS_CODE_GUARDRAIL_GLOBS :: "string list" where
  "CONFIG_AS_CODE_GUARDRAIL_GLOBS =
     [''.loopover.yml'', ''.loopover.yaml'', ''.loopover.json'', ''.github/loopover.yml'', ''.github/loopover.yaml'',
      ''.github/loopover.json'', ''**/codecov.yml'', ''**/codecov.yaml'', ''**/.codecov.yml'']"

definition WORKFLOW_AND_RUNTIME_GUARDRAIL_GLOBS :: "string list" where
  "WORKFLOW_AND_RUNTIME_GUARDRAIL_GLOBS = [''.github/workflows/**'', ''scripts/**'', ''wrangler.jsonc'', ''src/selfhost/**'']"

definition ENGINE_DECISION_GUARDRAIL_GLOBS :: "string list" where
  "ENGINE_DECISION_GUARDRAIL_GLOBS =
     [''src/rules/**'', ''src/services/**'', ''src/settings/agent-actions.ts'', ''src/settings/agent-execution.ts'',
      ''src/settings/agent-sweep.ts'', ''src/settings/autonomy.ts'', ''packages/loopover-engine/src/settings/autonomy.ts'',
      ''src/queue/**'', ''src/github/pr-actions.ts'', ''src/github/app.ts'', ''src/github/backfill.ts'',
      ''src/github/e2e-test-commit.ts'', ''src/scoring/**'', ''src/auth/**'', ''src/review/safety.ts'',
      ''src/review/guardrail-config.ts'', ''packages/loopover-engine/src/review/guardrail-config.ts'',
      ''src/review/cutover-gate.ts'', ''src/review/linked-issue-hard-rules.ts'', ''src/review/outcomes-wire.ts'',
      ''packages/loopover-engine/src/signals/change-guardrail.ts'',
      ''packages/loopover-engine/src/advisory/gate-advisory.ts'', ''packages/loopover-engine/src/predicted-gate.ts'']"

definition DEFAULT_HARD_GUARDRAIL_GLOBS :: "string list" where
  "DEFAULT_HARD_GUARDRAIL_GLOBS =
     CONFIG_AS_CODE_GUARDRAIL_GLOBS @ WORKFLOW_AND_RUNTIME_GUARDRAIL_GLOBS @ ENGINE_DECISION_GUARDRAIL_GLOBS"

record FocusManifestSettings =
  fs_hardGuardrailGlobs :: "string list option"
  fs_hardGuardrailGlobsOverridesInvariants :: "bool option"

definition resolveHardGuardrailGlobs :: "FocusManifestSettings option \<Rightarrow> string list" where
  "resolveHardGuardrailGlobs settings =
     (let configuredList = (case settings of None \<Rightarrow> [] | Some s \<Rightarrow> or_default (fs_hardGuardrailGlobs s) [])
      in if (case settings of None \<Rightarrow> False | Some s \<Rightarrow> fs_hardGuardrailGlobsOverridesInvariants s = Some True)
         then configuredList
         else js_set (DEFAULT_HARD_GUARDRAIL_GLOBS @ configuredList))"


section \<open>Contributor calibration\<close>

definition clamp :: "jsnum \<Rightarrow> jsnum \<Rightarrow> jsnum \<Rightarrow> jsnum" where
  "clamp v mn mx = (if \<not> isFinite v then mn else math_min mx (math_max mn v))"

definition MIN_CALIBRATION_SAMPLES :: jsnum where
  "MIN_CALIBRATION_SAMPLES = Fin 5"

definition MAX_READINESS_ADJUSTMENT :: jsnum where
  "MAX_READINESS_ADJUSTMENT = Fin 10"

definition NEUTRAL_AGREEMENT_RATE :: jsnum where
  "NEUTRAL_AGREEMENT_RATE = Fin (1 / 2)"

record ContributorCalibrationSignal =
  cal_sampleSize :: jsnum
  cal_agreementRate :: jsnum

definition applyContributorCalibration :: "jsnum option \<Rightarrow> ContributorCalibrationSignal option \<Rightarrow> jsnum option" where
  "applyContributorCalibration baselineReadinessScore calibration =
     (case baselineReadinessScore of
        None \<Rightarrow> None
      | Some base \<Rightarrow>
          (case calibration of
             None \<Rightarrow> Some base
           | Some c \<Rightarrow>
               if \<not> isFinite (cal_sampleSize c) \<or> num_lt (cal_sampleSize c) MIN_CALIBRATION_SAMPLES then Some base
               else
                 (let agreementRate = clamp (cal_agreementRate c) (Fin 0) (Fin 1);
                      rawAdjustment = num_mul (num_mul (num_sub agreementRate NEUTRAL_AGREEMENT_RATE) (Fin 2)) MAX_READINESS_ADJUSTMENT;
                      adjustment = clamp rawAdjustment (num_neg MAX_READINESS_ADJUSTMENT) MAX_READINESS_ADJUSTMENT
                  in Some (clamp (num_add base adjustment) (Fin 0) (Fin 100)))))"


section \<open>The focus manifest\<close>

record FocusManifestGateConfig =
  fg_pack :: "string option"
  fg_linkedIssue :: "string option"
  fg_duplicates :: "string option"
  fg_readinessMode :: "string option"
  fg_readinessMinScore :: "jsnum option"
  fg_sizeMode :: "string option"
  fg_sizeMaxFiles :: "jsnum option"
  fg_sizeMaxLines :: "jsnum option"
  fg_aiReviewMode :: "string option"
  fg_aiReviewCloseConfidence :: "jsnum option"
  fg_mergeReadiness :: "string option"
  fg_manifestPolicy :: "string option"
  fg_selfAuthoredLinkedIssue :: "string option"
  fg_claMode :: "string option"
  fg_claConsentPhrase :: "string option"
  fg_claCheckRunName :: "string option"

datatype FocusManifestSource = RepoFile | ApiRecord | SourceNone

datatype FocusManifestLinkedIssuePolicy = IssueRequired | IssuePreferred | IssueOptional

datatype FocusManifestIssueDiscoveryPolicy = DiscoveryEncouraged | DiscoveryNeutral | DiscoveryDiscouraged

record FocusManifest =
  fm_present :: bool
  fm_source :: FocusManifestSource
  fm_wantedPaths :: "string list"
  fm_preferredLabels :: "string list"
  fm_linkedIssuePolicy :: FocusManifestLinkedIssuePolicy
  fm_testExpectations :: "string list"
  fm_issueDiscoveryPolicy :: FocusManifestIssueDiscoveryPolicy
  fm_maintainerNotes :: "string list"
  fm_publicNotes :: "string list"
  fm_gate :: FocusManifestGateConfig
  fm_settings :: FocusManifestSettings
  fm_preMergeChecks :: "PreMergeCheck list"
  fm_warnings :: "string list"

record FocusManifestFinding =
  ff_code :: string
  ff_severity :: AdvisorySeverity
  ff_title :: string
  ff_detail :: string
  ff_action :: "string option"

definition manifest_finding :: "string \<Rightarrow> AdvisorySeverity \<Rightarrow> string \<Rightarrow> string \<Rightarrow> string option \<Rightarrow> FocusManifestFinding" where
  "manifest_finding code severity title detail action =
     \<lparr>ff_code = code, ff_severity = severity, ff_title = title, ff_detail = detail, ff_action = action\<rparr>"

record FocusManifestGuidance =
  gd_present :: bool
  gd_source :: FocusManifestSource
  gd_linkedIssuePolicy :: FocusManifestLinkedIssuePolicy
  gd_issueDiscoveryPolicy :: FocusManifestIssueDiscoveryPolicy
  gd_matchedWantedPaths :: "string list"
  gd_preferredLabelHits :: "string list"
  gd_findings :: "FocusManifestFinding list"
  gd_publicNextSteps :: "string list"
  gd_warnings :: "string list"
  gd_summary :: string

text \<open>The arguments of the guidance beside the manifest.\<close>

record guidance_args =
  ga_changedPaths :: "string list"
  ga_labels :: "string list"
  ga_linkedIssueCount :: nat
  ga_testFileCount :: nat
  ga_passedValidationCount :: nat

definition summarize :: "FocusManifest \<Rightarrow> string list \<Rightarrow> string" where
  "summarize manifest wanted =
     (if 0 < length wanted then ''Maintainer focus manifest: change aligns with a wanted area.''
      else if 0 < length (fm_wantedPaths manifest) then ''Maintainer focus manifest: change is outside the wanted areas.''
      else ''Maintainer focus manifest applied with no path-specific verdict.'')"

text \<open>Each clause of the guidance gives its findings and its public next steps.\<close>

definition off_focus :: "(string \<Rightarrow> bool) \<Rightarrow> FocusManifest \<Rightarrow> string list \<Rightarrow> string list \<Rightarrow> FocusManifestFinding list \<times> string list" where
  "off_focus publicSafe manifest changedPaths matchedWantedPaths =
     (if 0 < length (fm_wantedPaths manifest) \<and> length matchedWantedPaths = 0 \<and> 0 < length changedPaths
      then (let safeWantedPaths = take 5 (filter publicSafe (fm_wantedPaths manifest));
                wantedPathsDetail = (if 0 < length safeWantedPaths then '' ('' @ str_join '', '' safeWantedPaths @ '')'' else [])
            in ([manifest_finding ''manifest_off_focus'' SeverityWarning ''Change is outside maintainer-wanted areas''
                   (''No changed path matches the maintainer-wanted patterns'' @ wantedPathsDetail @ ''.'')
                   (Some ''Refocus the change onto a maintainer-wanted area or explain why this out-of-focus work is needed.'')],
                [''Refocus onto the maintainer-wanted areas, or explain why this out-of-focus change is needed.'']))
      else ([], []))"

definition preferred_path :: "(string \<Rightarrow> bool) \<Rightarrow> string list \<Rightarrow> FocusManifestFinding list \<times> string list" where
  "preferred_path publicSafe matchedWantedPaths =
     (if 0 < length matchedWantedPaths
      then (let safeMatchedWantedPaths = take 5 (filter publicSafe matchedWantedPaths);
                matchedDetail =
                  (if 0 < length safeMatchedWantedPaths
                   then ''Changed paths match maintainer-wanted patterns: '' @ str_join '', '' safeMatchedWantedPaths @ ''.''
                   else ''Changed paths match the maintainer-wanted patterns.'')
            in ([manifest_finding ''manifest_preferred_path'' SeverityInfo ''Change aligns with maintainer-wanted areas'' matchedDetail None],
                [''Changed paths align with the maintainer's wanted areas for this repo.'']))
      else ([], []))"

definition missing_label :: "(string \<Rightarrow> bool) \<Rightarrow> FocusManifest \<Rightarrow> string list \<Rightarrow> FocusManifestFinding list \<times> string list" where
  "missing_label publicSafe manifest preferredLabelHits =
     (if 0 < length (fm_preferredLabels manifest) \<and> length preferredLabelHits = 0
      then (let safePreferredLabels = take 5 (filter publicSafe (fm_preferredLabels manifest));
                preferredLabelsDetail =
                  (if 0 < length safePreferredLabels then ''Maintainer prefers labels: '' @ str_join '', '' safePreferredLabels @ ''.''
                   else ''No maintainer-preferred label applied.'');
                safeStepLabels = take 3 (filter publicSafe (fm_preferredLabels manifest))
            in ([manifest_finding ''manifest_missing_preferred_label'' SeverityInfo ''No maintainer-preferred label applied''
                   preferredLabelsDetail (Some ''Consider applying a maintainer-preferred label so triage stays aligned.'')],
                [if 0 < length safeStepLabels
                 then ''Consider a maintainer-preferred label ('' @ str_join '', '' safeStepLabels @ '').''
                 else ''Consider applying a maintainer-preferred label so triage stays aligned.'']))
      else ([], []))"

definition issue_policy :: "FocusManifest \<Rightarrow> nat \<Rightarrow> FocusManifestFinding list \<times> string list" where
  "issue_policy manifest linkedIssueCount =
     (if fm_linkedIssuePolicy manifest = IssueRequired \<and> linkedIssueCount = 0
      then ([manifest_finding ''manifest_linked_issue_required'' SeverityWarning ''Maintainer requires a linked issue''
               ''This repo's maintainer focus manifest requires every PR to reference a tracked issue.''
               (Some ''Link the relevant issue (for example `Closes #123`) before opening the PR.'')],
            [''Link the relevant tracked issue; the maintainer requires linked issues on PRs.''])
      else if fm_linkedIssuePolicy manifest = IssuePreferred \<and> linkedIssueCount = 0
      then ([manifest_finding ''manifest_linked_issue_preferred'' SeverityInfo ''Maintainer prefers a linked issue''
               ''This repo's maintainer focus manifest prefers PRs to reference a tracked issue.''
               (Some ''Link a tracked issue if one exists.'')],
            [''Link a tracked issue if one exists; the maintainer prefers linked issues.''])
      else ([], []))"

definition missing_tests :: "(string \<Rightarrow> bool) \<Rightarrow> FocusManifest \<Rightarrow> nat \<Rightarrow> nat \<Rightarrow> nat \<Rightarrow> FocusManifestFinding list \<times> string list" where
  "missing_tests publicSafe manifest codeFileCount testFileCount passedValidationCount =
     (if 0 < length (fm_testExpectations manifest) \<and> 0 < codeFileCount \<and> testFileCount = 0 \<and> passedValidationCount = 0
      then (let safeExpectations = take 3 (filter publicSafe (fm_testExpectations manifest));
                expectationDetail = (if 0 < length safeExpectations
                  then '' Expected evidence: '' @ str_join ''; '' safeExpectations @ ''.'' else [])
            in ([manifest_finding ''manifest_missing_tests'' SeverityWarning ''Configured validation evidence missing''
                   (''No changed test files or passing validation evidence were detected for this PR.'' @ expectationDetail)
                   (Some ''Add regression/invariant coverage, update relevant tests, or attach passing validation output that satisfies the repo's configured expectations.'')],
                [''Add relevant tests or passing validation evidence that matches the repo's configured expectations.'']))
      else ([], []))"

definition discovery_policy :: "FocusManifest \<Rightarrow> FocusManifestFinding list \<times> string list" where
  "discovery_policy manifest =
     (if fm_issueDiscoveryPolicy manifest = DiscoveryDiscouraged
      then ([manifest_finding ''manifest_issue_discovery_discouraged'' SeverityInfo ''Maintainer discourages issue-discovery reports''
               ''This repo's maintainer focus manifest discourages new issue-discovery reports; prefer direct fixes.''
               (Some ''Prefer a direct PR over filing a new issue-discovery report here.'')],
            [''This repo prefers direct fixes over new issue-discovery reports.''])
      else ([], []))"

definition buildFocusManifestGuidance ::
  "(string \<Rightarrow> bool) \<Rightarrow> (string \<Rightarrow> bool) \<Rightarrow> FocusManifest \<Rightarrow> guidance_args \<Rightarrow> FocusManifestGuidance" where
  "buildFocusManifestGuidance isFocusManifestPublicSafe isCodeFile manifest args =
     (let changedPaths = filter (\<lambda>path. 0 < length path) (ga_changedPaths args);
          labels = map toLowerCase (ga_labels args);
          codeFileCount = length (filter isCodeFile changedPaths);
          matchedWantedPaths = matchedPatterns changedPaths (fm_wantedPaths manifest);
          preferredLabelHits = filter (\<lambda>label. toLowerCase label \<in> set labels) (fm_preferredLabels manifest)
      in if \<not> fm_present manifest
         then \<lparr>gd_present = False, gd_source = fm_source manifest, gd_linkedIssuePolicy = fm_linkedIssuePolicy manifest,
               gd_issueDiscoveryPolicy = fm_issueDiscoveryPolicy manifest, gd_matchedWantedPaths = [], gd_preferredLabelHits = [],
               gd_findings = map (\<lambda>warning. manifest_finding ''manifest_malformed'' SeverityInfo
                 ''Maintainer focus manifest not applied'' warning None) (fm_warnings manifest),
               gd_publicNextSteps = [], gd_warnings = fm_warnings manifest,
               gd_summary = ''No maintainer focus manifest applied; using deterministic signals only.''\<rparr>
         else
           (let clauses = [off_focus isFocusManifestPublicSafe manifest changedPaths matchedWantedPaths,
                  preferred_path isFocusManifestPublicSafe matchedWantedPaths,
                  missing_label isFocusManifestPublicSafe manifest preferredLabelHits,
                  issue_policy manifest (ga_linkedIssueCount args),
                  missing_tests isFocusManifestPublicSafe manifest codeFileCount (ga_testFileCount args) (ga_passedValidationCount args),
                  discovery_policy manifest];
                safePublicNotes = filter isFocusManifestPublicSafe (fm_publicNotes manifest)
            in \<lparr>gd_present = True, gd_source = fm_source manifest, gd_linkedIssuePolicy = fm_linkedIssuePolicy manifest,
                gd_issueDiscoveryPolicy = fm_issueDiscoveryPolicy manifest, gd_matchedWantedPaths = matchedWantedPaths,
                gd_preferredLabelHits = preferredLabelHits, gd_findings = concat (map fst clauses),
                gd_publicNextSteps = filter isFocusManifestPublicSafe (js_set (concat (map snd clauses) @ safePublicNotes)),
                gd_warnings = fm_warnings manifest, gd_summary = summarize manifest matchedWantedPaths\<rparr>))"


section \<open>The predicted verdict\<close>

record IssueRecord =
  ir_repoFullName :: string
  ir_number :: nat
  ir_authorLogin :: "string option"

text \<open>The preflight result: the linked issues the verdict reads, the rest passed on to the readiness score.\<close>

record PreflightResult =
  pf_linkedIssues :: "nat list"
  pf_rest :: jsval

record predictor =
  pe_parse_date :: "string \<Rightarrow> jsnum"
  pe_uuid :: string
  pe_now :: string
  pe_show_num :: "jsnum \<Rightarrow> string"
  pe_buildPreflightResult ::
    "PredictedGateInput \<Rightarrow> RepositoryRecord option \<Rightarrow> IssueRecord list \<Rightarrow> PullRequestRecord list \<Rightarrow> jsval list \<Rightarrow> jsval option \<Rightarrow> PreflightResult"
  pe_readiness :: "PullRequestRecord \<Rightarrow> PreflightResult \<Rightarrow> RepositoryRecord option \<Rightarrow> IssueRecord list \<Rightarrow> PullRequestRecord list \<Rightarrow> jsnum"
  pe_isTestPath :: "string \<Rightarrow> bool"
  pe_isCodeFile :: "string \<Rightarrow> bool"
  pe_hasValidationNote :: "string \<Rightarrow> bool"
  pe_isFocusManifestPublicSafe :: "string \<Rightarrow> bool"
  pe_sanitizePublicComment :: "string \<Rightarrow> string"

record verdict_args =
  va_input :: PredictedGateInput
  va_manifest :: FocusManifest
  va_repo :: "RepositoryRecord option"
  va_issues :: "IssueRecord list"
  va_pullRequests :: "PullRequestRecord list"
  va_bounties :: "jsval list option"
  va_issueQuality :: "jsval option"
  va_confirmedContributor :: "bool option"
  va_changedPaths :: "string list option"
  va_contributorCalibration :: "ContributorCalibrationSignal option"

definition OSS_ANTI_SLOP_FUNNEL :: "string \<times> string" where
  "OSS_ANTI_SLOP_FUNNEL =
     (''This repo runs the Gittensor anti-slop gate. Gittensor lets GitHub contributors earn for open-source work like this '' @
      em_dash @ '' register to start earning.'', ''https://gittensor.io'')"

definition PREDICTED_GATE_NOTE_BASE :: string where
  "PREDICTED_GATE_NOTE_BASE =
     ''Predicted from the repo's public .loopover.yml gate config + safe defaults. The maintainer may have '' @
     ''private dashboard overrides not reflected here, and the dual-model AI-consensus blocker is only '' @
     ''evaluated on a real PR. ''"

definition PREDICTED_GATE_NOTE_SLOP :: string where
  "PREDICTED_GATE_NOTE_SLOP =
     ''The slop score is NOT evaluated pre-submission (it needs the diff content) and may still fail the real gate. ''"

definition PREDICTED_GATE_NOTE_NO_PATHS :: string where
  "PREDICTED_GATE_NOTE_NO_PATHS =
     ''Provide the PR's changed paths to also predict the focus-manifest path policy, the size/guardrail hold, and '' @
     ''any pre-merge check scoped to changed paths; without them only path-independent title/description/label '' @
     ''pre-merge checks are predicted. ''"

definition PREDICTED_GATE_NOTE_SIZE_FILES_ONLY :: string where
  "PREDICTED_GATE_NOTE_SIZE_FILES_ONLY =
     ''The size-hold prediction uses changed FILE count only, not changed LINE count (line-diff stats are not '' @
     ''available pre-submission), so it may under-predict a hold for a PR with many changed lines across few files. ''"

definition PREDICTED_GATE_NOTE_GATE_EQUALITY :: string where
  "PREDICTED_GATE_NOTE_GATE_EQUALITY =
     ''Every author is gated the same: a configured hard blocker fails the gate regardless of confirmed-contributor '' @
     ''status (which affects only on-chain scoring).''"

definition predictedGateNote :: "bool \<Rightarrow> string" where
  "predictedGateNote hasChangedPaths =
     PREDICTED_GATE_NOTE_BASE @ PREDICTED_GATE_NOTE_SLOP @
     (if hasChangedPaths then PREDICTED_GATE_NOTE_SIZE_FILES_ONLY else PREDICTED_GATE_NOTE_NO_PATHS) @
     PREDICTED_GATE_NOTE_GATE_EQUALITY"

definition publicSafeFinding :: "predictor \<Rightarrow> AdvisoryFinding \<Rightarrow> gate_finding" where
  "publicSafeFinding pe f =
     (let sanitize = pe_sanitizePublicComment pe
      in \<lparr>gf_code = af_code f, gf_title = sanitize (af_title f), gf_detail = sanitize (render (pe_show_num pe) (af_detail f)),
          gf_action = (case af_action f of None \<Rightarrow> None | Some a \<Rightarrow> if a \<noteq> [] then Some (sanitize a) else None)\<rparr>)"

definition sameRepoFullName :: "string \<Rightarrow> string \<Rightarrow> bool" where
  "sameRepoFullName left right \<longleftrightarrow> left \<noteq> [] \<and> right \<noteq> [] \<and> toLowerCase left = toLowerCase right"

text \<open>The local steps of \<open>buildPredictedGateVerdict\<close>, in its order.\<close>

definition changed_paths :: "verdict_args \<Rightarrow> string list" where
  "changed_paths args = filter (\<lambda>path. 0 < length path) (or_default (va_changedPaths args) [])"

definition preflight :: "predictor \<Rightarrow> verdict_args \<Rightarrow> PreflightResult" where
  "preflight pe args =
     pe_buildPreflightResult pe (va_input args) (va_repo args) (va_issues args) (va_pullRequests args)
       (or_default (va_bounties args) []) (va_issueQuality args)"

definition syntheticPr :: "predictor \<Rightarrow> verdict_args \<Rightarrow> PullRequestRecord" where
  "syntheticPr pe args =
     (let input = va_input args
      in \<lparr>pr_repoFullName = pi_repoFullName input, pr_number = 0, pr_title = pi_title input, pr_state = ''open'',
          pr_authorLogin = Some (pi_contributorLogin input), pr_authorAssociation = pi_authorAssociation input,
          pr_headSha = None, pr_mergedAt = None, pr_body = pi_body input, pr_linkedIssueClaimedAt = None, pr_bodyObservedAt = None,
          pr_labels = or_default (pi_labels input) [], pr_linkedIssues = pf_linkedIssues (preflight pe args),
          pr_changedFiles = None\<rparr>)"

definition mode_on :: "string option \<Rightarrow> bool" where
  "mode_on mode \<longleftrightarrow> mode \<noteq> None \<and> mode \<noteq> Some ''off''"

definition openSiblings :: "verdict_args \<Rightarrow> PullRequestRecord list" where
  "openSiblings args =
     filter (\<lambda>otherPr. pr_state otherPr = ''open'' \<and> sameRepoFullName (pr_repoFullName otherPr) (pi_repoFullName (va_input args)) \<and>
        pr_number otherPr \<noteq> 0) (va_pullRequests args)"

definition linkedIssueAuthorLogins :: "predictor \<Rightarrow> verdict_args \<Rightarrow> string option list" where
  "linkedIssueAuthorLogins pe args =
     (let issueAuthorByNumber = map_of (rev (map (\<lambda>issue. (ir_number issue, ir_authorLogin issue))
            (filter (\<lambda>issue. sameRepoFullName (ir_repoFullName issue) (pi_repoFullName (va_input args))) (va_issues args))))
      in map (\<lambda>issueNumber. or_default (issueAuthorByNumber issueNumber) None) (pr_linkedIssues (syntheticPr pe args)))"

definition base_advisory :: "predictor \<Rightarrow> verdict_args \<Rightarrow> Advisory" where
  "base_advisory pe args =
     (let gate = fm_gate (va_manifest args)
      in buildPullRequestAdvisory (pe_parse_date pe) (pe_uuid pe) (pe_now pe) (va_repo args) (Some (syntheticPr pe args))
           \<lparr>cx_otherOpenPullRequests = openSiblings args,
            cx_requireLinkedIssue = (mode_on (fg_linkedIssue gate) \<or> mode_on (fg_mergeReadiness gate)),
            cx_duplicateWinnerEnabled = False, cx_linkedIssueAuthorLogins = linkedIssueAuthorLogins pe args,
            cx_confirmedNoOpenLinkedIssue = False, cx_supersededBy = None\<rparr>)"

definition predicted_checks :: "predictor \<Rightarrow> verdict_args \<Rightarrow> AdvisoryFinding list" where
  "predicted_checks pe args =
     (let changedPaths = changed_paths args; hasChangedPaths = (0 < length changedPaths); pr = syntheticPr pe args;
          predictablePreMergeChecks =
            (if hasChangedPaths then fm_preMergeChecks (va_manifest args)
             else filter (\<lambda>check. length (pm_whenPaths check) = 0) (fm_preMergeChecks (va_manifest args)))
      in evaluatePreMergeChecks predictablePreMergeChecks
           \<lparr>px_title = Some (pr_title pr), px_body = pr_body pr, px_labels = Some (pr_labels pr), px_changedPaths = changedPaths,
            px_filesResolved = Some hasChangedPaths\<rparr>)"

definition predicted_cla :: "predictor \<Rightarrow> verdict_args \<Rightarrow> AdvisoryFinding list" where
  "predicted_cla pe args =
     (let gate = fm_gate (va_manifest args)
      in if mode_on (fg_claMode gate)
         then evaluateClaCheck \<lparr>cla_consentPhrase = fg_claConsentPhrase gate, cla_checkRunName = fg_claCheckRunName gate\<rparr>
                (pr_body (syntheticPr pe args)) None
         else [])"

definition policy_code :: "FocusManifestFinding \<Rightarrow> bool" where
  "policy_code f \<longleftrightarrow> ff_code f \<in> set [''manifest_linked_issue_required'', ''manifest_missing_tests'']"

definition predicted_policy :: "predictor \<Rightarrow> verdict_args \<Rightarrow> AdvisoryFinding list" where
  "predicted_policy pe args =
     (let changedPaths = changed_paths args; pr = syntheticPr pe args
      in if 0 < length changedPaths \<and> mode_on (fg_manifestPolicy (fm_gate (va_manifest args)))
         then (let guidance = buildFocusManifestGuidance (pe_isFocusManifestPublicSafe pe) (pe_isCodeFile pe) (va_manifest args)
                 \<lparr>ga_changedPaths = changedPaths, ga_labels = pr_labels pr, ga_linkedIssueCount = length (pr_linkedIssues pr),
                  ga_testFileCount = length (filter (pe_isTestPath pe) changedPaths),
                  ga_passedValidationCount = (if pe_hasValidationNote pe (or_default (pi_body (va_input args)) []) then 1 else 0)\<rparr>
               in map (\<lambda>f. finding (ff_code f) (ff_severity f) (ff_title f) (lit (ff_detail f)) (ff_action f) None)
                    (filter policy_code (gd_findings guidance)))
         else [])"

definition predicted_advisory :: "predictor \<Rightarrow> verdict_args \<Rightarrow> Advisory" where
  "predicted_advisory pe args =
     (let base = base_advisory pe args
      in base\<lparr>ad_findings := ad_findings base @ predicted_checks pe args @ predicted_cla pe args @ predicted_policy pe args\<rparr>)"

definition predicted_policy_of :: "predictor \<Rightarrow> verdict_args \<Rightarrow> GateCheckPolicy" where
  "predicted_policy_of pe args =
     (let gate = fm_gate (va_manifest args); changedPaths = changed_paths args; hasChangedPaths = (0 < length changedPaths);
          pack = or_default (fg_pack gate) ''gittensor'';
          authorHistory = filter (\<lambda>pr. sameRepoFullName (pr_repoFullName pr) (pi_repoFullName (va_input args)) \<and>
            map_option toLowerCase (pr_authorLogin pr) = Some (toLowerCase (pi_contributorLogin (va_input args)))) (va_pullRequests args);
          merged = (\<lambda>pr. pr_mergedAt pr \<noteq> None \<and> pr_mergedAt pr \<noteq> Some []);
          hardGuardrailGlobs = resolveHardGuardrailGlobs (Some (fm_settings (va_manifest args)))
      in \<lparr>gp_linkedIssueGateMode = fg_linkedIssue gate, gp_duplicatePrGateMode = fg_duplicates gate,
          gp_qualityGateMode = fg_readinessMode gate, gp_qualityGateMinScore = fg_readinessMinScore gate,
          gp_aiReviewGateMode = fg_aiReviewMode gate, gp_aiReviewCloseConfidence = fg_aiReviewCloseConfidence gate,
          gp_aiReviewLowConfidenceDisposition = None,
          gp_readinessScore = Some (pe_readiness pe (syntheticPr pe args) (preflight pe args) (va_repo args) (va_issues args) (va_pullRequests args)),
          gp_slopGateMode = None, gp_slopGateMinScore = None, gp_slopRisk = None,
          gp_mergeReadinessGateMode = fg_mergeReadiness gate, gp_manifestPolicyGateMode = fg_manifestPolicy gate,
          gp_selfAuthoredLinkedIssueGateMode = fg_selfAuthoredLinkedIssue gate, gp_linkedIssueSatisfactionGateMode = None,
          gp_contentLaneDeliverableGateMode = None, gp_backtestRegressionGateMode = None, gp_claGateMode = fg_claMode gate,
          gp_authorMergedPrCount = Some (length (filter (\<lambda>pr. pr_state pr = ''merged'' \<or> merged pr) authorHistory)),
          gp_authorClosedUnmergedPrCount = Some (length (filter (\<lambda>pr. pr_state pr = ''closed'' \<and> \<not> merged pr) authorHistory)),
          gp_confirmedContributor = (if pack = ''oss-anti-slop'' then None else va_confirmedContributor args),
          gp_sizeGateMode = fg_sizeMode gate, gp_sizeGateMaxFiles = fg_sizeMaxFiles gate, gp_sizeGateMaxLines = fg_sizeMaxLines gate,
          gp_lockfileIntegrityGateMode = None,
          gp_changedFileCount = (if hasChangedPaths then Some (num_of_nat (length changedPaths)) else None),
          gp_changedLineCount = None,
          gp_guardrailHit = (if hasChangedPaths then Some (isGuardrailHit changedPaths hardGuardrailGlobs) else None),
          gp_guardrailMatches = (if hasChangedPaths then Some (guardrailPathMatches changedPaths hardGuardrailGlobs) else None),
          gp_dryRun = None\<rparr>)"

definition buildPredictedGateVerdict :: "predictor \<Rightarrow> verdict_args \<Rightarrow> PredictedGateVerdict" where
  "buildPredictedGateVerdict pe args =
     (let policy = predicted_policy_of pe args;
          evaluation = evaluateGateCheck (predicted_advisory pe args) policy;
          pack = or_default (fg_pack (fm_gate (va_manifest args))) ''gittensor''
      in \<lparr>pv_pack = pack, pv_conclusion = gv_conclusion evaluation,
          pv_title = pe_sanitizePublicComment pe (gv_title evaluation), pv_summary = pe_sanitizePublicComment pe (gv_summary evaluation),
          pv_readinessScore = applyContributorCalibration (gp_readinessScore policy) (va_contributorCalibration args),
          pv_confirmedContributor = gp_confirmedContributor policy,
          pv_blockers = map (publicSafeFinding pe) (gv_blockers evaluation),
          pv_warnings = map (publicSafeFinding pe) (gv_warnings evaluation),
          pv_funnel = (if pack = ''oss-anti-slop'' then Some OSS_ANTI_SLOP_FUNNEL else None),
          pv_note = predictedGateNote (0 < length (changed_paths args))\<rparr>)"

text \<open>The verdict as the gate the self-review calls: the dynamically typed repository context is read as records by a
  \<open>context_view\<close>; the input and the changed paths come from the attempt.\<close>

record context_view =
  cv_manifest :: "jsval \<Rightarrow> FocusManifest"
  cv_repo :: "jsval \<Rightarrow> RepositoryRecord option"
  cv_issue :: "jsval \<Rightarrow> IssueRecord"
  cv_pullRequest :: "jsval \<Rightarrow> PullRequestRecord"

definition view_args :: "context_view \<Rightarrow> predicted_gate_args \<Rightarrow> verdict_args" where
  "view_args cv a =
     \<lparr>va_input = pg_input a, va_manifest = cv_manifest cv (pg_manifest a), va_repo = cv_repo cv (pg_repo a),
      va_issues = map (cv_issue cv) (pg_issues a), va_pullRequests = map (cv_pullRequest cv) (pg_pullRequests a),
      va_bounties = pg_bounties a, va_issueQuality = pg_issueQuality a, va_confirmedContributor = pg_confirmedContributor a,
      va_changedPaths = Some (pg_changedPaths a), va_contributorCalibration = None\<rparr>"

definition loop_gate :: "predictor \<Rightarrow> context_view \<Rightarrow> predicted_gate" where
  "loop_gate pe cv a = Inr (buildPredictedGateVerdict pe (view_args cv a))"

record GateDisposition =
  gx_rule :: string
  gx_blocks :: bool
  gx_reason :: string

definition buildGateDispositions :: "PredictedGateVerdict \<Rightarrow> GateDisposition list" where
  "buildGateDispositions verdict =
     map (\<lambda>f. \<lparr>gx_rule = gf_code f, gx_blocks = True, gx_reason = gf_detail f\<rparr>) (pv_blockers verdict) @
     map (\<lambda>f. \<lparr>gx_rule = gf_code f, gx_blocks = False, gx_reason = gf_detail f\<rparr>) (pv_warnings verdict)"



section \<open>What a passing prediction requires\<close>

text \<open>A rule of the manifest blocks: the composite merge-readiness mode, when it is on, replaces the rule's own mode.\<close>

definition composite_mode :: "FocusManifestGateConfig \<Rightarrow> string" where
  "composite_mode gate = gateMode (Some (or_default (fg_mergeReadiness gate) ''off''))"

definition rule_blocks :: "FocusManifestGateConfig \<Rightarrow> string option \<Rightarrow> bool" where
  "rule_blocks gate mode \<longleftrightarrow>
     (if composite_mode gate = ''off'' then gatePolicyBlocks mode ''advisory'' else composite_mode gate = ''block'')"

text \<open>The specification of a passing prediction, rule by rule. The repository is known; a blocking linked-issue rule is met;
  under a blocking duplicate rule no open pull request that changes files shares a linked issue; under a blocking
  self-authorship rule the linked issues are someone else's.\<close>

definition issues_in_order :: "predictor \<Rightarrow> verdict_args \<Rightarrow> bool" where
  "issues_in_order pe args \<longleftrightarrow>
     (let gate = fm_gate (va_manifest args); pr = syntheticPr pe args
      in va_repo args \<noteq> None \<and>
         (rule_blocks gate (fg_linkedIssue gate) \<longrightarrow> pr_linkedIssues pr \<noteq> []) \<and>
         (rule_blocks gate (fg_duplicates gate) \<longrightarrow>
            (\<forall>other \<in> set (openSiblings args). set (pr_linkedIssues other) \<inter> set (pr_linkedIssues pr) \<noteq> {} \<longrightarrow>
               or_default (pr_changedFiles other) [] = [])) \<and>
         (gatePolicyBlocks (fg_selfAuthoredLinkedIssue gate) ''advisory'' \<longrightarrow> \<not> self_authored pr (linkedIssueAuthorLogins pe args)))"

text \<open>Every enforced check that applies is satisfied.\<close>

definition checks_in_order :: "predictor \<Rightarrow> verdict_args \<Rightarrow> bool" where
  "checks_in_order pe args \<longleftrightarrow>
     (\<forall>check \<in> set (fm_preMergeChecks (va_manifest args)). pm_enforce check \<longrightarrow>
        (pm_whenPaths check = [] \<or>
         (\<exists>path \<in> set (changed_paths args). \<exists>g \<in> set (pm_whenPaths check). matchesManifestPath path g)) \<longrightarrow>
        (let pr = syntheticPr pe args
         in (\<forall>t. pm_titleContains check = Some t \<longrightarrow> str_includes (toLowerCase (pr_title pr)) (toLowerCase t)) \<and>
            (\<forall>d. pm_descriptionContains check = Some d \<longrightarrow> str_includes (toLowerCase (or_default (pr_body pr) [])) (toLowerCase d)) \<and>
            (\<forall>l. pm_requireLabel check = Some l \<longrightarrow> toLowerCase l \<in> toLowerCase ` set (pr_labels pr))))"

text \<open>The license rule is off or not configured, or the description contains the phrase, or the rule does not block: a
  missing phrase by the mode, an unresolved check run only by the mode \<open>block\<close>.\<close>

definition license_in_order :: "verdict_args \<Rightarrow> bool" where
  "license_in_order args \<longleftrightarrow>
     (let gate = fm_gate (va_manifest args);
          phrase = (case fg_claConsentPhrase gate of None \<Rightarrow> None | Some p \<Rightarrow> if trim p \<noteq> [] then Some p else None)
      in \<not> mode_on (fg_claMode gate) \<or> phrase = None \<and> fg_claCheckRunName gate = None \<or>
         (\<exists>p. phrase = Some p \<and> str_includes (toLowerCase (or_default (pi_body (va_input args)) [])) (toLowerCase p)) \<or>
         (if fg_claCheckRunName gate = None then \<not> gatePolicyBlocks (fg_claMode gate) ''off'' else fg_claMode gate \<noteq> Some ''block''))"

text \<open>With changed paths known: under a manifest policy that is on, required issues are linked and code comes with tests or a
  validation note, where the rule blocks; no guarded path is touched; the change is below the size hold.\<close>

definition paths_in_order :: "predictor \<Rightarrow> verdict_args \<Rightarrow> bool" where
  "paths_in_order pe args \<longleftrightarrow>
     (let manifest = va_manifest args; gate = fm_gate manifest; paths = changed_paths args;
          blocks = gatePolicyBlocks (fg_manifestPolicy gate) ''off''
      in paths \<noteq> [] \<longrightarrow>
         (mode_on (fg_manifestPolicy gate) \<and> fm_present manifest \<longrightarrow>
            ((blocks \<or> rule_blocks gate (fg_linkedIssue gate)) \<and> fm_linkedIssuePolicy manifest = IssueRequired \<longrightarrow>
               pr_linkedIssues (syntheticPr pe args) \<noteq> []) \<and>
            (blocks \<and> fm_testExpectations manifest \<noteq> [] \<and> (\<exists>p \<in> set paths. pe_isCodeFile pe p) \<longrightarrow>
               (\<exists>p \<in> set paths. pe_isTestPath pe p) \<or> pe_hasValidationNote pe (or_default (pi_body (va_input args)) []))) \<and>
         \<not> isGuardrailHit paths (resolveHardGuardrailGlobs (Some (fm_settings manifest))))"

definition size_in_order :: "verdict_args \<Rightarrow> bool" where
  "size_in_order args \<longleftrightarrow>
     (let gate = fm_gate (va_manifest args)
      in fg_sizeMode gate \<in> {None, Some [], Some ''off''} \<or>
         num_lt (num_of_nat (length (changed_paths args))) (or_default (fg_sizeMaxFiles gate) (Fin 10)) \<and>
         num_lt (Fin 0) (or_default (fg_sizeMaxLines gate) (Fin 1000)))"

lemma quiet_codes [simp]:
  "\<not> holds_gate (finding ''repo_unregistered'' s t d a x) p" "\<not> holds_gate (finding ''repo_config_missing'' s t d a x) p"
  "\<not> holds_gate (finding ''issue_discovery_disabled'' s t d a x) p" "\<not> holds_gate (finding ''direct_pr_pool_disabled'' s t d a x) p"
  "\<not> holds_gate (finding ''maintainer_cut_enabled'' s t d a x) p" "\<not> holds_gate (finding ''pr_not_open'' s t d a x) p"
  "\<not> holds_gate (finding ''duplicate_pr_risk_unconfirmed'' s t d a x) p" "\<not> holds_gate (finding ''busy_pr_queue'' s t d a x) p"
  "\<not> holds_gate (finding ''label_context_found'' s t d a x) p" "\<not> holds_gate (finding ''maintainer_authored_pr'' s t d a x) p"
  "\<not> holds_gate (finding ''pre_merge_check_failed'' s t d a x) p"
  by (simp_all add: holds_gate_def finding_def isEvaluationBlocker_def isConfiguredGateBlocker_def CLA_CHECK_UNRESOLVED_CODE_def
      CLA_CONSENT_MISSING_CODE_def REVIEW_THREAD_BLOCKER_CODE_def split del: if_split)

lemma holding_codes [simp]:
  "holds_gate (finding ''repo_not_cached'' s t d a x) p" "holds_gate (finding ''pre_merge_check_required'' s t d a x) p"
  "holds_gate (finding ''pre_merge_check_unresolved'' s t d a x) p"
  by (simp_all add: holds_gate_def finding_def isEvaluationBlocker_def isConfiguredGateBlocker_def CLA_CHECK_UNRESOLVED_CODE_def
      CLA_CONSENT_MISSING_CODE_def REVIEW_THREAD_BLOCKER_CODE_def split del: if_split)

lemma ruled_codes:
  "holds_gate (finding ''missing_linked_issue'' s t d a x) p = gatePolicyBlocks (gp_linkedIssueGateMode (applyMergeReadinessGate p)) ''advisory''"
  "holds_gate (finding ''duplicate_pr_risk'' s t d a x) p = gatePolicyBlocks (gp_duplicatePrGateMode (applyMergeReadinessGate p)) ''advisory''"
  "holds_gate (finding ''self_authored_linked_issue'' s t d a x) p =
     gatePolicyBlocks (gp_selfAuthoredLinkedIssueGateMode (applyMergeReadinessGate p)) ''advisory''"
  "holds_gate (finding ''manifest_missing_tests'' s t d a x) p = gatePolicyBlocks (gp_manifestPolicyGateMode (applyMergeReadinessGate p)) ''off''"
  "holds_gate (finding ''manifest_linked_issue_required'' s t d a x) p =
     (gatePolicyBlocks (gp_manifestPolicyGateMode (applyMergeReadinessGate p)) ''off'' \<or>
      gatePolicyBlocks (gp_linkedIssueGateMode (applyMergeReadinessGate p)) ''advisory'')"
  "holds_gate (finding ''cla_consent_missing'' s t d a x) p = gatePolicyBlocks (gp_claGateMode (applyMergeReadinessGate p)) ''off''"
  "holds_gate (finding ''cla_check_unresolved'' s t d a x) p = (gp_claGateMode p = Some ''block'')"
  by (simp_all add: holds_gate_def finding_def isEvaluationBlocker_def isConfiguredGateBlocker_def CLA_CHECK_UNRESOLVED_CODE_def
      CLA_CONSENT_MISSING_CODE_def REVIEW_THREAD_BLOCKER_CODE_def split del: if_split)

lemma predicted_modes:
  fixes pe args
  defines "e \<equiv> applyMergeReadinessGate (predicted_policy_of pe args)" and "gate \<equiv> fm_gate (va_manifest args)"
  shows "gatePolicyBlocks (gp_linkedIssueGateMode e) ''advisory'' = rule_blocks gate (fg_linkedIssue gate)"
    "gatePolicyBlocks (gp_duplicatePrGateMode e) ''advisory'' = rule_blocks gate (fg_duplicates gate)"
    "gp_selfAuthoredLinkedIssueGateMode e = fg_selfAuthoredLinkedIssue gate"
    "gp_manifestPolicyGateMode e = fg_manifestPolicy gate" "gp_claGateMode e = fg_claMode gate"
    "gp_claGateMode (predicted_policy_of pe args) = fg_claMode gate"
  unfolding e_def gate_def
  by (auto simp: applyMergeReadinessGate_def predicted_policy_of_def rule_blocks_def composite_mode_def gatePolicyBlocks_def
      gateMode_def or_default_def Let_def)

lemmas predicted_codes = ruled_codes[where p = "predicted_policy_of pe args" for pe args, unfolded predicted_modes]

abbreviation harmless :: "predictor \<Rightarrow> verdict_args \<Rightarrow> AdvisoryFinding list \<Rightarrow> bool" where
  "harmless pe args fs \<equiv> list_all (\<lambda>f. \<not> holds_gate f (predicted_policy_of pe args)) fs"

lemma list_all_if: "list_all P (if c then xs else ys) \<longleftrightarrow> (if c then list_all P xs else list_all P ys)"
  by simp

lemma quiet_repo: "f \<in> set (addRepoFindings r) \<Longrightarrow> \<not> holds_gate f p"
  by (auto simp: addRepoFindings_def split: if_splits option.splits)

lemma linked_rule_collects:
  "rule_blocks gate (fg_linkedIssue gate) \<Longrightarrow> mode_on (fg_linkedIssue gate) \<or> mode_on (fg_mergeReadiness gate)"
  by (auto simp: rule_blocks_def composite_mode_def gatePolicyBlocks_def gateMode_def mode_on_def or_default_def
      split: if_splits option.splits)

lemma quiet_base: "harmless pe args (ad_findings (base_advisory pe args)) \<longleftrightarrow> issues_in_order pe args"
proof -
  let ?gate = "fm_gate (va_manifest args)" and ?pr = "syntheticPr pe args"
  let ?collect = "mode_on (fg_linkedIssue ?gate) \<or> mode_on (fg_mergeReadiness ?gate)"
  let ?dup = "\<exists>other \<in> set (openSiblings args). set (pr_linkedIssues other) \<inter> set (pr_linkedIssues ?pr) \<noteq> {} \<and>
      or_default (pr_changedFiles other) [] \<noteq> []"
  have fields: "pr_state ?pr = ''open''" "pr_bodyObservedAt ?pr = None" "pr_changedFiles ?pr = None"
    by (simp_all add: syntheticPr_def Let_def)
  have overlap: "overlaps ?pr other \<longleftrightarrow> set (pr_linkedIssues other) \<inter> set (pr_linkedIssues ?pr) \<noteq> {}" for other
    by (auto simp: overlaps_def list_ex_iff)
  have corroborated: "hasDuplicateOverlapCorroboration ?pr other \<longleftrightarrow> or_default (pr_changedFiles other) [] \<noteq> []" for other
    by (simp add: hasDuplicateOverlapCorroboration_def fields or_default_def Let_def)
  have dup: "harmless pe args (duplicate_findings (pe_parse_date pe) ?pr cx) \<longleftrightarrow> (rule_blocks ?gate (fg_duplicates ?gate) \<longrightarrow> \<not> ?dup)"
    if "cx_otherOpenPullRequests cx = openSiblings args" "\<not> cx_duplicateWinnerEnabled cx" for cx
    unfolding duplicate_findings_def Let_def that list_all_if list_all_append
    using that by (auto simp: predicted_codes overlap corroborated filter_empty_conv)
  have missing: "harmless pe args (linked_issue_findings ?pr cx) \<longleftrightarrow> \<not> rule_blocks ?gate (fg_linkedIssue ?gate)"
    if "cx_supersededBy cx = None" for cx
    by (simp add: linked_issue_findings_def that predicted_codes)
  have no_dup: "pr_linkedIssues ?pr = [] \<Longrightarrow> \<not> ?dup" by simp
  have repo: "harmless pe args (case va_repo args of None \<Rightarrow> [finding ''repo_not_cached'' s t d a x] | Some r \<Rightarrow> addRepoFindings r)
      \<longleftrightarrow> va_repo args \<noteq> None" for s t d a x
    using quiet_repo by (auto simp: list_all_iff split: option.split)
  show ?thesis
    unfolding base_advisory_def buildPullRequestAdvisory_def advisory_def issues_in_order_def addPullRequestFindings_def Let_def
    using dup missing no_dup repo linked_rule_collects[of ?gate]
    by (simp add: fields noLinkedIssueCited_def list_all_if predicted_codes cong: if_cong split del: if_split)
      (auto split: if_splits)
qed

lemma unmet_none:
  "unmet_assertions check ctx = [] \<longleftrightarrow>
     (\<forall>t. pm_titleContains check = Some t \<longrightarrow> str_includes (toLowerCase (or_default (px_title ctx) [])) (toLowerCase t)) \<and>
     (\<forall>d. pm_descriptionContains check = Some d \<longrightarrow> str_includes (toLowerCase (or_default (px_body ctx) [])) (toLowerCase d)) \<and>
     (\<forall>l. pm_requireLabel check = Some l \<longrightarrow> toLowerCase l \<in> toLowerCase ` set (or_default (px_labels ctx) []))"
  by (auto simp: unmet_assertions_def Let_def split: option.splits)

lemma check_codes:
  "PRE_MERGE_CHECK_BLOCKING_CODE = ''pre_merge_check_required''" "PRE_MERGE_CHECK_ADVISORY_CODE = ''pre_merge_check_failed''"
  "PRE_MERGE_CHECK_UNRESOLVED_CODE = ''pre_merge_check_unresolved''"
  by (simp_all add: PRE_MERGE_CHECK_BLOCKING_CODE_def PRE_MERGE_CHECK_ADVISORY_CODE_def PRE_MERGE_CHECK_UNRESOLVED_CODE_def)

lemma quiet_check:
  assumes "px_filesResolved ctx = Some (px_changedPaths ctx \<noteq> [])" "px_changedPaths ctx = [] \<Longrightarrow> pm_whenPaths check = []"
  shows "harmless pe args (evaluate_check ctx check) \<longleftrightarrow>
    (pm_enforce check \<longrightarrow> (pm_whenPaths check = [] \<or>
        (\<exists>path \<in> set (px_changedPaths ctx). \<exists>g \<in> set (pm_whenPaths check). matchesManifestPath path g)) \<longrightarrow>
      unmet_assertions check ctx = [])"
  using assms unfolding evaluate_check_def check_codes Let_def list_all_if by (auto simp: list_ex_iff or_default_def)

lemma quiet_checks: "harmless pe args (predicted_checks pe args) \<longleftrightarrow> checks_in_order pe args"
proof -
  let ?pr = "syntheticPr pe args" and ?all = "fm_preMergeChecks (va_manifest args)"
  define ctx where "ctx = \<lparr>px_title = Some (pr_title ?pr), px_body = pr_body ?pr, px_labels = Some (pr_labels ?pr),
    px_changedPaths = changed_paths args, px_filesResolved = Some (0 < length (changed_paths args))\<rparr>"
  let ?applies = "\<lambda>check. pm_whenPaths check = [] \<or>
    (\<exists>path \<in> set (changed_paths args). \<exists>g \<in> set (pm_whenPaths check). matchesManifestPath path g)"
  let ?run = "if changed_paths args \<noteq> [] then ?all else filter (\<lambda>check. pm_whenPaths check = []) ?all"
  have "harmless pe args (predicted_checks pe args) \<longleftrightarrow> (\<forall>check \<in> set ?run. harmless pe args (evaluate_check ctx check))"
    by (auto simp: predicted_checks_def evaluatePreMergeChecks_def ctx_def list_all_iff Let_def)
  also have "\<dots> \<longleftrightarrow> (\<forall>check \<in> set ?run. pm_enforce check \<longrightarrow> ?applies check \<longrightarrow> unmet_assertions check ctx = [])"
    using quiet_check[where ctx = ctx and pe = pe and args = args] by (intro ball_cong refl) (auto simp: ctx_def split: if_splits)
  also have "\<dots> \<longleftrightarrow> (\<forall>check \<in> set ?all. pm_enforce check \<longrightarrow> ?applies check \<longrightarrow> unmet_assertions check ctx = [])"
    by (auto split: if_splits)
  also have "\<dots> \<longleftrightarrow> checks_in_order pe args"
    unfolding checks_in_order_def unmet_none by (simp add: ctx_def or_default_def Let_def)
  finally show ?thesis .
qed

lemma quiet_cla: "harmless pe args (predicted_cla pe args) \<longleftrightarrow> license_in_order args"
proof -
  have body: "pr_body (syntheticPr pe args) = pi_body (va_input args)" by (simp add: syntheticPr_def Let_def)
  show ?thesis
    unfolding predicted_cla_def license_in_order_def evaluateClaCheck_def body Let_def list_all_if CLA_CONSENT_MISSING_CODE_def
      CLA_CHECK_UNRESOLVED_CODE_def
    by (auto simp: predicted_codes split: option.splits)
qed

text \<open>The guidance clauses whose findings the gate can act on.\<close>

lemma other_clauses:
  "filter policy_code (fst (off_focus ps m cp w)) = []" "filter policy_code (fst (preferred_path ps w)) = []"
  "filter policy_code (fst (missing_label ps m h)) = []" "filter policy_code (fst (discovery_policy m)) = []"
  by (simp_all add: off_focus_def preferred_path_def missing_label_def discovery_policy_def manifest_finding_def policy_code_def Let_def)

lemma policy_findings:
  "filter policy_code (gd_findings (buildFocusManifestGuidance ps cf m a)) =
     (if fm_present m
      then filter policy_code (fst (issue_policy m (ga_linkedIssueCount a))) @
           filter policy_code (fst (missing_tests ps m (length (filter cf (filter (\<lambda>p. 0 < length p) (ga_changedPaths a))))
             (ga_testFileCount a) (ga_passedValidationCount a)))
      else [])"
  by (simp add: buildFocusManifestGuidance_def Let_def other_clauses manifest_finding_def policy_code_def)

lemma quiet_policy:
  "harmless pe args (predicted_policy pe args) \<and> \<not> (gp_guardrailHit (predicted_policy_of pe args) = Some True) \<longleftrightarrow> paths_in_order pe args"
proof -
  let ?gate = "fm_gate (va_manifest args)" and ?m = "va_manifest args"
  have nonempty: "p \<in> set (changed_paths args) \<Longrightarrow> p \<noteq> []" for p by (simp add: changed_paths_def)
  have q: "list_all Q (map g (filter policy_code (gd_findings (buildFocusManifestGuidance ps cf ?m a)))) \<longleftrightarrow>
      (fm_present ?m \<longrightarrow>
        list_all Q (map g (filter policy_code (fst (issue_policy ?m (ga_linkedIssueCount a))))) \<and>
        list_all Q (map g (filter policy_code (fst (missing_tests ps ?m (length (filter cf (filter (\<lambda>p. 0 < length p) (ga_changedPaths a))))
          (ga_testFileCount a) (ga_passedValidationCount a))))))" for Q g ps cf a
    unfolding policy_findings by simp
  have hit: "gp_guardrailHit (predicted_policy_of pe args) = Some True \<longleftrightarrow> changed_paths args \<noteq> [] \<and>
      isGuardrailHit (changed_paths args) (resolveHardGuardrailGlobs (Some (fm_settings ?m)))"
    by (simp add: predicted_policy_of_def Let_def)
  have issue: "list_all Q (map g (filter policy_code (fst (issue_policy ?m n)))) \<longleftrightarrow>
      (fm_linkedIssuePolicy ?m = IssueRequired \<and> n = 0 \<longrightarrow>
       Q (g (hd (fst (issue_policy ?m n)))))" for Q g n
    by (auto simp: issue_policy_def manifest_finding_def policy_code_def)
  have tests: "list_all Q (map g (filter policy_code (fst (missing_tests ps ?m c t v)))) \<longleftrightarrow>
      (fm_testExpectations ?m \<noteq> [] \<and> 0 < c \<and> t = 0 \<and> v = 0 \<longrightarrow> Q (g (hd (fst (missing_tests ps ?m c t v)))))" for Q g ps c t v
    by (simp add: missing_tests_def manifest_finding_def policy_code_def Let_def)
  have code1: "fm_linkedIssuePolicy ?m = IssueRequired \<Longrightarrow> ff_code (hd (fst (issue_policy ?m 0))) = ''manifest_linked_issue_required''"
    by (simp add: issue_policy_def manifest_finding_def policy_code_def)
  have code2: "0 < c \<and> fm_testExpectations ?m \<noteq> [] \<and> t = 0 \<and> v = 0 \<Longrightarrow>
      ff_code (hd (fst (missing_tests ps ?m c t v))) = ''manifest_missing_tests''" for ps c t v
    by (simp add: missing_tests_def manifest_finding_def policy_code_def Let_def)
  show ?thesis
    unfolding predicted_policy_def paths_in_order_def hit Let_def list_all_if q issue tests
    using nonempty by (auto simp: predicted_codes code1 code2 filter_empty_conv)
qed

lemma quiet_size: "buildSizeHoldFinding (predicted_policy_of pe args) = None \<longleftrightarrow> size_in_order args"
  by (auto simp: buildSizeHoldFinding_def predicted_policy_of_def size_in_order_def SIZE_HOLD_DEFAULT_MAX_FILES_def
      SIZE_HOLD_DEFAULT_MAX_LINES_def or_default_def Let_def)

lemma no_slop: "buildSlopGateBlocker (applyMergeReadinessGate (predicted_policy_of pe args)) = None"
proof -
  have "gp_slopRisk (applyMergeReadinessGate (predicted_policy_of pe args)) = None"
    by (simp add: applyMergeReadinessGate_def predicted_policy_of_def Let_def)
  then show ?thesis by (simp add: buildSlopGateBlocker_def normalizeScore_def)
qed

lemma predicted_success:
  "pv_conclusion (buildPredictedGateVerdict pe args) = ConclSuccess \<longleftrightarrow>
     issues_in_order pe args \<and> checks_in_order pe args \<and> license_in_order args \<and> paths_in_order pe args \<and> size_in_order args"
proof -
  let ?p = "predicted_policy_of pe args"
  have "ad_findings (predicted_advisory pe args) =
      ad_findings (base_advisory pe args) @ predicted_checks pe args @ predicted_cla pe args @ predicted_policy pe args"
    by (simp add: predicted_advisory_def Let_def)
  then have "(\<forall>f \<in> set (ad_findings (predicted_advisory pe args)). \<not> holds_gate f ?p) \<longleftrightarrow>
      harmless pe args (ad_findings (base_advisory pe args)) \<and> harmless pe args (predicted_checks pe args) \<and>
      harmless pe args (predicted_cla pe args) \<and> harmless pe args (predicted_policy pe args)"
    by (auto simp: list_all_iff)
  then show ?thesis
    using quiet_policy[of pe args]
    by (auto simp: buildPredictedGateVerdict_def Let_def success_iff policy_holds_def no_slop quiet_base quiet_checks quiet_cla
        quiet_size)
qed


section \<open>Properties\<close>

text \<open>C3: A predicted verdict passes exactly when the rules, as the predicted gate evaluates them, are met. Whatever the
  calculators it calls return, the prediction is a success if and only if the repository is known, every blocking issue
  rule (linked issue, duplicates, self-authorship, with the composite merge-readiness mode over the first two) is
  satisfied, every enforced pre-merge check that applies holds of the title, the description and the labels, the license
  rule is satisfied or does not block, and, for a change whose paths are known, the manifest policy is met, no guarded path
  is touched and the change is below the size hold. Two cases differ from what is documented: an unset duplicate rule is
  advisory, where the documentation gives \<open>block\<close> as its default, and a license rule with only a check-run name is
  unresolved and blocks under the mode \<open>block\<close>, where the comment says that no finding is predicted.\<close>

theorem predicted_pass_iff:
  "pv_conclusion (buildPredictedGateVerdict pe args) = ConclSuccess \<longleftrightarrow>
     issues_in_order pe args \<and> checks_in_order pe args \<and> license_in_order args \<and> paths_in_order pe args \<and> size_in_order args"
  by (rule predicted_success)

text \<open>C16: The built-in guardrail floor cannot be trimmed by configuration. Unless the manifest explicitly takes the list
  over, a change with a file under a guarded directory of the floor, whose name below that directory has no line
  terminator, is never predicted to pass, whatever the rest of the manifest says.\<close>

theorem floor_cannot_be_trimmed:
  assumes "fs_hardGuardrailGlobsOverridesInvariants (fm_settings (va_manifest args)) \<noteq> Some True"
    and "glob \<in> set DEFAULT_HARD_GUARDRAIL_GLOBS" "canonicalize glob = dir @ ''/**''" "\<not> has_star dir"
    and "va_changedPaths args = Some paths" "path \<in> set paths" "canonicalize path = dir @ ''/'' @ rest" "list_all dot rest"
  shows "pv_conclusion (buildPredictedGateVerdict pe args) \<noteq> ConclSuccess"
proof -
  let ?globs = "resolveHardGuardrailGlobs (Some (fm_settings (va_manifest args)))"
  have glob: "glob \<in> set ?globs" using assms(1,2) by (simp add: resolveHardGuardrailGlobs_def Let_def)
  have ne: "path \<noteq> []" using assms(7) canonicalize_nonempty[of path] by simp
  then have p: "path \<in> set (changed_paths args)" using assms(5,6) by (simp add: changed_paths_def or_default_def)
  then have "\<lparr>gm_path = path, gm_glob = glob\<rparr> \<in> set (guardrailPathMatches (changed_paths args) ?globs)"
    using glob ne directory_glob(2)[OF assms(3,4)] assms(7,8) by (simp add: guardrail_matches_mem)
  then have "path \<in> set (changedPathsHittingGuardrail (changed_paths args) ?globs)"
    using guardrail_paths[of "changed_paths args" ?globs] by (metis GuardrailPathMatch.select_convs(1) image_eqI)
  then have "isGuardrailHit (changed_paths args) ?globs" using glob by (auto simp: isGuardrailHit_def)
  then have "\<not> paths_in_order pe args" using p by (auto simp: paths_in_order_def Let_def)
  then show ?thesis unfolding predicted_success by blast
qed

lemma clamp_Fin: "mn \<le> mx \<Longrightarrow> clamp (Fin q) (Fin mn) (Fin mx) = Fin (min mx (max mn q))"
  by (simp add: clamp_def)

lemma clamp_range: "mn \<le> mx \<Longrightarrow> \<exists>r. clamp x (Fin mn) (Fin mx) = Fin r \<and> mn \<le> r \<and> r \<le> mx"
  by (cases x) (auto simp: clamp_def)

lemma calibrated_score:
  assumes "0 \<le> q" "q \<le> 100"
  shows "\<exists>r. applyContributorCalibration (Some (Fin q)) c = Some (Fin r) \<and> 0 \<le> r \<and> r \<le> 100 \<and> \<bar>r - q\<bar> \<le> 10"
proof (cases c)
  case None
  then show ?thesis using assms by (simp add: applyContributorCalibration_def)
next
  case (Some s)
  show ?thesis
  proof (cases "\<not> isFinite (cal_sampleSize s) \<or> num_lt (cal_sampleSize s) MIN_CALIBRATION_SAMPLES")
    case True
    then show ?thesis using assms Some by (auto simp: applyContributorCalibration_def)
  next
    case False
    define raw where "raw = num_mul (num_mul (num_sub (clamp (cal_agreementRate s) (Fin 0) (Fin 1)) NEUTRAL_AGREEMENT_RATE) (Fin 2)) (Fin 10)"
    obtain d where d: "clamp raw (Fin (- 10)) (Fin 10) = Fin d" "- 10 \<le> d" "d \<le> 10" using clamp_range[of "- 10" 10 raw] by auto
    have "num_add (Fin q) (Fin d) = Fin (q + d)" using assms d(2,3) by (simp add: num_of_rat_small)
    then have "applyContributorCalibration (Some (Fin q)) c = Some (Fin (min 100 (max 0 (q + d))))"
      using Some False d(1) by (simp add: applyContributorCalibration_def raw_def[symmetric] MAX_READINESS_ADJUSTMENT_def clamp_Fin)
    then show ?thesis using assms d(2,3) by (auto simp: min_def max_def)
  qed
qed

text \<open>C40: Calibration only nudges the score. Whatever track record a contributor has, it changes nothing of the verdict but
  the readiness score; it moves a score from 0 to 100 by at most ten points and keeps it in that range, and a record of
  fewer than five samples, or one whose sample count is not a finite number, leaves it unchanged.\<close>

theorem calibration_only_nudges_the_score:
  assumes "pv_readinessScore (buildPredictedGateVerdict pe (args\<lparr>va_contributorCalibration := None\<rparr>)) = Some (Fin q)" "0 \<le> q" "q \<le> 100"
  shows "\<exists>r. buildPredictedGateVerdict pe (args\<lparr>va_contributorCalibration := c\<rparr>) =
      (buildPredictedGateVerdict pe (args\<lparr>va_contributorCalibration := None\<rparr>))\<lparr>pv_readinessScore := Some (Fin r)\<rparr> \<and>
    0 \<le> r \<and> r \<le> 100 \<and> \<bar>r - q\<bar> \<le> 10 \<and>
    ((case c of None \<Rightarrow> True | Some s \<Rightarrow> \<not> isFinite (cal_sampleSize s) \<or> num_lt (cal_sampleSize s) (Fin 5)) \<longrightarrow> r = q)"
proof -
  have same: "predicted_policy_of pe (args\<lparr>va_contributorCalibration := x\<rparr>) = predicted_policy_of pe args"
    "predicted_advisory pe (args\<lparr>va_contributorCalibration := x\<rparr>) = predicted_advisory pe args"
    "changed_paths (args\<lparr>va_contributorCalibration := x\<rparr>) = changed_paths args" for x
    by (simp_all add: predicted_policy_of_def predicted_advisory_def base_advisory_def predicted_checks_def predicted_cla_def
        predicted_policy_def changed_paths_def preflight_def syntheticPr_def openSiblings_def linkedIssueAuthorLogins_def Let_def)
  have base: "gp_readinessScore (predicted_policy_of pe args) = Some (Fin q)"
    using assms(1) by (auto simp: buildPredictedGateVerdict_def same applyContributorCalibration_def Let_def split: option.splits)
  obtain r where r: "applyContributorCalibration (Some (Fin q)) c = Some (Fin r)" "0 \<le> r" "r \<le> 100" "\<bar>r - q\<bar> \<le> 10"
    using calibrated_score[OF assms(2,3)] by blast
  have cold: "(case c of None \<Rightarrow> True | Some s \<Rightarrow> \<not> isFinite (cal_sampleSize s) \<or> num_lt (cal_sampleSize s) (Fin 5)) \<Longrightarrow> r = q"
    using r(1) by (auto simp: applyContributorCalibration_def MIN_CALIBRATION_SAMPLES_def split: option.splits)
  have "buildPredictedGateVerdict pe (args\<lparr>va_contributorCalibration := c\<rparr>) =
      (buildPredictedGateVerdict pe (args\<lparr>va_contributorCalibration := None\<rparr>))\<lparr>pv_readinessScore := Some (Fin r)\<rparr>"
    by (simp add: buildPredictedGateVerdict_def same base r(1) Let_def)
  then show ?thesis using r cold by blast
qed

text \<open>A license rule that relies on a check run alone can never be predicted to pass. In the blocking mode, with a check run
  and no consent phrase configured, the predicted verdict is never a success, whatever the pull request says.\<close>

theorem check_run_only_license_never_passes:
  assumes "fg_claMode (fm_gate (va_manifest args)) = Some ''block''" "fg_claConsentPhrase (fm_gate (va_manifest args)) = None"
    and "fg_claCheckRunName (fm_gate (va_manifest args)) = Some name"
  shows "pv_conclusion (buildPredictedGateVerdict pe args) \<noteq> ConclSuccess"
proof -
  have "\<not> license_in_order args" using assms by (simp add: license_in_order_def mode_on_def)
  then show ?thesis unfolding predicted_success by blast
qed

text \<open>The dispositions of a predicted verdict list a blocking rule exactly when the prediction is a failure, and every
  disposition is the public text of a finding the gate posted.\<close>

theorem dispositions_match_the_verdict:
  fixes pe args
  defines "v \<equiv> buildPredictedGateVerdict pe args" and "g \<equiv> evaluateGateCheck (predicted_advisory pe args) (predicted_policy_of pe args)"
  shows "(\<exists>d \<in> set (buildGateDispositions v). gx_blocks d) = (pv_conclusion v = ConclFailure) \<and>
    map (\<lambda>d. (gx_rule d, gx_blocks d)) (buildGateDispositions v) =
      map (\<lambda>f. (af_code f, True)) (gv_blockers g) @ map (\<lambda>f. (af_code f, False)) (gv_warnings g)"
proof -
  have posted: "gv_blockers g \<noteq> [] \<longleftrightarrow> gv_conclusion g = ConclFailure"
    unfolding g_def using failure_iff[of "predicted_advisory pe args" "predicted_policy_of pe args"]
      blockers_posted[of "predicted_advisory pe args" "predicted_policy_of pe args"] by auto
  have v: "pv_conclusion v = gv_conclusion g" "pv_blockers v = map (publicSafeFinding pe) (gv_blockers g)"
    "pv_warnings v = map (publicSafeFinding pe) (gv_warnings g)"
    by (simp_all add: v_def g_def buildPredictedGateVerdict_def Let_def)
  have code: "gf_code (publicSafeFinding pe f) = af_code f" for f by (simp add: publicSafeFinding_def Let_def)
  have "(\<exists>d \<in> set (buildGateDispositions v). gx_blocks d) \<longleftrightarrow> pv_blockers v \<noteq> []"
    by (cases "pv_blockers v") (auto simp: buildGateDispositions_def)
  then show ?thesis using posted by (simp add: v buildGateDispositions_def code comp_def)
qed


section \<open>Samples\<close>

text \<open>A manifest with every rule at its default, an empty pull request on a known repository, and constant calculators.\<close>

definition sample_gate :: FocusManifestGateConfig where
  "sample_gate =
     \<lparr>fg_pack = None, fg_linkedIssue = None, fg_duplicates = None, fg_readinessMode = None, fg_readinessMinScore = None,
      fg_sizeMode = None, fg_sizeMaxFiles = None, fg_sizeMaxLines = None, fg_aiReviewMode = None, fg_aiReviewCloseConfidence = None,
      fg_mergeReadiness = None, fg_manifestPolicy = None, fg_selfAuthoredLinkedIssue = None, fg_claMode = None,
      fg_claConsentPhrase = None, fg_claCheckRunName = None\<rparr>"

definition sample_manifest :: FocusManifest where
  "sample_manifest =
     \<lparr>fm_present = True, fm_source = RepoFile, fm_wantedPaths = [], fm_preferredLabels = [], fm_linkedIssuePolicy = IssueOptional,
      fm_testExpectations = [], fm_issueDiscoveryPolicy = DiscoveryNeutral, fm_maintainerNotes = [], fm_publicNotes = [],
      fm_gate = sample_gate, fm_settings = \<lparr>fs_hardGuardrailGlobs = Some [], fs_hardGuardrailGlobsOverridesInvariants = None\<rparr>,
      fm_preMergeChecks = [], fm_warnings = []\<rparr>"

definition sample_predictor :: predictor where
  "sample_predictor =
     \<lparr>pe_parse_date = (\<lambda>_. NaN), pe_uuid = ''id'', pe_now = ''now'', pe_show_num = (\<lambda>_. ''0''),
      pe_buildPreflightResult = (\<lambda>_ _ _ _ _ _. \<lparr>pf_linkedIssues = [7], pf_rest = JNull\<rparr>), pe_readiness = (\<lambda>_ _ _ _ _. Fin 80),
      pe_isTestPath = (\<lambda>_. False), pe_isCodeFile = (\<lambda>_. True), pe_hasValidationNote = (\<lambda>_. False),
      pe_isFocusManifestPublicSafe = (\<lambda>_. True), pe_sanitizePublicComment = (\<lambda>s. s)\<rparr>"

definition sample_args :: "string list \<Rightarrow> verdict_args" where
  "sample_args paths =
     \<lparr>va_input = \<lparr>pi_repoFullName = ''o/r'', pi_contributorLogin = ''me'', pi_title = ''t'', pi_body = None, pi_labels = None,
        pi_linkedIssues = None, pi_authorAssociation = None\<rparr>,
      va_manifest = sample_manifest,
      va_repo = Some \<lparr>rr_fullName = ''o/r'', rr_isRegistered = True, rr_registryConfig = None\<rparr>,
      va_issues = [], va_pullRequests = [], va_bounties = None, va_issueQuality = None, va_confirmedContributor = None,
      va_changedPaths = Some paths, va_contributorCalibration = None\<rparr>"

theorem floor_cannot_be_trimmed_witness:
  "pv_conclusion (buildPredictedGateVerdict sample_predictor (sample_args [''README.md'', ''.github/workflows/ci.yml''])) \<noteq> ConclSuccess"
proof -
  have "''.github/workflows/**'' \<in> set DEFAULT_HARD_GUARDRAIL_GLOBS"
    by (simp add: DEFAULT_HARD_GUARDRAIL_GLOBS_def WORKFLOW_AND_RUNTIME_GUARDRAIL_GLOBS_def)
  moreover have "canonicalize ''.github/workflows/**'' = ''.github/workflows'' @ ''/**''" "\<not> has_star ''.github/workflows''"
    "canonicalize ''.github/workflows/ci.yml'' = ''.github/workflows'' @ ''/'' @ ''ci.yml''" "list_all dot ''ci.yml''" by code_simp+
  moreover have "va_changedPaths (sample_args ps) = Some ps"
    "fs_hardGuardrailGlobsOverridesInvariants (fm_settings (va_manifest (sample_args ps))) \<noteq> Some True" for ps
    by (simp_all add: sample_args_def sample_manifest_def)
  ultimately show ?thesis
    using floor_cannot_be_trimmed[where glob = "''.github/workflows/**''" and dir = "''.github/workflows''" and rest = "''ci.yml''"
        and path = "''.github/workflows/ci.yml''" and paths = "[''README.md'', ''.github/workflows/ci.yml'']"] by simp
qed

theorem calibration_only_nudges_the_score_witness:
  "\<exists>r. 0 \<le> r \<and> r \<le> 100 \<and> \<bar>r - 80\<bar> \<le> 10 \<and>
     pv_readinessScore (buildPredictedGateVerdict sample_predictor
       ((sample_args [])\<lparr>va_contributorCalibration := Some \<lparr>cal_sampleSize = Fin 12, cal_agreementRate = Fin 1\<rparr>\<rparr>)) = Some (Fin r)"
proof -
  have "pv_readinessScore (buildPredictedGateVerdict sample_predictor ((sample_args [])\<lparr>va_contributorCalibration := None\<rparr>)) = Some (Fin 80)"
    by (simp add: buildPredictedGateVerdict_def predicted_policy_of_def sample_predictor_def applyContributorCalibration_def Let_def)
  from calibration_only_nudges_the_score[OF this,
      where c = "Some \<lparr>cal_sampleSize = Fin 12, cal_agreementRate = Fin 1\<rparr>"]
  obtain r where "0 \<le> r" "r \<le> 100" "\<bar>r - 80\<bar> \<le> 10"
    "buildPredictedGateVerdict sample_predictor ((sample_args [])\<lparr>va_contributorCalibration := Some \<lparr>cal_sampleSize = Fin 12, cal_agreementRate = Fin 1\<rparr>\<rparr>) =
       (buildPredictedGateVerdict sample_predictor ((sample_args [])\<lparr>va_contributorCalibration := None\<rparr>))\<lparr>pv_readinessScore := Some (Fin r)\<rparr>"
    by auto
  then show ?thesis by (intro exI[of _ r]) simp
qed

theorem check_run_only_license_never_passes_witness:
  "pv_conclusion (buildPredictedGateVerdict sample_predictor ((sample_args [])\<lparr>va_manifest := sample_manifest\<lparr>fm_gate :=
     sample_gate\<lparr>fg_claMode := Some ''block'', fg_claCheckRunName := Some ''cla''\<rparr>\<rparr>\<rparr>)) \<noteq> ConclSuccess"
  by (rule check_run_only_license_never_passes[where name = "''cla''"]) (simp_all add: sample_gate_def)

lemma readme_unguarded: "\<not> isGuardrailHit [''README.md''] (resolveHardGuardrailGlobs (Some (fm_settings sample_manifest)))"
  by code_simp

lemma sample_passes: "pv_conclusion (buildPredictedGateVerdict sample_predictor (sample_args [''README.md''])) = ConclSuccess"
proof -
  let ?a = "sample_args [''README.md'']"
  have "issues_in_order sample_predictor ?a"
    by (simp add: issues_in_order_def sample_args_def sample_manifest_def sample_gate_def openSiblings_def rule_blocks_def
        composite_mode_def gatePolicyBlocks_def gateMode_def or_default_def)
  moreover have "checks_in_order sample_predictor ?a" by (simp add: checks_in_order_def sample_args_def sample_manifest_def)
  moreover have "license_in_order ?a" by (simp add: license_in_order_def sample_args_def sample_manifest_def sample_gate_def mode_on_def)
  moreover have "paths_in_order sample_predictor ?a"
    using readme_unguarded by (simp add: paths_in_order_def sample_args_def changed_paths_def or_default_def sample_manifest_def
        sample_gate_def mode_on_def)
  moreover have "size_in_order ?a" by (simp add: size_in_order_def sample_args_def sample_manifest_def sample_gate_def)
  ultimately show ?thesis unfolding predicted_success by blast
qed

end
