(* ===== verification/Pr_Disposition.thy ===== *)
theory Pr_Disposition
  imports Self_Review
begin

text \<open>
  The autonomy dial of the agent layer (\<open>packages/loopover-engine/src/settings/autonomy.ts\<close>) and the disposition core
  that the action planner, the executor's rechecks and the review comment share (\<open>src/settings/pr-disposition.ts\<close>).

  An autonomy policy is a partial map from action classes to levels; the hold inputs are a function from the keys of
  the hold table to booleans, as \<open>Record<MergeHoldInput, boolean>\<close> is. The table's key order is the order of
  \<open>MERGE_HOLD_INPUT_KEYS\<close>. An optional flag is compared with \<open>true\<close> in the source, so it is a boolean here.
\<close>

section \<open>The autonomy dial\<close>

datatype AgentActionClass =
    ClassReview | ClassRequestChanges | ClassApprove | ClassMerge | ClassClose | ClassLabel | ClassReviewStateLabel
  | ClassUpdateBranch | ClassAssign

type_synonym AutonomyPolicy = "AgentActionClass \<rightharpoonup> AutonomyLevel"

fun action_class_name :: "AgentActionClass \<Rightarrow> string" where
  "action_class_name ClassReview = ''review''"
| "action_class_name ClassRequestChanges = ''request_changes''"
| "action_class_name ClassApprove = ''approve''"
| "action_class_name ClassMerge = ''merge''"
| "action_class_name ClassClose = ''close''"
| "action_class_name ClassLabel = ''label''"
| "action_class_name ClassReviewStateLabel = ''review_state_label''"
| "action_class_name ClassUpdateBranch = ''update_branch''"
| "action_class_name ClassAssign = ''assign''"

fun autonomy_level_name :: "AutonomyLevel \<Rightarrow> string" where
  "autonomy_level_name Observe = ''observe''"
| "autonomy_level_name AutoWithApproval = ''auto_with_approval''"
| "autonomy_level_name Auto = ''auto''"

definition AUTONOMY_LEVELS :: "AutonomyLevel list" where
  "AUTONOMY_LEVELS = [Observe, AutoWithApproval, Auto]"

definition AGENT_ACTION_CLASSES :: "AgentActionClass list" where
  "AGENT_ACTION_CLASSES =
     [ClassReview, ClassRequestChanges, ClassApprove, ClassMerge, ClassClose, ClassLabel, ClassReviewStateLabel,
      ClassUpdateBranch, ClassAssign]"

definition DEFAULT_AUTONOMY_LEVEL :: AutonomyLevel where
  "DEFAULT_AUTONOMY_LEVEL = Observe"

definition resolveAutonomy :: "AutonomyPolicy option \<Rightarrow> AgentActionClass \<Rightarrow> AutonomyLevel" where
  "resolveAutonomy autonomy actionClass =
     (case autonomy of None \<Rightarrow> DEFAULT_AUTONOMY_LEVEL | Some policy \<Rightarrow> or_default (policy actionClass) DEFAULT_AUTONOMY_LEVEL)"

definition isActingAutonomyLevel :: "AutonomyLevel \<Rightarrow> bool" where
  "isActingAutonomyLevel lv \<longleftrightarrow> lv = Auto \<or> lv = AutoWithApproval"

definition isAgentConfigured :: "AutonomyPolicy option \<Rightarrow> bool" where
  "isAgentConfigured autonomy \<longleftrightarrow>
     list_ex (\<lambda>actionClass. isActingAutonomyLevel (resolveAutonomy autonomy actionClass)) AGENT_ACTION_CLASSES"

definition autonomyRequiresApproval :: "AutonomyLevel \<Rightarrow> bool" where
  "autonomyRequiresApproval lv \<longleftrightarrow> lv = AutoWithApproval"

definition normalizeAutonomyPolicy :: "jsval \<Rightarrow> AutonomyPolicy" where
  "normalizeAutonomyPolicy input =
     (case input of
        JObj fs \<Rightarrow>
          (\<lambda>actionClass. case map_of fs (action_class_name actionClass) of
             Some (JStr s) \<Rightarrow> find (\<lambda>lv. autonomy_level_name lv = s) AUTONOMY_LEVELS
           | _ \<Rightarrow> None)
      | _ \<Rightarrow> Map.empty)"

datatype AutoMergeMethod = MethodMerge | MethodSquash | MethodRebase

fun merge_method_name :: "AutoMergeMethod \<Rightarrow> string" where
  "merge_method_name MethodMerge = ''merge''"
| "merge_method_name MethodSquash = ''squash''"
| "merge_method_name MethodRebase = ''rebase''"

definition AUTO_MERGE_METHODS :: "AutoMergeMethod list" where
  "AUTO_MERGE_METHODS = [MethodMerge, MethodSquash, MethodRebase]"

record AutoMaintainPolicy =
  am_requireApprovals :: jsnum
  am_mergeMethod :: AutoMergeMethod

definition DEFAULT_AUTO_MAINTAIN_POLICY :: AutoMaintainPolicy where
  "DEFAULT_AUTO_MAINTAIN_POLICY = \<lparr>am_requireApprovals = Fin 1, am_mergeMethod = MethodSquash\<rparr>"

definition MAX_REQUIRE_APPROVALS :: jsnum where
  "MAX_REQUIRE_APPROVALS = Fin 10"

definition normalizeAutoMaintainPolicy :: "jsval \<Rightarrow> AutoMaintainPolicy" where
  "normalizeAutoMaintainPolicy input =
     (case input of
        JObj fs \<Rightarrow>
          \<lparr>am_requireApprovals =
             (case map_of fs ''requireApprovals'' of
                Some (JNum n) \<Rightarrow>
                  if isFinite n then math_min MAX_REQUIRE_APPROVALS (math_max (Fin 0) (math_trunc n))
                  else am_requireApprovals DEFAULT_AUTO_MAINTAIN_POLICY
              | _ \<Rightarrow> am_requireApprovals DEFAULT_AUTO_MAINTAIN_POLICY),
           am_mergeMethod =
             (case map_of fs ''mergeMethod'' of
                Some (JStr s) \<Rightarrow>
                  or_default (find (\<lambda>mm. merge_method_name mm = s) AUTO_MERGE_METHODS)
                    (am_mergeMethod DEFAULT_AUTO_MAINTAIN_POLICY)
              | _ \<Rightarrow> am_mergeMethod DEFAULT_AUTO_MAINTAIN_POLICY)\<rparr>
      | _ \<Rightarrow> DEFAULT_AUTO_MAINTAIN_POLICY)"


section \<open>The shared disposition\<close>

datatype MergeableAssessment = MergeClean | MergeConflict | MergeBehind | MergeUnstable | MergeIndeterminate

definition assessMergeableState :: "string option \<Rightarrow> MergeableAssessment" where
  "assessMergeableState st =
     (let s = toLowerCase (or_default st [])
      in if s = ''clean'' then MergeClean
         else if s = ''dirty'' then MergeConflict
         else if s = ''behind'' then MergeBehind
         else if s = ''unstable'' then MergeUnstable
         else MergeIndeterminate)"

datatype MergeHoldInput =
    GuardrailHit | MigrationCollisionHold | UnlinkedIssueMatchHold | AdvisoryCheckHold | PriorityEligibilityHold
  | ScreenshotEvidenceHold | UnlinkedIssueMatchCloseWithoutCloseActing

definition MERGE_HOLD_INPUT_KEYS :: "MergeHoldInput list" where
  "MERGE_HOLD_INPUT_KEYS =
     [GuardrailHit, MigrationCollisionHold, UnlinkedIssueMatchHold, AdvisoryCheckHold, PriorityEligibilityHold,
      ScreenshotEvidenceHold, UnlinkedIssueMatchCloseWithoutCloseActing]"

record PrDispositionInput =
  pd_holds :: "MergeHoldInput \<Rightarrow> bool"
  pd_mergeableState :: "string option"
  pd_reviewGood :: bool
  pd_unstableExplainedByIgnoredChecks :: bool
  pd_guardrailEscalationCleared :: bool

record PrDisposition =
  dp_mergeable :: MergeableAssessment
  dp_heldForManualReview :: bool
  dp_heldBy :: "MergeHoldInput list"
  dp_heldForUnstableMergeState :: bool
  dp_wouldApprove :: bool
  dp_wouldMerge :: bool
  dp_commentMergeStateHeld :: bool

definition derivePrDisposition :: "PrDispositionInput \<Rightarrow> PrDisposition" where
  "derivePrDisposition input =
     (let mergeable = assessMergeableState (pd_mergeableState input);
          unstableHolds = (mergeable = MergeUnstable \<and> \<not> pd_unstableExplainedByIgnoredChecks input);
          releasedHolds = (\<lambda>key. key = GuardrailHit \<and> pd_guardrailEscalationCleared input);
          heldBy = filter (\<lambda>key. pd_holds input key \<and> \<not> releasedHolds key) MERGE_HOLD_INPUT_KEYS;
          heldForManualReview = (length heldBy > 0)
      in \<lparr>dp_mergeable = mergeable,
          dp_heldForManualReview = heldForManualReview,
          dp_heldBy = heldBy,
          dp_heldForUnstableMergeState = unstableHolds,
          dp_wouldApprove =
            (pd_reviewGood input \<and> \<not> heldForManualReview \<and> mergeable \<noteq> MergeConflict \<and> \<not> unstableHolds),
          dp_wouldMerge = (pd_reviewGood input \<and> \<not> heldForManualReview \<and> mergeable = MergeClean),
          dp_commentMergeStateHeld = (mergeable = MergeConflict \<or> mergeable = MergeBehind \<or> unstableHolds)\<rparr>)"

definition isCommentMergeStateHeld :: "string option \<Rightarrow> bool \<Rightarrow> bool" where
  "isCommentMergeStateHeld st unstableExplainedByIgnoredChecks =
     (let mergeable = assessMergeableState st;
          unstableHolds = (mergeable = MergeUnstable \<and> \<not> unstableExplainedByIgnoredChecks)
      in mergeable = MergeConflict \<or> mergeable = MergeBehind \<or> unstableHolds)"


section \<open>Facts\<close>

lemma acting_not_observe: "isActingAutonomyLevel lv \<longleftrightarrow> lv \<noteq> Observe"
  by (cases lv) (simp_all add: isActingAutonomyLevel_def)

lemma unset_not_acting: "(\<And>c. resolveAutonomy autonomy c = Observe) \<Longrightarrow> \<not> isAgentConfigured autonomy"
  by (simp add: isAgentConfigured_def acting_not_observe list_ex_iff)

lemma all_classes: "set AGENT_ACTION_CLASSES = UNIV"
proof -
  have "c \<in> set AGENT_ACTION_CLASSES" for c by (cases c) (simp_all add: AGENT_ACTION_CLASSES_def)
  then show ?thesis by blast
qed

lemma all_holds: "set MERGE_HOLD_INPUT_KEYS = UNIV"
proof -
  have "k \<in> set MERGE_HOLD_INPUT_KEYS" for k by (cases k) (simp_all add: MERGE_HOLD_INPUT_KEYS_def)
  then show ?thesis by blast
qed

lemma disposition_simps [simp]:
  "dp_mergeable (derivePrDisposition d) = assessMergeableState (pd_mergeableState d)"
  "dp_heldBy (derivePrDisposition d) =
     filter (\<lambda>k. pd_holds d k \<and> \<not> (k = GuardrailHit \<and> pd_guardrailEscalationCleared d)) MERGE_HOLD_INPUT_KEYS"
  "dp_heldForManualReview (derivePrDisposition d) \<longleftrightarrow> dp_heldBy (derivePrDisposition d) \<noteq> []"
  "dp_heldForUnstableMergeState (derivePrDisposition d) \<longleftrightarrow>
     assessMergeableState (pd_mergeableState d) = MergeUnstable \<and> \<not> pd_unstableExplainedByIgnoredChecks d"
  "dp_wouldMerge (derivePrDisposition d) \<longleftrightarrow>
     pd_reviewGood d \<and> dp_heldBy (derivePrDisposition d) = [] \<and> assessMergeableState (pd_mergeableState d) = MergeClean"
  "dp_wouldApprove (derivePrDisposition d) \<longleftrightarrow>
     pd_reviewGood d \<and> dp_heldBy (derivePrDisposition d) = [] \<and>
     assessMergeableState (pd_mergeableState d) \<noteq> MergeConflict \<and>
     \<not> dp_heldForUnstableMergeState (derivePrDisposition d)"
  by (auto simp: derivePrDisposition_def Let_def)

lemma not_held_iff:
  "dp_heldBy (derivePrDisposition d) = [] \<longleftrightarrow>
     (\<forall>k. pd_holds d k \<longrightarrow> k = GuardrailHit \<and> pd_guardrailEscalationCleared d)"
  using all_holds by (auto simp: filter_empty_conv)

lemma clean_iff: "assessMergeableState st = MergeClean \<longleftrightarrow> (\<exists>s. st = Some s \<and> toLowerCase s = ''clean'')"
  by (cases st) (auto simp: assessMergeableState_def or_default_def Let_def toLowerCase_def)

lemma level_name_inj: "autonomy_level_name a = autonomy_level_name b \<longleftrightarrow> a = b"
  by (cases a; cases b) simp_all

lemma find_level: "find (\<lambda>lv. autonomy_level_name lv = s) AUTONOMY_LEVELS = Some a \<longleftrightarrow> autonomy_level_name a = s"
  by (cases a) (auto simp: AUTONOMY_LEVELS_def split: if_splits)


section \<open>Properties\<close>

text \<open>The contract of the disposition: the comment and the planner read the merge state in the same way; a merge is
  never planned where an approval would not be, nor while the comment refuses to call the branch mergeable; a conflict
  is never approved, and an unstable state only when ignored checks alone explain it; a branch that is merely behind,
  blocked or unknown never holds; and a state is a hold exactly when a declared input holds that was not released.\<close>

theorem disposition_contract:
  fixes d :: PrDispositionInput
  defines "r \<equiv> derivePrDisposition d"
  shows "dp_commentMergeStateHeld r = isCommentMergeStateHeld (pd_mergeableState d) (pd_unstableExplainedByIgnoredChecks d) \<and>
    (dp_wouldMerge r \<longrightarrow> dp_wouldApprove r \<and> \<not> dp_commentMergeStateHeld r) \<and>
    (dp_wouldApprove r \<longrightarrow> dp_mergeable r \<noteq> MergeConflict \<and>
       (dp_mergeable r = MergeUnstable \<longrightarrow> pd_unstableExplainedByIgnoredChecks d)) \<and>
    (dp_heldForManualReview r \<longleftrightarrow> (\<exists>k. pd_holds d k \<and> \<not> (k = GuardrailHit \<and> pd_guardrailEscalationCleared d))) \<and>
    (pd_reviewGood d \<and> \<not> dp_heldForManualReview r \<and> dp_mergeable r \<in> {MergeClean, MergeBehind, MergeIndeterminate} \<longrightarrow>
       dp_wouldApprove r)"
proof -
  have c: "dp_commentMergeStateHeld r \<longleftrightarrow> isCommentMergeStateHeld (pd_mergeableState d) (pd_unstableExplainedByIgnoredChecks d)"
    by (simp add: r_def derivePrDisposition_def isCommentMergeStateHeld_def Let_def)
  have n: "dp_heldForManualReview r \<longleftrightarrow> (\<exists>k. pd_holds d k \<and> \<not> (k = GuardrailHit \<and> pd_guardrailEscalationCleared d))"
    using not_held_iff[of d] unfolding r_def disposition_simps(3) by blast
  have m: "dp_wouldMerge r \<longrightarrow> dp_wouldApprove r \<and> \<not> isCommentMergeStateHeld (pd_mergeableState d) (pd_unstableExplainedByIgnoredChecks d)"
    unfolding r_def disposition_simps(4-6) by (auto simp: isCommentMergeStateHeld_def Let_def)
  show ?thesis using c n m unfolding r_def disposition_simps(1,3-6) by auto
qed

text \<open>An autonomy policy survives being written as JSON and read back; and reading accepts nothing else: a class is set
  exactly where the object has one of the three level names for it, so everything malformed falls back to observe.\<close>

definition policy_json :: "AutonomyPolicy \<Rightarrow> jsval" where
  "policy_json policy =
     JObj (concat (map (\<lambda>c. case policy c of None \<Rightarrow> [] | Some lv \<Rightarrow> [(action_class_name c, JStr (autonomy_level_name lv))])
             AGENT_ACTION_CLASSES))"

lemma class_name_inj: "action_class_name a = action_class_name b \<longleftrightarrow> a = b"
  by (cases a; cases b) simp_all

lemma policy_json_lookup:
  "map_of (concat (map (\<lambda>c. case policy c of None \<Rightarrow> [] | Some lv \<Rightarrow> [(action_class_name c, JStr (autonomy_level_name lv))]) cs))
     (action_class_name c) =
   (if c \<in> set cs then map_option (\<lambda>lv. JStr (autonomy_level_name lv)) (policy c) else None)"
  by (induction cs) (auto simp: class_name_inj map_add_def split: option.split)

theorem autonomy_policy_roundtrip:
  "normalizeAutonomyPolicy (policy_json policy) = policy \<and>
   (\<forall>v c lv. normalizeAutonomyPolicy v c = Some lv \<longleftrightarrow>
      (\<exists>fs. v = JObj fs \<and> map_of fs (action_class_name c) = Some (JStr (autonomy_level_name lv))))"
proof
  show "normalizeAutonomyPolicy (policy_json policy) = policy"
  proof
    fix c
    have "normalizeAutonomyPolicy (policy_json policy) c =
        (case policy c of None \<Rightarrow> None
         | Some lv \<Rightarrow> find (\<lambda>lv'. autonomy_level_name lv' = autonomy_level_name lv) AUTONOMY_LEVELS)"
      by (simp add: normalizeAutonomyPolicy_def policy_json_def policy_json_lookup all_classes split: option.split)
    then show "normalizeAutonomyPolicy (policy_json policy) c = policy c"
      using find_level by (cases "policy c") auto
  qed
  show "\<forall>v c lv. normalizeAutonomyPolicy v c = Some lv \<longleftrightarrow>
      (\<exists>fs. v = JObj fs \<and> map_of fs (action_class_name c) = Some (JStr (autonomy_level_name lv)))"
    by (auto simp: normalizeAutonomyPolicy_def find_level split: jsval.splits option.splits)
qed

text \<open>Whatever the configuration holds, the number of approvals demanded before an automatic merge is a whole number
  from 0 to 10.\<close>

theorem required_approvals_are_clamped:
  "\<exists>n. n \<le> 10 \<and> am_requireApprovals (normalizeAutoMaintainPolicy v) = num_of_nat n"
proof -
  have d: "\<exists>n. n \<le> 10 \<and> am_requireApprovals DEFAULT_AUTO_MAINTAIN_POLICY = num_of_nat n"
    by (rule exI[of _ 1]) (simp add: DEFAULT_AUTO_MAINTAIN_POLICY_def)
  have "\<exists>n. n \<le> 10 \<and> math_min MAX_REQUIRE_APPROVALS (math_max (Fin 0) (math_trunc x)) = num_of_nat n" if "isFinite x" for x
  proof -
    note fin = that
    obtain q where "x = Fin q" using fin by (cases x) simp_all
    then obtain z :: int where z: "math_trunc x = Fin (of_int z)" by simp
    have "min 10 (max 0 (of_int z)) = (of_nat (nat (min 10 (max 0 z))) :: rat)" by (simp add: min_def max_def)
    then have "math_min MAX_REQUIRE_APPROVALS (math_max (Fin 0) (math_trunc x)) = num_of_nat (nat (min 10 (max 0 z)))"
      by (simp add: z MAX_REQUIRE_APPROVALS_def)
    moreover have "nat (min 10 (max 0 z)) \<le> 10" by simp
    ultimately show ?thesis by blast
  qed
  then show ?thesis using d
    by (auto simp: normalizeAutoMaintainPolicy_def split: jsval.splits option.splits)
qed

text \<open>A good review of a clean branch with no hold is approved, merged and not reported as held.\<close>

theorem disposition_contract_witness:
  fixes d :: PrDispositionInput
  defines "d \<equiv> \<lparr>pd_holds = (\<lambda>_. False), pd_mergeableState = Some ''clean'', pd_reviewGood = True,
     pd_unstableExplainedByIgnoredChecks = False, pd_guardrailEscalationCleared = False\<rparr>"
  shows "dp_wouldMerge (derivePrDisposition d) \<and> dp_wouldApprove (derivePrDisposition d) \<and>
         \<not> dp_commentMergeStateHeld (derivePrDisposition d)"
proof -
  have "assessMergeableState (Some ''clean'') = MergeClean" by code_simp
  then show ?thesis using disposition_contract[of d] by (auto simp: d_def)
qed

end
