(* ===== verification/Copycat.thy ===== *)
theory Copycat
  imports Gate_Findings
begin

text \<open>
  The copycat engine (\<open>packages/loopover-engine/src/signals/copycat.ts\<close>): how much of the code a pull request adds is
  contained in earlier submissions, which of them it could have been copied from, and whether the configured tier acts.

  \<open>parse_date\<close> is \<open>Date.parse\<close> and \<open>show_num\<close> prints the numbers of the public text. The set of prior-art shingles is
  used for membership only and is a list here.
\<close>

section \<open>Shingles and containment\<close>

datatype CopycatGateMode = CopycatOff | CopycatWarn | CopycatLabel | CopycatBlock

definition DEFAULT_COPYCAT_MIN_SCORE :: jsnum where
  "DEFAULT_COPYCAT_MIN_SCORE = Fin 85"

definition SHINGLE_SIZE :: nat where
  "SHINGLE_SIZE = 3"

datatype CopycatDirection = CandidateCopied | CandidateIsPrior | DirectionAmbiguous

definition normalizeLine :: "string \<Rightarrow> string" where
  "normalizeLine line = toLowerCase (trim (collapse_ws False line))"

definition normalizedLines :: "string list \<Rightarrow> string list" where
  "normalizedLines lines = filter (\<lambda>line. length line > 0) (map normalizeLine lines)"

fun shingle_windows :: "string list \<Rightarrow> string list" where
  "shingle_windows [] = []"
| "shingle_windows (l # ls) =
     (if SHINGLE_SIZE \<le> length (l # ls) then str_join [CHR 0x0A] (take SHINGLE_SIZE (l # ls)) # shingle_windows ls else [])"

definition codeShingleList :: "string list \<Rightarrow> string list" where
  "codeShingleList lines =
     (let normalized = normalizedLines lines
      in if length normalized = 0 then []
         else if length normalized < SHINGLE_SIZE then [str_join [CHR 0x0A] normalized]
         else shingle_windows normalized)"

definition codeShingles :: "string list \<Rightarrow> string list" where
  "codeShingles lines = remdups (codeShingleList lines)"

definition containmentScore :: "string list \<Rightarrow> string list \<Rightarrow> jsnum" where
  "containmentScore candidateLines priorArtLines =
     (let candidate = codeShingleList candidateLines
      in if length candidate = 0 then Fin 0
         else
           let prior = codeShingles priorArtLines
           in if length prior = 0 then Fin 0
              else math_round (num_mul (num_div (num_of_nat (length (filter (\<lambda>shingle. shingle \<in> set prior) candidate)))
                                                (num_of_nat (length candidate))) (Fin 100)))"


section \<open>Direction and assessment\<close>

definition copycat_submissionTimeMs :: "(string \<Rightarrow> jsnum) \<Rightarrow> string option \<Rightarrow> jsnum option" where
  "copycat_submissionTimeMs parse_date v =
     (case v of
        None \<Rightarrow> None
      | Some s \<Rightarrow> if s = [] then None else let parsed = parse_date s in if isFinite parsed then Some parsed else None)"

definition copycatDirection :: "(string \<Rightarrow> jsnum) \<Rightarrow> string option \<Rightarrow> string option \<Rightarrow> CopycatDirection" where
  "copycatDirection parse_date candidateAt priorAt =
     (case (copycat_submissionTimeMs parse_date candidateAt, copycat_submissionTimeMs parse_date priorAt) of
        (Some candidateMs, Some priorMs) \<Rightarrow>
          if num_lt priorMs candidateMs then CandidateCopied
          else if num_lt candidateMs priorMs then CandidateIsPrior
          else DirectionAmbiguous
      | _ \<Rightarrow> DirectionAmbiguous)"

definition copycat_normalizeMinScore :: "jsnum option \<Rightarrow> jsnum" where
  "copycat_normalizeMinScore v =
     (case v of
        None \<Rightarrow> DEFAULT_COPYCAT_MIN_SCORE
      | Some n \<Rightarrow> if \<not> isFinite n then DEFAULT_COPYCAT_MIN_SCORE else math_min (Fin 100) (math_max (Fin 0) (math_round n)))"

fun MODE_SEVERITY :: "CopycatGateMode \<Rightarrow> AdvisorySeverity" where
  "MODE_SEVERITY CopycatOff = SeverityInfo"
| "MODE_SEVERITY CopycatWarn = SeverityInfo"
| "MODE_SEVERITY CopycatLabel = SeverityWarning"
| "MODE_SEVERITY CopycatBlock = SeverityCritical"

definition copycat_buildFinding ::
  "(jsnum \<Rightarrow> string) \<Rightarrow> CopycatGateMode \<Rightarrow> jsnum \<Rightarrow> jsnum \<Rightarrow> nat \<Rightarrow> AdvisoryFinding" where
  "copycat_buildFinding show_num mode score minScore matchedPullNumber =
     finding ''copycat_overlap'' (MODE_SEVERITY mode) ''Potential copied code detected''
       [Lit (''This pull request'' @ [CHR 0x27] @ ''s added code reaches ''), NumV score,
        Lit ''% containment against prior art in #'', NumV (num_of_nat matchedPullNumber), Lit '' (threshold '', NumV minScore,
        Lit ''%).'']
       (Some ''Confirm the overlapping code is original or properly attributed before merging.'')
       (Some (''High overlap ('' @ show_num score @ ''%) with earlier prior art in #'' @
              show_num (num_of_nat matchedPullNumber) @ '' '' @ em_dash @ '' please confirm originality or attribution.''))"

record CopycatPriorArtCandidate =
  ca_pullNumber :: nat
  ca_lines :: "string list"
  ca_submittedAt :: "string option"

record CopycatMatch =
  cx_pullNumber :: nat
  cx_score :: jsnum
  cx_direction :: CopycatDirection

record CopycatAssessmentInput =
  ci_candidateLines :: "string list"
  ci_candidateSubmittedAt :: "string option"
  ci_priorArt :: "CopycatPriorArtCandidate list"
  ci_mode :: "CopycatGateMode option"
  ci_minScore :: "jsnum option"

record CopycatAssessment =
  cs_score :: jsnum
  cs_matchedPullNumber :: "nat option"
  cs_minScore :: jsnum
  cs_wouldAct :: bool
  cs_findings :: "AdvisoryFinding list"
  cs_matches :: "CopycatMatch list"

fun copycat_best :: "CopycatMatch option \<Rightarrow> CopycatMatch list \<Rightarrow> CopycatMatch option" where
  "copycat_best best [] = best"
| "copycat_best best (m # ms) =
     (if cx_direction m \<noteq> CandidateCopied then copycat_best best ms
      else case best of
             None \<Rightarrow> copycat_best (Some m) ms
           | Some b \<Rightarrow> if num_lt (cx_score b) (cx_score m) then copycat_best (Some m) ms else copycat_best best ms)"

definition copycat_match :: "(string \<Rightarrow> jsnum) \<Rightarrow> CopycatAssessmentInput \<Rightarrow> CopycatPriorArtCandidate \<Rightarrow> CopycatMatch" where
  "copycat_match parse_date input candidate =
     \<lparr>cx_pullNumber = ca_pullNumber candidate,
      cx_score = containmentScore (ci_candidateLines input) (ca_lines candidate),
      cx_direction = copycatDirection parse_date (ci_candidateSubmittedAt input) (ca_submittedAt candidate)\<rparr>"

definition assessCopycat ::
  "(jsnum \<Rightarrow> string) \<Rightarrow> (string \<Rightarrow> jsnum) \<Rightarrow> CopycatAssessmentInput \<Rightarrow> CopycatAssessment" where
  "assessCopycat show_num parse_date input =
     (let minScore = copycat_normalizeMinScore (ci_minScore input);
          mode = or_default (ci_mode input) CopycatOff;
          matches = map (copycat_match parse_date input) (ci_priorArt input);
          best = copycat_best None matches;
          score = (case best of None \<Rightarrow> Fin 0 | Some m \<Rightarrow> cx_score m);
          matchedPullNumber = map_option cx_pullNumber best;
          wouldAct = (mode \<noteq> CopycatOff \<and> best \<noteq> None \<and> num_ge score minScore)
      in \<lparr>cs_score = score, cs_matchedPullNumber = matchedPullNumber, cs_minScore = minScore, cs_wouldAct = wouldAct,
          cs_findings =
            (case matchedPullNumber of
               None \<Rightarrow> []
             | Some n \<Rightarrow> if wouldAct then [copycat_buildFinding show_num mode score minScore n] else []),
          cs_matches = matches\<rparr>)"

definition copycatWouldActOnPersistedScore ::
  "jsnum option \<Rightarrow> nat option \<Rightarrow> CopycatGateMode option \<Rightarrow> jsnum option \<Rightarrow> bool" where
  "copycatWouldActOnPersistedScore score matchedPullNumber mode minScore =
     (if or_default mode CopycatOff = CopycatOff then False
      else if matchedPullNumber = None then False
      else case score of
             None \<Rightarrow> False
           | Some s \<Rightarrow> if \<not> isFinite s then False else num_ge s (copycat_normalizeMinScore minScore))"


section \<open>The score\<close>

lemma percentage_value:
  assumes "k \<le> n" "0 < n"
  shows "num_mul (num_div (num_of_nat k) (num_of_nat n)) (Fin 100) = Fin (of_nat k / of_nat n * 100)"
proof -
  define q where "q = (of_nat k / of_nat n :: rat)"
  have q: "0 \<le> q" "q \<le> 1" using assms by (simp_all add: q_def divide_le_eq)
  have "num_div (num_of_nat k) (num_of_nat n) = Fin q" using q assms num_of_rat_unit[of q] by (simp add: q_def)
  moreover have "num_mul (Fin q) (Fin 100) = Fin (q * 100)" using q num_of_rat_small[of "q * 100"] by simp
  ultimately show ?thesis by (simp add: q_def)
qed

definition contained :: "string list \<Rightarrow> string list \<Rightarrow> nat" where
  "contained c p = length (filter (\<lambda>s. s \<in> set (codeShingleList p)) (codeShingleList c))"

lemma containment_value:
  "containmentScore c p =
     (if codeShingleList c = [] \<or> codeShingleList p = [] then Fin 0
      else Fin (of_int \<lfloor>of_nat (contained c p) / of_nat (length (codeShingleList c)) * 100 + 1 / 2 :: rat\<rfloor>))"
proof (cases "codeShingleList c = [] \<or> codeShingleList p = []")
  case False
  have "contained c p \<le> length (codeShingleList c)" "0 < length (codeShingleList c)"
    using False by (simp_all add: contained_def)
  from percentage_value[OF this] False show ?thesis
    by (simp add: containmentScore_def codeShingles_def Let_def contained_def del: num_mul.simps num_div.simps)
qed (auto simp: containmentScore_def codeShingles_def Let_def)

lemma containment_percentage: "\<exists>n \<le> 100. containmentScore c p = num_of_nat n"
proof (cases "codeShingleList c = [] \<or> codeShingleList p = []")
  case True
  then show ?thesis by (intro exI[of _ 0]) (auto simp: containment_value)
next
  case False
  define x where "x = (of_nat (contained c p) / of_nat (length (codeShingleList c)) :: rat)"
  have "contained c p \<le> length (codeShingleList c)" by (simp add: contained_def)
  then have "0 \<le> x" "x \<le> 1" using False by (simp_all add: x_def divide_le_eq)
  then have f: "0 \<le> \<lfloor>x * 100 + 1 / 2\<rfloor>" "\<lfloor>x * 100 + 1 / 2\<rfloor> \<le> 100" by linarith+
  have "containmentScore c p = num_of_nat (nat \<lfloor>x * 100 + 1 / 2\<rfloor>)"
    using False f(1) by (simp add: containment_value x_def)
  moreover have "nat \<lfloor>x * 100 + 1 / 2\<rfloor> \<le> 100" using f by linarith
  ultimately show ?thesis by blast
qed

text \<open>Code that repeats the prior art passage by passage scores 100.\<close>

lemma containment_full:
  assumes "codeShingleList c \<noteq> []" "set (codeShingleList c) \<subseteq> set (codeShingleList p)"
  shows "containmentScore c p = Fin 100"
proof -
  have "filter (\<lambda>s. s \<in> set (codeShingleList p)) (codeShingleList c) = codeShingleList c"
    using assms(2) by (auto simp: filter_id_conv)
  then have "contained c p = length (codeShingleList c)" by (simp add: contained_def)
  moreover have "\<lfloor>100 + 1 / 2 :: rat\<rfloor> = 100" by (simp add: floor_eq_iff)
  ultimately show ?thesis using assms by (auto simp: containment_value)
qed


section \<open>The assessment\<close>

lemma num_le_trans: "num_le a b \<Longrightarrow> num_le b c \<Longrightarrow> num_le a c"
  by (cases a; cases b; cases c) auto

lemma best_eligible:
  "copycat_best best ms = Some b \<Longrightarrow> best = Some b \<or> b \<in> set ms \<and> cx_direction b = CandidateCopied"
  by (induction best ms rule: copycat_best.induct) (auto split: if_splits option.splits)

lemma best_maximal:
  assumes "copycat_best best ms = Some b" "\<forall>m \<in> set ms. isFinite (cx_score m)" "\<forall>m. best = Some m \<longrightarrow> isFinite (cx_score m)"
  shows "isFinite (cx_score b) \<and> (\<forall>m. best = Some m \<longrightarrow> num_le (cx_score m) (cx_score b)) \<and>
    (\<forall>m \<in> set ms. cx_direction m = CandidateCopied \<longrightarrow> num_le (cx_score m) (cx_score b))"
  using assms
proof (induction ms arbitrary: best)
  case Nil
  then show ?case by (cases "cx_score b") auto
next
  case (Cons m ms)
  have fm: "isFinite (cx_score m)" "\<forall>m \<in> set ms. isFinite (cx_score m)" using Cons.prems(2) by simp_all
  show ?case
  proof (cases "cx_direction m = CandidateCopied")
    case False
    then show ?thesis using Cons by simp
  next
    case True
    show ?thesis
    proof (cases best)
      case None
      then have "copycat_best (Some m) ms = Some b" using Cons.prems(1) True by simp
      from Cons.IH[OF this fm(2)] show ?thesis using fm(1) None by simp
    next
      case (Some c)
      define d where "d = (if num_lt (cx_score c) (cx_score m) then m else c)"
      have fc: "isFinite (cx_score c)" using Cons.prems(3) Some by simp
      then have d: "isFinite (cx_score d)" "num_le (cx_score c) (cx_score d)" "num_le (cx_score m) (cx_score d)"
        using fm(1) unfolding d_def by (cases "cx_score c"; cases "cx_score m"; simp)+
      have "copycat_best (Some d) ms = Some b" using Cons.prems(1) True Some by (simp add: d_def split: if_splits)
      from Cons.IH[OF this fm(2)] d(1) have ih: "isFinite (cx_score b)" "num_le (cx_score d) (cx_score b)"
        "\<forall>x \<in> set ms. cx_direction x = CandidateCopied \<longrightarrow> num_le (cx_score x) (cx_score b)" by simp_all
      show ?thesis using ih(1,3) num_le_trans[OF d(2) ih(2)] num_le_trans[OF d(3) ih(2)] Some by simp
    qed
  qed
qed

lemma direction_copied:
  "copycatDirection parse_date c p = CandidateCopied \<longleftrightarrow>
     (\<exists>x y. copycat_submissionTimeMs parse_date c = Some x \<and> copycat_submissionTimeMs parse_date p = Some y \<and> num_lt y x)"
  by (auto simp: copycatDirection_def split: option.splits if_splits)

lemma assessment_simps:
  "cs_score (assessCopycat sh pd i) =
     (case copycat_best None (map (copycat_match pd i) (ci_priorArt i)) of None \<Rightarrow> Fin 0 | Some m \<Rightarrow> cx_score m)"
  "cs_matchedPullNumber (assessCopycat sh pd i) =
     map_option cx_pullNumber (copycat_best None (map (copycat_match pd i) (ci_priorArt i)))"
  "cs_wouldAct (assessCopycat sh pd i) \<longleftrightarrow>
     or_default (ci_mode i) CopycatOff \<noteq> CopycatOff \<and>
     (\<exists>b. copycat_best None (map (copycat_match pd i) (ci_priorArt i)) = Some b \<and>
          num_ge (cx_score b) (copycat_normalizeMinScore (ci_minScore i)))"
  by (auto simp: assessCopycat_def Let_def split: option.split)

text \<open>The engine acts only against the later of two submissions: the matched prior art was submitted strictly earlier,
  with both times known, and its containment, the highest of all eligible prior art, reaches the threshold. No two pull
  requests can therefore accuse each other.\<close>

theorem copycat_never_accuses_the_original:
  assumes "cs_wouldAct (assessCopycat sh parse_date i)"
  shows "\<exists>p x y. p \<in> set (ci_priorArt i) \<and> cs_matchedPullNumber (assessCopycat sh parse_date i) = Some (ca_pullNumber p) \<and>
    copycat_submissionTimeMs parse_date (ca_submittedAt p) = Some x \<and>
    copycat_submissionTimeMs parse_date (ci_candidateSubmittedAt i) = Some y \<and> num_lt x y \<and>
    cs_score (assessCopycat sh parse_date i) = containmentScore (ci_candidateLines i) (ca_lines p) \<and>
    num_le (copycat_normalizeMinScore (ci_minScore i)) (cs_score (assessCopycat sh parse_date i)) \<and>
    (\<forall>q \<in> set (ci_priorArt i).
       copycatDirection parse_date (ci_candidateSubmittedAt i) (ca_submittedAt q) = CandidateCopied \<longrightarrow>
       num_le (containmentScore (ci_candidateLines i) (ca_lines q)) (cs_score (assessCopycat sh parse_date i)))"
proof -
  let ?ms = "map (copycat_match parse_date i) (ci_priorArt i)"
  obtain b where b: "copycat_best None ?ms = Some b" "num_ge (cx_score b) (copycat_normalizeMinScore (ci_minScore i))"
    using assms unfolding assessment_simps by blast
  obtain p where p: "p \<in> set (ci_priorArt i)" "b = copycat_match parse_date i p" "cx_direction b = CandidateCopied"
    using best_eligible[OF b(1)] by auto
  have f: "isFinite (containmentScore c q)" for c q using containment_percentage[of c q] by auto
  have mx: "\<forall>m \<in> set ?ms. cx_direction m = CandidateCopied \<longrightarrow> num_le (cx_score m) (cx_score b)"
    using best_maximal[OF b(1)] by (simp add: copycat_match_def f)
  from p(2,3) obtain y x where t: "copycat_submissionTimeMs parse_date (ci_candidateSubmittedAt i) = Some y"
    "copycat_submissionTimeMs parse_date (ca_submittedAt p) = Some x" "num_lt x y"
    by (auto simp: copycat_match_def direction_copied)
  show ?thesis
    using p(1,2) t b(2) mx unfolding assessment_simps b(1)
    by (intro exI[of _ p] exI[of _ x] exI[of _ y]) (auto simp: copycat_match_def)
qed

text \<open>The verdict re-derived later from the stored score and match is the verdict of the assessment that stored them, and
  the score is a whole percentage.\<close>

theorem stored_copycat_verdict_agrees:
  "copycatWouldActOnPersistedScore (Some (cs_score (assessCopycat sh parse_date i)))
     (cs_matchedPullNumber (assessCopycat sh parse_date i)) (ci_mode i) (ci_minScore i) =
   cs_wouldAct (assessCopycat sh parse_date i) \<and>
   (\<exists>n \<le> 100. cs_score (assessCopycat sh parse_date i) = num_of_nat n)"
proof
  let ?ms = "map (copycat_match parse_date i) (ci_priorArt i)"
  have "\<exists>n \<le> 100. cx_score b = num_of_nat n" if "copycat_best None ?ms = Some b" for b
    using best_eligible[OF that] containment_percentage by (auto simp: copycat_match_def)
  then show n: "\<exists>n \<le> 100. cs_score (assessCopycat sh parse_date i) = num_of_nat n"
    unfolding assessment_simps by (auto split: option.split)
  then have "isFinite (cs_score (assessCopycat sh parse_date i))" by auto
  then show "copycatWouldActOnPersistedScore (Some (cs_score (assessCopycat sh parse_date i)))
     (cs_matchedPullNumber (assessCopycat sh parse_date i)) (ci_mode i) (ci_minScore i) =
     cs_wouldAct (assessCopycat sh parse_date i)"
    unfolding copycatWouldActOnPersistedScore_def assessment_simps by (auto split: option.splits)
qed

text \<open>Two files of the same lines, the second submitted later.\<close>

definition prior_lines :: "string list" where
  "prior_lines = [''let a = 1;'', ''let b = 2;'', ''RETURN a + b;'']"

definition copied_input :: CopycatAssessmentInput where
  "copied_input =
     \<lparr>ci_candidateLines = [''let a = 1;'', ''  let b = 2;'', [], ''return a + b;''], ci_candidateSubmittedAt = Some ''b'',
      ci_priorArt = [\<lparr>ca_pullNumber = 7, ca_lines = prior_lines, ca_submittedAt = Some ''a''\<rparr>],
      ci_mode = Some CopycatBlock, ci_minScore = None\<rparr>"

definition letter_date :: "string \<Rightarrow> jsnum" where
  "letter_date s = (if s = ''a'' then Fin 1 else Fin 2)"

lemma copied_best:
  "copycat_best None (map (copycat_match letter_date copied_input) (ci_priorArt copied_input)) =
     Some \<lparr>cx_pullNumber = 7, cx_score = Fin 100, cx_direction = CandidateCopied\<rparr>"
proof -
  have "containmentScore (ci_candidateLines copied_input) prior_lines = Fin 100"
    by (rule containment_full) code_simp+
  moreover have "copycatDirection letter_date (Some ''b'') (Some ''a'') = CandidateCopied" by code_simp
  ultimately show ?thesis by (simp add: copied_input_def copycat_match_def)
qed

theorem copycat_never_accuses_the_original_witness:
  "\<exists>p x y. p \<in> set (ci_priorArt copied_input) \<and> copycat_submissionTimeMs letter_date (ca_submittedAt p) = Some x \<and>
     copycat_submissionTimeMs letter_date (ci_candidateSubmittedAt copied_input) = Some y \<and> num_lt x y"
proof -
  have "cs_wouldAct (assessCopycat (\<lambda>_. []) letter_date copied_input)"
    unfolding assessment_simps copied_best
    by (simp add: copied_input_def copycat_normalizeMinScore_def DEFAULT_COPYCAT_MIN_SCORE_def or_default_def)
  from copycat_never_accuses_the_original[OF this] show ?thesis by blast
qed

end
