(* ===== verification/Agent_Actions.thy ===== *)
theory Agent_Actions
  imports Pr_Disposition Gate_Host Submission Copycat
begin

text \<open>
  The planner of the maintainer's automatic actions (\<open>src/settings/agent-actions.ts\<close>): from the gate's verdict, the
  state of the pull request and the repository's autonomy policy it decides which labels, reviews, merges and closes to
  carry out, and two circuit breakers downgrade a planned merge or close to a hold.

  A planned action is a record whose optional fields are \<open>None\<close> when the source leaves them out. The plan input extends
  the label settings, as the source passes the whole input where the settings are expected; a label setting is
  \<open>None\<close> when absent and \<open>Some None\<close> when it is \<open>null\<close>. Flags the source compares with \<open>true\<close> are booleans, and
  two fields the planner ignores (\<open>aiCiRefutationEnabled\<close>, \<open>ciRequiredContextsVerified\<close>) are left out. The local
  constants of \<open>planAgentMaintenanceActions\<close> are the functions \<open>plan_\<dots>\<close> of the input, and its numbered sections are
  functions that append to the list of actions.

  The record \<open>planner_env\<close> holds the public-comment sanitizer of \<open>src/github/commands.ts\<close>, a table of regular
  expressions that is not modelled, and number printing. Every property holds for all of them.
\<close>

section \<open>Labels and protected authors\<close>

record planner_env =
  pe_sanitize :: "string \<Rightarrow> string"
  pe_num :: "jsnum \<Rightarrow> string"

definition DEFAULT_SLOP_GATE_MIN_SCORE :: jsnum where
  "DEFAULT_SLOP_GATE_MIN_SCORE = Fin 60"

definition AGENT_LABEL_READY :: string where
  "AGENT_LABEL_READY = ''ready-to-merge''"

definition AGENT_LABEL_CHANGES :: string where
  "AGENT_LABEL_CHANGES = ''changes-requested''"

definition DEFAULT_BLACKLIST_LABEL :: string where
  "DEFAULT_BLACKLIST_LABEL = ''slop''"

definition DEFAULT_CONTRIBUTOR_CAP_LABEL :: string where
  "DEFAULT_CONTRIBUTOR_CAP_LABEL = ''over-contributor-limit''"

definition DEFAULT_REVIEW_NAG_LABEL :: string where
  "DEFAULT_REVIEW_NAG_LABEL = ''review-nag-cooldown''"

definition DEFAULT_COPYCAT_LABEL :: string where
  "DEFAULT_COPYCAT_LABEL = ''copycat''"

definition AGENT_LABEL_NEEDS_REVIEW :: string where
  "AGENT_LABEL_NEEDS_REVIEW = ''manual-review''"

definition AGENT_LABEL_MIGRATION_COLLISION :: string where
  "AGENT_LABEL_MIGRATION_COLLISION = ''migration-collision''"

definition AGENT_LABEL_PENDING_CLOSURE :: string where
  "AGENT_LABEL_PENDING_CLOSURE = ''pending-closure''"

definition resolveNullableLabel :: "string option option \<Rightarrow> string \<Rightarrow> string option" where
  "resolveNullableLabel configured fallback = (case configured of None \<Rightarrow> Some fallback | Some l \<Rightarrow> l)"

definition PROTECTED_AUTOCLOSE_AUTHORS :: "string list" where
  "PROTECTED_AUTOCLOSE_AUTHORS = [''github-actions[bot]'', ''dependabot[bot]'', ''renovate[bot]'']"

fun split_logins :: "string \<Rightarrow> string list" where
  "split_logins [] = [[]]"
| "split_logins (c # s) =
     (if is_ws c \<or> c = CHR '','' then
        (case s of
           [] \<Rightarrow> [[], []]
         | d # _ \<Rightarrow> if is_ws d \<or> d = CHR '','' then split_logins s else [] # split_logins s)
      else (case split_logins s of [] \<Rightarrow> [[c]] | w # ws \<Rightarrow> (c # w) # ws))"

definition parseGitHubLoginList :: "string option \<Rightarrow> string list" where
  "parseGitHubLoginList v =
     js_set (filter (\<lambda>login. login \<noteq> []) (map (\<lambda>login. toLowerCase (trim login)) (split_logins (or_default v []))))"

definition protectedAutocloseAuthors :: "string option \<Rightarrow> string list" where
  "protectedAutocloseAuthors extraEnv =
     (let extra = parseGitHubLoginList extraEnv
      in if length extra > 0 then js_set (PROTECTED_AUTOCLOSE_AUTHORS @ extra) else PROTECTED_AUTOCLOSE_AUTHORS)"

definition isProtectedAutomationAuthor :: "string option \<Rightarrow> string option \<Rightarrow> bool" where
  "isProtectedAutomationAuthor login extraEnv =
     (case login of None \<Rightarrow> False | Some l \<Rightarrow> toLowerCase l \<in> set (protectedAutocloseAuthors extraEnv))"


section \<open>Planned actions\<close>

datatype CloseKind =
    KindLinkedIssueHardRule | KindBlacklist | KindContributorCap | KindReviewNag | KindScreenshotTable | KindHeuristic
  | KindCopycat

datatype LabelOp = LabelAdd | LabelRemove

datatype CloseCiRequirement = CiMustBeFailed | CiNotRequired

record PlannedAgentAction =
  pa_actionClass :: AgentActionClass
  pa_autonomyClass :: "AgentActionClass option"
  pa_requiresApproval :: bool
  pa_reason :: string
  pa_label :: "string option"
  pa_labelOp :: "LabelOp option"
  pa_comment :: "string option"
  pa_reviewBody :: "string option"
  pa_mergeMethod :: "AutoMergeMethod option"
  pa_closeComment :: "string option"
  pa_closeReasons :: "string list option"
  pa_closeKind :: "CloseKind option"
  pa_closeRequiresCiState :: "CloseCiRequirement option"
  pa_closeRequiresMergeableState :: "bool option"
  pa_closeRequiresThreadResolved :: "bool option"
  pa_closeRequiresDuplicateStillOpen :: "bool option"
  pa_duplicateWinnerPrNumber :: "jsnum option"
  pa_closeConcreteEvidence :: "bool option"
  pa_closeConcreteEvidenceCodes :: "string list option"
  pa_expectedHeadSha :: "string option"
  pa_dismissStaleApproval :: "bool option"
  pa_assignee :: "string option"

definition action_of :: "AgentActionClass \<Rightarrow> bool \<Rightarrow> string \<Rightarrow> PlannedAgentAction" where
  "action_of actionClass requiresApproval reason =
     \<lparr>pa_actionClass = actionClass, pa_autonomyClass = None, pa_requiresApproval = requiresApproval, pa_reason = reason,
      pa_label = None, pa_labelOp = None, pa_comment = None, pa_reviewBody = None, pa_mergeMethod = None,
      pa_closeComment = None, pa_closeReasons = None, pa_closeKind = None, pa_closeRequiresCiState = None,
      pa_closeRequiresMergeableState = None, pa_closeRequiresThreadResolved = None,
      pa_closeRequiresDuplicateStillOpen = None, pa_duplicateWinnerPrNumber = None, pa_closeConcreteEvidence = None,
      pa_closeConcreteEvidenceCodes = None, pa_expectedHeadSha = None, pa_dismissStaleApproval = None,
      pa_assignee = None\<rparr>"

definition label_action :: "AgentActionClass \<Rightarrow> bool \<Rightarrow> string \<Rightarrow> string \<Rightarrow> LabelOp \<Rightarrow> PlannedAgentAction" where
  "label_action autonomyClass requiresApproval reason l op =
     (action_of ClassLabel requiresApproval reason)
       \<lparr>pa_autonomyClass := Some autonomyClass, pa_label := Some l, pa_labelOp := Some op\<rparr>"

definition governing_class :: "PlannedAgentAction \<Rightarrow> AgentActionClass" where
  "governing_class a = or_default (pa_autonomyClass a) (pa_actionClass a)"

definition CONCRETE_EVIDENCE_BLOCKER_CODES :: "string list" where
  "CONCRETE_EVIDENCE_BLOCKER_CODES =
     [''secret_leak'', ''duplicate_pr_risk'', ''surface_lane_reject'', ''manifest_missing_tests'',
      ''manifest_linked_issue_required'', ''pre_merge_check_required'', ''lockfile_tamper_risk'',
      ''missing_linked_issue'', ''linked_issue_superseded'', ''self_authored_linked_issue'',
      ''content_lane_deliverable_missing'']"

definition host_REVIEW_THREAD_BLOCKER_CODE :: string where
  "host_REVIEW_THREAD_BLOCKER_CODE = ''review_thread_unresolved''"


section \<open>The plan input\<close>

datatype CiState = CiStatePassed | CiStateFailed | CiStatePending | CiStateUnverified

datatype OnCleanReview = CleanReviewHold | CleanReviewProceed

datatype CapScope = ScopeRepository | ScopeInstall

record hold_verdict =
  hv_reason :: string
  hv_comment :: string

record check_verdict =
  cv_name :: string
  cv_appSlug :: string
  cv_conclusion :: string

record linked_issue_rule =
  lr_violated :: bool
  lr_reason :: "string option"

record contributor_cap_match =
  cm_matched :: bool
  cm_authorLogin :: string
  cm_openCount :: jsnum
  cm_cap :: jsnum
  cm_itemKind :: string
  cm_scope :: "CapScope option"

record review_nag_match =
  nm_matched :: bool
  nm_authorLogin :: string
  nm_pingCount :: jsnum
  nm_maxPings :: jsnum

record copycat_verdict =
  xm_matched :: bool
  xm_matchedPullNumber :: jsnum

record screenshot_match =
  sm_matched :: bool
  sm_reason :: "string option"

record linked_issue_verify =
  lv_verifyBeforeClose :: bool
  lv_closeDelaySeconds :: jsnum

record plan_pr =
  pp_mergeableState :: "string option"
  pp_reviewDecision :: "string option"
  pp_slopRisk :: "jsnum option"
  pp_labels :: "string list"
  pp_linkedDuplicateCount :: "jsnum option"
  pp_linkedDuplicateWinnerNumber :: "jsnum option"
  pp_headSha :: "string option"
  pp_mergeBlockedSha :: "string option"
  pp_mergeBlockedReason :: "string option"
  pp_approvedHeadSha :: "string option"
  pp_authorLogin :: "string option"

record AgentDispositionLabelSettings =
  ls_manualReviewLabel :: "string option option"
  ls_readyToMergeLabel :: "string option option"
  ls_changesRequestedLabel :: "string option option"
  ls_migrationCollisionLabel :: "string option option"
  ls_pendingClosureLabel :: "string option option"

record plan_verdicts = AgentDispositionLabelSettings +
  ap_conclusion :: GateCheckConclusion
  ap_blockerTitles :: "string list"
  ap_gateBlockerCodes :: "string list option"
  ap_autonomy :: "AutonomyPolicy option"
  ap_autoMaintain :: "AutoMaintainPolicy option"
  ap_slopGateMinScore :: "jsnum option"
  ap_changedPaths :: "string list"
  ap_hardGuardrailGlobs :: "string list"
  ap_guardrailEscalationOnCleanReview :: "OnCleanReview option"
  ap_guardrailEscalationEffort :: "string option"
  ap_guardrailEscalationSelfConsistencyRuns :: "jsnum option"
  ap_guardrailEscalationModel :: "string option"
  ap_guardrailEscalationProvider :: "string option"
  ap_manualReviewLabelAppliedSha :: "string option"
  ap_manualReviewLockContentionResolved :: bool
  ap_authorIsOwner :: bool
  ap_authorIsAdmin :: bool
  ap_authorIsAutomationBot :: bool
  ap_closeOwnerAuthors :: bool
  ap_ciState :: CiState
  ap_ciHasPending :: bool
  ap_failingCheckNames :: "string list option"

record AgentActionPlanInput = plan_verdicts +
  ap_linkedIssueHardRule :: "linked_issue_rule option"
  ap_blacklistMatched :: bool
  ap_blacklistLabel :: "string option option"
  ap_contributorCapMatch :: "contributor_cap_match option"
  ap_contributorCapLabel :: "string option option"
  ap_reviewNagMatch :: "review_nag_match option"
  ap_reviewNagLabel :: "string option option"
  ap_copycatMatch :: "copycat_verdict option"
  ap_copycatGateMode :: "CopycatGateMode option"
  ap_copycatLabel :: "string option option"
  ap_linkedIssueVerify :: "linked_issue_verify option"
  ap_migrationCollisionHold :: "hold_verdict option"
  ap_advisoryCheckHold :: "check_verdict list option"
  ap_ignoredCheckNonPassing :: "check_verdict list option"
  ap_nonRequiredCheckFailures :: "string list option"
  ap_unlinkedIssueMatchHold :: "hold_verdict option"
  ap_priorityEligibilityHold :: "hold_verdict option"
  ap_screenshotEvidenceHold :: "hold_verdict option"
  ap_unlinkedIssueMatchClose :: "hold_verdict option"
  ap_aiReviewLowConfidenceHold :: "hold_verdict option"
  ap_screenshotTableMatch :: "screenshot_match option"
  ap_screenshotTableEvidenceUnresolved :: bool
  ap_pr :: plan_pr


section \<open>Evidence, labels and hold reasons\<close>

definition concreteCloseEvidenceCodes :: "AgentActionPlanInput \<Rightarrow> string list" where
  "concreteCloseEvidenceCodes i =
     filter (\<lambda>code. code \<in> set CONCRETE_EVIDENCE_BLOCKER_CODES \<and> code \<notin> set AI_JUDGMENT_BLOCKER_CODES)
       (or_default (ap_gateBlockerCodes i) [])"

definition hasConcreteCloseEvidence :: "AgentActionPlanInput \<Rightarrow> bool \<Rightarrow> bool \<Rightarrow> bool" where
  "hasConcreteCloseEvidence i ciFailed isConflict =
     (if ciFailed \<or> isConflict then True else length (concreteCloseEvidenceCodes i) > 0)"

definition hasLabel :: "string list \<Rightarrow> string \<Rightarrow> bool" where
  "hasLabel labels name \<longleftrightarrow> list_ex (\<lambda>l. toLowerCase l = toLowerCase name) labels"

definition plans_label :: "string \<Rightarrow> PlannedAgentAction \<Rightarrow> bool" where
  "plans_label name a \<longleftrightarrow>
     pa_actionClass a = ClassLabel \<and> pa_labelOp a \<noteq> Some LabelRemove \<and>
     map_option toLowerCase (pa_label a) = Some (toLowerCase name)"

definition hasLabelOrPlanned :: "string list \<Rightarrow> PlannedAgentAction list \<Rightarrow> string \<Rightarrow> bool" where
  "hasLabelOrPlanned labels actions name \<longleftrightarrow> hasLabel labels name \<or> list_ex (plans_label name) actions"

record ResolvedAgentDispositionLabels =
  rl_manualReview :: "string option"
  rl_readyToMerge :: "string option"
  rl_changesRequested :: "string option"
  rl_migrationCollision :: "string option"
  rl_pendingClosure :: "string option"

definition resolveAgentDispositionLabels ::
  "'a AgentDispositionLabelSettings_scheme \<Rightarrow> ResolvedAgentDispositionLabels" where
  "resolveAgentDispositionLabels settings =
     \<lparr>rl_manualReview = resolveNullableLabel (ls_manualReviewLabel settings) AGENT_LABEL_NEEDS_REVIEW,
      rl_readyToMerge = resolveNullableLabel (ls_readyToMergeLabel settings) AGENT_LABEL_READY,
      rl_changesRequested = resolveNullableLabel (ls_changesRequestedLabel settings) AGENT_LABEL_CHANGES,
      rl_migrationCollision = resolveNullableLabel (ls_migrationCollisionLabel settings) AGENT_LABEL_MIGRATION_COLLISION,
      rl_pendingClosure = resolveNullableLabel (ls_pendingClosureLabel settings) AGENT_LABEL_PENDING_CLOSURE\<rparr>"

definition guardrailHoldReason :: "planner_env \<Rightarrow> string list \<Rightarrow> string list \<Rightarrow> string" where
  "guardrailHoldReason E changedPaths hardGuardrailGlobs =
     (let matches = changedPathsHittingGuardrail changedPaths hardGuardrailGlobs
      in if length matches = 0 then ''guarded path -> manual review (changed-file list unavailable)''
         else ''guarded path -> manual review ('' @
              str_join '', '' (map (\<lambda>path. ''`'' @ path @ ''`'') (take 3 matches)) @
              (if length matches > 3 then '', and '' @ pe_num E (num_of_nat (length matches - 3)) @ '' more'' else []) @
              '')'')"


section \<open>The circuit breakers\<close>

definition withManualReviewHoldLabel ::
  "PlannedAgentAction list \<Rightarrow> 'a AgentDispositionLabelSettings_scheme \<Rightarrow> PlannedAgentAction \<Rightarrow> PlannedAgentAction list" where
  "withManualReviewHoldLabel planned labelSettings action =
     (case rl_manualReview (resolveAgentDispositionLabels labelSettings) of
        None \<Rightarrow> planned
      | Some manualReview \<Rightarrow>
          let isThisLabel = (\<lambda>candidate. pa_actionClass candidate = ClassLabel \<and> pa_label candidate = Some manualReview);
              kept = filter (\<lambda>candidate. \<not> (isThisLabel candidate \<and> pa_labelOp candidate = Some LabelRemove)) planned
          in if list_ex (\<lambda>candidate. isThisLabel candidate \<and> pa_labelOp candidate \<noteq> Some LabelRemove) kept then kept
             else kept @ [action \<lparr>pa_actionClass := ClassLabel, pa_label := Some manualReview, pa_labelOp := Some LabelAdd\<rparr>])"

definition hold_action :: "AgentActionClass \<Rightarrow> bool \<Rightarrow> string \<Rightarrow> PlannedAgentAction" where
  "hold_action autonomyClass requiresApproval reason =
     (action_of ClassLabel requiresApproval reason) \<lparr>pa_autonomyClass := Some autonomyClass\<rparr>"

definition downgradeMergeToHold ::
  "PlannedAgentAction list \<Rightarrow> bool \<Rightarrow> 'a AgentDispositionLabelSettings_scheme \<Rightarrow> PlannedAgentAction list" where
  "downgradeMergeToHold planned holdOnly labelSettings =
     (if \<not> holdOnly \<or> \<not> list_ex (\<lambda>a. pa_actionClass a = ClassMerge) planned then planned
      else
        let labels = resolveAgentDispositionLabels labelSettings;
            kept = filter (\<lambda>a. pa_actionClass a \<noteq> ClassMerge) planned;
            stagedMerge = find (\<lambda>a. pa_actionClass a = ClassMerge) planned;
            withHold = withManualReviewHoldLabel kept labelSettings
              (hold_action ClassMerge (case stagedMerge of None \<Rightarrow> False | Some a \<Rightarrow> pa_requiresApproval a)
                (''accuracy circuit-breaker engaged (merge precision dropped) '' @ em_dash @
                 '' would-merge held for human review''))
        in filter (\<lambda>a. \<not> (rl_readyToMerge labels \<noteq> None \<and> pa_actionClass a = ClassLabel \<and>
                          pa_label a = rl_readyToMerge labels \<and> pa_labelOp a \<noteq> Some LabelRemove)) withHold)"

definition CONTENT_INSPECTION_CLOSE_KINDS :: "CloseKind list" where
  "CONTENT_INSPECTION_CLOSE_KINDS = [KindScreenshotTable, KindReviewNag, KindCopycat]"

definition isBreakerEligibleClose :: "PlannedAgentAction \<Rightarrow> bool" where
  "isBreakerEligibleClose a \<longleftrightarrow>
     (case pa_closeKind a of None \<Rightarrow> False
      | Some k \<Rightarrow> k = KindHeuristic \<or> k \<in> set CONTENT_INSPECTION_CLOSE_KINDS)"

definition noConcreteEvidenceUnderProjectBreaker :: "bool \<Rightarrow> PlannedAgentAction \<Rightarrow> bool" where
  "noConcreteEvidenceUnderProjectBreaker closeHoldOnly a \<longleftrightarrow>
     pa_actionClass a = ClassClose \<and> isBreakerEligibleClose a \<and> pa_closeConcreteEvidence a \<noteq> Some True \<and> closeHoldOnly"

definition everyJustifyingCodeUntrustworthy :: "string list \<Rightarrow> PlannedAgentAction \<Rightarrow> bool" where
  "everyJustifyingCodeUntrustworthy untrustworthyRuleCodes a =
     (let codes = or_default (pa_closeConcreteEvidenceCodes a) []
      in length codes > 0 \<and> list_all (\<lambda>code. code \<in> set untrustworthyRuleCodes) codes)"

definition isDowngradableClose :: "bool \<Rightarrow> string list \<Rightarrow> PlannedAgentAction \<Rightarrow> bool" where
  "isDowngradableClose closeHoldOnly untrustworthyRuleCodes a \<longleftrightarrow>
     pa_actionClass a = ClassClose \<and> isBreakerEligibleClose a \<and>
     (noConcreteEvidenceUnderProjectBreaker closeHoldOnly a \<or>
      pa_closeConcreteEvidence a = Some True \<and> everyJustifyingCodeUntrustworthy untrustworthyRuleCodes a)"

definition downgradeCloseToHold ::
  "PlannedAgentAction list \<Rightarrow> bool \<Rightarrow> 'a AgentDispositionLabelSettings_scheme \<Rightarrow> string list \<Rightarrow> PlannedAgentAction list" where
  "downgradeCloseToHold planned closeHoldOnly labelSettings untrustworthyRuleCodes =
     (let downgradable = isDowngradableClose closeHoldOnly untrustworthyRuleCodes
      in if \<not> list_ex downgradable planned then planned
         else
           let droppedCloseKinds = map pa_closeKind (filter downgradable planned);
               isOrphanedCoupledLabel =
                 (\<lambda>a. pa_actionClass a = ClassLabel \<and> pa_closeKind a \<noteq> None \<and> pa_closeKind a \<in> set droppedCloseKinds);
               kept = filter (\<lambda>a. \<not> downgradable a \<and> \<not> isOrphanedCoupledLabel a) planned;
               droppedClose = find downgradable planned
           in withManualReviewHoldLabel kept labelSettings
                (hold_action ClassClose (case droppedClose of None \<Rightarrow> False | Some a \<Rightarrow> pa_requiresApproval a)
                  (''close-precision circuit-breaker engaged '' @ em_dash @ '' would-close held for human review'')))"


section \<open>Close messages\<close>

definition closeMessage :: "string list \<Rightarrow> string" where
  "closeMessage reasons =
     ''LoopOver is closing this pull request on the maintainer'' @ [CHR 0x27] @ ''s behalf ('' @ str_join ''; '' reasons @
     ''). This is an automated maintenance action '' @ em_dash @
     '' to pursue this change, please open a new pull request with the issues resolved. Closed PRs may be analyzed later to improve review accuracy, but they are not automatically reopened or re-reviewed.''"

definition blacklistCloseMessage :: string where
  "blacklistCloseMessage =
     ''LoopOver is closing this pull request on the maintainer'' @ [CHR 0x27] @
     ''s behalf. This account is blocked from contributing to this repository, so the change was not reviewed on its merits. This is an automated maintenance action.''"

definition contributorCapCloseMessage ::
  "planner_env \<Rightarrow> string \<Rightarrow> jsnum \<Rightarrow> jsnum \<Rightarrow> string \<Rightarrow> CapScope option \<Rightarrow> string" where
  "contributorCapCloseMessage E authorLogin openCount cap itemNoun scope =
     (let scopeDescription =
            (if scope = Some ScopeInstall
             then ''this install'' @ [CHR 0x27] @ ''s configured limit (across every repository it gates, combined)''
             else ''this repository'' @ [CHR 0x27] @ ''s configured limit'')
      in ''LoopOver closed this because @'' @ authorLogin @ '' has '' @ pe_num E openCount @ '' open '' @ itemNoun @
         '', above '' @ scopeDescription @ '' of '' @ pe_num E cap @
         ''. Close or merge an existing one to open a new one. This is an automated maintenance action.'')"

definition reviewNagCloseMessage :: "planner_env \<Rightarrow> string \<Rightarrow> jsnum \<Rightarrow> jsnum \<Rightarrow> string" where
  "reviewNagCloseMessage E authorLogin pingCount maxPings =
     ''LoopOver closed this because @'' @ authorLogin @ '' pinged @loopover '' @ pe_num E pingCount @
     '' times, above this repository'' @ [CHR 0x27] @ ''s configured limit of '' @ pe_num E maxPings @
     ''. Please wait for the cooldown window to pass before requesting review again. This is an automated maintenance action.''"

definition copycatCloseMessage :: "planner_env \<Rightarrow> jsnum \<Rightarrow> string" where
  "copycatCloseMessage E matchedPullNumber =
     ''LoopOver is closing this pull request on the maintainer'' @ [CHR 0x27] @
     ''s behalf. Its added code overlaps prior art already submitted in #'' @ pe_num E matchedPullNumber @
     '' above this repository'' @ [CHR 0x27] @ ''s configured threshold. This is an automated maintenance action '' @ em_dash @
     '' to pursue original work, please open a new pull request.''"

definition screenshotTableCloseMessage :: "string \<Rightarrow> string" where
  "screenshotTableCloseMessage reason = reason @ '' This is an automated maintenance action.''"

definition advisoryHoldReason :: "check_verdict list \<Rightarrow> string" where
  "advisoryHoldReason holds =
     ''advisory check-run held for manual review: '' @
     str_join ''; '' (map (\<lambda>h. [CHR 0x22] @ cv_name h @ [CHR 0x22] @ '' ('' @ cv_appSlug h @ '') concluded '' @ cv_conclusion h) holds)"

definition advisoryHoldComment :: "check_verdict list \<Rightarrow> string" where
  "advisoryHoldComment holds =
     ''Held for manual review: a maintainer-configured advisory check-run reported a non-passing result '' @ em_dash @ '' '' @
     str_join ''; ''
       (map (\<lambda>h. ''`'' @ cv_name h @ ''` (from `'' @ cv_appSlug h @ ''`) concluded `'' @ cv_conclusion h @ ''`'') holds) @
     ''. This does not block CI, but a maintainer should review it. This is an automated maintenance action.''"


section \<open>Short circuits\<close>

definition plan_level :: "AgentActionPlanInput \<Rightarrow> AgentActionClass \<Rightarrow> AutonomyLevel" where
  "plan_level i actionClass = resolveAutonomy (ap_autonomy i) actionClass"

definition plan_acting :: "AgentActionPlanInput \<Rightarrow> AgentActionClass \<Rightarrow> bool" where
  "plan_acting i actionClass \<longleftrightarrow> isActingAutonomyLevel (plan_level i actionClass)"

definition plan_approval :: "AgentActionPlanInput \<Rightarrow> AgentActionClass \<Rightarrow> bool" where
  "plan_approval i actionClass \<longleftrightarrow> autonomyRequiresApproval (plan_level i actionClass)"

definition plan_isContributor :: "AgentActionPlanInput \<Rightarrow> bool" where
  "plan_isContributor i \<longleftrightarrow> \<not> ap_authorIsOwner i \<and> \<not> ap_authorIsAdmin i \<and> \<not> ap_authorIsAutomationBot i"

definition truthy :: "string option \<Rightarrow> string option" where
  "truthy s = (if s = Some [] then None else s)"

definition plan_pin :: "AgentActionPlanInput \<Rightarrow> string option" where
  "plan_pin i = truthy (pp_headSha (ap_pr i))"

definition enforcement_close ::
  "AgentActionPlanInput \<Rightarrow> CloseKind \<Rightarrow> string \<Rightarrow> string \<Rightarrow> PlannedAgentAction list" where
  "enforcement_close i kind reason closeComment =
     (if plan_acting i ClassClose
      then [(action_of ClassClose (plan_approval i ClassClose) reason)
              \<lparr>pa_closeReasons := Some [reason], pa_closeComment := Some closeComment, pa_closeKind := Some kind,
               pa_expectedHeadSha := plan_pin i\<rparr>]
      else [])"

definition enforcement_label ::
  "AgentActionPlanInput \<Rightarrow> CloseKind \<Rightarrow> string \<Rightarrow> string option \<Rightarrow> PlannedAgentAction list" where
  "enforcement_label i kind reason label =
     (case label of
        None \<Rightarrow> []
      | Some l \<Rightarrow>
          if plan_acting i ClassClose
          then [(label_action ClassClose (plan_approval i ClassClose) reason l LabelAdd) \<lparr>pa_closeKind := Some kind\<rparr>]
          else [])"

definition planBlacklistClose :: "planner_env \<Rightarrow> AgentActionPlanInput \<Rightarrow> PlannedAgentAction list option" where
  "planBlacklistClose E i =
     (if ap_blacklistMatched i \<and> plan_isContributor i
      then Some (enforcement_close i KindBlacklist ''blacklisted contributor'' (pe_sanitize E blacklistCloseMessage) @
                 enforcement_label i KindBlacklist ''blacklisted contributor''
                   (resolveNullableLabel (ap_blacklistLabel i) DEFAULT_BLACKLIST_LABEL))
      else None)"

definition planContributorCapClose :: "planner_env \<Rightarrow> AgentActionPlanInput \<Rightarrow> PlannedAgentAction list option" where
  "planContributorCapClose E i =
     (case ap_contributorCapMatch i of
        None \<Rightarrow> None
      | Some cm \<Rightarrow>
          if \<not> cm_matched cm \<or> \<not> plan_isContributor i then None
          else Some (enforcement_close i KindContributorCap ''over the per-contributor open-item cap''
                       (pe_sanitize E (contributorCapCloseMessage E (cm_authorLogin cm) (cm_openCount cm) (cm_cap cm)
                          (cm_itemKind cm) (cm_scope cm))) @
                     enforcement_label i KindContributorCap ''over the per-contributor open-item cap''
                       (resolveNullableLabel (ap_contributorCapLabel i) DEFAULT_CONTRIBUTOR_CAP_LABEL)))"

definition planReviewNagClose :: "planner_env \<Rightarrow> AgentActionPlanInput \<Rightarrow> PlannedAgentAction list option" where
  "planReviewNagClose E i =
     (case ap_reviewNagMatch i of
        None \<Rightarrow> None
      | Some nm \<Rightarrow>
          if nm_matched nm \<and> plan_isContributor i
          then Some (enforcement_close i KindReviewNag ''review-nag cooldown''
                       (pe_sanitize E (reviewNagCloseMessage E (nm_authorLogin nm) (nm_pingCount nm) (nm_maxPings nm))) @
                     enforcement_label i KindReviewNag ''review-nag cooldown''
                       (resolveNullableLabel (ap_reviewNagLabel i) DEFAULT_REVIEW_NAG_LABEL))
          else None)"

definition planCopycatClose :: "planner_env \<Rightarrow> AgentActionPlanInput \<Rightarrow> PlannedAgentAction list option" where
  "planCopycatClose E i =
     (case ap_copycatMatch i of
        None \<Rightarrow> None
      | Some xm \<Rightarrow>
          if xm_matched xm \<and> plan_isContributor i \<and> ap_copycatGateMode i = Some CopycatBlock
          then Some (enforcement_close i KindCopycat ''copycat containment above threshold''
                       (pe_sanitize E (copycatCloseMessage E (xm_matchedPullNumber xm))) @
                     enforcement_label i KindCopycat ''copycat containment above threshold''
                       (resolveNullableLabel (ap_copycatLabel i) DEFAULT_COPYCAT_LABEL))
          else None)"

definition planScreenshotTableClose :: "planner_env \<Rightarrow> AgentActionPlanInput \<Rightarrow> PlannedAgentAction list option" where
  "planScreenshotTableClose E i =
     (if ap_screenshotTableEvidenceUnresolved i \<and> plan_isContributor i then Some []
      else case ap_screenshotTableMatch i of
             None \<Rightarrow> None
           | Some sm \<Rightarrow>
               if sm_matched sm \<and> plan_isContributor i
               then Some (enforcement_close i KindScreenshotTable ''missing before/after screenshot table''
                            (pe_sanitize E (screenshotTableCloseMessage
                               (or_default (sm_reason sm) ''missing a before/after screenshot table''))))
               else None)"

definition maybePlanAssign :: "AgentActionPlanInput \<Rightarrow> PlannedAgentAction list \<Rightarrow> PlannedAgentAction list" where
  "maybePlanAssign i actions =
     (let lv = resolveAutonomy (ap_autonomy i) ClassAssign
      in if \<not> isActingAutonomyLevel lv then actions
         else case truthy (pp_authorLogin (ap_pr i)) of
                None \<Rightarrow> actions
              | Some login \<Rightarrow>
                  actions @ [(action_of ClassAssign (autonomyRequiresApproval lv) ''auto-assign PR opener'')
                               \<lparr>pa_assignee := Some login\<rparr>])"

definition maybePlanCopycatLabel :: "AgentActionPlanInput \<Rightarrow> PlannedAgentAction list \<Rightarrow> PlannedAgentAction list" where
  "maybePlanCopycatLabel i actions =
     (if ap_copycatGateMode i \<noteq> Some CopycatLabel \<or>
         \<not> (case ap_copycatMatch i of None \<Rightarrow> False | Some xm \<Rightarrow> xm_matched xm) then actions
      else if ap_authorIsOwner i \<or> ap_authorIsAdmin i \<or> ap_authorIsAutomationBot i then actions
      else case resolveNullableLabel (ap_copycatLabel i) DEFAULT_COPYCAT_LABEL of
             None \<Rightarrow> actions
           | Some label \<Rightarrow>
               let lv = resolveAutonomy (ap_autonomy i) ClassLabel
               in if \<not> isActingAutonomyLevel lv then actions
                  else actions @ [(action_of ClassLabel (autonomyRequiresApproval lv) ''copycat containment above threshold'')
                                    \<lparr>pa_closeKind := Some KindCopycat, pa_label := Some label,
                                     pa_labelOp := Some LabelAdd\<rparr>])"


section \<open>What the disposition is decided from\<close>

definition plan_ciPassed :: "AgentActionPlanInput \<Rightarrow> bool" where
  "plan_ciPassed i \<longleftrightarrow> ap_ciState i = CiStatePassed"

definition plan_ciFailed :: "AgentActionPlanInput \<Rightarrow> bool" where
  "plan_ciFailed i \<longleftrightarrow> ap_ciState i = CiStateFailed"

definition plan_ciPending :: "AgentActionPlanInput \<Rightarrow> bool" where
  "plan_ciPending i \<longleftrightarrow> ap_ciState i = CiStatePending \<or> ap_ciHasPending i"

definition plan_isConflict :: "AgentActionPlanInput \<Rightarrow> bool" where
  "plan_isConflict i \<longleftrightarrow> assessMergeableState (pp_mergeableState (ap_pr i)) = MergeConflict"

definition plan_isReviewThreadJustified :: "AgentActionPlanInput \<Rightarrow> bool" where
  "plan_isReviewThreadJustified i \<longleftrightarrow> host_REVIEW_THREAD_BLOCKER_CODE \<in> set (or_default (ap_gateBlockerCodes i) [])"

definition plan_closeEligible :: "AgentActionPlanInput \<Rightarrow> bool" where
  "plan_closeEligible i \<longleftrightarrow>
     plan_isContributor i \<or> (ap_authorIsOwner i \<or> ap_authorIsAdmin i) \<and> ap_closeOwnerAuthors i"

definition plan_pendingCiMayStillClose :: "AgentActionPlanInput \<Rightarrow> bool" where
  "plan_pendingCiMayStillClose i \<longleftrightarrow>
     plan_closeEligible i \<and> plan_acting i ClassClose \<and>
     (ap_conclusion i = ConclFailure \<or> plan_isConflict i \<or> plan_ciFailed i)"

definition plan_guardrailHit :: "AgentActionPlanInput \<Rightarrow> bool" where
  "plan_guardrailHit i \<longleftrightarrow> isGuardrailHit (ap_changedPaths i) (ap_hardGuardrailGlobs i)"

definition plan_guardrailReason :: "planner_env \<Rightarrow> AgentActionPlanInput \<Rightarrow> string" where
  "plan_guardrailReason E i =
     (if plan_guardrailHit i then guardrailHoldReason E (ap_changedPaths i) (ap_hardGuardrailGlobs i)
      else ''guarded path -> manual review'')"

definition plan_reviewGood :: "AgentActionPlanInput \<Rightarrow> bool" where
  "plan_reviewGood i \<longleftrightarrow> ap_conclusion i = ConclSuccess \<and> plan_ciPassed i"

definition plan_escalationConfigured :: "AgentActionPlanInput \<Rightarrow> bool" where
  "plan_escalationConfigured i \<longleftrightarrow>
     ap_guardrailEscalationEffort i \<noteq> None \<or> ap_guardrailEscalationSelfConsistencyRuns i \<noteq> None \<or>
     ap_guardrailEscalationModel i \<noteq> None \<or> ap_guardrailEscalationProvider i \<noteq> None"

definition plan_escalationCleared :: "AgentActionPlanInput \<Rightarrow> bool" where
  "plan_escalationCleared i \<longleftrightarrow>
     plan_guardrailHit i \<and> plan_reviewGood i \<and> plan_escalationConfigured i \<and>
     ap_guardrailEscalationOnCleanReview i = Some CleanReviewProceed"

definition buildPrDispositionInput ::
  "AgentActionPlanInput \<Rightarrow> bool \<Rightarrow> bool \<Rightarrow> bool \<Rightarrow> bool \<Rightarrow> PrDispositionInput" where
  "buildPrDispositionInput i reviewGood guardrailHit guardrailEscalationCleared closeActing =
     \<lparr>pd_holds =
        (\<lambda>key. case key of
           GuardrailHit \<Rightarrow> guardrailHit
         | MigrationCollisionHold \<Rightarrow> ap_migrationCollisionHold i \<noteq> None
         | UnlinkedIssueMatchHold \<Rightarrow> ap_unlinkedIssueMatchHold i \<noteq> None
         | AdvisoryCheckHold \<Rightarrow> (case ap_advisoryCheckHold i of None \<Rightarrow> False | Some hs \<Rightarrow> length hs > 0)
         | PriorityEligibilityHold \<Rightarrow> ap_priorityEligibilityHold i \<noteq> None
         | ScreenshotEvidenceHold \<Rightarrow> ap_screenshotEvidenceHold i \<noteq> None
         | UnlinkedIssueMatchCloseWithoutCloseActing \<Rightarrow> ap_unlinkedIssueMatchClose i \<noteq> None \<and> \<not> closeActing),
      pd_mergeableState = pp_mergeableState (ap_pr i),
      pd_reviewGood = reviewGood,
      pd_unstableExplainedByIgnoredChecks =
        ((case ap_ignoredCheckNonPassing i of None \<Rightarrow> False | Some cs \<Rightarrow> length cs > 0) \<and>
         length (or_default (ap_nonRequiredCheckFailures i) []) = 0 \<and> ap_ciState i \<noteq> CiStateFailed),
      pd_guardrailEscalationCleared = guardrailEscalationCleared\<rparr>"

definition plan_disposition :: "AgentActionPlanInput \<Rightarrow> PrDisposition" where
  "plan_disposition i =
     derivePrDisposition
       (buildPrDispositionInput i (plan_reviewGood i) (plan_guardrailHit i) (plan_escalationCleared i)
          (plan_acting i ClassClose))"

definition resolveHoldCause :: "AgentActionPlanInput \<Rightarrow> MergeHoldInput list" where
  "resolveHoldCause i =
     (let guardrailHit = isGuardrailHit (ap_changedPaths i) (ap_hardGuardrailGlobs i);
          reviewGood = (ap_conclusion i = ConclSuccess \<and> ap_ciState i = CiStatePassed);
          escalationConfigured =
            (ap_guardrailEscalationEffort i \<noteq> None \<or> ap_guardrailEscalationSelfConsistencyRuns i \<noteq> None \<or>
             ap_guardrailEscalationModel i \<noteq> None \<or> ap_guardrailEscalationProvider i \<noteq> None);
          guardrailEscalationCleared =
            (guardrailHit \<and> reviewGood \<and> escalationConfigured \<and>
             ap_guardrailEscalationOnCleanReview i = Some CleanReviewProceed)
      in dp_heldBy (derivePrDisposition
           (buildPrDispositionInput i reviewGood guardrailHit guardrailEscalationCleared
              (isActingAutonomyLevel (resolveAutonomy (ap_autonomy i) ClassClose)))))"

abbreviation plan_held :: "AgentActionPlanInput \<Rightarrow> bool" where
  "plan_held i \<equiv> dp_heldForManualReview (plan_disposition i)"

abbreviation plan_labels :: "AgentActionPlanInput \<Rightarrow> ResolvedAgentDispositionLabels" where
  "plan_labels i \<equiv> resolveAgentDispositionLabels i"

definition plan_approvalsSatisfied :: "AgentActionPlanInput \<Rightarrow> bool" where
  "plan_approvalsSatisfied i \<longleftrightarrow>
     am_requireApprovals (or_default (ap_autoMaintain i) DEFAULT_AUTO_MAINTAIN_POLICY) = Fin 0 \<or>
     pp_reviewDecision (ap_pr i) = Some ''APPROVED''"

definition plan_mergeTerminallyBlocked :: "AgentActionPlanInput \<Rightarrow> bool" where
  "plan_mergeTerminallyBlocked i \<longleftrightarrow>
     pp_mergeBlockedSha (ap_pr i) \<noteq> None \<and> pp_headSha (ap_pr i) \<noteq> None \<and>
     pp_mergeBlockedSha (ap_pr i) = pp_headSha (ap_pr i)"

definition plan_alreadyApprovedThisHead :: "AgentActionPlanInput \<Rightarrow> bool" where
  "plan_alreadyApprovedThisHead i \<longleftrightarrow>
     pp_approvedHeadSha (ap_pr i) \<noteq> None \<and> pp_headSha (ap_pr i) \<noteq> None \<and>
     pp_approvedHeadSha (ap_pr i) = pp_headSha (ap_pr i)"

definition plan_canMerge :: "AgentActionPlanInput \<Rightarrow> bool" where
  "plan_canMerge i \<longleftrightarrow>
     dp_wouldMerge (plan_disposition i) \<and> plan_acting i ClassMerge \<and> plan_approvalsSatisfied i \<and>
     \<not> plan_mergeTerminallyBlocked i"

definition plan_willClose :: "AgentActionPlanInput \<Rightarrow> bool" where
  "plan_willClose i \<longleftrightarrow>
     plan_closeEligible i \<and> plan_acting i ClassClose \<and>
     (plan_ciFailed i \<or> ap_conclusion i = ConclFailure \<and> ap_aiReviewLowConfidenceHold i = None \<or> plan_isConflict i)"

definition plan_unlinkedIssueMatchViolated :: "AgentActionPlanInput \<Rightarrow> bool" where
  "plan_unlinkedIssueMatchViolated i \<longleftrightarrow>
     ap_unlinkedIssueMatchClose i \<noteq> None \<and> plan_closeEligible i \<and> plan_acting i ClassClose"

definition plan_ruleViolated :: "AgentActionPlanInput \<Rightarrow> bool" where
  "plan_ruleViolated i \<longleftrightarrow> (case ap_linkedIssueHardRule i of None \<Rightarrow> False | Some r \<Rightarrow> lr_violated r)"

definition plan_ruleReason :: "AgentActionPlanInput \<Rightarrow> string \<Rightarrow> string" where
  "plan_ruleReason i fallback =
     (case ap_linkedIssueHardRule i of None \<Rightarrow> fallback | Some r \<Rightarrow> or_default (lr_reason r) fallback)"

definition plan_linkedIssueViolated :: "AgentActionPlanInput \<Rightarrow> bool" where
  "plan_linkedIssueViolated i \<longleftrightarrow> plan_ruleViolated i \<and> plan_closeEligible i \<and> plan_acting i ClassClose"

definition plan_verifyBeforeClose :: "AgentActionPlanInput \<Rightarrow> bool" where
  "plan_verifyBeforeClose i \<longleftrightarrow> (case ap_linkedIssueVerify i of None \<Rightarrow> False | Some v \<Rightarrow> lv_verifyBeforeClose v)"

definition plan_closeDelaySeconds :: "AgentActionPlanInput \<Rightarrow> jsnum" where
  "plan_closeDelaySeconds i = (case ap_linkedIssueVerify i of None \<Rightarrow> Fin 0 | Some v \<Rightarrow> lv_closeDelaySeconds v)"

definition plan_pendingClosureLabelPresent :: "AgentActionPlanInput \<Rightarrow> bool" where
  "plan_pendingClosureLabelPresent i \<longleftrightarrow>
     (case rl_pendingClosure (plan_labels i) of None \<Rightarrow> False | Some l \<Rightarrow> hasLabel (pp_labels (ap_pr i)) l)"

definition plan_canApplyPendingClosureFlagNow :: "AgentActionPlanInput \<Rightarrow> bool" where
  "plan_canApplyPendingClosureFlagNow i \<longleftrightarrow>
     rl_pendingClosure (plan_labels i) \<noteq> None \<and> plan_acting i ClassReviewStateLabel \<and>
     \<not> plan_approval i ClassReviewStateLabel"

definition plan_flagForLinkedIssue :: "AgentActionPlanInput \<Rightarrow> bool" where
  "plan_flagForLinkedIssue i \<longleftrightarrow>
     plan_linkedIssueViolated i \<and> plan_verifyBeforeClose i \<and> \<not> plan_pendingClosureLabelPresent i \<and>
     plan_canApplyPendingClosureFlagNow i"

definition plan_willCloseForLinkedIssue :: "AgentActionPlanInput \<Rightarrow> bool" where
  "plan_willCloseForLinkedIssue i \<longleftrightarrow>
     plan_linkedIssueViolated i \<and>
     (\<not> plan_verifyBeforeClose i \<or> plan_pendingClosureLabelPresent i \<or> \<not> plan_canApplyPendingClosureFlagNow i)"

definition plan_clearLinkedIssueFlag :: "AgentActionPlanInput \<Rightarrow> bool" where
  "plan_clearLinkedIssueFlag i \<longleftrightarrow> \<not> plan_ruleViolated i \<and> plan_pendingClosureLabelPresent i"

definition plan_linkedIssueCloseInFlight :: "AgentActionPlanInput \<Rightarrow> bool" where
  "plan_linkedIssueCloseInFlight i \<longleftrightarrow> plan_flagForLinkedIssue i \<or> plan_willCloseForLinkedIssue i"

definition plan_ciReason :: "AgentActionPlanInput \<Rightarrow> string" where
  "plan_ciReason i =
     (if plan_ciFailed i then
        ''CI is failing'' @
        (let names = or_default (ap_failingCheckNames i) []
         in if length names > 0 then '' ('' @ str_join '', '' names @ '')'' else [])
      else if ap_ciState i = CiStateUnverified then ''CI could not be verified'' else [])"

definition plan_verdictReason :: "AgentActionPlanInput \<Rightarrow> string \<Rightarrow> string" where
  "plan_verdictReason i detail = ''verdict='' @ conclusion_name (ap_conclusion i) @ ''; '' @ detail"

definition plan_verdictCiReason :: "AgentActionPlanInput \<Rightarrow> string" where
  "plan_verdictCiReason i =
     ''verdict='' @ conclusion_name (ap_conclusion i) @
     (if plan_ciReason i \<noteq> [] then ''; '' @ plan_ciReason i else [])"

definition plan_manualHoldReason :: "planner_env \<Rightarrow> AgentActionPlanInput \<Rightarrow> string option" where
  "plan_manualHoldReason E i =
     (if plan_guardrailHit i \<and> \<not> plan_escalationCleared i then Some (plan_verdictReason i (plan_guardrailReason E i))
      else if ap_ciState i = CiStateUnverified then Some ''CI could not be verified''
      else if ap_conclusion i = ConclActionRequired then Some ''review requires maintainer action''
      else if \<not> plan_reviewGood i \<and> \<not> plan_willClose i \<and> (\<not> plan_closeEligible i \<or> plan_acting i ClassClose)
      then Some (plan_verdictCiReason i)
      else None)"


section \<open>The sections of the plan\<close>

definition warning_sign :: string where
  "warning_sign = [CHR 0xE2, CHR 0x9A, CHR 0xA0, CHR 0xEF, CHR 0xB8, CHR 0x8F]"

definition check_mark :: string where
  "check_mark = [CHR 0xE2, CHR 0x9C, CHR 0x93]"

definition wants_manual_label :: "AgentActionPlanInput \<Rightarrow> PlannedAgentAction list \<Rightarrow> string option" where
  "wants_manual_label i actions =
     (case rl_manualReview (plan_labels i) of
        None \<Rightarrow> None
      | Some l \<Rightarrow>
          if plan_acting i ClassMerge \<and> \<not> hasLabelOrPlanned (pp_labels (ap_pr i)) actions l then Some l else None)"

definition push_merge_hold ::
  "planner_env \<Rightarrow> AgentActionPlanInput \<Rightarrow> hold_verdict option \<Rightarrow> bool \<Rightarrow> PlannedAgentAction list \<Rightarrow> PlannedAgentAction list" where
  "push_merge_hold E i hold extra actions =
     (case hold of
        None \<Rightarrow> actions
      | Some h \<Rightarrow>
          (case wants_manual_label i actions of
             None \<Rightarrow> actions
           | Some l \<Rightarrow>
               if plan_reviewGood i \<and> extra
               then actions @
                    [(label_action ClassMerge (plan_approval i ClassMerge) (plan_verdictReason i (hv_reason h)) l LabelAdd)
                       \<lparr>pa_comment := Some (pe_sanitize E (hv_comment h))\<rparr>]
               else actions))"

definition section_guardrail_label ::
  "planner_env \<Rightarrow> AgentActionPlanInput \<Rightarrow> PlannedAgentAction list \<Rightarrow> PlannedAgentAction list" where
  "section_guardrail_label E i actions =
     (case wants_manual_label i actions of
        None \<Rightarrow> actions
      | Some l \<Rightarrow>
          if plan_reviewGood i \<and> plan_guardrailHit i \<and> \<not> plan_escalationCleared i
          then actions @
               [label_action ClassMerge (plan_approval i ClassMerge) (plan_verdictReason i (plan_guardrailReason E i)) l
                  LabelAdd]
          else actions)"

definition plan_noManualReviewHoldWanted :: "planner_env \<Rightarrow> AgentActionPlanInput \<Rightarrow> bool" where
  "plan_noManualReviewHoldWanted E i \<longleftrightarrow>
     plan_manualHoldReason E i = None \<and> ap_migrationCollisionHold i = None \<and> ap_unlinkedIssueMatchHold i = None \<and>
     ap_priorityEligibilityHold i = None \<and> ap_screenshotEvidenceHold i = None \<and> ap_unlinkedIssueMatchClose i = None \<and>
     \<not> plan_held i \<and> \<not> plan_mergeTerminallyBlocked i"

definition section_release_label ::
  "planner_env \<Rightarrow> AgentActionPlanInput \<Rightarrow> PlannedAgentAction list \<Rightarrow> PlannedAgentAction list" where
  "section_release_label E i actions =
     (case rl_manualReview (plan_labels i) of
        None \<Rightarrow> actions
      | Some l \<Rightarrow>
          if plan_noManualReviewHoldWanted E i \<and> ap_manualReviewLabelAppliedSha i \<noteq> None \<and> hasLabel (pp_labels (ap_pr i)) l
          then actions @
               [label_action ClassMerge (plan_approval i ClassMerge)
                  (''manual-review hold resolved '' @ em_dash @ '' clearing the '' @ [CHR 0x22] @ l @ [CHR 0x22] @
                   '' label the bot applied'') l LabelRemove]
          else actions)"

definition section_merge_holds ::
  "planner_env \<Rightarrow> AgentActionPlanInput \<Rightarrow> PlannedAgentAction list \<Rightarrow> PlannedAgentAction list" where
  "section_merge_holds E i actions =
     (let quiet = \<not> plan_acting i ClassReviewStateLabel;
          a1 = push_merge_hold E i (ap_migrationCollisionHold i) quiet actions;
          a2 = push_merge_hold E i (ap_unlinkedIssueMatchHold i) quiet a1;
          a3 = push_merge_hold E i (ap_screenshotEvidenceHold i) True a2;
          a4 = push_merge_hold E i (ap_priorityEligibilityHold i) True a3
      in push_merge_hold E i (ap_unlinkedIssueMatchClose i) (\<not> plan_acting i ClassClose \<and> quiet) a4)"

definition plan_stateLabel :: "AgentActionPlanInput \<Rightarrow> string option" where
  "plan_stateLabel i =
     (if plan_linkedIssueCloseInFlight i \<or> plan_unlinkedIssueMatchViolated i \<or> \<not> plan_reviewGood i
      then rl_changesRequested (plan_labels i)
      else if ap_migrationCollisionHold i \<noteq> None then rl_migrationCollision (plan_labels i)
      else if plan_held i \<or> plan_mergeTerminallyBlocked i then rl_manualReview (plan_labels i)
      else if dp_heldForUnstableMergeState (plan_disposition i) then None
      else rl_readyToMerge (plan_labels i))"

definition hold_reason :: "hold_verdict option \<Rightarrow> string" where
  "hold_reason h = (case h of None \<Rightarrow> [] | Some v \<Rightarrow> hv_reason v)"

definition plan_advisoryHolds :: "AgentActionPlanInput \<Rightarrow> check_verdict list" where
  "plan_advisoryHolds i = or_default (ap_advisoryCheckHold i) []"

definition plan_stateReason :: "planner_env \<Rightarrow> AgentActionPlanInput \<Rightarrow> string" where
  "plan_stateReason E i =
     (if plan_linkedIssueCloseInFlight i then
        ''linked-issue hard rule: '' @ plan_ruleReason i ''ineligible linked issue''
      else if plan_unlinkedIssueMatchViolated i then plan_verdictReason i (hold_reason (ap_unlinkedIssueMatchClose i))
      else if \<not> plan_reviewGood i then plan_verdictCiReason i
      else if ap_migrationCollisionHold i \<noteq> None then plan_verdictReason i (hold_reason (ap_migrationCollisionHold i))
      else if ap_unlinkedIssueMatchHold i \<noteq> None then plan_verdictReason i (hold_reason (ap_unlinkedIssueMatchHold i))
      else if ap_unlinkedIssueMatchClose i \<noteq> None then plan_verdictReason i (hold_reason (ap_unlinkedIssueMatchClose i))
      else if length (plan_advisoryHolds i) > 0 then plan_verdictReason i (advisoryHoldReason (plan_advisoryHolds i))
      else if plan_held i then plan_verdictReason i (plan_guardrailReason E i)
      else if plan_mergeTerminallyBlocked i then
        plan_verdictReason i
          (''CI green, but a prior merge attempt failed and is held: '' @
           or_default (pp_mergeBlockedReason (ap_pr i)) ''reason unrecorded'')
      else plan_verdictReason i ''CI green'')"

definition plan_stateComment :: "planner_env \<Rightarrow> AgentActionPlanInput \<Rightarrow> string option" where
  "plan_stateComment E i =
     (if \<not> plan_linkedIssueCloseInFlight i \<and> \<not> plan_unlinkedIssueMatchViolated i \<and> plan_reviewGood i then
        (case ap_migrationCollisionHold i of
           Some h \<Rightarrow> Some (pe_sanitize E (hv_comment h))
         | None \<Rightarrow>
             (case ap_unlinkedIssueMatchHold i of
                Some h \<Rightarrow> Some (pe_sanitize E (hv_comment h))
              | None \<Rightarrow>
                  (case ap_unlinkedIssueMatchClose i of
                     Some h \<Rightarrow> Some (pe_sanitize E (hv_comment h))
                   | None \<Rightarrow>
                       if length (plan_advisoryHolds i) > 0
                       then Some (pe_sanitize E (advisoryHoldComment (plan_advisoryHolds i)))
                       else map_option (\<lambda>h. pe_sanitize E (hv_comment h)) (ap_screenshotEvidenceHold i))))
      else None)"

fun stale_labels :: "string option \<Rightarrow> string list \<Rightarrow> string list \<Rightarrow> string option list \<Rightarrow> string list" where
  "stale_labels label live handled [] = []"
| "stale_labels label live handled (sibling # rest) =
     (case sibling of
        None \<Rightarrow> stale_labels label live handled rest
      | Some stale \<Rightarrow>
          if label = Some stale then stale_labels label live handled rest
          else let staleLower = toLowerCase stale
               in if staleLower \<in> set handled \<or> staleLower \<notin> set live then stale_labels label live handled rest
                  else stale # stale_labels label live (staleLower # handled) rest)"

definition state_label_add :: "planner_env \<Rightarrow> AgentActionPlanInput \<Rightarrow> PlannedAgentAction list \<Rightarrow> PlannedAgentAction list" where
  "state_label_add E i actions =
     (case plan_stateLabel i of
        None \<Rightarrow> []
      | Some l \<Rightarrow>
          if hasLabelOrPlanned (pp_labels (ap_pr i)) actions l then []
          else [(action_of ClassLabel (plan_approval i ClassReviewStateLabel) (plan_stateReason E i))
                  \<lparr>pa_autonomyClass := Some ClassReviewStateLabel, pa_label := Some l,
                   pa_comment := plan_stateComment E i\<rparr>])"

definition state_label_stale :: "AgentActionPlanInput \<Rightarrow> PlannedAgentAction list" where
  "state_label_stale i =
     map (\<lambda>l. label_action ClassReviewStateLabel (plan_approval i ClassReviewStateLabel)
                (''disposition resolved '' @ em_dash @ '' clearing the stale '' @ [CHR 0x22] @ l @ [CHR 0x22] @ '' label'')
                l LabelRemove)
       (stale_labels (plan_stateLabel i) (map toLowerCase (pp_labels (ap_pr i))) []
          [rl_readyToMerge (plan_labels i), rl_migrationCollision (plan_labels i), rl_changesRequested (plan_labels i)])"

definition pending_closure_flag :: "planner_env \<Rightarrow> AgentActionPlanInput \<Rightarrow> PlannedAgentAction list" where
  "pending_closure_flag E i =
     (case rl_pendingClosure (plan_labels i) of
        None \<Rightarrow> []
      | Some l \<Rightarrow>
          if plan_flagForLinkedIssue i then
            let ruleReason = plan_ruleReason i ''the linked issue is not eligible for a community PR'';
                window = (if num_lt (Fin 0) (plan_closeDelaySeconds i) then ''~'' @ pe_num E (plan_closeDelaySeconds i) @ ''s''
                          else ''the next verification'')
            in [(label_action ClassReviewStateLabel (plan_approval i ClassReviewStateLabel)
                   (''linked-issue hard rule (flagged for verification): '' @ ruleReason) l LabelAdd)
                  \<lparr>pa_closeKind := Some KindLinkedIssueHardRule,
                   pa_comment :=
                     Some (warning_sign @ '' This PR links an ineligible issue ('' @ ruleReason @
                           '') and will be closed on re-verification in '' @ window @
                           '' unless the linked issue changes.'')\<rparr>]
          else [])"

definition pending_closure_clear :: "AgentActionPlanInput \<Rightarrow> PlannedAgentAction list" where
  "pending_closure_clear i =
     (case rl_pendingClosure (plan_labels i) of
        None \<Rightarrow> []
      | Some l \<Rightarrow>
          if plan_clearLinkedIssueFlag i then
            [(label_action ClassReviewStateLabel (plan_approval i ClassReviewStateLabel)
                (''linked-issue hard rule resolved '' @ em_dash @ '' clearing the pending-closure flag'') l LabelRemove)
               \<lparr>pa_closeKind := Some KindLinkedIssueHardRule,
                pa_comment :=
                  Some (check_mark @ '' The linked-issue hard-rule violation is resolved '' @ em_dash @
                        '' this PR is no longer pending closure.'')\<rparr>]
          else [])"

definition section_state_label ::
  "planner_env \<Rightarrow> AgentActionPlanInput \<Rightarrow> PlannedAgentAction list \<Rightarrow> PlannedAgentAction list" where
  "section_state_label E i actions =
     (if plan_acting i ClassReviewStateLabel
      then actions @ state_label_add E i actions @ state_label_stale i @ pending_closure_flag E i @ pending_closure_clear i
      else actions)"

definition section_review ::
  "AgentActionPlanInput \<Rightarrow> PlannedAgentAction list \<Rightarrow> PlannedAgentAction list" where
  "section_review i actions =
     (if dp_wouldApprove (plan_disposition i) \<and> \<not> plan_linkedIssueCloseInFlight i \<and> plan_acting i ClassApprove \<and>
         pp_reviewDecision (ap_pr i) \<noteq> Some ''APPROVED'' \<and> \<not> plan_alreadyApprovedThisHead i
      then actions @
           [(action_of ClassApprove (plan_approval i ClassApprove) ''gate passed, CI green'')
              \<lparr>pa_reviewBody := Some (''LoopOver approves '' @ em_dash @ '' the gate is satisfied and CI is green.''),
               pa_expectedHeadSha := plan_pin i\<rparr>]
      else if pp_approvedHeadSha (ap_pr i) \<noteq> None \<and> pp_headSha (ap_pr i) \<noteq> None \<and>
              pp_approvedHeadSha (ap_pr i) \<noteq> pp_headSha (ap_pr i) \<and> plan_acting i ClassApprove \<and>
              \<not> plan_canMerge i \<and> \<not> plan_willClose i \<and> \<not> plan_willCloseForLinkedIssue i
      then actions @
           [(action_of ClassApprove (plan_approval i ClassApprove)
               (''stale approval retracted '' @ em_dash @ '' a newer commit no longer qualifies for approval''))
              \<lparr>pa_dismissStaleApproval := Some True, pa_expectedHeadSha := pp_headSha (ap_pr i)\<rparr>]
      else actions)"

definition plan_closeReasons :: "planner_env \<Rightarrow> AgentActionPlanInput \<Rightarrow> string list" where
  "plan_closeReasons E i =
     (let slopGateMinScore = or_default (ap_slopGateMinScore i) DEFAULT_SLOP_GATE_MIN_SCORE;
          reasons =
            (if plan_ciFailed i then [plan_ciReason i] else []) @
            (if plan_isConflict i then [''conflicts with the base branch '' @ em_dash @ '' resolve and open a fresh PR''] else []) @
            ap_blockerTitles i @
            (case pp_slopRisk (ap_pr i) of
               None \<Rightarrow> []
             | Some risk \<Rightarrow>
                 if num_ge risk slopGateMinScore
                 then [''slop score '' @ pe_num E risk @ '' '' @ ge_sign @ '' '' @ pe_num E slopGateMinScore] else []) @
            (if num_lt (Fin 0) (or_default (pp_linkedDuplicateCount (ap_pr i)) (Fin 0))
             then [case pp_linkedDuplicateWinnerNumber (ap_pr i) of
                     None \<Rightarrow> ''duplicate of another open PR''
                   | Some n \<Rightarrow> ''duplicate of open PR #'' @ pe_num E n]
             else [])
      in if length reasons = 0 then [''the review gate is not satisfied''] else reasons)"

definition section_disposition ::
  "planner_env \<Rightarrow> AgentActionPlanInput \<Rightarrow> PlannedAgentAction list \<Rightarrow> PlannedAgentAction list" where
  "section_disposition E i actions =
     (if plan_flagForLinkedIssue i then actions
      else if plan_willCloseForLinkedIssue i then
        let reason = plan_ruleReason i ''the linked issue is not eligible for a community PR''
        in actions @
           [(action_of ClassClose (plan_approval i ClassClose) reason)
              \<lparr>pa_closeReasons := Some [reason], pa_closeComment := Some (closeMessage [reason]),
               pa_closeKind := Some KindLinkedIssueHardRule, pa_expectedHeadSha := plan_pin i\<rparr>]
      else if plan_unlinkedIssueMatchViolated i then
        let reason = hold_reason (ap_unlinkedIssueMatchClose i)
        in actions @
           [(action_of ClassClose (plan_approval i ClassClose) reason)
              \<lparr>pa_closeReasons := Some [reason], pa_closeComment := Some (closeMessage [reason]),
               pa_closeKind := Some KindHeuristic, pa_closeRequiresCiState := Some CiNotRequired,
               pa_expectedHeadSha := plan_pin i\<rparr>]
      else if plan_canMerge i then
        let autoMaintain = or_default (ap_autoMaintain i) DEFAULT_AUTO_MAINTAIN_POLICY
        in actions @
           [(action_of ClassMerge (plan_approval i ClassMerge)
               (''gate passed, CI green, mergeable, '' @ pe_num E (am_requireApprovals autoMaintain) @
                '' approval(s) satisfied''))
              \<lparr>pa_mergeMethod := Some (am_mergeMethod autoMaintain), pa_expectedHeadSha := plan_pin i\<rparr>]
      else if plan_willClose i then
        let closeReasons = plan_closeReasons E i
        in actions @
           [(action_of ClassClose (plan_approval i ClassClose) (str_join ''; '' closeReasons))
              \<lparr>pa_closeReasons := Some closeReasons, pa_closeComment := Some (closeMessage closeReasons),
               pa_closeKind := Some KindHeuristic,
               pa_closeConcreteEvidence := Some (hasConcreteCloseEvidence i (plan_ciFailed i) (plan_isConflict i)),
               pa_closeConcreteEvidenceCodes := Some (concreteCloseEvidenceCodes i),
               pa_expectedHeadSha := plan_pin i,
               pa_closeRequiresCiState := Some (if plan_ciFailed i then CiMustBeFailed else CiNotRequired),
               pa_closeRequiresMergeableState := Some (plan_isConflict i),
               pa_closeRequiresThreadResolved := Some (plan_isReviewThreadJustified i),
               pa_closeRequiresDuplicateStillOpen :=
                 Some (num_lt (Fin 0) (or_default (pp_linkedDuplicateCount (ap_pr i)) (Fin 0))),
               pa_duplicateWinnerPrNumber := pp_linkedDuplicateWinnerNumber (ap_pr i)\<rparr>]
      else actions)"

definition plan_manualHoldAutonomyClass :: "AgentActionPlanInput \<Rightarrow> AgentActionClass" where
  "plan_manualHoldAutonomyClass i = (if plan_reviewGood i then ClassMerge else ClassClose)"

definition section_manual_hold ::
  "planner_env \<Rightarrow> AgentActionPlanInput \<Rightarrow> PlannedAgentAction list \<Rightarrow> PlannedAgentAction list" where
  "section_manual_hold E i actions =
     (case (plan_manualHoldReason E i, rl_manualReview (plan_labels i)) of
        (Some reason, Some l) \<Rightarrow>
          if \<not> list_ex (\<lambda>a. pa_actionClass a = ClassMerge \<or> pa_actionClass a = ClassClose) actions \<and>
             \<not> hasLabelOrPlanned (pp_labels (ap_pr i)) actions l
          then actions @
               [(label_action (plan_manualHoldAutonomyClass i) (plan_approval i (plan_manualHoldAutonomyClass i)) reason l
                   LabelAdd)
                  \<lparr>pa_comment :=
                     (if plan_reviewGood i then None
                      else map_option (\<lambda>h. pe_sanitize E (hv_comment h)) (ap_aiReviewLowConfidenceHold i))\<rparr>]
          else actions
      | _ \<Rightarrow> actions)"

definition section_contention_release ::
  "planner_env \<Rightarrow> AgentActionPlanInput \<Rightarrow> PlannedAgentAction list \<Rightarrow> PlannedAgentAction list" where
  "section_contention_release E i actions =
     (case rl_manualReview (plan_labels i) of
        None \<Rightarrow> actions
      | Some l \<Rightarrow>
          if ap_manualReviewLockContentionResolved i \<and> plan_manualHoldReason E i = None \<and>
             hasLabel (pp_labels (ap_pr i)) l \<and>
             \<not> list_ex (\<lambda>a. pa_actionClass a = ClassLabel \<and>
                            map_option toLowerCase (pa_label a) = Some (toLowerCase l)) actions
          then actions @
               [label_action (plan_manualHoldAutonomyClass i) (plan_approval i (plan_manualHoldAutonomyClass i))
                  (''AI-review lock contention has cleared and nothing else currently holds this PR '' @ em_dash @
                   '' removing the transient manual-review hold'') l LabelRemove]
          else actions)"

definition planSettled ::
  "planner_env \<Rightarrow> AgentActionPlanInput \<Rightarrow> PlannedAgentAction list \<Rightarrow> PlannedAgentAction list" where
  "planSettled E i actions =
     section_contention_release E i (section_manual_hold E i (section_disposition E i (section_review i
       (section_state_label E i (section_merge_holds E i (section_release_label E i
         (section_guardrail_label E i actions)))))))"

definition planShortCircuit :: "planner_env \<Rightarrow> AgentActionPlanInput \<Rightarrow> PlannedAgentAction list option" where
  "planShortCircuit E i =
     (case planBlacklistClose E i of Some acts \<Rightarrow> Some acts
      | None \<Rightarrow> (case planContributorCapClose E i of Some acts \<Rightarrow> Some acts
      | None \<Rightarrow> (case planReviewNagClose E i of Some acts \<Rightarrow> Some acts
      | None \<Rightarrow> (case planCopycatClose E i of Some acts \<Rightarrow> Some acts
      | None \<Rightarrow> planScreenshotTableClose E i))))"

definition planAgentMaintenanceActions :: "planner_env \<Rightarrow> AgentActionPlanInput \<Rightarrow> PlannedAgentAction list" where
  "planAgentMaintenanceActions E i =
     (case planShortCircuit E i of
        Some acts \<Rightarrow> acts
      | None \<Rightarrow>
          if ap_conclusion i = ConclSkipped then []
          else
            let actions = maybePlanCopycatLabel i (maybePlanAssign i [])
            in if plan_ciPending i \<and> \<not> plan_pendingCiMayStillClose i then actions
               else planSettled E i actions)"

end
