(* ===== verification/Agent_Plan.thy ===== *)
theory Agent_Plan
  imports Agent_Actions
begin

text \<open>
  What the plan of \<^const>\<open>planAgentMaintenanceActions\<close> guarantees: it merges or closes at most once and for a stated
  cause, every action is taken under the autonomy class that governs it, labels are never added and removed in the same
  plan, a settled pull request is never left undecided, and the circuit breakers only remove merges and closes.
\<close>

section \<open>Which actions a section contributes\<close>

definition disposing :: "PlannedAgentAction \<Rightarrow> bool" where
  "disposing a \<longleftrightarrow> pa_actionClass a = ClassMerge \<or> pa_actionClass a = ClassClose"

named_theorems plan_section

lemmas [plan_section] = section_guardrail_label_def section_release_label_def section_review_def
  section_manual_hold_def section_contention_release_def

lemma action_simps [simp]:
  "pa_actionClass (action_of c r s) = c" "pa_autonomyClass (action_of c r s) = None"
  "pa_requiresApproval (action_of c r s) = r" "pa_label (action_of c r s) = None" "pa_labelOp (action_of c r s) = None"
  "pa_closeKind (action_of c r s) = None" "pa_dismissStaleApproval (action_of c r s) = None"
  "pa_actionClass (label_action d r s l p) = ClassLabel" "pa_autonomyClass (label_action d r s l p) = Some d"
  "pa_requiresApproval (label_action d r s l p) = r" "pa_label (label_action d r s l p) = Some l"
  "pa_labelOp (label_action d r s l p) = Some p" "pa_closeKind (label_action d r s l p) = None"
  by (simp_all add: action_of_def label_action_def)

lemma disposing_class [simp]:
  "disposing a = (pa_actionClass a \<in> {ClassMerge, ClassClose})"
  by (auto simp: disposing_def)

lemma enforcement_classes:
  "filter disposing (enforcement_close i k r c) = enforcement_close i k r c"
  "filter disposing (enforcement_label i k r l) = []"
  by (simp_all add: enforcement_close_def enforcement_label_def split: option.split)

lemma opening_not_disposing: "filter disposing (maybePlanCopycatLabel i (maybePlanAssign i [])) = []"
  by (simp add: maybePlanCopycatLabel_def maybePlanAssign_def Let_def split: option.split)

lemma push_merge_hold_disposing: "filter disposing (push_merge_hold E i h x acts) = filter disposing acts"
  by (simp add: push_merge_hold_def split: option.split)

lemma section_disposing:
  "filter disposing (section_guardrail_label E i acts) = filter disposing acts"
  "filter disposing (section_release_label E i acts) = filter disposing acts"
  "filter disposing (section_merge_holds E i acts) = filter disposing acts"
  "filter disposing (section_review i acts) = filter disposing acts"
  "filter disposing (section_manual_hold E i acts) = filter disposing acts"
  "filter disposing (section_contention_release E i acts) = filter disposing acts"
  by (simp_all add: plan_section section_merge_holds_def push_merge_hold_disposing Let_def split: option.split)

lemma state_label_disposing: "filter disposing (section_state_label E i acts) = filter disposing acts"
proof -
  have "filter disposing (state_label_add E i acts) = []" by (simp add: state_label_add_def split: option.split)
  moreover have "filter disposing (state_label_stale i) = []" by (simp add: state_label_stale_def filter_map o_def)
  moreover have "filter disposing (pending_closure_flag E i) = []" "filter disposing (pending_closure_clear i) = []"
    by (simp_all add: pending_closure_flag_def pending_closure_clear_def Let_def del: append.simps split: option.split)
  ultimately show ?thesis by (simp add: section_state_label_def)
qed

lemma section_disposition_append: "section_disposition E i acts = acts @ section_disposition E i []"
  by (simp add: section_disposition_def Let_def)

lemma section_disposition_disposing: "filter disposing (section_disposition E i []) = section_disposition E i []"
  by (simp add: section_disposition_def Let_def)

lemma settled_disposing:
  "filter disposing (planSettled E i acts) = filter disposing acts @ section_disposition E i []"
  unfolding planSettled_def section_disposing section_disposition_append[where acts = "section_review _ _"]
  by (simp only: filter_append section_disposing state_label_disposing section_disposition_disposing)

text \<open>A plan past the short circuits is settled when the gate was evaluated and no running check can still change
  what is decided.\<close>

definition plan_settles :: "planner_env \<Rightarrow> AgentActionPlanInput \<Rightarrow> bool" where
  "plan_settles E i \<longleftrightarrow>
     planShortCircuit E i = None \<and> ap_conclusion i \<noteq> ConclSkipped \<and> (plan_ciPending i \<longrightarrow> plan_pendingCiMayStillClose i)"

lemma plan_cases:
  obtains (short) acts where "planShortCircuit E i = Some acts" "planAgentMaintenanceActions E i = acts" "\<not> plan_settles E i"
  | (skipped) "planShortCircuit E i = None" "ap_conclusion i = ConclSkipped" "planAgentMaintenanceActions E i = []"
      "\<not> plan_settles E i"
  | (pending) "planShortCircuit E i = None" "planAgentMaintenanceActions E i = maybePlanCopycatLabel i (maybePlanAssign i [])"
      "\<not> plan_settles E i"
  | (settled) "plan_settles E i"
      "planAgentMaintenanceActions E i = planSettled E i (maybePlanCopycatLabel i (maybePlanAssign i []))"
proof (cases "planShortCircuit E i")
  case None
  show thesis
  proof (cases "ap_conclusion i = ConclSkipped")
    case True
    then show thesis using None skipped by (simp add: planAgentMaintenanceActions_def plan_settles_def)
  next
    case False
    show thesis
    proof (cases "plan_ciPending i \<and> \<not> plan_pendingCiMayStillClose i")
      case True
      then show thesis using None False pending by (simp add: planAgentMaintenanceActions_def plan_settles_def)
    next
      case False
      then have "(plan_ciPending i \<and> \<not> plan_pendingCiMayStillClose i) = False" by blast
      with None \<open>ap_conclusion i \<noteq> ConclSkipped\<close> have
        "planAgentMaintenanceActions E i = planSettled E i (maybePlanCopycatLabel i (maybePlanAssign i []))"
        by (simp only: planAgentMaintenanceActions_def option.case if_False Let_def)
      with False None \<open>ap_conclusion i \<noteq> ConclSkipped\<close> show thesis using settled by (simp add: plan_settles_def)
    qed
  qed
next
  case (Some acts)
  then show thesis using short by (simp add: planAgentMaintenanceActions_def plan_settles_def)
qed

text \<open>The merges and closes of a plan: those of the short circuit that fired, or the single one the disposition section
  chooses.\<close>

lemma plan_disposing:
  "filter disposing (planAgentMaintenanceActions E i) =
     (case planShortCircuit E i of
        Some acts \<Rightarrow> filter disposing acts
      | None \<Rightarrow> if plan_settles E i then section_disposition E i [] else [])"
proof (cases E i rule: plan_cases)
  case (short acts)
  then show ?thesis by simp
next
  case skipped
  then show ?thesis by simp
next
  case pending
  then show ?thesis by (simp add: opening_not_disposing del: disposing_class)
next
  case settled
  then have "planShortCircuit E i = None" by (simp add: plan_settles_def)
  then show ?thesis using settled by (simp add: settled_disposing opening_not_disposing del: disposing_class)
qed


section \<open>Enforcement short circuits\<close>

text \<open>The deterministic reasons that end the planning before any analysis of merit, all of them for contributors
  only, and the cause a close of each kind stands for.\<close>

definition cap_matched :: "AgentActionPlanInput \<Rightarrow> bool" where
  "cap_matched i \<longleftrightarrow> (\<exists>cm. ap_contributorCapMatch i = Some cm \<and> cm_matched cm)"

definition nag_matched :: "AgentActionPlanInput \<Rightarrow> bool" where
  "nag_matched i \<longleftrightarrow> (\<exists>nm. ap_reviewNagMatch i = Some nm \<and> nm_matched nm)"

definition copycat_matched :: "AgentActionPlanInput \<Rightarrow> bool" where
  "copycat_matched i \<longleftrightarrow> (\<exists>xm. ap_copycatMatch i = Some xm \<and> xm_matched xm)"

definition screenshot_matched :: "AgentActionPlanInput \<Rightarrow> bool" where
  "screenshot_matched i \<longleftrightarrow> (\<exists>sm. ap_screenshotTableMatch i = Some sm \<and> sm_matched sm)"

definition plan_enforced :: "AgentActionPlanInput \<Rightarrow> bool" where
  "plan_enforced i \<longleftrightarrow>
     plan_isContributor i \<and>
     (ap_blacklistMatched i \<or> cap_matched i \<or> nag_matched i \<or>
      copycat_matched i \<and> ap_copycatGateMode i = Some CopycatBlock \<or>
      ap_screenshotTableEvidenceUnresolved i \<or> screenshot_matched i)"

fun close_cause :: "AgentActionPlanInput \<Rightarrow> CloseKind \<Rightarrow> bool" where
  "close_cause i KindBlacklist \<longleftrightarrow> plan_isContributor i \<and> ap_blacklistMatched i"
| "close_cause i KindContributorCap \<longleftrightarrow> plan_isContributor i \<and> cap_matched i"
| "close_cause i KindReviewNag \<longleftrightarrow> plan_isContributor i \<and> nag_matched i"
| "close_cause i KindCopycat \<longleftrightarrow> plan_isContributor i \<and> copycat_matched i \<and> ap_copycatGateMode i = Some CopycatBlock"
| "close_cause i KindScreenshotTable \<longleftrightarrow>
     plan_isContributor i \<and> screenshot_matched i \<and> \<not> ap_screenshotTableEvidenceUnresolved i"
| "close_cause i KindLinkedIssueHardRule \<longleftrightarrow> plan_closeEligible i \<and> plan_ruleViolated i"
| "close_cause i KindHeuristic \<longleftrightarrow>
     plan_closeEligible i \<and>
     (ap_ciState i = CiStateFailed \<or> ap_conclusion i = ConclFailure \<and> ap_aiReviewLowConfidenceHold i = None \<or>
      plan_isConflict i \<or> ap_unlinkedIssueMatchClose i \<noteq> None)"

lemmas short_circuit_defs = planBlacklistClose_def planContributorCapClose_def planReviewNagClose_def planCopycatClose_def
  planScreenshotTableClose_def

lemmas matched_defs = cap_matched_def nag_matched_def copycat_matched_def screenshot_matched_def

lemma short_circuit_iff: "planShortCircuit E i \<noteq> None \<longleftrightarrow> plan_enforced i"
  by (auto simp: planShortCircuit_def short_circuit_defs matched_defs plan_enforced_def split: option.splits if_splits)

lemma no_short_circuit: "planShortCircuit E i = None \<longleftrightarrow> \<not> plan_enforced i"
  using short_circuit_iff by blast

lemma enforcement_label_None [simp]: "enforcement_label i k r None = []"
  by (simp add: enforcement_label_def)

text \<open>A short circuit plans the close and the label of one enforcement kind, or nothing at all.\<close>

lemma short_circuit_shape:
  assumes "planShortCircuit E i = Some acts"
  shows "acts = [] \<or>
     (\<exists>k r c l. close_cause i k \<and> acts = enforcement_close i k r c @ enforcement_label i k r l)"
proof -
  have step: ?thesis if "acts = enforcement_close i k r c @ enforcement_label i k r l" "close_cause i k" for k r c l
    using that by blast
  consider (b) "planBlacklistClose E i = Some acts" | (c) "planContributorCapClose E i = Some acts"
    | (n) "planReviewNagClose E i = Some acts" | (x) "planCopycatClose E i = Some acts"
    | (s) "planScreenshotTableClose E i = Some acts"
    using assms by (auto simp: planShortCircuit_def split: option.splits)
  then show ?thesis
  proof cases
    case b
    then show ?thesis by (intro step[where k = KindBlacklist]) (auto simp: planBlacklistClose_def split: if_splits)
  next
    case c
    then obtain cm where "ap_contributorCapMatch i = Some cm" "cm_matched cm" "plan_isContributor i"
      by (auto simp: planContributorCapClose_def split: option.splits if_splits)
    with c show ?thesis
      by (intro step[where k = KindContributorCap]) (auto simp: planContributorCapClose_def cap_matched_def)
  next
    case n
    then obtain nm where "ap_reviewNagMatch i = Some nm" "nm_matched nm" "plan_isContributor i"
      by (auto simp: planReviewNagClose_def split: option.splits if_splits)
    with n show ?thesis by (intro step[where k = KindReviewNag]) (auto simp: planReviewNagClose_def nag_matched_def)
  next
    case x
    then obtain xm where "ap_copycatMatch i = Some xm" "xm_matched xm" "plan_isContributor i"
      "ap_copycatGateMode i = Some CopycatBlock"
      by (auto simp: planCopycatClose_def split: option.splits if_splits)
    with x show ?thesis by (intro step[where k = KindCopycat]) (auto simp: planCopycatClose_def copycat_matched_def)
  next
    case s
    show ?thesis
    proof (cases "ap_screenshotTableEvidenceUnresolved i \<and> plan_isContributor i")
      case True
      with s show ?thesis by (simp add: planScreenshotTableClose_def)
    next
      case False
      with s obtain sm where "ap_screenshotTableMatch i = Some sm" "sm_matched sm" "plan_isContributor i"
        by (auto simp: planScreenshotTableClose_def split: option.splits if_splits)
      with s False show ?thesis
        by (intro step[where k = KindScreenshotTable and l = None])
          (auto simp: planScreenshotTableClose_def screenshot_matched_def)
    qed
  qed
qed

lemma enforcement_close_mem:
  "a \<in> set (enforcement_close i k r c) \<Longrightarrow>
     plan_acting i ClassClose \<and> pa_actionClass a = ClassClose \<and> pa_closeKind a = Some k \<and>
     pa_requiresApproval a = plan_approval i ClassClose \<and> pa_autonomyClass a = None \<and> pa_label a = None"
  by (auto simp: enforcement_close_def action_of_def split: if_splits)

lemma enforcement_label_mem:
  "a \<in> set (enforcement_label i k r l) \<Longrightarrow>
     plan_acting i ClassClose \<and> pa_actionClass a = ClassLabel \<and> pa_autonomyClass a = Some ClassClose \<and>
     pa_requiresApproval a = plan_approval i ClassClose \<and> pa_labelOp a = Some LabelAdd"
  by (auto simp: enforcement_label_def split: if_splits option.splits)

lemma short_circuit_disposing:
  assumes "planShortCircuit E i = Some acts"
  shows "length (filter disposing acts) \<le> 1"
    and "a \<in> set (filter disposing acts) \<Longrightarrow>
           pa_actionClass a = ClassClose \<and> plan_acting i ClassClose \<and> (\<exists>k. pa_closeKind a = Some k \<and> close_cause i k)"
proof -
  have fd: "filter disposing acts = [] \<or> (\<exists>k r c. close_cause i k \<and> filter disposing acts = enforcement_close i k r c)"
    using short_circuit_shape[OF assms] enforcement_classes by (metis filter.simps(1) filter_append append_Nil2)
  show "length (filter disposing acts) \<le> 1"
    using fd by (auto simp: enforcement_close_def simp del: disposing_class)
  show "pa_actionClass a = ClassClose \<and> plan_acting i ClassClose \<and> (\<exists>k. pa_closeKind a = Some k \<and> close_cause i k)"
    if "a \<in> set (filter disposing acts)"
    using fd that enforcement_close_mem[of a i] by (metis empty_iff empty_set)
qed

section \<open>The disposition\<close>

lemma disposition_at_most_one: "length (section_disposition E i []) \<le> 1"
  by (simp add: section_disposition_def Let_def)

lemma disposition_mem:
  assumes "a \<in> set (section_disposition E i [])"
  shows "(pa_actionClass a = ClassMerge \<and> plan_canMerge i \<and> \<not> plan_flagForLinkedIssue i \<and> \<not> plan_willCloseForLinkedIssue i \<and>
            \<not> plan_unlinkedIssueMatchViolated i) \<or>
         (pa_actionClass a = ClassClose \<and> plan_acting i ClassClose \<and> (\<exists>k. pa_closeKind a = Some k \<and> close_cause i k))"
  using assms
  by (auto simp: section_disposition_def Let_def plan_willCloseForLinkedIssue_def plan_linkedIssueViolated_def
      plan_unlinkedIssueMatchViolated_def plan_willClose_def plan_ciFailed_def split: if_splits)


lemma mem_disposing: "pa_actionClass a \<in> {ClassMerge, ClassClose} \<Longrightarrow> a \<in> set acts \<longleftrightarrow> a \<in> set (filter disposing acts)"
  by simp

lemma plan_closes:
  assumes "a \<in> set (planAgentMaintenanceActions E i)" "pa_actionClass a = ClassClose"
  shows "plan_acting i ClassClose \<and> (\<exists>k. pa_closeKind a = Some k \<and> close_cause i k)"
proof -
  have a: "a \<in> set (filter disposing (planAgentMaintenanceActions E i))" using assms by simp
  show ?thesis
  proof (cases "planShortCircuit E i")
    case None
    then have "a \<in> set (section_disposition E i [])"
      using a unfolding plan_disposing by (auto simp del: disposing_class split: if_splits)
    then show ?thesis using disposition_mem assms(2) by fastforce
  next
    case (Some acts)
    then show ?thesis using a short_circuit_disposing(2)[OF Some] unfolding plan_disposing by (auto simp del: disposing_class)
  qed
qed

lemma plan_merge_action:
  assumes "a \<in> set (planAgentMaintenanceActions E i)" "pa_actionClass a = ClassMerge"
  shows "plan_settles E i \<and> a \<in> set (section_disposition E i [])"
proof -
  have a: "a \<in> set (filter disposing (planAgentMaintenanceActions E i))" using assms by simp
  show ?thesis
  proof (cases "planShortCircuit E i")
    case None
    then show ?thesis using a unfolding plan_disposing by (auto simp del: disposing_class split: if_splits)
  next
    case (Some acts)
    then show ?thesis using a short_circuit_disposing(2)[OF Some] assms(2) unfolding plan_disposing
      by (auto simp del: disposing_class)
  qed
qed

lemma hold_cause_disposition: "resolveHoldCause i = dp_heldBy (plan_disposition i)"
  by (simp only: resolveHoldCause_def plan_disposition_def plan_escalationCleared_def plan_guardrailHit_def
      plan_reviewGood_def plan_ciPassed_def plan_escalationConfigured_def plan_acting_def plan_level_def Let_def)

lemma would_merge_iff:
  "dp_wouldMerge (plan_disposition i) \<longleftrightarrow>
     plan_reviewGood i \<and> resolveHoldCause i = [] \<and> assessMergeableState (pp_mergeableState (ap_pr i)) = MergeClean"
  by (simp add: hold_cause_disposition plan_disposition_def buildPrDispositionInput_def)

lemma issue_close_split:
  "plan_flagForLinkedIssue i \<or> plan_willCloseForLinkedIssue i \<longleftrightarrow> plan_linkedIssueViolated i"
  by (auto simp: plan_flagForLinkedIssue_def plan_willCloseForLinkedIssue_def)

lemma merging_settles:
  assumes "\<not> plan_enforced i" "plan_canMerge i"
  shows "plan_settles E i \<longleftrightarrow> \<not> ap_ciHasPending i"
proof -
  have g: "ap_conclusion i = ConclSuccess" "ap_ciState i = CiStatePassed" "\<not> plan_isConflict i"
    using assms(2) by (auto simp: plan_canMerge_def would_merge_iff plan_reviewGood_def plan_ciPassed_def plan_isConflict_def)
  then have "\<not> plan_pendingCiMayStillClose i" by (simp add: plan_pendingCiMayStillClose_def plan_ciFailed_def)
  with g assms(1) show ?thesis by (simp add: plan_settles_def no_short_circuit plan_ciPending_def)
qed

lemma merge_chosen:
  "(\<exists>a \<in> set (section_disposition E i []). pa_actionClass a = ClassMerge) \<longleftrightarrow>
     plan_canMerge i \<and> \<not> plan_linkedIssueViolated i \<and> \<not> plan_unlinkedIssueMatchViolated i"
  using issue_close_split[of i] by (auto simp: section_disposition_def Let_def)


text \<open>A plan holds at most one merge or close, and only approvals, merges, closes, labels and assignments: it never
  requests changes.\<close>

lemma plan_disposes_once: "length (filter disposing (planAgentMaintenanceActions E i)) \<le> 1"
  unfolding plan_disposing
  using short_circuit_disposing(1)[of E i] disposition_at_most_one[of E i]
  by (simp del: disposing_class split: option.split)

text \<open>C32: Every close has an enabled close class and a cause of its kind, read off the input. In particular the pull
  requests of automation accounts that are neither owner nor admin are never closed, those of the owner and the admins
  only where the repository asks for it, and a check state that could not be verified never closes on its own.\<close>

theorem closes_have_a_cause:
  "\<forall>a \<in> set (planAgentMaintenanceActions E i). pa_actionClass a = ClassClose \<longrightarrow>
     resolveAutonomy (ap_autonomy i) ClassClose \<noteq> Observe \<and> (\<exists>k. pa_closeKind a = Some k \<and> close_cause i k) \<and>
     (ap_authorIsOwner i \<or> ap_authorIsAdmin i \<or> ap_authorIsAutomationBot i \<longrightarrow>
        ap_closeOwnerAuthors i \<and> (ap_authorIsOwner i \<or> ap_authorIsAdmin i) \<and>
        (pa_closeKind a = Some KindHeuristic \<or> pa_closeKind a = Some KindLinkedIssueHardRule))"
proof (intro ballI impI)
  fix a assume a: "a \<in> set (planAgentMaintenanceActions E i)" "pa_actionClass a = ClassClose"
  from plan_closes[OF a] obtain k where k: "plan_acting i ClassClose" "pa_closeKind a = Some k" "close_cause i k" by blast
  have "ap_closeOwnerAuthors i \<and> (ap_authorIsOwner i \<or> ap_authorIsAdmin i) \<and> (k = KindHeuristic \<or> k = KindLinkedIssueHardRule)"
    if "ap_authorIsOwner i \<or> ap_authorIsAdmin i \<or> ap_authorIsAutomationBot i"
    using that k(3) by (cases k) (auto simp: plan_isContributor_def plan_closeEligible_def)
  with k show "resolveAutonomy (ap_autonomy i) ClassClose \<noteq> Observe \<and> (\<exists>k. pa_closeKind a = Some k \<and> close_cause i k) \<and>
     (ap_authorIsOwner i \<or> ap_authorIsAdmin i \<or> ap_authorIsAutomationBot i \<longrightarrow>
        ap_closeOwnerAuthors i \<and> (ap_authorIsOwner i \<or> ap_authorIsAdmin i) \<and>
        (pa_closeKind a = Some KindHeuristic \<or> pa_closeKind a = Some KindLinkedIssueHardRule))"
    by (simp add: plan_acting_def plan_level_def acting_not_observe)
qed


section \<open>Authority and labels\<close>

definition manual_label_action :: "AgentActionPlanInput \<Rightarrow> PlannedAgentAction \<Rightarrow> bool" where
  "manual_label_action i a \<longleftrightarrow>
     pa_actionClass a = ClassLabel \<and> pa_label a \<noteq> None \<and> pa_label a = rl_manualReview (plan_labels i) \<and>
     governing_class a \<in> {ClassMerge, ClassClose}"

definition authorised :: "AgentActionPlanInput \<Rightarrow> PlannedAgentAction \<Rightarrow> bool" where
  "authorised i a \<longleftrightarrow>
     pa_requiresApproval a = plan_approval i (governing_class a) \<and>
     (plan_acting i (governing_class a) \<or> manual_label_action i a)"

text \<open>A label is added only where the pull request lacks it and removed only where it has it. The label of the copycat
  gate is the exception: it is planned without a look at the labels.\<close>

definition label_fresh :: "AgentActionPlanInput \<Rightarrow> PlannedAgentAction \<Rightarrow> bool" where
  "label_fresh i a \<longleftrightarrow>
     (case pa_label a of
        None \<Rightarrow> pa_actionClass a \<noteq> ClassLabel
      | Some l \<Rightarrow>
          if pa_labelOp a = Some LabelRemove then hasLabel (pp_labels (ap_pr i)) l
          else pa_closeKind a = Some KindCopycat \<or> \<not> hasLabel (pp_labels (ap_pr i)) l)"

definition sound_action :: "AgentActionPlanInput \<Rightarrow> PlannedAgentAction \<Rightarrow> bool" where
  "sound_action i a \<longleftrightarrow> authorised i a \<and> label_fresh i a"

lemma governing_simps [simp]:
  "governing_class (action_of c r s) = c" "governing_class (label_action d r s l p) = d"
  by (simp_all add: governing_class_def or_default_def)

lemma governing_updates [simp]:
  "governing_class (a\<lparr>pa_comment := x\<rparr>) = governing_class a" "governing_class (a\<lparr>pa_closeKind := y\<rparr>) = governing_class a"
  "governing_class (a\<lparr>pa_autonomyClass := Some d\<rparr>) = d" "governing_class (a\<lparr>pa_label := z\<rparr>) = governing_class a"
  by (simp_all add: governing_class_def or_default_def)

lemma manual_label_fresh:
  "wants_manual_label i acts = Some l \<Longrightarrow>
     rl_manualReview (plan_labels i) = Some l \<and> plan_acting i ClassMerge \<and> \<not> hasLabel (pp_labels (ap_pr i)) l"
  by (auto simp: wants_manual_label_def hasLabelOrPlanned_def split: option.splits if_splits)

lemma sound_label_action:
  assumes "plan_acting i d \<or> d \<in> {ClassMerge, ClassClose} \<and> rl_manualReview (plan_labels i) = Some l"
    and "hasLabel (pp_labels (ap_pr i)) l \<longleftrightarrow> p = LabelRemove"
  shows "sound_action i ((label_action d (plan_approval i d) r l p)\<lparr>pa_comment := x, pa_closeKind := k\<rparr>)"
    and "sound_action i ((label_action d (plan_approval i d) r l p)\<lparr>pa_comment := x\<rparr>)"
    and "sound_action i (label_action d (plan_approval i d) r l p)"
    and "sound_action i ((label_action d (plan_approval i d) r l p)\<lparr>pa_closeKind := k, pa_comment := x\<rparr>)"
  using assms
  by (cases p; auto simp: sound_action_def authorised_def label_fresh_def manual_label_action_def)+

lemma push_merge_hold_sound:
  "list_all (sound_action i) acts \<Longrightarrow> list_all (sound_action i) (push_merge_hold E i h x acts)"
  using manual_label_fresh[of i acts]
  by (auto simp: push_merge_hold_def intro!: sound_label_action(2) split: option.split)

lemma stale_labels_live: "l \<in> set (stale_labels lab live handled sibs) \<Longrightarrow> toLowerCase l \<in> set live"
  by (induction lab live handled sibs rule: stale_labels.induct) (auto simp: Let_def split: option.splits if_splits)

lemma hasLabel_live: "toLowerCase l \<in> set (map toLowerCase labels) \<Longrightarrow> hasLabel labels l"
  by (induction labels) (auto simp: hasLabel_def)

lemma state_label_sound:
  assumes "list_all (sound_action i) acts"
  shows "list_all (sound_action i) (section_state_label E i acts)"
proof (cases "plan_acting i ClassReviewStateLabel")
  case True
  have "list_all (sound_action i) (state_label_add E i acts)"
    using True by (simp add: state_label_add_def sound_action_def authorised_def label_fresh_def hasLabelOrPlanned_def
        split: option.split)
  moreover have "list_all (sound_action i) (state_label_stale i)"
    using True stale_labels_live[THEN hasLabel_live]
    by (auto simp: state_label_stale_def list_all_iff simp del: append.simps stale_labels.simps
        intro!: sound_label_action(3))
  moreover have "list_all (sound_action i) (pending_closure_flag E i)"
  proof (cases "rl_pendingClosure (plan_labels i)")
    case (Some l)
    then show ?thesis
    proof (cases "plan_flagForLinkedIssue i")
      case flag: True
      then have "\<not> hasLabel (pp_labels (ap_pr i)) l"
        using Some by (simp add: plan_flagForLinkedIssue_def plan_pendingClosureLabelPresent_def)
      then show ?thesis using Some flag True
        by (simp add: pending_closure_flag_def Let_def sound_label_action(4) del: append.simps)
    qed (simp add: pending_closure_flag_def)
  qed (simp add: pending_closure_flag_def)
  moreover have "list_all (sound_action i) (pending_closure_clear i)"
  proof (cases "rl_pendingClosure (plan_labels i)")
    case (Some l)
    then show ?thesis
    proof (cases "plan_clearLinkedIssueFlag i")
      case clear: True
      then have "hasLabel (pp_labels (ap_pr i)) l"
        using Some by (simp add: plan_clearLinkedIssueFlag_def plan_pendingClosureLabelPresent_def)
      then show ?thesis using Some clear True
        by (simp add: pending_closure_clear_def Let_def sound_label_action(4) del: append.simps)
    qed (simp add: pending_closure_clear_def)
  qed (simp add: pending_closure_clear_def)
  ultimately show ?thesis using assms by (simp add: section_state_label_def)
qed (simp add: section_state_label_def assms)

lemma sound_plain_action:
  "c \<noteq> ClassLabel \<Longrightarrow> plan_acting i c \<Longrightarrow> pa_actionClass a = c \<Longrightarrow> pa_autonomyClass a = None \<Longrightarrow>
     pa_requiresApproval a = plan_approval i c \<Longrightarrow> pa_label a = None \<Longrightarrow> sound_action i a"
  by (simp add: sound_action_def authorised_def label_fresh_def governing_class_def or_default_def)

lemma disposition_sound: "list_all (sound_action i) (section_disposition E i [])"
proof -
  have "sound_action i a" if "a \<in> set (section_disposition E i [])" for a
  proof (rule sound_plain_action[where c = "pa_actionClass a"])
    show "plan_acting i (pa_actionClass a)" "pa_actionClass a \<noteq> ClassLabel"
      using disposition_mem[OF that] by (auto simp: plan_canMerge_def)
    show "pa_autonomyClass a = None" "pa_label a = None" "pa_requiresApproval a = plan_approval i (pa_actionClass a)"
      using that by (auto simp: section_disposition_def Let_def split: if_splits)
  qed simp
  then show ?thesis by (simp add: list_all_iff)
qed

lemma review_sound: "list_all (sound_action i) acts \<Longrightarrow> list_all (sound_action i) (section_review i acts)"
  by (simp add: section_review_def sound_plain_action[where c = ClassApprove] del: append.simps)

lemma manual_hold_sound: "list_all (sound_action i) acts \<Longrightarrow> list_all (sound_action i) (section_manual_hold E i acts)"
  by (auto simp: section_manual_hold_def hasLabelOrPlanned_def plan_manualHoldAutonomyClass_def
      intro!: sound_label_action(2) split: option.split)

lemma contention_sound:
  "list_all (sound_action i) acts \<Longrightarrow> list_all (sound_action i) (section_contention_release E i acts)"
  by (auto simp: section_contention_release_def plan_manualHoldAutonomyClass_def simp del: append.simps
      intro!: sound_label_action(3) split: option.split)

lemma guardrail_sound: "list_all (sound_action i) acts \<Longrightarrow> list_all (sound_action i) (section_guardrail_label E i acts)"
  using manual_label_fresh[of i acts]
  by (auto simp: section_guardrail_label_def intro!: sound_label_action(3) split: option.split)

lemma release_sound: "list_all (sound_action i) acts \<Longrightarrow> list_all (sound_action i) (section_release_label E i acts)"
  by (auto simp: section_release_label_def simp del: append.simps intro!: sound_label_action(3) split: option.split)

lemma merge_holds_sound: "list_all (sound_action i) acts \<Longrightarrow> list_all (sound_action i) (section_merge_holds E i acts)"
  by (simp add: section_merge_holds_def Let_def push_merge_hold_sound)

lemma opening_sound: "list_all (sound_action i) (maybePlanCopycatLabel i (maybePlanAssign i []))"
  by (auto simp: maybePlanCopycatLabel_def maybePlanAssign_def Let_def sound_action_def authorised_def label_fresh_def
      governing_class_def or_default_def plan_approval_def plan_acting_def plan_level_def split: option.split)

lemma settled_sound:
  assumes "list_all (sound_action i) acts"
  shows "list_all (sound_action i) (planSettled E i acts)"
proof -
  have "list_all (sound_action i) (section_disposition E i bs)" if "list_all (sound_action i) bs" for bs
    using that disposition_sound[of i E] by (subst section_disposition_append) simp
  note disposed = this
  show ?thesis unfolding planSettled_def
    by (intro contention_sound manual_hold_sound disposed review_sound state_label_sound merge_holds_sound release_sound
        guardrail_sound assms)
qed


text \<open>Every planned action is governed by one autonomy class, demands approval exactly when that class is set to
  \<open>auto_with_approval\<close>, and the class is enabled; only the manual-review label is planned without a look at the dial.\<close>

theorem actions_follow_the_dial:
  "\<forall>a \<in> set (planAgentMaintenanceActions E i).
     pa_requiresApproval a = (resolveAutonomy (ap_autonomy i) (governing_class a) = AutoWithApproval) \<and>
     (resolveAutonomy (ap_autonomy i) (governing_class a) \<noteq> Observe \<or>
      pa_actionClass a = ClassLabel \<and> pa_label a \<noteq> None \<and> pa_label a = rl_manualReview (plan_labels i) \<and>
      governing_class a \<in> {ClassMerge, ClassClose})"
proof
  fix a assume a: "a \<in> set (planAgentMaintenanceActions E i)"
  have "authorised i a"
  proof (cases E i rule: plan_cases)
    case (short acts)
    with a have "a \<in> set acts" by simp
    with short_circuit_shape[OF short(1)] obtain k r c l where
      "a \<in> set (enforcement_close i k r c) \<or> a \<in> set (enforcement_label i k r l)" by auto
    then show ?thesis
      using enforcement_close_mem[of a i k r c] enforcement_label_mem[of a i k r l]
      by (auto simp: authorised_def governing_class_def or_default_def)
  next
    case skipped
    with a show ?thesis by simp
  next
    case pending
    with a opening_sound[of i] show ?thesis by (simp add: list_all_iff sound_action_def)
  next
    case settled
    with a settled_sound[OF opening_sound, of i E] show ?thesis by (simp add: list_all_iff sound_action_def)
  qed
  then show "pa_requiresApproval a = (resolveAutonomy (ap_autonomy i) (governing_class a) = AutoWithApproval) \<and>
     (resolveAutonomy (ap_autonomy i) (governing_class a) \<noteq> Observe \<or>
      pa_actionClass a = ClassLabel \<and> pa_label a \<noteq> None \<and> pa_label a = rl_manualReview (plan_labels i) \<and>
      governing_class a \<in> {ClassMerge, ClassClose})"
    by (auto simp: authorised_def manual_label_action_def plan_approval_def plan_acting_def plan_level_def
        autonomyRequiresApproval_def acting_not_observe)
qed


section \<open>The circuit breakers\<close>

text \<open>Two actions fight over a label when one adds and the other removes it.\<close>

definition fights :: "PlannedAgentAction \<Rightarrow> PlannedAgentAction \<Rightarrow> bool" where
  "fights a b \<longleftrightarrow>
     pa_actionClass a = ClassLabel \<and> pa_actionClass b = ClassLabel \<and> pa_label a \<noteq> None \<and> pa_label a = pa_label b \<and>
     pa_labelOp a \<noteq> Some LabelRemove \<and> pa_labelOp b = Some LabelRemove \<and> pa_closeKind a \<noteq> Some KindCopycat"

definition peaceful :: "PlannedAgentAction list \<Rightarrow> bool" where
  "peaceful acts \<longleftrightarrow> (\<forall>a \<in> set acts. \<forall>b \<in> set acts. \<not> fights a b)"

lemma peaceful_subset: "peaceful acts \<Longrightarrow> set bs \<subseteq> set acts \<Longrightarrow> peaceful bs"
  by (auto simp: peaceful_def)

lemma sound_peaceful: "list_all (sound_action i) acts \<Longrightarrow> peaceful acts"
proof -
  assume s: "list_all (sound_action i) acts"
  have False if "a \<in> set acts" "b \<in> set acts" "fights a b" for a b
  proof -
    from that(3) obtain l where l: "pa_label a = Some l" "pa_label b = Some l" by (auto simp: fights_def)
    have "label_fresh i a" "label_fresh i b" using s that(1,2) by (simp_all add: list_all_iff sound_action_def)
    then show False using l that(3) by (simp add: label_fresh_def fights_def)
  qed
  then show ?thesis by (auto simp: peaceful_def)
qed

lemma plan_peaceful: "peaceful (planAgentMaintenanceActions E i)"
proof (cases E i rule: plan_cases)
  case (short acts)
  have "\<not> fights a b" if "b \<in> set acts" for a b
  proof -
    from short_circuit_shape[OF short(1)] that obtain k r c l where
      "b \<in> set (enforcement_close i k r c) \<or> b \<in> set (enforcement_label i k r l)" by auto
    then have "pa_actionClass b = ClassClose \<or> pa_labelOp b = Some LabelAdd"
      using enforcement_close_mem[of b i k r c] enforcement_label_mem[of b i k r l] by blast
    then show ?thesis by (auto simp: fights_def)
  qed
  then show ?thesis using short by (simp add: peaceful_def)
next
  case skipped
  then show ?thesis by (simp add: peaceful_def)
next
  case pending
  then show ?thesis using opening_sound sound_peaceful by metis
next
  case settled
  then show ?thesis using settled_sound[OF opening_sound] sound_peaceful by metis
qed

abbreviation manual_label :: "'a AgentDispositionLabelSettings_scheme \<Rightarrow> string option" where
  "manual_label settings \<equiv> rl_manualReview (resolveAgentDispositionLabels settings)"

definition adds_label :: "string \<Rightarrow> PlannedAgentAction \<Rightarrow> bool" where
  "adds_label l a \<longleftrightarrow> pa_actionClass a = ClassLabel \<and> pa_label a = Some l \<and> pa_labelOp a \<noteq> Some LabelRemove"

definition removes_label :: "string \<Rightarrow> PlannedAgentAction \<Rightarrow> bool" where
  "removes_label l a \<longleftrightarrow> pa_actionClass a = ClassLabel \<and> pa_label a = Some l \<and> pa_labelOp a = Some LabelRemove"

text \<open>The hold label either is planned already, or is appended; a planned release of it is dropped.\<close>

lemma with_hold_cases:
  assumes "manual_label settings = Some l"
  shows "withManualReviewHoldLabel acts settings a =
    (let kept = filter (\<lambda>a. \<not> removes_label l a) acts
     in if list_ex (adds_label l) kept then kept
        else kept @ [a\<lparr>pa_actionClass := ClassLabel, pa_label := Some l, pa_labelOp := Some LabelAdd\<rparr>])"
  by (simp only: assms withManualReviewHoldLabel_def option.case Let_def adds_label_def[abs_def] removes_label_def conj_assoc)

lemma with_hold_None: "manual_label settings = None \<Longrightarrow> withManualReviewHoldLabel acts settings a = acts"
  by (simp add: withManualReviewHoldLabel_def)

lemma with_hold_peaceful:
  assumes "peaceful acts"
  shows "peaceful (withManualReviewHoldLabel acts settings a)"
proof (cases "manual_label settings")
  case (Some l)
  show ?thesis unfolding with_hold_cases[OF Some] Let_def
    using assms by (auto simp: peaceful_def fights_def removes_label_def)
qed (simp add: with_hold_None assms)

definition ready_add :: "'a AgentDispositionLabelSettings_scheme \<Rightarrow> PlannedAgentAction \<Rightarrow> bool" where
  "ready_add settings a \<longleftrightarrow>
     rl_readyToMerge (resolveAgentDispositionLabels settings) \<noteq> None \<and> pa_actionClass a = ClassLabel \<and>
     pa_label a = rl_readyToMerge (resolveAgentDispositionLabels settings) \<and> pa_labelOp a \<noteq> Some LabelRemove"

lemma hold_action_simps [simp]:
  "pa_autonomyClass (hold_action c r s) = Some c" "pa_closeKind (hold_action c r s) = None"
  "pa_requiresApproval (hold_action c r s) = r"
  by (simp_all add: hold_action_def)

lemma downgrade_merge_shape:
  assumes "h" "m \<in> set acts" "pa_actionClass m = ClassMerge"
  obtains r s where "downgradeMergeToHold acts h settings =
    filter (\<lambda>b. \<not> ready_add settings b)
      (withManualReviewHoldLabel (filter (\<lambda>b. pa_actionClass b \<noteq> ClassMerge) acts) settings (hold_action ClassMerge r s))"
proof -
  have c: "(\<not> h \<or> \<not> list_ex (\<lambda>b. pa_actionClass b = ClassMerge) acts) = False" using assms by (auto simp: list_ex_iff)
  show thesis
    by (rule that) (unfold downgradeMergeToHold_def c if_False Let_def ready_add_def, rule refl)
qed

lemma downgrade_merge_none:
  "\<not> h \<or> (\<forall>m \<in> set acts. pa_actionClass m \<noteq> ClassMerge) \<Longrightarrow> downgradeMergeToHold acts h settings = acts"
  by (auto simp: downgradeMergeToHold_def list_ex_iff)

definition coupled :: "bool \<Rightarrow> string list \<Rightarrow> PlannedAgentAction list \<Rightarrow> PlannedAgentAction \<Rightarrow> bool" where
  "coupled h codes acts a \<longleftrightarrow>
     pa_actionClass a = ClassLabel \<and> pa_closeKind a \<noteq> None \<and>
     (\<exists>b \<in> set acts. isDowngradableClose h codes b \<and> pa_closeKind b = pa_closeKind a)"

lemma downgrade_close_shape:
  assumes "m \<in> set acts" "isDowngradableClose h codes m"
  obtains r s where "downgradeCloseToHold acts h settings codes =
    withManualReviewHoldLabel (filter (\<lambda>b. \<not> isDowngradableClose h codes b \<and> \<not> coupled h codes acts b) acts) settings
      (hold_action ClassClose r s)"
proof -
  have c: "(\<not> list_ex (isDowngradableClose h codes) acts) = False" using assms by (auto simp: list_ex_iff)
  have k: "(pa_actionClass b = ClassLabel \<and> pa_closeKind b \<noteq> None \<and>
      pa_closeKind b \<in> set (map pa_closeKind (filter (isDowngradableClose h codes) acts))) = coupled h codes acts b" for b
    by (auto simp: coupled_def image_iff eq_commute)
  show thesis
    by (rule that) (unfold downgradeCloseToHold_def Let_def c if_False k, rule refl)
qed

lemma downgrade_close_none:
  "\<forall>m \<in> set acts. \<not> isDowngradableClose h codes m \<Longrightarrow> downgradeCloseToHold acts h settings codes = acts"
  by (auto simp: downgradeCloseToHold_def Let_def list_ex_iff)

lemma downgrades_peaceful:
  assumes "peaceful acts"
  shows "peaceful (downgradeMergeToHold acts h settings)" and "peaceful (downgradeCloseToHold acts h settings codes)"
proof -
  have f: "peaceful (filter P acts)" for P by (rule peaceful_subset[OF assms]) auto
  show "peaceful (downgradeMergeToHold acts h settings)"
  proof (cases "h \<and> (\<exists>m \<in> set acts. pa_actionClass m = ClassMerge)")
    case True
    then obtain r s where eq: "downgradeMergeToHold acts h settings = filter (\<lambda>b. \<not> ready_add settings b)
      (withManualReviewHoldLabel (filter (\<lambda>b. pa_actionClass b \<noteq> ClassMerge) acts) settings (hold_action ClassMerge r s))"
      using downgrade_merge_shape by metis
    show ?thesis unfolding eq by (rule peaceful_subset[OF with_hold_peaceful[OF f]]) auto
  next
    case False
    then show ?thesis using assms downgrade_merge_none by metis
  qed
  show "peaceful (downgradeCloseToHold acts h settings codes)"
  proof (cases "\<exists>m \<in> set acts. isDowngradableClose h codes m")
    case True
    then obtain m where "m \<in> set acts" "isDowngradableClose h codes m" by blast
    then show ?thesis using with_hold_peaceful[OF f] downgrade_close_shape by metis
  next
    case False
    then show ?thesis using assms downgrade_close_none by metis
  qed
qed

definition hold_label_of :: "AgentActionClass \<Rightarrow> 'a AgentDispositionLabelSettings_scheme \<Rightarrow> PlannedAgentAction \<Rightarrow> bool" where
  "hold_label_of c settings a \<longleftrightarrow>
     pa_actionClass a = ClassLabel \<and> pa_labelOp a = Some LabelAdd \<and> pa_label a = manual_label settings \<and>
     pa_autonomyClass a = Some c \<and> pa_closeKind a = None"

lemma with_hold_mem:
  assumes "b \<in> set (withManualReviewHoldLabel acts settings (hold_action c r s))"
  shows "b \<in> set acts \<or> hold_label_of c settings b"
proof (cases "manual_label settings")
  case (Some l)
  show ?thesis using assms unfolding with_hold_cases[OF Some] Let_def
    by (auto simp: hold_label_of_def Some split: if_splits)
qed (use assms in \<open>simp add: with_hold_None\<close>)

lemma with_hold_keeps:
  assumes "b \<in> set acts" "pa_actionClass b \<noteq> ClassLabel"
  shows "b \<in> set (withManualReviewHoldLabel acts settings a)"
proof (cases "manual_label settings")
  case (Some l)
  have "b \<in> set (filter (\<lambda>a. \<not> removes_label l a) acts)" using assms by (simp add: removes_label_def)
  then show ?thesis unfolding with_hold_cases[OF Some] Let_def by simp
qed (simp add: with_hold_None assms)

lemma with_hold_held:
  assumes "manual_label settings = Some l"
  shows "\<exists>b \<in> set (withManualReviewHoldLabel acts settings a). adds_label l b"
    and "b \<in> set (withManualReviewHoldLabel acts settings a) \<Longrightarrow> \<not> removes_label l b"
  unfolding with_hold_cases[OF assms] Let_def
  by (auto simp: list_ex_iff adds_label_def removes_label_def split: if_splits)

lemma merge_breaker_mem:
  assumes "a \<in> set (downgradeMergeToHold acts h settings)"
  shows "a \<in> set acts \<and> (h \<longrightarrow> pa_actionClass a \<noteq> ClassMerge) \<or> hold_label_of ClassMerge settings a"
proof (cases "h \<and> (\<exists>m \<in> set acts. pa_actionClass m = ClassMerge)")
  case False
  then have "downgradeMergeToHold acts h settings = acts" by (metis downgrade_merge_none)
  with False assms show ?thesis by auto
next
  case True
  then obtain r s where "downgradeMergeToHold acts h settings = filter (\<lambda>b. \<not> ready_add settings b)
      (withManualReviewHoldLabel (filter (\<lambda>b. pa_actionClass b \<noteq> ClassMerge) acts) settings (hold_action ClassMerge r s))"
    using downgrade_merge_shape by metis
  then have "a \<in> set (withManualReviewHoldLabel (filter (\<lambda>b. pa_actionClass b \<noteq> ClassMerge) acts) settings
      (hold_action ClassMerge r s))" using assms by simp
  from with_hold_mem[OF this] show ?thesis by auto
qed

lemma close_breaker_mem:
  assumes "a \<in> set (downgradeCloseToHold acts h settings codes)"
  shows "\<not> isDowngradableClose h codes a \<and> (a \<in> set acts \<and> \<not> coupled h codes acts a \<or> hold_label_of ClassClose settings a)"
proof (cases "\<exists>m \<in> set acts. isDowngradableClose h codes m")
  case False
  then have "downgradeCloseToHold acts h settings codes = acts" by (metis downgrade_close_none)
  with False assms show ?thesis by (auto simp: coupled_def)
next
  case True
  then obtain r s where "downgradeCloseToHold acts h settings codes = withManualReviewHoldLabel
      (filter (\<lambda>b. \<not> isDowngradableClose h codes b \<and> \<not> coupled h codes acts b) acts) settings (hold_action ClassClose r s)"
    using downgrade_close_shape by metis
  with with_hold_mem assms show ?thesis by (fastforce simp: hold_label_of_def isDowngradableClose_def)
qed

text \<open>What the executor relies on when a breaker has gone over a plan: every action it returns was planned before or is
  a manual-review label it added, and it brings no label conflict into a plan that had none. Both breakers satisfy it, so
  neither ever adds a merge, a close, a review or an assignment.\<close>

locale plan_breaker =
  fixes brk :: "PlannedAgentAction list \<Rightarrow> PlannedAgentAction list" and manual :: "string option"
  assumes only_holds: "a \<in> set (brk acts) \<Longrightarrow>
      a \<in> set acts \<or> pa_actionClass a = ClassLabel \<and> pa_label a = manual \<and> pa_labelOp a = Some LabelAdd"
    and peace: "peaceful acts \<Longrightarrow> peaceful (brk acts)"
begin

lemma kept: "a \<in> set (brk acts) \<Longrightarrow> pa_actionClass a \<noteq> ClassLabel \<Longrightarrow> a \<in> set acts"
  using only_holds by blast

lemma nothing_new: "c \<noteq> ClassLabel \<Longrightarrow> \<forall>a \<in> set acts. pa_actionClass a \<noteq> c \<Longrightarrow> \<forall>a \<in> set (brk acts). pa_actionClass a \<noteq> c"
  using kept by blast

end

interpretation mb: plan_breaker "\<lambda>acts. downgradeMergeToHold acts h settings" "manual_label settings" for h settings
proof
  show "a \<in> set acts \<or> pa_actionClass a = ClassLabel \<and> pa_label a = manual_label settings \<and> pa_labelOp a = Some LabelAdd"
    if "a \<in> set (downgradeMergeToHold acts h settings)" for a acts
    using merge_breaker_mem[OF that] by (auto simp: hold_label_of_def)
qed (rule downgrades_peaceful)

interpretation cb: plan_breaker "\<lambda>acts. downgradeCloseToHold acts h settings codes" "manual_label settings" for h settings codes
proof
  show "a \<in> set acts \<or> pa_actionClass a = ClassLabel \<and> pa_label a = manual_label settings \<and> pa_labelOp a = Some LabelAdd"
    if "a \<in> set (downgradeCloseToHold acts h settings codes)" for a acts
    using close_breaker_mem[OF that] by (auto simp: hold_label_of_def)
qed (rule downgrades_peaceful)

text \<open>No plan adds and removes the same label, before or after the two circuit breakers; only the label of the copycat
  gate, which is planned without a look at the labels, could collide with a removal, if it is configured to be one of
  the disposition labels.\<close>

theorem labels_never_flap:
  "\<forall>acts \<in> {planAgentMaintenanceActions E i, downgradeMergeToHold (planAgentMaintenanceActions E i) h settings,
             downgradeCloseToHold (downgradeMergeToHold (planAgentMaintenanceActions E i) h settings) h' settings codes}.
     \<forall>a \<in> set acts. \<forall>b \<in> set acts.
       pa_actionClass a = ClassLabel \<and> pa_actionClass b = ClassLabel \<and> pa_label a = Some l \<and> pa_label b = Some l \<and>
       pa_labelOp b = Some LabelRemove \<longrightarrow> pa_labelOp a = Some LabelRemove \<or> pa_closeKind a = Some KindCopycat"
proof -
  have "pa_labelOp a = Some LabelRemove \<or> pa_closeKind a = Some KindCopycat"
    if "peaceful acts" "a \<in> set acts" "b \<in> set acts" "pa_actionClass a = ClassLabel" "pa_actionClass b = ClassLabel"
      "pa_label a = Some l" "pa_label b = Some l" "pa_labelOp b = Some LabelRemove" for acts a b
  proof -
    have "\<not> fights a b" using that(1-3) by (simp add: peaceful_def)
    then show ?thesis using that(4-) by (simp add: fights_def)
  qed
  then show ?thesis using plan_peaceful[of E i] mb.peace cb.peace by blast
qed


text \<open>The merge breaker: while it is engaged no merge survives; what it returns was planned before, but for a
  manual-review label under the merge class; reviews, closes and assignments are untouched; and a merge it drops leaves
  the manual-review label planned and not released (unless that label is also the configured ready label). Disengaged,
  or without a merge, it changes nothing.\<close>

theorem merge_breaker_only_holds:
  "(h \<longrightarrow> (\<forall>a \<in> set (downgradeMergeToHold acts h settings). pa_actionClass a \<noteq> ClassMerge)) \<and>
   (\<forall>a \<in> set (downgradeMergeToHold acts h settings). a \<in> set acts \<or> hold_label_of ClassMerge settings a) \<and>
   (\<forall>a \<in> set acts. pa_actionClass a \<notin> {ClassMerge, ClassLabel} \<longrightarrow> a \<in> set (downgradeMergeToHold acts h settings)) \<and>
   (\<forall>m \<in> set acts. h \<and> pa_actionClass m = ClassMerge \<and> manual_label settings = Some l \<and>
      rl_readyToMerge (resolveAgentDispositionLabels settings) \<noteq> Some l \<longrightarrow>
        (\<exists>a \<in> set (downgradeMergeToHold acts h settings). adds_label l a) \<and>
        (\<forall>a \<in> set (downgradeMergeToHold acts h settings). \<not> removes_label l a)) \<and>
   (\<not> h \<or> (\<forall>m \<in> set acts. pa_actionClass m \<noteq> ClassMerge) \<longrightarrow> downgradeMergeToHold acts h settings = acts)"
proof (cases "h \<and> (\<exists>m \<in> set acts. pa_actionClass m = ClassMerge)")
  case False
  then have "downgradeMergeToHold acts h settings = acts" by (metis downgrade_merge_none)
  with False show ?thesis by auto
next
  case True
  let ?kept = "filter (\<lambda>b. pa_actionClass b \<noteq> ClassMerge) acts"
  obtain r s where eq: "downgradeMergeToHold acts h settings =
      filter (\<lambda>b. \<not> ready_add settings b) (withManualReviewHoldLabel ?kept settings (hold_action ClassMerge r s))"
    using True downgrade_merge_shape by metis
  have keeps: "a \<in> set (downgradeMergeToHold acts h settings)"
    if "a \<in> set acts" "pa_actionClass a \<noteq> ClassMerge" "pa_actionClass a \<noteq> ClassLabel" for a
    using that with_hold_keeps[of a ?kept settings] unfolding eq by (simp add: ready_add_def)
  have held: "(\<exists>a \<in> set (downgradeMergeToHold acts h settings). adds_label l a) \<and>
      (\<forall>a \<in> set (downgradeMergeToHold acts h settings). \<not> removes_label l a)"
    if l: "manual_label settings = Some l" "rl_readyToMerge (resolveAgentDispositionLabels settings) \<noteq> Some l"
  proof -
    obtain a where "a \<in> set (withManualReviewHoldLabel ?kept settings (hold_action ClassMerge r s))" "adds_label l a"
      using with_hold_held(1)[OF l(1)] by blast
    then have "\<exists>a \<in> set (downgradeMergeToHold acts h settings). adds_label l a"
      using l(2) unfolding eq by (auto simp: ready_add_def adds_label_def)
    then show ?thesis using with_hold_held(2)[OF l(1)] unfolding eq by auto
  qed
  have "pa_actionClass a \<noteq> ClassMerge" "a \<in> set acts \<or> hold_label_of ClassMerge settings a"
    if "a \<in> set (downgradeMergeToHold acts h settings)" for a
    using merge_breaker_mem[OF that] True by (auto simp: hold_label_of_def)
  then show ?thesis using True keeps held by blast
qed

text \<open>The close breaker: it drops exactly the closes that are subject to it, those of a heuristic or a content
  inspection that have no concrete evidence while the project's breaker is engaged, and those whose every justifying
  rule is known to be imprecise, together with the label coupled to a dropped close; it adds nothing but a manual-review
  label under the close class, and every other action that is not a label stays.\<close>

theorem close_breaker_only_holds:
  "(\<forall>a \<in> set (downgradeCloseToHold acts h settings codes).
      \<not> isDowngradableClose h codes a \<and> (a \<in> set acts \<or> hold_label_of ClassClose settings a)) \<and>
   (\<forall>a \<in> set acts. pa_actionClass a \<noteq> ClassLabel \<and> \<not> isDowngradableClose h codes a \<longrightarrow>
      a \<in> set (downgradeCloseToHold acts h settings codes)) \<and>
   (\<forall>m \<in> set acts. isDowngradableClose h codes m \<longrightarrow>
      (\<forall>a \<in> set (downgradeCloseToHold acts h settings codes).
         pa_actionClass a = ClassLabel \<longrightarrow> pa_closeKind a \<noteq> pa_closeKind m) \<and>
      (\<forall>l. manual_label settings = Some l \<longrightarrow>
         (\<exists>a \<in> set (downgradeCloseToHold acts h settings codes). adds_label l a) \<and>
         (\<forall>a \<in> set (downgradeCloseToHold acts h settings codes). \<not> removes_label l a)))"
proof (cases "\<exists>m \<in> set acts. isDowngradableClose h codes m")
  case False
  then have "downgradeCloseToHold acts h settings codes = acts" by (metis downgrade_close_none)
  with False show ?thesis by auto
next
  case True
  let ?kept = "filter (\<lambda>b. \<not> isDowngradableClose h codes b \<and> \<not> coupled h codes acts b) acts"
  obtain r s where eq: "downgradeCloseToHold acts h settings codes =
      withManualReviewHoldLabel ?kept settings (hold_action ClassClose r s)"
    using True downgrade_close_shape by metis
  note mem = close_breaker_mem[where acts = acts and h = h and settings = settings and codes = codes]
  have keeps: "a \<in> set (downgradeCloseToHold acts h settings codes)"
    if "a \<in> set acts" "pa_actionClass a \<noteq> ClassLabel" "\<not> isDowngradableClose h codes a" for a
    unfolding eq using that by (intro with_hold_keeps) (simp_all add: coupled_def)
  have kind: "pa_closeKind a \<noteq> pa_closeKind m"
    if "m \<in> set acts" "isDowngradableClose h codes m" "a \<in> set (downgradeCloseToHold acts h settings codes)"
      "pa_actionClass a = ClassLabel" for a m
  proof -
    have "pa_closeKind m \<noteq> None"
      using that(2) by (auto simp: isDowngradableClose_def isBreakerEligibleClose_def split: option.splits)
    then show ?thesis using mem[OF that(3)] that(1,2,4) by (auto simp: coupled_def hold_label_of_def)
  qed
  show ?thesis
  proof (intro conjI ballI impI allI)
    fix l assume l: "manual_label settings = Some l"
    show "\<exists>a \<in> set (downgradeCloseToHold acts h settings codes). adds_label l a"
      unfolding eq by (rule with_hold_held(1)[OF l])
    fix a assume "a \<in> set (downgradeCloseToHold acts h settings codes)"
    then show "\<not> removes_label l a" unfolding eq by (rule with_hold_held(2)[OF l])
  qed (use mem keeps kind in auto)
qed


lemma evident_close:
  assumes "a \<in> set (planAgentMaintenanceActions E i)" "pa_actionClass a = ClassClose" "pa_closeConcreteEvidence a = Some True"
  shows "pa_closeKind a = Some KindHeuristic" "hasConcreteCloseEvidence i (plan_ciFailed i) (plan_isConflict i)"
proof -
  have "planShortCircuit E i = None"
  proof (rule ccontr)
    assume "planShortCircuit E i \<noteq> None"
    then obtain acts where acts: "planShortCircuit E i = Some acts" by blast
    then have "a \<in> set acts" using assms(1) by (simp add: planAgentMaintenanceActions_def)
    with short_circuit_shape[OF acts] obtain k r c l where
      "a \<in> set (enforcement_close i k r c) \<or> a \<in> set (enforcement_label i k r l)" by auto
    then show False using assms(3)
      by (auto simp: enforcement_close_def enforcement_label_def action_of_def label_action_def split: if_splits option.splits)
  qed
  moreover have "a \<in> set (filter disposing (planAgentMaintenanceActions E i))" using assms by simp
  ultimately have "a \<in> set (section_disposition E i [])"
    unfolding plan_disposing by (auto simp del: disposing_class split: if_splits)
  then show "pa_closeKind a = Some KindHeuristic" "hasConcreteCloseEvidence i (plan_ciFailed i) (plan_isConflict i)"
    using assms(2-) by (auto simp: section_disposition_def Let_def action_of_def simp del: append.simps split: if_splits)
qed

text \<open>Under the engaged close breaker a planned close survives only if it enforces an identity rule or a linked-issue
  rule, or rests on failing checks, on a conflict with the base branch or on a blocking finding of a deterministic rule:
  a verdict of the models alone, however many of them agree, never closes a pull request.\<close>

theorem model_verdicts_alone_never_close:
  "\<forall>a \<in> set (downgradeCloseToHold (downgradeMergeToHold (planAgentMaintenanceActions E i) h settings) True settings codes).
     pa_actionClass a = ClassClose \<longrightarrow>
       pa_closeKind a \<in> {Some KindBlacklist, Some KindContributorCap, Some KindLinkedIssueHardRule} \<or>
       ap_ciState i = CiStateFailed \<or> plan_isConflict i \<or>
       (\<exists>c \<in> set (or_default (ap_gateBlockerCodes i) []).
          c \<in> set CONCRETE_EVIDENCE_BLOCKER_CODES \<and> c \<notin> set AI_JUDGMENT_BLOCKER_CODES)"
proof (intro ballI impI)
  let ?plan = "planAgentMaintenanceActions E i"
  fix a assume a: "a \<in> set (downgradeCloseToHold (downgradeMergeToHold ?plan h settings) True settings codes)"
    "pa_actionClass a = ClassClose"
  have nd: "\<not> isDowngradableClose True codes a" using close_breaker_mem[OF a(1)] by blast
  have "a \<in> set (downgradeMergeToHold ?plan h settings)" by (rule cb.kept[OF a(1)]) (simp add: a(2))
  then have p: "a \<in> set ?plan" by (rule mb.kept) (simp add: a(2))
  obtain k where k: "pa_closeKind a = Some k" using plan_closes[OF p a(2)] by blast
  show "pa_closeKind a \<in> {Some KindBlacklist, Some KindContributorCap, Some KindLinkedIssueHardRule} \<or>
       ap_ciState i = CiStateFailed \<or> plan_isConflict i \<or>
       (\<exists>c \<in> set (or_default (ap_gateBlockerCodes i) []).
          c \<in> set CONCRETE_EVIDENCE_BLOCKER_CODES \<and> c \<notin> set AI_JUDGMENT_BLOCKER_CODES)"
  proof (cases "isBreakerEligibleClose a")
    case False
    then show ?thesis using k by (cases k) (auto simp: isBreakerEligibleClose_def CONTENT_INSPECTION_CLOSE_KINDS_def)
  next
    case True
    then have e: "pa_closeConcreteEvidence a = Some True"
      using nd a(2) by (auto simp: isDowngradableClose_def noConcreteEvidenceUnderProjectBreaker_def)
    from evident_close(2)[OF p a(2) e] show ?thesis
      by (auto simp: hasConcreteCloseEvidence_def concreteCloseEvidenceCodes_def plan_ciFailed_def filter_empty_conv
          split: if_splits)
  qed
qed


section \<open>Nothing is left undecided\<close>

lemma hold_appends:
  "\<exists>xs. section_contention_release E i acts = acts @ xs"
  by (simp add: section_contention_release_def del: append.simps split: option.split)

lemma planned_mono: "hasLabelOrPlanned labels acts l \<Longrightarrow> hasLabelOrPlanned labels (acts @ xs) l"
  by (auto simp: hasLabelOrPlanned_def)

lemma manual_hold_visible:
  assumes "plan_manualHoldReason E i \<noteq> None" "rl_manualReview (plan_labels i) = Some l"
    "\<not> list_ex disposing acts"
  shows "hasLabelOrPlanned (pp_labels (ap_pr i)) (section_manual_hold E i acts) l"
proof -
  obtain r where r: "plan_manualHoldReason E i = Some r" using assms(1) by blast
  have "\<not> list_ex (\<lambda>a. pa_actionClass a = ClassMerge \<or> pa_actionClass a = ClassClose) acts"
    using assms(3) by (simp add: disposing_def[abs_def] list_ex_iff)
  then show ?thesis using r assms(2)
    by (auto simp: section_manual_hold_def hasLabelOrPlanned_def plans_label_def)
qed

text \<open>The actions before the manual hold: what the settled plan has done up to the disposition.\<close>

definition disposed_actions :: "planner_env \<Rightarrow> AgentActionPlanInput \<Rightarrow> PlannedAgentAction list \<Rightarrow> PlannedAgentAction list" where
  "disposed_actions E i acts =
     section_disposition E i (section_review i (section_state_label E i (section_merge_holds E i (section_release_label E i
       (section_guardrail_label E i acts)))))"

lemma settled_disposed: "planSettled E i acts = section_contention_release E i (section_manual_hold E i (disposed_actions E i acts))"
  by (simp add: planSettled_def disposed_actions_def)

lemma disposed_disposing: "filter disposing (disposed_actions E i acts) = filter disposing acts @ section_disposition E i []"
  unfolding disposed_actions_def section_disposition_append[where acts = "section_review _ _"]
  by (simp only: filter_append section_disposing state_label_disposing section_disposition_disposing)

lemma will_close_disposes:
  "plan_willClose i \<Longrightarrow> \<not> plan_flagForLinkedIssue i \<Longrightarrow> section_disposition E i [] \<noteq> []"
  by (simp add: section_disposition_def Let_def)

text \<open>A pull request whose gate was evaluated and whose checks have settled is never left without an answer: unless it
  is good to merge, the plan merges or closes it, flags it for the verification of a linked-issue rule, or leaves it with
  the manual-review label, already there or planned (where closing is enabled and that label is configured).\<close>

theorem never_left_undecided:
  assumes "\<not> plan_enforced i" "ap_conclusion i \<noteq> ConclSkipped" "\<not> plan_ciPending i" "\<not> plan_reviewGood i"
    "resolveAutonomy (ap_autonomy i) ClassClose \<noteq> Observe" "manual_label i = Some l"
  shows "(\<exists>a \<in> set (planAgentMaintenanceActions E i). pa_actionClass a = ClassClose) \<or> plan_flagForLinkedIssue i \<or>
    hasLabelOrPlanned (pp_labels (ap_pr i)) (planAgentMaintenanceActions E i) l"
proof -
  let ?open = "maybePlanCopycatLabel i (maybePlanAssign i [])"
  have settles: "plan_settles E i" using assms(1-3) by (simp add: plan_settles_def no_short_circuit)
  then have eq: "planAgentMaintenanceActions E i = planSettled E i ?open"
    by (cases E i rule: plan_cases) simp_all
  have acting: "plan_acting i ClassClose" using assms(5) by (simp add: plan_acting_def plan_level_def acting_not_observe)
  have chosen: "filter disposing (planAgentMaintenanceActions E i) = section_disposition E i []"
    using settles by (simp add: plan_disposing plan_settles_def del: disposing_class)
  show ?thesis
  proof (cases "section_disposition E i []")
    case (Cons a as)
    then have "a \<in> set (planAgentMaintenanceActions E i)" using chosen by (metis filter_is_subset list.set_intros(1) subsetD)
    moreover have "pa_actionClass a = ClassClose"
      using disposition_mem[of a E i] Cons assms(4) by (auto simp: plan_canMerge_def would_merge_iff)
    ultimately show ?thesis by blast
  next
    case Nil
    show ?thesis
    proof (cases "plan_flagForLinkedIssue i")
      case False
      then have "\<not> plan_willClose i" using will_close_disposes[of i E] Nil by blast
      then have "plan_manualHoldReason E i \<noteq> None" using acting assms(4) by (simp add: plan_manualHoldReason_def)
      moreover have "\<not> list_ex disposing (disposed_actions E i ?open)"
        using disposed_disposing[of E i ?open] Nil opening_not_disposing[of i]
        by (simp add: filter_empty_conv list_ex_iff del: disposing_class)
      ultimately have "hasLabelOrPlanned (pp_labels (ap_pr i)) (section_manual_hold E i (disposed_actions E i ?open)) l"
        using assms(6) by (intro manual_hold_visible)
      then show ?thesis unfolding eq settled_disposed using hold_appends planned_mono by metis
    qed simp
  qed
qed


lemma review_good_hold_label:
  assumes "wants_manual_label i acts = None" "plan_acting i ClassMerge" "manual_label i = Some l"
  shows "hasLabelOrPlanned (pp_labels (ap_pr i)) acts l"
  using assms by (auto simp: wants_manual_label_def split: if_splits)

lemma planned_label_action:
  "hasLabelOrPlanned labels (acts @ [(label_action c r s l LabelAdd)\<lparr>pa_comment := x\<rparr>]) l"
  "hasLabelOrPlanned labels (acts @ [label_action c r s l LabelAdd]) l"
  by (simp_all add: hasLabelOrPlanned_def plans_label_def)

lemma push_merge_hold_visible:
  assumes "plan_reviewGood i" "x" "h \<noteq> None" "plan_acting i ClassMerge" "manual_label i = Some l"
  shows "hasLabelOrPlanned (pp_labels (ap_pr i)) (push_merge_hold E i h x acts) l"
proof (cases "wants_manual_label i acts")
  case None
  then show ?thesis using review_good_hold_label[OF None assms(4,5)] by (simp add: push_merge_hold_def split: option.split)
next
  case (Some m)
  then have "m = l" using manual_label_fresh assms(5) by auto
  then show ?thesis using Some assms(1-3) planned_label_action(1) by (auto simp: push_merge_hold_def)
qed

lemma push_merge_hold_keeps:
  "hasLabelOrPlanned labels acts l \<Longrightarrow> hasLabelOrPlanned labels (push_merge_hold E i h x acts) l"
  by (auto simp: push_merge_hold_def intro: planned_mono split: option.split)

lemma guardrail_label_visible:
  assumes "plan_reviewGood i" "plan_guardrailHit i" "\<not> plan_escalationCleared i" "plan_acting i ClassMerge" "manual_label i = Some l"
  shows "hasLabelOrPlanned (pp_labels (ap_pr i)) (section_guardrail_label E i acts) l"
proof (cases "wants_manual_label i acts")
  case None
  then show ?thesis using review_good_hold_label[OF None assms(4,5)] by (simp add: section_guardrail_label_def)
next
  case (Some m)
  then have "m = l" using manual_label_fresh assms(5) by auto
  then show ?thesis using Some assms(1-3) planned_label_action(2) by (simp add: section_guardrail_label_def)
qed

lemma release_appends: "\<exists>xs. section_release_label E i acts = acts @ xs"
  by (simp add: section_release_label_def del: append.simps split: option.split)

lemma merge_holds_keep:
  "hasLabelOrPlanned labels acts l \<Longrightarrow> hasLabelOrPlanned labels (section_merge_holds E i acts) l"
  by (simp add: section_merge_holds_def Let_def push_merge_hold_keeps)

lemma later_sections_append:
  "\<exists>xs. section_contention_release E i (section_manual_hold E i (section_disposition E i (section_review i
     (section_state_label E i acts)))) = acts @ xs"
proof -
  have "\<exists>xs. section_state_label E i bs = bs @ xs" for bs by (simp add: section_state_label_def)
  moreover have "\<exists>xs. section_review i bs = bs @ xs" for bs by (simp add: section_review_def del: append.simps)
  moreover have "\<exists>xs. section_manual_hold E i bs = bs @ xs" for bs
    by (simp add: section_manual_hold_def split: option.split)
  ultimately show ?thesis using section_disposition_append hold_appends by (metis append.assoc)
qed

lemma merge_holds_visible:
  assumes k: "k \<in> set (resolveHoldCause i)" "k \<notin> {AdvisoryCheckHold, GuardrailHit}"
    and g: "plan_reviewGood i" "plan_acting i ClassMerge" "\<not> plan_acting i ClassReviewStateLabel" "manual_label i = Some l"
  shows "hasLabelOrPlanned (pp_labels (ap_pr i)) (section_merge_holds E i acts) l"
proof -
  note push = push_merge_hold_visible[OF g(1) _ _ g(2,4)]
  have "pd_holds (buildPrDispositionInput i (plan_reviewGood i) (plan_guardrailHit i) (plan_escalationCleared i)
      (plan_acting i ClassClose)) k"
    using k(1) by (simp add: hold_cause_disposition plan_disposition_def)
  then show ?thesis using k(2) g(3)
    by (cases k) (simp_all add: buildPrDispositionInput_def section_merge_holds_def Let_def push push_merge_hold_keeps)
qed

text \<open>A pull request that is good to merge but held is visible as held: where merging is enabled, and the review-state
  labels are not, every hold but that of an advisory check leaves the manual-review label on the pull request or plans
  it, and never merges.\<close>

theorem merge_holds_are_visible:
  assumes "\<not> plan_enforced i" "\<not> plan_ciPending i" "ap_conclusion i = ConclSuccess" "ap_ciState i = CiStatePassed"
    and "resolveAutonomy (ap_autonomy i) ClassMerge \<noteq> Observe"
      "resolveAutonomy (ap_autonomy i) ClassReviewStateLabel = Observe" "manual_label i = Some l"
    and "k \<in> set (resolveHoldCause i)" "k \<noteq> AdvisoryCheckHold"
  shows "hasLabelOrPlanned (pp_labels (ap_pr i)) (planAgentMaintenanceActions E i) l \<and>
    (\<forall>a \<in> set (planAgentMaintenanceActions E i). pa_actionClass a \<noteq> ClassMerge)"
proof
  let ?open = "maybePlanCopycatLabel i (maybePlanAssign i [])"
  have "plan_settles E i" using assms(1-3) by (simp add: plan_settles_def no_short_circuit)
  then have eq: "planAgentMaintenanceActions E i = planSettled E i ?open" by (cases E i rule: plan_cases) simp_all
  have g: "plan_reviewGood i" "plan_acting i ClassMerge" "\<not> plan_acting i ClassReviewStateLabel"
    using assms(3-6) by (simp_all add: plan_reviewGood_def plan_ciPassed_def plan_acting_def plan_level_def acting_not_observe)
  have "hasLabelOrPlanned (pp_labels (ap_pr i)) (section_merge_holds E i (section_release_label E i
      (section_guardrail_label E i ?open))) l"
  proof (cases "k = GuardrailHit")
    case True
    then have "plan_guardrailHit i" "\<not> plan_escalationCleared i"
      using assms(8) by (simp_all add: hold_cause_disposition plan_disposition_def buildPrDispositionInput_def)
    then show ?thesis using guardrail_label_visible[OF g(1) _ _ g(2) assms(7)] release_appends planned_mono merge_holds_keep
      by metis
  next
    case False
    then show ?thesis using merge_holds_visible[OF assms(8) _ g assms(7)] assms(9) by simp
  qed
  then show "hasLabelOrPlanned (pp_labels (ap_pr i)) (planAgentMaintenanceActions E i) l"
    unfolding eq planSettled_def using later_sections_append planned_mono by metis
  have "resolveHoldCause i \<noteq> []" using assms(8) by auto
  then have "\<not> plan_canMerge i" by (simp add: plan_canMerge_def would_merge_iff)
  then show "\<forall>a \<in> set (planAgentMaintenanceActions E i). pa_actionClass a \<noteq> ClassMerge"
    using plan_merge_action[of _ E i] merge_chosen[of E i] by blast
qed


section \<open>Samples\<close>

text \<open>A contributor's pull request with a successful gate, passed checks and a clean branch, in a repository that lets
  the agent merge without further approvals.\<close>

definition sample_pr :: plan_pr where
  "sample_pr =
     \<lparr>pp_mergeableState = Some ''clean'', pp_reviewDecision = None, pp_slopRisk = None, pp_labels = [],
      pp_linkedDuplicateCount = None, pp_linkedDuplicateWinnerNumber = None, pp_headSha = Some ''abc'',
      pp_mergeBlockedSha = None, pp_mergeBlockedReason = None, pp_approvedHeadSha = None, pp_authorLogin = Some ''ada''\<rparr>"

definition ready_input :: AgentActionPlanInput where
  "ready_input =
     \<lparr>ls_manualReviewLabel = None, ls_readyToMergeLabel = None, ls_changesRequestedLabel = None,
      ls_migrationCollisionLabel = None, ls_pendingClosureLabel = None,
      ap_conclusion = ConclSuccess, ap_blockerTitles = [], ap_gateBlockerCodes = None,
      ap_autonomy = Some [ClassMerge \<mapsto> Auto], ap_autoMaintain = Some \<lparr>am_requireApprovals = Fin 0, am_mergeMethod = MethodSquash\<rparr>,
      ap_slopGateMinScore = None, ap_changedPaths = [''README.md''], ap_hardGuardrailGlobs = [],
      ap_guardrailEscalationOnCleanReview = None, ap_guardrailEscalationEffort = None,
      ap_guardrailEscalationSelfConsistencyRuns = None, ap_guardrailEscalationModel = None,
      ap_guardrailEscalationProvider = None, ap_manualReviewLabelAppliedSha = None,
      ap_manualReviewLockContentionResolved = False, ap_authorIsOwner = False, ap_authorIsAdmin = False,
      ap_authorIsAutomationBot = False, ap_closeOwnerAuthors = False, ap_ciState = CiStatePassed, ap_ciHasPending = False,
      ap_failingCheckNames = None, ap_linkedIssueHardRule = None, ap_blacklistMatched = False, ap_blacklistLabel = None,
      ap_contributorCapMatch = None, ap_contributorCapLabel = None, ap_reviewNagMatch = None, ap_reviewNagLabel = None,
      ap_copycatMatch = None, ap_copycatGateMode = None, ap_copycatLabel = None, ap_linkedIssueVerify = None,
      ap_migrationCollisionHold = None, ap_advisoryCheckHold = None, ap_ignoredCheckNonPassing = None,
      ap_nonRequiredCheckFailures = None, ap_unlinkedIssueMatchHold = None, ap_priorityEligibilityHold = None,
      ap_screenshotEvidenceHold = None, ap_unlinkedIssueMatchClose = None, ap_aiReviewLowConfidenceHold = None,
      ap_screenshotTableMatch = None, ap_screenshotTableEvidenceUnresolved = False, ap_pr = sample_pr\<rparr>"

definition sample_hold :: hold_verdict where
  "sample_hold = \<lparr>hv_reason = ''two migrations claim number 7'', hv_comment = ''Please rebase.''\<rparr>"

definition plan_classes :: "PlannedAgentAction list \<Rightarrow> AgentActionClass list" where
  "plan_classes acts = map pa_actionClass acts"

definition sample_env :: planner_env where
  "sample_env = \<lparr>pe_sanitize = (\<lambda>s. s), pe_num = (\<lambda>_. ''1'')\<rparr>"

abbreviation ready_plan :: "AgentActionPlanInput \<Rightarrow> PlannedAgentAction list" where
  "ready_plan i \<equiv> planAgentMaintenanceActions sample_env i"

lemma sample_merges: "plan_classes (ready_plan ready_input) = [ClassMerge]"
  by code_simp

lemma class_planned: "c \<in> set (plan_classes acts) \<longleftrightarrow> (\<exists>a \<in> set acts. pa_actionClass a = c)"
  by (auto simp: plan_classes_def)


text \<open>The same pull request with failing checks, where closing needs approval.\<close>

definition failing_input :: AgentActionPlanInput where
  "failing_input = ready_input \<lparr>ap_ciState := CiStateFailed, ap_autonomy := Some [ClassClose \<mapsto> AutoWithApproval]\<rparr>"

lemma failing_closes: "plan_classes (ready_plan failing_input) = [ClassClose]"
  by code_simp

theorem closes_have_a_cause_witness:
  "\<exists>a \<in> set (ready_plan failing_input). pa_actionClass a = ClassClose \<and> (\<exists>k. pa_closeKind a = Some k \<and> close_cause failing_input k)"
  using closes_have_a_cause[of sample_env failing_input] class_planned[of ClassClose "ready_plan failing_input"]
  by (auto simp: failing_closes)

theorem actions_follow_the_dial_witness:
  "\<exists>a \<in> set (ready_plan failing_input). pa_actionClass a = ClassClose \<and>
     pa_requiresApproval a = (resolveAutonomy (ap_autonomy failing_input) (governing_class a) = AutoWithApproval)"
  using actions_follow_the_dial[of sample_env failing_input] class_planned[of ClassClose "ready_plan failing_input"]
  by (auto simp: failing_closes)

text \<open>A pull request that was asked for changes and is now good: the label of the earlier pass goes, the ready label
  comes.\<close>

definition relabelled_input :: AgentActionPlanInput where
  "relabelled_input =
     ready_input \<lparr>ap_autonomy := Some [ClassReviewStateLabel \<mapsto> Auto],
                   ap_pr := sample_pr \<lparr>pp_labels := [''Changes-Requested'']\<rparr>\<rparr>"

definition label_ops :: "PlannedAgentAction list \<Rightarrow> (string option \<times> LabelOp option) list" where
  "label_ops acts = map (\<lambda>a. (pa_label a, pa_labelOp a)) (filter (\<lambda>a. pa_actionClass a = ClassLabel) acts)"

lemma relabelled_ops:
  "label_ops (ready_plan relabelled_input) =
     [(Some ''ready-to-merge'', None), (Some ''changes-requested'', Some LabelRemove)]"
  by code_simp

theorem labels_never_flap_witness:
  "\<forall>a \<in> set (ready_plan relabelled_input). pa_actionClass a = ClassLabel \<and> pa_label a = Some ''changes-requested'' \<longrightarrow>
     pa_labelOp a = Some LabelRemove \<or> pa_closeKind a = Some KindCopycat"
proof -
  have "(Some ''changes-requested'', Some LabelRemove) \<in> set (label_ops (ready_plan relabelled_input))"
    by (simp add: relabelled_ops)
  then obtain b where "b \<in> set (ready_plan relabelled_input)" "pa_actionClass b = ClassLabel"
    "pa_label b = Some ''changes-requested''" "pa_labelOp b = Some LabelRemove"
    by (auto simp: label_ops_def)
  then show ?thesis
    using labels_never_flap[of sample_env relabelled_input False relabelled_input False "[]" "''changes-requested''"] by blast
qed

theorem merge_breaker_only_holds_witness:
  "(\<forall>a \<in> set (downgradeMergeToHold (ready_plan ready_input) True ready_input). pa_actionClass a \<noteq> ClassMerge) \<and>
   (\<exists>a \<in> set (downgradeMergeToHold (ready_plan ready_input) True ready_input). adds_label ''manual-review'' a)"
proof -
  obtain m where "m \<in> set (ready_plan ready_input)" "pa_actionClass m = ClassMerge"
    using class_planned[of ClassMerge "ready_plan ready_input"] sample_merges by auto
  moreover have "manual_label ready_input = Some ''manual-review''"
    "rl_readyToMerge (resolveAgentDispositionLabels ready_input) \<noteq> Some ''manual-review''" by code_simp+
  ultimately show ?thesis
    using merge_breaker_only_holds[of True "ready_plan ready_input" ready_input "''manual-review''"] by blast
qed

text \<open>A gate that failed on the agreement of the models alone.\<close>

definition judged_input :: AgentActionPlanInput where
  "judged_input =
     ready_input \<lparr>ap_conclusion := ConclFailure, ap_gateBlockerCodes := Some [''ai_consensus_defect''],
                   ap_autonomy := Some [ClassClose \<mapsto> Auto]\<rparr>"

lemma judged_closes: "plan_classes (ready_plan judged_input) = [ClassClose]"
  "list_all (isDowngradableClose True []) (ready_plan judged_input)"
  by code_simp+

theorem close_breaker_only_holds_witness:
  "\<exists>a \<in> set (downgradeCloseToHold (ready_plan judged_input) True judged_input []). adds_label ''manual-review'' a"
proof -
  obtain m where "m \<in> set (ready_plan judged_input)" "isDowngradableClose True [] m"
    using judged_closes class_planned[of ClassClose "ready_plan judged_input"] by (auto simp: list_all_iff)
  moreover have "manual_label judged_input = Some ''manual-review''" by code_simp
  ultimately show ?thesis using close_breaker_only_holds[of "ready_plan judged_input" True judged_input "[]"] by blast
qed

theorem model_verdicts_alone_never_close_witness:
  "\<forall>a \<in> set (downgradeCloseToHold (downgradeMergeToHold (ready_plan judged_input) False judged_input) True judged_input []).
     pa_actionClass a = ClassClose \<longrightarrow>
     pa_closeKind a \<in> {Some KindBlacklist, Some KindContributorCap, Some KindLinkedIssueHardRule}"
proof -
  have "ap_ciState judged_input \<noteq> CiStateFailed" "\<not> plan_isConflict judged_input"
    "set (or_default (ap_gateBlockerCodes judged_input) []) \<inter> set CONCRETE_EVIDENCE_BLOCKER_CODES = {}" by code_simp+
  then show ?thesis using model_verdicts_alone_never_close[of sample_env judged_input False judged_input "[]"] by blast
qed

definition neutral_input :: AgentActionPlanInput where
  "neutral_input = ready_input \<lparr>ap_conclusion := ConclNeutral, ap_autonomy := Some [ClassClose \<mapsto> Auto]\<rparr>"

theorem never_left_undecided_witness:
  "(\<exists>a \<in> set (ready_plan neutral_input). pa_actionClass a = ClassClose) \<or> plan_flagForLinkedIssue neutral_input \<or>
   hasLabelOrPlanned (pp_labels (ap_pr neutral_input)) (ready_plan neutral_input) ''manual-review''"
proof (rule never_left_undecided)
  have "planShortCircuit sample_env neutral_input = None" by code_simp
  then show "\<not> plan_enforced neutral_input" using no_short_circuit by blast
qed (code_simp+)

definition colliding_input :: AgentActionPlanInput where
  "colliding_input = ready_input \<lparr>ap_migrationCollisionHold := Some sample_hold\<rparr>"

theorem merge_holds_are_visible_witness:
  "hasLabelOrPlanned (pp_labels (ap_pr colliding_input)) (ready_plan colliding_input) ''manual-review'' \<and>
   (\<forall>a \<in> set (ready_plan colliding_input). pa_actionClass a \<noteq> ClassMerge)"
proof (rule merge_holds_are_visible[where k = MigrationCollisionHold])
  have "planShortCircuit sample_env colliding_input = None" by code_simp
  then show "\<not> plan_enforced colliding_input" using no_short_circuit by blast
qed (code_simp+)


section \<open>Where the plan departs from its documentation\<close>

text \<open>A confirmed repeat of the unlinked-issue pattern is closed, and the same plan approves the pull request: the
  approval is held back for a linked-issue close but not for this one.\<close>

definition repeat_input :: AgentActionPlanInput where
  "repeat_input =
     ready_input \<lparr>ap_unlinkedIssueMatchClose := Some sample_hold,
                   ap_autonomy := Some [ClassClose \<mapsto> Auto, ClassApprove \<mapsto> Auto]\<rparr>"

theorem approves_what_it_closes:
  "plan_classes (ready_plan repeat_input) = [ClassApprove, ClassClose] \<and>
   list_all (\<lambda>a. pa_dismissStaleApproval a = None) (ready_plan repeat_input)"
  by code_simp

text \<open>An advisory check that does not pass suppresses the merge; without the review-state labels the plan is empty, and
  nothing on the pull request says why it does not merge.\<close>

definition advisory_input :: AgentActionPlanInput where
  "advisory_input =
     ready_input \<lparr>ap_advisoryCheckHold := Some [\<lparr>cv_name = ''trust'', cv_appSlug = ''scan'', cv_conclusion = ''failure''\<rparr>]\<rparr>"

theorem advisory_hold_is_silent:
  "resolveHoldCause advisory_input = [AdvisoryCheckHold] \<and> ready_plan advisory_input = []"
  by code_simp

text \<open>An automation account that is also listed as an admin is closed where the repository closes the pull requests of
  its owners, although automation accounts are said to be exempt regardless.\<close>

definition bot_input :: AgentActionPlanInput where
  "bot_input =
     failing_input \<lparr>ap_authorIsAdmin := True, ap_authorIsAutomationBot := True, ap_closeOwnerAuthors := True\<rparr>"

theorem automation_account_is_closed:
  "isProtectedAutomationAuthor (Some ''Mergify[bot]'') (Some ''mergify[bot], snyk-bot'') \<and>
   ap_authorIsAutomationBot bot_input \<and> plan_classes (ready_plan bot_input) = [ClassClose]"
  by code_simp

text \<open>With every class at observe, a guarded path still plans the manual-review label.\<close>

definition observing_input :: AgentActionPlanInput where
  "observing_input = ready_input \<lparr>ap_autonomy := None, ap_hardGuardrailGlobs := [''src/**''], ap_changedPaths := []\<rparr>"

theorem observe_still_plans_the_hold:
  "\<not> isAgentConfigured (ap_autonomy observing_input) \<and>
   label_ops (ready_plan observing_input) = [(Some ''manual-review'', Some LabelAdd)]"
  by code_simp

text \<open>Failing checks close a pull request, but if a blocking finding of a rule that is known to be imprecise stands
  beside them, the per-rule breaker holds the close, even with the project's breaker off.\<close>

definition imprecise_input :: AgentActionPlanInput where
  "imprecise_input = failing_input \<lparr>ap_gateBlockerCodes := Some [''missing_linked_issue'']\<rparr>"

theorem imprecise_rule_shields_red_checks:
  "plan_classes (downgradeCloseToHold (ready_plan failing_input) False failing_input [''missing_linked_issue'']) = [ClassClose] \<and>
   plan_classes (downgradeCloseToHold (ready_plan imprecise_input) False imprecise_input [''missing_linked_issue'']) = [ClassLabel]"
  by code_simp

end
