(* ===== verification/Merge_Train.thy ===== *)
theory Merge_Train
  imports Gate_Findings
begin

text \<open>
  What delays or suppresses a merge that was planned: the merge train (\<open>src/review/merge-train.ts\<close>), which holds a
  pull request behind an older one that overlaps it, and the treatment of merges that failed
  (\<open>src/services/merge-failure.ts\<close>, \<open>handleMergeFailure\<close> of \<open>src/services/agent-action-executor.ts\<close> and the two
  updates it makes to the pull request's row in \<open>src/db/repositories.ts\<close>).

  \<open>parse_date\<close> is \<open>Date.parse\<close>, \<open>show_date\<close> prints a date, and \<open>isLockfile\<close> is the table of lockfile names in
  \<open>src/signals/path-matchers.ts\<close>. A failed merge is the message and the HTTP status of the error. Pull-request numbers
  are natural numbers.
\<close>

section \<open>The merge train\<close>

record MergeTrainSibling =
  mt_number :: nat
  mt_createdAt :: "string option"
  mt_mergeableState :: "string option"
  mt_linkedIssues :: "nat list option"
  mt_changedFiles :: "string list option"
  mt_heldForManualReview :: bool
  mt_isDraft :: bool

definition MERGE_TRAIN_MAX_WAIT_MS :: jsnum where
  "MERGE_TRAIN_MAX_WAIT_MS = Fin (24 * 60 * 60 * 1000)"

datatype MergeTrainDecision = TrainWait nat "nat list" | TrainGo

definition LOW_SIGNAL_DIRS :: "string list" where
  "LOW_SIGNAL_DIRS =
     [''dist'', ''build'', ''out'', ''coverage'', ''node_modules'', ''vendor'', ''vendored'', ''third_party'', ''third-party'',
      ''bower_components'', ''jspm_packages'']"

text \<open>\<open>LOW_SIGNAL_DIR_RE\<close>: a directory of the path has one of these names.\<close>

definition low_signal_dir :: "string \<Rightarrow> bool" where
  "low_signal_dir path \<longleftrightarrow> list_ex (\<lambda>seg. seg \<in> set LOW_SIGNAL_DIRS) (butlast (split_on (CHR ''/'') (toLowerCase path)))"

definition isMeaningfulPath :: "(string \<Rightarrow> bool) \<Rightarrow> string \<Rightarrow> bool" where
  "isMeaningfulPath isLockfile path \<longleftrightarrow> \<not> isLockfile path \<and> \<not> low_signal_dir path"

definition train_overlaps :: "(string \<Rightarrow> bool) \<Rightarrow> nat list \<Rightarrow> string list option \<Rightarrow> MergeTrainSibling \<Rightarrow> bool" where
  "train_overlaps isLockfile thisPrLinkedIssues thisPrChangedFiles sibling =
     (let siblingIssues = or_default (mt_linkedIssues sibling) []
      in if list_ex (\<lambda>issue. issue \<in> set siblingIssues) thisPrLinkedIssues then True
         else case (thisPrChangedFiles, mt_changedFiles sibling) of
                (Some these, Some siblingFiles) \<Rightarrow>
                  list_ex (\<lambda>path. path \<in> set siblingFiles \<and> isMeaningfulPath isLockfile path) these
              | _ \<Rightarrow> False)"

record ShouldWaitForOlderSiblingsInput =
  wt_thisPrNumber :: nat
  wt_thisPrCreatedAt :: "string option"
  wt_thisPrLinkedIssues :: "nat list"
  wt_thisPrChangedFiles :: "string list option"
  wt_siblings :: "MergeTrainSibling list"
  wt_nowMs :: jsnum

definition created_ms :: "(string \<Rightarrow> jsnum) \<Rightarrow> string option \<Rightarrow> jsnum" where
  "created_ms parse_date createdAt =
     (case createdAt of None \<Rightarrow> NaN | Some s \<Rightarrow> if s = [] then NaN else parse_date s)"

definition isOlder :: "(string \<Rightarrow> jsnum) \<Rightarrow> string option \<Rightarrow> nat \<Rightarrow> MergeTrainSibling \<Rightarrow> bool" where
  "isOlder parse_date thisPrCreatedAt thisPrNumber sibling =
     (let siblingCreatedMs = created_ms parse_date (mt_createdAt sibling);
          thisCreatedMs = created_ms parse_date thisPrCreatedAt
      in if isFinite siblingCreatedMs \<and> isFinite thisCreatedMs \<and> siblingCreatedMs \<noteq> thisCreatedMs
         then num_lt siblingCreatedMs thisCreatedMs
         else mt_number sibling < thisPrNumber)"

definition within_cap :: "(string \<Rightarrow> jsnum) \<Rightarrow> jsnum \<Rightarrow> MergeTrainSibling \<Rightarrow> bool" where
  "within_cap parse_date nowMs sibling =
     (let siblingCreatedMs = created_ms parse_date (mt_createdAt sibling)
      in if \<not> isFinite siblingCreatedMs then True else num_lt (num_sub nowMs siblingCreatedMs) MERGE_TRAIN_MAX_WAIT_MS)"

definition train_viable ::
  "(string \<Rightarrow> bool) \<Rightarrow> (string \<Rightarrow> jsnum) \<Rightarrow> ShouldWaitForOlderSiblingsInput \<Rightarrow> MergeTrainSibling list" where
  "train_viable isLockfile parse_date input =
     sort_key mt_number
       (filter (\<lambda>sibling. mt_number sibling \<noteq> wt_thisPrNumber input \<and> mt_mergeableState sibling \<noteq> Some ''dirty'' \<and>
                 \<not> mt_heldForManualReview sibling \<and> \<not> mt_isDraft sibling \<and> mt_mergeableState sibling \<noteq> Some ''draft'' \<and>
                 isOlder parse_date (wt_thisPrCreatedAt input) (wt_thisPrNumber input) sibling \<and>
                 train_overlaps isLockfile (wt_thisPrLinkedIssues input) (wt_thisPrChangedFiles input) sibling \<and>
                 within_cap parse_date (wt_nowMs input) sibling)
          (wt_siblings input))"

definition shouldWaitForOlderSiblings ::
  "(string \<Rightarrow> bool) \<Rightarrow> (string \<Rightarrow> jsnum) \<Rightarrow> ShouldWaitForOlderSiblingsInput \<Rightarrow> MergeTrainDecision" where
  "shouldWaitForOlderSiblings isLockfile parse_date input =
     (case train_viable isLockfile parse_date input of
        [] \<Rightarrow> TrainGo
      | blocker # rest \<Rightarrow> TrainWait (mt_number blocker) (map mt_number (blocker # rest)))"


section \<open>Failed merges\<close>

definition MERGE_RETRY_CAP :: nat where
  "MERGE_RETRY_CAP = 5"

definition INFRA_MERGE_BLOCK_TTL_MS :: jsnum where
  "INFRA_MERGE_BLOCK_TTL_MS = Fin (30 * 60 * 1000)"

text \<open>A case-insensitive regular expression that is an alternation of literals.\<close>

definition mentions :: "string list \<Rightarrow> string \<Rightarrow> bool" where
  "mentions phrases message \<longleftrightarrow> list_ex (\<lambda>p. str_includes (toLowerCase message) p) phrases"

definition isMergeConflictMessage :: "string \<Rightarrow> bool" where
  "isMergeConflictMessage message \<longleftrightarrow>
     mentions [''merge conflict'', ''not mergeable'', ''cannot be merged'', ''has conflicts'', ''conflict with the base'',
               ''conflicts with the base''] message"

definition isNoNewBaseCommitsMessage :: "string \<Rightarrow> bool" where
  "isNoNewBaseCommitsMessage message \<longleftrightarrow> mentions [''no new commits on the base branch''] message"

definition isBaseBranchMovedMessage :: "string \<Rightarrow> bool" where
  "isBaseBranchMovedMessage message \<longleftrightarrow> mentions [''base branch was modified''] message"

definition isMergeAlreadyInProgressMessage :: "string \<Rightarrow> bool" where
  "isMergeAlreadyInProgressMessage message \<longleftrightarrow> mentions [''merge already in progress''] message"

definition isConvergenceForbiddenMessage :: "string \<Rightarrow> bool" where
  "isConvergenceForbiddenMessage message \<longleftrightarrow>
     mentions [''resource not accessible by integration'', ''secondary rate limit'', ''api rate limit'', ''abuse detection''] message"

definition isRateLimitMessage :: "string \<Rightarrow> bool" where
  "isRateLimitMessage message \<longleftrightarrow> mentions [''secondary rate limit'', ''abuse'', ''api rate limit exceeded''] message"

record merge_error =
  er_status :: "nat option"
  er_message :: string

datatype MergeFailureScope = ScopeCommit | ScopeInfra

record merge_failure =
  mf_terminal :: bool
  mf_reason :: string
  mf_scope :: MergeFailureScope

definition classifyMergeFailure :: "merge_error \<Rightarrow> merge_failure" where
  "classifyMergeFailure error =
     (let message = er_message error; status = er_status error
      in if status = Some 401 then
           \<lparr>mf_terminal = True, mf_reason = ''installation token rejected: App suspended or key rotated (401): '' @ message,
            mf_scope = ScopeInfra\<rparr>
         else if status = Some 429 then
           \<lparr>mf_terminal = False,
            mf_reason = ''merge rate-limited (429 '' @ em_dash @ '' secondary rate limit, self-healing window): '' @ message,
            mf_scope = ScopeInfra\<rparr>
         else if status = Some 403 \<and> isRateLimitMessage message then
           \<lparr>mf_terminal = False,
            mf_reason = ''merge rate-limited (403 '' @ em_dash @ '' secondary rate limit, self-healing window): '' @ message,
            mf_scope = ScopeInfra\<rparr>
         else if status = Some 403 \<and> isConvergenceForbiddenMessage message then
           \<lparr>mf_terminal = False,
            mf_reason = ''merge forbidden for now (403 '' @ em_dash @
              '' branch protection or GitHub permission visibility may still be converging): '' @ message,
            mf_scope = ScopeInfra\<rparr>
         else if status = Some 403 then
           \<lparr>mf_terminal = True, mf_reason = ''merge forbidden (403): '' @ message, mf_scope = ScopeCommit\<rparr>
         else if status = Some 405 \<and> isBaseBranchMovedMessage message then
           \<lparr>mf_terminal = False, mf_reason = ''base branch moved during merge '' @ em_dash @ '' retrying: '' @ message,
            mf_scope = ScopeCommit\<rparr>
         else if status = Some 405 \<and> isMergeAlreadyInProgressMessage message then
           \<lparr>mf_terminal = False,
            mf_reason = ''a merge for this PR was already in progress '' @ em_dash @ '' retrying: '' @ message,
            mf_scope = ScopeCommit\<rparr>
         else if status = Some 405 then
           \<lparr>mf_terminal = True,
            mf_reason = ''merge not allowed (405 '' @ em_dash @ '' repo merge policy forbids an automated merge): '' @ message,
            mf_scope = ScopeCommit\<rparr>
         else if status = Some 409 then
           \<lparr>mf_terminal = True, mf_reason = ''merge conflict / required check absent (409): '' @ message, mf_scope = ScopeCommit\<rparr>
         else if isMergeConflictMessage message then
           \<lparr>mf_terminal = True, mf_reason = ''branch conflicts with base '' @ em_dash @ '' contributor must rebase: '' @ message,
            mf_scope = ScopeCommit\<rparr>
         else \<lparr>mf_terminal = False, mf_reason = message, mf_scope = ScopeCommit\<rparr>)"

text \<open>The columns of a pull request's row that record failed merges.\<close>

record merge_row =
  mr_headSha :: "string option"
  mr_mergeAttemptCount :: nat
  mr_mergeBlockedSha :: "string option"
  mr_mergeBlockedReason :: "string option"
  mr_mergeBlockedUntil :: "string option"

definition isMergeBlockInEffect ::
  "(string \<Rightarrow> jsnum) \<Rightarrow> 'a merge_row_scheme \<Rightarrow> string option \<Rightarrow> jsnum \<Rightarrow> bool" where
  "isMergeBlockInEffect parse_date block headSha nowMs =
     (if mr_mergeBlockedSha block = None \<or> headSha = None \<or> mr_mergeBlockedSha block \<noteq> headSha then False
      else case mr_mergeBlockedUntil block of
             None \<Rightarrow> True
           | Some until \<Rightarrow> let expiry = parse_date until in isFinite expiry \<and> num_lt nowMs expiry)"

definition activeMergeBlockedSha ::
  "(string \<Rightarrow> jsnum) \<Rightarrow> 'a merge_row_scheme \<Rightarrow> string option \<Rightarrow> jsnum \<Rightarrow> string option" where
  "activeMergeBlockedSha parse_date block headSha nowMs =
     (if isMergeBlockInEffect parse_date block headSha nowMs then mr_mergeBlockedSha block else None)"

definition bumpPullRequestMergeAttempt :: "string \<Rightarrow> merge_row \<Rightarrow> merge_row \<times> nat" where
  "bumpPullRequestMergeAttempt headSha row =
     (let row' = (if mr_headSha row = Some headSha then row \<lparr>mr_mergeAttemptCount := mr_mergeAttemptCount row + 1\<rparr> else row)
      in (row', mr_mergeAttemptCount row'))"

definition markPullRequestMergeBlocked :: "string \<Rightarrow> string \<Rightarrow> string option \<Rightarrow> merge_row \<Rightarrow> merge_row" where
  "markPullRequestMergeBlocked headSha reason expiresAt row =
     (if mr_headSha row = Some headSha
      then row \<lparr>mr_mergeBlockedSha := Some headSha, mr_mergeBlockedReason := Some (take 280 reason),
                mr_mergeBlockedUntil := expiresAt,
                mr_mergeAttemptCount := (if expiresAt \<noteq> None then 0 else mr_mergeAttemptCount row)\<rparr>
      else row)"

definition handleMergeFailure ::
  "(jsnum \<Rightarrow> string) \<Rightarrow> string option \<Rightarrow> jsnum \<Rightarrow> merge_error \<Rightarrow> merge_row \<Rightarrow> merge_row" where
  "handleMergeFailure show_date ctxHeadSha nowMs error row =
     (case ctxHeadSha of
        None \<Rightarrow> row
      | Some headSha \<Rightarrow>
          if headSha = [] then row
          else
            let f = classifyMergeFailure error;
                (row1, attempts) = (if mf_terminal f then (row, 0) else bumpPullRequestMergeAttempt headSha row);
                exhausted = (\<not> mf_terminal f \<and> MERGE_RETRY_CAP \<le> attempts);
                reason = (if exhausted
                          then ''merge could not complete after '' @ show_nat attempts @ '' attempt(s): '' @ er_message error
                          else mf_reason f)
            in if \<not> mf_terminal f \<and> \<not> exhausted then row1
               else markPullRequestMergeBlocked headSha reason
                      (if mf_scope f = ScopeInfra then Some (show_date (num_add nowMs INFRA_MERGE_BLOCK_TTL_MS)) else None) row1)"

text \<open>
  The part of the webhook's \<open>upsertPullRequestFromGitHub\<close> that touches these columns: the head is overwritten when the
  payload carries one, and a real change of head starts the count of failed merges afresh.
\<close>

definition syncPullRequestHead :: "string option \<Rightarrow> merge_row \<Rightarrow> merge_row" where
  "syncPullRequestHead resolvedHeadSha row =
     (let headShaChanged = (resolvedHeadSha \<noteq> None \<and> resolvedHeadSha \<noteq> mr_headSha row);
          row1 = (if resolvedHeadSha \<noteq> None then row \<lparr>mr_headSha := resolvedHeadSha\<rparr> else row)
      in if headShaChanged then row1 \<lparr>mr_mergeAttemptCount := 0\<rparr> else row1)"

text \<open>
  How a pull request's row evolves: the webhook syncs the head, or a merge that no block suppressed fails. The merge may
  have been planned for a head the row no longer has.
\<close>

inductive merge_step :: "(string \<Rightarrow> jsnum) \<Rightarrow> (jsnum \<Rightarrow> string) \<Rightarrow> merge_row \<Rightarrow> merge_row \<Rightarrow> bool"
  for parse_date :: "string \<Rightarrow> jsnum" and show_date :: "jsnum \<Rightarrow> string" where
  sync_head: "merge_step parse_date show_date row (syncPullRequestHead h row)"
| merge_fails: "activeMergeBlockedSha parse_date row (Some h) planned = None \<Longrightarrow>
    merge_step parse_date show_date row (handleMergeFailure show_date (Some h) now error row)"


section \<open>Properties of the merge train\<close>

text \<open>The train's view of a pull request deciding about itself.\<close>

definition train_input :: "MergeTrainSibling \<Rightarrow> MergeTrainSibling list \<Rightarrow> jsnum \<Rightarrow> ShouldWaitForOlderSiblingsInput" where
  "train_input pr others nowMs =
     \<lparr>wt_thisPrNumber = mt_number pr, wt_thisPrCreatedAt = mt_createdAt pr,
      wt_thisPrLinkedIssues = or_default (mt_linkedIssues pr) [], wt_thisPrChangedFiles = mt_changedFiles pr,
      wt_siblings = others, wt_nowMs = nowMs\<rparr>"

text \<open>What a wait means, written without the filter and the sort: an older pull request, still able to merge, on the same issue
  or file, and young enough to be waited for.\<close>

definition holds_up ::
  "(string \<Rightarrow> bool) \<Rightarrow> (string \<Rightarrow> jsnum) \<Rightarrow> jsnum \<Rightarrow> MergeTrainSibling \<Rightarrow> MergeTrainSibling \<Rightarrow> bool" where
  "holds_up isLockfile parse_date nowMs older pr \<longleftrightarrow>
     mt_number older \<noteq> mt_number pr \<and> isOlder parse_date (mt_createdAt pr) (mt_number pr) older \<and>
     mt_mergeableState older \<notin> {Some ''dirty'', Some ''draft''} \<and> \<not> mt_heldForManualReview older \<and> \<not> mt_isDraft older \<and>
     train_overlaps isLockfile (or_default (mt_linkedIssues pr) []) (mt_changedFiles pr) older \<and>
     within_cap parse_date nowMs older"

lemma set_train_viable:
  "set (train_viable isLockfile parse_date (train_input pr others nowMs)) =
     {s \<in> set others. holds_up isLockfile parse_date nowMs s pr}"
  by (auto simp: train_viable_def train_input_def holds_up_def)

lemma train_viable_sorted: "sorted (map mt_number (train_viable isLockfile parse_date input))"
  by (simp add: train_viable_def)

lemma waits_Cons:
  "shouldWaitForOlderSiblings isLockfile parse_date input = TrainWait b q \<longleftrightarrow>
     q = map mt_number (train_viable isLockfile parse_date input) \<and> q \<noteq> [] \<and> b = hd q"
  by (auto simp: shouldWaitForOlderSiblings_def split: list.split)

lemma goes_iff:
  "shouldWaitForOlderSiblings isLockfile parse_date (train_input pr others nowMs) = TrainGo \<longleftrightarrow>
     (\<forall>s \<in> set others. \<not> holds_up isLockfile parse_date nowMs s pr)"
  using set_train_viable[of isLockfile parse_date pr others nowMs]
  by (auto simp: shouldWaitForOlderSiblings_def split: list.split)

text \<open>With both dates known, ``older'' is the lexicographic order on date and number, so it is well founded on any finite set of
  pull requests.\<close>

definition date_of :: "(string \<Rightarrow> jsnum) \<Rightarrow> MergeTrainSibling \<Rightarrow> rat" where
  "date_of parse_date pr = (case created_ms parse_date (mt_createdAt pr) of Fin q \<Rightarrow> q | _ \<Rightarrow> 0)"

lemma isOlder_lex:
  assumes "isFinite (created_ms parse_date (mt_createdAt s))" "isFinite (created_ms parse_date (mt_createdAt pr))"
  shows "isOlder parse_date (mt_createdAt pr) (mt_number pr) s \<longleftrightarrow>
           date_of parse_date s < date_of parse_date pr \<or>
           date_of parse_date s = date_of parse_date pr \<and> mt_number s < mt_number pr"
  using assms by (auto simp: isOlder_def date_of_def Let_def isFinite_iff)

lemma oldest_exists:
  fixes prs :: "MergeTrainSibling list"
  assumes "prs \<noteq> []"
  obtains pr where "pr \<in> set prs"
    and "\<And>s. s \<in> set prs \<Longrightarrow>
           \<not> (date_of parse_date s < date_of parse_date pr \<or>
              date_of parse_date s = date_of parse_date pr \<and> mt_number s < mt_number pr)"
proof -
  let ?key = "\<lambda>p. (date_of parse_date p, mt_number p)"
  define d where "d = Min (date_of parse_date ` set prs)"
  let ?S = "{p \<in> set prs. date_of parse_date p = d}"
  have "d \<in> date_of parse_date ` set prs" unfolding d_def by (rule Min_in) (use assms in auto)
  then have ne: "?S \<noteq> {}" by auto
  define n where "n = Min (mt_number ` ?S)"
  have "n \<in> mt_number ` ?S" unfolding n_def by (rule Min_in) (use ne in auto)
  then obtain pr where pr: "pr \<in> ?S" "mt_number pr = n" by auto
  have min_d: "d \<le> date_of parse_date s" if "s \<in> set prs" for s unfolding d_def using that by (intro Min_le) auto
  have min_n: "n \<le> mt_number s" if "s \<in> ?S" for s unfolding n_def using that by (intro Min_le) auto
  show thesis
  proof (rule that)
    show "pr \<in> set prs" using pr by simp
    fix s assume "s \<in> set prs"
    then show "\<not> (date_of parse_date s < date_of parse_date pr \<or>
              date_of parse_date s = date_of parse_date pr \<and> mt_number s < mt_number pr)"
      using min_d[of s] min_n[of s] pr by auto
  qed
qed

text \<open>A pull request waits exactly when some sibling holds it up; the queue it reports is the holding others' numbers in
  ascending order, and the pull request it names as blocking is the least of them.\<close>

theorem train_waits_exactly:
  fixes isLockfile :: "string \<Rightarrow> bool" and parse_date :: "string \<Rightarrow> jsnum" and nowMs :: jsnum
    and pr :: MergeTrainSibling and others :: "MergeTrainSibling list"
  defines "Q \<equiv> {s \<in> set others. holds_up isLockfile parse_date nowMs s pr}"
  shows "case shouldWaitForOlderSiblings isLockfile parse_date (train_input pr others nowMs) of
           TrainGo \<Rightarrow> Q = {}
         | TrainWait b q \<Rightarrow> Q \<noteq> {} \<and> set q = mt_number ` Q \<and> sorted q \<and> b = Min (mt_number ` Q)"
proof (cases "shouldWaitForOlderSiblings isLockfile parse_date (train_input pr others nowMs)")
  case (TrainWait b q)
  let ?v = "train_viable isLockfile parse_date (train_input pr others nowMs)"
  have q: "q = map mt_number ?v" "q \<noteq> []" "b = hd q" using TrainWait by (auto simp: waits_Cons)
  have setq: "set q = mt_number ` Q" using q(1) unfolding Q_def set_train_viable[symmetric] by simp
  have srt: "sorted q" unfolding q(1) by (rule train_viable_sorted)
  have "b = Min (set q)"
    using q(2,3) srt by (cases q) (auto simp: Min_insert2 intro!: Min_eqI[symmetric])
  then show ?thesis using TrainWait setq srt q(2) by auto
next
  case TrainGo
  then have "Q = {}" by (auto simp: goes_iff Q_def)
  then show ?thesis by (simp add: TrainGo)
qed

text \<open>The train never deadlocks: among any open pull requests whose creation dates are known, at least one, the oldest, does not
  wait for any other, whatever overlaps what.\<close>

theorem train_never_deadlocks:
  assumes "prs \<noteq> []"
    and dates: "\<forall>p \<in> set prs. isFinite (created_ms parse_date (mt_createdAt p))"
  shows "\<exists>pr \<in> set prs. shouldWaitForOlderSiblings isLockfile parse_date (train_input pr prs nowMs) = TrainGo"
proof -
  obtain pr where pr: "pr \<in> set prs" and least: "\<And>s. s \<in> set prs \<Longrightarrow>
      \<not> (date_of parse_date s < date_of parse_date pr \<or>
         date_of parse_date s = date_of parse_date pr \<and> mt_number s < mt_number pr)"
    using oldest_exists[OF assms(1)] by blast
  have "\<not> holds_up isLockfile parse_date nowMs s pr" if "s \<in> set prs" for s
    using least[OF that] isOlder_lex[of parse_date s pr] dates pr that by (auto simp: holds_up_def)
  then show ?thesis using pr by (auto simp: goes_iff)
qed

text \<open>At a concrete repository: the younger of two pull requests on one file waits, the older one goes.\<close>

definition train_pr :: "nat \<Rightarrow> string \<Rightarrow> MergeTrainSibling" where
  "train_pr n created =
     \<lparr>mt_number = n, mt_createdAt = Some created, mt_mergeableState = Some ''clean'', mt_linkedIssues = Some [],
      mt_changedFiles = Some [''src/a.ts''], mt_heldForManualReview = False, mt_isDraft = False\<rparr>"

definition sample_clock :: "string \<Rightarrow> jsnum" where
  "sample_clock s = Fin (of_nat (length s))"

theorem train_never_deadlocks_witness:
  "(\<exists>pr \<in> set [train_pr 7 ''b'', train_pr 4 ''bb''].
      shouldWaitForOlderSiblings (\<lambda>_. False) sample_clock (train_input pr [train_pr 7 ''b'', train_pr 4 ''bb''] (Fin 9)) = TrainGo) \<and>
   shouldWaitForOlderSiblings (\<lambda>_. False) sample_clock
     (train_input (train_pr 4 ''bb'') [train_pr 7 ''b'', train_pr 4 ''bb''] (Fin 9)) = TrainWait 7 [7]"
  using train_never_deadlocks[of "[train_pr 7 ''b'', train_pr 4 ''bb'']" sample_clock "\<lambda>_. False" "Fin 9"]
  by (simp add: train_pr_def sample_clock_def created_ms_def shouldWaitForOlderSiblings_def train_viable_def train_input_def
      isOlder_def within_cap_def train_overlaps_def isMeaningfulPath_def low_signal_dir_def LOW_SIGNAL_DIRS_def
      MERGE_TRAIN_MAX_WAIT_MS_def num_of_rat_small Let_def) code_simp


section \<open>Properties of failed merges\<close>

lemma classify_infra_code:
  "mf_scope (classifyMergeFailure error) = ScopeInfra \<Longrightarrow> er_status error \<in> {Some 401, Some 429, Some 403}"
  by (auto simp: classifyMergeFailure_def Let_def split: if_splits simp del: append.simps)

text \<open>
  A failed merge of the row's own head. A terminal failure, and the last attempt the cap allows, put a block into effect for that
  head and no other: for good when the cause is the commit, until the re-probe instant when it is the installation, and then with
  the attempts counted from zero again. Every other failure only counts one attempt.
\<close>

theorem failed_merge_outcome:
  fixes row :: merge_row and error :: merge_error and h :: string and nowMs :: jsnum and show_date :: "jsnum \<Rightarrow> string"
  defines "f \<equiv> classifyMergeFailure error" and "n \<equiv> Suc (mr_mergeAttemptCount row)"
  defines "row' \<equiv> handleMergeFailure show_date (Some h) nowMs error row"
  assumes "mr_headSha row = Some h" "h \<noteq> []"
    and date_roundtrip: "parse_date (show_date (num_add nowMs INFRA_MERGE_BLOCK_TTL_MS)) = Fin e"
  shows "if mf_terminal f \<or> MERGE_RETRY_CAP \<le> n
         then (\<forall>head t. isMergeBlockInEffect parse_date row' (Some head) t \<longleftrightarrow>
                 head = h \<and> (mf_scope f = ScopeCommit \<or> num_lt t (Fin e))) \<and>
              mr_mergeAttemptCount row' =
                (if mf_scope f = ScopeInfra then 0 else if mf_terminal f then mr_mergeAttemptCount row else n)
         else row' = row \<lparr>mr_mergeAttemptCount := n\<rparr>"
  using assms(4-6) MergeFailureScope.exhaust[of "mf_scope f"]
  by (cases "mf_terminal f"; cases "mf_scope f")
     (auto simp: row'_def n_def f_def[symmetric] handleMergeFailure_def bumpPullRequestMergeAttempt_def
        markPullRequestMergeBlocked_def isMergeBlockInEffect_def Let_def)

theorem failed_merge_outcome_witness:
  fixes row0 :: merge_row
  defines "row0 \<equiv> \<lparr>mr_headSha = Some ''abc'', mr_mergeAttemptCount = 4, mr_mergeBlockedSha = None,
                     mr_mergeBlockedReason = None, mr_mergeBlockedUntil = None\<rparr>"
  shows "isMergeBlockInEffect (\<lambda>_. Fin 1800007)
           (handleMergeFailure (\<lambda>_. ''later'') (Some ''abc'') (Fin 7) \<lparr>er_status = Some 502, er_message = ''bad gateway''\<rparr> row0)
           (Some ''abc'') (Fin 9000000)"
  using failed_merge_outcome[of row0 "''abc''" "\<lambda>_. Fin 1800007" "\<lambda>_. ''later''" "Fin 7" 1800007
      "\<lparr>er_status = Some 502, er_message = ''bad gateway''\<rparr>"]
  by (simp add: row0_def MERGE_RETRY_CAP_def classifyMergeFailure_def Let_def split: if_splits)

text \<open>The budget of retries: the invariant of every row the executor and the webhook can produce.\<close>

definition merge_budget :: "merge_row \<Rightarrow> bool" where
  "merge_budget row \<longleftrightarrow>
     mr_mergeAttemptCount row < MERGE_RETRY_CAP \<or>
     mr_mergeAttemptCount row = MERGE_RETRY_CAP \<and> mr_headSha row \<noteq> None \<and>
     mr_mergeBlockedSha row = mr_headSha row \<and> mr_mergeBlockedUntil row = None"

lemma cap_positive: "0 < MERGE_RETRY_CAP"
  by (simp add: MERGE_RETRY_CAP_def)

lemma merge_budget_sync:
  assumes "merge_budget row" shows "merge_budget (syncPullRequestHead h row)"
  using assms cap_positive by (auto simp: merge_budget_def syncPullRequestHead_def Let_def)

lemma merge_budget_fail:
  assumes inv: "merge_budget row" and free: "activeMergeBlockedSha parse_date row (Some h) planned = None"
  shows "merge_budget (handleMergeFailure show_date (Some h) nowMs error row)"
proof (cases "mr_headSha row = Some h")
  case True
  then have "mr_mergeAttemptCount row < MERGE_RETRY_CAP"
    using inv free by (auto simp: merge_budget_def activeMergeBlockedSha_def isMergeBlockInEffect_def split: if_splits)
  then show ?thesis
    using True cap_positive
    by (auto simp: merge_budget_def handleMergeFailure_def bumpPullRequestMergeAttempt_def markPullRequestMergeBlocked_def Let_def)
next
  case False
  then have "handleMergeFailure show_date (Some h) nowMs error row = row"
    by (simp add: handleMergeFailure_def bumpPullRequestMergeAttempt_def markPullRequestMergeBlocked_def Let_def)
  with inv show ?thesis by simp
qed

lemma merge_budget_step: "merge_step parse_date show_date row row' \<Longrightarrow> merge_budget row \<Longrightarrow> merge_budget row'"
  by (induction rule: merge_step.induct) (auto intro: merge_budget_sync merge_budget_fail)

text \<open>
  However pushes and failed merges interleave, the retries of one head are bounded: starting from a pull request with no failed merge,
  the count never passes the cap, and when it reaches the cap a block is in effect for the current head at every later instant, so
  the planner does not try that commit again.
\<close>

theorem merge_retries_are_bounded:
  assumes "(merge_step parse_date show_date)\<^sup>*\<^sup>* row0 row" "mr_mergeAttemptCount row0 = 0"
  shows "mr_mergeAttemptCount row \<le> MERGE_RETRY_CAP \<and>
         (mr_mergeAttemptCount row = MERGE_RETRY_CAP \<longrightarrow>
            (\<forall>t. activeMergeBlockedSha parse_date row (mr_headSha row) t = mr_headSha row \<and> mr_headSha row \<noteq> None))"
proof -
  have "merge_budget row"
    using assms(1)
  proof (induction rule: rtranclp_induct)
    case base
    then show ?case using assms(2) cap_positive by (simp add: merge_budget_def)
  next
    case (step y z)
    then show ?case by (blast intro: merge_budget_step)
  qed
  then show ?thesis
    by (auto simp: merge_budget_def activeMergeBlockedSha_def isMergeBlockInEffect_def)
qed

theorem merge_retries_are_bounded_witness:
  fixes fresh :: merge_row and fail :: "merge_row \<Rightarrow> merge_row"
  defines "fresh \<equiv> \<lparr>mr_headSha = Some ''abc'', mr_mergeAttemptCount = 0, mr_mergeBlockedSha = None,
                      mr_mergeBlockedReason = None, mr_mergeBlockedUntil = None\<rparr>"
  defines "fail \<equiv> handleMergeFailure (\<lambda>_. []) (Some ''abc'') (Fin 0) \<lparr>er_status = Some 502, er_message = ''bad gateway''\<rparr>"
  shows "activeMergeBlockedSha (\<lambda>_. NaN) ((fail ^^ 5) fresh) (Some ''abc'') PInf = Some ''abc''"
proof -
  have step: "merge_step (\<lambda>_. NaN) (\<lambda>_. []) row (fail row)"
    if "activeMergeBlockedSha (\<lambda>_. NaN) row (Some ''abc'') (Fin 0) = None" for row
    unfolding fail_def by (rule merge_fails[OF that])
  have transient: "classifyMergeFailure \<lparr>er_status = Some 502, er_message = ''bad gateway''\<rparr> =
      \<lparr>mf_terminal = False, mf_reason = ''bad gateway'', mf_scope = ScopeCommit\<rparr>"
    by code_simp
  have count: "(fail ^^ k) fresh = fresh \<lparr>mr_mergeAttemptCount := k\<rparr>" if "k \<le> 4" for k
    using that
    by (induction k) (auto simp: fail_def fresh_def handleMergeFailure_def bumpPullRequestMergeAttempt_def MERGE_RETRY_CAP_def transient)
  have "(merge_step (\<lambda>_. NaN) (\<lambda>_. []))\<^sup>*\<^sup>* fresh ((fail ^^ k) fresh)" if "k \<le> 5" for k
    using that
  proof (induction k)
    case (Suc k)
    have "merge_step (\<lambda>_. NaN) (\<lambda>_. []) ((fail ^^ k) fresh) (fail ((fail ^^ k) fresh))"
    proof (rule step)
      have "k \<le> 4" using Suc(2) by simp
      show "activeMergeBlockedSha (\<lambda>_. NaN) ((fail ^^ k) fresh) (Some ''abc'') (Fin 0) = None"
        unfolding count[OF \<open>k \<le> 4\<close>] by (simp add: fresh_def activeMergeBlockedSha_def isMergeBlockInEffect_def)
    qed
    with Suc show ?case by simp
  qed simp
  from merge_retries_are_bounded[OF this[of 5]] have
    "mr_mergeAttemptCount ((fail ^^ 5) fresh) = MERGE_RETRY_CAP \<longrightarrow>
       activeMergeBlockedSha (\<lambda>_. NaN) ((fail ^^ 5) fresh) (mr_headSha ((fail ^^ 5) fresh)) PInf = mr_headSha ((fail ^^ 5) fresh)"
    by (simp add: fresh_def)
  moreover have "(fail ^^ 5) fresh = fail (fresh \<lparr>mr_mergeAttemptCount := 4\<rparr>)"
    using count[of 4] by (simp add: eval_nat_numeral)
  then have "mr_mergeAttemptCount ((fail ^^ 5) fresh) = MERGE_RETRY_CAP" "mr_headSha ((fail ^^ 5) fresh) = Some ''abc''"
    by (simp_all add: fail_def fresh_def handleMergeFailure_def bumpPullRequestMergeAttempt_def MERGE_RETRY_CAP_def transient
          markPullRequestMergeBlocked_def)
  ultimately show ?thesis by simp
qed

text \<open>
  A sibling whose creation date is unknown or does not parse is waited for at every later instant: the escape hatch of 24 hours does
  not apply to it.
\<close>

theorem undated_sibling_holds_up_forever:
  "\<forall>nowMs. shouldWaitForOlderSiblings (\<lambda>_. False) (\<lambda>_. NaN) (train_input (train_pr 9 ''d'') [train_pr 4 ''d''] nowMs) = TrainWait 4 [4]"
  by (simp add: train_pr_def created_ms_def shouldWaitForOlderSiblings_def train_viable_def train_input_def
      isOlder_def within_cap_def train_overlaps_def isMeaningfulPath_def low_signal_dir_def Let_def) code_simp

end
