(* ===== verification/Agent_Executor.thy ===== *)
theory Agent_Executor
  imports Agent_Actions Merge_Train "HOL-Library.AList"
begin

text \<open>
  The executor of the planned actions: the action mode and the permissions of \<open>src/settings/agent-execution.ts\<close>, the
  freshness check of \<open>src/github/pr-freshness.ts\<close>, the approval queue's row (\<open>createPendingAgentActionIfAbsent\<close> of
  \<open>src/db/repositories.ts\<close>) and \<open>src/services/agent-action-executor.ts\<close>: the stack of guards every action passes before
  GitHub is called, the call itself, and the outcomes it returns.

  GitHub is a parameter: the record \<open>live_answers\<close> holds what it answers while one action is carried out, and the
  executor is given one such record per position of the plan, so every interleaving of outside changes is covered.
  Calls sent are recorded in order in the state. The state also has the pull request's approval-queue rows, the columns of
  its row the executor writes and the cooldown of permission denials. Audit events are kept only as the outcomes the
  executor returns (writing one is assumed to succeed); notifications, decision records, cancelled workflow runs, metrics
  and the escalation of moderation violations are left out, since nothing here reads them back.
\<close>

section \<open>Action mode and permissions\<close>

datatype AgentActionMode = AgentPaused | AgentDryRun | AgentLive

definition isGlobalAgentPause :: "string option \<Rightarrow> bool" where
  "isGlobalAgentPause flag \<longleftrightarrow> toLowerCase (or_default flag []) \<in> set [''1'', ''true'', ''yes'', ''on'']"

definition forcedSelfhostMode :: "string option \<Rightarrow> AgentActionMode option" where
  "forcedSelfhostMode deployment =
     (let m = toLowerCase (trim (or_default deployment []))
      in if m = ''disabled'' then Some AgentPaused
         else if m = ''dry-run'' \<or> m = ''dry_run'' then Some AgentDryRun else None)"

definition resolveAgentActionMode ::
  "bool \<Rightarrow> bool \<Rightarrow> bool \<Rightarrow> AgentActionMode option \<Rightarrow> AgentActionMode" where
  "resolveAgentActionMode globalPaused agentPaused agentDryRun instanceMode =
     (if globalPaused \<or> agentPaused \<or> instanceMode = Some AgentPaused then AgentPaused
      else if agentDryRun \<or> instanceMode = Some AgentDryRun then AgentDryRun
      else AgentLive)"

definition PR_WRITE_ACTION_CLASSES :: "AgentActionClass list" where
  "PR_WRITE_ACTION_CLASSES = [ClassReview, ClassRequestChanges, ClassApprove, ClassClose, ClassUpdateBranch]"

definition CONTENTS_WRITE_ACTION_CLASSES :: "AgentActionClass list" where
  "CONTENTS_WRITE_ACTION_CLASSES = [ClassMerge]"

definition STRUCTURED_CLOSE_REASONS_MAX_COUNT :: nat where
  "STRUCTURED_CLOSE_REASONS_MAX_COUNT = 20"

definition boundStructuredCloseReasonsForPersistence :: "'a list \<Rightarrow> 'a list" where
  "boundStructuredCloseReasonsForPersistence closeReasons =
     (if length closeReasons > STRUCTURED_CLOSE_REASONS_MAX_COUNT
      then take STRUCTURED_CLOSE_REASONS_MAX_COUNT closeReasons else closeReasons)"

text \<open>A requirement is the name of a permission; the access required is always \<open>write\<close>.\<close>

definition addRequirementOnce :: "string list \<Rightarrow> string \<Rightarrow> string list" where
  "addRequirementOnce requirements permission =
     (if permission \<in> set requirements then requirements else requirements @ [permission])"

definition require_class :: "AutonomyPolicy option \<Rightarrow> AgentActionClass \<Rightarrow> string list \<Rightarrow> string list" where
  "require_class autonomy candidate requirements =
     (if \<not> isActingAutonomyLevel (resolveAutonomy autonomy candidate) then requirements
      else
        let r1 = (if candidate \<in> set PR_WRITE_ACTION_CLASSES then addRequirementOnce requirements ''pull_requests'' else requirements)
        in if candidate \<in> set CONTENTS_WRITE_ACTION_CLASSES then addRequirementOnce r1 ''contents'' else r1)"

definition requiredAgentActionPermissions :: "AutonomyPolicy option \<Rightarrow> AgentActionClass option \<Rightarrow> string list" where
  "requiredAgentActionPermissions autonomy actionClass =
     fold (require_class autonomy)
       (case actionClass of Some c \<Rightarrow> [c] | None \<Rightarrow> PR_WRITE_ACTION_CLASSES @ CONTENTS_WRITE_ACTION_CLASSES) []"

type_synonym permissions = "(string \<rightharpoonup> string) option"

definition missingAgentActionPermissions ::
  "AutonomyPolicy option \<Rightarrow> permissions \<Rightarrow> AgentActionClass option \<Rightarrow> string list" where
  "missingAgentActionPermissions autonomy installationPermissions actionClass =
     filter (\<lambda>permission. (case installationPermissions of None \<Rightarrow> None | Some p \<Rightarrow> p permission) \<noteq> Some ''write'')
       (requiredAgentActionPermissions autonomy actionClass)"

definition formatAgentPermissionDenial ::
  "AutonomyPolicy option \<Rightarrow> permissions \<Rightarrow> AgentActionClass option \<Rightarrow> bool \<Rightarrow> string" where
  "formatAgentPermissionDenial autonomy installationPermissions actionClass suppressed =
     (let missing = missingAgentActionPermissions autonomy installationPermissions actionClass
      in (if length missing > 0 then str_join '', '' (map (\<lambda>permission. permission @ '': write'') missing)
          else ''required GitHub App permission'') @
         '' not granted '' @ em_dash @ '' maintainer must re-consent'' @ (if suppressed then '' (suppressed repeat)'' else []))"

datatype AgentPermissionReadiness = PermissionNotRequired | PermissionReady | ReconsentRequired

definition resolveAgentPermissionReadiness ::
  "AutonomyPolicy option \<Rightarrow> permissions \<Rightarrow> AgentActionClass option \<Rightarrow> AgentPermissionReadiness" where
  "resolveAgentPermissionReadiness autonomy installationPermissions actionClass =
     (if length (requiredAgentActionPermissions autonomy actionClass) = 0 then PermissionNotRequired
      else if length (missingAgentActionPermissions autonomy installationPermissions actionClass) = 0 then PermissionReady
      else ReconsentRequired)"


section \<open>Freshness\<close>

text \<open>The fields of GitHub's payload that are read. \<open>lp_state\<close> is \<open>None\<close> when it is not a string.\<close>

record live_pull =
  lp_state :: "string option"
  lp_headSha :: "string option"
  lp_baseRef :: "string option"
  lp_draft :: bool
  lp_labels :: "string list"

datatype StaleReason = StaleUnavailable | StaleClosed | StaleHeadUnresolved | StaleHeadChanged | StaleNotDraft | StaleBaseChanged

datatype PullRequestFreshness =
    FreshCurrent "string option" string "string list"
  | FreshStale StaleReason "string option" "string option" "string option"

definition normalizedHead :: "string option \<Rightarrow> string option" where
  "normalizedHead value =
     (case value of None \<Rightarrow> None | Some v \<Rightarrow> if trim v = [] then None else Some (toLowerCase (trim v)))"

definition classifyPullRequestFreshness ::
  "live_pull option \<Rightarrow> string option \<Rightarrow> bool \<Rightarrow> string option \<Rightarrow> PullRequestFreshness" where
  "classifyPullRequestFreshness live expectedHeadSha requireDraft expectedBaseRef =
     (let expected = normalizedHead expectedHeadSha
      in case live of
           None \<Rightarrow> FreshStale StaleUnavailable expected None None
         | Some p \<Rightarrow>
             let liveHeadSha = normalizedHead (lp_headSha p); st = or_default (lp_state p) []
             in if st = [] then FreshStale StaleUnavailable expected liveHeadSha None
                else if st \<noteq> ''open'' then FreshStale StaleClosed expected liveHeadSha (Some st)
                else if expected \<noteq> None \<and> liveHeadSha = None then FreshStale StaleHeadUnresolved expected None (Some st)
                else if expected \<noteq> None \<and> liveHeadSha \<noteq> expected then FreshStale StaleHeadChanged expected liveHeadSha (Some st)
                else if or_default expectedBaseRef [] \<noteq> [] \<and> or_default (lp_baseRef p) [] \<noteq> [] \<and>
                        lp_baseRef p \<noteq> expectedBaseRef
                then FreshStale StaleBaseChanged expected liveHeadSha (Some st)
                else if requireDraft \<and> \<not> lp_draft p then FreshStale StaleNotDraft expected liveHeadSha (Some st)
                else FreshCurrent liveHeadSha st (filter (\<lambda>name. name \<noteq> []) (lp_labels p)))"

definition pullRequestFreshnessDetail :: "PullRequestFreshness \<Rightarrow> string" where
  "pullRequestFreshnessDetail result =
     (case result of
        FreshCurrent _ _ _ \<Rightarrow> ''PR is current''
      | FreshStale reason expected liveHead liveState \<Rightarrow>
          (case reason of
             StaleUnavailable \<Rightarrow> ''live PR state could not be verified''
           | StaleClosed \<Rightarrow> ''PR is no longer open (live state: '' @ or_default liveState ''unknown'' @ '')''
           | StaleHeadUnresolved \<Rightarrow> ''live PR head SHA could not be verified''
           | StaleNotDraft \<Rightarrow> ''PR is no longer a draft''
           | StaleBaseChanged \<Rightarrow> ''PR base branch changed since the diff/review/CI it will merge with were computed''
           | StaleHeadChanged \<Rightarrow>
               ''PR head changed from '' @ or_default expected ''unknown'' @ '' to '' @ or_default liveHead ''unknown''))"


section \<open>Denials of the write permission\<close>

definition PR_WRITE_CLASSES :: "AgentActionClass list" where
  "PR_WRITE_CLASSES = [ClassRequestChanges, ClassApprove, ClassMerge, ClassClose, ClassUpdateBranch]"

definition PR_WRITE_DENIAL_COOLDOWN_MS :: jsnum where
  "PR_WRITE_DENIAL_COOLDOWN_MS = Fin (15 * 60 * 1000)"

definition PR_WRITE_DENIAL_COOLDOWN_MAX_ENTRIES :: nat where
  "PR_WRITE_DENIAL_COOLDOWN_MAX_ENTRIES = 1024"

type_synonym denial_cooldown = "(string \<times> jsnum) list"

definition writePermissionDenialKey :: "nat \<Rightarrow> string \<Rightarrow> nat \<Rightarrow> AgentActionClass \<Rightarrow> string" where
  "writePermissionDenialKey installationId repoFullName pullNumber actionClass =
     show_nat installationId @ '':'' @ repoFullName @ '':'' @ show_nat pullNumber @ '':'' @ action_class_name actionClass"

definition pruneWritePermissionDenialCooldown :: "jsnum \<Rightarrow> denial_cooldown \<Rightarrow> denial_cooldown" where
  "pruneWritePermissionDenialCooldown nowMs cd =
     filter (\<lambda>(key, lastDeniedMs). \<not> num_ge (num_sub nowMs lastDeniedMs) PR_WRITE_DENIAL_COOLDOWN_MS) cd"

definition evictOldestWritePermissionDenialCooldownEntry :: "denial_cooldown \<Rightarrow> denial_cooldown" where
  "evictOldestWritePermissionDenialCooldownEntry cd = tl cd"

definition shouldSuppressWritePermissionDenial :: "string \<Rightarrow> jsnum \<Rightarrow> denial_cooldown \<Rightarrow> denial_cooldown \<times> bool" where
  "shouldSuppressWritePermissionDenial key nowMs cd =
     (let cd1 = pruneWritePermissionDenialCooldown nowMs cd
      in (cd1, case map_of cd1 key of
                 None \<Rightarrow> False
               | Some lastDeniedMs \<Rightarrow> num_lt (num_sub nowMs lastDeniedMs) PR_WRITE_DENIAL_COOLDOWN_MS))"

definition markWritePermissionDenialAudited :: "string \<Rightarrow> jsnum \<Rightarrow> denial_cooldown \<Rightarrow> denial_cooldown" where
  "markWritePermissionDenialAudited key nowMs cd =
     (let cd1 = pruneWritePermissionDenialCooldown nowMs cd;
          cd2 = (if length cd1 \<ge> PR_WRITE_DENIAL_COOLDOWN_MAX_ENTRIES
                 then evictOldestWritePermissionDenialCooldownEntry cd1 else cd1)
      in AList.update key nowMs cd2)"


section \<open>The approval queue's row\<close>

record AgentPendingActionParams =
  pq_autonomyClass :: "AgentActionClass option"
  pq_label :: "string option"
  pq_labelOp :: "LabelOp option"
  pq_comment :: "string option"
  pq_reviewBody :: "string option"
  pq_mergeMethod :: "AutoMergeMethod option"
  pq_assignee :: "string option"
  pq_closeComment :: "string option"
  pq_closeReasons :: "string list option"
  pq_expectedHeadSha :: "string option"
  pq_dismissStaleApproval :: "bool option"
  pq_closeKind :: "CloseKind option"
  pq_closeRequiresCiState :: "CloseCiRequirement option"
  pq_closeRequiresMergeableState :: "bool option"
  pq_closeRequiresThreadResolved :: "bool option"
  pq_closeRequiresDuplicateStillOpen :: "bool option"
  pq_duplicateWinnerPrNumber :: "jsnum option"
  pq_closeConcreteEvidence :: "bool option"

definition actionParams :: "PlannedAgentAction \<Rightarrow> AgentPendingActionParams" where
  "actionParams a =
     \<lparr>pq_autonomyClass = pa_autonomyClass a, pq_label = pa_label a, pq_labelOp = pa_labelOp a, pq_comment = pa_comment a,
      pq_reviewBody = pa_reviewBody a, pq_mergeMethod = pa_mergeMethod a, pq_assignee = pa_assignee a,
      pq_closeComment = pa_closeComment a,
      pq_closeReasons = map_option boundStructuredCloseReasonsForPersistence (pa_closeReasons a),
      pq_expectedHeadSha = pa_expectedHeadSha a, pq_dismissStaleApproval = pa_dismissStaleApproval a,
      pq_closeKind = pa_closeKind a, pq_closeRequiresCiState = pa_closeRequiresCiState a,
      pq_closeRequiresMergeableState = pa_closeRequiresMergeableState a,
      pq_closeRequiresThreadResolved = pa_closeRequiresThreadResolved a,
      pq_closeRequiresDuplicateStillOpen = pa_closeRequiresDuplicateStillOpen a,
      pq_duplicateWinnerPrNumber = pa_duplicateWinnerPrNumber a, pq_closeConcreteEvidence = pa_closeConcreteEvidence a\<rparr>"

definition pendingActionToPlanned ::
  "AgentActionClass \<Rightarrow> AgentPendingActionParams \<Rightarrow> string option \<Rightarrow> PlannedAgentAction" where
  "pendingActionToPlanned actionClass q reason =
     (action_of actionClass False (or_default reason ''maintainer-approved''))
       \<lparr>pa_autonomyClass := pq_autonomyClass q, pa_label := pq_label q, pa_labelOp := pq_labelOp q, pa_comment := pq_comment q,
        pa_reviewBody := pq_reviewBody q, pa_mergeMethod := pq_mergeMethod q, pa_assignee := pq_assignee q,
        pa_closeComment := pq_closeComment q, pa_closeReasons := pq_closeReasons q,
        pa_expectedHeadSha := pq_expectedHeadSha q, pa_dismissStaleApproval := pq_dismissStaleApproval q,
        pa_closeKind := pq_closeKind q, pa_closeRequiresCiState := pq_closeRequiresCiState q,
        pa_closeRequiresMergeableState := pq_closeRequiresMergeableState q,
        pa_closeRequiresThreadResolved := pq_closeRequiresThreadResolved q,
        pa_closeRequiresDuplicateStillOpen := pq_closeRequiresDuplicateStillOpen q,
        pa_duplicateWinnerPrNumber := pq_duplicateWinnerPrNumber q, pa_closeConcreteEvidence := pq_closeConcreteEvidence q\<rparr>"

datatype PendingStatus = PendingOpen | PendingAccepted | PendingRejected | PendingErrored | PendingExpired

record pending_action =
  pn_autonomyLevel :: AutonomyLevel
  pn_params :: AgentPendingActionParams
  pn_reason :: string
  pn_status :: PendingStatus

text \<open>The rows of one pull request: the table's unique index leaves at most one per class of action.\<close>

type_synonym approval_queue = "AgentActionClass \<rightharpoonup> pending_action"

definition createPendingAgentActionIfAbsent ::
  "AgentActionClass \<Rightarrow> pending_action \<Rightarrow> approval_queue \<Rightarrow> approval_queue \<times> bool" where
  "createPendingAgentActionIfAbsent actionClass row queue =
     (case queue actionClass of
        None \<Rightarrow> (queue(actionClass \<mapsto> row), True)
      | Some existing \<Rightarrow>
          if pn_status existing = PendingExpired then (queue(actionClass \<mapsto> row), True) else (queue, False))"


section \<open>Context, state and answers\<close>

datatype MergeTrainMode = TrainOff | TrainAudit | TrainEnforce

record AgentActionExecutionContext =
  xc_installationId :: nat
  xc_repoFullName :: string
  xc_pullNumber :: nat
  xc_headSha :: "string option"
  xc_expectedBaseRef :: "string option"
  xc_autonomy :: "AutonomyPolicy option"
  xc_agentPaused :: bool
  xc_agentDryRun :: bool
  xc_installationPermissions :: permissions
  xc_authorLogin :: "string option"
  xc_contributorCapMergeRecheck :: bool
  xc_manualReviewLabel :: "string option option"
  xc_mergeTrainMode :: "MergeTrainMode option"
  xc_pullRequestCreatedAt :: "string option"
  xc_pullRequestLinkedIssues :: "nat list option"
  xc_pullRequestChangedFiles :: "string list option"

datatype ActionOutcome = OutcomeCompleted | OutcomeQueued | OutcomeDenied | OutcomeError | OutcomeDryRun

record AgentActionOutcome =
  oc_actionClass :: AgentActionClass
  oc_outcome :: ActionOutcome
  oc_detail :: string

text \<open>The calls sent to GitHub, with the commit a review, a merge or a branch update is pinned to.\<close>

datatype GitHubCall =
    CallAddLabel string
  | CallRemoveLabel string
  | CallComment string
  | CallRequestChanges string
  | CallApprove string "string option"
  | CallDismissApproval
  | CallMerge AutoMergeMethod "string option"
  | CallCloseComment string
  | CallClose
  | CallUpdateBranch "string option"
  | CallAssign string

record open_pull =
  op_number :: nat
  op_createdAt :: "string option"
  op_mergeableState :: "string option"
  op_linkedIssues :: "nat list"
  op_labels :: "string list"
  op_isDraft :: bool

text \<open>What the outside answers while one action is carried out. \<open>lv_first\<close> and \<open>lv_second\<close> are the errors, if any, of
  its first and second call.\<close>

record live_answers =
  lv_nowMs :: jsnum
  lv_pull :: "live_pull option"
  lv_ciState :: CiState
  lv_mergeState :: "string option"
  lv_threadBlockers :: nat
  lv_winnerState :: "string option"
  lv_siblings :: "open_pull list"
  lv_filePaths :: "nat \<rightharpoonup> string list"
  lv_capLockAcquired :: bool
  lv_stillUnderCap :: bool
  lv_first :: "merge_error option"
  lv_second :: "merge_error option"
  lv_assigneeApplied :: bool

record exec_state =
  es_outcomes :: "AgentActionOutcome list"
  es_calls :: "GitHubCall list"
  es_queue :: approval_queue
  es_row :: merge_row
  es_approvedHeadSha :: "string option"
  es_manualLabelSha :: "string option"
  es_prOutcome :: "string option"
  es_cooldown :: denial_cooldown

record exec_env =
  xe_planner :: planner_env
  xe_isLockfile :: "string \<Rightarrow> bool"
  xe_parse_date :: "string \<Rightarrow> jsnum"
  xe_show_date :: "jsnum \<Rightarrow> string"

definition present :: "string option \<Rightarrow> bool" where
  "present s \<longleftrightarrow> or_default s [] \<noteq> []"

definition AUDIT_REASON_MAX_LENGTH :: nat where
  "AUDIT_REASON_MAX_LENGTH = 280"

definition boundAuditReason :: "string \<Rightarrow> string" where
  "boundAuditReason detail =
     (if length detail > AUDIT_REASON_MAX_LENGTH then take AUDIT_REASON_MAX_LENGTH detail @ ellipsis else detail)"

definition audit :: "PlannedAgentAction \<Rightarrow> ActionOutcome \<Rightarrow> string \<Rightarrow> exec_state \<Rightarrow> exec_state" where
  "audit a result detail s =
     s \<lparr>es_outcomes := es_outcomes s @
          [\<lparr>oc_actionClass = pa_actionClass a, oc_outcome = result, oc_detail = boundAuditReason detail\<rparr>]\<rparr>"

definition outcome_at :: "AgentActionOutcome list \<Rightarrow> nat \<Rightarrow> ActionOutcome option" where
  "outcome_at outcomes i = (if i < length outcomes then Some (oc_outcome (outcomes ! i)) else None)"

definition pendingClosureLabelApplied :: "PlannedAgentAction list \<Rightarrow> AgentActionOutcome list \<Rightarrow> bool" where
  "pendingClosureLabelApplied plan outcomes =
     list_ex (\<lambda>i. pa_actionClass (plan ! i) = ClassLabel \<and> pa_closeKind (plan ! i) = Some KindLinkedIssueHardRule \<and>
                  pa_labelOp (plan ! i) = Some LabelAdd \<and> outcome_at outcomes i = Some OutcomeCompleted)
       [0..<length plan]"

definition coupledCloseOutcome ::
  "PlannedAgentAction list \<Rightarrow> AgentActionOutcome list \<Rightarrow> CloseKind option \<Rightarrow> ActionOutcome option" where
  "coupledCloseOutcome planned outcomes closeKind =
     (case find (\<lambda>i. i < length planned \<and> pa_actionClass (planned ! i) = ClassClose \<and> pa_closeKind (planned ! i) = closeKind)
             [0..<length outcomes] of
        None \<Rightarrow> None | Some i \<Rightarrow> outcome_at outcomes i)"


section \<open>The guards\<close>

text \<open>Each guard is \<open>Some\<close> of the denial it records, or \<open>None\<close> to let the action pass.\<close>

definition pinned_head :: "AgentActionExecutionContext \<Rightarrow> PlannedAgentAction \<Rightarrow> string option" where
  "pinned_head ctx a = (case pa_expectedHeadSha a of Some sha \<Rightarrow> Some sha | None \<Rightarrow> xc_headSha ctx)"

fun outcome_name :: "ActionOutcome \<Rightarrow> string" where
  "outcome_name OutcomeCompleted = ''completed''"
| "outcome_name OutcomeQueued = ''queued''"
| "outcome_name OutcomeDenied = ''denied''"
| "outcome_name OutcomeError = ''error''"
| "outcome_name OutcomeDryRun = ''dry_run''"

fun close_kind_name :: "CloseKind \<Rightarrow> string" where
  "close_kind_name KindLinkedIssueHardRule = ''linked-issue-hard-rule''"
| "close_kind_name KindBlacklist = ''blacklist''"
| "close_kind_name KindContributorCap = ''contributor_cap''"
| "close_kind_name KindReviewNag = ''review_nag''"
| "close_kind_name KindScreenshotTable = ''screenshot_table''"
| "close_kind_name KindHeuristic = ''heuristic''"
| "close_kind_name KindCopycat = ''copycat''"

fun ci_state_name :: "CiState \<Rightarrow> string" where
  "ci_state_name CiStatePassed = ''passed''"
| "ci_state_name CiStateFailed = ''failed''"
| "ci_state_name CiStatePending = ''pending''"
| "ci_state_name CiStateUnverified = ''unverified''"

definition paired_outcome :: "PlannedAgentAction list \<Rightarrow> exec_state \<Rightarrow> PlannedAgentAction \<Rightarrow> ActionOutcome option" where
  "paired_outcome planned s a =
     (if pa_actionClass a = ClassLabel \<and> pa_closeKind a \<noteq> None
      then coupledCloseOutcome planned (es_outcomes s) (pa_closeKind a) else None)"

definition guard_coupled :: "PlannedAgentAction list \<Rightarrow> exec_state \<Rightarrow> PlannedAgentAction \<Rightarrow> string option" where
  "guard_coupled planned s a =
     (case paired_outcome planned s a of
        Some o1 \<Rightarrow>
          if o1 = OutcomeDenied \<or> o1 = OutcomeError
          then Some (''paired '' @ (case pa_closeKind a of Some k \<Rightarrow> close_kind_name k | None \<Rightarrow> []) @ '' close did not complete ('' @
                     outcome_name o1 @ '') '' @ em_dash @ '' skipping the companion label so the PR isn'' @ [CHR 0x27] @
                     ''t mislabeled while still open'')
          else None
      | None \<Rightarrow> None)"

definition guard_fresh ::
  "AgentActionExecutionContext \<Rightarrow> live_answers \<Rightarrow> ActionOutcome option \<Rightarrow> PlannedAgentAction \<Rightarrow> string option" where
  "guard_fresh ctx lv paired a =
     (if pa_actionClass a = ClassLabel \<and> pa_closeKind a \<noteq> None \<and> paired = Some OutcomeCompleted then None
      else if \<not> present (pinned_head ctx a)
      then Some (''live PR head guard unavailable '' @ em_dash @ '' action not executed'')
      else
        let freshness = classifyPullRequestFreshness (lv_pull lv) (pinned_head ctx a) False (xc_expectedBaseRef ctx)
        in case freshness of
             FreshStale _ _ _ _ \<Rightarrow> Some (pullRequestFreshnessDetail freshness @ '' '' @ em_dash @ '' action not executed'')
           | FreshCurrent _ _ liveLabels \<Rightarrow>
               if pa_actionClass a = ClassApprove \<or> pa_actionClass a = ClassMerge
               then (case resolveNullableLabel (xc_manualReviewLabel ctx) AGENT_LABEL_NEEDS_REVIEW of
                       None \<Rightarrow> None
                     | Some manualReviewLabel \<Rightarrow>
                         if hasLabel liveLabels manualReviewLabel
                         then Some (''manual-review label '' @ [CHR 0x22] @ manualReviewLabel @ [CHR 0x22] @
                                    '' is present on the live PR '' @ em_dash @ '' '' @ action_class_name (pa_actionClass a) @
                                    '' not executed'')
                         else None)
               else None)"

definition heuristic_close :: "PlannedAgentAction \<Rightarrow> bool" where
  "heuristic_close a \<longleftrightarrow> pa_actionClass a = ClassClose \<and> pa_closeKind a = Some KindHeuristic"

definition isAmbiguousLegacyHeuristicClose :: "PlannedAgentAction \<Rightarrow> bool" where
  "isAmbiguousLegacyHeuristicClose a \<longleftrightarrow> heuristic_close a \<and> pa_closeRequiresCiState a = None"

definition requiresLiveCiRecheck :: "PlannedAgentAction \<Rightarrow> bool" where
  "requiresLiveCiRecheck a \<longleftrightarrow>
     pa_actionClass a = ClassMerge \<or> (pa_actionClass a = ClassClose \<and> pa_closeRequiresCiState a = Some CiMustBeFailed) \<or>
     isAmbiguousLegacyHeuristicClose a"

text \<open>The requirement \<open>not_required\<close> is never the name of a CI state, so a close that carried it and were rechecked would
  always be stale; no such close is rechecked.\<close>

definition ciStaleReason :: "live_answers \<Rightarrow> PlannedAgentAction \<Rightarrow> string option" where
  "ciStaleReason lv a =
     (if \<not> requiresLiveCiRecheck a then None
      else if pa_actionClass a = ClassMerge
      then (if lv_ciState lv \<noteq> CiStatePassed
            then Some (''live CI is no longer passing (now: '' @ ci_state_name (lv_ciState lv) @ '')'') else None)
      else if or_default (pa_closeRequiresCiState a) CiMustBeFailed = CiMustBeFailed \<and> lv_ciState lv = CiStateFailed then None
      else Some (''CI state changed since planning (now: '' @ ci_state_name (lv_ciState lv) @ '')''))"

definition mergeableStaleReason :: "live_answers \<Rightarrow> PlannedAgentAction \<Rightarrow> string option" where
  "mergeableStaleReason lv a =
     (if heuristic_close a \<and> pa_closeRequiresMergeableState a = Some True \<and> lv_mergeState lv = Some ''clean''
      then Some ''the base-branch conflict that justified this close has since cleared'' else None)"

definition threadStaleReason :: "live_answers \<Rightarrow> PlannedAgentAction \<Rightarrow> string option" where
  "threadStaleReason lv a =
     (if heuristic_close a \<and> pa_closeRequiresThreadResolved a = Some True \<and> lv_threadBlockers lv = 0
      then Some ''the review thread(s) that justified this close are now all resolved'' else None)"

definition duplicateStaleReason :: "exec_env \<Rightarrow> live_answers \<Rightarrow> PlannedAgentAction \<Rightarrow> string option" where
  "duplicateStaleReason E lv a =
     (case pa_duplicateWinnerPrNumber a of
        None \<Rightarrow> None
      | Some winner \<Rightarrow>
          if heuristic_close a \<and> pa_closeRequiresDuplicateStillOpen a = Some True \<and>
             lv_winnerState lv \<noteq> None \<and> lv_winnerState lv \<noteq> Some ''open''
          then Some (''duplicate-cluster winner #'' @ pe_num (xe_planner E) winner @ '' is no longer open'') else None)"

definition approveMergeableStaleReason :: "live_answers \<Rightarrow> PlannedAgentAction \<Rightarrow> string option" where
  "approveMergeableStaleReason lv a =
     (case lv_mergeState lv of
        None \<Rightarrow> None
      | Some st \<Rightarrow>
          if pa_actionClass a = ClassApprove \<and> (st = ''dirty'' \<or> st = ''unstable'')
          then Some (''live mergeable_state is now '' @ [CHR 0x22] @ st @ [CHR 0x22] @ '' '' @ em_dash @
                     '' the planner never approves this state'') else None)"

definition first_reason :: "string option list \<Rightarrow> string option" where
  "first_reason rs = (case filter (\<lambda>r. r \<noteq> None) rs of [] \<Rightarrow> None | r # _ \<Rightarrow> r)"

definition guard_recheck :: "exec_env \<Rightarrow> live_answers \<Rightarrow> PlannedAgentAction \<Rightarrow> string option" where
  "guard_recheck E lv a =
     map_option (\<lambda>staleReason. staleReason @ '' '' @ em_dash @ '' action not executed'')
       (first_reason [ciStaleReason lv a, mergeableStaleReason lv a, threadStaleReason lv a, duplicateStaleReason E lv a,
                      approveMergeableStaleReason lv a])"

definition train_sibling :: "string option \<Rightarrow> (nat \<rightharpoonup> string list) \<Rightarrow> open_pull \<Rightarrow> MergeTrainSibling" where
  "train_sibling manualReviewLabel paths sb =
     \<lparr>mt_number = op_number sb, mt_createdAt = op_createdAt sb, mt_mergeableState = op_mergeableState sb,
      mt_linkedIssues = Some (op_linkedIssues sb), mt_changedFiles = paths (op_number sb),
      mt_heldForManualReview = (case manualReviewLabel of None \<Rightarrow> False | Some l \<Rightarrow> hasLabel (op_labels sb) l),
      mt_isDraft = op_isDraft sb\<rparr>"

definition train_decision :: "exec_env \<Rightarrow> AgentActionExecutionContext \<Rightarrow> live_answers \<Rightarrow> MergeTrainDecision" where
  "train_decision E ctx lv =
     shouldWaitForOlderSiblings (xe_isLockfile E) (xe_parse_date E)
       \<lparr>wt_thisPrNumber = xc_pullNumber ctx, wt_thisPrCreatedAt = xc_pullRequestCreatedAt ctx,
        wt_thisPrLinkedIssues = or_default (xc_pullRequestLinkedIssues ctx) [],
        wt_thisPrChangedFiles = (case lv_filePaths lv (xc_pullNumber ctx) of Some ps \<Rightarrow> Some ps | None \<Rightarrow> xc_pullRequestChangedFiles ctx),
        wt_siblings = map (train_sibling (resolveNullableLabel (xc_manualReviewLabel ctx) AGENT_LABEL_NEEDS_REVIEW) (lv_filePaths lv))
                        (lv_siblings lv),
        wt_nowMs = lv_nowMs lv\<rparr>"

definition guard_train ::
  "exec_env \<Rightarrow> AgentActionExecutionContext \<Rightarrow> live_answers \<Rightarrow> PlannedAgentAction \<Rightarrow> string option" where
  "guard_train E ctx lv a =
     (if pa_actionClass a = ClassMerge \<and> or_default (xc_mergeTrainMode ctx) TrainOff \<noteq> TrainOff
      then (case train_decision E ctx lv of
              TrainGo \<Rightarrow> None
            | TrainWait blockingPr queueAhead \<Rightarrow>
                if xc_mergeTrainMode ctx = Some TrainEnforce
                then Some (''merge train: waiting for older mergeable sibling #'' @ show_nat blockingPr @ '' '' @ em_dash @
                           '' action not executed'')
                else None)
      else None)"

definition guard_cap :: "AgentActionExecutionContext \<Rightarrow> live_answers \<Rightarrow> PlannedAgentAction \<Rightarrow> string option" where
  "guard_cap ctx lv a =
     (if pa_actionClass a = ClassMerge \<and> xc_contributorCapMergeRecheck ctx
      then (let authorLogin = or_default (xc_authorLogin ctx) []
            in if \<not> lv_capLockAcquired lv
               then Some (''contributor cap lock contended for '' @ xc_repoFullName ctx @ '' author '' @ authorLogin @ '' '' @ em_dash @
                          '' action not executed'')
               else if \<not> lv_stillUnderCap lv
               then Some (''contributor cap re-check confirmed '' @ authorLogin @ '' is now over cap on '' @ xc_repoFullName ctx @
                          '' '' @ em_dash @ '' action not executed'')
               else None)
      else None)"


section \<open>Carrying out one action\<close>

definition send :: "GitHubCall \<Rightarrow> exec_state \<Rightarrow> exec_state" where
  "send call s = s \<lparr>es_calls := es_calls s @ [call]\<rparr>"

definition is_manual_label :: "AgentActionExecutionContext \<Rightarrow> PlannedAgentAction \<Rightarrow> bool" where
  "is_manual_label ctx a \<longleftrightarrow>
     (case xc_manualReviewLabel ctx of Some (Some l) \<Rightarrow> l \<noteq> [] \<and> pa_label a = Some l | _ \<Rightarrow> False)"

definition markPullRequestManualReviewLabelApplied :: "string \<Rightarrow> exec_state \<Rightarrow> exec_state" where
  "markPullRequestManualReviewLabelApplied headSha s =
     (if mr_headSha (es_row s) = Some headSha then s \<lparr>es_manualLabelSha := Some headSha\<rparr> else s)"

definition markPullRequestApproved :: "string \<Rightarrow> exec_state \<Rightarrow> exec_state" where
  "markPullRequestApproved headSha s =
     (if mr_headSha (es_row s) = Some headSha then s \<lparr>es_approvedHeadSha := Some headSha\<rparr> else s)"

definition recordTerminalActionOutcome :: "string \<Rightarrow> exec_state \<Rightarrow> exec_state" where
  "recordTerminalActionOutcome decision s =
     (if es_prOutcome s \<noteq> None then s else s \<lparr>es_prOutcome := Some decision\<rparr>)"

definition perform_comment :: "live_answers \<Rightarrow> PlannedAgentAction \<Rightarrow> exec_state \<Rightarrow> exec_state \<times> (merge_error + string option)" where
  "perform_comment lv a s =
     (if present (pa_comment a)
      then (send (CallComment (or_default (pa_comment a) [])) s,
            case lv_second lv of Some e \<Rightarrow> Inl e | None \<Rightarrow> Inr None)
      else (s, Inr None))"

definition perform_label ::
  "AgentActionExecutionContext \<Rightarrow> live_answers \<Rightarrow> PlannedAgentAction \<Rightarrow> exec_state \<Rightarrow> exec_state \<times> (merge_error + string option)" where
  "perform_label ctx lv a s =
     (let label = or_default (pa_label a) [];
          s1 = send (if pa_labelOp a = Some LabelRemove then CallRemoveLabel label else CallAddLabel label) s
      in case lv_first lv of
           Some e \<Rightarrow> (s1, Inl e)
         | None \<Rightarrow>
             perform_comment lv a
               (if pa_labelOp a = Some LabelRemove
                then (if is_manual_label ctx a then s1 \<lparr>es_manualLabelSha := None\<rparr> else s1)
                else if is_manual_label ctx a \<and> present (xc_headSha ctx)
                then markPullRequestManualReviewLabelApplied (or_default (xc_headSha ctx) []) s1 else s1))"

definition perform_close ::
  "live_answers \<Rightarrow> PlannedAgentAction \<Rightarrow> exec_state \<Rightarrow> exec_state \<times> (merge_error + string option)" where
  "perform_close lv a s =
     (let commented = present (pa_closeComment a);
          s1 = (if commented then send (CallCloseComment (or_default (pa_closeComment a) [])) s else s)
      in if commented \<and> lv_first lv \<noteq> None then (s1, Inl (the (lv_first lv)))
         else let s2 = send CallClose s1
              in case (if commented then lv_second lv else lv_first lv) of
                   Some e \<Rightarrow> (s2, Inl e)
                 | None \<Rightarrow> (recordTerminalActionOutcome ''closed'' s2, Inr None))"

definition perform_assign ::
  "live_answers \<Rightarrow> PlannedAgentAction \<Rightarrow> exec_state \<Rightarrow> exec_state \<times> (merge_error + string option)" where
  "perform_assign lv a s =
     (let login = or_default (pa_assignee a) []
      in if login = [] then (s, Inr None)
         else let s1 = send (CallAssign login) s
              in case lv_first lv of
                   Some e \<Rightarrow> (s1, Inl e)
                 | None \<Rightarrow>
                     if lv_assigneeApplied lv then (s1, Inr None)
                     else (send (CallAddLabel (''by:'' @ login)) s1,
                           case lv_second lv of
                             Some e \<Rightarrow> Inl e
                           | None \<Rightarrow> Inr (Some (''assignee refused by GitHub '' @ em_dash @ '' fell back to a by:'' @ login @ '' label''))))"

definition perform_single ::
  "GitHubCall \<Rightarrow> live_answers \<Rightarrow> exec_state \<Rightarrow> exec_state \<times> (merge_error + string option)" where
  "perform_single call lv s = (send call s, case lv_first lv of Some e \<Rightarrow> Inl e | None \<Rightarrow> Inr None)"

definition performAction ::
  "AgentActionExecutionContext \<Rightarrow> live_answers \<Rightarrow> PlannedAgentAction \<Rightarrow> exec_state \<Rightarrow> exec_state \<times> (merge_error + string option)" where
  "performAction ctx lv a s =
     (case pa_actionClass a of
        ClassLabel \<Rightarrow> perform_label ctx lv a s
      | ClassRequestChanges \<Rightarrow> perform_single (CallRequestChanges (or_default (pa_reviewBody a) [])) lv s
      | ClassApprove \<Rightarrow>
          if pa_dismissStaleApproval a = Some True then perform_single CallDismissApproval lv s
          else perform_single (CallApprove (or_default (pa_reviewBody a) []) (pinned_head ctx a)) lv s
      | ClassMerge \<Rightarrow>
          let (s1, r) = perform_single
                (CallMerge (or_default (pa_mergeMethod a) MethodSquash)
                   (if present (pinned_head ctx a) then pinned_head ctx a else None)) lv s
          in (case r of Inl _ \<Rightarrow> s1 | Inr _ \<Rightarrow> recordTerminalActionOutcome ''merged'' s1, r)
      | ClassClose \<Rightarrow> perform_close lv a s
      | ClassUpdateBranch \<Rightarrow> perform_single (CallUpdateBranch (pinned_head ctx a)) lv s
      | ClassAssign \<Rightarrow> perform_assign lv a s
      | ClassReview \<Rightarrow> (s, Inr None)
      | ClassReviewStateLabel \<Rightarrow> (s, Inr None))"

definition performMutation ::
  "exec_env \<Rightarrow> AgentActionExecutionContext \<Rightarrow> live_answers \<Rightarrow> PlannedAgentAction \<Rightarrow> exec_state \<Rightarrow> exec_state" where
  "performMutation E ctx lv a s =
     (let (s1, r) = performAction ctx lv a s
      in case r of
           Inr detailOverride \<Rightarrow>
             let s2 = audit a OutcomeCompleted (or_default detailOverride (pa_reason a)) s1
             in if pa_actionClass a = ClassApprove \<and> pa_dismissStaleApproval a \<noteq> Some True \<and> present (xc_headSha ctx)
                then markPullRequestApproved (or_default (xc_headSha ctx) []) s2 else s2
         | Inl error \<Rightarrow>
             let s2 = audit a OutcomeError (er_message error) s1
             in if pa_actionClass a = ClassMerge \<and> present (xc_headSha ctx)
                then s2 \<lparr>es_row := handleMergeFailure (xe_show_date E) (xc_headSha ctx) (lv_nowMs lv) error (es_row s2)\<rparr>
                else s2)"

definition governing_level :: "AgentActionExecutionContext \<Rightarrow> PlannedAgentAction \<Rightarrow> AutonomyLevel" where
  "governing_level ctx a = resolveAutonomy (xc_autonomy ctx) (or_default (pa_autonomyClass a) (pa_actionClass a))"

definition stageForApproval :: "AgentActionExecutionContext \<Rightarrow> PlannedAgentAction \<Rightarrow> exec_state \<Rightarrow> exec_state \<times> bool" where
  "stageForApproval ctx a s =
     (let (q, created) = createPendingAgentActionIfAbsent (pa_actionClass a)
            \<lparr>pn_autonomyLevel = governing_level ctx a, pn_params = actionParams a, pn_reason = pa_reason a,
             pn_status = PendingOpen\<rparr> (es_queue s)
      in (s \<lparr>es_queue := q\<rparr>, created))"

definition permission_denied :: "AgentActionExecutionContext \<Rightarrow> PlannedAgentAction \<Rightarrow> bool" where
  "permission_denied ctx a \<longleftrightarrow>
     pa_actionClass a \<in> set PR_WRITE_CLASSES \<and>
     resolveAgentPermissionReadiness (xc_autonomy ctx) (xc_installationPermissions ctx) (Some (pa_actionClass a)) \<noteq> PermissionReady"

definition deny_permission ::
  "AgentActionExecutionContext \<Rightarrow> live_answers \<Rightarrow> PlannedAgentAction \<Rightarrow> exec_state \<Rightarrow> exec_state" where
  "deny_permission ctx lv a s =
     (let key = writePermissionDenialKey (xc_installationId ctx) (xc_repoFullName ctx) (xc_pullNumber ctx) (pa_actionClass a);
          (cd, suppress) = shouldSuppressWritePermissionDenial key (lv_nowMs lv) (es_cooldown s);
          denial = formatAgentPermissionDenial (xc_autonomy ctx) (xc_installationPermissions ctx) (Some (pa_actionClass a)) suppress;
          s1 = s \<lparr>es_cooldown := cd\<rparr>
      in if suppress
         then s1 \<lparr>es_outcomes := es_outcomes s1 @
                   [\<lparr>oc_actionClass = pa_actionClass a, oc_outcome = OutcomeDenied, oc_detail = denial\<rparr>]\<rparr>
         else let s2 = audit a OutcomeDenied denial s1
              in s2 \<lparr>es_cooldown := markWritePermissionDenialAudited key (lv_nowMs lv) (es_cooldown s2)\<rparr>)"

definition live_guards ::
  "exec_env \<Rightarrow> AgentActionExecutionContext \<Rightarrow> PlannedAgentAction list \<Rightarrow> live_answers \<Rightarrow> exec_state \<Rightarrow> PlannedAgentAction \<Rightarrow>
   string option" where
  "live_guards E ctx planned lv s a =
     first_reason [guard_coupled planned s a, guard_fresh ctx lv (paired_outcome planned s a) a, guard_recheck E lv a,
                   guard_train E ctx lv a, guard_cap ctx lv a]"

definition execute_action ::
  "exec_env \<Rightarrow> AgentActionExecutionContext \<Rightarrow> AgentActionMode \<Rightarrow> PlannedAgentAction list \<Rightarrow> live_answers \<Rightarrow>
   PlannedAgentAction \<Rightarrow> exec_state \<Rightarrow> exec_state" where
  "execute_action E ctx mode planned lv a s =
     (let autonomyLevel = governing_level ctx a
      in if mode = AgentPaused then audit a OutcomeDenied ''agent actions paused'' s
         else if \<not> isActingAutonomyLevel autonomyLevel
         then audit a OutcomeDenied (''autonomy for '' @ action_class_name (pa_actionClass a) @ '' is '' @
                autonomy_level_name autonomyLevel @ '' '' @ em_dash @ '' action not currently enabled'') s
         else if mode = AgentDryRun
         then audit a OutcomeDryRun (''dry-run: would '' @ action_class_name (pa_actionClass a) @ '' '' @ em_dash @ '' '' @ pa_reason a) s
         else if pa_requiresApproval a
         then (let (s1, staged) = stageForApproval ctx a s
               in if staged then audit a OutcomeQueued (''awaiting maintainer approval '' @ em_dash @ '' '' @ pa_reason a) s1 else s1)
         else if permission_denied ctx a then deny_permission ctx lv a s
         else case live_guards E ctx planned lv s a of
                Some denial \<Rightarrow> audit a OutcomeDenied denial s
              | None \<Rightarrow> performMutation E ctx lv a s)"

fun execute_from ::
  "exec_env \<Rightarrow> AgentActionExecutionContext \<Rightarrow> AgentActionMode \<Rightarrow> PlannedAgentAction list \<Rightarrow> (nat \<Rightarrow> live_answers) \<Rightarrow> nat \<Rightarrow>
   PlannedAgentAction list \<Rightarrow> exec_state \<Rightarrow> exec_state" where
  "execute_from E ctx mode planned answers i [] s = s"
| "execute_from E ctx mode planned answers i (a # rest) s =
     execute_from E ctx mode planned answers (Suc i) rest (execute_action E ctx mode planned (answers i) a s)"

text \<open>\<open>paused\<close> is the environment's pause flag or the frozen row of the database; \<open>deployment\<close> is
  \<open>SELFHOST_DEPLOYMENT_MODE\<close>.\<close>

definition executeAgentMaintenanceActions ::
  "exec_env \<Rightarrow> AgentActionExecutionContext \<Rightarrow> string option \<Rightarrow> bool \<Rightarrow> string option \<Rightarrow> (nat \<Rightarrow> live_answers) \<Rightarrow>
   PlannedAgentAction list \<Rightarrow> exec_state \<Rightarrow> exec_state" where
  "executeAgentMaintenanceActions E ctx pauseFlag frozen deployment answers planned s =
     execute_from E ctx
       (resolveAgentActionMode (isGlobalAgentPause pauseFlag \<or> frozen) (xc_agentPaused ctx) (xc_agentDryRun ctx)
          (forcedSelfhostMode deployment))
       planned answers 0 planned (s \<lparr>es_outcomes := []\<rparr>)"


text \<open>
  The executor for issues, whose plans hold labels and closes only. It has no freshness, no checks and no approval queue: an action
  that needs approval is refused. \<open>xc_pullNumber\<close> is then the issue's number.
\<close>

definition perform_issue_action ::
  "live_answers \<Rightarrow> PlannedAgentAction \<Rightarrow> exec_state \<Rightarrow> exec_state \<times> merge_error option" where
  "perform_issue_action lv a s =
     (if pa_actionClass a = ClassLabel then (send (CallAddLabel (or_default (pa_label a) [])) s, lv_first lv)
      else let commented = present (pa_closeComment a);
               s1 = (if commented then send (CallComment (or_default (pa_closeComment a) [])) s else s)
           in if commented \<and> lv_first lv \<noteq> None then (s1, lv_first lv)
              else (send CallClose s1, if commented then lv_second lv else lv_first lv))"

definition execute_issue_action ::
  "AgentActionExecutionContext \<Rightarrow> AgentActionMode \<Rightarrow> live_answers \<Rightarrow> PlannedAgentAction \<Rightarrow> exec_state \<Rightarrow> exec_state" where
  "execute_issue_action ctx mode lv a s =
     (let autonomyLevel = governing_level ctx a
      in if mode = AgentPaused then audit a OutcomeDenied ''agent actions paused'' s
         else if \<not> isActingAutonomyLevel autonomyLevel
         then audit a OutcomeDenied (''autonomy for '' @ action_class_name (pa_actionClass a) @ '' is '' @
                autonomy_level_name autonomyLevel @ '' '' @ em_dash @ '' action not currently enabled'') s
         else if mode = AgentDryRun
         then audit a OutcomeDryRun (''dry-run: would '' @ action_class_name (pa_actionClass a) @ '' '' @ em_dash @ '' '' @ pa_reason a) s
         else if pa_requiresApproval a
         then audit a OutcomeDenied (''awaiting maintainer approval '' @ em_dash @ '' issue-side staging is not yet supported ('' @
                pa_reason a @ '')'') s
         else if pa_actionClass a \<noteq> ClassLabel \<and> pa_actionClass a \<noteq> ClassClose
         then audit a OutcomeDenied (''unsupported action class for an issue: '' @ action_class_name (pa_actionClass a)) s
         else (case perform_issue_action lv a s of
                 (s1, None) \<Rightarrow> audit a OutcomeCompleted (pa_reason a) s1
               | (s1, Some e) \<Rightarrow> audit a OutcomeError (er_message e) s1))"

fun execute_issue_from ::
  "AgentActionExecutionContext \<Rightarrow> AgentActionMode \<Rightarrow> (nat \<Rightarrow> live_answers) \<Rightarrow> nat \<Rightarrow> PlannedAgentAction list \<Rightarrow> exec_state \<Rightarrow> exec_state"
where
  "execute_issue_from ctx mode answers i [] s = s"
| "execute_issue_from ctx mode answers i (a # rest) s =
     execute_issue_from ctx mode answers (Suc i) rest (execute_issue_action ctx mode (answers i) a s)"

definition executeIssueMaintenanceActions ::
  "AgentActionExecutionContext \<Rightarrow> string option \<Rightarrow> bool \<Rightarrow> string option \<Rightarrow> (nat \<Rightarrow> live_answers) \<Rightarrow> PlannedAgentAction list \<Rightarrow>
   exec_state \<Rightarrow> exec_state" where
  "executeIssueMaintenanceActions ctx pauseFlag frozen deployment answers planned s =
     execute_issue_from ctx
       (resolveAgentActionMode (isGlobalAgentPause pauseFlag \<or> frozen) (xc_agentPaused ctx) (xc_agentDryRun ctx)
          (forcedSelfhostMode deployment))
       answers 0 planned (s \<lparr>es_outcomes := []\<rparr>)"



section \<open>What reaches GitHub\<close>

text \<open>The calls an action may make; a review, a merge and a branch update name the commit the action is pinned to.\<close>

definition calls_of :: "AgentActionExecutionContext \<Rightarrow> PlannedAgentAction \<Rightarrow> GitHubCall set" where
  "calls_of ctx a =
     (case pa_actionClass a of
        ClassLabel \<Rightarrow> {CallAddLabel (or_default (pa_label a) []), CallRemoveLabel (or_default (pa_label a) []),
                       CallComment (or_default (pa_comment a) [])}
      | ClassRequestChanges \<Rightarrow> {CallRequestChanges (or_default (pa_reviewBody a) [])}
      | ClassApprove \<Rightarrow> {CallDismissApproval, CallApprove (or_default (pa_reviewBody a) []) (pinned_head ctx a)}
      | ClassMerge \<Rightarrow> {CallMerge (or_default (pa_mergeMethod a) MethodSquash) (pinned_head ctx a)}
      | ClassClose \<Rightarrow> {CallCloseComment (or_default (pa_closeComment a) []), CallClose}
      | ClassUpdateBranch \<Rightarrow> {CallUpdateBranch (pinned_head ctx a)}
      | ClassAssign \<Rightarrow> {CallAssign (or_default (pa_assignee a) []), CallAddLabel (''by:'' @ or_default (pa_assignee a) [])}
      | _ \<Rightarrow> {})"

text \<open>The live pull request is still the reviewed one: open, at the pinned head, on the reviewed base, and, for an approval or a
  merge, not held by the manual-review label.\<close>

definition still_reviewed :: "AgentActionExecutionContext \<Rightarrow> PlannedAgentAction \<Rightarrow> live_pull \<Rightarrow> bool" where
  "still_reviewed ctx a p \<longleftrightarrow>
     lp_state p = Some ''open'' \<and> present (pinned_head ctx a) \<and>
     (normalizedHead (pinned_head ctx a) \<noteq> None \<longrightarrow> normalizedHead (lp_headSha p) = normalizedHead (pinned_head ctx a)) \<and>
     (present (xc_expectedBaseRef ctx) \<and> present (lp_baseRef p) \<longrightarrow> lp_baseRef p = xc_expectedBaseRef ctx) \<and>
     (pa_actionClass a \<in> {ClassApprove, ClassMerge} \<longrightarrow>
        (\<forall>l. resolveNullableLabel (xc_manualReviewLabel ctx) AGENT_LABEL_NEEDS_REVIEW = Some l \<longrightarrow>
             \<not> hasLabel (filter (\<lambda>name. name \<noteq> []) (lp_labels p)) l))"

definition cleared :: "exec_env \<Rightarrow> AgentActionExecutionContext \<Rightarrow> PlannedAgentAction \<Rightarrow> live_answers \<Rightarrow> bool" where
  "cleared E ctx a lv \<longleftrightarrow>
     governing_level ctx a \<noteq> Observe \<and> \<not> pa_requiresApproval a \<and>
     (pa_actionClass a \<in> set PR_WRITE_CLASSES \<longrightarrow>
        (\<exists>p. xc_installationPermissions ctx = Some p \<and>
             p (if pa_actionClass a = ClassMerge then ''contents'' else ''pull_requests'') = Some ''write'')) \<and>
     (pa_actionClass a = ClassLabel \<and> pa_closeKind a \<noteq> None \<or> (\<exists>p. lv_pull lv = Some p \<and> still_reviewed ctx a p)) \<and>
     (pa_actionClass a = ClassMerge \<longrightarrow>
        lv_ciState lv = CiStatePassed \<and>
        (xc_mergeTrainMode ctx = Some TrainEnforce \<longrightarrow> train_decision E ctx lv = TrainGo) \<and>
        (xc_contributorCapMergeRecheck ctx \<longrightarrow> lv_capLockAcquired lv \<and> lv_stillUnderCap lv)) \<and>
     (pa_actionClass a = ClassApprove \<longrightarrow> lv_mergeState lv \<notin> {Some ''dirty'', Some ''unstable''}) \<and>
     (heuristic_close a \<longrightarrow>
        (pa_closeRequiresCiState a \<noteq> Some CiNotRequired \<longrightarrow> lv_ciState lv = CiStateFailed) \<and>
        (pa_closeRequiresMergeableState a = Some True \<longrightarrow> lv_mergeState lv \<noteq> Some ''clean'') \<and>
        (pa_closeRequiresThreadResolved a = Some True \<longrightarrow> lv_threadBlockers lv \<noteq> 0) \<and>
        (pa_closeRequiresDuplicateStillOpen a = Some True \<and> pa_duplicateWinnerPrNumber a \<noteq> None \<longrightarrow>
           lv_winnerState lv \<in> {None, Some ''open''}))"

lemma first_reason_None: "first_reason rs = None \<longleftrightarrow> (\<forall>r \<in> set rs. r = None)"
  by (induction rs) (auto simp: first_reason_def)

lemma fresh_current:
  "classifyPullRequestFreshness live expected False base = FreshCurrent h st ls \<Longrightarrow>
     \<exists>p. live = Some p \<and> lp_state p = Some ''open'' \<and> (normalizedHead expected \<noteq> None \<longrightarrow> normalizedHead (lp_headSha p) = normalizedHead expected) \<and>
         (present base \<and> present (lp_baseRef p) \<longrightarrow> lp_baseRef p = base) \<and> ls = filter (\<lambda>name. name \<noteq> []) (lp_labels p)"
  by (cases live)
     (auto simp: classifyPullRequestFreshness_def Let_def present_def or_default_def split: if_splits option.splits)

lemma guard_fresh_shape:
  "\<exists>x y z. guard_fresh ctx lv paired a =
     (if pa_actionClass a = ClassLabel \<and> pa_closeKind a \<noteq> None \<and> paired = Some OutcomeCompleted then None
      else if \<not> present (pinned_head ctx a) then Some x
      else case classifyPullRequestFreshness (lv_pull lv) (pinned_head ctx a) False (xc_expectedBaseRef ctx) of
             FreshStale _ _ _ _ \<Rightarrow> Some y
           | FreshCurrent _ _ ls \<Rightarrow>
               if pa_actionClass a = ClassApprove \<or> pa_actionClass a = ClassMerge
               then (case resolveNullableLabel (xc_manualReviewLabel ctx) AGENT_LABEL_NEEDS_REVIEW of
                       None \<Rightarrow> None | Some l \<Rightarrow> if hasLabel ls l then Some (z l) else None)
               else None)"
  unfolding guard_fresh_def Let_def by (intro exI, rule refl)

lemma guard_fresh_None:
  assumes "guard_fresh ctx lv paired a = None"
  shows "pa_actionClass a = ClassLabel \<and> pa_closeKind a \<noteq> None \<or> (\<exists>p. lv_pull lv = Some p \<and> still_reviewed ctx a p)"
proof (cases "pa_actionClass a = ClassLabel \<and> pa_closeKind a \<noteq> None \<and> paired = Some OutcomeCompleted")
  case False
  obtain h st ls where cur: "classifyPullRequestFreshness (lv_pull lv) (pinned_head ctx a) False (xc_expectedBaseRef ctx) = FreshCurrent h st ls"
    and pin: "present (pinned_head ctx a)"
    and lab: "pa_actionClass a \<in> {ClassApprove, ClassMerge} \<longrightarrow>
       (\<forall>l. resolveNullableLabel (xc_manualReviewLabel ctx) AGENT_LABEL_NEEDS_REVIEW = Some l \<longrightarrow> \<not> hasLabel ls l)"
    using False assms guard_fresh_shape[of ctx lv paired a]
    by (auto split: if_splits PullRequestFreshness.splits option.splits)
  from fresh_current[OF cur] pin lab show ?thesis by (auto simp: still_reviewed_def)
qed simp

lemma permission_ready:
  assumes "\<not> permission_denied ctx a" "pa_actionClass a \<in> set PR_WRITE_CLASSES"
  shows "\<exists>p. xc_installationPermissions ctx = Some p \<and>
           p (if pa_actionClass a = ClassMerge then ''contents'' else ''pull_requests'') = Some ''write''"
  using assms
  by (cases "xc_installationPermissions ctx")
     (auto simp: permission_denied_def resolveAgentPermissionReadiness_def missingAgentActionPermissions_def
        requiredAgentActionPermissions_def require_class_def addRequirementOnce_def PR_WRITE_ACTION_CLASSES_def
        CONTENTS_WRITE_ACTION_CLASSES_def PR_WRITE_CLASSES_def Let_def split: if_splits)

lemma recheck_None:
  assumes "guard_recheck E lv a = None"
  shows "pa_actionClass a = ClassMerge \<Longrightarrow> lv_ciState lv = CiStatePassed"
    and "pa_actionClass a = ClassApprove \<Longrightarrow> lv_mergeState lv \<notin> {Some ''dirty'', Some ''unstable''}"
    and "heuristic_close a \<Longrightarrow> pa_closeRequiresCiState a \<noteq> Some CiNotRequired \<Longrightarrow> lv_ciState lv = CiStateFailed"
    and "heuristic_close a \<Longrightarrow> pa_closeRequiresMergeableState a = Some True \<Longrightarrow> lv_mergeState lv \<noteq> Some ''clean''"
    and "heuristic_close a \<Longrightarrow> pa_closeRequiresThreadResolved a = Some True \<Longrightarrow> lv_threadBlockers lv \<noteq> 0"
    and "heuristic_close a \<Longrightarrow> pa_closeRequiresDuplicateStillOpen a = Some True \<and> pa_duplicateWinnerPrNumber a \<noteq> None \<Longrightarrow>
      lv_winnerState lv \<in> {None, Some ''open''}"
proof -
  have n: "ciStaleReason lv a = None" "approveMergeableStaleReason lv a = None" "mergeableStaleReason lv a = None"
    "threadStaleReason lv a = None" "duplicateStaleReason E lv a = None"
    using assms by (auto simp: guard_recheck_def first_reason_None)
  show "lv_mergeState lv \<noteq> Some ''clean''" if "heuristic_close a" "pa_closeRequiresMergeableState a = Some True"
    using n(3) that by (simp add: mergeableStaleReason_def split: if_splits)
  show "lv_threadBlockers lv \<noteq> 0" if "heuristic_close a" "pa_closeRequiresThreadResolved a = Some True"
    using n(4) that by (simp add: threadStaleReason_def split: if_splits)
  show "lv_winnerState lv \<in> {None, Some ''open''}"
    if "heuristic_close a" "pa_closeRequiresDuplicateStillOpen a = Some True \<and> pa_duplicateWinnerPrNumber a \<noteq> None"
    using n(5) that by (auto simp: duplicateStaleReason_def split: option.splits if_splits)
  show "lv_ciState lv = CiStatePassed" if "pa_actionClass a = ClassMerge"
    using n(1) that by (auto simp: ciStaleReason_def requiresLiveCiRecheck_def split: if_splits)
  show "lv_mergeState lv \<notin> {Some ''dirty'', Some ''unstable''}" if "pa_actionClass a = ClassApprove"
    using n(2) that by (auto simp: approveMergeableStaleReason_def split: option.splits if_splits)
  show "lv_ciState lv = CiStateFailed" if "heuristic_close a" "pa_closeRequiresCiState a \<noteq> Some CiNotRequired"
    using n(1) that
    by (cases "pa_closeRequiresCiState a"; cases "the (pa_closeRequiresCiState a)")
       (auto simp: ciStaleReason_def requiresLiveCiRecheck_def heuristic_close_def isAmbiguousLegacyHeuristicClose_def split: if_splits)
qed

lemma guards_clear:
  assumes "live_guards E ctx planned lv s a = None" "isActingAutonomyLevel (governing_level ctx a)"
    "\<not> pa_requiresApproval a" "\<not> permission_denied ctx a"
  shows "cleared E ctx a lv"
proof -
  have g: "guard_fresh ctx lv (paired_outcome planned s a) a = None" "guard_recheck E lv a = None"
    "guard_train E ctx lv a = None" "guard_cap ctx lv a = None"
    using assms(1) by (auto simp: live_guards_def first_reason_None)
  have "xc_mergeTrainMode ctx = Some TrainEnforce \<longrightarrow> train_decision E ctx lv = TrainGo" if "pa_actionClass a = ClassMerge"
    using g(3) that by (auto simp: guard_train_def split: MergeTrainDecision.splits)
  moreover have "xc_contributorCapMergeRecheck ctx \<longrightarrow> lv_capLockAcquired lv \<and> lv_stillUnderCap lv" if "pa_actionClass a = ClassMerge"
    using g(4) that by (auto simp: guard_cap_def Let_def split: if_splits)
  moreover have "governing_level ctx a \<noteq> Observe" using assms(2) by (simp add: acting_not_observe)
  ultimately show ?thesis
    unfolding cleared_def
    using guard_fresh_None[OF g(1)] permission_ready[OF assms(4)] recheck_None[OF g(2)] assms(3) by blast
qed

text \<open>Bookkeeping never sends a call.\<close>

lemma calls_kept [simp]:
  "es_calls (audit a r d s) = es_calls s"
  "es_calls (markPullRequestApproved h s) = es_calls s"
  "es_calls (markPullRequestManualReviewLabelApplied h s) = es_calls s"
  "es_calls (recordTerminalActionOutcome o1 s) = es_calls s"
  "es_calls (deny_permission ctx lv a s) = es_calls s"
  "es_calls (fst (stageForApproval ctx a s)) = es_calls s"
  by (simp_all add: audit_def markPullRequestApproved_def markPullRequestManualReviewLabelApplied_def
      recordTerminalActionOutcome_def deny_permission_def stageForApproval_def Let_def split: prod.split)

lemma calls_send [simp]: "es_calls (send c s) = es_calls s @ [c]"
  by (simp add: send_def)

definition sends_only :: "GitHubCall set \<Rightarrow> exec_state \<Rightarrow> exec_state \<Rightarrow> bool" where
  "sends_only C s s' \<longleftrightarrow> (\<exists>sent. es_calls s' = es_calls s @ sent \<and> set sent \<subseteq> C)"

lemma sends_only_same: "es_calls s' = es_calls s \<Longrightarrow> sends_only C s s'"
  by (simp add: sends_only_def)

lemma sends_only_mono: "sends_only C s s' \<Longrightarrow> C \<subseteq> D \<Longrightarrow> sends_only D s s'"
  by (auto simp: sends_only_def)

lemma sends_only_trans: "sends_only C s s' \<Longrightarrow> sends_only C s' s'' \<Longrightarrow> sends_only C s s''"
  unfolding sends_only_def by (metis append.assoc set_append Un_least)

lemma perform_single_sends: "sends_only {c} s (fst (perform_single c lv s))"
  by (simp add: sends_only_def perform_single_def)

lemma perform_comment_sends: "sends_only {CallComment (or_default (pa_comment a) [])} s (fst (perform_comment lv a s))"
  by (auto simp: sends_only_def perform_comment_def)

lemma perform_label_sends:
  assumes "pa_actionClass a = ClassLabel"
  shows "sends_only (calls_of ctx a) s (fst (perform_label ctx lv a s))"
proof -
  let ?c = "if pa_labelOp a = Some LabelRemove then CallRemoveLabel (or_default (pa_label a) []) else CallAddLabel (or_default (pa_label a) [])"
  have first: "sends_only (calls_of ctx a) s s1" if "es_calls s1 = es_calls s @ [?c]" for s1
    using that assms by (simp add: sends_only_def calls_of_def)
  show ?thesis
  proof (cases "lv_first lv")
    case None
    then obtain s1 where "fst (perform_label ctx lv a s) = fst (perform_comment lv a s1)" "es_calls s1 = es_calls s @ [?c]"
      by (simp add: perform_label_def Let_def)
    moreover have "sends_only (calls_of ctx a) s1 (fst (perform_comment lv a s1))" for s1
      by (rule sends_only_mono[OF perform_comment_sends]) (simp add: calls_of_def assms)
    ultimately show ?thesis using first by (metis sends_only_trans)
  qed (auto simp: perform_label_def Let_def intro: first)
qed

lemma performAction_sends:
  assumes "present (pinned_head ctx a) \<or> pa_actionClass a \<noteq> ClassMerge"
  shows "sends_only (calls_of ctx a) s (fst (performAction ctx lv a s))"
proof (cases "pa_actionClass a")
  case ClassLabel
  then show ?thesis by (simp add: performAction_def perform_label_sends)
next
  case ClassMerge
  then show ?thesis using assms
    by (auto simp: performAction_def calls_of_def perform_single_def sends_only_def split: sum.split option.split)
next
  case ClassClose
  then show ?thesis
    by (auto simp: performAction_def calls_of_def perform_close_def sends_only_def Let_def split: option.split)
next
  case ClassAssign
  then show ?thesis
    by (auto simp: performAction_def calls_of_def perform_assign_def sends_only_def Let_def simp del: append.simps split: option.split)
qed (auto simp: performAction_def calls_of_def perform_single_def sends_only_def)

lemma performMutation_calls: "es_calls (performMutation E ctx lv a s) = es_calls (fst (performAction ctx lv a s))"
  by (auto simp: performMutation_def Let_def split: prod.split sum.split)

text \<open>One action either leaves GitHub alone or has passed every guard of the live mode.\<close>

lemma execute_action_sends:
  "es_calls (execute_action E ctx mode planned lv a s) = es_calls s \<or>
   mode = AgentLive \<and> cleared E ctx a lv \<and> sends_only (calls_of ctx a) s (execute_action E ctx mode planned lv a s)"
proof (cases "mode = AgentPaused \<or> mode = AgentDryRun \<or> \<not> isActingAutonomyLevel (governing_level ctx a) \<or> pa_requiresApproval a \<or>
    permission_denied ctx a \<or> live_guards E ctx planned lv s a \<noteq> None")
  case True
  obtain s1 staged where st: "stageForApproval ctx a s = (s1, staged)" by fastforce
  then have "es_calls s1 = es_calls s" using calls_kept(6)[of ctx a s] by simp
  with True st have "es_calls (execute_action E ctx mode planned lv a s) = es_calls s"
    by (auto simp: execute_action_def Let_def simp del: append.simps split: option.split)
  then show ?thesis ..
next
  case False
  then have live: "mode = AgentLive" by (cases mode) auto
  have run: "execute_action E ctx mode planned lv a s = performMutation E ctx lv a s"
    using False by (simp add: execute_action_def)
  have c: "cleared E ctx a lv" using False by (intro guards_clear[of E ctx planned lv s a]) auto
  then have "present (pinned_head ctx a) \<or> pa_actionClass a \<noteq> ClassMerge"
    by (auto simp: cleared_def still_reviewed_def)
  from performAction_sends[OF this, of s lv] have "sends_only (calls_of ctx a) s (performMutation E ctx lv a s)"
    by (simp add: sends_only_def performMutation_calls)
  then show ?thesis using live c run by simp
qed

lemma execute_from_sends:
  "\<exists>sent. es_calls (execute_from E ctx mode planned answers k as s) = es_calls s @ sent \<and>
     (\<forall>c \<in> set sent. \<exists>i < length as. mode = AgentLive \<and> cleared E ctx (as ! i) (answers (k + i)) \<and> c \<in> calls_of ctx (as ! i))"
proof (induction "as" arbitrary: k s)
  case (Cons a rest)
  let ?s1 = "execute_action E ctx mode planned (answers k) a s"
  obtain sent where sent: "es_calls (execute_from E ctx mode planned answers (Suc k) rest ?s1) = es_calls ?s1 @ sent"
    and ok: "\<forall>c \<in> set sent. \<exists>i < length rest. mode = AgentLive \<and> cleared E ctx (rest ! i) (answers (Suc k + i)) \<and> c \<in> calls_of ctx (rest ! i)"
    using Cons.IH[of "Suc k" ?s1] by (elim exE conjE) (rule that)
  have later: "\<exists>i < length (a # rest). mode = AgentLive \<and> cleared E ctx ((a # rest) ! i) (answers (k + i)) \<and> c \<in> calls_of ctx ((a # rest) ! i)"
    if c: "c \<in> set sent" for c
  proof -
    obtain i where "i < length rest" "mode = AgentLive" "cleared E ctx (rest ! i) (answers (Suc k + i))" "c \<in> calls_of ctx (rest ! i)"
      using bspec[OF ok c] by (elim exE conjE) (rule that)
    then show ?thesis by (intro exI[of _ "Suc i"]) simp
  qed
  obtain now where now: "es_calls ?s1 = es_calls s @ now"
    "now \<noteq> [] \<Longrightarrow> mode = AgentLive \<and> cleared E ctx a (answers k) \<and> set now \<subseteq> calls_of ctx a"
    using execute_action_sends[of E ctx mode planned "answers k" a s]
  proof
    assume "es_calls ?s1 = es_calls s"
    then show thesis using that[of "[]"] by simp
  next
    assume "mode = AgentLive \<and> cleared E ctx a (answers k) \<and> sends_only (calls_of ctx a) s ?s1"
    then show thesis using that unfolding sends_only_def by blast
  qed
  have "\<exists>i < length (a # rest). mode = AgentLive \<and> cleared E ctx ((a # rest) ! i) (answers (k + i)) \<and> c \<in> calls_of ctx ((a # rest) ! i)"
    if c: "c \<in> set now" for c
  proof -
    have "now \<noteq> []" using c by auto
    from now(2)[OF this] c show ?thesis by (intro exI[of _ 0]) auto
  qed
  then show ?case using sent now(1) later by (intro exI[of _ "now @ sent"]) auto
qed simp



lemma execute_issue_action_sends:
  "es_calls (execute_issue_action ctx mode lv a s) = es_calls s \<or>
   mode = AgentLive \<and> governing_level ctx a \<noteq> Observe \<and> \<not> pa_requiresApproval a \<and> pa_actionClass a \<in> {ClassLabel, ClassClose} \<and>
   (\<exists>sent. es_calls (execute_issue_action ctx mode lv a s) = es_calls s @ sent)"
proof (cases "mode = AgentPaused \<or> mode = AgentDryRun \<or> \<not> isActingAutonomyLevel (governing_level ctx a) \<or> pa_requiresApproval a \<or>
    pa_actionClass a \<noteq> ClassLabel \<and> pa_actionClass a \<noteq> ClassClose")
  case True
  then have "es_calls (execute_issue_action ctx mode lv a s) = es_calls s"
    by (auto simp: execute_issue_action_def Let_def simp del: append.simps)
  then show ?thesis ..
next
  case False
  then have live: "mode = AgentLive" by (cases mode) auto
  have "\<exists>sent. es_calls (fst (perform_issue_action lv a s)) = es_calls s @ sent"
    by (auto simp: perform_issue_action_def Let_def)
  moreover have "es_calls (execute_issue_action ctx mode lv a s) = es_calls (fst (perform_issue_action lv a s))"
    using False by (auto simp: execute_issue_action_def Let_def simp del: append.simps split: prod.split option.split)
  ultimately show ?thesis using False live by (auto simp: acting_not_observe)
qed

text \<open>On an issue nothing is sent unless the mode is live and the plan holds a label or a close that the dial enables and that needs
  no approval; an action that needs approval is never carried out there.\<close>

theorem issues_are_only_labelled_or_closed:
  fixes ctx :: AgentActionExecutionContext and planned :: "PlannedAgentAction list"
  assumes "es_calls (executeIssueMaintenanceActions ctx pauseFlag frozen deployment answers planned s) \<noteq> es_calls s"
  shows "\<not> frozen \<and> \<not> xc_agentPaused ctx \<and> \<not> xc_agentDryRun ctx \<and>
    (\<exists>a \<in> set planned. governing_level ctx a \<noteq> Observe \<and> \<not> pa_requiresApproval a \<and> pa_actionClass a \<in> {ClassLabel, ClassClose})"
proof -
  let ?mode = "resolveAgentActionMode (isGlobalAgentPause pauseFlag \<or> frozen) (xc_agentPaused ctx) (xc_agentDryRun ctx)
          (forcedSelfhostMode deployment)"
  have "mode = AgentLive \<and>
      (\<exists>a \<in> set as. governing_level ctx a \<noteq> Observe \<and> \<not> pa_requiresApproval a \<and> pa_actionClass a \<in> {ClassLabel, ClassClose})"
    if "es_calls (execute_issue_from ctx mode answers k as t) \<noteq> es_calls t" for mode k "as" t
    using that
  proof (induction "as" arbitrary: k t)
    case (Cons a rest)
    show ?case
    proof (cases "es_calls (execute_issue_action ctx mode (answers k) a t) = es_calls t")
      case True
      then show ?thesis using Cons.IH[of "Suc k" "execute_issue_action ctx mode (answers k) a t"] Cons.prems by auto
    next
      case False
      then show ?thesis using execute_issue_action_sends[of ctx mode "answers k" a t] by auto
    qed
  qed simp
  from this[of ?mode 0 planned "s \<lparr>es_outcomes := []\<rparr>"] assms show ?thesis
    by (auto simp: executeIssueMaintenanceActions_def resolveAgentActionMode_def split: if_splits)
qed



section \<open>Outcomes\<close>

text \<open>An action appends one outcome of its own class, except an approval whose class already has an open or decided row.\<close>

definition stageable :: "approval_queue \<Rightarrow> PlannedAgentAction \<Rightarrow> bool" where
  "stageable q a \<longleftrightarrow> (case q (pa_actionClass a) of None \<Rightarrow> True | Some row \<Rightarrow> pn_status row = PendingExpired)"

abbreviation outcome_classes :: "exec_state \<Rightarrow> AgentActionClass list" where
  "outcome_classes s \<equiv> map oc_actionClass (es_outcomes s)"

lemma audit_outcome [simp]:
  "outcome_classes (audit a r d s) = outcome_classes s @ [pa_actionClass a]" "es_queue (audit a r d s) = es_queue s"
  by (simp_all add: audit_def)

lemma outcomes_kept [simp]:
  "es_outcomes (markPullRequestApproved h s) = es_outcomes s"
  "es_outcomes (markPullRequestManualReviewLabelApplied h s) = es_outcomes s"
  "es_outcomes (recordTerminalActionOutcome o1 s) = es_outcomes s"
  "es_outcomes (send c s) = es_outcomes s"
  "es_queue (markPullRequestApproved h s) = es_queue s"
  "es_queue (markPullRequestManualReviewLabelApplied h s) = es_queue s"
  "es_queue (recordTerminalActionOutcome o1 s) = es_queue s"
  "es_queue (send c s) = es_queue s"
  by (simp_all add: markPullRequestApproved_def markPullRequestManualReviewLabelApplied_def recordTerminalActionOutcome_def send_def)

lemma performAction_outcomes:
  "es_outcomes (fst (performAction ctx lv a s)) = es_outcomes s \<and> es_queue (fst (performAction ctx lv a s)) = es_queue s"
  by (cases "pa_actionClass a")
     (auto simp: performAction_def perform_single_def perform_close_def perform_assign_def perform_label_def perform_comment_def
        Let_def simp del: append.simps split: option.split sum.split)

lemma performMutation_outcomes:
  "outcome_classes (performMutation E ctx lv a s) = outcome_classes s @ [pa_actionClass a] \<and>
   es_queue (performMutation E ctx lv a s) = es_queue s"
  using performAction_outcomes[of ctx lv a s]
  by (auto simp: performMutation_def Let_def split: prod.split sum.split)

lemma deny_permission_outcomes:
  "outcome_classes (deny_permission ctx lv a s) = outcome_classes s @ [pa_actionClass a] \<and>
   es_queue (deny_permission ctx lv a s) = es_queue s"
  by (simp add: deny_permission_def Let_def split: prod.split)

lemma stage_outcomes:
  "es_outcomes (fst (stageForApproval ctx a s)) = es_outcomes s \<and>
   (snd (stageForApproval ctx a s) \<longleftrightarrow> stageable (es_queue s) a) \<and>
   (\<forall>c. c \<noteq> pa_actionClass a \<longrightarrow> es_queue (fst (stageForApproval ctx a s)) c = es_queue s c)"
  by (auto simp: stageForApproval_def createPendingAgentActionIfAbsent_def stageable_def Let_def split: option.split)

lemma execute_action_outcomes:
  assumes "pa_requiresApproval a \<longrightarrow> stageable (es_queue s) a"
  shows "outcome_classes (execute_action E ctx mode planned lv a s) = outcome_classes s @ [pa_actionClass a]"
    and "c \<noteq> pa_actionClass a \<or> \<not> pa_requiresApproval a \<longrightarrow> es_queue (execute_action E ctx mode planned lv a s) c = es_queue s c"
proof -
  obtain s1 staged where st: "stageForApproval ctx a s = (s1, staged)" by fastforce
  show "outcome_classes (execute_action E ctx mode planned lv a s) = outcome_classes s @ [pa_actionClass a]"
    using assms stage_outcomes[of ctx a s] st performMutation_outcomes deny_permission_outcomes
    by (auto simp: execute_action_def Let_def simp del: append.simps split: option.split)
  show "c \<noteq> pa_actionClass a \<or> \<not> pa_requiresApproval a \<longrightarrow> es_queue (execute_action E ctx mode planned lv a s) c = es_queue s c"
    using assms stage_outcomes[of ctx a s] st performMutation_outcomes deny_permission_outcomes
    by (auto simp: execute_action_def Let_def simp del: append.simps split: option.split)
qed

lemma execute_from_outcomes:
  assumes "distinct (map pa_actionClass (filter pa_requiresApproval as))"
    and "\<forall>a \<in> set as. pa_requiresApproval a \<longrightarrow> stageable (es_queue s) a"
  shows "outcome_classes (execute_from E ctx mode planned answers k as s) = outcome_classes s @ map pa_actionClass as"
  using assms
proof (induction "as" arbitrary: k s)
  case (Cons a rest)
  let ?s1 = "execute_action E ctx mode planned (answers k) a s"
  have a: "pa_requiresApproval a \<longrightarrow> stageable (es_queue s) a" using Cons.prems(2) by simp
  have "stageable (es_queue ?s1) b" if "b \<in> set rest" "pa_requiresApproval b" for b
  proof -
    have "pa_actionClass b \<in> set (map pa_actionClass (filter pa_requiresApproval rest))"
      unfolding set_map using that by (intro imageI) simp
    then have "pa_actionClass b \<noteq> pa_actionClass a \<or> \<not> pa_requiresApproval a"
      using Cons.prems(1) by (cases "pa_requiresApproval a") auto
    then have "es_queue ?s1 (pa_actionClass b) = es_queue s (pa_actionClass b)"
      using execute_action_outcomes(2)[OF a] by blast
    then show ?thesis using Cons.prems(2) that by (simp add: stageable_def)
  qed
  then have "outcome_classes (execute_from E ctx mode planned answers (Suc k) rest ?s1) = outcome_classes ?s1 @ map pa_actionClass rest"
    using Cons.prems(1) by (intro Cons.IH) (auto split: if_splits)
  then show ?case using execute_action_outcomes(1)[OF a] by simp
qed simp

text \<open>
  When no two actions of the plan that need approval share a class and none of these classes has an open or decided row, the outcomes
  are in step with the plan: the i-th outcome is the i-th action's. This is what \<open>pendingClosureLabelApplied\<close> and the pairing of a
  close with its label rely on.
\<close>

theorem outcomes_match_the_plan:
  assumes "distinct (map pa_actionClass (filter pa_requiresApproval planned))"
    and "\<forall>a \<in> set planned. pa_requiresApproval a \<longrightarrow> stageable (es_queue s) a"
  shows "map oc_actionClass (es_outcomes (executeAgentMaintenanceActions E ctx pauseFlag frozen deployment answers planned s)) =
           map pa_actionClass planned"
  using execute_from_outcomes[of planned "s \<lparr>es_outcomes := []\<rparr>"] assms
  by (simp add: executeAgentMaintenanceActions_def)

text \<open>
  An action staged for approval and rebuilt when the maintainer accepts it is the planned action, except that it no longer asks for
  approval, keeps at most twenty close reasons, and has lost the codes of the rules that justified a close.
\<close>

theorem staged_action_replay:
  "pendingActionToPlanned (pa_actionClass a) (actionParams a) (Some (pa_reason a)) =
     a \<lparr>pa_requiresApproval := False, pa_closeReasons := map_option (take 20) (pa_closeReasons a), pa_closeConcreteEvidenceCodes := None\<rparr>"
proof -
  have "boundStructuredCloseReasonsForPersistence = (take 20 :: string list \<Rightarrow> string list)"
    by (auto simp: boundStructuredCloseReasonsForPersistence_def STRUCTURED_CLOSE_REASONS_MAX_COUNT_def)
  then show ?thesis by (cases a) (simp add: pendingActionToPlanned_def actionParams_def action_of_def)
qed


section \<open>Concrete runs\<close>

definition calm_answers :: live_answers where
  "calm_answers =
     \<lparr>lv_nowMs = Fin 0,
      lv_pull = Some \<lparr>lp_state = Some ''open'', lp_headSha = Some ''abc'', lp_baseRef = Some ''main'', lp_draft = False, lp_labels = []\<rparr>,
      lv_ciState = CiStatePassed, lv_mergeState = Some ''clean'', lv_threadBlockers = 0, lv_winnerState = None, lv_siblings = [],
      lv_filePaths = Map.empty, lv_capLockAcquired = True, lv_stillUnderCap = True, lv_first = None, lv_second = None,
      lv_assigneeApplied = True\<rparr>"

definition plain_env :: exec_env where
  "plain_env = \<lparr>xe_planner = \<lparr>pe_sanitize = (\<lambda>s. s), pe_num = (\<lambda>_. ''1'')\<rparr>, xe_isLockfile = (\<lambda>_. False),
     xe_parse_date = (\<lambda>_. NaN), xe_show_date = (\<lambda>_. [])\<rparr>"

definition plain_ctx :: AgentActionExecutionContext where
  "plain_ctx =
     \<lparr>xc_installationId = 1, xc_repoFullName = ''o/r'', xc_pullNumber = 7, xc_headSha = Some ''abc'', xc_expectedBaseRef = Some ''main'',
      xc_autonomy = Some [ClassLabel \<mapsto> Auto, ClassAssign \<mapsto> AutoWithApproval, ClassMerge \<mapsto> Auto], xc_agentPaused = False,
      xc_agentDryRun = False, xc_installationPermissions = Some [''contents'' \<mapsto> ''write''], xc_authorLogin = Some ''amy'',
      xc_contributorCapMergeRecheck = False, xc_manualReviewLabel = None, xc_mergeTrainMode = None, xc_pullRequestCreatedAt = None,
      xc_pullRequestLinkedIssues = None, xc_pullRequestChangedFiles = None\<rparr>"

definition empty_state :: exec_state where
  "empty_state =
     \<lparr>es_outcomes = [], es_calls = [], es_queue = Map.empty,
      es_row = \<lparr>mr_headSha = Some ''abc'', mr_mergeAttemptCount = 0, mr_mergeBlockedSha = None, mr_mergeBlockedReason = None,
                mr_mergeBlockedUntil = None\<rparr>,
      es_approvedHeadSha = None, es_manualLabelSha = None, es_prOutcome = None, es_cooldown = []\<rparr>"

abbreviation run :: "AgentActionExecutionContext \<Rightarrow> PlannedAgentAction list \<Rightarrow> exec_state \<Rightarrow> exec_state" where
  "run ctx planned s \<equiv> executeAgentMaintenanceActions plain_env ctx None False None (\<lambda>_. calm_answers) planned s"

definition assign_first :: PlannedAgentAction where
  "assign_first = (action_of ClassAssign True ''auto-assign'') \<lparr>pa_assignee := Some ''amy''\<rparr>"

definition flag_label :: PlannedAgentAction where
  "flag_label = (action_of ClassLabel False ''flag'')
     \<lparr>pa_closeKind := Some KindLinkedIssueHardRule, pa_label := Some ''pending-closure'', pa_labelOp := Some LabelAdd\<rparr>"

definition merge_action :: PlannedAgentAction where
  "merge_action = (action_of ClassMerge False ''ready'') \<lparr>pa_mergeMethod := Some MethodSquash, pa_expectedHeadSha := Some ''abc''\<rparr>"

lemma merge_is_sent: "es_calls (run plain_ctx [merge_action] empty_state) = [CallMerge MethodSquash (Some ''abc'')]"
  by code_simp


theorem issues_are_only_labelled_or_closed_witness:
  "\<exists>a \<in> set [flag_label]. governing_level plain_ctx a \<noteq> Observe \<and> \<not> pa_requiresApproval a"
proof -
  have "es_calls (executeIssueMaintenanceActions plain_ctx None False None (\<lambda>_. calm_answers) [flag_label] empty_state) \<noteq>
      es_calls empty_state"
    by code_simp
  from issues_are_only_labelled_or_closed[OF this] show ?thesis by blast
qed

theorem outcomes_match_the_plan_witness:
  "map oc_actionClass (es_outcomes (run plain_ctx [assign_first, flag_label] empty_state)) = [ClassAssign, ClassLabel]"
  using outcomes_match_the_plan[of "[assign_first, flag_label]" empty_state plain_env plain_ctx None False None "\<lambda>_. calm_answers"]
  by (simp add: assign_first_def flag_label_def action_of_def empty_state_def stageable_def)


section \<open>Findings\<close>

text \<open>
  The outcomes fall out of step when staging is a no-op: the action that could not be staged leaves no outcome, so the label after it
  is read one position too early. The pending-closure label was applied, but the caller is told it was not and never schedules the
  second pass.
\<close>

theorem staging_noop_hides_the_flag:
  "\<exists>q. es_queue (run plain_ctx [assign_first] empty_state) = q \<and>
     CallAddLabel ''pending-closure'' \<in> set (es_calls (run plain_ctx [assign_first, flag_label] (empty_state \<lparr>es_queue := q\<rparr>))) \<and>
     \<not> pendingClosureLabelApplied [assign_first, flag_label]
         (es_outcomes (run plain_ctx [assign_first, flag_label] (empty_state \<lparr>es_queue := q\<rparr>)))"
proof -
  let ?s = "empty_state \<lparr>es_queue := es_queue (run plain_ctx [assign_first] empty_state)\<rparr>"
  have "es_calls (run plain_ctx [assign_first, flag_label] ?s) = [CallAddLabel ''pending-closure'']" by code_simp
  moreover have "\<not> pendingClosureLabelApplied [assign_first, flag_label] (es_outcomes (run plain_ctx [assign_first, flag_label] ?s))"
    by code_simp
  ultimately show ?thesis by simp
qed

text \<open>Two labels of one plan that both need approval share the queue's only row for their class: the second is not staged, has no
  outcome and is not sent.\<close>

theorem second_label_is_never_staged:
  "map oc_detail (es_outcomes (run (plain_ctx \<lparr>xc_autonomy := Some [ClassLabel \<mapsto> AutoWithApproval]\<rparr>)
      [flag_label \<lparr>pa_requiresApproval := True\<rparr>, flag_label \<lparr>pa_requiresApproval := True, pa_label := Some ''size/L''\<rparr>] empty_state)) =
     [''awaiting maintainer approval '' @ em_dash @ '' flag''] \<and>
   map_option (pq_label \<circ> pn_params) (es_queue (run (plain_ctx \<lparr>xc_autonomy := Some [ClassLabel \<mapsto> AutoWithApproval]\<rparr>)
      [flag_label \<lparr>pa_requiresApproval := True\<rparr>, flag_label \<lparr>pa_requiresApproval := True, pa_label := Some ''size/L''\<rparr>] empty_state)
      ClassLabel) = Some (Some ''pending-closure'')"
  by code_simp

text \<open>The manual-review label the executor itself applies gets no provenance while the label's name is left at its default, so the
  planner, which lifts only holds with provenance, never lifts it; naming the default explicitly records it.\<close>

theorem default_hold_label_has_no_provenance:
  "es_manualLabelSha (run plain_ctx [flag_label \<lparr>pa_label := Some AGENT_LABEL_NEEDS_REVIEW\<rparr>] empty_state) = None \<and>
   es_manualLabelSha (run (plain_ctx \<lparr>xc_manualReviewLabel := Some (Some AGENT_LABEL_NEEDS_REVIEW)\<rparr>)
      [flag_label \<lparr>pa_label := Some AGENT_LABEL_NEEDS_REVIEW\<rparr>] empty_state) = Some ''abc''"
  by code_simp

text \<open>A close whose only justifying rule has become untrustworthy is held by the breaker when it is planned, but not when it was
  staged first and is accepted later: the queue's row does not carry the rule codes.\<close>

definition ruled_close :: PlannedAgentAction where
  "ruled_close = (action_of ClassClose True ''secret'')
     \<lparr>pa_closeKind := Some KindHeuristic, pa_closeConcreteEvidence := Some True, pa_closeConcreteEvidenceCodes := Some [''secret_leak'']\<rparr>"

theorem staged_close_escapes_the_breaker:
  "let labels = \<lparr>ls_manualReviewLabel = None, ls_readyToMergeLabel = None, ls_changesRequestedLabel = None,
                 ls_migrationCollisionLabel = None, ls_pendingClosureLabel = None\<rparr>;
       replayed = pendingActionToPlanned ClassClose (actionParams ruled_close) (Some (pa_reason ruled_close))
   in map pa_actionClass (downgradeCloseToHold [ruled_close] False labels [''secret_leak'']) = [ClassLabel] \<and>
      downgradeCloseToHold [replayed] False labels [''secret_leak''] = [replayed] \<and> pa_actionClass replayed = ClassClose"
  by code_simp

end
