(* ===== verification/Close_Holdout.thy ===== *)
theory Close_Holdout
  imports Agent_Plan "HOL-Library.Word"
begin

text \<open>
  The randomised audit of automatic closes (\<open>src/src/review/close-audit-holdout.ts\<close>): the instance's secret and its creation, the
  draw that is derived from the secret and the identity of the decision, the transform that turns a drawn close into a hold, and the
  step that records the draw and then diverts the plan. The keyed hash \<open>hmac\<close> (Web Crypto's) and the random bytes are arguments;
  whether the two database writes succeed is an argument too.
\<close>

section \<open>The secret and the draw\<close>

definition hex_digit :: "nat \<Rightarrow> char" where
  "hex_digit d = (if d < 10 then char_of (48 + d) else char_of (87 + d))"

definition hex_byte :: "8 word \<Rightarrow> string" where
  "hex_byte b = [hex_digit (unat b div 16), hex_digit (unat b mod 16)]"

definition generateHoldoutSecret :: "8 word list \<Rightarrow> string" where
  "generateHoldoutSecret bytes = concat (map hex_byte bytes)"

text \<open>The row of \<open>system_flags\<close> that holds the secret, the audit events of the instrument and the ids of its label rows.\<close>

record holdout_event =
  he_targetKey :: string
  he_epsilonPct :: jsnum
  he_draw :: jsnum

record holdout_store =
  hs_secret :: "string option"
  hs_events :: "holdout_event list"
  hs_labelIds :: "string list"

text \<open>The three statements of \<open>getOrCreateCloseAuditHoldoutSecret\<close>: a row that is there and not empty is returned; otherwise a
  secret is inserted unless a row exists, and the row is read again.\<close>

definition flag_read :: "string option \<Rightarrow> string option" where
  "flag_read row = (if row = Some [] then None else row)"

definition flag_insert :: "string \<Rightarrow> string option \<Rightarrow> string option" where
  "flag_insert generated row = (case row of None \<Rightarrow> Some generated | Some k \<Rightarrow> Some k)"

definition getOrCreateCloseAuditHoldoutSecret :: "string \<Rightarrow> holdout_store \<Rightarrow> holdout_store \<times> string" where
  "getOrCreateCloseAuditHoldoutSecret generated s =
     (case flag_read (hs_secret s) of
        Some existing \<Rightarrow> (s, existing)
      | None \<Rightarrow>
          let s1 = s \<lparr>hs_secret := flag_insert generated (hs_secret s)\<rparr>
          in (s1, or_default (hs_secret s1) generated))"

definition holdoutSeed :: "string \<Rightarrow> nat \<Rightarrow> string option \<Rightarrow> string" where
  "holdoutSeed repoFullName pullNumber headSha =
     ''record:'' @ repoFullName @ ''#'' @ show_nat pullNumber @ ''@'' @ or_default headSha ''unknown''"

text \<open>\<open>Number.parseInt(text, 16)\<close>: white space, a sign and a prefix are skipped, then the longest run of digits is read.\<close>

definition hex_value :: "char \<Rightarrow> nat option" where
  "hex_value c =
     (let n = (of_char c :: nat)
      in if 48 \<le> n \<and> n \<le> 57 then Some (n - 48)
         else if 97 \<le> n \<and> n \<le> 102 then Some (n - 87)
         else if 65 \<le> n \<and> n \<le> 70 then Some (n - 55) else None)"

definition hex_number :: "string \<Rightarrow> nat" where
  "hex_number ds = foldl (\<lambda>acc d. 16 * acc + or_default (hex_value d) 0) 0 ds"

definition parse_hex :: "string \<Rightarrow> jsnum" where
  "parse_hex text =
     (let t0 = dropWhile is_ws text;
          negative = (case t0 of c # _ \<Rightarrow> c = CHR ''-'' | [] \<Rightarrow> False);
          t1 = (case t0 of c # rest \<Rightarrow> if c = CHR ''-'' \<or> c = CHR ''+'' then rest else t0 | [] \<Rightarrow> []);
          t2 = (if take 2 t1 = ''0x'' \<or> take 2 t1 = ''0X'' then drop 2 t1 else t1);
          digits = takeWhile (\<lambda>c. hex_value c \<noteq> None) t2
      in if digits = [] then NaN
         else if negative then num_neg (num_of_nat (hex_number digits)) else num_of_nat (hex_number digits))"

definition hmacHexToUnitFloat :: "string \<Rightarrow> jsnum" where
  "hmacHexToUnitFloat hex = num_div (parse_hex (take 8 hex)) (Fin 4294967296)"

definition computeHoldoutDraw ::
  "(string \<Rightarrow> string \<Rightarrow> string) \<Rightarrow> string \<Rightarrow> string \<Rightarrow> holdout_store \<Rightarrow> holdout_store \<times> jsnum" where
  "computeHoldoutDraw hmac generated seed s =
     (let (s1, secret) = getOrCreateCloseAuditHoldoutSecret generated s in (s1, hmacHexToUnitFloat (hmac secret seed)))"


section \<open>The holdout\<close>

definition holdout_eligible :: "PlannedAgentAction \<Rightarrow> bool" where
  "holdout_eligible action \<longleftrightarrow>
     pa_actionClass action = ClassClose \<and> pa_closeKind action = Some KindHeuristic \<and> \<not> pa_requiresApproval action"

definition holdoutEligibleClose :: "PlannedAgentAction list \<Rightarrow> PlannedAgentAction option" where
  "holdoutEligibleClose planned = List.find holdout_eligible planned"

definition applyCloseAuditHoldout ::
  "PlannedAgentAction list \<Rightarrow> 'a AgentDispositionLabelSettings_scheme \<Rightarrow> PlannedAgentAction list" where
  "applyCloseAuditHoldout planned labelSettings =
     withManualReviewHoldLabel (filter (\<lambda>action. \<not> holdout_eligible action) planned) labelSettings
       (hold_action ClassClose False
          (''close-audit holdout drew this PR '' @ em_dash @ '' would-close held for human adjudication (#8831)''))"

record DecisionReplayHoldout =
  dh_epsilonPct :: jsnum
  dh_draw :: jsnum
  dh_diverted :: bool

text \<open>What the world answers: the bytes for a new secret, and whether the audit event and the label row could be written.\<close>

record holdout_answers =
  ha_generated :: string
  ha_event_written :: bool
  ha_label_written :: bool

definition record_event :: "holdout_event \<Rightarrow> holdout_store \<Rightarrow> holdout_store" where
  "record_event e s = s \<lparr>hs_events := hs_events s @ [e]\<rparr>"

definition holdout_row :: "string \<Rightarrow> string" where
  "holdout_row targetId = take 190 (''audit:'' @ targetId)"

definition insert_label :: "string \<Rightarrow> holdout_store \<Rightarrow> holdout_store" where
  "insert_label targetId s =
     (let rowId = holdout_row targetId
      in if rowId \<in> set (hs_labelIds s) then s else s \<lparr>hs_labelIds := hs_labelIds s @ [rowId]\<rparr>)"

definition maybeApplyCloseAuditHoldout ::
  "(string \<Rightarrow> string \<Rightarrow> string) \<Rightarrow> holdout_answers \<Rightarrow> string \<Rightarrow> nat \<Rightarrow> string option \<Rightarrow> PlannedAgentAction list \<Rightarrow> jsnum option \<Rightarrow> bool \<Rightarrow>
   'a AgentDispositionLabelSettings_scheme \<Rightarrow> holdout_store \<Rightarrow>
   holdout_store \<times> PlannedAgentAction list \<times> DecisionReplayHoldout option" where
  "maybeApplyCloseAuditHoldout hmac answers repoFullName pullNumber headSha planned epsilon closeAutonomyIsAuto labelSettings s =
     (let epsilonPct = or_default epsilon (Fin 0)
      in if num_le epsilonPct (Fin 0) \<or> \<not> closeAutonomyIsAuto then (s, planned, None)
         else if holdoutEligibleClose planned = None then (s, planned, None)
         else
           let (s1, draw) = computeHoldoutDraw hmac (ha_generated answers) (holdoutSeed repoFullName pullNumber headSha) s
           in if num_ge draw (num_div epsilonPct (Fin 100))
              then (s1, planned, Some \<lparr>dh_epsilonPct = epsilonPct, dh_draw = draw, dh_diverted = False\<rparr>)
              else
                let targetId = repoFullName @ ''#'' @ show_nat pullNumber;
                    kept = Some \<lparr>dh_epsilonPct = epsilonPct, dh_draw = draw, dh_diverted = False\<rparr>
                in if \<not> ha_event_written answers then (s1, planned, kept)
                   else
                     let s2 = record_event \<lparr>he_targetKey = targetId, he_epsilonPct = epsilonPct, he_draw = draw\<rparr> s1
                     in if \<not> ha_label_written answers then (s2, planned, kept)
                        else (insert_label targetId s2, applyCloseAuditHoldout planned labelSettings,
                              Some \<lparr>dh_epsilonPct = epsilonPct, dh_draw = draw, dh_diverted = True\<rparr>))"


section \<open>What the holdout does to a plan\<close>

lemma holdout_mem:
  assumes "a \<in> set (applyCloseAuditHoldout acts settings)"
  shows "\<not> holdout_eligible a \<and> (a \<in> set acts \<or> hold_label_of ClassClose settings a)"
  using with_hold_mem[OF assms[unfolded applyCloseAuditHoldout_def]] by (auto simp: hold_label_of_def holdout_eligible_def)

lemma holdout_keeps:
  assumes "a \<in> set acts" "pa_actionClass a \<noteq> ClassLabel" "\<not> holdout_eligible a"
  shows "a \<in> set (applyCloseAuditHoldout acts settings)"
  unfolding applyCloseAuditHoldout_def using assms by (intro with_hold_keeps) simp_all

lemma holdout_holds:
  assumes "manual_label settings = Some l"
  shows "\<exists>a \<in> set (applyCloseAuditHoldout acts settings). adds_label l a"
    and "\<forall>a \<in> set (applyCloseAuditHoldout acts settings). \<not> removes_label l a"
  unfolding applyCloseAuditHoldout_def using with_hold_held[OF assms] by blast+

text \<open>The holdout keeps the contract of the circuit breakers.\<close>

interpretation hb: plan_breaker "\<lambda>acts. applyCloseAuditHoldout acts settings" "manual_label settings" for settings
proof
  show "a \<in> set acts \<or> pa_actionClass a = ClassLabel \<and> pa_label a = manual_label settings \<and> pa_labelOp a = Some LabelAdd"
    if "a \<in> set (applyCloseAuditHoldout acts settings)" for a acts
    using holdout_mem[OF that] by (auto simp: hold_label_of_def)
  show "peaceful (applyCloseAuditHoldout acts settings)" if "peaceful acts" for acts
    unfolding applyCloseAuditHoldout_def by (rule with_hold_peaceful) (rule peaceful_subset[OF that], auto)
qed

lemma eligible_found: "holdoutEligibleClose planned = None \<longleftrightarrow> (\<forall>c \<in> set planned. \<not> holdout_eligible c)"
  by (auto simp: holdoutEligibleClose_def find_None_iff)

lemma holdout_changes: "c \<in> set acts \<Longrightarrow> holdout_eligible c \<Longrightarrow> applyCloseAuditHoldout acts settings \<noteq> acts"
  using holdout_mem by metis

lemma insert_label_simps [simp]:
  "hs_events (insert_label t s) = hs_events s" "hs_secret (insert_label t s) = hs_secret s"
  "holdout_row t \<in> set (hs_labelIds (insert_label t s))"
  by (simp_all add: insert_label_def Let_def)

lemma record_event_simps [simp]:
  "hs_events (record_event e s) = hs_events s @ [e]" "hs_secret (record_event e s) = hs_secret s"
  by (simp_all add: record_event_def)

lemma draw_events [simp]: "hs_events (fst (computeHoldoutDraw hmac g seed s)) = hs_events s"
  by (auto simp: computeHoldoutDraw_def getOrCreateCloseAuditHoldoutSecret_def Let_def split: option.splits prod.splits)

lemma holdout_cases:
  assumes run: "maybeApplyCloseAuditHoldout hmac ans repo n head planned eps auto settings s = (s', planned', outcome)"
  obtains (off) "s' = s" "planned' = planned" "outcome = None"
  | (drawn) h d where "auto" "\<not> num_le (or_default eps (Fin 0)) (Fin 0)" "\<exists>c \<in> set planned. holdout_eligible c"
      "computeHoldoutDraw hmac (ha_generated ans) (holdoutSeed repo n head) s = (h, d)" "hs_secret s' = hs_secret h"
      "outcome = Some \<lparr>dh_epsilonPct = or_default eps (Fin 0), dh_draw = d, dh_diverted =
         (\<not> num_ge d (num_div (or_default eps (Fin 0)) (Fin 100)) \<and> ha_event_written ans \<and> ha_label_written ans)\<rparr>"
      "planned' = (if \<not> num_ge d (num_div (or_default eps (Fin 0)) (Fin 100)) \<and> ha_event_written ans \<and> ha_label_written ans
         then applyCloseAuditHoldout planned settings else planned)"
      "\<not> num_ge d (num_div (or_default eps (Fin 0)) (Fin 100)) \<and> ha_event_written ans \<and> ha_label_written ans \<Longrightarrow>
         hs_events s' = hs_events s @ [\<lparr>he_targetKey = repo @ ''#'' @ show_nat n, he_epsilonPct = or_default eps (Fin 0), he_draw = d\<rparr>] \<and>
         holdout_row (repo @ ''#'' @ show_nat n) \<in> set (hs_labelIds s')"
proof (cases "(num_le (or_default eps (Fin 0)) (Fin 0) \<or> \<not> auto) \<or> holdoutEligibleClose planned = None")
  case True
  then show thesis using run off by (auto simp: maybeApplyCloseAuditHoldout_def Let_def split: if_splits)
next
  case False
  obtain h d where hd: "computeHoldoutDraw hmac (ha_generated ans) (holdoutSeed repo n head) s = (h, d)" by fastforce
  have ev: "hs_events h = hs_events s" using draw_events[of hmac "ha_generated ans" "holdoutSeed repo n head" s] by (simp add: hd)
  have body: "maybeApplyCloseAuditHoldout hmac ans repo n head planned eps auto settings s =
    (let targetId = repo @ ''#'' @ show_nat n;
         kept = Some \<lparr>dh_epsilonPct = or_default eps (Fin 0), dh_draw = d, dh_diverted = False\<rparr>;
         s2 = record_event \<lparr>he_targetKey = targetId, he_epsilonPct = or_default eps (Fin 0), he_draw = d\<rparr> h
     in if num_ge d (num_div (or_default eps (Fin 0)) (Fin 100)) then (h, planned, kept)
        else if \<not> ha_event_written ans then (h, planned, kept)
        else if \<not> ha_label_written ans then (s2, planned, kept)
        else (insert_label targetId s2, applyCloseAuditHoldout planned settings,
              Some \<lparr>dh_epsilonPct = or_default eps (Fin 0), dh_draw = d, dh_diverted = True\<rparr>))"
    using False unfolding maybeApplyCloseAuditHoldout_def Let_def hd by (simp del: append.simps)
  note run' = run[unfolded body Let_def]
  have on: "auto" "\<not> num_le (or_default eps (Fin 0)) (Fin 0)" "\<exists>c \<in> set planned. holdout_eligible c"
    using False by (auto simp: eligible_found)
  show thesis
    by (rule drawn[OF on hd]) (use run' ev in \<open>auto simp del: append.simps split: if_splits\<close>)
qed

text \<open>
  The holdout only ever defers an automatic close of the gate's own judgment. The plan changes exactly when the outcome says that it
  was diverted; then closes are on full autonomy, the percentage is not zero, the draw fell below it, and the draw and the row for the
  adjudicator were written before. The diverted plan has no such close left, nothing new but a manual-review label under the close
  class, every other action that is not a label, and, where that label is configured, it plans it and does not release it.
\<close>

theorem holdout_only_defers_closes:
  fixes s s' :: holdout_store and eps :: "jsnum option"
  assumes run: "maybeApplyCloseAuditHoldout hmac ans repo n head planned eps auto settings s = (s', planned', outcome)"
  shows "(planned' \<noteq> planned \<longleftrightarrow> (\<exists>h. outcome = Some h \<and> dh_diverted h)) \<and>
    (planned' \<noteq> planned \<longrightarrow>
      auto \<and> \<not> num_le (or_default eps (Fin 0)) (Fin 0) \<and> (\<exists>c \<in> set planned. holdout_eligible c) \<and>
      (\<exists>d. \<not> num_ge d (num_div (or_default eps (Fin 0)) (Fin 100)) \<and>
         hs_events s' = hs_events s @ [\<lparr>he_targetKey = repo @ ''#'' @ show_nat n, he_epsilonPct = or_default eps (Fin 0), he_draw = d\<rparr>] \<and>
         holdout_row (repo @ ''#'' @ show_nat n) \<in> set (hs_labelIds s')) \<and>
      (\<forall>a \<in> set planned'. \<not> holdout_eligible a \<and> (a \<in> set planned \<or> hold_label_of ClassClose settings a)) \<and>
      (\<forall>a \<in> set planned. pa_actionClass a \<noteq> ClassLabel \<and> \<not> holdout_eligible a \<longrightarrow> a \<in> set planned') \<and>
      (\<forall>l. manual_label settings = Some l \<longrightarrow>
         (\<exists>a \<in> set planned'. adds_label l a) \<and> (\<forall>a \<in> set planned'. \<not> removes_label l a)))"
  using run
proof (cases rule: holdout_cases)
  case (drawn h d)
  show ?thesis
  proof (cases "\<not> num_ge d (num_div (or_default eps (Fin 0)) (Fin 100)) \<and> ha_event_written ans \<and> ha_label_written ans")
    case True
    have p: "planned' = applyCloseAuditHoldout planned settings" using drawn(7) True by simp
    have "planned' \<noteq> planned" using drawn(3) holdout_changes unfolding p by blast
    moreover have "\<exists>h. outcome = Some h \<and> dh_diverted h" using drawn(6) True by simp
    moreover have "(\<forall>a \<in> set planned'. \<not> holdout_eligible a \<and> (a \<in> set planned \<or> hold_label_of ClassClose settings a)) \<and>
      (\<forall>a \<in> set planned. pa_actionClass a \<noteq> ClassLabel \<and> \<not> holdout_eligible a \<longrightarrow> a \<in> set planned')"
      using holdout_mem holdout_keeps unfolding p by blast
    moreover have "\<forall>l. manual_label settings = Some l \<longrightarrow>
         (\<exists>a \<in> set planned'. adds_label l a) \<and> (\<forall>a \<in> set planned'. \<not> removes_label l a)"
      using holdout_holds unfolding p by blast
    ultimately show ?thesis using drawn(1-3) drawn(8)[OF True] True by blast
  next
    case False
    have "planned' = planned" using drawn(7) unfolding if_not_P[OF False] .
    moreover have "\<forall>h. outcome = Some h \<longrightarrow> \<not> dh_diverted h" using drawn(6) False by simp
    ultimately show ?thesis by blast
  qed
qed simp

text \<open>A heuristic close, a repository that holds back a fifth of them, and a keyed hash that answers \<open>00\<close> throughout.\<close>

abbreviation drawn_close :: PlannedAgentAction where
  "drawn_close \<equiv> (action_of ClassClose False ''failing checks'') \<lparr>pa_closeKind := Some KindHeuristic\<rparr>"

abbreviation no_label_settings :: AgentDispositionLabelSettings where
  "no_label_settings \<equiv> \<lparr>ls_manualReviewLabel = None, ls_readyToMergeLabel = None, ls_changesRequestedLabel = None,
     ls_migrationCollisionLabel = None, ls_pendingClosureLabel = None\<rparr>"

definition zero_hmac :: "string \<Rightarrow> string \<Rightarrow> string" where
  "zero_hmac key text = replicate 64 (CHR ''0'')"

abbreviation fresh_holdouts :: holdout_store where
  "fresh_holdouts \<equiv> \<lparr>hs_secret = None, hs_events = [], hs_labelIds = []\<rparr>"

abbreviation drawn_on :: "holdout_store \<Rightarrow> bool \<Rightarrow> holdout_store \<times> PlannedAgentAction list \<times> DecisionReplayHoldout option" where
  "drawn_on s labelWritten \<equiv> maybeApplyCloseAuditHoldout zero_hmac
     \<lparr>ha_generated = generateHoldoutSecret [1, 255], ha_event_written = True, ha_label_written = labelWritten\<rparr>
     ''o/r'' 7 (Some ''abc'') [drawn_close] (Some (Fin 20)) True no_label_settings s"

abbreviation drawn_run :: "bool \<Rightarrow> holdout_store \<times> PlannedAgentAction list \<times> DecisionReplayHoldout option" where
  "drawn_run labelWritten \<equiv> drawn_on fresh_holdouts labelWritten"

lemma num_max_gt1: "1 < num_max"
  using num_max_large by (rule less_trans[rotated]) simp

lemma fifth: "num_of_rat (1 / 5) = Fin (1 / 5)"
  using num_max_gt1 by (simp add: num_of_rat_def)

lemma zero_draw: "hmacHexToUnitFloat (zero_hmac key text) = Fin 0"
proof -
  have "parse_hex (take 8 (replicate 64 (CHR ''0''))) = Fin 0" by code_simp
  then show ?thesis by (simp add: hmacHexToUnitFloat_def zero_hmac_def num_of_rat_def del: take_replicate)
qed

lemma drawn_run_eq:
  "drawn_run written =
     (\<lparr>hs_secret = Some ''01ff'', hs_events = [\<lparr>he_targetKey = ''o/r#7'', he_epsilonPct = Fin 20, he_draw = Fin 0\<rparr>],
       hs_labelIds = (if written then [''audit:o/r#7''] else [])\<rparr>,
      if written then applyCloseAuditHoldout [drawn_close] no_label_settings else [drawn_close],
      Some \<lparr>dh_epsilonPct = Fin 20, dh_draw = Fin 0, dh_diverted = written\<rparr>)"
proof -
  have parts: "generateHoldoutSecret [1, 255] = ''01ff''" "show_nat 7 = ''7''" "holdout_row ''o/r#7'' = ''audit:o/r#7''"
    "holdoutEligibleClose [drawn_close] \<noteq> None"
    by code_simp+
  show ?thesis
    using parts unfolding maybeApplyCloseAuditHoldout_def computeHoldoutDraw_def getOrCreateCloseAuditHoldoutSecret_def
    by (simp add: flag_read_def flag_insert_def zero_draw record_event_def insert_label_def Let_def or_default_def fifth)
qed

lemma drawn_outcome: "snd (snd (drawn_on s written)) = Some \<lparr>dh_epsilonPct = Fin 20, dh_draw = Fin 0, dh_diverted = written\<rparr>"
proof -
  have "holdoutEligibleClose [drawn_close] \<noteq> None" by code_simp
  then show ?thesis
    unfolding maybeApplyCloseAuditHoldout_def computeHoldoutDraw_def
    by (simp add: zero_draw Let_def or_default_def fifth case_prod_beta)
qed

lemma drawn_plan: "map pa_actionClass (applyCloseAuditHoldout [drawn_close] no_label_settings) = [ClassLabel]"
  by code_simp

theorem holdout_only_defers_closes_witness:
  "fst (snd (drawn_run True)) \<noteq> [drawn_close] \<and> (\<forall>a \<in> set (fst (snd (drawn_run True))). \<not> holdout_eligible a) \<and>
   (\<exists>a \<in> set (fst (snd (drawn_run True))). adds_label AGENT_LABEL_NEEDS_REVIEW a)"
proof -
  have ne: "fst (snd (drawn_run True)) \<noteq> [drawn_close]"
    using drawn_plan unfolding drawn_run_eq by (auto simp: action_of_def dest: arg_cong[of _ _ "map pa_actionClass"])
  have l: "manual_label no_label_settings = Some AGENT_LABEL_NEEDS_REVIEW" by code_simp
  have "drawn_run True = (fst (drawn_run True), fst (snd (drawn_run True)), snd (snd (drawn_run True)))" by simp
  from holdout_only_defers_closes[OF this] ne l show ?thesis by blast
qed

text \<open>The record of the draw and the row for the adjudicator do not land together: when the row cannot be written the close goes
  ahead, and the record that says it was held stays.\<close>

theorem failed_label_row_leaves_the_record:
  "fst (snd (drawn_run False)) = [drawn_close] \<and>
   hs_events (fst (drawn_run False)) = [\<lparr>he_targetKey = ''o/r#7'', he_epsilonPct = Fin 20, he_draw = Fin 0\<rparr>] \<and>
   hs_labelIds (fst (drawn_run False)) = []"
  unfolding drawn_run_eq by simp


section \<open>One secret, one draw\<close>

lemma secret_settles:
  assumes "getOrCreateCloseAuditHoldoutSecret g s = (s1, k)" "hs_secret t = hs_secret s1"
  shows "getOrCreateCloseAuditHoldoutSecret g' t = (t, k)"
  using assms
  by (auto simp: getOrCreateCloseAuditHoldoutSecret_def flag_read_def flag_insert_def Let_def or_default_def
      split: option.splits if_splits)

lemma hex_number_bound:
  "list_all (\<lambda>c. hex_value c \<noteq> None) ds \<Longrightarrow> foldl (\<lambda>acc d. 16 * acc + or_default (hex_value d) 0) acc ds < (acc + 1) * 16 ^ length ds"
proof (induction ds arbitrary: acc)
  case (Cons c ds)
  then obtain v where v: "hex_value c = Some v" by auto
  then have "v < 16" by (auto simp: hex_value_def Let_def split: if_splits)
  then have "(16 * acc + v + 1) * 16 ^ length ds \<le> (acc + 1) * 16 ^ length (c # ds)"
    by (simp add: algebra_simps)
  then show ?case using Cons.IH[of "16 * acc + v"] Cons.prems v by (simp add: or_default_def)
qed simp

lemma hex_plain:
  assumes "list_all (\<lambda>c. hex_value c \<noteq> None) ds" "ds \<noteq> []"
  shows "parse_hex ds = num_of_nat (hex_number ds)"
proof -
  obtain c ds' where ds: "ds = c # ds'" using assms(2) by (cases ds) auto
  have c: "\<not> is_ws c" "c \<noteq> CHR ''-''" "c \<noteq> CHR ''+''"
    using assms(1) unfolding ds by (auto simp: hex_value_def is_ws_def Let_def split: if_splits)
  have x: "(take 2 ds = ''0x'' \<or> take 2 ds = ''0X'') = False"
    using assms(1) unfolding ds by (cases ds') (auto simp: hex_value_def)
  have t: "dropWhile is_ws ds = ds" "(case ds of c # _ \<Rightarrow> c = CHR ''-'' | [] \<Rightarrow> False) = False"
    "(case ds of c # rest \<Rightarrow> if c = CHR ''-'' \<or> c = CHR ''+'' then rest else ds | [] \<Rightarrow> []) = ds"
    "takeWhile (\<lambda>c. hex_value c \<noteq> None) ds = ds"
    using assms(1) c by (simp_all add: ds takeWhile_eq_all_conv list_all_iff del: takeWhile.simps)
  show ?thesis using assms(2) unfolding parse_hex_def Let_def t x if_False by simp
qed

lemma unit_float:
  assumes "8 \<le> length hex" "list_all (\<lambda>c. hex_value c \<noteq> None) (take 8 hex)"
  shows "\<exists>k < 2 ^ 32. hmacHexToUnitFloat hex = Fin (of_nat k / 4294967296)"
proof (intro exI conjI)
  have len: "length (take 8 hex) = 8" using assms(1) by simp
  then show bound: "hex_number (take 8 hex) < 2 ^ 32"
    using hex_number_bound[OF assms(2), of 0] unfolding hex_number_def len by simp
  have "take 8 hex \<noteq> []" using len by force
  then have p: "parse_hex (take 8 hex) = num_of_nat (hex_number (take 8 hex))" using hex_plain[OF assms(2)] by blast
  have "rat_of_nat (hex_number (take 8 hex)) / 4294967296 < 1" 
  proof -
    have "rat_of_nat (hex_number (take 8 hex)) < rat_of_nat (2 ^ 32)" using bound by (simp only: of_nat_less_iff)
    then show ?thesis by simp
  qed
  then have "rat_of_nat (hex_number (take 8 hex)) / 4294967296 < num_max" using num_max_gt1 by (rule less_trans)
  then show "hmacHexToUnitFloat hex = Fin (of_nat (hex_number (take 8 hex)) / 4294967296)"
    unfolding hmacHexToUnitFloat_def p num_div.simps num_of_rat_def by (auto simp: not_le intro: less_le_trans)
qed

lemma below_threshold:
  "num_ge (Fin (of_nat k / 4294967296)) (num_div (Fin e) (Fin 100)) \<longleftrightarrow> \<not> of_nat k * 100 < e * 4294967296"
  if "representable (Fin (e / 100))"
proof -
  have "num_div (Fin e) (Fin 100) = Fin (e / 100)" using that by (auto simp: representable_def num_of_rat_def)
  then show ?thesis by (simp add: field_simps not_less)
qed

text \<open>
  A decision is drawn once. However often the pull request is evaluated at the same head, in whatever state its plan, its percentage
  and the records are by then, the draw is the one of the first evaluation; it is one of the \<open>2 ^ 32\<close> evenly spaced numbers from 0 to
  below 1, so that of them those below the percentage are diverted. The keyed hash need only answer with hexadecimal digits.
\<close>

theorem holdout_draws_once:
  assumes hex: "\<And>key text. 8 \<le> length (hmac key text) \<and> list_all (\<lambda>c. hex_value c \<noteq> None) (take 8 (hmac key text))"
    and first: "maybeApplyCloseAuditHoldout hmac ans repo n head planned eps auto settings s = (s1, p1, Some h1)"
    and kept: "hs_secret t = hs_secret s1"
    and again: "maybeApplyCloseAuditHoldout hmac ans' repo n head planned' eps' auto' settings' t = (t1, p2, Some h2)"
  shows "dh_draw h2 = dh_draw h1 \<and> hs_secret t1 = hs_secret s1 \<and>
    (\<exists>k < 2 ^ 32. dh_draw h1 = Fin (of_nat k / 4294967296) \<and>
       (\<forall>e. eps = Some (Fin e) \<and> representable (Fin (e / 100)) \<longrightarrow>
          (dh_diverted h1 \<longleftrightarrow> of_nat k * 100 < e * 4294967296 \<and> ha_event_written ans \<and> ha_label_written ans)))"
  using first
proof (cases rule: holdout_cases)
  case (drawn h d)
  note one = this
  obtain key where g: "getOrCreateCloseAuditHoldoutSecret (ha_generated ans) s = (h, key)" "d = hmacHexToUnitFloat (hmac key (holdoutSeed repo n head))"
    using one(4) by (auto simp: computeHoldoutDraw_def split: prod.splits)
  obtain k where k: "k < 2 ^ 32" "d = Fin (of_nat k / 4294967296)" using unit_float hex g(2) by blast
  have div: "dh_diverted h1 \<longleftrightarrow> of_nat k * 100 < e * 4294967296 \<and> ha_event_written ans \<and> ha_label_written ans"
    if "eps = Some (Fin e)" "representable (Fin (e / 100))" for e
    using one(6) below_threshold[OF that(2), of k] that(1) k(2) by (auto simp: or_default_def)
  have settled: "getOrCreateCloseAuditHoldoutSecret (ha_generated ans') t = (t, key)"
    by (rule secret_settles[OF g(1)]) (use kept one(5) in simp)
  from again show ?thesis
  proof (cases rule: holdout_cases)
    case (drawn h' d')
    then have "d' = d" "h' = t" using settled g(2) by (simp_all add: computeHoldoutDraw_def)
    then show ?thesis using drawn(5,6) one(6) k div kept by auto
  qed simp
qed simp

lemma zero_hmac_hex: "8 \<le> length (zero_hmac key text) \<and> list_all (\<lambda>c. hex_value c \<noteq> None) (take 8 (zero_hmac key text))"
  by (simp add: zero_hmac_def hex_value_def list_all_iff)

theorem holdout_draws_once_witness:
  "hs_secret (fst (drawn_on (fst (drawn_run True)) False)) = hs_secret (fst (drawn_run True)) \<and>
   (\<exists>k < 2 ^ 32. Fin 0 = Fin (of_nat k / 4294967296))"
proof -
  have r: "drawn_on s b = (fst (drawn_on s b), fst (snd (drawn_on s b)), Some \<lparr>dh_epsilonPct = Fin 20, dh_draw = Fin 0, dh_diverted = b\<rparr>)"
    for s b
    using drawn_outcome[where s = s and written = b] by (metis prod.collapse)
  show ?thesis
    using holdout_draws_once[OF zero_hmac_hex r[where s = fresh_holdouts and b = True] refl
        r[where s = "fst (drawn_run True)" and b = False]] by (auto simp: drawn_outcome)
qed


text \<open>
  The creation of the secret, with any number of processes on one database: each reads the row, inserts its own bytes unless a row is
  there, and reads again.
\<close>

datatype secret_pc = SecretStart | SecretMissing | SecretInserted | SecretDone string

inductive secret_step :: "(nat \<Rightarrow> string) \<Rightarrow> string option \<times> (nat \<Rightarrow> secret_pc) \<Rightarrow> string option \<times> (nat \<Rightarrow> secret_pc) \<Rightarrow> bool"
  for generated :: "nat \<Rightarrow> string" where
  secret_found: "pcs p = SecretStart \<Longrightarrow> flag_read row = Some k \<Longrightarrow>
    secret_step generated (row, pcs) (row, pcs(p := SecretDone k))"
| secret_missing: "pcs p = SecretStart \<Longrightarrow> flag_read row = None \<Longrightarrow>
    secret_step generated (row, pcs) (row, pcs(p := SecretMissing))"
| secret_inserted: "pcs p = SecretMissing \<Longrightarrow>
    secret_step generated (row, pcs) (flag_insert (generated p) row, pcs(p := SecretInserted))"
| secret_reread: "pcs p = SecretInserted \<Longrightarrow>
    secret_step generated (row, pcs) (row, pcs(p := SecretDone (or_default row (generated p))))"

definition secret_inv :: "string option \<times> (nat \<Rightarrow> secret_pc) \<Rightarrow> bool" where
  "secret_inv c \<longleftrightarrow> (\<forall>p k. snd c p = SecretDone k \<longrightarrow> fst c = Some k) \<and> (\<forall>p. snd c p = SecretInserted \<longrightarrow> fst c \<noteq> None)"

lemma secret_inv_step: "secret_step generated c c' \<Longrightarrow> secret_inv c \<Longrightarrow> secret_inv c'"
  by (induction rule: secret_step.induct)
    (auto simp: secret_inv_def flag_read_def flag_insert_def or_default_def split: if_splits option.splits)

lemma secret_inv_reachable: "(secret_step generated)\<^sup>*\<^sup>* c c' \<Longrightarrow> secret_inv c \<Longrightarrow> secret_inv c'"
  by (induction rule: rtranclp_induct) (auto intro: secret_inv_step)

text \<open>A process that is not disturbed ends with what \<open>getOrCreateCloseAuditHoldoutSecret\<close> returns.\<close>

lemma secret_run_alone:
  assumes "pcs p = SecretStart" "getOrCreateCloseAuditHoldoutSecret (generated p) s = (s1, k)"
  shows "(secret_step generated)\<^sup>*\<^sup>* (hs_secret s, pcs) (hs_secret s1, pcs(p := SecretDone k))"
proof (cases "flag_read (hs_secret s)")
  case (Some existing)
  then have "s1 = s" "k = existing" using assms(2) by (simp_all add: getOrCreateCloseAuditHoldoutSecret_def)
  then show ?thesis using secret_found[of pcs p "hs_secret s"] assms(1) Some by blast
next
  case None
  let ?row = "flag_insert (generated p) (hs_secret s)"
  have r: "hs_secret s1 = ?row" "k = or_default ?row (generated p)"
    using assms(2) None by (auto simp: getOrCreateCloseAuditHoldoutSecret_def Let_def)
  have a: "secret_step generated (hs_secret s, pcs) (hs_secret s, pcs(p := SecretMissing))"
    by (rule secret_missing[of pcs p, OF assms(1) None])
  have b: "secret_step generated (hs_secret s, pcs(p := SecretMissing)) (?row, pcs(p := SecretInserted))"
    using secret_inserted[of "pcs(p := SecretMissing)" p generated "hs_secret s"] by simp
  have c: "secret_step generated (?row, pcs(p := SecretInserted)) (?row, pcs(p := SecretDone (or_default ?row (generated p))))"
    using secret_reread[of "pcs(p := SecretInserted)" p generated ?row] by simp
  show ?thesis
    unfolding r using a b c by (meson converse_rtranclp_into_rtranclp r_into_rtranclp)
qed

text \<open>Whatever the processes do, all that have finished hold the same secret, and it is the one in the database.\<close>

theorem one_secret_for_all:
  assumes reach: "(secret_step generated)\<^sup>*\<^sup>* (row0, \<lambda>_. SecretStart) (row, pcs)"
    and finished: "pcs p = SecretDone k" "pcs q = SecretDone k'"
  shows "k' = k \<and> row = Some k"
proof -
  have "secret_inv (row0, \<lambda>_. SecretStart)" by (simp add: secret_inv_def)
  from secret_inv_reachable[OF reach this] have "row = Some k" "row = Some k'" using finished by (auto simp: secret_inv_def)
  then show ?thesis by simp
qed

text \<open>Two processes that both find no row: the second keeps the first one's bytes.\<close>

theorem one_secret_for_all_witness:
  "\<exists>row pcs. (secret_step show_nat)\<^sup>*\<^sup>* (None, \<lambda>_. SecretStart) (row, pcs) \<and> pcs 1 = SecretDone (show_nat 0) \<and> row = Some (show_nat 0)"
proof -
  let ?m = "(\<lambda>_. SecretStart)(1 := SecretMissing)"
  let ?d = "?m(0 := SecretDone (show_nat 0))"
  have "getOrCreateCloseAuditHoldoutSecret (show_nat 0) fresh_holdouts = (fresh_holdouts \<lparr>hs_secret := Some (show_nat 0)\<rparr>, show_nat 0)"
    by (simp add: getOrCreateCloseAuditHoldoutSecret_def flag_read_def flag_insert_def or_default_def)
  from secret_run_alone[of ?m 0 show_nat, OF _ this] have one: "(secret_step show_nat)\<^sup>*\<^sup>* (None, ?m) (Some (show_nat 0), ?d)" by simp
  have start: "secret_step show_nat (None, \<lambda>_. SecretStart) (None, ?m)" by (rule secret_missing) (simp_all add: flag_read_def)
  have "secret_step show_nat (Some (show_nat 0), ?d) (Some (show_nat 0), ?d(1 := SecretInserted))"
    using secret_inserted[of ?d 1 show_nat "Some (show_nat 0)"] by (simp add: flag_insert_def)
  moreover have "secret_step show_nat (Some (show_nat 0), ?d(1 := SecretInserted)) (Some (show_nat 0), ?d(1 := SecretDone (show_nat 0)))"
    using secret_reread[of "?d(1 := SecretInserted)" 1 show_nat "Some (show_nat 0)"] by (simp add: or_default_def)
  ultimately have reach: "(secret_step show_nat)\<^sup>*\<^sup>* (None, \<lambda>_. SecretStart) (Some (show_nat 0), ?d(1 := SecretDone (show_nat 0)))"
    using one start by (meson converse_rtranclp_into_rtranclp rtranclp.rtrancl_into_rtrancl)
  have "(?d(1 := SecretDone (show_nat 0))) 0 = SecretDone (show_nat 0)" "(?d(1 := SecretDone (show_nat 0))) 1 = SecretDone (show_nat 0)"
    by simp_all
  from one_secret_for_all[OF reach this] reach show ?thesis by (intro exI[of _ "Some (show_nat 0)"] exI[of _ "?d(1 := SecretDone (show_nat 0))"]) simp
qed

end
