(* ===== verification/Plan_Input.thy ===== *)
theory Plan_Input
  imports Agent_Plan Agent_Executor Close_Holdout
begin

text \<open>
  How the maintainer's pass is put together (\<open>src/queue/processors.ts\<close>): \<open>buildAgentMaintenancePlanInput\<close> shapes the
  gate's verdict, the settings, the stored pull request and the live reads into the planner's input, the planner plans, the
  circuit breakers of \<open>applyPrecisionBreakers\<close> and the close-audit holdout rewrite the plan, a forced rebase may end the
  pass, and otherwise the executor carries the plan out (\<open>runAgentMaintenancePlanAndExecute\<close>). The two helpers of
  \<open>src/queue/duplicate-detection.ts\<close> that tell the planner about a duplicate cluster are here as well.

  The pass is the composition of definitions of the other theories, so its theorem speaks about the whole way from the
  gate's findings to the call that merges. The matches and holds that other detectors compute arrive as arguments, as in
  the source. \<open>parse_date\<close> is \<open>Date.parse\<close>.
\<close>

section \<open>Duplicate clusters\<close>

definition dupWinnerLinkedDuplicateCount ::
  "(string \<Rightarrow> jsnum) \<Rightarrow> DuplicateClaimMember list \<Rightarrow> nat \<Rightarrow> string option \<Rightarrow> bool \<Rightarrow> nat" where
  "dupWinnerLinkedDuplicateCount parse_date openSiblings prNumber linkedIssueClaimedAt duplicateWinnerEnabled =
     (if duplicateWinnerEnabled \<and>
         isDuplicateClusterWinnerByClaim parse_date \<lparr>dm_number = prNumber, dm_linkedIssueClaimedAt = linkedIssueClaimedAt\<rparr> openSiblings
      then 0 else length openSiblings)"

definition dupWinnerLinkedDuplicateWinnerNumber ::
  "(string \<Rightarrow> jsnum) \<Rightarrow> DuplicateClaimMember list \<Rightarrow> nat \<Rightarrow> string option \<Rightarrow> bool \<Rightarrow> nat option" where
  "dupWinnerLinkedDuplicateWinnerNumber parse_date openSiblings prNumber linkedIssueClaimedAt duplicateWinnerEnabled =
     (if \<not> duplicateWinnerEnabled then None
      else
        let winner = resolveDuplicateClusterWinnerNumber parse_date
              \<lparr>dm_number = prNumber, dm_linkedIssueClaimedAt = linkedIssueClaimedAt\<rparr> openSiblings
        in if winner = None \<or> winner = Some prNumber then None else winner)"


section \<open>The planner's input\<close>

record maintain_settings = AgentDispositionLabelSettings +
  bs_autonomy :: "AutonomyPolicy option"
  bs_autoMaintain :: "AutoMaintainPolicy option"
  bs_slopGateMinScore :: "jsnum option"
  bs_guardrailEscalationOnCleanReview :: "OnCleanReview option"
  bs_guardrailEscalationEffort :: "string option"
  bs_guardrailEscalationSelfConsistencyRuns :: "jsnum option"
  bs_guardrailEscalationModel :: "string option"
  bs_guardrailEscalationProvider :: "string option"
  bs_closeOwnerAuthors :: bool
  bs_blacklistLabel :: "string option option"
  bs_copycatGateMode :: "CopycatGateMode option"
  bs_copycatGateMinScore :: "jsnum option"
  bs_contributorCapLabel :: "string option option"
  bs_closeAuditHoldoutPct :: "jsnum option"
  bs_requireFreshRebaseWindowMinutes :: "jsnum option"
  bs_staleBaseAheadByThreshold :: "jsnum option"

text \<open>The columns of the stored pull request that are read; those of failed merges come first.\<close>

record stored_pull = merge_row +
  st_number :: nat
  st_mergeableState :: "string option"
  st_reviewDecision :: "string option"
  st_slopRisk :: "jsnum option"
  st_labels :: "string list"
  st_copycatScore :: "jsnum option"
  st_copycatMatchedPullNumber :: "nat option"
  st_linkedIssueClaimedAt :: "string option"
  st_approvedHeadSha :: "string option"
  st_authorLogin :: "string option"
  st_manualReviewLabelAppliedSha :: "string option"

record LiveCiAggregate =
  ca_ciState :: CiState
  ca_hasPending :: bool
  ca_failingNames :: "string list"
  ca_advisoryHoldDetails :: "check_verdict list"
  ca_nonRequiredFailing :: "string list"
  ca_ignoredCheckDetails :: "check_verdict list"

definition CI_PASSING_CONCLUSIONS :: "string list" where
  "CI_PASSING_CONCLUSIONS = [''success'', ''neutral'', ''skipped'']"

record maintain_args =
  ma_gate :: HostGateCheckEvaluation
  ma_settings :: maintain_settings
  ma_changedPaths :: "string list"
  ma_hardGuardrailGlobs :: "string list"
  ma_authorIsOwner :: bool
  ma_authorIsAdmin :: bool
  ma_authorIsAutomationBot :: bool
  ma_ciAggregate :: LiveCiAggregate
  ma_blacklisted :: bool
  ma_screenshotTableMatch :: "screenshot_match option"
  ma_screenshotTableEvidenceUnresolved :: bool
  ma_contributorCapMatch :: "contributor_cap_match option"
  ma_linkedIssueHardRule :: "linked_issue_rule option"
  ma_linkedIssueRulesConfig :: linked_issue_verify
  ma_migrationCollisionHold :: "hold_verdict option"
  ma_unlinkedIssueMatchHold :: "hold_verdict option"
  ma_priorityEligibilityHold :: "hold_verdict option"
  ma_screenshotEvidenceHold :: "hold_verdict option"
  ma_aiReviewLowConfidenceHold :: "hold_verdict option"
  ma_unlinkedIssueMatchClose :: "hold_verdict option"
  ma_liveMergeState :: "string option"
  ma_liveReviewDecision :: "string option"
  ma_pr :: stored_pull
  ma_openDuplicateSiblings :: "DuplicateClaimMember list"
  ma_duplicateWinnerEnabled :: bool
  ma_scopedLinkedIssueClaimedAt :: "string option option"
  ma_manualReviewLockContentionResolved :: bool
  ma_decisionNowMs :: jsnum

definition plan_pull :: "(string \<Rightarrow> jsnum) \<Rightarrow> maintain_args \<Rightarrow> plan_pr" where
  "plan_pull parse_date m =
     (let pr = ma_pr m;
          linkedIssueClaimedAtForElection =
            (case ma_scopedLinkedIssueClaimedAt m of Some scoped \<Rightarrow> scoped | None \<Rightarrow> st_linkedIssueClaimedAt pr)
      in \<lparr>pp_mergeableState = (case ma_liveMergeState m of Some st \<Rightarrow> Some st | None \<Rightarrow> st_mergeableState pr),
          pp_reviewDecision = (case ma_liveReviewDecision m of Some d \<Rightarrow> Some d | None \<Rightarrow> st_reviewDecision pr),
          pp_slopRisk = st_slopRisk pr, pp_labels = st_labels pr,
          pp_linkedDuplicateCount = Some (num_of_nat (dupWinnerLinkedDuplicateCount parse_date (ma_openDuplicateSiblings m)
             (st_number pr) linkedIssueClaimedAtForElection (ma_duplicateWinnerEnabled m))),
          pp_linkedDuplicateWinnerNumber = map_option num_of_nat (dupWinnerLinkedDuplicateWinnerNumber parse_date
             (ma_openDuplicateSiblings m) (st_number pr) linkedIssueClaimedAtForElection (ma_duplicateWinnerEnabled m)),
          pp_headSha = mr_headSha pr,
          pp_mergeBlockedSha = activeMergeBlockedSha parse_date pr (mr_headSha pr) (ma_decisionNowMs m),
          pp_mergeBlockedReason = mr_mergeBlockedReason pr, pp_approvedHeadSha = st_approvedHeadSha pr,
          pp_authorLogin = st_authorLogin pr\<rparr>)"

definition copycat_from_score :: "maintain_args \<Rightarrow> copycat_verdict option" where
  "copycat_from_score m =
     (case st_copycatMatchedPullNumber (ma_pr m) of
        None \<Rightarrow> None
      | Some n \<Rightarrow>
          if copycatWouldActOnPersistedScore (st_copycatScore (ma_pr m)) (st_copycatMatchedPullNumber (ma_pr m))
               (bs_copycatGateMode (ma_settings m)) (bs_copycatGateMinScore (ma_settings m))
          then Some \<lparr>xm_matched = True, xm_matchedPullNumber = num_of_nat n\<rparr> else None)"

definition buildAgentMaintenancePlanInput :: "(string \<Rightarrow> jsnum) \<Rightarrow> maintain_args \<Rightarrow> AgentActionPlanInput" where
  "buildAgentMaintenancePlanInput parse_date m =
     (let gate = ma_gate m; settings = ma_settings m; ci = ma_ciAggregate m
      in \<lparr>ls_manualReviewLabel = ls_manualReviewLabel settings, ls_readyToMergeLabel = ls_readyToMergeLabel settings,
          ls_changesRequestedLabel = ls_changesRequestedLabel settings,
          ls_migrationCollisionLabel = ls_migrationCollisionLabel settings,
          ls_pendingClosureLabel = ls_pendingClosureLabel settings,
          ap_conclusion = gv_conclusion gate, ap_blockerTitles = map af_title (gv_blockers gate),
          ap_gateBlockerCodes = Some (map af_code (gv_blockers gate)),
          ap_autonomy = bs_autonomy settings, ap_autoMaintain = bs_autoMaintain settings,
          ap_slopGateMinScore = bs_slopGateMinScore settings, ap_changedPaths = ma_changedPaths m,
          ap_hardGuardrailGlobs = ma_hardGuardrailGlobs m,
          ap_guardrailEscalationOnCleanReview = bs_guardrailEscalationOnCleanReview settings,
          ap_guardrailEscalationEffort = bs_guardrailEscalationEffort settings,
          ap_guardrailEscalationSelfConsistencyRuns = bs_guardrailEscalationSelfConsistencyRuns settings,
          ap_guardrailEscalationModel = bs_guardrailEscalationModel settings,
          ap_guardrailEscalationProvider = bs_guardrailEscalationProvider settings,
          ap_manualReviewLabelAppliedSha = st_manualReviewLabelAppliedSha (ma_pr m),
          ap_manualReviewLockContentionResolved = ma_manualReviewLockContentionResolved m,
          ap_authorIsOwner = ma_authorIsOwner m, ap_authorIsAdmin = ma_authorIsAdmin m,
          ap_authorIsAutomationBot = ma_authorIsAutomationBot m, ap_closeOwnerAuthors = bs_closeOwnerAuthors settings,
          ap_ciState = ca_ciState ci, ap_ciHasPending = ca_hasPending ci, ap_failingCheckNames = Some (ca_failingNames ci),
          ap_linkedIssueHardRule = ma_linkedIssueHardRule m, ap_blacklistMatched = ma_blacklisted m,
          ap_blacklistLabel = bs_blacklistLabel settings, ap_contributorCapMatch = ma_contributorCapMatch m,
          ap_contributorCapLabel = bs_contributorCapLabel settings, ap_reviewNagMatch = None, ap_reviewNagLabel = None,
          ap_copycatMatch = copycat_from_score m, ap_copycatGateMode = bs_copycatGateMode settings, ap_copycatLabel = None,
          ap_linkedIssueVerify = Some (ma_linkedIssueRulesConfig m),
          ap_migrationCollisionHold = ma_migrationCollisionHold m, ap_advisoryCheckHold = Some (ca_advisoryHoldDetails ci),
          ap_ignoredCheckNonPassing =
            Some (filter (\<lambda>r. cv_conclusion r \<notin> set CI_PASSING_CONCLUSIONS) (ca_ignoredCheckDetails ci)),
          ap_nonRequiredCheckFailures = Some (ca_nonRequiredFailing ci),
          ap_unlinkedIssueMatchHold = ma_unlinkedIssueMatchHold m, ap_priorityEligibilityHold = ma_priorityEligibilityHold m,
          ap_screenshotEvidenceHold = ma_screenshotEvidenceHold m, ap_unlinkedIssueMatchClose = ma_unlinkedIssueMatchClose m,
          ap_aiReviewLowConfidenceHold = ma_aiReviewLowConfidenceHold m,
          ap_screenshotTableMatch = ma_screenshotTableMatch m,
          ap_screenshotTableEvidenceUnresolved = ma_screenshotTableEvidenceUnresolved m, ap_pr = plan_pull parse_date m\<rparr>)"

definition applyPrecisionBreakers ::
  "PlannedAgentAction list \<Rightarrow> bool \<Rightarrow> bool \<Rightarrow> 'a AgentDispositionLabelSettings_scheme \<Rightarrow> string list \<Rightarrow> PlannedAgentAction list" where
  "applyPrecisionBreakers planned holdOnly closeHoldOnly labelSettings untrustworthyRuleCodes =
     downgradeCloseToHold (if holdOnly then downgradeMergeToHold planned True labelSettings else planned)
       closeHoldOnly labelSettings untrustworthyRuleCodes"

definition agentMaintenanceHeadMatchesGate :: "string option \<Rightarrow> string option \<Rightarrow> bool" where
  "agentMaintenanceHeadMatchesGate reviewedHeadSha currentHeadSha \<longleftrightarrow>
     reviewedHeadSha = None \<or> currentHeadSha = None \<or> currentHeadSha = reviewedHeadSha"

text \<open>
  What a pass is given from outside: the planner's, the executor's and the holdout's environments and answers, the coordinates of the
  pull request, the switches and the breaker rows as they were read, whether the author's cap is configured and applies to this author,
  and whether \<open>maybeForceFreshRebase\<close>, which may update the branch instead of merging, did so.
\<close>

record pass_world =
  pw_planner :: planner_env
  pw_parse_date :: "string \<Rightarrow> jsnum"
  pw_exec :: exec_env
  pw_answers :: "nat \<Rightarrow> live_answers"
  pw_hmac :: "string \<Rightarrow> string \<Rightarrow> string"
  pw_holdout :: holdout_answers
  pw_installationId :: nat
  pw_repoFullName :: string
  pw_baseRef :: "string option"
  pw_permissions :: permissions
  pw_agentPaused :: bool
  pw_agentDryRun :: bool
  pw_pauseFlag :: "string option"
  pw_frozen :: bool
  pw_deployment :: "string option"
  pw_mergeTrainMode :: "MergeTrainMode option"
  pw_createdAt :: "string option"
  pw_linkedIssues :: "nat list"
  pw_changedFiles :: "string list option"
  pw_holdOnly :: bool
  pw_closeHoldOnly :: bool
  pw_untrustworthyRuleCodes :: "string list"
  pw_capApplies :: bool
  pw_rebased :: bool

definition planHasImminentMerge :: "PlannedAgentAction list \<Rightarrow> bool" where
  "planHasImminentMerge plan \<longleftrightarrow> list_ex (\<lambda>action. pa_actionClass action = ClassMerge \<and> \<not> pa_requiresApproval action) plan"

definition maintain_context :: "pass_world \<Rightarrow> maintain_args \<Rightarrow> PlannedAgentAction list \<Rightarrow> AgentActionExecutionContext" where
  "maintain_context W m plan =
     \<lparr>xc_installationId = pw_installationId W, xc_repoFullName = pw_repoFullName W, xc_pullNumber = st_number (ma_pr m),
      xc_headSha = mr_headSha (ma_pr m), xc_expectedBaseRef = pw_baseRef W, xc_autonomy = bs_autonomy (ma_settings m),
      xc_agentPaused = pw_agentPaused W, xc_agentDryRun = pw_agentDryRun W, xc_installationPermissions = pw_permissions W,
      xc_authorLogin = st_authorLogin (ma_pr m),
      xc_contributorCapMergeRecheck = (planHasImminentMerge plan \<and> pw_capApplies W),
      xc_manualReviewLabel = ls_manualReviewLabel (ma_settings m), xc_mergeTrainMode = pw_mergeTrainMode W,
      xc_pullRequestCreatedAt = pw_createdAt W, xc_pullRequestLinkedIssues = Some (pw_linkedIssues W),
      xc_pullRequestChangedFiles = pw_changedFiles W\<rparr>"

text \<open>The planner's pass: the plan after the two breakers, the holdout, the stop for a forced rebase, and the executor.\<close>

definition maintenance_plan :: "pass_world \<Rightarrow> maintain_args \<Rightarrow> PlannedAgentAction list" where
  "maintenance_plan W m =
     applyPrecisionBreakers (planAgentMaintenanceActions (pw_planner W) (buildAgentMaintenancePlanInput (pw_parse_date W) m))
       (pw_holdOnly W) (pw_closeHoldOnly W) (ma_settings m) (pw_untrustworthyRuleCodes W)"

definition rebase_first :: "pass_world \<Rightarrow> maintain_args \<Rightarrow> PlannedAgentAction list \<Rightarrow> bool" where
  "rebase_first W m plan \<longleftrightarrow>
     (bs_requireFreshRebaseWindowMinutes (ma_settings m) \<noteq> None \<or> bs_staleBaseAheadByThreshold (ma_settings m) \<noteq> None) \<and>
     present (pw_baseRef W) \<and> planHasImminentMerge plan \<and>
     (case ma_liveMergeState m of Some st \<Rightarrow> Some st | None \<Rightarrow> st_mergeableState (ma_pr m)) = Some ''clean'' \<and> pw_rebased W"

definition runAgentMaintenancePlanAndExecute ::
  "pass_world \<Rightarrow> maintain_args \<Rightarrow> holdout_store \<times> exec_state \<Rightarrow> holdout_store \<times> exec_state" where
  "runAgentMaintenancePlanAndExecute W m state =
     (let settings = ma_settings m;
          (store, holdoutOnPlan, closeAuditHoldout) =
            maybeApplyCloseAuditHoldout (pw_hmac W) (pw_holdout W) (pw_repoFullName W) (st_number (ma_pr m)) (mr_headSha (ma_pr m))
              (maintenance_plan W m) (bs_closeAuditHoldoutPct settings)
              (resolveAutonomy (bs_autonomy settings) ClassClose = Auto) settings (fst state)
      in if holdoutOnPlan = [] \<or> rebase_first W m holdoutOnPlan then (store, snd state)
         else (store, executeAgentMaintenanceActions (pw_exec W) (maintain_context W m holdoutOnPlan) (pw_pauseFlag W) (pw_frozen W)
                        (pw_deployment W) (pw_answers W) holdoutOnPlan (snd state)))"


section \<open>From the gate to the merge\<close>

lemma breakers_merge:
  assumes "a \<in> set (applyPrecisionBreakers acts holdOnly closeHoldOnly settings codes)" "pa_actionClass a = ClassMerge"
  shows "a \<in> set acts \<and> \<not> holdOnly"
proof -
  let ?acts1 = "if holdOnly then downgradeMergeToHold acts True settings else acts"
  have a1: "a \<in> set ?acts1"
    using cb.kept[OF assms(1)[unfolded applyPrecisionBreakers_def]] assms(2) by simp
  show ?thesis
  proof (cases holdOnly)
    case True
    then have "a \<in> set (downgradeMergeToHold acts True settings)" using a1 by simp
    from merge_breaker_mem[OF this] assms(2) show ?thesis by (simp add: hold_label_of_def)
  qed (use a1 in simp)
qed

lemma host_success:
  assumes "gv_conclusion (host_evaluateGateCheck a p) = ConclSuccess"
  shows "host_blockers a p = []" "\<forall>f \<in> set (ad_findings a). \<not> host_isEvaluationBlocker (af_code f) p"
  using assms unfolding host_posted
  by (auto simp: host_evaluateGateCheckCore_def host_blockers_def host_evaluate_blocked_def list_ex_iff Let_def split: if_splits)

lemma planned_merge:
  assumes "a \<in> set (planAgentMaintenanceActions PE i)" "pa_actionClass a = ClassMerge"
  shows "ap_conclusion i = ConclSuccess" "ap_ciState i = CiStatePassed" "\<not> ap_ciHasPending i" "resolveHoldCause i = []"
    "\<not> plan_mergeTerminallyBlocked i" "pa_expectedHeadSha a = plan_pin i"
proof -
  have st: "plan_settles PE i" "a \<in> set (section_disposition PE i [])" using plan_merge_action[OF assms] by auto
  then have can: "plan_canMerge i" using merge_chosen assms(2) by blast
  then show c: "ap_conclusion i = ConclSuccess" "ap_ciState i = CiStatePassed" "resolveHoldCause i = []" "\<not> plan_mergeTerminallyBlocked i"
    by (auto simp: plan_canMerge_def would_merge_iff plan_reviewGood_def plan_ciPassed_def)
  have "\<not> plan_enforced i" using st(1) no_short_circuit[of PE i] by (simp add: plan_settles_def)
  with merging_settles[OF this can, of PE] st(1) show "\<not> ap_ciHasPending i" by simp
  show "pa_expectedHeadSha a = plan_pin i"
    using st(2) assms(2) by (auto simp: section_disposition_def Let_def action_of_def split: if_splits)
qed

lemma built_input:
  "ap_conclusion (buildAgentMaintenancePlanInput parse_date m) = gv_conclusion (ma_gate m)"
  "ap_ciState (buildAgentMaintenancePlanInput parse_date m) = ca_ciState (ma_ciAggregate m)"
  "ap_ciHasPending (buildAgentMaintenancePlanInput parse_date m) = ca_hasPending (ma_ciAggregate m)"
  "pp_headSha (ap_pr (buildAgentMaintenancePlanInput parse_date m)) = mr_headSha (ma_pr m)"
  "pp_mergeBlockedSha (ap_pr (buildAgentMaintenancePlanInput parse_date m)) =
     activeMergeBlockedSha parse_date (ma_pr m) (mr_headSha (ma_pr m)) (ma_decisionNowMs m)"
  by (simp_all add: buildAgentMaintenancePlanInput_def plan_pull_def Let_def)

lemma unblocked_merge:
  assumes "\<not> plan_mergeTerminallyBlocked (buildAgentMaintenancePlanInput parse_date m)"
  shows "\<not> isMergeBlockInEffect parse_date (ma_pr m) (mr_headSha (ma_pr m)) (ma_decisionNowMs m)"
  using assms
  by (auto simp: plan_mergeTerminallyBlocked_def built_input activeMergeBlockedSha_def isMergeBlockInEffect_def split: if_splits)

lemma merge_call: "CallMerge mm sha \<in> calls_of ctx a \<Longrightarrow> pa_actionClass a = ClassMerge \<and> sha = pinned_head ctx a"
  by (auto simp: calls_of_def split: AgentActionClass.splits)

lemma holdout_merge:
  assumes "maybeApplyCloseAuditHoldout hmac ans repo n head planned eps auto settings s = (s', planned', outcome)"
    and "a \<in> set planned'" "pa_actionClass a = ClassMerge"
  shows "a \<in> set planned"
  using assms(1)
proof (cases rule: holdout_cases)
  case (drawn h d)
  then show ?thesis using hb.kept[of a planned settings] assms(2,3) by (auto split: if_splits)
qed (use assms(2) in simp)

lemma pass_sends:
  assumes pass: "runAgentMaintenancePlanAndExecute W m (hs, s) = (hs', s')"
    and sent: "call \<in> set (es_calls s')" and fresh: "es_calls s = []"
  obtains plan i where "i < length plan" "cleared (pw_exec W) (maintain_context W m plan) (plan ! i) (pw_answers W i)"
    "call \<in> calls_of (maintain_context W m plan) (plan ! i)"
    "\<And>a. a \<in> set plan \<Longrightarrow> pa_actionClass a = ClassMerge \<Longrightarrow> a \<in> set (maintenance_plan W m)"
proof -
  obtain store plan outcome where hold: "maybeApplyCloseAuditHoldout (pw_hmac W) (pw_holdout W) (pw_repoFullName W) (st_number (ma_pr m))
      (mr_headSha (ma_pr m)) (maintenance_plan W m) (bs_closeAuditHoldoutPct (ma_settings m))
      (resolveAutonomy (bs_autonomy (ma_settings m)) ClassClose = Auto) (ma_settings m) hs = (store, plan, outcome)"
    by (metis prod_cases3)
  let ?ctx = "maintain_context W m plan"
  let ?mode = "resolveAgentActionMode (isGlobalAgentPause (pw_pauseFlag W) \<or> pw_frozen W) (xc_agentPaused ?ctx) (xc_agentDryRun ?ctx)
          (forcedSelfhostMode (pw_deployment W))"
  have "s' = execute_from (pw_exec W) ?ctx ?mode plan (pw_answers W) 0 plan (s \<lparr>es_outcomes := []\<rparr>)"
    using pass hold sent fresh
    by (auto simp: runAgentMaintenancePlanAndExecute_def Let_def executeAgentMaintenanceActions_def split: if_splits)
  then obtain i where "i < length plan" "cleared (pw_exec W) ?ctx (plan ! i) (pw_answers W i)" "call \<in> calls_of ?ctx (plan ! i)"
    using execute_from_sends[of "pw_exec W" ?ctx ?mode plan "pw_answers W" 0 plan "s \<lparr>es_outcomes := []\<rparr>"] sent fresh by auto
  then show thesis using that holdout_merge[OF hold] by blast
qed


text \<open>A green pull request with no findings in a repository that merges on its own.\<close>

definition green_args :: maintain_args where
  "green_args =
     \<lparr>ma_gate = host_evaluateGateCheck (sample_advisory []) empty_host_policy,
      ma_settings =
        \<lparr>ls_manualReviewLabel = None, ls_readyToMergeLabel = None, ls_changesRequestedLabel = None, ls_migrationCollisionLabel = None,
         ls_pendingClosureLabel = None, bs_autonomy = Some [ClassMerge \<mapsto> Auto],
         bs_autoMaintain = Some \<lparr>am_requireApprovals = Fin 0, am_mergeMethod = MethodSquash\<rparr>, bs_slopGateMinScore = None,
         bs_guardrailEscalationOnCleanReview = None, bs_guardrailEscalationEffort = None,
         bs_guardrailEscalationSelfConsistencyRuns = None, bs_guardrailEscalationModel = None,
         bs_guardrailEscalationProvider = None, bs_closeOwnerAuthors = False, bs_blacklistLabel = None, bs_copycatGateMode = None,
         bs_copycatGateMinScore = None, bs_contributorCapLabel = None, bs_closeAuditHoldoutPct = Some (Fin 5),
         bs_requireFreshRebaseWindowMinutes = None, bs_staleBaseAheadByThreshold = None\<rparr>,
      ma_changedPaths = [''README.md''], ma_hardGuardrailGlobs = [], ma_authorIsOwner = False, ma_authorIsAdmin = False,
      ma_authorIsAutomationBot = False,
      ma_ciAggregate = \<lparr>ca_ciState = CiStatePassed, ca_hasPending = False, ca_failingNames = [], ca_advisoryHoldDetails = [],
                        ca_nonRequiredFailing = [], ca_ignoredCheckDetails = []\<rparr>,
      ma_blacklisted = False, ma_screenshotTableMatch = None, ma_screenshotTableEvidenceUnresolved = False,
      ma_contributorCapMatch = None, ma_linkedIssueHardRule = None,
      ma_linkedIssueRulesConfig = \<lparr>lv_verifyBeforeClose = True, lv_closeDelaySeconds = Fin 0\<rparr>,
      ma_migrationCollisionHold = None, ma_unlinkedIssueMatchHold = None, ma_priorityEligibilityHold = None,
      ma_screenshotEvidenceHold = None, ma_aiReviewLowConfidenceHold = None, ma_unlinkedIssueMatchClose = None,
      ma_liveMergeState = Some ''clean'', ma_liveReviewDecision = None,
      ma_pr = \<lparr>mr_headSha = Some ''abc'', mr_mergeAttemptCount = 0, mr_mergeBlockedSha = None, mr_mergeBlockedReason = None,
               mr_mergeBlockedUntil = None, st_number = 7, st_mergeableState = None, st_reviewDecision = None, st_slopRisk = None,
               st_labels = [], st_copycatScore = None, st_copycatMatchedPullNumber = None, st_linkedIssueClaimedAt = None,
               st_approvedHeadSha = None, st_authorLogin = Some ''ada'', st_manualReviewLabelAppliedSha = None\<rparr>,
      ma_openDuplicateSiblings = [], ma_duplicateWinnerEnabled = True, ma_scopedLinkedIssueClaimedAt = None,
      ma_manualReviewLockContentionResolved = False, ma_decisionNowMs = Fin 0\<rparr>"

definition green_world :: pass_world where
  "green_world =
     \<lparr>pw_planner = sample_env, pw_parse_date = (\<lambda>_. NaN), pw_exec = plain_env, pw_answers = (\<lambda>_. calm_answers), pw_hmac = zero_hmac,
      pw_holdout = \<lparr>ha_generated = [], ha_event_written = True, ha_label_written = True\<rparr>, pw_installationId = 1,
      pw_repoFullName = ''o/r'', pw_baseRef = Some ''main'', pw_permissions = Some [''contents'' \<mapsto> ''write''], pw_agentPaused = False,
      pw_agentDryRun = False, pw_pauseFlag = None, pw_frozen = False, pw_deployment = None, pw_mergeTrainMode = None,
      pw_createdAt = None, pw_linkedIssues = [], pw_changedFiles = None, pw_holdOnly = False, pw_closeHoldOnly = False,
      pw_untrustworthyRuleCodes = [], pw_capApplies = False, pw_rebased = False\<rparr>"

lemma green_merges:
  "es_calls (snd (runAgentMaintenancePlanAndExecute green_world green_args (fresh_holdouts, empty_state))) =
     [CallMerge MethodSquash (Some ''abc'')]"
  by code_simp


end
