(* ===== verification/Spec2Isabelle.thy ===== *)
theory Spec2Isabelle
  imports Governor_Chokepoint Plan_Dag Loop_Reentry Queue_Manager Local_Write Claim_Ledger Worktree
    Gate_Host Predicted_Gate Plan_Input
begin

text \<open>
  LoopOver runs coding agents against GitHub issues (the miner) and judges the pull requests they and others open (the
  maintainer gate). This development models the deterministic decision code of both sides: the engine package
  (\<open>packages/loopover-engine/src\<close>), the local stores of the miner (\<open>packages/loopover-miner/lib\<close>), and of the service the
  gate twin (\<open>src/rules/advisory.ts\<close>) and the automatic maintenance of pull requests from plan to GitHub call
  (\<open>src/settings\<close>, \<open>src/services\<close>, \<open>src/review/merge-train.ts\<close>), and proves what makes them correct.

  \<^bold>\<open>How the parts interact.\<close> A candidate issue is queued (portfolio queue), claimed (claim ledger), given a worktree
  (worktree allocator) and attempted (iterate loop). Each iteration calls a coding-agent driver through a mode gate,
  meters it against a budget, reviews its own diff with the predicted gate and decides to continue, abandon or hand off.
  A handed-off attempt passes the submission gate with its circuit breaker and becomes a shell command; every write goes
  through the governor chokepoint (kill switch, dry run, rate limits, caps, convergence, reputation, plagiarism).
  Outcomes land in the event ledger, from which the re-entry policy counts whether the loop may take the next item. On
  the other side a pull request gets an advisory (findings), which the gate turns into success, failure or neutral under
  the repository's policy; the predicted gate runs the same decision before the pull request exists. The gate's verdict,
  the checks, the state of the branch and the autonomy policy then go into the planner of maintainer actions, two circuit
  breakers and the close-audit holdout rewrite the plan, and the executor carries out, stages or refuses each action; a merge
  may wait for a fresh rebase or in the merge train, and one that failed is retried within a budget.

  \<^bold>\<open>Runtime prelude.\<close>
  \<^item> \<open>Js_Base\<close>: numbers as exact rationals with overflow, infinities and NaN (\<open>jsnum\<close>), dynamically typed values
    (\<open>jsval\<close>), messages with unprinted numbers (\<open>msg\<close>), results as sums (\<open>and_then\<close>), insertion-ordered tables, and
    the interface locales the components share.
  \<^item> \<open>Js_Regex\<close>: the regular expressions the code builds, as lists of items with a backtracking matcher, its language and
    the number of its steps.

  \<^bold>\<open>The miner.\<close>
  \<^item> \<open>Governor_Ledger\<close> (\<open>governor-ledger.ts\<close>), \<open>Rate_Limit\<close> (\<open>governor/rate-limit.ts\<close>, \<open>write-rate-limit.ts\<close>),
    \<open>Governor_Signals\<close> (kill switch, action mode, caps, convergence, run halt, reputation), \<open>Self_Plagiarism\<close>
    (\<open>self-plagiarism.ts\<close>), \<open>Governor_Chokepoint\<close> (\<open>governor/chokepoint.ts\<close> and its persisted gate): the chokepoint
    decides by its ladder and lets a bounded number of writes through one window however they interleave.
  \<^item> \<open>Portfolio_Queue\<close> (\<open>portfolio/queue.ts\<close>), \<open>Queue_Store\<close>, \<open>Queue_Manager\<close> (\<open>portfolio-queue.ts\<close>,
    \<open>portfolio-queue-expiry.ts\<close>, \<open>portfolio-queue-manager.ts\<close>): selections stay within the caps, are fair and maximal;
    the store refines the life cycle of an item, on all columns of its row; batches claimed from the store stay within the caps.
  \<^item> \<open>Plan_Dag\<close> (\<open>plan-dag.ts\<close>, export, templates): validation is exactly acyclicity, a validated plan never blocks and
    runs to its end.
  \<^item> \<open>Coding_Agent\<close>, \<open>Self_Review\<close>, \<open>Iterate_Loop\<close> (\<open>miner/coding-agent-*.ts\<close>, \<open>attempt-*.ts\<close>,
    \<open>self-review-adapter.ts\<close>, \<open>iterate-policy.ts\<close>, \<open>iterate-loop.ts\<close>): the driver runs only in live mode, the loop
    returns, respects budget and abort, and hands off only justified attempts.
  \<^item> \<open>Event_Ledger\<close>, \<open>Submission\<close>, \<open>Loop_Reentry\<close> (\<open>event-ledger.ts\<close>, \<open>pr-outcome.ts\<close>, \<open>submission-gate.ts\<close>,
    \<open>harness-submission-trigger.ts\<close>, \<open>loop-reentry*.ts\<close>): ordered reads, the latching circuit breaker, the bounded and
    audited re-entry.
  \<^item> \<open>Local_Write\<close> (\<open>local-write-tools.ts\<close>): a POSIX shell reads each command as the intended argument vector.
  \<^item> \<open>Claim_Ledger\<close>, \<open>Worktree\<close> (\<open>claim-ledger*.ts\<close>, \<open>worktree-allocator.ts\<close>): over every interleaving of the
    processes' statements the claim cap holds, and an allocation that was handed out keeps its slot to itself until it is
    released or its own lease is orphaned.

  \<^bold>\<open>The gate.\<close>
  \<^item> \<open>Path_Glob\<close> (\<open>signals/change-guardrail.ts\<close>, path matching of \<open>focus-manifest/guidance.ts\<close>), \<open>Label_Match\<close>
    (\<open>scoring/label-match.ts\<close>), \<open>Check_Text\<close> (\<open>sanitizeForCheckRun\<close>): the meaning and the cost of the matchers, the
    cache as a refinement of compiling afresh, cleanness of the published text.
  \<^item> \<open>Gate_Findings\<close> (\<open>duplicate-winner.ts\<close>, \<open>author-association.ts\<close>, \<open>cla-check.ts\<close>, \<open>pre-merge-checks.ts\<close>, the advisory
    of \<open>gate-advisory.ts\<close>): one winner per duplicate cluster.
  \<^item> \<open>Gate_Check\<close> (the decision of \<open>gate-advisory.ts\<close>): the verdict is well formed, hard blockers block, evidence never
    helps, rivals cannot make a gate fail.
  \<^item> \<open>Gate_Host\<close> (\<open>src/rules/advisory.ts\<close>): the service's copy agrees with the engine's but for one finding; its holds,
    recorded signals and posted text.
  \<^item> \<open>Predicted_Gate\<close> (\<open>predicted-gate.ts\<close>, \<open>guardrail-config.ts\<close>, \<open>contributor-calibration.ts\<close>, the guidance): a
    prediction passes exactly when the rules, as it evaluates them, hold.

  \<^bold>\<open>The maintainer's actions.\<close>
  \<^item> \<open>Pr_Disposition\<close> (\<open>settings/autonomy.ts\<close>, \<open>settings/pr-disposition.ts\<close>): the autonomy dial and the single reading of a
    pull request's merge state that the planner and the posted comment share.
  \<^item> \<open>Copycat\<close> (\<open>signals/copycat.ts\<close>): the containment score; the original of two overlapping changes is never accused.
  \<^item> \<open>Agent_Actions\<close>, \<open>Agent_Plan\<close> (\<open>settings/agent-actions.ts\<close>): the planner with its short circuits, holds, labels and
    messages, and the breakers; a merge is planned exactly when everything is green, a close always has its cause, actions
    follow the dial, labels never flap, no settled pull request is left undecided, and the breakers only turn merges and
    closes into holds.
  \<^item> \<open>Merge_Train\<close> (\<open>review/merge-train.ts\<close>, \<open>services/merge-failure.ts\<close>, the columns of failed merges): the train never
    deadlocks; failed merges of one head are retried within the cap and then blocked, for good or until a re-probe.
  \<^item> \<open>Agent_Executor\<close> (\<open>services/agent-action-executor.ts\<close>, \<open>settings/agent-execution.ts\<close>, \<open>github/pr-freshness.ts\<close>, the row
    of the approval queue): nothing reaches GitHub that did not pass every guard; outcomes in step with the plan; what
    survives staging.
  \<^item> \<open>Close_Holdout\<close> (\<open>review/close-audit-holdout.ts\<close>): the randomised holdout of automatic closes; it only turns eligible
    closes into holds, draws once per head, and all processes agree on its secret.
  \<^item> \<open>Plan_Input\<close> (\<open>buildAgentMaintenancePlanInput\<close>, \<open>applyPrecisionBreakers\<close> and the end of
    \<open>runAgentMaintenancePlanAndExecute\<close> in \<open>queue/processors.ts\<close>, \<open>queue/duplicate-detection.ts\<close>): the composition of gate,
    planner, breakers, holdout, forced rebase and executor, and the end-to-end theorem about merges.

  This theory holds what spans them: the re-entry loop over the persisted queue, the kill switch over every gate, the
  submitted command, and the iterate loop reviewed by the modelled gate.

  \<^bold>\<open>Correspondence.\<close> A record is the source's type with its fields prefixed, absent and null both \<open>None\<close> unless the code
  tells them apart; an exception is the left summand of a result; a SQLite table is the list of its rows and each
  statement or transaction one function on it; a definition keeps the name of the function it models, local steps have
  names of their own. What GitHub answers while the executor handles an action is one record per action, chosen freely.
  Code reached through an injected dependency (driver, log sink, clock, \<open>Date.parse\<close>, calculators) is
  an argument, and the theorems hold for all values of it under the hypotheses they state.

  \<^bold>\<open>Interfaces.\<close> The locales state what a client relies on: \<open>latch\<close> and \<open>halt_latch\<close> (a decision that sticks), \<open>lease_sweep\<close>
  (reclaiming old leases), \<open>kill_gate\<close>, \<open>window_limiter\<close> (one rate-limit bucket), \<open>election\<close> (a strict order on claims),
  \<open>wip_selector\<close> (a selection under caps), \<open>memo\<close> (a cache) and \<open>plan_breaker\<close> (a rewriting of a plan that only holds).
  Their lemmas are proved once, and each is interpreted on the model's own definitions, several of them by more than one
  component.

  \<^bold>\<open>Bounds and fuel.\<close> Depth-first search over a plan gets as much fuel as the plan has steps, and validation is proved
  complete with it. The iterate loop recurses on the iterations left. The loop's return is proved under \<open>metering_safe\<close>,
  a bound on clock and usage figures that keeps sums below the overflow of a double. Matchers are structurally recursive,
  and \<open>rx_cost\<close> counts their steps. Everything else is total without a bound.

  \<^bold>\<open>Not modelled.\<close> Arithmetic of doubles is exact up to overflow: rounding of sums and products is left out. Strings are
  sequences of 8-bit characters. Left out are the rest of the service's queue processors, database text, HTTP routes and
  GitHub client, the executor's notifications, decision records and moderation ledger, the approval queue's accept path, the servers and command lines, the signals engine and the readiness calculators, the parser of the manifest
  file, calibration and scoring reports, classifiers that are regular-expression tables, opening and migrating database
  files, and process spawning: input and output, heuristics and texts around the decisions modelled here.
\<close>

section \<open>The re-entry loop over the persisted queue\<close>

text \<open>The store as the queue that the re-entry attempt dequeues from.\<close>

fun queue_status_name :: "QueueStatus \<Rightarrow> string" where
  "queue_status_name QsQueued = ''queued''"
| "queue_status_name QsInProgress = ''in_progress''"
| "queue_status_name QsDone = ''done''"

definition item_of_entry :: "QueueEntry \<Rightarrow> dequeued_item" where
  "item_of_entry e = \<lparr>dq_repoFullName = qe_repoFullName e, dq_identifier = qe_identifier e,
     dq_priority = Fin (qe_priority e), dq_status = queue_status_name (qe_status e), dq_enqueuedAt = qe_enqueuedAt e\<rparr>"

definition store_dequeue :: "string \<Rightarrow> PortfolioQueueDbRow list \<Rightarrow> dequeued_item option \<times> PortfolioQueueDbRow list" where
  "store_dequeue t rows = (case dequeueNext t rows of (e, rows') \<Rightarrow> (map_option item_of_entry e, rows'))"

lemma store_dequeue_waiting:
  assumes "store_wf rows"
  shows "case waiting rows of
      [] \<Rightarrow> store_dequeue t rows = (None, rows)
    | r # rest \<Rightarrow> fst (store_dequeue t rows) = Some (item_of_entry (queueRowToEntry (claim_row t r))) \<and>
        waiting (snd (store_dequeue t rows)) = rest"
proof (cases "waiting rows")
  case Nil
  then show ?thesis by (simp add: store_dequeue_def dequeueNext_def waiting_def)
next
  case (Cons r rest)
  from dequeueNext_waiting[OF assms Cons, of t] Cons show ?thesis
    by (cases "dequeueNext t rows") (simp add: store_dequeue_def)
qed

lemma store_dequeue_step: "queue_step\<^sup>*\<^sup>* [] rows \<Longrightarrow> queue_step\<^sup>*\<^sup>* [] (snd (store_dequeue t rows))"
  using q_dequeue[of t rows] by (cases "dequeueNext t rows") (auto simp: store_dequeue_def intro: rtranclp.rtrancl_into_rtrancl)

text \<open>a re-entry takes the head of the persisted queue. On a ledger and a queue in any state they can reach, an attempt
  that returns and re-entered has claimed exactly the first waiting item (highest priority, then oldest, then first
  inserted), or found none waiting; any other attempt leaves the queue alone. The queue stays a state of the store.\<close>

theorem reentry_takes_the_queue_head:
  assumes "ledger_step\<^sup>*\<^sup>* empty_table (rw_ledger w)" "queue_step\<^sup>*\<^sup>* [] (rw_queue w)"
    and "json_rt (null_for_undef ls) = null_for_undef ls"
    and "attemptLoopReentry pd (store_dequeue t) True now session ls createdAt c w = (out, w')"
  shows "queue_step\<^sup>*\<^sup>* [] (rw_queue w') \<and> (case out of
      Inl e \<Rightarrow> w' = w
    | Inr res \<Rightarrow>
        if rd_reenter (rr_decision res) then
          (case waiting (rw_queue w) of
             [] \<Rightarrow> rr_dequeued res = None \<and> rw_queue w' = rw_queue w
           | r # rest \<Rightarrow> rr_dequeued res = Some (item_of_entry (queueRowToEntry (claim_row t r))) \<and> waiting (rw_queue w') = rest)
        else rr_dequeued res = None \<and> rw_queue w' = rw_queue w)"
proof (cases out)
  case (Inl e)
  with reentry_outcome[OF assms(1,3), where parse_date = pd and dq = "store_dequeue t" and nowMs = now and session = session
      and createdAt = createdAt and c = c] assms(4) have "w' = w" by simp
  then show ?thesis using Inl assms(2) by simp
next
  case (Inr res)
  have wf: "store_wf (rw_queue w)" using queue_steps_wf[OF assms(2)] by (simp add: store_wf_def)
  have a: "if rd_reenter (rr_decision res) then store_dequeue t (rw_queue w) = (rr_dequeued res, rw_queue w')
      else rr_dequeued res = None \<and> rw_queue w' = rw_queue w"
    using reentry_outcome[OF assms(1,3), where parse_date = pd and dq = "store_dequeue t" and nowMs = now and session = session
      and createdAt = createdAt and c = c] assms(4) Inr
    by (auto split: if_splits)
  then have "queue_step\<^sup>*\<^sup>* [] (rw_queue w')"
    using store_dequeue_step[OF assms(2), of t] assms(2) by (auto split: if_splits)
  then show ?thesis using a store_dequeue_waiting[OF wf, of t] Inr by (auto split: if_splits list.splits)
qed

section \<open>The kill switch across the gates\<close>

lemma killed_reentry_keeps_queue:
  assumes "table_wf (rw_ledger w)" "ri_killSwitchScope c \<noteq> KsNone"
    and "attemptLoopReentry pd dq rs now session ls createdAt c w = (out, w')"
  shows "rw_queue w' = rw_queue w \<and> rw_runStates w' = rw_runStates w"
proof -
  have no: "\<not> rd_reenter (reentry_decision c r dis h s)" for r dis h s
    using ree.stops assms(2) by (simp add: reentry_decision_def isMinerKillSwitchActive_def)
  show ?thesis using assms(1)
  proof (cases rule: attemptLoopReentry_cases[where parse_date = pd and dq = dq and rs = rs and nowMs = now
        and session = session and ls = ls and createdAt = createdAt and c = c])
    case rejected then show ?thesis using assms(3) by simp
  next
    case unaudited then show ?thesis using assms(3) no by simp
  next
    case (audited r w1)
    note a = attemptLoopReentry_Inr[OF assms(1) audited(2)]
    then show ?thesis using audited(2) assms(3) no by fastforce
  qed
qed

text \<open>C10: the kill switch stops every gate of the loop. While a scope is killed, the chokepoint lets no write through and
  charges no rate-limit bucket for it, no pull request is prepared, and a re-entry attempt leaves queue and run states
  as they were, whatever the other inputs are.\<close>

theorem kill_switch_stops_every_gate:
  assumes "resolveMinerKillSwitch g p = scope" "isMinerKillSwitchActive scope"
    and "in_killSwitchGlobal i = g" "in_killSwitchRepoPaused i = p"
    and "ledger_step\<^sup>*\<^sup>* empty_table tb" "hc_killSwitchScope (pc_candidate pc) = scope"
    and "ledger_step\<^sup>*\<^sup>* empty_table (rw_ledger w)" "ri_killSwitchScope c = scope"
  shows "\<not> gd_allowed (evaluateGovernorChokepoint pd i)
    \<and> (case evaluateGovernorChokepointGate pd appendRow i of
         Inl _ \<Rightarrow> True
       | Inr r \<Rightarrow> gr_rateLimitBuckets r = in_rateLimitBuckets i \<and> gr_rateLimitBackoffAttempts r = in_rateLimitBackoffAttempts i)
    \<and> (case fst (prepareOpenPrSubmission pd session t pc tb) of Inl _ \<Rightarrow> True | Inr res \<Rightarrow> pr_openPrInput res = None)
    \<and> rw_queue (snd (attemptLoopReentry pd dq rs now session ls t c w)) = rw_queue w
    \<and> rw_runStates (snd (attemptLoopReentry pd dq rs now session ls t c w)) = rw_runStates w"
proof (intro conjI)
  have stop: "\<not> gd_allowed (evaluateGovernorChokepoint pd i)"
    using cp.stops[of i pd] assms(1-4) by simp
  then show "\<not> gd_allowed (evaluateGovernorChokepoint pd i)" .
  have "gd_stage (evaluateGovernorChokepoint pd i) = StKillSwitch"
    using evaluateGovernorChokepoint_agrees[of pd i] assms(1-4) kill_scope_active[of g p]
    by (auto simp: agrees_def ladder_def)
  then show "case evaluateGovernorChokepointGate pd appendRow i of
      Inl _ \<Rightarrow> True
    | Inr r \<Rightarrow> gr_rateLimitBuckets r = in_rateLimitBuckets i \<and> gr_rateLimitBackoffAttempts r = in_rateLimitBackoffAttempts i"
    by (simp add: evaluateGovernorChokepointGate_def Let_def split: sum.split)
  have "\<not> submittable pd session tb (pc_candidate pc)"
    using assms(2,6) by (auto simp: submittable_def isMinerKillSwitchActive_def)
  then show "case fst (prepareOpenPrSubmission pd session t pc tb) of Inl _ \<Rightarrow> True | Inr res \<Rightarrow> pr_openPrInput res = None"
    using prepareOpenPr_outcome[OF assms(5), where parse_date = pd and session = session and createdAt = t and pc = pc]
    by (auto split: prod.splits sum.splits)
  have wf: "table_wf (rw_ledger w)" using assms(7) empty_table_wf by (rule ledger_steps_wf)
  have "ri_killSwitchScope c \<noteq> KsNone" using assms(2,8) by (auto simp: isMinerKillSwitchActive_def)
  from killed_reentry_keeps_queue[OF wf this, where pd = pd and dq = dq and rs = rs and now = now and session = session
      and ls = ls and createdAt = t]
  show "rw_queue (snd (attemptLoopReentry pd dq rs now session ls t c w)) = rw_queue w"
    "rw_runStates (snd (attemptLoopReentry pd dq rs now session ls t c w)) = rw_runStates w"
    by (metis prod.collapse)+
qed

section \<open>From a decision to the command that opens the pull request\<close>

definition open_pr_command :: "OpenPrInput \<Rightarrow> string" where
  "open_pr_command p = lw_command (buildOpenPrSpec (op_repoFullName p) (op_base p) (op_head p) (op_title p) (op_body p)
     (Some (op_draft p)))"

text \<open>C36: the command that opens a pull request says what was decided. When a submission is prepared, the candidate passed
  every condition of the submission gate, and the shell reads the command built from the payload as exactly one
  \<open>gh pr create\<close> call whose arguments are the trimmed repository, base, branch and title (none of them blank) and the
  body as given; no text in them can add an argument or a command.\<close>

theorem submitted_command_is_exact:
  assumes "ledger_step\<^sup>*\<^sup>* empty_table tb"
    and "prepareOpenPrSubmission pd session t pc tb = (Inr res, tb')" "pr_openPrInput res = Some p"
  shows "submittable pd session tb (pc_candidate pc) \<and>
    sh_commands (open_pr_command p) =
      Some [[''gh'', ''pr'', ''create'', ''--repo'', trim (hc_repoFullName (pc_candidate pc)), ''--base'', trim (pc_base pc),
        ''--head'', trim (the (hp_branchRef (hc_handoffPacket (pc_candidate pc)))), ''--title'', trim (pc_title pc),
        ''--body'', op_body p] @ (if op_draft p then [''--draft''] else [])] \<and>
    [] \<notin> {op_repoFullName p, op_base p, op_title p, op_head p}"
  using prepareOpenPr_outcome[OF assms(1), where parse_date = pd and session = session and createdAt = t and pc = pc] assms(2,3)
  by (auto simp: open_pr_command_def command_defs buildOpenPrSpec_def)

section \<open>Witnesses\<close>

theorem reentry_takes_the_queue_head_witness:
  "\<exists>out w'. attemptLoopReentry (\<lambda>_. Fin 5) (store_dequeue ''t'') True (Fin 5) None JUndef ''t'' (rc_candidate sample_reentry)
      \<lparr>rw_ledger = empty_table, rw_queue = [sample_row 1 ''a'' 1, sample_row 2 ''b'' 2], rw_runStates = []\<rparr> = (out, w') \<and>
    queue_step\<^sup>*\<^sup>* [] (rw_queue w')"
proof -
  let ?w = "\<lparr>rw_ledger = empty_table, rw_queue = [sample_row 1 ''a'' 1, sample_row 2 ''b'' 2], rw_runStates = []\<rparr>"
  obtain out w' where a: "attemptLoopReentry (\<lambda>_. Fin 5) (store_dequeue ''t'') True (Fin 5) None JUndef ''t''
      (rc_candidate sample_reentry) ?w = (out, w')" by fastforce
  have "ledger_step\<^sup>*\<^sup>* empty_table (rw_ledger ?w)" "queue_step\<^sup>*\<^sup>* [] (rw_queue ?w)"
    "json_rt (null_for_undef JUndef) = null_for_undef JUndef"
    using sample_rows by (simp_all add: null_for_undef_def)
  from reentry_takes_the_queue_head[OF this a] a show ?thesis by blast
qed

theorem kill_switch_stops_every_gate_witness:
  "\<not> gd_allowed (evaluateGovernorChokepoint (\<lambda>_. Fin 5) ((sample_write 0)\<lparr>in_killSwitchGlobal := True, in_killSwitchRepoPaused := None\<rparr>))
    \<and> rw_queue (snd (attemptLoopReentry (\<lambda>_. Fin 5) sample_dequeue True (Fin 5) None JUndef ''t''
        ((rc_candidate sample_reentry)\<lparr>ri_killSwitchScope := KsGlobal\<rparr>) sample_world)) = 9"
  using kill_switch_stops_every_gate[where g = True and p = None and scope = KsGlobal and pd = "\<lambda>_. Fin 5"
      and i = "(sample_write 0)\<lparr>in_killSwitchGlobal := True, in_killSwitchRepoPaused := None\<rparr>" and tb = empty_table
      and pc = "\<lparr>pc_candidate = sample_candidate KsGlobal, pc_base = ''main'', pc_title = ''Fix'', pc_body = None, pc_draft = None\<rparr>"
      and w = sample_world and c = "(rc_candidate sample_reentry)\<lparr>ri_killSwitchScope := KsGlobal\<rparr>" and appendRow = "\<lambda>_. Inl ''x''"
      and session = None and t = "''t''" and dq = sample_dequeue and rs = True and now = "Fin 5" and ls = JUndef]
  by (auto simp: resolveMinerKillSwitch_def isMinerKillSwitchActive_def sample_candidate_def sample_world_def)

theorem submitted_command_is_exact_witness:
  "\<exists>res tb' p. prepareOpenPrSubmission (\<lambda>_. Fin 5) None ''t''
     \<lparr>pc_candidate = sample_candidate KsNone, pc_base = ''main'', pc_title = ''Fix'', pc_body = None, pc_draft = None\<rparr>
     empty_table = (Inr res, tb') \<and> pr_openPrInput res = Some p \<and>
     sh_commands (open_pr_command p) = Some [[''gh'', ''pr'', ''create'', ''--repo'', ''o/r'', ''--base'', ''main'', ''--head'', ''fix'',
       ''--title'', ''Fix'', ''--body'', op_body p] @ (if op_draft p then [''--draft''] else [])]"
proof -
  obtain res tb' p where r: "prepareOpenPrSubmission (\<lambda>_. Fin 5) None ''t''
     \<lparr>pc_candidate = sample_candidate KsNone, pc_base = ''main'', pc_title = ''Fix'', pc_body = None, pc_draft = None\<rparr>
     empty_table = (Inr res, tb')" "pr_openPrInput res = Some p" using sample_prepared by blast
  have tr: "trim ''main'' = ''main''" "trim ''Fix'' = ''Fix''" "trim ''fix'' = ''fix''" "trim ''o/r'' = ''o/r''"
    by (simp_all add: trim_fix is_ws_def)
  show ?thesis using submitted_command_is_exact[OF _ r] r tr
    by (auto simp: sample_candidate_def sample_packet_def)
qed

section \<open>The iterate loop under the modelled gate\<close>

text \<open>The arguments the self-review of an attempt passes to the predicted gate.\<close>

definition attempt_args :: "context_view \<Rightarrow> IterateLoopInput \<Rightarrow> CodingAgentDriverResult \<Rightarrow> verdict_args" where
  "attempt_args cv input dr =
     (let ctx = li_reviewContext input; ds = buildAttemptDiffState input dr
      in view_args cv
        \<lparr>pg_input = buildSelfReviewPredictedGateInput ds, pg_manifest = rc_manifest ctx, pg_repo = rc_repo ctx,
         pg_issues = rc_issues ctx, pg_pullRequests = rc_pullRequests ctx, pg_bounties = rc_bounties ctx,
         pg_issueQuality = rc_issueQuality ctx, pg_confirmedContributor = rc_confirmedContributor ctx,
         pg_changedPaths = buildSelfReviewChangedPaths ds\<rparr>)"

lemma attempt_paths: "changed_paths (attempt_args cv input dr) = filter (\<lambda>p. p \<noteq> []) (dr_changedFiles dr)"
  by (simp add: changed_paths_def attempt_args_def view_args_def buildSelfReviewChangedPaths_def buildAttemptDiffState_def
      or_default_def comp_def Let_def)

lemma attempt_manifest: "va_manifest (attempt_args cv input dr) = cv_manifest cv (rc_manifest (li_reviewContext input))"
  by (simp add: attempt_args_def view_args_def Let_def)

lemma attempt_review:
  assumes "runSelfReview (loop_gate pe cv) slop (buildAttemptDiffState input dr) (li_reviewContext input) = Inr v"
  shows "rv_predictedGateVerdict v = buildPredictedGateVerdict pe (attempt_args cv input dr)"
  using assms by (cases "slop (buildSelfReviewSlopInput (buildAttemptDiffState input dr) (li_reviewContext input))")
    (auto simp: runSelfReview_def loop_gate_def attempt_args_def Let_def)

text \<open>C2: A handed-off attempt passes the predicted gate. When the loop runs with the modelled gate, an attempt it hands off is
  the diff of a successful driver run (of the shadow run when the mode is dry-run) for which every group of rules the
  predicted gate evaluates holds: the linked-issue and duplicate rules, the applicable enforced checks, the license rule,
  the path rules (required linked issue and missing tests under a blocking manifest policy, the guardrails) and the size
  hold. In particular none of its changed files matches a guardrail glob.\<close>

theorem handoff_passes_the_gate:
  assumes "runIterateLoop input deps w = (Inr r, w')" "lr_outcome (lo_core r) = OutHandoff"
    and "dp_buildPredictedGateVerdict deps = loop_gate pe cv"
  shows "\<exists>dr v. lr_handoffPacket (lo_core r) = Some (buildHandoffPacket input v dr) \<and> dr_ok dr \<and>
    issues_in_order pe (attempt_args cv input dr) \<and> checks_in_order pe (attempt_args cv input dr) \<and>
    license_in_order (attempt_args cv input dr) \<and> paths_in_order pe (attempt_args cv input dr) \<and>
    size_in_order (attempt_args cv input dr) \<and>
    (\<forall>path \<in> set (dr_changedFiles dr). path \<noteq> [] \<longrightarrow>
       \<not> matchesAny path (resolveHardGuardrailGlobs (Some (fm_settings (cv_manifest cv (rc_manifest (li_reviewContext input)))))))"
proof -
  let ?globs = "resolveHardGuardrailGlobs (Some (fm_settings (cv_manifest cv (rc_manifest (li_reviewContext input)))))"
  have "handoff_justified input deps (lo_core r)"
    using assms(1,2) runIterateLoopCore_handoff by (auto simp: runIterateLoop_def split: prod.splits sum.splits)
  then obtain dr v where packet: "lr_handoffPacket (lo_core r) = Some (buildHandoffPacket input v dr)" "dr_ok dr"
    and rev: "runSelfReview (loop_gate pe cv) (dp_runSlopAssessment deps) (buildAttemptDiffState input dr) (li_reviewContext input) = Inr v"
    and ok: "pv_conclusion (rv_predictedGateVerdict v) = ConclSuccess"
    unfolding handoff_justified_def assms(3) by blast
  let ?a = "attempt_args cv input dr"
  have pass: "issues_in_order pe ?a \<and> checks_in_order pe ?a \<and> license_in_order ?a \<and> paths_in_order pe ?a \<and> size_in_order ?a"
    using ok unfolding attempt_review[OF rev] predicted_success .
  have "\<not> matchesAny path ?globs" if "path \<in> set (dr_changedFiles dr)" "path \<noteq> []" for path
  proof -
    have mem: "path \<in> set (changed_paths ?a)" using that by (simp add: attempt_paths)
    then have "\<not> isGuardrailHit (changed_paths ?a) ?globs"
      using pass by (auto simp: paths_in_order_def attempt_manifest Let_def)
    then have "changedPathsHittingGuardrail (changed_paths ?a) ?globs = []"
      by (auto simp: isGuardrailHit_def changedPathsHittingGuardrail_def split: if_splits)
    then show ?thesis
      using mem that(2) by (auto simp: changedPathsHittingGuardrail_def filter_empty_conv matchesAny_def split: if_splits)
  qed
  then show ?thesis using packet pass by blast
qed

text \<open>A driver that edits one file, reviewed by the modelled gate on a repository with the default manifest.\<close>

definition readme_driver :: CodingAgentDriver where
  "readme_driver n task = Inr (bare_result True (lit ''edited'') \<lparr>dr_changedFiles := [''README.md''], dr_turnsUsed := Some (Fin 0)\<rparr>)"

definition readme_view :: context_view where
  "readme_view = \<lparr>cv_manifest = (\<lambda>_. sample_manifest), cv_repo = (\<lambda>_. va_repo (sample_args [])),
     cv_issue = (\<lambda>_. \<lparr>ir_repoFullName = [], ir_number = 0, ir_authorLogin = None\<rparr>),
     cv_pullRequest = (\<lambda>_. syntheticPr sample_predictor (sample_args []))\<rparr>"

definition readme_deps :: IterateLoopDeps where
  "readme_deps = (sample_deps ConclSuccess)\<lparr>dp_driver := readme_driver,
     dp_buildPredictedGateVerdict := loop_gate sample_predictor readme_view\<rparr>"

definition readme_review :: SelfReviewVerdict where
  "readme_review = \<lparr>rv_predictedGateVerdict = buildPredictedGateVerdict sample_predictor (sample_args [''README.md'']),
     rv_slopAssessment = \<lparr>sa_slopRisk = Fin 0, sa_band = Clean, sa_findings = []\<rparr>, rv_changedPaths = [''README.md''],
     rv_passesPredictedGate = True\<rparr>"

lemma readme_reviewed:
  assumes "dr_changedFiles dr = [''README.md'']"
  shows "runSelfReview (loop_gate sample_predictor readme_view) (\<lambda>_. Inr \<lparr>sa_slopRisk = Fin 0, sa_band = Clean, sa_findings = []\<rparr>)
    (buildAttemptDiffState sample_input dr) (li_reviewContext sample_input) = Inr readme_review"
proof -
  have "attempt_args readme_view sample_input dr = sample_args [''README.md'']"
    using assms by (simp add: attempt_args_def view_args_def readme_view_def sample_args_def sample_input_def sample_context_def
        buildSelfReviewPredictedGateInput_def buildSelfReviewChangedPaths_def buildAttemptDiffState_def Let_def)
  moreover have "buildSelfReviewChangedPaths (buildAttemptDiffState sample_input dr) = [''README.md'']"
    using assms by (simp add: buildSelfReviewChangedPaths_def buildAttemptDiffState_def)
  ultimately show ?thesis
    using sample_passes by (simp add: runSelfReview_def loop_gate_def attempt_args_def readme_review_def isClearPass_def
        SELF_REVIEW_PASSING_CONCLUSION_def Let_def)
qed

lemma readme_handoff:
  "\<exists>r w'. runIterateLoop sample_input readme_deps fresh_world = (Inr r, w') \<and> lr_outcome (lo_core r) = OutHandoff"
proof -
  have fields: "li_maxIterations sample_input = Fin 2" "li_mode sample_input = CmLive" "\<not> li_rejectionSignaled sample_input"
    "li_autonomyLevel sample_input = None" "li_budget sample_input = Some \<lparr>ab_maxTokens = None, ab_maxTurns = Some (Fin 9),
       ab_maxWallClockMs = None, ab_maxCostUsd = None\<rparr>" by (simp_all add: sample_input_def)
  show ?thesis
    unfolding runIterateLoop_def runIterateLoopCore_def permitted_iterations_def
    by (simp add: iterateFrom.simps fields readme_deps_def readme_driver_def sample_deps_def fresh_world_def initial_state_def
        readme_reviewed readme_review_def logStart_def runIteration_def resolveShouldAbort_def runTimedDriver_def runDriverSafely_def
        codingAgentModeExecutes_def driver_run_def bare_result_def meterIteration_def
        accumulateAttemptUsage_def assertAttemptUsage_def assertNonNegativeFiniteNumber_def iteration_usage_def
        finiteNonNegativeUsage_def evaluateAttemptBudget_def assertAttemptBudget_def assertOptional_def
        budget_breaches_def at_ceiling_def decideIteration_def evaluateSelfReviewOutcome_def
        deriveSelfReviewOutcome_def iteration_state_def
        decideNextActionWithReason_def handoffDecision_def core_result_def ZERO_METER_TOTALS_def Let_def num_of_rat_small)
qed

theorem handoff_passes_the_gate_witness:
  "\<exists>r w' dr v. runIterateLoop sample_input readme_deps fresh_world = (Inr r, w') \<and>
     lr_handoffPacket (lo_core r) = Some (buildHandoffPacket sample_input v dr) \<and>
     license_in_order (attempt_args readme_view sample_input dr)"
proof -
  have "dp_buildPredictedGateVerdict readme_deps = loop_gate sample_predictor readme_view" by (simp add: readme_deps_def)
  then show ?thesis using readme_handoff handoff_passes_the_gate by blast
qed

end
